(* ===== verification/RRL_Prelude.thy ===== *)
theory RRL_Prelude
  imports Main "HOL-Library.Word"
begin

unbundle bit_operations_syntax

text \<open>
  Shared vocabulary of the development: the fixed-width integer types of
  include/robotraconteurlite/config.h, the status codes of err.h, wrap-around arithmetic on
  \<open>robotraconteurlite_size_t\<close>, the little-endian byte representation that the raw
  \<open>memcpy\<close> of an integer produces, and the combinator that runs a sequence of C statements
  each of which may return early with a status.
\<close>

named_theorems sz_simps "size_t arithmetic that does not wrap"
named_theorems codec_simps "encodings of the wire fields and their lengths"
named_theorems step_simps "unfolding one statement of a statement sequence"


section \<open>Integer types\<close>

type_synonym byte = "8 word"
type_synonym u8 = "8 word"
type_synonym u16 = "16 word"
type_synonym u32 = "32 word"
type_synonym i32 = "32 word"

text \<open>
  \<open>size_t\<close> is 64 bits wide; values are kept as naturals and every operation reduces
  modulo \<open>2 ^ 64\<close>, as C's unsigned arithmetic does.
\<close>

type_synonym size_t = nat

definition SIZE_T_MAX :: size_t where
  "SIZE_T_MAX = 18446744073709551615"

definition UINT16_MAX :: nat where
  "UINT16_MAX = 65535"

definition UINT32_MAX :: nat where
  "UINT32_MAX = 4294967295"

definition sz_add :: "size_t \<Rightarrow> size_t \<Rightarrow> size_t" where
  "sz_add a b = (a + b) mod 2 ^ 64"

definition sz_sub :: "size_t \<Rightarrow> size_t \<Rightarrow> size_t" where
  "sz_sub a b = (a + (2 ^ 64 - b)) mod 2 ^ 64"

definition sz_mul :: "size_t \<Rightarrow> size_t \<Rightarrow> size_t" where
  "sz_mul a b = (a * b) mod 2 ^ 64"

lemma sz_add_nowrap [sz_simps]: "a + b < 2 ^ 64 \<Longrightarrow> sz_add a b = a + b"
  by (simp add: sz_add_def)

lemma sz_sub_nowrap [sz_simps]: "b \<le> a \<Longrightarrow> a < 2 ^ 64 \<Longrightarrow> sz_sub a b = a - b"
proof -
  assume ba: "b \<le> a" and a: "a < 2 ^ 64"
  then have "a + (2 ^ 64 - b) = 2 ^ 64 + (a - b)" by simp
  then have "sz_sub a b = (a - b) mod 2 ^ 64" by (simp only: sz_sub_def mod_add_self1)
  then show ?thesis using a by simp
qed

lemma sz_mul_nowrap [sz_simps]: "a * b < 2 ^ 64 \<Longrightarrow> sz_mul a b = a * b"
  by (simp add: sz_mul_def)

lemma sz_add_lt [simp]: "sz_add a b < 2 ^ 64"
  by (simp add: sz_add_def)

lemma sz_add_0_right [simp]: "a < 2 ^ 64 \<Longrightarrow> sz_add a 0 = a"
  by (simp add: sz_add_def)


section \<open>Status codes\<close>

text \<open>
  The failure codes of err.h. \<open>UNDEFINED_BEHAVIOUR\<close> is not one of them: it marks the runs
  on which the C program accesses memory outside an object, so that the absence of such an
  access is a statement of the logic.
\<close>

datatype error =
    GENERIC_ERROR | INVALID_ARGUMENT | INVALID_OPERATION | OUT_OF_RANGE | INVALID_VERSION
  | DATA_ERROR | KEY_NOT_FOUND | NOT_IMPLEMENTED | NO_MORE | BUSY | NO_VALUE | TIMEOUT
  | PROTOCOL | MESSAGEELEMENT_NOT_FOUND | MESSAGEELEMENT_TYPE_MISMATCH | CONNECTION_ERROR
  | RETRY | CONSUMED | INTERNAL_ERROR | UNHANDLED_EVENT | REQUEST_REMOTE_ERROR
  | INVALID_PARAMETER | SYSTEM_ERROR | MEMBER_NOT_FOUND | IN_PROGRESS
  | UNDEFINED_BEHAVIOUR

datatype status = OK | Err error

fun FAILED :: "status \<Rightarrow> bool" where
  "FAILED OK = False"
| "FAILED (Err e) = True"

lemma FAILED_iff [simp]: "FAILED st \<longleftrightarrow> st \<noteq> OK"
  by (cases st) auto

text \<open>The numeric value of each code, as err.h defines it.\<close>

fun error_code :: "error \<Rightarrow> int option" where
  "error_code GENERIC_ERROR = Some (-1)"
| "error_code INVALID_ARGUMENT = Some (-2)"
| "error_code INVALID_OPERATION = Some (-3)"
| "error_code OUT_OF_RANGE = Some (-4)"
| "error_code INVALID_VERSION = Some (-5)"
| "error_code DATA_ERROR = Some (-6)"
| "error_code KEY_NOT_FOUND = Some (-7)"
| "error_code NOT_IMPLEMENTED = Some (-8)"
| "error_code NO_MORE = Some (-9)"
| "error_code BUSY = Some (-10)"
| "error_code NO_VALUE = Some (-11)"
| "error_code TIMEOUT = Some (-12)"
| "error_code PROTOCOL = Some (-13)"
| "error_code MESSAGEELEMENT_NOT_FOUND = Some (-14)"
| "error_code MESSAGEELEMENT_TYPE_MISMATCH = Some (-15)"
| "error_code CONNECTION_ERROR = Some (-16)"
| "error_code RETRY = Some (-17)"
| "error_code CONSUMED = Some (-18)"
| "error_code INTERNAL_ERROR = Some (-19)"
| "error_code UNHANDLED_EVENT = Some (-20)"
| "error_code REQUEST_REMOTE_ERROR = Some (-21)"
| "error_code INVALID_PARAMETER = Some (-22)"
| "error_code SYSTEM_ERROR = Some (-23)"
| "error_code MEMBER_NOT_FOUND = Some (-24)"
| "error_code IN_PROGRESS = Some (-25)"
| "error_code UNDEFINED_BEHAVIOUR = None"

text \<open>\<open>robotraconteurlite_is_success\<close>: a status is a success when it is not negative.\<close>

definition is_success :: "int \<Rightarrow> bool" where
  "is_success st \<longleftrightarrow> 0 \<le> st"


text \<open>The flag macros of util.h, for flag words of any width.\<close>

definition FLAGS_CHECK :: "'a::len word \<Rightarrow> 'a word \<Rightarrow> bool" where
  "FLAGS_CHECK flags m \<longleftrightarrow> flags AND m \<noteq> 0"

definition FLAGS_SET :: "'a::len word \<Rightarrow> 'a word \<Rightarrow> 'a word" where
  "FLAGS_SET flags m = flags OR m"

definition FLAGS_CLEAR :: "'a::len word \<Rightarrow> 'a word \<Rightarrow> 'a word" where
  "FLAGS_CLEAR flags m = flags AND NOT m"

text \<open>The next computation of a sequence that gives up at the first failure.\<close>

definition and_then :: "error + 'a \<Rightarrow> ('a \<Rightarrow> error + 'b) \<Rightarrow> error + 'b" where
  "and_then r f = (case r of Inl e \<Rightarrow> Inl e | Inr v \<Rightarrow> f v)"

lemma and_then_simps [simp]: "and_then (Inl e) f = Inl e" "and_then (Inr v) f = f v"
  by (simp_all add: and_then_def)


section \<open>Statement sequences\<close>

text \<open>
  A C function of this program is a sequence of statements over its local variables, its
  out-parameters and the buffer; after nearly every one stands
  \<open>if (FAILED(rv)) return rv;\<close>. The frame \<open>'s\<close> holds those variables, a statement is
  a function on the frame that also gives its status, and \<open>run_steps\<close> runs a sequence up
  to the first failure. The frame is kept on failure: what was written before the early return
  stays written.
\<close>

type_synonym 's step = "'s \<Rightarrow> status \<times> 's"

fun run_steps :: "'s step list \<Rightarrow> 's step" where
  "run_steps [] s = (OK, s)"
| "run_steps (a # as) s =
     (case a s of (OK, s') \<Rightarrow> run_steps as s' | (Err e, s') \<Rightarrow> (Err e, s'))"

text \<open>An assignment that cannot fail, a guarded block, and a check with an early return.\<close>

definition assign :: "('s \<Rightarrow> 's) \<Rightarrow> 's step" where
  "assign f s = (OK, f s)"

definition if_steps :: "('s \<Rightarrow> bool) \<Rightarrow> 's step list \<Rightarrow> 's step list \<Rightarrow> 's step" where
  "if_steps c xs ys s = (if c s then run_steps xs s else run_steps ys s)"

definition return_if :: "('s \<Rightarrow> bool) \<Rightarrow> error \<Rightarrow> 's step" where
  "return_if c e s = (if c s then (Err e, s) else (OK, s))"

lemma run_steps_append:
  "run_steps (xs @ ys) s =
     (case run_steps xs s of (OK, s') \<Rightarrow> run_steps ys s' | (Err e, s') \<Rightarrow> (Err e, s'))"
  by (induction xs arbitrary: s) (auto split: prod.splits status.splits)

lemma run_steps_appendI:
  "run_steps xs s = (OK, s') \<Longrightarrow> run_steps (xs @ ys) s = run_steps ys s'"
  by (simp add: run_steps_append)

lemma run_steps_append_err:
  "run_steps xs s = (Err e, s') \<Longrightarrow> run_steps (xs @ ys) s = (Err e, s')"
  by (simp add: run_steps_append)

lemma run_steps_ConsI:
  "a s = (OK, s') \<Longrightarrow> run_steps (a # as) s = run_steps as s'"
  by simp

lemma run_assign [step_simps]: "run_steps (assign f # as) s = run_steps as (f s)"
  by (simp add: assign_def)

lemma run_return_if [step_simps]:
  "run_steps (return_if c e # as) s = (if c s then (Err e, s) else run_steps as s)"
  by (simp add: return_if_def)

text \<open>
  \<open>safe I E a J\<close>: from a frame with \<open>I\<close> the statement either succeeds and
  establishes \<open>J\<close>, or fails with one of the codes \<open>E\<close>. The form in which the absence
  of undefined behaviour is proved of the long header routines.
\<close>

definition safe :: "('s \<Rightarrow> bool) \<Rightarrow> error set \<Rightarrow> 's step \<Rightarrow> ('s \<Rightarrow> bool) \<Rightarrow> bool" where
  "safe I E a J \<longleftrightarrow>
     (\<forall>s. I s \<longrightarrow> (case a s of (OK, s') \<Rightarrow> J s' | (Err e, s') \<Rightarrow> e \<in> E))"

lemma safeD: "safe I E a J \<Longrightarrow> I s \<Longrightarrow> a s = (OK, s') \<Longrightarrow> J s'"
  and safe_err: "safe I E a J \<Longrightarrow> I s \<Longrightarrow> a s = (Err e, s') \<Longrightarrow> e \<in> E"
  by (fastforce simp: safe_def)+

lemma safe_Nil: "safe I E (run_steps []) I"
  by (simp add: safe_def)

lemma safe_Cons:
  "safe I E a J \<Longrightarrow> safe J E (run_steps as) K \<Longrightarrow> safe I E (run_steps (a # as)) K"
  by (fastforce simp: safe_def split: prod.splits status.splits)

lemma safe_append:
  "safe I E (run_steps as) J \<Longrightarrow> safe J E (run_steps bs) K \<Longrightarrow> safe I E (run_steps (as @ bs)) K"
  by (fastforce simp: safe_def run_steps_append split: prod.splits status.splits)

lemma safe_if:
  "safe I E (run_steps xs) J \<Longrightarrow> safe I E (run_steps ys) J \<Longrightarrow> safe I E (if_steps c xs ys) J"
  by (simp add: safe_def if_steps_def)

lemma safe_assign: "(\<And>s. I s \<Longrightarrow> J (f s)) \<Longrightarrow> safe I E (assign f) J"
  by (simp add: safe_def assign_def)

lemma safe_return_if: "e \<in> E \<Longrightarrow> safe I E (return_if c e) I"
  by (simp add: safe_def return_if_def)

lemma safe_post: "safe I E a J \<Longrightarrow> (\<And>s. J s \<Longrightarrow> K s) \<Longrightarrow> safe I E a K"
  by (fastforce simp: safe_def split: prod.splits status.splits)

lemma safe_Cons_inv:
  "safe I E a I \<Longrightarrow> safe I E (run_steps as) I \<Longrightarrow> safe I E (run_steps (a # as)) I"
  by (rule safe_Cons)

text \<open>The rules for a sequence that keeps one invariant.\<close>

lemmas safe_intros = safe_Nil safe_Cons_inv safe_if safe_assign safe_return_if


section \<open>Little-endian integers\<close>

text \<open>
  The program stores integers with \<open>memcpy\<close> from their object representation. On the
  little-endian hosts the protocol is defined for, that is the least significant byte first.
\<close>

fun le_bytes :: "nat \<Rightarrow> nat \<Rightarrow> byte list" where
  "le_bytes 0 x = []"
| "le_bytes (Suc n) x = word_of_nat (x mod 256) # le_bytes n (x div 256)"

fun le_val :: "byte list \<Rightarrow> nat" where
  "le_val [] = 0"
| "le_val (b # bs) = unat b + 256 * le_val bs"

lemma length_le_bytes [simp]: "length (le_bytes n x) = n"
  by (induction n arbitrary: x) auto

lemma le_val_le_bytes: "le_val (le_bytes n x) = x mod 256 ^ n"
proof (induction n arbitrary: x)
  case 0
  then show ?case by simp
next
  case (Suc n)
  have "unat (word_of_nat (x mod 256) :: byte) = x mod 256"
    by (simp add: unat_of_nat)
  then show ?case
    using Suc by (simp add: mod_mult2_eq [of x 256 "256 ^ n"])
qed

lemma le_val_lt: "le_val bs < 256 ^ length bs"
proof (induction bs)
  case Nil
  then show ?case by simp
next
  case (Cons b bs)
  have "unat b < 256" using unsigned_less [of b] by simp
  then show ?case using Cons by simp
qed

lemma le_bytes_le_val: "length bs = n \<Longrightarrow> le_bytes n (le_val bs) = bs"
proof (induction bs arbitrary: n)
  case Nil
  then show ?case by simp
next
  case (Cons b bs)
  have b: "unat b < 256" using unsigned_less [of b] by simp
  show ?case using Cons b by auto
qed

lemma unat_u32_lt: "unat (v :: u32) < 4294967296"
  using unsigned_less [of v] by simp

lemma unat_u16_lt: "unat (v :: u16) < 65536"
  using unsigned_less [of v] by simp

lemma unat_u8_lt: "unat (v :: u8) < 256"
  using unsigned_less [of v] by simp

definition u32_bytes :: "u32 \<Rightarrow> byte list" where
  "u32_bytes v = le_bytes 4 (unat v)"

definition u16_bytes :: "u16 \<Rightarrow> byte list" where
  "u16_bytes v = le_bytes 2 (unat v)"

definition bytes_u32 :: "byte list \<Rightarrow> u32" where
  "bytes_u32 bs = word_of_nat (le_val bs)"

definition bytes_u16 :: "byte list \<Rightarrow> u16" where
  "bytes_u16 bs = word_of_nat (le_val bs)"

lemma length_u32_bytes [simp, codec_simps]: "length (u32_bytes v) = 4"
  by (simp add: u32_bytes_def)

lemma length_u16_bytes [simp, codec_simps]: "length (u16_bytes v) = 2"
  by (simp add: u16_bytes_def)

lemma bytes_u32_u32_bytes [simp, codec_simps]: "bytes_u32 (u32_bytes v) = v"
  using unat_u32_lt [of v]
  by (simp add: bytes_u32_def u32_bytes_def le_val_le_bytes)

lemma bytes_u16_u16_bytes [simp, codec_simps]: "bytes_u16 (u16_bytes v) = v"
  using unat_u16_lt [of v]
  by (simp add: bytes_u16_def u16_bytes_def le_val_le_bytes)


section \<open>Overwriting and slicing byte sequences\<close>

definition overwrite :: "'a list \<Rightarrow> nat \<Rightarrow> 'a list \<Rightarrow> 'a list" where
  "overwrite xs p ys = take p xs @ ys @ drop (p + length ys) xs"

definition chunk :: "'a list \<Rightarrow> nat \<Rightarrow> nat \<Rightarrow> 'a list" where
  "chunk xs p n = take n (drop p xs)"

lemma length_overwrite [simp]:
  "p + length ys \<le> length xs \<Longrightarrow> length (overwrite xs p ys) = length xs"
  by (simp add: overwrite_def)

lemma overwrite_Nil [simp]: "overwrite xs p [] = xs"
  by (simp add: overwrite_def)

lemma overwrite_overwrite_adjacent:
  "p + length ys + length zs \<le> length xs \<Longrightarrow>
     overwrite (overwrite xs p ys) (p + length ys) zs = overwrite xs p (ys @ zs)"
  by (cases ys) (auto simp: overwrite_def min_def ac_simps)

lemma nth_overwrite:
  "p + length ys \<le> length xs \<Longrightarrow> i < length xs \<Longrightarrow>
     overwrite xs p ys ! i = (if p \<le> i \<and> i < p + length ys then ys ! (i - p) else xs ! i)"
  by (auto simp: overwrite_def nth_append)

lemma length_chunk [simp]: "p + n \<le> length xs \<Longrightarrow> length (chunk xs p n) = n"
  by (simp add: chunk_def)

lemma chunk_0 [simp]: "chunk xs p 0 = []"
  by (simp add: chunk_def)

lemma chunk_full [simp]: "n = length xs \<Longrightarrow> chunk xs 0 n = xs"
  by (simp add: chunk_def)

lemma nth_chunk: "p + n \<le> length xs \<Longrightarrow> i < n \<Longrightarrow> chunk xs p n ! i = xs ! (p + i)"
  by (simp add: chunk_def)

lemma chunk_overwrite_same:
  "p + length ys \<le> length xs \<Longrightarrow> chunk (overwrite xs p ys) p (length ys) = ys"
  by (simp add: chunk_def overwrite_def)

lemma chunk_overwrite_disjoint:
  assumes "p + length ys \<le> length xs" and "q + n \<le> length xs"
    and "q + n \<le> p \<or> p + length ys \<le> q"
  shows "chunk (overwrite xs p ys) q n = chunk xs q n"
  by (rule nth_equalityI) (use assms in \<open>auto simp: nth_chunk nth_overwrite\<close>)

lemma chunk_add: "chunk xs p (m + n) = chunk xs p m @ chunk xs (p + m) n"
  by (simp add: chunk_def take_add add.commute)

lemma chunk_chunk: "i + m \<le> n \<Longrightarrow> chunk (chunk xs p n) i m = chunk xs (p + i) m"
  by (simp add: chunk_def drop_take min_def add.commute)

lemma overwrite_chunk_prefix:
  "p + n \<le> length xs \<Longrightarrow> length ys = n \<Longrightarrow> drop p (overwrite xs p ys) = ys @ drop (p + n) xs"
  by (simp add: overwrite_def)

lemma overwrite_commute:
  assumes "p + length ys \<le> length xs" and "q + length zs \<le> length xs"
    and "q + length zs \<le> p \<or> p + length ys \<le> q"
  shows "overwrite (overwrite xs p ys) q zs = overwrite (overwrite xs q zs) p ys"
  by (rule nth_equalityI) (use assms in \<open>auto simp: nth_overwrite\<close>)

text \<open>Overwriting inside one list of a list of lists is overwriting inside the concatenation.\<close>

lemma concat_update:
  assumes "i < length xss" and "length ys = length (xss ! i)"
  shows "concat (xss[i := ys]) = overwrite (concat xss) (length (concat (take i xss))) ys"
proof -
  have 1: "xss = take i xss @ xss ! i # drop (Suc i) xss"
    using assms(1) by (simp add: id_take_nth_drop)
  have "concat xss = concat (take i xss) @ xss ! i @ concat (drop (Suc i) xss)"
    by (subst 1) simp
  moreover have "concat (xss[i := ys]) = concat (take i xss) @ ys @ concat (drop (Suc i) xss)"
    using assms(1) by (simp add: upd_conv_take_nth_drop)
  ultimately show ?thesis
    using assms(2) by (simp add: overwrite_def)
qed

lemma overwrite_overwrite_inner:
  assumes "p + length xs' \<le> length xs" and "q + length ys \<le> length xs'"
    and "xs' = chunk xs p (length xs')"
  shows "overwrite xs p (overwrite xs' q ys) = overwrite xs (p + q) ys"
proof (rule nth_equalityI)
  show "length (overwrite xs p (overwrite xs' q ys)) = length (overwrite xs (p + q) ys)"
    using assms by simp
next
  fix i assume "i < length (overwrite xs p (overwrite xs' q ys))"
  then have i: "i < length xs" using assms by simp
  have "p \<le> i \<Longrightarrow> i < p + length xs' \<Longrightarrow> xs' ! (i - p) = xs ! i"
    using assms by (metis add_diff_inverse_nat le_add_diff_inverse nat_add_left_cancel_less nth_chunk not_less)
  then show "overwrite xs p (overwrite xs' q ys) ! i = overwrite xs (p + q) ys ! i"
    using i assms by (auto simp: nth_overwrite)
qed

lemma length_concat_take_le: "length (concat (take i xss)) \<le> length (concat xss)"
  by (metis append_take_drop_id concat_append le_add1 length_append)

lemma concat_take_Suc:
  "i < length xss \<Longrightarrow> concat (take (Suc i) xss) = concat (take i xss) @ xss ! i"
  by (simp add: take_Suc_conv_app_nth)

lemma chunk_concat_nth:
  assumes "i < length xss"
  shows "chunk (concat xss) (length (concat (take i xss))) (length (xss ! i)) = xss ! i"
proof -
  have 1: "xss = take i xss @ xss ! i # drop (Suc i) xss"
    using assms by (simp add: id_take_nth_drop)
  have "concat xss = concat (take i xss) @ xss ! i @ concat (drop (Suc i) xss)"
    by (subst 1) simp
  then show ?thesis by (simp add: chunk_def)
qed

lemma chunk_concat_inner:
  assumes "i < length xss" and "q + n \<le> length (xss ! i)"
  shows "chunk (xss ! i) q n = chunk (concat xss) (length (concat (take i xss)) + q) n"
  by (metis assms chunk_chunk chunk_concat_nth)

end
