(* ===== verification/RRL_Buffer.thy ===== *)
theory RRL_Buffer
  imports RRL_Prelude
begin

text \<open>
  The buffer layer of src/array.c: a buffer is a memory block with a length, a buffer vector a
  sequence of blocks that is read and written as if it were one. The section models every
  copying routine of the file with its range checks in wrap-around arithmetic, and shows that the
  segment-by-segment copy is the plain copy on the concatenated bytes.
\<close>


section \<open>Buffers and buffer vectors\<close>

text \<open>
  \<open>buf_data\<close> is the memory the pointer \<open>data\<close> addresses, \<open>buf_len\<close> the field
  \<open>len\<close>: a number of bytes, or of array elements when the routine is given an element size.
\<close>

record buffer =
  buf_data :: "byte list"
  buf_len :: size_t

type_synonym buffer_vec = "buffer list"

definition buffer_init_scalar :: "byte list \<Rightarrow> size_t \<Rightarrow> buffer" where
  "buffer_init_scalar data n = \<lparr>buf_data = data, buf_len = n\<rparr>"

definition buffer_vec_init_scalar :: "buffer \<Rightarrow> buffer_vec" where
  "buffer_vec_init_scalar b = [b]"

definition buffer_length :: "buffer \<Rightarrow> size_t" where
  "buffer_length source = buf_len source"

text \<open>\<open>for (i = 0; i < cnt; i++) *len += buffer_vec[i].len\<close>\<close>

fun buffer_vec_len_from :: "size_t \<Rightarrow> buffer_vec \<Rightarrow> size_t" where
  "buffer_vec_len_from acc [] = acc"
| "buffer_vec_len_from acc (b # bs) = buffer_vec_len_from (sz_add acc (buf_len b)) bs"

definition buffer_vec_len :: "buffer_vec \<Rightarrow> size_t" where
  "buffer_vec_len source = buffer_vec_len_from 0 source"

text \<open>
  \<open>memcpy (&dest[d], &source[s], n)\<close> between two distinct blocks; \<open>None\<close> when it
  touches memory outside one of them.
\<close>

definition mem_copy :: "byte list \<Rightarrow> size_t \<Rightarrow> byte list \<Rightarrow> size_t \<Rightarrow> size_t \<Rightarrow> byte list option" where
  "mem_copy dest d source s n =
     (if s + n \<le> length source \<and> d + n \<le> length dest
      then Some (overwrite dest d (chunk source s n)) else None)"


section \<open>Copying\<close>

definition out_of_bounds :: "size_t \<Rightarrow> size_t \<Rightarrow> size_t \<Rightarrow> size_t \<Rightarrow> size_t \<Rightarrow> size_t \<Rightarrow> bool" where
  "out_of_bounds source_pos source_count source_len dest_pos dest_count dest_len \<longleftrightarrow>
     \<not> source_pos < source_len \<or> source_len < sz_add source_pos source_count \<or>
     \<not> dest_pos < dest_len \<or> dest_len < sz_add dest_pos dest_count"

definition buffer_copy :: "buffer \<Rightarrow> size_t \<Rightarrow> buffer \<Rightarrow> size_t \<Rightarrow> size_t \<Rightarrow> status \<times> buffer" where
  "buffer_copy source source_pos dest dest_pos count =
     (if count = 0 then (OK, dest)
      else if out_of_bounds source_pos count (buf_len source) dest_pos count (buf_len dest)
      then (Err OUT_OF_RANGE, dest)
      else case mem_copy (buf_data dest) dest_pos (buf_data source) source_pos count of
             None \<Rightarrow> (Err UNDEFINED_BEHAVIOUR, dest)
           | Some d \<Rightarrow> (OK, dest\<lparr>buf_data := d\<rparr>))"

definition buffer_copy_ex ::
  "buffer \<Rightarrow> size_t \<Rightarrow> size_t \<Rightarrow> size_t \<Rightarrow> buffer \<Rightarrow> size_t \<Rightarrow> size_t \<Rightarrow> size_t \<Rightarrow> status \<times> buffer"
  where
  "buffer_copy_ex source source_pos source_elem_size source_count
                  dest dest_pos dest_elem_size dest_count =
     (if source_count = 0 \<and> dest_count = 0 then (OK, dest)
      else if sz_mul source_count source_elem_size \<noteq> sz_mul dest_count dest_elem_size
      then (Err OUT_OF_RANGE, dest)
      else if out_of_bounds source_pos source_count (buf_len source)
                            dest_pos dest_count (buf_len dest)
      then (Err OUT_OF_RANGE, dest)
      else case mem_copy (buf_data dest) (sz_mul dest_pos dest_elem_size)
                         (buf_data source) (sz_mul source_pos source_elem_size)
                         (sz_mul source_count source_elem_size) of
             None \<Rightarrow> (Err UNDEFINED_BEHAVIOUR, dest)
           | Some d \<Rightarrow> (OK, dest\<lparr>buf_data := d\<rparr>))"

text \<open>
  \<open>while (cur + vec[i].len * es < pos) { cur += vec[i].len * es; i++; }\<close>, over the
  segments from index \<open>i\<close> on. \<open>None\<close>: the loop reads past the last segment.
\<close>

fun seek_segment :: "size_t \<Rightarrow> buffer_vec \<Rightarrow> nat \<Rightarrow> size_t \<Rightarrow> size_t \<Rightarrow> (nat \<times> size_t) option" where
  "seek_segment es [] i cur p = None"
| "seek_segment es (b # bs) i cur p =
     (if sz_add cur (sz_mul (buf_len b) es) < p
      then seek_segment es bs (Suc i) (sz_add cur (sz_mul (buf_len b) es)) p
      else Some (i, cur))"

text \<open>
  The copying loop: \<open>si\<close>, \<open>sp\<close> are the segment and the byte in it that is read next,
  \<open>di\<close>, \<open>dp\<close> those that are written next, \<open>rem\<close> the bytes still to copy.
\<close>

function copy_loop ::
  "size_t \<Rightarrow> buffer_vec \<Rightarrow> size_t \<Rightarrow> buffer_vec \<Rightarrow> nat \<Rightarrow> size_t \<Rightarrow> nat \<Rightarrow> size_t \<Rightarrow> size_t
     \<Rightarrow> status \<times> buffer_vec" where
  "copy_loop ses src des dst si sp di dp rem =
     (if rem = 0 then (OK, dst)
      else if length src \<le> si \<or> length dst \<le> di then (Err UNDEFINED_BEHAVIOUR, dst)
      else let sdelta = sz_sub (sz_mul (buf_len (src ! si)) ses) sp;
               ddelta = sz_sub (sz_mul (buf_len (dst ! di)) des) dp
           in if sdelta = 0 then copy_loop ses src des dst (Suc si) 0 di dp rem
              else if ddelta = 0 then copy_loop ses src des dst si sp (Suc di) 0 rem
              else let delta = min rem (min sdelta ddelta)
                   in case mem_copy (buf_data (dst ! di)) dp (buf_data (src ! si)) sp delta of
                        None \<Rightarrow> (Err UNDEFINED_BEHAVIOUR, dst)
                      | Some d \<Rightarrow>
                          copy_loop ses src des (dst[di := (dst ! di)\<lparr>buf_data := d\<rparr>])
                                    si (sz_add sp delta) di (sz_add dp delta) (rem - delta))"
  by pat_completeness auto
termination
  by (relation "measure (\<lambda>(ses, src, des, dst, si, sp, di, dp, rem).
                   (length src - si) + (length dst - di) + rem)") auto

declare copy_loop.simps [simp del]

definition buffer_vec_copy_vec ::
  "buffer_vec \<Rightarrow> size_t \<Rightarrow> buffer_vec \<Rightarrow> size_t \<Rightarrow> size_t \<Rightarrow> status \<times> buffer_vec" where
  "buffer_vec_copy_vec source source_pos dest dest_pos count =
     (if length source = 1 \<and> length dest = 1
      then (case buffer_copy (source ! 0) source_pos (dest ! 0) dest_pos count of
              (st, d) \<Rightarrow> (st, [d]))
      else if out_of_bounds source_pos count (buffer_vec_len source)
                            dest_pos count (buffer_vec_len dest)
      then (Err OUT_OF_RANGE, dest)
      else case (seek_segment 1 source 0 0 source_pos, seek_segment 1 dest 0 0 dest_pos) of
             (Some (si, scur), Some (di, dcur)) \<Rightarrow>
               copy_loop 1 source 1 dest
                 si (if scur < source_pos then source_pos - scur else 0)
                 di (if dcur < dest_pos then dest_pos - dcur else 0) count
           | _ \<Rightarrow> (Err UNDEFINED_BEHAVIOUR, dest))"

definition buffer_vec_copy_vec_ex ::
  "buffer_vec \<Rightarrow> size_t \<Rightarrow> size_t \<Rightarrow> size_t \<Rightarrow> buffer_vec \<Rightarrow> size_t \<Rightarrow> size_t \<Rightarrow> size_t
     \<Rightarrow> status \<times> buffer_vec" where
  "buffer_vec_copy_vec_ex source source_pos source_elem_size source_count
                          dest dest_pos dest_elem_size dest_count =
     (if length source = 1 \<and> length dest = 1
      then (case buffer_copy_ex (source ! 0) source_pos source_elem_size source_count
                                (dest ! 0) dest_pos dest_elem_size dest_count of
              (st, d) \<Rightarrow> (st, [d]))
      else if sz_mul source_count source_elem_size \<noteq> sz_mul dest_count dest_elem_size
      then (Err OUT_OF_RANGE, dest)
      else if out_of_bounds source_pos source_count (buffer_vec_len source)
                            dest_pos dest_count (buffer_vec_len dest)
      then (Err OUT_OF_RANGE, dest)
      else let sbyte = sz_mul source_pos source_elem_size;
               dbyte = sz_mul dest_pos dest_elem_size
           in case (seek_segment source_elem_size source 0 0 sbyte,
                    seek_segment dest_elem_size dest 0 0 dbyte) of
                (Some (si, scur), Some (di, dcur)) \<Rightarrow>
                  copy_loop source_elem_size source dest_elem_size dest
                    si (if scur < sbyte then sbyte - scur else 0)
                    di (if dcur < dbyte then dbyte - dcur else 0)
                    (sz_mul source_count source_elem_size)
              | _ \<Rightarrow> (Err UNDEFINED_BEHAVIOUR, dest))"

text \<open>
  Copies between a buffer vector and a plain memory block, which is wrapped as a vector of one
  segment of \<open>dest_len\<close> (\<open>source_len\<close>) elements.
\<close>

definition buffer_vec_copy_to_mem ::
  "buffer_vec \<Rightarrow> size_t \<Rightarrow> byte list \<Rightarrow> size_t \<Rightarrow> size_t \<Rightarrow> size_t \<Rightarrow> size_t
     \<Rightarrow> status \<times> byte list" where
  "buffer_vec_copy_to_mem source source_pos dest dest_len dest_pos dest_elem_size dest_count =
     (case buffer_vec_copy_vec_ex source source_pos 1 (sz_mul dest_count dest_elem_size)
             [\<lparr>buf_data = dest, buf_len = dest_len\<rparr>] dest_pos dest_elem_size dest_count of
        (st, d) \<Rightarrow> (st, buf_data (hd d)))"

definition buffer_vec_copy_from_mem ::
  "buffer_vec \<Rightarrow> size_t \<Rightarrow> byte list \<Rightarrow> size_t \<Rightarrow> size_t \<Rightarrow> size_t \<Rightarrow> size_t
     \<Rightarrow> status \<times> buffer_vec" where
  "buffer_vec_copy_from_mem dest dest_pos source source_len source_pos source_elem_size source_count =
     buffer_vec_copy_vec_ex [\<lparr>buf_data = source, buf_len = source_len\<rparr>]
       source_pos source_elem_size source_count
       dest dest_pos 1 (sz_mul source_count source_elem_size)"


section \<open>The flat view of a buffer vector\<close>

text \<open>
  The abstraction: the bytes of all segments in order. \<open>with_flat bv xs\<close> is the vector with
  the segments of \<open>bv\<close> and the bytes \<open>xs\<close>.
\<close>

definition flat :: "buffer_vec \<Rightarrow> byte list" where
  "flat bv = concat (map buf_data bv)"

fun with_flat :: "buffer_vec \<Rightarrow> byte list \<Rightarrow> buffer_vec" where
  "with_flat [] xs = []"
| "with_flat (b # bs) xs =
     \<lparr>buf_data = take (length (buf_data b)) xs, buf_len = buf_len b\<rparr>
     # with_flat bs (drop (length (buf_data b)) xs)"

definition seg_shape :: "buffer_vec \<Rightarrow> (nat \<times> size_t) list" where
  "seg_shape bv = map (\<lambda>b. (length (buf_data b), buf_len b)) bv"

text \<open>
  A vector is well formed for an element size when each segment's memory has room for exactly the
  elements it claims and the whole fits in memory (no C object exceeds \<open>PTRDIFF_MAX\<close> bytes).
\<close>

definition wf_vec :: "size_t \<Rightarrow> buffer_vec \<Rightarrow> bool" where
  "wf_vec es bv \<longleftrightarrow>
     0 < es \<and> (\<forall>b \<in> set bv. length (buf_data b) = buf_len b * es) \<and> length (flat bv) < 2 ^ 63"

lemma flat_Nil [simp]: "flat [] = []"
  and flat_Cons [simp]: "flat (b # bs) = buf_data b @ flat bs"
  and flat_single: "flat [b] = buf_data b"
  by (simp_all add: flat_def)

lemma with_flat_self [simp]: "with_flat bv (flat bv) = bv"
  by (induction bv) auto

lemma length_with_flat [simp]: "length (with_flat bv xs) = length bv"
  by (induction bv arbitrary: xs) auto

lemma flat_with_flat [simp]: "length xs = length (flat bv) \<Longrightarrow> flat (with_flat bv xs) = xs"
  by (induction bv arbitrary: xs) auto

lemma seg_shape_with_flat [simp]:
  "length xs = length (flat bv) \<Longrightarrow> seg_shape (with_flat bv xs) = seg_shape bv"
  by (induction bv arbitrary: xs) (auto simp: seg_shape_def)

lemma with_flat_cong: "seg_shape a = seg_shape b \<Longrightarrow> with_flat a xs = with_flat b xs"
proof (induction a arbitrary: b xs)
  case Nil
  then show ?case by (simp add: seg_shape_def)
next
  case (Cons x a)
  from Cons.prems obtain y c where b: "b = y # c"
    by (cases b) (auto simp: seg_shape_def)
  with Cons.prems have "length (buf_data x) = length (buf_data y)" "buf_len x = buf_len y"
    and "seg_shape a = seg_shape c"
    by (auto simp: seg_shape_def)
  with Cons.IH [of c] b show ?case by simp
qed

lemma with_flat_with_flat [simp]:
  "length xs = length (flat bv) \<Longrightarrow> with_flat (with_flat bv xs) ys = with_flat bv ys"
  by (rule with_flat_cong) simp

lemma seg_shape_length_flat: "seg_shape a = seg_shape b \<Longrightarrow> length (flat a) = length (flat b)"
proof -
  have "length (flat c) = sum_list (map fst (seg_shape c))" for c
    by (induction c) (auto simp: seg_shape_def)
  then show "seg_shape a = seg_shape b \<Longrightarrow> length (flat a) = length (flat b)" by simp
qed

lemma wf_vec_shape: "seg_shape a = seg_shape b \<Longrightarrow> wf_vec es a = wf_vec es b"
proof -
  assume sh: "seg_shape a = seg_shape b"
  have "(\<forall>x \<in> set c. length (buf_data x) = buf_len x * es) \<longleftrightarrow>
        (\<forall>p \<in> set (seg_shape c). fst p = snd p * es)" for c
    by (auto simp: seg_shape_def)
  then show ?thesis
    using sh seg_shape_length_flat [OF sh] by (simp add: wf_vec_def)
qed

lemma wf_vec_with_flat [simp]:
  "length xs = length (flat bv) \<Longrightarrow> wf_vec es (with_flat bv xs) = wf_vec es bv"
  by (rule wf_vec_shape) simp

lemma wf_vec_single:
  "wf_vec es [b] \<longleftrightarrow> 0 < es \<and> length (buf_data b) = buf_len b * es \<and> length (buf_data b) < 2 ^ 63"
  by (auto simp: wf_vec_def)

lemma buffer_vec_len_from_flat:
  assumes "\<forall>b \<in> set bv. length (buf_data b) = buf_len b * es" and "0 < es"
    and "acc * es + length (flat bv) < 2 ^ 63"
  shows "buffer_vec_len_from acc bv * es = acc * es + length (flat bv)"
  using assms
proof (induction bv arbitrary: acc)
  case Nil
  then show ?case by simp
next
  case (Cons b bs)
  have "(acc + buf_len b) * es < 2 ^ 63"
    using Cons.prems by (simp add: add_mult_distrib)
  moreover have "acc + buf_len b \<le> (acc + buf_len b) * es" using Cons.prems by simp
  ultimately have "acc + buf_len b < 2 ^ 63" by (rule le_less_trans [rotated])
  then have "acc + buf_len b < 2 ^ 64" by simp
  then have "sz_add acc (buf_len b) = acc + buf_len b"
    by (rule sz_add_nowrap)
  then show ?case using Cons by (simp add: add_mult_distrib)
qed

lemma buffer_vec_len_flat: "wf_vec es bv \<Longrightarrow> buffer_vec_len bv * es = length (flat bv)"
  using buffer_vec_len_from_flat [of bv es 0] by (simp add: wf_vec_def buffer_vec_len_def)

lemma buffer_vec_len_bytes [simp]: "wf_vec 1 bv \<Longrightarrow> buffer_vec_len bv = length (flat bv)"
  using buffer_vec_len_flat [of 1 bv] by simp

text \<open>The bytes before segment \<open>i\<close>.\<close>

definition seg_start :: "buffer_vec \<Rightarrow> nat \<Rightarrow> nat" where
  "seg_start bv i = length (concat (take i (map buf_data bv)))"

lemma seg_start_0 [simp]: "seg_start bv 0 = 0"
  by (simp add: seg_start_def)

lemma seg_start_Suc [simp]:
  "i < length bv \<Longrightarrow> seg_start bv (Suc i) = seg_start bv i + length (buf_data (bv ! i))"
  using concat_take_Suc [of i "map buf_data bv"] by (simp add: seg_start_def)

lemma seg_start_all [simp]: "length bv \<le> i \<Longrightarrow> seg_start bv i = length (flat bv)"
  by (simp add: seg_start_def flat_def)

lemma seg_start_le: "i < length bv \<Longrightarrow> seg_start bv i + length (buf_data (bv ! i)) \<le> length (flat bv)"
  using length_concat_take_le [of "Suc i" "map buf_data bv"] seg_start_Suc [of i bv]
  by (simp add: seg_start_def flat_def)

lemma seg_start_shape: "seg_shape a = seg_shape b \<Longrightarrow> seg_start a i = seg_start b i"
proof -
  assume "seg_shape a = seg_shape b"
  then have "map length (map buf_data a) = map length (map buf_data b)"
    by (auto simp: seg_shape_def comp_def dest: arg_cong [where f = "map fst"])
  then show ?thesis by (simp add: seg_start_def length_concat take_map [symmetric])
qed

lemma seg_bytes:
  assumes "wf_vec es bv" and "i < length bv"
  shows "sz_mul (buf_len (bv ! i)) es = length (buf_data (bv ! i))"
proof -
  have eq: "length (buf_data (bv ! i)) = buf_len (bv ! i) * es"
    using assms by (simp add: wf_vec_def)
  have "length (buf_data (bv ! i)) < 2 ^ 63"
    using assms seg_start_le [of i bv] by (simp add: wf_vec_def)
  then show ?thesis using eq by (simp add: sz_mul_nowrap)
qed


section \<open>Writing into a segment\<close>

definition put_segment :: "buffer_vec \<Rightarrow> nat \<Rightarrow> byte list \<Rightarrow> buffer_vec" where
  "put_segment bv i d = bv[i := (bv ! i)\<lparr>buf_data := d\<rparr>]"

lemma put_segment_shape:
  "i < length bv \<Longrightarrow> length d = length (buf_data (bv ! i)) \<Longrightarrow> seg_shape (put_segment bv i d) = seg_shape bv"
  by (auto simp: put_segment_def seg_shape_def map_update list_update_same_conv)

lemma length_put_segment [simp]: "length (put_segment bv i d) = length bv"
  by (simp add: put_segment_def)

lemma flat_put_segment:
  assumes "i < length bv" and "q + length ys \<le> length (buf_data (bv ! i))"
  shows "flat (put_segment bv i (overwrite (buf_data (bv ! i)) q ys)) =
         overwrite (flat bv) (seg_start bv i + q) ys"
proof -
  let ?xss = "map buf_data bv" and ?x = "buf_data (bv ! i)"
  have "flat (put_segment bv i (overwrite ?x q ys)) = concat (?xss[i := overwrite ?x q ys])"
    using assms by (simp add: flat_def put_segment_def map_update)
  also have "\<dots> = overwrite (concat ?xss) (length (concat (take i ?xss))) (overwrite ?x q ys)"
    using assms by (intro concat_update) auto
  also have "\<dots> = overwrite (concat ?xss) (length (concat (take i ?xss)) + q) ys"
  proof (rule overwrite_overwrite_inner)
    show "length (concat (take i ?xss)) + length ?x \<le> length (concat ?xss)"
      using seg_start_le [OF assms(1)] by (simp add: seg_start_def flat_def)
    show "?x = chunk (concat ?xss) (length (concat (take i ?xss))) (length ?x)"
      using chunk_concat_nth [of i ?xss] assms(1) by simp
  qed (use assms in simp)
  finally show ?thesis by (simp add: flat_def seg_start_def)
qed

lemma chunk_segment:
  assumes "i < length bv" and "q + n \<le> length (buf_data (bv ! i))"
  shows "chunk (buf_data (bv ! i)) q n = chunk (flat bv) (seg_start bv i + q) n"
  using chunk_concat_inner [of i "map buf_data bv" q n] assms by (simp add: flat_def seg_start_def)



section \<open>The segmented copy is the flat copy\<close>

text \<open>A position in a vector: a segment and a byte in it, or the end.\<close>

definition seg_pos :: "buffer_vec \<Rightarrow> nat \<Rightarrow> size_t \<Rightarrow> bool" where
  "seg_pos bv i p \<longleftrightarrow>
     (i < length bv \<and> p \<le> length (buf_data (bv ! i))) \<or> (i = length bv \<and> p = 0)"

lemma seg_pos_inside:
  "seg_pos bv i p \<Longrightarrow> seg_start bv i + p < length (flat bv) \<Longrightarrow>
     i < length bv \<and> p \<le> length (buf_data (bv ! i))"
  by (auto simp: seg_pos_def)

lemma seg_pos_next: "i < length bv \<Longrightarrow> seg_pos bv (Suc i) 0"
  by (auto simp: seg_pos_def)

lemma seg_pos_shape: "seg_shape a = seg_shape b \<Longrightarrow> seg_pos a i p = seg_pos b i p"
proof -
  assume sh: "seg_shape a = seg_shape b"
  then have len: "length a = length b" by (metis length_map seg_shape_def)
  have "i < length a \<Longrightarrow> length (buf_data (a ! i)) = length (buf_data (b ! i))"
    using sh len by (metis (no_types, lifting) fst_conv nth_map seg_shape_def)
  then show ?thesis using len by (auto simp: seg_pos_def)
qed

text \<open>One round of the loop on a destination segment, seen on the flat bytes.\<close>

lemma copy_round:
  assumes src: "si < length src" "sp + n \<le> length (buf_data (src ! si))"
    and dst: "di < length dst" "dp + n \<le> length (buf_data (dst ! di))"
  defines "dst' \<equiv> put_segment dst di
             (overwrite (buf_data (dst ! di)) dp (chunk (buf_data (src ! si)) sp n))"
  shows "mem_copy (buf_data (dst ! di)) dp (buf_data (src ! si)) sp n =
           Some (overwrite (buf_data (dst ! di)) dp (chunk (buf_data (src ! si)) sp n))"
    and "flat dst' = overwrite (flat dst) (seg_start dst di + dp)
                               (chunk (flat src) (seg_start src si + sp) n)"
    and "seg_shape dst' = seg_shape dst"
proof -
  show "mem_copy (buf_data (dst ! di)) dp (buf_data (src ! si)) sp n =
          Some (overwrite (buf_data (dst ! di)) dp (chunk (buf_data (src ! si)) sp n))"
    using src dst by (simp add: mem_copy_def)
  show "flat dst' = overwrite (flat dst) (seg_start dst di + dp)
                              (chunk (flat src) (seg_start src si + sp) n)"
    unfolding dst'_def chunk_segment [OF src, symmetric]
    using src dst by (intro flat_put_segment) simp_all
  show "seg_shape dst' = seg_shape dst"
    unfolding dst'_def using src dst by (intro put_segment_shape) simp_all
qed

lemma copy_loop_flat:
  assumes "wf_vec ses src" and "wf_vec des dst"
    and "seg_pos src si sp" and "seg_pos dst di dp"
    and "seg_start src si + sp + rem \<le> length (flat src)"
    and "seg_start dst di + dp + rem \<le> length (flat dst)"
  shows "copy_loop ses src des dst si sp di dp rem =
           (OK, with_flat dst (overwrite (flat dst) (seg_start dst di + dp)
                                 (chunk (flat src) (seg_start src si + sp) rem)))"
  using assms
proof (induction ses src des dst si sp di dp rem rule: copy_loop.induct)
  case (1 ses src des dst si sp di dp rem)
  show ?case
  proof (cases "rem = 0")
    case True
    then show ?thesis by (subst copy_loop.simps) simp
  next
    case False
    have si: "si < length src" "sp \<le> length (buf_data (src ! si))"
      using seg_pos_inside [OF "1.prems"(3)] "1.prems"(5) False by auto
    have di: "di < length dst" "dp \<le> length (buf_data (dst ! di))"
      using seg_pos_inside [OF "1.prems"(4)] "1.prems"(6) False by auto
    have sz: "length (buf_data (src ! si)) < 2 ^ 63" "length (buf_data (dst ! di)) < 2 ^ 63"
      using seg_start_le [OF si(1)] seg_start_le [OF di(1)] "1.prems"(1,2)
      by (auto simp: wf_vec_def)
    define sdelta where "sdelta = length (buf_data (src ! si)) - sp"
    define ddelta where "ddelta = length (buf_data (dst ! di)) - dp"
    have sd: "sz_sub (sz_mul (buf_len (src ! si)) ses) sp = sdelta"
      and dd: "sz_sub (sz_mul (buf_len (dst ! di)) des) dp = ddelta"
      using seg_bytes [OF "1.prems"(1) si(1)] seg_bytes [OF "1.prems"(2) di(1)] si di sz
      by (simp_all add: sz_sub_nowrap sdelta_def ddelta_def)
    note unfold = copy_loop.simps [of ses src des dst si sp di dp rem]
    note guards = False si(1) di(1)
    consider "sdelta = 0" | "sdelta \<noteq> 0" "ddelta = 0" | "sdelta \<noteq> 0" "ddelta \<noteq> 0" by blast
    then show ?thesis
    proof cases
      case 1
      have "sp = length (buf_data (src ! si))" using 1 si by (simp add: sdelta_def)
      then have "seg_start src (Suc si) + 0 = seg_start src si + sp" using si by simp
      then show ?thesis
        using "1.IH"(1) [OF _ _ refl refl] "1.prems" seg_pos_next [OF si(1)] guards 1 sd
        by (simp add: unfold not_le)
    next
      case 2
      have "dp = length (buf_data (dst ! di))" using 2 di by (simp add: ddelta_def)
      then have "seg_start dst (Suc di) + 0 = seg_start dst di + dp" using di by simp
      then show ?thesis
        using "1.IH"(2) [OF _ _ refl refl] "1.prems" seg_pos_next [OF di(1)] guards 2 sd dd
        by (simp add: unfold not_le)
    next
      case 3
      define n where "n = min rem (min sdelta ddelta)"
      define dst' where "dst' = put_segment dst di
             (overwrite (buf_data (dst ! di)) dp (chunk (buf_data (src ! si)) sp n))"
      have n: "sp + n \<le> length (buf_data (src ! si))" "dp + n \<le> length (buf_data (dst ! di))"
        "n \<le> rem"
        using si di by (auto simp: n_def sdelta_def ddelta_def)
      note round = copy_round [OF si(1) n(1) di(1) n(2), folded dst'_def]
      have adds: "sz_add sp n = sp + n" "sz_add dp n = dp + n"
        using n sz by (auto intro!: sz_add_nowrap)
      have "copy_loop ses src des dst si sp di dp rem =
            copy_loop ses src des dst' si (sp + n) di (dp + n) (rem - n)"
        using guards 3 round(1) adds
        by (simp add: unfold not_le sd dd Let_def n_def [symmetric] dst'_def put_segment_def)
      also have "\<dots> = (OK, with_flat dst' (overwrite (flat dst') (seg_start dst' di + (dp + n))
                         (chunk (flat src) (seg_start src si + (sp + n)) (rem - n))))"
      proof -
        have g: "\<not> (length src \<le> si \<or> length dst \<le> di)" using guards by simp
        note IH = "1.IH"(3) [OF False g sd [symmetric] dd [symmetric] 3 n_def round(1),
                    unfolded adds, folded put_segment_def, folded dst'_def]
        show ?thesis
        proof (rule IH)
          show "wf_vec ses src" by (rule "1.prems"(1))
          show "wf_vec des dst'" using wf_vec_shape [OF round(3)] "1.prems"(2) by simp
          show "seg_pos src si (sp + n)" using n si by (simp add: seg_pos_def)
          show "seg_pos dst' di (dp + n)"
            unfolding seg_pos_shape [OF round(3)] using n di by (simp add: seg_pos_def)
          show "seg_start src si + (sp + n) + (rem - n) \<le> length (flat src)"
            using "1.prems"(5) n by simp
          show "seg_start dst' di + (dp + n) + (rem - n) \<le> length (flat dst')"
            using "1.prems"(6) n seg_start_shape [OF round(3)] seg_shape_length_flat [OF round(3)]
            by simp
        qed
      qed
      also have "\<dots> = (OK, with_flat dst (overwrite (flat dst) (seg_start dst di + dp)
                                 (chunk (flat src) (seg_start src si + sp) rem)))"
      proof -
        let ?s = "seg_start src si + sp" and ?d = "seg_start dst di + dp"
        have "chunk (flat src) ?s rem = chunk (flat src) ?s n @ chunk (flat src) (?s + n) (rem - n)"
          using n chunk_add [of "flat src" ?s n "rem - n"] by simp
        then have "overwrite (flat dst) ?d (chunk (flat src) ?s rem) =
              overwrite (overwrite (flat dst) ?d (chunk (flat src) ?s n)) (?d + n)
                        (chunk (flat src) (?s + n) (rem - n))"
          using "1.prems" n overwrite_overwrite_adjacent
              [of ?d "chunk (flat src) ?s n" "chunk (flat src) (?s + n) (rem - n)" "flat dst"]
          by simp
        then show ?thesis
          using with_flat_cong [OF round(3)] seg_start_shape [OF round(3)] round(2)
          by (simp add: add.assoc)
      qed
      finally show ?thesis .
    qed
  qed
qed



text \<open>The first loop finds the segment that holds, or ends at, a byte position.\<close>

lemma seek_segment_finds:
  assumes "wf_vec es bv" and "i < length bv" and "seg_start bv i \<le> p" and "p \<le> length (flat bv)"
  shows "\<exists>j. seek_segment es (drop i bv) i (seg_start bv i) p = Some (j, seg_start bv j) \<and>
             seg_pos bv j (p - seg_start bv j) \<and> seg_start bv j \<le> p"
  using assms
proof (induction "length bv - i" arbitrary: i)
  case 0
  then show ?case by simp
next
  case (Suc k)
  let ?b = "bv ! i"
  have dr: "drop i bv = ?b # drop (Suc i) bv" using Suc.prems(2) by (simp add: Cons_nth_drop_Suc)
  have le: "seg_start bv i + length (buf_data ?b) \<le> length (flat bv)"
    using seg_start_le [OF Suc.prems(2)] .
  have "length (flat bv) < 2 ^ 63" using Suc.prems(1) by (simp add: wf_vec_def)
  then have "seg_start bv i + length (buf_data ?b) < 2 ^ 64" using le by simp
  then have add: "sz_add (seg_start bv i) (sz_mul (buf_len ?b) es) = seg_start bv (Suc i)"
    using seg_bytes [OF Suc.prems(1,2)] Suc.prems(2) by (simp add: sz_add_nowrap)
  show ?case
  proof (cases "seg_start bv (Suc i) < p")
    case True
    then have i: "Suc i < length bv" using Suc.prems(4) by (metis not_less seg_start_all)
    have "k = length bv - Suc i" using Suc.hyps(2) by simp
    from Suc.hyps(1) [OF this Suc.prems(1) i less_imp_le [OF True] Suc.prems(4)]
    show ?thesis by (simp only: dr seek_segment.simps add True if_True)
  next
    case False
    then have "seg_pos bv i (p - seg_start bv i)"
      using Suc.prems by (simp add: seg_pos_def)
    then show ?thesis using False dr add Suc.prems by auto
  qed
qed

lemma seek_segment_from_start:
  assumes "wf_vec es bv" and "p < length (flat bv)"
  obtains j where "seek_segment es bv 0 0 p = Some (j, seg_start bv j)"
    and "seg_pos bv j (p - seg_start bv j)" and "seg_start bv j \<le> p"
proof -
  have "0 < length bv" using assms(2) by (cases bv) auto
  then show ?thesis
    using seek_segment_finds [OF assms(1), of 0 p] assms(2) that by auto
qed

text \<open>
  The specification of a copy: the ranges are checked, then the bytes of the one are overwritten
  with those of the other; nothing of it mentions segments.
\<close>

definition copy_in_range ::
  "buffer_vec \<Rightarrow> size_t \<Rightarrow> size_t \<Rightarrow> buffer_vec \<Rightarrow> size_t \<Rightarrow> size_t \<Rightarrow> bool" where
  "copy_in_range src spos scount dst dpos dcount \<longleftrightarrow>
     spos < buffer_vec_len src \<and> spos + scount \<le> buffer_vec_len src \<and>
     dpos < buffer_vec_len dst \<and> dpos + dcount \<le> buffer_vec_len dst"

definition flat_copy ::
  "buffer_vec \<Rightarrow> size_t \<Rightarrow> size_t \<Rightarrow> size_t \<Rightarrow> buffer_vec \<Rightarrow> size_t \<Rightarrow> size_t \<Rightarrow> size_t
     \<Rightarrow> status \<times> buffer_vec" where
  "flat_copy src spos ses scount dst dpos des dcount =
     (if length src = 1 \<and> length dst = 1 \<and> scount = 0 \<and> dcount = 0 then (OK, dst)
      else if scount * ses = dcount * des \<and> copy_in_range src spos scount dst dpos dcount
      then (OK, with_flat dst (overwrite (flat dst) (dpos * des)
                                 (chunk (flat src) (spos * ses) (scount * ses))))
      else (Err OUT_OF_RANGE, dst))"

text \<open>A request whose byte count is that of an object; the position may be any \<open>size_t\<close>.\<close>

definition counts_fit :: "size_t \<Rightarrow> size_t \<Rightarrow> bool" where
  "counts_fit count es \<longleftrightarrow> count * es < 2 ^ 63"

lemma counts_fit_mul: "counts_fit count es \<Longrightarrow> sz_mul count es = count * es"
  by (simp add: counts_fit_def sz_mul_nowrap)

lemma wf_vec_total: "wf_vec es bv \<Longrightarrow> buffer_vec_len bv * es < 2 ^ 63"
  by (simp add: buffer_vec_len_flat) (simp add: wf_vec_def)

lemma in_range_bytes:
  assumes "wf_vec es bv" and "p < buffer_vec_len bv" and "p + n \<le> buffer_vec_len bv"
  shows "p * es + n * es \<le> length (flat bv)" and "p * es < length (flat bv)"
    and "sz_mul p es = p * es"
proof -
  have es: "0 < es" using assms(1) by (simp add: wf_vec_def)
  note total = buffer_vec_len_flat [OF assms(1), symmetric]
  show "p * es + n * es \<le> length (flat bv)"
    unfolding total add_mult_distrib [symmetric] using assms(3) by (rule mult_le_mono1)
  show "p * es < length (flat bv)" unfolding total using assms(2) es by simp
  then have "p * es < 2 ^ 64" using assms(1) by (simp add: wf_vec_def)
  then show "sz_mul p es = p * es" by (rule sz_mul_nowrap)
qed

lemma range_check:
  assumes "wf_vec es bv" and "counts_fit count es"
  shows "(\<not> p < buffer_vec_len bv \<or> buffer_vec_len bv < sz_add p count) \<longleftrightarrow>
         \<not> (p < buffer_vec_len bv \<and> p + count \<le> buffer_vec_len bv)"
proof -
  have es: "0 < es" using assms(1) by (simp add: wf_vec_def)
  have "count \<le> count * es" "buffer_vec_len bv \<le> buffer_vec_len bv * es" using es by simp_all
  moreover have "count * es < 2 ^ 63" using assms(2) unfolding counts_fit_def .
  ultimately have "count < 2 ^ 63" "buffer_vec_len bv < 2 ^ 63"
    using wf_vec_total [OF assms(1)] by (blast intro: le_less_trans)+
  then show ?thesis by (auto simp: sz_add_nowrap)
qed

lemma out_of_bounds_iff:
  assumes "wf_vec ses src" and "wf_vec des dst"
    and "counts_fit scount ses" and "counts_fit dcount des"
  shows "out_of_bounds spos scount (buffer_vec_len src) dpos dcount (buffer_vec_len dst) \<longleftrightarrow>
     \<not> copy_in_range src spos scount dst dpos dcount"
  using range_check [OF assms(1,3), of spos] range_check [OF assms(2,4), of dpos]
  by (auto simp: out_of_bounds_def copy_in_range_def)

lemma with_flat_single:
  "length xs = length (buf_data b) \<Longrightarrow> with_flat [b] xs = [b\<lparr>buf_data := xs\<rparr>]"
  by (cases b) simp

lemma buffer_copy_ex_flat:
  assumes "wf_vec ses [s]" and "wf_vec des [d]"
    and "counts_fit scount ses" and "counts_fit dcount des"
  shows "(case buffer_copy_ex s spos ses scount d dpos des dcount of (st, d') \<Rightarrow> (st, [d'])) =
         flat_copy [s] spos ses scount [d] dpos des dcount"
proof -
  have bl: "buffer_vec_len [b] = buf_len b" if "wf_vec es [b]" for b es
  proof -
    have "buf_len b \<le> buf_len b * es" "buf_len b * es < 2 ^ 63"
      using that by (auto simp: wf_vec_single)
    then have "buf_len b < 2 ^ 63" by (rule le_less_trans)
    then show ?thesis by (simp add: buffer_vec_len_def sz_add_nowrap)
  qed
  note lens = bl [OF assms(1)] bl [OF assms(2)]
  have mul: "sz_mul scount ses = scount * ses" "sz_mul dcount des = dcount * des"
    using assms(3,4) by (simp_all add: counts_fit_mul)
  show ?thesis
  proof (cases "scount * ses = dcount * des \<and> copy_in_range [s] spos scount [d] dpos dcount")
    case True
    then have eq: "dcount * des = scount * ses"
      and src: "spos < buffer_vec_len [s]" "spos + scount \<le> buffer_vec_len [s]"
      and dst: "dpos < buffer_vec_len [d]" "dpos + dcount \<le> buffer_vec_len [d]"
      by (simp_all add: copy_in_range_def)
    note s = in_range_bytes [OF assms(1) src] and d = in_range_bytes [OF assms(2) dst]
    have "mem_copy (buf_data d) (dpos * des) (buf_data s) (spos * ses) (scount * ses) =
          Some (overwrite (buf_data d) (dpos * des) (chunk (buf_data s) (spos * ses) (scount * ses)))"
      using s(1) d(1) eq by (simp add: mem_copy_def)
    moreover have len: "length (overwrite (buf_data d) (dpos * des)
        (chunk (buf_data s) (spos * ses) (scount * ses))) = length (buf_data d)"
      using s(1) d(1) eq by simp
    ultimately show ?thesis
      using conjunct2 [OF True] out_of_bounds_iff [OF assms, of spos dpos] s(3) d(3) eq
      by (simp add: buffer_copy_ex_def flat_copy_def mul lens with_flat_single len del: with_flat.simps)
  next
    case False
    then show ?thesis
      using out_of_bounds_iff [OF assms, of spos dpos]
      by (auto simp: buffer_copy_ex_def flat_copy_def mul lens)
  qed
qed

lemma copy_vec_ex_flat:
  assumes "wf_vec ses src" and "wf_vec des dst"
    and "counts_fit scount ses" and "counts_fit dcount des"
  shows "buffer_vec_copy_vec_ex src spos ses scount dst dpos des dcount =
         flat_copy src spos ses scount dst dpos des dcount"
proof (cases "length src = 1 \<and> length dst = 1")
  case True
  then obtain s d where "src = [s]" "dst = [d]" by (auto simp: length_Suc_conv)
  then show ?thesis
    using buffer_copy_ex_flat assms by (simp add: buffer_vec_copy_vec_ex_def)
next
  case False
  then have F: "\<not> (length src = 1 \<and> length dst = 1 \<and> scount = 0 \<and> dcount = 0)" by blast
  note unfold = buffer_vec_copy_vec_ex_def flat_copy_def if_not_P [OF False] if_not_P [OF F]
  have mul: "sz_mul scount ses = scount * ses" "sz_mul dcount des = dcount * des"
    using assms(3,4) by (simp_all add: counts_fit_mul)
  note oob = out_of_bounds_iff [OF assms, of spos dpos]
  show ?thesis
  proof (cases "scount * ses = dcount * des \<and> copy_in_range src spos scount dst dpos dcount")
    case True
    then have eq: "dcount * des = scount * ses"
      and src: "spos < buffer_vec_len src" "spos + scount \<le> buffer_vec_len src"
      and dst: "dpos < buffer_vec_len dst" "dpos + dcount \<le> buffer_vec_len dst"
      by (simp_all add: copy_in_range_def)
    note s = in_range_bytes [OF assms(1) src] and d = in_range_bytes [OF assms(2) dst]
    obtain si where si: "seek_segment ses src 0 0 (spos * ses) = Some (si, seg_start src si)"
      "seg_pos src si (spos * ses - seg_start src si)" "seg_start src si \<le> spos * ses"
      by (rule seek_segment_from_start [OF assms(1) s(2)])
    obtain di where di: "seek_segment des dst 0 0 (dpos * des) = Some (di, seg_start dst di)"
      "seg_pos dst di (dpos * des - seg_start dst di)" "seg_start dst di \<le> dpos * des"
      by (rule seek_segment_from_start [OF assms(2) d(2)])
    have ifs: "(if a < b then b - a else 0) = b - a" for a b :: nat by simp
    have "copy_loop ses src des dst si (spos * ses - seg_start src si)
                    di (dpos * des - seg_start dst di) (scount * ses) =
          (OK, with_flat dst (overwrite (flat dst) (dpos * des)
                                 (chunk (flat src) (spos * ses) (scount * ses))))"
      using copy_loop_flat [OF assms(1,2) si(2) di(2), of "scount * ses"] si(3) di(3) s(1) d(1) eq
      by simp
    then show ?thesis
      unfolding unfold mul using True oob si(1) di(1) s(3) d(3)
      by (simp add: Let_def ifs)
  next
    case out: False
    then show ?thesis
      unfolding unfold mul using oob by auto
  qed
qed


section \<open>Copies to and from one memory block\<close>

definition put_flat :: "buffer_vec \<Rightarrow> size_t \<Rightarrow> byte list \<Rightarrow> buffer_vec" where
  "put_flat bv p ys = with_flat bv (overwrite (flat bv) p ys)"

lemma flat_put_flat [simp]:
  "p + length ys \<le> length (flat bv) \<Longrightarrow> flat (put_flat bv p ys) = overwrite (flat bv) p ys"
  by (simp add: put_flat_def)

lemma length_flat_put_flat [simp]:
  "p + length ys \<le> length (flat bv) \<Longrightarrow> length (flat (put_flat bv p ys)) = length (flat bv)"
  by simp

lemma wf_vec_put_flat [simp]:
  "p + length ys \<le> length (flat bv) \<Longrightarrow> wf_vec es (put_flat bv p ys) = wf_vec es bv"
  by (simp add: put_flat_def)

lemma seg_shape_put_flat [simp]:
  "p + length ys \<le> length (flat bv) \<Longrightarrow> seg_shape (put_flat bv p ys) = seg_shape bv"
  by (simp add: put_flat_def)

lemma length_put_flat [simp]: "length (put_flat bv p ys) = length bv"
  by (simp add: put_flat_def)

lemma put_flat_Nil [simp]: "put_flat bv p [] = bv"
  by (simp add: put_flat_def)

lemma put_flat_append:
  "p + length ys + length zs \<le> length (flat bv) \<Longrightarrow>
     put_flat (put_flat bv p ys) (p + length ys) zs = put_flat bv p (ys @ zs)"
  by (simp add: put_flat_def overwrite_overwrite_adjacent)

lemma chunk_put_flat:
  "p + length ys \<le> length (flat bv) \<Longrightarrow> chunk (flat (put_flat bv p ys)) p (length ys) = ys"
  by (simp add: chunk_overwrite_same)

lemma chunk_put_flat_disjoint:
  "p + length ys \<le> length (flat bv) \<Longrightarrow> q + n \<le> length (flat bv) \<Longrightarrow>
     q + n \<le> p \<or> p + length ys \<le> q \<Longrightarrow>
     chunk (flat (put_flat bv p ys)) q n = chunk (flat bv) q n"
  by (simp add: chunk_overwrite_disjoint)

lemma wf_mem_block:
  "wf_vec es [\<lparr>buf_data = d, buf_len = n\<rparr>] \<longleftrightarrow> 0 < es \<and> length d = n * es \<and> length d < 2 ^ 63"
  by (simp add: wf_vec_single)

lemma buffer_vec_len_block [simp]:
  "n < 2 ^ 64 \<Longrightarrow> buffer_vec_len [\<lparr>buf_data = d, buf_len = n\<rparr>] = n"
  by (simp add: buffer_vec_len_def sz_add_nowrap)

lemma mult_lt_bound: "0 < (es::nat) \<Longrightarrow> n * es < b \<Longrightarrow> n < b"
proof -
  assume "0 < es" and lt: "n * es < b"
  then have "n \<le> n * es" by simp
  then show ?thesis using lt by (rule le_less_trans)
qed

text \<open>
  Writing a whole block of \<open>n > 0\<close> elements succeeds exactly when it fits behind the position,
  and then replaces those bytes and no others.
\<close>

lemma copy_from_mem_flat:
  assumes wf: "wf_vec 1 bv" and es: "0 < es" and n: "0 < n"
    and d: "length d = n * es" "length d < 2 ^ 63"
  shows "buffer_vec_copy_from_mem bv p d n 0 es n =
           (if p + length d \<le> length (flat bv) then (OK, put_flat bv p d) else (Err OUT_OF_RANGE, bv))"
proof -
  let ?src = "[\<lparr>buf_data = d, buf_len = n\<rparr>]"
  have wfs: "wf_vec es ?src" using es d by (simp add: wf_mem_block)
  have n64: "n < 2 ^ 63" using mult_lt_bound [OF es] d by simp
  then have len: "buffer_vec_len ?src = n" by simp
  have fit: "counts_fit n es" "counts_fit (n * es) 1" using d by (simp_all add: counts_fit_def)
  have pos: "0 < n * es" using n es by simp
  then have inside: "p < L" if "p + n * es \<le> L" for L using that by linarith
  then have rng: "copy_in_range ?src 0 n bv p (n * es) \<longleftrightarrow> p + n * es \<le> length (flat bv)"
    using n inside unfolding copy_in_range_def len buffer_vec_len_bytes [OF wf] by auto
  have "buffer_vec_copy_from_mem bv p d n 0 es n = flat_copy ?src 0 es n bv p 1 (n * es)"
    unfolding buffer_vec_copy_from_mem_def counts_fit_mul [OF fit(1)]
    by (rule copy_vec_ex_flat [OF wfs wf fit])
  then show ?thesis
    using n rng d by (simp add: flat_copy_def put_flat_def)
qed

lemma copy_from_mem_zero:
  assumes wf: "wf_vec 1 bv" and es: "0 < es" and d: "length d = m * es" "length d < 2 ^ 63"
  shows "buffer_vec_copy_from_mem bv p d m 0 es 0 =
           (if length bv = 1 \<or> (0 < m \<and> p < length (flat bv)) then (OK, bv) else (Err OUT_OF_RANGE, bv))"
proof -
  let ?src = "[\<lparr>buf_data = d, buf_len = m\<rparr>]"
  have wfs: "wf_vec es ?src" using es d by (simp add: wf_mem_block)
  have "m < 2 ^ 63" using mult_lt_bound [OF es] d by simp
  then have len: "buffer_vec_len ?src = m" by simp
  have fit: "counts_fit 0 es" "counts_fit 0 1" by (simp_all add: counts_fit_def)
  have rng: "copy_in_range ?src 0 0 bv p 0 \<longleftrightarrow> 0 < m \<and> p < length (flat bv)"
    unfolding copy_in_range_def len buffer_vec_len_bytes [OF wf] by auto
  have "buffer_vec_copy_from_mem bv p d m 0 es 0 = flat_copy ?src 0 es 0 bv p 1 0"
    using copy_vec_ex_flat [OF wfs wf fit, of 0 p]
    by (simp add: buffer_vec_copy_from_mem_def sz_mul_def)
  then show ?thesis using rng by (simp add: flat_copy_def)
qed

lemma copy_to_mem_flat:
  assumes wf: "wf_vec 1 bv" and es: "0 < es" and n: "0 < n" "n * es < 2 ^ 63"
    and d: "length d = m * es" "length d < 2 ^ 63"
  shows "buffer_vec_copy_to_mem bv p d m 0 es n =
           (if n \<le> m \<and> p + n * es \<le> length (flat bv)
            then (OK, overwrite d 0 (chunk (flat bv) p (n * es))) else (Err OUT_OF_RANGE, d))"
proof -
  let ?dst = "[\<lparr>buf_data = d, buf_len = m\<rparr>]"
  have wfd: "wf_vec es ?dst" using es d by (simp add: wf_mem_block)
  have "m < 2 ^ 63" using mult_lt_bound [OF es] d by simp
  then have len: "buffer_vec_len ?dst = m" by simp
  have fit: "counts_fit (n * es) 1" "counts_fit n es" using n by (simp_all add: counts_fit_def)
  have pos: "0 < n * es" using n es by simp
  then have inside: "p < L" if "p + n * es \<le> L" for L using that by linarith
  then have rng: "copy_in_range bv p (n * es) ?dst 0 n \<longleftrightarrow> n \<le> m \<and> p + n * es \<le> length (flat bv)"
    using n inside unfolding copy_in_range_def len buffer_vec_len_bytes [OF wf] by auto
  have "buffer_vec_copy_to_mem bv p d m 0 es n =
        (case flat_copy bv p 1 (n * es) ?dst 0 es n of (st, d') \<Rightarrow> (st, buf_data (hd d')))"
    unfolding buffer_vec_copy_to_mem_def counts_fit_mul [OF fit(2)]
    by (simp only: copy_vec_ex_flat [OF wf wfd fit])
  moreover have "length (overwrite d 0 (chunk (flat bv) p (n * es))) = length d"
    if "n \<le> m" "p + n * es \<le> length (flat bv)"
    using that d by simp
  ultimately show ?thesis
    using n rng by (auto simp: flat_copy_def)
qed

text \<open>No copy between well-formed vectors reads or writes outside their memory.\<close>

lemma copy_vec_ex_status:
  assumes "wf_vec ses src" and "wf_vec des dst"
    and "counts_fit scount ses" and "counts_fit dcount des"
    and "buffer_vec_copy_vec_ex src spos ses scount dst dpos des dcount = (st, dst')"
  shows "st = OK \<or> st = Err OUT_OF_RANGE"
  using assms(5) unfolding copy_vec_ex_flat [OF assms(1-4)]
  by (auto simp: flat_copy_def split: if_splits)

lemma copy_to_mem_status:
  assumes "wf_vec 1 bv" and "0 < es" and "n * es < 2 ^ 63"
    and "length d = m * es" "length d < 2 ^ 63"
    and "buffer_vec_copy_to_mem bv p d m q es n = (st, d')"
  shows "st = OK \<or> st = Err OUT_OF_RANGE"
proof -
  have fit: "counts_fit (n * es) 1" "counts_fit n es"
    using assms by (simp_all add: counts_fit_def)
  have wfd: "wf_vec es [\<lparr>buf_data = d, buf_len = m\<rparr>]" using assms by (simp add: wf_mem_block)
  obtain v where "buffer_vec_copy_vec_ex bv p 1 (n * es) [\<lparr>buf_data = d, buf_len = m\<rparr>] q es n = (st, v)"
    using assms(6) unfolding buffer_vec_copy_to_mem_def counts_fit_mul [OF fit(2)]
    by (auto split: prod.splits)
  then show ?thesis by (rule copy_vec_ex_status [OF assms(1) wfd fit])
qed

end
