(* ===== verification/RRL_Wire.thy ===== *)
theory RRL_Wire
  imports RRL_Buffer
begin

text \<open>
  The primitive fields of the message format: the scalar accessors of src/array_types.c and the
  static \<open>message_read_*\<close> and \<open>message_write_*\<close> helpers of src/message.c, in the order
  of that file. Each field is shown to be an instance of one contract, \<open>field_codec\<close>: a write
  that fits puts the field's encoding at the offset, advances past it and touches nothing else,
  and a read at an offset where an encoding stands returns the value.
\<close>


section \<open>Scalars in a buffer vector\<close>

text \<open>
  \<open>robotraconteurlite_buffer_vec_copy_to_<type>\<close>: one element of \<open>es\<close> bytes into the
  object \<open>*dest\<close>. On failure \<open>*dest\<close> is not written.
\<close>

definition copy_to_scalar :: "buffer_vec \<Rightarrow> size_t \<Rightarrow> size_t \<Rightarrow> error + byte list" where
  "copy_to_scalar bv p es =
     (case buffer_vec_copy_to_mem bv p (replicate es 0) 1 0 es 1 of
        (OK, d) \<Rightarrow> Inr d
      | (Err e, d) \<Rightarrow> Inl e)"

definition buffer_vec_copy_to_uint8 :: "buffer_vec \<Rightarrow> size_t \<Rightarrow> error + u8" where
  "buffer_vec_copy_to_uint8 bv p = map_sum id hd (copy_to_scalar bv p 1)"

definition buffer_vec_copy_to_uint16 :: "buffer_vec \<Rightarrow> size_t \<Rightarrow> error + u16" where
  "buffer_vec_copy_to_uint16 bv p = map_sum id bytes_u16 (copy_to_scalar bv p 2)"

definition buffer_vec_copy_to_uint32 :: "buffer_vec \<Rightarrow> size_t \<Rightarrow> error + u32" where
  "buffer_vec_copy_to_uint32 bv p = map_sum id bytes_u32 (copy_to_scalar bv p 4)"

definition buffer_vec_copy_from_uint8 :: "buffer_vec \<Rightarrow> size_t \<Rightarrow> u8 \<Rightarrow> status \<times> buffer_vec" where
  "buffer_vec_copy_from_uint8 bv p v = buffer_vec_copy_from_mem bv p [v] 1 0 1 1"

definition buffer_vec_copy_from_uint16 :: "buffer_vec \<Rightarrow> size_t \<Rightarrow> u16 \<Rightarrow> status \<times> buffer_vec" where
  "buffer_vec_copy_from_uint16 bv p v = buffer_vec_copy_from_mem bv p (u16_bytes v) 1 0 2 1"

definition buffer_vec_copy_from_uint32 :: "buffer_vec \<Rightarrow> size_t \<Rightarrow> u32 \<Rightarrow> status \<times> buffer_vec" where
  "buffer_vec_copy_from_uint32 bv p v = buffer_vec_copy_from_mem bv p (u32_bytes v) 1 0 4 1"

text \<open>
  The signed accessors move the same bytes; a signed value is the word read with \<open>sint\<close>.
\<close>

definition buffer_vec_copy_to_int8 :: "buffer_vec \<Rightarrow> size_t \<Rightarrow> error + 8 word" where
  "buffer_vec_copy_to_int8 bv p = map_sum id hd (copy_to_scalar bv p 1)"

definition buffer_vec_copy_to_int16 :: "buffer_vec \<Rightarrow> size_t \<Rightarrow> error + 16 word" where
  "buffer_vec_copy_to_int16 bv p = map_sum id bytes_u16 (copy_to_scalar bv p 2)"

definition buffer_vec_copy_to_int32 :: "buffer_vec \<Rightarrow> size_t \<Rightarrow> error + 32 word" where
  "buffer_vec_copy_to_int32 bv p = map_sum id bytes_u32 (copy_to_scalar bv p 4)"

definition buffer_vec_copy_from_int8 :: "buffer_vec \<Rightarrow> size_t \<Rightarrow> 8 word \<Rightarrow> status \<times> buffer_vec" where
  "buffer_vec_copy_from_int8 bv p v = buffer_vec_copy_from_mem bv p [v] 1 0 1 1"

definition buffer_vec_copy_from_int16 :: "buffer_vec \<Rightarrow> size_t \<Rightarrow> 16 word \<Rightarrow> status \<times> buffer_vec" where
  "buffer_vec_copy_from_int16 bv p v = buffer_vec_copy_from_mem bv p (u16_bytes v) 1 0 2 1"

definition buffer_vec_copy_from_int32 :: "buffer_vec \<Rightarrow> size_t \<Rightarrow> 32 word \<Rightarrow> status \<times> buffer_vec" where
  "buffer_vec_copy_from_int32 bv p v = buffer_vec_copy_from_mem bv p (u32_bytes v) 1 0 4 1"

text \<open>Arrays of bytes: \<open>dest->data\<close> has room for \<open>dest->len\<close> of them.\<close>

definition buffer_vec_copy_to_uint8_array ::
  "buffer_vec \<Rightarrow> size_t \<Rightarrow> byte list \<Rightarrow> size_t \<Rightarrow> size_t \<Rightarrow> size_t \<Rightarrow> status \<times> byte list" where
  "buffer_vec_copy_to_uint8_array bv p dest dest_len dest_pos dest_count =
     buffer_vec_copy_to_mem bv p dest dest_len dest_pos 1 dest_count"

definition buffer_vec_copy_from_uint8_array ::
  "buffer_vec \<Rightarrow> size_t \<Rightarrow> byte list \<Rightarrow> size_t \<Rightarrow> size_t \<Rightarrow> size_t \<Rightarrow> status \<times> buffer_vec" where
  "buffer_vec_copy_from_uint8_array bv p source source_len source_pos source_count =
     buffer_vec_copy_from_mem bv p source source_len source_pos 1 source_count"


section \<open>Strings\<close>

text \<open>
  \<open>robotraconteurlite_string\<close>: a pointer to writable characters, \<open>None\<close> for \<open>NULL\<close>,
  and a length, which is the capacity when a routine is to fill it. A
  \<open>robotraconteurlite_const_string\<close> is only read: it is the sequence of its characters.
\<close>

record rstring =
  str_data :: "byte list option"
  str_len :: size_t

type_synonym const_string = "byte list"

definition null_string :: rstring where
  "null_string = \<lparr>str_data = None, str_len = 0\<rparr>"

definition string_memory :: "rstring \<Rightarrow> byte list" where
  "string_memory s = (case str_data s of None \<Rightarrow> [] | Some d \<Rightarrow> d)"

text \<open>The characters of a filled string.\<close>

definition string_value :: "rstring \<Rightarrow> byte list" where
  "string_value s = take (str_len s) (string_memory s)"

definition buffer_vec_copy_to_string ::
  "buffer_vec \<Rightarrow> size_t \<Rightarrow> rstring \<Rightarrow> size_t \<Rightarrow> size_t \<Rightarrow> status \<times> rstring" where
  "buffer_vec_copy_to_string bv p dest dest_pos dest_count =
     (case buffer_vec_copy_to_mem bv p (string_memory dest) (str_len dest) dest_pos 1 dest_count of
        (st, d) \<Rightarrow> (st, dest\<lparr>str_data := map_option (\<lambda>_. d) (str_data dest)\<rparr>))"

definition buffer_vec_copy_from_string ::
  "buffer_vec \<Rightarrow> size_t \<Rightarrow> const_string \<Rightarrow> size_t \<Rightarrow> size_t \<Rightarrow> status \<times> buffer_vec" where
  "buffer_vec_copy_from_string bv p source source_pos source_count =
     buffer_vec_copy_from_mem bv p source (length source) source_pos 1 source_count"


section \<open>Reading fields\<close>

text \<open>
  A reading helper takes \<open>*offset\<close>, gives the value and the advanced offset, or a failure;
  the offset it is given is a local variable of its caller, which gives it up on failure.
\<close>

type_synonym 'a rd = "buffer_vec \<Rightarrow> size_t \<Rightarrow> error + ('a \<times> size_t)"

definition message_read_uint32 :: "u32 rd" where
  "message_read_uint32 bv p =
     (case buffer_vec_copy_to_uint32 bv p of Inl e \<Rightarrow> Inl e | Inr v \<Rightarrow> Inr (v, sz_add p 4))"

definition message_read_uint16 :: "u16 rd" where
  "message_read_uint16 bv p =
     (case buffer_vec_copy_to_uint16 bv p of Inl e \<Rightarrow> Inl e | Inr v \<Rightarrow> Inr (v, sz_add p 2))"

definition message_read_uint8 :: "u8 rd" where
  "message_read_uint8 bv p =
     (case buffer_vec_copy_to_uint8 bv p of Inl e \<Rightarrow> Inl e | Inr v \<Rightarrow> Inr (v, sz_add p 1))"

definition message_read_uint_x :: "u32 rd" where
  "message_read_uint_x bv p =
     (case message_read_uint8 bv p of
        Inl e \<Rightarrow> Inl e
      | Inr (b, p) \<Rightarrow>
          (if unat b \<le> 252 then Inr (ucast b, p)
           else if b = 253 then
             (case message_read_uint16 bv p of
                Inl e \<Rightarrow> Inl e
              | Inr (val16, p) \<Rightarrow> Inr (ucast val16, p))
           else if b = 254 then message_read_uint32 bv p
           else Inl PROTOCOL))"

definition message_read_int_x :: "i32 rd" where
  "message_read_int_x bv p =
     (case buffer_vec_copy_to_int8 bv p of
        Inl e \<Rightarrow> Inl e
      | Inr b \<Rightarrow>
          (let p = sz_add p 1
           in if sint b \<le> 124 then Inr (scast b, p)
              else if b = 125 then
                (case buffer_vec_copy_to_int16 bv p of
                   Inl e \<Rightarrow> Inl e
                 | Inr val16 \<Rightarrow> Inr (scast val16, sz_add p 2))
              else if b = 126 then
                (case buffer_vec_copy_to_int32 bv p of
                   Inl e \<Rightarrow> Inl e
                 | Inr val32 \<Rightarrow> Inr (val32, sz_add p 4))
              else Inl PROTOCOL))"

definition message_read_count :: "u16 \<Rightarrow> u32 rd" where
  "message_read_count ver bv p =
     (if ver = 2 then message_read_uint32 bv p
      else if ver = 4 then message_read_uint_x bv p
      else Inl PROTOCOL)"

definition message_read_count2 :: "u16 \<Rightarrow> u32 rd" where
  "message_read_count2 ver bv p =
     (if ver = 2 then
        (case message_read_uint16 bv p of
           Inl e \<Rightarrow> Inl e
         | Inr (val16, p) \<Rightarrow> Inr (ucast val16, p))
      else if ver = 4 then message_read_uint_x bv p
      else Inl PROTOCOL)"

definition message_read_nodeid :: "byte list rd" where
  "message_read_nodeid bv p =
     (case buffer_vec_copy_to_uint8_array bv p (replicate 16 0) 16 0 16 of
        (OK, d) \<Rightarrow> Inr (d, sz_add p 16)
      | (Err e, d) \<Rightarrow> Inl e)"

text \<open>
  A string field is read in two passes: \<open>_1\<close> notes where its characters are and skips them,
  \<open>_2\<close> copies them into the caller's string.
\<close>

record string_info =
  si_offset :: size_t
  si_len :: size_t

definition read_header_string_prefix2_1 :: "string_info rd" where
  "read_header_string_prefix2_1 bv p =
     (case message_read_uint16 bv p of
        Inl e \<Rightarrow> Inl e
      | Inr (n, p) \<Rightarrow> Inr (\<lparr>si_offset = p, si_len = unat n\<rparr>, sz_add p (unat n)))"

definition read_header_string_prefix4_1 :: "string_info rd" where
  "read_header_string_prefix4_1 bv p =
     (case message_read_uint_x bv p of
        Inl e \<Rightarrow> Inl e
      | Inr (n, p) \<Rightarrow> Inr (\<lparr>si_offset = p, si_len = unat n\<rparr>, sz_add p (unat n)))"

definition message_read_header_string ::
  "buffer_vec \<Rightarrow> size_t \<Rightarrow> size_t \<Rightarrow> rstring \<Rightarrow> status \<times> rstring" where
  "message_read_header_string bv p n str =
     (if n = 0 then (OK, str\<lparr>str_len := 0\<rparr>)
      else if str_data str = None \<and> str_len str = 0 then (OK, str\<lparr>str_len := n\<rparr>)
      else if str_len str < n then (Err INVALID_ARGUMENT, str)
      else case buffer_vec_copy_to_string bv p str 0 n of
             (OK, str) \<Rightarrow> (OK, str\<lparr>str_len := n\<rparr>)
           | (Err e, str) \<Rightarrow> (Err e, str))"

definition read_header_string_2 ::
  "buffer_vec \<Rightarrow> string_info \<Rightarrow> rstring \<Rightarrow> status \<times> rstring" where
  "read_header_string_2 bv info str = message_read_header_string bv (si_offset info) (si_len info) str"


section \<open>Writing fields\<close>

text \<open>
  A writing helper gives its status, the buffer and \<open>*offset\<close>; a failure keeps what was
  written before it.
\<close>

type_synonym 'a wr = "buffer_vec \<Rightarrow> size_t \<Rightarrow> 'a \<Rightarrow> status \<times> buffer_vec \<times> size_t"

definition advance :: "size_t \<Rightarrow> size_t \<Rightarrow> status \<times> buffer_vec \<Rightarrow> status \<times> buffer_vec \<times> size_t" where
  "advance p n r = (case r of (OK, bv) \<Rightarrow> (OK, bv, sz_add p n) | (Err e, bv) \<Rightarrow> (Err e, bv, p))"

definition message_write_uint32 :: "u32 wr" where
  "message_write_uint32 bv p val = advance p 4 (buffer_vec_copy_from_uint32 bv p val)"

definition message_write_uint16 :: "u16 wr" where
  "message_write_uint16 bv p val = advance p 2 (buffer_vec_copy_from_uint16 bv p val)"

definition message_write_uint8 :: "u8 wr" where
  "message_write_uint8 bv p val = advance p 1 (buffer_vec_copy_from_uint8 bv p val)"

definition message_write_int32 :: "32 word wr" where
  "message_write_int32 bv p val = advance p 4 (buffer_vec_copy_from_int32 bv p val)"

definition message_write_int16 :: "16 word wr" where
  "message_write_int16 bv p val = advance p 2 (buffer_vec_copy_from_int16 bv p val)"

definition message_write_int8 :: "8 word wr" where
  "message_write_int8 bv p val = advance p 1 (buffer_vec_copy_from_int8 bv p val)"

text \<open>\<open>rv = f(..); if (FAILED(rv)) return rv; return g(..);\<close>\<close>

definition wr_then ::
  "status \<times> buffer_vec \<times> size_t \<Rightarrow> (buffer_vec \<Rightarrow> size_t \<Rightarrow> status \<times> buffer_vec \<times> size_t)
     \<Rightarrow> status \<times> buffer_vec \<times> size_t" where
  "wr_then r g = (case r of (OK, bv, p) \<Rightarrow> g bv p | (Err e, bv, p) \<Rightarrow> (Err e, bv, p))"

definition message_write_uint_x :: "u32 wr" where
  "message_write_uint_x bv p val =
     (if unat val \<le> 252 then message_write_uint8 bv p (ucast val)
      else if unat val \<le> UINT16_MAX then
        wr_then (message_write_uint8 bv p 253) (\<lambda>bv p. message_write_uint16 bv p (ucast val))
      else
        wr_then (message_write_uint8 bv p 254) (\<lambda>bv p. message_write_uint32 bv p val))"

definition message_uint_x_size :: "u32 \<Rightarrow> size_t" where
  "message_uint_x_size val =
     (if unat val \<le> 252 then 1 else if unat val \<le> UINT16_MAX then 3 else 5)"

text \<open>
  The length of data that is preceded by its own total length as a \<open>uint_x\<close>: the total, and
  the bytes the prefix takes.
\<close>

definition message_len_plus_uint_x :: "u32 \<Rightarrow> error + (u32 \<times> size_t)" where
  "message_len_plus_uint_x data_len =
     (if unat data_len \<le> 251 then Inr (data_len + 1, 1)
      else if unat data_len \<le> UINT16_MAX - 3 then Inr (data_len + 3, 3)
      else if unat data_len \<le> UINT32_MAX - 5 then Inr (data_len + 5, 5)
      else Inl OUT_OF_RANGE)"

text \<open>
  A \<open>uint_x\<close> in its five-byte form, whose value can be written later at \<open>*count_offset\<close>;
  the third component of the result is \<open>*count_offset\<close>.
\<close>

definition message_write_padded_uint_x ::
  "buffer_vec \<Rightarrow> size_t \<Rightarrow> u32 \<Rightarrow> size_t \<Rightarrow> (status \<times> buffer_vec \<times> size_t) \<times> size_t" where
  "message_write_padded_uint_x bv p count count_offset =
     (case message_write_uint8 bv p 254 of
        (OK, bv, p) \<Rightarrow> (message_write_uint32 bv p count, p)
      | (Err e, bv, p) \<Rightarrow> ((Err e, bv, p), count_offset))"

definition message_padded_uint_x_size :: "u32 \<Rightarrow> size_t" where
  "message_padded_uint_x_size count = 5"

definition message_write_padded_uint_x_val ::
  "buffer_vec \<Rightarrow> size_t \<Rightarrow> u32 \<Rightarrow> status \<times> buffer_vec" where
  "message_write_padded_uint_x_val bv count_offset count =
     buffer_vec_copy_from_uint32 bv count_offset count"

definition message_write_int_x :: "i32 wr" where
  "message_write_int_x bv p val =
     (if -128 \<le> sint val \<and> sint val \<le> 124 then message_write_int8 bv p (ucast val)
      else if -32768 \<le> sint val \<and> sint val \<le> 32767 then
        wr_then (message_write_int8 bv p 125) (\<lambda>bv p. message_write_int16 bv p (ucast val))
      else
        wr_then (message_write_int8 bv p 126) (\<lambda>bv p. message_write_int32 bv p val))"

definition message_int_x_size :: "u32 \<Rightarrow> size_t" where
  "message_int_x_size val =
     (if unat val \<le> 252 then 1 else if unat val \<le> UINT16_MAX then 3 else 5)"

definition header_string_size4 :: "const_string \<Rightarrow> error + size_t" where
  "header_string_size4 str =
     (if length str > UINT32_MAX then Inl OUT_OF_RANGE
      else Inr (sz_add (message_uint_x_size (word_of_nat (length str))) (length str)))"

text \<open>The characters after a length prefix; an empty string has none to copy.\<close>

definition write_string_chars ::
  "const_string \<Rightarrow> buffer_vec \<Rightarrow> size_t \<Rightarrow> status \<times> buffer_vec \<times> size_t" where
  "write_string_chars str bv p =
     (if length str > 0
      then advance p (length str) (buffer_vec_copy_from_string bv p str 0 (length str))
      else (OK, bv, p))"

definition write_header_string2 :: "const_string wr" where
  "write_header_string2 bv p str =
     (if length str > UINT32_MAX then (Err OUT_OF_RANGE, bv, p)
      else wr_then (message_write_uint16 bv p (word_of_nat (length str))) (write_string_chars str))"

definition write_header_string4 :: "const_string wr" where
  "write_header_string4 bv p str =
     (if length str > UINT32_MAX then (Err OUT_OF_RANGE, bv, p)
      else wr_then (message_write_uint_x bv p (word_of_nat (length str))) (write_string_chars str))"

end
