(* ===== verification/RRL_Codec.thy ===== *)
theory RRL_Codec
  imports RRL_Wire
begin

text \<open>
  The contracts of the wire fields. \<open>wr_result\<close> says what a writing helper of
  src/message.c promises, \<open>at\<close> that given bytes stand at an offset of a buffer vector. The
  locales \<open>field_writer\<close>, \<open>field_reader\<close> and \<open>field_codec\<close> state the two
  sides of a field's contract and their agreement; they are interpreted on every field of
  RRL_Wire, and the header routines rest on these interpretations alone.
\<close>


section \<open>Bytes at an offset\<close>

definition at :: "buffer_vec \<Rightarrow> size_t \<Rightarrow> byte list \<Rightarrow> bool" where
  "at bv p xs \<longleftrightarrow> p + length xs \<le> length (flat bv) \<and> chunk (flat bv) p (length xs) = xs"

lemma at_append [codec_simps]:
  "at bv p (xs @ ys) \<longleftrightarrow> at bv p xs \<and> at bv (p + length xs) ys"
  by (auto simp: at_def chunk_add add.assoc)

lemma at_Cons: "at bv p (x # xs) \<longleftrightarrow> at bv p [x] \<and> at bv (p + 1) xs"
  using at_append [of bv p "[x]" xs] by simp

lemma at_put_flat:
  "p + length xs \<le> length (flat bv) \<Longrightarrow> at (put_flat bv p xs) p xs"
  by (simp add: at_def chunk_put_flat del: flat_put_flat)

lemma at_put_flat_before:
  "at bv q ys \<Longrightarrow> p + length xs \<le> length (flat bv) \<Longrightarrow>
     q + length ys \<le> p \<or> p + length xs \<le> q \<Longrightarrow> at (put_flat bv p xs) q ys"
  by (auto simp: at_def chunk_overwrite_disjoint)

lemma at_chunk: "p + n \<le> length (flat bv) \<Longrightarrow> at bv p (chunk (flat bv) p n)"
  by (simp add: at_def)

lemma at_le: "at bv p xs \<Longrightarrow> p + length xs \<le> length (flat bv)"
  by (simp add: at_def)

lemma wf_vec_flat_lt: "wf_vec 1 bv \<Longrightarrow> length (flat bv) < 2 ^ 63"
  by (simp add: wf_vec_def)

lemma wf_small: "wf_vec 1 bv \<Longrightarrow> p \<le> length (flat bv) \<Longrightarrow> p < 2 ^ 64"
  using wf_vec_flat_lt [of bv] by simp

text \<open>A zeroed buffer of \<open>n\<close> bytes in one segment, and one of \<open>m + n\<close> in two.\<close>

definition blank_vec :: "nat \<Rightarrow> buffer_vec" where
  "blank_vec n = [\<lparr>buf_data = replicate n 0, buf_len = n\<rparr>]"

definition blank_vec2 :: "nat \<Rightarrow> nat \<Rightarrow> buffer_vec" where
  "blank_vec2 m n =
     [\<lparr>buf_data = replicate m 0, buf_len = m\<rparr>, \<lparr>buf_data = replicate n 0, buf_len = n\<rparr>]"

lemma wf_blank: "n < 2 ^ 63 \<Longrightarrow> wf_vec 1 (blank_vec n)"
  and wf_blank2: "m + n < 2 ^ 63 \<Longrightarrow> wf_vec 1 (blank_vec2 m n)"
  by (simp_all add: blank_vec_def blank_vec2_def wf_vec_def flat_def)

lemma length_flat_blank [simp]:
  "length (flat (blank_vec n)) = n" "length (flat (blank_vec2 m n)) = m + n"
  by (simp_all add: blank_vec_def blank_vec2_def flat_def)


section \<open>The contract of a writing helper\<close>

definition fits :: "buffer_vec \<Rightarrow> size_t \<Rightarrow> byte list \<Rightarrow> bool" where
  "fits bv p xs \<longleftrightarrow> xs = [] \<or> p + length xs \<le> length (flat bv)"

text \<open>
  Bytes that fit are put at the offset, and nothing else changes. Bytes that do not fit give
  \<open>OUT_OF_RANGE\<close>; a prefix of them may have been written, but nothing before the offset.
\<close>

definition wr_result :: "buffer_vec \<Rightarrow> size_t \<Rightarrow> byte list \<Rightarrow> status \<times> buffer_vec \<times> size_t \<Rightarrow> bool" where
  "wr_result bv p xs r \<longleftrightarrow>
     (if fits bv p xs then r = (OK, put_flat bv p xs, p + length xs)
      else \<exists>bv' p'. r = (Err OUT_OF_RANGE, bv', p') \<and> seg_shape bv' = seg_shape bv \<and>
                    take p (flat bv') = take p (flat bv))"

lemma wr_result_OK: "wr_result bv p xs r \<Longrightarrow> fits bv p xs \<Longrightarrow> r = (OK, put_flat bv p xs, p + length xs)"
  by (simp add: wr_result_def)

lemma wr_result_full:
  assumes "wr_result bv p xs r" and "\<not> fits bv p xs"
  obtains bv' p' where "r = (Err OUT_OF_RANGE, bv', p')" "seg_shape bv' = seg_shape bv"
    "take p (flat bv') = take p (flat bv)"
  using assms by (auto simp: wr_result_def)

lemma wr_result_Nil: "wr_result bv p [] (OK, bv, p)"
  by (simp add: wr_result_def fits_def)

lemma fits_append:
  "fits bv p (xs @ ys) \<longleftrightarrow> fits bv p xs \<and> fits (put_flat bv p xs) (p + length xs) ys"
  by (cases "xs = []"; cases "ys = []") (auto simp: fits_def)

lemma put_flat_append_fits:
  "fits bv p (xs @ ys) \<Longrightarrow> put_flat (put_flat bv p xs) (p + length xs) ys = put_flat bv p (xs @ ys)"
  by (cases "xs = []"; cases "ys = []") (auto simp: fits_def put_flat_append)

lemma wf_vec_put_flat_fits: "fits bv p xs \<Longrightarrow> wf_vec es (put_flat bv p xs) = wf_vec es bv"
  by (cases "xs = []") (auto simp: fits_def)

lemma seg_shape_put_flat_fits: "fits bv p xs \<Longrightarrow> seg_shape (put_flat bv p xs) = seg_shape bv"
  by (cases "xs = []") (auto simp: fits_def)

lemma take_put_flat_fits:
  "fits bv p xs \<Longrightarrow> q \<le> p \<Longrightarrow> take q (flat (put_flat bv p xs)) = take q (flat bv)"
  by (cases "xs = []") (auto simp: fits_def overwrite_def min_def)

text \<open>One write after another, as \<open>wr_then\<close> sequences them, writes the concatenation.\<close>

lemma wr_result_then:
  assumes r: "wr_result bv p xs r" and wf: "wf_vec 1 bv"
    and g: "\<And>bv' p'. wf_vec 1 bv' \<Longrightarrow> wr_result bv' p' ys (g bv' p')"
  shows "wr_result bv p (xs @ ys) (wr_then r g)"
proof (cases "fits bv p xs")
  case False
  then have "\<not> fits bv p (xs @ ys)" by (simp add: fits_append)
  then show ?thesis using r False by (auto simp: wr_result_def wr_then_def)
next
  case True
  let ?bv = "put_flat bv p xs" and ?p = "p + length xs"
  have r': "r = (OK, ?bv, ?p)" using wr_result_OK [OF r True] .
  have g': "wr_result ?bv ?p ys (g ?bv ?p)"
    using g wf True by (simp add: wf_vec_put_flat_fits)
  show ?thesis
  proof (cases "fits ?bv ?p ys")
    case fy: True
    then have "fits bv p (xs @ ys)" using True by (simp add: fits_append)
    then show ?thesis
      using wr_result_OK [OF g' fy] r'
      by (simp add: wr_result_def wr_then_def put_flat_append_fits)
  next
    case fy: False
    obtain bv' p' where g2: "g ?bv ?p = (Err OUT_OF_RANGE, bv', p')"
        "seg_shape bv' = seg_shape ?bv" "take ?p (flat bv') = take ?p (flat ?bv)"
      using wr_result_full [OF g' fy] .
    have "take p (flat bv') = take p (flat ?bv)"
      using arg_cong [OF g2(3), of "take p"] by (simp add: min_def)
    then show ?thesis
      using g2 r' fy True
      by (simp add: wr_result_def wr_then_def fits_append seg_shape_put_flat_fits take_put_flat_fits)
  qed
qed

lemma wr_result_seg_shape:
  assumes "wr_result bv p xs (st, bv', p')"
  shows "seg_shape bv' = seg_shape bv" and "take p (flat bv') = take p (flat bv)"
    and "st = OK \<or> st = Err OUT_OF_RANGE"
  using assms by (auto simp: wr_result_def seg_shape_put_flat_fits take_put_flat_fits split: if_splits)


section \<open>Contracts of the fields\<close>

locale field_writer =
  fixes wr :: "'a wr" and enc :: "'a \<Rightarrow> byte list" and valid :: "'a \<Rightarrow> bool"
  assumes wr_result: "wf_vec 1 bv \<Longrightarrow> valid v \<Longrightarrow> wr_result bv p (enc v) (wr bv p v)"
begin

lemma wr_fits:
  "wf_vec 1 bv \<Longrightarrow> valid v \<Longrightarrow> p + length (enc v) \<le> length (flat bv) \<Longrightarrow>
     wr bv p v = (OK, put_flat bv p (enc v), p + length (enc v))"
  using wr_result_OK [OF wr_result] by (simp add: fits_def)

lemma wr_shape: "wf_vec 1 bv \<Longrightarrow> valid v \<Longrightarrow> wr bv p v = (st, bv', p') \<Longrightarrow> seg_shape bv' = seg_shape bv"
  using wr_result_seg_shape(1) wr_result by metis

end

text \<open>
  \<open>found v p\<close> is what the reader returns for the value \<open>v\<close> whose encoding starts at
  \<open>p\<close>: the value itself, or for a string the place of its characters.
\<close>

locale field_reader =
  fixes rd :: "'b rd" and enc :: "'a \<Rightarrow> byte list" and valid :: "'a \<Rightarrow> bool"
    and found :: "'a \<Rightarrow> size_t \<Rightarrow> 'b"
  assumes rd_at: "wf_vec 1 bv \<Longrightarrow> valid v \<Longrightarrow> at bv p (enc v) \<Longrightarrow>
                    rd bv p = Inr (found v p, p + length (enc v))"
    and rd_error: "wf_vec 1 bv \<Longrightarrow> rd bv p = Inl e \<Longrightarrow> e = OUT_OF_RANGE \<or> e = PROTOCOL"

locale field_codec = field_writer wr enc valid + field_reader rd enc valid found
  for wr :: "'a wr" and enc :: "'a \<Rightarrow> byte list" and valid :: "'a \<Rightarrow> bool"
    and rd :: "'b rd" and found :: "'a \<Rightarrow> size_t \<Rightarrow> 'b"
begin

text \<open>What was written is read back, from the same offset up to the same offset.\<close>

lemma write_read:
  assumes "wf_vec 1 bv" and "valid v" and "wr bv p v = (OK, bv', p')" and "enc v \<noteq> []"
  shows "rd bv' p = Inr (found v p, p')"
proof -
  have f: "fits bv p (enc v)"
    using wr_result [OF assms(1,2), of p] assms(3) by (auto simp: wr_result_def split: if_splits)
  then have b: "bv' = put_flat bv p (enc v)" "p' = p + length (enc v)"
    using wr_result_OK [OF wr_result [OF assms(1,2)] f] assms(3) by auto
  have le: "p + length (enc v) \<le> length (flat bv)" using f assms(4) by (simp add: fits_def)
  then have "at bv' p (enc v)" "wf_vec 1 bv'"
    using assms(1) by (simp_all add: b at_put_flat)
  then show ?thesis using rd_at [OF _ assms(2)] b by simp
qed

text \<open>A write elsewhere does not disturb a field that is in place.\<close>

lemma read_after_other:
  assumes "wf_vec 1 bv" and "valid v" and "at bv p (enc v)"
    and "q + length ys \<le> length (flat bv)" and "p + length (enc v) \<le> q \<or> q + length ys \<le> p"
  shows "rd (put_flat bv q ys) p = Inr (found v p, p + length (enc v))"
  using assms by (intro rd_at at_put_flat_before) auto

end


section \<open>Blocks and scalars\<close>

lemma wr_result_block:
  assumes wf: "wf_vec 1 bv" and es: "0 < es" and n: "0 < n"
    and d: "length d = n * es" "length d < 2 ^ 63" and k: "k = length d"
  shows "wr_result bv p d (advance p k (buffer_vec_copy_from_mem bv p d n 0 es n))"
proof -
  have "d \<noteq> []" using n es d by auto
  moreover have "p + length d < 2 ^ 64" if "p + length d \<le> length (flat bv)"
    using wf_small [OF wf that] .
  ultimately show ?thesis
    unfolding copy_from_mem_flat [OF wf es n d] wr_result_def fits_def k
    by (simp add: advance_def sz_add_nowrap)
qed

lemma copy_to_scalar_flat:
  assumes "wf_vec 1 bv" and "0 < es" and "es < 2 ^ 63"
  shows "copy_to_scalar bv p es =
           (if p + es \<le> length (flat bv) then Inr (chunk (flat bv) p es) else Inl OUT_OF_RANGE)"
  using copy_to_mem_flat [OF assms(1,2), of 1 "replicate es 0" 1 p] assms(3)
  by (simp add: copy_to_scalar_def overwrite_def)

lemma copy_to_scalar_at:
  "wf_vec 1 bv \<Longrightarrow> at bv p xs \<Longrightarrow> 0 < es \<Longrightarrow> es < 2 ^ 63 \<Longrightarrow> length xs = es \<Longrightarrow>
     copy_to_scalar bv p es = Inr xs"
  by (auto simp: copy_to_scalar_flat at_def)

lemma at_wf_add: "wf_vec 1 bv \<Longrightarrow> at bv p xs \<Longrightarrow> n = length xs \<Longrightarrow> sz_add p n = p + n"
  using wf_small at_le sz_add_nowrap by metis

lemma uint8_codec: "field_codec message_write_uint8 (\<lambda>v. [v]) (\<lambda>_. True) message_read_uint8 (\<lambda>v _. v)"
proof
  fix bv :: buffer_vec and p and v :: u8
  assume wf: "wf_vec 1 bv"
  show "wr_result bv p [v] (message_write_uint8 bv p v)"
    unfolding message_write_uint8_def buffer_vec_copy_from_uint8_def
    by (rule wr_result_block [OF wf]) auto
  show "message_read_uint8 bv p = Inr (v, p + length [v])" if a: "at bv p [v]"
    using copy_to_scalar_at [OF wf a] at_wf_add [OF wf a]
    by (simp add: message_read_uint8_def buffer_vec_copy_to_uint8_def)
  show "e = OUT_OF_RANGE \<or> e = PROTOCOL" if "message_read_uint8 bv p = Inl e" for e
    using that by (auto simp: message_read_uint8_def buffer_vec_copy_to_uint8_def
        copy_to_scalar_flat [OF wf] split: if_splits)
qed

lemma uint16_codec: "field_codec message_write_uint16 u16_bytes (\<lambda>_. True) message_read_uint16 (\<lambda>v _. v)"
proof
  fix bv :: buffer_vec and p and v :: u16
  assume wf: "wf_vec 1 bv"
  show "wr_result bv p (u16_bytes v) (message_write_uint16 bv p v)"
    unfolding message_write_uint16_def buffer_vec_copy_from_uint16_def
    by (rule wr_result_block [OF wf]) auto
  show "message_read_uint16 bv p = Inr (v, p + length (u16_bytes v))" if a: "at bv p (u16_bytes v)"
    using copy_to_scalar_at [OF wf a] at_wf_add [OF wf a]
    by (simp add: message_read_uint16_def buffer_vec_copy_to_uint16_def)
  show "e = OUT_OF_RANGE \<or> e = PROTOCOL" if "message_read_uint16 bv p = Inl e" for e
    using that by (auto simp: message_read_uint16_def buffer_vec_copy_to_uint16_def
        copy_to_scalar_flat [OF wf] split: if_splits)
qed

lemma uint32_codec: "field_codec message_write_uint32 u32_bytes (\<lambda>_. True) message_read_uint32 (\<lambda>v _. v)"
proof
  fix bv :: buffer_vec and p and v :: u32
  assume wf: "wf_vec 1 bv"
  show "wr_result bv p (u32_bytes v) (message_write_uint32 bv p v)"
    unfolding message_write_uint32_def buffer_vec_copy_from_uint32_def
    by (rule wr_result_block [OF wf]) auto
  show "message_read_uint32 bv p = Inr (v, p + length (u32_bytes v))" if a: "at bv p (u32_bytes v)"
    using copy_to_scalar_at [OF wf a] at_wf_add [OF wf a]
    by (simp add: message_read_uint32_def buffer_vec_copy_to_uint32_def)
  show "e = OUT_OF_RANGE \<or> e = PROTOCOL" if "message_read_uint32 bv p = Inl e" for e
    using that by (auto simp: message_read_uint32_def buffer_vec_copy_to_uint32_def
        copy_to_scalar_flat [OF wf] split: if_splits)
qed

interpretation uint8: field_codec message_write_uint8 "\<lambda>v. [v]" "\<lambda>_. True" message_read_uint8 "\<lambda>v _. v"
  by (rule uint8_codec)

interpretation uint16: field_codec message_write_uint16 u16_bytes "\<lambda>_. True" message_read_uint16 "\<lambda>v _. v"
  by (rule uint16_codec)

interpretation uint32: field_codec message_write_uint32 u32_bytes "\<lambda>_. True" message_read_uint32 "\<lambda>v _. v"
  by (rule uint32_codec)


section \<open>Variable-length integers\<close>

text \<open>The encodings a \<open>uint_x\<close> can have: in one, three or five bytes.\<close>

definition enc_uint_as :: "nat \<Rightarrow> u32 \<Rightarrow> byte list" where
  "enc_uint_as w v =
     (if w = 1 then [ucast v] else if w = 3 then 253 # u16_bytes (ucast v) else 254 # u32_bytes v)"

definition uint_width_ok :: "nat \<Rightarrow> u32 \<Rightarrow> bool" where
  "uint_width_ok w v \<longleftrightarrow>
     w = 1 \<and> unat v \<le> 252 \<or> w = 3 \<and> unat v \<le> UINT16_MAX \<or> w = 5"

definition enc_uint_x :: "u32 \<Rightarrow> byte list" where
  "enc_uint_x v = enc_uint_as (message_uint_x_size v) v"

definition enc_padded_uint_x :: "u32 \<Rightarrow> byte list" where
  "enc_padded_uint_x v = 254 # u32_bytes v"

lemma length_enc_uint_as: "uint_width_ok w v \<Longrightarrow> length (enc_uint_as w v) = w"
  by (auto simp: enc_uint_as_def uint_width_ok_def)

lemma uint_width_ok_min: "uint_width_ok (message_uint_x_size v) v"
  by (auto simp: uint_width_ok_def message_uint_x_size_def)

lemma length_enc_uint_x [simp]: "length (enc_uint_x v) = message_uint_x_size v"
  unfolding enc_uint_x_def using length_enc_uint_as [OF uint_width_ok_min] .

lemma enc_padded_as: "enc_padded_uint_x v = enc_uint_as 5 v"
  by (simp add: enc_padded_uint_x_def enc_uint_as_def)

lemma length_enc_padded [simp]: "length (enc_padded_uint_x v) = 5"
  by (simp add: enc_padded_uint_x_def)

lemma unat_ucast_small:
  fixes v :: "'a::len word"
  assumes "unat v < 2 ^ LENGTH('b)"
  shows "unat (ucast v :: 'b::len word) = unat v"
proof -
  have "unat (ucast v :: 'b word) = take_bit LENGTH('b) (unat v)"
    by (simp only: unsigned_ucast_eq unsigned_take_bit_eq)
  then show ?thesis using assms by (simp add: take_bit_nat_eq_self)
qed

lemma unat_ucast_u16: "unat (v :: u32) \<le> UINT16_MAX \<Longrightarrow> unat (ucast v :: u16) = unat v"
  by (rule unat_ucast_small) (simp add: UINT16_MAX_def)

lemma unat_ucast_u8: "unat (v :: u32) \<le> 252 \<Longrightarrow> unat (ucast v :: u8) = unat v"
  by (rule unat_ucast_small) simp

lemma word_eq_unatI: "unat a = unat b \<Longrightarrow> a = b"
  by (simp add: word_unat_eq_iff)

lemma unat_ucast_up:
  fixes v :: "'a::len word"
  assumes "LENGTH('a) \<le> LENGTH('b)"
  shows "unat (ucast v :: 'b::len word) = unat v"
proof (rule unat_ucast_small)
  have "unat v < 2 ^ LENGTH('a)" by (rule unsigned_less)
  also have "\<dots> \<le> 2 ^ LENGTH('b)" using assms by simp
  finally show "unat v < 2 ^ LENGTH('b)" .
qed

lemma ucast_ucast_u16: "unat (v :: u32) \<le> UINT16_MAX \<Longrightarrow> ucast (ucast v :: u16) = v"
  by (rule word_eq_unatI) (simp add: unat_ucast_u16 unat_ucast_up)

lemma ucast_ucast_u8: "unat (v :: u32) \<le> 252 \<Longrightarrow> ucast (ucast v :: u8) = v"
  by (rule word_eq_unatI) (simp add: unat_ucast_u8 unat_ucast_up)

text \<open>Every form of a \<open>uint_x\<close> is read back to the value it encodes.\<close>

lemma read_uint_as:
  assumes wf: "wf_vec 1 bv" and w: "uint_width_ok w v" and a: "at bv p (enc_uint_as w v)"
  shows "message_read_uint_x bv p = Inr (v, p + w)"
proof -
  consider "w = 1" "unat v \<le> 252" | "w = 3" "unat v \<le> UINT16_MAX" | "w = 5"
    using w by (auto simp: uint_width_ok_def)
  then show ?thesis
  proof cases
    case 1
    have b: "at bv p [ucast v]" using a 1 by (simp add: enc_uint_as_def)
    have r: "message_read_uint8 bv p = Inr (ucast v, p + 1)" using uint8.rd_at [OF wf _ b] by simp
    show ?thesis using 1 by (simp add: message_read_uint_x_def r unat_ucast_u8 ucast_ucast_u8)
  next
    case 2
    have b: "at bv p [253]" "at bv (p + 1) (u16_bytes (ucast v))"
      using a 2 at_append [of bv p "[253]" "u16_bytes (ucast v)"] by (simp_all add: enc_uint_as_def)
    have "message_read_uint8 bv p = Inr (253, p + 1)"
         "message_read_uint16 bv (p + 1) = Inr (ucast v, p + 3)"
      using uint8.rd_at [OF wf _ b(1)] uint16.rd_at [OF wf _ b(2)] by simp_all
    then show ?thesis using 2 by (simp add: message_read_uint_x_def ucast_ucast_u16)
  next
    case 3
    have b: "at bv p [254]" "at bv (p + 1) (u32_bytes v)"
      using a 3 at_append [of bv p "[254]" "u32_bytes v"] by (simp_all add: enc_uint_as_def)
    have "message_read_uint8 bv p = Inr (254, p + 1)"
         "message_read_uint32 bv (p + 1) = Inr (v, p + 5)"
      using uint8.rd_at [OF wf _ b(1)] uint32.rd_at [OF wf _ b(2)] by simp_all
    then show ?thesis using 3 by (simp add: message_read_uint_x_def)
  qed
qed

lemma uint_x_error:
  assumes "wf_vec 1 bv" and "message_read_uint_x bv p = Inl e"
  shows "e = OUT_OF_RANGE \<or> e = PROTOCOL"
  using assms(2)
  by (auto simp: message_read_uint_x_def split: sum.splits if_splits
      dest!: uint8.rd_error [OF assms(1)] uint16.rd_error [OF assms(1)] uint32.rd_error [OF assms(1)])

text \<open>Every form of an integer, of minimal width or not, is a field that can be read.\<close>

interpretation uint_as: field_reader message_read_uint_x "enc_uint_as w" "uint_width_ok w" "\<lambda>v _. v" for w
proof
  fix bv :: buffer_vec and p and v :: u32
  assume "wf_vec 1 bv" and w: "uint_width_ok w v" and "at bv p (enc_uint_as w v)"
  then show "message_read_uint_x bv p = Inr (v, p + length (enc_uint_as w v))"
    by (simp add: read_uint_as length_enc_uint_as)
next
  fix bv :: buffer_vec and p and e
  assume "wf_vec 1 bv" and "message_read_uint_x bv p = Inl e"
  then show "e = OUT_OF_RANGE \<or> e = PROTOCOL" by (rule uint_x_error)
qed

lemma wr_result_tagged:
  assumes wf: "wf_vec 1 bv"
    and g: "\<And>bv' p'. wf_vec 1 bv' \<Longrightarrow> wr_result bv' p' ys (g bv' p')"
  shows "wr_result bv p (b # ys) (wr_then (message_write_uint8 bv p b) g)"
  using wr_result_then [OF uint8.wr_result [OF wf, where v = b and p = p] wf g] by simp

interpretation uint_x: field_codec message_write_uint_x enc_uint_x "\<lambda>_. True" message_read_uint_x "\<lambda>v _. v"
proof
  fix bv :: buffer_vec and p and v :: u32
  assume wf: "wf_vec 1 bv"
  show "wr_result bv p (enc_uint_x v) (message_write_uint_x bv p v)"
    using uint8.wr_result [OF wf, where v = "ucast v" and p = p]
      wr_result_tagged [OF wf, where g = "\<lambda>bv p. message_write_uint16 bv p (ucast v)"
         and b = 253 and ys = "u16_bytes (ucast v)" and p = p]
      wr_result_tagged [OF wf, where g = "\<lambda>bv p. message_write_uint32 bv p v"
         and b = 254 and ys = "u32_bytes v" and p = p]
      uint16.wr_result uint32.wr_result
    by (simp add: message_write_uint_x_def enc_uint_x_def enc_uint_as_def message_uint_x_size_def)
  show "message_read_uint_x bv p = Inr (v, p + length (enc_uint_x v))" if "at bv p (enc_uint_x v)"
    using read_uint_as [OF wf uint_width_ok_min that [unfolded enc_uint_x_def]] by simp
  show "e = OUT_OF_RANGE \<or> e = PROTOCOL" if "message_read_uint_x bv p = Inl e" for e
    using uint_x_error [OF wf that] .
qed

text \<open>The five-byte form, and the place in it where its value can be written again.\<close>

definition write_padded :: "u32 wr" where
  "write_padded bv p v = fst (message_write_padded_uint_x bv p v 0)"

interpretation padded: field_codec write_padded enc_padded_uint_x "\<lambda>_. True" message_read_uint_x "\<lambda>v _. v"
proof
  fix bv :: buffer_vec and p and v :: u32
  assume wf: "wf_vec 1 bv"
  have "write_padded bv p v =
          wr_then (message_write_uint8 bv p 254) (\<lambda>bv p. message_write_uint32 bv p v)"
    by (auto simp: write_padded_def message_write_padded_uint_x_def wr_then_def
        split: prod.splits status.splits)
  then show "wr_result bv p (enc_padded_uint_x v) (write_padded bv p v)"
    using wr_result_tagged [OF wf, where g = "\<lambda>bv p. message_write_uint32 bv p v"
         and b = 254 and ys = "u32_bytes v" and p = p] uint32.wr_result
    by (simp add: enc_padded_uint_x_def)
  show "message_read_uint_x bv p = Inr (v, p + length (enc_padded_uint_x v))"
    if "at bv p (enc_padded_uint_x v)"
    using read_uint_as [OF wf _ that [unfolded enc_padded_as]] by (simp add: uint_width_ok_def)
  show "e = OUT_OF_RANGE \<or> e = PROTOCOL" if "message_read_uint_x bv p = Inl e" for e
    using uint_x_error [OF wf that] .
qed

lemma write_padded_offset:
  assumes "wf_vec 1 bv" and "p + 5 \<le> length (flat bv)"
  shows "message_write_padded_uint_x bv p v c =
           ((OK, put_flat bv p (enc_padded_uint_x v), p + 5), p + 1)"
proof -
  have "fst (message_write_padded_uint_x bv p v c) = write_padded bv p v"
    by (auto simp: write_padded_def message_write_padded_uint_x_def split: prod.splits status.splits)
  moreover have "snd (message_write_padded_uint_x bv p v c) = p + 1"
    using uint8.wr_fits [OF assms(1), where v = 254 and p = p] assms(2)
    by (simp add: message_write_padded_uint_x_def)
  ultimately show ?thesis
    using padded.wr_fits [OF assms(1), where v = v and p = p] assms(2) by (metis length_enc_padded prod.collapse)
qed


section \<open>Signed variable-length integers\<close>

definition enc_int_x :: "i32 \<Rightarrow> byte list" where
  "enc_int_x v =
     (if -128 \<le> sint v \<and> sint v \<le> 124 then [ucast v]
      else if -32768 \<le> sint v \<and> sint v \<le> 32767 then 125 # u16_bytes (ucast v)
      else 126 # u32_bytes v)"

lemma sint_ucast_small:
  fixes v :: "'a::len word"
  assumes "LENGTH('b) \<le> LENGTH('a)"
    and "- (2 ^ (LENGTH('b) - 1)) \<le> sint v" and "sint v < 2 ^ (LENGTH('b) - 1)"
  shows "sint (ucast v :: 'b::len word) = sint v"
proof -
  have u: "uint (ucast v :: 'b word) = take_bit LENGTH('b) (uint v)"
    by (simp only: unsigned_ucast_eq unsigned_take_bit_eq)
  have "sint (ucast v :: 'b word) = signed_take_bit (LENGTH('b) - 1) (uint v)"
    unfolding sint_uint [of "ucast v"] u by (simp add: signed_take_bit_eq_iff_take_bit_eq)
  moreover have "signed_take_bit (LENGTH('b) - 1) (uint v) = signed_take_bit (LENGTH('b) - 1) (sint v)"
    using assms(1) by (simp add: sint_uint signed_take_bit_signed_take_bit min_def)
  ultimately show ?thesis
    using assms(2,3) by (simp add: signed_take_bit_int_eq_self)
qed

lemma scast_eqI:
  fixes v :: "'a::len word" and b :: "'b::len word"
  assumes "sint b = sint v"
  shows "scast b = v"
proof (rule signed_word_eqI)
  have "sint (scast b :: 'a word) = signed_take_bit (LENGTH('a) - 1) (sint v)"
    using assms by (simp add: signed_scast_eq)
  also have "\<dots> = sint v" by (simp add: sint_uint signed_take_bit_signed_take_bit)
  finally show "sint (scast b :: 'a word) = sint v" .
qed
lemma sint_ucast_i8: "-128 \<le> sint (v :: i32) \<Longrightarrow> sint v \<le> 124 \<Longrightarrow> sint (ucast v :: 8 word) = sint v"
  by (rule sint_ucast_small) simp_all

lemma sint_ucast_i16: "-32768 \<le> sint (v :: i32) \<Longrightarrow> sint v \<le> 32767 \<Longrightarrow> sint (ucast v :: 16 word) = sint v"
  by (rule sint_ucast_small) simp_all

text \<open>The signed accessors move the same bytes as the unsigned ones.\<close>

lemma signed_accessors:
  "message_write_int8 = message_write_uint8"
  "message_write_int16 = message_write_uint16"
  "message_write_int32 = message_write_uint32"
  "buffer_vec_copy_to_int8 = buffer_vec_copy_to_uint8"
  "buffer_vec_copy_to_int16 = buffer_vec_copy_to_uint16"
  "buffer_vec_copy_to_int32 = buffer_vec_copy_to_uint32"
  by (auto simp: fun_eq_iff message_write_int8_def message_write_uint8_def
      message_write_int16_def message_write_uint16_def message_write_int32_def
      message_write_uint32_def buffer_vec_copy_from_int8_def buffer_vec_copy_from_uint8_def
      buffer_vec_copy_from_int16_def buffer_vec_copy_from_uint16_def
      buffer_vec_copy_from_int32_def buffer_vec_copy_from_uint32_def
      buffer_vec_copy_to_int8_def buffer_vec_copy_to_uint8_def
      buffer_vec_copy_to_int16_def buffer_vec_copy_to_uint16_def
      buffer_vec_copy_to_int32_def buffer_vec_copy_to_uint32_def)

text \<open>\<open>message_read_int_x\<close> in terms of the unsigned reads.\<close>

lemma message_read_int_x_unsigned:
  "message_read_int_x bv p =
     (case message_read_uint8 bv p of
        Inl e \<Rightarrow> Inl e
      | Inr (b, p) \<Rightarrow>
          (if sint b \<le> 124 then Inr (scast b, p)
           else if b = 125 then map_sum id (\<lambda>(v, p). (scast v, p)) (message_read_uint16 bv p)
           else if b = 126 then message_read_uint32 bv p
           else Inl PROTOCOL))"
  by (auto simp: message_read_int_x_def signed_accessors message_read_uint8_def
      message_read_uint16_def message_read_uint32_def Let_def split: sum.splits)

interpretation int_x: field_codec message_write_int_x enc_int_x "\<lambda>_. True" message_read_int_x "\<lambda>v _. v"
proof
  fix bv :: buffer_vec and p and v :: i32
  assume wf: "wf_vec 1 bv"
  show "wr_result bv p (enc_int_x v) (message_write_int_x bv p v)"
    using uint8.wr_result [OF wf, where v = "ucast v" and p = p]
      wr_result_tagged [OF wf, where g = "\<lambda>bv p. message_write_uint16 bv p (ucast v)"
         and b = 125 and ys = "u16_bytes (ucast v)" and p = p]
      wr_result_tagged [OF wf, where g = "\<lambda>bv p. message_write_uint32 bv p v"
         and b = 126 and ys = "u32_bytes v" and p = p]
      uint16.wr_result uint32.wr_result
    by (simp add: message_write_int_x_def enc_int_x_def signed_accessors)
  show "e = OUT_OF_RANGE \<or> e = PROTOCOL" if "message_read_int_x bv p = Inl e" for e
    using that
    by (auto simp: message_read_int_x_unsigned map_sum_def split: sum.splits if_splits
        dest!: uint8.rd_error [OF wf] uint16.rd_error [OF wf] uint32.rd_error [OF wf])
  assume a: "at bv p (enc_int_x v)"
  consider "-128 \<le> sint v" "sint v \<le> 124"
    | "\<not> (-128 \<le> sint v \<and> sint v \<le> 124)" "-32768 \<le> sint v" "sint v \<le> 32767"
    | "\<not> (-32768 \<le> sint v \<and> sint v \<le> 32767)" "\<not> (-128 \<le> sint v \<and> sint v \<le> 124)"
    by linarith
  then show "message_read_int_x bv p = Inr (v, p + length (enc_int_x v))"
  proof cases
    case 1
    have b: "at bv p [ucast v]" using a 1 by (simp add: enc_int_x_def)
    have r: "message_read_uint8 bv p = Inr (ucast v, p + 1)" using uint8.rd_at [OF wf _ b] by simp
    show ?thesis
      using 1 sint_ucast_i8 [OF 1] by (simp add: message_read_int_x_unsigned r scast_eqI enc_int_x_def)
  next
    case 2
    then have e: "enc_int_x v = [125] @ u16_bytes (ucast v)" by (auto simp: enc_int_x_def)
    have b: "at bv p [125]" "at bv (p + 1) (u16_bytes (ucast v))"
      using a unfolding e at_append by simp_all
    have r: "message_read_uint8 bv p = Inr (125, p + 1)"
            "message_read_uint16 bv (p + 1) = Inr (ucast v, p + 3)"
      using uint8.rd_at [OF wf _ b(1)] uint16.rd_at [OF wf _ b(2)] by simp_all
    have "scast (ucast v :: 16 word) = v" using sint_ucast_i16 [OF 2(2,3)] by (rule scast_eqI)
    then show ?thesis using r by (simp add: message_read_int_x_unsigned e)
  next
    case 3
    then have e: "enc_int_x v = [126] @ u32_bytes v" by (auto simp: enc_int_x_def)
    have b: "at bv p [126]" "at bv (p + 1) (u32_bytes v)"
      using a unfolding e at_append by simp_all
    have r: "message_read_uint8 bv p = Inr (126, p + 1)"
            "message_read_uint32 bv (p + 1) = Inr (v, p + 5)"
      using uint8.rd_at [OF wf _ b(1)] uint32.rd_at [OF wf _ b(2)] by simp_all
    then show ?thesis by (simp add: message_read_int_x_unsigned e)
  qed
qed


section \<open>Node identifiers and the magic number\<close>

text \<open>\<open>robotraconteurlite_buffer_vec_copy_from_uint8_array(.., 0, 16); *offset += 16U;\<close>\<close>

definition message_write_nodeid :: "byte list wr" where
  "message_write_nodeid bv p d = advance p 16 (buffer_vec_copy_from_uint8_array bv p d 16 0 16)"

definition rrac_magic :: "byte list" where
  "rrac_magic = [82, 82, 65, 67]"

definition message_write_magic :: "unit wr" where
  "message_write_magic bv p u = advance p 4 (buffer_vec_copy_from_mem bv p rrac_magic 4 0 1 4)"

interpretation nodeid: field_codec message_write_nodeid id "\<lambda>d. length d = 16" message_read_nodeid "\<lambda>d _. d"
proof
  fix bv :: buffer_vec and p and d :: "byte list"
  assume wf: "wf_vec 1 bv"
  show "wr_result bv p (id d) (message_write_nodeid bv p d)" if "length d = 16"
    unfolding message_write_nodeid_def buffer_vec_copy_from_uint8_array_def id_def
    by (rule wr_result_block [OF wf]) (use that in simp_all)
  have r: "buffer_vec_copy_to_mem bv p (replicate 16 0) 16 0 1 16 =
           (if p + 16 \<le> length (flat bv) then (OK, chunk (flat bv) p 16)
            else (Err OUT_OF_RANGE, replicate 16 0))"
    using copy_to_mem_flat [OF wf, of 1 16 "replicate 16 0" 16 p] by (simp add: overwrite_def)
  show "message_read_nodeid bv p = Inr (d, p + length (id d))"
    if "length d = 16" and "at bv p (id d)"
    using that r at_wf_add [OF wf that(2)]
    by (simp add: message_read_nodeid_def buffer_vec_copy_to_uint8_array_def at_def)
  show "e = OUT_OF_RANGE \<or> e = PROTOCOL" if "message_read_nodeid bv p = Inl e" for e
    using that r
    by (simp add: message_read_nodeid_def buffer_vec_copy_to_uint8_array_def split: if_splits)
qed

interpretation magic: field_writer message_write_magic "\<lambda>_. rrac_magic" "\<lambda>_. True"
proof
  fix bv :: buffer_vec and p and u :: unit
  assume wf: "wf_vec 1 bv"
  show "wr_result bv p rrac_magic (message_write_magic bv p u)"
    unfolding message_write_magic_def
    by (rule wr_result_block [OF wf]) (simp_all add: rrac_magic_def)
qed


section \<open>Strings with a length prefix\<close>

definition enc_str2 :: "const_string \<Rightarrow> byte list" where
  "enc_str2 s = u16_bytes (word_of_nat (length s)) @ s"

definition enc_str4 :: "const_string \<Rightarrow> byte list" where
  "enc_str4 s = enc_uint_x (word_of_nat (length s)) @ s"

definition str2_ok :: "const_string \<Rightarrow> bool" where
  "str2_ok s \<longleftrightarrow> length s \<le> UINT16_MAX"

definition str4_ok :: "const_string \<Rightarrow> bool" where
  "str4_ok s \<longleftrightarrow> length s \<le> UINT32_MAX"

definition str2_found :: "const_string \<Rightarrow> size_t \<Rightarrow> string_info" where
  "str2_found s p = \<lparr>si_offset = p + 2, si_len = length s\<rparr>"

definition str4_found :: "const_string \<Rightarrow> size_t \<Rightarrow> string_info" where
  "str4_found s p =
     \<lparr>si_offset = p + message_uint_x_size (word_of_nat (length s)), si_len = length s\<rparr>"

lemma length_enc_str2 [simp]: "length (enc_str2 s) = 2 + length s"
  by (simp add: enc_str2_def)

lemma length_enc_str4 [simp]:
  "length (enc_str4 s) = message_uint_x_size (word_of_nat (length s)) + length s"
  by (simp add: enc_str4_def)

lemma unat_length_u16: "str2_ok s \<Longrightarrow> unat (word_of_nat (length s) :: u16) = length s"
  by (simp add: str2_ok_def UINT16_MAX_def unat_of_nat)

lemma unat_length_u32: "str4_ok s \<Longrightarrow> unat (word_of_nat (length s) :: u32) = length s"
  by (simp add: str4_ok_def UINT32_MAX_def unat_of_nat)

lemma str2_ok_str4_ok: "str2_ok s \<Longrightarrow> str4_ok s"
  by (simp add: str2_ok_def str4_ok_def UINT16_MAX_def UINT32_MAX_def)

lemma wr_result_chars:
  assumes wf: "wf_vec 1 bv" and s: "str4_ok s"
  shows "wr_result bv p s (write_string_chars s bv p)"
proof (cases "s = []")
  case True
  then show ?thesis by (simp add: write_string_chars_def wr_result_Nil)
next
  case False
  have "length s \<le> 4294967295" using s by (simp add: str4_ok_def UINT32_MAX_def)
  then have "length s < 2 ^ 63" by (rule le_less_trans) simp
  then show ?thesis
    using wr_result_block [OF wf, of 1 "length s" s "length s" p] False
    by (simp add: write_string_chars_def buffer_vec_copy_from_string_def)
qed

lemma str_not_long: "str4_ok s \<Longrightarrow> \<not> UINT32_MAX < length s"
  by (simp add: str4_ok_def)

interpretation str2: field_codec write_header_string2 enc_str2 str2_ok
  read_header_string_prefix2_1 str2_found
proof
  fix bv :: buffer_vec and p and s :: const_string
  assume wf: "wf_vec 1 bv"
  show "e = OUT_OF_RANGE \<or> e = PROTOCOL" if "read_header_string_prefix2_1 bv p = Inl e" for e
    using that
    by (auto simp: read_header_string_prefix2_1_def split: sum.splits dest!: uint16.rd_error [OF wf])
  assume s: "str2_ok s"
  note s4 = str2_ok_str4_ok [OF s]
  show "wr_result bv p (enc_str2 s) (write_header_string2 bv p s)"
    unfolding write_header_string2_def enc_str2_def if_not_P [OF str_not_long [OF s4]]
    by (rule wr_result_then [OF uint16.wr_result [OF wf TrueI] wf wr_result_chars [OF _ s4]])
  assume a: "at bv p (enc_str2 s)"
  then have b: "at bv p (u16_bytes (word_of_nat (length s)))" "at bv (p + 2) s"
    by (simp_all add: enc_str2_def at_append)
  show "read_header_string_prefix2_1 bv p = Inr (str2_found s p, p + length (enc_str2 s))"
    using uint16.rd_at [OF wf TrueI b(1)] at_wf_add [OF wf b(2) refl]
    by (simp add: read_header_string_prefix2_1_def unat_length_u16 [OF s] str2_found_def)
qed

interpretation str4: field_codec write_header_string4 enc_str4 str4_ok
  read_header_string_prefix4_1 str4_found
proof
  fix bv :: buffer_vec and p and s :: const_string
  assume wf: "wf_vec 1 bv"
  show "e = OUT_OF_RANGE \<or> e = PROTOCOL" if "read_header_string_prefix4_1 bv p = Inl e" for e
    using that
    by (auto simp: read_header_string_prefix4_1_def split: sum.splits dest!: uint_x.rd_error [OF wf])
  assume s: "str4_ok s"
  show "wr_result bv p (enc_str4 s) (write_header_string4 bv p s)"
    unfolding write_header_string4_def enc_str4_def if_not_P [OF str_not_long [OF s]]
    by (rule wr_result_then [OF uint_x.wr_result [OF wf TrueI] wf wr_result_chars [OF _ s]])
  assume a: "at bv p (enc_str4 s)"
  let ?n = "word_of_nat (length s) :: u32"
  have b: "at bv p (enc_uint_x ?n)" "at bv (p + message_uint_x_size ?n) s"
    using a by (simp_all add: enc_str4_def at_append)
  show "read_header_string_prefix4_1 bv p = Inr (str4_found s p, p + length (enc_str4 s))"
    using uint_x.rd_at [OF wf TrueI b(1)] at_wf_add [OF wf b(2) refl]
    by (simp add: read_header_string_prefix4_1_def unat_length_u32 [OF s] str4_found_def)
qed

end
