(* ===== verification/RRL_Frame.thy ===== *)
theory RRL_Frame
  imports RRL_Codec
begin

text \<open>
  The header routines of src/message.c are long sequences of field reads or field writes, many of
  them guarded by a flag. This theory holds the frames of local variables they run over, the
  statements they are made of, and two compositional contracts: \<open>consumes\<close>, that a statement
  reads given bytes and updates the frame in a given way, and \<open>emits\<close>, that a statement
  writes given bytes. Both are closed under sequencing and under \<open>if\<close>.
\<close>

definition flag_if :: "bool \<Rightarrow> u8 \<Rightarrow> u8" where
  "flag_if c m = (if c then m else 0)"

text \<open>Bytes that are present only when a flag is set.\<close>

definition opt :: "bool \<Rightarrow> byte list \<Rightarrow> byte list" where
  "opt c xs = (if c then xs else [])"

lemma opt_simps [simp]: "opt True xs = xs" "opt False xs = []"
  by (simp_all add: opt_def)

lemma length_opt: "length (opt c xs) = (if c then length xs else 0)"
  by (simp add: opt_def)


section \<open>Reading frames\<close>

text \<open>
  The local variables of a header reader: the offset \<open>o\<close>, the caller's header, the local
  \<open>temp_buffer_info\<close>, \<open>flags\<close>, and the places of up to three strings.
\<close>

record ('h, 'i) rframe =
  f_off :: size_t
  f_hdr :: 'h
  f_info :: 'i
  f_flags :: u8
  f_str1 :: string_info
  f_str2 :: string_info
  f_str3 :: string_info

definition no_string_info :: string_info where
  "no_string_info = \<lparr>si_offset = 0, si_len = 0\<rparr>"

definition start_frame :: "size_t \<Rightarrow> 'h \<Rightarrow> 'i \<Rightarrow> ('h, 'i) rframe" where
  "start_frame p h i =
     \<lparr>f_off = p, f_hdr = h, f_info = i, f_flags = 0,
      f_str1 = no_string_info, f_str2 = no_string_info, f_str3 = no_string_info\<rparr>"

text \<open>\<open>rv = message_read_..(buffer, &o, &x); if (FAILED(rv)) return rv;\<close>\<close>

definition rd_field ::
  "buffer_vec \<Rightarrow> 'a rd \<Rightarrow> ('a \<Rightarrow> ('h, 'i) rframe \<Rightarrow> ('h, 'i) rframe) \<Rightarrow> ('h, 'i) rframe step" where
  "rd_field bv rd upd s =
     (case rd bv (f_off s) of
        Inl e \<Rightarrow> (Err e, s)
      | Inr (v, p) \<Rightarrow> (OK, upd v (s\<lparr>f_off := p\<rparr>)))"

text \<open>A \<open>uint_x\<close> number of bytes, and that many bytes skipped.\<close>

definition rd_skip :: "buffer_vec \<Rightarrow> ('h, 'i) rframe step" where
  "rd_skip bv s =
     (case message_read_uint_x bv (f_off s) of
        Inl e \<Rightarrow> (Err e, s)
      | Inr (n, p) \<Rightarrow> (OK, s\<lparr>f_off := sz_add p (unat n)\<rparr>))"

text \<open>\<open>o += n;\<close>\<close>

definition rd_pad :: "size_t \<Rightarrow> ('h, 'i) rframe step" where
  "rd_pad n = assign (\<lambda>s. s\<lparr>f_off := sz_add (f_off s) n\<rparr>)"

definition set_hdr :: "('h \<Rightarrow> 'h) \<Rightarrow> ('h, 'i) rframe \<Rightarrow> ('h, 'i) rframe" where
  "set_hdr f s = s\<lparr>f_hdr := f (f_hdr s)\<rparr>"

definition set_info :: "(size_t \<Rightarrow> 'i \<Rightarrow> 'i) \<Rightarrow> ('h, 'i) rframe \<Rightarrow> ('h, 'i) rframe" where
  "set_info f s = s\<lparr>f_info := f (f_off s) (f_info s)\<rparr>"

text \<open>The second pass over a string: its characters into the caller's string.\<close>

definition get_string ::
  "buffer_vec \<Rightarrow> (('h, 'i) rframe \<Rightarrow> string_info) \<Rightarrow> ('h \<Rightarrow> rstring) \<Rightarrow> (rstring \<Rightarrow> 'h \<Rightarrow> 'h)
     \<Rightarrow> ('h, 'i) rframe step" where
  "get_string bv place get put s =
     (case read_header_string_2 bv (place s) (get (f_hdr s)) of
        (st, str) \<Rightarrow> (st, set_hdr (put str) s))"

text \<open>
  The end of a header reader: the header keeps what was read before a failure, the caller's
  buffer information is written on success only.
\<close>

definition end_read :: "'i \<Rightarrow> status \<times> ('h, 'i) rframe \<Rightarrow> status \<times> 'h \<times> 'i" where
  "end_read i r = (case r of (OK, s) \<Rightarrow> (OK, f_hdr s, f_info s) | (Err e, s) \<Rightarrow> (Err e, f_hdr s, i))"

text \<open>
  \<open>consumes bv fl a xs u\<close>: where \<open>flags\<close> is \<open>fl\<close> and \<open>xs\<close> stands at the
  offset, the statement \<open>a\<close> succeeds, advances past \<open>xs\<close> and turns the frame to
  \<open>u\<close> of it.
\<close>

definition consumes ::
  "buffer_vec \<Rightarrow> u8 \<Rightarrow> ('h, 'i) rframe step \<Rightarrow> byte list
     \<Rightarrow> (('h, 'i) rframe \<Rightarrow> ('h, 'i) rframe) \<Rightarrow> bool" where
  "consumes bv fl a xs u \<longleftrightarrow>
     (\<forall>s. f_flags s = fl \<longrightarrow> at bv (f_off s) xs \<longrightarrow>
          a s = (OK, u s) \<and> f_off (u s) = f_off s + length xs \<and> f_flags (u s) = fl)"

lemma consumesD:
  assumes "consumes bv fl a xs u" and "f_flags s = fl" and "at bv (f_off s) xs"
  shows "a s = (OK, u s)" and "f_off (u s) = f_off s + length xs" and "f_flags (u s) = fl"
  using assms by (auto simp: consumes_def)

lemma consumes_Nil: "consumes bv fl (run_steps []) [] (\<lambda>s. s)"
  by (simp add: consumes_def)

lemma consumes_Cons:
  assumes a: "consumes bv fl a xs u" and as: "consumes bv fl (run_steps as) ys w"
  shows "consumes bv fl (run_steps (a # as)) (xs @ ys) (\<lambda>s. w (u s))"
  unfolding consumes_def
proof (intro allI impI)
  fix s :: "('a, 'b) rframe"
  assume f: "f_flags s = fl" and "at bv (f_off s) (xs @ ys)"
  then have x: "at bv (f_off s) xs" and y: "at bv (f_off s + length xs) ys"
    by (simp_all add: at_append)
  note A = consumesD [OF a f x]
  have y': "at bv (f_off (u s)) ys" using y A(2) by simp
  show "run_steps (a # as) s = (OK, w (u s)) \<and> f_off (w (u s)) = f_off s + length (xs @ ys) \<and>
        f_flags (w (u s)) = fl"
    using consumesD [OF as A(3) y'] A by simp
qed

lemma consumes_if:
  assumes "consumes bv fl (run_steps as) xs u" and "consumes bv fl (run_steps bs) [] w"
  shows "consumes bv fl (if_steps (\<lambda>s. FLAGS_CHECK (f_flags s) m) as bs) (opt (FLAGS_CHECK fl m) xs)
           (if FLAGS_CHECK fl m then u else w)"
  using assms by (auto simp: consumes_def if_steps_def opt_def)

lemma consumes_assign:
  "(\<And>s. f_off (f s) = f_off s) \<Longrightarrow> (\<And>s. f_flags (f s) = f_flags s) \<Longrightarrow> consumes bv fl (assign f) [] f"
  by (simp add: consumes_def assign_def)

lemma consumes_conv:
  "consumes bv fl a xs u \<Longrightarrow> (\<And>s. f_flags s = fl \<Longrightarrow> u s = w s) \<Longrightarrow> consumes bv fl a xs w"
  by (simp add: consumes_def)

lemma consumes_last: "consumes bv fl a xs u \<Longrightarrow> consumes bv fl (run_steps [a]) xs u"
  using consumes_Cons [OF _ consumes_Nil, of bv fl a xs u] by simp

lemma consumes_Cons_assign:
  "consumes bv fl (run_steps as) ys w \<Longrightarrow> (\<And>s. f_off (f s) = f_off s) \<Longrightarrow>
     (\<And>s. f_flags (f s) = f_flags s) \<Longrightarrow> consumes bv fl (run_steps (assign f # as)) ys (\<lambda>s. w (f s))"
  using consumes_Cons [OF consumes_assign, of f bv fl as ys w] by simp

lemma consumes_pad:
  "wf_vec 1 bv \<Longrightarrow> length xs = n \<Longrightarrow> consumes bv fl (rd_pad n) xs (\<lambda>s. s\<lparr>f_off := f_off s + n\<rparr>)"
  by (auto simp: consumes_def rd_pad_def assign_def at_wf_add)

lemma run_consumes:
  "consumes bv fl (run_steps as) xs u \<Longrightarrow> f_flags s = fl \<Longrightarrow> at bv (f_off s) xs \<Longrightarrow>
     run_steps (as @ bs) s = run_steps bs (u s)"
  using consumesD(1) run_steps_appendI by metis

lemma consumes_skip:
  assumes wf: "wf_vec 1 bv" and "unat n = length ys"
  shows "consumes bv fl (rd_skip bv) (enc_uint_x n @ ys)
           (\<lambda>s. s\<lparr>f_off := f_off s + (message_uint_x_size n + length ys)\<rparr>)"
  unfolding consumes_def
proof (intro allI impI)
  fix s :: "('a, 'b) rframe"
  assume "at bv (f_off s) (enc_uint_x n @ ys)"
  then have a: "at bv (f_off s) (enc_uint_x n)" "at bv (f_off s + message_uint_x_size n) ys"
    by (simp_all add: at_append)
  show "rd_skip bv s = (OK, s\<lparr>f_off := f_off s + (message_uint_x_size n + length ys)\<rparr>) \<and>
        f_off (s\<lparr>f_off := f_off s + (message_uint_x_size n + length ys)\<rparr>) =
          f_off s + length (enc_uint_x n @ ys) \<and>
        f_flags (s\<lparr>f_off := f_off s + (message_uint_x_size n + length ys)\<rparr>) = fl"
    if "f_flags s = fl"
    using uint_x.rd_at [OF wf TrueI a(1)] at_wf_add [OF wf a(2)] assms(2) that
    by (simp add: rd_skip_def add.assoc)
qed

context field_reader
begin

text \<open>The step rule of a field, and its contract as a statement.\<close>

lemma run_rd_field:
  "wf_vec 1 bv \<Longrightarrow> valid v \<Longrightarrow> at bv (f_off s) (enc v) \<Longrightarrow>
     run_steps (rd_field bv rd upd # as) s =
     run_steps as (upd (found v (f_off s)) (s\<lparr>f_off := f_off s + length (enc v)\<rparr>))"
  by (simp add: rd_field_def rd_at)

lemma consumes_field:
  "wf_vec 1 bv \<Longrightarrow> valid v \<Longrightarrow> (\<And>x s. f_off (upd x s) = f_off s) \<Longrightarrow>
     (\<And>x s. f_flags (upd x s) = f_flags s) \<Longrightarrow>
     consumes bv fl (rd_field bv rd upd) (enc v)
       (\<lambda>s. upd (found v (f_off s)) (s\<lparr>f_off := f_off s + length (enc v)\<rparr>))"
  by (simp add: consumes_def rd_field_def rd_at)

text \<open>A field behind a flag, with a default where the flag is not set.\<close>

lemma consumes_opt:
  assumes "wf_vec 1 bv" and "valid v"
  shows "consumes bv fl
           (if_steps (\<lambda>s. FLAGS_CHECK (f_flags s) m) [rd_field bv rd (\<lambda>v. set_hdr (f v))] [assign (set_hdr (f d))])
           (opt (FLAGS_CHECK fl m) (enc v))
           (\<lambda>s. s\<lparr>f_off := f_off s + length (opt (FLAGS_CHECK fl m) (enc v)),
                  f_hdr := f (if FLAGS_CHECK fl m then found v (f_off s) else d) (f_hdr s)\<rparr>)"
  using assms by (auto simp: consumes_def if_steps_def rd_field_def rd_at assign_def set_hdr_def)

text \<open>On arbitrary bytes a field read fails with one of two codes, and never otherwise.\<close>

lemma safe_rd_field:
  assumes "wf_vec 1 bv" and "OUT_OF_RANGE \<in> E" and "PROTOCOL \<in> E"
    and "\<And>v p q s. I s \<Longrightarrow> rd bv q = Inr (v, p) \<Longrightarrow> I (upd v (s\<lparr>f_off := p\<rparr>))"
  shows "safe I E (rd_field bv rd upd) I"
  using assms(2-4) by (auto simp: safe_def rd_field_def split: sum.splits dest!: rd_error [OF assms(1)])

end

text \<open>The place of a version 4 string behind a flag, in each of the three variables for it.\<close>

lemma consumes_opt_str:
  assumes "wf_vec 1 bv" and "str4_ok v"
  shows "consumes bv fl
           (if_steps (\<lambda>s. FLAGS_CHECK (f_flags s) m) [rd_field bv read_header_string_prefix4_1 (\<lambda>v s. s\<lparr>f_str1 := v\<rparr>)] [])
           (opt (FLAGS_CHECK fl m) (enc_str4 v))
           (\<lambda>s. s\<lparr>f_off := f_off s + length (opt (FLAGS_CHECK fl m) (enc_str4 v)),
                  f_str1 := (if FLAGS_CHECK fl m then str4_found v (f_off s) else f_str1 s)\<rparr>)"
    and "consumes bv fl
           (if_steps (\<lambda>s. FLAGS_CHECK (f_flags s) m) [rd_field bv read_header_string_prefix4_1 (\<lambda>v s. s\<lparr>f_str2 := v\<rparr>)] [])
           (opt (FLAGS_CHECK fl m) (enc_str4 v))
           (\<lambda>s. s\<lparr>f_off := f_off s + length (opt (FLAGS_CHECK fl m) (enc_str4 v)),
                  f_str2 := (if FLAGS_CHECK fl m then str4_found v (f_off s) else f_str2 s)\<rparr>)"
    and "consumes bv fl
           (if_steps (\<lambda>s. FLAGS_CHECK (f_flags s) m) [rd_field bv read_header_string_prefix4_1 (\<lambda>v s. s\<lparr>f_str3 := v\<rparr>)] [])
           (opt (FLAGS_CHECK fl m) (enc_str4 v))
           (\<lambda>s. s\<lparr>f_off := f_off s + length (opt (FLAGS_CHECK fl m) (enc_str4 v)),
                  f_str3 := (if FLAGS_CHECK fl m then str4_found v (f_off s) else f_str3 s)\<rparr>)"
  using assms by (auto simp: consumes_def if_steps_def rd_field_def str4.rd_at)

text \<open>
  The rules that derive the contract of a whole section, from the first statement to the last.
\<close>

lemmas consumes_intros = consumes_if consumes_last consumes_Cons_assign consumes_Cons
  consumes_assign consumes_Nil consumes_skip consumes_pad
  uint8.consumes_field uint16.consumes_field uint32.consumes_field
  padded.consumes_field uint_x.consumes_field int_x.consumes_field
  nodeid.consumes_field [unfolded id_def] str2.consumes_field str4.consumes_field

lemmas field_safe = uint8.safe_rd_field uint16.safe_rd_field uint32.safe_rd_field
  uint_x.safe_rd_field int_x.safe_rd_field nodeid.safe_rd_field str2.safe_rd_field
  str4.safe_rd_field

lemma safe_rd_skip:
  assumes "wf_vec 1 bv" and "OUT_OF_RANGE \<in> E" and "PROTOCOL \<in> E"
    and "\<And>p s. I s \<Longrightarrow> I (s\<lparr>f_off := p\<rparr>)"
  shows "safe I E (rd_skip bv) I"
  using assms(2-4) by (auto simp: safe_def rd_skip_def split: sum.splits dest!: uint_x.rd_error [OF assms(1)])

lemma prefix_len:
  "read_header_string_prefix2_1 bv p = Inr (v, q) \<Longrightarrow> si_len v < 2 ^ 32"
  "read_header_string_prefix4_1 bv p = Inr (v, q) \<Longrightarrow> si_len v < 2 ^ 32"
proof -
  have 1: "unat (n :: u16) < 2 ^ 32" for n
    using unat_u16_lt [of n] by simp
  have 2: "unat (n :: u32) < 2 ^ 32" for n
    using unat_u32_lt [of n] by simp
  show "read_header_string_prefix2_1 bv p = Inr (v, q) \<Longrightarrow> si_len v < 2 ^ 32"
    using 1 by (auto simp: read_header_string_prefix2_1_def simp del: power_numeral split: sum.splits)
  show "read_header_string_prefix4_1 bv p = Inr (v, q) \<Longrightarrow> si_len v < 2 ^ 32"
    using 2 by (auto simp: read_header_string_prefix4_1_def simp del: power_numeral split: sum.splits)
qed

lemma set_simps [simp]:
  "f_off (set_hdr f s) = f_off s" "f_hdr (set_hdr f s) = f (f_hdr s)"
  "f_info (set_hdr f s) = f_info s" "f_flags (set_hdr f s) = f_flags s"
  "f_str1 (set_hdr f s) = f_str1 s" "f_str2 (set_hdr f s) = f_str2 s" "f_str3 (set_hdr f s) = f_str3 s"
  "f_off (set_info g s) = f_off s" "f_hdr (set_info g s) = f_hdr s"
  "f_info (set_info g s) = g (f_off s) (f_info s)" "f_flags (set_info g s) = f_flags s"
  "f_str1 (set_info g s) = f_str1 s" "f_str2 (set_info g s) = f_str2 s" "f_str3 (set_info g s) = f_str3 s"
  by (simp_all add: set_hdr_def set_info_def)

lemma start_frame_simps [simp]:
  "f_off (start_frame p h i) = p" "f_hdr (start_frame p h i) = h"
  "f_info (start_frame p h i) = i" "f_flags (start_frame p h i) = 0"
  by (simp_all add: start_frame_def)


section \<open>Filling strings\<close>

text \<open>
  A caller's string is proper when its length is its capacity, and \<open>NULL\<close> has none. What a
  header reader does with the characters \<open>xs\<close>: it reports their number to a caller that gives
  \<open>NULL\<close>, and copies them for one that gives room.
\<close>

definition string_ok :: "rstring \<Rightarrow> bool" where
  "string_ok str \<longleftrightarrow> str_len str = length (string_memory str) \<and> str_len str < 2 ^ 63"

definition string_room :: "rstring \<Rightarrow> byte list \<Rightarrow> bool" where
  "string_room str xs \<longleftrightarrow> str_data str = None \<or> length xs \<le> str_len str"

definition fill_string :: "rstring \<Rightarrow> byte list \<Rightarrow> rstring" where
  "fill_string str xs =
     (if xs = [] \<or> str_data str = None then str\<lparr>str_len := length xs\<rparr>
      else \<lparr>str_data = Some (overwrite (string_memory str) 0 xs), str_len = length xs\<rparr>)"

lemma string_ok_null [simp]: "string_ok null_string" "string_room null_string xs"
  by (simp_all add: string_ok_def string_room_def null_string_def string_memory_def)

lemma fill_string_null [simp]: "fill_string null_string xs = \<lparr>str_data = None, str_len = length xs\<rparr>"
  by (simp add: fill_string_def null_string_def)

lemma string_value_fill:
  "str_data str \<noteq> None \<Longrightarrow> string_value (fill_string str xs) = xs"
  by (auto simp: fill_string_def string_value_def string_memory_def overwrite_def)

lemma read_header_string_fill:
  assumes wf: "wf_vec 1 bv" and ok: "string_ok str" and n: "n < 2 ^ 32"
  shows "message_read_header_string bv p n str =
           (if n = 0 \<or> str_data str = None then (OK, str\<lparr>str_len := n\<rparr>)
            else if str_len str < n then (Err INVALID_ARGUMENT, str)
            else if p + n \<le> length (flat bv) then (OK, fill_string str (chunk (flat bv) p n))
            else (Err OUT_OF_RANGE, str))"
proof -
  have none: "str_data str = None \<Longrightarrow> str_len str = 0"
    using ok by (simp add: string_ok_def string_memory_def)
  have n63: "n * 1 < 2 ^ 63" using n by simp
  have copy: "buffer_vec_copy_to_mem bv p (string_memory str) (str_len str) 0 1 n =
      (if n \<le> str_len str \<and> p + n \<le> length (flat bv)
       then (OK, overwrite (string_memory str) 0 (chunk (flat bv) p n))
       else (Err OUT_OF_RANGE, string_memory str))" if "0 < n"
    using copy_to_mem_flat [OF wf _ that n63, of "string_memory str" "str_len str" p] ok
    by (simp add: string_ok_def)
  show ?thesis
  proof (cases "n = 0 \<or> str_data str = None")
    case True
    then show ?thesis using none by (auto simp: message_read_header_string_def)
  next
    case False
    then obtain d where d: "str_data str = Some d" by auto
    moreover have "chunk (flat bv) p n \<noteq> []" if "p + n \<le> length (flat bv)"
      using False length_chunk [OF that] by auto
    ultimately show ?thesis
      using False copy
      by (simp add: message_read_header_string_def buffer_vec_copy_to_string_def
          fill_string_def string_memory_def)
  qed
qed

lemma read_string_at:
  assumes "wf_vec 1 bv" and "string_ok str" and "string_room str xs"
    and "at bv p xs" and "length xs < 2 ^ 32"
  shows "message_read_header_string bv p (length xs) str = (OK, fill_string str xs)"
  using read_header_string_fill [OF assms(1,2,5), of p] assms(3,4)
  by (auto simp: string_room_def at_def fill_string_def)

lemma str2_length: "str2_ok xs \<Longrightarrow> length xs < 2 ^ 32"
  by (simp add: str2_ok_def UINT16_MAX_def)

lemma str4_length: "str4_ok xs \<Longrightarrow> length xs < 2 ^ 32"
  by (simp add: str4_ok_def UINT32_MAX_def)

lemma read_string2:
  "wf_vec 1 bv \<Longrightarrow> str2_ok xs \<Longrightarrow> at bv p (enc_str2 xs) \<Longrightarrow> string_ok str \<Longrightarrow> string_room str xs \<Longrightarrow>
     read_header_string_2 bv (str2_found xs p) str = (OK, fill_string str xs)"
  using read_string_at [of bv str xs "p + 2"] str2_length [of xs]
  by (simp add: read_header_string_2_def str2_found_def enc_str2_def at_append)

lemma read_string4:
  "wf_vec 1 bv \<Longrightarrow> str4_ok xs \<Longrightarrow> at bv p (enc_str4 xs) \<Longrightarrow> string_ok str \<Longrightarrow> string_room str xs \<Longrightarrow>
     read_header_string_2 bv (str4_found xs p) str = (OK, fill_string str xs)"
  using read_string_at [of bv str xs "p + message_uint_x_size (word_of_nat (length xs))"]
    str4_length [of xs]
  by (simp add: read_header_string_2_def str4_found_def enc_str4_def at_append)

text \<open>
  On arbitrary places the second pass reads or fails, and the string keeps its shape as long as it
  has not been filled.
\<close>

lemma read_header_string_2_status:
  assumes "wf_vec 1 bv" and "string_ok str" and "si_len place < 2 ^ 32"
    and "read_header_string_2 bv place str = (st, str')"
  shows "st = OK \<or> st = Err OUT_OF_RANGE \<or> st = Err INVALID_ARGUMENT"
  using assms(4) read_header_string_fill [OF assms(1-3), of "si_offset place"]
  by (auto simp: read_header_string_2_def split: if_splits)

lemma safe_get_string:
  assumes wf: "wf_vec 1 bv" and E: "OUT_OF_RANGE \<in> E" "INVALID_ARGUMENT \<in> E"
    and I: "\<And>s. I s \<Longrightarrow> string_ok (get (f_hdr s)) \<and> si_len (place s) < 2 ^ 32"
    and J: "\<And>s str. I s \<Longrightarrow> J (set_hdr (put str) s)"
  shows "safe I E (get_string bv place get put) J"
  unfolding safe_def
proof (intro allI impI)
  fix s assume s: "I s"
  obtain st str where r: "read_header_string_2 bv (place s) (get (f_hdr s)) = (st, str)"
    by (cases "read_header_string_2 bv (place s) (get (f_hdr s))")
  have "st = OK \<or> st = Err OUT_OF_RANGE \<or> st = Err INVALID_ARGUMENT"
    using read_header_string_2_status [OF wf _ _ r] I [OF s] by simp
  then show "case get_string bv place get put s of (OK, s') \<Rightarrow> J s' | (Err e, s') \<Rightarrow> e \<in> E"
    using r E J [OF s] by (auto simp: get_string_def)
qed


section \<open>Writing frames\<close>

text \<open>The buffer, \<open>*offset\<close> and \<open>*buffer_info\<close> of a header writer.\<close>

record 'i wframe =
  w_buf :: buffer_vec
  w_off :: size_t
  w_info :: 'i

text \<open>\<open>rv = message_write_..(buffer, offset, v); if (FAILED(rv)) return rv;\<close>\<close>

definition wr_f :: "'a wr \<Rightarrow> 'a \<Rightarrow> 'i wframe step" where
  "wr_f wr v s =
     (case wr (w_buf s) (w_off s) v of (st, bv, p) \<Rightarrow> (st, s\<lparr>w_buf := bv, w_off := p\<rparr>))"

text \<open>\<open>message_write_padded_uint_x(buffer, offset, v, &buffer_info->x)\<close>\<close>

definition wr_padded :: "u32 \<Rightarrow> ('i \<Rightarrow> size_t) \<Rightarrow> (size_t \<Rightarrow> 'i \<Rightarrow> 'i) \<Rightarrow> 'i wframe step" where
  "wr_padded v get put s =
     (case message_write_padded_uint_x (w_buf s) (w_off s) v (get (w_info s)) of
        ((st, bv, p), c) \<Rightarrow>
          (st, \<lparr>w_buf = bv, w_off = p, w_info = put c (w_info s)\<rparr>))"

text \<open>\<open>buffer_info->x = ..*offset..;\<close>\<close>

definition note_info :: "(size_t \<Rightarrow> 'i \<Rightarrow> 'i) \<Rightarrow> 'i wframe step" where
  "note_info f = assign (\<lambda>s. s\<lparr>w_info := f (w_off s) (w_info s)\<rparr>)"

text \<open>
  \<open>emits a xs u\<close>: the statement writes \<open>xs\<close> as a field does, and on success turns the
  buffer information to \<open>u\<close> of the offset it started from.
\<close>

definition emits :: "'i wframe step \<Rightarrow> byte list \<Rightarrow> (size_t \<Rightarrow> 'i \<Rightarrow> 'i) \<Rightarrow> bool" where
  "emits a xs u \<longleftrightarrow>
     (\<forall>s. wf_vec 1 (w_buf s) \<longrightarrow>
          wr_result (w_buf s) (w_off s) xs (fst (a s), w_buf (snd (a s)), w_off (snd (a s))) \<and>
          (fst (a s) = OK \<longrightarrow> w_info (snd (a s)) = u (w_off s) (w_info s)))"

lemma emitsD:
  assumes "emits a xs u" and "wf_vec 1 (w_buf s)" and "a s = (st, s')"
  shows "wr_result (w_buf s) (w_off s) xs (st, w_buf s', w_off s')"
    and "st = OK \<Longrightarrow> w_info s' = u (w_off s) (w_info s)"
  using assms by (auto simp: emits_def)

lemma emits_Nil: "emits (run_steps []) [] (\<lambda>_ i. i)"
  by (simp add: emits_def wr_result_Nil)

lemma emits_note: "emits (note_info f) [] f"
  by (simp add: emits_def note_info_def assign_def wr_result_Nil)

lemma emits_return_if: "\<not> c \<Longrightarrow> emits (return_if (\<lambda>_. c) e) [] (\<lambda>_ i. i)"
  by (simp add: emits_def return_if_def wr_result_Nil)

lemma wr_result_seq:
  assumes wf: "wf_vec 1 bv" and r: "wr_result bv p xs (OK, bv', p')"
    and g: "wr_result bv' p' ys (st, bv'', p'')"
  shows "wr_result bv p (xs @ ys) (st, bv'', p'')"
proof -
  have f: "fits bv p xs" using r by (auto simp: wr_result_def split: if_splits)
  then have b: "bv' = put_flat bv p xs" "p' = p + length xs" using wr_result_OK [OF r f] by auto
  note sh = seg_shape_put_flat_fits [OF f] and tk = take_put_flat_fits [OF f]
  show ?thesis
  proof (cases "fits bv' p' ys")
    case True
    then show ?thesis
      using wr_result_OK [OF g True] f b by (simp add: wr_result_def fits_append put_flat_append_fits)
  next
    case False
    have t: "take p (flat bv'') = take p (flat bv')"
      using arg_cong [OF wr_result_seg_shape(2) [OF g], of "take p"] by (simp add: b min_def)
    show ?thesis
      using wr_result_full [OF g False] False f t b sh tk by (auto simp: wr_result_def fits_append)
  qed
qed

lemma emits_Cons:
  assumes a: "emits a xs u" and as: "emits (run_steps as) ys w"
  shows "emits (run_steps (a # as)) (xs @ ys) (\<lambda>p i. w (p + length xs) (u p i))"
  unfolding emits_def
proof (intro allI impI)
  fix s :: "'a wframe"
  assume wf: "wf_vec 1 (w_buf s)"
  let ?r = "run_steps (a # as) s"
  obtain st s1 where A: "a s = (st, s1)" by (cases "a s")
  note W = emitsD [OF a wf A]
  show "wr_result (w_buf s) (w_off s) (xs @ ys) (fst ?r, w_buf (snd ?r), w_off (snd ?r)) \<and>
        (fst ?r = OK \<longrightarrow> w_info (snd ?r) = w (w_off s + length xs) (u (w_off s) (w_info s)))"
  proof (cases st)
    case OK
    have wf': "wf_vec 1 (w_buf s1)" using wf_vec_shape [OF wr_result_seg_shape(1) [OF W(1)]] wf by simp
    have p: "w_off s1 = w_off s + length xs"
      using W(1) OK by (auto simp: wr_result_def split: if_splits)
    obtain st' s2 where B: "run_steps as s1 = (st', s2)" by (cases "run_steps as s1")
    note W' = emitsD [OF as wf' B]
    show ?thesis
      using A B OK p W(2) W'(2) wr_result_seq [OF wf W(1) [unfolded OK] W'(1)] by simp
  next
    case (Err e)
    then have "\<not> fits (w_buf s) (w_off s) xs" using W(1) by (auto simp: wr_result_def)
    then show ?thesis using A W(1) Err by (simp add: wr_result_def fits_append)
  qed
qed

lemma emits_if:
  assumes "emits (run_steps as) xs u" and "emits (run_steps bs) [] w"
  shows "emits (if_steps (\<lambda>_. c) as bs) (opt c xs) (\<lambda>p i. if c then u p i else w p i)"
  using assms by (auto simp: emits_def if_steps_def opt_def)

lemma emits_last: "emits a xs u \<Longrightarrow> emits (run_steps [a]) xs u"
  using emits_Cons [OF _ emits_Nil, of a xs u] by simp

lemma emits_Cons_note:
  "emits (run_steps as) ys w \<Longrightarrow> emits (run_steps (note_info f # as)) ys (\<lambda>p i. w p (f p i))"
  using emits_Cons [OF emits_note, of as ys w f] by simp

lemma emits_Cons_return_if:
  "\<not> c \<Longrightarrow> emits (run_steps as) ys w \<Longrightarrow> emits (run_steps (return_if (\<lambda>_. c) e # as)) ys w"
  using emits_Cons [OF emits_return_if, of c as ys w e] by simp

lemma run_steps_two: "run_steps (as @ bs) s = run_steps [run_steps as, run_steps bs] s"
  by (simp add: run_steps_append split: prod.splits status.splits)

lemma emits_append:
  assumes a: "emits (run_steps as) xs u" and b: "emits (run_steps bs) ys w"
  shows "emits (run_steps (as @ bs)) (xs @ ys) (\<lambda>p i. w (p + length xs) (u p i))"
  using emits_Cons [OF a emits_last [OF b]] by (simp add: emits_def run_steps_two)

lemma emits_conv: "emits a xs u \<Longrightarrow> (\<And>p i. u p i = w p i) \<Longrightarrow> emits a xs w"
  by (simp add: emits_def)

lemma emits_padded:
  "emits (wr_padded v get put) (enc_padded_uint_x v) (\<lambda>p. put (p + 1))"
  unfolding emits_def
proof (intro allI impI)
  fix s :: "'a wframe"
  assume wf: "wf_vec 1 (w_buf s)"
  let ?r = "message_write_padded_uint_x (w_buf s) (w_off s) v (get (w_info s))"
  obtain st bv p c where r: "?r = ((st, bv, p), c)" by (cases ?r) auto
  have "fst ?r = write_padded (w_buf s) (w_off s) v"
    by (auto simp: write_padded_def message_write_padded_uint_x_def split: prod.splits status.splits)
  then have W: "wr_result (w_buf s) (w_off s) (enc_padded_uint_x v) (st, bv, p)"
    using padded.wr_result [OF wf, where v = v and p = "w_off s"] r by simp
  have "c = w_off s + 1" if "st = OK"
  proof -
    have "fits (w_buf s) (w_off s) (enc_padded_uint_x v)"
      using W that by (auto simp: wr_result_def split: if_splits)
    then have "w_off s + 5 \<le> length (flat (w_buf s))"
      by (auto simp: fits_def) (simp add: enc_padded_uint_x_def)
    then show ?thesis using write_padded_offset [OF wf] r by simp
  qed
  then show "wr_result (w_buf s) (w_off s) (enc_padded_uint_x v)
          (fst (wr_padded v get put s), w_buf (snd (wr_padded v get put s)),
           w_off (snd (wr_padded v get put s))) \<and>
        (fst (wr_padded v get put s) = OK \<longrightarrow>
         w_info (snd (wr_padded v get put s)) = put (w_off s + 1) (w_info s))"
    using W by (simp add: wr_padded_def r)
qed

context field_writer
begin

lemma emits_field: "valid v \<Longrightarrow> emits (wr_f wr v) (enc v) (\<lambda>_ i. i)"
  unfolding emits_def
proof (intro allI impI)
  fix s :: "'z wframe"
  assume v: "valid v" and wf: "wf_vec 1 (w_buf s)"
  show "wr_result (w_buf s) (w_off s) (enc v)
          (fst (wr_f wr v s), w_buf (snd (wr_f wr v s)), w_off (snd (wr_f wr v s))) \<and>
        (fst (wr_f wr v s) = OK \<longrightarrow> w_info (snd (wr_f wr v s)) = w_info s)"
    using wr_result [OF wf v, of "w_off s"]
    by (cases "wr (w_buf s) (w_off s) v") (simp add: wr_f_def)
qed

end

lemmas emits_intros = emits_if emits_last emits_Cons_note emits_Cons_return_if emits_Cons
  emits_note emits_Nil emits_padded
  uint8.emits_field uint16.emits_field uint32.emits_field uint_x.emits_field int_x.emits_field
  nodeid.emits_field [unfolded id_def] str2.emits_field str4.emits_field
  magic.emits_field

text \<open>What a whole header writer does, from the contract of its statements.\<close>

lemma emits_run:
  assumes e: "emits (run_steps as) xs u" and wf: "wf_vec 1 bv" and "p + length xs \<le> length (flat bv)"
  shows "run_steps as \<lparr>w_buf = bv, w_off = p, w_info = i\<rparr> =
           (OK, \<lparr>w_buf = put_flat bv p xs, w_off = p + length xs, w_info = u p i\<rparr>)"
proof -
  have f: "fits bv p xs" using assms(3) by (simp add: fits_def)
  obtain st s where r: "run_steps as \<lparr>w_buf = bv, w_off = p, w_info = i\<rparr> = (st, s)"
    by (cases "run_steps as \<lparr>w_buf = bv, w_off = p, w_info = i\<rparr>")
  have "wr_result bv p xs (st, w_buf s, w_off s)" "st = OK \<Longrightarrow> w_info s = u p i"
    using emitsD [OF e _ r] wf by simp_all
  then show ?thesis using wr_result_OK [OF _ f] r by auto
qed

lemma emits_run_full:
  assumes e: "emits (run_steps as) xs u" and wf: "wf_vec 1 bv" and "xs \<noteq> []"
    and "\<not> p + length xs \<le> length (flat bv)"
  obtains s where "run_steps as \<lparr>w_buf = bv, w_off = p, w_info = i\<rparr> = (Err OUT_OF_RANGE, s)"
    and "seg_shape (w_buf s) = seg_shape bv" and "take p (flat (w_buf s)) = take p (flat bv)"
proof -
  have f: "\<not> fits bv p xs" using assms(3,4) by (simp add: fits_def)
  obtain st s where r: "run_steps as \<lparr>w_buf = bv, w_off = p, w_info = i\<rparr> = (st, s)"
    by (cases "run_steps as \<lparr>w_buf = bv, w_off = p, w_info = i\<rparr>")
  have "wr_result bv p xs (st, w_buf s, w_off s)"
    using emitsD [OF e _ r] wf by simp
  then show ?thesis using f r that by (auto simp: wr_result_def)
qed

end
