(* ===== verification/RRL_NodeId.thy ===== *)
theory RRL_NodeId
  imports RRL_Prelude
begin

text \<open>
  Node identifiers, src/nodeid.c: sixteen bytes, their comparison and the parser of their three
  textual forms. \<open>strtoul\<close>, which the parser calls on two characters at a time, is modelled
  for base sixteen as the C standard describes it.
\<close>

record nodeid =
  nodeid_data :: "byte list"

definition nodeid_ok :: "nodeid \<Rightarrow> bool" where
  "nodeid_ok a \<longleftrightarrow> length (nodeid_data a) = 16"

definition nodeid_any :: nodeid where
  "nodeid_any = \<lparr>nodeid_data = replicate 16 0\<rparr>"

definition nodeid_equal :: "nodeid \<Rightarrow> nodeid \<Rightarrow> bool" where
  "nodeid_equal a b \<longleftrightarrow> nodeid_data a = nodeid_data b"

definition nodeid_isany :: "nodeid \<Rightarrow> bool" where
  "nodeid_isany a \<longleftrightarrow> nodeid_data a = replicate 16 0"

definition nodeid_reset :: "nodeid \<Rightarrow> status \<times> nodeid" where
  "nodeid_reset a = (OK, a\<lparr>nodeid_data := replicate (length (nodeid_data a)) 0\<rparr>)"

definition nodeid_copy_to :: "nodeid \<Rightarrow> nodeid \<Rightarrow> status \<times> nodeid" where
  "nodeid_copy_to src dst = (OK, dst\<lparr>nodeid_data := nodeid_data src\<rparr>)"


section \<open>Parsing\<close>

definition is_space :: "byte \<Rightarrow> bool" where
  "is_space c \<longleftrightarrow> c = 32 \<or> 9 \<le> unat c \<and> unat c \<le> 13"

definition hex_digit :: "byte \<Rightarrow> nat option" where
  "hex_digit c =
     (if 48 \<le> unat c \<and> unat c \<le> 57 then Some (unat c - 48)
      else if 65 \<le> unat c \<and> unat c \<le> 70 then Some (unat c - 55)
      else if 97 \<le> unat c \<and> unat c \<le> 102 then Some (unat c - 87)
      else None)"

fun hex_value :: "nat \<Rightarrow> byte list \<Rightarrow> nat" where
  "hex_value acc [] = acc"
| "hex_value acc (c # cs) =
     (case hex_digit c of None \<Rightarrow> acc | Some d \<Rightarrow> hex_value (acc * 16 + d) cs)"

text \<open>The optional sign: whether the value is negated, and what follows.\<close>

definition skip_sign :: "byte list \<Rightarrow> bool \<times> byte list" where
  "skip_sign cs =
     (case cs of c # r \<Rightarrow> if c = 43 then (False, r) else if c = 45 then (True, r) else (False, cs)
      | [] \<Rightarrow> (False, []))"

text \<open>The optional \<open>0x\<close>, which counts as a prefix only when a digit follows it.\<close>

definition skip_0x :: "byte list \<Rightarrow> byte list" where
  "skip_0x cs =
     (case cs of z # x # d # r \<Rightarrow>
        if z = 48 \<and> (x = 120 \<or> x = 88) \<and> hex_digit d \<noteq> None then d # r else cs
      | _ \<Rightarrow> cs)"

text \<open>\<open>strtoul (s, NULL, 16)\<close>: the value and whether \<open>errno\<close> is set to \<open>ERANGE\<close>.\<close>

definition strtoul16 :: "byte list \<Rightarrow> nat \<times> bool" where
  "strtoul16 s =
     (case skip_sign (dropWhile is_space s) of
        (neg, cs) \<Rightarrow>
          (let v = hex_value 0 (skip_0x cs)
           in if v \<ge> 2 ^ 64 then (2 ^ 64 - 1, True)
              else (if neg then (2 ^ 64 - v) mod 2 ^ 64 else v, False)))"

text \<open>\<open>for (i = 0; i < 16; i++) { .. dst->data[i] = (u8) val; }\<close>, from index \<open>i\<close>.\<close>

fun nodeid_parse_bytes :: "nat \<Rightarrow> nat \<Rightarrow> byte list \<Rightarrow> nodeid \<Rightarrow> status \<times> nodeid" where
  "nodeid_parse_bytes 0 i buf dst = (OK, dst)"
| "nodeid_parse_bytes (Suc k) i buf dst =
     (case strtoul16 [buf ! (i * 2), buf ! (i * 2 + 1), 0] of
        (v, erange) \<Rightarrow>
          (if erange \<and> v > 255 then (Err INVALID_ARGUMENT, dst)
           else nodeid_parse_bytes k (Suc i) buf
                  (dst\<lparr>nodeid_data := (nodeid_data dst)[i := word_of_nat v]\<rparr>)))"

text \<open>The five groups of a hyphenated identifier, or \<open>None\<close> when a hyphen is missing.\<close>

definition nodeid_groups :: "byte list \<Rightarrow> byte list option" where
  "nodeid_groups s =
     (if s ! 8 \<noteq> 45 \<or> s ! 13 \<noteq> 45 \<or> s ! 18 \<noteq> 45 \<or> s ! 23 \<noteq> 45 then None
      else Some (chunk s 0 8 @ chunk s 9 4 @ chunk s 14 4 @ chunk s 19 4 @ chunk s 24 12))"

definition nodeid_parse :: "byte list \<Rightarrow> nodeid \<Rightarrow> status \<times> nodeid" where
  "nodeid_parse src dst =
     (if length src = 32 then nodeid_parse_bytes 16 0 src dst
      else if length src = 36 then
        (case nodeid_groups src of
           None \<Rightarrow> (Err INVALID_ARGUMENT, dst)
         | Some buf \<Rightarrow> nodeid_parse_bytes 16 0 buf dst)
      else if length src = 38 then
        (if src ! 0 \<noteq> 123 \<or> src ! 37 \<noteq> 125 then (Err INVALID_ARGUMENT, dst)
         else case nodeid_groups (drop 1 src) of
                None \<Rightarrow> (Err INVALID_ARGUMENT, dst)
              | Some buf \<Rightarrow> nodeid_parse_bytes 16 0 buf dst)
      else (Err INVALID_ARGUMENT, dst))"


section \<open>The textual form\<close>

text \<open>The reference the parser is compared with: two hexadecimal digits for each byte.\<close>

definition hex_char :: "bool \<Rightarrow> nat \<Rightarrow> byte" where
  "hex_char up n = word_of_nat (if n < 10 then 48 + n else if up then 55 + n else 87 + n)"

definition hex_byte :: "bool \<Rightarrow> byte \<Rightarrow> byte list" where
  "hex_byte up b = [hex_char up (unat b div 16), hex_char up (unat b mod 16)]"

definition hex_text :: "bool \<Rightarrow> byte list \<Rightarrow> byte list" where
  "hex_text up bs = concat (map (hex_byte up) bs)"

definition hyphenate :: "byte list \<Rightarrow> byte list" where
  "hyphenate h = chunk h 0 8 @ [45] @ chunk h 8 4 @ [45] @ chunk h 12 4 @ [45] @ chunk h 16 4 @ [45] @
                 chunk h 20 12"

lemma unat_hex_char:
  "n < 16 \<Longrightarrow> unat (hex_char up n) = (if n < 10 then 48 + n else if up then 55 + n else 87 + n)"
  by (auto simp: hex_char_def unat_of_nat)

lemma hex_digit_hex_char: "n < 16 \<Longrightarrow> hex_digit (hex_char up n) = Some n"
  by (auto simp: hex_digit_def unat_hex_char)

lemma hex_char_class:
  assumes "n < 16"
  shows "\<not> is_space (hex_char up n)" "hex_char up n \<noteq> 43" "hex_char up n \<noteq> 45"
    "hex_char up n \<noteq> 120" "hex_char up n \<noteq> 88"
  using assms by (auto simp: is_space_def unat_hex_char word_unat_eq_iff split: if_splits)

lemma strtoul16_hex_byte: "strtoul16 (hex_byte up b @ [0]) = (unat b, False)"
proof -
  let ?hi = "unat b div 16" and ?lo = "unat b mod 16"
  have b: "unat b < 256" using unat_u8_lt .
  then have hi: "?hi < 16" and lo: "?lo < 16" by auto
  have z: "hex_digit 0 = None" by (simp add: hex_digit_def)
  have "hex_value 0 [hex_char up ?hi, hex_char up ?lo, 0] = ?hi * 16 + ?lo"
    using hi lo z by (simp add: hex_digit_hex_char)
  then have v: "hex_value 0 [hex_char up ?hi, hex_char up ?lo, 0] = unat b" by simp
  have "unat b < 2 ^ 64" by (rule less_trans [OF b]) simp
  then show ?thesis
    using hi lo v by (simp add: strtoul16_def hex_byte_def hex_char_class skip_sign_def skip_0x_def not_le)
qed

lemma length_hex_text [simp]: "length (hex_text up bs) = 2 * length bs"
  by (induction bs) (simp_all add: hex_text_def hex_byte_def)

lemma nth_hex_text:
  "i < length bs \<Longrightarrow> hex_text up bs ! (i * 2) = hex_char up (unat (bs ! i) div 16) \<and>
                     hex_text up bs ! (i * 2 + 1) = hex_char up (unat (bs ! i) mod 16)"
proof (induction bs arbitrary: i)
  case Nil
  then show ?case by simp
next
  case (Cons b bs)
  then show ?case
    by (cases i) (auto simp: hex_text_def hex_byte_def)
qed

lemma nodeid_parse_bytes_hex:
  assumes "i + k = length bs" and "length (nodeid_data dst) = length bs" and "take i (nodeid_data dst) = take i bs"
  shows "nodeid_parse_bytes k i (hex_text up bs) dst = (OK, dst\<lparr>nodeid_data := bs\<rparr>)"
  using assms
proof (induction k arbitrary: i dst)
  case 0
  then show ?case by simp
next
  case (Suc k)
  let ?dst = "dst\<lparr>nodeid_data := (nodeid_data dst)[i := bs ! i]\<rparr>"
  have i: "i < length bs" using Suc.prems by simp
  have s: "strtoul16 [hex_text up bs ! (i * 2), hex_text up bs ! (i * 2 + 1), 0] = (unat (bs ! i), False)"
    using strtoul16_hex_byte [of up "bs ! i"] nth_hex_text [OF i] by (simp add: hex_byte_def)
  have t: "take (Suc i) (nodeid_data ?dst) = take (Suc i) bs"
    using Suc.prems i by (simp add: take_Suc_conv_app_nth)
  have "nodeid_parse_bytes (Suc k) i (hex_text up bs) dst = nodeid_parse_bytes k (Suc i) (hex_text up bs) ?dst"
    using s by simp
  also have "\<dots> = (OK, ?dst\<lparr>nodeid_data := bs\<rparr>)"
    using Suc.prems t by (intro Suc.IH) auto
  finally show ?case by simp
qed

lemma nodeid_groups_hyphenate:
  assumes "length h = 32"
  shows "nodeid_groups (hyphenate h) = Some h" and "length (hyphenate h) = 36"
proof -
  have sp: "h = chunk h 0 8 @ chunk h 8 4 @ chunk h 12 4 @ chunk h 16 4 @ chunk h 20 12"
    using assms chunk_add [of h 0 8 24] chunk_add [of h 8 4 20] chunk_add [of h 12 4 16]
      chunk_add [of h 16 4 12] by simp
  have l: "length (chunk h 0 8) = 8" "length (chunk h 8 4) = 4" "length (chunk h 12 4) = 4"
    "length (chunk h 16 4) = 4" "length (chunk h 20 12) = 12"
    using assms by simp_all
  show "length (hyphenate h) = 36" using l by (simp add: hyphenate_def)
  show "nodeid_groups (hyphenate h) = Some h"
    using l sp [symmetric]
    by (simp add: nodeid_groups_def hyphenate_def nth_append chunk_def [of "_ @ _"])
qed


section \<open>What the check of the parser rejects\<close>

lemma hex_digit_lt: "hex_digit c = Some d \<Longrightarrow> d < 16"
  by (auto simp: hex_digit_def split: if_splits)

lemma hex_value_lt: "hex_value acc cs < (acc + 1) * 16 ^ length cs"
proof (induction cs arbitrary: acc)
  case Nil
  then show ?case by simp
next
  case (Cons c cs)
  show ?case
  proof (cases "hex_digit c")
    case None
    have "(1::nat) \<le> 16 ^ Suc (length cs)" by simp
    then have "acc + 1 \<le> (acc + 1) * 16 ^ Suc (length cs)" by (metis mult_le_mono2 mult.right_neutral)
    then show ?thesis using None by simp
  next
    case (Some d)
    have "acc * 16 + d + 1 \<le> (acc + 1) * 16" using hex_digit_lt [OF Some] by simp
    then have "(acc * 16 + d + 1) * 16 ^ length cs \<le> (acc + 1) * 16 * 16 ^ length cs"
      by (rule mult_le_mono1)
    then have "hex_value (acc * 16 + d) cs < (acc + 1) * 16 * 16 ^ length cs"
      using Cons.IH [of "acc * 16 + d"] less_le_trans by blast
    then show ?thesis using Some by (simp add: algebra_simps)
  qed
qed

lemma length_skip: "length (skip_0x (snd (skip_sign cs))) \<le> length cs"
proof -
  have "length (skip_0x xs) \<le> length xs" for xs
    by (auto simp: skip_0x_def split: list.splits)
  moreover have "length (snd (skip_sign cs)) \<le> length cs"
    by (auto simp: skip_sign_def split: list.splits)
  ultimately show ?thesis by (rule order_trans)
qed

lemma strtoul16_no_erange: "length cs \<le> 3 \<Longrightarrow> snd (strtoul16 cs) = False"
proof -
  assume cs: "length cs \<le> 3"
  let ?r = "skip_0x (snd (skip_sign (dropWhile is_space cs)))"
  have "length ?r \<le> 3"
    using length_skip [of "dropWhile is_space cs"] length_dropWhile_le [of is_space cs] cs by linarith
  then have "(16::nat) ^ length ?r \<le> 16 ^ 3" by (rule power_increasing) simp
  then have "hex_value 0 ?r < 16 ^ 3" using hex_value_lt [of 0 ?r] by simp
  then have "hex_value 0 ?r < 2 ^ 64" by (rule less_trans) simp
  then show ?thesis
    by (simp add: strtoul16_def Let_def not_le split: prod.splits) (metis less_irrefl le_less_trans snd_conv not_le)
qed

lemma nodeid_parse_bytes_OK: "fst (nodeid_parse_bytes k i buf dst) = OK"
proof (induction k arbitrary: i dst)
  case 0
  then show ?case by simp
next
  case (Suc k)
  obtain v where "strtoul16 [buf ! (i * 2), buf ! (i * 2 + 1), 0] = (v, False)"
    using strtoul16_no_erange [of "[buf ! (i * 2), buf ! (i * 2 + 1), 0]"]
    by (cases "strtoul16 [buf ! (i * 2), buf ! (i * 2 + 1), 0]") auto
  then show ?case using Suc.IH by simp
qed

lemma nodeid_parse_bytes_dst: "\<exists>bs. snd (nodeid_parse_bytes k i buf dst) = dst\<lparr>nodeid_data := bs\<rparr>"
proof (induction k arbitrary: i dst)
  case 0
  then show ?case by (metis nodeid.surjective nodeid.update_convs(1) nodeid_parse_bytes.simps(1) snd_conv)
next
  case (Suc k)
  obtain v where v: "strtoul16 [buf ! (i * 2), buf ! (i * 2 + 1), 0] = (v, False)"
    using strtoul16_no_erange [of "[buf ! (i * 2), buf ! (i * 2 + 1), 0]"]
    by (cases "strtoul16 [buf ! (i * 2), buf ! (i * 2 + 1), 0]") auto
  obtain bs where "snd (nodeid_parse_bytes k (Suc i) buf (dst\<lparr>nodeid_data := (nodeid_data dst)[i := word_of_nat v]\<rparr>))
      = dst\<lparr>nodeid_data := (nodeid_data dst)[i := word_of_nat v]\<rparr>\<lparr>nodeid_data := bs\<rparr>"
    using Suc.IH by blast
  then show ?case using v by (intro exI [of _ bs]) simp
qed

end
