(* ===== verification/RRL_Header.thy ===== *)
theory RRL_Header
  imports RRL_Frame RRL_NodeId
begin

text \<open>
  The message header of src/message.c in both versions of the protocol: the readers
  \<open>message_reader_read_header2_ex\<close>, \<open>.._read_header4_ex\<close>, the writers
  \<open>message_writer_write_header2_ex\<close>, \<open>.._write_header4_ex\<close>, and the routines that
  begin and end a message. The header types of include/robotraconteurlite/message.h are one record
  whose parameter is the string type: \<open>rstring\<close> for the mutable headers a reader fills,
  \<open>const_string\<close> for the constant ones a writer is given.
\<close>

definition MESSAGE_FLAGS_ROUTING_INFO :: u8 where "MESSAGE_FLAGS_ROUTING_INFO = 0x01"
definition MESSAGE_FLAGS_ENDPOINT_INFO :: u8 where "MESSAGE_FLAGS_ENDPOINT_INFO = 0x02"
definition MESSAGE_FLAGS_PRIORITY :: u8 where "MESSAGE_FLAGS_PRIORITY = 0x04"
definition MESSAGE_FLAGS_UNRELIABLE :: u8 where "MESSAGE_FLAGS_UNRELIABLE = 0x08"
definition MESSAGE_FLAGS_META_INFO :: u8 where "MESSAGE_FLAGS_META_INFO = 0x10"
definition MESSAGE_FLAGS_STRING_TABLE :: u8 where "MESSAGE_FLAGS_STRING_TABLE = 0x20"
definition MESSAGE_FLAGS_MULTIPLE_ENTRIES :: u8 where "MESSAGE_FLAGS_MULTIPLE_ENTRIES = 0x40"
definition MESSAGE_FLAGS_EXTENDED :: u8 where "MESSAGE_FLAGS_EXTENDED = 0x80"
definition MESSAGE_FLAGS_VERSION2COMPAT :: u8 where "MESSAGE_FLAGS_VERSION2COMPAT = 0x53"

lemmas message_flags_defs = MESSAGE_FLAGS_ROUTING_INFO_def MESSAGE_FLAGS_ENDPOINT_INFO_def
  MESSAGE_FLAGS_PRIORITY_def MESSAGE_FLAGS_UNRELIABLE_def MESSAGE_FLAGS_META_INFO_def
  MESSAGE_FLAGS_STRING_TABLE_def MESSAGE_FLAGS_MULTIPLE_ENTRIES_def MESSAGE_FLAGS_EXTENDED_def
  MESSAGE_FLAGS_VERSION2COMPAT_def

record 's message_header =
  mh_message_size :: u32
  mh_message_version :: u16
  mh_header_size :: u32
  mh_message_flags :: u8
  mh_sender_nodeid :: nodeid
  mh_receiver_nodeid :: nodeid
  mh_sender_endpoint :: u32
  mh_receiver_endpoint :: u32
  mh_priority :: u16
  mh_sender_nodename :: 's
  mh_receiver_nodename :: 's
  mh_metadata :: 's
  mh_entry_count :: u32
  mh_message_id :: u16
  mh_message_res_id :: u16

record message_buffer_info =
  mi_start_buffer_offset :: size_t
  mi_header_size :: size_t
  mi_entry_count_offset :: size_t
  mi_entry_start_offset :: size_t

text \<open>
  The readers and writers of the program hold a pointer to the buffer vector they work on; here
  the vector is an argument of the operations, and a result of those that write.
\<close>

record message_reader =
  mr_buffer_offset :: size_t
  mr_buffer_count :: size_t
  mr_message_version :: u16

record message_writer =
  mw_buffer_offset :: size_t
  mw_buffer_count :: size_t
  mw_message_size_offset :: size_t
  mw_entry_count_offset :: size_t
  mw_message_version :: u16

type_synonym message_rframe = "(rstring message_header, message_buffer_info) rframe"


section \<open>Reader\<close>

definition message_reader_init ::
  "message_reader \<Rightarrow> buffer_vec \<Rightarrow> size_t \<Rightarrow> size_t \<Rightarrow> status \<times> message_reader" where
  "message_reader_init reader bv offset count =
     (if buffer_vec_len bv < sz_add offset count then (Err OUT_OF_RANGE, reader)
      else if count < 10 then (Err OUT_OF_RANGE, reader)
      else case buffer_vec_copy_to_uint8_array bv offset (replicate 4 0) 4 0 4 of
             (Err e, _) \<Rightarrow> (Err e, reader)
           | (OK, magic_data) \<Rightarrow>
               (if magic_data \<noteq> rrac_magic then (Err PROTOCOL, reader)
                else case buffer_vec_copy_to_uint32 bv (sz_add offset 4) of
                       Inl e \<Rightarrow> (Err e, reader)
                     | Inr message_size \<Rightarrow>
                         (if count < unat message_size then (Err OUT_OF_RANGE, reader)
                          else (OK, reader\<lparr>mr_buffer_offset := offset, mr_buffer_count := count\<rparr>))))"

text \<open>The sections of a version 4 header, in the order of the code.\<close>

definition read4_start :: "buffer_vec \<Rightarrow> message_rframe step list" where
  "read4_start bv =
     [assign (set_info (\<lambda>p i. i\<lparr>mi_start_buffer_offset := p\<rparr>)),
      rd_pad 4,
      rd_field bv message_read_uint32 (\<lambda>v. set_hdr (\<lambda>h. h\<lparr>mh_message_size := v\<rparr>)),
      rd_field bv message_read_uint16 (\<lambda>v. set_hdr (\<lambda>h. h\<lparr>mh_message_version := v\<rparr>)),
      return_if (\<lambda>s. mh_message_version (f_hdr s) \<noteq> 4) PROTOCOL,
      rd_field bv message_read_uint_x (\<lambda>v. set_hdr (\<lambda>h. h\<lparr>mh_header_size := v\<rparr>)),
      assign (\<lambda>s. set_info (\<lambda>_ i. i\<lparr>mi_header_size := unat (mh_header_size (f_hdr s))\<rparr>) s),
      rd_field bv message_read_uint8 (\<lambda>v s. s\<lparr>f_flags := v\<rparr>)]"

definition read4_routing :: "buffer_vec \<Rightarrow> message_rframe step" where
  "read4_routing bv =
     if_steps (\<lambda>s. FLAGS_CHECK (f_flags s) MESSAGE_FLAGS_ROUTING_INFO)
       [rd_field bv message_read_nodeid (\<lambda>d. set_hdr (\<lambda>h. h\<lparr>mh_sender_nodeid := \<lparr>nodeid_data = d\<rparr>\<rparr>)),
        rd_field bv message_read_nodeid (\<lambda>d. set_hdr (\<lambda>h. h\<lparr>mh_receiver_nodeid := \<lparr>nodeid_data = d\<rparr>\<rparr>)),
        rd_field bv read_header_string_prefix4_1 (\<lambda>v s. s\<lparr>f_str1 := v\<rparr>),
        rd_field bv read_header_string_prefix4_1 (\<lambda>v s. s\<lparr>f_str2 := v\<rparr>)]
       [assign (set_hdr (\<lambda>h. h\<lparr>mh_sender_nodeid := nodeid_any, mh_receiver_nodeid := nodeid_any\<rparr>))]"

definition read4_endpoint :: "buffer_vec \<Rightarrow> message_rframe step" where
  "read4_endpoint bv =
     if_steps (\<lambda>s. FLAGS_CHECK (f_flags s) MESSAGE_FLAGS_ENDPOINT_INFO)
       [rd_field bv message_read_uint_x (\<lambda>v. set_hdr (\<lambda>h. h\<lparr>mh_sender_endpoint := v\<rparr>)),
        rd_field bv message_read_uint_x (\<lambda>v. set_hdr (\<lambda>h. h\<lparr>mh_receiver_endpoint := v\<rparr>))]
       [assign (set_hdr (\<lambda>h. h\<lparr>mh_sender_endpoint := 0, mh_receiver_endpoint := 0\<rparr>))]"

definition read4_priority :: "buffer_vec \<Rightarrow> message_rframe step" where
  "read4_priority bv =
     if_steps (\<lambda>s. FLAGS_CHECK (f_flags s) MESSAGE_FLAGS_PRIORITY)
       [rd_field bv message_read_uint16 (\<lambda>v. set_hdr (\<lambda>h. h\<lparr>mh_priority := v\<rparr>))]
       [assign (set_hdr (\<lambda>h. h\<lparr>mh_priority := 0\<rparr>))]"

definition read4_meta :: "buffer_vec \<Rightarrow> message_rframe step" where
  "read4_meta bv =
     if_steps (\<lambda>s. FLAGS_CHECK (f_flags s) MESSAGE_FLAGS_META_INFO)
       [rd_field bv read_header_string_prefix4_1 (\<lambda>v s. s\<lparr>f_str3 := v\<rparr>),
        rd_field bv message_read_uint16 (\<lambda>v. set_hdr (\<lambda>h. h\<lparr>mh_message_id := v\<rparr>)),
        rd_field bv message_read_uint16 (\<lambda>v. set_hdr (\<lambda>h. h\<lparr>mh_message_res_id := v\<rparr>))]
       [assign (set_hdr (\<lambda>h. h\<lparr>mh_message_id := 0, mh_message_res_id := 0\<rparr>))]"

definition read4_string_table :: "buffer_vec \<Rightarrow> message_rframe step" where
  "read4_string_table bv =
     if_steps (\<lambda>s. FLAGS_CHECK (f_flags s) MESSAGE_FLAGS_STRING_TABLE) [rd_skip bv] []"

definition read4_entry_count :: "buffer_vec \<Rightarrow> message_rframe step" where
  "read4_entry_count bv =
     if_steps (\<lambda>s. FLAGS_CHECK (f_flags s) MESSAGE_FLAGS_MULTIPLE_ENTRIES)
       [assign (set_info (\<lambda>p i. i\<lparr>mi_entry_count_offset := p\<rparr>)),
        rd_field bv message_read_uint_x (\<lambda>v. set_hdr (\<lambda>h. h\<lparr>mh_entry_count := v\<rparr>))]
       [assign (set_hdr (\<lambda>h. h\<lparr>mh_entry_count := 1\<rparr>)),
        assign (set_info (\<lambda>p i. i\<lparr>mi_entry_count_offset := SIZE_T_MAX\<rparr>))]"

definition read4_extended :: "buffer_vec \<Rightarrow> message_rframe step" where
  "read4_extended bv =
     if_steps (\<lambda>s. FLAGS_CHECK (f_flags s) MESSAGE_FLAGS_EXTENDED) [rd_skip bv] []"

definition get_sender_nodename :: "buffer_vec \<Rightarrow> message_rframe step" where
  "get_sender_nodename bv =
     get_string bv f_str1 mh_sender_nodename (\<lambda>v h. h\<lparr>mh_sender_nodename := v\<rparr>)"

definition get_receiver_nodename :: "buffer_vec \<Rightarrow> message_rframe step" where
  "get_receiver_nodename bv =
     get_string bv f_str2 mh_receiver_nodename (\<lambda>v h. h\<lparr>mh_receiver_nodename := v\<rparr>)"

definition get_message_metadata :: "buffer_vec \<Rightarrow> message_rframe step" where
  "get_message_metadata bv = get_string bv f_str3 mh_metadata (\<lambda>v h. h\<lparr>mh_metadata := v\<rparr>)"

definition read4_strings :: "buffer_vec \<Rightarrow> message_rframe step list" where
  "read4_strings bv =
     [if_steps (\<lambda>s. FLAGS_CHECK (f_flags s) MESSAGE_FLAGS_ROUTING_INFO)
        [get_sender_nodename bv, get_receiver_nodename bv]
        [assign (set_hdr (\<lambda>h. h\<lparr>mh_sender_nodename := null_string, mh_receiver_nodename := null_string\<rparr>))],
      if_steps (\<lambda>s. FLAGS_CHECK (f_flags s) MESSAGE_FLAGS_META_INFO)
        [get_message_metadata bv]
        [assign (set_hdr (\<lambda>h. h\<lparr>mh_metadata := null_string\<rparr>))]]"

definition read_header4_steps :: "buffer_vec \<Rightarrow> size_t \<Rightarrow> message_rframe step list" where
  "read_header4_steps bv start_o =
     read4_start bv @
     [read4_routing bv, read4_endpoint bv, read4_priority bv, read4_meta bv,
      read4_string_table bv, read4_entry_count bv, read4_extended bv] @
     [return_if (\<lambda>s. sz_sub (f_off s) start_o \<noteq> unat (mh_header_size (f_hdr s))) PROTOCOL] @
     read4_strings bv @
     [assign (\<lambda>s. set_hdr (\<lambda>h. h\<lparr>mh_message_flags := f_flags s\<rparr>) s),
      assign (set_info (\<lambda>p i. i\<lparr>mi_entry_start_offset := p\<rparr>))]"

definition message_reader_read_header4_ex ::
  "buffer_vec \<Rightarrow> message_reader \<Rightarrow> rstring message_header \<Rightarrow> message_buffer_info
     \<Rightarrow> status \<times> rstring message_header \<times> message_buffer_info" where
  "message_reader_read_header4_ex bv reader header info =
     end_read info
       (run_steps (read_header4_steps bv (mr_buffer_offset reader))
          (start_frame (mr_buffer_offset reader) header info))"

text \<open>A version 2 header has every section; its counts have fixed widths.\<close>

definition read2_fields :: "buffer_vec \<Rightarrow> message_rframe step list" where
  "read2_fields bv =
     [assign (set_info (\<lambda>p i. i\<lparr>mi_start_buffer_offset := p\<rparr>)),
      rd_pad 4,
      rd_field bv message_read_uint32 (\<lambda>v. set_hdr (\<lambda>h. h\<lparr>mh_message_size := v\<rparr>)),
      rd_field bv message_read_uint16 (\<lambda>v. set_hdr (\<lambda>h. h\<lparr>mh_message_version := v\<rparr>)),
      rd_field bv message_read_uint16 (\<lambda>v. set_hdr (\<lambda>h. h\<lparr>mh_header_size := ucast v\<rparr>)),
      assign (\<lambda>s. set_info (\<lambda>_ i. i\<lparr>mi_header_size := unat (mh_header_size (f_hdr s))\<rparr>) s),
      rd_field bv message_read_nodeid (\<lambda>d. set_hdr (\<lambda>h. h\<lparr>mh_sender_nodeid := \<lparr>nodeid_data = d\<rparr>\<rparr>)),
      rd_field bv message_read_nodeid (\<lambda>d. set_hdr (\<lambda>h. h\<lparr>mh_receiver_nodeid := \<lparr>nodeid_data = d\<rparr>\<rparr>)),
      rd_field bv message_read_uint32 (\<lambda>v. set_hdr (\<lambda>h. h\<lparr>mh_sender_endpoint := v\<rparr>)),
      rd_field bv message_read_uint32 (\<lambda>v. set_hdr (\<lambda>h. h\<lparr>mh_receiver_endpoint := v\<rparr>)),
      rd_field bv read_header_string_prefix2_1 (\<lambda>v s. s\<lparr>f_str1 := v\<rparr>),
      rd_field bv read_header_string_prefix2_1 (\<lambda>v s. s\<lparr>f_str2 := v\<rparr>),
      rd_field bv read_header_string_prefix2_1 (\<lambda>v s. s\<lparr>f_str3 := v\<rparr>),
      assign (set_info (\<lambda>p i. i\<lparr>mi_entry_count_offset := p\<rparr>)),
      rd_field bv message_read_uint16 (\<lambda>v. set_hdr (\<lambda>h. h\<lparr>mh_entry_count := ucast v\<rparr>)),
      rd_field bv message_read_uint16 (\<lambda>v. set_hdr (\<lambda>h. h\<lparr>mh_message_id := v\<rparr>)),
      rd_field bv message_read_uint16 (\<lambda>v. set_hdr (\<lambda>h. h\<lparr>mh_message_res_id := v\<rparr>))]"

definition read_header2_steps :: "buffer_vec \<Rightarrow> size_t \<Rightarrow> message_rframe step list" where
  "read_header2_steps bv start_o =
     read2_fields bv @
     [return_if (\<lambda>s. sz_sub (f_off s) start_o \<noteq> unat (mh_header_size (f_hdr s))) PROTOCOL,
      get_sender_nodename bv, get_receiver_nodename bv, get_message_metadata bv,
      assign (set_hdr (\<lambda>h. h\<lparr>mh_message_flags := MESSAGE_FLAGS_VERSION2COMPAT, mh_priority := 0\<rparr>)),
      assign (set_info (\<lambda>p i. i\<lparr>mi_entry_start_offset := p\<rparr>))]"

definition message_reader_read_header2_ex ::
  "buffer_vec \<Rightarrow> message_reader \<Rightarrow> rstring message_header \<Rightarrow> message_buffer_info
     \<Rightarrow> status \<times> rstring message_header \<times> message_buffer_info" where
  "message_reader_read_header2_ex bv reader header info =
     end_read info
       (run_steps (read_header2_steps bv (mr_buffer_offset reader))
          (start_frame (mr_buffer_offset reader) header info))"

definition message_reader_read_header_ex ::
  "buffer_vec \<Rightarrow> message_reader \<Rightarrow> rstring message_header \<Rightarrow> message_buffer_info
     \<Rightarrow> status \<times> rstring message_header \<times> message_buffer_info" where
  "message_reader_read_header_ex bv reader header info =
     (case message_read_uint16 bv (sz_add (mr_buffer_offset reader) 8) of
        Inl e \<Rightarrow> (Err e, header, info)
      | Inr (ver, _) \<Rightarrow>
          (let header = header\<lparr>mh_message_version := ver\<rparr>
           in if ver = 2 then message_reader_read_header2_ex bv reader header info
              else if ver = 4 then message_reader_read_header4_ex bv reader header info
              else (Err PROTOCOL, header, info)))"

definition message_reader_read_header ::
  "buffer_vec \<Rightarrow> message_reader \<Rightarrow> rstring message_header
     \<Rightarrow> status \<times> message_reader \<times> rstring message_header" where
  "message_reader_read_header bv reader header =
     (case message_reader_read_header_ex bv reader header
             \<lparr>mi_start_buffer_offset = 0, mi_header_size = 0,
              mi_entry_count_offset = 0, mi_entry_start_offset = 0\<rparr> of
        (Err e, header, _) \<Rightarrow> (Err e, reader, header)
      | (OK, header, _) \<Rightarrow> (OK, reader\<lparr>mr_message_version := mh_message_version header\<rparr>, header))"

end
