(* ===== verification/RRL_HeaderRead.thy ===== *)
theory RRL_HeaderRead
  imports RRL_Header
begin

text \<open>
  The wire format of the message headers as functions from an abstract header to bytes, and the
  proof that the readers of RRL_Header invert it, for every combination of flags.
\<close>

lemma nodeid_eta [simp]: "\<lparr>nodeid_data = nodeid_data x\<rparr> = x"
  by (cases x) simp


section \<open>Version 4\<close>

definition header4_ok :: "const_string message_header \<Rightarrow> bool" where
  "header4_ok h \<longleftrightarrow> nodeid_ok (mh_sender_nodeid h) \<and> nodeid_ok (mh_receiver_nodeid h) \<and>
     str4_ok (mh_sender_nodename h) \<and> str4_ok (mh_receiver_nodename h) \<and> str4_ok (mh_metadata h)"

definition enc4_routing :: "const_string message_header \<Rightarrow> byte list" where
  "enc4_routing h =
     nodeid_data (mh_sender_nodeid h) @ nodeid_data (mh_receiver_nodeid h) @
     enc_str4 (mh_sender_nodename h) @ enc_str4 (mh_receiver_nodename h)"

definition enc4_endpoint :: "const_string message_header \<Rightarrow> byte list" where
  "enc4_endpoint h = enc_uint_x (mh_sender_endpoint h) @ enc_uint_x (mh_receiver_endpoint h)"

definition enc4_meta :: "const_string message_header \<Rightarrow> byte list" where
  "enc4_meta h = enc_str4 (mh_metadata h) @ u16_bytes (mh_message_id h) @ u16_bytes (mh_message_res_id h)"

definition enc_skipped :: "byte list \<Rightarrow> byte list" where
  "enc_skipped xs = enc_uint_x (word_of_nat (length xs)) @ xs"

text \<open>
  A version 4 header with flags \<open>fl\<close>, a string table \<open>tbl\<close> and an extended part
  \<open>ext\<close>. The sections the flags leave out are absent.
\<close>

definition enc4_start :: "u8 \<Rightarrow> const_string message_header \<Rightarrow> byte list" where
  "enc4_start fl h = rrac_magic @ u32_bytes (mh_message_size h) @ u16_bytes 4 @
     enc_uint_x (mh_header_size h) @ [fl]"

definition enc4_before_count :: "u8 \<Rightarrow> const_string message_header \<Rightarrow> byte list \<Rightarrow> byte list" where
  "enc4_before_count fl h tbl =
     opt (FLAGS_CHECK fl MESSAGE_FLAGS_ROUTING_INFO) (enc4_routing h) @
     opt (FLAGS_CHECK fl MESSAGE_FLAGS_ENDPOINT_INFO) (enc4_endpoint h) @
     opt (FLAGS_CHECK fl MESSAGE_FLAGS_PRIORITY) (u16_bytes (mh_priority h)) @
     opt (FLAGS_CHECK fl MESSAGE_FLAGS_META_INFO) (enc4_meta h) @
     opt (FLAGS_CHECK fl MESSAGE_FLAGS_STRING_TABLE) (enc_skipped tbl)"

definition enc4_sections :: "u8 \<Rightarrow> const_string message_header \<Rightarrow> byte list \<Rightarrow> byte list \<Rightarrow> byte list" where
  "enc4_sections fl h tbl ext =
     enc4_before_count fl h tbl @
     opt (FLAGS_CHECK fl MESSAGE_FLAGS_MULTIPLE_ENTRIES) (enc_padded_uint_x (mh_entry_count h)) @
     opt (FLAGS_CHECK fl MESSAGE_FLAGS_EXTENDED) (enc_skipped ext)"

definition enc_header4 :: "u8 \<Rightarrow> const_string message_header \<Rightarrow> byte list \<Rightarrow> byte list \<Rightarrow> byte list" where
  "enc_header4 fl h tbl ext = enc4_start fl h @ enc4_sections fl h tbl ext"

lemma consumes_routing:
  assumes wf: "wf_vec 1 bv" and ok: "header4_ok h" and c: "c = FLAGS_CHECK fl MESSAGE_FLAGS_ROUTING_INFO"
  shows "consumes bv fl (read4_routing bv) (opt c (enc4_routing h))
    (\<lambda>s. s\<lparr>f_off := f_off s + length (opt c (enc4_routing h)),
           f_hdr := (f_hdr s)\<lparr>mh_sender_nodeid := (if c then mh_sender_nodeid h else nodeid_any),
                              mh_receiver_nodeid := (if c then mh_receiver_nodeid h else nodeid_any)\<rparr>,
           f_str1 := (if c then str4_found (mh_sender_nodename h) (f_off s + 32) else f_str1 s),
           f_str2 := (if c then str4_found (mh_receiver_nodename h)
                                  (f_off s + (32 + length (enc_str4 (mh_sender_nodename h))))
                      else f_str2 s)\<rparr>)"
  unfolding read4_routing_def enc4_routing_def c
  by (rule consumes_conv, (rule consumes_intros wf
      | (use ok in \<open>auto simp: header4_ok_def nodeid_ok_def set_hdr_def ac_simps\<close>; fail))+)

lemma consumes_endpoint:
  assumes wf: "wf_vec 1 bv" and c: "c = FLAGS_CHECK fl MESSAGE_FLAGS_ENDPOINT_INFO"
  shows "consumes bv fl (read4_endpoint bv) (opt c (enc4_endpoint h))
    (\<lambda>s. s\<lparr>f_off := f_off s + length (opt c (enc4_endpoint h)),
           f_hdr := (f_hdr s)\<lparr>mh_sender_endpoint := (if c then mh_sender_endpoint h else 0),
                              mh_receiver_endpoint := (if c then mh_receiver_endpoint h else 0)\<rparr>\<rparr>)"
  unfolding read4_endpoint_def enc4_endpoint_def c
  by (rule consumes_conv, (rule consumes_intros wf | (auto simp: set_hdr_def ac_simps; fail))+)

lemma consumes_priority:
  assumes wf: "wf_vec 1 bv" and c: "c = FLAGS_CHECK fl MESSAGE_FLAGS_PRIORITY"
  shows "consumes bv fl (read4_priority bv) (opt c (u16_bytes (mh_priority h)))
    (\<lambda>s. s\<lparr>f_off := f_off s + length (opt c (u16_bytes (mh_priority h))),
           f_hdr := (f_hdr s)\<lparr>mh_priority := (if c then mh_priority h else 0)\<rparr>\<rparr>)"
  unfolding read4_priority_def c
  by (rule consumes_conv, (rule consumes_intros wf | (auto simp: set_hdr_def; fail))+)

lemma consumes_meta:
  assumes wf: "wf_vec 1 bv" and ok: "header4_ok h" and c: "c = FLAGS_CHECK fl MESSAGE_FLAGS_META_INFO"
  shows "consumes bv fl (read4_meta bv) (opt c (enc4_meta h))
    (\<lambda>s. s\<lparr>f_off := f_off s + length (opt c (enc4_meta h)),
           f_hdr := (f_hdr s)\<lparr>mh_message_id := (if c then mh_message_id h else 0),
                              mh_message_res_id := (if c then mh_message_res_id h else 0)\<rparr>,
           f_str3 := (if c then str4_found (mh_metadata h) (f_off s) else f_str3 s)\<rparr>)"
  unfolding read4_meta_def enc4_meta_def c
  by (rule consumes_conv, (rule consumes_intros wf
      | (use ok in \<open>auto simp: header4_ok_def set_hdr_def ac_simps\<close>; fail))+)

text \<open>A skipped part is at most as long as its length prefix can say.\<close>

lemma consumes_skipped:
  assumes wf: "wf_vec 1 bv" and n: "str4_ok xs"
  shows "consumes bv fl (rd_skip bv) (enc_skipped xs) (\<lambda>s. s\<lparr>f_off := f_off s + length (enc_skipped xs)\<rparr>)"
  unfolding enc_skipped_def
  using consumes_skip [OF wf unat_length_u32 [OF n]] by simp

lemma consumes_string_table:
  assumes wf: "wf_vec 1 bv" and n: "str4_ok xs" and c: "c = FLAGS_CHECK fl m"
  shows "consumes bv fl (if_steps (\<lambda>s. FLAGS_CHECK (f_flags s) m) [rd_skip bv] []) (opt c (enc_skipped xs))
    (\<lambda>s. s\<lparr>f_off := f_off s + length (opt c (enc_skipped xs))\<rparr>)"
  unfolding c
  by (rule consumes_conv, rule consumes_if, rule consumes_last, rule consumes_skipped [OF wf n],
      rule consumes_Nil) auto

lemma consumes_entry_count:
  assumes wf: "wf_vec 1 bv" and c: "c = FLAGS_CHECK fl MESSAGE_FLAGS_MULTIPLE_ENTRIES"
  shows "consumes bv fl (read4_entry_count bv) (opt c (enc_padded_uint_x (mh_entry_count h)))
    (\<lambda>s. s\<lparr>f_off := f_off s + length (opt c (enc_padded_uint_x (mh_entry_count h))),
           f_hdr := (f_hdr s)\<lparr>mh_entry_count := (if c then mh_entry_count h else 1)\<rparr>,
           f_info := (f_info s)\<lparr>mi_entry_count_offset := (if c then f_off s else SIZE_T_MAX)\<rparr>\<rparr>)"
  unfolding read4_entry_count_def c
  by (rule consumes_conv, (rule consumes_intros wf | (auto simp: set_hdr_def set_info_def; fail))+)

lemma length_magic [simp]: "length rrac_magic = 4" by (simp add: rrac_magic_def)

lemma run_read4_start:
  assumes wf: "wf_vec 1 bv" and a: "at bv p (enc4_start fl h)"
  shows "run_steps (read4_start bv @ as) (start_frame p hdr info) =
    run_steps as \<lparr>f_off = p + length (enc4_start fl h),
       f_hdr = hdr\<lparr>mh_message_size := mh_message_size h, mh_message_version := 4, mh_header_size := mh_header_size h\<rparr>,
       f_info = info\<lparr>mi_start_buffer_offset := p, mi_header_size := unat (mh_header_size h)\<rparr>,
       f_flags = fl, f_str1 = no_string_info, f_str2 = no_string_info, f_str3 = no_string_info\<rparr>"
proof -
  have b: "at bv p rrac_magic" "at bv (p + 4) (u32_bytes (mh_message_size h))" "at bv (p + 8) (u16_bytes 4)"
    "at bv (p + 10) (enc_uint_x (mh_header_size h))"
    "at bv (p + 10 + message_uint_x_size (mh_header_size h)) [fl]"
    using a by (simp_all add: enc4_start_def at_append ac_simps)
  have o: "sz_add p 4 = p + 4" using at_wf_add [OF wf b(1)] by simp
  show ?thesis
    using b o
    by (simp add: read4_start_def step_simps rd_pad_def uint32.run_rd_field [OF wf TrueI]
        uint16.run_rd_field [OF wf TrueI] uint_x.run_rd_field [OF wf TrueI] uint8.run_rd_field [OF wf TrueI] 
       start_frame_def set_hdr_def set_info_def enc4_start_def ac_simps del: run_steps.simps)
qed

definition seen_header4 ::
  "u8 \<Rightarrow> const_string message_header \<Rightarrow> rstring message_header \<Rightarrow> rstring message_header" where
  "seen_header4 fl h hdr =
    (let r = FLAGS_CHECK fl MESSAGE_FLAGS_ROUTING_INFO; e = FLAGS_CHECK fl MESSAGE_FLAGS_ENDPOINT_INFO;
         q = FLAGS_CHECK fl MESSAGE_FLAGS_PRIORITY; m = FLAGS_CHECK fl MESSAGE_FLAGS_META_INFO;
         n = FLAGS_CHECK fl MESSAGE_FLAGS_MULTIPLE_ENTRIES
     in \<lparr>mh_message_size = mh_message_size h, mh_message_version = 4, mh_header_size = mh_header_size h,
         mh_message_flags = fl,
         mh_sender_nodeid = (if r then mh_sender_nodeid h else nodeid_any),
         mh_receiver_nodeid = (if r then mh_receiver_nodeid h else nodeid_any),
         mh_sender_endpoint = (if e then mh_sender_endpoint h else 0),
         mh_receiver_endpoint = (if e then mh_receiver_endpoint h else 0),
         mh_priority = (if q then mh_priority h else 0),
         mh_sender_nodename =
           (if r then fill_string (mh_sender_nodename hdr) (mh_sender_nodename h) else null_string),
         mh_receiver_nodename =
           (if r then fill_string (mh_receiver_nodename hdr) (mh_receiver_nodename h) else null_string),
         mh_metadata = (if m then fill_string (mh_metadata hdr) (mh_metadata h) else null_string),
         mh_entry_count = (if n then mh_entry_count h else 1),
         mh_message_id = (if m then mh_message_id h else 0),
         mh_message_res_id = (if m then mh_message_res_id h else 0)\<rparr>)"

definition header_room :: "rstring message_header \<Rightarrow> const_string message_header \<Rightarrow> bool" where
  "header_room hdr h \<longleftrightarrow>
     string_ok (mh_sender_nodename hdr) \<and> string_room (mh_sender_nodename hdr) (mh_sender_nodename h) \<and>
     string_ok (mh_receiver_nodename hdr) \<and> string_room (mh_receiver_nodename hdr) (mh_receiver_nodename h) \<and>
     string_ok (mh_metadata hdr) \<and> string_room (mh_metadata hdr) (mh_metadata h)"


definition sections_frame :: "u8 \<Rightarrow> const_string message_header \<Rightarrow> byte list \<Rightarrow> byte list
    \<Rightarrow> message_rframe \<Rightarrow> message_rframe" where
  "sections_frame fl h tbl ext s =
    (let r = FLAGS_CHECK fl MESSAGE_FLAGS_ROUTING_INFO; e = FLAGS_CHECK fl MESSAGE_FLAGS_ENDPOINT_INFO;
         q = FLAGS_CHECK fl MESSAGE_FLAGS_PRIORITY; m = FLAGS_CHECK fl MESSAGE_FLAGS_META_INFO;
         n = FLAGS_CHECK fl MESSAGE_FLAGS_MULTIPLE_ENTRIES;
         p = f_off s;
         p_meta = p + (length (opt r (enc4_routing h)) + length (opt e (enc4_endpoint h)) +
                     length (opt q (u16_bytes (mh_priority h))));
         p_count = p + length (enc4_before_count fl h tbl)
     in s\<lparr>f_off := p + length (enc4_sections fl h tbl ext),
          f_hdr := (f_hdr s)\<lparr>
            mh_sender_nodeid := (if r then mh_sender_nodeid h else nodeid_any),
            mh_receiver_nodeid := (if r then mh_receiver_nodeid h else nodeid_any),
            mh_sender_endpoint := (if e then mh_sender_endpoint h else 0),
            mh_receiver_endpoint := (if e then mh_receiver_endpoint h else 0),
            mh_priority := (if q then mh_priority h else 0),
            mh_entry_count := (if n then mh_entry_count h else 1),
            mh_message_id := (if m then mh_message_id h else 0),
            mh_message_res_id := (if m then mh_message_res_id h else 0)\<rparr>,
          f_info := (f_info s)\<lparr>mi_entry_count_offset := (if n then p_count else SIZE_T_MAX)\<rparr>,
          f_str1 := (if r then str4_found (mh_sender_nodename h) (p + 32) else f_str1 s),
          f_str2 := (if r then str4_found (mh_receiver_nodename h)
                                 (p + (32 + length (enc_str4 (mh_sender_nodename h)))) else f_str2 s),
          f_str3 := (if m then str4_found (mh_metadata h) p_meta else f_str3 s)\<rparr>)"

lemma consumes_sections:
  assumes wf: "wf_vec 1 bv" and ok: "header4_ok h" "str4_ok tbl" "str4_ok ext"
  shows "consumes bv fl (run_steps [read4_routing bv, read4_endpoint bv, read4_priority bv, read4_meta bv,
      read4_string_table bv, read4_entry_count bv, read4_extended bv]) (enc4_sections fl h tbl ext)
      (sections_frame fl h tbl ext)"
  unfolding enc4_sections_def enc4_before_count_def append_assoc read4_string_table_def read4_extended_def
  apply (rule consumes_conv)
  apply (rule consumes_last consumes_Cons wf ok refl consumes_routing consumes_endpoint consumes_priority
     consumes_meta consumes_string_table consumes_entry_count)+
  apply (simp add: sections_frame_def Let_def enc4_sections_def enc4_before_count_def ac_simps del: length_opt)
  done

lemma at_sections:
  assumes a: "at bv p (enc4_sections fl h tbl ext)" and ok: "header4_ok h"
  shows "FLAGS_CHECK fl MESSAGE_FLAGS_ROUTING_INFO \<Longrightarrow> at bv (p + 32) (enc_str4 (mh_sender_nodename h))"
    and "FLAGS_CHECK fl MESSAGE_FLAGS_ROUTING_INFO \<Longrightarrow>
      at bv (p + (32 + length (enc_str4 (mh_sender_nodename h)))) (enc_str4 (mh_receiver_nodename h))"
    and "FLAGS_CHECK fl MESSAGE_FLAGS_META_INFO \<Longrightarrow>
      at bv (p + (length (opt (FLAGS_CHECK fl MESSAGE_FLAGS_ROUTING_INFO) (enc4_routing h)) +
                  length (opt (FLAGS_CHECK fl MESSAGE_FLAGS_ENDPOINT_INFO) (enc4_endpoint h)) +
                  length (opt (FLAGS_CHECK fl MESSAGE_FLAGS_PRIORITY) (u16_bytes (mh_priority h)))))
         (enc_str4 (mh_metadata h))"
proof -
  have l: "length (nodeid_data (mh_sender_nodeid h)) = 16" "length (nodeid_data (mh_receiver_nodeid h)) = 16"
    using ok by (simp_all add: header4_ok_def nodeid_ok_def)
  assume "FLAGS_CHECK fl MESSAGE_FLAGS_ROUTING_INFO"
  then show "at bv (p + 32) (enc_str4 (mh_sender_nodename h))"
    "at bv (p + (32 + length (enc_str4 (mh_sender_nodename h)))) (enc_str4 (mh_receiver_nodename h))"
    using a l by (simp_all add: enc4_sections_def enc4_before_count_def enc4_routing_def at_append ac_simps)
next
  assume "FLAGS_CHECK fl MESSAGE_FLAGS_META_INFO"
  then show "at bv (p + (length (opt (FLAGS_CHECK fl MESSAGE_FLAGS_ROUTING_INFO) (enc4_routing h)) +
                  length (opt (FLAGS_CHECK fl MESSAGE_FLAGS_ENDPOINT_INFO) (enc4_endpoint h)) +
                  length (opt (FLAGS_CHECK fl MESSAGE_FLAGS_PRIORITY) (u16_bytes (mh_priority h)))))
         (enc_str4 (mh_metadata h))"
    using a by (simp add: enc4_sections_def enc4_before_count_def enc4_meta_def at_append ac_simps del: length_opt)
qed

lemma run_read4_strings:
  assumes f: "f_flags s = fl"
    and "FLAGS_CHECK fl MESSAGE_FLAGS_ROUTING_INFO \<Longrightarrow>
           read_header_string_2 bv (f_str1 s) (mh_sender_nodename (f_hdr s)) = (OK, x1)"
    and "FLAGS_CHECK fl MESSAGE_FLAGS_ROUTING_INFO \<Longrightarrow>
           read_header_string_2 bv (f_str2 s) (mh_receiver_nodename (f_hdr s)) = (OK, x2)"
    and "FLAGS_CHECK fl MESSAGE_FLAGS_META_INFO \<Longrightarrow>
           read_header_string_2 bv (f_str3 s) (mh_metadata (f_hdr s)) = (OK, x3)"
  shows "run_steps (read4_strings bv @ as) s = run_steps as
    (s\<lparr>f_hdr := (f_hdr s)\<lparr>
         mh_sender_nodename := (if FLAGS_CHECK fl MESSAGE_FLAGS_ROUTING_INFO then x1 else null_string),
         mh_receiver_nodename := (if FLAGS_CHECK fl MESSAGE_FLAGS_ROUTING_INFO then x2 else null_string),
         mh_metadata := (if FLAGS_CHECK fl MESSAGE_FLAGS_META_INFO then x3 else null_string)\<rparr>\<rparr>)"
  using assms
  by (cases "FLAGS_CHECK fl MESSAGE_FLAGS_ROUTING_INFO"; cases "FLAGS_CHECK fl MESSAGE_FLAGS_META_INFO")
     (simp_all add: read4_strings_def if_steps_def get_sender_nodename_def get_receiver_nodename_def
      get_message_metadata_def get_string_def set_hdr_def assign_def)

definition header4_count_offset :: "u8 \<Rightarrow> const_string message_header \<Rightarrow> byte list \<Rightarrow> size_t \<Rightarrow> size_t" where
  "header4_count_offset fl h tbl p =
     (if FLAGS_CHECK fl MESSAGE_FLAGS_MULTIPLE_ENTRIES
      then p + length (enc4_start fl h) + length (enc4_before_count fl h tbl) else SIZE_T_MAX)"

text \<open>Every well-formed version 4 header is read back, whatever its flags.\<close>

lemma read_header4_at:
  assumes wf: "wf_vec 1 bv" and ok: "header4_ok h" "str4_ok tbl" "str4_ok ext"
    and size: "unat (mh_header_size h) = length (enc_header4 fl h tbl ext)"
    and a: "at bv (mr_buffer_offset r) (enc_header4 fl h tbl ext)"
    and room: "header_room hdr h"
  shows "message_reader_read_header4_ex bv r hdr info =
           (OK, seen_header4 fl h hdr,
            \<lparr>mi_start_buffer_offset = mr_buffer_offset r,
             mi_header_size = length (enc_header4 fl h tbl ext),
             mi_entry_count_offset = header4_count_offset fl h tbl (mr_buffer_offset r),
             mi_entry_start_offset = mr_buffer_offset r + length (enc_header4 fl h tbl ext)\<rparr>)"
proof -
  let ?p = "mr_buffer_offset r"
  let ?q = "?p + length (enc4_start fl h)"
  let ?x1 = "fill_string (mh_sender_nodename hdr) (mh_sender_nodename h)"
  let ?x2 = "fill_string (mh_receiver_nodename hdr) (mh_receiver_nodename h)"
  let ?x3 = "fill_string (mh_metadata hdr) (mh_metadata h)"
  have a1: "at bv ?p (enc4_start fl h)" and a2: "at bv ?q (enc4_sections fl h tbl ext)"
    using a by (simp_all add: enc_header4_def at_append)
  note S = at_sections [OF a2 ok(1)]
  note R = read_string4 [OF wf _ S(1)] read_string4 [OF wf _ S(2)] read_string4 [OF wf _ S(3)]
  have sz: "length (enc_header4 fl h tbl ext) = length (enc4_start fl h) + length (enc4_sections fl h tbl ext)"
    by (simp add: enc_header4_def)
  have endp: "sz_sub (?q + length (enc4_sections fl h tbl ext)) ?p = length (enc_header4 fl h tbl ext)"
    using wf_small [OF wf at_le [OF a]] by (simp add: sz_sub_nowrap enc_header4_def)
  show ?thesis
    unfolding message_reader_read_header4_ex_def read_header4_steps_def
    apply (subst run_read4_start [OF wf a1])
    apply (subst run_consumes [OF consumes_sections [OF wf ok, where fl = fl]])
      apply simp
     apply (simp add: a2)
    apply (subst append_Cons append_Nil)+
    apply (subst run_return_if)
    apply (subst if_not_P)
     apply (simp add: sections_frame_def Let_def size endp)
    apply (subst run_read4_strings [where fl = fl and ?x1.0 = ?x1 and ?x2.0 = ?x2 and ?x3.0 = ?x3])
    using R room ok(1)
        apply (simp_all add: sections_frame_def Let_def header_room_def header4_ok_def del: length_enc_str4)
    apply (simp add: assign_def end_read_def seen_header4_def Let_def set_hdr_def set_info_def size sz
        header4_count_offset_def)
    done
qed


section \<open>Version 2\<close>

definition header2_ok :: "const_string message_header \<Rightarrow> bool" where
  "header2_ok h \<longleftrightarrow> nodeid_ok (mh_sender_nodeid h) \<and> nodeid_ok (mh_receiver_nodeid h) \<and>
     str2_ok (mh_sender_nodename h) \<and> str2_ok (mh_receiver_nodename h) \<and> str2_ok (mh_metadata h) \<and>
     unat (mh_header_size h) \<le> UINT16_MAX \<and> unat (mh_entry_count h) \<le> UINT16_MAX"

definition enc2_before_count :: "const_string message_header \<Rightarrow> byte list" where
  "enc2_before_count h =
     rrac_magic @ u32_bytes (mh_message_size h) @ u16_bytes 2 @ u16_bytes (ucast (mh_header_size h)) @
     nodeid_data (mh_sender_nodeid h) @ nodeid_data (mh_receiver_nodeid h) @
     u32_bytes (mh_sender_endpoint h) @ u32_bytes (mh_receiver_endpoint h) @
     enc_str2 (mh_sender_nodename h) @ enc_str2 (mh_receiver_nodename h) @ enc_str2 (mh_metadata h)"

definition enc_header2 :: "const_string message_header \<Rightarrow> byte list" where
  "enc_header2 h = enc2_before_count h @ u16_bytes (ucast (mh_entry_count h)) @
     u16_bytes (mh_message_id h) @ u16_bytes (mh_message_res_id h)"

definition seen_header2 :: "const_string message_header \<Rightarrow> rstring message_header \<Rightarrow> rstring message_header" where
  "seen_header2 h hdr =
     \<lparr>mh_message_size = mh_message_size h, mh_message_version = 2, mh_header_size = mh_header_size h,
      mh_message_flags = MESSAGE_FLAGS_VERSION2COMPAT,
      mh_sender_nodeid = mh_sender_nodeid h, mh_receiver_nodeid = mh_receiver_nodeid h,
      mh_sender_endpoint = mh_sender_endpoint h, mh_receiver_endpoint = mh_receiver_endpoint h,
      mh_priority = 0,
      mh_sender_nodename = fill_string (mh_sender_nodename hdr) (mh_sender_nodename h),
      mh_receiver_nodename = fill_string (mh_receiver_nodename hdr) (mh_receiver_nodename h),
      mh_metadata = fill_string (mh_metadata hdr) (mh_metadata h),
      mh_entry_count = mh_entry_count h, mh_message_id = mh_message_id h,
      mh_message_res_id = mh_message_res_id h\<rparr>"

lemma length_enc2_before_count [simp]:
  "header2_ok h \<Longrightarrow> length (enc2_before_count h) =
     58 + length (mh_sender_nodename h) + length (mh_receiver_nodename h) + length (mh_metadata h)"
  by (simp add: enc2_before_count_def header2_ok_def nodeid_ok_def)

lemma length_enc_header2 [simp]:
  "header2_ok h \<Longrightarrow> length (enc_header2 h) =
     64 + length (mh_sender_nodename h) + length (mh_receiver_nodename h) + length (mh_metadata h)"
  by (simp add: enc_header2_def)

text \<open>The places of the fields, and the run of the reader over them.\<close>

lemma at_fields2:
  assumes "at bv p (enc_header2 h)" and "header2_ok h"
  shows "at bv p rrac_magic"
    "at bv (p + 4) (u32_bytes (mh_message_size h))"
    "at bv (p + 8) (u16_bytes 2)"
    "at bv (p + 10) (u16_bytes (ucast (mh_header_size h)))"
    "at bv (p + 12) (nodeid_data (mh_sender_nodeid h))"
    "at bv (p + 28) (nodeid_data (mh_receiver_nodeid h))"
    "at bv (p + 44) (u32_bytes (mh_sender_endpoint h))"
    "at bv (p + 48) (u32_bytes (mh_receiver_endpoint h))"
    "at bv (p + 52) (enc_str2 (mh_sender_nodename h))"
    "at bv (p + (52 + length (enc_str2 (mh_sender_nodename h)))) (enc_str2 (mh_receiver_nodename h))"
    "at bv (p + (52 + (length (enc_str2 (mh_sender_nodename h)) + length (enc_str2 (mh_receiver_nodename h)))))
           (enc_str2 (mh_metadata h))"
    "at bv (p + length (enc2_before_count h)) (u16_bytes (ucast (mh_entry_count h)))"
    "at bv (p + length (enc2_before_count h) + 2) (u16_bytes (mh_message_id h))"
    "at bv (p + length (enc2_before_count h) + 4) (u16_bytes (mh_message_res_id h))"
proof -
  have "at bv p (enc2_before_count h)"
    and 1: "at bv (p + length (enc2_before_count h)) (u16_bytes (ucast (mh_entry_count h)))"
    "at bv (p + length (enc2_before_count h) + 2) (u16_bytes (mh_message_id h))"
    "at bv (p + length (enc2_before_count h) + 4) (u16_bytes (mh_message_res_id h))"
    using assms(1) by (simp_all add: enc_header2_def at_append ac_simps del: add_2_eq_Suc add_2_eq_Suc')
  then show "at bv p rrac_magic"
    "at bv (p + 4) (u32_bytes (mh_message_size h))"
    "at bv (p + 8) (u16_bytes 2)"
    "at bv (p + 10) (u16_bytes (ucast (mh_header_size h)))"
    "at bv (p + 12) (nodeid_data (mh_sender_nodeid h))"
    "at bv (p + 28) (nodeid_data (mh_receiver_nodeid h))"
    "at bv (p + 44) (u32_bytes (mh_sender_endpoint h))"
    "at bv (p + 48) (u32_bytes (mh_receiver_endpoint h))"
    "at bv (p + 52) (enc_str2 (mh_sender_nodename h))"
    "at bv (p + (52 + length (enc_str2 (mh_sender_nodename h)))) (enc_str2 (mh_receiver_nodename h))"
    "at bv (p + (52 + (length (enc_str2 (mh_sender_nodename h)) + length (enc_str2 (mh_receiver_nodename h)))))
           (enc_str2 (mh_metadata h))"
    using assms(2)
    by (simp_all add: enc2_before_count_def at_append header2_ok_def nodeid_ok_def ac_simps
      del: length_enc_str2)
  show "at bv (p + length (enc2_before_count h)) (u16_bytes (ucast (mh_entry_count h)))"
    "at bv (p + length (enc2_before_count h) + 2) (u16_bytes (mh_message_id h))"
    "at bv (p + length (enc2_before_count h) + 4) (u16_bytes (mh_message_res_id h))" by (rule 1)+
qed

lemma run_fields2:
  assumes wf: "wf_vec 1 bv" and ok: "header2_ok h" and a: "at bv p (enc_header2 h)"
  shows "run_steps (read2_fields bv @ as) (start_frame p hdr info) = run_steps as
    \<lparr>f_off = p + length (enc_header2 h),
       f_hdr = hdr\<lparr>mh_message_size := mh_message_size h, mh_message_version := 2,
          mh_header_size := mh_header_size h,
          mh_sender_nodeid := mh_sender_nodeid h, mh_receiver_nodeid := mh_receiver_nodeid h,
          mh_sender_endpoint := mh_sender_endpoint h, mh_receiver_endpoint := mh_receiver_endpoint h,
          mh_entry_count := mh_entry_count h, mh_message_id := mh_message_id h,
          mh_message_res_id := mh_message_res_id h\<rparr>,
       f_info = info\<lparr>mi_start_buffer_offset := p, mi_header_size := unat (mh_header_size h),
          mi_entry_count_offset := p + length (enc2_before_count h)\<rparr>,
      f_flags = 0,
      f_str1 = str2_found (mh_sender_nodename h) (p + 52),
       f_str2 = str2_found (mh_receiver_nodename h) (p + (52 + length (enc_str2 (mh_sender_nodename h)))),
       f_str3 = str2_found (mh_metadata h) (p + (52 + (length (enc_str2 (mh_sender_nodename h)) +
                                                          length (enc_str2 (mh_receiver_nodename h)))))\<rparr>"
proof -
  have l: "length (nodeid_data (mh_sender_nodeid h)) = 16" "length (nodeid_data (mh_receiver_nodeid h)) = 16"
     "str2_ok (mh_sender_nodename h)" "str2_ok (mh_receiver_nodename h)" "str2_ok (mh_metadata h)"
     "ucast (ucast (mh_header_size h) :: u16) = mh_header_size h"
     "ucast (ucast (mh_entry_count h) :: u16) = mh_entry_count h"
    using ok by (simp_all add: header2_ok_def nodeid_ok_def ucast_ucast_u16)
  note A = at_fields2 [OF a ok]
  have o: "sz_add p 4 = p + 4" using at_wf_add [OF wf A(1)] by simp
  show ?thesis
    using A o l ok
    by (simp add: read2_fields_def step_simps rd_pad_def uint32.run_rd_field [OF wf TrueI]
        uint16.run_rd_field [OF wf TrueI] str2.run_rd_field [OF wf] nodeid.run_rd_field [unfolded id_def, OF wf]
       start_frame_def set_hdr_def set_info_def ac_simps del: run_steps.simps)
qed


lemma read_header2_at:
  assumes wf: "wf_vec 1 bv" and ok: "header2_ok h"
    and size: "unat (mh_header_size h) = length (enc_header2 h)"
    and a: "at bv (mr_buffer_offset r) (enc_header2 h)"
    and room: "header_room hdr h"
  shows "message_reader_read_header2_ex bv r hdr info =
           (OK, seen_header2 h hdr,
            \<lparr>mi_start_buffer_offset = mr_buffer_offset r,
             mi_header_size = length (enc_header2 h),
             mi_entry_count_offset = mr_buffer_offset r + length (enc2_before_count h),
             mi_entry_start_offset = mr_buffer_offset r + length (enc_header2 h)\<rparr>)"
proof -
  note S = at_fields2 [OF a ok]
  note R = read_string2 [OF wf _ S(9)] read_string2 [OF wf _ S(10)] read_string2 [OF wf _ S(11)]
  have endp: "sz_sub (mr_buffer_offset r + length (enc_header2 h)) (mr_buffer_offset r) = length (enc_header2 h)"
    using wf_small [OF wf at_le [OF a]] by (simp add: sz_sub_nowrap)
  show ?thesis
    unfolding message_reader_read_header2_ex_def read_header2_steps_def run_fields2 [OF wf ok a]
    using R room ok endp
    by (simp add: header_room_def header2_ok_def get_sender_nodename_def return_if_def
       get_receiver_nodename_def get_message_metadata_def get_string_def assign_def end_read_def
       set_hdr_def set_info_def size seen_header2_def del: length_enc_header2 length_enc_str2)
qed
end
