(* ===== verification/RRL_HeaderWrite.thy ===== *)
theory RRL_HeaderWrite
  imports RRL_HeaderRead
begin

text \<open>
  The message header writers of src/message.c. A version 4 writer first decides on the sections
  and computes the size of the header, then writes it; the two phases are modelled separately,
  and the check at the end of the code that they agree is shown never to fail.
\<close>

text \<open>The end of a header writer: the header's own size is stored on success.\<close>

definition end_write ::
  "('h \<Rightarrow> 'h) \<Rightarrow> 'h \<Rightarrow> status \<times> 'i wframe \<Rightarrow> status \<times> buffer_vec \<times> size_t \<times> 'h \<times> 'i" where
  "end_write f h r =
     (case r of
        (OK, s) \<Rightarrow> (OK, w_buf s, w_off s, f h, w_info s)
      | (Err e, s) \<Rightarrow> (Err e, w_buf s, w_off s, h, w_info s))"


section \<open>Version 2\<close>

definition write2_fields :: "u16 \<Rightarrow> const_string message_header \<Rightarrow> message_buffer_info wframe step list" where
  "write2_fields header_size h =
     [note_info (\<lambda>p i. i\<lparr>mi_start_buffer_offset := p\<rparr>),
      wr_f message_write_magic (),
      wr_f message_write_uint32 0,
      wr_f message_write_uint16 2,
      wr_f message_write_uint16 header_size,
      wr_f message_write_nodeid (nodeid_data (mh_sender_nodeid h)),
      wr_f message_write_nodeid (nodeid_data (mh_receiver_nodeid h)),
      wr_f message_write_uint32 (mh_sender_endpoint h),
      wr_f message_write_uint32 (mh_receiver_endpoint h),
      wr_f write_header_string2 (mh_sender_nodename h),
      wr_f write_header_string2 (mh_receiver_nodename h),
      wr_f write_header_string2 (mh_metadata h),
      note_info (\<lambda>p i. i\<lparr>mi_entry_count_offset := p\<rparr>),
      return_if (\<lambda>_. unat (mh_entry_count h) > UINT16_MAX) OUT_OF_RANGE,
      wr_f message_write_uint16 (ucast (mh_entry_count h)),
      wr_f message_write_uint16 (mh_message_id h),
      wr_f message_write_uint16 (mh_message_res_id h),
      note_info (\<lambda>p i. i\<lparr>mi_entry_start_offset := p\<rparr>),
      note_info (\<lambda>_ i. i\<lparr>mi_header_size := unat header_size\<rparr>)]"

definition message_writer_write_header2_ex ::
  "buffer_vec \<Rightarrow> size_t \<Rightarrow> const_string message_header \<Rightarrow> message_buffer_info
     \<Rightarrow> status \<times> buffer_vec \<times> size_t \<times> const_string message_header \<times> message_buffer_info" where
  "message_writer_write_header2_ex bv p h info =
     (let str1_len = length (mh_sender_nodename h);
          str2_len = length (mh_receiver_nodename h);
          str3_len = length (mh_metadata h);
          str4_len = sz_add (sz_add str1_len str2_len) str3_len
      in if str1_len > UINT16_MAX \<or> str2_len > UINT16_MAX \<or> str3_len > UINT16_MAX \<or>
            sz_add str4_len 64 > UINT16_MAX
         then (Err OUT_OF_RANGE, bv, p, h, info)
         else let header_size = word_of_nat (sz_add str4_len 64) :: u16
              in end_write (\<lambda>h. h\<lparr>mh_header_size := ucast header_size\<rparr>) h
                   (run_steps (write2_fields header_size h) \<lparr>w_buf = bv, w_off = p, w_info = info\<rparr>))"


section \<open>Version 4\<close>

text \<open>
  The first phase: the flags and the size of the header without its own length prefix. Each
  section is present when the mask allows it and a field of it differs from its default.
\<close>

definition plan4_routing :: "u8 \<Rightarrow> const_string message_header \<Rightarrow> u8 \<times> size_t \<Rightarrow> error + (u8 \<times> size_t)" where
  "plan4_routing flags_mask h fn =
     (if FLAGS_CHECK flags_mask MESSAGE_FLAGS_ROUTING_INFO \<and>
         (\<not> nodeid_isany (mh_sender_nodeid h) \<or> \<not> nodeid_isany (mh_receiver_nodeid h) \<or>
          length (mh_sender_nodename h) \<noteq> 0 \<or> length (mh_receiver_nodename h) \<noteq> 0)
      then and_then (header_string_size4 (mh_sender_nodename h)) (\<lambda>s1.
           and_then (header_string_size4 (mh_receiver_nodename h)) (\<lambda>s2.
             Inr (FLAGS_SET (fst fn) MESSAGE_FLAGS_ROUTING_INFO,
                  sz_add (sz_add (sz_add (snd fn) 32) s1) s2)))
      else Inr fn)"

definition plan4_endpoint :: "u8 \<Rightarrow> const_string message_header \<Rightarrow> u8 \<times> size_t \<Rightarrow> error + (u8 \<times> size_t)" where
  "plan4_endpoint flags_mask h fn =
     (if FLAGS_CHECK flags_mask MESSAGE_FLAGS_ENDPOINT_INFO \<and>
         (mh_sender_endpoint h \<noteq> 0 \<or> mh_receiver_endpoint h \<noteq> 0)
      then Inr (FLAGS_SET (fst fn) MESSAGE_FLAGS_ENDPOINT_INFO,
                sz_add (sz_add (snd fn) (message_uint_x_size (mh_sender_endpoint h)))
                       (message_uint_x_size (mh_receiver_endpoint h)))
      else Inr fn)"

definition plan4_priority :: "u8 \<Rightarrow> const_string message_header \<Rightarrow> u8 \<times> size_t \<Rightarrow> error + (u8 \<times> size_t)" where
  "plan4_priority flags_mask h fn =
     (if FLAGS_CHECK flags_mask MESSAGE_FLAGS_PRIORITY \<and> mh_priority h \<noteq> 0
      then Inr (FLAGS_SET (fst fn) MESSAGE_FLAGS_PRIORITY, sz_add (snd fn) 2)
      else Inr fn)"

definition plan4_meta :: "u8 \<Rightarrow> const_string message_header \<Rightarrow> u8 \<times> size_t \<Rightarrow> error + (u8 \<times> size_t)" where
  "plan4_meta flags_mask h fn =
     (if FLAGS_CHECK flags_mask MESSAGE_FLAGS_META_INFO \<and>
         (length (mh_metadata h) \<noteq> 0 \<or> mh_message_id h \<noteq> 0 \<or> mh_message_res_id h \<noteq> 0)
      then and_then (header_string_size4 (mh_metadata h)) (\<lambda>s.
             Inr (FLAGS_SET (fst fn) MESSAGE_FLAGS_META_INFO, sz_add (sz_add (snd fn) s) 4))
      else Inr fn)"

definition plan4_entries :: "u8 \<Rightarrow> const_string message_header \<Rightarrow> u8 \<times> size_t \<Rightarrow> error + (u8 \<times> size_t)" where
  "plan4_entries flags_mask h fn =
     (if FLAGS_CHECK flags_mask MESSAGE_FLAGS_MULTIPLE_ENTRIES \<and> mh_entry_count h \<noteq> 1
      then Inr (FLAGS_SET (fst fn) MESSAGE_FLAGS_MULTIPLE_ENTRIES,
                sz_add (snd fn) (message_padded_uint_x_size (mh_entry_count h)))
      else Inr fn)"

definition plan4_unreliable :: "u8 \<Rightarrow> u8 \<times> size_t \<Rightarrow> error + (u8 \<times> size_t)" where
  "plan4_unreliable flags_mask fn =
     Inr (fst fn OR ((flags_mask AND MESSAGE_FLAGS_UNRELIABLE) AND fst fn), snd fn)"

text \<open>The length prefix counts itself.\<close>

definition plan4_size :: "u8 \<times> size_t \<Rightarrow> error + (u8 \<times> size_t)" where
  "plan4_size fn =
     (if snd fn > UINT32_MAX then Inl OUT_OF_RANGE
      else and_then (message_len_plus_uint_x (word_of_nat (snd fn))) (\<lambda>(_, s).
             if sz_add (snd fn) s > UINT32_MAX then Inl OUT_OF_RANGE
             else Inr (fst fn, sz_add (snd fn) s)))"

definition plan_header4 :: "u8 \<Rightarrow> const_string message_header \<Rightarrow> error + (u8 \<times> size_t)" where
  "plan_header4 flags_mask h =
     and_then (plan4_routing flags_mask h (0, 11)) (\<lambda>fn.
     and_then (plan4_endpoint flags_mask h fn) (\<lambda>fn.
     and_then (plan4_priority flags_mask h fn) (\<lambda>fn.
     and_then (plan4_meta flags_mask h fn) (\<lambda>fn.
     and_then (plan4_entries flags_mask h fn) (\<lambda>fn.
     and_then (plan4_unreliable flags_mask fn) plan4_size)))))"

text \<open>The second phase.\<close>

definition write4_start :: "u8 \<Rightarrow> size_t \<Rightarrow> message_buffer_info wframe step list" where
  "write4_start flags header_size =
     [note_info (\<lambda>p i. i\<lparr>mi_start_buffer_offset := p\<rparr>),
      wr_f message_write_magic (),
      wr_f message_write_uint32 0,
      wr_f message_write_uint16 4,
      return_if (\<lambda>_. header_size > UINT32_MAX) OUT_OF_RANGE,
      wr_f message_write_uint_x (word_of_nat header_size),
      wr_f message_write_uint8 flags]"

definition write4_sections :: "u8 \<Rightarrow> const_string message_header \<Rightarrow> message_buffer_info wframe step list" where
  "write4_sections flags h =
     [if_steps (\<lambda>_. FLAGS_CHECK flags MESSAGE_FLAGS_ROUTING_INFO)
        [wr_f message_write_nodeid (nodeid_data (mh_sender_nodeid h)),
         wr_f message_write_nodeid (nodeid_data (mh_receiver_nodeid h)),
         wr_f write_header_string4 (mh_sender_nodename h),
         wr_f write_header_string4 (mh_receiver_nodename h)] [],
      if_steps (\<lambda>_. FLAGS_CHECK flags MESSAGE_FLAGS_ENDPOINT_INFO)
        [wr_f message_write_uint_x (mh_sender_endpoint h),
         wr_f message_write_uint_x (mh_receiver_endpoint h)] [],
      if_steps (\<lambda>_. FLAGS_CHECK flags MESSAGE_FLAGS_PRIORITY)
        [wr_f message_write_uint16 (mh_priority h)] [],
      if_steps (\<lambda>_. FLAGS_CHECK flags MESSAGE_FLAGS_META_INFO)
        [wr_f write_header_string4 (mh_metadata h),
         wr_f message_write_uint16 (mh_message_id h),
         wr_f message_write_uint16 (mh_message_res_id h)] [],
      if_steps (\<lambda>_. FLAGS_CHECK flags MESSAGE_FLAGS_MULTIPLE_ENTRIES)
        [wr_padded (mh_entry_count h) mi_entry_count_offset (\<lambda>c i. i\<lparr>mi_entry_count_offset := c\<rparr>)]
        [note_info (\<lambda>_ i. i\<lparr>mi_entry_count_offset := SIZE_T_MAX\<rparr>)]]"

definition write4_end :: "size_t \<Rightarrow> message_buffer_info wframe step list" where
  "write4_end header_size =
     [return_if (\<lambda>s. sz_sub (w_off s) (mi_start_buffer_offset (w_info s)) \<noteq> header_size) INTERNAL_ERROR,
      return_if (\<lambda>_. header_size > UINT32_MAX) OUT_OF_RANGE,
      note_info (\<lambda>p i. i\<lparr>mi_entry_start_offset := p\<rparr>),
      note_info (\<lambda>_ i. i\<lparr>mi_header_size := header_size\<rparr>)]"

definition message_writer_write_header4_ex ::
  "buffer_vec \<Rightarrow> size_t \<Rightarrow> const_string message_header \<Rightarrow> u8 \<Rightarrow> message_buffer_info
     \<Rightarrow> status \<times> buffer_vec \<times> size_t \<times> const_string message_header \<times> message_buffer_info" where
  "message_writer_write_header4_ex bv p h flags_mask info =
     (case plan_header4 flags_mask h of
        Inl e \<Rightarrow> (Err e, bv, p, h, info)
      | Inr (flags, header_size) \<Rightarrow>
          end_write (\<lambda>h. h\<lparr>mh_header_size := word_of_nat header_size\<rparr>) h
            (run_steps (write4_start flags header_size @ write4_sections flags h @ write4_end header_size)
               \<lparr>w_buf = bv, w_off = p, w_info = info\<rparr>))"


section \<open>What a version 2 writer writes\<close>

text \<open>The header as it is on the wire: its own size is set, the message size still zero.\<close>

definition sized2 :: "const_string message_header \<Rightarrow> const_string message_header" where
  "sized2 h = h\<lparr>mh_message_size := 0, mh_message_version := 2,
     mh_header_size := word_of_nat (64 + length (mh_sender_nodename h) + length (mh_receiver_nodename h) +
                                    length (mh_metadata h))\<rparr>"

definition header2_fits :: "const_string message_header \<Rightarrow> bool" where
  "header2_fits h \<longleftrightarrow> nodeid_ok (mh_sender_nodeid h) \<and> nodeid_ok (mh_receiver_nodeid h) \<and>
     64 + length (mh_sender_nodename h) + length (mh_receiver_nodename h) + length (mh_metadata h) \<le> UINT16_MAX \<and>
     unat (mh_entry_count h) \<le> UINT16_MAX"

lemma unat_word_of_nat_u32: "n \<le> UINT32_MAX \<Longrightarrow> unat (word_of_nat n :: u32) = n"
  by (simp add: UINT32_MAX_def unat_of_nat)

lemma unat_word_of_nat_u16: "n \<le> UINT16_MAX \<Longrightarrow> unat (word_of_nat n :: u16) = n"
  by (simp add: UINT16_MAX_def unat_of_nat)

lemma header2_ok_sized:
  assumes "header2_fits h"
  shows "header2_ok (sized2 h)"
    and "unat (mh_header_size (sized2 h)) = length (enc_header2 (sized2 h))"
proof -
  have n: "unat (mh_header_size (sized2 h)) =
    64 + length (mh_sender_nodename h) + length (mh_receiver_nodename h) + length (mh_metadata h)"
    using assms by (simp add: sized2_def header2_fits_def UINT16_MAX_def unat_of_nat del: of_nat_add)
  show ok: "header2_ok (sized2 h)"
    using assms n by (simp add: header2_ok_def header2_fits_def str2_ok_def) (simp add: sized2_def)
  show "unat (mh_header_size (sized2 h)) = length (enc_header2 (sized2 h))"
    using n length_enc_header2 [OF ok] by (simp add: sized2_def)
qed

lemma emits_fields2:
  assumes ok: "header2_ok h'" and h': "h' = h\<lparr>mh_message_size := 0, mh_message_version := v, mh_header_size := ucast n\<rparr>"
  shows "emits (run_steps (write2_fields n h)) (enc_header2 h')
    (\<lambda>p i. \<lparr>mi_start_buffer_offset = p, mi_header_size = unat n,
            mi_entry_count_offset = p + length (enc2_before_count h'),
            mi_entry_start_offset = p + length (enc_header2 h')\<rparr>)"
proof -
  have l: "length (nodeid_data (mh_sender_nodeid h)) = 16" "length (nodeid_data (mh_receiver_nodeid h)) = 16"
     "str2_ok (mh_sender_nodename h)" "str2_ok (mh_receiver_nodename h)" "str2_ok (mh_metadata h)"
     "\<not> unat (mh_entry_count h) > UINT16_MAX"
    using ok by (simp_all add: h' header2_ok_def nodeid_ok_def)
  have u: "ucast (ucast n :: u32) = n"
    by (rule word_eq_unatI) (simp add: unat_ucast_up unat_ucast_small unat_u16_lt)
  have e: "enc_header2 h' = rrac_magic @ u32_bytes 0 @ u16_bytes 2 @ u16_bytes n @
     nodeid_data (mh_sender_nodeid h) @ nodeid_data (mh_receiver_nodeid h) @
     u32_bytes (mh_sender_endpoint h) @ u32_bytes (mh_receiver_endpoint h) @
     enc_str2 (mh_sender_nodename h) @ enc_str2 (mh_receiver_nodename h) @ enc_str2 (mh_metadata h) @
     u16_bytes (ucast (mh_entry_count h)) @ u16_bytes (mh_message_id h) @ u16_bytes (mh_message_res_id h) @ []"
    by (simp add: enc_header2_def enc2_before_count_def h' u)
  have b: "length (enc2_before_count h') =
      58 + length (mh_sender_nodename h) + length (mh_receiver_nodename h) + length (mh_metadata h)"
    unfolding length_enc2_before_count [OF ok] by (simp add: h')
  show ?thesis
    unfolding write2_fields_def e
    by (rule emits_conv, ((rule emits_intros l TrueI)+)[1])
       (rule message_buffer_info.equality; simp add: l b)
qed

lemma write_header2_unfold:
  assumes "header2_fits h"
  shows "message_writer_write_header2_ex bv p h info =
    (let n = word_of_nat (64 + length (mh_sender_nodename h) + length (mh_receiver_nodename h) +
                                    length (mh_metadata h)) :: u16 in
     end_write (\<lambda>h. h\<lparr>mh_header_size := ucast n\<rparr>) h
       (run_steps (write2_fields n h) \<lparr>w_buf = bv, w_off = p, w_info = info\<rparr>))" (is ?a)
   and "ucast (word_of_nat (64 + length (mh_sender_nodename h) + length (mh_receiver_nodename h) +
                                    length (mh_metadata h)) :: u16) = mh_header_size (sized2 h)" (is ?b)
proof -
  let ?l1 = "length (mh_sender_nodename h)" and ?l2 = "length (mh_receiver_nodename h)"
    and ?l3 = "length (mh_metadata h)"
  have b: "64 + ?l1 + ?l2 + ?l3 \<le> 65535" using assms by (simp add: header2_fits_def UINT16_MAX_def)
  then have s: "sz_add (sz_add (sz_add ?l1 ?l2) ?l3) 64 = 64 + ?l1 + ?l2 + ?l3" 
    by (simp add: sz_add_nowrap)
  show ?a unfolding message_writer_write_header2_ex_def Let_def s
    using b by (simp add: UINT16_MAX_def)
  show ?b by (rule word_eq_unatI) (use b in \<open>simp add: sized2_def unat_ucast_up unat_of_nat del: of_nat_add\<close>)
qed

lemma write_header2_at:
  assumes wf: "wf_vec 1 bv" and ok: "header2_fits h"
    and room: "p + length (enc_header2 (sized2 h)) \<le> length (flat bv)"
  shows "message_writer_write_header2_ex bv p h info =
    (OK, put_flat bv p (enc_header2 (sized2 h)), p + length (enc_header2 (sized2 h)),
     h\<lparr>mh_header_size := mh_header_size (sized2 h)\<rparr>,
     \<lparr>mi_start_buffer_offset = p, mi_header_size = length (enc_header2 (sized2 h)),
      mi_entry_count_offset = p + length (enc2_before_count (sized2 h)),
      mi_entry_start_offset = p + length (enc_header2 (sized2 h))\<rparr>)"
proof -
  let ?n = "word_of_nat (64 + length (mh_sender_nodename h) + length (mh_receiver_nodename h) +
                                    length (mh_metadata h)) :: u16"
  have e: "emits (run_steps (write2_fields ?n h)) (enc_header2 (sized2 h))
    (\<lambda>p i. \<lparr>mi_start_buffer_offset = p, mi_header_size = unat ?n,
            mi_entry_count_offset = p + length (enc2_before_count (sized2 h)),
            mi_entry_start_offset = p + length (enc_header2 (sized2 h))\<rparr>)"
    by (rule emits_fields2 [OF header2_ok_sized(1) [OF ok]])
      (simp only: write_header2_unfold(2) [OF ok], simp add: sized2_def)
  have n: "unat ?n = length (enc_header2 (sized2 h))"
    using header2_ok_sized(2) [OF ok] unat_ucast_up [of ?n, where 'b = 32]
    unfolding write_header2_unfold(2) [OF ok] by simp
  show ?thesis
    unfolding write_header2_unfold(1) [OF ok] Let_def emits_run [OF e wf room] n
    by (simp add: end_write_def write_header2_unfold(2) [OF ok] del: of_nat_add)
qed

text \<open>A header for which the buffer has no room gives an error, and nothing before it changes.\<close>

lemma write_header2_full:
  assumes wf: "wf_vec 1 bv" and ok: "header2_fits h"
    and room: "\<not> p + length (enc_header2 (sized2 h)) \<le> length (flat bv)"
  shows "\<exists>bv' p' info'. message_writer_write_header2_ex bv p h info = (Err OUT_OF_RANGE, bv', p', h, info') \<and>
           seg_shape bv' = seg_shape bv \<and> take p (flat bv') = take p (flat bv)"
proof -
  let ?n = "word_of_nat (64 + length (mh_sender_nodename h) + length (mh_receiver_nodename h) +
                         length (mh_metadata h)) :: u16"
  have e: "emits (run_steps (write2_fields ?n h)) (enc_header2 (sized2 h))
    (\<lambda>p i. \<lparr>mi_start_buffer_offset = p, mi_header_size = unat ?n,
            mi_entry_count_offset = p + length (enc2_before_count (sized2 h)),
            mi_entry_start_offset = p + length (enc_header2 (sized2 h))\<rparr>)"
    by (rule emits_fields2 [OF header2_ok_sized(1) [OF ok]])
      (simp only: write_header2_unfold(2) [OF ok], simp add: sized2_def)
  have ne: "enc_header2 (sized2 h) \<noteq> []"
    using length_enc_header2 [OF header2_ok_sized(1) [OF ok]] by auto
  obtain s where "run_steps (write2_fields ?n h) \<lparr>w_buf = bv, w_off = p, w_info = info\<rparr> = (Err OUT_OF_RANGE, s)"
      "seg_shape (w_buf s) = seg_shape bv" "take p (flat (w_buf s)) = take p (flat bv)"
    by (rule emits_run_full [OF e wf ne room])
  then show ?thesis
    unfolding write_header2_unfold(1) [OF ok] Let_def by (simp add: end_write_def del: of_nat_add)
qed


section \<open>What a version 4 writer writes\<close>

definition header4_has_routing :: "u8 \<Rightarrow> const_string message_header \<Rightarrow> bool" where
  "header4_has_routing m h \<longleftrightarrow> FLAGS_CHECK m MESSAGE_FLAGS_ROUTING_INFO \<and>
     (\<not> nodeid_isany (mh_sender_nodeid h) \<or> \<not> nodeid_isany (mh_receiver_nodeid h) \<or>
      mh_sender_nodename h \<noteq> [] \<or> mh_receiver_nodename h \<noteq> [])"

definition header4_has_endpoint :: "u8 \<Rightarrow> const_string message_header \<Rightarrow> bool" where
  "header4_has_endpoint m h \<longleftrightarrow> FLAGS_CHECK m MESSAGE_FLAGS_ENDPOINT_INFO \<and>
     (mh_sender_endpoint h \<noteq> 0 \<or> mh_receiver_endpoint h \<noteq> 0)"

definition header4_has_priority :: "u8 \<Rightarrow> const_string message_header \<Rightarrow> bool" where
  "header4_has_priority m h \<longleftrightarrow> FLAGS_CHECK m MESSAGE_FLAGS_PRIORITY \<and> mh_priority h \<noteq> 0"

definition header4_has_meta :: "u8 \<Rightarrow> const_string message_header \<Rightarrow> bool" where
  "header4_has_meta m h \<longleftrightarrow> FLAGS_CHECK m MESSAGE_FLAGS_META_INFO \<and>
     (mh_metadata h \<noteq> [] \<or> mh_message_id h \<noteq> 0 \<or> mh_message_res_id h \<noteq> 0)"

definition header4_has_entries :: "u8 \<Rightarrow> const_string message_header \<Rightarrow> bool" where
  "header4_has_entries m h \<longleftrightarrow> FLAGS_CHECK m MESSAGE_FLAGS_MULTIPLE_ENTRIES \<and> mh_entry_count h \<noteq> 1"

definition header4_flags :: "u8 \<Rightarrow> const_string message_header \<Rightarrow> u8" where
  "header4_flags m h =
     flag_if (header4_has_routing m h) MESSAGE_FLAGS_ROUTING_INFO OR
     flag_if (header4_has_endpoint m h) MESSAGE_FLAGS_ENDPOINT_INFO OR
     flag_if (header4_has_priority m h) MESSAGE_FLAGS_PRIORITY OR
     flag_if (header4_has_meta m h) MESSAGE_FLAGS_META_INFO OR
     flag_if (header4_has_entries m h) MESSAGE_FLAGS_MULTIPLE_ENTRIES"

lemma header4_flags_check:
  "FLAGS_CHECK (header4_flags m h) MESSAGE_FLAGS_ROUTING_INFO = header4_has_routing m h"
  "FLAGS_CHECK (header4_flags m h) MESSAGE_FLAGS_ENDPOINT_INFO = header4_has_endpoint m h"
  "FLAGS_CHECK (header4_flags m h) MESSAGE_FLAGS_PRIORITY = header4_has_priority m h"
  "FLAGS_CHECK (header4_flags m h) MESSAGE_FLAGS_META_INFO = header4_has_meta m h"
  "FLAGS_CHECK (header4_flags m h) MESSAGE_FLAGS_MULTIPLE_ENTRIES = header4_has_entries m h"
  "FLAGS_CHECK (header4_flags m h) MESSAGE_FLAGS_STRING_TABLE = False"
  "FLAGS_CHECK (header4_flags m h) MESSAGE_FLAGS_EXTENDED = False"
  by (cases "header4_has_routing m h"; cases "header4_has_endpoint m h"; cases "header4_has_priority m h";
      cases "header4_has_meta m h"; cases "header4_has_entries m h";
      simp add: header4_flags_def flag_if_def FLAGS_CHECK_def message_flags_defs)+

text \<open>The size of a header without its length prefix, and with it.\<close>

definition header4_body_len :: "u8 \<Rightarrow> const_string message_header \<Rightarrow> nat" where
  "header4_body_len m h = 11 + length (enc4_sections (header4_flags m h) h [] [])"

definition header4_fits :: "u8 \<Rightarrow> const_string message_header \<Rightarrow> bool" where
  "header4_fits m h \<longleftrightarrow> header4_ok h \<and> header4_body_len m h \<le> UINT32_MAX - 5"

lemma len_plus_uint_x:
  assumes "n \<le> UINT32_MAX - 5"
  obtains s where "message_len_plus_uint_x (word_of_nat n) = Inr (word_of_nat (n + s), s)"
    and "message_uint_x_size (word_of_nat (n + s)) = s" and "n + s \<le> UINT32_MAX" and "s \<le> 5"
proof -
  have n: "unat (word_of_nat n :: u32) = n"
    by (rule unat_word_of_nat_u32) (use assms in \<open>simp add: UINT32_MAX_def\<close>)
  define s where "s = (if n \<le> 251 then 1 else if n \<le> 65532 then 3 else 5 :: nat)"
  have le: "n + s \<le> UINT32_MAX" "s \<le> 5" using assms by (auto simp: s_def UINT32_MAX_def)
  have m: "unat (word_of_nat (n + s) :: u32) = n + s" by (rule unat_word_of_nat_u32) (rule le)
  show thesis
  proof (rule that [of s])
    show "message_len_plus_uint_x (word_of_nat n) = Inr (word_of_nat (n + s), s)"
      using assms by (auto simp: message_len_plus_uint_x_def n s_def UINT16_MAX_def UINT32_MAX_def)
    show "message_uint_x_size (word_of_nat (n + s)) = s"
      unfolding message_uint_x_size_def m by (auto simp: s_def UINT16_MAX_def)
  qed (use le in auto)
qed

lemma header_string_size4_ok: "str4_ok s \<Longrightarrow> header_string_size4 s = Inr (length (enc_str4 s))"
proof -
  assume s: "str4_ok s"
  have "message_uint_x_size w \<le> 5" for w by (simp add: message_uint_x_size_def)
  moreover have "length s \<le> 4294967295" using s by (simp add: str4_ok_def UINT32_MAX_def)
  ultimately have "message_uint_x_size (word_of_nat (length s)) + length s \<le> 5 + 4294967295" by (rule add_mono)
  then have "message_uint_x_size (word_of_nat (length s)) + length s < 2 ^ 64" by (rule le_less_trans) simp
  then show ?thesis
    using s by (simp add: header_string_size4_def str_not_long sz_add_nowrap)
qed

lemma word_or_and_absorb: "f OR ((m AND u) AND f) = (f :: u8)"
  by (rule bit_word_eqI) (auto simp: bit_simps)

lemma plan4_steps:
  assumes ok: "header4_ok h"
  shows "n + length (opt (header4_has_routing m h) (enc4_routing h)) < 2 ^ 64 \<Longrightarrow>
    plan4_routing m h (f, n) = Inr (f OR flag_if (header4_has_routing m h) MESSAGE_FLAGS_ROUTING_INFO,
      n + length (opt (header4_has_routing m h) (enc4_routing h)))"
  and "n + length (opt (header4_has_endpoint m h) (enc4_endpoint h)) < 2 ^ 64 \<Longrightarrow>
    plan4_endpoint m h (f, n) = Inr (f OR flag_if (header4_has_endpoint m h) MESSAGE_FLAGS_ENDPOINT_INFO,
      n + length (opt (header4_has_endpoint m h) (enc4_endpoint h)))"
  and "n + length (opt (header4_has_priority m h) (u16_bytes (mh_priority h))) < 2 ^ 64 \<Longrightarrow>
    plan4_priority m h (f, n) = Inr (f OR flag_if (header4_has_priority m h) MESSAGE_FLAGS_PRIORITY,
      n + length (opt (header4_has_priority m h) (u16_bytes (mh_priority h))))"
  and "n + length (opt (header4_has_meta m h) (enc4_meta h)) < 2 ^ 64 \<Longrightarrow>
    plan4_meta m h (f, n) = Inr (f OR flag_if (header4_has_meta m h) MESSAGE_FLAGS_META_INFO,
      n + length (opt (header4_has_meta m h) (enc4_meta h)))"
  and "n + length (opt (header4_has_entries m h) (enc_padded_uint_x (mh_entry_count h))) < 2 ^ 64 \<Longrightarrow>
    plan4_entries m h (f, n) = Inr (f OR flag_if (header4_has_entries m h) MESSAGE_FLAGS_MULTIPLE_ENTRIES,
      n + length (opt (header4_has_entries m h) (enc_padded_uint_x (mh_entry_count h))))"
  using ok
  by (auto simp: plan4_routing_def header4_has_routing_def plan4_endpoint_def header4_has_endpoint_def
    plan4_priority_def header4_has_priority_def plan4_meta_def header4_has_meta_def plan4_entries_def
    header4_has_entries_def header4_ok_def nodeid_ok_def header_string_size4_ok flag_if_def FLAGS_SET_def enc4_routing_def 
     enc4_endpoint_def enc4_meta_def sz_add_nowrap message_padded_uint_x_size_def)

definition header4_size :: "u8 \<Rightarrow> const_string message_header \<Rightarrow> nat" where
  "header4_size m h = header4_body_len m h +
    (case message_len_plus_uint_x (word_of_nat (header4_body_len m h)) of Inr (_, s) \<Rightarrow> s | Inl _ \<Rightarrow> 0)"

lemma header4_size:
  assumes "header4_fits m h"
  shows "header4_size m h = header4_body_len m h + message_uint_x_size (word_of_nat (header4_size m h))"
    and "header4_size m h \<le> UINT32_MAX"
    and "plan4_size (header4_flags m h, header4_body_len m h) = Inr (header4_flags m h, header4_size m h)"
proof -
  let ?n = "header4_body_len m h"
  have n: "?n \<le> UINT32_MAX - 5" using assms by (simp add: header4_fits_def)
  obtain s where s: "message_len_plus_uint_x (word_of_nat ?n) = Inr (word_of_nat (?n + s), s)"
    "message_uint_x_size (word_of_nat (?n + s)) = s" "?n + s \<le> UINT32_MAX" "s \<le> 5"
    using len_plus_uint_x [OF n] .
  have e: "header4_size m h = ?n + s" by (simp add: header4_size_def s(1))
  show "header4_size m h = ?n + message_uint_x_size (word_of_nat (header4_size m h))"
    unfolding e s(2) ..
  show "header4_size m h \<le> UINT32_MAX" using s e by simp
  have "sz_add ?n s = ?n + s" using s(3) by (intro sz_add_nowrap) (simp add: UINT32_MAX_def)
  then show "plan4_size (header4_flags m h, ?n) = Inr (header4_flags m h, header4_size m h)"
    using n s by (simp add: plan4_size_def e)
qed

lemma plan_header4_fits:
  assumes "header4_fits m h"
  shows "plan_header4 m h = Inr (header4_flags m h, header4_size m h)"
proof -
  have ok: "header4_ok h" and "header4_body_len m h \<le> UINT32_MAX" using assms by (auto simp: header4_fits_def)
  then have "header4_body_len m h < 2 ^ 64" by (simp add: UINT32_MAX_def)
  moreover have b: "header4_body_len m h = 11 + length (opt (header4_has_routing m h) (enc4_routing h)) +
     length (opt (header4_has_endpoint m h) (enc4_endpoint h)) +
     length (opt (header4_has_priority m h) (u16_bytes (mh_priority h))) +
     length (opt (header4_has_meta m h) (enc4_meta h)) +
     length (opt (header4_has_entries m h) (enc_padded_uint_x (mh_entry_count h)))"
    unfolding header4_body_len_def enc4_sections_def enc4_before_count_def header4_flags_check by simp
  ultimately show ?thesis
    unfolding plan_header4_def
    using header4_size(3) [OF assms]
    by (simp add: plan4_steps [OF ok] plan4_unreliable_def word_or_and_absorb header4_flags_def or.assoc)
qed

definition sized4 :: "u8 \<Rightarrow> const_string message_header \<Rightarrow> const_string message_header" where
  "sized4 m h = h\<lparr>mh_message_size := 0, mh_header_size := word_of_nat (header4_size m h)\<rparr>"

definition header4_bytes :: "u8 \<Rightarrow> const_string message_header \<Rightarrow> byte list" where
  "header4_bytes m h = enc_header4 (header4_flags m h) (sized4 m h) [] []"

lemma sections_sized4 [simp]:
  "enc4_sections fl (sized4 m h) tbl ext = enc4_sections fl h tbl ext"
  "enc4_before_count fl (sized4 m h) tbl = enc4_before_count fl h tbl"
  "header4_ok (sized4 m h) = header4_ok h"
  by (simp_all add: sized4_def enc4_sections_def enc4_before_count_def enc4_routing_def enc4_endpoint_def
      enc4_meta_def header4_ok_def)

lemma length_header4_bytes:
  assumes "header4_fits m h"
  shows "length (header4_bytes m h) = header4_size m h"
    and "unat (mh_header_size (sized4 m h)) = length (header4_bytes m h)"
proof -
  show l: "length (header4_bytes m h) = header4_size m h"
    using header4_size(1) [OF assms]
    by (simp add: header4_bytes_def enc_header4_def enc4_start_def sized4_def [of m h] header4_body_len_def
      del: length_opt) (simp add: sized4_def [symmetric])
  show "unat (mh_header_size (sized4 m h)) = length (header4_bytes m h)"
    using header4_size(2) [OF assms] by (simp add: l sized4_def unat_word_of_nat_u32)
qed

lemma emits_start4:
  assumes "header4_fits m h"
  shows "emits (run_steps (write4_start (header4_flags m h) (header4_size m h)))
    (enc4_start (header4_flags m h) (sized4 m h)) (\<lambda>p i. i\<lparr>mi_start_buffer_offset := p\<rparr>)"
proof -
  have n: "\<not> header4_size m h > UINT32_MAX" using header4_size(2) [OF assms] by simp
  have e: "enc4_start (header4_flags m h) (sized4 m h) = 
    rrac_magic @ u32_bytes 0 @ u16_bytes 4 @ enc_uint_x (word_of_nat (header4_size m h)) @ [header4_flags m h]"
    by (simp add: enc4_start_def sized4_def)
  show ?thesis unfolding write4_start_def e
    by (rule emits_conv, ((rule emits_intros n TrueI)+)[1]) simp
qed

lemma emits_sections4:
  assumes ok: "header4_ok h" and fl: "\<not> FLAGS_CHECK fl MESSAGE_FLAGS_STRING_TABLE" "\<not> FLAGS_CHECK fl MESSAGE_FLAGS_EXTENDED"
  shows "emits (run_steps (write4_sections fl h)) (enc4_sections fl h [] [])
    (\<lambda>p i. i\<lparr>mi_entry_count_offset := (if FLAGS_CHECK fl MESSAGE_FLAGS_MULTIPLE_ENTRIES 
       then p + length (enc4_before_count fl h []) + 1 else SIZE_T_MAX)\<rparr>)"
proof -
  have l: "length (nodeid_data (mh_sender_nodeid h)) = 16" "length (nodeid_data (mh_receiver_nodeid h)) = 16"
     "str4_ok (mh_sender_nodename h)" "str4_ok (mh_receiver_nodename h)" "str4_ok (mh_metadata h)"
    using ok by (simp_all add: header4_ok_def nodeid_ok_def)
  have e: "enc4_sections fl h [] [] = opt (FLAGS_CHECK fl MESSAGE_FLAGS_ROUTING_INFO) (enc4_routing h) @
     opt (FLAGS_CHECK fl MESSAGE_FLAGS_ENDPOINT_INFO) (enc4_endpoint h) @
     opt (FLAGS_CHECK fl MESSAGE_FLAGS_PRIORITY) (u16_bytes (mh_priority h)) @
     opt (FLAGS_CHECK fl MESSAGE_FLAGS_META_INFO) (enc4_meta h) @
     opt (FLAGS_CHECK fl MESSAGE_FLAGS_MULTIPLE_ENTRIES) (enc_padded_uint_x (mh_entry_count h))"
    using fl by (simp add: enc4_sections_def enc4_before_count_def)
  show ?thesis unfolding write4_sections_def e enc4_routing_def enc4_endpoint_def enc4_meta_def
    apply (rule emits_conv, ((rule emits_intros l TrueI)+)[1]) 
    using fl l by (simp add: enc4_before_count_def enc4_routing_def enc4_endpoint_def enc4_meta_def add.assoc del: length_opt)
qed

lemma write_header4_at:
  assumes wf: "wf_vec 1 bv" and ok: "header4_fits m h"
    and room: "p + length (header4_bytes m h) \<le> length (flat bv)"
  shows "message_writer_write_header4_ex bv p h m info =
    (OK, put_flat bv p (header4_bytes m h), p + length (header4_bytes m h),
     h\<lparr>mh_header_size := mh_header_size (sized4 m h)\<rparr>,
     \<lparr>mi_start_buffer_offset = p, mi_header_size = length (header4_bytes m h),
      mi_entry_count_offset =
        (if header4_has_entries m h then header4_count_offset (header4_flags m h) (sized4 m h) [] p + 1
         else SIZE_T_MAX),
      mi_entry_start_offset = p + length (header4_bytes m h)\<rparr>)"
proof -
  have h4: "header4_ok h" using ok by (simp add: header4_fits_def)
  have fl: "\<not> FLAGS_CHECK (header4_flags m h) MESSAGE_FLAGS_STRING_TABLE"
    "\<not> FLAGS_CHECK (header4_flags m h) MESSAGE_FLAGS_EXTENDED" by (simp_all add: header4_flags_check)
  note e = emits_append [OF emits_start4 [OF ok] emits_sections4 [OF h4 fl]]
  have b: "header4_bytes m h = enc4_start (header4_flags m h) (sized4 m h) @ enc4_sections (header4_flags m h) h [] []"
    by (simp add: header4_bytes_def enc_header4_def)
  have "p + length (header4_bytes m h) < 2 ^ 64" using wf_small [OF wf room] .
  then have s: "sz_sub (p + length (header4_bytes m h)) p = header4_size m h"
    by (simp add: sz_sub_nowrap length_header4_bytes [OF ok])
  have room': "p + length (enc4_start (header4_flags m h) (sized4 m h) @
      enc4_sections (header4_flags m h) h [] []) \<le> length (flat bv)"
    using room unfolding b .
  show ?thesis
    unfolding message_writer_write_header4_ex_def plan_header4_fits [OF ok] append_assoc [symmetric]
      sum.case prod.case run_steps_appendI [OF emits_run [OF e wf room']] b [symmetric]
    using s header4_size(2) [OF ok]
    by (simp add: header4_flags_check write4_end_def return_if_def note_info_def assign_def end_write_def
        header4_count_offset_def length_header4_bytes [OF ok]) (simp add: sized4_def)
qed

lemma write_header4_full:
  assumes wf: "wf_vec 1 bv" and ok: "header4_fits m h"
    and room: "\<not> p + length (header4_bytes m h) \<le> length (flat bv)"
  shows "\<exists>bv' p' info'. message_writer_write_header4_ex bv p h m info = (Err OUT_OF_RANGE, bv', p', h, info') \<and>
           seg_shape bv' = seg_shape bv \<and> take p (flat bv') = take p (flat bv)"
proof -
  have h4: "header4_ok h" using ok by (simp add: header4_fits_def)
  have fl: "\<not> FLAGS_CHECK (header4_flags m h) MESSAGE_FLAGS_STRING_TABLE"
    "\<not> FLAGS_CHECK (header4_flags m h) MESSAGE_FLAGS_EXTENDED" by (simp_all add: header4_flags_check)
  note e = emits_append [OF emits_start4 [OF ok] emits_sections4 [OF h4 fl]]
  have b: "header4_bytes m h = enc4_start (header4_flags m h) (sized4 m h) @ enc4_sections (header4_flags m h) h [] []"
    by (simp add: header4_bytes_def enc_header4_def)
  have ne: "enc4_start (header4_flags m h) (sized4 m h) @ enc4_sections (header4_flags m h) h [] [] \<noteq> []"
    by (simp add: enc4_start_def)
  have room': "\<not> p + length (enc4_start (header4_flags m h) (sized4 m h) @
      enc4_sections (header4_flags m h) h [] []) \<le> length (flat bv)"
    using room unfolding b .
  obtain s where "run_steps (write4_start (header4_flags m h) (header4_size m h) @ 
        write4_sections (header4_flags m h) h) \<lparr>w_buf = bv, w_off = p, w_info = info\<rparr> = (Err OUT_OF_RANGE, s)"
      and s: "seg_shape (w_buf s) = seg_shape bv" "take p (flat (w_buf s)) = take p (flat bv)"
    by (rule emits_run_full [OF e wf ne room'])
  note r = run_steps_append_err [OF this(1), of "write4_end (header4_size m h)"]
  have "message_writer_write_header4_ex bv p h m info = (Err OUT_OF_RANGE, w_buf s, w_off s, h, w_info s)"
    unfolding message_writer_write_header4_ex_def plan_header4_fits [OF ok] append_assoc [symmetric]
      sum.case prod.case r by (simp add: end_write_def)
  then show ?thesis using s by blast
qed

text \<open>The reader reads back what the writer wrote.\<close>

lemma header4_write_read:
  assumes wf: "wf_vec 1 bv" and ok: "header4_fits m h" and room: "header_room hdr h"
    and w: "message_writer_write_header4_ex bv p h m info = (OK, bv', p', h', info')"
    and r: "mr_buffer_offset r = p"
  shows "message_reader_read_header4_ex bv' r hdr rinfo =
    (OK, seen_header4 (header4_flags m h) (sized4 m h) hdr,
      \<lparr>mi_start_buffer_offset = p, mi_header_size = p' - p,
       mi_entry_count_offset = header4_count_offset (header4_flags m h) (sized4 m h) [] p,
       mi_entry_start_offset = p'\<rparr>)"
proof -
  have fit: "p + length (header4_bytes m h) \<le> length (flat bv)"
    using write_header4_full [OF wf ok, of p info] w by (metis status.distinct(1) prod.inject)
  have b: "bv' = put_flat bv p (header4_bytes m h)" "p' = p + length (header4_bytes m h)"
    using write_header4_at [OF wf ok fit, of info] w by auto
  have a: "at bv' (mr_buffer_offset r) (enc_header4 (header4_flags m h) (sized4 m h) [] [])"
    and wf': "wf_vec 1 bv'"
    using wf at_put_flat [OF fit] fit by (simp_all add: b r header4_bytes_def)
  have "header_room hdr (sized4 m h)" using room by (simp add: header_room_def sized4_def)
  then show ?thesis
    using read_header4_at [OF wf' _ _ _ length_header4_bytes(2) [OF ok, unfolded header4_bytes_def] a]
      ok b r
    by (simp add: header4_fits_def str4_ok_def header4_bytes_def)
qed

lemma header2_write_read:
  assumes wf: "wf_vec 1 bv" and ok: "header2_fits h" and room: "header_room hdr h"
    and w: "message_writer_write_header2_ex bv p h info = (OK, bv', p', h', info')"
    and r: "mr_buffer_offset r = p"
  shows "message_reader_read_header2_ex bv' r hdr rinfo =
    (OK, seen_header2 (sized2 h) hdr,
      \<lparr>mi_start_buffer_offset = p, mi_header_size = p' - p,
       mi_entry_count_offset = p + length (enc2_before_count (sized2 h)),
       mi_entry_start_offset = p'\<rparr>)"
proof -
  have fit: "p + length (enc_header2 (sized2 h)) \<le> length (flat bv)"
    using write_header2_full [OF wf ok, of p info] w by (metis status.distinct(1) prod.inject)
  have b: "bv' = put_flat bv p (enc_header2 (sized2 h))" "p' = p + length (enc_header2 (sized2 h))"
    using write_header2_at [OF wf ok fit, of info] w by auto
  have a: "at bv' (mr_buffer_offset r) (enc_header2 (sized2 h))" and wf': "wf_vec 1 bv'"
    using wf at_put_flat [OF fit] fit by (simp_all add: b r)
  have "header_room hdr (sized2 h)" using room by (simp add: header_room_def sized2_def)
  then show ?thesis
    using read_header2_at [OF wf' header2_ok_sized [OF ok] a] b r by simp
qed

end
