(* ===== verification/RRL_HeaderSpec.thy ===== *)
theory RRL_HeaderSpec
  imports RRL_HeaderWrite
begin

text \<open>
  The properties of the message headers: the round trip of both versions through the reader that
  chooses between them, the exact outcome of the version 4 writer, and the safety of the reader on
  arbitrary bytes.
\<close>


section \<open>What a reader's caller gets\<close>

text \<open>
  A caller that gave room for a string got its characters, one that gave \<open>NULL\<close> their number.
\<close>

definition string_got :: "rstring \<Rightarrow> rstring \<Rightarrow> const_string \<Rightarrow> bool" where
  "string_got given got s \<longleftrightarrow> str_len got = length s \<and> (str_data given \<noteq> None \<longrightarrow> string_value got = s)"

lemma string_got_fill [simp]: "string_got str (fill_string str s) s"
  by (auto simp: string_got_def fill_string_def string_value_def string_memory_def overwrite_def)

lemma string_got_null [simp]: "string_got str null_string []"
  by (simp add: string_got_def null_string_def string_value_def string_memory_def)

definition header_got :: "rstring message_header \<Rightarrow> rstring message_header \<Rightarrow> const_string message_header \<Rightarrow> bool" where
  "header_got given got h \<longleftrightarrow>
     mh_sender_nodeid got = mh_sender_nodeid h \<and> mh_receiver_nodeid got = mh_receiver_nodeid h \<and>
     mh_sender_endpoint got = mh_sender_endpoint h \<and> mh_receiver_endpoint got = mh_receiver_endpoint h \<and>
     mh_entry_count got = mh_entry_count h \<and> mh_message_id got = mh_message_id h \<and>
     mh_message_res_id got = mh_message_res_id h \<and>
     string_got (mh_sender_nodename given) (mh_sender_nodename got) (mh_sender_nodename h) \<and>
     string_got (mh_receiver_nodename given) (mh_receiver_nodename got) (mh_receiver_nodename h) \<and>
     string_got (mh_metadata given) (mh_metadata got) (mh_metadata h)"

lemma FLAGS_CHECK_all [simp]:
  "FLAGS_CHECK 255 MESSAGE_FLAGS_ROUTING_INFO" "FLAGS_CHECK 255 MESSAGE_FLAGS_ENDPOINT_INFO"
  "FLAGS_CHECK 255 MESSAGE_FLAGS_PRIORITY" "FLAGS_CHECK 255 MESSAGE_FLAGS_META_INFO"
  "FLAGS_CHECK 255 MESSAGE_FLAGS_MULTIPLE_ENTRIES"
  by (simp_all add: FLAGS_CHECK_def message_flags_defs)

lemma nodeid_isany_eq: "nodeid_isany a \<longleftrightarrow> a = nodeid_any"
  by (cases a) (simp add: nodeid_isany_def nodeid_any_def)

lemma seen_header4_all:
  "header_got hdr (seen_header4 (header4_flags 255 h) (sized4 255 h) hdr) h"
  "mh_priority (seen_header4 (header4_flags 255 h) (sized4 255 h) hdr) = mh_priority h"
  by (auto simp: header_got_def seen_header4_def Let_def header4_flags_check header4_has_routing_def
      header4_has_endpoint_def header4_has_priority_def header4_has_meta_def header4_has_entries_def
      sized4_def nodeid_isany_eq)

lemma version_at4: "wf_vec 1 bv \<Longrightarrow> at bv p (enc_header4 fl h tbl ext) \<Longrightarrow>
   message_read_uint16 bv (sz_add p 8) = Inr (4, p + 10)"
proof -
  assume wf: "wf_vec 1 bv" and a: "at bv p (enc_header4 fl h tbl ext)"
  then have b: "at bv p (rrac_magic @ u32_bytes (mh_message_size h))" "at bv (p + 8) (u16_bytes 4)"
    by (simp_all add: enc_header4_def enc4_start_def at_append ac_simps)
  show ?thesis using uint16.rd_at [OF wf TrueI b(2)] at_wf_add [OF wf b(1)] by simp
qed

lemma version_at2: "wf_vec 1 bv \<Longrightarrow> at bv p (enc_header2 h) \<Longrightarrow>
   message_read_uint16 bv (sz_add p 8) = Inr (2, p + 10)"
proof -
  assume wf: "wf_vec 1 bv" and a: "at bv p (enc_header2 h)"
  then have b: "at bv p (rrac_magic @ u32_bytes (mh_message_size h))" "at bv (p + 8) (u16_bytes 2)"
    by (simp_all add: enc_header2_def enc2_before_count_def at_append ac_simps)
  show ?thesis using uint16.rd_at [OF wf TrueI b(2)] at_wf_add [OF wf b(1)] by simp
qed



section \<open>Safety on arbitrary bytes\<close>

definition read_errors :: "error set" where
  "read_errors = {OUT_OF_RANGE, PROTOCOL, INVALID_ARGUMENT}"

definition header_strings_ok :: "rstring message_header \<Rightarrow> bool" where
  "header_strings_ok h \<longleftrightarrow> string_ok (mh_sender_nodename h) \<and> string_ok (mh_receiver_nodename h) \<and>
     string_ok (mh_metadata h)"

definition places_ok :: "('h, 'i) rframe \<Rightarrow> bool" where
  "places_ok s \<longleftrightarrow> si_len (f_str1 s) < 2 ^ 32 \<and> si_len (f_str2 s) < 2 ^ 32 \<and> si_len (f_str3 s) < 2 ^ 32"

definition frame_ok :: "message_rframe \<Rightarrow> bool" where
  "frame_ok s \<longleftrightarrow> header_strings_ok (f_hdr s) \<and> places_ok s"

lemma frame_ok_upd [simp]:
  "frame_ok (s\<lparr>f_off := p\<rparr>) = frame_ok s" "frame_ok (set_info g s) = frame_ok s"
  "frame_ok (s\<lparr>f_flags := fl\<rparr>) = frame_ok s"
  by (simp_all add: frame_ok_def places_ok_def)

lemma frame_ok_start: "header_strings_ok h \<Longrightarrow> frame_ok (start_frame p h i)"
  by (simp add: frame_ok_def places_ok_def start_frame_def no_string_info_def)

lemma safe_strings:
  assumes wf: "wf_vec 1 bv"
  shows "safe frame_ok read_errors (run_steps [get_sender_nodename bv, get_receiver_nodename bv])
     (\<lambda>s. string_ok (mh_metadata (f_hdr s)) \<and> places_ok s)"
    "safe (\<lambda>s. string_ok (mh_metadata (f_hdr s)) \<and> places_ok s) read_errors (get_message_metadata bv) (\<lambda>_. True)"
proof -
  have 1: "safe frame_ok read_errors (get_sender_nodename bv) 
    (\<lambda>s. string_ok (mh_receiver_nodename (f_hdr s)) \<and> string_ok (mh_metadata (f_hdr s)) \<and> places_ok s)"
    unfolding get_sender_nodename_def
    by (rule safe_get_string [OF wf]) (auto simp: read_errors_def frame_ok_def header_strings_ok_def places_ok_def)
  have 2: "safe (\<lambda>s. string_ok (mh_receiver_nodename (f_hdr s)) \<and> string_ok (mh_metadata (f_hdr s)) \<and> places_ok s) read_errors (get_receiver_nodename bv) 
    (\<lambda>s. string_ok (mh_metadata (f_hdr s)) \<and> places_ok s)"
    unfolding get_receiver_nodename_def
    by (rule safe_get_string [OF wf]) (auto simp: read_errors_def frame_ok_def header_strings_ok_def places_ok_def)
  show "safe frame_ok read_errors (run_steps [get_sender_nodename bv, get_receiver_nodename bv])
     (\<lambda>s. string_ok (mh_metadata (f_hdr s)) \<and> places_ok s)"
    by (rule safe_Cons [OF 1 safe_Cons [OF 2 safe_Nil]])
  show "safe (\<lambda>s. string_ok (mh_metadata (f_hdr s)) \<and> places_ok s) read_errors (get_message_metadata bv) (\<lambda>_. True)"
    unfolding get_message_metadata_def
    by (rule safe_get_string [OF wf]) (auto simp: read_errors_def frame_ok_def header_strings_ok_def places_ok_def)
qed


lemma frame_ok_hdr [simp]:
  "frame_ok (set_hdr (\<lambda>h. h\<lparr>mh_message_size := v\<rparr>) s) = frame_ok s"
  "frame_ok (set_hdr (\<lambda>h. h\<lparr>mh_message_version := v16\<rparr>) s) = frame_ok s"
  "frame_ok (set_hdr (\<lambda>h. h\<lparr>mh_header_size := v\<rparr>) s) = frame_ok s"
  "frame_ok (set_hdr (\<lambda>h. h\<lparr>mh_sender_nodeid := n1\<rparr>) s) = frame_ok s"
  "frame_ok (set_hdr (\<lambda>h. h\<lparr>mh_receiver_nodeid := n2\<rparr>) s) = frame_ok s"
  "frame_ok (set_hdr (\<lambda>h. h\<lparr>mh_sender_nodeid := n1, mh_receiver_nodeid := n2\<rparr>) s) = frame_ok s"
  "frame_ok (set_hdr (\<lambda>h. h\<lparr>mh_sender_endpoint := v\<rparr>) s) = frame_ok s"
  "frame_ok (set_hdr (\<lambda>h. h\<lparr>mh_receiver_endpoint := v\<rparr>) s) = frame_ok s"
  "frame_ok (set_hdr (\<lambda>h. h\<lparr>mh_sender_endpoint := v, mh_receiver_endpoint := v'\<rparr>) s) = frame_ok s"
  "frame_ok (set_hdr (\<lambda>h. h\<lparr>mh_priority := v16\<rparr>) s) = frame_ok s"
  "frame_ok (set_hdr (\<lambda>h. h\<lparr>mh_message_id := v16\<rparr>) s) = frame_ok s"
  "frame_ok (set_hdr (\<lambda>h. h\<lparr>mh_message_res_id := v16\<rparr>) s) = frame_ok s"
  "frame_ok (set_hdr (\<lambda>h. h\<lparr>mh_message_id := v16, mh_message_res_id := v16'\<rparr>) s) = frame_ok s"
  "frame_ok (set_hdr (\<lambda>h. h\<lparr>mh_entry_count := v\<rparr>) s) = frame_ok s"
  by (simp_all add: frame_ok_def places_ok_def header_strings_ok_def)

lemma frame_ok_str [simp]:
  "frame_ok s \<Longrightarrow> si_len x < 2 ^ 32 \<Longrightarrow> frame_ok (s\<lparr>f_str1 := x\<rparr>)"
  "frame_ok s \<Longrightarrow> si_len x < 2 ^ 32 \<Longrightarrow> frame_ok (s\<lparr>f_str2 := x\<rparr>)"
  "frame_ok s \<Longrightarrow> si_len x < 2 ^ 32 \<Longrightarrow> frame_ok (s\<lparr>f_str3 := x\<rparr>)"
  by (simp_all add: frame_ok_def places_ok_def del: power_numeral)

lemma read_errors_simps [simp]:
  "OUT_OF_RANGE \<in> read_errors" "PROTOCOL \<in> read_errors" "INVALID_ARGUMENT \<in> read_errors"
  by (simp_all add: read_errors_def)

lemma safe_fields4:
  assumes wf: "wf_vec 1 bv"
  shows "safe frame_ok read_errors (run_steps (read4_start bv @ [read4_routing bv, read4_endpoint bv,
      read4_priority bv, read4_meta bv, read4_string_table bv, read4_entry_count bv, read4_extended bv] @
     [return_if (\<lambda>s. sz_sub (f_off s) p \<noteq> unat (mh_header_size (f_hdr s))) PROTOCOL])) frame_ok"
    unfolding read4_start_def read4_routing_def read4_endpoint_def read4_priority_def read4_meta_def
      read4_string_table_def read4_entry_count_def read4_extended_def append.simps rd_pad_def
    by (rule safe_intros field_safe [OF wf] safe_rd_skip [OF wf] | (simp add: prefix_len del: power_numeral; fail))+

lemma safe_header4:
  assumes wf: "wf_vec 1 bv"
  shows "safe frame_ok read_errors (run_steps (read_header4_steps bv p)) (\<lambda>_. True)"
proof -
  have r: "safe frame_ok read_errors (if_steps c [get_sender_nodename bv, get_receiver_nodename bv]
        [assign (set_hdr (\<lambda>h. h\<lparr>mh_sender_nodename := null_string, mh_receiver_nodename := null_string\<rparr>))])
      (\<lambda>s. string_ok (mh_metadata (f_hdr s)) \<and> places_ok s)" for c
    by (rule safe_if [OF safe_strings(1) [OF wf] safe_Cons [OF safe_assign safe_Nil]])
       (simp add: frame_ok_def header_strings_ok_def places_ok_def)
  have m: "safe (\<lambda>s. string_ok (mh_metadata (f_hdr s)) \<and> places_ok s) read_errors
      (if_steps c [get_message_metadata bv] [assign (set_hdr (\<lambda>h. h\<lparr>mh_metadata := null_string\<rparr>))])
      (\<lambda>_. True)" for c
    by (rule safe_if [OF safe_Cons [OF safe_strings(2) [OF wf] safe_Nil] safe_Cons [OF safe_assign safe_Nil]]) simp
  have t: "safe (\<lambda>_. True) read_errors (run_steps
      [assign (\<lambda>s. set_hdr (\<lambda>h. h\<lparr>mh_message_flags := f_flags s\<rparr>) s),
       assign (set_info (\<lambda>p i. i\<lparr>mi_entry_start_offset := p\<rparr>))]) (\<lambda>_. True)"
    by (rule safe_intros TrueI)+
  show ?thesis
    using safe_append [OF safe_fields4 [OF wf] safe_append [OF safe_Cons [OF r safe_Cons [OF m safe_Nil]] t]]
    unfolding read_header4_steps_def read4_strings_def append_assoc by blast
qed

lemma safe_header2:
  assumes wf: "wf_vec 1 bv"
  shows "safe frame_ok read_errors (run_steps (read_header2_steps bv p)) (\<lambda>_. True)"
proof -
  have f: "safe frame_ok read_errors (run_steps (read2_fields bv @
      [return_if (\<lambda>s. sz_sub (f_off s) p \<noteq> unat (mh_header_size (f_hdr s))) PROTOCOL])) frame_ok"
    unfolding read2_fields_def append.simps rd_pad_def
    by (rule safe_intros field_safe [OF wf] | (simp add: prefix_len del: power_numeral; fail))+
  have t: "safe (\<lambda>_. True) read_errors (run_steps
      [assign (set_hdr (\<lambda>h. h\<lparr>mh_message_flags := MESSAGE_FLAGS_VERSION2COMPAT, mh_priority := 0\<rparr>)),
       assign (set_info (\<lambda>p i. i\<lparr>mi_entry_start_offset := p\<rparr>))]) (\<lambda>_. True)"
    by (rule safe_intros TrueI)+
  show ?thesis
    using safe_append [OF f safe_append [OF safe_strings(1) [OF wf] safe_Cons [OF safe_strings(2) [OF wf] t]]]
    unfolding read_header2_steps_def by simp
qed

lemma safe_end_read:
  assumes "safe I E a J" and "I s" and "end_read i (a s) = (st, h, i')"
  shows "st = OK \<or> (\<exists>e \<in> E. st = Err e)"
  using assms safe_err [OF assms(1,2)]
  by (auto simp: end_read_def split: prod.splits status.splits)



section \<open>Properties\<close>

definition sample_header :: "const_string message_header" where
  "sample_header =
     \<lparr>mh_message_size = 0, mh_message_version = 4, mh_header_size = 0, mh_message_flags = 0,
      mh_sender_nodeid = \<lparr>nodeid_data = [1, 2, 3, 4, 5, 6, 7, 8, 9, 10, 11, 12, 13, 14, 15, 16]\<rparr>,
      mh_receiver_nodeid = nodeid_any, mh_sender_endpoint = 300, mh_receiver_endpoint = 7,
      mh_priority = 5, mh_sender_nodename = [97, 98], mh_receiver_nodename = [], mh_metadata = [99],
      mh_entry_count = 2, mh_message_id = 9, mh_message_res_id = 10\<rparr>"

definition empty_header :: "rstring message_header" where
  "empty_header =
     \<lparr>mh_message_size = 0, mh_message_version = 0, mh_header_size = 0, mh_message_flags = 0,
      mh_sender_nodeid = nodeid_any, mh_receiver_nodeid = nodeid_any, mh_sender_endpoint = 0,
      mh_receiver_endpoint = 0, mh_priority = 0,
      mh_sender_nodename = \<lparr>str_data = Some (replicate 8 0), str_len = 8\<rparr>,
      mh_receiver_nodename = null_string, mh_metadata = null_string,
      mh_entry_count = 0, mh_message_id = 0, mh_message_res_id = 0\<rparr>"

definition no_message_info :: message_buffer_info where
  "no_message_info = \<lparr>mi_start_buffer_offset = 0, mi_header_size = 0, mi_entry_count_offset = 0,
     mi_entry_start_offset = 0\<rparr>"

definition reader_at :: "size_t \<Rightarrow> message_reader" where
  "reader_at p = \<lparr>mr_buffer_offset = p, mr_buffer_count = 0, mr_message_version = 0\<rparr>"

lemma sample_header_ok:
  "header2_fits sample_header" "header4_fits 255 sample_header" "header_room empty_header sample_header"
  "header_strings_ok empty_header"
  by (simp_all add: header2_fits_def header4_fits_def header4_ok_def header4_body_len_def nodeid_ok_def
      sample_header_def nodeid_any_def UINT16_MAX_def UINT32_MAX_def str4_ok_def enc4_sections_def
      enc4_before_count_def header4_flags_check enc4_routing_def enc4_endpoint_def enc4_meta_def length_opt
      message_uint_x_size_def header_room_def empty_header_def string_ok_def string_room_def
      string_memory_def null_string_def header_strings_ok_def)

lemma sample_header_sizes:
  "length (header4_bytes 255 sample_header) = 65" "length (enc_header2 (sized2 sample_header)) = 67"
  by (simp_all add: header4_bytes_def enc_header4_def enc4_start_def enc4_sections_def
      enc4_before_count_def header4_flags_check header4_has_routing_def header4_has_endpoint_def
      header4_has_priority_def header4_has_meta_def header4_has_entries_def enc4_routing_def
      enc4_endpoint_def enc4_meta_def message_uint_x_size_def header4_size_def header4_body_len_def
      sized4_def sample_header_def nodeid_isany_def nodeid_any_def UINT16_MAX_def
      message_len_plus_uint_x_def enc_header2_def enc2_before_count_def sized2_def)

text \<open>
  C39. A version 4 message header written with every section allowed is read back, at the same
  offset and by the reader that finds the version itself, with the same node identifiers, endpoints,
  priority, names, metadata, entry count and message identifiers; the reader ends where the writer
  ended, which is the size the header states.
\<close>

theorem message_header4_roundtrip:
  assumes "wf_vec 1 bv" and "header4_fits 255 h" and "header_room hdr h"
    and "message_writer_write_header4_ex bv p h 255 info = (OK, bv', p', h', info')"
    and "mr_buffer_offset r = p"
  shows "\<exists>hdr' rinfo'. message_reader_read_header_ex bv' r hdr rinfo = (OK, hdr', rinfo') \<and>
           header_got hdr hdr' h \<and> mh_priority hdr' = mh_priority h \<and>
           mh_header_size hdr' = mh_header_size h' \<and> unat (mh_header_size hdr') = p' - p \<and>
           mi_entry_start_offset rinfo' = p'"
proof -
  have fit: "p + length (header4_bytes 255 h) \<le> length (flat bv)"
    using write_header4_full [OF assms(1,2), of p info] assms(4) by (metis status.distinct(1) prod.inject)
  have w: "bv' = put_flat bv p (header4_bytes 255 h)" "p' = p + length (header4_bytes 255 h)"
     "h' = h\<lparr>mh_header_size := mh_header_size (sized4 255 h)\<rparr>"
    using write_header4_at [OF assms(1,2) fit, of info] assms(4) by auto
  have a: "at bv' p (enc_header4 (header4_flags 255 h) (sized4 255 h) [] [])" "wf_vec 1 bv'"
    using at_put_flat [OF fit] fit assms(1) by (simp_all add: w header4_bytes_def)
  have room: "header_room (hdr\<lparr>mh_message_version := 4\<rparr>) h" using assms(3) by (simp add: header_room_def)
  note v = version_at4 [OF a(2,1)]
  have g: "header_got hdr (seen_header4 f s (hdr\<lparr>mh_message_version := 4\<rparr>)) h = 
       header_got hdr (seen_header4 f s hdr) h" for f s
    by (simp add: header_got_def seen_header4_def Let_def)
  show ?thesis
    unfolding message_reader_read_header_ex_def assms(5) v 
    using header4_write_read [OF assms(1,2) room assms(4,5), of rinfo] seen_header4_all [where hdr = hdr and h = h]
       length_header4_bytes(2) [OF assms(2)]
    by (simp add: g w(3)) (simp add: seen_header4_def Let_def w(2))
qed

lemma message_header4_roundtrip_witness:
  "\<exists>bv' p' h' info' hdr' rinfo'.
     message_writer_write_header4_ex (blank_vec2 30 50) 3 sample_header 255 no_message_info = (OK, bv', p', h', info') \<and>
     message_reader_read_header_ex bv' (reader_at 3) empty_header no_message_info = (OK, hdr', rinfo') \<and>
     header_got empty_header hdr' sample_header"
proof -
  have wf: "wf_vec 1 (blank_vec2 30 50)" by (rule wf_blank2) simp
  have r: "mr_buffer_offset (reader_at 3) = 3" by (simp add: reader_at_def)
  have "3 + length (header4_bytes 255 sample_header) \<le> length (flat (blank_vec2 30 50))"
    by (simp add: sample_header_sizes)
  note w = write_header4_at [OF wf sample_header_ok(2) this, of no_message_info]
  show ?thesis
    using message_header4_roundtrip [OF wf sample_header_ok(2,3) w r, of no_message_info] w by blast
qed

text \<open>
  The same for version 2, whose header carries every field but the priority.
\<close>

theorem message_header2_roundtrip:
  assumes "wf_vec 1 bv" and "header2_fits h" and "header_room hdr h"
    and "message_writer_write_header2_ex bv p h info = (OK, bv', p', h', info')"
    and "mr_buffer_offset r = p"
  shows "\<exists>hdr' rinfo'. message_reader_read_header_ex bv' r hdr rinfo = (OK, hdr', rinfo') \<and>
           header_got hdr hdr' h \<and>
           mh_header_size hdr' = mh_header_size h' \<and> unat (mh_header_size hdr') = p' - p \<and>
           mi_entry_start_offset rinfo' = p'"
proof -
  have fit: "p + length (enc_header2 (sized2 h)) \<le> length (flat bv)"
    using write_header2_full [OF assms(1,2), of p info] assms(4) by (metis status.distinct(1) prod.inject)
  have w: "bv' = put_flat bv p (enc_header2 (sized2 h))" "p' = p + length (enc_header2 (sized2 h))"
     "h' = h\<lparr>mh_header_size := mh_header_size (sized2 h)\<rparr>"
    using write_header2_at [OF assms(1,2) fit, of info] assms(4) by auto
  have a: "at bv' p (enc_header2 (sized2 h))" "wf_vec 1 bv'"
    using at_put_flat [OF fit] fit assms(1) by (simp_all add: w)
  have room: "header_room (hdr\<lparr>mh_message_version := 2\<rparr>) h" using assms(3) by (simp add: header_room_def)
  note v = version_at2 [OF a(2,1)]
  show ?thesis
    unfolding message_reader_read_header_ex_def assms(5) v 
    using header2_write_read [OF assms(1,2) room assms(4,5), of rinfo]
       header2_ok_sized(2) [OF assms(2)]
    by (simp add: w(3)) (simp add: seen_header2_def sized2_def w(2) header_got_def)
qed

lemma message_header2_roundtrip_witness:
  "\<exists>bv' p' h' info' hdr' rinfo'.
     message_writer_write_header2_ex (blank_vec2 30 50) 3 sample_header no_message_info = (OK, bv', p', h', info') \<and>
     message_reader_read_header_ex bv' (reader_at 3) empty_header no_message_info = (OK, hdr', rinfo') \<and>
     header_got empty_header hdr' sample_header"
proof -
  have wf: "wf_vec 1 (blank_vec2 30 50)" by (rule wf_blank2) simp
  have r: "mr_buffer_offset (reader_at 3) = 3" by (simp add: reader_at_def)
  have "3 + length (enc_header2 (sized2 sample_header)) \<le> length (flat (blank_vec2 30 50))"
    by (simp add: sample_header_sizes)
  note w = write_header2_at [OF wf sample_header_ok(1) this, of no_message_info]
  show ?thesis
    using message_header2_roundtrip [OF wf sample_header_ok(1,3) w r, of no_message_info] w by blast
qed

text \<open>
  The version 4 writer succeeds exactly when the header fits behind the offset. On success
  precisely the bytes of the header are replaced; otherwise the status is \<open>OUT_OF_RANGE\<close>, the
  header is not changed and neither are the bytes before the offset. In particular the check at the
  end of the code, that the computed size is the number of bytes written, never fails.
\<close>

theorem write_header4_outcome:
  assumes "wf_vec 1 bv" and "header4_fits m h"
    and "message_writer_write_header4_ex bv p h m info = (st, bv', p', h', info')"
  shows "(st = OK \<longleftrightarrow> p + length (header4_bytes m h) \<le> length (flat bv)) \<and>
         (st = OK \<longrightarrow> flat bv' = overwrite (flat bv) p (header4_bytes m h) \<and>
                      p' = p + length (header4_bytes m h) \<and> unat (mh_header_size h') = length (header4_bytes m h)) \<and>
         (st \<noteq> OK \<longrightarrow> st = Err OUT_OF_RANGE \<and> h' = h \<and> take p (flat bv') = take p (flat bv)) \<and>
         seg_shape bv' = seg_shape bv"
proof (cases "p + length (header4_bytes m h) \<le> length (flat bv)")
  case True
  then show ?thesis
    using write_header4_at [OF assms(1,2) True, of info] assms(3) length_header4_bytes(2) [OF assms(2)]
    by auto
next
  case False
  then show ?thesis
    using write_header4_full [OF assms(1,2) False, of info] assms(3) by auto
qed

lemma write_header4_outcome_witness:
  "\<exists>bv' p' h' info'.
     message_writer_write_header4_ex (blank_vec 40) 0 sample_header 255 no_message_info =
       (Err OUT_OF_RANGE, bv', p', h', info') \<and> h' = sample_header"
proof -
  have wf: "wf_vec 1 (blank_vec 40)" by (rule wf_blank) simp
  obtain st bv' p' h' info' where
    r: "message_writer_write_header4_ex (blank_vec 40) 0 sample_header 255 no_message_info = (st, bv', p', h', info')"
    by (metis prod_cases5)
  have "\<not> 0 + length (header4_bytes 255 sample_header) \<le> length (flat (blank_vec 40))"
    by (simp add: sample_header_sizes)
  then show ?thesis
    using write_header4_outcome [OF wf sample_header_ok(2) r] r by auto
qed

text \<open>
  C40. Reading a header from arbitrary bytes, at an arbitrary offset, either succeeds or fails with
  one of three codes: no memory outside the buffer or outside the caller's strings is touched.
\<close>

theorem read_header_safe:
  assumes "wf_vec 1 bv" and "header_strings_ok hdr"
    and "message_reader_read_header_ex bv r hdr info = (st, hdr', info')"
  shows "st = OK \<or> st = Err OUT_OF_RANGE \<or> st = Err PROTOCOL \<or> st = Err INVALID_ARGUMENT"
proof -
  have ok: "frame_ok (start_frame p (hdr\<lparr>mh_message_version := v\<rparr>) info)" for p v
    using assms(2) by (intro frame_ok_start) (simp add: header_strings_ok_def)
  show ?thesis
    using assms(3)
    by (auto simp: message_reader_read_header_ex_def message_reader_read_header4_ex_def Let_def
        message_reader_read_header2_ex_def read_errors_def split: sum.splits if_splits
        dest!: uint16.rd_error [OF assms(1)] safe_end_read [OF safe_header4 [OF assms(1)] ok]
          safe_end_read [OF safe_header2 [OF assms(1)] ok])
qed

lemma read_header_safe_witness:
  "\<exists>st hdr' info'.
     message_reader_read_header_ex (blank_vec 9) (reader_at 18446744073709551610) empty_header no_message_info =
       (st, hdr', info') \<and> (st = OK \<or> st = Err OUT_OF_RANGE \<or> st = Err PROTOCOL \<or> st = Err INVALID_ARGUMENT)"
proof -
  have wf: "wf_vec 1 (blank_vec 9)" by (rule wf_blank) simp
  obtain st hdr' info' where
    r: "message_reader_read_header_ex (blank_vec 9) (reader_at 18446744073709551610) empty_header no_message_info =
       (st, hdr', info')"
    by (metis prod_cases3)
  then show ?thesis using read_header_safe [OF wf sample_header_ok(4) r] by blast
qed

end
