(* ===== verification/RRL_FieldSpec.thy ===== *)
theory RRL_FieldSpec
  imports RRL_Codec RRL_NodeId
begin

text \<open>
  The properties of the buffer layer, of the wire fields and of the node identifiers: what a copy
  does, where its range check fails, and the round trip of the variable-length integers and of the
  textual identifiers.
\<close>


section \<open>Copies\<close>

text \<open>
  C38. A copy between two buffer vectors, whatever their segments and element sizes, is the copy
  between their concatenated bytes: it succeeds exactly when both ranges lie inside and the byte
  counts agree, then replaces exactly the destination range and keeps every segment boundary, and
  otherwise reports \<open>OUT_OF_RANGE\<close> and changes nothing. No byte outside a segment is read or
  written. (Copies of at least one element.)
\<close>

theorem copy_vec_refines:
  assumes "wf_vec ses src" and "wf_vec des dst" and "counts_fit scount ses" and "counts_fit dcount des"
    and "0 < scount" and "0 < dcount"
    and "buffer_vec_copy_vec_ex src spos ses scount dst dpos des dcount = (st, dst')"
  shows "(st = OK \<longleftrightarrow> scount * ses = dcount * des \<and> spos + scount \<le> buffer_vec_len src \<and>
                     dpos + dcount \<le> buffer_vec_len dst) \<and>
         (st = OK \<longrightarrow> flat dst' = overwrite (flat dst) (dpos * des) (chunk (flat src) (spos * ses) (scount * ses))) \<and>
         (st \<noteq> OK \<longrightarrow> st = Err OUT_OF_RANGE \<and> dst' = dst) \<and>
         seg_shape dst' = seg_shape dst"
proof -
  have in_range: "copy_in_range src spos scount dst dpos dcount \<longleftrightarrow>
      spos + scount \<le> buffer_vec_len src \<and> dpos + dcount \<le> buffer_vec_len dst"
    using assms(5,6) by (auto simp: copy_in_range_def)
  have len: "length (overwrite (flat dst) (dpos * des) (chunk (flat src) (spos * ses) (scount * ses))) =
      length (flat dst)"
    if "copy_in_range src spos scount dst dpos dcount" "scount * ses = dcount * des"
  proof -
    have "spos * ses + scount * ses \<le> length (flat src)" "dpos * des + dcount * des \<le> length (flat dst)"
      using in_range_bytes(1) [OF assms(1)] in_range_bytes(1) [OF assms(2)] that(1)
      by (auto simp: copy_in_range_def)
    then show ?thesis using that(2) by simp
  qed
  show ?thesis
    using assms(5-7) len in_range unfolding copy_vec_ex_flat [OF assms(1-4)]
    by (auto simp: flat_copy_def split: if_splits)
qed

lemma copy_vec_refines_witness:
  "\<exists>dst'. buffer_vec_copy_vec_ex (blank_vec2 3 5) 2 1 4 (blank_vec 6) 1 1 4 = (OK, dst') \<and>
          flat dst' = overwrite (flat (blank_vec 6)) 1 (chunk (flat (blank_vec2 3 5)) 2 4)"
proof -
  have wf: "wf_vec 1 (blank_vec2 3 5)" "wf_vec 1 (blank_vec 6)"
    by (rule wf_blank2, simp) (rule wf_blank, simp)
  have c: "counts_fit 4 1" by (simp add: counts_fit_def)
  obtain st dst' where r: "buffer_vec_copy_vec_ex (blank_vec2 3 5) 2 1 4 (blank_vec 6) 1 1 4 = (st, dst')"
    by (cases "buffer_vec_copy_vec_ex (blank_vec2 3 5) 2 1 4 (blank_vec 6) 1 1 4")
  have l: "buffer_vec_len (blank_vec2 3 5) = 8" "buffer_vec_len (blank_vec 6) = 6"
    using buffer_vec_len_bytes [OF wf(1)] buffer_vec_len_bytes [OF wf(2)] by simp_all
  show ?thesis
    using copy_vec_refines [OF wf c c _ _ r] l r by simp
qed

text \<open>
  The range check adds position and count in wrap-around arithmetic: from any position inside a
  buffer other than its start, a count so large that the sum wraps passes the check, and the copy
  runs outside the buffers.
\<close>

theorem buffer_copy_wraps:
  assumes "0 < p" and "p < buf_len src" and "buf_len src < 2 ^ 64" and "length (buf_data src) = buf_len src"
    and "0 < q" and "q < buf_len dst" and "buf_len dst < 2 ^ 64"
    and "2 ^ 64 - p \<le> count" and "2 ^ 64 - q \<le> count" and "count < 2 ^ 64"
  shows "buffer_copy src p dst q count = (Err UNDEFINED_BEHAVIOUR, dst)"
proof -
  have p: "p < 2 ^ 64" and q: "q < 2 ^ 64" using assms by (auto intro: less_trans)
  have s: "sz_add p count = p + count - 2 ^ 64"
    using assms p by (simp add: sz_add_def mod_if)
  have t: "sz_add q count = q + count - 2 ^ 64"
    using assms q by (simp add: sz_add_def mod_if)
  have "sz_add p count < p" "sz_add q count < q"
    using assms(1,5,8-10) unfolding s t by linarith+
  then have "\<not> out_of_bounds p count (buf_len src) q count (buf_len dst)"
    using assms(2,6) by (simp add: out_of_bounds_def)
  moreover have "\<not> p + count \<le> length (buf_data src)"
    using assms(2,3,4,8) by linarith
  then have "mem_copy (buf_data dst) q (buf_data src) p count = None"
    by (simp add: mem_copy_def)
  moreover have "count \<noteq> 0" using assms p by auto
  ultimately show ?thesis by (simp add: buffer_copy_def)
qed

lemma buffer_copy_wraps_witness:
  "buffer_copy \<lparr>buf_data = [1, 2, 3], buf_len = 3\<rparr> 1 \<lparr>buf_data = [0, 0, 0], buf_len = 3\<rparr> 2
     18446744073709551615 = (Err UNDEFINED_BEHAVIOUR, \<lparr>buf_data = [0, 0, 0], buf_len = 3\<rparr>)"
  by (rule buffer_copy_wraps) simp_all


section \<open>Variable-length integers\<close>

text \<open>
  Every 32-bit value written as a \<open>uint_x\<close> takes the number of bytes that
  \<open>message_uint_x_size\<close> computes, at most five, and is read back from where it was written.
\<close>

theorem uint_x_roundtrip:
  assumes "wf_vec 1 bv" and "message_write_uint_x bv p v = (OK, bv', p')"
  shows "p' = p + message_uint_x_size v \<and> message_uint_x_size v \<le> 5 \<and>
         message_read_uint_x bv' p = Inr (v, p')"
proof -
  have "enc_uint_x v \<noteq> []"
    by (simp add: enc_uint_x_def enc_uint_as_def)
  moreover have "p' = p + message_uint_x_size v"
    using uint_x.wr_result [OF assms(1) TrueI, of p v] assms(2)
    by (auto simp: wr_result_def split: if_splits)
  ultimately show ?thesis
    using uint_x.write_read [OF assms(1) TrueI assms(2)] by (simp add: message_uint_x_size_def)
qed

lemma uint_x_roundtrip_witness:
  "\<exists>bv'. message_write_uint_x (blank_vec2 2 9) 1 70000 = (OK, bv', 6) \<and>
         message_read_uint_x bv' 1 = Inr (70000, 6)"
proof -
  have wf: "wf_vec 1 (blank_vec2 2 9)" by (rule wf_blank2) simp
  have w: "message_write_uint_x (blank_vec2 2 9) 1 70000 =
      (OK, put_flat (blank_vec2 2 9) 1 (enc_uint_x 70000), 6)"
    using uint_x.wr_fits [OF wf TrueI, of 1 70000]
    by (simp add: message_uint_x_size_def UINT16_MAX_def)
  show ?thesis using uint_x_roundtrip [OF wf w] w by blast
qed

text \<open>
  The same for the signed form: every 32-bit signed value is read back, its sign included, by
  way of the 8, 16 or 32 bits it was written in.
\<close>

theorem int_x_roundtrip:
  assumes "wf_vec 1 bv" and "message_write_int_x bv p v = (OK, bv', p')"
  shows "message_read_int_x bv' p = Inr (v, p')"
  using int_x.write_read [OF assms(1) TrueI assms(2)] by (auto simp: enc_int_x_def u32_bytes_def)

lemma int_x_roundtrip_witness:
  "\<exists>bv'. message_write_int_x (blank_vec 9) 1 (-70000) = (OK, bv', 6) \<and>
         message_read_int_x bv' 1 = Inr (-70000, 6)"
proof -
  have wf: "wf_vec 1 (blank_vec 9)" by (rule wf_blank) simp
  have w: "message_write_int_x (blank_vec 9) 1 (-70000) =
      (OK, put_flat (blank_vec 9) 1 (enc_int_x (-70000)), 6)"
    using int_x.wr_fits [OF wf TrueI, of 1 "-70000"] by (simp add: enc_int_x_def)
  show ?thesis using int_x_roundtrip [OF wf w] w by blast
qed

text \<open>
  A total length that counts its own prefix is consistent: the prefix that
  \<open>message_len_plus_uint_x\<close> allows for is the one the total is written with, and the total
  is the data length plus that prefix, without wrap-around.
\<close>

theorem len_plus_uint_x_consistent:
  assumes "message_len_plus_uint_x n = Inr (tot, s)"
  shows "message_uint_x_size tot = s \<and> unat tot = unat n + s"
proof -
  have lt: "unat n < 4294967296" by (rule unat_u32_lt)
  have t: "unat (n + w) = unat n + unat w" if "unat n + unat w < 4294967296" for w :: u32
    using that by (intro iffD1 [OF unat_add_lem]) simp
  show ?thesis
    using assms lt t [of 1] t [of 3] t [of 5]
    by (auto simp: message_len_plus_uint_x_def message_uint_x_size_def UINT16_MAX_def UINT32_MAX_def
        split: if_splits)
qed

lemma len_plus_uint_x_consistent_witness:
  "message_len_plus_uint_x 252 = Inr (255, 3) \<and> message_uint_x_size 255 = 3"
proof -
  have "message_len_plus_uint_x 252 = Inr (255, 3)"
    by (simp add: message_len_plus_uint_x_def UINT16_MAX_def)
  then show ?thesis using len_plus_uint_x_consistent by blast
qed

text \<open>
  A string of more than 65535 characters is not rejected by the version 2 string writer, whose
  guard compares with the 32-bit maximum: its length prefix is the length modulo 65536, so that a
  reader takes the remaining characters for the following fields.
\<close>

theorem header_string2_truncates:
  assumes "wf_vec 1 bv" and "UINT16_MAX < length s" and "length s \<le> UINT32_MAX"
    and "p + 2 + length s \<le> length (flat bv)"
  shows "\<exists>bv'. write_header_string2 bv p s = (OK, bv', p + 2 + length s) \<and>
               read_header_string_prefix2_1 bv' p =
                 Inr (\<lparr>si_offset = p + 2, si_len = length s mod 65536\<rparr>, p + 2 + length s mod 65536)"
proof -
  let ?n = "word_of_nat (length s) :: u16"
  have s4: "str4_ok s" using assms(3) by (simp add: str4_ok_def)
  have W: "wr_result bv p (u16_bytes ?n @ s) (write_header_string2 bv p s)"
    unfolding write_header_string2_def if_not_P [OF str_not_long [OF s4]]
    by (rule wr_result_then [OF uint16.wr_result [OF assms(1) TrueI] assms(1) wr_result_chars [OF _ s4]])
  have fit: "p + length (u16_bytes ?n @ s) \<le> length (flat bv)" using assms(4) by simp
  let ?bv = "put_flat bv p (u16_bytes ?n @ s)"
  have w: "write_header_string2 bv p s = (OK, ?bv, p + 2 + length s)"
    using wr_result_OK [OF W] fit by (simp add: fits_def)
  have wf': "wf_vec 1 ?bv" using assms(1) fit by (simp add: wf_vec_put_flat_fits fits_def)
  have a: "at ?bv p (u16_bytes ?n)" using at_put_flat [OF fit] by (simp add: at_append)
  have n: "unat ?n = length s mod 65536" by (simp add: unat_of_nat)
  have "length s mod 65536 \<le> length s" by simp
  then have "p + 2 + length s mod 65536 < 2 ^ 64"
    using wf_small [OF assms(1) assms(4)] by linarith
  then have "read_header_string_prefix2_1 ?bv p =
      Inr (\<lparr>si_offset = p + 2, si_len = length s mod 65536\<rparr>, p + 2 + length s mod 65536)"
    using uint16.rd_at [OF wf' TrueI a] n
    by (simp add: read_header_string_prefix2_1_def sz_add_nowrap)
  then show ?thesis using w by blast
qed

lemma header_string2_truncates_witness:
  "\<exists>bv'. write_header_string2 (blank_vec 70000) 0 (replicate 65537 7) = (OK, bv', 65539) \<and>
         read_header_string_prefix2_1 bv' 0 = Inr (\<lparr>si_offset = 2, si_len = 1\<rparr>, 3)"
proof -
  have wf: "wf_vec 1 (blank_vec 70000)" by (rule wf_blank) simp
  show ?thesis
    using header_string2_truncates [OF wf, of "replicate 65537 7" 0]
    by (simp add: UINT16_MAX_def UINT32_MAX_def numeral_2_eq_2 numeral_3_eq_3)
qed


section \<open>Node identifiers\<close>

text \<open>
  Each of the three textual forms of an identifier, the 32 digits, the hyphenated groups and the
  same in braces, in upper or lower case, is parsed to the sixteen bytes it stands for.
\<close>

theorem nodeid_parse_text:
  assumes "length bs = 16" and "nodeid_ok dst"
  shows "nodeid_parse (hex_text up bs) dst = (OK, dst\<lparr>nodeid_data := bs\<rparr>) \<and>
         nodeid_parse (hyphenate (hex_text up bs)) dst = (OK, dst\<lparr>nodeid_data := bs\<rparr>) \<and>
         nodeid_parse ([123] @ hyphenate (hex_text up bs) @ [125]) dst = (OK, dst\<lparr>nodeid_data := bs\<rparr>)"
proof -
  let ?h = "hex_text up bs"
  have h: "length ?h = 32" using assms(1) by simp
  have p: "nodeid_parse_bytes 16 0 ?h dst = (OK, dst\<lparr>nodeid_data := bs\<rparr>)"
    using nodeid_parse_bytes_hex [of 0 16 bs dst up] assms by (simp add: nodeid_ok_def)
  note g = nodeid_groups_hyphenate [OF h]
  have nth: "([123] @ hyphenate ?h @ [125]) ! 37 = 125"
    using g(2) by (simp add: nth_append)
  have drop: "nodeid_groups (hyphenate ?h @ [125]) = Some ?h"
    using g by (simp add: nodeid_groups_def nth_append chunk_def split: if_splits)
  show ?thesis
    using h p g nth drop by (simp add: nodeid_parse_def)
qed

lemma nodeid_parse_text_witness:
  "nodeid_parse (hyphenate (hex_text True (replicate 16 171))) nodeid_any =
     (OK, \<lparr>nodeid_data = replicate 16 171\<rparr>)"
  using nodeid_parse_text [of "replicate 16 171" nodeid_any True]
  by (simp add: nodeid_ok_def nodeid_any_def)

text \<open>
  The parser never rejects a character: its check on the result of \<open>strtoul\<close> requires a
  range error and a value above 255 at once, and two characters cannot give a range error. Every
  text of 32 characters is accepted.
\<close>

theorem nodeid_parse_accepts_any:
  assumes "length s = 32"
  shows "\<exists>bs. nodeid_parse s dst = (OK, dst\<lparr>nodeid_data := bs\<rparr>)"
proof -
  have "nodeid_parse_bytes 16 0 s dst = (fst (nodeid_parse_bytes 16 0 s dst), snd (nodeid_parse_bytes 16 0 s dst))"
    by simp
  moreover have "fst (nodeid_parse_bytes 16 0 s dst) = OK" by (rule nodeid_parse_bytes_OK)
  moreover obtain bs where "snd (nodeid_parse_bytes 16 0 s dst) = dst\<lparr>nodeid_data := bs\<rparr>"
    using nodeid_parse_bytes_dst by blast
  ultimately show ?thesis using assms by (intro exI [of _ bs]) (simp add: nodeid_parse_def)
qed

lemma nodeid_parse_accepts_any_witness:
  "\<exists>bs. nodeid_parse (replicate 32 122) nodeid_any = (OK, nodeid_any\<lparr>nodeid_data := bs\<rparr>)"
  by (rule nodeid_parse_accepts_any) simp

end
