(* ===== verification/RRL_Entry.thy ===== *)
theory RRL_Entry
  imports RRL_Header
begin

text \<open>
  The message entry headers of src/message.c in both versions of the protocol: the readers
  \<open>messageentry_reader_read_header2_ex\<close>, \<open>.._read_header4_ex\<close> and the writers
  \<open>messageentry_writer_write_header2_ex\<close>, \<open>.._write_header4_ex\<close>, as statement sequences
  over the frames of RRL_Frame. The cursor records \<open>messageentry_reader\<close> and
  \<open>messageentry_writer\<close> leave out the pointer to the buffer vector, which is an argument.
\<close>

definition MESSAGEENTRY_FLAGS_SERVICE_PATH_STR :: u8 where "MESSAGEENTRY_FLAGS_SERVICE_PATH_STR = 0x01"
definition MESSAGEENTRY_FLAGS_SERVICE_PATH_CODE :: u8 where "MESSAGEENTRY_FLAGS_SERVICE_PATH_CODE = 0x02"
definition MESSAGEENTRY_FLAGS_MEMBER_NAME_STR :: u8 where "MESSAGEENTRY_FLAGS_MEMBER_NAME_STR = 0x04"
definition MESSAGEENTRY_FLAGS_MEMBER_NAME_CODE :: u8 where "MESSAGEENTRY_FLAGS_MEMBER_NAME_CODE = 0x08"
definition MESSAGEENTRY_FLAGS_REQUEST_ID :: u8 where "MESSAGEENTRY_FLAGS_REQUEST_ID = 0x10"
definition MESSAGEENTRY_FLAGS_ERROR :: u8 where "MESSAGEENTRY_FLAGS_ERROR = 0x20"
definition MESSAGEENTRY_FLAGS_META_INFO :: u8 where "MESSAGEENTRY_FLAGS_META_INFO = 0x40"
definition MESSAGEENTRY_FLAGS_EXTENDED :: u8 where "MESSAGEENTRY_FLAGS_EXTENDED = 0x80"

lemmas entry_flags_defs = MESSAGEENTRY_FLAGS_SERVICE_PATH_STR_def MESSAGEENTRY_FLAGS_SERVICE_PATH_CODE_def
  MESSAGEENTRY_FLAGS_MEMBER_NAME_STR_def MESSAGEENTRY_FLAGS_MEMBER_NAME_CODE_def
  MESSAGEENTRY_FLAGS_REQUEST_ID_def MESSAGEENTRY_FLAGS_ERROR_def MESSAGEENTRY_FLAGS_META_INFO_def
  MESSAGEENTRY_FLAGS_EXTENDED_def

record 's messageentry_header =
  eh_entry_size :: u32
  eh_entry_flags :: u8
  eh_entry_type :: u16
  eh_service_path :: 's
  eh_service_path_code :: u32
  eh_member_name :: 's
  eh_member_name_code :: u32
  eh_request_id :: u32
  eh_error :: u16
  eh_metadata :: 's
  eh_element_count :: u32

record messageentry_buffer_info =
  ei_start_buffer_offset :: size_t
  ei_header_size :: size_t
  ei_element_count_offset :: size_t
  ei_element_start_offset :: size_t
  ei_entry_size_offset :: size_t

record messageentry_reader =
  er_buffer_offset :: size_t
  er_buffer_count :: size_t
  er_buffer_remaining :: size_t
  er_entry_count_offset :: size_t
  er_current_entry :: size_t
  er_message_version :: u16

record messageentry_writer =
  ew_buffer_offset :: size_t
  ew_buffer_count :: size_t
  ew_entries_written_count :: size_t
  ew_entries_written_size :: size_t
  ew_entry_size_offset :: size_t
  ew_element_count_offset :: size_t
  ew_entry_header_size :: size_t
  ew_message_version :: u16

type_synonym entry_rframe = "(rstring messageentry_header, messageentry_buffer_info) rframe"


section \<open>Reader\<close>

definition get_service_path :: "buffer_vec \<Rightarrow> entry_rframe step" where
  "get_service_path bv = get_string bv f_str1 eh_service_path (\<lambda>v h. h\<lparr>eh_service_path := v\<rparr>)"

definition get_member_name :: "buffer_vec \<Rightarrow> entry_rframe step" where
  "get_member_name bv = get_string bv f_str2 eh_member_name (\<lambda>v h. h\<lparr>eh_member_name := v\<rparr>)"

definition get_entry_metadata :: "buffer_vec \<Rightarrow> entry_rframe step" where
  "get_entry_metadata bv = get_string bv f_str3 eh_metadata (\<lambda>v h. h\<lparr>eh_metadata := v\<rparr>)"

definition entry_read_end :: "size_t \<Rightarrow> entry_rframe step list" where
  "entry_read_end start =
     [assign (set_info (\<lambda>p i. i\<lparr>ei_header_size := sz_sub p start\<rparr>)),
      assign (set_info (\<lambda>p i. i\<lparr>ei_element_start_offset := p\<rparr>))]"

definition entry_read2_fields :: "buffer_vec \<Rightarrow> entry_rframe step list" where
  "entry_read2_fields bv =
     [assign (set_info (\<lambda>p i. i\<lparr>ei_start_buffer_offset := p\<rparr>)),
      assign (set_info (\<lambda>p i. i\<lparr>ei_entry_size_offset := p\<rparr>)),
      rd_field bv message_read_uint32 (\<lambda>v. set_hdr (\<lambda>h. h\<lparr>eh_entry_size := v\<rparr>)),
      rd_field bv message_read_uint16 (\<lambda>v. set_hdr (\<lambda>h. h\<lparr>eh_entry_type := v\<rparr>)),
      rd_pad 2,
      rd_field bv read_header_string_prefix2_1 (\<lambda>v s. s\<lparr>f_str1 := v\<rparr>),
      rd_field bv read_header_string_prefix2_1 (\<lambda>v s. s\<lparr>f_str2 := v\<rparr>),
      rd_field bv message_read_uint32 (\<lambda>v. set_hdr (\<lambda>h. h\<lparr>eh_request_id := v\<rparr>)),
      rd_field bv message_read_uint16 (\<lambda>v. set_hdr (\<lambda>h. h\<lparr>eh_error := v\<rparr>)),
      rd_field bv read_header_string_prefix2_1 (\<lambda>v s. s\<lparr>f_str3 := v\<rparr>),
      assign (set_info (\<lambda>p i. i\<lparr>ei_element_count_offset := p\<rparr>)),
      rd_field bv message_read_uint16 (\<lambda>v. set_hdr (\<lambda>h. h\<lparr>eh_element_count := ucast v\<rparr>))]"

definition messageentry_reader_read_header2_ex ::
  "buffer_vec \<Rightarrow> messageentry_reader \<Rightarrow> rstring messageentry_header \<Rightarrow> messageentry_buffer_info
     \<Rightarrow> status \<times> rstring messageentry_header \<times> messageentry_buffer_info" where
  "messageentry_reader_read_header2_ex bv reader header info =
     end_read info
       (run_steps (entry_read2_fields bv @
                   [get_service_path bv, get_member_name bv, get_entry_metadata bv] @
                   entry_read_end (er_buffer_offset reader))
          (start_frame (er_buffer_offset reader) header info))"

text \<open>The sections of a version 4 entry header.\<close>

definition entry_read4_start :: "buffer_vec \<Rightarrow> entry_rframe step list" where
  "entry_read4_start bv =
     [assign (set_info (\<lambda>p i. i\<lparr>ei_start_buffer_offset := p\<rparr>)),
      assign (set_info (\<lambda>p i. i\<lparr>ei_entry_size_offset := p\<rparr>)),
      rd_field bv message_read_uint_x (\<lambda>v. set_hdr (\<lambda>h. h\<lparr>eh_entry_size := v\<rparr>)),
      rd_field bv message_read_uint8 (\<lambda>v s. s\<lparr>f_flags := v\<rparr>)]"

definition entry_read4_sections :: "buffer_vec \<Rightarrow> entry_rframe step list" where
  "entry_read4_sections bv =
     [rd_field bv message_read_uint16 (\<lambda>v. set_hdr (\<lambda>h. h\<lparr>eh_entry_type := v\<rparr>)),
      if_steps (\<lambda>s. FLAGS_CHECK (f_flags s) MESSAGEENTRY_FLAGS_SERVICE_PATH_STR)
        [rd_field bv read_header_string_prefix4_1 (\<lambda>v s. s\<lparr>f_str1 := v\<rparr>)] [],
      if_steps (\<lambda>s. FLAGS_CHECK (f_flags s) MESSAGEENTRY_FLAGS_SERVICE_PATH_CODE)
        [rd_field bv message_read_uint_x (\<lambda>v. set_hdr (\<lambda>h. h\<lparr>eh_service_path_code := v\<rparr>))]
        [assign (set_hdr (\<lambda>h. h\<lparr>eh_service_path_code := 0\<rparr>))],
      if_steps (\<lambda>s. FLAGS_CHECK (f_flags s) MESSAGEENTRY_FLAGS_MEMBER_NAME_STR)
        [rd_field bv read_header_string_prefix4_1 (\<lambda>v s. s\<lparr>f_str2 := v\<rparr>)] [],
      if_steps (\<lambda>s. FLAGS_CHECK (f_flags s) MESSAGEENTRY_FLAGS_MEMBER_NAME_CODE)
        [rd_field bv message_read_uint_x (\<lambda>v. set_hdr (\<lambda>h. h\<lparr>eh_member_name_code := v\<rparr>))]
        [assign (set_hdr (\<lambda>h. h\<lparr>eh_member_name_code := 0\<rparr>))],
      if_steps (\<lambda>s. FLAGS_CHECK (f_flags s) MESSAGEENTRY_FLAGS_REQUEST_ID)
        [rd_field bv message_read_uint_x (\<lambda>v. set_hdr (\<lambda>h. h\<lparr>eh_request_id := v\<rparr>))]
        [assign (set_hdr (\<lambda>h. h\<lparr>eh_request_id := 0\<rparr>))],
      if_steps (\<lambda>s. FLAGS_CHECK (f_flags s) MESSAGEENTRY_FLAGS_ERROR)
        [rd_field bv message_read_uint16 (\<lambda>v. set_hdr (\<lambda>h. h\<lparr>eh_error := v\<rparr>))]
        [assign (set_hdr (\<lambda>h. h\<lparr>eh_error := 0\<rparr>))],
      if_steps (\<lambda>s. FLAGS_CHECK (f_flags s) MESSAGEENTRY_FLAGS_META_INFO)
        [rd_field bv read_header_string_prefix4_1 (\<lambda>v s. s\<lparr>f_str3 := v\<rparr>)] [],
      if_steps (\<lambda>s. FLAGS_CHECK (f_flags s) MESSAGEENTRY_FLAGS_EXTENDED) [rd_skip bv] [],
      assign (set_info (\<lambda>p i. i\<lparr>ei_element_count_offset := p\<rparr>)),
      rd_field bv message_read_uint_x (\<lambda>v. set_hdr (\<lambda>h. h\<lparr>eh_element_count := v\<rparr>))]"

definition entry_read4_strings :: "buffer_vec \<Rightarrow> entry_rframe step list" where
  "entry_read4_strings bv =
     [if_steps (\<lambda>s. FLAGS_CHECK (f_flags s) MESSAGEENTRY_FLAGS_SERVICE_PATH_STR)
        [get_service_path bv] [assign (set_hdr (\<lambda>h. h\<lparr>eh_service_path := null_string\<rparr>))],
      if_steps (\<lambda>s. FLAGS_CHECK (f_flags s) MESSAGEENTRY_FLAGS_MEMBER_NAME_STR)
        [get_member_name bv] [assign (set_hdr (\<lambda>h. h\<lparr>eh_member_name := null_string\<rparr>))],
      if_steps (\<lambda>s. FLAGS_CHECK (f_flags s) MESSAGEENTRY_FLAGS_META_INFO)
        [get_entry_metadata bv] [assign (set_hdr (\<lambda>h. h\<lparr>eh_metadata := null_string\<rparr>))]]"

definition messageentry_reader_read_header4_ex ::
  "buffer_vec \<Rightarrow> messageentry_reader \<Rightarrow> rstring messageentry_header \<Rightarrow> messageentry_buffer_info
     \<Rightarrow> status \<times> rstring messageentry_header \<times> messageentry_buffer_info" where
  "messageentry_reader_read_header4_ex bv reader header info =
     end_read info
       (run_steps (entry_read4_start bv @ entry_read4_sections bv @ entry_read4_strings bv @
                   entry_read_end (er_buffer_offset reader))
          (start_frame (er_buffer_offset reader) header info))"

definition messageentry_reader_read_header_ex ::
  "buffer_vec \<Rightarrow> messageentry_reader \<Rightarrow> rstring messageentry_header \<Rightarrow> messageentry_buffer_info
     \<Rightarrow> status \<times> rstring messageentry_header \<times> messageentry_buffer_info" where
  "messageentry_reader_read_header_ex bv reader header info =
     (if er_message_version reader = 2 then messageentry_reader_read_header2_ex bv reader header info
      else if er_message_version reader = 4 then messageentry_reader_read_header4_ex bv reader header info
      else (Err PROTOCOL, header, info))"

definition no_entry_info :: messageentry_buffer_info where
  "no_entry_info = \<lparr>ei_start_buffer_offset = 0, ei_header_size = 0, ei_element_count_offset = 0,
     ei_element_start_offset = 0, ei_entry_size_offset = 0\<rparr>"

text \<open>A header of which every byte is zero, with \<open>NULL\<close> strings.\<close>

definition zero_entry_header :: "rstring messageentry_header" where
  "zero_entry_header =
     \<lparr>eh_entry_size = 0, eh_entry_flags = 0, eh_entry_type = 0, eh_service_path = null_string,
      eh_service_path_code = 0, eh_member_name = null_string, eh_member_name_code = 0,
      eh_request_id = 0, eh_error = 0, eh_metadata = null_string, eh_element_count = 0\<rparr>"

definition messageentry_reader_read_header ::
  "buffer_vec \<Rightarrow> messageentry_reader \<Rightarrow> rstring messageentry_header \<Rightarrow> status \<times> rstring messageentry_header" where
  "messageentry_reader_read_header bv reader header =
     (case messageentry_reader_read_header_ex bv reader header no_entry_info of (st, h, _) \<Rightarrow> (st, h))"


section \<open>Writer\<close>

definition entry_write_end :: "size_t \<Rightarrow> messageentry_buffer_info wframe step list" where
  "entry_write_end start =
     [note_info (\<lambda>p i. i\<lparr>ei_header_size := sz_sub p start\<rparr>),
      note_info (\<lambda>p i. i\<lparr>ei_element_start_offset := p\<rparr>)]"

definition entry_write2_fields :: "const_string messageentry_header \<Rightarrow> messageentry_buffer_info wframe step list" where
  "entry_write2_fields h =
     [note_info (\<lambda>p i. i\<lparr>ei_entry_size_offset := p\<rparr>),
      wr_f message_write_uint32 0,
      wr_f message_write_uint16 (eh_entry_type h),
      wr_f message_write_uint16 0,
      wr_f write_header_string2 (eh_service_path h),
      wr_f write_header_string2 (eh_member_name h),
      wr_f message_write_uint32 (eh_request_id h),
      wr_f message_write_uint16 (eh_error h),
      wr_f write_header_string2 (eh_metadata h),
      note_info (\<lambda>p i. i\<lparr>ei_element_count_offset := p\<rparr>),
      wr_f message_write_uint16 0]"

text \<open>The result of a writer that does not change the header it is given.\<close>

definition end_write0 :: "status \<times> 'i wframe \<Rightarrow> status \<times> buffer_vec \<times> size_t \<times> 'i" where
  "end_write0 r = (case r of (st, s) \<Rightarrow> (st, w_buf s, w_off s, w_info s))"

definition messageentry_writer_write_header2_ex ::
  "buffer_vec \<Rightarrow> messageentry_writer \<Rightarrow> size_t \<Rightarrow> const_string messageentry_header
     \<Rightarrow> messageentry_buffer_info \<Rightarrow> status \<times> buffer_vec \<times> size_t \<times> messageentry_buffer_info" where
  "messageentry_writer_write_header2_ex bv writer p h info =
     end_write0
       (run_steps (entry_write2_fields h @ entry_write_end (ew_buffer_offset writer))
          \<lparr>w_buf = bv, w_off = p, w_info = info\<rparr>)"

text \<open>The flags of an entry. The code has no branch for \<open>MEMBER_NAME_CODE\<close>.\<close>

definition entry_write4_flags :: "const_string messageentry_header \<Rightarrow> u8" where
  "entry_write4_flags h =
     (let flags = 0;
          flags = if length (eh_service_path h) > 0 then FLAGS_SET flags MESSAGEENTRY_FLAGS_SERVICE_PATH_STR else flags;
          flags = if eh_service_path_code h \<noteq> 0 then FLAGS_SET flags MESSAGEENTRY_FLAGS_SERVICE_PATH_CODE else flags;
          flags = if length (eh_member_name h) > 0 then FLAGS_SET flags MESSAGEENTRY_FLAGS_MEMBER_NAME_STR else flags;
          flags = if eh_request_id h \<noteq> 0 then FLAGS_SET flags MESSAGEENTRY_FLAGS_REQUEST_ID else flags;
          flags = if eh_error h \<noteq> 0 then FLAGS_SET flags MESSAGEENTRY_FLAGS_ERROR else flags;
          flags = if length (eh_metadata h) > 0 then FLAGS_SET flags MESSAGEENTRY_FLAGS_META_INFO else flags
      in flags)"

definition entry_write4_fields ::
  "u8 \<Rightarrow> const_string messageentry_header \<Rightarrow> messageentry_buffer_info wframe step list" where
  "entry_write4_fields flags h =
     [wr_padded 0 ei_entry_size_offset (\<lambda>c i. i\<lparr>ei_entry_size_offset := c\<rparr>),
      wr_f message_write_uint8 flags,
      wr_f message_write_uint16 (eh_entry_type h),
      if_steps (\<lambda>_. FLAGS_CHECK flags MESSAGEENTRY_FLAGS_SERVICE_PATH_STR)
        [wr_f write_header_string4 (eh_service_path h)] [],
      if_steps (\<lambda>_. FLAGS_CHECK flags MESSAGEENTRY_FLAGS_SERVICE_PATH_CODE)
        [wr_f message_write_uint_x (eh_service_path_code h)] [],
      if_steps (\<lambda>_. FLAGS_CHECK flags MESSAGEENTRY_FLAGS_MEMBER_NAME_STR)
        [wr_f write_header_string4 (eh_member_name h)] [],
      if_steps (\<lambda>_. FLAGS_CHECK flags MESSAGEENTRY_FLAGS_MEMBER_NAME_CODE)
        [wr_f message_write_uint_x (eh_member_name_code h)] [],
      if_steps (\<lambda>_. FLAGS_CHECK flags MESSAGEENTRY_FLAGS_REQUEST_ID)
        [wr_f message_write_uint_x (eh_request_id h)] [],
      if_steps (\<lambda>_. FLAGS_CHECK flags MESSAGEENTRY_FLAGS_ERROR)
        [wr_f message_write_uint16 (eh_error h)] [],
      if_steps (\<lambda>_. FLAGS_CHECK flags MESSAGEENTRY_FLAGS_META_INFO)
        [wr_f write_header_string4 (eh_metadata h)] [],
      wr_padded 0 ei_element_count_offset (\<lambda>c i. i\<lparr>ei_element_count_offset := c\<rparr>)]"

definition messageentry_writer_write_header4_ex ::
  "buffer_vec \<Rightarrow> messageentry_writer \<Rightarrow> size_t \<Rightarrow> const_string messageentry_header
     \<Rightarrow> messageentry_buffer_info \<Rightarrow> status \<times> buffer_vec \<times> size_t \<times> messageentry_buffer_info" where
  "messageentry_writer_write_header4_ex bv writer p h info =
     end_write0
       (run_steps (entry_write4_fields (entry_write4_flags h) h @ entry_write_end (ew_buffer_offset writer))
          \<lparr>w_buf = bv, w_off = p, w_info = info\<rparr>)"

end
