(* ===== verification/RRL_Element.thy ===== *)
theory RRL_Element
  imports RRL_Entry
begin

text \<open>
  The message element headers of src/message.c in both versions of the protocol, readers and
  writers, and the two writers of the header of an element that carries plain data. The cursor
  records leave out the pointer to the buffer vector, which is an argument.
\<close>

definition MESSAGEELEMENT_FLAGS_ELEMENT_NAME_STR :: u8 where "MESSAGEELEMENT_FLAGS_ELEMENT_NAME_STR = 0x01"
definition MESSAGEELEMENT_FLAGS_ELEMENT_NAME_CODE :: u8 where "MESSAGEELEMENT_FLAGS_ELEMENT_NAME_CODE = 0x02"
definition MESSAGEELEMENT_FLAGS_ELEMENT_NUMBER :: u8 where "MESSAGEELEMENT_FLAGS_ELEMENT_NUMBER = 0x04"
definition MESSAGEELEMENT_FLAGS_ELEMENT_TYPE_NAME_STR :: u8 where "MESSAGEELEMENT_FLAGS_ELEMENT_TYPE_NAME_STR = 0x08"
definition MESSAGEELEMENT_FLAGS_ELEMENT_TYPE_NAME_CODE :: u8 where "MESSAGEELEMENT_FLAGS_ELEMENT_TYPE_NAME_CODE = 0x10"
definition MESSAGEELEMENT_FLAGS_META_INFO :: u8 where "MESSAGEELEMENT_FLAGS_META_INFO = 0x20"
definition MESSAGEELEMENT_FLAGS_EXTENDED :: u8 where "MESSAGEELEMENT_FLAGS_EXTENDED = 0x80"

lemmas element_flags_defs = MESSAGEELEMENT_FLAGS_ELEMENT_NAME_STR_def MESSAGEELEMENT_FLAGS_ELEMENT_NAME_CODE_def
  MESSAGEELEMENT_FLAGS_ELEMENT_NUMBER_def MESSAGEELEMENT_FLAGS_ELEMENT_TYPE_NAME_STR_def
  MESSAGEELEMENT_FLAGS_ELEMENT_TYPE_NAME_CODE_def MESSAGEELEMENT_FLAGS_META_INFO_def
  MESSAGEELEMENT_FLAGS_EXTENDED_def

record 's messageelement_header =
  lh_element_size :: u32
  lh_element_flags :: u8
  lh_element_name :: 's
  lh_element_name_code :: u32
  lh_element_number :: i32
  lh_element_type :: u16
  lh_element_type_name :: 's
  lh_element_type_name_code :: u32
  lh_metadata :: 's
  lh_data_count :: u32

record messageelement_buffer_info =
  li_start_buffer_offset :: size_t
  li_header_size :: size_t
  li_data_start_offset :: size_t
  li_element_name_str_offset :: size_t
  li_element_count_offset :: size_t
  li_element_size_offset :: size_t

record messageelement_reader =
  lr_buffer_offset :: size_t
  lr_buffer_count :: size_t
  lr_buffer_remaining :: size_t
  lr_current_element :: size_t
  lr_total_elements :: size_t
  lr_message_version :: u16

record messageelement_writer =
  lw_buffer_offset :: size_t
  lw_buffer_count :: size_t
  lw_elements_written_count :: size_t
  lw_elements_written_size :: size_t
  lw_element_size_offset :: size_t
  lw_data_count_offset :: size_t
  lw_element_header_size :: size_t
  lw_message_version :: u16

type_synonym element_rframe = "(rstring messageelement_header, messageelement_buffer_info) rframe"


section \<open>Reader\<close>

definition get_element_name :: "buffer_vec \<Rightarrow> element_rframe step" where
  "get_element_name bv = get_string bv f_str1 lh_element_name (\<lambda>v h. h\<lparr>lh_element_name := v\<rparr>)"

definition get_element_type_name :: "buffer_vec \<Rightarrow> element_rframe step" where
  "get_element_type_name bv =
     get_string bv f_str2 lh_element_type_name (\<lambda>v h. h\<lparr>lh_element_type_name := v\<rparr>)"

definition get_element_metadata :: "buffer_vec \<Rightarrow> element_rframe step" where
  "get_element_metadata bv = get_string bv f_str3 lh_metadata (\<lambda>v h. h\<lparr>lh_metadata := v\<rparr>)"

text \<open>\<open>temp_buffer_info.element_name_str_offset = elementname_info.offset;\<close>\<close>

definition note_name_offset :: "element_rframe step" where
  "note_name_offset =
     assign (\<lambda>s. set_info (\<lambda>_ i. i\<lparr>li_element_name_str_offset := si_offset (f_str1 s)\<rparr>) s)"

definition element_read_end :: "size_t \<Rightarrow> element_rframe step list" where
  "element_read_end start =
     [assign (set_info (\<lambda>p i. i\<lparr>li_header_size := sz_sub p start\<rparr>)),
      assign (set_info (\<lambda>p i. i\<lparr>li_data_start_offset := p\<rparr>))]"

definition element_read2_fields :: "buffer_vec \<Rightarrow> element_rframe step list" where
  "element_read2_fields bv =
     [assign (set_info (\<lambda>p i. i\<lparr>li_start_buffer_offset := p\<rparr>)),
      assign (set_info (\<lambda>p i. i\<lparr>li_element_size_offset := p\<rparr>)),
      rd_field bv message_read_uint32 (\<lambda>v. set_hdr (\<lambda>h. h\<lparr>lh_element_size := v\<rparr>)),
      rd_field bv read_header_string_prefix2_1 (\<lambda>v s. s\<lparr>f_str1 := v\<rparr>),
      rd_field bv message_read_uint16 (\<lambda>v. set_hdr (\<lambda>h. h\<lparr>lh_element_type := v\<rparr>)),
      rd_field bv read_header_string_prefix2_1 (\<lambda>v s. s\<lparr>f_str2 := v\<rparr>),
      rd_field bv read_header_string_prefix2_1 (\<lambda>v s. s\<lparr>f_str3 := v\<rparr>),
      assign (set_info (\<lambda>p i. i\<lparr>li_element_count_offset := p\<rparr>)),
      rd_field bv message_read_uint32 (\<lambda>v. set_hdr (\<lambda>h. h\<lparr>lh_data_count := v\<rparr>))]"

definition element_read2_strings :: "buffer_vec \<Rightarrow> element_rframe step list" where
  "element_read2_strings bv =
     [get_element_name bv, note_name_offset, get_element_type_name bv, get_element_metadata bv]"

definition messageelement_reader_read_header2_ex ::
  "buffer_vec \<Rightarrow> messageelement_reader \<Rightarrow> rstring messageelement_header \<Rightarrow> messageelement_buffer_info
     \<Rightarrow> status \<times> rstring messageelement_header \<times> messageelement_buffer_info" where
  "messageelement_reader_read_header2_ex bv reader header info =
     end_read info
       (run_steps (element_read2_fields bv @ element_read2_strings bv @
                   element_read_end (lr_buffer_offset reader))
          (start_frame (lr_buffer_offset reader) header info))"

text \<open>The sections of a version 4 element header.\<close>

definition element_read4_start :: "buffer_vec \<Rightarrow> element_rframe step list" where
  "element_read4_start bv =
     [assign (set_info (\<lambda>p i. i\<lparr>li_start_buffer_offset := p\<rparr>)),
      assign (set_info (\<lambda>p i. i\<lparr>li_element_size_offset := p\<rparr>)),
      rd_field bv message_read_uint_x (\<lambda>v. set_hdr (\<lambda>h. h\<lparr>lh_element_size := v\<rparr>)),
      rd_field bv message_read_uint8 (\<lambda>v s. s\<lparr>f_flags := v\<rparr>)]"

definition element_read4_sections :: "buffer_vec \<Rightarrow> element_rframe step list" where
  "element_read4_sections bv =
     [if_steps (\<lambda>s. FLAGS_CHECK (f_flags s) MESSAGEELEMENT_FLAGS_ELEMENT_NAME_STR)
        [rd_field bv read_header_string_prefix4_1 (\<lambda>v s. s\<lparr>f_str1 := v\<rparr>)] [],
      if_steps (\<lambda>s. FLAGS_CHECK (f_flags s) MESSAGEELEMENT_FLAGS_ELEMENT_NAME_CODE)
        [rd_field bv message_read_uint_x (\<lambda>v. set_hdr (\<lambda>h. h\<lparr>lh_element_name_code := v\<rparr>))]
        [assign (set_hdr (\<lambda>h. h\<lparr>lh_element_name_code := 0\<rparr>))],
      if_steps (\<lambda>s. FLAGS_CHECK (f_flags s) MESSAGEELEMENT_FLAGS_ELEMENT_NUMBER)
        [rd_field bv message_read_int_x (\<lambda>v. set_hdr (\<lambda>h. h\<lparr>lh_element_number := v\<rparr>))]
        [assign (set_hdr (\<lambda>h. h\<lparr>lh_element_number := 0\<rparr>))],
      rd_field bv message_read_uint16 (\<lambda>v. set_hdr (\<lambda>h. h\<lparr>lh_element_type := v\<rparr>)),
      if_steps (\<lambda>s. FLAGS_CHECK (f_flags s) MESSAGEELEMENT_FLAGS_ELEMENT_TYPE_NAME_STR)
        [rd_field bv read_header_string_prefix4_1 (\<lambda>v s. s\<lparr>f_str2 := v\<rparr>)] [],
      if_steps (\<lambda>s. FLAGS_CHECK (f_flags s) MESSAGEELEMENT_FLAGS_ELEMENT_TYPE_NAME_CODE)
        [rd_field bv message_read_uint_x (\<lambda>v. set_hdr (\<lambda>h. h\<lparr>lh_element_type_name_code := v\<rparr>))]
        [assign (set_hdr (\<lambda>h. h\<lparr>lh_element_type_name_code := 0\<rparr>))],
      if_steps (\<lambda>s. FLAGS_CHECK (f_flags s) MESSAGEELEMENT_FLAGS_META_INFO)
        [rd_field bv read_header_string_prefix4_1 (\<lambda>v s. s\<lparr>f_str3 := v\<rparr>)] [],
      if_steps (\<lambda>s. FLAGS_CHECK (f_flags s) MESSAGEELEMENT_FLAGS_EXTENDED) [rd_skip bv] [],
      assign (set_info (\<lambda>p i. i\<lparr>li_element_count_offset := p\<rparr>)),
      rd_field bv message_read_uint_x (\<lambda>v. set_hdr (\<lambda>h. h\<lparr>lh_data_count := v\<rparr>))]"

definition element_read4_strings :: "buffer_vec \<Rightarrow> element_rframe step list" where
  "element_read4_strings bv =
     [if_steps (\<lambda>s. FLAGS_CHECK (f_flags s) MESSAGEELEMENT_FLAGS_ELEMENT_NAME_STR)
        [get_element_name bv, note_name_offset]
        [assign (set_info (\<lambda>_ i. i\<lparr>li_element_name_str_offset := SIZE_T_MAX\<rparr>)),
         assign (set_hdr (\<lambda>h. h\<lparr>lh_element_name := null_string\<rparr>))],
      if_steps (\<lambda>s. FLAGS_CHECK (f_flags s) MESSAGEELEMENT_FLAGS_ELEMENT_TYPE_NAME_STR)
        [get_element_type_name bv] [assign (set_hdr (\<lambda>h. h\<lparr>lh_element_type_name := null_string\<rparr>))],
      if_steps (\<lambda>s. FLAGS_CHECK (f_flags s) MESSAGEELEMENT_FLAGS_META_INFO)
        [get_element_metadata bv] [assign (set_hdr (\<lambda>h. h\<lparr>lh_metadata := null_string\<rparr>))]]"

definition messageelement_reader_read_header4_ex ::
  "buffer_vec \<Rightarrow> messageelement_reader \<Rightarrow> rstring messageelement_header \<Rightarrow> messageelement_buffer_info
     \<Rightarrow> status \<times> rstring messageelement_header \<times> messageelement_buffer_info" where
  "messageelement_reader_read_header4_ex bv reader header info =
     end_read info
       (run_steps (element_read4_start bv @ element_read4_sections bv @ element_read4_strings bv @
                   element_read_end (lr_buffer_offset reader))
          (start_frame (lr_buffer_offset reader) header info))"

definition messageelement_reader_read_header_ex ::
  "buffer_vec \<Rightarrow> messageelement_reader \<Rightarrow> rstring messageelement_header \<Rightarrow> messageelement_buffer_info
     \<Rightarrow> status \<times> rstring messageelement_header \<times> messageelement_buffer_info" where
  "messageelement_reader_read_header_ex bv reader header info =
     (if lr_message_version reader = 2 then messageelement_reader_read_header2_ex bv reader header info
      else if lr_message_version reader = 4 then messageelement_reader_read_header4_ex bv reader header info
      else (Err PROTOCOL, header, info))"

definition no_element_info :: messageelement_buffer_info where
  "no_element_info = \<lparr>li_start_buffer_offset = 0, li_header_size = 0, li_data_start_offset = 0,
     li_element_name_str_offset = 0, li_element_count_offset = 0, li_element_size_offset = 0\<rparr>"

text \<open>A header of which every byte is zero, with \<open>NULL\<close> strings.\<close>

definition zero_element_header :: "rstring messageelement_header" where
  "zero_element_header =
     \<lparr>lh_element_size = 0, lh_element_flags = 0, lh_element_name = null_string, lh_element_name_code = 0,
      lh_element_number = 0, lh_element_type = 0, lh_element_type_name = null_string,
      lh_element_type_name_code = 0, lh_metadata = null_string, lh_data_count = 0\<rparr>"

definition messageelement_reader_read_header ::
  "buffer_vec \<Rightarrow> messageelement_reader \<Rightarrow> rstring messageelement_header \<Rightarrow> status \<times> rstring messageelement_header" where
  "messageelement_reader_read_header bv reader header =
     (case messageelement_reader_read_header_ex bv reader header no_element_info of (st, h, _) \<Rightarrow> (st, h))"


section \<open>Writer\<close>

definition element_write_end :: "size_t \<Rightarrow> messageelement_buffer_info wframe step list" where
  "element_write_end start =
     [note_info (\<lambda>p i. i\<lparr>li_header_size := sz_sub p start\<rparr>),
      note_info (\<lambda>p i. i\<lparr>li_data_start_offset := p\<rparr>)]"

text \<open>The flags of an element.\<close>

definition element_write4_flags :: "const_string messageelement_header \<Rightarrow> u8" where
  "element_write4_flags h =
     (let flags = 0;
          flags = if length (lh_element_name h) > 0 then FLAGS_SET flags MESSAGEELEMENT_FLAGS_ELEMENT_NAME_STR else flags;
          flags = if lh_element_name_code h \<noteq> 0 then FLAGS_SET flags MESSAGEELEMENT_FLAGS_ELEMENT_NAME_CODE else flags;
          flags = if lh_element_number h \<noteq> 0 then FLAGS_SET flags MESSAGEELEMENT_FLAGS_ELEMENT_NUMBER else flags;
          flags = if length (lh_element_type_name h) > 0 then FLAGS_SET flags MESSAGEELEMENT_FLAGS_ELEMENT_TYPE_NAME_STR else flags;
          flags = if lh_element_type_name_code h \<noteq> 0 then FLAGS_SET flags MESSAGEELEMENT_FLAGS_ELEMENT_TYPE_NAME_CODE else flags;
          flags = if length (lh_metadata h) > 0 then FLAGS_SET flags MESSAGEELEMENT_FLAGS_META_INFO else flags
      in flags)"

definition element_write4_fields ::
  "u8 \<Rightarrow> const_string messageelement_header \<Rightarrow> messageelement_buffer_info wframe step list" where
  "element_write4_fields flags h =
     [note_info (\<lambda>p i. i\<lparr>li_start_buffer_offset := p\<rparr>),
      wr_padded 0 li_element_size_offset (\<lambda>c i. i\<lparr>li_element_size_offset := c\<rparr>),
      wr_f message_write_uint8 flags,
      if_steps (\<lambda>_. FLAGS_CHECK flags MESSAGEELEMENT_FLAGS_ELEMENT_NAME_STR)
        [note_info (\<lambda>p i. i\<lparr>li_element_name_str_offset := p\<rparr>),
         wr_f write_header_string4 (lh_element_name h)]
        [note_info (\<lambda>_ i. i\<lparr>li_element_name_str_offset := SIZE_T_MAX\<rparr>)],
      if_steps (\<lambda>_. FLAGS_CHECK flags MESSAGEELEMENT_FLAGS_ELEMENT_NAME_CODE)
        [wr_f message_write_uint_x (lh_element_name_code h)] [],
      if_steps (\<lambda>_. FLAGS_CHECK flags MESSAGEELEMENT_FLAGS_ELEMENT_NUMBER)
        [wr_f message_write_int_x (lh_element_number h)] [],
      wr_f message_write_uint16 (lh_element_type h),
      if_steps (\<lambda>_. FLAGS_CHECK flags MESSAGEELEMENT_FLAGS_ELEMENT_TYPE_NAME_STR)
        [wr_f write_header_string4 (lh_element_type_name h)] [],
      if_steps (\<lambda>_. FLAGS_CHECK flags MESSAGEELEMENT_FLAGS_ELEMENT_TYPE_NAME_CODE)
        [wr_f message_write_uint_x (lh_element_type_name_code h)] [],
      if_steps (\<lambda>_. FLAGS_CHECK flags MESSAGEELEMENT_FLAGS_META_INFO)
        [wr_f write_header_string4 (lh_metadata h)] [],
      wr_padded 0 li_element_count_offset (\<lambda>c i. i\<lparr>li_element_count_offset := c\<rparr>)]"

definition messageelement_writer_write_header4_ex ::
  "buffer_vec \<Rightarrow> messageelement_writer \<Rightarrow> size_t \<Rightarrow> const_string messageelement_header
     \<Rightarrow> messageelement_buffer_info \<Rightarrow> status \<times> buffer_vec \<times> size_t \<times> messageelement_buffer_info" where
  "messageelement_writer_write_header4_ex bv writer p h info =
     end_write0
       (run_steps (element_write4_fields (element_write4_flags h) h @ element_write_end (lw_buffer_offset writer))
          \<lparr>w_buf = bv, w_off = p, w_info = info\<rparr>)"

definition element_write2_fields ::
  "const_string messageelement_header \<Rightarrow> messageelement_buffer_info wframe step list" where
  "element_write2_fields h =
     [note_info (\<lambda>p i. i\<lparr>li_start_buffer_offset := p\<rparr>),
      note_info (\<lambda>p i. i\<lparr>li_element_size_offset := p\<rparr>),
      wr_f message_write_uint32 0,
      note_info (\<lambda>p i. i\<lparr>li_element_name_str_offset := p\<rparr>),
      wr_f write_header_string2 (lh_element_name h),
      wr_f message_write_uint16 (lh_element_type h),
      wr_f write_header_string2 (lh_element_type_name h),
      wr_f write_header_string2 (lh_metadata h),
      note_info (\<lambda>p i. i\<lparr>li_element_count_offset := p\<rparr>),
      wr_f message_write_uint32 0]"

definition messageelement_writer_write_header2_ex ::
  "buffer_vec \<Rightarrow> messageelement_writer \<Rightarrow> size_t \<Rightarrow> const_string messageelement_header
     \<Rightarrow> messageelement_buffer_info \<Rightarrow> status \<times> buffer_vec \<times> size_t \<times> messageelement_buffer_info" where
  "messageelement_writer_write_header2_ex bv writer p h info =
     end_write0
       (run_steps (element_write2_fields h @ element_write_end (lw_buffer_offset writer))
          \<lparr>w_buf = bv, w_off = p, w_info = info\<rparr>)"


section \<open>Headers of plain data\<close>

text \<open>
  The header of an element that carries \<open>data_len\<close> items of \<open>data_elem_size\<close> bytes. Its
  size, which the header states, is known before it is written; \<open>*element_size\<close> is the last
  component of the result.
\<close>

definition data_header2_fields ::
  "const_string \<Rightarrow> size_t \<Rightarrow> u16 \<Rightarrow> size_t \<Rightarrow> messageelement_buffer_info wframe step list" where
  "data_header2_fields element_name data_len data_type elem_size =
     [note_info (\<lambda>p i. i\<lparr>li_start_buffer_offset := p\<rparr>),
      note_info (\<lambda>p i. i\<lparr>li_element_size_offset := p\<rparr>),
      wr_f message_write_uint32 (word_of_nat elem_size),
      note_info (\<lambda>p i. i\<lparr>li_element_name_str_offset := p\<rparr>),
      wr_f write_header_string2 element_name,
      wr_f message_write_uint16 data_type,
      wr_f message_write_uint16 0,
      wr_f message_write_uint16 0,
      return_if (\<lambda>_. data_len > UINT32_MAX) OUT_OF_RANGE,
      note_info (\<lambda>p i. i\<lparr>li_element_count_offset := p\<rparr>),
      wr_f message_write_uint32 (word_of_nat data_len),
      note_info (\<lambda>p i. i\<lparr>li_data_start_offset := p\<rparr>),
      note_info (\<lambda>p i. i\<lparr>li_header_size := sz_sub p (li_start_buffer_offset i)\<rparr>)]"

definition write_data_header2_size :: "const_string \<Rightarrow> size_t \<Rightarrow> size_t \<Rightarrow> error + size_t" where
  "write_data_header2_size element_name data_len data_elem_size =
     (if length element_name > UINT16_MAX then Inl OUT_OF_RANGE
      else let elem_size = sz_add (sz_add 16 (length element_name)) (sz_mul data_len data_elem_size)
           in if elem_size > UINT32_MAX then Inl OUT_OF_RANGE else Inr elem_size)"

definition messageelement_writer_write_data_header2_ex ::
  "buffer_vec \<Rightarrow> size_t \<Rightarrow> const_string \<Rightarrow> size_t \<Rightarrow> u16 \<Rightarrow> size_t \<Rightarrow> messageelement_buffer_info \<Rightarrow> size_t
     \<Rightarrow> status \<times> buffer_vec \<times> size_t \<times> messageelement_buffer_info \<times> size_t" where
  "messageelement_writer_write_data_header2_ex bv p element_name data_len data_type data_elem_size info element_size =
     (case write_data_header2_size element_name data_len data_elem_size of
        Inl e \<Rightarrow> (Err e, bv, p, info, element_size)
      | Inr elem_size \<Rightarrow>
          (case end_write0 (run_steps (data_header2_fields element_name data_len data_type elem_size)
                  \<lparr>w_buf = bv, w_off = p, w_info = info\<rparr>) of
             (OK, bv, p, info) \<Rightarrow> (OK, bv, p, info, elem_size)
           | (Err e, bv, p, info) \<Rightarrow> (Err e, bv, p, info, element_size)))"

definition write_data_header4_size :: "const_string \<Rightarrow> size_t \<Rightarrow> size_t \<Rightarrow> error + size_t" where
  "write_data_header4_size element_name data_len data_elem_size =
     and_then (if length element_name \<noteq> 0
               then and_then (header_string_size4 element_name) (\<lambda>s. Inr (sz_add 3 s)) else Inr 3) (\<lambda>elem_size.
       if data_len > UINT32_MAX then Inl OUT_OF_RANGE
       else let elem_size = sz_add elem_size (message_uint_x_size (word_of_nat data_len));
                elem_size = sz_add elem_size (sz_mul data_len data_elem_size)
            in if elem_size > UINT32_MAX then Inl OUT_OF_RANGE
               else and_then (message_len_plus_uint_x (word_of_nat elem_size)) (\<lambda>(_, s).
                      let elem_size = sz_add elem_size s
                      in if elem_size > UINT32_MAX then Inl OUT_OF_RANGE else Inr elem_size))"

definition data_header4_flags :: "const_string \<Rightarrow> u8" where
  "data_header4_flags element_name =
     (if length element_name \<noteq> 0 then FLAGS_SET 0 MESSAGEELEMENT_FLAGS_ELEMENT_NAME_STR else 0)"

definition data_header4_fields ::
  "const_string \<Rightarrow> size_t \<Rightarrow> u16 \<Rightarrow> size_t \<Rightarrow> messageelement_buffer_info wframe step list" where
  "data_header4_fields element_name data_len data_type elem_size =
     (let flags = data_header4_flags element_name in
     [note_info (\<lambda>p i. i\<lparr>li_start_buffer_offset := p\<rparr>),
      note_info (\<lambda>_ i. i\<lparr>li_element_size_offset := SIZE_T_MAX\<rparr>),
      wr_f message_write_uint_x (word_of_nat elem_size),
      wr_f message_write_uint8 flags,
      note_info (\<lambda>_ i. i\<lparr>li_element_name_str_offset := SIZE_T_MAX\<rparr>),
      if_steps (\<lambda>_. FLAGS_CHECK flags MESSAGEELEMENT_FLAGS_ELEMENT_NAME_STR)
        [wr_f write_header_string4 element_name] [],
      wr_f message_write_uint16 data_type,
      return_if (\<lambda>_. data_len > UINT32_MAX) OUT_OF_RANGE,
      note_info (\<lambda>_ i. i\<lparr>li_element_count_offset := SIZE_T_MAX\<rparr>),
      wr_f message_write_uint_x (word_of_nat data_len),
      note_info (\<lambda>p i. i\<lparr>li_data_start_offset := p\<rparr>),
      note_info (\<lambda>p i. i\<lparr>li_header_size := sz_sub p (li_start_buffer_offset i)\<rparr>)])"

definition messageelement_writer_write_data_header4_ex ::
  "buffer_vec \<Rightarrow> size_t \<Rightarrow> const_string \<Rightarrow> size_t \<Rightarrow> u16 \<Rightarrow> size_t \<Rightarrow> messageelement_buffer_info \<Rightarrow> size_t
     \<Rightarrow> status \<times> buffer_vec \<times> size_t \<times> messageelement_buffer_info \<times> size_t" where
  "messageelement_writer_write_data_header4_ex bv p element_name data_len data_type data_elem_size info element_size =
     (case write_data_header4_size element_name data_len data_elem_size of
        Inl e \<Rightarrow> (Err e, bv, p, info, element_size)
      | Inr elem_size \<Rightarrow>
          (case end_write0 (run_steps (data_header4_fields element_name data_len data_type elem_size)
                  \<lparr>w_buf = bv, w_off = p, w_info = info\<rparr>) of
             (OK, bv, p, info) \<Rightarrow> (OK, bv, p, info, elem_size)
           | (Err e, bv, p, info) \<Rightarrow> (Err e, bv, p, info, element_size)))"

end
