(* ===== verification/RRL_Walk.thy ===== *)
theory RRL_Walk
  imports RRL_Element
begin

text \<open>
  The cursors of src/message.c over the entries of a message, the elements of an entry and the
  elements nested in an element: entering, moving on, searching by name, and reading data. A reader
  is a window on the buffer: where its item starts, the size of the item, and the bytes of the
  enclosing item that remain behind it.
\<close>

definition DATATYPE_STRING :: u16 where "DATATYPE_STRING = 11"

text \<open>The types whose data are nested elements.\<close>

definition nested_types :: "u16 list" where
  "nested_types = [101, 102, 103, 108, 117, 109, 110, 111, 115, 116]"


section \<open>Entries of a message\<close>

definition zero_message_header :: "rstring message_header" where
  "zero_message_header =
     \<lparr>mh_message_size = 0, mh_message_version = 0, mh_header_size = 0, mh_message_flags = 0,
      mh_sender_nodeid = nodeid_any, mh_receiver_nodeid = nodeid_any, mh_sender_endpoint = 0,
      mh_receiver_endpoint = 0, mh_priority = 0, mh_sender_nodename = null_string,
      mh_receiver_nodename = null_string, mh_metadata = null_string, mh_entry_count = 0,
      mh_message_id = 0, mh_message_res_id = 0\<rparr>"

definition zero_message_info :: message_buffer_info where
  "zero_message_info = \<lparr>mi_start_buffer_offset = 0, mi_header_size = 0, mi_entry_count_offset = 0,
     mi_entry_start_offset = 0\<rparr>"

definition message_reader_begin_read_entries ::
  "buffer_vec \<Rightarrow> message_reader \<Rightarrow> messageentry_reader \<Rightarrow> status \<times> messageentry_reader" where
  "message_reader_begin_read_entries bv reader entry_reader =
     (case message_reader_read_header_ex bv reader zero_message_header zero_message_info of
        (Err e, _) \<Rightarrow> (Err e, entry_reader)
      | (OK, message_header, message_info) \<Rightarrow>
          (let start = sz_add (mr_buffer_offset reader) (unat (mh_header_size message_header)) in
           case message_read_count (mr_message_version reader) bv start of
             Inl e \<Rightarrow> (Err e, entry_reader)
           | Inr (entry_size, _) \<Rightarrow>
               (if sz_add start (unat entry_size) > mr_buffer_count reader then (Err PROTOCOL, entry_reader)
                else (OK, \<lparr>er_buffer_offset = sz_add (mr_buffer_offset reader) start,
                           er_buffer_count = unat entry_size,
                           er_buffer_remaining = sz_sub (sz_sub (mr_buffer_count reader) start) (unat entry_size),
                           er_entry_count_offset = mi_entry_count_offset message_info,
                           er_current_entry = 0,
                           er_message_version = mr_message_version reader\<rparr>))))"

definition messageentry_reader_move_next ::
  "buffer_vec \<Rightarrow> messageentry_reader \<Rightarrow> status \<times> messageentry_reader" where
  "messageentry_reader_move_next bv r =
     (let next = sz_add (er_buffer_offset r) (er_buffer_count r) in
      if er_entry_count_offset r = SIZE_T_MAX then (Err NO_MORE, r)
      else case message_read_count2 (er_message_version r) bv (er_entry_count_offset r) of
        Inl e \<Rightarrow> (Err e, r)
      | Inr (entry_count, _) \<Rightarrow>
          (if \<not> sz_add (er_current_entry r) 1 < unat entry_count then (Err NO_MORE, r)
           else case message_read_count (er_message_version r) bv next of
             Inl e \<Rightarrow> (Err e, r)
           | Inr (entry_size, _) \<Rightarrow>
               (if er_buffer_remaining r < unat entry_size then (Err PROTOCOL, r)
                else (OK, r\<lparr>er_buffer_offset := next,
                            er_buffer_count := unat entry_size,
                            er_buffer_remaining := sz_sub (er_buffer_remaining r) (unat entry_size),
                            er_current_entry := sz_add (er_current_entry r) 1\<rparr>))))"


section \<open>Elements of an entry\<close>

definition messageentry_reader_begin_read_elements ::
  "buffer_vec \<Rightarrow> messageentry_reader \<Rightarrow> messageelement_reader \<Rightarrow> status \<times> messageelement_reader" where
  "messageentry_reader_begin_read_elements bv entry_reader element_reader =
     (case messageentry_reader_read_header_ex bv entry_reader zero_entry_header no_entry_info of
        (Err e, _) \<Rightarrow> (Err e, element_reader)
      | (OK, header, info) \<Rightarrow>
          (if eh_element_count header = 0 then (Err NO_MORE, element_reader)
           else case message_read_count (er_message_version entry_reader) bv (ei_element_start_offset info) of
             Inl e \<Rightarrow> (Err e, element_reader)
           | Inr (element_size, _) \<Rightarrow>
               (if sz_add (sz_sub (ei_element_start_offset info) (er_buffer_offset entry_reader))
                     (unat element_size) > er_buffer_count entry_reader
                then (Err PROTOCOL, element_reader)
                else (OK, \<lparr>lr_buffer_offset = ei_element_start_offset info,
                           lr_buffer_count = unat element_size,
                           lr_buffer_remaining = sz_sub (sz_sub (er_buffer_count entry_reader)
                                                            (ei_header_size info)) (unat element_size),
                           lr_current_element = 0,
                           lr_total_elements = unat (eh_element_count header),
                           lr_message_version = er_message_version entry_reader\<rparr>))))"

definition messageelement_reader_move_next ::
  "buffer_vec \<Rightarrow> messageelement_reader \<Rightarrow> status \<times> messageelement_reader" where
  "messageelement_reader_move_next bv r =
     (let next = sz_add (lr_buffer_offset r) (lr_buffer_count r) in
      if \<not> sz_add (lr_current_element r) 1 < lr_total_elements r then (Err NO_MORE, r)
      else case message_read_count (lr_message_version r) bv next of
        Inl e \<Rightarrow> (Err e, r)
      | Inr (element_size, _) \<Rightarrow>
          (if lr_buffer_remaining r < unat element_size then (Err PROTOCOL, r)
           else (OK, r\<lparr>lr_buffer_offset := next,
                       lr_buffer_count := unat element_size,
                       lr_buffer_remaining := sz_sub (lr_buffer_remaining r) (unat element_size),
                       lr_current_element := sz_add (lr_current_element r) 1\<rparr>)))"

definition messageelement_reader_begin_read_nested_elements ::
  "buffer_vec \<Rightarrow> messageelement_reader \<Rightarrow> messageelement_reader \<Rightarrow> status \<times> messageelement_reader" where
  "messageelement_reader_begin_read_nested_elements bv element_reader nested_reader =
     (case messageelement_reader_read_header_ex bv element_reader zero_element_header no_element_info of
        (Err e, _) \<Rightarrow> (Err e, nested_reader)
      | (OK, header, info) \<Rightarrow>
          (if lh_element_type header \<notin> set nested_types then (Err MESSAGEELEMENT_TYPE_MISMATCH, nested_reader)
           else if lh_data_count header = 0 then (Err NO_MORE, nested_reader)
           else case message_read_count (lr_message_version element_reader) bv (li_data_start_offset info) of
             Inl e \<Rightarrow> (Err e, nested_reader)
           | Inr (nested_size, _) \<Rightarrow>
               (if sz_sub (lr_buffer_count element_reader) (li_header_size info) < unat nested_size
                then (Err PROTOCOL, nested_reader)
                else (OK, \<lparr>lr_buffer_offset = li_data_start_offset info,
                           lr_buffer_count = unat nested_size,
                           lr_buffer_remaining = sz_sub (sz_sub (lr_buffer_count element_reader)
                                                            (li_header_size info)) (unat nested_size),
                           lr_current_element = 0,
                           lr_total_elements = unat (lh_data_count header),
                           lr_message_version = lr_message_version element_reader\<rparr>))))"


section \<open>Searching an element by name\<close>

text \<open>
  The characters of a name are compared in blocks of the 16 bytes of \<open>temp_str_data\<close>; here
  \<open>temp\<close> are those bytes.
\<close>

function name_compare ::
  "buffer_vec \<Rightarrow> size_t \<Rightarrow> const_string \<Rightarrow> byte list \<Rightarrow> size_t \<Rightarrow> size_t \<Rightarrow> error + bool" where
  "name_compare bv place name temp len off =
     (let str_read = (if len \<le> 16 then len else 16) in
      case buffer_vec_copy_to_string bv (sz_add place off) \<lparr>str_data = Some temp, str_len = 16\<rparr> 0 str_read of
        (Err e, _) \<Rightarrow> Inl e
      | (OK, temp_str) \<Rightarrow>
          (if take str_read (string_memory temp_str) \<noteq> take str_read (drop off name) then Inr False
           else if len - str_read = 0 then Inr True
           else name_compare bv place name (string_memory temp_str) (len - str_read)
                  (sz_add off str_read)))"
  by pat_completeness auto
termination
  by (relation "measure (\<lambda>(bv, place, name, temp, len, off). len)") (auto split: if_splits)

text \<open>One pass of the search: whether the element at the cursor has the name.\<close>

definition element_has_name :: "buffer_vec \<Rightarrow> const_string \<Rightarrow> messageelement_reader \<Rightarrow> error + bool" where
  "element_has_name bv name r =
     (case messageelement_reader_read_header_ex bv r zero_element_header no_element_info of
        (Err e, _) \<Rightarrow> Inl e
      | (OK, header, info) \<Rightarrow>
          (if str_len (lh_element_name header) = length name
           then name_compare bv (li_element_name_str_offset info) name (replicate 16 0)
                  (str_len (lh_element_name header)) 0
           else Inr False))"

definition not_found :: "error \<Rightarrow> error" where
  "not_found e = (if e = NO_MORE then MESSAGEELEMENT_NOT_FOUND else e)"

text \<open>The loop \<open>while (1)\<close> of a search; \<open>None\<close> would be a search that does not end.\<close>

partial_function (option) find_loop ::
  "buffer_vec \<Rightarrow> const_string \<Rightarrow> messageelement_reader \<Rightarrow> (status \<times> messageelement_reader) option" where
  "find_loop bv name r =
     (case element_has_name bv name r of
        Inl e \<Rightarrow> Some (Err e, r)
      | Inr found \<Rightarrow>
          (if found then Some (OK, r)
           else case messageelement_reader_move_next bv r of
             (Err e, r) \<Rightarrow> Some (Err (not_found e), r)
           | (OK, r) \<Rightarrow> find_loop bv name r))"

definition messageentry_reader_find_element ::
  "buffer_vec \<Rightarrow> messageentry_reader \<Rightarrow> const_string \<Rightarrow> messageelement_reader
     \<Rightarrow> (status \<times> messageelement_reader) option" where
  "messageentry_reader_find_element bv entry_reader name element_reader =
     (case messageentry_reader_begin_read_elements bv entry_reader element_reader of
        (Err e, r) \<Rightarrow> Some (Err (not_found e), r)
      | (OK, r) \<Rightarrow> find_loop bv name r)"

definition messageelement_reader_find_nested_element ::
  "buffer_vec \<Rightarrow> messageelement_reader \<Rightarrow> const_string \<Rightarrow> messageelement_reader
     \<Rightarrow> (status \<times> messageelement_reader) option" where
  "messageelement_reader_find_nested_element bv element_reader name nested_reader =
     (case messageelement_reader_begin_read_nested_elements bv element_reader nested_reader of
        (Err e, r) \<Rightarrow> Some (Err (not_found e), r)
      | (OK, r) \<Rightarrow> find_loop bv name r)"

text \<open>
  The checks that follow a search. The header is read again from the element found, and its type
  and count are compared with what the caller expects.
\<close>

definition after_find ::
  "buffer_vec \<Rightarrow> (rstring messageelement_header \<Rightarrow> status) \<Rightarrow> (status \<times> messageelement_reader) option
     \<Rightarrow> (status \<times> messageelement_reader) option" where
  "after_find bv check res =
     (case res of
        None \<Rightarrow> None
      | Some (Err e, r) \<Rightarrow> Some (Err e, r)
      | Some (OK, r) \<Rightarrow>
          (case messageelement_reader_read_header bv r zero_element_header of
             (Err e, _) \<Rightarrow> Some (Err e, r)
           | (OK, header) \<Rightarrow> Some (check header, r)))"

definition check_scalar :: "u16 \<Rightarrow> rstring messageelement_header \<Rightarrow> status" where
  "check_scalar expected_data_type header =
     (if lh_element_type header \<noteq> expected_data_type then Err MESSAGEELEMENT_TYPE_MISMATCH
      else if lh_data_count header \<noteq> 1 then Err MESSAGEELEMENT_TYPE_MISMATCH else OK)"

definition check_array :: "u16 \<Rightarrow> u32 \<Rightarrow> bool \<Rightarrow> rstring messageelement_header \<Rightarrow> status" where
  "check_array expected_data_type expected_len var_length header =
     (if lh_element_type header \<noteq> expected_data_type then Err MESSAGEELEMENT_TYPE_MISMATCH
      else if \<not> var_length then
        (if lh_data_count header \<noteq> expected_len then Err MESSAGEELEMENT_TYPE_MISMATCH else OK)
      else if lh_data_count header > expected_len then Err OUT_OF_RANGE else OK)"

definition check_string :: "u32 \<Rightarrow> rstring messageelement_header \<Rightarrow> status" where
  "check_string expected_max_len header =
     (if lh_element_type header \<noteq> DATATYPE_STRING then Err MESSAGEELEMENT_TYPE_MISMATCH
      else if lh_data_count header > expected_max_len then Err OUT_OF_RANGE else OK)"

definition messageentry_reader_find_element_verify_scalar where
  "messageentry_reader_find_element_verify_scalar bv entry_reader name element_reader expected_data_type =
     after_find bv (check_scalar expected_data_type)
       (messageentry_reader_find_element bv entry_reader name element_reader)"

definition messageentry_reader_find_element_verify_array where
  "messageentry_reader_find_element_verify_array bv entry_reader name element_reader expected_data_type
       expected_len var_length =
     after_find bv (check_array expected_data_type expected_len var_length)
       (messageentry_reader_find_element bv entry_reader name element_reader)"

definition messageentry_reader_find_element_verify_string where
  "messageentry_reader_find_element_verify_string bv entry_reader name element_reader expected_max_len =
     after_find bv (check_string expected_max_len)
       (messageentry_reader_find_element bv entry_reader name element_reader)"

definition messageelement_reader_find_nested_element_verify_scalar where
  "messageelement_reader_find_nested_element_verify_scalar bv element_reader name nested_reader expected_data_type =
     after_find bv (check_scalar expected_data_type)
       (messageelement_reader_find_nested_element bv element_reader name nested_reader)"

definition messageelement_reader_find_nested_element_verify_array where
  "messageelement_reader_find_nested_element_verify_array bv element_reader name nested_reader
       expected_data_type expected_len var_length =
     after_find bv (check_array expected_data_type expected_len var_length)
       (messageelement_reader_find_nested_element bv element_reader name nested_reader)"

definition messageelement_reader_find_nested_element_verify_string where
  "messageelement_reader_find_nested_element_verify_string bv element_reader name nested_reader expected_max_len =
     after_find bv (check_string expected_max_len)
       (messageelement_reader_find_nested_element bv element_reader name nested_reader)"


section \<open>Data of an element\<close>

text \<open>The place, the size in bytes and the number of the items of an element of a given type.\<close>

definition messageelement_reader_get_data_info ::
  "buffer_vec \<Rightarrow> messageelement_reader \<Rightarrow> u16 \<Rightarrow> size_t \<Rightarrow> error + (size_t \<times> size_t \<times> u32)" where
  "messageelement_reader_get_data_info bv r data_type data_element_size =
     (case messageelement_reader_read_header_ex bv r zero_element_header no_element_info of
        (Err e, _) \<Rightarrow> Inl e
      | (OK, header, info) \<Rightarrow>
          (if lh_element_type header \<noteq> data_type then Inl MESSAGEELEMENT_TYPE_MISMATCH
           else let data_size = sz_sub (unat (lh_element_size header)) (li_header_size info)
                in if data_element_size \<noteq> 0 \<and>
                      sz_mul data_element_size (unat (lh_data_count header)) \<noteq> data_size
                   then Inl PROTOCOL
                   else Inr (li_data_start_offset info, data_size, lh_data_count header)))"

text \<open>\<open>dest_buf\<close> has room for \<open>*dest_len\<close> items; \<open>*dest_len\<close> is the third result.\<close>

definition messageelement_reader_read_data_ex ::
  "buffer_vec \<Rightarrow> messageelement_reader \<Rightarrow> byte list \<Rightarrow> size_t \<Rightarrow> u16 \<Rightarrow> size_t \<Rightarrow> status \<times> byte list \<times> size_t" where
  "messageelement_reader_read_data_ex bv r dest_buf dest_len dest_elem_type dest_elem_size =
     (case messageelement_reader_get_data_info bv r dest_elem_type dest_elem_size of
        Inl e \<Rightarrow> (Err e, dest_buf, dest_len)
      | Inr (data_offset, _, data_count) \<Rightarrow>
          (case buffer_vec_copy_to_mem bv data_offset dest_buf dest_len 0 dest_elem_size (unat data_count) of
             (Err e, dest_buf) \<Rightarrow> (Err e, dest_buf, dest_len)
           | (OK, dest_buf) \<Rightarrow> (OK, dest_buf, unat data_count)))"

definition messageelement_reader_read_data_scalar_ex ::
  "buffer_vec \<Rightarrow> messageelement_reader \<Rightarrow> byte list \<Rightarrow> u16 \<Rightarrow> size_t \<Rightarrow> status \<times> byte list" where
  "messageelement_reader_read_data_scalar_ex bv r dest_scalar dest_elem_type dest_elem_size =
     (case messageelement_reader_get_data_info bv r dest_elem_type dest_elem_size of
        Inl e \<Rightarrow> (Err e, dest_scalar)
      | Inr (data_offset, _, data_count) \<Rightarrow>
          (if data_count \<noteq> 1 then (Err PROTOCOL, dest_scalar)
           else case buffer_vec_copy_vec_ex bv data_offset 1 dest_elem_size
                       [\<lparr>buf_data = dest_scalar, buf_len = 1\<rparr>] 0 dest_elem_size 1 of
                  (st, d) \<Rightarrow> (st, buf_data (hd d))))"

end
