(* ===== verification/RRL_Build.thy ===== *)
theory RRL_Build
  imports RRL_Walk RRL_HeaderWrite
begin

text \<open>
  The routines of src/message.c that build a message: a header is written with its size and count
  still zero, the contents follow, and the routine that ends the message, entry or element writes
  the two numbers over the header. A writer is the free part of the buffer behind what has been
  written, with the totals of what was written into it and the places still to be patched.
\<close>

definition message_writer_init ::
  "message_writer \<Rightarrow> buffer_vec \<Rightarrow> size_t \<Rightarrow> size_t \<Rightarrow> u16 \<Rightarrow> status \<times> message_writer" where
  "message_writer_init writer bv offset count message_version =
     (if buffer_vec_len bv < sz_add offset count then (Err OUT_OF_RANGE, writer)
      else (OK, writer\<lparr>mw_buffer_offset := offset, mw_buffer_count := count,
                       mw_message_version := message_version\<rparr>))"

text \<open>
  The results of a building routine: the buffer and the records it changes. On failure the
  records keep their values. The local \<open>buffer_info\<close> of a routine is not initialised in the
  code; here it starts with zeros, and the header writer sets every component that is used.
\<close>

definition message_writer_begin_message_ex ::
  "buffer_vec \<Rightarrow> message_writer \<Rightarrow> const_string message_header \<Rightarrow> messageentry_writer \<Rightarrow> u8
     \<Rightarrow> status \<times> buffer_vec \<times> message_writer \<times> const_string message_header \<times> messageentry_writer" where
  "message_writer_begin_message_ex bv writer header entry_writer message_flags_mask =
     (let info = \<lparr>mi_start_buffer_offset = 0, mi_header_size = 0, mi_entry_count_offset = 0,
                  mi_entry_start_offset = 0\<rparr>;
          p = mw_buffer_offset writer;
          r = (if mw_message_version writer = 2 then message_writer_write_header2_ex bv p header info
               else if mw_message_version writer = 4
               then message_writer_write_header4_ex bv p header message_flags_mask info
               else (Err PROTOCOL, bv, p, header, info))
      in case r of
           (Err e, bv, _, header, _) \<Rightarrow> (Err e, bv, writer, header, entry_writer)
         | (OK, bv, _, header, info) \<Rightarrow>
             (OK, bv,
              writer\<lparr>mw_message_size_offset := sz_add (mi_start_buffer_offset info) 4,
                     mw_entry_count_offset := mi_entry_count_offset info\<rparr>,
              header,
              entry_writer\<lparr>ew_buffer_offset := sz_add (mw_buffer_offset writer) (mi_header_size info),
                           ew_buffer_count := sz_sub (mw_buffer_count writer) (mi_header_size info),
                           ew_entries_written_count := 0, ew_entries_written_size := 0,
                           ew_message_version := mw_message_version writer\<rparr>))"

definition message_writer_begin_message ::
  "buffer_vec \<Rightarrow> message_writer \<Rightarrow> const_string message_header \<Rightarrow> messageentry_writer
     \<Rightarrow> status \<times> buffer_vec \<times> message_writer \<times> const_string message_header \<times> messageentry_writer" where
  "message_writer_begin_message bv writer header entry_writer =
     message_writer_begin_message_ex bv writer header entry_writer 0xFF"

text \<open>The number of entries of a message, where the header has a place for it.\<close>

definition write_entry_count :: "buffer_vec \<Rightarrow> message_writer \<Rightarrow> size_t \<Rightarrow> status \<times> buffer_vec" where
  "write_entry_count bv writer n =
     (if mw_entry_count_offset writer \<noteq> SIZE_T_MAX then
        (if mw_message_version writer = 2 then
           (case message_write_uint16 bv (mw_entry_count_offset writer) (word_of_nat n) of (st, bv, _) \<Rightarrow> (st, bv))
         else if mw_message_version writer = 4 then
           message_write_padded_uint_x_val bv (mw_entry_count_offset writer) (word_of_nat n)
         else (Err PROTOCOL, bv))
      else if n \<noteq> 1 then (Err PROTOCOL, bv) else (OK, bv))"

definition message_writer_end_message ::
  "buffer_vec \<Rightarrow> message_writer \<Rightarrow> const_string message_header \<Rightarrow> messageentry_writer
     \<Rightarrow> status \<times> buffer_vec \<times> const_string message_header" where
  "message_writer_end_message bv writer header entry_writer =
     (let message_size = sz_add (ew_entries_written_size entry_writer) (unat (mh_header_size header)) in
      if message_size > UINT32_MAX then (Err OUT_OF_RANGE, bv, header)
      else case buffer_vec_copy_from_uint32 bv (mw_message_size_offset writer) (word_of_nat message_size) of
        (Err e, bv) \<Rightarrow> (Err e, bv, header)
      | (OK, bv) \<Rightarrow>
          (case write_entry_count bv writer (ew_entries_written_count entry_writer) of
             (Err e, bv) \<Rightarrow> (Err e, bv, header)
           | (OK, bv) \<Rightarrow>
               (OK, bv, header\<lparr>mh_message_size := word_of_nat message_size,
                               mh_entry_count := word_of_nat (ew_entries_written_count entry_writer)\<rparr>)))"


section \<open>Entries\<close>

definition messageentry_writer_begin_entry ::
  "buffer_vec \<Rightarrow> messageentry_writer \<Rightarrow> const_string messageentry_header \<Rightarrow> messageelement_writer
     \<Rightarrow> status \<times> buffer_vec \<times> messageentry_writer \<times> messageelement_writer" where
  "messageentry_writer_begin_entry bv entry_writer header element_writer =
     (if \<not> ew_entries_written_count entry_writer < UINT16_MAX then (Err PROTOCOL, bv, entry_writer, element_writer)
      else let p = ew_buffer_offset entry_writer;
               r = (if ew_message_version entry_writer = 2
                    then messageentry_writer_write_header2_ex bv entry_writer p header no_entry_info
                    else if ew_message_version entry_writer = 4
                    then messageentry_writer_write_header4_ex bv entry_writer p header no_entry_info
                    else (Err PROTOCOL, bv, p, no_entry_info))
           in case r of
                (Err e, bv, _) \<Rightarrow> (Err e, bv, entry_writer, element_writer)
              | (OK, bv, _, info) \<Rightarrow>
                  (OK, bv,
                   entry_writer\<lparr>ew_entry_size_offset := ei_entry_size_offset info,
                                ew_element_count_offset := ei_element_count_offset info,
                                ew_entry_header_size := ei_header_size info\<rparr>,
                   element_writer\<lparr>lw_buffer_offset := sz_add (ew_buffer_offset entry_writer) (ei_header_size info),
                                  lw_buffer_count := sz_sub (ew_buffer_count entry_writer) (ei_header_size info),
                                  lw_elements_written_count := 0, lw_elements_written_size := 0,
                                  lw_message_version := ew_message_version entry_writer\<rparr>))"

text \<open>The size and the count of a finished entry, written over its header.\<close>

definition patch_entry :: "buffer_vec \<Rightarrow> u16 \<Rightarrow> size_t \<Rightarrow> u32 \<Rightarrow> size_t \<Rightarrow> size_t \<Rightarrow> status \<times> buffer_vec" where
  "patch_entry bv ver size_offset new_size count_offset count =
     (if ver = 2 then
        (case message_write_uint32 bv size_offset new_size of
           (Err e, bv, _) \<Rightarrow> (Err e, bv)
         | (OK, bv, _) \<Rightarrow>
             (case message_write_uint16 bv count_offset (word_of_nat count) of (st, bv, _) \<Rightarrow> (st, bv)))
      else if ver = 4 then
        (case message_write_padded_uint_x_val bv size_offset new_size of
           (Err e, bv) \<Rightarrow> (Err e, bv)
         | (OK, bv) \<Rightarrow> message_write_padded_uint_x_val bv count_offset (word_of_nat count))
      else (Err PROTOCOL, bv))"

definition messageentry_writer_end_entry ::
  "buffer_vec \<Rightarrow> messageentry_writer \<Rightarrow> messageelement_writer \<Rightarrow> status \<times> buffer_vec \<times> messageentry_writer" where
  "messageentry_writer_end_entry bv entry_writer element_writer =
     (let entry_size = word_of_nat (sz_add (ew_entry_header_size entry_writer)
                                           (lw_elements_written_size element_writer)) :: u32 in
      case patch_entry bv (ew_message_version entry_writer) (ew_entry_size_offset entry_writer) entry_size
             (ew_element_count_offset entry_writer) (lw_elements_written_count element_writer) of
        (Err e, bv) \<Rightarrow> (Err e, bv, entry_writer)
      | (OK, bv) \<Rightarrow>
          (OK, bv,
           entry_writer\<lparr>ew_entries_written_count := sz_add (ew_entries_written_count entry_writer) 1,
                        ew_entries_written_size := sz_add (ew_entries_written_size entry_writer) (unat entry_size),
                        ew_buffer_offset := sz_add (ew_buffer_offset entry_writer) (unat entry_size),
                        ew_buffer_count := sz_sub (ew_buffer_count entry_writer) (unat entry_size)\<rparr>))"


section \<open>Elements\<close>

definition messageelement_writer_begin_nested_element ::
  "buffer_vec \<Rightarrow> messageelement_writer \<Rightarrow> const_string messageelement_header \<Rightarrow> messageelement_writer
     \<Rightarrow> status \<times> buffer_vec \<times> messageelement_writer \<times> messageelement_writer" where
  "messageelement_writer_begin_nested_element bv element_writer header nested_writer =
     (if \<not> lw_elements_written_count element_writer < UINT32_MAX
      then (Err PROTOCOL, bv, element_writer, nested_writer)
      else let p = lw_buffer_offset element_writer;
               r = (if lw_message_version element_writer = 2
                    then messageelement_writer_write_header2_ex bv element_writer p header no_element_info
                    else if lw_message_version element_writer = 4
                    then messageelement_writer_write_header4_ex bv element_writer p header no_element_info
                    else (Err PROTOCOL, bv, p, no_element_info))
           in case r of
                (Err e, bv, _) \<Rightarrow> (Err e, bv, element_writer, nested_writer)
              | (OK, bv, _, info) \<Rightarrow>
                  (OK, bv,
                   element_writer\<lparr>lw_element_size_offset := li_element_size_offset info,
                                  lw_data_count_offset := li_element_count_offset info,
                                  lw_element_header_size := li_header_size info\<rparr>,
                   nested_writer\<lparr>lw_buffer_offset := li_data_start_offset info,
                                 lw_buffer_count := sz_sub (lw_buffer_count element_writer) (li_header_size info),
                                 lw_elements_written_count := 0, lw_elements_written_size := 0,
                                 lw_message_version := lw_message_version element_writer\<rparr>))"

definition patch_element :: "buffer_vec \<Rightarrow> u16 \<Rightarrow> size_t \<Rightarrow> u32 \<Rightarrow> size_t \<Rightarrow> size_t \<Rightarrow> status \<times> buffer_vec" where
  "patch_element bv ver size_offset new_size count_offset count =
     (if ver = 2 then
        (case message_write_uint32 bv size_offset new_size of
           (Err e, bv, _) \<Rightarrow> (Err e, bv)
         | (OK, bv, _) \<Rightarrow>
             (case message_write_uint32 bv count_offset (word_of_nat count) of (st, bv, _) \<Rightarrow> (st, bv)))
      else if ver = 4 then
        (case message_write_padded_uint_x_val bv size_offset new_size of
           (Err e, bv) \<Rightarrow> (Err e, bv)
         | (OK, bv) \<Rightarrow> message_write_padded_uint_x_val bv count_offset (word_of_nat count))
      else (Err PROTOCOL, bv))"

text \<open>\<open>elements_written_count++\<close> and the three updates by the size that go with it.\<close>

definition element_written :: "size_t \<Rightarrow> messageelement_writer \<Rightarrow> messageelement_writer" where
  "element_written n w =
     w\<lparr>lw_elements_written_count := sz_add (lw_elements_written_count w) 1,
       lw_elements_written_size := sz_add (lw_elements_written_size w) n,
       lw_buffer_offset := sz_add (lw_buffer_offset w) n,
       lw_buffer_count := sz_sub (lw_buffer_count w) n\<rparr>"

definition messageelement_writer_end_nested_element ::
  "buffer_vec \<Rightarrow> messageelement_writer \<Rightarrow> messageelement_writer \<Rightarrow> status \<times> buffer_vec \<times> messageelement_writer" where
  "messageelement_writer_end_nested_element bv element_writer nested_writer =
     (let element_size = sz_add (lw_element_header_size element_writer) (lw_elements_written_size nested_writer) in
      if element_size > UINT32_MAX then (Err OUT_OF_RANGE, bv, element_writer)
      else case patch_element bv (lw_message_version element_writer) (lw_element_size_offset element_writer)
                  (word_of_nat element_size) (lw_data_count_offset element_writer)
                  (lw_elements_written_count nested_writer) of
             (Err e, bv) \<Rightarrow> (Err e, bv, element_writer)
           | (OK, bv) \<Rightarrow> (OK, bv, element_written element_size element_writer))"

text \<open>An element of plain data: \<open>data_buf\<close> holds \<open>data_len\<close> items of \<open>data_elem_size\<close> bytes.\<close>

definition messageelement_writer_write_raw ::
  "buffer_vec \<Rightarrow> messageelement_writer \<Rightarrow> const_string \<Rightarrow> byte list \<Rightarrow> size_t \<Rightarrow> u16 \<Rightarrow> size_t
     \<Rightarrow> status \<times> buffer_vec \<times> messageelement_writer" where
  "messageelement_writer_write_raw bv writer element_name data_buf data_len data_type data_elem_size =
     (if \<not> lw_elements_written_count writer < UINT32_MAX then (Err PROTOCOL, bv, writer)
      else let p = lw_buffer_offset writer;
               r = (if lw_message_version writer = 2
                    then messageelement_writer_write_data_header2_ex bv p element_name data_len data_type
                           data_elem_size no_element_info 0
                    else if lw_message_version writer = 4
                    then messageelement_writer_write_data_header4_ex bv p element_name data_len data_type
                           data_elem_size no_element_info 0
                    else (Err PROTOCOL, bv, p, no_element_info, 0))
           in case r of
                (Err e, bv, _) \<Rightarrow> (Err e, bv, writer)
              | (OK, bv, _, info, elem_size) \<Rightarrow>
                  (case buffer_vec_copy_from_mem bv (li_data_start_offset info) data_buf data_len 0
                          data_elem_size data_len of
                     (Err e, bv) \<Rightarrow> (Err e, bv, writer)
                   | (OK, bv) \<Rightarrow> (OK, bv, element_written elem_size writer)))"


section \<open>Headers of a message that is passed on\<close>

text \<open>
  A header that was read is turned into one that can be written by copying its bytes: the strings
  of the copy are those of the original.
\<close>

definition message_header_shallow_copy_from_mutable :: "rstring message_header \<Rightarrow> const_string message_header" where
  "message_header_shallow_copy_from_mutable h =
     \<lparr>mh_message_size = mh_message_size h, mh_message_version = mh_message_version h,
      mh_header_size = mh_header_size h, mh_message_flags = mh_message_flags h,
      mh_sender_nodeid = mh_sender_nodeid h, mh_receiver_nodeid = mh_receiver_nodeid h,
      mh_sender_endpoint = mh_sender_endpoint h, mh_receiver_endpoint = mh_receiver_endpoint h,
      mh_priority = mh_priority h, mh_sender_nodename = string_value (mh_sender_nodename h),
      mh_receiver_nodename = string_value (mh_receiver_nodename h), mh_metadata = string_value (mh_metadata h),
      mh_entry_count = mh_entry_count h, mh_message_id = mh_message_id h,
      mh_message_res_id = mh_message_res_id h\<rparr>"

definition messageentry_header_shallow_copy_from_mutable ::
  "rstring messageentry_header \<Rightarrow> const_string messageentry_header" where
  "messageentry_header_shallow_copy_from_mutable h =
     \<lparr>eh_entry_size = eh_entry_size h, eh_entry_flags = eh_entry_flags h, eh_entry_type = eh_entry_type h,
      eh_service_path = string_value (eh_service_path h), eh_service_path_code = eh_service_path_code h,
      eh_member_name = string_value (eh_member_name h), eh_member_name_code = eh_member_name_code h,
      eh_request_id = eh_request_id h, eh_error = eh_error h,
      eh_metadata = string_value (eh_metadata h), eh_element_count = eh_element_count h\<rparr>"

definition messageelement_header_shallow_copy_from_mutable ::
  "rstring messageelement_header \<Rightarrow> const_string messageelement_header" where
  "messageelement_header_shallow_copy_from_mutable h =
     \<lparr>lh_element_size = lh_element_size h, lh_element_flags = lh_element_flags h,
      lh_element_name = string_value (lh_element_name h), lh_element_name_code = lh_element_name_code h,
      lh_element_number = lh_element_number h, lh_element_type = lh_element_type h,
      lh_element_type_name = string_value (lh_element_type_name h),
      lh_element_type_name_code = lh_element_type_name_code h,
      lh_metadata = string_value (lh_metadata h), lh_data_count = lh_data_count h\<rparr>"

end
