(* ===== verification/RRL_EntryCodec.thy ===== *)
theory RRL_EntryCodec
  imports RRL_Entry RRL_HeaderWrite
begin

text \<open>
  The wire format of the message entry headers as functions from an abstract header to bytes; the
  readers of RRL_Entry invert it, and the writers produce it with the size and the element count
  still zero.
\<close>


section \<open>Version 2\<close>

definition entry2_ok :: "const_string messageentry_header \<Rightarrow> bool" where
  "entry2_ok h \<longleftrightarrow> str2_ok (eh_service_path h) \<and> str2_ok (eh_member_name h) \<and> str2_ok (eh_metadata h) \<and>
     unat (eh_element_count h) \<le> UINT16_MAX"

definition enc_entry2_before_count :: "const_string messageentry_header \<Rightarrow> byte list" where
  "enc_entry2_before_count h = u32_bytes (eh_entry_size h) @ u16_bytes (eh_entry_type h) @ u16_bytes 0 @
     enc_str2 (eh_service_path h) @ enc_str2 (eh_member_name h) @ u32_bytes (eh_request_id h) @
     u16_bytes (eh_error h) @ enc_str2 (eh_metadata h)"

definition enc_entry2 :: "const_string messageentry_header \<Rightarrow> byte list" where
  "enc_entry2 h = enc_entry2_before_count h @ u16_bytes (ucast (eh_element_count h))"

definition seen_entry2 ::
  "const_string messageentry_header \<Rightarrow> rstring messageentry_header \<Rightarrow> rstring messageentry_header" where
  "seen_entry2 h hdr = hdr
     \<lparr>eh_entry_size := eh_entry_size h, eh_entry_type := eh_entry_type h,
      eh_service_path := fill_string (eh_service_path hdr) (eh_service_path h),
      eh_member_name := fill_string (eh_member_name hdr) (eh_member_name h),
      eh_request_id := eh_request_id h, eh_error := eh_error h,
      eh_metadata := fill_string (eh_metadata hdr) (eh_metadata h),
      eh_element_count := eh_element_count h\<rparr>"

definition entry_room :: "rstring messageentry_header \<Rightarrow> const_string messageentry_header \<Rightarrow> bool" where
  "entry_room hdr h \<longleftrightarrow>
     string_ok (eh_service_path hdr) \<and> string_room (eh_service_path hdr) (eh_service_path h) \<and>
     string_ok (eh_member_name hdr) \<and> string_room (eh_member_name hdr) (eh_member_name h) \<and>
     string_ok (eh_metadata hdr) \<and> string_room (eh_metadata hdr) (eh_metadata h)"

lemma entry_room_zero [simp]: "entry_room zero_entry_header h"
  by (simp add: entry_room_def zero_entry_header_def)

lemma length_enc_entry2_before_count [simp]:
  "length (enc_entry2_before_count h) =
     20 + length (eh_service_path h) + length (eh_member_name h) + length (eh_metadata h)"
  by (simp add: enc_entry2_before_count_def)

lemma length_enc_entry2 [simp]:
  "length (enc_entry2 h) = 22 + length (eh_service_path h) + length (eh_member_name h) + length (eh_metadata h)"
  by (simp add: enc_entry2_def)

lemma at_entry2:
  assumes "at bv p (enc_entry2 h)"
  shows "at bv p (u32_bytes (eh_entry_size h))"
    "at bv (p + 4) (u16_bytes (eh_entry_type h))"
    "at bv (p + 6) (u16_bytes 0)"
    "at bv (p + 8) (enc_str2 (eh_service_path h))"
    "at bv (p + (8 + length (enc_str2 (eh_service_path h)))) (enc_str2 (eh_member_name h))"
    "at bv (p + (8 + (length (enc_str2 (eh_service_path h)) + length (enc_str2 (eh_member_name h)))))
       (u32_bytes (eh_request_id h))"
    "at bv (p + (12 + (length (enc_str2 (eh_service_path h)) + length (enc_str2 (eh_member_name h)))))
       (u16_bytes (eh_error h))"
    "at bv (p + (14 + (length (enc_str2 (eh_service_path h)) + length (enc_str2 (eh_member_name h)))))
       (enc_str2 (eh_metadata h))"
    "at bv (p + length (enc_entry2_before_count h)) (u16_bytes (ucast (eh_element_count h)))"
  using assms
  by (simp_all add: enc_entry2_def enc_entry2_before_count_def at_append ac_simps del: length_enc_str2)

lemma run_entry2_fields:
  assumes wf: "wf_vec 1 bv" and ok: "entry2_ok h" and a: "at bv p (enc_entry2 h)"
  shows "run_steps (entry_read2_fields bv @ as) (start_frame p hdr info) = run_steps as
    \<lparr>f_off = p + length (enc_entry2 h),
     f_hdr = hdr\<lparr>eh_entry_size := eh_entry_size h, eh_entry_type := eh_entry_type h,
                 eh_request_id := eh_request_id h, eh_error := eh_error h,
                 eh_element_count := eh_element_count h\<rparr>,
     f_info = info\<lparr>ei_start_buffer_offset := p, ei_entry_size_offset := p,
                   ei_element_count_offset := p + length (enc_entry2_before_count h)\<rparr>,
     f_flags = 0,
     f_str1 = str2_found (eh_service_path h) (p + 8),
     f_str2 = str2_found (eh_member_name h) (p + (8 + length (enc_str2 (eh_service_path h)))),
     f_str3 = str2_found (eh_metadata h)
       (p + (14 + (length (enc_str2 (eh_service_path h)) + length (enc_str2 (eh_member_name h)))))\<rparr>"
proof -
  have l: "str2_ok (eh_service_path h)" "str2_ok (eh_member_name h)" "str2_ok (eh_metadata h)"
     "ucast (ucast (eh_element_count h) :: u16) = eh_element_count h"
    using ok by (simp_all add: entry2_ok_def ucast_ucast_u16)
  note A = at_entry2 [OF a]
  have o: "sz_add (p + 6) 2 = p + 8" using at_wf_add [OF wf A(3)] by simp
  show ?thesis
    using A o l
    by (simp add: entry_read2_fields_def step_simps rd_pad_def uint32.run_rd_field [OF wf TrueI]
        uint16.run_rd_field [OF wf TrueI] str2.run_rd_field [OF wf]
       start_frame_def set_hdr_def set_info_def ac_simps del: run_steps.simps)
qed

lemma read_entry2_at:
  assumes wf: "wf_vec 1 bv" and ok: "entry2_ok h"
    and a: "at bv (er_buffer_offset r) (enc_entry2 h)" and room: "entry_room hdr h"
  shows "messageentry_reader_read_header2_ex bv r hdr info =
           (OK, seen_entry2 h hdr,
            \<lparr>ei_start_buffer_offset = er_buffer_offset r, ei_header_size = length (enc_entry2 h),
             ei_element_count_offset = er_buffer_offset r + length (enc_entry2_before_count h),
             ei_element_start_offset = er_buffer_offset r + length (enc_entry2 h),
             ei_entry_size_offset = er_buffer_offset r\<rparr>)"
proof -
  note S = at_entry2 [OF a]
  note R = read_string2 [OF wf _ S(4)] read_string2 [OF wf _ S(5)] read_string2 [OF wf _ S(8)]
  have endp: "sz_sub (er_buffer_offset r + length (enc_entry2 h)) (er_buffer_offset r) = length (enc_entry2 h)"
    using wf_small [OF wf at_le [OF a]] by (simp add: sz_sub_nowrap)
  show ?thesis
    unfolding messageentry_reader_read_header2_ex_def run_entry2_fields [OF wf ok a]
    using R room ok endp
    by (simp add: entry_room_def entry2_ok_def get_service_path_def get_member_name_def entry_read_end_def
       get_entry_metadata_def get_string_def assign_def end_read_def
       set_hdr_def set_info_def seen_entry2_def del: length_enc_entry2 length_enc_str2)
qed


section \<open>Version 4\<close>

definition entry4_ok :: "const_string messageentry_header \<Rightarrow> bool" where
  "entry4_ok h \<longleftrightarrow> str4_ok (eh_service_path h) \<and> str4_ok (eh_member_name h) \<and> str4_ok (eh_metadata h)"

text \<open>
  The sections between the flags and the element count. The size and the count may be encoded in
  any width that holds them.
\<close>

definition enc_entry4_sections :: "u8 \<Rightarrow> const_string messageentry_header \<Rightarrow> byte list \<Rightarrow> byte list" where
  "enc_entry4_sections fl h ext =
     u16_bytes (eh_entry_type h) @
     opt (FLAGS_CHECK fl MESSAGEENTRY_FLAGS_SERVICE_PATH_STR) (enc_str4 (eh_service_path h)) @
     opt (FLAGS_CHECK fl MESSAGEENTRY_FLAGS_SERVICE_PATH_CODE) (enc_uint_x (eh_service_path_code h)) @
     opt (FLAGS_CHECK fl MESSAGEENTRY_FLAGS_MEMBER_NAME_STR) (enc_str4 (eh_member_name h)) @
     opt (FLAGS_CHECK fl MESSAGEENTRY_FLAGS_MEMBER_NAME_CODE) (enc_uint_x (eh_member_name_code h)) @
     opt (FLAGS_CHECK fl MESSAGEENTRY_FLAGS_REQUEST_ID) (enc_uint_x (eh_request_id h)) @
     opt (FLAGS_CHECK fl MESSAGEENTRY_FLAGS_ERROR) (u16_bytes (eh_error h)) @
     opt (FLAGS_CHECK fl MESSAGEENTRY_FLAGS_META_INFO) (enc_str4 (eh_metadata h)) @
     opt (FLAGS_CHECK fl MESSAGEENTRY_FLAGS_EXTENDED) (enc_skipped ext)"

definition enc_entry4 ::
  "nat \<Rightarrow> nat \<Rightarrow> u8 \<Rightarrow> const_string messageentry_header \<Rightarrow> byte list \<Rightarrow> byte list" where
  "enc_entry4 ws wc fl h ext = enc_uint_as ws (eh_entry_size h) @ [fl] @ enc_entry4_sections fl h ext @
     enc_uint_as wc (eh_element_count h)"

definition seen_entry4 ::
  "u8 \<Rightarrow> const_string messageentry_header \<Rightarrow> rstring messageentry_header \<Rightarrow> rstring messageentry_header" where
  "seen_entry4 fl h hdr = hdr
     \<lparr>eh_entry_size := eh_entry_size h, eh_entry_type := eh_entry_type h,
      eh_service_path := (if FLAGS_CHECK fl MESSAGEENTRY_FLAGS_SERVICE_PATH_STR
        then fill_string (eh_service_path hdr) (eh_service_path h) else null_string),
      eh_service_path_code := (if FLAGS_CHECK fl MESSAGEENTRY_FLAGS_SERVICE_PATH_CODE then eh_service_path_code h else 0),
      eh_member_name := (if FLAGS_CHECK fl MESSAGEENTRY_FLAGS_MEMBER_NAME_STR
        then fill_string (eh_member_name hdr) (eh_member_name h) else null_string),
      eh_member_name_code := (if FLAGS_CHECK fl MESSAGEENTRY_FLAGS_MEMBER_NAME_CODE then eh_member_name_code h else 0),
      eh_request_id := (if FLAGS_CHECK fl MESSAGEENTRY_FLAGS_REQUEST_ID then eh_request_id h else 0),
      eh_error := (if FLAGS_CHECK fl MESSAGEENTRY_FLAGS_ERROR then eh_error h else 0),
      eh_metadata := (if FLAGS_CHECK fl MESSAGEENTRY_FLAGS_META_INFO
        then fill_string (eh_metadata hdr) (eh_metadata h) else null_string),
      eh_element_count := eh_element_count h\<rparr>"

text \<open>The places of the three strings, from the start of the sections.\<close>

definition entry4_place2 :: "u8 \<Rightarrow> const_string messageentry_header \<Rightarrow> nat" where
  "entry4_place2 fl h = 2 + (length (opt (FLAGS_CHECK fl MESSAGEENTRY_FLAGS_SERVICE_PATH_STR) (enc_str4 (eh_service_path h))) +
     length (opt (FLAGS_CHECK fl MESSAGEENTRY_FLAGS_SERVICE_PATH_CODE) (enc_uint_x (eh_service_path_code h))))"

definition entry4_place3 :: "u8 \<Rightarrow> const_string messageentry_header \<Rightarrow> nat" where
  "entry4_place3 fl h = entry4_place2 fl h +
     (length (opt (FLAGS_CHECK fl MESSAGEENTRY_FLAGS_MEMBER_NAME_STR) (enc_str4 (eh_member_name h))) +
     (length (opt (FLAGS_CHECK fl MESSAGEENTRY_FLAGS_MEMBER_NAME_CODE) (enc_uint_x (eh_member_name_code h))) +
     (length (opt (FLAGS_CHECK fl MESSAGEENTRY_FLAGS_REQUEST_ID) (enc_uint_x (eh_request_id h))) +
      length (opt (FLAGS_CHECK fl MESSAGEENTRY_FLAGS_ERROR) (u16_bytes (eh_error h))))))"

definition entry4_frame :: "nat \<Rightarrow> u8 \<Rightarrow> const_string messageentry_header \<Rightarrow> byte list \<Rightarrow> entry_rframe \<Rightarrow> entry_rframe" where
  "entry4_frame wc fl h ext s = s
     \<lparr>f_off := f_off s + (length (enc_entry4_sections fl h ext) + length (enc_uint_as wc (eh_element_count h))),
      f_hdr := (f_hdr s)
        \<lparr>eh_entry_type := eh_entry_type h,
         eh_service_path_code := (if FLAGS_CHECK fl MESSAGEENTRY_FLAGS_SERVICE_PATH_CODE then eh_service_path_code h else 0),
         eh_member_name_code := (if FLAGS_CHECK fl MESSAGEENTRY_FLAGS_MEMBER_NAME_CODE then eh_member_name_code h else 0),
         eh_request_id := (if FLAGS_CHECK fl MESSAGEENTRY_FLAGS_REQUEST_ID then eh_request_id h else 0),
         eh_error := (if FLAGS_CHECK fl MESSAGEENTRY_FLAGS_ERROR then eh_error h else 0),
         eh_element_count := eh_element_count h\<rparr>,
      f_info := (f_info s)\<lparr>ei_element_count_offset := f_off s + length (enc_entry4_sections fl h ext)\<rparr>,
      f_str1 := (if FLAGS_CHECK fl MESSAGEENTRY_FLAGS_SERVICE_PATH_STR
        then str4_found (eh_service_path h) (f_off s + 2) else f_str1 s),
      f_str2 := (if FLAGS_CHECK fl MESSAGEENTRY_FLAGS_MEMBER_NAME_STR
        then str4_found (eh_member_name h) (f_off s + entry4_place2 fl h) else f_str2 s),
      f_str3 := (if FLAGS_CHECK fl MESSAGEENTRY_FLAGS_META_INFO
        then str4_found (eh_metadata h) (f_off s + entry4_place3 fl h) else f_str3 s)\<rparr>"

lemma consumes_entry4:
  assumes wf: "wf_vec 1 bv" and ok: "entry4_ok h" "str4_ok ext" and wc: "uint_width_ok wc (eh_element_count h)"
  shows "consumes bv fl (run_steps (entry_read4_sections bv))
      (enc_entry4_sections fl h ext @ enc_uint_as wc (eh_element_count h)) (entry4_frame wc fl h ext)"
proof -
  have l: "str4_ok (eh_service_path h)" "str4_ok (eh_member_name h)" "str4_ok (eh_metadata h)"
    using ok by (simp_all add: entry4_ok_def)
  have t: "consumes bv fl (run_steps [rd_field bv message_read_uint_x (\<lambda>v. set_hdr (\<lambda>h. h\<lparr>eh_element_count := v\<rparr>))])
     (enc_uint_as wc (eh_element_count h))
     (\<lambda>s. set_hdr (\<lambda>x. x\<lparr>eh_element_count := eh_element_count h\<rparr>)
       (s\<lparr>f_off := f_off s + length (enc_uint_as wc (eh_element_count h))\<rparr>))"
    by (rule consumes_last, rule uint_as.consumes_field [OF wf wc]) auto
  show ?thesis
    unfolding entry_read4_sections_def enc_entry4_sections_def append_assoc
    apply (rule consumes_conv)
     apply (rule consumes_Cons_assign t consumes_Cons uint16.consumes_field [OF wf TrueI]
        consumes_opt_str [OF wf l(1)] consumes_opt_str [OF wf l(2)] consumes_opt_str [OF wf l(3)]
        uint_x.consumes_opt [OF wf TrueI] uint16.consumes_opt [OF wf TrueI]
        consumes_string_table [OF wf ok(2) refl] | (simp; fail))+
    apply (simp add: entry4_frame_def set_hdr_def set_info_def enc_entry4_sections_def entry4_place2_def
       entry4_place3_def ac_simps del: length_opt add_2_eq_Suc add_2_eq_Suc')
    done
qed

lemma at_entry4:
  assumes a: "at bv p (enc_entry4_sections fl h ext)"
  shows "FLAGS_CHECK fl MESSAGEENTRY_FLAGS_SERVICE_PATH_STR \<Longrightarrow> at bv (p + 2) (enc_str4 (eh_service_path h))"
    and "FLAGS_CHECK fl MESSAGEENTRY_FLAGS_MEMBER_NAME_STR \<Longrightarrow>
      at bv (p + entry4_place2 fl h) (enc_str4 (eh_member_name h))"
    and "FLAGS_CHECK fl MESSAGEENTRY_FLAGS_META_INFO \<Longrightarrow>
      at bv (p + entry4_place3 fl h) (enc_str4 (eh_metadata h))"
  using a
  by (simp_all add: enc_entry4_sections_def entry4_place3_def entry4_place2_def at_append ac_simps
     del: length_opt add_2_eq_Suc add_2_eq_Suc')

lemma run_entry4_start:
  assumes wf: "wf_vec 1 bv" and ws: "uint_width_ok ws (eh_entry_size h)" and a: "at bv p (enc_entry4 ws wc fl h ext)"
  shows "run_steps (entry_read4_start bv @ as) (start_frame p hdr info) =
    run_steps as \<lparr>f_off = p + (ws + 1), f_hdr = hdr\<lparr>eh_entry_size := eh_entry_size h\<rparr>,
       f_info = info\<lparr>ei_start_buffer_offset := p, ei_entry_size_offset := p\<rparr>,
       f_flags = fl, f_str1 = no_string_info, f_str2 = no_string_info, f_str3 = no_string_info\<rparr>"
proof -
  have b: "at bv p (enc_uint_as ws (eh_entry_size h))" "at bv (p + ws) [fl]"
    using a ws by (simp_all add: enc_entry4_def at_append at_Cons [of bv _ fl "_ @ _"] length_enc_uint_as)
  show ?thesis
    using b
    by (simp add: entry_read4_start_def step_simps uint_as.run_rd_field [OF wf ws]
       uint8.run_rd_field [OF wf TrueI] length_enc_uint_as [OF ws]
       start_frame_def set_hdr_def set_info_def ac_simps del: run_steps.simps)
qed

lemma run_entry4_strings:
  assumes f: "f_flags s = fl"
    and "FLAGS_CHECK fl MESSAGEENTRY_FLAGS_SERVICE_PATH_STR \<Longrightarrow>
           read_header_string_2 bv (f_str1 s) (eh_service_path (f_hdr s)) = (OK, x1)"
    and "FLAGS_CHECK fl MESSAGEENTRY_FLAGS_MEMBER_NAME_STR \<Longrightarrow>
           read_header_string_2 bv (f_str2 s) (eh_member_name (f_hdr s)) = (OK, x2)"
    and "FLAGS_CHECK fl MESSAGEENTRY_FLAGS_META_INFO \<Longrightarrow>
           read_header_string_2 bv (f_str3 s) (eh_metadata (f_hdr s)) = (OK, x3)"
  shows "run_steps (entry_read4_strings bv @ as) s = run_steps as
    (s\<lparr>f_hdr := (f_hdr s)\<lparr>
         eh_service_path := (if FLAGS_CHECK fl MESSAGEENTRY_FLAGS_SERVICE_PATH_STR then x1 else null_string),
         eh_member_name := (if FLAGS_CHECK fl MESSAGEENTRY_FLAGS_MEMBER_NAME_STR then x2 else null_string),
         eh_metadata := (if FLAGS_CHECK fl MESSAGEENTRY_FLAGS_META_INFO then x3 else null_string)\<rparr>\<rparr>)"
  using assms
  by (cases "FLAGS_CHECK fl MESSAGEENTRY_FLAGS_SERVICE_PATH_STR";
      cases "FLAGS_CHECK fl MESSAGEENTRY_FLAGS_MEMBER_NAME_STR";
      cases "FLAGS_CHECK fl MESSAGEENTRY_FLAGS_META_INFO")
     (simp_all add: entry_read4_strings_def if_steps_def get_service_path_def get_member_name_def
      get_entry_metadata_def get_string_def set_hdr_def assign_def)

text \<open>Every well-formed version 4 entry header is read back, whatever its flags.\<close>

lemma read_entry4_at:
  assumes wf: "wf_vec 1 bv" and ok: "entry4_ok h" "str4_ok ext"
    and w: "uint_width_ok ws (eh_entry_size h)" "uint_width_ok wc (eh_element_count h)"
    and a: "at bv (er_buffer_offset r) (enc_entry4 ws wc fl h ext)" and room: "entry_room hdr h"
  shows "messageentry_reader_read_header4_ex bv r hdr info =
           (OK, seen_entry4 fl h hdr,
            \<lparr>ei_start_buffer_offset = er_buffer_offset r,
             ei_header_size = length (enc_entry4 ws wc fl h ext),
             ei_element_count_offset = er_buffer_offset r + (length (enc_entry4 ws wc fl h ext) - wc),
             ei_element_start_offset = er_buffer_offset r + length (enc_entry4 ws wc fl h ext),
             ei_entry_size_offset = er_buffer_offset r\<rparr>)"
proof -
  let ?p = "er_buffer_offset r"
  let ?q = "?p + (ws + 1)"
  let ?x1 = "fill_string (eh_service_path hdr) (eh_service_path h)"
  let ?x2 = "fill_string (eh_member_name hdr) (eh_member_name h)"
  let ?x3 = "fill_string (eh_metadata hdr) (eh_metadata h)"
  have len: "length (enc_uint_as ws (eh_entry_size h)) = ws" "length (enc_uint_as wc (eh_element_count h)) = wc"
    using w by (simp_all add: length_enc_uint_as)
  have a2: "at bv ?q (enc_entry4_sections fl h ext @ enc_uint_as wc (eh_element_count h))"
    using a by (simp add: enc_entry4_def at_append at_Cons [of bv _ fl "_ @ _"] len ac_simps)
  then have a3: "at bv ?q (enc_entry4_sections fl h ext)" by (simp add: at_append)
  note S = at_entry4 [OF a3]
  note R = read_string4 [OF wf _ S(1)] read_string4 [OF wf _ S(2)] read_string4 [OF wf _ S(3)]
  have sz: "length (enc_entry4 ws wc fl h ext) = ws + 1 + length (enc_entry4_sections fl h ext) + wc"
    by (simp add: enc_entry4_def len)
  have endp: "sz_sub (?q + (length (enc_entry4_sections fl h ext) + wc)) ?p = length (enc_entry4 ws wc fl h ext)"
    using wf_small [OF wf at_le [OF a]] by (simp add: sz_sub_nowrap sz)
  show ?thesis
    unfolding messageentry_reader_read_header4_ex_def
    apply (subst run_entry4_start [OF wf w(1) a])
    apply (subst run_consumes [OF consumes_entry4 [OF wf ok w(2), where fl = fl]])
      apply simp
     apply (use a2 in simp)
    apply (subst run_entry4_strings [where fl = fl and ?x1.0 = ?x1 and ?x2.0 = ?x2 and ?x3.0 = ?x3])
    using R room ok(1)
        apply (simp_all add: entry4_frame_def entry_room_def entry4_ok_def del: length_enc_str4)
    using endp
    apply (simp add: assign_def end_read_def seen_entry4_def set_hdr_def set_info_def sz len
        entry_read_end_def)
    done
qed


section \<open>What the writers write\<close>

text \<open>An entry header that is still open: its size and count are zero.\<close>

definition open_entry :: "const_string messageentry_header \<Rightarrow> const_string messageentry_header" where
  "open_entry h = h\<lparr>eh_entry_size := 0, eh_element_count := 0\<rparr>"

definition enc_open_entry :: "u16 \<Rightarrow> const_string messageentry_header \<Rightarrow> byte list" where
  "enc_open_entry ver h = (if ver = 2 then enc_entry2 (open_entry h)
     else enc_entry4 5 5 (entry_write4_flags h) (open_entry h) [])"

lemma emits_entry2:
  assumes ok: "entry2_ok (open_entry h)"
  shows "emits (run_steps (entry_write2_fields h @ entry_write_end start)) (enc_entry2 (open_entry h))
    (\<lambda>p i. i\<lparr>ei_header_size := sz_sub (p + length (enc_entry2 (open_entry h))) start,
             ei_element_count_offset := p + length (enc_entry2_before_count (open_entry h)),
             ei_element_start_offset := p + length (enc_entry2 (open_entry h)),
             ei_entry_size_offset := p\<rparr>)"
proof -
  have l: "str2_ok (eh_service_path h)" "str2_ok (eh_member_name h)" "str2_ok (eh_metadata h)"
    using ok by (simp_all add: entry2_ok_def open_entry_def)
  have e: "enc_entry2 (open_entry h) = u32_bytes 0 @ u16_bytes (eh_entry_type h) @ u16_bytes 0 @
     enc_str2 (eh_service_path h) @ enc_str2 (eh_member_name h) @ u32_bytes (eh_request_id h) @
     u16_bytes (eh_error h) @ enc_str2 (eh_metadata h) @ u16_bytes 0 @ []"
    by (simp add: enc_entry2_def enc_entry2_before_count_def open_entry_def)
  show ?thesis
    unfolding entry_write2_fields_def entry_write_end_def append_Cons append_Nil e
    by (rule emits_conv, ((rule emits_intros l TrueI)+)[1])
       (rule messageentry_buffer_info.equality; simp add: open_entry_def ac_simps)
qed

lemma entry_write4_flags_check:
  "FLAGS_CHECK (entry_write4_flags h) MESSAGEENTRY_FLAGS_SERVICE_PATH_STR \<longleftrightarrow> eh_service_path h \<noteq> []"
  "FLAGS_CHECK (entry_write4_flags h) MESSAGEENTRY_FLAGS_SERVICE_PATH_CODE \<longleftrightarrow> eh_service_path_code h \<noteq> 0"
  "FLAGS_CHECK (entry_write4_flags h) MESSAGEENTRY_FLAGS_MEMBER_NAME_STR \<longleftrightarrow> eh_member_name h \<noteq> []"
  "FLAGS_CHECK (entry_write4_flags h) MESSAGEENTRY_FLAGS_MEMBER_NAME_CODE = False"
  "FLAGS_CHECK (entry_write4_flags h) MESSAGEENTRY_FLAGS_REQUEST_ID \<longleftrightarrow> eh_request_id h \<noteq> 0"
  "FLAGS_CHECK (entry_write4_flags h) MESSAGEENTRY_FLAGS_ERROR \<longleftrightarrow> eh_error h \<noteq> 0"
  "FLAGS_CHECK (entry_write4_flags h) MESSAGEENTRY_FLAGS_META_INFO \<longleftrightarrow> eh_metadata h \<noteq> []"
  "FLAGS_CHECK (entry_write4_flags h) MESSAGEENTRY_FLAGS_EXTENDED = False"
  by (cases "eh_service_path h = []"; cases "eh_service_path_code h = 0"; cases "eh_member_name h = []";
      cases "eh_request_id h = 0"; cases "eh_error h = 0"; cases "eh_metadata h = []";
      simp add: entry_write4_flags_def Let_def FLAGS_CHECK_def FLAGS_SET_def entry_flags_defs)+

lemma emits_entry4:
  assumes ok: "entry4_ok h"
  shows "emits (run_steps (entry_write4_fields (entry_write4_flags h) h @ entry_write_end start))
    (enc_entry4 5 5 (entry_write4_flags h) (open_entry h) [])
    (\<lambda>p i. i\<lparr>ei_header_size := sz_sub (p + length (enc_entry4 5 5 (entry_write4_flags h) (open_entry h) [])) start,
             ei_element_count_offset := p + (length (enc_entry4 5 5 (entry_write4_flags h) (open_entry h) []) - 4),
             ei_element_start_offset := p + length (enc_entry4 5 5 (entry_write4_flags h) (open_entry h) []),
             ei_entry_size_offset := p + 1\<rparr>)"
proof -
  have l: "str4_ok (eh_service_path h)" "str4_ok (eh_member_name h)" "str4_ok (eh_metadata h)"
    using ok by (simp_all add: entry4_ok_def)
  let ?f = "entry_write4_flags h"
  have e: "enc_entry4 5 5 ?f (open_entry h) [] =
     enc_padded_uint_x 0 @ [?f] @ u16_bytes (eh_entry_type h) @
     opt (FLAGS_CHECK ?f MESSAGEENTRY_FLAGS_SERVICE_PATH_STR) (enc_str4 (eh_service_path h)) @
     opt (FLAGS_CHECK ?f MESSAGEENTRY_FLAGS_SERVICE_PATH_CODE) (enc_uint_x (eh_service_path_code h)) @
     opt (FLAGS_CHECK ?f MESSAGEENTRY_FLAGS_MEMBER_NAME_STR) (enc_str4 (eh_member_name h)) @
     opt (FLAGS_CHECK ?f MESSAGEENTRY_FLAGS_MEMBER_NAME_CODE) (enc_uint_x (eh_member_name_code h)) @
     opt (FLAGS_CHECK ?f MESSAGEENTRY_FLAGS_REQUEST_ID) (enc_uint_x (eh_request_id h)) @
     opt (FLAGS_CHECK ?f MESSAGEENTRY_FLAGS_ERROR) (u16_bytes (eh_error h)) @
     opt (FLAGS_CHECK ?f MESSAGEENTRY_FLAGS_META_INFO) (enc_str4 (eh_metadata h)) @
     enc_padded_uint_x 0 @ []"
    by (simp add: enc_entry4_def enc_entry4_sections_def open_entry_def entry_write4_flags_check
        enc_padded_as)
  show ?thesis
    unfolding entry_write4_fields_def entry_write_end_def append_Cons append_Nil
    unfolding e
    by (rule emits_conv, ((rule emits_intros l TrueI)+)[1])
       (rule messageentry_buffer_info.equality; simp add: ac_simps del: length_opt)
qed

end
