(* ===== verification/RRL_ElementCodec.thy ===== *)
theory RRL_ElementCodec
  imports RRL_Element RRL_EntryCodec
begin

text \<open>
  The wire format of the message element headers as functions from an abstract header to bytes; the
  readers of RRL_Element invert it, and the writers produce it: those of nested elements with the
  size and the count still zero, those of plain data with their final values.
\<close>


section \<open>Version 2\<close>

definition element2_ok :: "const_string messageelement_header \<Rightarrow> bool" where
  "element2_ok h \<longleftrightarrow> str2_ok (lh_element_name h) \<and> str2_ok (lh_element_type_name h) \<and> str2_ok (lh_metadata h)"

definition enc_element2_before_count :: "const_string messageelement_header \<Rightarrow> byte list" where
  "enc_element2_before_count h = u32_bytes (lh_element_size h) @ enc_str2 (lh_element_name h) @
     u16_bytes (lh_element_type h) @ enc_str2 (lh_element_type_name h) @ enc_str2 (lh_metadata h)"

definition enc_element2 :: "const_string messageelement_header \<Rightarrow> byte list" where
  "enc_element2 h = enc_element2_before_count h @ u32_bytes (lh_data_count h)"

definition seen_element2 ::
  "const_string messageelement_header \<Rightarrow> rstring messageelement_header \<Rightarrow> rstring messageelement_header" where
  "seen_element2 h hdr = hdr
     \<lparr>lh_element_size := lh_element_size h,
      lh_element_name := fill_string (lh_element_name hdr) (lh_element_name h),
      lh_element_type := lh_element_type h,
      lh_element_type_name := fill_string (lh_element_type_name hdr) (lh_element_type_name h),
      lh_metadata := fill_string (lh_metadata hdr) (lh_metadata h),
      lh_data_count := lh_data_count h\<rparr>"

definition element_room :: "rstring messageelement_header \<Rightarrow> const_string messageelement_header \<Rightarrow> bool" where
  "element_room hdr h \<longleftrightarrow>
     string_ok (lh_element_name hdr) \<and> string_room (lh_element_name hdr) (lh_element_name h) \<and>
     string_ok (lh_element_type_name hdr) \<and> string_room (lh_element_type_name hdr) (lh_element_type_name h) \<and>
     string_ok (lh_metadata hdr) \<and> string_room (lh_metadata hdr) (lh_metadata h)"

lemma element_room_zero [simp]: "element_room zero_element_header h"
  by (simp add: element_room_def zero_element_header_def)

lemma length_enc_element2_before_count [simp]:
  "length (enc_element2_before_count h) =
     12 + length (lh_element_name h) + length (lh_element_type_name h) + length (lh_metadata h)"
  by (simp add: enc_element2_before_count_def)

lemma length_enc_element2 [simp]:
  "length (enc_element2 h) = 16 + length (lh_element_name h) + length (lh_element_type_name h) + length (lh_metadata h)"
  by (simp add: enc_element2_def)

lemma at_element2:
  assumes "at bv p (enc_element2 h)"
  shows "at bv p (u32_bytes (lh_element_size h))"
    "at bv (p + 4) (enc_str2 (lh_element_name h))"
    "at bv (p + (4 + length (enc_str2 (lh_element_name h)))) (u16_bytes (lh_element_type h))"
    "at bv (p + (6 + length (enc_str2 (lh_element_name h)))) (enc_str2 (lh_element_type_name h))"
    "at bv (p + (6 + (length (enc_str2 (lh_element_name h)) + length (enc_str2 (lh_element_type_name h)))))
       (enc_str2 (lh_metadata h))"
    "at bv (p + length (enc_element2_before_count h)) (u32_bytes (lh_data_count h))"
  using assms
  by (simp_all add: enc_element2_def enc_element2_before_count_def at_append ac_simps del: length_enc_str2)

lemma run_element2_fields:
  assumes wf: "wf_vec 1 bv" and ok: "element2_ok h" and a: "at bv p (enc_element2 h)"
  shows "run_steps (element_read2_fields bv @ as) (start_frame p hdr info) = run_steps as
    \<lparr>f_off = p + length (enc_element2 h),
     f_hdr = hdr\<lparr>lh_element_size := lh_element_size h, lh_element_type := lh_element_type h,
                 lh_data_count := lh_data_count h\<rparr>,
     f_info = info\<lparr>li_start_buffer_offset := p, li_element_size_offset := p,
                   li_element_count_offset := p + length (enc_element2_before_count h)\<rparr>,
     f_flags = 0,
     f_str1 = str2_found (lh_element_name h) (p + 4),
     f_str2 = str2_found (lh_element_type_name h) (p + (6 + length (enc_str2 (lh_element_name h)))),
     f_str3 = str2_found (lh_metadata h)
       (p + (6 + (length (enc_str2 (lh_element_name h)) + length (enc_str2 (lh_element_type_name h)))))\<rparr>"
proof -
  have l: "str2_ok (lh_element_name h)" "str2_ok (lh_element_type_name h)" "str2_ok (lh_metadata h)"
    using ok by (simp_all add: element2_ok_def)
  note A = at_element2 [OF a]
  show ?thesis
    using A l
    by (simp add: element_read2_fields_def step_simps uint32.run_rd_field [OF wf TrueI]
        uint16.run_rd_field [OF wf TrueI] str2.run_rd_field [OF wf]
       start_frame_def set_hdr_def set_info_def ac_simps del: run_steps.simps)
qed

lemma read_element2_at:
  assumes wf: "wf_vec 1 bv" and ok: "element2_ok h"
    and a: "at bv (lr_buffer_offset r) (enc_element2 h)" and room: "element_room hdr h"
  shows "messageelement_reader_read_header2_ex bv r hdr info =
           (OK, seen_element2 h hdr,
            \<lparr>li_start_buffer_offset = lr_buffer_offset r, li_header_size = length (enc_element2 h),
             li_data_start_offset = lr_buffer_offset r + length (enc_element2 h),
             li_element_name_str_offset = lr_buffer_offset r + 6,
             li_element_count_offset = lr_buffer_offset r + length (enc_element2_before_count h),
             li_element_size_offset = lr_buffer_offset r\<rparr>)"
proof -
  note S = at_element2 [OF a]
  note R = read_string2 [OF wf _ S(2)] read_string2 [OF wf _ S(4)] read_string2 [OF wf _ S(5)]
  have endp: "sz_sub (lr_buffer_offset r + length (enc_element2 h)) (lr_buffer_offset r) = length (enc_element2 h)"
    using wf_small [OF wf at_le [OF a]] by (simp add: sz_sub_nowrap)
  show ?thesis
    unfolding messageelement_reader_read_header2_ex_def run_element2_fields [OF wf ok a]
    using R room ok endp
    by (simp add: element_room_def element2_ok_def get_element_name_def get_element_type_name_def
       element_read_end_def get_element_metadata_def get_string_def assign_def end_read_def note_name_offset_def
       element_read2_strings_def str2_found_def
       set_hdr_def set_info_def seen_element2_def del: length_enc_element2 length_enc_str2)
qed


section \<open>Version 4\<close>

definition element4_ok :: "const_string messageelement_header \<Rightarrow> bool" where
  "element4_ok h \<longleftrightarrow> str4_ok (lh_element_name h) \<and> str4_ok (lh_element_type_name h) \<and> str4_ok (lh_metadata h)"

definition enc_element4_sections :: "u8 \<Rightarrow> const_string messageelement_header \<Rightarrow> byte list \<Rightarrow> byte list" where
  "enc_element4_sections fl h ext =
     opt (FLAGS_CHECK fl MESSAGEELEMENT_FLAGS_ELEMENT_NAME_STR) (enc_str4 (lh_element_name h)) @
     opt (FLAGS_CHECK fl MESSAGEELEMENT_FLAGS_ELEMENT_NAME_CODE) (enc_uint_x (lh_element_name_code h)) @
     opt (FLAGS_CHECK fl MESSAGEELEMENT_FLAGS_ELEMENT_NUMBER) (enc_int_x (lh_element_number h)) @
     u16_bytes (lh_element_type h) @
     opt (FLAGS_CHECK fl MESSAGEELEMENT_FLAGS_ELEMENT_TYPE_NAME_STR) (enc_str4 (lh_element_type_name h)) @
     opt (FLAGS_CHECK fl MESSAGEELEMENT_FLAGS_ELEMENT_TYPE_NAME_CODE) (enc_uint_x (lh_element_type_name_code h)) @
     opt (FLAGS_CHECK fl MESSAGEELEMENT_FLAGS_META_INFO) (enc_str4 (lh_metadata h)) @
     opt (FLAGS_CHECK fl MESSAGEELEMENT_FLAGS_EXTENDED) (enc_skipped ext)"

definition enc_element4 ::
  "nat \<Rightarrow> nat \<Rightarrow> u8 \<Rightarrow> const_string messageelement_header \<Rightarrow> byte list \<Rightarrow> byte list" where
  "enc_element4 ws wc fl h ext = enc_uint_as ws (lh_element_size h) @ [fl] @ enc_element4_sections fl h ext @
     enc_uint_as wc (lh_data_count h)"

definition seen_element4 ::
  "u8 \<Rightarrow> const_string messageelement_header \<Rightarrow> rstring messageelement_header \<Rightarrow> rstring messageelement_header" where
  "seen_element4 fl h hdr = hdr
     \<lparr>lh_element_size := lh_element_size h,
      lh_element_name := (if FLAGS_CHECK fl MESSAGEELEMENT_FLAGS_ELEMENT_NAME_STR
        then fill_string (lh_element_name hdr) (lh_element_name h) else null_string),
      lh_element_name_code := (if FLAGS_CHECK fl MESSAGEELEMENT_FLAGS_ELEMENT_NAME_CODE then lh_element_name_code h else 0),
      lh_element_number := (if FLAGS_CHECK fl MESSAGEELEMENT_FLAGS_ELEMENT_NUMBER then lh_element_number h else 0),
      lh_element_type := lh_element_type h,
      lh_element_type_name := (if FLAGS_CHECK fl MESSAGEELEMENT_FLAGS_ELEMENT_TYPE_NAME_STR
        then fill_string (lh_element_type_name hdr) (lh_element_type_name h) else null_string),
      lh_element_type_name_code := (if FLAGS_CHECK fl MESSAGEELEMENT_FLAGS_ELEMENT_TYPE_NAME_CODE
        then lh_element_type_name_code h else 0),
      lh_metadata := (if FLAGS_CHECK fl MESSAGEELEMENT_FLAGS_META_INFO
        then fill_string (lh_metadata hdr) (lh_metadata h) else null_string),
      lh_data_count := lh_data_count h\<rparr>"

definition element4_place2 :: "u8 \<Rightarrow> const_string messageelement_header \<Rightarrow> nat" where
  "element4_place2 fl h = 2 + (length (opt (FLAGS_CHECK fl MESSAGEELEMENT_FLAGS_ELEMENT_NAME_STR) (enc_str4 (lh_element_name h))) +
     (length (opt (FLAGS_CHECK fl MESSAGEELEMENT_FLAGS_ELEMENT_NAME_CODE) (enc_uint_x (lh_element_name_code h))) +
      length (opt (FLAGS_CHECK fl MESSAGEELEMENT_FLAGS_ELEMENT_NUMBER) (enc_int_x (lh_element_number h)))))"

definition element4_place3 :: "u8 \<Rightarrow> const_string messageelement_header \<Rightarrow> nat" where
  "element4_place3 fl h = element4_place2 fl h +
     (length (opt (FLAGS_CHECK fl MESSAGEELEMENT_FLAGS_ELEMENT_TYPE_NAME_STR) (enc_str4 (lh_element_type_name h))) +
      length (opt (FLAGS_CHECK fl MESSAGEELEMENT_FLAGS_ELEMENT_TYPE_NAME_CODE) (enc_uint_x (lh_element_type_name_code h))))"

definition element4_frame ::
  "nat \<Rightarrow> u8 \<Rightarrow> const_string messageelement_header \<Rightarrow> byte list \<Rightarrow> element_rframe \<Rightarrow> element_rframe" where
  "element4_frame wc fl h ext s = s
     \<lparr>f_off := f_off s + (length (enc_element4_sections fl h ext) + length (enc_uint_as wc (lh_data_count h))),
      f_hdr := (f_hdr s)
        \<lparr>lh_element_name_code := (if FLAGS_CHECK fl MESSAGEELEMENT_FLAGS_ELEMENT_NAME_CODE then lh_element_name_code h else 0),
         lh_element_number := (if FLAGS_CHECK fl MESSAGEELEMENT_FLAGS_ELEMENT_NUMBER then lh_element_number h else 0),
         lh_element_type := lh_element_type h,
         lh_element_type_name_code := (if FLAGS_CHECK fl MESSAGEELEMENT_FLAGS_ELEMENT_TYPE_NAME_CODE
           then lh_element_type_name_code h else 0),
         lh_data_count := lh_data_count h\<rparr>,
      f_info := (f_info s)\<lparr>li_element_count_offset := f_off s + length (enc_element4_sections fl h ext)\<rparr>,
      f_str1 := (if FLAGS_CHECK fl MESSAGEELEMENT_FLAGS_ELEMENT_NAME_STR
        then str4_found (lh_element_name h) (f_off s) else f_str1 s),
      f_str2 := (if FLAGS_CHECK fl MESSAGEELEMENT_FLAGS_ELEMENT_TYPE_NAME_STR
        then str4_found (lh_element_type_name h) (f_off s + element4_place2 fl h) else f_str2 s),
      f_str3 := (if FLAGS_CHECK fl MESSAGEELEMENT_FLAGS_META_INFO
        then str4_found (lh_metadata h) (f_off s + element4_place3 fl h) else f_str3 s)\<rparr>"

lemma consumes_element4:
  assumes wf: "wf_vec 1 bv" and ok: "element4_ok h" "str4_ok ext" and wc: "uint_width_ok wc (lh_data_count h)"
  shows "consumes bv fl (run_steps (element_read4_sections bv))
      (enc_element4_sections fl h ext @ enc_uint_as wc (lh_data_count h)) (element4_frame wc fl h ext)"
proof -
  have l: "str4_ok (lh_element_name h)" "str4_ok (lh_element_type_name h)" "str4_ok (lh_metadata h)"
    using ok by (simp_all add: element4_ok_def)
  have t: "consumes bv fl (run_steps [rd_field bv message_read_uint_x (\<lambda>v. set_hdr (\<lambda>h. h\<lparr>lh_data_count := v\<rparr>))])
     (enc_uint_as wc (lh_data_count h))
     (\<lambda>s. set_hdr (\<lambda>x. x\<lparr>lh_data_count := lh_data_count h\<rparr>)
       (s\<lparr>f_off := f_off s + length (enc_uint_as wc (lh_data_count h))\<rparr>))"
    by (rule consumes_last, rule uint_as.consumes_field [OF wf wc]) auto
  show ?thesis
    unfolding element_read4_sections_def enc_element4_sections_def append_assoc
    apply (rule consumes_conv)
     apply (rule consumes_Cons_assign t consumes_Cons uint16.consumes_field [OF wf TrueI]
        consumes_opt_str [OF wf l(1)] consumes_opt_str [OF wf l(2)] consumes_opt_str [OF wf l(3)]
        uint_x.consumes_opt [OF wf TrueI] int_x.consumes_opt [OF wf TrueI]
        consumes_string_table [OF wf ok(2) refl] | (simp; fail))+
    apply (simp add: element4_frame_def set_hdr_def set_info_def enc_element4_sections_def element4_place2_def
       element4_place3_def ac_simps del: length_opt add_2_eq_Suc add_2_eq_Suc')
    done
qed

lemma at_element4:
  assumes a: "at bv p (enc_element4_sections fl h ext)"
  shows "FLAGS_CHECK fl MESSAGEELEMENT_FLAGS_ELEMENT_NAME_STR \<Longrightarrow> at bv p (enc_str4 (lh_element_name h))"
    and "FLAGS_CHECK fl MESSAGEELEMENT_FLAGS_ELEMENT_TYPE_NAME_STR \<Longrightarrow>
      at bv (p + element4_place2 fl h) (enc_str4 (lh_element_type_name h))"
    and "FLAGS_CHECK fl MESSAGEELEMENT_FLAGS_META_INFO \<Longrightarrow>
      at bv (p + element4_place3 fl h) (enc_str4 (lh_metadata h))"
  using a
  by (simp_all add: enc_element4_sections_def element4_place3_def element4_place2_def at_append ac_simps
     del: length_opt add_2_eq_Suc add_2_eq_Suc')

lemma run_element4_start:
  assumes wf: "wf_vec 1 bv" and ws: "uint_width_ok ws (lh_element_size h)" and a: "at bv p (enc_element4 ws wc fl h ext)"
  shows "run_steps (element_read4_start bv @ as) (start_frame p hdr info) =
    run_steps as \<lparr>f_off = p + (ws + 1), f_hdr = hdr\<lparr>lh_element_size := lh_element_size h\<rparr>,
       f_info = info\<lparr>li_start_buffer_offset := p, li_element_size_offset := p\<rparr>,
       f_flags = fl, f_str1 = no_string_info, f_str2 = no_string_info, f_str3 = no_string_info\<rparr>"
proof -
  have b: "at bv p (enc_uint_as ws (lh_element_size h))" "at bv (p + ws) [fl]"
    using a ws by (simp_all add: enc_element4_def at_append at_Cons [of bv _ fl "_ @ _"] length_enc_uint_as)
  show ?thesis
    using b
    by (simp add: element_read4_start_def step_simps uint_as.run_rd_field [OF wf ws]
       uint8.run_rd_field [OF wf TrueI] length_enc_uint_as [OF ws]
       start_frame_def set_hdr_def set_info_def ac_simps del: run_steps.simps)
qed

lemma run_element4_strings:
  assumes f: "f_flags s = fl"
    and "FLAGS_CHECK fl MESSAGEELEMENT_FLAGS_ELEMENT_NAME_STR \<Longrightarrow>
           read_header_string_2 bv (f_str1 s) (lh_element_name (f_hdr s)) = (OK, x1)"
    and "FLAGS_CHECK fl MESSAGEELEMENT_FLAGS_ELEMENT_TYPE_NAME_STR \<Longrightarrow>
           read_header_string_2 bv (f_str2 s) (lh_element_type_name (f_hdr s)) = (OK, x2)"
    and "FLAGS_CHECK fl MESSAGEELEMENT_FLAGS_META_INFO \<Longrightarrow>
           read_header_string_2 bv (f_str3 s) (lh_metadata (f_hdr s)) = (OK, x3)"
  shows "run_steps (element_read4_strings bv @ as) s = run_steps as
    (s\<lparr>f_info := (f_info s)\<lparr>
         li_element_name_str_offset := (if FLAGS_CHECK fl MESSAGEELEMENT_FLAGS_ELEMENT_NAME_STR
           then si_offset (f_str1 s) else SIZE_T_MAX)\<rparr>,
       f_hdr := (f_hdr s)\<lparr>
         lh_element_name := (if FLAGS_CHECK fl MESSAGEELEMENT_FLAGS_ELEMENT_NAME_STR then x1 else null_string),
         lh_element_type_name := (if FLAGS_CHECK fl MESSAGEELEMENT_FLAGS_ELEMENT_TYPE_NAME_STR then x2 else null_string),
         lh_metadata := (if FLAGS_CHECK fl MESSAGEELEMENT_FLAGS_META_INFO then x3 else null_string)\<rparr>\<rparr>)"
  using assms
  by (cases "FLAGS_CHECK fl MESSAGEELEMENT_FLAGS_ELEMENT_NAME_STR";
      cases "FLAGS_CHECK fl MESSAGEELEMENT_FLAGS_ELEMENT_TYPE_NAME_STR";
      cases "FLAGS_CHECK fl MESSAGEELEMENT_FLAGS_META_INFO")
     (simp_all add: element_read4_strings_def if_steps_def get_element_name_def get_element_type_name_def
      get_element_metadata_def get_string_def set_hdr_def set_info_def assign_def note_name_offset_def)

definition element4_name_place :: "nat \<Rightarrow> u8 \<Rightarrow> const_string messageelement_header \<Rightarrow> size_t \<Rightarrow> size_t" where
  "element4_name_place ws fl h p =
     (if FLAGS_CHECK fl MESSAGEELEMENT_FLAGS_ELEMENT_NAME_STR
      then p + (ws + 1 + message_uint_x_size (word_of_nat (length (lh_element_name h)))) else SIZE_T_MAX)"

text \<open>Every well-formed version 4 element header is read back, whatever its flags.\<close>

lemma read_element4_at:
  assumes wf: "wf_vec 1 bv" and ok: "element4_ok h" "str4_ok ext"
    and w: "uint_width_ok ws (lh_element_size h)" "uint_width_ok wc (lh_data_count h)"
    and a: "at bv (lr_buffer_offset r) (enc_element4 ws wc fl h ext)" and room: "element_room hdr h"
  shows "messageelement_reader_read_header4_ex bv r hdr info =
           (OK, seen_element4 fl h hdr,
            \<lparr>li_start_buffer_offset = lr_buffer_offset r,
             li_header_size = length (enc_element4 ws wc fl h ext),
             li_data_start_offset = lr_buffer_offset r + length (enc_element4 ws wc fl h ext),
             li_element_name_str_offset = element4_name_place ws fl h (lr_buffer_offset r),
             li_element_count_offset = lr_buffer_offset r + (length (enc_element4 ws wc fl h ext) - wc),
             li_element_size_offset = lr_buffer_offset r\<rparr>)"
proof -
  let ?p = "lr_buffer_offset r"
  let ?q = "?p + (ws + 1)"
  let ?x1 = "fill_string (lh_element_name hdr) (lh_element_name h)"
  let ?x2 = "fill_string (lh_element_type_name hdr) (lh_element_type_name h)"
  let ?x3 = "fill_string (lh_metadata hdr) (lh_metadata h)"
  have len: "length (enc_uint_as ws (lh_element_size h)) = ws" "length (enc_uint_as wc (lh_data_count h)) = wc"
    using w by (simp_all add: length_enc_uint_as)
  have a2: "at bv ?q (enc_element4_sections fl h ext @ enc_uint_as wc (lh_data_count h))"
    using a by (simp add: enc_element4_def at_append at_Cons [of bv _ fl "_ @ _"] len ac_simps)
  then have a3: "at bv ?q (enc_element4_sections fl h ext)" by (simp add: at_append)
  note S = at_element4 [OF a3]
  note R = read_string4 [OF wf _ S(1)] read_string4 [OF wf _ S(2)] read_string4 [OF wf _ S(3)]
  have sz: "length (enc_element4 ws wc fl h ext) = ws + 1 + length (enc_element4_sections fl h ext) + wc"
    by (simp add: enc_element4_def len)
  have endp: "sz_sub (?q + (length (enc_element4_sections fl h ext) + wc)) ?p = length (enc_element4 ws wc fl h ext)"
    using wf_small [OF wf at_le [OF a]] by (simp add: sz_sub_nowrap sz)
  show ?thesis
    unfolding messageelement_reader_read_header4_ex_def
    apply (subst run_element4_start [OF wf w(1) a])
    apply (subst run_consumes [OF consumes_element4 [OF wf ok w(2), where fl = fl]])
      apply simp
     apply (use a2 in simp)
    apply (subst run_element4_strings [where fl = fl and ?x1.0 = ?x1 and ?x2.0 = ?x2 and ?x3.0 = ?x3])
    using R room ok(1)
        apply (simp_all add: element4_frame_def element_room_def element4_ok_def del: length_enc_str4)
    using endp
    apply (simp add: assign_def end_read_def seen_element4_def set_hdr_def set_info_def sz len
        element_read_end_def element4_name_place_def str4_found_def)
    done
qed


section \<open>What the writers write\<close>

text \<open>The header of a nested element that is still open: its size and count are zero.\<close>

definition open_element :: "const_string messageelement_header \<Rightarrow> const_string messageelement_header" where
  "open_element h = h\<lparr>lh_element_size := 0, lh_data_count := 0\<rparr>"

definition enc_open_element :: "u16 \<Rightarrow> const_string messageelement_header \<Rightarrow> byte list" where
  "enc_open_element ver h = (if ver = 2 then enc_element2 (open_element h)
     else enc_element4 5 5 (element_write4_flags h) (open_element h) [])"

lemma emits_element2:
  assumes ok: "element2_ok h"
  shows "emits (run_steps (element_write2_fields h @ element_write_end start)) (enc_element2 (open_element h))
    (\<lambda>p i. \<lparr>li_start_buffer_offset = p,
            li_header_size = sz_sub (p + length (enc_element2 (open_element h))) start,
            li_data_start_offset = p + length (enc_element2 (open_element h)),
            li_element_name_str_offset = p + 4,
            li_element_count_offset = p + length (enc_element2_before_count (open_element h)),
            li_element_size_offset = p\<rparr>)"
proof -
  have l: "str2_ok (lh_element_name h)" "str2_ok (lh_element_type_name h)" "str2_ok (lh_metadata h)"
    using ok by (simp_all add: element2_ok_def)
  have e: "enc_element2 (open_element h) = u32_bytes 0 @ enc_str2 (lh_element_name h) @
     u16_bytes (lh_element_type h) @ enc_str2 (lh_element_type_name h) @ enc_str2 (lh_metadata h) @
     u32_bytes 0 @ []"
    by (simp add: enc_element2_def enc_element2_before_count_def open_element_def)
  show ?thesis
    unfolding element_write2_fields_def element_write_end_def append_Cons append_Nil
    unfolding e
    by (rule emits_conv, ((rule emits_intros l TrueI)+)[1])
       (rule messageelement_buffer_info.equality; simp add: open_element_def ac_simps)
qed

lemma element_write4_flags_check:
  "FLAGS_CHECK (element_write4_flags h) MESSAGEELEMENT_FLAGS_ELEMENT_NAME_STR \<longleftrightarrow> lh_element_name h \<noteq> []"
  "FLAGS_CHECK (element_write4_flags h) MESSAGEELEMENT_FLAGS_ELEMENT_NAME_CODE \<longleftrightarrow> lh_element_name_code h \<noteq> 0"
  "FLAGS_CHECK (element_write4_flags h) MESSAGEELEMENT_FLAGS_ELEMENT_NUMBER \<longleftrightarrow> lh_element_number h \<noteq> 0"
  "FLAGS_CHECK (element_write4_flags h) MESSAGEELEMENT_FLAGS_ELEMENT_TYPE_NAME_STR \<longleftrightarrow> lh_element_type_name h \<noteq> []"
  "FLAGS_CHECK (element_write4_flags h) MESSAGEELEMENT_FLAGS_ELEMENT_TYPE_NAME_CODE \<longleftrightarrow> lh_element_type_name_code h \<noteq> 0"
  "FLAGS_CHECK (element_write4_flags h) MESSAGEELEMENT_FLAGS_META_INFO \<longleftrightarrow> lh_metadata h \<noteq> []"
  "FLAGS_CHECK (element_write4_flags h) MESSAGEELEMENT_FLAGS_EXTENDED = False"
  by (cases "lh_element_name h = []"; cases "lh_element_name_code h = 0"; cases "lh_element_number h = 0";
      cases "lh_element_type_name h = []"; cases "lh_element_type_name_code h = 0"; cases "lh_metadata h = []";
      simp add: element_write4_flags_def Let_def FLAGS_CHECK_def FLAGS_SET_def element_flags_defs)+

lemma emits_element4:
  assumes ok: "element4_ok h"
  shows "emits (run_steps (element_write4_fields (element_write4_flags h) h @ element_write_end start))
    (enc_element4 5 5 (element_write4_flags h) (open_element h) [])
    (\<lambda>p i. \<lparr>li_start_buffer_offset = p,
            li_header_size = sz_sub (p + length (enc_element4 5 5 (element_write4_flags h) (open_element h) [])) start,
            li_data_start_offset = p + length (enc_element4 5 5 (element_write4_flags h) (open_element h) []),
            li_element_name_str_offset = (if lh_element_name h \<noteq> [] then p + 6 else SIZE_T_MAX),
            li_element_count_offset = p + (length (enc_element4 5 5 (element_write4_flags h) (open_element h) []) - 4),
            li_element_size_offset = p + 1\<rparr>)"
proof -
  have l: "str4_ok (lh_element_name h)" "str4_ok (lh_element_type_name h)" "str4_ok (lh_metadata h)"
    using ok by (simp_all add: element4_ok_def)
  let ?f = "element_write4_flags h"
  have e: "enc_element4 5 5 ?f (open_element h) [] =
     enc_padded_uint_x 0 @ [?f] @
     opt (FLAGS_CHECK ?f MESSAGEELEMENT_FLAGS_ELEMENT_NAME_STR) (enc_str4 (lh_element_name h)) @
     opt (FLAGS_CHECK ?f MESSAGEELEMENT_FLAGS_ELEMENT_NAME_CODE) (enc_uint_x (lh_element_name_code h)) @
     opt (FLAGS_CHECK ?f MESSAGEELEMENT_FLAGS_ELEMENT_NUMBER) (enc_int_x (lh_element_number h)) @
     u16_bytes (lh_element_type h) @
     opt (FLAGS_CHECK ?f MESSAGEELEMENT_FLAGS_ELEMENT_TYPE_NAME_STR) (enc_str4 (lh_element_type_name h)) @
     opt (FLAGS_CHECK ?f MESSAGEELEMENT_FLAGS_ELEMENT_TYPE_NAME_CODE) (enc_uint_x (lh_element_type_name_code h)) @
     opt (FLAGS_CHECK ?f MESSAGEELEMENT_FLAGS_META_INFO) (enc_str4 (lh_metadata h)) @
     enc_padded_uint_x 0 @ []"
    by (simp add: enc_element4_def enc_element4_sections_def open_element_def element_write4_flags_check
        enc_padded_as)
  show ?thesis
    unfolding element_write4_fields_def element_write_end_def append_Cons append_Nil
    unfolding e
    by (rule emits_conv, ((rule emits_intros l TrueI)+)[1])
       (rule messageelement_buffer_info.equality; simp add: element_write4_flags_check(1) ac_simps del: length_opt)
qed


section \<open>Headers of plain data\<close>

text \<open>The header of an element of plain data, as it stands on the wire.\<close>

definition data_element ::
  "const_string \<Rightarrow> u16 \<Rightarrow> size_t \<Rightarrow> size_t \<Rightarrow> const_string messageelement_header" where
  "data_element name data_type count n =
     \<lparr>lh_element_size = word_of_nat n, lh_element_flags = 0, lh_element_name = name,
      lh_element_name_code = 0, lh_element_number = 0, lh_element_type = data_type,
      lh_element_type_name = [], lh_element_type_name_code = 0, lh_metadata = [],
      lh_data_count = word_of_nat count\<rparr>"

definition enc_data_header :: "u16 \<Rightarrow> const_string \<Rightarrow> u16 \<Rightarrow> size_t \<Rightarrow> size_t \<Rightarrow> byte list" where
  "enc_data_header ver name data_type count n =
     (let h = data_element name data_type count n
      in if ver = 2 then enc_element2 h
         else enc_element4 (message_uint_x_size (lh_element_size h)) (message_uint_x_size (lh_data_count h))
                (data_header4_flags name) h [])"

lemma emits_data_header2:
  assumes ok: "str2_ok name" and c: "count \<le> UINT32_MAX"
  shows "emits (run_steps (data_header2_fields name count data_type n)) (enc_data_header 2 name data_type count n)
    (\<lambda>p i. \<lparr>li_start_buffer_offset = p,
            li_header_size = sz_sub (p + length (enc_data_header 2 name data_type count n)) p,
            li_data_start_offset = p + length (enc_data_header 2 name data_type count n),
            li_element_name_str_offset = p + 4,
            li_element_count_offset = p + (length (enc_data_header 2 name data_type count n) - 4),
            li_element_size_offset = p\<rparr>)"
proof -
  have e: "enc_data_header 2 name data_type count n = u32_bytes (word_of_nat n) @ enc_str2 name @
     u16_bytes data_type @ u16_bytes 0 @ u16_bytes 0 @ u32_bytes (word_of_nat count) @ []"
    by (simp add: enc_data_header_def data_element_def enc_element2_def enc_element2_before_count_def
        enc_str2_def Let_def)
  have c': "\<not> count > UINT32_MAX" using c by simp
  show ?thesis
    unfolding data_header2_fields_def
    unfolding e
    by (rule emits_conv, ((rule emits_intros ok c' TrueI)+)[1])
       (rule messageelement_buffer_info.equality; simp add: ac_simps)
qed

lemma data_header4_flags_check:
  "FLAGS_CHECK (data_header4_flags name) MESSAGEELEMENT_FLAGS_ELEMENT_NAME_STR \<longleftrightarrow> name \<noteq> []"
  "\<not> FLAGS_CHECK (data_header4_flags name) MESSAGEELEMENT_FLAGS_ELEMENT_NAME_CODE"
  "\<not> FLAGS_CHECK (data_header4_flags name) MESSAGEELEMENT_FLAGS_ELEMENT_NUMBER"
  "\<not> FLAGS_CHECK (data_header4_flags name) MESSAGEELEMENT_FLAGS_ELEMENT_TYPE_NAME_STR"
  "\<not> FLAGS_CHECK (data_header4_flags name) MESSAGEELEMENT_FLAGS_ELEMENT_TYPE_NAME_CODE"
  "\<not> FLAGS_CHECK (data_header4_flags name) MESSAGEELEMENT_FLAGS_META_INFO"
  "\<not> FLAGS_CHECK (data_header4_flags name) MESSAGEELEMENT_FLAGS_EXTENDED"
  by (simp_all add: data_header4_flags_def FLAGS_CHECK_def FLAGS_SET_def element_flags_defs)

lemma emits_data_header4:
  assumes ok: "str4_ok name" and c: "count \<le> UINT32_MAX"
  shows "emits (run_steps (data_header4_fields name count data_type n)) (enc_data_header 4 name data_type count n)
    (\<lambda>p i. \<lparr>li_start_buffer_offset = p,
            li_header_size = sz_sub (p + length (enc_data_header 4 name data_type count n)) p,
            li_data_start_offset = p + length (enc_data_header 4 name data_type count n),
            li_element_name_str_offset = SIZE_T_MAX,
            li_element_count_offset = SIZE_T_MAX,
            li_element_size_offset = SIZE_T_MAX\<rparr>)"
proof -
  let ?f = "data_header4_flags name"
  have e: "enc_data_header 4 name data_type count n = enc_uint_x (word_of_nat n) @ [?f] @
     opt (FLAGS_CHECK ?f MESSAGEELEMENT_FLAGS_ELEMENT_NAME_STR) (enc_str4 name) @
     u16_bytes data_type @ enc_uint_x (word_of_nat count) @ []"
    by (simp add: enc_data_header_def data_element_def enc_element4_def enc_element4_sections_def
        data_header4_flags_check Let_def enc_uint_x_def)
  have c': "\<not> count > UINT32_MAX" using c by simp
  show ?thesis
    unfolding data_header4_fields_def Let_def
    unfolding e
    by (rule emits_conv, ((rule emits_intros ok c' TrueI)+)[1])
       (rule messageelement_buffer_info.equality; simp add: ac_simps del: length_opt)
qed

end
