(* ===== verification/RRL_Layout.thy ===== *)
theory RRL_Layout
  imports RRL_Build RRL_ElementCodec
begin

text \<open>
  Sequences of elements in a buffer, and the cursors over them. The locale \<open>element_layout\<close>
  states what a cursor relies on: that the header of an element that stands in the buffer can be
  read, that it gives the size of the whole element, and where the name is. The walk over a
  sequence and the search by name are proved once in it, and it is interpreted on the element
  formats of both versions of the protocol.
\<close>


section \<open>Comparing names\<close>

lemma copy_block_16:
  assumes wf: "wf_vec 1 bv" and t: "length temp = 16" and n: "0 < n" "n \<le> 16" and p: "p + n \<le> length (flat bv)"
  shows "buffer_vec_copy_to_string bv p \<lparr>str_data = Some temp, str_len = 16\<rparr> 0 n =
           (OK, \<lparr>str_data = Some (overwrite temp 0 (chunk (flat bv) p n)), str_len = 16\<rparr>)"
  using copy_to_mem_flat [OF wf, of 1 n temp 16 p] assms
  by (simp add: buffer_vec_copy_to_string_def string_memory_def)

lemma drop_split_eq:
  assumes "n \<le> k" and "length xs = k"
  shows "(xs = drop i ys) = (take n xs = take n (drop i ys) \<and> drop n xs = drop (i + n) ys)"
  by (metis add.commute append_take_drop_id drop_drop)

declare name_compare.simps [simp del]

text \<open>Comparing in blocks is comparing the whole name.\<close>

lemma name_compare_at:
  assumes wf: "wf_vec 1 bv" and room: "p + length name \<le> length (flat bv)"
  shows "off + len = length name \<Longrightarrow> 0 < len \<Longrightarrow> length temp = 16 \<Longrightarrow>
     name_compare bv p name temp len off = Inr (chunk (flat bv) (p + off) len = drop off name)"
proof (induction len arbitrary: off temp rule: less_induct)
  case (less len)
  define n where "n = (if len \<le> 16 then len else 16)"
  define c where "c = chunk (flat bv) (p + off) n"
  have n: "0 < n" "n \<le> 16" "n \<le> len" using less.prems by (auto simp: n_def)
  have fit: "p + off + n \<le> length (flat bv)" "p + off + len \<le> length (flat bv)" using room less.prems n by auto
  have small: "p + off < 2 ^ 64" "off + n < 2 ^ 64"
    using wf_small [OF wf, of "p + off"] wf_small [OF wf, of "off + n"] fit by auto
  have lc: "length c = n" using fit by (simp add: c_def)
  have copy: "buffer_vec_copy_to_string bv (sz_add p off) \<lparr>str_data = Some temp, str_len = 16\<rparr> 0 n =
       (OK, \<lparr>str_data = Some (overwrite temp 0 c), str_len = 16\<rparr>)"
    using copy_block_16 [OF wf less.prems(3) n(1,2) fit(1)] small by (simp add: sz_add_nowrap c_def)
  have mem: "take n (overwrite temp 0 c) = c" using lc by (simp add: overwrite_def)
  have whole: "chunk (flat bv) (p + off) len = c @ chunk (flat bv) (p + (off + n)) (len - n)"
    using n chunk_add [of "flat bv" "p + off" n "len - n"] by (simp add: c_def add.assoc)
  have iff: "(chunk (flat bv) (p + off) len = drop off name) =
     (c = take n (drop off name) \<and> chunk (flat bv) (p + (off + n)) (len - n) = drop (off + n) name)"
    unfolding whole using drop_split_eq [of n len "c @ chunk (flat bv) (p + (off + n)) (len - n)" off name]
      n less.prems lc fit by (simp add: add.commute)
  have unf: "name_compare bv p name temp len off =
     (if c \<noteq> take n (drop off name) then Inr False else if len - n = 0 then Inr True
      else name_compare bv p name (overwrite temp 0 c) (len - n) (sz_add off n))"
    using copy by (subst name_compare.simps) (simp add: n_def [symmetric] Let_def string_memory_def mem)
  show ?case
  proof (cases "len = n")
    case True
    then show ?thesis unfolding unf iff using less.prems by auto
  next
    case False
    have "name_compare bv p name (overwrite temp 0 c) (len - n) (off + n) =
        Inr (chunk (flat bv) (p + (off + n)) (len - n) = drop (off + n) name)"
      using n False less.prems lc by (intro less.IH) auto
    then show ?thesis unfolding unf iff using False n small by (auto simp: sz_add_nowrap)
  qed
qed


section \<open>A search always ends\<close>

text \<open>
  Each round of the loop moves the cursor on, and it moves at most once per element: whatever is in
  the buffer, the search returns.
\<close>

lemma find_loop_total:
  assumes "lr_current_element r < 2 ^ 64 - 1" and "lr_total_elements r < 2 ^ 64"
  shows "\<exists>res. find_loop bv name r = Some res"
  using assms
proof (induction "lr_total_elements r - lr_current_element r" arbitrary: r rule: less_induct)
  case less
  have c: "sz_add (lr_current_element r) 1 = lr_current_element r + 1"
    using less.prems by (simp add: sz_add_nowrap)
  have step: "lr_current_element r' = lr_current_element r + 1" "lr_current_element r + 1 < lr_total_elements r"
       "lr_total_elements r' = lr_total_elements r"
    if "messageelement_reader_move_next bv r = (OK, r')" for r'
    using that c by (auto simp: messageelement_reader_move_next_def Let_def split: if_splits sum.splits)
  have "\<exists>res. find_loop bv name r' = Some res" if m: "messageelement_reader_move_next bv r = (OK, r')" for r'
    using step [OF m] less.prems by (intro less.hyps) auto
  then show ?case
    by (subst find_loop.simps) (auto split: sum.splits prod.splits status.splits)
qed

lemma begin_elements_start:
  assumes "messageentry_reader_begin_read_elements bv er r0 = (OK, r)"
  shows "lr_current_element r = 0" and "lr_total_elements r < 2 ^ 32"
  using assms unat_u32_lt
  by (auto simp: messageentry_reader_begin_read_elements_def split: prod.splits status.splits if_splits sum.splits)

lemma begin_nested_start:
  assumes "messageelement_reader_begin_read_nested_elements bv er r0 = (OK, r)"
  shows "lr_current_element r = 0" and "lr_total_elements r < 2 ^ 32"
  using assms unat_u32_lt
  by (auto simp: messageelement_reader_begin_read_nested_elements_def split: prod.splits status.splits if_splits sum.splits)

lemma find_element_total: "\<exists>res. messageentry_reader_find_element bv er name r0 = Some res"
proof -
  have "\<exists>res. find_loop bv name r = Some res"
    if "messageentry_reader_begin_read_elements bv er r0 = (OK, r)" for r
    using begin_elements_start [OF that] by (intro find_loop_total) auto
  then show ?thesis
    by (auto simp: messageentry_reader_find_element_def split: prod.splits status.splits)
qed

lemma find_nested_element_total: "\<exists>res. messageelement_reader_find_nested_element bv er name r0 = Some res"
proof -
  have "\<exists>res. find_loop bv name r = Some res"
    if "messageelement_reader_begin_read_nested_elements bv er r0 = (OK, r)" for r
    using begin_nested_start [OF that] by (intro find_loop_total) auto
  then show ?thesis
    by (auto simp: messageelement_reader_find_nested_element_def split: prod.splits status.splits)
qed


section \<open>Sequences of elements\<close>

text \<open>
  What is read of an element: the bytes of the whole element, its name, and the header and the place
  of the name as the reader finds them.
\<close>

locale element_layout =
  fixes ver :: u16 and enc :: "'e \<Rightarrow> byte list" and valid :: "'e \<Rightarrow> bool" and name_of :: "'e \<Rightarrow> const_string"
    and header_of :: "'e \<Rightarrow> rstring messageelement_header" and info_of :: "'e \<Rightarrow> size_t \<Rightarrow> messageelement_buffer_info"
  assumes read_at: "wf_vec 1 bv \<Longrightarrow> valid e \<Longrightarrow> lr_message_version r = ver \<Longrightarrow> at bv (lr_buffer_offset r) (enc e) \<Longrightarrow>
      messageelement_reader_read_header_ex bv r zero_element_header info =
        (OK, header_of e, info_of e (lr_buffer_offset r))"
    and size_at: "wf_vec 1 bv \<Longrightarrow> valid e \<Longrightarrow> at bv p (enc e) \<Longrightarrow>
      \<exists>n q. message_read_count ver bv p = Inr (n, q) \<and> unat n = length (enc e)"
    and name_length: "valid e \<Longrightarrow> str_len (lh_element_name (header_of e)) = length (name_of e)"
    and name_at: "valid e \<Longrightarrow> at bv p (enc e) \<Longrightarrow> name_of e \<noteq> [] \<Longrightarrow>
      at bv (li_element_name_str_offset (info_of e p)) (name_of e)"
begin

definition enc_all :: "'e list \<Rightarrow> byte list" where
  "enc_all es = concat (map enc es)"

text \<open>
  The cursor at the element behind \<open>before\<close>, in a sequence that starts at \<open>p\<close> and is
  followed by \<open>slack\<close> bytes of the enclosing item.
\<close>

definition cursor :: "size_t \<Rightarrow> nat \<Rightarrow> 'e list \<Rightarrow> 'e \<Rightarrow> 'e list \<Rightarrow> messageelement_reader" where
  "cursor p slack before e after =
     \<lparr>lr_buffer_offset = p + length (enc_all before), lr_buffer_count = length (enc e),
      lr_buffer_remaining = length (enc_all after) + slack, lr_current_element = length before,
      lr_total_elements = length before + 1 + length after, lr_message_version = ver\<rparr>"

lemma at_cursor:
  assumes "at bv p (enc_all (before @ e # after))"
  shows "at bv (p + length (enc_all before)) (enc e)"
    and "at bv (p + length (enc_all before) + length (enc e)) (enc_all after)"
  using assms by (simp_all add: enc_all_def at_append add.assoc)

lemma has_name_at:
  assumes wf: "wf_vec 1 bv" and ok: "valid e" and a: "at bv p (enc_all (before @ e # after))" and n: "nm \<noteq> []"
  shows "element_has_name bv nm (cursor p slack before e after) = Inr (name_of e = nm)"
proof -
  let ?r = "cursor p slack before e after"
  note a' = at_cursor(1) [OF a]
  have r: "messageelement_reader_read_header_ex bv ?r zero_element_header no_element_info =
      (OK, header_of e, info_of e (p + length (enc_all before)))"
    using read_at [OF wf ok, of ?r no_element_info] a' by (simp add: cursor_def)
  show ?thesis
  proof (cases "length (name_of e) = length nm")
    case True
    then have ne: "name_of e \<noteq> []" using n by auto
    note c = name_at [OF ok a' ne]
    have "name_compare bv (li_element_name_str_offset (info_of e (p + length (enc_all before)))) nm
        (replicate 16 0) (length nm) 0 = Inr (name_of e = nm)"
      using name_compare_at [OF wf, of "li_element_name_str_offset (info_of e (p + length (enc_all before)))"
          nm 0 "length nm" "replicate 16 0"] c True n
      by (simp add: at_def)
    then show ?thesis using r True by (simp add: element_has_name_def name_length [OF ok])
  next
    case False
    then show ?thesis using r by (auto simp: element_has_name_def name_length [OF ok])
  qed
qed

lemma move_next_at:
  assumes wf: "wf_vec 1 bv" and ok: "valid e'" and a: "at bv p (enc_all (before @ e # e' # after))"
    and small: "length before + 2 + length after < 2 ^ 63" "length (enc_all (e' # after)) + slack < 2 ^ 63"
  shows "messageelement_reader_move_next bv (cursor p slack before e (e' # after)) =
           (OK, cursor p slack (before @ [e]) e' after)"
proof -
  let ?q = "p + length (enc_all before) + length (enc e)"
  have a': "at bv ?q (enc_all (e' # after))" using at_cursor(2) [OF a] by simp
  then have a2: "at bv ?q (enc e')" by (simp add: enc_all_def at_append)
  obtain n q' where c: "message_read_count ver bv ?q = Inr (n, q')" "unat n = length (enc e')"
    using size_at [OF wf ok a2] by blast
  have o: "sz_add (p + length (enc_all before)) (length (enc e)) = ?q"
    using wf_small [OF wf, of ?q] at_le [OF a2] by (simp add: sz_add_nowrap)
  have i: "sz_add (length before) 1 = Suc (length before)" using small by (simp add: sz_add_nowrap)
  have rem: "sz_sub (length (enc_all (e' # after)) + slack) (length (enc e')) = length (enc_all after) + slack"
    using small by (subst sz_sub_nowrap) (auto simp: enc_all_def)
  show ?thesis
    using c o i rem
    by (simp add: messageelement_reader_move_next_def cursor_def Let_def) (simp add: enc_all_def)
qed

lemma move_next_last:
  assumes "length before + 1 < 2 ^ 63"
  shows "messageelement_reader_move_next bv (cursor p slack before e []) = (Err NO_MORE, cursor p slack before e [])"
  using assms by (simp add: messageelement_reader_move_next_def cursor_def sz_add_nowrap)

text \<open>The search finds the first element with the name, or reports that there is none.\<close>

lemma find_loop_found:
  assumes wf: "wf_vec 1 bv" and n: "nm \<noteq> []" and nm: "name_of e' = nm"
  shows "at bv p (enc_all (before @ e # mid @ e' # after)) \<Longrightarrow> \<forall>x \<in> set (e # mid). name_of x \<noteq> nm \<Longrightarrow>
     \<forall>x \<in> set (e # mid @ [e']). valid x \<Longrightarrow>
     length before + 2 + length mid + length after < 2 ^ 63 \<Longrightarrow>
     length (enc_all (mid @ e' # after)) + slack < 2 ^ 63 \<Longrightarrow>
     find_loop bv nm (cursor p slack before e (mid @ e' # after)) =
       Some (OK, cursor p slack (before @ e # mid) e' after)"
proof (induction mid arbitrary: before e)
  case Nil
  have h: "element_has_name bv nm (cursor p slack before e (e' # after)) = Inr False"
    using has_name_at [OF wf _ _ n, of e p before "e' # after" slack] Nil by simp
  have mv: "messageelement_reader_move_next bv (cursor p slack before e (e' # after)) =
      (OK, cursor p slack (before @ [e]) e' after)"
    using Nil by (intro move_next_at [OF wf]) auto
  have h': "element_has_name bv nm (cursor p slack (before @ [e]) e' after) = Inr True"
    using has_name_at [OF wf _ _ n, of e' p "before @ [e]" after slack] Nil nm by simp
  show ?case
    by (subst find_loop.simps, simp add: h mv) (subst find_loop.simps, simp add: h')
next
  case (Cons m mid)
  have h: "element_has_name bv nm (cursor p slack before e (m # mid @ e' # after)) = Inr False"
    using has_name_at [OF wf _ _ n, of e p before "m # mid @ e' # after" slack] Cons.prems by simp
  have mv: "messageelement_reader_move_next bv (cursor p slack before e (m # mid @ e' # after)) =
      (OK, cursor p slack (before @ [e]) m (mid @ e' # after))"
    using Cons.prems by (intro move_next_at [OF wf]) auto
  have "find_loop bv nm (cursor p slack (before @ [e]) m (mid @ e' # after)) =
       Some (OK, cursor p slack ((before @ [e]) @ m # mid) e' after)"
    using Cons.prems by (intro Cons.IH) (auto simp: enc_all_def)
  then show ?case
    by (subst find_loop.simps) (simp add: h mv)
qed

lemma find_loop_first:
  assumes wf: "wf_vec 1 bv" and n: "nm \<noteq> []" and "name_of e = nm" and "valid e"
    and "at bv p (enc_all (before @ e # after))"
  shows "find_loop bv nm (cursor p slack before e after) = Some (OK, cursor p slack before e after)"
  using has_name_at [OF wf assms(4,5) n, of slack] assms(3) by (subst find_loop.simps) simp

lemma find_loop_missing:
  assumes wf: "wf_vec 1 bv" and n: "nm \<noteq> []"
  shows "at bv p (enc_all (before @ e # after)) \<Longrightarrow> \<forall>x \<in> set (e # after). name_of x \<noteq> nm \<and> valid x \<Longrightarrow>
     length before + 2 + length after < 2 ^ 63 \<Longrightarrow> length (enc_all after) + slack < 2 ^ 63 \<Longrightarrow>
     \<exists>r. find_loop bv nm (cursor p slack before e after) = Some (Err MESSAGEELEMENT_NOT_FOUND, r)"
proof (induction after arbitrary: before e)
  case Nil
  have h: "element_has_name bv nm (cursor p slack before e []) = Inr False"
    using has_name_at [OF wf _ _ n, of e p before "[]" slack] Nil by simp
  show ?case
    using move_next_last [of before bv p slack e] Nil
    by (subst find_loop.simps) (simp add: h not_found_def)
next
  case (Cons m after)
  have h: "element_has_name bv nm (cursor p slack before e (m # after)) = Inr False"
    using has_name_at [OF wf _ _ n, of e p before "m # after" slack] Cons.prems by simp
  have mv: "messageelement_reader_move_next bv (cursor p slack before e (m # after)) =
      (OK, cursor p slack (before @ [e]) m after)"
    using Cons.prems by (intro move_next_at [OF wf]) auto
  have "\<exists>r. find_loop bv nm (cursor p slack (before @ [e]) m after) = Some (Err MESSAGEELEMENT_NOT_FOUND, r)"
    using Cons.prems by (intro Cons.IH) (auto simp: enc_all_def)
  then show ?case
    by (subst find_loop.simps) (simp add: h mv)
qed

text \<open>The first element with a name in a sequence, with what stands before and after it.\<close>

lemma find_loop_search:
  assumes wf: "wf_vec 1 bv" and n: "nm \<noteq> []" and es: "es \<noteq> []" and a: "at bv p (enc_all es)"
    and ok: "\<forall>x \<in> set es. valid x" and small: "length es + 1 < 2 ^ 63" "length (enc_all es) + slack < 2 ^ 63"
  shows "case find (\<lambda>x. name_of x = nm) es of
       None \<Rightarrow> \<exists>r. find_loop bv nm (cursor p slack [] (hd es) (tl es)) = Some (Err MESSAGEELEMENT_NOT_FOUND, r)
     | Some e \<Rightarrow> \<exists>before after. es = before @ e # after \<and> name_of e = nm \<and> (\<forall>x \<in> set before. name_of x \<noteq> nm) \<and>
           find_loop bv nm (cursor p slack [] (hd es) (tl es)) = Some (OK, cursor p slack before e after)"
proof (cases "\<exists>x \<in> set es. name_of x = nm")
  case False
  obtain e after where e: "es = e # after" using es by (cases es) auto
  have "length (enc_all after) + slack < 2 ^ 63" using small by (auto simp: e enc_all_def)
  then have "\<exists>r. find_loop bv nm (cursor p slack [] e after) = Some (Err MESSAGEELEMENT_NOT_FOUND, r)"
    using find_loop_missing [OF wf n, of p "[]" e after slack] a False ok small by (auto simp: e)
  moreover have "find (\<lambda>x. name_of x = nm) es = None" using False by (simp add: find_None_iff)
  ultimately show ?thesis by (simp add: e)
next
  case True
  obtain before e after where s: "es = before @ e # after" "name_of e = nm" "\<forall>x \<in> set before. name_of x \<noteq> nm"
    using split_list_first_prop [OF True] by auto
  have "find (\<lambda>x. name_of x = nm) es = Some e"
    using s by (induction before arbitrary: es) auto
  moreover have "find_loop bv nm (cursor p slack [] (hd es) (tl es)) = Some (OK, cursor p slack before e after)"
  proof (cases before)
    case Nil
    then show ?thesis using find_loop_first [OF wf n s(2), of p "[]" after slack] a ok by (simp add: s)
  next
    case (Cons b mid)
    have "length (enc_all (mid @ e # after)) + slack < 2 ^ 63" using small by (auto simp: s Cons enc_all_def)
    then show ?thesis
      using find_loop_found [OF wf n s(2), of p "[]" b mid after slack] a s ok small by (simp add: Cons)
  qed
  ultimately show ?thesis using s by auto
qed

text \<open>Entering the elements of an entry, and those nested in an element.\<close>

lemma begin_elements_at:
  assumes wf: "wf_vec 1 bv" and es: "es = e # after" and ok: "valid e"
    and h: "messageentry_reader_read_header_ex bv er zero_entry_header no_entry_info = (OK, eh, ei)"
    and c: "unat (eh_element_count eh) = length es" and v: "er_message_version er = ver"
    and o: "ei_header_size ei = n" "ei_element_start_offset ei = er_buffer_offset er + n"
    and cnt: "er_buffer_count er = n + length (enc_all es) + slack" "er_buffer_count er < 2 ^ 63"
    and a: "at bv (er_buffer_offset er + n) (enc_all es)"
  shows "messageentry_reader_begin_read_elements bv er r0 = (OK, cursor (er_buffer_offset er + n) slack [] e after)"
proof -
  let ?q = "er_buffer_offset er + n"
  have a': "at bv ?q (enc e)" using a by (simp add: es enc_all_def at_append)
  obtain m q' where m: "message_read_count ver bv ?q = Inr (m, q')" "unat m = length (enc e)"
    using size_at [OF wf ok a'] by blast
  have l: "length (enc_all es) = length (enc e) + length (enc_all after)" by (simp add: es enc_all_def)
  have c0: "eh_element_count eh \<noteq> 0" using c by (auto simp: es)
  have o2: "sz_sub ?q (er_buffer_offset er) = n" using wf_small [OF wf, of ?q] at_le [OF a'] by (simp add: sz_sub_nowrap)
  have o3: "sz_add n (length (enc e)) = n + length (enc e)" using cnt l by (simp add: sz_add_nowrap)
  have o4: "sz_sub (er_buffer_count er) n = length (enc_all es) + slack"
      "sz_sub (length (enc_all es) + slack) (length (enc e)) = length (enc_all after) + slack"
    using cnt l by (simp_all add: sz_sub_nowrap)
  show ?thesis
    using h c0 m o o2 o3 o4 v c l cnt
    by (simp add: messageentry_reader_begin_read_elements_def cursor_def es enc_all_def)
qed

lemma begin_nested_at:
  assumes wf: "wf_vec 1 bv" and es: "es = e # after" and ok: "valid e"
    and h: "messageelement_reader_read_header_ex bv lr zero_element_header no_element_info = (OK, lh, li)"
    and t: "lh_element_type lh \<in> set nested_types"
    and c: "unat (lh_data_count lh) = length es" and v: "lr_message_version lr = ver"
    and o: "li_header_size li = n" "li_data_start_offset li = lr_buffer_offset lr + n"
    and cnt: "lr_buffer_count lr = n + length (enc_all es) + slack" "lr_buffer_count lr < 2 ^ 63"
    and a: "at bv (lr_buffer_offset lr + n) (enc_all es)"
  shows "messageelement_reader_begin_read_nested_elements bv lr r0 = (OK, cursor (lr_buffer_offset lr + n) slack [] e after)"
proof -
  let ?q = "lr_buffer_offset lr + n"
  have a': "at bv ?q (enc e)" using a by (simp add: es enc_all_def at_append)
  obtain m q' where m: "message_read_count ver bv ?q = Inr (m, q')" "unat m = length (enc e)"
    using size_at [OF wf ok a'] by blast
  have l: "length (enc_all es) = length (enc e) + length (enc_all after)" by (simp add: es enc_all_def)
  have c0: "lh_data_count lh \<noteq> 0" using c by (auto simp: es)
  have o4: "sz_sub (lr_buffer_count lr) n = length (enc_all es) + slack"
      "sz_sub (length (enc_all es) + slack) (length (enc e)) = length (enc_all after) + slack"
    using cnt l by (simp_all add: sz_sub_nowrap)
  show ?thesis
    using h c0 m o o4 v c l cnt t
    by (simp add: messageelement_reader_begin_read_nested_elements_def cursor_def es enc_all_def)
qed

text \<open>The outcome of a search among the elements \<open>es\<close> that stand at \<open>q\<close>.\<close>

definition search_outcome ::
  "size_t \<Rightarrow> nat \<Rightarrow> 'e list \<Rightarrow> const_string \<Rightarrow> (status \<times> messageelement_reader) option \<Rightarrow> bool" where
  "search_outcome q slack es nm res \<longleftrightarrow>
     (case find (\<lambda>x. name_of x = nm) es of
        None \<Rightarrow> \<exists>r. res = Some (Err MESSAGEELEMENT_NOT_FOUND, r)
      | Some e \<Rightarrow> \<exists>before after. es = before @ e # after \<and> res = Some (OK, cursor q slack before e after))"

lemma search_outcome_loop:
  assumes "wf_vec 1 bv" and "nm \<noteq> []" and "es \<noteq> []" and "at bv q (enc_all es)" and "\<forall>x \<in> set es. valid x"
    and "length es + 1 < 2 ^ 63" and "length (enc_all es) + slack < 2 ^ 63"
  shows "search_outcome q slack es nm (find_loop bv nm (cursor q slack [] (hd es) (tl es)))"
  using find_loop_search [OF assms] by (fastforce simp: search_outcome_def split: option.splits)

lemma find_in_entry:
  assumes wf: "wf_vec 1 bv" and nm: "nm \<noteq> []" and es: "es \<noteq> []" "length es < 2 ^ 32" and ok: "\<forall>x \<in> set es. valid x"
    and h: "messageentry_reader_read_header_ex bv er zero_entry_header no_entry_info = (OK, eh, ei)"
    and c: "unat (eh_element_count eh) = length es" and v: "er_message_version er = ver"
    and o: "ei_header_size ei = n" "ei_element_start_offset ei = er_buffer_offset er + n"
    and cnt: "er_buffer_count er = n + length (enc_all es) + slack" "er_buffer_count er < 2 ^ 63"
    and a: "at bv (er_buffer_offset er + n) (enc_all es)"
  shows "search_outcome (er_buffer_offset er + n) slack es nm (messageentry_reader_find_element bv er nm r0)"
proof -
  have e: "es = hd es # tl es" using es by simp
  have "messageentry_reader_begin_read_elements bv er r0 =
      (OK, cursor (er_buffer_offset er + n) slack [] (hd es) (tl es))"
    using ok es by (intro begin_elements_at [OF wf e _ h c v o cnt a]) auto
  moreover have "search_outcome (er_buffer_offset er + n) slack es nm
      (find_loop bv nm (cursor (er_buffer_offset er + n) slack [] (hd es) (tl es)))"
    using es cnt by (intro search_outcome_loop [OF wf nm es(1) a ok]) auto
  ultimately show ?thesis by (simp add: messageentry_reader_find_element_def)
qed

lemma find_in_element:
  assumes wf: "wf_vec 1 bv" and nm: "nm \<noteq> []" and es: "es \<noteq> []" "length es < 2 ^ 32" and ok: "\<forall>x \<in> set es. valid x"
    and h: "messageelement_reader_read_header_ex bv lr zero_element_header no_element_info = (OK, lh, li)"
    and t: "lh_element_type lh \<in> set nested_types"
    and c: "unat (lh_data_count lh) = length es" and v: "lr_message_version lr = ver"
    and o: "li_header_size li = n" "li_data_start_offset li = lr_buffer_offset lr + n"
    and cnt: "lr_buffer_count lr = n + length (enc_all es) + slack" "lr_buffer_count lr < 2 ^ 63"
    and a: "at bv (lr_buffer_offset lr + n) (enc_all es)"
  shows "search_outcome (lr_buffer_offset lr + n) slack es nm (messageelement_reader_find_nested_element bv lr nm r0)"
proof -
  have e: "es = hd es # tl es" using es by simp
  have "messageelement_reader_begin_read_nested_elements bv lr r0 =
      (OK, cursor (lr_buffer_offset lr + n) slack [] (hd es) (tl es))"
    using ok es by (intro begin_nested_at [OF wf e _ h t c v o cnt a]) auto
  moreover have "search_outcome (lr_buffer_offset lr + n) slack es nm
      (find_loop bv nm (cursor (lr_buffer_offset lr + n) slack [] (hd es) (tl es)))"
    using es cnt by (intro search_outcome_loop [OF wf nm es(1) a ok]) auto
  ultimately show ?thesis by (simp add: messageelement_reader_find_nested_element_def)
qed

end


section \<open>The elements of both versions\<close>

text \<open>
  An element as it stands on the wire: its header, the flags, the extended part and the widths of
  the two counts, which version 4 has, and its contents, data or nested elements.
\<close>

record wire_element =
  we_header :: "const_string messageelement_header"
  we_flags :: u8
  we_ext :: "byte list"
  we_size_width :: nat
  we_count_width :: nat
  we_contents :: "byte list"

definition enc_we2 :: "wire_element \<Rightarrow> byte list" where
  "enc_we2 e = enc_element2 (we_header e) @ we_contents e"

definition valid_we2 :: "wire_element \<Rightarrow> bool" where
  "valid_we2 e \<longleftrightarrow> element2_ok (we_header e) \<and> unat (lh_element_size (we_header e)) = length (enc_we2 e)"

definition info_we2 :: "wire_element \<Rightarrow> size_t \<Rightarrow> messageelement_buffer_info" where
  "info_we2 e p =
     \<lparr>li_start_buffer_offset = p, li_header_size = length (enc_element2 (we_header e)),
      li_data_start_offset = p + length (enc_element2 (we_header e)),
      li_element_name_str_offset = p + 6,
      li_element_count_offset = p + length (enc_element2_before_count (we_header e)),
      li_element_size_offset = p\<rparr>"

definition header4_we :: "wire_element \<Rightarrow> byte list" where
  "header4_we e = enc_element4 (we_size_width e) (we_count_width e) (we_flags e) (we_header e) (we_ext e)"

definition enc_we4 :: "wire_element \<Rightarrow> byte list" where
  "enc_we4 e = header4_we e @ we_contents e"

definition valid_we4 :: "wire_element \<Rightarrow> bool" where
  "valid_we4 e \<longleftrightarrow> element4_ok (we_header e) \<and> str4_ok (we_ext e) \<and>
     uint_width_ok (we_size_width e) (lh_element_size (we_header e)) \<and>
     uint_width_ok (we_count_width e) (lh_data_count (we_header e)) \<and>
     unat (lh_element_size (we_header e)) = length (enc_we4 e)"

definition name_we4 :: "wire_element \<Rightarrow> const_string" where
  "name_we4 e = (if FLAGS_CHECK (we_flags e) MESSAGEELEMENT_FLAGS_ELEMENT_NAME_STR
                 then lh_element_name (we_header e) else [])"

definition info_we4 :: "wire_element \<Rightarrow> size_t \<Rightarrow> messageelement_buffer_info" where
  "info_we4 e p =
     \<lparr>li_start_buffer_offset = p, li_header_size = length (header4_we e),
      li_data_start_offset = p + length (header4_we e),
      li_element_name_str_offset = element4_name_place (we_size_width e) (we_flags e) (we_header e) p,
      li_element_count_offset = p + (length (header4_we e) - we_count_width e),
      li_element_size_offset = p\<rparr>"

interpretation layout2: element_layout 2 enc_we2 valid_we2 "\<lambda>e. lh_element_name (we_header e)"
  "\<lambda>e. seen_element2 (we_header e) zero_element_header" info_we2
proof
  fix bv :: buffer_vec and e info and r :: messageelement_reader
  assume wf: "wf_vec 1 bv" and v: "valid_we2 e" and r: "lr_message_version r = 2" and a: "at bv (lr_buffer_offset r) (enc_we2 e)"
  have ok: "element2_ok (we_header e)" using v by (simp add: valid_we2_def)
  have a': "at bv (lr_buffer_offset r) (enc_element2 (we_header e))" using a unfolding enc_we2_def at_append by blast
  show "messageelement_reader_read_header_ex bv r zero_element_header info =
        (OK, seen_element2 (we_header e) zero_element_header, info_we2 e (lr_buffer_offset r))"
    by (simp add: messageelement_reader_read_header_ex_def r read_element2_at [OF wf ok a'] info_we2_def)
next
  fix bv :: buffer_vec and e p
  assume wf: "wf_vec 1 bv" and v: "valid_we2 e" and a: "at bv p (enc_we2 e)"
  then have "at bv p (u32_bytes (lh_element_size (we_header e)))"
    using at_element2(1) by (simp add: enc_we2_def at_append)
  then show "\<exists>n q. message_read_count 2 bv p = Inr (n, q) \<and> unat n = length (enc_we2 e)"
    using v by (simp add: message_read_count_def uint32.rd_at [OF wf] valid_we2_def)
next
  fix e
  show "str_len (lh_element_name (seen_element2 (we_header e) zero_element_header)) =
        length (lh_element_name (we_header e))"
    by (simp add: seen_element2_def zero_element_header_def)
next
  fix bv :: buffer_vec and e p
  assume "at bv p (enc_we2 e)"
  then have "at bv (p + 4) (enc_str2 (lh_element_name (we_header e)))"
    using at_element2(2) by (simp add: enc_we2_def at_append)
  then show "at bv (li_element_name_str_offset (info_we2 e p)) (lh_element_name (we_header e))"
    by (simp add: info_we2_def enc_str2_def at_append add.commute)
qed

interpretation layout4: element_layout 4 enc_we4 valid_we4 name_we4
  "\<lambda>e. seen_element4 (we_flags e) (we_header e) zero_element_header" info_we4
proof
  fix bv :: buffer_vec and e info and r :: messageelement_reader
  assume "wf_vec 1 bv" and "valid_we4 e" and "lr_message_version r = 4" and "at bv (lr_buffer_offset r) (enc_we4 e)"
  then show "messageelement_reader_read_header_ex bv r zero_element_header info =
        (OK, seen_element4 (we_flags e) (we_header e) zero_element_header, info_we4 e (lr_buffer_offset r))"
    by (simp add: messageelement_reader_read_header_ex_def valid_we4_def enc_we4_def header4_we_def at_append
        read_element4_at info_we4_def)
next
  fix bv :: buffer_vec and e p
  assume wf: "wf_vec 1 bv" and v: "valid_we4 e" and a: "at bv p (enc_we4 e)"
  then have "at bv p (enc_uint_as (we_size_width e) (lh_element_size (we_header e)))"
    by (simp add: enc_we4_def header4_we_def enc_element4_def at_append)
  then show "\<exists>n q. message_read_count 4 bv p = Inr (n, q) \<and> unat n = length (enc_we4 e)"
    using v uint_as.rd_at [OF wf, where v = "lh_element_size (we_header e)" and w = "we_size_width e" and p = p]
    by (simp add: message_read_count_def valid_we4_def)
next
  fix e
  show "str_len (lh_element_name (seen_element4 (we_flags e) (we_header e) zero_element_header)) = length (name_we4 e)"
    by (simp add: seen_element4_def zero_element_header_def name_we4_def) (simp add: null_string_def)
next
  fix bv :: buffer_vec and e p
  assume v: "valid_we4 e" and a: "at bv p (enc_we4 e)" and n: "name_we4 e \<noteq> []"
  have f: "FLAGS_CHECK (we_flags e) MESSAGEELEMENT_FLAGS_ELEMENT_NAME_STR"
    using n by (simp add: name_we4_def split: if_splits)
  have l: "length (enc_uint_as (we_size_width e) (lh_element_size (we_header e))) = we_size_width e"
    using v by (simp add: valid_we4_def length_enc_uint_as)
  have "at bv (p + (we_size_width e + 1)) (enc_element4_sections (we_flags e) (we_header e) (we_ext e))"
    using a by (simp add: enc_we4_def header4_we_def enc_element4_def at_append l at_Cons [of bv _ "we_flags e" "_ @ _"])
  then have "at bv (p + (we_size_width e + 1)) (enc_str4 (lh_element_name (we_header e)))"
    using at_element4(1) f by blast
  then show "at bv (li_element_name_str_offset (info_we4 e p)) (name_we4 e)"
    using f by (simp add: info_we4_def element4_name_place_def name_we4_def enc_str4_def at_append ac_simps)
qed

end
