(* ===== verification/RRL_Assemble.thy ===== *)
theory RRL_Assemble
  imports RRL_Layout
begin

text \<open>
  What the building routines write. Each is shown to put the encoding of its part behind what is
  already in the buffer; the routine that ends a part turns the open header into the closed one, in
  which the size and the count are those of what was written.
\<close>


section \<open>Plain data\<close>

record raw_element =
  re_name :: const_string
  re_type :: u16
  re_count :: nat
  re_elem_size :: nat
  re_data :: "byte list"

text \<open>The size of the element; in version 4 without the length prefix, and with it.\<close>

definition raw_body4 :: "raw_element \<Rightarrow> nat" where
  "raw_body4 d = 3 + length (opt (re_name d \<noteq> []) (enc_str4 (re_name d))) +
     message_uint_x_size (word_of_nat (re_count d)) + length (re_data d)"

definition raw_size :: "u16 \<Rightarrow> raw_element \<Rightarrow> nat" where
  "raw_size ver d =
     (if ver = 2 then 16 + length (re_name d) + length (re_data d)
      else case message_len_plus_uint_x (word_of_nat (raw_body4 d)) of
             Inl _ \<Rightarrow> raw_body4 d | Inr (_, s) \<Rightarrow> raw_body4 d + s)"

definition raw_ok :: "u16 \<Rightarrow> raw_element \<Rightarrow> bool" where
  "raw_ok ver d \<longleftrightarrow> 0 < re_elem_size d \<and> 0 < re_count d \<and> length (re_data d) = re_count d * re_elem_size d \<and>
     (if ver = 2 then length (re_name d) \<le> UINT16_MAX \<and> 16 + length (re_name d) + length (re_data d) \<le> UINT32_MAX
      else ver = 4 \<and> length (re_name d) \<le> UINT32_MAX \<and> raw_body4 d \<le> UINT32_MAX - 5)"

definition raw_header :: "u16 \<Rightarrow> raw_element \<Rightarrow> const_string messageelement_header" where
  "raw_header ver d = data_element (re_name d) (re_type d) (re_count d) (raw_size ver d)"

definition raw_we :: "u16 \<Rightarrow> raw_element \<Rightarrow> wire_element" where
  "raw_we ver d =
     \<lparr>we_header = raw_header ver d, we_flags = data_header4_flags (re_name d), we_ext = [],
      we_size_width = message_uint_x_size (word_of_nat (raw_size ver d)),
      we_count_width = message_uint_x_size (word_of_nat (re_count d)), we_contents = re_data d\<rparr>"

definition enc_raw :: "u16 \<Rightarrow> raw_element \<Rightarrow> byte list" where
  "enc_raw ver d = enc_data_header ver (re_name d) (re_type d) (re_count d) (raw_size ver d) @ re_data d"

lemma enc_raw_we: "enc_raw 2 d = enc_we2 (raw_we 2 d)" "enc_raw 4 d = enc_we4 (raw_we 4 d)"
  by (simp_all add: enc_raw_def enc_we2_def enc_we4_def header4_we_def raw_we_def raw_header_def enc_data_header_def
      data_element_def Let_def)

lemma raw_count_le: "raw_ok ver d \<Longrightarrow> re_count d \<le> length (re_data d)"
  by (simp add: raw_ok_def)

lemma raw_data_small: "raw_ok ver d \<Longrightarrow> length (re_data d) \<le> UINT32_MAX"
  by (auto simp: raw_ok_def raw_body4_def split: if_splits)

lemma raw_size4:
  assumes "raw_ok 4 d"
  obtains s where "raw_size 4 d = raw_body4 d + s" and "message_uint_x_size (word_of_nat (raw_body4 d + s)) = s"
    and "raw_body4 d + s \<le> UINT32_MAX" and "s \<le> 5"
    and "message_len_plus_uint_x (word_of_nat (raw_body4 d)) = Inr (word_of_nat (raw_body4 d + s), s)"
proof -
  have "raw_body4 d \<le> UINT32_MAX - 5" using assms by (simp add: raw_ok_def)
  then obtain s where "message_len_plus_uint_x (word_of_nat (raw_body4 d)) = Inr (word_of_nat (raw_body4 d + s), s)"
    and "message_uint_x_size (word_of_nat (raw_body4 d + s)) = s" and "raw_body4 d + s \<le> UINT32_MAX" and "s \<le> 5"
    by (rule len_plus_uint_x)
  then show thesis using that [of s] by (simp add: raw_size_def)
qed

lemma raw_size_le: "raw_ok ver d \<Longrightarrow> raw_size ver d \<le> UINT32_MAX"
proof -
  assume ok: "raw_ok ver d"
  show ?thesis
  proof (cases "ver = 2")
    case True
    then show ?thesis using ok by (simp add: raw_ok_def raw_size_def)
  next
    case False
    then have v: "ver = 4" using ok by (simp add: raw_ok_def)
    then show ?thesis using raw_size4 [OF ok [unfolded v]] by metis
  qed
qed

lemma length_enc_raw:
  assumes "raw_ok ver d"
  shows "length (enc_raw ver d) = raw_size ver d"
proof (cases "ver = 2")
  case True
  then show ?thesis
    by (simp add: enc_raw_def enc_data_header_def data_element_def raw_size_def Let_def)
next
  case False
  then have v: "ver = 4" using assms by (simp add: raw_ok_def)
  obtain s where s: "raw_size 4 d = raw_body4 d + s" "message_uint_x_size (word_of_nat (raw_body4 d + s)) = s"
    using raw_size4 [OF assms [unfolded v]] by metis
  have "length (enc_data_header 4 (re_name d) (re_type d) (re_count d) (raw_size 4 d)) =
      s + 1 + (length (opt (re_name d \<noteq> []) (enc_str4 (re_name d))) + 2) + message_uint_x_size (word_of_nat (re_count d))"
    by (simp add: enc_data_header_def data_element_def enc_element4_def enc_element4_sections_def
        data_header4_flags_check Let_def s enc_uint_x_def [symmetric] del: of_nat_add)
  then show ?thesis by (simp add: v enc_raw_def s(1) raw_body4_def)
qed

lemma raw_we_valid:
  assumes "raw_ok ver d"
  shows "ver = 2 \<Longrightarrow> valid_we2 (raw_we 2 d)" and "ver = 4 \<Longrightarrow> valid_we4 (raw_we 4 d)"
proof -
  have sz: "unat (word_of_nat (raw_size ver d) :: u32) = length (enc_raw ver d)"
    using raw_size_le [OF assms] length_enc_raw [OF assms] by (simp add: unat_word_of_nat_u32)
  show "valid_we2 (raw_we 2 d)" if "ver = 2"
    using assms sz that
    by (simp add: valid_we2_def enc_raw_we(1) [symmetric])
       (simp add: raw_we_def raw_header_def data_element_def element2_ok_def str2_ok_def raw_ok_def)
  show "valid_we4 (raw_we 4 d)" if "ver = 4"
    using assms sz that
    by (simp add: valid_we4_def enc_raw_we(2) [symmetric])
       (simp add: raw_we_def raw_header_def data_element_def element4_ok_def str4_ok_def raw_ok_def uint_width_ok_min)
qed

text \<open>The size the code computes is the size of what it writes.\<close>

lemma write_data_header_size:
  assumes "raw_ok ver d"
  shows "ver = 2 \<Longrightarrow> write_data_header2_size (re_name d) (re_count d) (re_elem_size d) = Inr (raw_size 2 d)"
    and "ver = 4 \<Longrightarrow> write_data_header4_size (re_name d) (re_count d) (re_elem_size d) = Inr (raw_size 4 d)"
proof -
  have le: "length (re_data d) \<le> 4294967295" using raw_data_small [OF assms] by (simp add: UINT32_MAX_def)
  have m: "sz_mul (re_count d) (re_elem_size d) = length (re_data d)"
    using assms le by (simp add: raw_ok_def sz_mul_nowrap)
  show "write_data_header2_size (re_name d) (re_count d) (re_elem_size d) = Inr (raw_size 2 d)" if "ver = 2"
  proof -
    have b: "length (re_name d) \<le> 65535" "16 + length (re_name d) + length (re_data d) \<le> 4294967295"
      using assms that by (simp_all add: raw_ok_def UINT16_MAX_def UINT32_MAX_def)
    then show ?thesis
      by (simp add: write_data_header2_size_def m raw_size_def sz_add_nowrap UINT16_MAX_def UINT32_MAX_def)
  qed
  assume v: "ver = 4"
  have "raw_ok 4 d" using assms v by simp
  then obtain s where s: "raw_size 4 d = raw_body4 d + s" "raw_body4 d + s \<le> UINT32_MAX"
    "message_len_plus_uint_x (word_of_nat (raw_body4 d)) = Inr (word_of_nat (raw_body4 d + s), s)"
    using raw_size4 by metis
  have nm: "str4_ok (re_name d)" using assms v by (simp add: raw_ok_def str4_ok_def)
  have b: "raw_body4 d + s \<le> 4294967295" using s(2) by (simp add: UINT32_MAX_def)
  have c: "re_count d \<le> UINT32_MAX" using raw_count_le [OF assms] raw_data_small [OF assms] by simp
  have o: "length (opt (re_name d \<noteq> []) (enc_str4 (re_name d))) + 3 +
       (message_uint_x_size (word_of_nat (re_count d)) + length (re_data d)) = raw_body4 d"
    by (simp add: raw_body4_def)
  have p: "(if length (re_name d) \<noteq> 0 then and_then (header_string_size4 (re_name d)) (\<lambda>s. Inr (sz_add 3 s)) else Inr 3)
     = Inr (length (opt (re_name d \<noteq> []) (enc_str4 (re_name d))) + 3)"
  proof (cases "re_name d = []")
    case False
    then have "3 + length (enc_str4 (re_name d)) < 2 ^ 64" using o b by (simp del: length_enc_str4)
    then show ?thesis using False
      by (simp add: header_string_size4_ok [OF nm] sz_add_nowrap del: length_enc_str4)
  qed simp
  have small: "x \<le> raw_body4 d \<Longrightarrow> x < 2 ^ 64" for x using b by simp
  have q: "sz_add (length (opt (re_name d \<noteq> []) (enc_str4 (re_name d))) + 3) (message_uint_x_size (word_of_nat (re_count d)))
      = length (opt (re_name d \<noteq> []) (enc_str4 (re_name d))) + 3 + message_uint_x_size (word_of_nat (re_count d))"
    by (intro sz_add_nowrap small) (use o in linarith)
  have r: "sz_add (length (opt (re_name d \<noteq> []) (enc_str4 (re_name d))) + 3 + message_uint_x_size (word_of_nat (re_count d)))
      (length (re_data d)) = raw_body4 d"
    by (subst sz_add_nowrap, rule small) (use o in linarith)+
  have t: "sz_add (raw_body4 d) s = raw_body4 d + s" "\<not> raw_body4 d > UINT32_MAX"
    using b by (simp_all add: sz_add_nowrap UINT32_MAX_def)
  show "write_data_header4_size (re_name d) (re_count d) (re_elem_size d) = Inr (raw_size 4 d)"
    unfolding write_data_header4_size_def p
    using c s t by (simp add: Let_def m q r del: length_opt of_nat_add)
qed

lemma data_header_at:
  assumes wf: "wf_vec 1 bv" and ok: "raw_ok ver d"
    and room: "p + length (enc_data_header ver (re_name d) (re_type d) (re_count d) (raw_size ver d)) \<le> length (flat bv)"
  shows "ver = 2 \<Longrightarrow> \<exists>info. messageelement_writer_write_data_header2_ex bv p (re_name d) (re_count d) (re_type d)
           (re_elem_size d) info0 n0 =
           (OK, put_flat bv p (enc_data_header 2 (re_name d) (re_type d) (re_count d) (raw_size 2 d)),
            p + length (enc_data_header 2 (re_name d) (re_type d) (re_count d) (raw_size 2 d)), info, raw_size 2 d) \<and>
           li_data_start_offset info = p + length (enc_data_header 2 (re_name d) (re_type d) (re_count d) (raw_size 2 d))"
    and "ver = 4 \<Longrightarrow> \<exists>info. messageelement_writer_write_data_header4_ex bv p (re_name d) (re_count d) (re_type d)
           (re_elem_size d) info0 n0 =
           (OK, put_flat bv p (enc_data_header 4 (re_name d) (re_type d) (re_count d) (raw_size 4 d)),
            p + length (enc_data_header 4 (re_name d) (re_type d) (re_count d) (raw_size 4 d)), info, raw_size 4 d) \<and>
           li_data_start_offset info = p + length (enc_data_header 4 (re_name d) (re_type d) (re_count d) (raw_size 4 d))"
proof -
  have c: "re_count d \<le> UINT32_MAX" using raw_count_le [OF ok] raw_data_small [OF ok] by simp
  show "\<exists>info. messageelement_writer_write_data_header2_ex bv p (re_name d) (re_count d) (re_type d)
           (re_elem_size d) info0 n0 =
           (OK, put_flat bv p (enc_data_header 2 (re_name d) (re_type d) (re_count d) (raw_size 2 d)),
            p + length (enc_data_header 2 (re_name d) (re_type d) (re_count d) (raw_size 2 d)), info, raw_size 2 d) \<and>
           li_data_start_offset info = p + length (enc_data_header 2 (re_name d) (re_type d) (re_count d) (raw_size 2 d))"
    if v: "ver = 2"
  proof -
    have n: "str2_ok (re_name d)" using ok v by (simp add: raw_ok_def str2_ok_def)
    show ?thesis
      using emits_run [OF emits_data_header2 [OF n c] wf room [unfolded v], of info0]
        write_data_header_size(1) [OF ok v]
      by (simp add: messageelement_writer_write_data_header2_ex_def end_write0_def)
  qed
  show "\<exists>info. messageelement_writer_write_data_header4_ex bv p (re_name d) (re_count d) (re_type d)
           (re_elem_size d) info0 n0 =
           (OK, put_flat bv p (enc_data_header 4 (re_name d) (re_type d) (re_count d) (raw_size 4 d)),
            p + length (enc_data_header 4 (re_name d) (re_type d) (re_count d) (raw_size 4 d)), info, raw_size 4 d) \<and>
           li_data_start_offset info = p + length (enc_data_header 4 (re_name d) (re_type d) (re_count d) (raw_size 4 d))"
    if v: "ver = 4"
  proof -
    have n: "str4_ok (re_name d)" using ok v by (simp add: raw_ok_def str4_ok_def)
    show ?thesis
      using emits_run [OF emits_data_header4 [OF n c] wf room [unfolded v], of info0]
        write_data_header_size(2) [OF ok v]
      by (simp add: messageelement_writer_write_data_header4_ex_def end_write0_def)
  qed
qed

definition write_raw_element ::
  "buffer_vec \<Rightarrow> messageelement_writer \<Rightarrow> raw_element \<Rightarrow> status \<times> buffer_vec \<times> messageelement_writer" where
  "write_raw_element bv w d =
     messageelement_writer_write_raw bv w (re_name d) (re_data d) (re_count d) (re_type d) (re_elem_size d)"

lemma write_raw_at:
  assumes wf: "wf_vec 1 bv" and ok: "raw_ok (lw_message_version w) d"
    and cnt: "lw_elements_written_count w < UINT32_MAX"
    and room: "lw_buffer_offset w + length (enc_raw (lw_message_version w) d) \<le> length (flat bv)"
  shows "write_raw_element bv w d =
           (OK, put_flat bv (lw_buffer_offset w) (enc_raw (lw_message_version w) d),
            element_written (length (enc_raw (lw_message_version w) d)) w)"
proof -
  let ?v = "lw_message_version w" and ?p = "lw_buffer_offset w"
  let ?h = "enc_data_header ?v (re_name d) (re_type d) (re_count d) (raw_size ?v d)"
  have e: "enc_raw ?v d = ?h @ re_data d" by (simp add: enc_raw_def)
  have room_h: "?p + length ?h \<le> length (flat bv)" and room_d: "?p + length ?h + length (re_data d) \<le> length (flat bv)"
    using room by (simp_all add: e)
  have d: "0 < re_elem_size d" "0 < re_count d" "length (re_data d) = re_count d * re_elem_size d"
    using ok by (simp_all add: raw_ok_def)
  have d63: "length (re_data d) < 2 ^ 63" using raw_data_small [OF ok] by (simp add: UINT32_MAX_def)
  let ?bv = "put_flat bv ?p ?h"
  have wf': "wf_vec 1 ?bv" using wf room_h by simp
  have c: "buffer_vec_copy_from_mem ?bv (?p + length ?h) (re_data d) (re_count d) 0 (re_elem_size d) (re_count d) =
      (OK, put_flat bv ?p (enc_raw ?v d))"
    using copy_from_mem_flat [OF wf' d d63, of "?p + length ?h"] room_h room_d
    by (simp add: e put_flat_append add.assoc)
  have v: "?v = 2 \<or> ?v = 4" using ok by (auto simp: raw_ok_def split: if_splits)
  note H = data_header_at [OF wf ok room_h, of no_element_info 0]
  show ?thesis
    using v
  proof
    assume v2: "?v = 2"
    then show ?thesis using H(1) c cnt length_enc_raw [OF ok]
      by (auto simp: write_raw_element_def messageelement_writer_write_raw_def v2)
  next
    assume v4: "?v = 4"
    then show ?thesis using H(2) c cnt length_enc_raw [OF ok]
      by (auto simp: write_raw_element_def messageelement_writer_write_raw_def v4)
  qed
qed

text \<open>The calls of a client that writes a list of elements, up to the first failure.\<close>

fun write_raw_elements ::
  "buffer_vec \<Rightarrow> messageelement_writer \<Rightarrow> raw_element list \<Rightarrow> status \<times> buffer_vec \<times> messageelement_writer" where
  "write_raw_elements bv w [] = (OK, bv, w)"
| "write_raw_elements bv w (d # ds) =
     (case write_raw_element bv w d of
        (Err e, bv, w) \<Rightarrow> (Err e, bv, w)
      | (OK, bv, w) \<Rightarrow> write_raw_elements bv w ds)"

definition enc_raws :: "u16 \<Rightarrow> raw_element list \<Rightarrow> byte list" where
  "enc_raws ver ds = concat (map (enc_raw ver) ds)"

lemma enc_raws_simps [simp]:
  "enc_raws ver [] = []" "enc_raws ver (d # ds) = enc_raw ver d @ enc_raws ver ds"
  by (simp_all add: enc_raws_def)

lemma write_raws_at:
  assumes "wf_vec 1 bv" and "\<forall>d \<in> set ds. raw_ok (lw_message_version w) d"
    and "lw_elements_written_count w + length ds \<le> UINT32_MAX"
    and "lw_buffer_offset w + length (enc_raws (lw_message_version w) ds) \<le> length (flat bv)"
    and "lw_elements_written_size w + length (enc_raws (lw_message_version w) ds) < 2 ^ 64"
  shows "\<exists>w'. write_raw_elements bv w ds =
           (OK, put_flat bv (lw_buffer_offset w) (enc_raws (lw_message_version w) ds), w') \<and>
           lw_elements_written_count w' = lw_elements_written_count w + length ds \<and>
           lw_elements_written_size w' = lw_elements_written_size w + length (enc_raws (lw_message_version w) ds)"
  using assms
proof (induction ds arbitrary: bv w)
  case Nil
  then show ?case by simp
next
  case (Cons d ds)
  let ?v = "lw_message_version w" and ?p = "lw_buffer_offset w"
  let ?bv = "put_flat bv ?p (enc_raw ?v d)"
  let ?w = "element_written (length (enc_raw ?v d)) w"
  have room: "?p + length (enc_raw ?v d) \<le> length (flat bv)" using Cons.prems(4) by simp
  have step: "write_raw_element bv w d = (OK, ?bv, ?w)"
    using Cons.prems room by (intro write_raw_at) auto
  have cnt: "lw_elements_written_count w < 2 ^ 64 - 1" using Cons.prems(3) by (simp add: UINT32_MAX_def)
  have p: "?p + length (enc_raw ?v d) < 2 ^ 64" using wf_small [OF Cons.prems(1) room] .
  have f: "lw_message_version ?w = ?v" "lw_buffer_offset ?w = ?p + length (enc_raw ?v d)"
    "lw_elements_written_count ?w = lw_elements_written_count w + 1"
    "lw_elements_written_size ?w = lw_elements_written_size w + length (enc_raw ?v d)"
    using cnt p Cons.prems(5) by (simp_all add: element_written_def sz_add_nowrap)
  have "\<exists>w'. write_raw_elements ?bv ?w ds =
           (OK, put_flat ?bv (lw_buffer_offset ?w) (enc_raws (lw_message_version ?w) ds), w') \<and>
           lw_elements_written_count w' = lw_elements_written_count ?w + length ds \<and>
           lw_elements_written_size w' = lw_elements_written_size ?w + length (enc_raws (lw_message_version ?w) ds)"
    using Cons.prems room by (intro Cons.IH) (simp_all only: f, simp_all)
  then show ?case
    using step room Cons.prems(4) by (simp add: f put_flat_append add.assoc)
qed


section \<open>Patching what was written\<close>

lemma put_flat_inner:
  assumes "length ys' = length ys" and "p + length (xs @ ys @ zs) \<le> length (flat bv)"
  shows "put_flat (put_flat bv p (xs @ ys @ zs)) (p + length xs) ys' = put_flat bv p (xs @ ys' @ zs)"
proof -
  have "overwrite (overwrite (flat bv) p (xs @ ys @ zs)) (p + length xs) ys' = overwrite (flat bv) p (xs @ ys' @ zs)"
    (is "?l = ?r")
  proof (rule nth_equalityI)
    show "length ?l = length ?r" using assms by simp
    fix i assume "i < length ?l"
    then have i: "i < length (flat bv)" using assms by simp
    have b: "p + length xs + length ys' \<le> length (flat bv)" "p + length (xs @ ys' @ zs) \<le> length (flat bv)"
      using assms by simp_all
    consider "i < p + length xs" | "p + length xs \<le> i" "i < p + length xs + length ys" | "p + length xs + length ys \<le> i"
      by linarith
    then show "?l ! i = ?r ! i"
      using i b assms by cases (auto simp: nth_overwrite nth_append)
  qed
  then show ?thesis using assms by (simp add: put_flat_def)
qed

lemma uint32_put:
  assumes "wf_vec 1 bv" and "p + 4 \<le> length (flat bv)"
  shows "message_write_uint32 bv p v = (OK, put_flat bv p (u32_bytes v), p + 4)"
    and "message_write_padded_uint_x_val bv p v = (OK, put_flat bv p (u32_bytes v))"
proof -
  show u: "message_write_uint32 bv p v = (OK, put_flat bv p (u32_bytes v), p + 4)"
    using uint32.wr_fits [OF assms(1) TrueI, where v = v and p = p] assms(2) by simp
  then have "buffer_vec_copy_from_uint32 bv p v = (OK, put_flat bv p (u32_bytes v))"
    by (auto simp: message_write_uint32_def advance_def split: prod.splits status.splits)
  then show "message_write_padded_uint_x_val bv p v = (OK, put_flat bv p (u32_bytes v))"
    by (simp add: message_write_padded_uint_x_val_def)
qed

lemma uint16_put:
  "wf_vec 1 bv \<Longrightarrow> p + 2 \<le> length (flat bv) \<Longrightarrow>
     message_write_uint16 bv p v = (OK, put_flat bv p (u16_bytes v), p + 2)"
  using uint16.wr_fits [where bv = bv and v = v and p = p] by simp


section \<open>Entries\<close>

definition entry_ok :: "u16 \<Rightarrow> const_string messageentry_header \<Rightarrow> bool" where
  "entry_ok ver h \<longleftrightarrow> (if ver = 2 then entry2_ok (open_entry h) else ver = 4 \<and> entry4_ok h)"

lemma entry_ok_version: "entry_ok ver h \<Longrightarrow> ver = 2 \<or> ver = 4"
  by (simp add: entry_ok_def split: if_splits)

text \<open>The header of an entry that has been ended.\<close>

definition closed_entry :: "const_string messageentry_header \<Rightarrow> nat \<Rightarrow> nat \<Rightarrow> const_string messageentry_header" where
  "closed_entry h n count = h\<lparr>eh_entry_size := word_of_nat n, eh_element_count := word_of_nat count\<rparr>"

definition enc_closed_entry :: "u16 \<Rightarrow> const_string messageentry_header \<Rightarrow> nat \<Rightarrow> nat \<Rightarrow> byte list" where
  "enc_closed_entry ver h n count =
     (if ver = 2 then enc_entry2 (closed_entry h n count)
      else enc_entry4 5 5 (entry_write4_flags h) (closed_entry h n count) [])"

lemma length_enc_closed_entry: "length (enc_closed_entry ver h n count) = length (enc_open_entry ver h)"
  by (simp add: enc_closed_entry_def enc_open_entry_def closed_entry_def open_entry_def enc_entry4_def
      enc_entry4_sections_def enc_uint_as_def)

definition open_entry_size_at :: "u16 \<Rightarrow> nat" where
  "open_entry_size_at ver = (if ver = 2 then 0 else 1)"

definition open_entry_count_at :: "u16 \<Rightarrow> const_string messageentry_header \<Rightarrow> nat" where
  "open_entry_count_at ver h = length (enc_open_entry ver h) - (if ver = 2 then 2 else 4)"

lemma begin_entry_at:
  assumes wf: "wf_vec 1 bv" and v: "ver = ew_message_version ew" and ok: "entry_ok ver h"
    and cnt: "ew_entries_written_count ew < UINT16_MAX"
    and room: "ew_buffer_offset ew + length (enc_open_entry ver h) \<le> length (flat bv)"
  shows "messageentry_writer_begin_entry bv ew h lw =
    (OK, put_flat bv (ew_buffer_offset ew) (enc_open_entry ver h),
     ew\<lparr>ew_entry_size_offset := ew_buffer_offset ew + open_entry_size_at ver,
        ew_element_count_offset := ew_buffer_offset ew + open_entry_count_at ver h,
        ew_entry_header_size := length (enc_open_entry ver h)\<rparr>,
     lw\<lparr>lw_buffer_offset := ew_buffer_offset ew + length (enc_open_entry ver h),
        lw_buffer_count := sz_sub (ew_buffer_count ew) (length (enc_open_entry ver h)),
        lw_elements_written_count := 0, lw_elements_written_size := 0, lw_message_version := ver\<rparr>)"
proof -
  let ?p = "ew_buffer_offset ew" and ?n = "length (enc_open_entry ver h)"
  have small: "?p + ?n < 2 ^ 64" using wf_small [OF wf room] .
  have sub: "sz_sub (?p + ?n) ?p = ?n" and add: "sz_add ?p ?n = ?p + ?n"
    using small by (simp_all add: sz_sub_nowrap sz_add_nowrap)
  consider (2) "ver = 2" | (4) "ver = 4" using entry_ok_version [OF ok] by blast
  then show ?thesis
  proof cases
    case 2
    have e: "entry2_ok (open_entry h)" "enc_open_entry ver h = enc_entry2 (open_entry h)"
      using ok 2 by (simp_all add: entry_ok_def enc_open_entry_def)
    have c: "length (enc_entry2 (open_entry h)) - 2 = length (enc_entry2_before_count (open_entry h))"
      by (simp add: enc_entry2_def)
    show ?thesis
      using emits_run [OF emits_entry2 [OF e(1)] wf room [unfolded e(2)], of ?p no_entry_info] cnt 2 sub add v
      unfolding open_entry_count_at_def e(2)
      by (simp add: messageentry_writer_begin_entry_def messageentry_writer_write_header2_ex_def end_write0_def
          open_entry_size_at_def Let_def c del: length_enc_entry2 length_enc_entry2_before_count)
  next
    case 4
    have e: "entry4_ok h" "enc_open_entry ver h = enc_entry4 5 5 (entry_write4_flags h) (open_entry h) []"
      using ok 4 by (simp_all add: entry_ok_def enc_open_entry_def)
    show ?thesis
      using emits_run [OF emits_entry4 [OF e(1)] wf room [unfolded e(2)], of ?p no_entry_info] cnt 4 sub add v
      unfolding open_entry_count_at_def e(2)
      by (simp add: messageentry_writer_begin_entry_def messageentry_writer_write_header4_ex_def end_write0_def
          open_entry_size_at_def Let_def)
  qed
qed

text \<open>The open header is a prefix, the size, a middle, the count; the closed one differs in the two.\<close>

lemma open_closed_entry:
  assumes "entry_ok ver h"
  obtains xs size0 mid count0 where
    "enc_open_entry ver h = xs @ size0 @ mid @ count0"
    "length xs = open_entry_size_at ver" "length size0 = 4"
    "open_entry_count_at ver h = length (xs @ size0 @ mid)" "length count0 = (if ver = 2 then 2 else 4)"
    "\<forall>n count. enc_closed_entry ver h n count =
       xs @ u32_bytes (word_of_nat n) @ mid @ (if ver = 2 then u16_bytes (ucast (word_of_nat count :: u32))
                                                  else u32_bytes (word_of_nat count))"
proof (cases "ver = 2")
  case True
  let ?m = "u16_bytes (eh_entry_type h) @ u16_bytes 0 @
     enc_str2 (eh_service_path h) @ enc_str2 (eh_member_name h) @ u32_bytes (eh_request_id h) @
     u16_bytes (eh_error h) @ enc_str2 (eh_metadata h)"
  show thesis
    by (rule that [of "[]" "u32_bytes 0" ?m "u16_bytes 0"])
       (simp_all add: True enc_open_entry_def enc_closed_entry_def enc_entry2_def enc_entry2_before_count_def
          open_entry_def closed_entry_def open_entry_size_at_def open_entry_count_at_def)
next
  case False
  let ?m = "entry_write4_flags h # enc_entry4_sections (entry_write4_flags h) h [] @ [254]"
  have s: "enc_entry4_sections f (open_entry h) x = enc_entry4_sections f h x"
    "enc_entry4_sections f (closed_entry h m n) x = enc_entry4_sections f h x" for f x m n
    by (simp_all add: enc_entry4_sections_def open_entry_def closed_entry_def)
  show thesis
    by (rule that [of "[254]" "u32_bytes 0" ?m "u32_bytes 0"])
       (simp_all add: False enc_open_entry_def enc_closed_entry_def enc_entry4_def s enc_uint_as_def
          open_entry_size_at_def open_entry_count_at_def, simp_all add: open_entry_def closed_entry_def)
qed

lemma ucast_word_of_nat_u16: "(ucast (word_of_nat n :: u32) :: u16) = word_of_nat n"
  by (rule bit_word_eqI) (simp add: bit_simps)

lemma end_entry_at:
  assumes wf: "wf_vec 1 bv" and v: "ver = ew_message_version ew" and ok: "entry_ok ver h"
    and so: "ew_entry_size_offset ew = p + open_entry_size_at ver"
    and co: "ew_element_count_offset ew = p + open_entry_count_at ver h"
    and hs: "ew_entry_header_size ew = length (enc_open_entry ver h)"
    and ls: "lw_elements_written_size lw = length body" and lc: "lw_elements_written_count lw = count"
    and room: "p + length (enc_open_entry ver h @ body) \<le> length (flat bv)"
    and sz: "length (enc_open_entry ver h @ body) \<le> UINT32_MAX"
    and n: "n = length (enc_open_entry ver h @ body)"
  shows "messageentry_writer_end_entry (put_flat bv p (enc_open_entry ver h @ body)) ew lw =
    (OK, put_flat bv p (enc_closed_entry ver h n count @ body),
     ew\<lparr>ew_entries_written_count := sz_add (ew_entries_written_count ew) 1,
        ew_entries_written_size := sz_add (ew_entries_written_size ew) n,
        ew_buffer_offset := sz_add (ew_buffer_offset ew) n,
        ew_buffer_count := sz_sub (ew_buffer_count ew) n\<rparr>)"
proof -
  obtain xs size0 mid count0 where s: "enc_open_entry ver h = xs @ size0 @ mid @ count0"
    "length xs = open_entry_size_at ver" "length size0 = 4"
    "open_entry_count_at ver h = length (xs @ size0 @ mid)" "length count0 = (if ver = 2 then 2 else 4)"
    "\<forall>n count. enc_closed_entry ver h n count =
       xs @ u32_bytes (word_of_nat n) @ mid @ (if ver = 2 then u16_bytes (ucast (word_of_nat count :: u32))
                                                  else u32_bytes (word_of_nat count))"
    by (rule open_closed_entry [OF ok])
  have n32: "unat (word_of_nat n :: u32) = n" by (rule unat_word_of_nat_u32) (use sz n in simp)
  have n64: "sz_add (length (enc_open_entry ver h)) (length body) = n"
    using sz n by (simp add: sz_add_nowrap UINT32_MAX_def)
  let ?w = "put_flat bv p (xs @ u32_bytes (word_of_nat n) @ mid @ count0 @ body)"
  have len: "length (xs @ size0 @ mid @ count0 @ body) = length (enc_open_entry ver h @ body)" by (simp add: s(1))
  have 1: "put_flat (put_flat bv p (enc_open_entry ver h @ body)) (p + length xs) (u32_bytes (word_of_nat n)) = ?w"
    using put_flat_inner [of "u32_bytes (word_of_nat n)" size0 p xs "mid @ count0 @ body" bv] s(3) room len
    by (simp add: s(1))
  have room': "p + length xs + 4 \<le> length (flat bv)" "p + length (xs @ size0 @ mid @ count0) \<le> length (flat bv)"
    using room s(3) by (simp_all add: s(1))
  have wf1: "wf_vec 1 (put_flat bv p (enc_open_entry ver h @ body))" "wf_vec 1 ?w"
    using wf room s(3) by (simp_all add: s(1))
  have len1: "length (flat (put_flat bv p (enc_open_entry ver h @ body))) = length (flat bv)"
      "length (flat ?w) = length (flat bv)" using room s(3) by (simp_all add: s(1))
  have room2: "p + length (xs @ size0 @ mid) + length count0 \<le> length (flat ?w)"
    using room'(2) len1(2) by simp
  have 2: "put_flat ?w (p + length (xs @ size0 @ mid)) ys = put_flat bv p (xs @ u32_bytes (word_of_nat n) @ mid @ ys @ body)"
    if "length ys = length count0" for ys
    using put_flat_inner [of ys count0 p "xs @ u32_bytes (word_of_nat n) @ mid" body bv] s(3) room len that
    by (simp add: s(1) add.assoc)
  have patch: "patch_entry (put_flat bv p (enc_open_entry ver h @ body)) ver (p + length xs) (word_of_nat n)
      (p + length (xs @ size0 @ mid)) count = (OK, put_flat bv p (enc_closed_entry ver h n count @ body))"
  proof (cases "ver = 2")
    case True
    have "message_write_uint16 ?w (p + length (xs @ size0 @ mid)) (word_of_nat count) =
        (OK, put_flat bv p (enc_closed_entry ver h n count @ body), p + length (xs @ size0 @ mid) + 2)"
      using uint16_put [OF wf1(2), of "p + length (xs @ size0 @ mid)" "word_of_nat count"] 2 [of "u16_bytes (word_of_nat count)"]
        s(5,6) True room2 by (simp add: ucast_word_of_nat_u16 del: length_append add_2_eq_Suc add_2_eq_Suc')
    then show ?thesis
      using uint32_put(1) [OF wf1(1), of "p + length xs" "word_of_nat n"] room'(1) len1(1) 1 True
      by (simp add: patch_entry_def)
  next
    case False
    then have v4: "ver = 4" using ok by (simp add: entry_ok_def)
    have "message_write_padded_uint_x_val ?w (p + length (xs @ size0 @ mid)) (word_of_nat count) =
        (OK, put_flat bv p (enc_closed_entry ver h n count @ body))"
      using uint32_put(2) [OF wf1(2), of "p + length (xs @ size0 @ mid)" "word_of_nat count"] 2 [of "u32_bytes (word_of_nat count)"]
        s(5,6) v4 room2 by (simp del: length_append)
    then show ?thesis
      using uint32_put(2) [OF wf1(1), of "p + length xs" "word_of_nat n"] room'(1) len1(1) 1 v4
      by (simp add: patch_entry_def)
  qed
  show ?thesis
    unfolding messageentry_writer_end_entry_def Let_def hs ls n64 so co lc v [symmetric]
    unfolding s(2) [symmetric] s(4) patch
    by (simp add: n32)
qed

end
