(* ===== verification/RRL_AssembleMessage.thy ===== *)
theory RRL_AssembleMessage
  imports RRL_Assemble RRL_HeaderSpec
begin

text \<open>
  What the routines that begin and end a message write, the calls of a client that builds a message
  from its entries, and the bytes of the whole message.
\<close>

definition message_fits :: "u16 \<Rightarrow> const_string message_header \<Rightarrow> bool" where
  "message_fits ver h \<longleftrightarrow> (if ver = 2 then header2_fits h else ver = 4 \<and> header4_fits 255 h)"

lemma message_fits_version: "message_fits ver h \<Longrightarrow> ver = 2 \<or> ver = 4"
  by (simp add: message_fits_def split: if_splits)

definition enc_open_message :: "u16 \<Rightarrow> const_string message_header \<Rightarrow> byte list" where
  "enc_open_message ver h = (if ver = 2 then enc_header2 (sized2 h) else header4_bytes 255 h)"

text \<open>The header of a message that has been ended.\<close>

definition closed_message2 :: "const_string message_header \<Rightarrow> nat \<Rightarrow> nat \<Rightarrow> const_string message_header" where
  "closed_message2 h n count = (sized2 h)\<lparr>mh_message_size := word_of_nat n, mh_entry_count := word_of_nat count\<rparr>"

definition closed_message4 :: "const_string message_header \<Rightarrow> nat \<Rightarrow> nat \<Rightarrow> const_string message_header" where
  "closed_message4 h n count = (sized4 255 h)\<lparr>mh_message_size := word_of_nat n, mh_entry_count := word_of_nat count\<rparr>"

definition enc_closed_message :: "u16 \<Rightarrow> const_string message_header \<Rightarrow> nat \<Rightarrow> nat \<Rightarrow> byte list" where
  "enc_closed_message ver h n count =
     (if ver = 2 then enc_header2 (closed_message2 h n count)
      else enc_header4 (header4_flags 255 h) (closed_message4 h n count) [] [])"

text \<open>Whether the header has a place for the number of entries, and where.\<close>

definition count_has_place :: "u16 \<Rightarrow> const_string message_header \<Rightarrow> bool" where
  "count_has_place ver h \<longleftrightarrow> ver = 2 \<or> mh_entry_count h \<noteq> 1"

definition open_message_count_at :: "u16 \<Rightarrow> const_string message_header \<Rightarrow> nat" where
  "open_message_count_at ver h =
     (if ver = 2 then length (enc2_before_count (sized2 h))
      else length (enc4_start (header4_flags 255 h) (sized4 255 h)) +
           length (enc4_before_count (header4_flags 255 h) (sized4 255 h) []) + 1)"

lemma has_entries_255 [simp]: "header4_has_entries 255 h \<longleftrightarrow> mh_entry_count h \<noteq> 1"
  by (simp add: header4_has_entries_def)

lemma enc_padded_Cons: "enc_padded_uint_x v = 254 # u32_bytes v"
  by (simp add: enc_padded_uint_x_def)

text \<open>The open and the closed header differ in the message size and the entry count.\<close>

lemma closed_message4_parts:
  "enc4_before_count fl (closed_message4 h n c) [] = enc4_before_count fl (sized4 255 h) []"
  "enc4_start fl (closed_message4 h n c) = rrac_magic @ u32_bytes (word_of_nat n) @ u16_bytes 4 @
     enc_uint_x (mh_header_size (sized4 255 h)) @ [fl]"
  "enc4_start fl (sized4 255 h) = rrac_magic @ u32_bytes 0 @ u16_bytes 4 @
     enc_uint_x (mh_header_size (sized4 255 h)) @ [fl]"
  by (simp_all add: closed_message4_def sized4_def enc4_before_count_def enc4_start_def enc4_routing_def
      enc4_endpoint_def enc4_meta_def)

lemma open_closed_message:
  assumes ok: "message_fits ver h"
  obtains size0 mid count0 rest where
    "enc_open_message ver h = rrac_magic @ size0 @ mid @ count0 @ rest" "length size0 = 4"
    "count_has_place ver h \<longrightarrow> open_message_count_at ver h = length (rrac_magic @ size0 @ mid)"
    "length count0 = (if count_has_place ver h then (if ver = 2 then 2 else 4) else 0)"
    "\<forall>n count. enc_closed_message ver h n count =
       rrac_magic @ u32_bytes (word_of_nat n) @ mid @
       (if count_has_place ver h then (if ver = 2 then u16_bytes (word_of_nat count) else u32_bytes (word_of_nat count))
        else []) @ rest"
proof (cases "ver = 2")
  case True
  let ?m = "u16_bytes 2 @ u16_bytes (ucast (mh_header_size (sized2 h))) @
     nodeid_data (mh_sender_nodeid h) @ nodeid_data (mh_receiver_nodeid h) @
     u32_bytes (mh_sender_endpoint h) @ u32_bytes (mh_receiver_endpoint h) @
     enc_str2 (mh_sender_nodename h) @ enc_str2 (mh_receiver_nodename h) @ enc_str2 (mh_metadata h)"
  show thesis
    by (rule that [of "u32_bytes 0" ?m "u16_bytes (ucast (mh_entry_count h))"
           "u16_bytes (mh_message_id h) @ u16_bytes (mh_message_res_id h)"])
       (simp_all add: True enc_open_message_def enc_closed_message_def count_has_place_def open_message_count_at_def
          closed_message2_def sized2_def enc_header2_def enc2_before_count_def ucast_word_of_nat_u16)
next
  case False
  let ?fl = "header4_flags 255 h"
  let ?s = "u16_bytes 4 @ enc_uint_x (mh_header_size (sized4 255 h)) @ [?fl] @
     enc4_before_count ?fl (sized4 255 h) []"
  have fl: "FLAGS_CHECK ?fl MESSAGE_FLAGS_MULTIPLE_ENTRIES = (mh_entry_count h \<noteq> 1)"
    "\<not> FLAGS_CHECK ?fl MESSAGE_FLAGS_EXTENDED" by (simp_all add: header4_flags_check)
  have cnt: "mh_entry_count (closed_message4 h n c) = word_of_nat c" for n c by (simp add: closed_message4_def)
  show thesis
  proof (cases "mh_entry_count h = 1")
    case one: True
    show thesis
      by (rule that [of "u32_bytes 0" ?s "[]" "[]"])
         (simp_all add: False one enc_open_message_def enc_closed_message_def count_has_place_def
            header4_bytes_def enc_header4_def enc4_sections_def fl closed_message4_parts del: sections_sized4)
  next
    case many: False
    show thesis
      by (rule that [of "u32_bytes 0" "?s @ [254]" "u32_bytes (mh_entry_count h)" "[]"])
         (simp_all add: False many enc_open_message_def enc_closed_message_def count_has_place_def cnt
            header4_bytes_def enc_header4_def enc4_sections_def fl closed_message4_parts enc_padded_Cons
            open_message_count_at_def del: sections_sized4, simp_all add: sized4_def)
  qed
qed

lemma length_enc_closed_message:
  "message_fits ver h \<Longrightarrow> length (enc_closed_message ver h n count) = length (enc_open_message ver h)"
  by (rule open_closed_message [of ver h]) simp_all

lemma enc_open_message_size:
  assumes "message_fits ver h"
  shows "unat (if ver = 2 then mh_header_size (sized2 h) else mh_header_size (sized4 255 h)) =
     length (enc_open_message ver h)"
  using assms header2_ok_sized(2) [of h] length_header4_bytes(2) [of 255 h]
  by (simp add: message_fits_def enc_open_message_def)

lemma begin_message_at:
  assumes wf: "wf_vec 1 bv" and v: "ver = mw_message_version mw" and ok: "message_fits ver h"
    and room: "mw_buffer_offset mw + length (enc_open_message ver h) \<le> length (flat bv)"
  shows "message_writer_begin_message bv mw h ew =
    (OK, put_flat bv (mw_buffer_offset mw) (enc_open_message ver h),
     mw\<lparr>mw_message_size_offset := mw_buffer_offset mw + 4,
        mw_entry_count_offset := (if count_has_place ver h then mw_buffer_offset mw + open_message_count_at ver h
                                  else SIZE_T_MAX)\<rparr>,
     h\<lparr>mh_header_size := word_of_nat (length (enc_open_message ver h))\<rparr>,
     ew\<lparr>ew_buffer_offset := mw_buffer_offset mw + length (enc_open_message ver h),
        ew_buffer_count := sz_sub (mw_buffer_count mw) (length (enc_open_message ver h)),
        ew_entries_written_count := 0, ew_entries_written_size := 0, ew_message_version := ver\<rparr>)"
proof -
  let ?p = "mw_buffer_offset mw" and ?n = "length (enc_open_message ver h)"
  have small: "?p + ?n < 2 ^ 64" using wf_small [OF wf room] .
  have n4: "4 \<le> ?n"
    by (rule open_closed_message [OF ok]) simp
  have add: "sz_add ?p ?n = ?p + ?n" "sz_add ?p 4 = ?p + 4" using small n4 by (simp_all add: sz_add_nowrap)
  have hs: "word_of_nat ?n = (if ver = 2 then mh_header_size (sized2 h) else mh_header_size (sized4 255 h))"
    unfolding enc_open_message_size [OF ok, symmetric] by simp
  show ?thesis
    using message_fits_version [OF ok]
  proof
    assume v2: "ver = 2"
    then have e: "enc_open_message ver h = enc_header2 (sized2 h)" "header2_fits h"
      using ok by (simp_all add: enc_open_message_def message_fits_def)
    show ?thesis
      using write_header2_at [OF wf e(2) room [unfolded e(1)]] v v2 add hs
      unfolding e(1)
      by (simp add: message_writer_begin_message_def message_writer_begin_message_ex_def Let_def
          count_has_place_def open_message_count_at_def)
  next
    assume v4: "ver = 4"
    then have e: "enc_open_message ver h = header4_bytes 255 h" "header4_fits 255 h"
      using ok by (simp_all add: enc_open_message_def message_fits_def)
    show ?thesis
      using write_header4_at [OF wf e(2) room [unfolded e(1)]] v v4 add hs
      unfolding e(1)
      by (simp add: message_writer_begin_message_def message_writer_begin_message_ex_def Let_def
          count_has_place_def open_message_count_at_def header4_count_offset_def header4_flags_check)
  qed
qed

lemma end_message_at:
  assumes wf: "wf_vec 1 bv" and v: "ver = mw_message_version mw" and ok: "message_fits ver h"
    and so: "mw_message_size_offset mw = p + 4"
    and co: "mw_entry_count_offset mw = (if count_has_place ver h then p + open_message_count_at ver h else SIZE_T_MAX)"
    and hs: "unat (mh_header_size h') = length (enc_open_message ver h)"
    and ls: "ew_entries_written_size ew = length body" and lc: "ew_entries_written_count ew = count"
    and room: "p + length (enc_open_message ver h @ body) \<le> length (flat bv)"
    and sz: "length (enc_open_message ver h @ body) \<le> UINT32_MAX"
    and cp: "count_has_place ver h \<or> count = 1"
    and n: "n = length (enc_open_message ver h @ body)"
  shows "message_writer_end_message (put_flat bv p (enc_open_message ver h @ body)) mw h' ew =
    (OK, put_flat bv p (enc_closed_message ver h n count @ body),
     h'\<lparr>mh_message_size := word_of_nat n, mh_entry_count := word_of_nat count\<rparr>)"
proof -
  obtain size0 mid count0 rest where s:
    "enc_open_message ver h = rrac_magic @ size0 @ mid @ count0 @ rest" "length size0 = 4"
    "count_has_place ver h \<longrightarrow> open_message_count_at ver h = length (rrac_magic @ size0 @ mid)"
    "length count0 = (if count_has_place ver h then (if ver = 2 then 2 else 4) else 0)"
    "\<forall>n count. enc_closed_message ver h n count =
       rrac_magic @ u32_bytes (word_of_nat n) @ mid @
       (if count_has_place ver h then (if ver = 2 then u16_bytes (word_of_nat count) else u32_bytes (word_of_nat count))
        else []) @ rest"
    by (rule open_closed_message [OF ok])
  have n32: "\<not> n > UINT32_MAX" using sz n by simp
  have n64: "sz_add (length body) (length (enc_open_message ver h)) = n"
    using sz n by (simp add: sz_add_nowrap UINT32_MAX_def)
  let ?b = "put_flat bv p (enc_open_message ver h @ body)"
  let ?w = "put_flat bv p (rrac_magic @ u32_bytes (word_of_nat n) @ mid @ count0 @ rest @ body)"
  have 1: "put_flat ?b (p + 4) (u32_bytes (word_of_nat n)) = ?w"
    using put_flat_inner [of "u32_bytes (word_of_nat n)" size0 p rrac_magic "mid @ count0 @ rest @ body" bv] s(2) room
    by (simp add: s(1))
  have wf1: "wf_vec 1 ?b" "wf_vec 1 ?w" using wf room s(2) by (simp_all add: s(1))
  have len1: "length (flat ?b) = length (flat bv)" "length (flat ?w) = length (flat bv)"
    using room s(2) by (simp_all add: s(1))
  have room1: "p + 4 + 4 \<le> length (flat ?b)"
    and room2: "p + length (rrac_magic @ size0 @ mid) + length count0 \<le> length (flat ?w)"
    using room s(2) len1 by (simp_all add: s(1))
  have sizew: "buffer_vec_copy_from_uint32 ?b (p + 4) (word_of_nat n) = (OK, ?w)"
    using uint32_put(2) [OF wf1(1) room1, of "word_of_nat n"] 1 by (simp add: message_write_padded_uint_x_val_def)
  have 2: "put_flat ?w (p + length (rrac_magic @ size0 @ mid)) ys =
      put_flat bv p (rrac_magic @ u32_bytes (word_of_nat n) @ mid @ ys @ rest @ body)"
    if "length ys = length count0" for ys
    using put_flat_inner [of ys count0 p "rrac_magic @ u32_bytes (word_of_nat n) @ mid" "rest @ body" bv] s(2) room that
    by (simp add: s(1) add.assoc)
  have countw: "write_entry_count ?w mw count = (OK, put_flat bv p (enc_closed_message ver h n count @ body))"
  proof (cases "count_has_place ver h")
    case True
    have co': "mw_entry_count_offset mw = p + length (rrac_magic @ size0 @ mid)" using co s(3) True by simp
    have ne: "mw_entry_count_offset mw \<noteq> SIZE_T_MAX"
      using wf_small [OF wf1(2), of "p + length (rrac_magic @ size0 @ mid)"] wf_vec_flat_lt [OF wf1(2)] room2
      by (simp add: co' SIZE_T_MAX_def)
    show ?thesis
    proof (cases "ver = 2")
      case v2: True
      show ?thesis
        using uint16_put [OF wf1(2), of "p + length (rrac_magic @ size0 @ mid)" "word_of_nat count"]
          2 [of "u16_bytes (word_of_nat count)"] s(4,5) True v2 room2 ne v
        by (simp add: write_entry_count_def co' del: length_append add_2_eq_Suc add_2_eq_Suc')
    next
      case v4: False
      then have "ver = 4" using message_fits_version [OF ok] by simp
      then show ?thesis
        using uint32_put(2) [OF wf1(2), of "p + length (rrac_magic @ size0 @ mid)" "word_of_nat count"]
          2 [of "u32_bytes (word_of_nat count)"] s(4,5) True room2 ne v
        by (simp add: write_entry_count_def co' del: length_append)
    qed
  next
    case False
    then have "count0 = []" using s(4) by simp
    then show ?thesis using False co cp s(5) by (simp add: write_entry_count_def)
  qed
  show ?thesis
    unfolding message_writer_end_message_def Let_def hs ls n64 so lc
    using sizew countw n32 by simp
qed

end
