(* ===== verification/RRL_Compose.thy ===== *)
theory RRL_Compose
  imports RRL_AssembleMessage
begin

text \<open>
  Whole messages: the sequence of calls with which a client writes a message of entries with plain
  data, the bytes it produces, and the walk of a reader over them. An entry is given by its header
  and its elements.
\<close>

type_synonym message_entry = "const_string messageentry_header \<times> raw_element list"

definition entry_size :: "u16 \<Rightarrow> message_entry \<Rightarrow> nat" where
  "entry_size ver e = length (enc_open_entry ver (fst e)) + length (enc_raws ver (snd e))"

definition enc_entry :: "u16 \<Rightarrow> message_entry \<Rightarrow> byte list" where
  "enc_entry ver e = enc_closed_entry ver (fst e) (entry_size ver e) (length (snd e)) @ enc_raws ver (snd e)"

definition message_entry_ok :: "u16 \<Rightarrow> message_entry \<Rightarrow> bool" where
  "message_entry_ok ver e \<longleftrightarrow> entry_ok ver (fst e) \<and> (\<forall>d \<in> set (snd e). raw_ok ver d) \<and>
     length (snd e) \<le> UINT16_MAX \<and> entry_size ver e \<le> UINT32_MAX"

definition enc_entries :: "u16 \<Rightarrow> message_entry list \<Rightarrow> byte list" where
  "enc_entries ver es = concat (map (enc_entry ver) es)"

lemma enc_entries_simps [simp]:
  "enc_entries ver [] = []" "enc_entries ver (e # es) = enc_entry ver e @ enc_entries ver es"
  "enc_entries ver (es @ fs) = enc_entries ver es @ enc_entries ver fs"
  by (simp_all add: enc_entries_def)

lemma length_enc_entry: "length (enc_entry ver e) = entry_size ver e"
  by (simp add: enc_entry_def entry_size_def length_enc_closed_entry)


section \<open>Writing\<close>

definition blank_element_writer :: messageelement_writer where
  "blank_element_writer =
     \<lparr>lw_buffer_offset = 0, lw_buffer_count = 0, lw_elements_written_count = 0, lw_elements_written_size = 0,
      lw_element_size_offset = 0, lw_data_count_offset = 0, lw_element_header_size = 0, lw_message_version = 0\<rparr>"

definition blank_entry_writer :: messageentry_writer where
  "blank_entry_writer =
     \<lparr>ew_buffer_offset = 0, ew_buffer_count = 0, ew_entries_written_count = 0, ew_entries_written_size = 0,
      ew_entry_size_offset = 0, ew_element_count_offset = 0, ew_entry_header_size = 0, ew_message_version = 0\<rparr>"

definition write_entry ::
  "buffer_vec \<Rightarrow> messageentry_writer \<Rightarrow> message_entry \<Rightarrow> status \<times> buffer_vec \<times> messageentry_writer" where
  "write_entry bv ew e =
     (case messageentry_writer_begin_entry bv ew (fst e) blank_element_writer of
        (Err x, bv, ew, _) \<Rightarrow> (Err x, bv, ew)
      | (OK, bv, ew, lw) \<Rightarrow>
          (case write_raw_elements bv lw (snd e) of
             (Err x, bv, _) \<Rightarrow> (Err x, bv, ew)
           | (OK, bv, lw) \<Rightarrow> messageentry_writer_end_entry bv ew lw))"

fun write_entries ::
  "buffer_vec \<Rightarrow> messageentry_writer \<Rightarrow> message_entry list \<Rightarrow> status \<times> buffer_vec \<times> messageentry_writer" where
  "write_entries bv ew [] = (OK, bv, ew)"
| "write_entries bv ew (e # es) =
     (case write_entry bv ew e of
        (Err x, bv, ew) \<Rightarrow> (Err x, bv, ew)
      | (OK, bv, ew) \<Rightarrow> write_entries bv ew es)"

definition write_message ::
  "buffer_vec \<Rightarrow> message_writer \<Rightarrow> const_string message_header \<Rightarrow> message_entry list
     \<Rightarrow> status \<times> buffer_vec \<times> const_string message_header" where
  "write_message bv mw h es =
     (case message_writer_begin_message bv mw h blank_entry_writer of
        (Err x, bv, _, h, _) \<Rightarrow> (Err x, bv, h)
      | (OK, bv, mw, h, ew) \<Rightarrow>
          (case write_entries bv ew es of
             (Err x, bv, _) \<Rightarrow> (Err x, bv, h)
           | (OK, bv, ew) \<Rightarrow> message_writer_end_message bv mw h ew))"

lemma write_entry_at:
  assumes wf: "wf_vec 1 bv" and v: "ver = ew_message_version ew" and ok: "message_entry_ok ver e"
    and cnt: "ew_entries_written_count ew < UINT16_MAX"
    and room: "ew_buffer_offset ew + entry_size ver e \<le> length (flat bv)"
    and sz: "ew_entries_written_size ew + entry_size ver e < 2 ^ 64"
  shows "\<exists>ew'. write_entry bv ew e = (OK, put_flat bv (ew_buffer_offset ew) (enc_entry ver e), ew') \<and>
     ew_message_version ew' = ver \<and> ew_entries_written_count ew' = ew_entries_written_count ew + 1 \<and>
     ew_entries_written_size ew' = ew_entries_written_size ew + entry_size ver e \<and>
     ew_buffer_offset ew' = ew_buffer_offset ew + entry_size ver e"
proof -
  obtain h ds where e: "e = (h, ds)" by (cases e)
  let ?p = "ew_buffer_offset ew" and ?o = "enc_open_entry ver h" and ?b = "enc_raws ver ds"
  have o: "entry_ok ver h" "\<forall>d \<in> set ds. raw_ok ver d" "length ds \<le> UINT16_MAX" "length ?o + length ?b \<le> UINT32_MAX"
    using ok by (simp_all add: e message_entry_ok_def entry_size_def)
  have room_o: "?p + length ?o \<le> length (flat bv)" and room_b: "?p + length (?o @ ?b) \<le> length (flat bv)"
    using room by (simp_all add: e entry_size_def)
  note B = begin_entry_at [OF wf v o(1) cnt room_o, of blank_element_writer]
  define ew1 where "ew1 = ew\<lparr>ew_entry_size_offset := ?p + open_entry_size_at ver,
        ew_element_count_offset := ?p + open_entry_count_at ver h, ew_entry_header_size := length ?o\<rparr>"
  define lw1 where "lw1 = blank_element_writer\<lparr>lw_buffer_offset := ?p + length ?o,
        lw_buffer_count := sz_sub (ew_buffer_count ew) (length ?o),
        lw_elements_written_count := 0, lw_elements_written_size := 0, lw_message_version := ver\<rparr>"
  have l1: "lw_message_version lw1 = ver" "lw_buffer_offset lw1 = ?p + length ?o"
      "lw_elements_written_count lw1 = 0" "lw_elements_written_size lw1 = 0" by (simp_all add: lw1_def)
  have "\<exists>w'. write_raw_elements (put_flat bv ?p ?o) lw1 ds =
           (OK, put_flat (put_flat bv ?p ?o) (lw_buffer_offset lw1) (enc_raws (lw_message_version lw1) ds), w') \<and>
           lw_elements_written_count w' = lw_elements_written_count lw1 + length ds \<and>
           lw_elements_written_size w' = lw_elements_written_size lw1 + length (enc_raws (lw_message_version lw1) ds)"
    using wf room_o room_b o by (intro write_raws_at) (simp_all add: l1 UINT16_MAX_def UINT32_MAX_def)
  then obtain lw2 where W: "write_raw_elements (put_flat bv ?p ?o) lw1 ds = (OK, put_flat bv ?p (?o @ ?b), lw2)"
      "lw_elements_written_count lw2 = length ds" "lw_elements_written_size lw2 = length ?b"
    using room_b by (auto simp: l1 put_flat_append add.assoc)
  have E: "messageentry_writer_end_entry (put_flat bv ?p (?o @ ?b)) ew1 lw2 =
    (OK, put_flat bv ?p (enc_closed_entry ver h (entry_size ver e) (length ds) @ ?b),
     ew1\<lparr>ew_entries_written_count := sz_add (ew_entries_written_count ew1) 1,
        ew_entries_written_size := sz_add (ew_entries_written_size ew1) (entry_size ver e),
        ew_buffer_offset := sz_add (ew_buffer_offset ew1) (entry_size ver e),
        ew_buffer_count := sz_sub (ew_buffer_count ew1) (entry_size ver e)\<rparr>)"
    by (rule end_entry_at [OF wf _ o(1) _ _ _ W(3) W(2) room_b])
       (use o v in \<open>simp_all add: ew1_def e entry_size_def\<close>)
  have s: "?p + entry_size ver e < 2 ^ 64" using wf_small [OF wf room] .
  have c64: "ew_entries_written_count ew + 1 < 2 ^ 64" using cnt by (simp add: UINT16_MAX_def)
  note B' = B [folded ew1_def lw1_def]
  have w: "write_entry bv ew e = (OK, put_flat bv ?p (enc_entry ver e),
     ew1\<lparr>ew_entries_written_count := sz_add (ew_entries_written_count ew1) 1,
        ew_entries_written_size := sz_add (ew_entries_written_size ew1) (entry_size ver e),
        ew_buffer_offset := sz_add (ew_buffer_offset ew1) (entry_size ver e),
        ew_buffer_count := sz_sub (ew_buffer_count ew1) (entry_size ver e)\<rparr>)"
    using E by (simp add: write_entry_def e B' W(1) enc_entry_def)
  show ?thesis
    unfolding w using s sz c64 by (simp add: ew1_def sz_add_nowrap v [symmetric])
qed

lemma write_entries_at:
  assumes "wf_vec 1 bv" and "ver = ew_message_version ew" and "\<forall>e \<in> set es. message_entry_ok ver e"
    and "ew_entries_written_count ew + length es \<le> UINT16_MAX"
    and "ew_buffer_offset ew + length (enc_entries ver es) \<le> length (flat bv)"
    and "ew_entries_written_size ew + length (enc_entries ver es) < 2 ^ 64"
  shows "\<exists>ew'. write_entries bv ew es = (OK, put_flat bv (ew_buffer_offset ew) (enc_entries ver es), ew') \<and>
     ew_entries_written_count ew' = ew_entries_written_count ew + length es \<and>
     ew_entries_written_size ew' = ew_entries_written_size ew + length (enc_entries ver es)"
  using assms
proof (induction es arbitrary: bv ew)
  case Nil
  then show ?case by simp
next
  case (Cons e es)
  let ?p = "ew_buffer_offset ew"
  have room: "?p + entry_size ver e \<le> length (flat bv)" using Cons.prems(5) by (simp add: length_enc_entry)
  have "\<exists>ew'. write_entry bv ew e = (OK, put_flat bv ?p (enc_entry ver e), ew') \<and>
     ew_message_version ew' = ver \<and> ew_entries_written_count ew' = ew_entries_written_count ew + 1 \<and>
     ew_entries_written_size ew' = ew_entries_written_size ew + entry_size ver e \<and>
     ew_buffer_offset ew' = ?p + entry_size ver e"
    using Cons.prems room by (intro write_entry_at) (auto simp: length_enc_entry)
  then obtain ew' where w: "write_entry bv ew e = (OK, put_flat bv ?p (enc_entry ver e), ew')"
     "ew_message_version ew' = ver" "ew_entries_written_count ew' = ew_entries_written_count ew + 1"
     "ew_entries_written_size ew' = ew_entries_written_size ew + entry_size ver e"
     "ew_buffer_offset ew' = ?p + entry_size ver e" by blast
  let ?bv = "put_flat bv ?p (enc_entry ver e)"
  have fit: "?p + length (enc_entry ver e) \<le> length (flat bv)" using room by (simp add: length_enc_entry)
  have "\<exists>ew''. write_entries ?bv ew' es = (OK, put_flat ?bv (ew_buffer_offset ew') (enc_entries ver es), ew'') \<and>
     ew_entries_written_count ew'' = ew_entries_written_count ew' + length es \<and>
     ew_entries_written_size ew'' = ew_entries_written_size ew' + length (enc_entries ver es)"
    using Cons.prems fit w by (intro Cons.IH) (auto simp: length_enc_entry)
  then show ?case
    using w Cons.prems(5) by (auto simp: length_enc_entry [symmetric] put_flat_append add.assoc)
qed

definition message_size :: "u16 \<Rightarrow> const_string message_header \<Rightarrow> message_entry list \<Rightarrow> nat" where
  "message_size ver h es = length (enc_open_message ver h) + length (enc_entries ver es)"

definition enc_message :: "u16 \<Rightarrow> const_string message_header \<Rightarrow> message_entry list \<Rightarrow> byte list" where
  "enc_message ver h es = enc_closed_message ver h (message_size ver h es) (length es) @ enc_entries ver es"

definition message_ok :: "u16 \<Rightarrow> const_string message_header \<Rightarrow> message_entry list \<Rightarrow> bool" where
  "message_ok ver h es \<longleftrightarrow> message_fits ver h \<and> (\<forall>e \<in> set es. message_entry_ok ver e) \<and>
     length es \<le> UINT16_MAX \<and> message_size ver h es \<le> UINT32_MAX \<and> (count_has_place ver h \<or> length es = 1)"

lemma length_enc_message: "message_ok ver h es \<Longrightarrow> length (enc_message ver h es) = message_size ver h es"
  by (simp add: enc_message_def message_size_def message_ok_def length_enc_closed_message)

lemma write_message_at:
  assumes wf: "wf_vec 1 bv" and v: "ver = mw_message_version mw" and ok: "message_ok ver h es"
    and room: "mw_buffer_offset mw + message_size ver h es \<le> length (flat bv)"
  shows "write_message bv mw h es =
    (OK, put_flat bv (mw_buffer_offset mw) (enc_message ver h es),
     h\<lparr>mh_header_size := word_of_nat (length (enc_open_message ver h)),
       mh_message_size := word_of_nat (message_size ver h es), mh_entry_count := word_of_nat (length es)\<rparr>)"
proof -
  let ?p = "mw_buffer_offset mw" and ?o = "enc_open_message ver h" and ?b = "enc_entries ver es"
  have o: "message_fits ver h" "\<forall>e \<in> set es. message_entry_ok ver e" "length es \<le> UINT16_MAX"
     "length ?o + length ?b \<le> UINT32_MAX" "count_has_place ver h \<or> length es = 1"
    using ok by (simp_all add: message_ok_def message_size_def)
  have room_o: "?p + length ?o \<le> length (flat bv)" and room_b: "?p + length (?o @ ?b) \<le> length (flat bv)"
    using room by (simp_all add: message_size_def)
  note B = begin_message_at [OF wf v o(1) room_o, of blank_entry_writer]
  define mw1 where "mw1 = mw\<lparr>mw_message_size_offset := ?p + 4,
        mw_entry_count_offset := (if count_has_place ver h then ?p + open_message_count_at ver h else SIZE_T_MAX)\<rparr>"
  define h1 where "h1 = h\<lparr>mh_header_size := word_of_nat (length ?o)\<rparr>"
  define ew1 where "ew1 = blank_entry_writer\<lparr>ew_buffer_offset := ?p + length ?o,
        ew_buffer_count := sz_sub (mw_buffer_count mw) (length ?o),
        ew_entries_written_count := 0, ew_entries_written_size := 0, ew_message_version := ver\<rparr>"
  have e1: "ew_message_version ew1 = ver" "ew_buffer_offset ew1 = ?p + length ?o"
      "ew_entries_written_count ew1 = 0" "ew_entries_written_size ew1 = 0" by (simp_all add: ew1_def)
  have "\<exists>ew'. write_entries (put_flat bv ?p ?o) ew1 es =
      (OK, put_flat (put_flat bv ?p ?o) (ew_buffer_offset ew1) (enc_entries ver es), ew') \<and>
     ew_entries_written_count ew' = ew_entries_written_count ew1 + length es \<and>
     ew_entries_written_size ew' = ew_entries_written_size ew1 + length (enc_entries ver es)"
    using wf room_o room_b o by (intro write_entries_at) (simp_all add: e1 UINT32_MAX_def)
  then obtain ew2 where W: "write_entries (put_flat bv ?p ?o) ew1 es = (OK, put_flat bv ?p (?o @ ?b), ew2)"
      "ew_entries_written_count ew2 = length es" "ew_entries_written_size ew2 = length ?b"
    using room_b by (auto simp: e1 put_flat_append add.assoc)
  have hs: "unat (mh_header_size h1) = length ?o"
    using o(4) unat_word_of_nat_u32 [of "length ?o"] by (simp add: h1_def)
  have E: "message_writer_end_message (put_flat bv ?p (?o @ ?b)) mw1 h1 ew2 =
    (OK, put_flat bv ?p (enc_closed_message ver h (message_size ver h es) (length es) @ ?b),
     h1\<lparr>mh_message_size := word_of_nat (message_size ver h es), mh_entry_count := word_of_nat (length es)\<rparr>)"
    by (rule end_message_at [OF wf _ o(1) _ _ hs W(3) W(2) room_b])
       (use o v in \<open>simp_all add: mw1_def message_size_def\<close>)
  note B' = B [folded mw1_def h1_def ew1_def]
  have "write_message bv mw h es = (OK, put_flat bv ?p (enc_message ver h es),
     h1\<lparr>mh_message_size := word_of_nat (message_size ver h es), mh_entry_count := word_of_nat (length es)\<rparr>)"
    using E by (simp add: write_message_def B' W(1) enc_message_def)
  then show ?thesis by (simp add: h1_def)
qed

end
