(* ===== verification/RRL_MessageWalk.thy ===== *)
theory RRL_MessageWalk
  imports RRL_Compose
begin

text \<open>
  A reader over the bytes of a whole message: the header it finds, the cursor over the entries, the
  header of each entry and the elements behind it. The lemmas follow the calls of a client, from
  \<open>message_reader_read_header\<close> to \<open>messageelement_reader_read_data_ex\<close>. The message
  stands at the start of the buffer, as it does in a receive buffer: entering the entries of a
  message that stands elsewhere adds the offset twice.
\<close>


section \<open>The header of a message\<close>

text \<open>The place of the number of entries, as the reader notes it.\<close>

definition count_place :: "u16 \<Rightarrow> const_string message_header \<Rightarrow> size_t" where
  "count_place ver h = (if count_has_place ver h
     then (if ver = 2 then open_message_count_at 2 h else open_message_count_at 4 h - 1) else SIZE_T_MAX)"

lemma header2_ok_closed:
  "header2_fits h \<Longrightarrow> c \<le> UINT16_MAX \<Longrightarrow> header2_ok (closed_message2 h n c)"
  using header2_ok_sized [of h]
  by (simp add: header2_ok_def closed_message2_def unat_of_nat UINT16_MAX_def)

lemma header4_ok_closed [simp]: "header4_ok (closed_message4 h n c) = header4_ok h"
  by (simp add: header4_ok_def closed_message4_def sized4_def)

lemma size2: "mh_header_size (closed_message2 h n c) = mh_header_size (sized2 h)"
  by (simp add: closed_message2_def)

lemma size4: "mh_header_size (closed_message4 h n c) = mh_header_size (sized4 255 h)"
  by (simp add: closed_message4_def)

lemma header_room_zero [simp]: "header_room zero_message_header h"
  by (simp add: header_room_def zero_message_header_def)

lemma enc_closed_message_nonempty: "message_fits ver h \<Longrightarrow> 10 \<le> length (enc_open_message ver h)"
  using header2_ok_sized(1) [of h]
  by (auto simp: message_fits_def enc_open_message_def header4_bytes_def enc_header4_def enc4_start_def
      split: if_splits)

text \<open>What the reader finds of the header of a closed message.\<close>

definition seen_message ::
  "u16 \<Rightarrow> const_string message_header \<Rightarrow> nat \<Rightarrow> nat \<Rightarrow> rstring message_header \<Rightarrow> rstring message_header" where
  "seen_message ver h n count hdr =
     (if ver = 2 then seen_header2 (closed_message2 h n count) hdr
      else seen_header4 (header4_flags 255 h) (closed_message4 h n count) hdr)"

lemma read_message_header_at:
  assumes wf: "wf_vec 1 bv" and ok: "message_ok ver h es"
    and a: "at bv (mr_buffer_offset r) (enc_closed_message ver h n (length es))" and room: "header_room hdr h"
  shows "\<exists>info. message_reader_read_header_ex bv r hdr info0 =
      (OK, seen_message ver h n (length es) (hdr\<lparr>mh_message_version := ver\<rparr>), info) \<and>
      mi_entry_count_offset info =
        (if count_has_place ver h then mr_buffer_offset r + count_place ver h else SIZE_T_MAX)"
proof -
  have fits: "message_fits ver h" and c: "length es \<le> UINT16_MAX" using ok by (simp_all add: message_ok_def)
  have sizes: "length (enc_closed_message ver h n (length es)) = length (enc_open_message ver h)"
    by (rule length_enc_closed_message [OF fits])
  show ?thesis
    using message_fits_version [OF fits]
  proof
    assume v: "ver = 2"
    let ?h = "closed_message2 h n (length es)"
    have f: "header2_fits h" using fits v by (simp add: message_fits_def)
    have e: "enc_closed_message ver h n (length es) = enc_header2 ?h" by (simp add: v enc_closed_message_def)
    have sz: "unat (mh_header_size ?h) = length (enc_header2 ?h)"
      using sizes [unfolded e] enc_open_message_size [OF fits] size2 [of h n "length es"] by (simp add: v)
    have room': "header_room (hdr\<lparr>mh_message_version := 2\<rparr>) ?h"
      using room by (simp add: header_room_def closed_message2_def sized2_def)
    have b: "length (enc2_before_count ?h) = open_message_count_at 2 h"
      by (simp add: open_message_count_at_def enc2_before_count_def closed_message2_def)
    show ?thesis
      using version_at2 [OF wf a [unfolded e]]
        read_header2_at [OF wf header2_ok_closed [OF f c] sz a [unfolded e] room', of info0]
      by (simp add: message_reader_read_header_ex_def v seen_message_def count_place_def count_has_place_def b)
  next
    assume v: "ver = 4"
    let ?h = "closed_message4 h n (length es)" and ?fl = "header4_flags 255 h"
    have f: "header4_fits 255 h" using fits v by (simp add: message_fits_def)
    have e: "enc_closed_message ver h n (length es) = enc_header4 ?fl ?h [] []" by (simp add: v enc_closed_message_def)
    have sz: "unat (mh_header_size ?h) = length (enc_header4 ?fl ?h [] [])"
      using sizes [unfolded e] enc_open_message_size [OF fits] size4 [of h n "length es"] by (simp add: v)
    have room': "header_room (hdr\<lparr>mh_message_version := 4\<rparr>) ?h"
      using room by (simp add: header_room_def closed_message4_def sized4_def)
    have k: "header4_ok ?h" "str4_ok []" "str4_ok []" using f by (simp_all add: header4_fits_def str4_ok_def)
    have fl: "FLAGS_CHECK ?fl MESSAGE_FLAGS_MULTIPLE_ENTRIES = (mh_entry_count h \<noteq> 1)"
      by (simp add: header4_flags_check)
    have b: "header4_count_offset ?fl ?h [] p =
       (if mh_entry_count h \<noteq> 1 then p + (open_message_count_at 4 h - 1) else SIZE_T_MAX)" for p
      by (simp add: header4_count_offset_def fl open_message_count_at_def closed_message4_parts)
    show ?thesis
      using version_at4 [OF wf a [unfolded e]]
        read_header4_at [OF wf k sz a [unfolded e] room', of info0]
      by (simp add: message_reader_read_header_ex_def v seen_message_def count_place_def count_has_place_def b)
  qed
qed

text \<open>The number of entries, read again from its place.\<close>

lemma count_at:
  assumes wf: "wf_vec 1 bv" and ok: "message_ok ver h es" and c: "count_has_place ver h"
    and a: "at bv p (enc_closed_message ver h n (length es))"
  shows "\<exists>q v. message_read_count2 ver bv (p + count_place ver h) = Inr (v, q) \<and> unat v = length es"
proof -
  have fits: "message_fits ver h" and l: "length es \<le> UINT16_MAX" using ok by (simp_all add: message_ok_def)
  have l32: "length es \<le> UINT32_MAX" using l by (simp add: UINT16_MAX_def UINT32_MAX_def)
  show ?thesis
    using message_fits_version [OF fits]
  proof
    assume v: "ver = 2"
    let ?h = "closed_message2 h n (length es)"
    have b: "length (enc2_before_count ?h) = open_message_count_at 2 h"
      by (simp add: open_message_count_at_def enc2_before_count_def closed_message2_def)
    have "at bv (p + open_message_count_at 2 h) (u16_bytes (ucast (mh_entry_count ?h)))"
      using a by (simp add: v enc_closed_message_def enc_header2_def at_append b)
    then show ?thesis
      using uint16.rd_at [OF wf TrueI, of "p + open_message_count_at 2 h" "ucast (mh_entry_count ?h)"] c l
      by (simp add: v message_read_count2_def count_place_def closed_message2_def ucast_word_of_nat_u16
          unat_word_of_nat_u16 unat_ucast_up)
  next
    assume v: "ver = 4"
    let ?h = "closed_message4 h n (length es)" and ?fl = "header4_flags 255 h"
    have m: "mh_entry_count h \<noteq> 1" using c v by (simp add: count_has_place_def)
    have fl: "FLAGS_CHECK ?fl MESSAGE_FLAGS_MULTIPLE_ENTRIES" by (simp add: header4_flags_check m)
    have b: "length (enc4_start ?fl ?h) + length (enc4_before_count ?fl ?h []) = open_message_count_at 4 h - 1"
      by (simp add: open_message_count_at_def closed_message4_parts)
    have cnt: "mh_entry_count ?h = word_of_nat (length es)" by (simp add: closed_message4_def)
    have "at bv (p + (length (enc4_start ?fl ?h) + length (enc4_before_count ?fl ?h [])))
        (enc_padded_uint_x (mh_entry_count ?h))"
      using a by (simp add: v enc_closed_message_def enc_header4_def enc4_sections_def at_append fl add.assoc)
    then have "at bv (p + (open_message_count_at 4 h - 1)) (enc_padded_uint_x (word_of_nat (length es)))"
      unfolding b cnt .
    then show ?thesis
      using padded.rd_at [OF wf TrueI, of "p + (open_message_count_at 4 h - 1)" "word_of_nat (length es)"] c l32
      by (simp add: v message_read_count2_def count_place_def unat_word_of_nat_u32)
  qed
qed


section \<open>The entries\<close>

text \<open>
  The cursor at the entry behind \<open>before\<close>, in a sequence of entries that starts at
  \<open>p\<close>; \<open>slack\<close> bytes of the window of the reader are behind the message.
\<close>

definition entry_cursor ::
  "u16 \<Rightarrow> size_t \<Rightarrow> size_t \<Rightarrow> nat \<Rightarrow> message_entry list \<Rightarrow> message_entry \<Rightarrow> message_entry list \<Rightarrow> messageentry_reader" where
  "entry_cursor ver p place slack before e after =
     \<lparr>er_buffer_offset = p + length (enc_entries ver before), er_buffer_count = entry_size ver e,
      er_buffer_remaining = length (enc_entries ver after) + slack, er_entry_count_offset = place,
      er_current_entry = length before, er_message_version = ver\<rparr>"

lemma at_entries:
  assumes "at bv p (enc_entries ver (before @ e # after))"
  shows "at bv (p + length (enc_entries ver before)) (enc_entry ver e)"
    and "at bv (p + length (enc_entries ver before) + entry_size ver e) (enc_entries ver after)"
  using assms by (simp_all add: at_append length_enc_entry add.assoc)

definition entry_header :: "u16 \<Rightarrow> message_entry \<Rightarrow> const_string messageentry_header" where
  "entry_header ver e = closed_entry (fst e) (entry_size ver e) (length (snd e))"

lemma entry_header_ok:
  assumes "message_entry_ok ver e"
  shows "ver = 2 \<Longrightarrow> entry2_ok (entry_header ver e)" and "ver = 4 \<Longrightarrow> entry4_ok (entry_header ver e)"
    and "unat (eh_entry_size (entry_header ver e)) = entry_size ver e"
    and "unat (eh_element_count (entry_header ver e)) = length (snd e)"
proof -
  have l: "length (snd e) \<le> 65535" "entry_size ver e \<le> UINT32_MAX"
    using assms by (simp_all add: message_entry_ok_def UINT16_MAX_def)
  show c: "unat (eh_element_count (entry_header ver e)) = length (snd e)"
    using l by (simp add: entry_header_def closed_entry_def unat_word_of_nat_u32 UINT32_MAX_def)
  show "unat (eh_entry_size (entry_header ver e)) = entry_size ver e"
    using l by (simp add: entry_header_def closed_entry_def unat_word_of_nat_u32)
  show "entry2_ok (entry_header ver e)" if "ver = 2"
    using assms that c l
    by (simp add: message_entry_ok_def entry_ok_def entry2_ok_def UINT16_MAX_def)
       (simp add: open_entry_def entry_header_def closed_entry_def)
  show "entry4_ok (entry_header ver e)" if "ver = 4"
    using assms that by (simp add: message_entry_ok_def entry_ok_def entry4_ok_def entry_header_def closed_entry_def)
qed

lemma message_entry_ok_version: "message_entry_ok ver e \<Longrightarrow> ver = 2 \<or> ver = 4"
  using entry_ok_version by (auto simp: message_entry_ok_def)

lemma enc_entry_header:
  "enc_entry 2 e = enc_entry2 (entry_header 2 e) @ enc_raws 2 (snd e)"
  "enc_entry 4 e = enc_entry4 5 5 (entry_write4_flags (fst e)) (entry_header 4 e) [] @ enc_raws 4 (snd e)"
  by (simp_all add: enc_entry_def enc_closed_entry_def entry_header_def)

lemma width5 [simp]: "uint_width_ok 5 v"
  by (simp add: uint_width_ok_def)

lemma entry_count_at:
  assumes wf: "wf_vec 1 bv" and ok: "message_entry_ok ver e" and a: "at bv p (enc_entry ver e)"
  shows "\<exists>n q. message_read_count ver bv p = Inr (n, q) \<and> unat n = entry_size ver e"
proof -
  have "ver = 2 \<or> ver = 4" by (rule message_entry_ok_version [OF ok])
  then show ?thesis
  proof
    assume v: "ver = 2"
    have "at bv p (u32_bytes (eh_entry_size (entry_header 2 e)))"
      using at_entry2(1) a by (simp add: v enc_entry_header at_append)
    then show ?thesis
      using uint32.rd_at [OF wf] entry_header_ok(3) [OF ok] by (simp add: v message_read_count_def)
  next
    assume v: "ver = 4"
    have "at bv p (enc_uint_as 5 (eh_entry_size (entry_header 4 e)))"
      using a by (simp add: v enc_entry_header enc_entry4_def at_append)
    then show ?thesis
      using uint_as.rd_at [OF wf, where v = "eh_entry_size (entry_header 4 e)" and w = 5 and p = p]
        entry_header_ok(3) [OF ok] by (simp add: v message_read_count_def)
  qed
qed

text \<open>What the reader finds of the header of an entry.\<close>

definition seen_message_entry ::
  "u16 \<Rightarrow> message_entry \<Rightarrow> rstring messageentry_header \<Rightarrow> rstring messageentry_header" where
  "seen_message_entry ver e hdr =
     (if ver = 2 then seen_entry2 (entry_header 2 e) hdr
      else seen_entry4 (entry_write4_flags (fst e)) (entry_header 4 e) hdr)"

lemma read_message_entry_at:
  assumes wf: "wf_vec 1 bv" and ok: "message_entry_ok ver e" and v: "er_message_version r = ver"
    and a: "at bv (er_buffer_offset r) (enc_entry ver e)" and room: "entry_room hdr (fst e)"
  shows "\<exists>info. messageentry_reader_read_header_ex bv r hdr info0 = (OK, seen_message_entry ver e hdr, info) \<and>
     ei_header_size info = length (enc_open_entry ver (fst e)) \<and>
     ei_element_start_offset info = er_buffer_offset r + length (enc_open_entry ver (fst e))"
proof -
  have l: "length (enc_closed_entry ver (fst e) (entry_size ver e) (length (snd e))) = length (enc_open_entry ver (fst e))"
    by (rule length_enc_closed_entry)
  have room': "entry_room hdr (entry_header ver e)"
    using room by (simp add: entry_room_def entry_header_def closed_entry_def)
  have "ver = 2 \<or> ver = 4" by (rule message_entry_ok_version [OF ok])
  then show ?thesis
  proof
    assume v2: "ver = 2"
    have k: "entry2_ok (entry_header 2 e)" using entry_header_ok(1) [OF ok v2] v2 by simp
    have a': "at bv (er_buffer_offset r) (enc_entry2 (entry_header 2 e))"
      using a unfolding v2 enc_entry_header at_append by blast
    show ?thesis
      using read_entry2_at [OF wf k a', of hdr info0] room' v l
      by (simp add: v2 messageentry_reader_read_header_ex_def seen_message_entry_def enc_closed_entry_def
          entry_header_def del: length_enc_entry2)
  next
    assume v4: "ver = 4"
    have k: "entry4_ok (entry_header 4 e)" "str4_ok []" using entry_header_ok(2) [OF ok v4] v4 by (simp_all add: str4_ok_def)
    have a': "at bv (er_buffer_offset r) (enc_entry4 5 5 (entry_write4_flags (fst e)) (entry_header 4 e) [])"
      using a unfolding v4 enc_entry_header at_append by blast
    show ?thesis
      using read_entry4_at [OF wf k width5 width5 a', of hdr info0] room' v l
      by (simp add: v4 messageentry_reader_read_header_ex_def seen_message_entry_def enc_closed_entry_def
          entry_header_def)
  qed
qed

lemma seen_message_entry_count:
  "eh_element_count (seen_message_entry ver e hdr) = eh_element_count (entry_header ver e)"
  by (simp add: seen_message_entry_def seen_entry2_def seen_entry4_def entry_header_def closed_entry_def)


section \<open>Walking the entries\<close>

lemma seen_message_header_size:
  assumes fits: "message_fits ver h"
  shows "unat (mh_header_size (seen_message ver h n c hdr)) = length (enc_open_message ver h)"
  using enc_open_message_size [OF fits] size2 [of h n c] size4 [of h n c] message_fits_version [OF fits]
  by (auto simp: seen_message_def seen_header2_def seen_header4_def Let_def)

lemma begin_entries_at:
  assumes wf: "wf_vec 1 bv" and ok: "message_ok ver h (e # after)" and a: "at bv 0 (enc_message ver h (e # after))"
    and r: "mr_buffer_offset r = 0" "mr_message_version r = ver"
      "mr_buffer_count r = message_size ver h (e # after) + slack" "mr_buffer_count r < 2 ^ 63"
  shows "message_reader_begin_read_entries bv r er0 =
     (OK, entry_cursor ver (length (enc_open_message ver h))
            (if count_has_place ver h then count_place ver h else SIZE_T_MAX) slack [] e after)"
proof -
  let ?n = "message_size ver h (e # after)" and ?o = "length (enc_open_message ver h)"
  have fits: "message_fits ver h" and l: "length (e # after) \<le> UINT16_MAX" and eok: "message_entry_ok ver e"
    using ok by (simp_all add: message_ok_def)
  have a1: "at bv 0 (enc_closed_message ver h ?n (length (e # after)))"
    and a2: "at bv ?o (enc_entries ver (e # after))"
    using a length_enc_closed_message [OF fits] by (simp_all add: enc_message_def at_append)
  obtain info where H: "message_reader_read_header_ex bv r zero_message_header zero_message_info =
      (OK, seen_message ver h ?n (length (e # after)) (zero_message_header\<lparr>mh_message_version := ver\<rparr>), info)"
      "mi_entry_count_offset info = (if count_has_place ver h then count_place ver h else SIZE_T_MAX)"
    using read_message_header_at [OF wf ok, of r ?n zero_message_header zero_message_info] a1 r by auto
  have ae: "at bv ?o (enc_entry ver e)" using a2 by (simp add: at_append)
  obtain n q where c: "message_read_count ver bv ?o = Inr (n, q)" "unat n = entry_size ver e"
    using entry_count_at [OF wf eok ae] by blast
  have sum: "?n = ?o + (entry_size ver e + length (enc_entries ver after))"
    by (simp add: message_size_def length_enc_entry)
  have o: "sz_add 0 ?o = ?o" "sz_add ?o (entry_size ver e) = ?o + entry_size ver e"
    "sz_sub (mr_buffer_count r) ?o = entry_size ver e + length (enc_entries ver after) + slack"
    "sz_sub (entry_size ver e + length (enc_entries ver after) + slack) (entry_size ver e) =
       length (enc_entries ver after) + slack"
    using r(3,4) sum by (simp_all add: sz_add_nowrap sz_sub_nowrap)
  have le: "?o + entry_size ver e \<le> mr_buffer_count r" using r(3) sum by simp
  show ?thesis
    using c le
    by (simp add: message_reader_begin_read_entries_def H r(1,2) seen_message_header_size [OF fits] Let_def o entry_cursor_def del: length_append)
qed

lemma count_place_le:
  assumes fits: "message_fits ver h" and c: "count_has_place ver h"
  shows "count_place ver h \<le> length (enc_open_message ver h)"
proof (rule open_closed_message [OF fits])
  fix size0 mid count0 rest :: "byte list"
  assume "enc_open_message ver h = rrac_magic @ size0 @ mid @ count0 @ rest"
    and "count_has_place ver h \<longrightarrow> open_message_count_at ver h = length (rrac_magic @ size0 @ mid)"
  then show "count_place ver h \<le> length (enc_open_message ver h)"
    using c message_fits_version [OF fits] by (auto simp: count_place_def)
qed

lemma move_next_entry_at:
  assumes wf: "wf_vec 1 bv" and ok: "message_ok ver h (before @ e # e' # after)"
    and a: "at bv 0 (enc_message ver h (before @ e # e' # after))"
    and small: "length (enc_entries ver (e' # after)) + slack < 2 ^ 63"
    and p: "p = length (enc_open_message ver h)"
  shows "messageentry_reader_move_next bv (entry_cursor ver p (count_place ver h) slack before e (e' # after)) =
           (OK, entry_cursor ver p (count_place ver h) slack (before @ [e]) e' after)"
proof -
  let ?es = "before @ e # e' # after"
  let ?n = "message_size ver h ?es" and ?q = "p + length (enc_entries ver before) + entry_size ver e"
  have fits: "message_fits ver h" and l: "length ?es \<le> UINT16_MAX" and eok: "message_entry_ok ver e'"
    and c: "count_has_place ver h" using ok by (auto simp: message_ok_def)
  have a1: "at bv 0 (enc_closed_message ver h ?n (length ?es))" and a2: "at bv p (enc_entries ver ?es)"
    using a length_enc_closed_message [OF fits] by (simp_all add: enc_message_def at_append p)
  have a3: "at bv ?q (enc_entries ver (e' # after))" by (rule at_entries(2) [OF a2])
  then have ae: "at bv ?q (enc_entry ver e')" by (simp add: at_append)
  obtain n q where s: "message_read_count ver bv ?q = Inr (n, q)" "unat n = entry_size ver e'"
    using entry_count_at [OF wf eok ae] by blast
  obtain v q' where m: "message_read_count2 ver bv (count_place ver h) = Inr (v, q')" "unat v = length ?es"
    using count_at [OF wf ok c a1] by auto
  have pl: "count_place ver h \<noteq> SIZE_T_MAX"
  proof -
    have "count_place ver h < 2 ^ 63"
      using count_place_le [OF fits c] wf_vec_flat_lt [OF wf] at_le [OF a2] p by simp
    then show ?thesis by (simp add: SIZE_T_MAX_def)
  qed
  have o: "sz_add (p + length (enc_entries ver before)) (entry_size ver e) = ?q"
    using wf_small [OF wf, of ?q] at_le [OF ae] by (simp add: sz_add_nowrap)
  have i: "sz_add (length before) 1 = Suc (length before)" using l by (simp add: sz_add_nowrap UINT16_MAX_def)
  have rem: "sz_sub (length (enc_entries ver (e' # after)) + slack) (entry_size ver e') = length (enc_entries ver after) + slack"
    using small by (subst sz_sub_nowrap) (auto simp: length_enc_entry)
  show ?thesis
    using s m o i rem pl
    by (simp add: messageentry_reader_move_next_def entry_cursor_def Let_def length_enc_entry)
qed

end
