(* ===== verification/RRL_MessageSpec.thy ===== *)
theory RRL_MessageSpec
  imports RRL_MessageWalk
begin

text \<open>
  The properties of whole messages: a client that writes a message of entries with plain data, and
  one that walks to an entry, searches an element by its name and reads its data.
\<close>


section \<open>Elements of plain data\<close>

lemma enc_raws_layout:
  "enc_raws 2 ds = layout2.enc_all (map (raw_we 2) ds)" "enc_raws 4 ds = layout4.enc_all (map (raw_we 4) ds)"
  by (induction ds) (simp_all add: layout2.enc_all_def layout4.enc_all_def enc_raw_we)

lemma raw_we_names:
  "lh_element_name (we_header (raw_we ver d)) = re_name d" "name_we4 (raw_we 4 d) = re_name d"
  by (auto simp: raw_we_def raw_header_def data_element_def name_we4_def data_header4_flags_check)

lemma at_raws:
  assumes "at bv p (enc_raws ver (ds @ d # ds'))"
  shows "at bv (p + length (enc_raws ver ds)) (enc_raw ver d)"
  using assms by (simp add: at_append enc_raws_def)

lemma raw_we_header [simp]: "we_header (raw_we ver d) = raw_header ver d"
  by (simp add: raw_we_def)

lemma raw_contents_place:
  assumes "raw_ok ver d"
  shows "ver = 2 \<Longrightarrow> length (enc_element2 (raw_header 2 d)) + length (re_data d) = raw_size 2 d"
    and "ver = 4 \<Longrightarrow> length (header4_we (raw_we 4 d)) + length (re_data d) = raw_size 4 d"
proof -
  have l: "length (enc_raw ver d) = raw_size ver d" by (rule length_enc_raw [OF assms])
  show "length (enc_element2 (raw_header 2 d)) + length (re_data d) = raw_size 2 d" if "ver = 2"
    using l that by (simp add: enc_raw_we enc_we2_def del: length_enc_element2) (simp add: raw_we_def)
  show "length (header4_we (raw_we 4 d)) + length (re_data d) = raw_size 4 d" if "ver = 4"
    using l that by (simp add: enc_raw_we enc_we4_def) (simp add: raw_we_def)
qed

text \<open>What the reader reports of an element of plain data, and where its data are.\<close>

lemma data_info_at:
  assumes wf: "wf_vec 1 bv" and ok: "raw_ok ver d" and v: "lr_message_version lr = ver"
    and a: "at bv (lr_buffer_offset lr) (enc_raw ver d)"
  shows "messageelement_reader_get_data_info bv lr (re_type d) (re_elem_size d) =
     Inr (lr_buffer_offset lr + (raw_size ver d - length (re_data d)), length (re_data d), word_of_nat (re_count d))"
proof -
  have n: "raw_size ver d \<le> UINT32_MAX" by (rule raw_size_le [OF ok])
  have c: "re_count d \<le> UINT32_MAX" using raw_count_le [OF ok] raw_data_small [OF ok] by simp
  have m: "sz_mul (re_elem_size d) (re_count d) = length (re_data d)"
    using ok raw_data_small [OF ok] by (simp add: raw_ok_def sz_mul_nowrap UINT32_MAX_def mult.commute)
  have le: "length (re_data d) \<le> raw_size ver d" using length_enc_raw [OF ok] by (simp add: enc_raw_def)
  have s: "sz_sub (raw_size ver d) (raw_size ver d - length (re_data d)) = length (re_data d)"
    using n le by (simp add: sz_sub_nowrap UINT32_MAX_def)
  have f: "re_type d = lh_element_type (raw_header ver d)" "word_of_nat (re_count d) = lh_data_count (raw_header ver d)"
     "word_of_nat (raw_size ver d) = lh_element_size (raw_header ver d)"
    by (simp_all add: raw_header_def data_element_def)
  have u: "unat (lh_data_count (raw_header ver d)) = re_count d" "unat (lh_element_size (raw_header ver d)) = raw_size ver d"
    using c n by (simp_all flip: f add: unat_word_of_nat_u32)
  have "ver = 2 \<or> ver = 4" using ok by (auto simp: raw_ok_def split: if_splits)
  then show ?thesis
  proof
    assume v2: "ver = 2"
    have h: "length (enc_element2 (raw_header 2 d)) = raw_size 2 d - length (re_data d)"
      using raw_contents_place(1) [OF ok v2] by simp
    show ?thesis
      using layout2.read_at [OF wf raw_we_valid(1) [OF ok v2], of lr no_element_info] a v u m s
      by (simp add: v2 enc_raw_we messageelement_reader_get_data_info_def info_we2_def h Let_def seen_element2_def
          f del: length_enc_element2)
  next
    assume v4: "ver = 4"
    have h: "length (header4_we (raw_we 4 d)) = raw_size 4 d - length (re_data d)"
      using raw_contents_place(2) [OF ok v4] by simp
    show ?thesis
      using layout4.read_at [OF wf raw_we_valid(2) [OF ok v4], of lr no_element_info] a v u m s
      by (simp add: v4 enc_raw_we messageelement_reader_get_data_info_def info_we4_def h Let_def seen_element4_def
          f)
  qed
qed

lemma read_data_at:
  assumes wf: "wf_vec 1 bv" and ok: "raw_ok ver d" and v: "lr_message_version lr = ver"
    and a: "at bv (lr_buffer_offset lr) (enc_raw ver d)"
    and b: "length buf = m * re_elem_size d" "length buf < 2 ^ 63"
  shows "messageelement_reader_read_data_ex bv lr buf m (re_type d) (re_elem_size d) =
     (if re_count d \<le> m then (OK, overwrite buf 0 (re_data d), re_count d) else (Err OUT_OF_RANGE, buf, m))"
proof -
  let ?q = "lr_buffer_offset lr + (raw_size ver d - length (re_data d))"
  have d: "0 < re_elem_size d" "0 < re_count d" "length (re_data d) = re_count d * re_elem_size d"
    using ok by (simp_all add: raw_ok_def)
  have d63: "re_count d * re_elem_size d < 2 ^ 63" using raw_data_small [OF ok] d by (simp add: UINT32_MAX_def)
  have c: "unat (word_of_nat (re_count d) :: u32) = re_count d"
    using raw_count_le [OF ok] raw_data_small [OF ok] by (simp add: unat_word_of_nat_u32)
  have le: "length (enc_raw ver d) = raw_size ver d" by (rule length_enc_raw [OF ok])
  have ad: "at bv ?q (re_data d)"
  proof -
    have "?q = lr_buffer_offset lr +
        length (enc_data_header ver (re_name d) (re_type d) (re_count d) (raw_size ver d))"
      using le by (simp add: enc_raw_def)
    then show ?thesis using a by (simp add: enc_raw_def at_append)
  qed
  have ch: "chunk (flat bv) ?q (re_count d * re_elem_size d) = re_data d" "?q + re_count d * re_elem_size d \<le> length (flat bv)"
    using ad d(3) by (auto simp: at_def)
  show ?thesis
    using copy_to_mem_flat [OF wf d(1,2) d63 b, of ?q] ch
    by (simp add: messageelement_reader_read_data_ex_def data_info_at [OF wf ok v a] c)
qed


section \<open>Searching in an entry\<close>

text \<open>The cursor at an element, as far as reading its data needs it.\<close>

definition at_element :: "buffer_vec \<Rightarrow> u16 \<Rightarrow> messageelement_reader \<Rightarrow> raw_element \<Rightarrow> bool" where
  "at_element bv ver lr d \<longleftrightarrow> lr_message_version lr = ver \<and> lr_buffer_count lr = length (enc_raw ver d) \<and>
     at bv (lr_buffer_offset lr) (enc_raw ver d)"

lemma begin_elements_empty:
  assumes wf: "wf_vec 1 bv" and ok: "message_entry_ok ver e" and v: "er_message_version r = ver"
    and a: "at bv (er_buffer_offset r) (enc_entry ver e)" and z: "snd e = []"
  shows "messageentry_reader_begin_read_elements bv r lr0 = (Err NO_MORE, lr0)"
proof -
  obtain info where "messageentry_reader_read_header_ex bv r zero_entry_header no_entry_info =
      (OK, seen_message_entry ver e zero_entry_header, info)"
    using read_message_entry_at [OF wf ok v a entry_room_zero] by blast
  moreover have "eh_element_count (entry_header ver e) = 0"
    using entry_header_ok(4) [OF ok] z by (simp add: unat_eq_0)
  ultimately show ?thesis
    by (simp add: messageentry_reader_begin_read_elements_def seen_message_entry_count)
qed

text \<open>
  The search in an entry finds its first element of that name and nothing else. The entry may be
  anywhere in the buffer.
\<close>

lemma find_element_at:
  assumes wf: "wf_vec 1 bv" and ok: "message_entry_ok ver e" and v: "er_message_version r = ver"
    and a: "at bv (er_buffer_offset r) (enc_entry ver e)" and cnt: "er_buffer_count r = entry_size ver e"
    and n: "nm \<noteq> []"
  shows "case find (\<lambda>d. re_name d = nm) (snd e) of
       None \<Rightarrow> \<exists>lr. messageentry_reader_find_element bv r nm lr0 = Some (Err MESSAGEELEMENT_NOT_FOUND, lr)
     | Some d \<Rightarrow> \<exists>lr. messageentry_reader_find_element bv r nm lr0 = Some (OK, lr) \<and> at_element bv ver lr d"
proof (cases "snd e")
  case Nil
  then show ?thesis
    using begin_elements_empty [OF wf ok v a Nil, of lr0]
    by (simp add: messageentry_reader_find_element_def not_found_def)
next
  case (Cons d0 ds')
  let ?o = "length (enc_open_entry ver (fst e))" and ?ds = "snd e"
  let ?q = "er_buffer_offset r + ?o"
  have lc: "length (enc_closed_entry ver (fst e) (entry_size ver e) (length ?ds)) = ?o" by (rule length_enc_closed_entry)
  have ad: "at bv ?q (enc_raws ver ?ds)" using a lc by (simp add: enc_entry_def at_append)
  obtain info where H: "messageentry_reader_read_header_ex bv r zero_entry_header no_entry_info =
      (OK, seen_message_entry ver e zero_entry_header, info)"
      "ei_header_size info = ?o" "ei_element_start_offset info = ?q"
    using read_message_entry_at [OF wf ok v a entry_room_zero] by blast
  have c: "unat (eh_element_count (seen_message_entry ver e zero_entry_header)) = length ?ds"
    using entry_header_ok(4) [OF ok] by (simp add: seen_message_entry_count)
  have small: "length ?ds + 1 < 2 ^ 63" "entry_size ver e < 2 ^ 63"
    using ok by (simp_all add: message_entry_ok_def UINT16_MAX_def UINT32_MAX_def)
  have es: "entry_size ver e = ?o + length (enc_raws ver ?ds)" by (simp add: entry_size_def)
  have rok: "\<forall>d \<in> set ?ds. raw_ok ver d" using ok by (simp add: message_entry_ok_def)
  have vv: "ver = 2 \<or> ver = 4" by (rule message_entry_ok_version [OF ok])
  have fm: "find (\<lambda>x. lh_element_name (we_header x) = nm) (map (raw_we 2) ds) =
      map_option (raw_we 2) (find (\<lambda>d. re_name d = nm) ds)"
    "find (\<lambda>x. name_we4 x = nm) (map (raw_we 4) ds) =
      map_option (raw_we 4) (find (\<lambda>d. re_name d = nm) ds)" for ds
    by (induction ds) (simp_all only: list.map find.simps raw_we_names, simp_all)
  have len: "map (raw_we v) ?ds \<noteq> []" "length (map (raw_we v) ?ds) < 2 ^ 32"
      "unat (eh_element_count (seen_message_entry ver e zero_entry_header)) = length (map (raw_we v) ?ds)" for v
    using c ok by (simp_all add: Cons message_entry_ok_def UINT16_MAX_def)
  show ?thesis
    using vv
  proof
    assume v2: "ver = 2"
    have "layout2.search_outcome ?q 0 (map (raw_we 2) ?ds) nm (messageentry_reader_find_element bv r nm lr0)"
      by (rule layout2.find_in_entry [OF wf n len(1,2) _ H(1) len(3) _ H(2,3)])
         (use rok raw_we_valid(1) v v2 cnt small ad es in \<open>auto simp: enc_raws_layout\<close>)
    then show ?thesis
      using ad
      by (auto simp: fm layout2.search_outcome_def v2 at_element_def layout2.cursor_def enc_raw_we enc_raws_layout
          dest: layout2.at_cursor(1) split: option.splits)
  next
    assume v4: "ver = 4"
    have "layout4.search_outcome ?q 0 (map (raw_we 4) ?ds) nm (messageentry_reader_find_element bv r nm lr0)"
      by (rule layout4.find_in_entry [OF wf n len(1,2) _ H(1) len(3) _ H(2,3)])
         (use rok raw_we_valid(2) v v4 cnt small ad es in \<open>auto simp: enc_raws_layout\<close>)
    then show ?thesis
      using ad
      by (auto simp: fm layout4.search_outcome_def v4 at_element_def layout4.cursor_def enc_raw_we enc_raws_layout
          dest: layout4.at_cursor(1) split: option.splits)
  qed
qed


section \<open>A client that reads a message\<close>

definition blank_reader :: message_reader where
  "blank_reader = \<lparr>mr_buffer_offset = 0, mr_buffer_count = 0, mr_message_version = 0\<rparr>"

definition blank_entry_reader :: messageentry_reader where
  "blank_entry_reader = \<lparr>er_buffer_offset = 0, er_buffer_count = 0, er_buffer_remaining = 0,
     er_entry_count_offset = 0, er_current_entry = 0, er_message_version = 0\<rparr>"

definition blank_element_reader :: messageelement_reader where
  "blank_element_reader = \<lparr>lr_buffer_offset = 0, lr_buffer_count = 0, lr_buffer_remaining = 0,
     lr_current_element = 0, lr_total_elements = 0, lr_message_version = 0\<rparr>"

definition blank_writer :: message_writer where
  "blank_writer = \<lparr>mw_buffer_offset = 0, mw_buffer_count = 0, mw_message_size_offset = 0,
     mw_entry_count_offset = 0, mw_message_version = 0\<rparr>"

text \<open>Open the message at the start of a buffer; go to its entry number \<open>k\<close>.\<close>

definition open_message :: "buffer_vec \<Rightarrow> size_t \<Rightarrow> rstring message_header \<Rightarrow> status \<times> message_reader \<times> rstring message_header" where
  "open_message bv count hdr =
     (case message_reader_init blank_reader bv 0 count of
        (Err x, r) \<Rightarrow> (Err x, r, hdr)
      | (OK, r) \<Rightarrow> message_reader_read_header bv r hdr)"

fun skip_entries :: "buffer_vec \<Rightarrow> messageentry_reader \<Rightarrow> nat \<Rightarrow> status \<times> messageentry_reader" where
  "skip_entries bv r 0 = (OK, r)"
| "skip_entries bv r (Suc k) =
     (case messageentry_reader_move_next bv r of
        (Err x, r) \<Rightarrow> (Err x, r)
      | (OK, r) \<Rightarrow> skip_entries bv r k)"

definition seek_entry :: "buffer_vec \<Rightarrow> message_reader \<Rightarrow> nat \<Rightarrow> status \<times> messageentry_reader" where
  "seek_entry bv mr k =
     (case message_reader_begin_read_entries bv mr blank_entry_reader of
        (Err x, r) \<Rightarrow> (Err x, r)
      | (OK, r) \<Rightarrow> skip_entries bv r k)"

definition read_entry_header ::
  "buffer_vec \<Rightarrow> size_t \<Rightarrow> nat \<Rightarrow> rstring messageentry_header \<Rightarrow> status \<times> rstring messageentry_header" where
  "read_entry_header bv count k hdr =
     (case open_message bv count zero_message_header of
        (Err x, _) \<Rightarrow> (Err x, hdr)
      | (OK, mr, _) \<Rightarrow>
          (case seek_entry bv mr k of
             (Err x, _) \<Rightarrow> (Err x, hdr)
           | (OK, er) \<Rightarrow> messageentry_reader_read_header bv er hdr))"

definition read_element_data ::
  "buffer_vec \<Rightarrow> size_t \<Rightarrow> nat \<Rightarrow> const_string \<Rightarrow> byte list \<Rightarrow> size_t \<Rightarrow> u16 \<Rightarrow> size_t
     \<Rightarrow> (status \<times> byte list \<times> size_t) option" where
  "read_element_data bv count k nm buf len ty es =
     (case open_message bv count zero_message_header of
        (Err x, _) \<Rightarrow> Some (Err x, buf, len)
      | (OK, mr, _) \<Rightarrow>
          (case seek_entry bv mr k of
             (Err x, _) \<Rightarrow> Some (Err x, buf, len)
           | (OK, er) \<Rightarrow>
               (case messageentry_reader_find_element bv er nm blank_element_reader of
                  None \<Rightarrow> None
                | Some (Err x, _) \<Rightarrow> Some (Err x, buf, len)
                | Some (OK, lr) \<Rightarrow> Some (messageelement_reader_read_data_ex bv lr buf len ty es))))"

lemma message_size_ge: "message_ok ver h es \<Longrightarrow> 10 \<le> message_size ver h es"
  using enc_closed_message_nonempty [of ver h] by (simp add: message_ok_def message_size_def)

lemma open_message_at:
  assumes wf: "wf_vec 1 bv" and ok: "message_ok ver h es" and a: "at bv 0 (enc_message ver h es)"
    and n: "message_size ver h es + slack \<le> length (flat bv)" and room: "header_room hdr h"
  shows "open_message bv (message_size ver h es + slack) hdr =
     (OK, \<lparr>mr_buffer_offset = 0, mr_buffer_count = message_size ver h es + slack, mr_message_version = ver\<rparr>,
      seen_message ver h (message_size ver h es) (length es) (hdr\<lparr>mh_message_version := ver\<rparr>))"
proof -
  let ?n = "message_size ver h es"
  have fits: "message_fits ver h" and nm: "?n \<le> UINT32_MAX" using ok by (simp_all add: message_ok_def)
  have a1: "at bv 0 (enc_closed_message ver h ?n (length es))"
    using a by (simp add: enc_message_def at_append)
  obtain rest where e: "enc_closed_message ver h ?n (length es) = rrac_magic @ u32_bytes (word_of_nat ?n) @ rest"
    by (rule open_closed_message [OF fits]) (metis (no_types, lifting))
  have am: "at bv 0 rrac_magic" "at bv 4 (u32_bytes (word_of_nat ?n))" using a1 by (simp_all add: e at_append)
  have small: "?n + slack < 2 ^ 63" using wf_vec_flat_lt [OF wf] n by simp
  have c1: "buffer_vec_copy_to_uint8_array bv 0 (replicate 4 0) 4 0 4 = (OK, rrac_magic)"
    using copy_to_mem_flat [OF wf, of 1 4 "replicate 4 0" 4 0] am(1)
    by (auto simp: buffer_vec_copy_to_uint8_array_def at_def overwrite_def)
  have c2: "buffer_vec_copy_to_uint32 bv 4 = Inr (word_of_nat ?n)"
    using copy_to_scalar_at [OF wf am(2), of 4] by (simp add: buffer_vec_copy_to_uint32_def)
  have I: "message_reader_init blank_reader bv 0 (?n + slack) =
      (OK, blank_reader\<lparr>mr_buffer_offset := 0, mr_buffer_count := ?n + slack\<rparr>)"
    using n small message_size_ge [OF ok] wf
    by (simp add: message_reader_init_def c1 c2 sz_add_nowrap unat_word_of_nat_u32 [OF nm])
  have sv: "mh_message_version (seen_message ver h ?n (length es) x) = ver" for x
    using message_fits_version [OF fits] by (auto simp: seen_message_def seen_header2_def seen_header4_def Let_def)
  obtain info where "message_reader_read_header_ex bv (blank_reader\<lparr>mr_buffer_offset := 0, mr_buffer_count := ?n + slack\<rparr>) hdr
      \<lparr>mi_start_buffer_offset = 0, mi_header_size = 0, mi_entry_count_offset = 0, mi_entry_start_offset = 0\<rparr> =
      (OK, seen_message ver h ?n (length es) (hdr\<lparr>mh_message_version := ver\<rparr>), info)"
    using read_message_header_at [OF wf ok, of "blank_reader\<lparr>mr_buffer_offset := 0, mr_buffer_count := ?n + slack\<rparr>" ?n hdr] a1 room
    by auto
  then show ?thesis
    by (simp add: open_message_def I message_reader_read_header_def sv)
qed

lemma skip_entries_at:
  assumes wf: "wf_vec 1 bv" and ok: "message_ok ver h (before @ e # after)"
    and a: "at bv 0 (enc_message ver h (before @ e # after))"
    and small: "length (enc_entries ver after) + slack < 2 ^ 63" and p: "p = length (enc_open_message ver h)"
    and pl: "pl = (if count_has_place ver h then count_place ver h else SIZE_T_MAX)" and k: "k \<le> length after"
  shows "skip_entries bv (entry_cursor ver p pl slack before e after) k =
     (OK, entry_cursor ver p pl slack (before @ take k (e # after)) ((e # after) ! k) (drop k after))"
  using ok a small k
proof (induction k arbitrary: before e after)
  case 0
  then show ?case by simp
next
  case (Suc k)
  obtain e' after' where af: "after = e' # after'" using Suc.prems(4) by (cases after) auto
  have c: "count_has_place ver h" using Suc.prems(1) by (auto simp: message_ok_def af)
  have m: "messageentry_reader_move_next bv (entry_cursor ver p pl slack before e after) =
      (OK, entry_cursor ver p pl slack (before @ [e]) e' after')"
    using move_next_entry_at [OF wf _ _ _ p, of before e e' after' slack] Suc.prems pl c by (simp add: af)
  have "skip_entries bv (entry_cursor ver p pl slack (before @ [e]) e' after') k =
     (OK, entry_cursor ver p pl slack ((before @ [e]) @ take k (e' # after')) ((e' # after') ! k) (drop k after'))"
    using Suc.prems by (intro Suc.IH) (auto simp: af)
  then show ?case using m by (simp add: af)
qed


lemma seek_entry_at:
  assumes wf: "wf_vec 1 bv" and ok: "message_ok ver h es" and a: "at bv 0 (enc_message ver h es)"
    and n: "message_size ver h es + slack < 2 ^ 63" and k: "k < length es"
  shows "\<exists>place. seek_entry bv \<lparr>mr_buffer_offset = 0, mr_buffer_count = message_size ver h es + slack, mr_message_version = ver\<rparr> k =
     (OK, entry_cursor ver (length (enc_open_message ver h)) place slack (take k es) (es ! k) (drop (Suc k) es))"
proof -
  let ?mr = "\<lparr>mr_buffer_offset = 0, mr_buffer_count = message_size ver h es + slack, mr_message_version = ver\<rparr>"
  let ?p = "length (enc_open_message ver h)"
  let ?pl = "if count_has_place ver h then count_place ver h else SIZE_T_MAX"
  obtain e after where es: "es = e # after" using k by (cases es) auto
  have B: "message_reader_begin_read_entries bv ?mr blank_entry_reader = (OK, entry_cursor ver ?p ?pl slack [] e after)"
    by (rule begin_entries_at [OF wf ok [unfolded es] a [unfolded es]]) (use n in \<open>simp_all add: es\<close>)
  have "skip_entries bv (entry_cursor ver ?p ?pl slack [] e after) k =
     (OK, entry_cursor ver ?p ?pl slack ([] @ take k (e # after)) ((e # after) ! k) (drop k after))"
    using ok a n k by (intro skip_entries_at [OF wf]) (auto simp: es message_size_def)
  then show ?thesis using B by (auto simp: seek_entry_def es)
qed

text \<open>Every entry of a written message can be reached.\<close>

lemma entry_reached:
  assumes wf: "wf_vec 1 bv" and ok: "message_ok ver h es" and a: "at bv 0 (enc_message ver h es)"
    and n: "message_size ver h es + slack \<le> length (flat bv)" and k: "k < length es"
  shows "\<exists>mr hdr er. open_message bv (message_size ver h es + slack) zero_message_header = (OK, mr, hdr) \<and>
     seek_entry bv mr k = (OK, er) \<and> er_message_version er = ver \<and> er_buffer_count er = entry_size ver (es ! k) \<and>
     at bv (er_buffer_offset er) (enc_entry ver (es ! k)) \<and> message_entry_ok ver (es ! k)"
proof -
  let ?p = "length (enc_open_message ver h)"
  have small: "message_size ver h es + slack < 2 ^ 63" using wf_vec_flat_lt [OF wf] n by simp
  have fits: "message_fits ver h" and eok: "message_entry_ok ver (es ! k)" using ok k by (simp_all add: message_ok_def)
  have "at bv ?p (enc_entries ver es)"
    using a length_enc_closed_message [OF fits] by (simp add: enc_message_def at_append)
  then have "at bv ?p (enc_entries ver (take k es @ es ! k # drop (Suc k) es))"
    using k by (simp add: id_take_nth_drop [symmetric])
  then have "at bv (?p + length (enc_entries ver (take k es))) (enc_entry ver (es ! k))" by (rule at_entries(1))
  then show ?thesis
    using open_message_at [OF wf ok a n header_room_zero] seek_entry_at [OF wf ok a small k] eok
    by (auto simp: entry_cursor_def)
qed


section \<open>Properties\<close>

definition entry_got ::
  "rstring messageentry_header \<Rightarrow> rstring messageentry_header \<Rightarrow> const_string messageentry_header \<Rightarrow> bool" where
  "entry_got given got h \<longleftrightarrow>
     eh_entry_type got = eh_entry_type h \<and> eh_request_id got = eh_request_id h \<and> eh_error got = eh_error h \<and>
     string_got (eh_service_path given) (eh_service_path got) (eh_service_path h) \<and>
     string_got (eh_member_name given) (eh_member_name got) (eh_member_name h) \<and>
     string_got (eh_metadata given) (eh_metadata got) (eh_metadata h)"

lemma seen_entry_got:
  assumes "message_entry_ok ver e"
  shows "entry_got hdr (seen_message_entry ver e hdr) (fst e)"
    and "ver = 4 \<Longrightarrow> eh_service_path_code (seen_message_entry ver e hdr) = eh_service_path_code (fst e)"
    and "ver = 4 \<Longrightarrow> eh_member_name_code (seen_message_entry ver e hdr) = 0"
  using message_entry_ok_version [OF assms]
  by (auto simp: entry_got_def seen_message_entry_def seen_entry2_def seen_entry4_def entry_header_def closed_entry_def
      entry_write4_flags_check)

text \<open>A message written at the start of a buffer, and what the buffer holds then.\<close>

lemma message_written:
  assumes wf: "wf_vec 1 bv" and ok: "message_ok ver h es" and i: "message_writer_init blank_writer bv 0 n ver = (OK, mw)"
    and n: "message_size ver h es \<le> n" "n \<le> length (flat bv)"
  shows "\<exists>bv' h'. write_message bv mw h es = (OK, bv', h') \<and> unat (mh_message_size h') = message_size ver h es \<and>
     unat (mh_entry_count h') = length es \<and> wf_vec 1 bv' \<and> length (flat bv') = length (flat bv) \<and>
     at bv' 0 (enc_message ver h es)"
proof -
  have mw: "mw_message_version mw = ver" "mw_buffer_offset mw = 0"
    using i by (auto simp: message_writer_init_def split: if_splits)
  have l: "length (enc_message ver h es) = message_size ver h es" by (rule length_enc_message [OF ok])
  have room: "0 + length (enc_message ver h es) \<le> length (flat bv)" using n l by simp
  have u: "message_size ver h es \<le> UINT32_MAX" "length es \<le> UINT32_MAX"
    using ok by (simp_all add: message_ok_def UINT16_MAX_def UINT32_MAX_def)
  have "write_message bv mw h es = (OK, put_flat bv 0 (enc_message ver h es),
     h\<lparr>mh_header_size := word_of_nat (length (enc_open_message ver h)),
       mh_message_size := word_of_nat (message_size ver h es), mh_entry_count := word_of_nat (length es)\<rparr>)"
    using write_message_at [OF wf mw(1) [symmetric] ok] n mw(2) by simp
  then show ?thesis
    using at_put_flat [OF room] wf room u by (auto simp: unat_word_of_nat_u32)
qed

text \<open>A message of two entries, the first with two elements, for the witnesses.\<close>

definition sample_element :: "byte list \<Rightarrow> raw_element" where
  "sample_element d = \<lparr>re_name = [118, 49], re_type = 4, re_count = length d, re_elem_size = 1, re_data = d\<rparr>"

definition sample_entry :: "const_string messageentry_header" where
  "sample_entry =
     \<lparr>eh_entry_size = 0, eh_entry_flags = 0, eh_entry_type = 1121, eh_service_path = [115, 46, 97],
      eh_service_path_code = 0, eh_member_name = [109], eh_member_name_code = 0, eh_request_id = 77,
      eh_error = 3, eh_metadata = [], eh_element_count = 0\<rparr>"

definition sample_message :: "message_entry list" where
  "sample_message =
     [(sample_entry, [(sample_element [5])\<lparr>re_name := [118, 48]\<rparr>, sample_element [6, 7, 8]]),
      (sample_entry\<lparr>eh_member_name := []\<rparr>, [])]"

lemma sample_elements_ok:
  "raw_ok ver (sample_element [6, 7, 8])" "raw_ok ver ((sample_element [5])\<lparr>re_name := [118, 48]\<rparr>)"
  if "ver = 2 \<or> ver = 4"
  using that by (auto simp: raw_ok_def sample_element_def raw_body4_def UINT16_MAX_def UINT32_MAX_def
      message_uint_x_size_def)

lemma sample_entries_ok: "ver = 2 \<or> ver = 4 \<Longrightarrow> entry_ok ver sample_entry \<and> entry_ok ver (sample_entry\<lparr>eh_member_name := []\<rparr>)"
  by (auto simp: entry_ok_def entry2_ok_def entry4_ok_def open_entry_def sample_entry_def str2_ok_def str4_ok_def
      UINT16_MAX_def UINT32_MAX_def)

lemma sample_entry_sizes:
  assumes "ver = 2 \<or> ver = 4" and "e \<in> set sample_message"
  shows "entry_size ver e \<le> 100"
  using assms sample_elements_ok [OF assms(1)]
  by (auto simp: entry_size_def sample_message_def length_enc_raw enc_open_entry_def enc_entry4_def
    enc_entry4_sections_def entry_write4_flags_check open_entry_def sample_entry_def length_enc_uint_as
    raw_size_def raw_body4_def sample_element_def message_len_plus_uint_x_def message_uint_x_size_def)

lemma sample_message_length: "length sample_message = 2"
  by (simp add: sample_message_def)

lemma sample_count: "mh_entry_count sample_header = 2"
  by (simp add: sample_header_def)

lemma sample_message_ok:
  assumes v: "ver = 2 \<or> ver = 4"
  shows "message_ok ver sample_header sample_message" and "message_size ver sample_header sample_message \<le> 300"
proof -
  have fits: "message_fits ver sample_header" using v sample_header_ok(1,2) by (auto simp: message_fits_def)
  have s: "message_size ver sample_header sample_message \<le> 300"
    using sample_entry_sizes [OF v, of "sample_message ! 0"] sample_entry_sizes [OF v, of "sample_message ! 1"]
      v sample_header_sizes
    by (auto simp: message_size_def length_enc_entry enc_open_message_def sample_message_def)
  show "message_size ver sample_header sample_message \<le> 300" by (rule s)
  have e: "message_entry_ok ver e" if "e \<in> set sample_message" for e
    using sample_entry_sizes [OF v that] sample_elements_ok [OF v] sample_entries_ok [OF v] that
    by (auto simp: message_entry_ok_def sample_message_def UINT16_MAX_def UINT32_MAX_def)
  show "message_ok ver sample_header sample_message"
    using fits s e v by (auto simp: message_ok_def UINT16_MAX_def UINT32_MAX_def sample_message_length
        count_has_place_def sample_count)
qed

lemma sample_init:
  "message_writer_init blank_writer (blank_vec2 100 200) 0 300 ver =
     (OK, blank_writer\<lparr>mw_buffer_count := 300, mw_message_version := ver\<rparr>)"
  by (simp add: message_writer_init_def blank_writer_def sz_add_nowrap wf_blank2 buffer_vec_len_bytes [OF wf_blank2])

text \<open>
  C20. Whatever a client wrote into a message is found again under its name: it goes to an entry by
  its number and searches an element by its name; if the entry has elements of that name, the reader
  delivers the bytes that were written for the first of them, or refuses a destination that is too
  small, and if the entry has none, it says so. The size and the number of entries in the header are
  those of what was written. This holds for both versions and for buffers of any number of segments.
\<close>

theorem message_data_roundtrip:
  assumes "wf_vec 1 bv" and "message_ok ver h es" and "message_writer_init blank_writer bv 0 n ver = (OK, mw)"
    and "message_size ver h es \<le> n" and "n \<le> length (flat bv)"
    and "k < length es" and "nm \<noteq> []" and "length buf = len * sz" and "length buf < 2 ^ 63"
  shows "\<exists>bv' h'. write_message bv mw h es = (OK, bv', h') \<and>
    unat (mh_message_size h') = message_size ver h es \<and> unat (mh_entry_count h') = length es \<and>
    (case find (\<lambda>d. re_name d = nm) (snd (es ! k)) of
       None \<Rightarrow> read_element_data bv' n k nm buf len ty sz = Some (Err MESSAGEELEMENT_NOT_FOUND, buf, len)
     | Some d \<Rightarrow> ty = re_type d \<longrightarrow> sz = re_elem_size d \<longrightarrow>
         read_element_data bv' n k nm buf len ty sz =
           Some (if re_count d \<le> len then (OK, overwrite buf 0 (re_data d), re_count d)
                 else (Err OUT_OF_RANGE, buf, len)))"
proof -
  obtain bv' h' where W: "write_message bv mw h es = (OK, bv', h')" "unat (mh_message_size h') = message_size ver h es"
    "unat (mh_entry_count h') = length es" "wf_vec 1 bv'" "length (flat bv') = length (flat bv)"
    "at bv' 0 (enc_message ver h es)"
    using message_written [OF assms(1-5)] by blast
  have n: "message_size ver h es + (n - message_size ver h es) = n" using assms(4) by simp
  obtain mr hdr er where R: "open_message bv' n zero_message_header = (OK, mr, hdr)"
     "seek_entry bv' mr k = (OK, er)" "er_message_version er = ver" "er_buffer_count er = entry_size ver (es ! k)"
     "at bv' (er_buffer_offset er) (enc_entry ver (es ! k))" "message_entry_ok ver (es ! k)"
    using entry_reached [OF W(4) assms(2) W(6), of "n - message_size ver h es" k] assms(5,6) W(5) unfolding n by auto
  note F = find_element_at [OF W(4) R(6,3,5,4) assms(7), of blank_element_reader]
  show ?thesis
  proof (cases "find (\<lambda>d. re_name d = nm) (snd (es ! k))")
    case None
    then show ?thesis using W F by (auto simp: read_element_data_def R)
  next
    case (Some d)
    have "d \<in> set (snd (es ! k))" using Some by (auto simp: find_Some_iff)
    then have ok: "raw_ok ver d" using R(6) by (simp add: message_entry_ok_def)
    obtain lr where L: "messageentry_reader_find_element bv' er nm blank_element_reader = Some (OK, lr)"
      "at_element bv' ver lr d" using F Some by auto
    show ?thesis
      using W L read_data_at [OF W(4) ok _ _ _ assms(9), of lr len] assms(8)
      by (auto simp: read_element_data_def R Some at_element_def)
  qed
qed

lemma message_data_roundtrip_witness:
  "\<exists>bv' h'. write_message (blank_vec2 100 200) (blank_writer\<lparr>mw_buffer_count := 300, mw_message_version := 4\<rparr>)
       sample_header sample_message = (OK, bv', h') \<and>
     read_element_data bv' 300 0 [118, 49] (replicate 5 0) 5 4 1 = Some (OK, [6, 7, 8, 0, 0], 3) \<and>
     unat (mh_entry_count h') = 2"
proof -
  have wf: "wf_vec 1 (blank_vec2 100 200)" by (rule wf_blank2) simp
  have f: "find (\<lambda>d. re_name d = [118, 49]) (snd (sample_message ! 0)) = Some (sample_element [6, 7, 8])"
    by (simp add: sample_message_def sample_element_def)
  let ?mw = "blank_writer\<lparr>mw_buffer_count := 300, mw_message_version := 4\<rparr>"
  let ?w = "write_message (blank_vec2 100 200) ?mw sample_header sample_message"
  have l: "0 < length sample_message" by (simp add: sample_message_length)
  have "\<exists>bv' h'. ?w = (OK, bv', h') \<and> unat (mh_message_size h') = message_size 4 sample_header sample_message \<and>
     unat (mh_entry_count h') = length sample_message \<and>
     (case find (\<lambda>d. re_name d = [118, 49]) (snd (sample_message ! 0)) of
        None \<Rightarrow> read_element_data bv' 300 0 [118, 49] (replicate 5 0) 5 4 1 =
                  Some (Err MESSAGEELEMENT_NOT_FOUND, replicate 5 0, 5)
      | Some d \<Rightarrow> 4 = re_type d \<longrightarrow> 1 = re_elem_size d \<longrightarrow>
         read_element_data bv' 300 0 [118, 49] (replicate 5 0) 5 4 1 =
           Some (if re_count d \<le> 5 then (OK, overwrite (replicate 5 0) 0 (re_data d), re_count d)
                 else (Err OUT_OF_RANGE, replicate 5 0, 5)))"
    by (rule message_data_roundtrip [OF wf sample_message_ok(1) sample_init sample_message_ok(2) _ l]) simp_all
  then show ?thesis
    unfolding f by (elim exE conjE)
       (simp add: sample_element_def overwrite_def sample_message_length, simp add: eval_nat_numeral)
qed

text \<open>The header of an entry of a written message, as the client reads it.\<close>

lemma entry_header_read:
  assumes "wf_vec 1 bv" and "message_ok ver h es" and "message_writer_init blank_writer bv 0 n ver = (OK, mw)"
    and "message_size ver h es \<le> n" and "n \<le> length (flat bv)"
    and "k < length es" and "entry_room hdr (fst (es ! k))"
  shows "\<exists>bv' h'. write_message bv mw h es = (OK, bv', h') \<and> message_entry_ok ver (es ! k) \<and>
    read_entry_header bv' n k hdr = (OK, seen_message_entry ver (es ! k) hdr)"
proof -
  obtain bv' h' where W: "write_message bv mw h es = (OK, bv', h')" "wf_vec 1 bv'" "length (flat bv') = length (flat bv)"
    "at bv' 0 (enc_message ver h es)"
    using message_written [OF assms(1-5)] by blast
  have n: "message_size ver h es + (n - message_size ver h es) = n" using assms(4) by simp
  obtain mr mh er where R: "open_message bv' n zero_message_header = (OK, mr, mh)"
     "seek_entry bv' mr k = (OK, er)" "er_message_version er = ver"
     "at bv' (er_buffer_offset er) (enc_entry ver (es ! k))" "message_entry_ok ver (es ! k)"
    using entry_reached [OF W(2) assms(2) W(4), of "n - message_size ver h es" k] assms(5,6) W(3) unfolding n by auto
  obtain info where "messageentry_reader_read_header_ex bv' er hdr no_entry_info =
      (OK, seen_message_entry ver (es ! k) hdr, info)"
    using read_message_entry_at [OF W(2) R(5,3,4) assms(7)] by blast
  then have "read_entry_header bv' n k hdr = (OK, seen_message_entry ver (es ! k) hdr)"
    by (simp add: read_entry_header_def R(1,2) messageentry_reader_read_header_def)
  then show ?thesis using W(1) R(5) by simp
qed

text \<open>
  The header of every entry of a written message is read back by its number, with the strings,
  the request and the error of the entry; and its element count is the number of elements written.
\<close>

theorem message_entries_roundtrip:
  assumes "wf_vec 1 bv" and "message_ok ver h es" and "message_writer_init blank_writer bv 0 n ver = (OK, mw)"
    and "message_size ver h es \<le> n" and "n \<le> length (flat bv)"
    and "k < length es" and "entry_room hdr (fst (es ! k))"
  shows "\<exists>bv' h' hdr'. write_message bv mw h es = (OK, bv', h') \<and>
    read_entry_header bv' n k hdr = (OK, hdr') \<and> entry_got hdr hdr' (fst (es ! k)) \<and>
    unat (eh_element_count hdr') = length (snd (es ! k))"
  using entry_header_read [OF assms] seen_entry_got(1) entry_header_ok(4)
  by (fastforce simp: seen_message_entry_count)

lemma message_entries_roundtrip_witness:
  "\<exists>bv' h' hdr'. write_message (blank_vec2 100 200) (blank_writer\<lparr>mw_buffer_count := 300, mw_message_version := 2\<rparr>)
       sample_header sample_message = (OK, bv', h') \<and>
     read_entry_header bv' 300 1 zero_entry_header = (OK, hdr') \<and> eh_request_id hdr' = 77 \<and> eh_element_count hdr' = 0"
proof -
  have wf: "wf_vec 1 (blank_vec2 100 200)" by (rule wf_blank2) simp
  show ?thesis
    using message_entries_roundtrip [OF wf sample_message_ok(1) sample_init, of 2 1 zero_entry_header]
      sample_message_ok(2) [of 2]
    by (auto simp: sample_message_def entry_got_def unat_eq_0) (auto simp: sample_entry_def)
qed

end
