(* ===== verification/RRL_WalkSpec.thy ===== *)
theory RRL_WalkSpec
  imports RRL_MessageSpec
begin

text \<open>
  Properties of the cursors of src/message.c: a search returns on any bytes, a cursor stays in the
  window of the item it was started in, searches among nested elements and checked searches have the
  outcome the contents ask for. Then what modelling the message routines showed of their limits.
\<close>


section \<open>Arbitrary bytes\<close>

text \<open>
  C34. Whatever bytes a message holds, the search of an element by name returns, in an entry and
  among the elements nested in an element: it never loops on the cursor.
\<close>

theorem find_element_returns:
  "(\<exists>st r. messageentry_reader_find_element bv er name r0 = Some (st, r)) \<and>
   (\<exists>st r. messageelement_reader_find_nested_element bv lr name r0 = Some (st, r))"
  using find_element_total [of bv er name r0] find_nested_element_total [of bv lr name r0] by auto

text \<open>The cursors that moving on reaches from a cursor.\<close>

inductive element_walk :: "buffer_vec \<Rightarrow> messageelement_reader \<Rightarrow> messageelement_reader \<Rightarrow> bool" for bv r where
  stay: "element_walk bv r r"
| move: "element_walk bv r r' \<Longrightarrow> messageelement_reader_move_next bv r' = (OK, r'') \<Longrightarrow> element_walk bv r r''"

text \<open>The end of the window of a cursor: the bytes it may still enter.\<close>

definition window_end :: "messageelement_reader \<Rightarrow> nat" where
  "window_end r = lr_buffer_offset r + lr_buffer_count r + lr_buffer_remaining r"

lemma move_next_window:
  assumes "messageelement_reader_move_next bv r = (OK, r')" and "window_end r < 2 ^ 64"
    and "lr_total_elements r < 2 ^ 63" and "lr_current_element r < lr_total_elements r"
  shows "window_end r' = window_end r" and "lr_buffer_offset r' = lr_buffer_offset r + lr_buffer_count r"
    and "lr_current_element r' = Suc (lr_current_element r)" and "lr_total_elements r' = lr_total_elements r"
    and "lr_current_element r' < lr_total_elements r'"
proof -
  have s: "sz_add (lr_current_element r) 1 = Suc (lr_current_element r)"
    "sz_add (lr_buffer_offset r) (lr_buffer_count r) = lr_buffer_offset r + lr_buffer_count r"
    using assms by (simp_all add: sz_add_nowrap window_end_def)
  have rem: "lr_buffer_remaining r < 2 ^ 64" using assms(2) by (simp add: window_end_def)
  obtain n q where m: "message_read_count (lr_message_version r) bv (lr_buffer_offset r + lr_buffer_count r) = Inr (n, q)"
    "\<not> lr_buffer_remaining r < unat n" "Suc (lr_current_element r) < lr_total_elements r"
    "r' = r\<lparr>lr_buffer_offset := lr_buffer_offset r + lr_buffer_count r, lr_buffer_count := unat n,
            lr_buffer_remaining := sz_sub (lr_buffer_remaining r) (unat n),
            lr_current_element := Suc (lr_current_element r)\<rparr>"
    using assms(1) s
    by (auto simp: messageelement_reader_move_next_def Let_def split: if_splits sum.splits prod.splits)
  have "sz_sub (lr_buffer_remaining r) (unat n) = lr_buffer_remaining r - unat n"
    using m(2) rem by (simp add: sz_sub_nowrap)
  then show "window_end r' = window_end r" "lr_buffer_offset r' = lr_buffer_offset r + lr_buffer_count r"
    "lr_current_element r' = Suc (lr_current_element r)" "lr_total_elements r' = lr_total_elements r"
    "lr_current_element r' < lr_total_elements r'"
    using m(2,3) by (simp_all add: m(4) window_end_def)
qed

text \<open>
  However often a cursor is moved on over arbitrary bytes, it stays in the window it started
  with: the end of the window does not move, the cursor only goes forward, and it moves once per
  element at most.
\<close>

theorem element_walk_window:
  assumes "element_walk bv r r'" and "window_end r < 2 ^ 64"
    and "lr_total_elements r < 2 ^ 63" and "lr_current_element r < lr_total_elements r"
  shows "window_end r' = window_end r \<and> lr_buffer_offset r \<le> lr_buffer_offset r' \<and>
     lr_current_element r \<le> lr_current_element r' \<and> lr_current_element r' < lr_total_elements r \<and>
     lr_total_elements r' = lr_total_elements r"
  using assms
proof (induction rule: element_walk.induct)
  case stay
  then show ?case by simp
next
  case (move r' r'')
  note m = move_next_window [OF move.hyps(2)]
  show ?case using move m by auto
qed

lemma element_walk_window_witness:
  "\<exists>r'. messageelement_reader_move_next (put_flat (blank_vec2 4 6) 4 [3, 0, 0])
         (blank_element_reader\<lparr>lr_buffer_count := 4, lr_buffer_remaining := 5, lr_total_elements := 2,
            lr_message_version := 4\<rparr>) = (OK, r') \<and> window_end r' = 9 \<and> lr_buffer_offset r' = 4"
proof -
  let ?bv = "put_flat (blank_vec2 4 6) 4 [3, 0, 0]"
  let ?r = "blank_element_reader\<lparr>lr_buffer_count := 4, lr_buffer_remaining := 5, lr_total_elements := 2,
            lr_message_version := 4\<rparr>"
  have wf0: "wf_vec 1 (blank_vec2 4 6)" by (rule wf_blank2) simp
  have fit: "4 + length [3, 0, 0 :: byte] \<le> length (flat (blank_vec2 4 6))" by simp
  have wf: "wf_vec 1 ?bv" using wf0 fit by simp
  have "at ?bv 4 ([3] @ [0, 0])" using at_put_flat [OF fit] by simp
  then have "at ?bv 4 (enc_uint_as 1 3)" unfolding at_append by (simp add: enc_uint_as_def)
  then have c: "message_read_count 4 ?bv 4 = Inr (3, 5)"
    using uint_as.rd_at [OF wf, where v = 3 and w = 1 and p = 4]
    by (simp add: message_read_count_def uint_width_ok_def length_enc_uint_as)
  let ?r' = "?r\<lparr>lr_buffer_offset := 4, lr_buffer_count := 3, lr_buffer_remaining := 2, lr_current_element := 1\<rparr>"
  have m: "messageelement_reader_move_next ?bv ?r = (OK, ?r')"
    using c by (simp add: messageelement_reader_move_next_def blank_element_reader_def Let_def sz_add_nowrap sz_sub_nowrap)
  then have "window_end ?r' = window_end ?r"
    using element_walk_window [OF element_walk.move [OF element_walk.stay m]]
    by (simp add: blank_element_reader_def window_end_def)
  then show ?thesis using m by (auto simp: blank_element_reader_def window_end_def)
qed


section \<open>Searches that are checked\<close>

text \<open>A checked search in an entry of plain data, for any check of the header.\<close>

lemma read_element_at:
  assumes wf: "wf_vec 1 bv" and ok: "raw_ok ver d" and a: "at_element bv ver lr d"
  shows "\<exists>hdr. messageelement_reader_read_header bv lr zero_element_header = (OK, hdr) \<and>
     lh_element_type hdr = re_type d \<and> unat (lh_data_count hdr) = re_count d"
proof -
  have c: "unat (lh_data_count (raw_header ver d)) = re_count d" "lh_element_type (raw_header ver d) = re_type d"
    using raw_count_le [OF ok] raw_data_small [OF ok]
    by (simp_all add: raw_header_def data_element_def unat_word_of_nat_u32)
  have "ver = 2 \<or> ver = 4" using ok by (auto simp: raw_ok_def split: if_splits)
  then show ?thesis
  proof
    assume "ver = 2"
    then show ?thesis
      using layout2.read_at [OF wf raw_we_valid(1) [OF ok], of lr no_element_info] a c
      by (simp add: at_element_def enc_raw_we messageelement_reader_read_header_def seen_element2_def)
  next
    assume "ver = 4"
    then show ?thesis
      using layout4.read_at [OF wf raw_we_valid(2) [OF ok], of lr no_element_info] a c
      by (simp add: at_element_def enc_raw_we messageelement_reader_read_header_def seen_element4_def)
  qed
qed

lemma verified_find_at:
  assumes wf: "wf_vec 1 bv" and ok: "message_entry_ok ver e" and v: "er_message_version r = ver"
    and a: "at bv (er_buffer_offset r) (enc_entry ver e)" and cnt: "er_buffer_count r = entry_size ver e"
    and n: "nm \<noteq> []"
  obtains (none) lr where "find (\<lambda>d. re_name d = nm) (snd e) = None"
      "\<forall>chk. after_find bv chk (messageentry_reader_find_element bv r nm lr0) = Some (Err MESSAGEELEMENT_NOT_FOUND, lr)"
    | (some) d lr hdr where "find (\<lambda>d. re_name d = nm) (snd e) = Some d" "at_element bv ver lr d"
      "\<forall>chk. after_find bv chk (messageentry_reader_find_element bv r nm lr0) = Some (chk hdr, lr)"
      "lh_element_type hdr = re_type d" "unat (lh_data_count hdr) = re_count d" "re_count d \<le> UINT32_MAX"
proof (cases "find (\<lambda>d. re_name d = nm) (snd e)")
  case None
  then show thesis
    using find_element_at [OF assms, of lr0] none by (auto simp: after_find_def)
next
  case (Some d)
  have "d \<in> set (snd e)" using Some by (auto simp: find_Some_iff)
  then have rok: "raw_ok ver d" using ok by (simp add: message_entry_ok_def)
  have c: "re_count d \<le> UINT32_MAX" using raw_count_le [OF rok] raw_data_small [OF rok] by simp
  obtain lr where l: "messageentry_reader_find_element bv r nm lr0 = Some (OK, lr)" "at_element bv ver lr d"
    using find_element_at [OF assms, of lr0] Some by auto
  obtain hdr where "messageelement_reader_read_header bv lr zero_element_header = (OK, hdr)"
     "lh_element_type hdr = re_type d" "unat (lh_data_count hdr) = re_count d"
    using read_element_at [OF wf rok l(2)] by blast
  then show thesis by (intro some [OF Some l(2), of hdr]) (simp_all add: after_find_def l c)
qed

definition checked_status :: "u16 \<Rightarrow> (nat \<Rightarrow> status) \<Rightarrow> raw_element option \<Rightarrow> status" where
  "checked_status ty count_status found =
     (case found of
        None \<Rightarrow> Err MESSAGEELEMENT_NOT_FOUND
      | Some d \<Rightarrow> if re_type d \<noteq> ty then Err MESSAGEELEMENT_TYPE_MISMATCH else count_status (re_count d))"

text \<open>
  The checked searches in an entry of plain data: an element that is missing is reported as not
  found; one of another type as a mismatch; a scalar must have one item, an array of fixed length the
  expected number, and an array of variable length or a string at most the expected number. In every
  other case the search succeeds and the cursor is at the first element of that name.
\<close>

theorem find_element_verified:
  assumes "wf_vec 1 bv" and "message_entry_ok ver e" and "er_message_version r = ver"
    and "at bv (er_buffer_offset r) (enc_entry ver e)" and "er_buffer_count r = entry_size ver e"
    and "nm \<noteq> []" and found: "found = find (\<lambda>d. re_name d = nm) (snd e)"
  shows "\<exists>lr. (\<forall>d. found = Some d \<longrightarrow> at_element bv ver lr d) \<and>
    messageentry_reader_find_element_verify_scalar bv r nm lr0 ty =
      Some (checked_status ty (\<lambda>n. if n = 1 then OK else Err MESSAGEELEMENT_TYPE_MISMATCH) found, lr) \<and>
    messageentry_reader_find_element_verify_array bv r nm lr0 ty len False =
      Some (checked_status ty (\<lambda>n. if n = unat len then OK else Err MESSAGEELEMENT_TYPE_MISMATCH) found, lr) \<and>
    messageentry_reader_find_element_verify_array bv r nm lr0 ty len True =
      Some (checked_status ty (\<lambda>n. if n \<le> unat len then OK else Err OUT_OF_RANGE) found, lr) \<and>
    messageentry_reader_find_element_verify_string bv r nm lr0 len =
      Some (checked_status DATATYPE_STRING (\<lambda>n. if n \<le> unat len then OK else Err OUT_OF_RANGE) found, lr)"
proof (rule verified_find_at [OF assms(1-6), of lr0])
  fix lr
  assume "find (\<lambda>d. re_name d = nm) (snd e) = None"
    "\<forall>chk. after_find bv chk (messageentry_reader_find_element bv r nm lr0) = Some (Err MESSAGEELEMENT_NOT_FOUND, lr)"
  then show ?thesis
    by (simp add: found checked_status_def messageentry_reader_find_element_verify_scalar_def
        messageentry_reader_find_element_verify_array_def messageentry_reader_find_element_verify_string_def)
next
  fix d lr hdr
  assume d: "find (\<lambda>d. re_name d = nm) (snd e) = Some d" "at_element bv ver lr d"
    and f: "\<forall>chk. after_find bv chk (messageentry_reader_find_element bv r nm lr0) = Some (chk hdr, lr)"
    and h: "lh_element_type hdr = re_type d" "unat (lh_data_count hdr) = re_count d"
  have o: "lh_data_count hdr = 1 \<longleftrightarrow> re_count d = 1" "lh_data_count hdr = len \<longleftrightarrow> re_count d = unat len"
    "lh_data_count hdr > len \<longleftrightarrow> re_count d > unat len"
    by (simp_all add: word_unat_eq_iff word_less_nat_alt h(2))
  show ?thesis
    using d(2) f
    by (simp add: found d(1) checked_status_def messageentry_reader_find_element_verify_scalar_def
        messageentry_reader_find_element_verify_array_def messageentry_reader_find_element_verify_string_def
        check_scalar_def check_array_def check_string_def h(1) o not_le)
qed

lemma find_element_verified_witness:
  "\<exists>lr. messageentry_reader_find_element_verify_array (put_flat (blank_vec2 30 140) 3 (enc_entry 4 (sample_message ! 0)))
      (blank_entry_reader\<lparr>er_buffer_offset := 3, er_buffer_count := entry_size 4 (sample_message ! 0),
         er_message_version := 4\<rparr>) [118, 49] blank_element_reader 4 2 True = Some (Err OUT_OF_RANGE, lr)"
proof -
  let ?e = "sample_message ! 0"
  let ?bv = "put_flat (blank_vec2 30 140) 3 (enc_entry 4 ?e)"
  have ok: "message_entry_ok 4 ?e" using sample_message_ok(1) [of 4] by (simp add: message_ok_def sample_message_length)
  have e: "?e \<in> set sample_message" by (simp add: sample_message_def)
  have fit: "3 + length (enc_entry 4 ?e) \<le> length (flat (blank_vec2 30 140))"
    using sample_entry_sizes [of 4 ?e] e by (simp add: length_enc_entry)
  have wf: "wf_vec 1 ?bv" using wf_blank2 [of 30 140] fit by simp
  have f: "find (\<lambda>d. re_name d = [118, 49]) (snd ?e) = Some (sample_element [6, 7, 8])"
    by (simp add: sample_message_def sample_element_def)
  show ?thesis
    using find_element_verified [OF wf ok _ _ _ _ refl, of "blank_entry_reader\<lparr>er_buffer_offset := 3,
        er_buffer_count := entry_size 4 ?e, er_message_version := 4\<rparr>" "[118, 49]" blank_element_reader 4 2]
      at_put_flat [OF fit] unfolding f
    by (auto simp: checked_status_def sample_element_def)
qed


section \<open>Nested elements\<close>

definition enc_we :: "u16 \<Rightarrow> wire_element \<Rightarrow> byte list" where
  "enc_we ver = (if ver = 2 then enc_we2 else enc_we4)"

definition valid_we :: "u16 \<Rightarrow> wire_element \<Rightarrow> bool" where
  "valid_we ver e \<longleftrightarrow> (if ver = 2 then valid_we2 e else ver = 4 \<and> valid_we4 e)"

definition name_we :: "u16 \<Rightarrow> wire_element \<Rightarrow> const_string" where
  "name_we ver e = (if ver = 2 then lh_element_name (we_header e) else name_we4 e)"

text \<open>
  C33. Among the elements nested in a structure, a map, a list or another element of a nested type, the
  search finds the first one of the name; the cursor it returns spans exactly that element. If there
  is none it says so. The element headers are those of the wire: any flags, any width of the counts.
\<close>

theorem find_nested_element_correct:
  assumes wf: "wf_vec 1 bv" and par: "valid_we ver par" "lh_element_type (we_header par) \<in> set nested_types"
    and contents: "we_contents par = concat (map (enc_we ver) es)" "unat (lh_data_count (we_header par)) = length es"
    and es: "es \<noteq> []" "\<forall>x \<in> set es. valid_we ver x"
    and r: "lr_message_version lr = ver" "lr_buffer_count lr = length (enc_we ver par)"
      "at bv (lr_buffer_offset lr) (enc_we ver par)"
    and nm: "nm \<noteq> []"
  shows "case find (\<lambda>x. name_we ver x = nm) es of
      None \<Rightarrow> \<exists>lr'. messageelement_reader_find_nested_element bv lr nm r0 = Some (Err MESSAGEELEMENT_NOT_FOUND, lr')
    | Some x \<Rightarrow> \<exists>lr'. messageelement_reader_find_nested_element bv lr nm r0 = Some (OK, lr') \<and>
        lr_message_version lr' = ver \<and> lr_buffer_count lr' = length (enc_we ver x) \<and>
        at bv (lr_buffer_offset lr') (enc_we ver x)"
proof -
  have l: "length es < 2 ^ 32" using contents(2) unat_u32_lt [of "lh_data_count (we_header par)"] by simp
  have small: "lr_buffer_count lr < 2 ^ 63" using at_le [OF r(3)] wf_vec_flat_lt [OF wf] r(2) by simp
  show ?thesis
  proof (cases "ver = 2")
    case True
    let ?n = "length (enc_element2 (we_header par))"
    have v: "valid_we2 par" "\<forall>x \<in> set es. valid_we2 x" using par es True by (simp_all add: valid_we_def)
    have c: "we_contents par = layout2.enc_all es" using contents True by (simp add: layout2.enc_all_def enc_we_def)
    have a: "at bv (lr_buffer_offset lr) (enc_we2 par)" using r(3) True by (simp add: enc_we_def)
    then have ac: "at bv (lr_buffer_offset lr + ?n) (layout2.enc_all es)" unfolding enc_we2_def at_append c by blast
    have "layout2.search_outcome (lr_buffer_offset lr + ?n) 0 es nm (messageelement_reader_find_nested_element bv lr nm r0)"
      by (rule layout2.find_in_element [OF wf nm es(1) l v(2) layout2.read_at [OF wf v(1) _ a]])
         (use par(2) contents(2) r small c ac True in
           \<open>simp_all add: seen_element2_def info_we2_def enc_we_def enc_we2_def del: length_enc_element2\<close>)
    then show ?thesis
      using ac True
      by (auto simp: layout2.search_outcome_def name_we_def enc_we_def layout2.cursor_def
          dest: layout2.at_cursor(1) split: option.splits)
  next
    case False
    let ?n = "length (header4_we par)"
    have v4: "ver = 4" using par False by (simp add: valid_we_def)
    have v: "valid_we4 par" "\<forall>x \<in> set es. valid_we4 x" using par es v4 by (simp_all add: valid_we_def)
    have c: "we_contents par = layout4.enc_all es" using contents v4 by (simp add: layout4.enc_all_def enc_we_def)
    have a: "at bv (lr_buffer_offset lr) (enc_we4 par)" using r(3) v4 by (simp add: enc_we_def)
    then have ac: "at bv (lr_buffer_offset lr + ?n) (layout4.enc_all es)" unfolding enc_we4_def at_append c by blast
    have "layout4.search_outcome (lr_buffer_offset lr + ?n) 0 es nm (messageelement_reader_find_nested_element bv lr nm r0)"
      by (rule layout4.find_in_element [OF wf nm es(1) l v(2) layout4.read_at [OF wf v(1) _ a]])
         (use par(2) contents(2) r small c ac v4 in
           \<open>simp_all add: seen_element4_def info_we4_def enc_we_def enc_we4_def\<close>)
    then show ?thesis
      using ac v4
      by (auto simp: layout4.search_outcome_def name_we_def enc_we_def layout4.cursor_def
          dest: layout4.at_cursor(1) split: option.splits)
  qed
qed

text \<open>A structure of one element, for the witness.\<close>

definition sample_struct :: raw_element where
  "sample_struct = \<lparr>re_name = [115], re_type = 101, re_count = 1,
     re_elem_size = length (enc_raw 4 (sample_element [6, 7, 8])), re_data = enc_raw 4 (sample_element [6, 7, 8])\<rparr>"

lemma sample_struct_ok: "raw_ok 4 sample_struct" "length (enc_raw 4 sample_struct) \<le> 30"
proof -
  have e: "length (enc_raw 4 (sample_element [6, 7, 8])) = 11"
    using length_enc_raw [OF sample_elements_ok(1) [of 4]]
    by (simp add: raw_size_def raw_body4_def sample_element_def message_len_plus_uint_x_def message_uint_x_size_def)
  show ok: "raw_ok 4 sample_struct"
    by (simp add: raw_ok_def sample_struct_def raw_body4_def e UINT32_MAX_def message_uint_x_size_def)
  show "length (enc_raw 4 sample_struct) \<le> 30"
    using length_enc_raw [OF ok] by (simp add: raw_size_def raw_body4_def sample_struct_def e
      message_len_plus_uint_x_def message_uint_x_size_def)
qed

lemma find_nested_element_correct_witness:
  "\<exists>lr. messageelement_reader_find_nested_element (put_flat (blank_vec2 10 40) 7 (enc_raw 4 sample_struct))
      (blank_element_reader\<lparr>lr_buffer_offset := 7, lr_buffer_count := length (enc_raw 4 sample_struct),
         lr_message_version := 4\<rparr>) [118, 49] blank_element_reader = Some (OK, lr) \<and>
     lr_buffer_count lr = length (enc_raw 4 (sample_element [6, 7, 8]))"
proof -
  let ?x = "raw_we 4 (sample_element [6, 7, 8])" and ?p = "raw_we 4 sample_struct"
  have fit: "7 + length (enc_raw 4 sample_struct) \<le> length (flat (blank_vec2 10 40))"
    using sample_struct_ok(2) by simp
  have wf: "wf_vec 1 (put_flat (blank_vec2 10 40) 7 (enc_raw 4 sample_struct))"
    using wf_blank2 [of 10 40] fit by simp
  have v: "valid_we 4 ?p" "\<forall>x \<in> set [?x]. valid_we 4 x"
    using raw_we_valid(2) [OF sample_struct_ok(1)] raw_we_valid(2) [OF sample_elements_ok(1) [of 4]]
    by (simp_all add: valid_we_def)
  have h: "lh_element_type (we_header ?p) \<in> set nested_types" "we_contents ?p = concat (map (enc_we 4) [?x])"
    "unat (lh_data_count (we_header ?p)) = length [?x]"
    by (simp_all add: raw_header_def data_element_def sample_struct_def nested_types_def raw_we_def enc_we_def
        enc_raw_we [symmetric]) (simp add: enc_raw_we raw_we_def raw_header_def data_element_def)
  have n: "find (\<lambda>x. name_we 4 x = [118, 49]) [?x] = Some ?x"
    by (simp add: name_we_def raw_we_names) (simp add: sample_element_def)
  show ?thesis
    using find_nested_element_correct [OF wf v(1) h _ v(2), of "blank_element_reader\<lparr>lr_buffer_offset := 7,
        lr_buffer_count := length (enc_raw 4 sample_struct), lr_message_version := 4\<rparr>" "[118, 49]" blank_element_reader]
      at_put_flat [OF fit] unfolding n
    by (auto simp: enc_we_def enc_raw_we)
qed


section \<open>Limits\<close>

text \<open>
  A version 4 entry never carries a member name code: whatever code the writer is given, a reader
  finds zero. The reader would accept the code; the writer has no branch that announces it.
\<close>

theorem entry4_drops_member_name_code:
  assumes "wf_vec 1 bv" and "message_ok 4 h es" and "message_writer_init blank_writer bv 0 n 4 = (OK, mw)"
    and "message_size 4 h es \<le> n" and "n \<le> length (flat bv)" and "k < length es"
  shows "\<exists>bv' h' hdr. write_message bv mw h es = (OK, bv', h') \<and>
    read_entry_header bv' n k zero_entry_header = (OK, hdr) \<and>
    eh_service_path_code hdr = eh_service_path_code (fst (es ! k)) \<and> eh_member_name_code hdr = 0"
proof -
  show ?thesis
    using entry_header_read [OF assms entry_room_zero] seen_entry_got(2,3) by blast
qed

lemma entry4_drops_member_name_code_witness:
  "\<exists>bv' h' hdr. write_message (blank_vec2 100 200) (blank_writer\<lparr>mw_buffer_count := 300, mw_message_version := 4\<rparr>)
       sample_header sample_message = (OK, bv', h') \<and>
     read_entry_header bv' 300 0 zero_entry_header = (OK, hdr) \<and> eh_member_name_code hdr = 0"
proof -
  have wf: "wf_vec 1 (blank_vec2 100 200)" by (rule wf_blank2) simp
  show ?thesis
    using entry4_drops_member_name_code [OF wf sample_message_ok(1) sample_init, of 0] sample_message_ok(2) [of 4]
    by (auto simp: sample_message_length)
qed

text \<open>
  Copying nothing into a buffer vector succeeds when the vector is one segment and fails with
  OUT_OF_RANGE when it is not, at any position and for any element size: an element without data cannot be
  written into a segmented buffer.
\<close>

theorem copy_of_nothing:
  "buffer_vec_copy_from_mem bv p [] 0 0 es 0 = (if length bv = 1 then (OK, bv) else (Err OUT_OF_RANGE, bv))"
proof (cases bv)
  case (Cons b bs)
  then show ?thesis
    by (cases bs) (simp_all add: buffer_vec_copy_from_mem_def buffer_vec_copy_vec_ex_def buffer_copy_ex_def
        out_of_bounds_def sz_mul_def)
qed (simp add: buffer_vec_copy_from_mem_def buffer_vec_copy_vec_ex_def out_of_bounds_def sz_mul_def)

text \<open>Entering the entries of a message that stands at any offset.\<close>

lemma begin_entries_anywhere:
  assumes wf: "wf_vec 1 bv" and ok: "message_ok ver h (e # after)"
    and a: "at bv (mr_buffer_offset r) (enc_message ver h (e # after))" and v: "mr_message_version r = ver"
    and c: "mr_buffer_offset r + message_size ver h (e # after) \<le> mr_buffer_count r"
  shows "\<exists>er. message_reader_begin_read_entries bv r er0 = (OK, er)"
proof -
  let ?n = "message_size ver h (e # after)" and ?o = "length (enc_open_message ver h)" and ?p = "mr_buffer_offset r"
  have fits: "message_fits ver h" and l: "length (e # after) \<le> UINT16_MAX" and eok: "message_entry_ok ver e"
    using ok by (simp_all add: message_ok_def)
  have a1: "at bv ?p (enc_closed_message ver h ?n (length (e # after)))"
    and a2: "at bv (?p + ?o) (enc_entry ver e)"
    using a length_enc_closed_message [OF fits] by (simp_all add: enc_message_def at_append)
  obtain info where H: "message_reader_read_header_ex bv r zero_message_header zero_message_info =
      (OK, seen_message ver h ?n (length (e # after)) (zero_message_header\<lparr>mh_message_version := ver\<rparr>), info)"
    using read_message_header_at [OF wf ok a1 header_room_zero] by blast
  obtain n q where c': "message_read_count ver bv (?p + ?o) = Inr (n, q)" "unat n = entry_size ver e"
    using entry_count_at [OF wf eok a2] by blast
  have small: "?p + ?o + entry_size ver e < 2 ^ 64"
    using at_le [OF a2] wf_vec_flat_lt [OF wf] by (simp add: length_enc_entry)
  have "\<not> ?p + ?o + entry_size ver e > mr_buffer_count r" using c by (simp add: message_size_def length_enc_entry)
  then show ?thesis
    using c' small by (simp add: message_reader_begin_read_entries_def H v seen_message_header_size [OF fits] Let_def sz_add_nowrap)
qed

text \<open>
  Entering the entries of a message adds the offset of the message twice: the cursor is right for a
  message at the start of its buffer only. The first entry is read behind the header, but the cursor that is
  returned stands one offset further.
\<close>

theorem begin_read_entries_offset:
  assumes "message_reader_begin_read_entries bv r er0 = (OK, er)"
  shows "\<exists>hdr info n q. message_reader_read_header_ex bv r zero_message_header zero_message_info = (OK, hdr, info) \<and>
    message_read_count (mr_message_version r) bv (sz_add (mr_buffer_offset r) (unat (mh_header_size hdr))) = Inr (n, q) \<and>
    er_buffer_count er = unat n \<and>
    er_buffer_offset er = sz_add (mr_buffer_offset r) (sz_add (mr_buffer_offset r) (unat (mh_header_size hdr)))"
  using assms
  by (auto simp: message_reader_begin_read_entries_def Let_def split: prod.splits status.splits sum.splits if_splits)

lemma begin_read_entries_offset_witness:
  "\<exists>er hdr info. message_reader_begin_read_entries (put_flat (blank_vec2 100 300) 5 (enc_message 4 sample_header sample_message))
       \<lparr>mr_buffer_offset = 5, mr_buffer_count = 400, mr_message_version = 4\<rparr> blank_entry_reader = (OK, er) \<and>
     message_reader_read_header_ex (put_flat (blank_vec2 100 300) 5 (enc_message 4 sample_header sample_message))
       \<lparr>mr_buffer_offset = 5, mr_buffer_count = 400, mr_message_version = 4\<rparr> zero_message_header zero_message_info =
       (OK, hdr, info) \<and>
     er_buffer_offset er = sz_add 5 (sz_add 5 (unat (mh_header_size hdr)))"
proof -
  let ?bv = "put_flat (blank_vec2 100 300) 5 (enc_message 4 sample_header sample_message)"
  let ?r = "\<lparr>mr_buffer_offset = 5, mr_buffer_count = 400, mr_message_version = 4\<rparr>"
  have ok: "message_ok 4 sample_header (hd sample_message # tl sample_message)"
    using sample_message_ok(1) [of 4] by (simp add: sample_message_def)
  have m: "hd sample_message # tl sample_message = sample_message" by (simp add: sample_message_def)
  have fit: "5 + length (enc_message 4 sample_header sample_message) \<le> length (flat (blank_vec2 100 300))"
    using sample_message_ok(2) [of 4] length_enc_message [OF ok] by (simp add: m)
  have wf: "wf_vec 1 ?bv" using wf_blank2 [of 100 300] fit by simp
  obtain er where "message_reader_begin_read_entries ?bv ?r blank_entry_reader = (OK, er)"
    using begin_entries_anywhere [OF wf ok, of ?r] at_put_flat [OF fit] sample_message_ok(2) [of 4] by (auto simp: m)
  then show ?thesis using begin_read_entries_offset by fastforce
qed

end
