(* ===== verification/RRL_String.thy ===== *)
theory RRL_String
  imports RRL_Wire
begin

text \<open>
  The string routines of src/array.c and src/include/robotraconteurlite/array.h, and the list search
  and conversions of src/util.c. \<open>memcmp\<close> returns the sign of the first difference; the
  routines only use the sign. \<open>char\<close> is signed, as on the platforms the library builds for.
\<close>

section \<open>Comparison\<close>

fun mem_cmp :: "byte list \<Rightarrow> byte list \<Rightarrow> int" where
  "mem_cmp (a # as) (b # bs) = (if a < b then -1 else if b < a then 1 else mem_cmp as bs)"
| "mem_cmp _ _ = 0"

definition string_cmp :: "const_string \<Rightarrow> const_string \<Rightarrow> int" where
  "string_cmp str1 str2 =
     (if length str1 = 0 \<and> length str2 = 0 then 0
      else if length str1 < length str2 then -1
      else if length str1 > length str2 then 1
      else mem_cmp str1 str2)"

text \<open>The same comparison of a string that can be written to.\<close>

definition string_cmp_mutable :: "rstring \<Rightarrow> const_string \<Rightarrow> int" where
  "string_cmp_mutable str1 str2 =
     (if str_len str1 = 0 \<and> length str2 = 0 then 0
      else if str_len str1 < length str2 then -1
      else if str_len str1 > length str2 then 1
      else mem_cmp (take (str_len str1) (string_memory str1)) str2)"

text \<open>\<open>str2\<close> is the C string without its terminator.\<close>

definition string_cmp_c_str :: "const_string \<Rightarrow> byte list \<Rightarrow> int" where
  "string_cmp_c_str str1 str2 =
     (if length str2 = 0 \<and> length str1 = 0 then 0
      else if length str1 = 0 then -1
      else if length str2 = 0 then 1
      else if length str1 < length str2 then -1
      else if length str1 > length str2 then 1
      else mem_cmp str1 str2)"

lemma mem_cmp_eq: "length a = length b \<Longrightarrow> mem_cmp a b = 0 \<longleftrightarrow> a = b"
  by (induction a b rule: mem_cmp.induct) auto

lemma mem_cmp_flip: "length a = length b \<Longrightarrow> mem_cmp b a = - mem_cmp a b"
  by (induction a b rule: mem_cmp.induct) auto

lemma string_cmp_eq: "string_cmp a b = 0 \<longleftrightarrow> a = b"
  using mem_cmp_eq [of a b] by (auto simp: string_cmp_def)


section \<open>Hash\<close>

definition string_hash :: "const_string \<Rightarrow> u32" where
  "string_hash str =
     (let str_len = word_of_nat (length str) :: u32 in
      if str_len = 0 then 0
      else if str_len = 1 then (str_len AND 0xFFFF) OR push_bit 24 (scast (str ! 0))
      else if str_len = 2 then
        (str_len AND 0xFFFF) OR push_bit 24 (scast (str ! 0)) OR push_bit 16 (scast (str ! unat (str_len - 1)))
      else
        (str_len AND 0xFFFF) OR push_bit 24 (scast (str ! 0)) OR
        push_bit 16 (scast (str ! unat (str_len - 1)) XOR scast (str ! unat (str_len - 2))))"


section \<open>Copies\<close>

definition string_copy_to :: "const_string \<Rightarrow> rstring \<Rightarrow> status \<times> rstring" where
  "string_copy_to source dest =
     (if length source = 0 then (OK, dest\<lparr>str_len := 0\<rparr>)
      else if length source > str_len dest then (Err INVALID_ARGUMENT, dest)
      else (OK, dest\<lparr>str_data := map_option (\<lambda>d. overwrite d 0 source) (str_data dest),
                    str_len := length source\<rparr>))"

text \<open>
  The copy into a buffer of the caller: the status, the buffer, and the string, which then are the
  first characters of the buffer.
\<close>

definition string_copy_to_buffer_storage ::
  "const_string \<Rightarrow> const_string \<Rightarrow> byte list \<Rightarrow> size_t \<Rightarrow> status \<times> const_string \<times> byte list" where
  "string_copy_to_buffer_storage source dest buffer_storage buffer_storage_len =
     (case string_copy_to source \<lparr>str_data = Some buffer_storage, str_len = buffer_storage_len\<rparr> of
        (Err e, t) \<Rightarrow> (Err e, dest, string_memory t)
      | (OK, t) \<Rightarrow> (OK, take (str_len t) (string_memory t), string_memory t))"

definition string_shallow_copy_to :: "const_string \<Rightarrow> const_string \<Rightarrow> status \<times> const_string" where
  "string_shallow_copy_to source dest = (OK, source)"

definition string_shallow_copy_from_mutable :: "rstring \<Rightarrow> const_string \<Rightarrow> status \<times> const_string" where
  "string_shallow_copy_from_mutable source dest = (OK, take (str_len source) (string_memory source))"

lemma copy_to_buffer_storage:
  assumes "length buf = n"
  shows "string_copy_to_buffer_storage source dest buf n =
    (if length source \<le> n then (OK, source, overwrite buf 0 source) else (Err INVALID_ARGUMENT, dest, buf))"
  using assms
  by (auto simp: string_copy_to_buffer_storage_def string_copy_to_def string_memory_def overwrite_def)


section \<open>Lists of strings and conversions\<close>

text \<open>
  The loop over a list of names separated by semicolons: \<open>k\<close> is where the current name
  starts. The result is 1 when \<open>val\<close> is one of the names, and 0 otherwise.
\<close>

function match_loop :: "const_string \<Rightarrow> const_string \<Rightarrow> nat \<Rightarrow> nat \<Rightarrow> int" where
  "match_loop list val i k =
     (if i < length list then
        (if list ! i = 59 then
           (if i - k > 0 \<and> string_cmp (chunk list k (i - k)) val = 0 then 1
            else match_loop list val (Suc i) (Suc i))
         else match_loop list val (Suc i) k)
      else if k < length list then
        (if string_cmp (chunk list k (length list - k)) val = 0 then 1 else 0)
      else 0)"
  by pat_completeness auto
termination
  by (relation "measure (\<lambda>(list, val, i, k). length list - i)") auto

declare match_loop.simps [simp del]

definition util_match_string_in_list :: "const_string \<Rightarrow> const_string \<Rightarrow> int" where
  "util_match_string_in_list list val = match_loop list val 0 0"

definition util_numeric_convert_u16 :: "size_t \<Rightarrow> error + u16" where
  "util_numeric_convert_u16 val = (if val > UINT16_MAX then Inl OUT_OF_RANGE else Inr (word_of_nat val))"

definition util_numeric_convert_u32 :: "size_t \<Rightarrow> error + u32" where
  "util_numeric_convert_u32 val = (if val > UINT32_MAX then Inl OUT_OF_RANGE else Inr (word_of_nat val))"

definition util_read_uint32 :: "byte list \<Rightarrow> u32" where
  "util_read_uint32 p = bytes_u32 (take 4 p)"

definition util_read_uint16 :: "byte list \<Rightarrow> u16" where
  "util_read_uint16 p = bytes_u16 (take 2 p)"


section \<open>What the list search computes\<close>

text \<open>The names of a list, from left to right.\<close>

fun names_of :: "byte list \<Rightarrow> byte list \<Rightarrow> byte list list" where
  "names_of acc [] = [acc]"
| "names_of acc (c # cs) = (if c = 59 then acc # names_of [] cs else names_of (acc @ [c]) cs)"

lemma match_loop_names:
  assumes "k \<le> i" and "i \<le> length list"
  shows "match_loop list val i k =
     (if val \<noteq> [] \<and> val \<in> set (names_of (chunk list k (i - k)) (drop i list)) then 1 else 0)"
  using assms
proof (induction "length list - i" arbitrary: i k)
  case 0
  then have i: "i = length list" by simp
  have "k < length list \<Longrightarrow> chunk list k (length list - k) \<noteq> []" by (simp add: chunk_def)
  then show ?case
    using 0 by (cases "k < length list") (auto simp: match_loop.simps [of list val "length list"] i string_cmp_eq)
next
  case (Suc n)
  then have lt: "i < length list" by simp
  have d: "drop i list = list ! i # drop (Suc i) list" using lt by (simp add: Cons_nth_drop_Suc)
  have e: "chunk list k (Suc i - k) = chunk list k (i - k) @ [list ! i]"
    using Suc.prems lt by (simp add: Suc_diff_le chunk_def) (simp add: take_Suc_conv_app_nth)
  have ih1: "match_loop list val (Suc i) (Suc i) =
      (if val \<noteq> [] \<and> val \<in> set (names_of [] (drop (Suc i) list)) then 1 else 0)"
    using Suc.hyps(1) [of "Suc i" "Suc i"] Suc.hyps(2) lt Suc.prems by simp
  have ih2: "match_loop list val (Suc i) k =
      (if val \<noteq> [] \<and> val \<in> set (names_of (chunk list k (i - k) @ [list ! i]) (drop (Suc i) list)) then 1 else 0)"
    using Suc.hyps(1) [of "Suc i" k] Suc.hyps(2) lt Suc.prems e by simp
  have em: "i - k = 0 \<Longrightarrow> chunk list k (i - k) = []" "i - k > 0 \<Longrightarrow> chunk list k (i - k) \<noteq> []"
    using Suc.prems lt by (simp_all add: chunk_def)
  show ?case
    using lt ih1 ih2 em by (auto simp: match_loop.simps [of list val i k] d string_cmp_eq)
qed

text \<open>
  The search in a list of names is membership among the names between the semicolons; an empty name
  is in no list.
\<close>

theorem match_list_is_membership:
  "util_match_string_in_list list val = (if val \<noteq> [] \<and> val \<in> set (names_of [] list) then 1 else 0)"
  using match_loop_names [of 0 0 list val] by (simp add: util_match_string_in_list_def)

end
