(* ===== verification/RRL_Connection.thy ===== *)
theory RRL_Connection
  imports RRL_Build RRL_NodeId RRL_String "HOL-Library.Signed_Division"
begin

text \<open>
  The state of a connection and the operations on a single connection, src/connection.c and
  src/include/robotraconteurlite/connection.h: receiving and sending messages, the flag state
  machine that the transport and the node drive, and the times a connection asks to be woken at.
  The transport's private storage is a byte array that tcp_transport.c casts to its structure; the
  structure is what the model holds. A socket handle is an integer, 0 when there is none; pointers to
  other objects are addresses, 0 for \<open>NULL\<close>.
\<close>

type_synonym addr = nat
type_synonym timespec = "64 word"


section \<open>Flags\<close>

definition CONFIG_FLAGS_ISSERVER :: u32 where "CONFIG_FLAGS_ISSERVER = 0x1"
definition CONFIG_FLAGS_ENABLE_REDUCED_HEADER4 :: u32 where "CONFIG_FLAGS_ENABLE_REDUCED_HEADER4 = 0x2"

definition STATUS_FLAGS_IDLE :: u32 where "STATUS_FLAGS_IDLE = 0x1"
definition STATUS_FLAGS_CONNECTED :: u32 where "STATUS_FLAGS_CONNECTED = 0x2"
definition STATUS_FLAGS_CONNECTING :: u32 where "STATUS_FLAGS_CONNECTING = 0x4"
definition STATUS_FLAGS_CLOSING :: u32 where "STATUS_FLAGS_CLOSING = 0x8"
definition STATUS_FLAGS_CLOSED :: u32 where "STATUS_FLAGS_CLOSED = 0x10"
definition STATUS_FLAGS_ERROR :: u32 where "STATUS_FLAGS_ERROR = 0x20"
definition STATUS_FLAGS_RECEIVE_REQUESTED :: u32 where "STATUS_FLAGS_RECEIVE_REQUESTED = 0x40"
definition STATUS_FLAGS_RECEIVING :: u32 where "STATUS_FLAGS_RECEIVING = 0x80"
definition STATUS_FLAGS_SEND_REQUESTED :: u32 where "STATUS_FLAGS_SEND_REQUESTED = 0x100"
definition STATUS_FLAGS_SENDING :: u32 where "STATUS_FLAGS_SENDING = 0x200"
definition STATUS_FLAGS_MESSAGE_RECEIVED :: u32 where "STATUS_FLAGS_MESSAGE_RECEIVED = 0x400"
definition STATUS_FLAGS_MESSAGE_CONSUMED :: u32 where "STATUS_FLAGS_MESSAGE_CONSUMED = 0x800"
definition STATUS_FLAGS_BLOCK_SEND :: u32 where "STATUS_FLAGS_BLOCK_SEND = 0x1000"
definition STATUS_FLAGS_MESSAGE_SENT :: u32 where "STATUS_FLAGS_MESSAGE_SENT = 0x2000"
definition STATUS_FLAGS_ESTABLISHED :: u32 where "STATUS_FLAGS_ESTABLISHED = 0x4000"
definition STATUS_FLAGS_CLIENT_ESTABLISHED :: u32 where "STATUS_FLAGS_CLIENT_ESTABLISHED = 0x8000"
definition STATUS_FLAGS_CLOSE_REQUESTED :: u32 where "STATUS_FLAGS_CLOSE_REQUESTED = 0x10000"
definition STATUS_FLAGS_CLOSED_CONSUMED :: u32 where "STATUS_FLAGS_CLOSED_CONSUMED = 0x20000"
definition STATUS_FLAGS_MESSAGE_SENT_CONSUMED :: u32 where "STATUS_FLAGS_MESSAGE_SENT_CONSUMED = 0x40000"
definition STATUS_FLAGS_CONNECTED_CONSUMED :: u32 where "STATUS_FLAGS_CONNECTED_CONSUMED = 0x80000"
definition STATUS_FLAGS_SEND_MESSAGE4 :: u32 where "STATUS_FLAGS_SEND_MESSAGE4 = 0x100000"
definition STATUS_FLAGS_CLOSE_NOTIFIED :: u32 where "STATUS_FLAGS_CLOSE_NOTIFIED = 0x200000"
definition STATUS_FLAGS_CLIENT_SOCKET_CONNECTED :: u32 where "STATUS_FLAGS_CLIENT_SOCKET_CONNECTED = 0x400000"
definition STATUS_FLAGS_CLIENT_SOCKET_CONNECTED_CONSUMED :: u32 where
  "STATUS_FLAGS_CLIENT_SOCKET_CONNECTED_CONSUMED = 0x800000"

definition SOCKET_FLAGS_ACTIVE :: u16 where "SOCKET_FLAGS_ACTIVE = 0x1"
definition SOCKET_FLAGS_WANT_RECEIVE :: u16 where "SOCKET_FLAGS_WANT_RECEIVE = 0x2"
definition SOCKET_FLAGS_WANT_SEND :: u16 where "SOCKET_FLAGS_WANT_SEND = 0x4"
definition SOCKET_FLAGS_RECEIVE_WOULD_BLOCK :: u16 where "SOCKET_FLAGS_RECEIVE_WOULD_BLOCK = 0x8"
definition SOCKET_FLAGS_SEND_WOULD_BLOCK :: u16 where "SOCKET_FLAGS_SEND_WOULD_BLOCK = 0x10"

definition CONNECTION_OBJECT_TYPE_CONNECTION :: u32 where "CONNECTION_OBJECT_TYPE_CONNECTION = 1"
definition CONNECTION_OBJECT_TYPE_ACCEPTOR :: u32 where "CONNECTION_OBJECT_TYPE_ACCEPTOR = 2"
definition CONNECTION_OBJECT_TYPE_LIST_HEAD :: u32 where "CONNECTION_OBJECT_TYPE_LIST_HEAD = 3"

lemmas status_flags_defs = STATUS_FLAGS_IDLE_def STATUS_FLAGS_CONNECTED_def STATUS_FLAGS_CONNECTING_def
  STATUS_FLAGS_CLOSING_def STATUS_FLAGS_CLOSED_def STATUS_FLAGS_ERROR_def STATUS_FLAGS_RECEIVE_REQUESTED_def
  STATUS_FLAGS_RECEIVING_def STATUS_FLAGS_SEND_REQUESTED_def STATUS_FLAGS_SENDING_def
  STATUS_FLAGS_MESSAGE_RECEIVED_def STATUS_FLAGS_MESSAGE_CONSUMED_def STATUS_FLAGS_BLOCK_SEND_def
  STATUS_FLAGS_MESSAGE_SENT_def STATUS_FLAGS_ESTABLISHED_def STATUS_FLAGS_CLIENT_ESTABLISHED_def
  STATUS_FLAGS_CLOSE_NOTIFIED_def STATUS_FLAGS_CLOSE_REQUESTED_def STATUS_FLAGS_CLOSED_CONSUMED_def
  STATUS_FLAGS_MESSAGE_SENT_CONSUMED_def STATUS_FLAGS_CONNECTED_CONSUMED_def STATUS_FLAGS_SEND_MESSAGE4_def
  STATUS_FLAGS_CLIENT_SOCKET_CONNECTED_def STATUS_FLAGS_CLIENT_SOCKET_CONNECTED_CONSUMED_def

lemmas socket_flags_defs = SOCKET_FLAGS_ACTIVE_def SOCKET_FLAGS_WANT_RECEIVE_def SOCKET_FLAGS_WANT_SEND_def
  SOCKET_FLAGS_RECEIVE_WOULD_BLOCK_def SOCKET_FLAGS_SEND_WOULD_BLOCK_def


section \<open>The state\<close>

record tcp_transport_storage =
  ts_tcp_transport_state :: u32
  ts_http_line_pos :: size_t
  ts_recv_websocket_frame_pos :: size_t
  ts_recv_websocket_frame_len :: size_t
  ts_recv_websocket_header_pos :: size_t
  ts_send_websocket_header_pos :: size_t
  ts_recv_websocket_mask :: "byte list"
  ts_recv_websocket_header_buffer :: "byte list"
  ts_send_websocket_header_buffer :: "byte list"
  ts_send_websocket_frame_len :: size_t
  ts_send_websocket_frame_buffer_pos :: size_t
  ts_send_websocket_frame_buffer_end :: size_t
  ts_send_websocket_header_len :: size_t
  ts_send_websocket_mask :: "byte list"

definition zero_transport_storage :: tcp_transport_storage where
  "zero_transport_storage =
     \<lparr>ts_tcp_transport_state = 0, ts_http_line_pos = 0, ts_recv_websocket_frame_pos = 0,
      ts_recv_websocket_frame_len = 0, ts_recv_websocket_header_pos = 0, ts_send_websocket_header_pos = 0,
      ts_recv_websocket_mask = replicate 4 0, ts_recv_websocket_header_buffer = replicate 16 0,
      ts_send_websocket_header_buffer = replicate 8 0, ts_send_websocket_frame_len = 0,
      ts_send_websocket_frame_buffer_pos = 0, ts_send_websocket_frame_buffer_end = 0,
      ts_send_websocket_header_len = 0, ts_send_websocket_mask = replicate 4 0\<rparr>"

record connection_socket =
  sk_sock :: int
  sk_flags :: u16
  sk_next :: addr

definition zero_socket :: connection_socket where
  "zero_socket = \<lparr>sk_sock = 0, sk_flags = 0, sk_next = 0\<rparr>"

record connection_object =
  co_type :: u32
  co_transport_type :: u32
  co_next :: addr
  co_prev :: addr
  co_sock :: connection_socket
  co_ops :: addr

record connection = connection_object +
  cn_send_buffer :: "byte list"
  cn_recv_buffer :: "byte list"
  cn_send_buffer_len :: size_t
  cn_recv_buffer_len :: size_t
  cn_send_buffer_pos :: size_t
  cn_recv_buffer_pos :: size_t
  cn_config_flags :: u32
  cn_connection_state :: u32
  cn_heartbeat_period_ms :: i32
  cn_heartbeat_timeout_ms :: i32
  cn_heartbeat_next_check_us :: timespec
  cn_local_endpoint :: u32
  cn_remote_endpoint :: u32
  cn_remote_nodeid :: nodeid
  cn_remote_nodename_char :: "byte list"
  cn_remote_nodename :: const_string
  cn_remote_service_name_char :: "byte list"
  cn_remote_service_name :: const_string
  cn_last_recv_message_time :: timespec
  cn_last_send_message_time :: timespec
  cn_last_request_id :: u32
  cn_message_flags_inv_mask :: u8
  cn_recv_message_len :: u32
  cn_send_message_len :: u32
  cn_transport_storage :: tcp_transport_storage
  cn_user_data_type_code :: u32
  cn_user_data :: addr
  cn_transport_next_wake :: timespec
  cn_service :: addr
  cn_client :: addr

record connection_acceptor = connection_object +
  ca_config_flags :: u32
  ca_acceptor_state :: u32

text \<open>The address a client connects to, as far as connections use it.\<close>

record connect_addr =
  ad_nodeid :: nodeid
  ad_nodename :: const_string
  ad_service_name :: const_string

text \<open>Setting and clearing flags of the connection state.\<close>

definition set_state :: "u32 \<Rightarrow> connection \<Rightarrow> connection" where
  "set_state m c = c\<lparr>cn_connection_state := FLAGS_SET (cn_connection_state c) m\<rparr>"

definition clear_state :: "u32 \<Rightarrow> connection \<Rightarrow> connection" where
  "clear_state m c = c\<lparr>cn_connection_state := FLAGS_CLEAR (cn_connection_state c) m\<rparr>"

definition has_state :: "connection \<Rightarrow> u32 \<Rightarrow> bool" where
  "has_state c m = FLAGS_CHECK (cn_connection_state c) m"


section \<open>Operations\<close>

definition connection_reset :: "connection \<Rightarrow> status \<times> connection" where
  "connection_reset c =
     (case nodeid_reset (cn_remote_nodeid c) of
        (st, nodeid) \<Rightarrow>
          (let c = c\<lparr>co_transport_type := 0, cn_config_flags := CONFIG_FLAGS_ENABLE_REDUCED_HEADER4,
                     cn_connection_state := STATUS_FLAGS_IDLE, cn_recv_buffer_pos := 0, cn_recv_message_len := 0,
                     cn_send_buffer_pos := 0, cn_send_message_len := 0, co_sock := zero_socket,
                     cn_local_endpoint := 0, cn_remote_endpoint := 0, cn_remote_nodeid := nodeid\<rparr>
           in if st \<noteq> OK then (Err INTERNAL_ERROR, c)
              else (OK, c\<lparr>cn_message_flags_inv_mask := 0\<rparr>)))"

definition preamble_error :: "connection \<Rightarrow> connection" where
  "preamble_error c = clear_state STATUS_FLAGS_RECEIVE_REQUESTED (set_state STATUS_FLAGS_ERROR c)"

text \<open>The third result is \<open>*message_len\<close>.\<close>

definition connection_verify_preamble :: "connection \<Rightarrow> u32 \<Rightarrow> status \<times> connection \<times> u32" where
  "connection_verify_preamble c message_len =
     (if cn_recv_buffer_pos c \<ge> 12 \<and> cn_recv_message_len c = 0 then
        (if take 4 (cn_recv_buffer c) \<noteq> rrac_magic then (Err CONNECTION_ERROR, preamble_error c, message_len)
         else let c = c\<lparr>cn_recv_message_len := util_read_uint32 (drop 4 (cn_recv_buffer c))\<rparr>;
                  message_len = cn_recv_message_len c;
                  message_version = util_read_uint16 (drop 8 (cn_recv_buffer c))
              in if message_version \<noteq> 2 \<and> message_version \<noteq> 4
                 then (Err CONNECTION_ERROR, preamble_error c, message_len)
                 else (OK, c, message_len))
      else (OK, c, message_len))"

definition connection_message_receive ::
  "connection \<Rightarrow> message_reader \<Rightarrow> buffer_vec \<Rightarrow> status \<times> message_reader \<times> buffer_vec" where
  "connection_message_receive c message_reader buffer_storage =
     (if \<not> has_state c STATUS_FLAGS_MESSAGE_RECEIVED \<or> has_state c STATUS_FLAGS_MESSAGE_CONSUMED
      then (Err RETRY, message_reader, buffer_storage)
      else let buffer_storage = [buffer_init_scalar (cn_recv_buffer c) (cn_recv_buffer_pos c)] in
           case message_reader_init message_reader buffer_storage 0 (cn_recv_buffer_pos c) of
             (Err e, r) \<Rightarrow> (Err INTERNAL_ERROR, r, buffer_storage)
           | (OK, r) \<Rightarrow> (OK, r, buffer_storage))"

definition connection_message_receive_consume :: "connection \<Rightarrow> status \<times> connection" where
  "connection_message_receive_consume c =
     (if \<not> has_state c STATUS_FLAGS_MESSAGE_RECEIVED then (Err INVALID_OPERATION, c)
      else (OK, set_state STATUS_FLAGS_MESSAGE_CONSUMED c))"

definition send_blocked :: u32 where
  "send_blocked = STATUS_FLAGS_SEND_REQUESTED OR STATUS_FLAGS_SENDING OR STATUS_FLAGS_MESSAGE_SENT OR
     STATUS_FLAGS_MESSAGE_SENT_CONSUMED OR STATUS_FLAGS_BLOCK_SEND"

text \<open>\<open>buffer_storage\<close> has at least one segment, of which the first is replaced.\<close>

definition connection_begin_send_message ::
  "connection \<Rightarrow> message_writer \<Rightarrow> buffer_vec \<Rightarrow> status \<times> message_writer \<times> buffer_vec" where
  "connection_begin_send_message c message_writer buffer_storage =
     (if has_state c (STATUS_FLAGS_ERROR OR STATUS_FLAGS_CLOSED OR STATUS_FLAGS_CLOSE_REQUESTED OR STATUS_FLAGS_IDLE) \<or>
         \<not> has_state c STATUS_FLAGS_CONNECTED
      then (Err INVALID_OPERATION, message_writer, buffer_storage)
      else if has_state c send_blocked then (Err RETRY, message_writer, buffer_storage)
      else let buffer_storage = buffer_storage[0 := buffer_init_scalar (cn_send_buffer c) (cn_send_buffer_len c)];
               message_version = (if has_state c STATUS_FLAGS_SEND_MESSAGE4 then 4 else 2)
           in case message_writer_init message_writer buffer_storage 0 (cn_send_buffer_pos c) message_version of
                (Err e, w) \<Rightarrow> (Err INTERNAL_ERROR, w, buffer_storage)
              | (OK, w) \<Rightarrow> (OK, w, buffer_storage))"

definition connection_end_send_message :: "connection \<Rightarrow> size_t \<Rightarrow> status \<times> connection" where
  "connection_end_send_message c message_len =
     (OK, set_state STATUS_FLAGS_SEND_REQUESTED (c\<lparr>cn_send_message_len := word_of_nat message_len\<rparr>))"

definition connection_abort_send_message :: "connection \<Rightarrow> status" where
  "connection_abort_send_message c = OK"

definition connection_close :: "connection \<Rightarrow> status \<times> connection" where
  "connection_close c =
     (if has_state c STATUS_FLAGS_IDLE then (OK, c) else (OK, set_state STATUS_FLAGS_CLOSE_REQUESTED c))"

definition connection_init :: "connection \<Rightarrow> connection" where
  "connection_init c =
     (snd (connection_reset c))\<lparr>cn_heartbeat_period_ms := 5000, cn_heartbeat_timeout_ms := 15000\<rparr>"

text \<open>The times are signed 64-bit integers; the third argument and the result are \<open>*next_wake\<close>.\<close>

definition connection_next_wake :: "connection \<Rightarrow> timespec \<Rightarrow> timespec \<Rightarrow> status \<times> timespec" where
  "connection_next_wake c now next_wake =
     (if has_state c STATUS_FLAGS_IDLE then (OK, next_wake)
      else if has_state c (STATUS_FLAGS_CLOSE_REQUESTED OR STATUS_FLAGS_ERROR) then (OK, now)
      else if has_state c STATUS_FLAGS_MESSAGE_SENT then (OK, now)
      else if has_state c STATUS_FLAGS_MESSAGE_RECEIVED then (OK, now)
      else if sint (cn_heartbeat_next_check_us c) > 0 \<and>
              (sint now > sint (cn_heartbeat_next_check_us c) \<or>
               cn_heartbeat_next_check_us c = 0 \<and> sint (cn_heartbeat_period_ms c) > 0)
      then (OK, now)
      else let next_wake = (if sint (cn_heartbeat_next_check_us c) > 0 \<and>
                               sint (cn_heartbeat_next_check_us c) < sint next_wake
                            then cn_heartbeat_next_check_us c else next_wake);
               next_wake = (if sint (cn_transport_next_wake c) > 0 \<and>
                               sint (cn_transport_next_wake c) < sint next_wake
                            then cn_transport_next_wake c else next_wake)
           in (OK, next_wake))"


section \<open>What a transport calls\<close>

text \<open>The third result is \<open>*close_request\<close>.\<close>

definition communicate_process_control ::
  "connection \<Rightarrow> timespec \<Rightarrow> u32 \<Rightarrow> u8 \<Rightarrow> status \<times> connection \<times> u8" where
  "communicate_process_control c now transport_type close_request =
     (if co_transport_type c \<noteq> transport_type then (Err CONSUMED, c, close_request)
      else case (if has_state c STATUS_FLAGS_CLOSED_CONSUMED
                 then connection_reset (c\<lparr>cn_connection_state := STATUS_FLAGS_IDLE\<rparr>) else (OK, c)) of
             (Err e, c) \<Rightarrow> (Err INTERNAL_ERROR, c, close_request)
           | (OK, c) \<Rightarrow>
               (if has_state c (STATUS_FLAGS_CLOSED OR STATUS_FLAGS_IDLE) then (Err CONSUMED, c, close_request)
                else if has_state c (STATUS_FLAGS_CLOSE_REQUESTED OR STATUS_FLAGS_CLOSING) then (OK, c, 1)
                else (OK, c, close_request)))"

definition communicate_after_close_requested :: "connection \<Rightarrow> timespec \<Rightarrow> status \<Rightarrow> status \<times> connection" where
  "communicate_after_close_requested c now close_rv = (OK, c\<lparr>cn_connection_state := STATUS_FLAGS_CLOSED\<rparr>)"

text \<open>
  \<open>memmove\<close> of what follows a consumed message to the start of the receive buffer; \<open>None\<close>
  when the block is not inside the buffer.
\<close>

definition move_to_start :: "byte list \<Rightarrow> size_t \<Rightarrow> size_t \<Rightarrow> byte list option" where
  "move_to_start buf from n = (if from + n \<le> length buf then Some (overwrite buf 0 (chunk buf from n)) else None)"

definition drop_consumed :: "connection \<Rightarrow> status \<times> connection" where
  "drop_consumed c =
     (let mlen = unat (cn_recv_message_len c);
          n = sz_sub (cn_recv_buffer_pos c) mlen
      in case (if cn_recv_buffer_pos c > mlen then move_to_start (cn_recv_buffer c) mlen n
               else Some (cn_recv_buffer c)) of
           None \<Rightarrow> (Err UNDEFINED_BEHAVIOUR, c)
         | Some buf \<Rightarrow>
             (OK, set_state STATUS_FLAGS_RECEIVE_REQUESTED
                    (clear_state (STATUS_FLAGS_MESSAGE_CONSUMED OR STATUS_FLAGS_MESSAGE_RECEIVED)
                       (c\<lparr>cn_recv_buffer := buf, cn_recv_buffer_pos := n, cn_recv_message_len := 0\<rparr>))))"

text \<open>The third result is \<open>*recv_op_len\<close>, the bytes the transport is to receive.\<close>

definition communicate_recv1 :: "connection \<Rightarrow> timespec \<Rightarrow> size_t \<Rightarrow> status \<times> connection \<times> size_t" where
  "communicate_recv1 c now recv_op_len =
     (if has_state c STATUS_FLAGS_ERROR then (Err CONNECTION_ERROR, c, recv_op_len)
      else case (if has_state c STATUS_FLAGS_MESSAGE_CONSUMED then drop_consumed c else (OK, c)) of
             (Err e, c) \<Rightarrow> (Err e, c, recv_op_len)
           | (OK, c) \<Rightarrow>
               (OK, c, if has_state c STATUS_FLAGS_RECEIVE_REQUESTED
                       then (if cn_recv_message_len c = 0 then 64
                             else sz_sub (cn_recv_buffer_len c) (cn_recv_buffer_pos c))
                       else 0))"

definition communicate_recv2 :: "connection \<Rightarrow> timespec \<Rightarrow> status \<Rightarrow> status \<times> connection" where
  "communicate_recv2 c now recv_op_rv =
     (if FAILED recv_op_rv then (recv_op_rv, preamble_error c)
      else case connection_verify_preamble c (cn_recv_message_len c) of
             (Err e, c, _) \<Rightarrow> (Err CONNECTION_ERROR, preamble_error c)
           | (OK, c, _) \<Rightarrow>
               (if cn_recv_message_len c > 0 \<and> cn_recv_buffer_pos c \<ge> unat (cn_recv_message_len c)
                then (OK, (set_state STATUS_FLAGS_MESSAGE_RECEIVED
                             (clear_state STATUS_FLAGS_RECEIVE_REQUESTED c))\<lparr>cn_last_recv_message_time := now\<rparr>)
                else (OK, c)))"

definition communicate_send1 :: "connection \<Rightarrow> timespec \<Rightarrow> size_t \<Rightarrow> status \<times> connection \<times> size_t" where
  "communicate_send1 c now send_op_len =
     (if has_state c STATUS_FLAGS_ERROR then (Err CONNECTION_ERROR, c, send_op_len)
      else if has_state c STATUS_FLAGS_MESSAGE_SENT_CONSUMED
      then (OK, (clear_state (STATUS_FLAGS_MESSAGE_SENT_CONSUMED OR STATUS_FLAGS_MESSAGE_SENT) c)
                  \<lparr>cn_send_buffer_pos := 0, cn_send_message_len := 0\<rparr>, send_op_len)
      else if has_state c STATUS_FLAGS_SEND_REQUESTED
      then (OK, clear_state STATUS_FLAGS_SEND_REQUESTED c, unat (cn_send_message_len c))
      else if has_state c STATUS_FLAGS_SENDING
      then (OK, c, sz_sub (unat (cn_send_message_len c)) (cn_send_buffer_pos c))
      else (OK, c, 0))"

definition communicate_send2 :: "connection \<Rightarrow> timespec \<Rightarrow> status \<Rightarrow> status \<times> connection" where
  "communicate_send2 c now send_op_rv =
     (if FAILED send_op_rv then (send_op_rv, set_state STATUS_FLAGS_ERROR c)
      else if cn_send_message_len c > 0 \<and> cn_send_buffer_pos c < unat (cn_send_message_len c)
      then (OK, set_state STATUS_FLAGS_SENDING c)
      else (OK, (set_state STATUS_FLAGS_MESSAGE_SENT (clear_state STATUS_FLAGS_SENDING c))
                  \<lparr>cn_last_send_message_time := now\<rparr>))"

definition impl_connect2 ::
  "connection \<Rightarrow> timespec \<Rightarrow> u32 \<Rightarrow> connect_addr \<Rightarrow> connection_socket \<Rightarrow> status \<times> connection" where
  "impl_connect2 c now transport_type addr sock =
     (let c = c\<lparr>co_type := CONNECTION_OBJECT_TYPE_CONNECTION, co_transport_type := transport_type,
                cn_config_flags := FLAGS_CLEAR (cn_config_flags c) CONFIG_FLAGS_ISSERVER,
                co_sock := sock\<lparr>sk_flags := SOCKET_FLAGS_ACTIVE\<rparr>,
                cn_connection_state := STATUS_FLAGS_CONNECTING, cn_transport_storage := zero_transport_storage,
                cn_last_recv_message_time := now, cn_last_send_message_time := now\<rparr>
      in case nodeid_copy_to (ad_nodeid addr) (cn_remote_nodeid c) of
           (Err e, nodeid) \<Rightarrow> (Err INTERNAL_ERROR, c)
         | (OK, nodeid) \<Rightarrow>
             (let c = c\<lparr>cn_remote_nodeid := nodeid\<rparr> in
              case string_copy_to_buffer_storage (ad_nodename addr) (cn_remote_nodename c)
                     (cn_remote_nodename_char c) (length (cn_remote_nodename_char c)) of
                (Err e, _) \<Rightarrow> (Err INTERNAL_ERROR, c)
              | (OK, name, chars) \<Rightarrow>
                  (let c = c\<lparr>cn_remote_nodename_char := chars, cn_remote_nodename := name\<rparr> in
                   case string_copy_to_buffer_storage (ad_service_name addr) (cn_remote_service_name c)
                          (cn_remote_service_name_char c) (length (cn_remote_service_name_char c)) of
                     (Err e, _) \<Rightarrow> (Err INTERNAL_ERROR, c)
                   | (OK, name, chars) \<Rightarrow>
                       (OK, c\<lparr>cn_remote_service_name_char := chars, cn_remote_service_name := name,
                              cn_last_recv_message_time := now, cn_last_send_message_time := now\<rparr>))))"

definition impl_accept2 ::
  "connection \<Rightarrow> timespec \<Rightarrow> u32 \<Rightarrow> connection_socket \<Rightarrow> status \<times> connection" where
  "impl_accept2 c now transport_type sock =
     (OK, c\<lparr>co_type := CONNECTION_OBJECT_TYPE_CONNECTION, co_sock := sock\<lparr>sk_flags := SOCKET_FLAGS_ACTIVE\<rparr>,
            co_transport_type := transport_type,
            cn_config_flags := FLAGS_SET (cn_config_flags c) CONFIG_FLAGS_ISSERVER,
            cn_connection_state := STATUS_FLAGS_CONNECTING, cn_last_recv_message_time := now,
            cn_last_send_message_time := now, cn_transport_storage := zero_transport_storage\<rparr>)"

text \<open>What a connection waits for, as flags of its socket.\<close>

definition want :: "u16 \<Rightarrow> bool \<Rightarrow> connection_socket \<Rightarrow> connection_socket" where
  "want m b sk = sk\<lparr>sk_flags := (if b then FLAGS_SET (sk_flags sk) m else FLAGS_CLEAR (sk_flags sk) m)\<rparr>"

definition impl_prepare_wait :: "connection \<Rightarrow> status \<times> connection" where
  "impl_prepare_wait c =
     (if \<not> FLAGS_CHECK (sk_flags (co_sock c)) SOCKET_FLAGS_ACTIVE \<or> sk_sock (co_sock c) = 0 then (OK, c)
      else let sk = want SOCKET_FLAGS_WANT_SEND (has_state c (STATUS_FLAGS_SEND_REQUESTED OR STATUS_FLAGS_SENDING OR
                                                              STATUS_FLAGS_CONNECTING)) (co_sock c);
               sk = want SOCKET_FLAGS_WANT_RECEIVE (has_state c (STATUS_FLAGS_RECEIVE_REQUESTED OR
                                                                 STATUS_FLAGS_RECEIVING)) sk
           in (OK, c\<lparr>co_sock := sk\<rparr>))"


section \<open>Queries and events\<close>

definition connection_is_closed :: "connection \<Rightarrow> bool" where
  "connection_is_closed c = has_state c STATUS_FLAGS_CLOSED"

definition connection_is_closed_event :: "connection \<Rightarrow> bool" where
  "connection_is_closed_event c \<longleftrightarrow> has_state c STATUS_FLAGS_CLOSED \<and> \<not> has_state c STATUS_FLAGS_CLOSED_CONSUMED"

definition connection_consume_closed :: "connection \<Rightarrow> connection" where
  "connection_consume_closed c = set_state STATUS_FLAGS_CLOSED_CONSUMED c"

definition connection_is_error :: "connection \<Rightarrow> bool" where
  "connection_is_error c \<longleftrightarrow> has_state c STATUS_FLAGS_ERROR \<and>
     \<not> has_state c (STATUS_FLAGS_CLOSED OR STATUS_FLAGS_CLOSE_REQUESTED)"

definition connection_is_connected :: "connection \<Rightarrow> bool" where
  "connection_is_connected c = has_state c STATUS_FLAGS_CONNECTED"

definition connection_consume_connected :: "connection \<Rightarrow> connection" where
  "connection_consume_connected c = set_state STATUS_FLAGS_CONNECTED_CONSUMED c"

definition connection_is_connected_event :: "connection \<Rightarrow> bool" where
  "connection_is_connected_event c \<longleftrightarrow> has_state c STATUS_FLAGS_CONNECTED \<and>
     \<not> has_state c STATUS_FLAGS_CONNECTED_CONSUMED"

definition connection_is_message_received :: "connection \<Rightarrow> bool" where
  "connection_is_message_received c = has_state c STATUS_FLAGS_MESSAGE_RECEIVED"

definition connection_is_message_received_event :: "connection \<Rightarrow> bool" where
  "connection_is_message_received_event c \<longleftrightarrow> has_state c STATUS_FLAGS_MESSAGE_RECEIVED \<and>
     \<not> has_state c STATUS_FLAGS_MESSAGE_CONSUMED"

definition connection_consume_message_received :: "connection \<Rightarrow> connection" where
  "connection_consume_message_received c = set_state STATUS_FLAGS_MESSAGE_CONSUMED c"

definition connection_is_message_sent :: "connection \<Rightarrow> bool" where
  "connection_is_message_sent c = has_state c STATUS_FLAGS_MESSAGE_SENT"

definition connection_is_message_sent_event :: "connection \<Rightarrow> bool" where
  "connection_is_message_sent_event c \<longleftrightarrow> has_state c STATUS_FLAGS_MESSAGE_SENT \<and>
     \<not> has_state c STATUS_FLAGS_MESSAGE_SENT_CONSUMED"

definition connection_consume_message_sent :: "connection \<Rightarrow> connection" where
  "connection_consume_message_sent c = set_state STATUS_FLAGS_MESSAGE_SENT_CONSUMED c"

definition connection_error :: "connection \<Rightarrow> connection" where
  "connection_error c = set_state STATUS_FLAGS_ERROR c"

definition connection_is_server :: "connection \<Rightarrow> bool" where
  "connection_is_server c = FLAGS_CHECK (cn_config_flags c) CONFIG_FLAGS_ISSERVER"

text \<open>The differences wrap here; in C an overflow is undefined.\<close>

definition connection_is_heartbeat_timeout :: "connection \<Rightarrow> timespec \<Rightarrow> int" where
  "connection_is_heartbeat_timeout c now =
     (let recv_diff_us = sint (now - cn_last_recv_message_time c);
          send_diff_us = sint (now - cn_last_send_message_time c)
      in if recv_diff_us sdiv 1000 > sint (cn_heartbeat_timeout_ms c) \<or>
            send_diff_us sdiv 1000 > sint (cn_heartbeat_timeout_ms c) then 2
         else if recv_diff_us sdiv 1000 > sint (cn_heartbeat_period_ms c) \<or>
                 send_diff_us sdiv 1000 > sint (cn_heartbeat_period_ms c) then 1
         else 0)"

definition connection_is_idle :: "connection \<Rightarrow> bool" where
  "connection_is_idle c = has_state c STATUS_FLAGS_IDLE"

definition connection_is_client_socket_connected :: "connection \<Rightarrow> bool" where
  "connection_is_client_socket_connected c = has_state c STATUS_FLAGS_CLIENT_SOCKET_CONNECTED"

definition connection_is_client_socket_connected_event :: "connection \<Rightarrow> bool" where
  "connection_is_client_socket_connected_event c \<longleftrightarrow> has_state c STATUS_FLAGS_CLIENT_SOCKET_CONNECTED \<and>
     \<not> has_state c STATUS_FLAGS_CLIENT_SOCKET_CONNECTED_CONSUMED"

definition connection_consume_client_socket_connected_event :: "connection \<Rightarrow> connection" where
  "connection_consume_client_socket_connected_event c = set_state STATUS_FLAGS_CLIENT_SOCKET_CONNECTED_CONSUMED c"


section \<open>Reasoning about flags\<close>

named_theorems flag_simps

lemma FLAGS_CHECK_OR [flag_simps]:
  "FLAGS_CHECK (a OR b) m \<longleftrightarrow> FLAGS_CHECK a m \<or> FLAGS_CHECK b m"
  "FLAGS_CHECK a (m OR n) \<longleftrightarrow> FLAGS_CHECK a m \<or> FLAGS_CHECK a n"
  by (auto simp: FLAGS_CHECK_def bit.conj_disj_distrib bit.conj_disj_distrib2 or_eq_0_iff)

lemma FLAGS_CHECK_CLEAR: "FLAGS_CHECK (FLAGS_CLEAR a m) n \<longleftrightarrow> FLAGS_CHECK a (n AND NOT m)"
  by (simp add: FLAGS_CHECK_def FLAGS_CLEAR_def ac_simps)

lemma has_set_state [flag_simps]: "has_state (set_state m c) n \<longleftrightarrow> has_state c n \<or> FLAGS_CHECK m n"
  by (simp add: has_state_def set_state_def FLAGS_SET_def FLAGS_CHECK_OR)

lemma has_clear_state [flag_simps]: "has_state (clear_state m c) n \<longleftrightarrow> has_state c (n AND NOT m)"
  by (simp add: has_state_def clear_state_def FLAGS_CHECK_CLEAR)

lemma has_state_0 [flag_simps]: "\<not> has_state c 0" "has_state c (m OR n) \<longleftrightarrow> has_state c m \<or> has_state c n"
  by (simp_all add: has_state_def FLAGS_CHECK_OR) (simp add: FLAGS_CHECK_def)

end
