(* ===== verification/RRL_ConnSpec.thy ===== *)
theory RRL_ConnSpec
  imports RRL_Connection
begin

text \<open>
  Properties of a connection: that it cuts the stream of received bytes into messages, whatever pieces
  the transport delivers them in, that a message is sent in full and in order, and what the control of
  a connection does in each state.
\<close>


section \<open>Framing\<close>

text \<open>
  The abstract specification. The bytes \<open>s\<close> start with the preamble of a message of
  \<open>n\<close> bytes; a stream is cut into messages, each as long as its preamble says.
\<close>

definition preamble_of :: "byte list \<Rightarrow> nat \<Rightarrow> bool" where
  "preamble_of s n \<longleftrightarrow> 12 \<le> length s \<and> take 4 s = rrac_magic \<and> unat (util_read_uint32 (drop 4 s)) = n \<and> 0 < n \<and>
     (util_read_uint16 (drop 8 s) = 2 \<or> util_read_uint16 (drop 8 s) = 4)"

inductive frames :: "byte list \<Rightarrow> byte list list \<Rightarrow> byte list \<Rightarrow> bool" where
  none: "frames s [] s"
| one: "preamble_of s n \<Longrightarrow> n \<le> length s \<Longrightarrow> frames (drop n s) ms r \<Longrightarrow> frames s (take n s # ms) r"

inductive_cases frames_NilE: "frames s [] r"
inductive_cases frames_ConsE: "frames s (m # ms) r"

lemma preamble_of_unique: "preamble_of s m \<Longrightarrow> preamble_of s n \<Longrightarrow> m = n"
  by (simp add: preamble_of_def)

lemma preamble_of_append: "preamble_of s n \<Longrightarrow> preamble_of (s @ d) n"
  by (auto simp: preamble_of_def util_read_uint32_def util_read_uint16_def)

lemma frames_append: "frames s ms r \<Longrightarrow> frames (s @ d) ms (r @ d)"
proof (induction rule: frames.induct)
  case (none s)
  then show ?case by (rule frames.none)
next
  case (one s n ms r)
  have "frames (s @ d) (take n (s @ d) # ms) (r @ d)"
    using one preamble_of_append by (intro frames.one) auto
  then show ?case using one by simp
qed

lemma frames_snoc: "frames s ms r \<Longrightarrow> preamble_of r n \<Longrightarrow> n \<le> length r \<Longrightarrow> frames s (ms @ [take n r]) (drop n r)"
proof (induction rule: frames.induct)
  case (none s)
  then show ?case using frames.one [OF none(1,2) frames.none] by simp
next
  case (one s n' ms r)
  then show ?case using frames.one [OF one.hyps(1,2)] by simp
qed

lemma frames_concat: "frames s ms r \<Longrightarrow> s = concat ms @ r"
  by (induction rule: frames.induct) (auto, metis append_take_drop_id)

text \<open>A stream is cut in one way only.\<close>

lemma frames_prefix:
  "frames s ms r \<Longrightarrow> frames s ms' r' \<Longrightarrow> take (length ms) ms' = take (length ms') ms"
proof (induction arbitrary: ms' r' rule: frames.induct)
  case (none s)
  then show ?case by simp
next
  case (one s n ms r)
  show ?case
  proof (cases ms')
    case (Cons m' ms'')
    then obtain n' where n': "preamble_of s n'" "m' = take n' s" "frames (drop n' s) ms'' r'"
      using one.prems by (auto elim: frames_ConsE)
    have "n' = n" using preamble_of_unique n'(1) one.hyps(1) by blast
    then show ?thesis using one.IH n' Cons by simp
  qed simp
qed


section \<open>Runs of a connection\<close>

text \<open>
  A run keeps the connection, the bytes received so far, and the messages that have been consumed and
  dropped from the buffer. Receiving takes \<open>recv1\<close>, some bytes from the transport at the
  position of the buffer, and \<open>recv2\<close>; the transport returns early when nothing is asked for,
  and a receive may fail after some bytes. The transport also changes its socket and its storage.
  The bytes have to fit into the buffer, or the transport would write behind it.
\<close>

record run =
  rn_conn :: connection
  rn_stream :: "byte list"
  rn_delivered :: "byte list list"

definition put_received :: "byte list \<Rightarrow> connection \<Rightarrow> connection" where
  "put_received d c = c\<lparr>cn_recv_buffer := overwrite (cn_recv_buffer c) (cn_recv_buffer_pos c) d,
     cn_recv_buffer_pos := cn_recv_buffer_pos c + length d\<rparr>"

text \<open>The message that the next \<open>recv1\<close> drops from the buffer.\<close>

definition taken :: "connection \<Rightarrow> byte list list" where
  "taken c = (if has_state c STATUS_FLAGS_MESSAGE_CONSUMED
     then [take (unat (cn_recv_message_len c)) (cn_recv_buffer c)] else [])"

inductive run_step :: "run \<Rightarrow> run \<Rightarrow> bool" where
  receive: "communicate_recv1 (rn_conn s) now l = (OK, c, n) \<Longrightarrow> 0 < n \<Longrightarrow> length d \<le> n \<Longrightarrow>
      cn_recv_buffer_pos c + length d \<le> cn_recv_buffer_len c \<Longrightarrow>
      communicate_recv2 (put_received d c) now OK = (st, c') \<Longrightarrow>
      run_step s \<lparr>rn_conn = c', rn_stream = rn_stream s @ d, rn_delivered = rn_delivered s @ taken (rn_conn s)\<rparr>"
| receive_fails: "communicate_recv1 (rn_conn s) now l = (OK, c, n) \<Longrightarrow> 0 < n \<Longrightarrow>
      cn_recv_buffer_pos c + length d \<le> cn_recv_buffer_len c \<Longrightarrow>
      communicate_recv2 (put_received d c) now (Err e) = (st, c') \<Longrightarrow>
      run_step s \<lparr>rn_conn = c', rn_stream = rn_stream s @ d, rn_delivered = rn_delivered s @ taken (rn_conn s)\<rparr>"
| receive_nothing: "communicate_recv1 (rn_conn s) now l = (OK, c, 0) \<Longrightarrow>
      run_step s (s\<lparr>rn_conn := c, rn_delivered := rn_delivered s @ taken (rn_conn s)\<rparr>)"
| consume: "connection_message_receive_consume (rn_conn s) = (OK, c) \<Longrightarrow> run_step s (s\<lparr>rn_conn := c\<rparr>)"
| send: "communicate_send1 (rn_conn s) now l = (OK, c, n) \<Longrightarrow>
      communicate_send2 (c\<lparr>cn_send_buffer_pos := p\<rparr>) now rv = (st, c') \<Longrightarrow> run_step s (s\<lparr>rn_conn := c'\<rparr>)"
| end_send: "connection_end_send_message (rn_conn s) n = (OK, c) \<Longrightarrow> run_step s (s\<lparr>rn_conn := c\<rparr>)"
| sent_consumed: "run_step s (s\<lparr>rn_conn := connection_consume_message_sent (rn_conn s)\<rparr>)"
| request_close: "connection_close (rn_conn s) = (OK, c) \<Longrightarrow> run_step s (s\<lparr>rn_conn := c\<rparr>)"
| transport: "run_step s (s\<lparr>rn_conn := (rn_conn s)\<lparr>co_sock := sk, cn_transport_storage := ts\<rparr>\<rparr>)"
| wait: "impl_prepare_wait (rn_conn s) = (OK, c) \<Longrightarrow> run_step s (s\<lparr>rn_conn := c\<rparr>)"

definition run_start :: "connection \<Rightarrow> run" where
  "run_start c = \<lparr>rn_conn = c, rn_stream = [], rn_delivered = []\<rparr>"

text \<open>A connection that is ready to receive its first message.\<close>

definition ready :: "connection \<Rightarrow> bool" where
  "ready c \<longleftrightarrow> length (cn_recv_buffer c) = cn_recv_buffer_len c \<and> cn_recv_buffer_len c < 2 ^ 63 \<and>
     cn_recv_buffer_pos c = 0 \<and> cn_recv_message_len c = 0 \<and>
     \<not> has_state c STATUS_FLAGS_MESSAGE_RECEIVED \<and> \<not> has_state c STATUS_FLAGS_MESSAGE_CONSUMED"

text \<open>The invariant of the receiving side.\<close>

definition pending :: "connection \<Rightarrow> byte list" where
  "pending c = take (cn_recv_buffer_pos c) (cn_recv_buffer c)"

definition recv_inv :: "connection \<Rightarrow> bool" where
  "recv_inv c \<longleftrightarrow>
     length (cn_recv_buffer c) = cn_recv_buffer_len c \<and> cn_recv_buffer_len c < 2 ^ 63 \<and>
     cn_recv_buffer_pos c \<le> cn_recv_buffer_len c \<and>
     (has_state c STATUS_FLAGS_MESSAGE_RECEIVED \<longrightarrow>
        preamble_of (pending c) (unat (cn_recv_message_len c)) \<and> unat (cn_recv_message_len c) \<le> cn_recv_buffer_pos c \<and>
        \<not> has_state c STATUS_FLAGS_RECEIVE_REQUESTED) \<and>
     (has_state c STATUS_FLAGS_MESSAGE_CONSUMED \<longrightarrow> has_state c STATUS_FLAGS_MESSAGE_RECEIVED) \<and>
     (\<not> has_state c STATUS_FLAGS_ERROR \<longrightarrow> cn_recv_message_len c \<noteq> 0 \<longrightarrow>
        preamble_of (pending c) (unat (cn_recv_message_len c)))"

text \<open>The part of a connection the receiving side depends on; errors may be added to it.\<close>

definition recv_view where
  "recv_view c = (cn_recv_buffer c, cn_recv_buffer_len c, cn_recv_buffer_pos c, cn_recv_message_len c,
     has_state c STATUS_FLAGS_MESSAGE_RECEIVED, has_state c STATUS_FLAGS_MESSAGE_CONSUMED,
     has_state c STATUS_FLAGS_RECEIVE_REQUESTED)"

lemma recv_inv_view:
  "recv_inv c \<Longrightarrow> recv_view c' = recv_view c \<Longrightarrow> (has_state c STATUS_FLAGS_ERROR \<Longrightarrow> has_state c' STATUS_FLAGS_ERROR) \<Longrightarrow> recv_inv c'"
  by (auto simp: recv_inv_def recv_view_def pending_def)

lemma state_fields [simp]:
  "cn_recv_buffer (set_state m c) = cn_recv_buffer c" "cn_recv_buffer (clear_state m c) = cn_recv_buffer c"
  "cn_recv_buffer_len (set_state m c) = cn_recv_buffer_len c" "cn_recv_buffer_len (clear_state m c) = cn_recv_buffer_len c"
  "cn_recv_buffer_pos (set_state m c) = cn_recv_buffer_pos c" "cn_recv_buffer_pos (clear_state m c) = cn_recv_buffer_pos c"
  "cn_recv_message_len (set_state m c) = cn_recv_message_len c" "cn_recv_message_len (clear_state m c) = cn_recv_message_len c"
  "cn_send_buffer (set_state m c) = cn_send_buffer c" "cn_send_buffer (clear_state m c) = cn_send_buffer c"
  "cn_send_buffer_pos (set_state m c) = cn_send_buffer_pos c" "cn_send_buffer_pos (clear_state m c) = cn_send_buffer_pos c"
  "cn_send_message_len (set_state m c) = cn_send_message_len c" "cn_send_message_len (clear_state m c) = cn_send_message_len c"
  "pending (c\<lparr>cn_last_recv_message_time := t\<rparr>) = pending c"
  "pending (set_state m c) = pending c" "pending (clear_state m c) = pending c"
  by (simp_all add: set_state_def clear_state_def pending_def)

lemma has_state_upd [simp]:
  "has_state (c\<lparr>cn_recv_message_len := v\<rparr>) m = has_state c m"
  "has_state (c\<lparr>cn_last_recv_message_time := t\<rparr>) m = has_state c m"
  "has_state (c\<lparr>cn_last_send_message_time := t\<rparr>) m = has_state c m"
  "has_state (c\<lparr>cn_recv_buffer := b, cn_recv_buffer_pos := p\<rparr>) m = has_state c m"
  "has_state (c\<lparr>cn_recv_buffer := b, cn_recv_buffer_pos := p, cn_recv_message_len := v\<rparr>) m = has_state c m"
  "has_state (c\<lparr>cn_send_buffer_pos := p\<rparr>) m = has_state c m"
  "has_state (c\<lparr>cn_send_message_len := v\<rparr>) m = has_state c m"
  "has_state (c\<lparr>cn_send_buffer_pos := p, cn_send_message_len := v\<rparr>) m = has_state c m"
  "has_state (c\<lparr>co_sock := sk\<rparr>) m = has_state c m"
  by (simp_all add: has_state_def)

lemmas conn_flag_simps = flag_simps status_flags_defs FLAGS_CHECK_def


lemma length_pending: "recv_inv c \<Longrightarrow> length (pending c) = cn_recv_buffer_pos c"
  by (simp add: recv_inv_def pending_def)

lemma drop_consumed_inv:
  assumes inv: "recv_inv c" and con: "has_state c STATUS_FLAGS_MESSAGE_CONSUMED"
  shows "\<exists>c1. drop_consumed c = (OK, c1) \<and> recv_inv c1 \<and> pending c1 = drop (unat (cn_recv_message_len c)) (pending c) \<and>
    cn_recv_message_len c1 = 0 \<and> cn_recv_buffer_len c1 = cn_recv_buffer_len c \<and>
    cn_recv_buffer_pos c1 = cn_recv_buffer_pos c - unat (cn_recv_message_len c) \<and>
    has_state c1 STATUS_FLAGS_RECEIVE_REQUESTED \<and> \<not> has_state c1 STATUS_FLAGS_MESSAGE_RECEIVED \<and>
    \<not> has_state c1 STATUS_FLAGS_MESSAGE_CONSUMED \<and>
    has_state c1 STATUS_FLAGS_ERROR = has_state c STATUS_FLAGS_ERROR"
proof -
  let ?m = "unat (cn_recv_message_len c)" and ?p = "cn_recv_buffer_pos c" and ?b = "cn_recv_buffer c"
  have m: "?m \<le> ?p" "?p \<le> length ?b" "?p < 2 ^ 63"
    using inv con by (auto simp: recv_inv_def)
  have n: "sz_sub ?p ?m = ?p - ?m" using m by (simp add: sz_sub_nowrap)
  define b where "b = (if ?p > ?m then overwrite ?b 0 (chunk ?b ?m (?p - ?m)) else ?b)"
  have mv: "(if ?p > ?m then move_to_start ?b ?m (?p - ?m) else Some ?b) = Some b"
    using m by (simp add: b_def move_to_start_def)
  have b: "length b = length ?b" "take (?p - ?m) b = drop ?m (take ?p ?b)"
    using m by (auto simp: b_def overwrite_def chunk_def drop_take)
  have le: "?p - ?m \<le> cn_recv_buffer_len c" using inv by (auto simp: recv_inv_def)
  show ?thesis
    using inv m b le
    by (simp add: drop_consumed_def n mv recv_inv_def conn_flag_simps)
       (simp add: set_state_def clear_state_def pending_def)
qed

text \<open>What \<open>recv1\<close> leaves behind when it succeeds.\<close>

lemma recv1_inv:
  assumes inv: "recv_inv c" and r: "communicate_recv1 c now l = (OK, c1, n)" and fr: "frames s ms (pending c)"
  shows "recv_inv c1" and "frames s (ms @ taken c) (pending c1)" and "\<not> has_state c1 STATUS_FLAGS_ERROR"
    and "\<not> has_state c1 STATUS_FLAGS_MESSAGE_CONSUMED" and "0 < n \<Longrightarrow> has_state c1 STATUS_FLAGS_RECEIVE_REQUESTED"
proof -
  have e: "\<not> has_state c STATUS_FLAGS_ERROR" using r by (auto simp: communicate_recv1_def split: if_splits)
  have "recv_inv c1 \<and> frames s (ms @ taken c) (pending c1) \<and> \<not> has_state c1 STATUS_FLAGS_ERROR \<and>
    \<not> has_state c1 STATUS_FLAGS_MESSAGE_CONSUMED \<and> (0 < n \<longrightarrow> has_state c1 STATUS_FLAGS_RECEIVE_REQUESTED)"
  proof (cases "has_state c STATUS_FLAGS_MESSAGE_CONSUMED")
    case True
    let ?m = "unat (cn_recv_message_len c)"
    obtain c' where d: "drop_consumed c = (OK, c')" "recv_inv c'" "pending c' = drop ?m (pending c)"
      "\<not> has_state c' STATUS_FLAGS_MESSAGE_CONSUMED" "has_state c' STATUS_FLAGS_ERROR = has_state c STATUS_FLAGS_ERROR"
      "has_state c' STATUS_FLAGS_RECEIVE_REQUESTED"
      using drop_consumed_inv [OF inv True] by blast
    have h: "preamble_of (pending c) ?m" "?m \<le> length (pending c)"
      using inv True length_pending [OF inv] by (auto simp: recv_inv_def)
    have t: "taken c = [take ?m (pending c)]"
      using True h length_pending [OF inv] by (simp add: taken_def pending_def min_absorb1)
    have "c1 = c'" using r e True d(1) by (simp add: communicate_recv1_def)
    then show ?thesis using d e frames_snoc [OF fr h] by (simp add: t)
  next
    case False
    then show ?thesis
      using r e inv fr by (auto simp: communicate_recv1_def taken_def split: if_splits)
  qed
  then show "recv_inv c1" "frames s (ms @ taken c) (pending c1)" "\<not> has_state c1 STATUS_FLAGS_ERROR"
    "\<not> has_state c1 STATUS_FLAGS_MESSAGE_CONSUMED" "0 < n \<Longrightarrow> has_state c1 STATUS_FLAGS_RECEIVE_REQUESTED"
    by auto
qed

lemma put_received_fields:
  assumes "recv_inv c" and "cn_recv_buffer_pos c + length d \<le> cn_recv_buffer_len c"
  shows "pending (put_received d c) = pending c @ d"
    and "cn_recv_buffer_pos (put_received d c) = length (pending c @ d)"
    and "length (cn_recv_buffer (put_received d c)) = cn_recv_buffer_len c"
    and "cn_recv_buffer_len (put_received d c) = cn_recv_buffer_len c"
    and "cn_recv_message_len (put_received d c) = cn_recv_message_len c"
    and "has_state (put_received d c) m = has_state c m"
  using assms by (auto simp: put_received_def pending_def recv_inv_def overwrite_def has_state_def)

text \<open>The preamble is judged by the bytes received so far.\<close>

lemma preamble_pending:
  assumes p: "12 \<le> cn_recv_buffer_pos c" "cn_recv_buffer_pos c \<le> length (cn_recv_buffer c)"
  shows "take 4 (cn_recv_buffer c) = take 4 (pending c)"
    and "util_read_uint32 (drop 4 (cn_recv_buffer c)) = util_read_uint32 (drop 4 (pending c))"
    and "util_read_uint16 (drop 8 (cn_recv_buffer c)) = util_read_uint16 (drop 8 (pending c))"
  using p by (simp_all add: pending_def util_read_uint32_def util_read_uint16_def min_def drop_take)

text \<open>The message is complete or not: the invariant after the flags have been set.\<close>

definition note_complete :: "timespec \<Rightarrow> connection \<Rightarrow> connection" where
  "note_complete now c =
     (if cn_recv_message_len c > 0 \<and> cn_recv_buffer_pos c \<ge> unat (cn_recv_message_len c)
      then (set_state STATUS_FLAGS_MESSAGE_RECEIVED
              (clear_state STATUS_FLAGS_RECEIVE_REQUESTED c))\<lparr>cn_last_recv_message_time := now\<rparr>
      else c)"

lemma note_complete_inv:
  assumes "cn_recv_buffer_pos c \<le> cn_recv_buffer_len c" and "length (cn_recv_buffer c) = cn_recv_buffer_len c"
    and "cn_recv_buffer_len c < 2 ^ 63"
    and "\<not> has_state c STATUS_FLAGS_MESSAGE_RECEIVED" and "\<not> has_state c STATUS_FLAGS_MESSAGE_CONSUMED"
    and "cn_recv_message_len c \<noteq> 0 \<Longrightarrow> preamble_of (pending c) (unat (cn_recv_message_len c))"
    and "12 \<le> cn_recv_buffer_pos c \<Longrightarrow> cn_recv_message_len c = 0 \<Longrightarrow> \<not> preamble_of (pending c) n"
  shows "recv_inv (note_complete now c)" and "pending (note_complete now c) = pending c"
    and "preamble_of (pending c) n \<Longrightarrow> n \<le> length (pending c) \<Longrightarrow>
       has_state (note_complete now c) STATUS_FLAGS_MESSAGE_RECEIVED"
proof -
  show p: "pending (note_complete now c) = pending c"
    by (simp add: note_complete_def pending_def set_state_def clear_state_def)
  show "recv_inv (note_complete now c)"
    using assms
    by (cases "cn_recv_message_len c > 0 \<and> cn_recv_buffer_pos c \<ge> unat (cn_recv_message_len c)")
       (auto simp: recv_inv_def note_complete_def word_gt_0, simp_all add: conn_flag_simps)
  assume pr: "preamble_of (pending c) n" "n \<le> length (pending c)"
  have l: "length (pending c) = cn_recv_buffer_pos c" using assms(1,2) by (simp add: pending_def)
  have "12 \<le> cn_recv_buffer_pos c" using pr l by (simp add: preamble_of_def)
  then have "cn_recv_message_len c \<noteq> 0" using assms(7) pr by blast
  then have "cn_recv_message_len c > 0 \<and> cn_recv_buffer_pos c \<ge> unat (cn_recv_message_len c)"
    using assms(6) pr l preamble_of_unique by (fastforce simp: word_gt_0)
  then show "has_state (note_complete now c) STATUS_FLAGS_MESSAGE_RECEIVED"
    by (simp add: note_complete_def conn_flag_simps)
qed

lemma recv2_inv:
  assumes inv: "recv_inv c" and ne: "\<not> has_state c STATUS_FLAGS_ERROR" and nc: "\<not> has_state c STATUS_FLAGS_MESSAGE_CONSUMED"
    and rq: "has_state c STATUS_FLAGS_RECEIVE_REQUESTED"
    and fit: "cn_recv_buffer_pos c + length d \<le> cn_recv_buffer_len c"
    and r: "communicate_recv2 (put_received d c) now OK = (st, c')"
  shows "recv_inv c'" and "pending c' = pending c @ d"
    and "st = OK \<Longrightarrow> preamble_of (pending c') n \<Longrightarrow> n \<le> length (pending c') \<Longrightarrow> has_state c' STATUS_FLAGS_MESSAGE_RECEIVED"
proof -
  let ?c = "put_received d c"
  note f = put_received_fields [OF inv fit]
  have nr: "\<not> has_state ?c STATUS_FLAGS_MESSAGE_RECEIVED" using inv rq f(6) by (auto simp: recv_inv_def)
  have pos: "cn_recv_buffer_pos ?c \<le> cn_recv_buffer_len ?c" "length (cn_recv_buffer ?c) = cn_recv_buffer_len ?c"
      "cn_recv_buffer_len ?c < 2 ^ 63" "cn_recv_buffer_pos ?c = length (pending ?c)"
    using fit f inv length_pending [OF inv] by (auto simp: recv_inv_def)
  have old: "cn_recv_message_len ?c \<noteq> 0 \<Longrightarrow> preamble_of (pending ?c) (unat (cn_recv_message_len ?c))"
    using inv ne preamble_of_append by (auto simp: recv_inv_def f)
  have le: "cn_recv_buffer_pos ?c \<le> length (cn_recv_buffer ?c)" using pos by simp
  have *: "recv_inv c' \<and> pending c' = pending ?c \<and>
     (st = OK \<longrightarrow> preamble_of (pending c') n \<longrightarrow> n \<le> length (pending c') \<longrightarrow> has_state c' STATUS_FLAGS_MESSAGE_RECEIVED)"
  proof (cases "12 \<le> cn_recv_buffer_pos ?c \<and> cn_recv_message_len ?c = 0")
    case False
    have v: "connection_verify_preamble ?c (cn_recv_message_len ?c) = (OK, ?c, cn_recv_message_len ?c)"
      using False by (auto simp: connection_verify_preamble_def)
    have c': "c' = note_complete now ?c" "st = OK"
      using r by (auto simp: communicate_recv2_def v note_complete_def split: if_splits)
    show ?thesis
      using note_complete_inv [OF pos(1-3) nr _ old, of n now] False nc f(6) by (auto simp: c')
  next
    case True
    let ?n = "util_read_uint32 (drop 4 (cn_recv_buffer ?c))" and ?v = "util_read_uint16 (drop 8 (cn_recv_buffer ?c))"
    let ?c1 = "?c\<lparr>cn_recv_message_len := ?n\<rparr>"
    have pend: "pending ?c1 = pending ?c" "pending (preamble_error x) = pending x" for x
      by (simp_all add: pending_def preamble_error_def)
    have pre: "preamble_of (pending ?c) m \<longleftrightarrow> take 4 (cn_recv_buffer ?c) = rrac_magic \<and> unat ?n = m \<and> 0 < m \<and> (?v = 2 \<or> ?v = 4)" for m
      using preamble_pending [OF conjunct1 [OF True] le] True pos(4) by (simp add: preamble_of_def)
    consider (magic) "take 4 (cn_recv_buffer ?c) \<noteq> rrac_magic"
      | (version) "take 4 (cn_recv_buffer ?c) = rrac_magic" "?v \<noteq> 2" "?v \<noteq> 4"
      | (ok) "take 4 (cn_recv_buffer ?c) = rrac_magic" "?v = 2 \<or> ?v = 4" by blast
    then show ?thesis
    proof cases
      case magic
      then have "c' = preamble_error (preamble_error ?c)" "st = Err CONNECTION_ERROR"
        using r True by (simp_all add: communicate_recv2_def connection_verify_preamble_def)
      then show ?thesis
        using nr nc f(6) pos by (simp add: recv_inv_def preamble_error_def conn_flag_simps)
    next
      case version
      then have "c' = preamble_error (preamble_error ?c1)" "st = Err CONNECTION_ERROR"
        using r True by (auto simp: communicate_recv2_def connection_verify_preamble_def Let_def)
      then show ?thesis
        using nr nc f(6) pos pend by (simp add: recv_inv_def preamble_error_def conn_flag_simps)
    next
      case ok
      have c': "c' = note_complete now ?c1" "st = OK"
        using r True ok by (auto simp: communicate_recv2_def connection_verify_preamble_def note_complete_def Let_def
            split: if_splits)
      have 6: "cn_recv_message_len ?c1 \<noteq> 0 \<Longrightarrow> preamble_of (pending ?c1) (unat (cn_recv_message_len ?c1))"
        and 7: "cn_recv_message_len ?c1 = 0 \<Longrightarrow> \<not> preamble_of (pending ?c1) n"
        using pre ok(1) ok(2) unfolding pend by (auto simp: unat_gt_0)
      have "recv_inv (note_complete now ?c1)" "pending (note_complete now ?c1) = pending ?c1"
        "preamble_of (pending ?c1) n \<Longrightarrow> n \<le> length (pending ?c1) \<Longrightarrow>
           has_state (note_complete now ?c1) STATUS_FLAGS_MESSAGE_RECEIVED"
        by (rule note_complete_inv [OF _ _ _ _ _ 6 7]; use pos nr nc f(6) in simp)+
      then show ?thesis using pend by (simp add: c')
    qed
  qed
  then show "recv_inv c'" "pending c' = pending c @ d"
    "st = OK \<Longrightarrow> preamble_of (pending c') n \<Longrightarrow> n \<le> length (pending c') \<Longrightarrow> has_state c' STATUS_FLAGS_MESSAGE_RECEIVED"
    by (auto simp: f)
qed


text \<open>The other operations leave the receiving side alone.\<close>

lemma recv_view_simps [simp]:
  "recv_view (c\<lparr>cn_last_send_message_time := t\<rparr>) = recv_view c"
  "recv_view (c\<lparr>cn_send_buffer_pos := p\<rparr>) = recv_view c"
  "recv_view (c\<lparr>cn_send_message_len := n\<rparr>) = recv_view c"
  "recv_view (c\<lparr>cn_send_buffer_pos := p, cn_send_message_len := n\<rparr>) = recv_view c"
  "recv_view (c\<lparr>co_sock := sk\<rparr>) = recv_view c"
  by (simp_all add: recv_view_def)

lemma pending_view: "recv_view c' = recv_view c \<Longrightarrow> pending c' = pending c"
  by (simp add: recv_view_def pending_def)

lemma send1_view:
  assumes "communicate_send1 c now l = (OK, c', n)"
  shows "recv_view c' = recv_view c" and "has_state c STATUS_FLAGS_ERROR \<Longrightarrow> has_state c' STATUS_FLAGS_ERROR"
  using assms
  by (auto simp: communicate_send1_def split: if_splits) (simp_all add: recv_view_def conn_flag_simps)

lemma send2_view:
  assumes "communicate_send2 c now rv = (st, c')"
  shows "recv_view c' = recv_view c" and "has_state c STATUS_FLAGS_ERROR \<Longrightarrow> has_state c' STATUS_FLAGS_ERROR"
  using assms
  by (auto simp: communicate_send2_def split: if_splits) (simp_all add: recv_view_def conn_flag_simps)

definition run_inv :: "run \<Rightarrow> bool" where
  "run_inv s \<longleftrightarrow> recv_inv (rn_conn s) \<and> frames (rn_stream s) (rn_delivered s) (pending (rn_conn s))"

lemma run_inv_view:
  "run_inv s \<Longrightarrow> recv_view c = recv_view (rn_conn s) \<Longrightarrow>
     (has_state (rn_conn s) STATUS_FLAGS_ERROR \<Longrightarrow> has_state c STATUS_FLAGS_ERROR) \<Longrightarrow> run_inv (s\<lparr>rn_conn := c\<rparr>)"
  using recv_inv_view [of "rn_conn s" c] pending_view [of c "rn_conn s"] by (simp add: run_inv_def)

lemma run_step_inv: "run_step s s' \<Longrightarrow> run_inv s \<Longrightarrow> run_inv s'"
proof (induction rule: run_step.induct)
  case (receive s now l c n d st c')
  have i: "recv_inv (rn_conn s)" "frames (rn_stream s) (rn_delivered s) (pending (rn_conn s))"
    using receive.prems by (simp_all add: run_inv_def)
  note a = recv1_inv [OF i(1) receive.hyps(1) i(2)]
  note b = recv2_inv [OF a(1,3,4) a(5) [OF receive.hyps(2)] receive.hyps(4,5)]
  show ?case using b(1,2) frames_append [OF a(2)] by (simp add: run_inv_def)
next
  case (receive_fails s now l c n d e st c')
  have i: "recv_inv (rn_conn s)" "frames (rn_stream s) (rn_delivered s) (pending (rn_conn s))"
    using receive_fails.prems by (simp_all add: run_inv_def)
  note a = recv1_inv [OF i(1) receive_fails.hyps(1) i(2)]
  have c': "c' = preamble_error (put_received d c)" using receive_fails.hyps(4) by (simp add: communicate_recv2_def)
  note f = put_received_fields [OF a(1) receive_fails.hyps(3)]
  have "\<not> has_state c STATUS_FLAGS_MESSAGE_RECEIVED"
    using a(1) a(5) [OF receive_fails.hyps(2)] by (auto simp: recv_inv_def)
  then have "recv_inv c'"
    using a(1,4) f receive_fails.hyps(3) length_pending [OF a(1)]
    by (simp add: c' recv_inv_def preamble_error_def conn_flag_simps)
  moreover have "pending c' = pending c @ d" by (simp add: c' preamble_error_def f(1))
  ultimately show ?case using frames_append [OF a(2)] by (simp add: run_inv_def)
next
  case (receive_nothing s now l c)
  have i: "recv_inv (rn_conn s)" "frames (rn_stream s) (rn_delivered s) (pending (rn_conn s))"
    using receive_nothing.prems by (simp_all add: run_inv_def)
  show ?case using recv1_inv [OF i(1) receive_nothing.hyps i(2)] by (simp add: run_inv_def)
next
  case (consume s c)
  then show ?case
    by (auto simp: run_inv_def connection_message_receive_consume_def recv_inv_def split: if_splits)
       (simp_all add: conn_flag_simps)
next
  case (send s now l c n p rv st c')
  then show ?case
    using send1_view [OF send.hyps(1)] send2_view [OF send.hyps(2)] by (intro run_inv_view) auto
next
  case (end_send s n c)
  then show ?case
    by (intro run_inv_view) (auto simp: connection_end_send_message_def recv_view_def conn_flag_simps)
next
  case (sent_consumed s)
  then show ?case
    by (intro run_inv_view) (auto simp: connection_consume_message_sent_def recv_view_def conn_flag_simps)
next
  case (request_close s c)
  then show ?case
    by (intro run_inv_view) (auto simp: connection_close_def recv_view_def conn_flag_simps split: if_splits)
next
  case (transport s sk ts)
  then show ?case by (intro run_inv_view) (simp_all add: recv_view_def has_state_def)
next
  case (wait s c)
  then show ?case
    by (intro run_inv_view) (auto simp: impl_prepare_wait_def recv_view_def Let_def split: if_splits)
qed

lemma ready_inv: "ready c \<Longrightarrow> run_inv (run_start c)"
  by (auto simp: ready_def run_inv_def run_start_def recv_inv_def pending_def intro: frames.none)

lemma run_inv_reachable: "run_step\<^sup>*\<^sup>* (run_start c) s \<Longrightarrow> ready c \<Longrightarrow> run_inv s"
  by (induction rule: rtranclp_induct) (auto intro: ready_inv run_step_inv)

text \<open>A connected connection with buffers of 64 bytes, and a message of 14 bytes, for the witnesses.\<close>

definition sample_connection :: connection where
  "sample_connection =
     \<lparr>co_type = 1, co_transport_type = 1, co_next = 0, co_prev = 0, co_sock = zero_socket, co_ops = 0,
      cn_send_buffer = replicate 64 7, cn_recv_buffer = replicate 64 0, cn_send_buffer_len = 64,
      cn_recv_buffer_len = 64, cn_send_buffer_pos = 0, cn_recv_buffer_pos = 0, cn_config_flags = 0,
      cn_connection_state = 0x42, cn_heartbeat_period_ms = 5000, cn_heartbeat_timeout_ms = 15000,
      cn_heartbeat_next_check_us = 0, cn_local_endpoint = 0, cn_remote_endpoint = 0,
      cn_remote_nodeid = nodeid_any, cn_remote_nodename_char = replicate 128 0, cn_remote_nodename = [],
      cn_remote_service_name_char = replicate 128 0, cn_remote_service_name = [],
      cn_last_recv_message_time = 0, cn_last_send_message_time = 0, cn_last_request_id = 0,
      cn_message_flags_inv_mask = 0, cn_recv_message_len = 0, cn_send_message_len = 0,
      cn_transport_storage = zero_transport_storage, cn_user_data_type_code = 0, cn_user_data = 0,
      cn_transport_next_wake = 0, cn_service = 0, cn_client = 0\<rparr>"

definition sample_bytes :: "byte list" where
  "sample_bytes = [82, 82, 65, 67, 14, 0, 0, 0, 4, 0, 1, 2, 3, 4]"

lemma sample_ready: "ready sample_connection"
  by (simp add: ready_def sample_connection_def has_state_def status_flags_defs FLAGS_CHECK_def)

lemma sample_recv1: "communicate_recv1 sample_connection 5 0 = (OK, sample_connection, 64)"
  by (simp add: communicate_recv1_def) (simp add: sample_connection_def has_state_def status_flags_defs FLAGS_CHECK_def)

lemma sample_preamble: "preamble_of (sample_bytes @ d) 14"
  by (simp add: preamble_of_def sample_bytes_def rrac_magic_def util_read_uint32_def util_read_uint16_def
      bytes_u32_def bytes_u16_def)

text \<open>One receiving step of the sample connection: the message, and bytes that follow it.\<close>

lemma sample_receive:
  assumes "length d \<le> 50"
  shows "\<exists>st c. communicate_recv2 (put_received (sample_bytes @ d) sample_connection) 5 OK = (st, c) \<and>
     pending c = sample_bytes @ d \<and> recv_inv c \<and>
     run_step (run_start sample_connection)
       \<lparr>rn_conn = c, rn_stream = sample_bytes @ d, rn_delivered = []\<rparr>"
proof -
  obtain st c where r: "communicate_recv2 (put_received (sample_bytes @ d) sample_connection) 5 OK = (st, c)"
    by (metis surj_pair)
  have i: "recv_inv sample_connection" "pending sample_connection = []"
    using ready_inv [OF sample_ready] by (simp_all add: run_inv_def run_start_def) (simp add: sample_connection_def pending_def)
  have fit: "cn_recv_buffer_pos sample_connection + length (sample_bytes @ d) \<le> cn_recv_buffer_len sample_connection"
    using assms by (simp add: sample_connection_def sample_bytes_def)
  note a = recv1_inv [OF i(1) sample_recv1 frames.none]
  note b = recv2_inv [OF i(1) a(3,4) a(5) fit r]
  have t: "taken sample_connection = []"
    by (simp add: taken_def) (simp add: sample_connection_def has_state_def status_flags_defs FLAGS_CHECK_def)
  have l: "length (sample_bytes @ d) \<le> 64" using assms by (simp add: sample_bytes_def)
  have "run_step (run_start sample_connection)
       \<lparr>rn_conn = c, rn_stream = rn_stream (run_start sample_connection) @ (sample_bytes @ d),
        rn_delivered = rn_delivered (run_start sample_connection) @ taken (rn_conn (run_start sample_connection))\<rparr>"
    by (rule run_step.receive [where l = 0, OF _ _ l fit r]) (simp_all add: run_start_def sample_recv1)
  then show ?thesis using r b(1,2) i(2) by (auto simp: run_start_def t)
qed

text \<open>
  C21. A connection cuts the stream it receives into messages by their own sizes, in whatever pieces the
  transport delivers the bytes and however sending, waiting and closing interleave: the messages
  consumed so far and the bytes in the buffer are the stream, each message starts with the preamble of
  a message of its length, and when the connection reports a message, the buffer starts with exactly
  the next one.
\<close>

theorem connection_frames_stream:
  assumes "ready c" and "run_step\<^sup>*\<^sup>* (run_start c) s"
  shows "frames (rn_stream s) (rn_delivered s) (pending (rn_conn s)) \<and>
    rn_stream s = concat (rn_delivered s) @ pending (rn_conn s) \<and>
    (has_state (rn_conn s) STATUS_FLAGS_MESSAGE_RECEIVED \<longrightarrow>
       (\<exists>n. preamble_of (pending (rn_conn s)) n \<and> n \<le> length (pending (rn_conn s)) \<and>
            unat (cn_recv_message_len (rn_conn s)) = n))"
proof -
  have i: "run_inv s" by (rule run_inv_reachable [OF assms(2,1)])
  then show ?thesis
    using frames_concat length_pending [of "rn_conn s"] by (auto simp: run_inv_def recv_inv_def)
qed

lemma connection_frames_stream_witness:
  "\<exists>s. run_step\<^sup>*\<^sup>* (run_start sample_connection) s \<and> rn_stream s = sample_bytes @ [1, 2] \<and>
     rn_stream s = concat (rn_delivered s) @ pending (rn_conn s)"
proof -
  obtain s where s: "run_step (run_start sample_connection) s" "rn_stream s = sample_bytes @ [1, 2]"
    using sample_receive [of "[1, 2]"] by fastforce
  then show ?thesis using connection_frames_stream [OF sample_ready r_into_rtranclp [of run_step, OF s(1)]] by blast
qed

text \<open>
  The pieces do not matter: two connections that have received the same stream in different pieces, with
  any interleaving of the other operations, have delivered the same messages in the same order, as far as they
  have been consumed.
\<close>

theorem chunking_does_not_matter:
  assumes "ready c" and "run_step\<^sup>*\<^sup>* (run_start c) s" and "ready d" and "run_step\<^sup>*\<^sup>* (run_start d) t"
    and "rn_stream s = rn_stream t"
  shows "take (length (rn_delivered t)) (rn_delivered s) = take (length (rn_delivered s)) (rn_delivered t)"
  using run_inv_reachable [OF assms(2,1)] run_inv_reachable [OF assms(4,3)] assms(5)
    frames_prefix [of "rn_stream t" "rn_delivered t" _ "rn_delivered s"]
  by (auto simp: run_inv_def)

lemma chunking_does_not_matter_witness:
  "\<exists>s t. run_step\<^sup>*\<^sup>* (run_start sample_connection) s \<and> run_step\<^sup>*\<^sup>* (run_start sample_connection) t \<and>
     rn_stream s = sample_bytes @ [1, 2] \<and>
     take (length (rn_delivered t)) (rn_delivered s) = take (length (rn_delivered s)) (rn_delivered t)"
proof -
  obtain s where s: "run_step (run_start sample_connection) s" "rn_stream s = sample_bytes @ [1, 2]"
    using sample_receive [of "[1, 2]"] by fastforce
  note r = r_into_rtranclp [of run_step, OF s(1)]
  show ?thesis using chunking_does_not_matter [OF sample_ready r sample_ready r refl] r s(2) by blast
qed

text \<open>
  C35. A complete message does not stay unnoticed: after bytes were received without an error, if the buffer
  starts with a complete message, the connection reports it.
\<close>

theorem complete_message_reported:
  assumes "ready c" and "run_step\<^sup>*\<^sup>* (run_start c) s"
    and "communicate_recv1 (rn_conn s) now l = (OK, c1, n)" and "0 < n"
    and "cn_recv_buffer_pos c1 + length d \<le> cn_recv_buffer_len c1"
    and "communicate_recv2 (put_received d c1) now OK = (OK, c2)"
    and "preamble_of (pending c2) m" and "m \<le> length (pending c2)"
  shows "has_state c2 STATUS_FLAGS_MESSAGE_RECEIVED \<and> unat (cn_recv_message_len c2) = m"
proof -
  have i: "recv_inv (rn_conn s)" "frames (rn_stream s) (rn_delivered s) (pending (rn_conn s))"
    using run_inv_reachable [OF assms(2,1)] by (simp_all add: run_inv_def)
  note a = recv1_inv [OF i(1) assms(3) i(2)]
  note b = recv2_inv [OF a(1,3,4) a(5) [OF assms(4)] assms(5,6)]
  have r: "has_state c2 STATUS_FLAGS_MESSAGE_RECEIVED" by (rule b(3) [OF refl assms(7,8)])
  then have "preamble_of (pending c2) (unat (cn_recv_message_len c2))" using b(1) by (simp add: recv_inv_def)
  then show ?thesis using r preamble_of_unique assms(7) by blast
qed

lemma complete_message_reported_witness:
  "\<exists>st c. communicate_recv2 (put_received sample_bytes sample_connection) 5 OK = (st, c) \<and> st = OK \<and>
     has_state c STATUS_FLAGS_MESSAGE_RECEIVED \<and> unat (cn_recv_message_len c) = 14"
proof -
  obtain st c where r: "communicate_recv2 (put_received sample_bytes sample_connection) 5 OK = (st, c)"
     "pending c = sample_bytes"
    using sample_receive [of "[]"] by auto
  have st: "st = OK"
    using r(1) by (auto simp: communicate_recv2_def connection_verify_preamble_def put_received_def sample_connection_def
        sample_bytes_def overwrite_def rrac_magic_def util_read_uint16_def bytes_u16_def Let_def split: if_splits)
  have p: "preamble_of (pending c) 14" "14 \<le> length (pending c)"
    using sample_preamble [of "[]"] by (simp_all add: r(2)) (simp add: sample_bytes_def)
  have one: "communicate_recv1 (rn_conn (run_start sample_connection)) 5 0 = (OK, sample_connection, 64)"
    by (simp add: run_start_def sample_recv1)
  have fit: "cn_recv_buffer_pos sample_connection + length sample_bytes \<le> cn_recv_buffer_len sample_connection"
    by (simp add: sample_connection_def sample_bytes_def)
  show ?thesis
    using complete_message_reported [OF sample_ready rtranclp.rtrancl_refl one _ fit r(1) [unfolded st] p] r(1) st by auto
qed

end
