(* ===== verification/RRL_ConnLife.thy ===== *)
theory RRL_ConnLife
  imports RRL_ConnSpec
begin

text \<open>
  More properties of a connection: the receiving side asks for more bytes than the buffer has room
  for, a message is sent in full and in order, and a connection goes through its closing states back to
  idle.
\<close>


section \<open>Room in the receive buffer\<close>

text \<open>What \<open>recv2\<close> does when the bytes start with a complete message.\<close>

lemma recv2_complete:
  assumes inv: "recv_inv c" and ne: "\<not> has_state c STATUS_FLAGS_ERROR" and nc: "\<not> has_state c STATUS_FLAGS_MESSAGE_CONSUMED"
    and rq: "has_state c STATUS_FLAGS_RECEIVE_REQUESTED" and z: "cn_recv_message_len c = 0"
    and fit: "cn_recv_buffer_pos c + length d \<le> cn_recv_buffer_len c"
    and p: "preamble_of (pending c @ d) n" "n \<le> length (pending c @ d)"
  shows "\<exists>c'. communicate_recv2 (put_received d c) now OK = (OK, c') \<and> recv_inv c' \<and> pending c' = pending c @ d \<and>
    has_state c' STATUS_FLAGS_MESSAGE_RECEIVED \<and> \<not> has_state c' STATUS_FLAGS_ERROR \<and>
    unat (cn_recv_message_len c') = n \<and> cn_recv_buffer_len c' = cn_recv_buffer_len c"
proof -
  let ?c = "put_received d c"
  note f = put_received_fields [OF inv fit]
  have le: "12 \<le> cn_recv_buffer_pos ?c" "cn_recv_buffer_pos ?c \<le> length (cn_recv_buffer ?c)"
    using p fit f length_pending [OF inv] by (auto simp: preamble_of_def)
  note q = preamble_pending [OF le, unfolded f(1)]
  have v: "connection_verify_preamble ?c (cn_recv_message_len ?c) =
      (OK, ?c\<lparr>cn_recv_message_len := util_read_uint32 (drop 4 (cn_recv_buffer ?c))\<rparr>,
       util_read_uint32 (drop 4 (cn_recv_buffer ?c)))"
    using p(1) q le f(5) z by (auto simp: connection_verify_preamble_def preamble_of_def Let_def)
  obtain st c' where r: "communicate_recv2 ?c now OK = (st, c')" by (metis surj_pair)
  note b = recv2_inv [OF inv ne nc rq fit r]
  have st: "st = OK" "\<not> has_state c' STATUS_FLAGS_ERROR" "cn_recv_buffer_len c' = cn_recv_buffer_len c"
    using r ne f(4,6) by (auto simp: communicate_recv2_def v conn_flag_simps split: if_splits)
  have m: "has_state c' STATUS_FLAGS_MESSAGE_RECEIVED" using b(3) [OF st(1)] b(2) p by simp
  then have "preamble_of (pending c') (unat (cn_recv_message_len c'))" using b(1) by (simp add: recv_inv_def)
  then have "unat (cn_recv_message_len c') = n" using preamble_of_unique p(1) b(2) by metis
  then show ?thesis using r st m b(1,2) by auto
qed

text \<open>A message of 32 bytes, and a connection that holds a number of them, the first one consumed.\<close>

definition small_message :: "byte list" where
  "small_message = [82, 82, 65, 67, 32, 0, 0, 0, 4, 0] @ replicate 22 0"

definition holds :: "nat \<Rightarrow> connection \<Rightarrow> bool" where
  "holds k c \<longleftrightarrow> recv_inv c \<and> \<not> has_state c STATUS_FLAGS_ERROR \<and> has_state c STATUS_FLAGS_MESSAGE_CONSUMED \<and>
     unat (cn_recv_message_len c) = 32 \<and> pending c = concat (replicate k small_message)"

lemma length_small [simp]: "length small_message = 32"
  by (simp add: small_message_def)

lemma length_smalls [simp]: "length (concat (replicate k small_message)) = 32 * k"
  by (induction k) auto

lemma smalls_add: "concat (replicate k small_message) @ small_message @ small_message = concat (replicate (k + 2) small_message)"
  by (induction k) auto

lemma small_preamble: "preamble_of (small_message @ d) 32"
  by (simp add: preamble_of_def small_message_def rrac_magic_def util_read_uint32_def util_read_uint16_def
      bytes_u32_def bytes_u16_def)

text \<open>Receiving 64 bytes of such messages, and consuming the first.\<close>

lemma receive_two:
  assumes r: "communicate_recv1 (rn_conn s) now l = (OK, c, 64)" and inv: "recv_inv c"
    and ne: "\<not> has_state c STATUS_FLAGS_ERROR" and nc: "\<not> has_state c STATUS_FLAGS_MESSAGE_CONSUMED"
    and rq: "has_state c STATUS_FLAGS_RECEIVE_REQUESTED" and z: "cn_recv_message_len c = 0"
    and p: "pending c = concat (replicate k small_message)"
    and fit: "32 * k + 64 \<le> cn_recv_buffer_len c"
  shows "\<exists>s'. run_step\<^sup>*\<^sup>* s s' \<and> holds (k + 2) (rn_conn s') \<and> cn_recv_buffer_len (rn_conn s') = cn_recv_buffer_len c"
proof -
  let ?d = "small_message @ small_message"
  have pd: "pending c @ ?d = concat (replicate (k + 2) small_message)"
    by (simp only: p smalls_add)
  have pre: "preamble_of (pending c @ ?d) 32" using small_preamble by (simp add: pd)
  have fit': "cn_recv_buffer_pos c + length ?d \<le> cn_recv_buffer_len c"
    using length_pending [OF inv] fit by (simp add: p)
  obtain c' where c': "communicate_recv2 (put_received ?d c) now OK = (OK, c')" "recv_inv c'" "pending c' = pending c @ ?d"
    "has_state c' STATUS_FLAGS_MESSAGE_RECEIVED" "\<not> has_state c' STATUS_FLAGS_ERROR"
    "unat (cn_recv_message_len c') = 32" "cn_recv_buffer_len c' = cn_recv_buffer_len c"
    using recv2_complete [OF inv ne nc rq z fit' pre] by (auto simp: pd)
  let ?s1 = "\<lparr>rn_conn = c', rn_stream = rn_stream s @ ?d, rn_delivered = rn_delivered s @ taken (rn_conn s)\<rparr>"
  let ?s2 = "?s1\<lparr>rn_conn := set_state STATUS_FLAGS_MESSAGE_CONSUMED c'\<rparr>"
  have s1: "run_step s ?s1" by (rule run_step.receive [OF r _ _ fit' c'(1)]) simp_all
  have s2: "run_step ?s1 ?s2"
    by (rule run_step.consume) (simp add: connection_message_receive_consume_def c'(4))
  have i2: "recv_inv (set_state STATUS_FLAGS_MESSAGE_CONSUMED c')"
    using c'(2,4) by (simp add: recv_inv_def conn_flag_simps)
  have "holds (k + 2) (rn_conn ?s2)"
    using c' i2 by (simp only: holds_def run.simps pd) (simp add: conn_flag_simps)
  moreover have "cn_recv_buffer_len (rn_conn ?s2) = cn_recv_buffer_len c" using c'(7) by simp
  ultimately show ?thesis using s1 s2 by (meson converse_rtranclp_into_rtranclp rtranclp.rtrancl_refl)
qed

lemma hold_more:
  assumes h: "holds (Suc k) (rn_conn s)" and room: "32 * k + 64 \<le> cn_recv_buffer_len (rn_conn s)"
  shows "\<exists>s'. run_step\<^sup>*\<^sup>* s s' \<and> holds (k + 2) (rn_conn s') \<and>
    cn_recv_buffer_len (rn_conn s') = cn_recv_buffer_len (rn_conn s)"
proof -
  let ?c = "rn_conn s"
  have i: "recv_inv ?c" "\<not> has_state ?c STATUS_FLAGS_ERROR" "has_state ?c STATUS_FLAGS_MESSAGE_CONSUMED"
    "unat (cn_recv_message_len ?c) = 32" "pending ?c = concat (replicate (Suc k) small_message)"
    using h by (simp_all add: holds_def)
  obtain c1 where d: "drop_consumed ?c = (OK, c1)" "recv_inv c1" "pending c1 = drop 32 (pending ?c)"
    "cn_recv_message_len c1 = 0" "cn_recv_buffer_len c1 = cn_recv_buffer_len ?c"
    "has_state c1 STATUS_FLAGS_RECEIVE_REQUESTED" "\<not> has_state c1 STATUS_FLAGS_MESSAGE_CONSUMED"
    "has_state c1 STATUS_FLAGS_ERROR = has_state ?c STATUS_FLAGS_ERROR"
    using drop_consumed_inv [OF i(1,3)] i(4) by auto
  have r: "communicate_recv1 ?c 0 0 = (OK, c1, 64)"
    using i d by (simp add: communicate_recv1_def)
  show ?thesis
    using receive_two [OF r d(2) _ d(7,6,4), of k] d(3,5,8) i(2,5) room by simp
qed

text \<open>
  C36. The receiving side writes behind its buffer: from any connection that starts to receive, with a
  buffer of any size, a peer that sends enough small messages brings it to a state in which it asks the
  transport for more bytes than there is room for.
\<close>

theorem receive_overruns_buffer:
  assumes "ready c" and "has_state c STATUS_FLAGS_RECEIVE_REQUESTED" and "\<not> has_state c STATUS_FLAGS_ERROR"
  shows "\<exists>s c1 n. run_step\<^sup>*\<^sup>* (run_start c) s \<and> communicate_recv1 (rn_conn s) 0 0 = (OK, c1, n) \<and>
    cn_recv_buffer_len c1 = cn_recv_buffer_len c \<and> cn_recv_buffer_len c1 < cn_recv_buffer_pos c1 + n"
proof -
  let ?over = "\<lambda>s. \<exists>c1 n. communicate_recv1 (rn_conn s) 0 0 = (OK, c1, n) \<and> cn_recv_buffer_len c1 = cn_recv_buffer_len c \<and>
    cn_recv_buffer_len c1 < cn_recv_buffer_pos c1 + n"
  have i: "recv_inv c" "pending c = []" "cn_recv_message_len c = 0" "cn_recv_buffer_pos c = 0"
    "\<not> has_state c STATUS_FLAGS_MESSAGE_CONSUMED"
    using ready_inv [OF assms(1)] assms(1) by (simp_all add: run_inv_def run_start_def ready_def) (simp add: pending_def ready_def)
  have r: "communicate_recv1 (rn_conn (run_start c)) 0 0 = (OK, c, 64)"
    using assms i by (simp add: communicate_recv1_def run_start_def)
  have step: "\<exists>s. run_step\<^sup>*\<^sup>* (run_start c) s \<and>
      (?over s \<or> holds (k + 2) (rn_conn s) \<and> cn_recv_buffer_len (rn_conn s) = cn_recv_buffer_len c)" for k
  proof (induction k)
    case 0
    show ?case
    proof (cases "64 \<le> cn_recv_buffer_len c")
      case True
      then show ?thesis
        using receive_two [OF r i(1) assms(3) i(5) assms(2) i(3), of 0] i(2) by auto
    next
      case False
      then show ?thesis using r i(4) by (auto intro!: exI [of _ "run_start c"])
    qed
  next
    case (Suc k)
    then obtain s where s: "run_step\<^sup>*\<^sup>* (run_start c) s"
      "?over s \<or> holds (k + 2) (rn_conn s) \<and> cn_recv_buffer_len (rn_conn s) = cn_recv_buffer_len c" by blast
    consider (over) "?over s" | (more) "holds (Suc (Suc k)) (rn_conn s)" "cn_recv_buffer_len (rn_conn s) = cn_recv_buffer_len c"
      using s(2) by auto
    then show ?case
    proof cases
      case over
      then show ?thesis using s(1) by blast
    next
      case more
      show ?thesis
      proof (cases "32 * Suc k + 64 \<le> cn_recv_buffer_len c")
        case True
        then obtain s' where "run_step\<^sup>*\<^sup>* s s'" "holds (Suc k + 2) (rn_conn s')" "cn_recv_buffer_len (rn_conn s') = cn_recv_buffer_len c"
          using hold_more [OF more(1)] more(2) by auto
        then show ?thesis using s(1) by (meson rtranclp_trans)
      next
        case False
        let ?c = "rn_conn s"
        obtain c1 where d: "drop_consumed ?c = (OK, c1)" "cn_recv_message_len c1 = 0" "has_state c1 STATUS_FLAGS_RECEIVE_REQUESTED"
          "cn_recv_buffer_len c1 = cn_recv_buffer_len ?c" "cn_recv_buffer_pos c1 = cn_recv_buffer_pos ?c - 32"
          using drop_consumed_inv [of ?c] more(1) by (auto simp: holds_def)
        have "cn_recv_buffer_pos ?c = 32 * Suc (Suc k)"
          using more(1) length_pending [of ?c] by (simp add: holds_def)
        then have "?over s"
          using more d False by (simp add: communicate_recv1_def holds_def)
        then show ?thesis using s(1) by blast
      qed
    qed
  qed
  obtain s where s: "run_step\<^sup>*\<^sup>* (run_start c) s" "?over s \<or> holds (cn_recv_buffer_len c + 2) (rn_conn s) \<and>
      cn_recv_buffer_len (rn_conn s) = cn_recv_buffer_len c"
    using step [of "cn_recv_buffer_len c"] by blast
  have "\<not> (holds (cn_recv_buffer_len c + 2) (rn_conn s) \<and> cn_recv_buffer_len (rn_conn s) = cn_recv_buffer_len c)"
    using length_pending [of "rn_conn s"] by (auto simp: holds_def recv_inv_def)
  then show ?thesis using s by blast
qed

lemma receive_overruns_buffer_witness:
  "\<exists>s c1 n. run_step\<^sup>*\<^sup>* (run_start sample_connection) s \<and> communicate_recv1 (rn_conn s) 0 0 = (OK, c1, n) \<and>
    64 < cn_recv_buffer_pos c1 + n"
proof -
  have "has_state sample_connection STATUS_FLAGS_RECEIVE_REQUESTED" "\<not> has_state sample_connection STATUS_FLAGS_ERROR"
    by (simp_all add: sample_connection_def has_state_def status_flags_defs FLAGS_CHECK_def)
  from receive_overruns_buffer [OF sample_ready this] show ?thesis
    by (fastforce simp: sample_connection_def)
qed

end
