(* ===== verification/RRL_ConnSend.thy ===== *)
theory RRL_ConnSend
  imports RRL_ConnSpec
begin

text \<open>
  The sending side of a connection: messages leave it in full and in the order they were submitted, in
  whatever pieces the transport takes them. Then closing, and the time a connection asks to be woken at.
\<close>


section \<open>Sending\<close>

text \<open>
  A run keeps the connection, the bytes the transport has taken, and the messages that were submitted. A
  client submits a message when \<open>begin_send_message\<close> allows it: it writes the message into the
  send buffer and ends with its length. The transport takes some of the bytes it is offered, between
  \<open>send1\<close> and \<open>send2\<close>. A message of no bytes is not one: \<open>send1\<close> clears its
  request and offers nothing.
\<close>

record outgoing =
  og_conn :: connection
  og_out :: "byte list"
  og_given :: "byte list list"

definition put_message :: "byte list \<Rightarrow> connection \<Rightarrow> connection" where
  "put_message m c = c\<lparr>cn_send_buffer := overwrite (cn_send_buffer c) 0 m\<rparr>"

definition take_bytes :: "nat \<Rightarrow> connection \<Rightarrow> connection" where
  "take_bytes k c = c\<lparr>cn_send_buffer_pos := cn_send_buffer_pos c + k\<rparr>"

inductive send_step :: "outgoing \<Rightarrow> outgoing \<Rightarrow> bool" where
  submit: "connection_begin_send_message (og_conn s) w b = (OK, w', b') \<Longrightarrow> m \<noteq> [] \<Longrightarrow>
      length m \<le> cn_send_buffer_len (og_conn s) \<Longrightarrow> length m < 2 ^ 32 \<Longrightarrow>
      connection_end_send_message (put_message m (og_conn s)) (length m) = (OK, c) \<Longrightarrow>
      send_step s \<lparr>og_conn = c, og_out = og_out s, og_given = og_given s @ [m]\<rparr>"
| emit: "communicate_send1 (og_conn s) now 0 = (OK, c, n) \<Longrightarrow> 0 < n \<Longrightarrow> k \<le> n \<Longrightarrow>
      communicate_send2 (take_bytes k c) now rv = (st, c') \<Longrightarrow>
      send_step s \<lparr>og_conn = c', og_out = og_out s @ chunk (cn_send_buffer c) (cn_send_buffer_pos c) k,
                   og_given = og_given s\<rparr>"
| emit_nothing: "communicate_send1 (og_conn s) now 0 = (OK, c, 0) \<Longrightarrow> send_step s (s\<lparr>og_conn := c\<rparr>)"
| acknowledge: "connection_is_message_sent_event (og_conn s) \<Longrightarrow>
      send_step s (s\<lparr>og_conn := connection_consume_message_sent (og_conn s)\<rparr>)"
| receive1: "communicate_recv1 (og_conn s) now l = (OK, c, n) \<Longrightarrow> send_step s (s\<lparr>og_conn := c\<rparr>)"
| receive2: "communicate_recv2 (put_received d (og_conn s)) now rv = (st, c) \<Longrightarrow> send_step s (s\<lparr>og_conn := c\<rparr>)"
| consume: "connection_message_receive_consume (og_conn s) = (OK, c) \<Longrightarrow> send_step s (s\<lparr>og_conn := c\<rparr>)"
| request_close: "connection_close (og_conn s) = (OK, c) \<Longrightarrow> send_step s (s\<lparr>og_conn := c\<rparr>)"
| closed: "communicate_after_close_requested (og_conn s) now rv = (OK, c) \<Longrightarrow> send_step s (s\<lparr>og_conn := c\<rparr>)"

definition outgoing_start :: "connection \<Rightarrow> outgoing" where
  "outgoing_start c = \<lparr>og_conn = c, og_out = [], og_given = []\<rparr>"

definition busy :: "connection \<Rightarrow> bool" where
  "busy c \<longleftrightarrow> has_state c STATUS_FLAGS_SEND_REQUESTED \<or> has_state c STATUS_FLAGS_SENDING"

text \<open>The states of the sending side: nothing to send, a message under way, a message sent, closed.\<close>

definition quiet :: "connection \<Rightarrow> bool" where
  "quiet c \<longleftrightarrow> \<not> busy c \<and> \<not> has_state c STATUS_FLAGS_MESSAGE_SENT \<and> \<not> has_state c STATUS_FLAGS_MESSAGE_SENT_CONSUMED"

definition clear_to_send :: "connection \<Rightarrow> bool" where
  "clear_to_send c \<longleftrightarrow> quiet c \<and> cn_send_buffer_pos c = 0 \<and> length (cn_send_buffer c) = cn_send_buffer_len c"

definition under_way :: "connection \<Rightarrow> byte list \<Rightarrow> bool" where
  "under_way c m \<longleftrightarrow> \<not> has_state c STATUS_FLAGS_MESSAGE_SENT \<and> \<not> has_state c STATUS_FLAGS_MESSAGE_SENT_CONSUMED \<and>
     unat (cn_send_message_len c) = length m \<and> length m \<le> length (cn_send_buffer c) \<and> length m < 2 ^ 32 \<and>
     take (length m) (cn_send_buffer c) = m \<and> cn_send_buffer_pos c < length m \<and>
     (has_state c STATUS_FLAGS_SEND_REQUESTED \<longrightarrow> cn_send_buffer_pos c = 0)"

definition send_inv :: "outgoing \<Rightarrow> bool" where
  "send_inv s \<longleftrightarrow>
     length (cn_send_buffer (og_conn s)) = cn_send_buffer_len (og_conn s) \<and> cn_send_buffer_len (og_conn s) < 2 ^ 63 \<and>
     (\<exists>rest. concat (og_given s) = og_out s @ rest) \<and>
     (has_state (og_conn s) STATUS_FLAGS_MESSAGE_SENT \<longrightarrow> og_out s = concat (og_given s)) \<and>
     (\<not> has_state (og_conn s) STATUS_FLAGS_ERROR \<longrightarrow>
        quiet (og_conn s) \<and> (cn_send_buffer_pos (og_conn s) = 0 \<and> og_out s = concat (og_given s) \<or>
                             \<not> has_state (og_conn s) STATUS_FLAGS_CONNECTED) \<or>
        busy (og_conn s) \<and> (\<exists>m g. under_way (og_conn s) m \<and> og_given s = g @ [m] \<and>
           og_out s = concat g @ take (cn_send_buffer_pos (og_conn s)) m) \<or>
        \<not> busy (og_conn s) \<and> has_state (og_conn s) STATUS_FLAGS_MESSAGE_SENT)"

text \<open>What the sending side depends on; the operations of the receiving side leave it alone.\<close>

definition send_view where
  "send_view c = (cn_send_buffer c, cn_send_buffer_len c, cn_send_buffer_pos c, cn_send_message_len c,
     has_state c STATUS_FLAGS_SEND_REQUESTED, has_state c STATUS_FLAGS_SENDING, has_state c STATUS_FLAGS_MESSAGE_SENT,
     has_state c STATUS_FLAGS_MESSAGE_SENT_CONSUMED, has_state c STATUS_FLAGS_CONNECTED)"

lemmas send_view_simps = send_view_def quiet_def busy_def under_way_def has_state_0

lemma send_inv_view:
  assumes "send_inv s" and "send_view c = send_view (og_conn s)"
    and "has_state (og_conn s) STATUS_FLAGS_ERROR \<Longrightarrow> has_state c STATUS_FLAGS_ERROR"
  shows "send_inv (s\<lparr>og_conn := c\<rparr>)"
proof -
  have "quiet c = quiet (og_conn s)" "busy c = busy (og_conn s)" "under_way c = under_way (og_conn s)"
    using assms(2) by (auto simp: send_view_simps fun_eq_iff)
  moreover have "cn_send_buffer c = cn_send_buffer (og_conn s)" "cn_send_buffer_len c = cn_send_buffer_len (og_conn s)"
    "cn_send_buffer_pos c = cn_send_buffer_pos (og_conn s)"
    "has_state c STATUS_FLAGS_MESSAGE_SENT = has_state (og_conn s) STATUS_FLAGS_MESSAGE_SENT"
    "has_state c STATUS_FLAGS_CONNECTED = has_state (og_conn s) STATUS_FLAGS_CONNECTED"
    using assms(2) by (auto simp: send_view_def)
  ultimately show ?thesis using assms(1,3) by (auto simp: send_inv_def)
qed

lemma send_fields [simp]:
  "cn_send_buffer_len (set_state m c) = cn_send_buffer_len c" "cn_send_buffer_len (clear_state m c) = cn_send_buffer_len c"
  "has_state (c\<lparr>cn_recv_buffer_pos := p\<rparr>) m = has_state c m" "has_state (c\<lparr>cn_recv_buffer := b\<rparr>) m = has_state c m"
  "has_state (c\<lparr>cn_send_buffer := b\<rparr>) m = has_state c m"
  "has_state (c\<lparr>cn_send_buffer := b, cn_send_message_len := v\<rparr>) m = has_state c m"
  by (simp_all add: set_state_def clear_state_def has_state_def)

lemma send_view_upd [simp]:
  "send_view (c\<lparr>cn_recv_buffer_pos := p\<rparr>) = send_view c"
  "send_view (c\<lparr>cn_recv_buffer := b\<rparr>) = send_view c"
  "send_view (c\<lparr>co_sock := sk\<rparr>) = send_view c"
  "send_view (c\<lparr>cn_recv_buffer := b, cn_recv_buffer_pos := p\<rparr>) = send_view c"
  "send_view (c\<lparr>cn_recv_buffer := b, cn_recv_buffer_pos := p, cn_recv_message_len := v\<rparr>) = send_view c"
  "send_view (c\<lparr>cn_recv_message_len := v\<rparr>) = send_view c"
  "send_view (c\<lparr>cn_last_recv_message_time := t\<rparr>) = send_view c"
  "send_view (set_state STATUS_FLAGS_ERROR c) = send_view c"
  "send_view (set_state STATUS_FLAGS_RECEIVE_REQUESTED c) = send_view c"
  "send_view (set_state STATUS_FLAGS_MESSAGE_RECEIVED c) = send_view c"
  "send_view (set_state STATUS_FLAGS_MESSAGE_CONSUMED c) = send_view c"
  "send_view (set_state STATUS_FLAGS_CLOSE_REQUESTED c) = send_view c"
  "send_view (clear_state STATUS_FLAGS_RECEIVE_REQUESTED c) = send_view c"
  "send_view (clear_state (STATUS_FLAGS_MESSAGE_CONSUMED OR STATUS_FLAGS_MESSAGE_RECEIVED) c) = send_view c"
  by (simp_all add: send_view_def conn_flag_simps)

lemma recv1_send_view:
  assumes "communicate_recv1 c now l = (OK, c', n)"
  shows "send_view c' = send_view c" and "\<not> has_state c STATUS_FLAGS_ERROR"
  using assms by (auto simp: communicate_recv1_def drop_consumed_def Let_def split: if_splits option.splits)

lemma preamble_error_view [simp]: "send_view (preamble_error c) = send_view c"
  by (simp add: preamble_error_def)

lemma recv2_send_view:
  assumes "communicate_recv2 (put_received d c) now rv = (st, c')"
  shows "send_view c' = send_view c" and "has_state c STATUS_FLAGS_ERROR \<Longrightarrow> has_state c' STATUS_FLAGS_ERROR"
  using assms
  by (auto simp: communicate_recv2_def connection_verify_preamble_def put_received_def Let_def split: if_splits prod.splits status.splits)
     (simp_all add: preamble_error_def conn_flag_simps)


text \<open>What a message under way becomes.\<close>

lemma begin_send_quiet:
  assumes "connection_begin_send_message c w b = (OK, w', b')"
  shows "quiet c" and "\<not> has_state c STATUS_FLAGS_ERROR" and "has_state c STATUS_FLAGS_CONNECTED"
  using assms by (auto simp: connection_begin_send_message_def quiet_def busy_def send_blocked_def has_state_0 split: if_splits)

lemma submit_state:
  assumes q: "quiet c" "cn_send_buffer_pos c = 0" "length (cn_send_buffer c) = cn_send_buffer_len c"
    and m: "m \<noteq> []" "length m \<le> cn_send_buffer_len c" "length m < 2 ^ 32"
    and e: "connection_end_send_message (put_message m c) (length m) = (OK, c')"
  shows "under_way c' m" and "busy c'" and "\<not> has_state c' STATUS_FLAGS_MESSAGE_SENT" and "cn_send_buffer_pos c' = 0"
    and "length (cn_send_buffer c') = cn_send_buffer_len c'" and "cn_send_buffer_len c' = cn_send_buffer_len c"
    and "has_state c' STATUS_FLAGS_ERROR = has_state c STATUS_FLAGS_ERROR"
proof -
  have c: "c' = set_state STATUS_FLAGS_SEND_REQUESTED ((put_message m c)\<lparr>cn_send_message_len := word_of_nat (length m)\<rparr>)"
    using e by (simp add: connection_end_send_message_def)
  have u: "unat (word_of_nat (length m) :: u32) = length m"
    using m(3) by (simp add: unsigned_of_nat take_bit_nat_eq_self)
  have bf: "length (overwrite (cn_send_buffer c) 0 m) = length (cn_send_buffer c)" "take (length m) (overwrite (cn_send_buffer c) 0 m) = m"
    using m(2) q(3) by (simp_all add: overwrite_def)
  show "under_way c' m" "busy c'" "\<not> has_state c' STATUS_FLAGS_MESSAGE_SENT" "cn_send_buffer_pos c' = 0"
    "length (cn_send_buffer c') = cn_send_buffer_len c'" "cn_send_buffer_len c' = cn_send_buffer_len c"
    "has_state c' STATUS_FLAGS_ERROR = has_state c STATUS_FLAGS_ERROR"
    using q m u bf by (simp_all add: c under_way_def quiet_def busy_def put_message_def conn_flag_simps)
qed

lemma submit_inv:
  assumes inv: "send_inv s" and b: "connection_begin_send_message (og_conn s) w b = (OK, w', b')"
    and m: "m \<noteq> []" "length m \<le> cn_send_buffer_len (og_conn s)" "length m < 2 ^ 32"
    and e: "connection_end_send_message (put_message m (og_conn s)) (length m) = (OK, c)"
  shows "send_inv \<lparr>og_conn = c, og_out = og_out s, og_given = og_given s @ [m]\<rparr>"
proof -
  let ?c = "og_conn s"
  note q = begin_send_quiet [OF b]
  have i: "length (cn_send_buffer ?c) = cn_send_buffer_len ?c" "cn_send_buffer_pos ?c = 0" "og_out s = concat (og_given s)"
    "cn_send_buffer_len ?c < 2 ^ 63"
    using inv q by (auto simp: send_inv_def quiet_def)
  show ?thesis using submit_state [OF q(1) i(2,1) m e] i(3,4) by (auto simp: send_inv_def)
qed

lemma send1_cases:
  assumes "communicate_send1 c now 0 = (OK, c1, n)"
  obtains (reset) "has_state c STATUS_FLAGS_MESSAGE_SENT_CONSUMED" "n = 0" "\<not> has_state c STATUS_FLAGS_ERROR"
      "c1 = (clear_state (STATUS_FLAGS_MESSAGE_SENT_CONSUMED OR STATUS_FLAGS_MESSAGE_SENT) c)\<lparr>cn_send_buffer_pos := 0, cn_send_message_len := 0\<rparr>"
    | (first) "\<not> has_state c STATUS_FLAGS_MESSAGE_SENT_CONSUMED" "\<not> has_state c STATUS_FLAGS_ERROR"
      "has_state c STATUS_FLAGS_SEND_REQUESTED" "c1 = clear_state STATUS_FLAGS_SEND_REQUESTED c" "n = unat (cn_send_message_len c)"
    | (more) "\<not> has_state c STATUS_FLAGS_MESSAGE_SENT_CONSUMED" "\<not> has_state c STATUS_FLAGS_ERROR"
      "\<not> has_state c STATUS_FLAGS_SEND_REQUESTED" "has_state c STATUS_FLAGS_SENDING" "c1 = c"
      "n = sz_sub (unat (cn_send_message_len c)) (cn_send_buffer_pos c)"
    | (nothing) "\<not> has_state c STATUS_FLAGS_MESSAGE_SENT_CONSUMED" "\<not> has_state c STATUS_FLAGS_ERROR"
      "\<not> busy c" "c1 = c" "n = 0"
  using assms by (auto simp: communicate_send1_def busy_def has_state_0 split: if_splits)

text \<open>A message under way is offered from where it stands, and what is left of it is offered.\<close>

lemma send1_under_way:
  assumes u: "under_way c m" "busy c" "length (cn_send_buffer c) < 2 ^ 64" and r: "communicate_send1 c now 0 = (OK, c1, n)"
  shows "n = length m - cn_send_buffer_pos c" and "under_way c1 m" and "cn_send_buffer_pos c1 = cn_send_buffer_pos c"
    and "\<not> has_state c1 STATUS_FLAGS_SEND_REQUESTED" and "cn_send_buffer c1 = cn_send_buffer c"
    and "cn_send_buffer_len c1 = cn_send_buffer_len c" and "\<not> has_state c1 STATUS_FLAGS_ERROR"
proof -
  have "n = length m - cn_send_buffer_pos c \<and> under_way c1 m \<and> cn_send_buffer_pos c1 = cn_send_buffer_pos c \<and>
    \<not> has_state c1 STATUS_FLAGS_SEND_REQUESTED \<and> cn_send_buffer c1 = cn_send_buffer c \<and>
    cn_send_buffer_len c1 = cn_send_buffer_len c \<and> \<not> has_state c1 STATUS_FLAGS_ERROR"
    using r
  proof (cases rule: send1_cases)
    case reset
    then show ?thesis using u by (simp add: under_way_def has_state_0)
  next
    case first
    then show ?thesis using u by (auto simp: under_way_def conn_flag_simps)
  next
    case more
    have "sz_sub (length m) (cn_send_buffer_pos c) = length m - cn_send_buffer_pos c"
      using u(1,3) by (intro sz_sub_nowrap) (auto simp: under_way_def)
    then show ?thesis using more u by (simp add: under_way_def)
  next
    case nothing
    then show ?thesis using u by simp
  qed
  then show "n = length m - cn_send_buffer_pos c" "under_way c1 m" "cn_send_buffer_pos c1 = cn_send_buffer_pos c"
    "\<not> has_state c1 STATUS_FLAGS_SEND_REQUESTED" "cn_send_buffer c1 = cn_send_buffer c"
    "cn_send_buffer_len c1 = cn_send_buffer_len c" "\<not> has_state c1 STATUS_FLAGS_ERROR" by auto
qed

lemma send2_under_way:
  assumes u: "under_way c m" "\<not> has_state c STATUS_FLAGS_SEND_REQUESTED" and k: "cn_send_buffer_pos c + k \<le> length m"
    and r: "communicate_send2 (take_bytes k c) now rv = (st, c')"
  shows "cn_send_buffer c' = cn_send_buffer c" and "cn_send_buffer_len c' = cn_send_buffer_len c"
    and "cn_send_buffer_pos c' = cn_send_buffer_pos c + k"
    and "has_state c' STATUS_FLAGS_MESSAGE_SENT \<Longrightarrow> cn_send_buffer_pos c + k = length m"
    and "rv \<noteq> OK \<Longrightarrow> has_state c' STATUS_FLAGS_ERROR"
    and "rv = OK \<Longrightarrow> cn_send_buffer_pos c + k < length m \<Longrightarrow> busy c' \<and> under_way c' m"
    and "rv = OK \<Longrightarrow> cn_send_buffer_pos c + k = length m \<Longrightarrow> \<not> busy c' \<and> has_state c' STATUS_FLAGS_MESSAGE_SENT"
proof -
  have f: "FAILED rv \<longleftrightarrow> rv \<noteq> OK" by (cases rv) auto
  have l: "0 < cn_send_message_len c \<longleftrightarrow> m \<noteq> []" using u(1) by (auto simp: under_way_def unat_gt_0 word_gt_0)
  have *: "cn_send_buffer c' = cn_send_buffer c \<and> cn_send_buffer_len c' = cn_send_buffer_len c \<and>
    cn_send_buffer_pos c' = cn_send_buffer_pos c + k \<and>
    (has_state c' STATUS_FLAGS_MESSAGE_SENT \<longrightarrow> cn_send_buffer_pos c + k = length m) \<and>
    (rv \<noteq> OK \<longrightarrow> has_state c' STATUS_FLAGS_ERROR) \<and>
    (rv = OK \<longrightarrow> cn_send_buffer_pos c + k < length m \<longrightarrow> busy c' \<and> under_way c' m) \<and>
    (rv = OK \<longrightarrow> cn_send_buffer_pos c + k = length m \<longrightarrow> \<not> busy c' \<and> has_state c' STATUS_FLAGS_MESSAGE_SENT)"
    using r u k l
    by (simp add: communicate_send2_def f take_bytes_def under_way_def split: if_splits)
       (auto simp: busy_def conn_flag_simps)
  then show "cn_send_buffer c' = cn_send_buffer c" "cn_send_buffer_len c' = cn_send_buffer_len c"
    "cn_send_buffer_pos c' = cn_send_buffer_pos c + k"
    "has_state c' STATUS_FLAGS_MESSAGE_SENT \<Longrightarrow> cn_send_buffer_pos c + k = length m"
    "rv \<noteq> OK \<Longrightarrow> has_state c' STATUS_FLAGS_ERROR"
    "rv = OK \<Longrightarrow> cn_send_buffer_pos c + k < length m \<Longrightarrow> busy c' \<and> under_way c' m"
    "rv = OK \<Longrightarrow> cn_send_buffer_pos c + k = length m \<Longrightarrow> \<not> busy c' \<and> has_state c' STATUS_FLAGS_MESSAGE_SENT"
    by auto
qed

lemma chunk_of_prefix: "take n b = m \<Longrightarrow> p + k \<le> n \<Longrightarrow> chunk b p k = chunk m p k"
  by (auto simp: chunk_def drop_take min_absorb1)

lemma emit_inv:
  assumes inv: "send_inv s" and r: "communicate_send1 (og_conn s) now 0 = (OK, c, n)" "0 < n" "k \<le> n"
    and e: "communicate_send2 (take_bytes k c) now rv = (st, c')"
  shows "send_inv \<lparr>og_conn = c', og_out = og_out s @ chunk (cn_send_buffer c) (cn_send_buffer_pos c) k,
                   og_given = og_given s\<rparr>"
proof -
  let ?c = "og_conn s" and ?p = "cn_send_buffer_pos (og_conn s)"
  have ne: "\<not> has_state ?c STATUS_FLAGS_ERROR" and b: "busy ?c"
    using r(1,2) by (auto simp: communicate_send1_def busy_def split: if_splits)
  obtain m g where w: "under_way ?c m" "og_given s = g @ [m]" "og_out s = concat g @ take ?p m"
    using inv ne b by (auto simp: send_inv_def quiet_def)
  have l: "length (cn_send_buffer ?c) = cn_send_buffer_len ?c" "cn_send_buffer_len ?c < 2 ^ 63"
    using inv by (auto simp: send_inv_def)
  note a = send1_under_way [OF w(1) b _ r(1)]
  have a1: "n = length m - ?p" "under_way c m" "cn_send_buffer_pos c = ?p" "\<not> has_state c STATUS_FLAGS_SEND_REQUESTED"
    "cn_send_buffer c = cn_send_buffer ?c" "cn_send_buffer_len c = cn_send_buffer_len ?c"
    using a l by simp_all
  have k: "cn_send_buffer_pos c + k \<le> length m" using r(3) a1(1,3) w(1) by (auto simp: under_way_def)
  note f = send2_under_way [OF a1(2,4) k e]
  have m: "take (length m) (cn_send_buffer c) = m" "length m \<le> length (cn_send_buffer c)"
    using a1(2) by (auto simp: under_way_def)
  have ch: "chunk (cn_send_buffer c) ?p k = chunk m ?p k"
    by (rule chunk_of_prefix [OF m(1)]) (use k a1(3) in simp)
  have out: "og_out s @ chunk (cn_send_buffer c) ?p k = concat g @ take (?p + k) m"
    by (simp add: w(3) ch) (simp add: chunk_def take_add)
  have pre: "\<exists>rest. concat (og_given s) = (concat g @ take (?p + k) m) @ rest"
    by (simp add: w(2)) (metis append_take_drop_id)
  have full: "?p + k = length m \<Longrightarrow> concat (og_given s) = concat g @ take (?p + k) m"
    by (simp add: w(2))
  have buf: "length (cn_send_buffer c') = cn_send_buffer_len c'" "cn_send_buffer_len c' < 2 ^ 63"
    using f(1,2) a1(5,6) l by simp_all
  have sent: "has_state c' STATUS_FLAGS_MESSAGE_SENT \<Longrightarrow> concat (og_given s) = concat g @ take (?p + k) m"
    using f(4) full a1(3) by simp
  have last: "has_state c' STATUS_FLAGS_ERROR \<or>
      busy c' \<and> (\<exists>m g. under_way c' m \<and> og_given s = g @ [m] \<and> concat g @ take (?p + k) m = concat g @ take (cn_send_buffer_pos c') m \<and>
        concat g @ take (?p + k) m = og_out s @ chunk (cn_send_buffer c) ?p k) \<or>
      \<not> busy c' \<and> has_state c' STATUS_FLAGS_MESSAGE_SENT"
  proof (cases "rv = OK \<and> ?p + k < length m")
    case True
    then have "busy c' \<and> under_way c' m" using f(6) a1(3) by simp
    then show ?thesis using w(2) f(3) a1(3) out by auto
  next
    case False
    then show ?thesis using f(5,7) k a1(3) by (metis le_neq_implies_less)
  qed
  show ?thesis
    using buf pre sent last out a1(3) by (auto simp: send_inv_def)
qed

lemma send_step_inv: "send_step s s' \<Longrightarrow> send_inv s \<Longrightarrow> send_inv s'"
proof (induction rule: send_step.induct)
  case (submit s w b w' b' m c)
  show ?case by (rule submit_inv [OF submit.prems submit.hyps])
next
  case (emit s now c n k rv st c')
  show ?case by (rule emit_inv [OF emit.prems emit.hyps])
next
  case (emit_nothing s now c)
  from emit_nothing.hyps show ?case
  proof (cases rule: send1_cases)
    case reset
    then show ?thesis
      using emit_nothing.prems by (auto simp: send_inv_def quiet_def busy_def under_way_def conn_flag_simps)
  next
    case first
    then show ?thesis
      using emit_nothing.prems by (auto simp: send_inv_def quiet_def busy_def under_way_def)
  next
    case more
    have "under_way (og_conn s) m \<Longrightarrow> 0 < sz_sub (unat (cn_send_message_len (og_conn s))) (cn_send_buffer_pos (og_conn s))" for m
      using emit_nothing.prems by (subst sz_sub_nowrap) (auto simp: send_inv_def under_way_def)
    then show ?thesis
      using more emit_nothing.prems by (auto simp: send_inv_def quiet_def busy_def)
  next
    case nothing
    then show ?thesis using emit_nothing.prems by simp
  qed
next
  case (acknowledge s)
  then show ?case
    by (auto simp: send_inv_def quiet_def busy_def under_way_def connection_is_message_sent_event_def
        connection_consume_message_sent_def conn_flag_simps)
next
  case (receive1 s now l c n)
  show ?case using send_inv_view [OF receive1.prems recv1_send_view(1) [OF receive1.hyps]] recv1_send_view(2) [OF receive1.hyps] by blast
next
  case (receive2 d s now rv st c)
  show ?case by (rule send_inv_view [OF receive2.prems recv2_send_view [OF receive2.hyps]])
next
  case (consume s c)
  show ?case
    using consume.hyps
    by (intro send_inv_view [OF consume.prems])
       (auto simp: connection_message_receive_consume_def flag_simps split: if_splits)
next
  case (request_close s c)
  show ?case
    using request_close.hyps
    by (intro send_inv_view [OF request_close.prems]) (auto simp: connection_close_def flag_simps split: if_splits)
next
  case (closed s now rv c)
  then show ?case
    by (auto simp: communicate_after_close_requested_def send_inv_def quiet_def busy_def has_state_def status_flags_defs FLAGS_CHECK_def)
qed

text \<open>
  C22. Messages leave a connection in full and in order: whatever pieces the transport takes, the bytes
  it has taken are a prefix of the submitted messages, and they are all of them whenever the connection
  reports its message as sent, and whenever it accepts the next one.
\<close>

theorem messages_leave_in_order:
  assumes "clear_to_send c" and "cn_send_buffer_len c < 2 ^ 63" and "send_step\<^sup>*\<^sup>* (outgoing_start c) s"
  shows "(\<exists>rest. concat (og_given s) = og_out s @ rest) \<and>
    (has_state (og_conn s) STATUS_FLAGS_MESSAGE_SENT \<longrightarrow> og_out s = concat (og_given s)) \<and>
    (\<forall>w b w' b'. connection_begin_send_message (og_conn s) w b = (OK, w', b') \<longrightarrow> og_out s = concat (og_given s))"
proof -
  have start: "send_inv (outgoing_start c)"
    using assms(1,2) by (auto simp: send_inv_def outgoing_start_def clear_to_send_def)
  have inv: "send_inv s"
    using assms(3) by (induction rule: rtranclp_induct) (auto intro: start send_step_inv)
  have "og_out s = concat (og_given s)" if "connection_begin_send_message (og_conn s) w b = (OK, w', b')" for w b w' b'
    using begin_send_quiet [OF that] inv by (auto simp: send_inv_def quiet_def)
  then show ?thesis using inv by (auto simp: send_inv_def)
qed

lemma sample_clear: "clear_to_send sample_connection"
  by (simp add: clear_to_send_def quiet_def busy_def)
     (simp add: sample_connection_def has_state_def status_flags_defs FLAGS_CHECK_def)

text \<open>Submitting a message of three bytes, of which the transport takes two.\<close>

lemma messages_leave_in_order_witness:
  "\<exists>s. send_step\<^sup>*\<^sup>* (outgoing_start sample_connection) s \<and> og_given s = [[1, 2, 3]] \<and> og_out s = [1, 2] \<and>
     (\<exists>rest. concat (og_given s) = og_out s @ rest)"
proof -
  let ?s0 = "outgoing_start sample_connection" and ?m = "[1, 2, 3] :: byte list"
  let ?w = "undefined :: message_writer"
  have n: "cn_send_buffer_len sample_connection = 64" by (simp add: sample_connection_def)
  have fl: "\<not> has_state sample_connection (STATUS_FLAGS_ERROR OR STATUS_FLAGS_CLOSED OR STATUS_FLAGS_CLOSE_REQUESTED OR STATUS_FLAGS_IDLE)"
    "has_state sample_connection STATUS_FLAGS_CONNECTED" "\<not> has_state sample_connection send_blocked"
    "cn_send_buffer_pos sample_connection = 0"
    by (simp_all add: send_blocked_def) (simp_all add: sample_connection_def has_state_def status_flags_defs FLAGS_CHECK_def)
  obtain w b where b: "connection_begin_send_message (og_conn ?s0) ?w [] = (OK, w, b)"
    using fl by (auto simp: outgoing_start_def connection_begin_send_message_def message_writer_init_def sz_add_def)
  obtain c1 where c1: "connection_end_send_message (put_message ?m (og_conn ?s0)) (length ?m) = (OK, c1)"
    by (simp add: connection_end_send_message_def)
  let ?s1 = "\<lparr>og_conn = c1, og_out = og_out ?s0, og_given = og_given ?s0 @ [?m]\<rparr>"
  have s1: "send_step ?s0 ?s1"
    by (rule send_step.submit [OF b _ _ _ c1]) (simp_all add: outgoing_start_def n)
  have cl: "quiet sample_connection" "cn_send_buffer_pos sample_connection = 0"
    "length (cn_send_buffer sample_connection) = cn_send_buffer_len sample_connection"
    using sample_clear by (simp_all add: clear_to_send_def)
  note c1' = submit_state [OF cl _ _ _ c1 [unfolded outgoing_start_def outgoing.simps], simplified n, simplified]
  have e1: "\<not> has_state c1 STATUS_FLAGS_ERROR" using fl(1) c1'(7) by (simp add: has_state_0)
  obtain st2 c2 k where r0: "communicate_send1 (og_conn ?s1) 5 0 = (st2, c2, k)" by (metis surj_pair)
  have r2: "communicate_send1 (og_conn ?s1) 5 0 = (OK, c2, k)"
    using e1 r0 by (auto simp: communicate_send1_def split: if_splits)
  note a = send1_under_way [OF c1'(1,2) _ r2 [unfolded outgoing.simps]]
  have c2: "communicate_send1 (og_conn ?s1) 5 0 = (OK, c2, 3)" "take 2 (cn_send_buffer c2) = [1, 2]" "cn_send_buffer_pos c2 = 0"
    using a c1' r2 chunk_of_prefix [of "length ?m" "cn_send_buffer c2" ?m 0 2] by (simp_all add: under_way_def chunk_def)
  obtain st c3 where c3: "communicate_send2 (take_bytes 2 c2) 5 OK = (st, c3)" by (metis surj_pair)
  let ?s2 = "\<lparr>og_conn = c3, og_out = og_out ?s1 @ chunk (cn_send_buffer c2) (cn_send_buffer_pos c2) 2, og_given = og_given ?s1\<rparr>"
  have s2: "send_step ?s1 ?s2" by (rule send_step.emit [OF c2(1) _ _ c3]) simp_all
  have r: "send_step\<^sup>*\<^sup>* ?s0 ?s2" using s1 s2 by (meson converse_rtranclp_into_rtranclp rtranclp.rtrancl_refl)
  have "og_given ?s2 = [?m]" "og_out ?s2 = [1, 2]"
    using c2(2,3) by (simp_all add: outgoing_start_def chunk_def)
  then show ?thesis using messages_leave_in_order [OF sample_clear _ r] r n by auto
qed



section \<open>Closing\<close>

lemma reset_fields:
  "connection_reset c = (OK, c') \<Longrightarrow> cn_connection_state c' = STATUS_FLAGS_IDLE \<and> co_transport_type c' = 0 \<and>
     cn_recv_buffer_pos c' = 0 \<and> cn_send_buffer_pos c' = 0 \<and> cn_recv_message_len c' = 0 \<and> cn_send_message_len c' = 0 \<and>
     co_sock c' = zero_socket \<and> cn_local_endpoint c' = 0 \<and> cn_remote_endpoint c' = 0 \<and> set (nodeid_data (cn_remote_nodeid c')) \<subseteq> {0}"
  by (auto simp: connection_reset_def nodeid_reset_def Let_def split: prod.splits if_splits)

lemma reset_ok: "\<exists>c'. connection_reset c = (OK, c')"
  by (simp add: connection_reset_def nodeid_reset_def)

text \<open>
  C37. A close request runs its course: the transport of the connection is told to close it, the
  connection then is closed and left alone until its closing has been consumed, and after that it is idle and
  left alone again. What the connection then is, field by field: transport, socket, configuration, state, the
  positions and lengths of both buffers, endpoints, the identifier of the other node and the mask of the
  negotiated flags are reset; everything else, so also the names of the other side, the client, the service and
  the last request id, is that of the old connection.
\<close>

theorem close_runs_its_course:
  assumes "co_transport_type c = t" and "t \<noteq> 0"
    and "\<not> has_state c (STATUS_FLAGS_IDLE OR STATUS_FLAGS_CLOSED OR STATUS_FLAGS_CLOSED_CONSUMED)"
  shows "\<exists>c1 c2 c3 c4. connection_close c = (OK, c1) \<and> communicate_process_control c1 now t r = (OK, c1, 1) \<and>
    communicate_after_close_requested c1 now rv = (OK, c2) \<and> connection_is_closed_event c2 \<and>
    communicate_process_control c2 now t r = (Err CONSUMED, c2, r) \<and>
    connection_consume_closed c2 = c3 \<and> \<not> connection_is_closed_event c3 \<and>
    communicate_process_control c3 now t r = (Err CONSUMED, c4, r) \<and> connection_is_idle c4 \<and>
    c4 = c\<lparr>co_transport_type := 0, co_sock := zero_socket, cn_config_flags := CONFIG_FLAGS_ENABLE_REDUCED_HEADER4,
      cn_connection_state := STATUS_FLAGS_IDLE, cn_recv_buffer_pos := 0, cn_recv_message_len := 0, cn_send_buffer_pos := 0,
      cn_send_message_len := 0, cn_local_endpoint := 0, cn_remote_endpoint := 0,
      cn_remote_nodeid := \<lparr>nodeid_data = replicate (length (nodeid_data (cn_remote_nodeid c))) 0\<rparr>,
      cn_message_flags_inv_mask := 0\<rparr> \<and>
    communicate_process_control c4 now t r = (Err CONSUMED, c4, r) \<and>
    connection_close c4 = (OK, c4)"
proof -
  define c1 where "c1 = set_state STATUS_FLAGS_CLOSE_REQUESTED c"
  define c2 where "c2 = c1\<lparr>cn_connection_state := STATUS_FLAGS_CLOSED\<rparr>"
  define c3 where "c3 = connection_consume_closed c2"
  obtain c4 where c4: "connection_reset (c3\<lparr>cn_connection_state := STATUS_FLAGS_IDLE\<rparr>) = (OK, c4)" using reset_ok by blast
  note f = reset_fields [OF c4]
  have t: "co_transport_type c1 = t" "co_transport_type c2 = t" "co_transport_type c3 = t"
    using assms(1) by (simp_all add: c1_def c2_def c3_def connection_consume_closed_def set_state_def)
  have not: "\<not> has_state c STATUS_FLAGS_IDLE" "\<not> has_state c STATUS_FLAGS_CLOSED" "\<not> has_state c STATUS_FLAGS_CLOSED_CONSUMED"
    using assms(3) by (auto simp: has_state_0)
  have 1: "connection_close c = (OK, c1)" "communicate_process_control c1 now t r = (OK, c1, 1)"
    using not t by (simp_all add: connection_close_def c1_def communicate_process_control_def has_state_0)
       (simp add: conn_flag_simps)
  have 2: "communicate_after_close_requested c1 now rv = (OK, c2)" "connection_is_closed_event c2"
    "communicate_process_control c2 now t r = (Err CONSUMED, c2, r)"
    using t by (simp_all add: communicate_after_close_requested_def c2_def connection_is_closed_event_def
        communicate_process_control_def has_state_def status_flags_defs FLAGS_CHECK_def)
  have 3: "\<not> connection_is_closed_event c3" "communicate_process_control c3 now t r = (Err CONSUMED, c4, r)"
    using t f c4 by (simp_all add: c3_def connection_consume_closed_def connection_is_closed_event_def flag_simps
        communicate_process_control_def)
       (simp_all add: has_state_def status_flags_defs FLAGS_CHECK_def)
  have 4: "connection_is_idle c4" "communicate_process_control c4 now t r = (Err CONSUMED, c4, r)" "connection_close c4 = (OK, c4)"
    using f assms(2) by (simp_all add: connection_is_idle_def has_state_def communicate_process_control_def connection_close_def
        status_flags_defs FLAGS_CHECK_def)
  have 5: "c4 = c\<lparr>co_transport_type := 0, co_sock := zero_socket, cn_config_flags := CONFIG_FLAGS_ENABLE_REDUCED_HEADER4,
      cn_connection_state := STATUS_FLAGS_IDLE, cn_recv_buffer_pos := 0, cn_recv_message_len := 0, cn_send_buffer_pos := 0,
      cn_send_message_len := 0, cn_local_endpoint := 0, cn_remote_endpoint := 0,
      cn_remote_nodeid := \<lparr>nodeid_data = replicate (length (nodeid_data (cn_remote_nodeid c))) 0\<rparr>,
      cn_message_flags_inv_mask := 0\<rparr>"
    using c4 by (auto simp: connection_reset_def nodeid_reset_def Let_def c1_def c2_def c3_def connection_consume_closed_def set_state_def)
  show ?thesis by (intro exI [of _ c1] exI [of _ c2] exI [of _ c3] exI [of _ c4] conjI 1 2 3 4 5 c3_def [symmetric])
qed

lemma close_runs_its_course_witness:
  "\<exists>c1 c2 c3 c4. connection_close sample_connection = (OK, c1) \<and> communicate_process_control c1 5 1 0 = (OK, c1, 1) \<and>
    communicate_after_close_requested c1 5 OK = (OK, c2) \<and> connection_consume_closed c2 = c3 \<and>
    communicate_process_control c3 5 1 0 = (Err CONSUMED, c4, 0) \<and> connection_is_idle c4"
proof -
  have "co_transport_type sample_connection = 1" "(1 :: u32) \<noteq> 0"
    "\<not> has_state sample_connection (STATUS_FLAGS_IDLE OR STATUS_FLAGS_CLOSED OR STATUS_FLAGS_CLOSED_CONSUMED)"
    by (simp_all add: sample_connection_def has_state_def status_flags_defs FLAGS_CHECK_def)
  from close_runs_its_course [OF this, of 5 0 OK] show ?thesis by blast
qed


section \<open>Waking\<close>

text \<open>
  A connection never asks to sleep past work it has: the time it proposes is the present when a
  message, an error or a close request waits, and otherwise never later than the time proposed so far,
  its next heartbeat or the wake time of its transport.
\<close>

theorem next_wake_not_late:
  shows "connection_next_wake c now w = (OK, w') \<Longrightarrow> \<not> connection_is_idle c \<Longrightarrow>
    (has_state c (STATUS_FLAGS_CLOSE_REQUESTED OR STATUS_FLAGS_ERROR OR STATUS_FLAGS_MESSAGE_SENT OR STATUS_FLAGS_MESSAGE_RECEIVED)
       \<longrightarrow> w' = now) \<and>
    (w' = now \<or> sint w' \<le> sint w \<and>
       (0 < sint (cn_heartbeat_next_check_us c) \<longrightarrow> sint w' \<le> sint (cn_heartbeat_next_check_us c) \<and>
          sint now \<le> sint (cn_heartbeat_next_check_us c)) \<and>
       (0 < sint (cn_transport_next_wake c) \<longrightarrow> sint w' \<le> sint (cn_transport_next_wake c)) \<and>
       w' \<in> {w, cn_heartbeat_next_check_us c, cn_transport_next_wake c})"
  by (auto simp: connection_next_wake_def connection_is_idle_def has_state_0 Let_def split: if_splits)

lemma next_wake_not_late_witness:
  "\<exists>w'. connection_next_wake (sample_connection\<lparr>cn_heartbeat_next_check_us := 90\<rparr>) 50 100 = (OK, w') \<and> sint w' \<le> 90"
proof -
  let ?c = "sample_connection\<lparr>cn_heartbeat_next_check_us := 90\<rparr>"
  have w: "connection_next_wake ?c 50 100 = (OK, 90)" and i: "\<not> connection_is_idle ?c" and h: "cn_heartbeat_next_check_us ?c = 90"
    by (simp_all add: connection_next_wake_def sample_connection_def connection_is_idle_def has_state_def status_flags_defs FLAGS_CHECK_def)
  show ?thesis using next_wake_not_late [OF w i] w h by auto
qed

end
