(* ===== verification/RRL_ConnList.thy ===== *)
theory RRL_ConnList
  imports RRL_Connection "HOL-Library.Monad_Syntax"
begin

text \<open>
  The list of connections of src/connection.c: connections, acceptors and the head of the list are
  objects that start with the same structure and are linked in both directions. A store maps addresses to
  objects; an operation that reads an address without an object, or a loop that does not end, is
  \<open>None\<close>. An object's type code and what it really is are separate here as in the code, where a
  cast only compares the code.
\<close>


section \<open>Objects in memory\<close>

datatype object = Conn connection | Acceptor connection_acceptor | ListHead connection_object

type_synonym store = "addr \<Rightarrow> object option"

fun object_head :: "object \<Rightarrow> connection_object" where
  "object_head (Conn c) = connection_object.truncate c"
| "object_head (Acceptor a) = connection_object.truncate a"
| "object_head (ListHead h) = h"

abbreviation object_next :: "object \<Rightarrow> addr" where "object_next ob \<equiv> co_next (object_head ob)"
abbreviation object_prev :: "object \<Rightarrow> addr" where "object_prev ob \<equiv> co_prev (object_head ob)"
abbreviation object_type :: "object \<Rightarrow> u32" where "object_type ob \<equiv> co_type (object_head ob)"
abbreviation object_sock :: "object \<Rightarrow> connection_socket" where "object_sock ob \<equiv> co_sock (object_head ob)"

fun set_object_next :: "addr \<Rightarrow> object \<Rightarrow> object" where
  "set_object_next n (Conn c) = Conn (c\<lparr>co_next := n\<rparr>)"
| "set_object_next n (Acceptor a) = Acceptor (a\<lparr>co_next := n\<rparr>)"
| "set_object_next n (ListHead h) = ListHead (h\<lparr>co_next := n\<rparr>)"

fun set_object_prev :: "addr \<Rightarrow> object \<Rightarrow> object" where
  "set_object_prev n (Conn c) = Conn (c\<lparr>co_prev := n\<rparr>)"
| "set_object_prev n (Acceptor a) = Acceptor (a\<lparr>co_prev := n\<rparr>)"
| "set_object_prev n (ListHead h) = ListHead (h\<lparr>co_prev := n\<rparr>)"

definition look :: "store \<Rightarrow> addr \<Rightarrow> object option" where
  "look h a = (if a = 0 then None else h a)"

definition set_next :: "addr \<Rightarrow> addr \<Rightarrow> store \<Rightarrow> store option" where
  "set_next a n h = do { ob \<leftarrow> look h a; Some (h(a \<mapsto> set_object_next n ob)) }"

definition set_prev :: "addr \<Rightarrow> addr \<Rightarrow> store \<Rightarrow> store option" where
  "set_prev a n h = do { ob \<leftarrow> look h a; Some (h(a \<mapsto> set_object_prev n ob)) }"

text \<open>Access through a pointer to a connection or an acceptor.\<close>

definition connection_at :: "store \<Rightarrow> addr \<Rightarrow> connection option" where
  "connection_at h a = (case look h a of Some (Conn c) \<Rightarrow> Some c | _ \<Rightarrow> None)"

definition acceptor_at :: "store \<Rightarrow> addr \<Rightarrow> connection_acceptor option" where
  "acceptor_at h a = (case look h a of Some (Acceptor c) \<Rightarrow> Some c | _ \<Rightarrow> None)"


section \<open>Building the list\<close>

definition zero_connection :: connection where
  "zero_connection =
     \<lparr>co_type = 0, co_transport_type = 0, co_next = 0, co_prev = 0, co_sock = zero_socket, co_ops = 0,
      cn_send_buffer = [], cn_recv_buffer = [], cn_send_buffer_len = 0,
      cn_recv_buffer_len = 0, cn_send_buffer_pos = 0, cn_recv_buffer_pos = 0, cn_config_flags = 0,
      cn_connection_state = 0, cn_heartbeat_period_ms = 0, cn_heartbeat_timeout_ms = 0,
      cn_heartbeat_next_check_us = 0, cn_local_endpoint = 0, cn_remote_endpoint = 0,
      cn_remote_nodeid = nodeid_any, cn_remote_nodename_char = replicate 128 0, cn_remote_nodename = [],
      cn_remote_service_name_char = replicate 128 0, cn_remote_service_name = [],
      cn_last_recv_message_time = 0, cn_last_send_message_time = 0, cn_last_request_id = 0,
      cn_message_flags_inv_mask = 0, cn_recv_message_len = 0, cn_send_message_len = 0,
      cn_transport_storage = zero_transport_storage, cn_user_data_type_code = 0, cn_user_data = 0,
      cn_transport_next_wake = 0, cn_service = 0, cn_client = 0\<rparr>"

definition list_head_construct :: "store \<Rightarrow> addr \<Rightarrow> store" where
  "list_head_construct h connections_head =
     h(connections_head \<mapsto> ListHead \<lparr>co_type = CONNECTION_OBJECT_TYPE_LIST_HEAD, co_transport_type = 0, co_next = 0,
        co_prev = 0, co_sock = zero_socket, co_ops = 0\<rparr>)"

partial_function (option) last_object :: "store \<Rightarrow> addr \<Rightarrow> addr option" where
  "last_object h c = do {
     ob \<leftarrow> look h c;
     if object_next ob \<noteq> 0 then last_object h (object_next ob) else Some c }"

definition list_append :: "store \<Rightarrow> addr \<Rightarrow> addr \<Rightarrow> store option" where
  "list_append h connections_head val = do {
     c \<leftarrow> last_object h connections_head;
     h \<leftarrow> set_next c val h;
     set_prev val c h }"

definition list_remove :: "store \<Rightarrow> addr \<Rightarrow> addr \<Rightarrow> store option" where
  "list_remove h connections_head val = do {
     ob \<leftarrow> look h val;
     h \<leftarrow> (if object_prev ob \<noteq> 0 then set_next (object_prev ob) (object_next ob) h else Some h);
     ob \<leftarrow> look h val;
     h \<leftarrow> (if object_next ob \<noteq> 0 then set_prev (object_next ob) (object_prev ob) h else Some h);
     h \<leftarrow> set_next val 0 h;
     set_prev val 0 h }"

definition connection_construct :: "store \<Rightarrow> addr \<Rightarrow> addr \<Rightarrow> store option" where
  "connection_construct h c connections_head =
     (let h = h(c \<mapsto> Conn (zero_connection\<lparr>co_type := CONNECTION_OBJECT_TYPE_CONNECTION, cn_heartbeat_period_ms := 5000,
                             cn_heartbeat_timeout_ms := 15000\<rparr>))
      in if connections_head \<noteq> 0 then list_append h connections_head c else Some h)"

text \<open>
  The connections of an array, from the \<open>i\<close>-th on, each with its two parts of the array of buffers.
  \<open>storage\<close> lists the addresses of the array's elements. The buffers of a connection are
  separate memory in the model; that the parts do not overlap is a theorem.
\<close>

definition give_buffers :: "byte list \<Rightarrow> size_t \<Rightarrow> nat \<Rightarrow> addr \<Rightarrow> store \<Rightarrow> store option" where
  "give_buffers buffers buffer_size i a h = do {
     c \<leftarrow> connection_at h a;
     Some (h(a \<mapsto> Conn (c\<lparr>cn_recv_buffer := chunk buffers (i * 2 * buffer_size) buffer_size,
                            cn_send_buffer := chunk buffers (i * 2 * buffer_size + buffer_size) buffer_size,
                            cn_recv_buffer_len := buffer_size, cn_send_buffer_len := buffer_size\<rparr>))) }"

fun construct_loop :: "byte list \<Rightarrow> size_t \<Rightarrow> addr \<Rightarrow> addr list \<Rightarrow> nat \<Rightarrow> store \<Rightarrow> store option" where
  "construct_loop buffers buffer_size connections_head [] i h = Some h"
| "construct_loop buffers buffer_size connections_head (a # storage) i h = do {
     h \<leftarrow> connection_construct h a connections_head;
     h \<leftarrow> give_buffers buffers buffer_size i a h;
     construct_loop buffers buffer_size connections_head storage (Suc i) h }"

definition connections_construct_from_array :: "store \<Rightarrow> addr list \<Rightarrow> byte list \<Rightarrow> size_t \<Rightarrow> addr \<Rightarrow> store option" where
  "connections_construct_from_array h storage buffers buffer_size connections_head =
     construct_loop buffers buffer_size connections_head storage 0 h"


section \<open>Walking the list\<close>

definition connection_cast :: "store \<Rightarrow> addr \<Rightarrow> addr option" where
  "connection_cast h a =
     (if a = 0 then Some 0
      else do { ob \<leftarrow> look h a; Some (if object_type ob \<noteq> CONNECTION_OBJECT_TYPE_CONNECTION then 0 else a) })"

definition connection_acceptor_cast :: "store \<Rightarrow> addr \<Rightarrow> addr option" where
  "connection_acceptor_cast h a =
     (if a = 0 then Some 0
      else do { ob \<leftarrow> look h a; Some (if object_type ob \<noteq> CONNECTION_OBJECT_TYPE_ACCEPTOR then 0 else a) })"

partial_function (option) connection_first :: "store \<Rightarrow> addr \<Rightarrow> addr option" where
  "connection_first h c1 =
     (if c1 = 0 then Some 0
      else do {
        c2 \<leftarrow> connection_cast h c1;
        if c2 \<noteq> 0 then Some c2
        else do { ob \<leftarrow> look h c1; connection_first h (object_next ob) } })"

partial_function (option) connection_first_2 :: "store \<Rightarrow> u32 \<Rightarrow> addr \<Rightarrow> addr option" where
  "connection_first_2 h transport_type c1 =
     (if c1 = 0 then Some 0
      else do {
        c2 \<leftarrow> connection_cast h c1;
        ob \<leftarrow> look h c1;
        if c2 \<noteq> 0 \<and> co_transport_type (object_head ob) = transport_type then Some c2
        else connection_first_2 h transport_type (object_next ob) })"

definition connection_next :: "store \<Rightarrow> addr \<Rightarrow> addr option" where
  "connection_next h a =
     (if a = 0 then Some 0
      else do { ob \<leftarrow> look h a; if object_next ob = 0 then Some 0 else connection_first h (object_next ob) })"

definition connection_next_2 :: "store \<Rightarrow> addr \<Rightarrow> u32 \<Rightarrow> addr option" where
  "connection_next_2 h a transport_type =
     (if a = 0 then Some 0
      else do { ob \<leftarrow> look h a;
                if object_next ob = 0 then Some 0 else connection_first_2 h transport_type (object_next ob) })"

partial_function (option) find_idle_from :: "store \<Rightarrow> addr \<Rightarrow> addr option" where
  "find_idle_from h c =
     (if c = 0 then Some 0
      else do {
        k \<leftarrow> connection_at h c;
        if has_state k STATUS_FLAGS_IDLE then Some c
        else do { n \<leftarrow> connection_next h c; find_idle_from h n } })"

definition connection_find_idle :: "store \<Rightarrow> addr \<Rightarrow> addr option" where
  "connection_find_idle h connections_head = do { c \<leftarrow> connection_first h connections_head; find_idle_from h c }"

partial_function (option) init_from :: "addr \<Rightarrow> store \<Rightarrow> store option" where
  "init_from c h =
     (if c = 0 then Some h
      else do {
        k \<leftarrow> connection_at h c;
        let h = h(c \<mapsto> Conn (connection_init k));
        n \<leftarrow> connection_next h c;
        init_from n h })"

definition connection_init_connections :: "store \<Rightarrow> addr \<Rightarrow> store option" where
  "connection_init_connections h connections_head = do { c \<leftarrow> connection_first h connections_head; init_from c h }"

definition connection_init_connection_acceptor :: "connection_acceptor \<Rightarrow> connection_acceptor" where
  "connection_init_connection_acceptor acceptor = acceptor"

text \<open>The loop goes on from the object behind the connection: \<open>connection_next(c->head.next)\<close>.\<close>

partial_function (option) idle_loop :: "store \<Rightarrow> addr \<Rightarrow> bool option" where
  "idle_loop h c =
     (if c = 0 then Some False
      else do {
        k \<leftarrow> connection_at h c;
        if has_state k STATUS_FLAGS_IDLE then Some True
        else do { n \<leftarrow> connection_next h (co_next k); idle_loop h n } })"

definition acceptor_impl_prepare_wait :: "store \<Rightarrow> addr \<Rightarrow> addr \<Rightarrow> (status \<times> store) option" where
  "acceptor_impl_prepare_wait h acceptor connection_head = do {
     c \<leftarrow> connection_first h connection_head;
     a \<leftarrow> acceptor_at h acceptor;
     let h = h(acceptor \<mapsto> Acceptor (a\<lparr>co_sock := want SOCKET_FLAGS_WANT_RECEIVE False (co_sock a)\<rparr>));
     found \<leftarrow> idle_loop h c;
     Some (OK, if found then h(acceptor \<mapsto> Acceptor (a\<lparr>co_sock := want SOCKET_FLAGS_WANT_RECEIVE True
                                   (want SOCKET_FLAGS_WANT_RECEIVE False (co_sock a))\<rparr>)) else h) }"



section \<open>Serving all objects\<close>

text \<open>
  The table of functions of an object. A function gets the object, the head of the list and the time,
  and acts on the store and on the world behind the sockets. \<open>ops\<close> gives the table at an
  address; a missing function is \<open>None\<close>.
\<close>

type_synonym 'w handler = "addr \<Rightarrow> addr \<Rightarrow> timespec \<Rightarrow> 'w \<times> store \<Rightarrow> status \<times> 'w \<times> store"

record 'w object_ops =
  op_communicate_recv :: "'w handler option"
  op_communicate_send :: "'w handler option"
  op_communicate_process_control :: "'w handler option"
  op_prepare_wait :: "'w handler option"
  op_connection_close :: "'w handler option"

type_synonym 'w ops_table = "addr \<Rightarrow> 'w object_ops"

text \<open>The guarded call \<open>c->ops != NULL && c->ops->f != NULL\<close>; no call is a success.\<close>

definition call_op ::
  "'w ops_table \<Rightarrow> ('w object_ops \<Rightarrow> 'w handler option) \<Rightarrow> addr \<Rightarrow> addr \<Rightarrow> timespec \<Rightarrow> 'w \<times> store \<Rightarrow> (status \<times> 'w \<times> store) option" where
  "call_op ops sel c connections_head now s = do {
     ob \<leftarrow> look (snd s) c;
     Some (let p = co_ops (object_head ob) in
           if p = 0 then (OK, s)
           else case sel (ops p) of None \<Rightarrow> (OK, s) | Some f \<Rightarrow> f c connections_head now s) }"

text \<open>Control, receiving and sending for one object; each only when the one before did not fail.\<close>

definition communicate_object :: "'w ops_table \<Rightarrow> addr \<Rightarrow> timespec \<Rightarrow> addr \<Rightarrow> 'w \<times> store \<Rightarrow> (status \<times> 'w \<times> store) option" where
  "communicate_object ops connections_head now c s = do {
     (rv, s) \<leftarrow> call_op ops op_communicate_process_control c connections_head now s;
     if FAILED rv then Some (OK, s)
     else do {
       (rv, s) \<leftarrow> call_op ops op_communicate_recv c connections_head now s;
       if FAILED rv then Some (OK, s)
       else do {
         (rv, s) \<leftarrow> call_op ops op_communicate_send c connections_head now s;
         Some (OK, s) } } }"

text \<open>A loop over the objects; \<open>f\<close> serves one, and its failure ends the loop.\<close>

partial_function (option) objects_loop ::
  "(addr \<Rightarrow> 'w \<times> store \<Rightarrow> (status \<times> 'w \<times> store) option) \<Rightarrow> addr \<Rightarrow> 'w \<times> store \<Rightarrow> (status \<times> 'w \<times> store) option" where
  "objects_loop f c s =
     (if c = 0 then Some (OK, s)
      else do {
        r \<leftarrow> f c s;
        if FAILED (fst r) then Some r
        else do { ob \<leftarrow> look (snd (snd r)) c; objects_loop f (object_next ob) (snd r) } })"

definition ignore_status :: "(status \<times> 'w \<times> store) option \<Rightarrow> (status \<times> 'w \<times> store) option" where
  "ignore_status r = map_option (\<lambda>(rv, s). (OK, s)) r"

definition connections_communicate :: "'w ops_table \<Rightarrow> addr \<Rightarrow> timespec \<Rightarrow> 'w \<times> store \<Rightarrow> (status \<times> 'w \<times> store) option" where
  "connections_communicate ops connections_head now s =
     objects_loop (communicate_object ops connections_head now) connections_head s"

definition connections_communicate_recv :: "'w ops_table \<Rightarrow> addr \<Rightarrow> timespec \<Rightarrow> 'w \<times> store \<Rightarrow> (status \<times> 'w \<times> store) option" where
  "connections_communicate_recv ops connections_head now s =
     objects_loop (\<lambda>c s. ignore_status (call_op ops op_communicate_recv c connections_head now s)) connections_head s"

definition connections_communicate_send :: "'w ops_table \<Rightarrow> addr \<Rightarrow> timespec \<Rightarrow> 'w \<times> store \<Rightarrow> (status \<times> 'w \<times> store) option" where
  "connections_communicate_send ops connections_head now s =
     objects_loop (\<lambda>c s. ignore_status (call_op ops op_communicate_send c connections_head now s)) connections_head s"

definition connections_communicate_process_control ::
  "'w ops_table \<Rightarrow> addr \<Rightarrow> timespec \<Rightarrow> 'w \<times> store \<Rightarrow> (status \<times> 'w \<times> store) option" where
  "connections_communicate_process_control ops connections_head now s =
     objects_loop (\<lambda>c s. ignore_status (call_op ops op_communicate_process_control c connections_head now s)) connections_head s"

definition connections_prepare_wait :: "'w ops_table \<Rightarrow> addr \<Rightarrow> timespec \<Rightarrow> 'w \<times> store \<Rightarrow> (status \<times> 'w \<times> store) option" where
  "connections_prepare_wait ops connections_head now s =
     objects_loop (\<lambda>c s. call_op ops op_prepare_wait c connections_head now s) connections_head s"

definition connections_close :: "'w ops_table \<Rightarrow> addr \<Rightarrow> timespec \<Rightarrow> 'w \<times> store \<Rightarrow> (status \<times> 'w \<times> store) option" where
  "connections_close ops connections_head now s =
     objects_loop (\<lambda>c s. call_op ops op_connection_close c connections_head now s) connections_head s"

definition connections_communicate_drain :: "'w ops_table \<Rightarrow> addr \<Rightarrow> timespec \<Rightarrow> 'w \<times> store \<Rightarrow> (status \<times> 'w \<times> store) option" where
  "connections_communicate_drain ops connections_head now s = connections_communicate_send ops connections_head now s"

text \<open>The number of connections behind the head whose socket flags satisfy a condition.\<close>

partial_function (option) count_objects :: "(u16 \<Rightarrow> bool) \<Rightarrow> store \<Rightarrow> addr \<Rightarrow> size_t \<Rightarrow> size_t option" where
  "count_objects P h c n =
     (if c = 0 then Some n
      else do {
        ob \<leftarrow> look h c;
        count_objects P h (object_next ob)
          (if object_type ob = CONNECTION_OBJECT_TYPE_CONNECTION \<and> P (sk_flags (object_sock ob)) then Suc n else n) })"

definition may_send :: "u16 \<Rightarrow> bool" where
  "may_send f \<longleftrightarrow> FLAGS_CHECK f SOCKET_FLAGS_ACTIVE \<and> FLAGS_CHECK f SOCKET_FLAGS_WANT_SEND \<and>
     \<not> FLAGS_CHECK f SOCKET_FLAGS_SEND_WOULD_BLOCK"

definition may_receive :: "u16 \<Rightarrow> bool" where
  "may_receive f \<longleftrightarrow> FLAGS_CHECK f SOCKET_FLAGS_WANT_RECEIVE \<and> \<not> FLAGS_CHECK f SOCKET_FLAGS_RECEIVE_WOULD_BLOCK"

definition count_after_wait ::
  "(u16 \<Rightarrow> bool) \<Rightarrow> 'w ops_table \<Rightarrow> addr \<Rightarrow> timespec \<Rightarrow> 'w \<times> store \<Rightarrow> (size_t \<times> 'w \<times> store) option" where
  "count_after_wait P ops connections_head now s = do {
     (rv, s) \<leftarrow> connections_prepare_wait ops connections_head now s;
     if FAILED rv then Some (0, s)
     else do {
       ob \<leftarrow> look (snd s) connections_head;
       n \<leftarrow> count_objects P (snd s) (object_next ob) 0;
       Some (n, s) } }"

definition connections_communicate_drain_pending ::
  "'w ops_table \<Rightarrow> addr \<Rightarrow> timespec \<Rightarrow> 'w \<times> store \<Rightarrow> (size_t \<times> 'w \<times> store) option" where
  "connections_communicate_drain_pending ops connections_head now s = count_after_wait may_send ops connections_head now s"

definition connections_communicate_available ::
  "'w ops_table \<Rightarrow> addr \<Rightarrow> timespec \<Rightarrow> 'w \<times> store \<Rightarrow> (size_t \<times> 'w \<times> store) option" where
  "connections_communicate_available ops connections_head now s =
     count_after_wait (\<lambda>f. may_send f \<and> may_receive f) ops connections_head now s"

end
