(* ===== verification/RRL_ListSpec.thy ===== *)
theory RRL_ListSpec
  imports RRL_ConnList RRL_ConnSpec
begin

text \<open>
  What the list of connections promises: the links in the store represent a list of addresses, and the
  operations of the code are the operations on that list. The abstraction is relational, as usual for
  linked structures: \<open>seg\<close> relates a piece of the store to the addresses it links.
\<close>


section \<open>The abstraction\<close>

fun seg :: "store \<Rightarrow> addr \<Rightarrow> addr list \<Rightarrow> addr \<Rightarrow> bool" where
  "seg h p [] n \<longleftrightarrow> True"
| "seg h p (x # xs) n \<longleftrightarrow> x \<noteq> 0 \<and>
     (\<exists>ob. h x = Some ob \<and> object_prev ob = p \<and> object_next ob = hd (xs @ [n])) \<and> seg h x xs n"

definition is_list :: "store \<Rightarrow> addr \<Rightarrow> addr list \<Rightarrow> bool" where
  "is_list h head xs \<longleftrightarrow> distinct (head # xs) \<and> seg h 0 (head # xs) 0"

text \<open>An object without its links, and stores that differ in links only.\<close>

definition unlinked :: "object \<Rightarrow> object" where
  "unlinked ob = set_object_prev 0 (set_object_next 0 ob)"

definition same_data :: "store \<Rightarrow> store \<Rightarrow> bool" where
  "same_data h h' \<longleftrightarrow> (\<forall>a. map_option unlinked (h' a) = map_option unlinked (h a))"

lemma set_links [simp]:
  "object_next (set_object_next n ob) = n" "object_prev (set_object_next n ob) = object_prev ob"
  "object_prev (set_object_prev n ob) = n" "object_next (set_object_prev n ob) = object_next ob"
  "unlinked (set_object_next n ob) = unlinked ob" "unlinked (set_object_prev n ob) = unlinked ob"
  by (cases ob; simp add: unlinked_def connection_object.truncate_def)+

lemma same_data_refl [simp]: "same_data h h"
  by (simp add: same_data_def)

lemma seg_frame: "(\<And>a. a \<in> set xs \<Longrightarrow> h' a = h a) \<Longrightarrow> seg h' p xs n = seg h p xs n"
  by (induction xs arbitrary: p) auto

lemma seg_upd [simp]: "a \<notin> set xs \<Longrightarrow> seg (h(a := ob)) p xs n = seg h p xs n"
  by (rule seg_frame) auto

lemma seg_append: "seg h p (xs @ ys) n \<longleftrightarrow> seg h p xs (hd (ys @ [n])) \<and> seg h (last (p # xs)) ys n"
  by (induction xs arbitrary: p) (auto simp: hd_append)

lemma seg_nonzero: "seg h p xs n \<Longrightarrow> 0 \<notin> set xs"
  by (induction xs arbitrary: p) auto

lemma seg_in_store: "seg h p xs n \<Longrightarrow> a \<in> set xs \<Longrightarrow> \<exists>ob. h a = Some ob"
  by (induction xs arbitrary: p) auto

lemma seg_look: "seg h p xs n \<Longrightarrow> a \<in> set xs \<Longrightarrow> look h a = h a"
  using seg_nonzero by (auto simp: look_def)

text \<open>Changing a link at the end or at the start of a piece.\<close>

lemma seg_set_end:
  "seg h p (ys @ [l]) n \<Longrightarrow> l \<notin> set ys \<Longrightarrow> h l = Some ob \<Longrightarrow> seg (h(l \<mapsto> set_object_next m ob)) p (ys @ [l]) m"
  by (auto simp: seg_append)

lemma seg_set_start:
  "seg h p (b # bs) n \<Longrightarrow> b \<notin> set bs \<Longrightarrow> h b = Some ob \<Longrightarrow> seg (h(b \<mapsto> set_object_prev q ob)) q (b # bs) n"
  by auto


section \<open>Append and remove\<close>

lemma last_object_seg: "seg h p (x # xs) 0 \<Longrightarrow> last_object h x = Some (last (x # xs))"
proof (induction xs arbitrary: p x)
  case Nil
  then show ?case by (subst last_object.simps) (auto simp: look_def)
next
  case (Cons y ys)
  then show ?case by (subst last_object.simps) (auto simp: look_def)
qed

lemma list_append_lemma:
  assumes "is_list h head xs" and "h v = Some ob" and "v \<noteq> 0" and "v \<notin> set (head # xs)" and "object_next ob = 0"
  shows "\<exists>h'. list_append h head v = Some h' \<and> is_list h' head (xs @ [v]) \<and> same_data h h'"
proof -
  let ?all = "head # xs"
  obtain ys l where s: "?all = ys @ [l]" by (metis append_butlast_last_id list.distinct(1))
  have d: "distinct (ys @ [l])" "v \<notin> set (ys @ [l])"
    using assms(1,4) by (simp_all only: is_list_def s not_False_eq_True)
  then have l: "last ?all = l" "l \<noteq> v" "l \<notin> set ys" "v \<notin> set ys" "distinct (?all @ [v])"
    unfolding s by auto
  have g: "seg h 0 (ys @ [l]) 0" using assms(1) s by (simp add: is_list_def)
  then obtain lo where lo: "h l = Some lo" "l \<noteq> 0" using seg_in_store [OF g, of l] seg_nonzero [OF g] by auto
  let ?h1 = "h(l \<mapsto> set_object_next v lo)" and ?h2 = "(h(l \<mapsto> set_object_next v lo))(v \<mapsto> set_object_prev l ob)"
  have a: "list_append h head v = Some ?h2"
    using last_object_seg [of h 0 head xs] assms(1,2,3) l(1,2) lo
    by (simp add: list_append_def set_next_def set_prev_def look_def is_list_def)
  have "seg ?h1 0 (ys @ [l]) v" by (rule seg_set_end [OF g l(3) lo(1)])
  then have "seg ?h2 0 (?all @ [v]) 0"
    using s l assms(3,5) by (subst s) (subst seg_append, auto)
  moreover have "same_data h ?h2"
    using lo assms(2) l(2) by (auto simp: same_data_def)
  ultimately show ?thesis using a l(5) by (auto simp: is_list_def)
qed

text \<open>
  C27. Appending to the list of connections appends to the list it represents, and changes nothing but
  links.
\<close>

theorem list_append_refines:
  assumes "is_list h head xs" and "h v = Some ob" and "v \<noteq> 0" and "v \<notin> set (head # xs)" and "object_next ob = 0"
  shows "\<exists>h'. list_append h head v = Some h' \<and> is_list h' head (xs @ [v]) \<and> same_data h h'"
  by (rule list_append_lemma [OF assms])

text \<open>
  Removing an object removes it from the list that is represented, unlinks it, and changes nothing
  but links.
\<close>

theorem list_remove_refines:
  assumes "is_list h head xs" and "v \<in> set xs"
  shows "\<exists>h' ob. list_remove h head v = Some h' \<and> is_list h' head (remove1 v xs) \<and> same_data h h' \<and>
    h' v = Some ob \<and> object_next ob = 0 \<and> object_prev ob = 0"
proof -
  obtain as bs where xs: "xs = as @ v # bs" "v \<notin> set as" using assms(2) by (metis split_list_first)
  have d: "distinct ((head # as) @ v # bs)" and g: "seg h 0 ((head # as) @ v # bs) 0"
    using assms(1) by (simp_all add: is_list_def xs)
  obtain ys p where p: "head # as = ys @ [p]" by (metis append_butlast_last_id list.distinct(1))
  have pd: "distinct (ys @ p # v # bs)" using d p by simp
  have g1: "seg h 0 (ys @ [p]) v" and g2: "seg h p (v # bs) 0"
    using g seg_append [of h 0 "ys @ [p]" "v # bs" 0] by (simp_all only: p) simp_all
  obtain po vo where po: "h p = Some po" "p \<noteq> 0" and vo: "h v = Some vo" "v \<noteq> 0" "object_prev vo = p" "object_next vo = hd (bs @ [0])"
    using g2 seg_in_store [OF g1, of p] seg_nonzero [OF g1] by auto
  let ?h1 = "h(p \<mapsto> set_object_next (hd (bs @ [0])) po)"
  have s1: "seg ?h1 0 (ys @ [p]) (hd (bs @ [0]))" by (rule seg_set_end [OF g1 _ po(1)]) (use pd in auto)
  have rm: "remove1 v xs = as @ bs" using xs by (simp add: remove1_append)
  show ?thesis
  proof (cases bs)
    case Nil
    let ?h' = "?h1(v \<mapsto> set_object_prev 0 (set_object_next 0 vo))"
    have r: "list_remove h head v = Some ?h'"
      using po vo pd Nil by (simp add: list_remove_def set_next_def set_prev_def look_def)
    have "seg ?h' 0 (head # as) 0" using s1 pd Nil by (simp only: p) simp
    moreover have "same_data h ?h'" using po vo by (auto simp: same_data_def)
    ultimately show ?thesis using r d rm Nil by (auto simp: is_list_def)
  next
    case (Cons b bs')
    then obtain bo where bo: "h b = Some bo" "b \<noteq> 0" using g2 by auto
    let ?h2 = "?h1(b \<mapsto> set_object_prev p bo)"
    let ?h' = "?h2(v \<mapsto> set_object_prev 0 (set_object_next 0 vo))"
    have ne: "b \<noteq> p" "b \<noteq> v" "p \<noteq> v" using pd Cons by auto
    have r: "list_remove h head v = Some ?h'"
      using po vo bo ne Cons by (simp add: list_remove_def set_next_def set_prev_def look_def)
    have "seg ?h1 v bs 0" using g2 pd by auto
    then have s2: "seg ?h2 p bs 0" using seg_set_start [of ?h1 v b bs' 0 bo p] pd bo ne Cons by auto
    have s1': "seg ?h2 0 (ys @ [p]) (hd (bs @ [0]))" using s1 pd Cons by (subst seg_upd) auto
    have "seg ?h' 0 ((head # as) @ bs) 0"
      using s1' s2 pd by (simp only: p seg_append) auto
    moreover have "same_data h ?h'"
      using po vo bo ne by (auto simp: same_data_def)
    ultimately show ?thesis using r d rm by (auto simp: is_list_def)
  qed
qed



section \<open>Walking\<close>

text \<open>Objects whose type code says what they are.\<close>

fun kind_ok :: "object \<Rightarrow> bool" where
  "kind_ok (Conn c) \<longleftrightarrow> co_type c = CONNECTION_OBJECT_TYPE_CONNECTION"
| "kind_ok (Acceptor a) \<longleftrightarrow> co_type a = CONNECTION_OBJECT_TYPE_ACCEPTOR"
| "kind_ok (ListHead h) \<longleftrightarrow> co_type h = CONNECTION_OBJECT_TYPE_LIST_HEAD"

definition kinds_ok :: "store \<Rightarrow> bool" where
  "kinds_ok h \<longleftrightarrow> (\<forall>a ob. h a = Some ob \<longrightarrow> kind_ok ob)"

definition is_conn :: "store \<Rightarrow> addr \<Rightarrow> bool" where
  "is_conn h a \<longleftrightarrow> (\<exists>c. h a = Some (Conn c))"

definition is_idle :: "store \<Rightarrow> addr \<Rightarrow> bool" where
  "is_idle h a \<longleftrightarrow> (\<exists>c. h a = Some (Conn c) \<and> has_state c STATUS_FLAGS_IDLE)"

lemmas object_type_defs = CONNECTION_OBJECT_TYPE_CONNECTION_def CONNECTION_OBJECT_TYPE_ACCEPTOR_def
  CONNECTION_OBJECT_TYPE_LIST_HEAD_def

lemma truncate_fields [simp]:
  "co_type (connection_object.truncate c) = co_type c" "co_next (connection_object.truncate c) = co_next c"
  "co_prev (connection_object.truncate c) = co_prev c" "co_sock (connection_object.truncate c) = co_sock c"
  "co_transport_type (connection_object.truncate c) = co_transport_type c" "co_ops (connection_object.truncate c) = co_ops c"
  by (simp_all add: connection_object.truncate_def)

lemma kind_cast: "kind_ok ob \<Longrightarrow> object_type ob = CONNECTION_OBJECT_TYPE_CONNECTION \<longleftrightarrow> (\<exists>c. ob = Conn c)"
  by (cases ob) (auto simp: object_type_defs)

lemma cast_kind:
  assumes "kinds_ok h" and "h a = Some ob" and "a \<noteq> 0"
  shows "connection_cast h a = Some (if is_conn h a then a else 0)"
  using assms kind_cast [of ob] by (auto simp: connection_cast_def look_def is_conn_def kinds_ok_def)

text \<open>The first address of a list, or \<open>NULL\<close>.\<close>

definition front :: "addr list \<Rightarrow> addr" where
  "front xs = hd (xs @ [0])"

lemma front_simps [simp]: "front [] = 0" "front (x # xs) = x"
  by (simp_all add: front_def)

lemma connection_first_seg:
  "seg h p xs 0 \<Longrightarrow> kinds_ok h \<Longrightarrow> connection_first h (front xs) = Some (front (filter (is_conn h) xs))"
proof (induction xs arbitrary: p)
  case Nil
  show ?case by (subst connection_first.simps) simp
next
  case (Cons x xs)
  then obtain ob where ob: "h x = Some ob" "x \<noteq> 0" "object_next ob = front xs" by (auto simp: front_def)
  show ?case
    using Cons ob cast_kind [OF Cons.prems(2) ob(1,2)]
    by (subst connection_first.simps) (auto simp: look_def)
qed

lemma connection_next_seg:
  assumes "seg h p (x # xs) 0" and "kinds_ok h"
  shows "connection_next h x = Some (front (filter (is_conn h) xs))"
proof -
  obtain ob where ob: "h x = Some ob" "x \<noteq> 0" "object_next ob = front xs" "seg h x xs 0"
    using assms(1) by (auto simp: front_def)
  show ?thesis
  proof (cases xs)
    case Nil
    then show ?thesis using ob by (simp add: connection_next_def look_def)
  next
    case (Cons y ys)
    then have "front xs \<noteq> 0" using ob(4) by auto
    then show ?thesis
      using ob connection_first_seg [OF ob(4) assms(2)] by (simp add: connection_next_def look_def)
  qed
qed

text \<open>A loop over the connections of a list, by way of \<open>connection_next\<close>.\<close>

lemma find_idle_seg:
  "seg h p xs 0 \<Longrightarrow> kinds_ok h \<Longrightarrow> find_idle_from h (front (filter (is_conn h) xs)) = Some (front (filter (is_idle h) xs))"
proof (induction xs arbitrary: p)
  case Nil
  show ?case by (subst find_idle_from.simps) simp
next
  case (Cons x xs)
  have g: "seg h x xs 0" using Cons.prems(1) by simp
  note n = connection_next_seg [OF Cons.prems]
  show ?case
  proof (cases "is_conn h x")
    case True
    then obtain c where c: "h x = Some (Conn c)" "x \<noteq> 0" using Cons.prems(1) by (auto simp: is_conn_def)
    have "connection_at h x = Some c" "is_idle h x = has_state c STATUS_FLAGS_IDLE"
      using c by (simp_all add: connection_at_def look_def is_idle_def)
    then show ?thesis
      using Cons.IH [OF g Cons.prems(2)] c n True
      by (subst find_idle_from.simps) auto
  next
    case False
    then have "\<not> is_idle h x" by (auto simp: is_conn_def is_idle_def)
    then show ?thesis using Cons.IH [OF g Cons.prems(2)] False by simp
  qed
qed

lemma front_in: "front xs \<noteq> 0 \<Longrightarrow> front xs \<in> set xs"
  by (cases xs) auto

lemma find_idle_lemma:
  "is_list h head xs \<Longrightarrow> kinds_ok h \<Longrightarrow> connection_find_idle h head = Some (front (filter (is_idle h) (head # xs)))"
  using connection_first_seg [of h 0 "head # xs"] find_idle_seg [of h 0 "head # xs"]
  by (simp add: connection_find_idle_def is_list_def)

text \<open>
  The search for an idle connection returns the first idle connection of the list, and \<open>NULL\<close>
  only when there is none; it leaves out acceptors and the head.
\<close>

theorem find_idle_first:
  assumes "is_list h head xs" and "kinds_ok h"
  shows "connection_find_idle h head = Some (front (filter (is_idle h) (head # xs)))"
  by (rule find_idle_lemma [OF assms])

text \<open>
  Initialising all connections.
\<close>

fun init_object :: "object \<Rightarrow> object" where
  "init_object (Conn c) = Conn (connection_init c)"
| "init_object ob = ob"

lemma init_keeps:
  "object_next (init_object ob) = object_next ob" "object_prev (init_object ob) = object_prev ob"
  "object_type (init_object ob) = object_type ob" "kind_ok (init_object ob) = kind_ok ob"
  by (cases ob; simp add: connection_init_def connection_reset_def nodeid_reset_def connection_object.truncate_def)+

definition init_all :: "addr set \<Rightarrow> store \<Rightarrow> store" where
  "init_all A h = (\<lambda>a. if a \<in> A then map_option init_object (h a) else h a)"

lemma seg_map:
  "(\<And>a ob. a \<in> set xs \<Longrightarrow> h a = Some ob \<Longrightarrow> \<exists>ob'. h' a = Some ob' \<and> object_next ob' = object_next ob \<and> object_prev ob' = object_prev ob) \<Longrightarrow>
     seg h p xs n \<Longrightarrow> seg h' p xs n"
  by (induction xs arbitrary: p) fastforce+

lemma seg_init_all: "seg h p xs n \<Longrightarrow> seg (init_all A h) p xs n"
  by (rule seg_map) (auto simp: init_all_def init_keeps)

lemma init_all_props:
  "kinds_ok (init_all A h) = kinds_ok h" "is_conn (init_all A h) a = is_conn h a"
proof -
  show "kinds_ok (init_all A h) = kinds_ok h"
    by (auto simp: kinds_ok_def init_all_def init_keeps)
  show "is_conn (init_all A h) a = is_conn h a"
    by (cases "h a"; cases "the (h a)") (auto simp: is_conn_def init_all_def)
qed

lemma init_from_seg:
  "seg h p xs 0 \<Longrightarrow> kinds_ok h \<Longrightarrow> distinct xs \<Longrightarrow> init_from (front (filter (is_conn h) xs)) h = Some (init_all (set xs) h)"
proof (induction xs arbitrary: p h)
  case Nil
  show ?case by (subst init_from.simps) (simp add: init_all_def)
next
  case (Cons x xs)
  have g: "seg h x xs 0" using Cons.prems(1) by simp
  let ?h = "init_all {x} h"
  have gx: "seg ?h p (x # xs) 0" by (rule seg_init_all [OF Cons.prems(1)])
  have k: "kinds_ok ?h" using Cons.prems(2) by (simp add: init_all_props)
  have ih: "init_from (front (filter (is_conn ?h) xs)) ?h = Some (init_all (set xs) ?h)"
    by (rule Cons.IH [of _ x]) (use gx k Cons.prems(3) in auto)
  have all: "init_all (set xs) ?h = init_all (set (x # xs)) h"
    using Cons.prems(3) by (auto simp: init_all_def fun_eq_iff)
  show ?case
  proof (cases "is_conn h x")
    case True
    then obtain c where c: "h x = Some (Conn c)" "x \<noteq> 0" using Cons.prems(1) by (auto simp: is_conn_def)
    have at: "connection_at h x = Some c" and u: "h(x \<mapsto> Conn (connection_init c)) = ?h"
      using c by (auto simp: connection_at_def look_def init_all_def)
    show ?thesis
      using True ih at u connection_next_seg [OF gx k] all c(2)
      by (subst init_from.simps) (simp add: Let_def)
  next
    case False
    have "?h = h" using False Cons.prems(1)
      by (auto simp: init_all_def fun_eq_iff is_conn_def) (metis init_object.simps(2,3) object.exhaust)
    then show ?thesis using ih all False by simp
  qed
qed

lemma init_connections_lemma:
  assumes "is_list h head xs" and "kinds_ok h"
  shows "\<exists>h'. connection_init_connections h head = Some h' \<and> is_list h' head xs \<and> h' = init_all (set (head # xs)) h \<and>
    (\<forall>a c. h a = Some (Conn c) \<longrightarrow> h' a = Some (Conn (if a \<in> set (head # xs) then connection_init c else c))) \<and>
    (\<forall>a. \<not> is_conn h a \<longrightarrow> h' a = h a)"
proof -
  have g: "seg h 0 (head # xs) 0" "distinct (head # xs)" using assms(1) by (simp_all add: is_list_def)
  let ?h' = "init_all (set (head # xs)) h"
  have r: "connection_init_connections h head = Some ?h'"
    using connection_first_seg [OF g(1) assms(2)] init_from_seg [OF g(1) assms(2) g(2)]
    by (simp add: connection_init_connections_def)
  have l: "is_list ?h' head xs" using seg_init_all [OF g(1)] g(2) by (simp add: is_list_def)
  have n: "\<not> is_conn h a \<Longrightarrow> ?h' a = h a" for a
    by (cases "h a"; cases "the (h a)") (auto simp: init_all_def is_conn_def)
  show ?thesis using r l n by (auto simp: init_all_def)
qed

text \<open>
  Initialising the connections of a list resets each of them once and leaves the list, the acceptors
  and everything outside it as they were.
\<close>

theorem init_connections_all:
  assumes "is_list h head xs" and "kinds_ok h"
  shows "\<exists>h'. connection_init_connections h head = Some h' \<and> is_list h' head xs \<and>
    (\<forall>a c. h a = Some (Conn c) \<longrightarrow> h' a = Some (Conn (if a \<in> set (head # xs) then connection_init c else c))) \<and>
    (\<forall>a. \<not> is_conn h a \<longrightarrow> h' a = h a)"
  using init_connections_lemma [OF assms] by blast



section \<open>Setting up\<close>

text \<open>The connection that the construction leaves at the \<open>i\<close>-th place of the array, links aside.\<close>

definition new_connection :: "byte list \<Rightarrow> size_t \<Rightarrow> nat \<Rightarrow> connection" where
  "new_connection buffers n i =
     zero_connection\<lparr>co_type := CONNECTION_OBJECT_TYPE_CONNECTION, cn_heartbeat_period_ms := 5000,
       cn_heartbeat_timeout_ms := 15000, cn_recv_buffer := chunk buffers (i * 2 * n) n,
       cn_send_buffer := chunk buffers (i * 2 * n + n) n, cn_recv_buffer_len := n, cn_send_buffer_len := n\<rparr>"

lemma unlinked_Conn: "unlinked (Conn c) = Conn (c\<lparr>co_next := 0, co_prev := 0\<rparr>)"
  by (simp add: unlinked_def)

lemma unlinked_ConnD: "unlinked ob = Conn c \<Longrightarrow> \<exists>c'. ob = Conn c' \<and> c = c'\<lparr>co_next := 0, co_prev := 0\<rparr>"
  by (cases ob) (auto simp: unlinked_def)

lemma construct_one:
  assumes "is_list h head xs" and "a \<noteq> 0" and "a \<notin> set (head # xs)"
  shows "\<exists>h1 h2. connection_construct h a head = Some h1 \<and> give_buffers buffers n i a h1 = Some h2 \<and>
    is_list h2 head (xs @ [a]) \<and> map_option unlinked (h2 a) = Some (Conn (new_connection buffers n i)) \<and>
    (\<forall>b. b \<noteq> a \<longrightarrow> map_option unlinked (h2 b) = map_option unlinked (h b))"
proof -
  let ?c = "zero_connection\<lparr>co_type := CONNECTION_OBJECT_TYPE_CONNECTION, cn_heartbeat_period_ms := 5000,
      cn_heartbeat_timeout_ms := 15000\<rparr>"
  let ?h = "h(a \<mapsto> Conn ?c)"
  have l: "is_list ?h head xs" using assms by (auto simp: is_list_def)
  have z: "object_next (Conn ?c) = 0" by (simp add: zero_connection_def)
  have head: "head \<noteq> 0" using assms(1) by (simp add: is_list_def)
  obtain h1 where h1: "list_append ?h head a = Some h1" "is_list h1 head (xs @ [a])" "same_data ?h h1"
    using list_append_lemma [OF l _ assms(2,3) z] by auto
  have "map_option unlinked (h1 a) = Some (unlinked (Conn ?c))" using h1(3) by (simp add: same_data_def)
  then obtain c where c: "h1 a = Some (Conn c)" "c\<lparr>co_next := 0, co_prev := 0\<rparr> = ?c"
    using unlinked_ConnD by (fastforce simp: unlinked_Conn zero_connection_def)
  let ?c2 = "c\<lparr>cn_recv_buffer := chunk buffers (i * 2 * n) n, cn_send_buffer := chunk buffers (i * 2 * n + n) n,
      cn_recv_buffer_len := n, cn_send_buffer_len := n\<rparr>"
  let ?h2 = "h1(a \<mapsto> Conn ?c2)"
  have g: "give_buffers buffers n i a h1 = Some ?h2"
    using c(1) assms(2) by (simp add: give_buffers_def connection_at_def look_def)
  have "seg ?h2 0 (head # xs @ [a]) 0"
  proof (rule seg_map)
    show "seg h1 0 (head # xs @ [a]) 0" using h1(2) by (simp add: is_list_def)
  next
    fix b ob
    assume "h1 b = Some ob"
    then show "\<exists>ob'. ?h2 b = Some ob' \<and> object_next ob' = object_next ob \<and> object_prev ob' = object_prev ob"
      using c(1) by (cases "b = a") auto
  qed
  then have l2: "is_list ?h2 head (xs @ [a])" using h1(2) by (simp add: is_list_def)
  have "?c2\<lparr>co_next := 0, co_prev := 0\<rparr> = (c\<lparr>co_next := 0, co_prev := 0\<rparr>)\<lparr>cn_recv_buffer := chunk buffers (i * 2 * n) n,
      cn_send_buffer := chunk buffers (i * 2 * n + n) n, cn_recv_buffer_len := n, cn_send_buffer_len := n\<rparr>"
    by simp
  then have "unlinked (Conn ?c2) = Conn (new_connection buffers n i)"
    unfolding c(2) by (simp add: unlinked_Conn new_connection_def)
  moreover have "b \<noteq> a \<Longrightarrow> map_option unlinked (?h2 b) = map_option unlinked (h b)" for b
    using h1(3) by (auto simp: same_data_def)
  ultimately show ?thesis
    using h1(1) g l2 head by (auto simp: connection_construct_def)
qed

lemma construct_loop_list:
  assumes "is_list h head xs" and "distinct storage" and "set storage \<inter> set (head # xs) = {}" and "0 \<notin> set storage"
  shows "\<exists>h'. construct_loop buffers n head storage i h = Some h' \<and> is_list h' head (xs @ storage) \<and>
    (\<forall>j < length storage. map_option unlinked (h' (storage ! j)) = Some (Conn (new_connection buffers n (i + j)))) \<and>
    (\<forall>b. b \<notin> set storage \<longrightarrow> map_option unlinked (h' b) = map_option unlinked (h b))"
  using assms
proof (induction storage arbitrary: h xs i)
  case Nil
  then show ?case by simp
next
  case (Cons a storage)
  have a: "a \<noteq> 0" "a \<notin> set (head # xs)" "a \<notin> set storage" using Cons.prems by auto
  obtain h1 h2 where h: "connection_construct h a head = Some h1" "give_buffers buffers n i a h1 = Some h2"
    "is_list h2 head (xs @ [a])" "map_option unlinked (h2 a) = Some (Conn (new_connection buffers n i))"
    "\<And>b. b \<noteq> a \<Longrightarrow> map_option unlinked (h2 b) = map_option unlinked (h b)"
    using construct_one [OF Cons.prems(1) a(1,2)] by blast
  obtain h' where h': "construct_loop buffers n head storage (Suc i) h2 = Some h'" "is_list h' head ((xs @ [a]) @ storage)"
    "\<And>j. j < length storage \<Longrightarrow> map_option unlinked (h' (storage ! j)) = Some (Conn (new_connection buffers n (Suc i + j)))"
    "\<And>b. b \<notin> set storage \<Longrightarrow> map_option unlinked (h' b) = map_option unlinked (h2 b)"
    using Cons.IH [OF h(3), of "Suc i"] Cons.prems by fastforce
  have "map_option unlinked (h' ((a # storage) ! j)) = Some (Conn (new_connection buffers n (i + j)))"
    if "j < length (a # storage)" for j
    using that h'(3,4) h(4) a(3) by (cases j) auto
  then show ?case
    using h(1,2,5) h'(1,2,4) by (intro exI [of _ h']) auto
qed

text \<open>
  C26. Setting up: after the connections of an array have been constructed behind the head of a list and
  initialised, the list holds them in the order of the array, each is idle with two full buffers of its own
  part of the memory, and the search for an idle connection finds the first.
\<close>

theorem connections_set_up:
  assumes "kinds_ok h" and "head \<noteq> 0" and "distinct storage" and "head \<notin> set storage" and "0 \<notin> set storage"
    and "2 * length storage * n \<le> length buffers" and "storage \<noteq> []"
  shows "\<exists>h1 h2. connections_construct_from_array (list_head_construct h head) storage buffers n head = Some h1 \<and>
    connection_init_connections h1 head = Some h2 \<and> is_list h2 head storage \<and>
    (\<forall>i < length storage. \<exists>c. h2 (storage ! i) = Some (Conn c) \<and> connection_is_idle c \<and>
       cn_recv_buffer c = chunk buffers (2 * i * n) n \<and> cn_send_buffer c = chunk buffers ((2 * i + 1) * n) n \<and>
       length (cn_recv_buffer c) = cn_recv_buffer_len c \<and> length (cn_send_buffer c) = cn_send_buffer_len c \<and>
       cn_recv_buffer_len c = n \<and> cn_recv_buffer_pos c = 0 \<and> cn_recv_message_len c = 0) \<and>
    connection_find_idle h2 head = Some (storage ! 0)"
proof -
  let ?h = "list_head_construct h head"
  have l0: "is_list ?h head []" using assms(2) by (simp add: is_list_def list_head_construct_def)
  have k0: "kinds_ok ?h" using assms(1) by (auto simp: kinds_ok_def list_head_construct_def)
  obtain h1 where h1: "connections_construct_from_array ?h storage buffers n head = Some h1" "is_list h1 head storage"
    "\<And>j. j < length storage \<Longrightarrow> map_option unlinked (h1 (storage ! j)) = Some (Conn (new_connection buffers n j))"
    "\<And>b. b \<notin> set storage \<Longrightarrow> map_option unlinked (h1 b) = map_option unlinked (?h b)"
    using construct_loop_list [OF l0 assms(3) _ assms(5), of buffers n 0] assms(4)
    by (auto simp: connections_construct_from_array_def)
  have new: "\<exists>c. h1 (storage ! j) = Some (Conn c) \<and> c\<lparr>co_next := 0, co_prev := 0\<rparr> = new_connection buffers n j"
    if "j < length storage" for j
    using h1(3) [OF that] unlinked_ConnD by (metis map_option_eq_Some)
  have kind: "kind_ok (unlinked ob) = kind_ok ob" for ob by (cases ob) (simp_all add: unlinked_def)
  have k1: "kinds_ok h1" unfolding kinds_ok_def
  proof (intro allI impI)
    fix a ob assume ob: "h1 a = Some ob"
    show "kind_ok ob"
    proof (cases "a \<in> set storage")
      case True
      then obtain j where "j < length storage" "a = storage ! j" by (metis in_set_conv_nth)
      then have "unlinked ob = Conn (new_connection buffers n j)" using h1(3) ob by fastforce
      then have "kind_ok (unlinked ob)" by (simp add: new_connection_def)
      then show ?thesis by (simp add: kind)
    next
      case False
      then obtain ob' where "?h a = Some ob'" "unlinked ob' = unlinked ob" using h1(4) ob by (metis map_option_eq_Some)
      then show ?thesis using k0 kind by (metis kinds_ok_def)
    qed
  qed
  obtain h2 where h2: "connection_init_connections h1 head = Some h2" "is_list h2 head storage"
    "\<And>a c. h1 a = Some (Conn c) \<Longrightarrow> h2 a = Some (Conn (if a \<in> set (head # storage) then connection_init c else c))"
    "h2 = init_all (set (head # storage)) h1"
    using init_connections_lemma [OF h1(2) k1] by blast
  have k2: "kinds_ok h2" using h2(4) init_all_props(1) k1 by simp
  have each: "\<exists>c. h2 (storage ! i) = Some (Conn c) \<and> connection_is_idle c \<and>
       cn_recv_buffer c = chunk buffers (2 * i * n) n \<and> cn_send_buffer c = chunk buffers ((2 * i + 1) * n) n \<and>
       length (cn_recv_buffer c) = cn_recv_buffer_len c \<and> length (cn_send_buffer c) = cn_send_buffer_len c \<and>
       cn_recv_buffer_len c = n \<and> cn_recv_buffer_pos c = 0 \<and> cn_recv_message_len c = 0" if i: "i < length storage" for i
  proof -
    obtain c where c: "h1 (storage ! i) = Some (Conn c)" "c\<lparr>co_next := 0, co_prev := 0\<rparr> = new_connection buffers n i"
      using new [OF i] by blast
    have f: "cn_recv_buffer c = chunk buffers (i * 2 * n) n" "cn_send_buffer c = chunk buffers (i * 2 * n + n) n"
      "cn_recv_buffer_len c = n" "cn_send_buffer_len c = n"
      using arg_cong [OF c(2), of cn_recv_buffer] arg_cong [OF c(2), of cn_send_buffer]
        arg_cong [OF c(2), of cn_recv_buffer_len] arg_cong [OF c(2), of cn_send_buffer_len]
      by (simp_all add: new_connection_def)
    have "(i + 1) * (2 * n) \<le> length storage * (2 * n)" using i by (intro mult_le_mono1) simp
    then have "i * 2 * n + n + n \<le> length buffers" using assms(6) by (simp add: algebra_simps)
    then have len: "length (chunk buffers (i * 2 * n) n) = n" "length (chunk buffers (i * 2 * n + n) n) = n" by simp_all
    have "h2 (storage ! i) = Some (Conn (connection_init c))" using h2(3) [OF c(1)] i by simp
    then show ?thesis
      using f len
      by (auto simp: connection_init_def connection_reset_def nodeid_reset_def connection_is_idle_def has_state_def
          status_flags_defs FLAGS_CHECK_def algebra_simps)
  qed
  have "map_option unlinked (h1 head) = map_option unlinked (?h head)" using h1(4) assms(4) by blast
  then have "\<not> is_conn h1 head" by (auto simp: list_head_construct_def is_conn_def unlinked_def)
  then have "\<not> is_conn h2 head" using h2(4) init_all_props(2) [of _ h1 head] by simp
  then have hd0: "\<not> is_idle h2 head" by (auto simp: is_idle_def is_conn_def)
  have "connection_find_idle h2 head = Some (storage ! 0)"
    using find_idle_lemma [OF h2(2) k2] hd0 each [of 0] assms(7)
    by (cases storage) (auto simp: is_idle_def connection_is_idle_def)
  then show ?thesis using h1(1) h2(1,2) each by blast
qed



section \<open>Waiting for clients\<close>

lemma idle_loop_none: "idle_loop h 0 = Some False"
  by (subst idle_loop.simps) simp

text \<open>
  The connections of a list that the loop of an acceptor looks at: it steps to the first connection behind
  the object that follows the present one, so it passes over that object, whatever it is.
\<close>

fun acceptor_sees :: "store \<Rightarrow> addr list \<Rightarrow> addr list" where
  "acceptor_sees h [] = []"
| "acceptor_sees h (x # xs) = (if is_conn h x then x # acceptor_sees h (drop 1 xs) else acceptor_sees h xs)"

lemma sees_same: "is_conn g = is_conn h \<Longrightarrow> acceptor_sees g xs = acceptor_sees h xs"
  by (induction h xs rule: acceptor_sees.induct) simp_all

lemma idle_loop_seg:
  "seg h p xs 0 \<Longrightarrow> kinds_ok h \<Longrightarrow>
    idle_loop h (front (filter (is_conn h) xs)) = Some (\<exists>x\<in>set (acceptor_sees h xs). is_idle h x)"
proof (induction h xs arbitrary: p rule: acceptor_sees.induct)
  case (1 h)
  show ?case by (simp add: idle_loop_none)
next
  case (2 h x xs)
  have g: "seg h x xs 0" using 2(3) by simp
  show ?case
  proof (cases "is_conn h x")
    case True
    then obtain c where c: "h x = Some (Conn c)" "x \<noteq> 0" "co_next c = front xs" using 2(3) by (auto simp: is_conn_def front_def)
    have at: "connection_at h x = Some c" "is_idle h x = has_state c STATUS_FLAGS_IDLE"
      using c by (simp_all add: connection_at_def look_def is_idle_def)
    have "\<exists>n. connection_next h (co_next c) = Some n \<and> idle_loop h n = Some (\<exists>x\<in>set (acceptor_sees h (drop 1 xs)). is_idle h x)"
    proof (cases xs)
      case Nil
      then show ?thesis using c by (simp add: connection_next_def idle_loop_none)
    next
      case (Cons y ys)
      have "seg h y ys 0" using g Cons by simp
      then show ?thesis using 2(1) [OF True] connection_next_seg [of h x y ys] g 2(4) c Cons by simp
    qed
    then show ?thesis using True at c(2) by (subst idle_loop.simps) auto
  next
    case False
    then show ?thesis using 2(2) [OF False g 2(4)] by simp
  qed
qed

text \<open>
  C28. The connections for which an acceptor waits: preparing to wait makes it ask for clients exactly when
  an idle connection is among those its loop looks at, and the loop passes over the object behind each
  connection it looks at. So a list of connections is seen only at every second place, while the search for
  an idle connection finds the first one anywhere in the list.
\<close>

theorem acceptor_misses_idle:
  assumes "is_list h head objs" and "kinds_ok h" and "\<not> is_conn h head" and "acceptor_at h a = Some k"
  shows "\<exists>h' k'. acceptor_impl_prepare_wait h a head = Some (OK, h') \<and> acceptor_at h' a = Some k' \<and>
    (FLAGS_CHECK (sk_flags (co_sock k')) SOCKET_FLAGS_WANT_RECEIVE \<longleftrightarrow> (\<exists>x\<in>set (acceptor_sees h objs). is_idle h x)) \<and>
    connection_find_idle h head = Some (front (filter (is_idle h) objs))"
proof -
  let ?k = "\<lambda>b. k\<lparr>co_sock := (if b then want SOCKET_FLAGS_WANT_RECEIVE True else id)
      (want SOCKET_FLAGS_WANT_RECEIVE False (co_sock k))\<rparr>"
  let ?h = "\<lambda>b. h(a \<mapsto> Acceptor (?k b))" and ?b = "\<exists>x\<in>set (acceptor_sees h objs). is_idle h x"
  have a: "h a = Some (Acceptor k)" "a \<noteq> 0"
    using assms(4) by (auto simp: acceptor_at_def look_def split: if_splits option.splits object.splits)
  have g: "seg h 0 (head # objs) 0" using assms(1) by (simp add: is_list_def)
  have "seg (?h False) 0 (head # objs) 0" by (rule seg_map [OF _ g]) (use a in auto)
  then have g': "seg (?h False) head objs 0" by simp
  have "kind_ok (Acceptor k)" using assms(2) a unfolding kinds_ok_def by blast
  then have kinds: "kinds_ok (?h False)" using assms(2) by (auto simp: kinds_ok_def)
  have same: "is_conn (?h False) = is_conn h" "is_idle (?h False) = is_idle h" using a by (auto simp: is_conn_def is_idle_def fun_eq_iff)
  have "acceptor_sees (?h False) objs = acceptor_sees h objs" by (rule sees_same [OF same(1)])
  then have "idle_loop (?h False) (front (filter (is_conn h) objs)) = Some ?b"
    using idle_loop_seg [OF g' kinds] by (simp only: same)
  moreover have "connection_first h head = Some (front (filter (is_conn h) objs))"
    using connection_first_seg [OF g assms(2)] assms(3) by simp
  ultimately have r: "acceptor_impl_prepare_wait h a head = Some (OK, ?h ?b)"
    using assms(4) by (simp add: acceptor_impl_prepare_wait_def Let_def)
  have "FLAGS_CHECK (sk_flags (co_sock (?k b))) SOCKET_FLAGS_WANT_RECEIVE \<longleftrightarrow> b" for b
    by (simp add: want_def FLAGS_CHECK_CLEAR)
       (simp add: FLAGS_CHECK_def FLAGS_SET_def bit.conj_disj_distrib2 SOCKET_FLAGS_WANT_RECEIVE_def)
  moreover have "acceptor_at (?h b) a = Some (?k b)" for b using a by (simp add: acceptor_at_def look_def)
  moreover have "connection_find_idle h head = Some (front (filter (is_idle h) objs))"
    using find_idle_lemma [OF assms(1,2)] assms(3) by (auto simp: is_idle_def is_conn_def)
  ultimately show ?thesis using r by blast
qed

text \<open>A list with a busy connection, an idle one and an acceptor.\<close>

definition sample_store :: store where
  "sample_store =
     [1 \<mapsto> ListHead \<lparr>co_type = 3, co_transport_type = 0, co_next = 2, co_prev = 0, co_sock = zero_socket, co_ops = 0\<rparr>,
      2 \<mapsto> Conn (sample_connection\<lparr>co_next := 3, co_prev := 1\<rparr>),
      3 \<mapsto> Conn (sample_connection\<lparr>co_next := 4, co_prev := 2, cn_connection_state := STATUS_FLAGS_IDLE\<rparr>),
      4 \<mapsto> Acceptor \<lparr>co_type = 2, co_transport_type = 1, co_next = 0, co_prev = 3, co_sock = zero_socket, co_ops = 0,
                     ca_config_flags = 0, ca_acceptor_state = 0\<rparr>,
      5 \<mapsto> Conn (sample_connection\<lparr>co_next := 0, co_prev := 0\<rparr>)]"

lemma sample_co_type: "co_type sample_connection = 1"
  by (simp add: sample_connection_def)

lemma sample_list: "is_list sample_store 1 [2, 3, 4]"
  by (simp add: is_list_def sample_store_def)

lemma sample_kinds: "kinds_ok sample_store"
  by (auto simp: kinds_ok_def sample_store_def object_type_defs sample_co_type split: if_splits)

lemma sample_idle: "is_idle sample_store 3" "\<not> is_idle sample_store 2" "is_conn sample_store 2" "\<not> is_conn sample_store 1"
  "\<not> is_conn sample_store 4" "\<not> is_idle sample_store 1" "\<not> is_idle sample_store 4"
  by (simp_all add: is_idle_def is_conn_def sample_store_def has_state_def status_flags_defs FLAGS_CHECK_def)
     (simp add: sample_connection_def)

lemma acceptor_misses_idle_witness:
  "\<exists>h' k'. acceptor_impl_prepare_wait sample_store 4 1 = Some (OK, h') \<and> acceptor_at h' 4 = Some k' \<and>
    \<not> FLAGS_CHECK (sk_flags (co_sock k')) SOCKET_FLAGS_WANT_RECEIVE \<and> connection_find_idle sample_store 1 = Some 3"
proof -
  obtain k where k: "acceptor_at sample_store 4 = Some k" by (simp add: acceptor_at_def look_def sample_store_def)
  have "acceptor_sees sample_store [2, 3, 4] = [2]" using sample_idle(3,5) by simp
  then show ?thesis
    using acceptor_misses_idle [OF sample_list sample_kinds sample_idle(4) k] sample_idle(1,2,7) by simp
qed

lemma list_append_refines_witness:
  "\<exists>h'. list_append sample_store 1 5 = Some h' \<and> is_list h' 1 [2, 3, 4, 5]"
proof -
  obtain ob where ob: "sample_store 5 = Some ob" "object_next ob = 0" by (simp add: sample_store_def)
  show ?thesis using list_append_refines [OF sample_list ob(1) _ _ ob(2)] by auto
qed

lemma list_remove_refines_witness:
  "\<exists>h'. list_remove sample_store 1 3 = Some h' \<and> is_list h' 1 [2, 4]"
  using list_remove_refines [OF sample_list, of 3] by auto

lemma find_idle_first_witness: "connection_find_idle sample_store 1 = Some 3"
  using find_idle_first [OF sample_list sample_kinds] sample_idle by simp

lemma init_connections_all_witness:
  "\<exists>h' c. connection_init_connections sample_store 1 = Some h' \<and> is_list h' 1 [2, 3, 4] \<and> h' 5 = Some (Conn c) \<and> h' 4 = sample_store 4"
proof -
  obtain c where "sample_store 5 = Some (Conn c)" by (simp add: sample_store_def)
  then show ?thesis using init_connections_all [OF sample_list sample_kinds] sample_idle(5) by fastforce
qed

lemma connections_set_up_witness:
  "\<exists>h1 h2. connections_construct_from_array (list_head_construct (\<lambda>a. None) 1) [2, 3] (replicate 400 0) 100 1 = Some h1 \<and>
    connection_init_connections h1 1 = Some h2 \<and> is_list h2 1 [2, 3] \<and> connection_find_idle h2 1 = Some 2"
  using connections_set_up [of "\<lambda>a. None" 1 "[2, 3]" 100 "replicate 400 0"] by (fastforce simp: kinds_ok_def)

end
