(* ===== verification/RRL_Socket.thy ===== *)
theory RRL_Socket
  imports RRL_Connection
begin

text \<open>
  The socket layer of src/platform/posix/src/tcp_transport_posix.c. The calls of the operating
  system are the parameter \<open>os\<close>: functions on a world \<open>'w\<close> that the library does not
  look into. What they return is a datatype for the outcomes the code tells apart. SHA-1 and base64 come
  from a library as well.
\<close>


section \<open>The operating system\<close>

datatype recv_result = Received "byte list" | RecvWouldBlock | RecvFailed
datatype send_result = Sent nat | SendWouldBlock | SendFailed
datatype accept_result = Accepted int | AcceptWouldBlock | AcceptFailed
datatype connect_result = Connected | ConnectInProgress | ConnectFailed
datatype poll_result = PollFailed | PollNothing | PollEvents bool bool

record 'w os =
  os_recv :: "int \<Rightarrow> size_t \<Rightarrow> 'w \<Rightarrow> recv_result \<times> 'w"
  os_send :: "int \<Rightarrow> byte list \<Rightarrow> 'w \<Rightarrow> send_result \<times> 'w"
  os_close :: "int \<Rightarrow> 'w \<Rightarrow> 'w"
  os_accept :: "int \<Rightarrow> 'w \<Rightarrow> accept_result \<times> 'w"
  os_socket :: "'w \<Rightarrow> int \<times> 'w"
  os_get_flags :: "int \<Rightarrow> 'w \<Rightarrow> int \<times> 'w"
  os_set_flags :: "int \<Rightarrow> int \<Rightarrow> 'w \<Rightarrow> int \<times> 'w"
  os_set_nodelay :: "int \<Rightarrow> 'w \<Rightarrow> int \<times> 'w"
  os_nonblock :: int
  os_bind :: "int \<Rightarrow> byte list \<Rightarrow> 'w \<Rightarrow> int \<times> 'w"
  os_listen :: "int \<Rightarrow> size_t \<Rightarrow> 'w \<Rightarrow> int \<times> 'w"
  os_connect :: "int \<Rightarrow> byte list \<Rightarrow> 'w \<Rightarrow> connect_result \<times> 'w"
  os_poll_connected :: "int \<Rightarrow> 'w \<Rightarrow> poll_result \<times> 'w"
  os_rand :: "'w \<Rightarrow> u32 \<times> 'w"
  os_sha1 :: "byte list \<Rightarrow> byte list option"
  os_base64 :: "byte list \<Rightarrow> byte list option"

text \<open>What the manual pages of recv and send promise: never more bytes than were asked for or offered.\<close>

definition os_bounded :: "'w os \<Rightarrow> bool" where
  "os_bounded os \<longleftrightarrow> (\<forall>s n w d w'. os_recv os s n w = (Received d, w') \<longrightarrow> length d \<le> n) \<and>
     (\<forall>s d w k w'. os_send os s d w = (Sent k, w') \<longrightarrow> k \<le> length d)"


section \<open>Receiving and sending\<close>

definition sock_flag :: "u16 \<Rightarrow> connection_socket \<Rightarrow> connection_socket" where
  "sock_flag m sk = sk\<lparr>sk_flags := FLAGS_SET (sk_flags sk) m\<rparr>"

definition sock_unflag :: "u16 \<Rightarrow> connection_socket \<Rightarrow> connection_socket" where
  "sock_unflag m sk = sk\<lparr>sk_flags := FLAGS_CLEAR (sk_flags sk) m\<rparr>"

text \<open>
  The loops: \<open>got\<close> bytes have been received or sent so far, and \<open>*pos\<close> is
  \<open>pos + got\<close>. Received bytes that do not fit into the buffer are undefined behaviour.
\<close>

function recv_loop ::
  "'w os \<Rightarrow> connection_socket \<Rightarrow> byte list \<Rightarrow> size_t \<Rightarrow> size_t \<Rightarrow> size_t \<Rightarrow> 'w \<Rightarrow>
     status \<times> connection_socket \<times> byte list \<times> size_t \<times> 'w" where
  "recv_loop os sk buffer pos got len w =
     (if got < len then
        (case os_recv os (sk_sock sk) (len - got) w of
           (RecvFailed, w) \<Rightarrow> (Err CONNECTION_ERROR, sk, buffer, pos + got, w)
         | (RecvWouldBlock, w) \<Rightarrow> (OK, sock_flag SOCKET_FLAGS_RECEIVE_WOULD_BLOCK sk, buffer, pos + got, w)
         | (Received d, w) \<Rightarrow>
             (if d = [] then (if got = 0 then Err CONNECTION_ERROR else OK, sk, buffer, pos + got, w)
              else if length buffer < pos + got + length d
              then (Err UNDEFINED_BEHAVIOUR, sk, buffer, pos + got, w)
              else recv_loop os sk (overwrite buffer (pos + got) d) pos (got + length d) len w))
      else (OK, sk, buffer, pos + got, w))"
  by pat_completeness auto
termination
  by (relation "measure (\<lambda>(os, sk, buffer, pos, got, len, w). len - got)")
     (auto simp flip: length_greater_0_conv)

declare recv_loop.simps [simp del]

definition tcp_socket_recv_nonblocking ::
  "'w os \<Rightarrow> connection_socket \<Rightarrow> byte list \<Rightarrow> size_t \<Rightarrow> size_t \<Rightarrow> 'w \<Rightarrow>
     status \<times> connection_socket \<times> byte list \<times> size_t \<times> 'w" where
  "tcp_socket_recv_nonblocking os sock buffer pos len w =
     recv_loop os (sock_unflag SOCKET_FLAGS_RECEIVE_WOULD_BLOCK sock) buffer pos 0 len w"

function send_loop ::
  "'w os \<Rightarrow> connection_socket \<Rightarrow> byte list \<Rightarrow> size_t \<Rightarrow> size_t \<Rightarrow> size_t \<Rightarrow> 'w \<Rightarrow>
     status \<times> connection_socket \<times> size_t \<times> 'w" where
  "send_loop os sk buffer pos got len w =
     (if got < len then
        (if length buffer < pos + len then (Err UNDEFINED_BEHAVIOUR, sk, pos + got, w)
         else case os_send os (sk_sock sk) (chunk buffer (pos + got) (len - got)) w of
           (SendFailed, w) \<Rightarrow> (Err CONNECTION_ERROR, sk, pos + got, w)
         | (SendWouldBlock, w) \<Rightarrow> (OK, sock_flag SOCKET_FLAGS_SEND_WOULD_BLOCK sk, pos + got, w)
         | (Sent k, w) \<Rightarrow>
             (if k = 0 then (if got = 0 then Err CONNECTION_ERROR else OK, sk, pos + got, w)
              else send_loop os sk buffer pos (got + k) len w))
      else (OK, sk, pos + got, w))"
  by pat_completeness auto
termination
  by (relation "measure (\<lambda>(os, sk, buffer, pos, got, len, w). len - got)") auto

declare send_loop.simps [simp del]

definition tcp_socket_send_nonblocking ::
  "'w os \<Rightarrow> connection_socket \<Rightarrow> byte list \<Rightarrow> size_t \<Rightarrow> size_t \<Rightarrow> 'w \<Rightarrow>
     status \<times> connection_socket \<times> size_t \<times> 'w" where
  "tcp_socket_send_nonblocking os sock buffer pos len w =
     send_loop os (sock_unflag SOCKET_FLAGS_SEND_WOULD_BLOCK sock) buffer pos 0 len w"


section \<open>Opening and closing\<close>

definition tcp_configure_socket :: "'w os \<Rightarrow> int \<Rightarrow> 'w \<Rightarrow> status \<times> 'w" where
  "tcp_configure_socket os sock w =
     (case os_get_flags os sock w of (flags, w) \<Rightarrow>
        if flags < 0 then (Err CONNECTION_ERROR, os_close os sock w)
        else case os_set_flags os sock (flags OR os_nonblock os) w of (r, w) \<Rightarrow>
          if r < 0 then (Err CONNECTION_ERROR, os_close os sock w)
          else case os_set_nodelay os sock w of (r, w) \<Rightarrow>
            if r < 0 then (Err CONNECTION_ERROR, os_close os sock w) else (OK, w))"

definition tcp_socket_begin_server ::
  "'w os \<Rightarrow> byte list \<Rightarrow> size_t \<Rightarrow> connection_socket \<Rightarrow> 'w \<Rightarrow> status \<times> connection_socket \<times> 'w" where
  "tcp_socket_begin_server os serv_addr backlog sock_out w =
     (case os_socket os w of (sock, w) \<Rightarrow>
        if sock = 0 then (Err CONNECTION_ERROR, sock_out, w)
        else case os_get_flags os sock w of (flags, w) \<Rightarrow>
          if flags < 0 then (Err CONNECTION_ERROR, sock_out, os_close os sock w)
          else case os_set_flags os sock (flags OR os_nonblock os) w of (r, w) \<Rightarrow>
            if r < 0 then (Err CONNECTION_ERROR, sock_out, os_close os sock w)
            else case os_bind os sock serv_addr w of (r, w) \<Rightarrow>
              if r < 0 then (Err CONNECTION_ERROR, sock_out, os_close os sock w)
              else case os_listen os sock backlog w of (r, w) \<Rightarrow>
                if r < 0 then (Err CONNECTION_ERROR, sock_out, os_close os sock w)
                else (OK, sock_out\<lparr>sk_sock := sock, sk_flags := SOCKET_FLAGS_ACTIVE\<rparr>, w))"

text \<open>The results are the status, the acceptor's socket and the client's socket.\<close>

definition tcp_socket_accept ::
  "'w os \<Rightarrow> connection_socket \<Rightarrow> connection_socket \<Rightarrow> 'w \<Rightarrow>
     status \<times> connection_socket \<times> connection_socket \<times> 'w" where
  "tcp_socket_accept os acceptor_sock client_sock w =
     (let acceptor_sock = sock_unflag SOCKET_FLAGS_RECEIVE_WOULD_BLOCK acceptor_sock in
      case os_accept os (sk_sock acceptor_sock) w of
        (AcceptWouldBlock, w) \<Rightarrow>
          (Err RETRY, sock_flag SOCKET_FLAGS_RECEIVE_WOULD_BLOCK acceptor_sock, client_sock, w)
      | (AcceptFailed, w) \<Rightarrow> (Err CONNECTION_ERROR, acceptor_sock, client_sock, w)
      | (Accepted fd, w) \<Rightarrow>
          (case tcp_configure_socket os fd w of (st, w) \<Rightarrow>
             (st, acceptor_sock, client_sock\<lparr>sk_sock := fd, sk_flags := SOCKET_FLAGS_ACTIVE\<rparr>, w)))"

definition tcp_socket_close :: "'w os \<Rightarrow> connection_socket \<Rightarrow> 'w \<Rightarrow> status \<times> connection_socket \<times> 'w" where
  "tcp_socket_close os sock w = (OK, sock_unflag SOCKET_FLAGS_ACTIVE sock, os_close os (sk_sock sock) w)"

definition tcp_server_socket_close :: "'w os \<Rightarrow> connection_socket \<Rightarrow> 'w \<Rightarrow> status \<times> connection_socket \<times> 'w" where
  "tcp_server_socket_close os sock w = (OK, sock_unflag SOCKET_FLAGS_ACTIVE sock, os_close os (sk_sock sock) w)"

text \<open>A failed connect returns -1, the code of GENERIC_ERROR.\<close>

definition tcp_socket_connect ::
  "'w os \<Rightarrow> byte list \<Rightarrow> connection_socket \<Rightarrow> 'w \<Rightarrow> status \<times> connection_socket \<times> 'w" where
  "tcp_socket_connect os addr sock_out w =
     (case os_socket os w of (sock, w) \<Rightarrow>
        case tcp_configure_socket os sock w of
          (Err e, w) \<Rightarrow> (Err e, sock_out, w)
        | (OK, w) \<Rightarrow>
            (case os_connect os sock addr w of
               (ConnectFailed, w) \<Rightarrow> (Err GENERIC_ERROR, sock_out, os_close os sock w)
             | (_, w) \<Rightarrow> (OK, sock_out\<lparr>sk_sock := sock, sk_flags := SOCKET_FLAGS_ACTIVE\<rparr>, w)))"

text \<open>The events are \<open>POLLOUT\<close> and \<open>POLLERR\<close>.\<close>

definition tcp_socket_is_connection_complete :: "'w os \<Rightarrow> int \<Rightarrow> 'w \<Rightarrow> status \<times> 'w" where
  "tcp_socket_is_connection_complete os sock w =
     (case os_poll_connected os sock w of
        (PollFailed, w) \<Rightarrow> (Err SYSTEM_ERROR, os_close os sock w)
      | (PollNothing, w) \<Rightarrow> (Err RETRY, w)
      | (PollEvents out err, w) \<Rightarrow>
          (if out then (OK, w)
           else if err then (Err CONNECTION_ERROR, os_close os sock w)
           else (Err INTERNAL_ERROR, w)))"


section \<open>Byte order\<close>

definition ntohs :: "u16 \<Rightarrow> u16" where
  "ntohs netshort = bytes_u16 (rev (u16_bytes netshort))"

definition htons :: "u16 \<Rightarrow> u16" where
  "htons hostshort = bytes_u16 (rev (u16_bytes hostshort))"

definition be64toh :: "64 word \<Rightarrow> 64 word" where
  "be64toh big_endian_64bits = word_of_nat (le_val (rev (le_bytes 8 (unat big_endian_64bits))))"

text \<open>The bytes of a text.\<close>

definition ascii :: "string \<Rightarrow> byte list" where
  "ascii s = map of_char s"

end
