(* ===== verification/RRL_Tcp.thy ===== *)
theory RRL_Tcp
  imports RRL_Socket
begin

text \<open>
  The TCP transport of a single connection, src/tcp_transport.c: receiving and sending through a
  plain socket or in websocket frames, and the handshake that decides between the two. A function takes
  the operating system, the connection and the world, and returns its status, the connection and the
  world. The transport's storage is part of the connection.
\<close>


section \<open>Storage\<close>

definition TCP_TRANSPORT :: u32 where "TCP_TRANSPORT = 0x10001"

definition STATE_IN_HTTP_HEADER :: u32 where "STATE_IN_HTTP_HEADER = 0x2"
definition STATE_IS_WEBSOCKET :: u32 where "STATE_IS_WEBSOCKET = 0x10"
definition STATE_RECV_WEBSOCKET_IN_FRAME :: u32 where "STATE_RECV_WEBSOCKET_IN_FRAME = 0x20"
definition STATE_RECV_WEBSOCKET_ENABLE_MASK :: u32 where "STATE_RECV_WEBSOCKET_ENABLE_MASK = 0x40"
definition STATE_SEND_WEBSOCKET_ENABLE_MASK :: u32 where "STATE_SEND_WEBSOCKET_ENABLE_MASK = 0x200"
definition WEBSOCKET_FLAGS_BINARY :: u8 where "WEBSOCKET_FLAGS_BINARY = 0x2"

lemmas transport_state_defs = STATE_IN_HTTP_HEADER_def STATE_IS_WEBSOCKET_def STATE_RECV_WEBSOCKET_IN_FRAME_def
  STATE_RECV_WEBSOCKET_ENABLE_MASK_def STATE_SEND_WEBSOCKET_ENABLE_MASK_def

type_synonym 'w outcome = "status \<times> connection \<times> 'w"

definition in_storage :: "(tcp_transport_storage \<Rightarrow> tcp_transport_storage) \<Rightarrow> connection \<Rightarrow> connection" where
  "in_storage f c = c\<lparr>cn_transport_storage := f (cn_transport_storage c)\<rparr>"

definition transport_has :: "connection \<Rightarrow> u32 \<Rightarrow> bool" where
  "transport_has c m = FLAGS_CHECK (ts_tcp_transport_state (cn_transport_storage c)) m"

definition transport_set :: "u32 \<Rightarrow> connection \<Rightarrow> connection" where
  "transport_set m = in_storage (\<lambda>s. s\<lparr>ts_tcp_transport_state := FLAGS_SET (ts_tcp_transport_state s) m\<rparr>)"

definition transport_clear :: "u32 \<Rightarrow> connection \<Rightarrow> connection" where
  "transport_clear m = in_storage (\<lambda>s. s\<lparr>ts_tcp_transport_state := FLAGS_CLEAR (ts_tcp_transport_state s) m\<rparr>)"

definition is_server_side :: "connection \<Rightarrow> bool" where
  "is_server_side c = FLAGS_CHECK (cn_config_flags c) CONFIG_FLAGS_ISSERVER"

text \<open>Receiving into the receive buffer and sending from the send buffer.\<close>

definition recv_into_buffer :: "'w os \<Rightarrow> size_t \<Rightarrow> connection \<Rightarrow> 'w \<Rightarrow> 'w outcome" where
  "recv_into_buffer os len c w =
     (case tcp_socket_recv_nonblocking os (co_sock c) (cn_recv_buffer c) (cn_recv_buffer_pos c) len w of
        (st, sk, buf, pos, w) \<Rightarrow> (st, c\<lparr>co_sock := sk, cn_recv_buffer := buf, cn_recv_buffer_pos := pos\<rparr>, w))"

definition send_from_buffer :: "'w os \<Rightarrow> size_t \<Rightarrow> connection \<Rightarrow> 'w \<Rightarrow> 'w outcome" where
  "send_from_buffer os len c w =
     (case tcp_socket_send_nonblocking os (co_sock c) (cn_send_buffer c) (cn_send_buffer_pos c) len w of
        (st, sk, pos, w) \<Rightarrow> (st, c\<lparr>co_sock := sk, cn_send_buffer_pos := pos\<rparr>, w))"

definition error_if_failed :: "'w outcome \<Rightarrow> 'w outcome" where
  "error_if_failed r = (case r of (st, c, w) \<Rightarrow> (st, if FAILED st then set_state STATUS_FLAGS_ERROR c else c, w))"


section \<open>Websocket frames, receiving\<close>

definition recv_websocket_header_size :: "u8 \<Rightarrow> size_t" where
  "recv_websocket_header_size byte_two =
     (let len1 = byte_two AND 0x7F; masked = byte_two AND 0x80
      in 2 + (if len1 = 126 then 2 else 0) + (if len1 = 127 then 8 else 0) + (if masked \<noteq> 0 then 4 else 0))"

definition next_frame :: "connection \<Rightarrow> connection" where
  "next_frame c =
     (let s = cn_transport_storage c in
      if ts_recv_websocket_frame_pos s = ts_recv_websocket_frame_len s \<and> transport_has c STATE_RECV_WEBSOCKET_IN_FRAME
      then transport_clear STATE_RECV_WEBSOCKET_IN_FRAME
             (in_storage (\<lambda>s. s\<lparr>ts_recv_websocket_frame_pos := 0, ts_recv_websocket_frame_len := 0,
                               ts_recv_websocket_header_pos := 0\<rparr>) c)
      else c)"

text \<open>The header is received up to \<open>n\<close> bytes.\<close>

definition recv_frame_header :: "'w os \<Rightarrow> size_t \<Rightarrow> connection \<Rightarrow> 'w \<Rightarrow> 'w outcome" where
  "recv_frame_header os n c w =
     (let s = cn_transport_storage c in
      if ts_recv_websocket_header_pos s < n then
        error_if_failed
          (case tcp_socket_recv_nonblocking os (co_sock c) (ts_recv_websocket_header_buffer s)
                  (ts_recv_websocket_header_pos s) (n - ts_recv_websocket_header_pos s) w of
             (st, sk, buf, pos, w) \<Rightarrow>
               (st, in_storage (\<lambda>s. s\<lparr>ts_recv_websocket_header_buffer := buf, ts_recv_websocket_header_pos := pos\<rparr>)
                      (c\<lparr>co_sock := sk\<rparr>), w))
      else (OK, c, w))"

definition begin_frame :: "size_t \<Rightarrow> connection \<Rightarrow> connection" where
  "begin_frame websocket_header_len c =
     (let buf = ts_recv_websocket_header_buffer (cn_transport_storage c);
          len1 = (buf ! 1) AND 0x7F;
          masked = (buf ! 1) AND 0x80;
          frame_len = (if len1 = 126 then unat (ntohs (bytes_u16 (chunk buf 2 2)))
                       else if len1 = 127 then unat (be64toh (word_of_nat (le_val (chunk buf 2 8))))
                       else unat len1);
          c = in_storage (\<lambda>s. s\<lparr>ts_recv_websocket_frame_len := frame_len\<rparr>) c;
          c = (if masked \<noteq> 0
               then transport_set STATE_RECV_WEBSOCKET_ENABLE_MASK
                      (in_storage (\<lambda>s. s\<lparr>ts_recv_websocket_mask := chunk buf (websocket_header_len - 4) 4\<rparr>) c)
               else transport_clear STATE_RECV_WEBSOCKET_ENABLE_MASK c)
      in transport_set STATE_RECV_WEBSOCKET_IN_FRAME c)"

text \<open>The exclusive or of bytes with a mask; the first byte is at place \<open>i\<close> of the frame.\<close>

fun mask_bytes :: "byte list \<Rightarrow> nat \<Rightarrow> byte list \<Rightarrow> byte list" where
  "mask_bytes key i [] = []"
| "mask_bytes key i (b # bs) = (b XOR key ! (i mod 4)) # mask_bytes key (Suc i) bs"

definition recv_payload :: "'w os \<Rightarrow> size_t \<Rightarrow> connection \<Rightarrow> 'w \<Rightarrow> 'w outcome" where
  "recv_payload os len c w =
     (let s = cn_transport_storage c;
          recv_len = sz_add (ts_recv_websocket_frame_len s)
                       (sz_sub (cn_recv_buffer_pos c) (ts_recv_websocket_frame_pos s));
          recv_len = (if recv_len > len then len else recv_len);
          prev = cn_recv_buffer_pos c
      in case recv_into_buffer os recv_len c w of
           (Err e, c, w) \<Rightarrow> (Err e, set_state STATUS_FLAGS_ERROR c, w)
         | (OK, c, w) \<Rightarrow>
             (let n = cn_recv_buffer_pos c - prev;
                  c = c\<lparr>cn_recv_buffer := overwrite (cn_recv_buffer c) prev
                          (mask_bytes (ts_recv_websocket_mask s) (ts_recv_websocket_frame_pos s)
                             (chunk (cn_recv_buffer c) prev n))\<rparr>
              in (OK, in_storage (\<lambda>s. s\<lparr>ts_recv_websocket_frame_pos := ts_recv_websocket_frame_pos s + n\<rparr>) c, w)))"

definition buffer_recv_websocket :: "'w os \<Rightarrow> size_t \<Rightarrow> connection \<Rightarrow> 'w \<Rightarrow> 'w outcome" where
  "buffer_recv_websocket os len c w =
     (let c = next_frame c in
      if transport_has c STATE_RECV_WEBSOCKET_IN_FRAME then recv_payload os len c w
      else case recv_frame_header os 2 c w of
        (Err e, c, w) \<Rightarrow> (Err e, c, w)
      | (OK, c, w) \<Rightarrow>
          (if ts_recv_websocket_header_pos (cn_transport_storage c) < 2 then (OK, c, w)
           else let n = recv_websocket_header_size (ts_recv_websocket_header_buffer (cn_transport_storage c) ! 1) in
             case recv_frame_header os n c w of
               (Err e, c, w) \<Rightarrow> (Err e, c, w)
             | (OK, c, w) \<Rightarrow>
                 (if ts_recv_websocket_header_pos (cn_transport_storage c) < n then (OK, c, w)
                  else recv_payload os len (begin_frame n c) w)))"

definition tcp_buffer_recv :: "'w os \<Rightarrow> size_t \<Rightarrow> connection \<Rightarrow> 'w \<Rightarrow> 'w outcome" where
  "tcp_buffer_recv os len c w =
     (if transport_has c STATE_IS_WEBSOCKET then buffer_recv_websocket os len c w
      else recv_into_buffer os len c w)"

definition tcp_communicate_recv :: "'w os \<Rightarrow> timespec \<Rightarrow> connection \<Rightarrow> 'w \<Rightarrow> 'w outcome" where
  "tcp_communicate_recv os now c w =
     (case communicate_recv1 c now 0 of
        (st, c, recv_op_len) \<Rightarrow>
          if FAILED st \<or> recv_op_len = 0 then (st, c, w)
          else case tcp_buffer_recv os recv_op_len c w of
            (st, c, w) \<Rightarrow> (case communicate_recv2 c now st of (st, c) \<Rightarrow> (st, c, w)))"


section \<open>Websocket frames, sending\<close>

text \<open>The bytes of a random number, the most significant first.\<close>

definition random_mask :: "'w os \<Rightarrow> 'w \<Rightarrow> byte list \<times> 'w" where
  "random_mask os w =
     (case os_rand os w of (random_val, w) \<Rightarrow>
        ([ucast (drop_bit 24 random_val AND 0xFF), ucast (drop_bit 16 random_val AND 0xFF),
          ucast (drop_bit 8 random_val AND 0xFF), ucast (random_val AND 0xFF)], w))"

definition frame_send_len :: "size_t \<Rightarrow> size_t" where
  "frame_send_len len = (if len \<ge> UINT16_MAX then UINT16_MAX else len)"

definition prepare_header :: "size_t \<Rightarrow> connection \<Rightarrow> connection" where
  "prepare_header len =
     in_storage (\<lambda>s.
       let s = s\<lparr>ts_send_websocket_header_len := 2,
                 ts_send_websocket_header_buffer := (ts_send_websocket_header_buffer s)[0 := 0x80 OR WEBSOCKET_FLAGS_BINARY]\<rparr>
       in if len > 125
          then s\<lparr>ts_send_websocket_header_len := 4,
                 ts_send_websocket_header_buffer :=
                   (overwrite (ts_send_websocket_header_buffer s) 2 (u16_bytes (htons (word_of_nat len))))[1 := 126]\<rparr>
          else s\<lparr>ts_send_websocket_header_buffer := (ts_send_websocket_header_buffer s)[1 := word_of_nat len]\<rparr>)"

definition prepare_mask :: "'w os \<Rightarrow> connection \<Rightarrow> 'w \<Rightarrow> connection \<times> 'w" where
  "prepare_mask os c w =
     (if is_server_side c then (c, w)
      else case random_mask os w of (key, w) \<Rightarrow>
        (transport_set STATE_SEND_WEBSOCKET_ENABLE_MASK
           (in_storage (\<lambda>s.
              let s = s\<lparr>ts_send_websocket_header_len := ts_send_websocket_header_len s + 4, ts_send_websocket_mask := key\<rparr>;
                  b = (ts_send_websocket_header_buffer s)[1 := (ts_send_websocket_header_buffer s ! 1) OR 0x80]
              in s\<lparr>ts_send_websocket_header_buffer := overwrite b (ts_send_websocket_header_len s - 4) key\<rparr>) c), w))"

definition mask_send_buffer :: "size_t \<Rightarrow> connection \<Rightarrow> status \<times> connection" where
  "mask_send_buffer send_len c =
     (if transport_has c STATE_SEND_WEBSOCKET_ENABLE_MASK then
        (if length (cn_send_buffer c) < cn_send_buffer_pos c + send_len then (Err UNDEFINED_BEHAVIOUR, c)
         else (OK, c\<lparr>cn_send_buffer := overwrite (cn_send_buffer c) (cn_send_buffer_pos c)
                       (mask_bytes (ts_send_websocket_mask (cn_transport_storage c)) 0
                          (chunk (cn_send_buffer c) (cn_send_buffer_pos c) send_len))\<rparr>))
      else (OK, c))"

definition prepare_frame :: "'w os \<Rightarrow> size_t \<Rightarrow> connection \<Rightarrow> 'w \<Rightarrow> 'w outcome" where
  "prepare_frame os len c w =
     (if ts_send_websocket_frame_len (cn_transport_storage c) = 0 \<and> len > 0 then
        (let send_len = frame_send_len len in
         case prepare_mask os (prepare_header len c) w of (c, w) \<Rightarrow>
           (let c = in_storage (\<lambda>s. s\<lparr>ts_send_websocket_frame_len := send_len,
                      ts_send_websocket_frame_buffer_end := sz_add send_len (cn_send_buffer_pos c),
                      ts_send_websocket_frame_buffer_pos := cn_send_buffer_pos c\<rparr>) c
            in case mask_send_buffer send_len c of (st, c) \<Rightarrow> (st, c, w)))
      else (OK, c, w))"

definition send_frame_header :: "'w os \<Rightarrow> connection \<Rightarrow> 'w \<Rightarrow> 'w outcome" where
  "send_frame_header os c w =
     (let s = cn_transport_storage c in
      if ts_send_websocket_header_len s > 0 \<and> ts_send_websocket_header_pos s < ts_send_websocket_header_len s then
        (case tcp_socket_send_nonblocking os (co_sock c) (ts_send_websocket_header_buffer s) (ts_send_websocket_header_pos s)
                (ts_send_websocket_header_len s - ts_send_websocket_header_pos s) w of
           (st, sk, pos, w) \<Rightarrow> (st, in_storage (\<lambda>s. s\<lparr>ts_send_websocket_header_pos := pos\<rparr>) (c\<lparr>co_sock := sk\<rparr>), w))
      else (OK, c, w))"

definition send_frame_data :: "'w os \<Rightarrow> connection \<Rightarrow> 'w \<Rightarrow> 'w outcome" where
  "send_frame_data os c w =
     (let s = cn_transport_storage c in
      case tcp_socket_send_nonblocking os (co_sock c) (cn_send_buffer c) (ts_send_websocket_frame_buffer_pos s)
             (sz_sub (ts_send_websocket_frame_buffer_end s) (ts_send_websocket_frame_buffer_pos s)) w of
        (st, sk, pos, w) \<Rightarrow> (st, in_storage (\<lambda>s. s\<lparr>ts_send_websocket_frame_buffer_pos := pos\<rparr>) (c\<lparr>co_sock := sk\<rparr>), w))"

definition finish_frame :: "connection \<Rightarrow> connection" where
  "finish_frame c =
     transport_clear STATE_SEND_WEBSOCKET_ENABLE_MASK
       (in_storage (\<lambda>s. s\<lparr>ts_send_websocket_frame_len := 0, ts_send_websocket_header_len := 0,
                         ts_send_websocket_header_pos := 0\<rparr>)
          (c\<lparr>cn_send_buffer_pos := ts_send_websocket_frame_buffer_end (cn_transport_storage c)\<rparr>))"

definition buffer_send_websocket :: "'w os \<Rightarrow> size_t \<Rightarrow> connection \<Rightarrow> 'w \<Rightarrow> 'w outcome" where
  "buffer_send_websocket os len c w =
     (case prepare_frame os len c w of
        (Err e, c, w) \<Rightarrow> (Err e, c, w)
      | (OK, c, w) \<Rightarrow>
          (case send_frame_header os c w of
             (Err e, c, w) \<Rightarrow> (Err e, c, w)
           | (OK, c, w) \<Rightarrow>
               (let s = cn_transport_storage c in
                if ts_send_websocket_header_len s > 0 \<and> ts_send_websocket_header_pos s < ts_send_websocket_header_len s
                then (OK, c, w)
                else if len < ts_send_websocket_frame_len s then (Err CONNECTION_ERROR, c, w)
                else case send_frame_data os c w of
                  (Err e, c, w) \<Rightarrow> (Err e, c, w)
                | (OK, c, w) \<Rightarrow>
                    (let s = cn_transport_storage c in
                     if ts_send_websocket_frame_buffer_pos s < ts_send_websocket_frame_buffer_end s then (OK, c, w)
                     else (OK, finish_frame c, w)))))"

definition tcp_buffer_send :: "'w os \<Rightarrow> size_t \<Rightarrow> connection \<Rightarrow> 'w \<Rightarrow> 'w outcome" where
  "tcp_buffer_send os len c w =
     (if transport_has c STATE_IS_WEBSOCKET then buffer_send_websocket os len c w
      else send_from_buffer os len c w)"

definition tcp_communicate_send :: "'w os \<Rightarrow> timespec \<Rightarrow> connection \<Rightarrow> 'w \<Rightarrow> 'w outcome" where
  "tcp_communicate_send os now c w =
     (case communicate_send1 c now 0 of
        (st, c, send_op_len) \<Rightarrow>
          if FAILED st \<or> send_op_len = 0 then (st, c, w)
          else case tcp_buffer_send os send_op_len c w of
            (st, c, w) \<Rightarrow> (case communicate_send2 c now st of (st, c) \<Rightarrow> (st, c, w)))"

end
