(* ===== verification/RRL_Handshake.thy ===== *)
theory RRL_Handshake
  imports RRL_Tcp
begin

text \<open>
  The handshake of the TCP transport, src/tcp_transport.c: the HTTP request and response that turn a
  connection into a websocket, and what a connection does under the control of the transport.
\<close>


section \<open>Lines of a request\<close>

definition is_newline :: "byte \<Rightarrow> bool" where
  "is_newline b \<longleftrightarrow> b = 10 \<or> b = 13"

definition is_blank :: "byte \<Rightarrow> bool" where
  "is_blank b \<longleftrightarrow> b = 32 \<or> b = 9"

text \<open>The loop \<open>while (i < n && P(data[i])) i++\<close>.\<close>

function scan :: "(byte \<Rightarrow> bool) \<Rightarrow> byte list \<Rightarrow> size_t \<Rightarrow> size_t \<Rightarrow> size_t" where
  "scan P d n i = (if i < n \<and> P (d ! i) then scan P d n (Suc i) else i)"
  by pat_completeness auto
termination
  by (relation "measure (\<lambda>(P, d, n, i). n - i)") auto

declare scan.simps [simp del]

lemma scan_ge: "i \<le> scan P d n i"
proof (induction P d n i rule: scan.induct)
  case (1 P d n i)
  show ?case
  proof (cases "i < n \<and> P (d ! i)")
    case True
    then have "i \<le> scan P d n (Suc i)" using 1 by simp
    then show ?thesis using True by (subst scan.simps) simp
  next
    case False
    then show ?thesis by (subst scan.simps) auto
  qed
qed

text \<open>The end of the line at \<open>i\<close> and the start of the next line.\<close>

definition find_next_line :: "byte list \<Rightarrow> size_t \<Rightarrow> size_t \<Rightarrow> error + size_t \<times> size_t" where
  "find_next_line recv_data recv_data_len i_next =
     (let i = scan (\<lambda>b. \<not> is_newline b) recv_data recv_data_len i_next
      in if i \<ge> recv_data_len then Inl CONNECTION_ERROR
         else Inr (i, scan is_newline recv_data recv_data_len i))"

lemma find_next_line_moves: "find_next_line d n i = Inr (e, i') \<Longrightarrow> i < i'"
proof -
  assume a: "find_next_line d n i = Inr (e, i')"
  define k where "k = scan (\<lambda>b. \<not> is_newline b) d n i"
  have k: "k < n" "i' = scan is_newline d n k" using a by (auto simp: find_next_line_def k_def Let_def split: if_splits)
  have s: "scan P d n j = scan P d n (scan P d n j)" for P j
  proof (induction P d n j rule: scan.induct)
    case (1 P d n i)
    then show ?case
    proof (cases "i < n \<and> P (d ! i)")
      case True
      then have "scan P d n i = scan P d n (Suc i)" by (subst scan.simps) simp
      then show ?thesis using 1 True by simp
    next
      case False
      then have "scan P d n i = i" by (subst scan.simps) auto
      then show ?thesis by simp
    qed
  qed
  have "is_newline (d ! k)"
  proof (rule ccontr)
    assume "\<not> is_newline (d ! k)"
    then have "scan (\<lambda>b. \<not> is_newline b) d n k = scan (\<lambda>b. \<not> is_newline b) d n (Suc k)" using k by (subst scan.simps) simp
    moreover have "scan (\<lambda>b. \<not> is_newline b) d n k = k" using s [of "\<lambda>b. \<not> is_newline b" i] by (simp add: k_def)
    ultimately show False using scan_ge [of "Suc k" "\<lambda>b. \<not> is_newline b" d n] by simp
  qed
  then have "i' = scan is_newline d n (Suc k)" using k by (subst (asm) scan.simps) simp
  then show "i < i'" using scan_ge [of "Suc k" is_newline d n] scan_ge [of i "\<lambda>b. \<not> is_newline b" d n] by (simp add: k_def)
qed

definition HTTP_SEC_WEBSOCKET_KEY :: "byte list" where "HTTP_SEC_WEBSOCKET_KEY = ascii ''Sec-WebSocket-Key:''"
definition HTTP_KEY_UUID :: "byte list" where "HTTP_KEY_UUID = ascii ''258EAFA5-E914-47DA-95CA-C5AB0DC85B11''"
definition WEBSOCKET_KEY_BASE64_LEN :: size_t where "WEBSOCKET_KEY_BASE64_LEN = 24"

definition CRLF :: "byte list" where "CRLF = [13, 10]"

definition HTTP_RESPONSE_1 :: "byte list" where
  "HTTP_RESPONSE_1 = ascii ''HTTP/1.1 101 Switching Protocols'' @ CRLF @ ascii ''Upgrade: websocket'' @ CRLF @
     ascii ''Connection: Upgrade'' @ CRLF @ ascii ''Sec-WebSocket-Protocol: robotraconteur.robotraconteur.com'' @ CRLF @
     ascii ''Sec-WebSocket-Version: 13'' @ CRLF @ ascii ''Sec-WebSocket-Accept: ''"

definition HTTP_RESPONSE_2 :: "byte list" where "HTTP_RESPONSE_2 = CRLF @ CRLF"

text \<open>The search for the line of the key; the result is where the key line's value starts.\<close>

function find_key :: "byte list \<Rightarrow> size_t \<Rightarrow> size_t \<Rightarrow> error + size_t \<times> size_t" where
  "find_key d n i_next =
     (if i_next < n then
        (if d ! i_next = 83 \<and> i_next + 18 < n \<and> chunk d i_next 18 = HTTP_SEC_WEBSOCKET_KEY
         then Inr (i_next + 18, i_next)
         else case find_next_line d n i_next of
           Inl e \<Rightarrow> Inl e
         | Inr (i_end, i_next') \<Rightarrow> find_key d n i_next')
      else Inr (0, i_next))"
  by pat_completeness auto
termination
  by (relation "measure (\<lambda>(d, n, i). n - i)") (auto dest: find_next_line_moves intro: diff_less_mono2)

declare find_key.simps [simp del]

text \<open>The key of a request: its 24 characters.\<close>

definition request_key :: "byte list \<Rightarrow> size_t \<Rightarrow> error + byte list" where
  "request_key d n =
     (case find_next_line d n 0 of
        Inl e \<Rightarrow> Inl e
      | Inr (_, i_next) \<Rightarrow>
          (case find_key d n i_next of
             Inl e \<Rightarrow> Inl e
           | Inr (key, i_next) \<Rightarrow>
               (if key = 0 then Inl CONNECTION_ERROR
                else case find_next_line d n i_next of
                  Inl e \<Rightarrow> Inl e
                | Inr (i_end, _) \<Rightarrow>
                    (let key = scan is_blank d i_end key;
                         key_end = scan (\<lambda>b. \<not> is_blank b) d i_end key
                     in if sz_sub key_end key \<noteq> WEBSOCKET_KEY_BASE64_LEN then Inl CONNECTION_ERROR
                        else Inr (chunk d key WEBSOCKET_KEY_BASE64_LEN)))))"

text \<open>
  The answer to a request, put into the send buffer; an answer that does not fit is undefined
  behaviour, as only an assertion excludes it.
\<close>

definition http_handshake :: "'w os \<Rightarrow> connection \<Rightarrow> 'w \<Rightarrow> 'w outcome" where
  "http_handshake os c w =
     (case request_key (cn_recv_buffer c) (cn_recv_buffer_pos c) of
        Inl e \<Rightarrow> (Err e, c, w)
      | Inr key \<Rightarrow>
          (case os_sha1 os (key @ HTTP_KEY_UUID) of
             None \<Rightarrow> (Err INTERNAL_ERROR, c, w)
           | Some sha1_bytes \<Rightarrow>
               (case os_base64 os sha1_bytes of
                  None \<Rightarrow> (Err INTERNAL_ERROR, c, w)
                | Some sha1_base64 \<Rightarrow>
                    (let response = HTTP_RESPONSE_1 @ sha1_base64 @ HTTP_RESPONSE_2;
                         c = c\<lparr>cn_recv_buffer_pos := 0, cn_send_buffer_pos := 0\<rparr>
                     in if length (cn_send_buffer c) < length response then (Err UNDEFINED_BEHAVIOUR, c, w)
                        else send_from_buffer os (length response)
                               (c\<lparr>cn_send_buffer := overwrite (cn_send_buffer c) 0 response,
                                  cn_send_message_len := word_of_nat (length response)\<rparr>) w))))"


section \<open>Receiving an HTTP header\<close>

definition header_ends :: "byte list \<Rightarrow> size_t \<Rightarrow> bool" where
  "header_ends buf pos \<longleftrightarrow>
     pos \<ge> 4 \<and> (chunk buf (pos - 4) 4 = [13, 10, 13, 10] \<or> chunk buf (pos - 4) 4 = [10, 13, 10, 13]) \<or>
     pos \<ge> 2 \<and> (chunk buf (pos - 2) 2 = [10, 10] \<or> chunk buf (pos - 2) 2 = [13, 13])"

lemma recv_loop_pos: "recv_loop os sk buf pos got len w = (st, sk', buf', pos', w') \<Longrightarrow> pos + got \<le> pos'"
proof (induction os sk buf pos got len w arbitrary: rule: recv_loop.induct)
  case (1 os sk buffer pos got len w)
  show ?case
    using 1 by (subst (asm) recv_loop.simps [of os sk buffer pos got len w])
      (fastforce split: if_splits prod.splits recv_result.splits)
qed

lemma recv_into_buffer_pos: "recv_into_buffer os len c w = (st, c', w') \<Longrightarrow> cn_recv_buffer_pos c \<le> cn_recv_buffer_pos c'"
  using recv_loop_pos by (fastforce simp: recv_into_buffer_def tcp_socket_recv_nonblocking_def split: prod.splits)

lemma recv_into_buffer_len: "recv_into_buffer os len c w = (st, c', w') \<Longrightarrow> cn_recv_buffer_len c' = cn_recv_buffer_len c"
  by (auto simp: recv_into_buffer_def split: prod.splits)

text \<open>The loop; each round asks for \<open>recv_buffer_pos + 1\<close> bytes.\<close>

function http_recv_header :: "'w os \<Rightarrow> connection \<Rightarrow> 'w \<Rightarrow> 'w outcome" where
  "http_recv_header os c w =
     (if cn_recv_buffer_pos c < cn_recv_buffer_len c then
        (case recv_into_buffer os (cn_recv_buffer_pos c + 1) c w of
           (Err e, c', w) \<Rightarrow> (Err e, set_state STATUS_FLAGS_ERROR c', w)
         | (OK, c', w) \<Rightarrow>
             (if cn_recv_buffer_pos c' = cn_recv_buffer_pos c then (Err CONSUMED, c', w)
              else if header_ends (cn_recv_buffer c') (cn_recv_buffer_pos c') then (OK, c', w)
              else http_recv_header os c' w))
      else (Err CONNECTION_ERROR, c, w))"
  by pat_completeness auto
termination
proof (relation "measure (\<lambda>(os, c, w). cn_recv_buffer_len c - cn_recv_buffer_pos c)", goal_cases)
  case (2 os c w x y st z)
  then have "recv_into_buffer os (cn_recv_buffer_pos c + 1) c w = (OK, st, z)" by auto
  from recv_into_buffer_pos [OF this] recv_into_buffer_len [OF this] 2 show ?case by auto
qed auto

declare http_recv_header.simps [simp del]


section \<open>The handshake\<close>

definition connected_flags :: "connection \<Rightarrow> connection" where
  "connected_flags c = set_state (STATUS_FLAGS_CONNECTED OR STATUS_FLAGS_RECEIVE_REQUESTED) c"

definition websocket_connected :: "connection \<Rightarrow> connection" where
  "websocket_connected c =
     (clear_state (STATUS_FLAGS_CONNECTING OR STATUS_FLAGS_BLOCK_SEND OR STATUS_FLAGS_SENDING OR STATUS_FLAGS_SEND_REQUESTED)
        (connected_flags (transport_set STATE_IS_WEBSOCKET c)))\<lparr>cn_send_buffer_pos := 0, cn_send_message_len := 0\<rparr>"

definition send_rest :: "'w os \<Rightarrow> connection \<Rightarrow> 'w \<Rightarrow> 'w outcome" where
  "send_rest os c w =
     send_from_buffer os (sz_sub (unat (cn_send_message_len c)) (cn_send_buffer_pos c)) c w"

definition server_upgrade :: "'w os \<Rightarrow> connection \<Rightarrow> 'w \<Rightarrow> 'w outcome" where
  "server_upgrade os c w =
     (case http_recv_header os c w of
        (Err e, c, w) \<Rightarrow> if e = RETRY then (Err RETRY, c, w) else (Err e, set_state STATUS_FLAGS_ERROR c, w)
      | (OK, c, w) \<Rightarrow>
          (case http_handshake os c w of
             (Err e, c, w) \<Rightarrow> (Err e, set_state STATUS_FLAGS_ERROR c, w)
           | (OK, c, w) \<Rightarrow>
               (let c = set_state STATUS_FLAGS_SENDING c in
                if cn_send_message_len c > 0 \<and> cn_send_buffer_pos c = unat (cn_send_message_len c)
                then (OK, websocket_connected c, w) else (Err CONSUMED, c, w))))"

definition server_first_bytes :: "'w os \<Rightarrow> connection \<Rightarrow> 'w \<Rightarrow> 'w outcome" where
  "server_first_bytes os c w =
     (if take 4 (cn_recv_buffer c) = rrac_magic
      then (OK, clear_state STATUS_FLAGS_CONNECTING (connected_flags (transport_clear STATE_IS_WEBSOCKET c)), w)
      else if take 4 (cn_recv_buffer c) = ascii ''GET '' then server_upgrade os (transport_set STATE_IS_WEBSOCKET c) w
      else (Err CONNECTION_ERROR, c, w))"

definition handshake_server :: "'w os \<Rightarrow> connection \<Rightarrow> 'w \<Rightarrow> 'w outcome" where
  "handshake_server os c w =
     (if \<not> has_state c STATUS_FLAGS_CONNECTING then (OK, c, w)
      else if cn_send_message_len c > 0 then
        (case send_rest os c w of
           (Err e, c, w) \<Rightarrow> if e = RETRY then (Err RETRY, c, w) else (Err e, set_state STATUS_FLAGS_ERROR c, w)
         | (OK, c, w) \<Rightarrow>
             if cn_send_buffer_pos c < unat (cn_send_message_len c) then (Err CONSUMED, c, w)
             else (OK, websocket_connected c, w))
      else if cn_recv_buffer_pos c < 4 then
        (case recv_into_buffer os 4 c w of
           (Err e, c, w) \<Rightarrow> (Err e, set_state STATUS_FLAGS_ERROR c, w)
         | (OK, c, w) \<Rightarrow>
             if cn_recv_buffer_pos c < 4 then (Err CONSUMED, c, w) else server_first_bytes os c w)
      else server_first_bytes os c w)"

definition client_response :: "'w os \<Rightarrow> connection \<Rightarrow> 'w \<Rightarrow> 'w outcome" where
  "client_response os c w =
     (let c = clear_state STATUS_FLAGS_SENDING c in
      case http_recv_header os c w of
        (Err e, c, w) \<Rightarrow>
          if e = RETRY \<or> e = CONSUMED then (Err e, c, w) else (Err e, set_state STATUS_FLAGS_ERROR c, w)
      | (OK, c, w) \<Rightarrow>
          (if take 12 (cn_recv_buffer c) \<noteq> ascii ''HTTP/1.1 101'' then (Err CONNECTION_ERROR, c, w)
           else (OK, (transport_clear STATE_IN_HTTP_HEADER (websocket_connected c))
                       \<lparr>cn_recv_buffer_pos := 0, cn_recv_message_len := 0\<rparr>, w)))"

definition handshake_client :: "'w os \<Rightarrow> connection \<Rightarrow> 'w \<Rightarrow> 'w outcome" where
  "handshake_client os c w =
     (if \<not> has_state c STATUS_FLAGS_CONNECTING then (OK, c, w)
      else if \<not> transport_has c STATE_IS_WEBSOCKET then (OK, c, w)
      else if cn_send_message_len c > 0 then
        (case send_rest os c w of
           (Err e, c, w) \<Rightarrow> (Err e, set_state STATUS_FLAGS_ERROR c, w)
         | (OK, c, w) \<Rightarrow>
             if cn_send_buffer_pos c < unat (cn_send_message_len c)
             then (Err CONSUMED, set_state STATUS_FLAGS_SENDING c, w)
             else client_response os c w)
      else client_response os c w)"

definition tcp_handshake :: "'w os \<Rightarrow> connection \<Rightarrow> 'w \<Rightarrow> 'w outcome" where
  "tcp_handshake os c w =
     (if \<not> has_state c STATUS_FLAGS_CONNECTING then (OK, c, w)
      else if is_server_side c then handshake_server os c w else handshake_client os c w)"


section \<open>Control\<close>

text \<open>The error flag of a failed connect goes into \<open>config_flags\<close>, as in the code.\<close>

definition client_socket_progress :: "'w os \<Rightarrow> status \<Rightarrow> connection \<Rightarrow> 'w \<Rightarrow> 'w outcome" where
  "client_socket_progress os rv c w =
     (if rv = OK \<and> \<not> is_server_side c \<and> \<not> has_state c STATUS_FLAGS_CLIENT_SOCKET_CONNECTED then
        (case tcp_socket_is_connection_complete os (sk_sock (co_sock c)) w of
           (Err e, w) \<Rightarrow>
             if e = RETRY then (Err RETRY, c, w)
             else (Err e, c\<lparr>cn_config_flags := FLAGS_SET (cn_config_flags c) STATUS_FLAGS_ERROR\<rparr>, w)
         | (OK, w) \<Rightarrow>
             (OK, set_state (STATUS_FLAGS_CLIENT_SOCKET_CONNECTED OR STATUS_FLAGS_RECEIVE_REQUESTED) c, w))
      else (rv, c, w))"

definition tcp_process_control :: "'w os \<Rightarrow> timespec \<Rightarrow> connection \<Rightarrow> 'w \<Rightarrow> 'w outcome" where
  "tcp_process_control os now c w =
     (case communicate_process_control c now TCP_TRANSPORT 0 of
        (Err e, c, _) \<Rightarrow> (Err e, c, w)
      | (OK, c, close_requested) \<Rightarrow>
          (if close_requested \<noteq> 0 then
             (case tcp_socket_close os (co_sock c) w of
                (rv, sk, w) \<Rightarrow>
                  (case communicate_after_close_requested (c\<lparr>co_sock := sk\<rparr>) now rv of (st, c) \<Rightarrow> (st, c, w)))
           else case tcp_handshake os c w of (rv, c, w) \<Rightarrow> client_socket_progress os rv c w))"

definition tcp_connection_communicate :: "'w os \<Rightarrow> timespec \<Rightarrow> connection \<Rightarrow> 'w \<Rightarrow> 'w outcome" where
  "tcp_connection_communicate os now c w =
     (case tcp_process_control os now c w of
        (Err e, c, w) \<Rightarrow> (if e = CONSUMED then OK else Err e, c, w)
      | (OK, c, w) \<Rightarrow>
          (case tcp_communicate_recv os now c w of
             (Err e, c, w) \<Rightarrow> (Err e, c, w)
           | (OK, c, w) \<Rightarrow> tcp_communicate_send os now c w))"

definition tcp_connection_close :: "'w os \<Rightarrow> connection \<Rightarrow> 'w \<Rightarrow> connection \<times> 'w" where
  "tcp_connection_close os c w =
     (if co_transport_type c \<noteq> TCP_TRANSPORT then (c, w)
      else if sk_sock (co_sock c) \<noteq> 0 then
        (case tcp_socket_close os (co_sock c) w of (_, sk, w) \<Rightarrow> (c\<lparr>co_sock := sk\<lparr>sk_sock := 0\<rparr>\<rparr>, w))
      else (c, w))"

definition tcp_connection_prepare_wait :: "connection \<Rightarrow> status \<times> connection" where
  "tcp_connection_prepare_wait c = impl_prepare_wait c"

end
