(* ===== verification/RRL_Url.thy ===== *)
theory RRL_Url
  imports RRL_Socket RRL_NodeId
begin

text \<open>
  The URLs of services, src/url.c. A URL is a list of bytes, and the parts an address points to are
  chunks of it; reading behind its end is undefined behaviour. The conversions of IP addresses, the
  index of a network interface and the layout of a socket address come from the system and are the
  parameter \<open>net\<close>. What a failure leaves in the address is not modelled.
\<close>


section \<open>Addresses\<close>

record service_addr = connect_addr +
  ad_scheme :: const_string
  ad_socket_addr :: "byte list"
  ad_flags :: u32
  ad_http_host :: const_string
  ad_http_path :: const_string
  ad_source_url :: const_string

definition ADDR_FLAGS_SOCKADDR_VALID :: u32 where "ADDR_FLAGS_SOCKADDR_VALID = 0x1"

definition zero_addr :: service_addr where
  "zero_addr =
     \<lparr>ad_nodeid = nodeid_any, ad_nodename = [], ad_service_name = [], ad_scheme = [], ad_socket_addr = [], ad_flags = 0,
      ad_http_host = [], ad_http_path = [], ad_source_url = []\<rparr>"

text \<open>A text that is no address is \<open>None\<close>; a port is in the order of the network.\<close>

record net =
  net_pton :: "byte list \<Rightarrow> byte list option"
  net_pton6 :: "byte list \<Rightarrow> byte list option"
  net_ifindex :: "byte list \<Rightarrow> u32"
  net_sockaddr :: "byte list \<Rightarrow> u16 \<Rightarrow> byte list"
  net_sockaddr6 :: "byte list \<Rightarrow> u16 \<Rightarrow> u32 \<Rightarrow> byte list"

definition url_fill_sockaddr :: "net \<Rightarrow> byte list \<Rightarrow> u16 \<Rightarrow> service_addr \<Rightarrow> service_addr" where
  "url_fill_sockaddr net ip_addr port a = a\<lparr>ad_socket_addr := net_sockaddr net ip_addr port\<rparr>"

definition url_fill_sockaddr6 :: "net \<Rightarrow> byte list \<Rightarrow> u16 \<Rightarrow> u32 \<Rightarrow> service_addr \<Rightarrow> service_addr" where
  "url_fill_sockaddr6 net ip_addr port scopeid a = a\<lparr>ad_socket_addr := net_sockaddr6 net ip_addr port scopeid\<rparr>"


section \<open>Characters\<close>

definition is_numeric_char :: "byte \<Rightarrow> bool" where
  "is_numeric_char c \<longleftrightarrow> 48 \<le> c \<and> c \<le> 57"

definition is_alpha_numeric :: "byte \<Rightarrow> bool" where
  "is_alpha_numeric c \<longleftrightarrow> 65 \<le> c \<and> c \<le> 90 \<or> 97 \<le> c \<and> c \<le> 122 \<or> 48 \<le> c \<and> c \<le> 57"

definition is_scheme_char :: "byte \<Rightarrow> bool" where
  "is_scheme_char c \<longleftrightarrow> is_alpha_numeric c \<or> c \<in> set (ascii ''.+-'')"

definition is_hostname_char :: "byte \<Rightarrow> bool" where
  "is_hostname_char c \<longleftrightarrow> is_alpha_numeric c \<or> c \<in> set (ascii ''.-'')"

definition is_ipv6_char :: "byte \<Rightarrow> bool" where
  "is_ipv6_char c \<longleftrightarrow> is_alpha_numeric c \<or> c \<in> set (ascii ''.-%_:'')"

text \<open>39 is the single quote.\<close>

definition is_path_char :: "byte \<Rightarrow> bool" where
  "is_path_char c \<longleftrightarrow> is_alpha_numeric c \<or> c = 39 \<or> c \<in> set (ascii ''.-_~!$&()*+:,;=?@/'')"

definition is_path_start :: "byte \<Rightarrow> bool" where
  "is_path_start c \<longleftrightarrow> c = 47 \<or> c = 63"


section \<open>Numbers\<close>

text \<open>
  \<open>strtol\<close> with base 10: the value, the number of characters it read (0 when there is no number)
  and whether it reports a range error.
\<close>

definition is_space :: "byte \<Rightarrow> bool" where
  "is_space c \<longleftrightarrow> c = 32 \<or> 9 \<le> c \<and> c \<le> 13"

definition digits_val :: "byte list \<Rightarrow> int" where
  "digits_val ds = foldl (\<lambda>v d. 10 * v + int (unat (d - 48))) 0 ds"

definition strtol10 :: "byte list \<Rightarrow> int \<times> nat \<times> bool" where
  "strtol10 s =
     (let s1 = dropWhile is_space s;
          neg = (s1 \<noteq> [] \<and> hd s1 = 45);
          s2 = (if s1 \<noteq> [] \<and> (hd s1 = 45 \<or> hd s1 = 43) then tl s1 else s1);
          ds = takeWhile is_numeric_char s2;
          v = (if neg then - digits_val ds else digits_val ds)
      in if ds = [] then (0, 0, False)
         else (max (- (2 ^ 63)) (min (2 ^ 63 - 1) v), length s - length s2 + length ds,
               v < - (2 ^ 63) \<or> 2 ^ 63 - 1 < v))"


section \<open>Parts of a URL\<close>

text \<open>
  The loop that looks for the first character that ends a part and fails at one that may not be in it.
\<close>

function find_delim :: "(byte \<Rightarrow> bool) \<Rightarrow> (byte \<Rightarrow> bool) \<Rightarrow> byte list \<Rightarrow> size_t \<Rightarrow> error + size_t option" where
  "find_delim stop ok u i =
     (if i < length u then
        (if stop (u ! i) then Inr (Some i)
         else if \<not> ok (u ! i) then Inl INVALID_ARGUMENT
         else find_delim stop ok u (Suc i))
      else Inr None)"
  by pat_completeness auto
termination
  by (relation "measure (\<lambda>(stop, ok, u, i). length u - i)") auto

declare find_delim.simps [simp del]

text \<open>The end of the scheme: behind the two slashes.\<close>

definition find_scheme :: "byte list \<Rightarrow> error + size_t" where
  "find_scheme u =
     (case find_delim (\<lambda>c. c = 58) is_scheme_char u 0 of
        Inl e \<Rightarrow> Inl e
      | Inr None \<Rightarrow> Inl INVALID_ARGUMENT
      | Inr (Some i) \<Rightarrow>
          if i = 0 \<or> length u < i + 3 then Inl INVALID_ARGUMENT
          else if u ! (i + 1) \<noteq> 47 \<or> u ! (i + 2) \<noteq> 47 then Inl INVALID_ARGUMENT
          else Inr (i + 3))"

text \<open>The port, 0 when there is none, and the position behind it.\<close>

definition parse_port :: "byte list \<Rightarrow> size_t \<Rightarrow> error + u16 \<times> size_t" where
  "parse_port u i =
     (if length u \<le> i then Inl UNDEFINED_BEHAVIOUR
      else if is_path_start (u ! i) then Inr (0, i)
      else if u ! i = 58 then
        (case find_delim is_path_start is_numeric_char u (i + 1) of
           Inl e \<Rightarrow> Inl e
         | Inr None \<Rightarrow> Inl INVALID_ARGUMENT
         | Inr (Some slash_delim) \<Rightarrow>
             (let port_start = i + 1 in
              if slash_delim - port_start \<ge> 80 then Inl INVALID_ARGUMENT
              else case strtol10 (chunk u port_start (slash_delim - port_start)) of
                (port_l, n, err) \<Rightarrow>
                  if n = 0 \<or> err then Inl INVALID_ARGUMENT
                  else if port_l > 0xFFFFF then Inl INVALID_ARGUMENT
                  else Inr (word_of_int port_l, slash_delim)))
      else Inl INVALID_ARGUMENT)"

text \<open>The closing bracket, and the last percent sign before it, 0 when there is none.\<close>

function find_bracket :: "byte list \<Rightarrow> size_t \<Rightarrow> size_t \<Rightarrow> error + size_t option \<times> size_t" where
  "find_bracket u i scope_delim =
     (if i < length u then
        (if u ! i = 93 then Inr (Some i, scope_delim)
         else let scope_delim = (if u ! i = 37 then i else scope_delim) in
           if \<not> is_ipv6_char (u ! i) then Inl INVALID_ARGUMENT
           else find_bracket u (Suc i) scope_delim)
      else Inr (None, scope_delim))"
  by pat_completeness auto
termination
  by (relation "measure (\<lambda>(u, i, s). length u - i)") auto

declare find_bracket.simps [simp del]

definition scope_id :: "net \<Rightarrow> byte list \<Rightarrow> u32" where
  "scope_id net s = (case strtol10 s of (scope_l, n, err) \<Rightarrow> if n \<noteq> 0 \<and> \<not> err then word_of_int scope_l else net_ifindex net s)"

text \<open>
  An IPv6 address in brackets at \<open>k\<close>. A text that fills the whole buffer of 80 characters is not
  terminated when it is handed to the system.
\<close>

definition parse_ipv6 :: "net \<Rightarrow> byte list \<Rightarrow> size_t \<Rightarrow> service_addr \<Rightarrow> error + service_addr \<times> size_t" where
  "parse_ipv6 net u k a =
     (case find_bracket u (k + 1) 0 of
        Inl e \<Rightarrow> Inl e
      | Inr (None, _) \<Rightarrow> Inl INVALID_ARGUMENT
      | Inr (Some ipv6_end, scope_delim) \<Rightarrow>
          if ipv6_end + 1 \<ge> length u then Inl INVALID_ARGUMENT
          else if ipv6_end - (k + 1) > 80 then Inl INVALID_ARGUMENT
          else let text_end = (if scope_delim = 0 then ipv6_end else scope_delim) in
            if text_end - (k + 1) = 80 then Inl UNDEFINED_BEHAVIOUR
            else case net_pton6 net (chunk u (k + 1) (text_end - (k + 1))) of
              None \<Rightarrow> Inl INVALID_ARGUMENT
            | Some sin6_addr \<Rightarrow>
                if scope_delim \<noteq> 0 \<and> (ipv6_end - scope_delim < 2 \<or> ipv6_end - scope_delim - 1 \<ge> 80)
                then Inl INVALID_ARGUMENT
                else let sin6_scope_id = (if scope_delim = 0 then 0
                       else scope_id net (chunk u (scope_delim + 1) (ipv6_end - scope_delim - 1)))
                  in case parse_port u (ipv6_end + 1) of
                    Inl e \<Rightarrow> Inl e
                  | Inr (port, i) \<Rightarrow>
                      let a = url_fill_sockaddr6 net sin6_addr (htons port) sin6_scope_id a
                      in Inr (a\<lparr>ad_http_host := chunk u k (i - k), ad_flags := FLAGS_SET (ad_flags a) ADDR_FLAGS_SOCKADDR_VALID\<rparr>, i))"

text \<open>A host name or an IPv4 address at \<open>k\<close>; the address of a name is zero and not valid.\<close>

definition parse_ipv4 :: "net \<Rightarrow> byte list \<Rightarrow> size_t \<Rightarrow> service_addr \<Rightarrow> error + service_addr \<times> size_t" where
  "parse_ipv4 net u k a =
     (case find_delim (\<lambda>c. c = 58 \<or> is_path_start c) is_hostname_char u k of
        Inl e \<Rightarrow> Inl e
      | Inr None \<Rightarrow> Inl INVALID_ARGUMENT
      | Inr (Some host_end) \<Rightarrow>
          if host_end - k > 120 then Inl INVALID_ARGUMENT
          else if host_end - k = 120 then Inl UNDEFINED_BEHAVIOUR
          else let r = net_pton net (chunk u k (host_end - k));
                   sin_addr = (case r of None \<Rightarrow> replicate 4 0 | Some ip \<Rightarrow> ip);
                   a = (if r = None then a else a\<lparr>ad_flags := FLAGS_SET (ad_flags a) ADDR_FLAGS_SOCKADDR_VALID\<rparr>)
               in case parse_port u host_end of
                 Inl e \<Rightarrow> Inl e
               | Inr (port, i) \<Rightarrow>
                   Inr ((url_fill_sockaddr net sin_addr (htons port) a)\<lparr>ad_http_host := chunk u k (i - k)\<rparr>, i))"

definition parse_host :: "net \<Rightarrow> byte list \<Rightarrow> size_t \<Rightarrow> service_addr \<Rightarrow> error + service_addr \<times> size_t" where
  "parse_host net u k a =
     (if length u \<le> k then Inl UNDEFINED_BEHAVIOUR
      else if u ! k = 91 then parse_ipv6 net u k a else parse_ipv4 net u k a)"


section \<open>The query\<close>

definition SERVICE :: "byte list" where "SERVICE = ascii ''service''"
definition NODENAME :: "byte list" where "NODENAME = ascii ''nodename''"
definition NODEID :: "byte list" where "NODEID = ascii ''nodeid''"

text \<open>The start of the query, 0 when there is none; a question mark at the end does not count.\<close>

function query_from :: "byte list \<Rightarrow> size_t \<Rightarrow> size_t" where
  "query_from u i = (if i < length u - 1 then (if u ! i = 63 then i + 1 else query_from u (Suc i)) else 0)"
  by pat_completeness auto
termination
  by (relation "measure (\<lambda>(u, i). length u - i)") auto

declare query_from.simps [simp del]

text \<open>A parameter with its name, and what stands behind its equals sign.\<close>

definition query_param :: "byte list \<Rightarrow> byte list \<Rightarrow> service_addr \<Rightarrow> error + service_addr" where
  "query_param name val a =
     (if val = [] then Inr a
      else if name = SERVICE then Inr (a\<lparr>ad_service_name := val\<rparr>)
      else if name = NODENAME then Inr (a\<lparr>ad_nodename := val\<rparr>)
      else if name = NODEID then
        (case nodeid_parse val (ad_nodeid a) of
           (OK, nodeid) \<Rightarrow> Inr (a\<lparr>ad_nodeid := nodeid\<rparr>)
         | (Err e, _) \<Rightarrow> Inl INVALID_ARGUMENT)
      else Inr a)"

function query_loop :: "byte list \<Rightarrow> size_t \<Rightarrow> size_t \<Rightarrow> size_t \<Rightarrow> service_addr \<Rightarrow> error + service_addr" where
  "query_loop u i param_start param_eq a =
     (if i < length u + 1 then
        (if i \<ge> length u \<or> u ! i = 38 then
           (if param_eq = 0 then Inl INVALID_ARGUMENT
            else case query_param (chunk u param_start (param_eq - param_start))
                        (chunk u (param_eq + 1) (i - param_eq - 1)) a of
              Inl e \<Rightarrow> Inl e
            | Inr a \<Rightarrow> query_loop u (Suc i) (i + 1) 0 a)
         else query_loop u (Suc i) param_start (if u ! i = 61 then i else param_eq) a)
      else Inr a)"
  by pat_completeness auto
termination
  by (relation "measure (\<lambda>(u, i, s, e, a). length u + 1 - i)") auto

declare query_loop.simps [simp del]


section \<open>The URL\<close>

definition url_parse :: "net \<Rightarrow> byte list \<Rightarrow> error + service_addr" where
  "url_parse net u =
     (case find_scheme u of
        Inl e \<Rightarrow> Inl e
      | Inr k \<Rightarrow>
          (case parse_host net u k (zero_addr\<lparr>ad_scheme := take k u\<rparr>) of
             Inl e \<Rightarrow> Inl e
           | Inr (a, k) \<Rightarrow>
               (let a = a\<lparr>ad_http_path := drop k u\<rparr> in
                if find_delim (\<lambda>c. False) is_path_char u k \<noteq> Inr None then Inl INVALID_ARGUMENT
                else let query_start = query_from u k in
                  if query_start > 0 then
                    (case query_loop u query_start query_start 0 a of
                       Inl e \<Rightarrow> Inl e
                     | Inr a \<Rightarrow> Inr (a\<lparr>ad_source_url := u\<rparr>))
                  else Inr (a\<lparr>ad_source_url := u\<rparr>))))"

end
