(* ===== verification/RRL_TcpList.thy ===== *)
theory RRL_TcpList
  imports RRL_Handshake RRL_ConnList RRL_Url
begin

text \<open>
  The TCP transport on the list of connections, src/tcp_transport.c: acceptors, connecting to a
  service, serving all objects of the transport, and the tables of functions by which connection.c calls
  the transport. The functions act on the world and the store; \<open>None\<close> is an access to a wrong
  address or a loop that does not end.
\<close>


section \<open>Calls through pointers\<close>

type_synonym 'w machine = "'w \<times> store"

definition with_connection ::
  "(connection \<Rightarrow> 'w \<Rightarrow> 'w outcome) \<Rightarrow> addr \<Rightarrow> 'w machine \<Rightarrow> (status \<times> 'w machine) option" where
  "with_connection f a s = do {
     c \<leftarrow> connection_at (snd s) a;
     Some (case f c (fst s) of (st, c, w) \<Rightarrow> (st, w, (snd s)(a \<mapsto> Conn c))) }"


section \<open>Acceptors\<close>

definition TCP_CONNECTION_OPS :: addr where "TCP_CONNECTION_OPS = 1"
definition TCP_ACCEPTOR_OPS :: addr where "TCP_ACCEPTOR_OPS = 2"

definition tcp_acceptor_construct :: "store \<Rightarrow> addr \<Rightarrow> addr \<Rightarrow> store option" where
  "tcp_acceptor_construct h acceptor connections_head =
     (let h = h(acceptor \<mapsto> Acceptor \<lparr>co_type = CONNECTION_OBJECT_TYPE_ACCEPTOR, co_transport_type = TCP_TRANSPORT, co_next = 0,
                co_prev = 0, co_sock = zero_socket, co_ops = TCP_ACCEPTOR_OPS, ca_config_flags = 0, ca_acceptor_state = 0\<rparr>)
      in if connections_head \<noteq> 0 then list_append h connections_head acceptor else Some h)"

definition tcp_acceptor_listen ::
  "'w os \<Rightarrow> byte list \<Rightarrow> size_t \<Rightarrow> connection_acceptor \<Rightarrow> 'w \<Rightarrow> status \<times> connection_acceptor \<times> 'w" where
  "tcp_acceptor_listen os serv_addr backlog a w =
     (case tcp_socket_begin_server os serv_addr backlog (co_sock a) w of
        (st, sk, w) \<Rightarrow> (st, a\<lparr>co_transport_type := TCP_TRANSPORT, ca_acceptor_state := 0, co_sock := sk\<rparr>, w))"

definition tcp_acceptor_close :: "'w os \<Rightarrow> addr \<Rightarrow> 'w machine \<Rightarrow> (status \<times> 'w machine) option" where
  "tcp_acceptor_close os a s = do {
     k \<leftarrow> acceptor_at (snd s) a;
     Some (if sk_sock (co_sock k) \<noteq> 0 then
             (case tcp_server_socket_close os (co_sock k) (fst s) of
                (_, sk, w) \<Rightarrow> (OK, w, (snd s)(a \<mapsto> Acceptor (k\<lparr>co_sock := sock_unflag SOCKET_FLAGS_ACTIVE sk\<rparr>))))
           else (OK, s)) }"

text \<open>A client is accepted when a connection is idle.\<close>

definition tcp_acceptor_communicate ::
  "'w os \<Rightarrow> timespec \<Rightarrow> addr \<Rightarrow> addr \<Rightarrow> 'w machine \<Rightarrow> (status \<times> 'w machine) option" where
  "tcp_acceptor_communicate os now a connection_head s = do {
     c \<leftarrow> connection_find_idle (snd s) connection_head;
     if c = 0 then Some (OK, s)
     else do {
       k \<leftarrow> acceptor_at (snd s) a;
       case tcp_socket_accept os (co_sock k) zero_socket (fst s) of
         (st, asock, sock, w) \<Rightarrow>
           (let h = (snd s)(a \<mapsto> Acceptor (k\<lparr>co_sock := asock\<rparr>)) in
            case st of
              Err e \<Rightarrow> Some (if e = RETRY then OK else Err e, w, h)
            | OK \<Rightarrow> do {
                k \<leftarrow> connection_at h c;
                Some (case impl_accept2 k now TCP_TRANSPORT sock of
                        (Err e, k) \<Rightarrow> (Err e, w, h(c \<mapsto> Conn k))
                      | (OK, k) \<Rightarrow> (OK, w, h(c \<mapsto> Conn (k\<lparr>co_ops := TCP_CONNECTION_OPS\<rparr>)))) }) } }"


section \<open>All objects of the transport\<close>

definition tcp_serve_object ::
  "'w os \<Rightarrow> addr \<Rightarrow> timespec \<Rightarrow> addr \<Rightarrow> 'w machine \<Rightarrow> (status \<times> 'w machine) option" where
  "tcp_serve_object os connections_head now c s = do {
     ob \<leftarrow> look (snd s) c;
     if co_transport_type (object_head ob) \<noteq> TCP_TRANSPORT then Some (OK, s)
     else if object_type ob = CONNECTION_OBJECT_TYPE_CONNECTION then
       ignore_status (with_connection (tcp_connection_communicate os now) c s)
     else if object_type ob = CONNECTION_OBJECT_TYPE_ACCEPTOR then
       ignore_status (tcp_acceptor_communicate os now c connections_head s)
     else Some (OK, s) }"

definition tcp_connections_communicate :: "'w os \<Rightarrow> addr \<Rightarrow> timespec \<Rightarrow> 'w machine \<Rightarrow> (status \<times> 'w machine) option" where
  "tcp_connections_communicate os connections_head now s =
     objects_loop (tcp_serve_object os connections_head now) connections_head s"

definition tcp_prepare_object :: "addr \<Rightarrow> addr \<Rightarrow> 'w machine \<Rightarrow> (status \<times> 'w machine) option" where
  "tcp_prepare_object connection_head c s = do {
     ob \<leftarrow> look (snd s) c;
     if co_transport_type (object_head ob) \<noteq> TCP_TRANSPORT then Some (OK, s)
     else if object_type ob = CONNECTION_OBJECT_TYPE_CONNECTION then
       with_connection (\<lambda>k w. case tcp_connection_prepare_wait k of (st, k) \<Rightarrow> (st, k, w)) c s
     else if object_type ob = CONNECTION_OBJECT_TYPE_ACCEPTOR then
       map_option (\<lambda>(st, h). (st, fst s, h)) (acceptor_impl_prepare_wait (snd s) c connection_head)
     else Some (OK, s) }"

definition tcp_connections_prepare_wait :: "addr \<Rightarrow> 'w machine \<Rightarrow> (status \<times> 'w machine) option" where
  "tcp_connections_prepare_wait connection_head s = objects_loop (tcp_prepare_object connection_head) connection_head s"

partial_function (option) close_from :: "'w os \<Rightarrow> addr \<Rightarrow> 'w machine \<Rightarrow> 'w machine option" where
  "close_from os c s =
     (if c = 0 then Some s
      else do {
        k \<leftarrow> connection_at (snd s) c;
        let (k, w) = tcp_connection_close os k (fst s);
        let h = (snd s)(c \<mapsto> Conn k);
        n \<leftarrow> connection_next_2 h c TCP_TRANSPORT;
        close_from os n (w, h) })"

definition tcp_connections_close :: "'w os \<Rightarrow> addr \<Rightarrow> 'w machine \<Rightarrow> 'w machine option" where
  "tcp_connections_close os connections_head s = do {
     c \<leftarrow> connection_first_2 (snd s) TCP_TRANSPORT connections_head;
     close_from os c s }"


section \<open>Connecting to a service\<close>

text \<open>What the transport uses of a client: its own address, the service, the list and the connection.\<close>

record client_connect =
  cc_self :: addr
  cc_service_address :: service_addr
  cc_connections_head :: addr
  cc_client_connection :: addr

definition HTTP_REQUEST_1 :: "byte list" where "HTTP_REQUEST_1 = ascii ''GET ''"
definition HTTP_REQUEST_2 :: "byte list" where "HTTP_REQUEST_2 = ascii '' HTTP/1.1'' @ CRLF @ ascii ''Host: ''"
definition HTTP_REQUEST_3 :: "byte list" where
  "HTTP_REQUEST_3 = CRLF @ ascii ''Upgrade: websocket'' @ CRLF @ ascii ''Connection: Upgrade'' @ CRLF @
     ascii ''Sec-WebSocket-Key: ''"
definition HTTP_REQUEST_4 :: "byte list" where
  "HTTP_REQUEST_4 = CRLF @ ascii ''Sec-WebSocket-Protocol: robotraconteur.robotraconteur.com'' @ CRLF @
     ascii ''Sec-WebSocket-Version: 13'' @ CRLF @ CRLF"

text \<open>The random bytes of the key.\<close>

fun random_bytes :: "'w os \<Rightarrow> nat \<Rightarrow> 'w \<Rightarrow> byte list \<times> 'w" where
  "random_bytes os 0 w = ([], w)"
| "random_bytes os (Suc n) w =
     (case os_rand os w of (v, w) \<Rightarrow> case random_bytes os n w of (bs, w) \<Rightarrow> (word_of_nat (unat v mod 256) # bs, w))"

text \<open>
  The request. The length is computed first and compared with the buffer; the slash of an empty path is
  counted. A base64 text of another length than 24 characters is an internal error; what a failure leaves
  in the send buffer is not modelled.
\<close>

definition send_websocket_http_header :: "'w os \<Rightarrow> service_addr \<Rightarrow> connection \<Rightarrow> 'w \<Rightarrow> 'w outcome" where
  "send_websocket_http_header os adr c w =
     (let slash = (ad_http_path adr = [] \<or> hd (ad_http_path adr) = 63);
          send_len = word_of_nat (4 + length (ad_http_path adr) + 17 + length (ad_http_host adr) + 62 + 24 + 90) +
            (if slash then 1 else 0) :: u32
      in case random_bytes os 18 w of (key, w) \<Rightarrow>
        if unat send_len > cn_send_buffer_len c then (Err INVALID_PARAMETER, c, w)
        else if ad_http_host adr = [] then (Err INVALID_PARAMETER, c, w)
        else case os_base64 os key of
          None \<Rightarrow> (Err INTERNAL_ERROR, c, w)
        | Some b64 \<Rightarrow>
            (if length b64 \<noteq> WEBSOCKET_KEY_BASE64_LEN then (Err INTERNAL_ERROR, c, w)
             else let request = HTTP_REQUEST_1 @ (if slash then [47] else []) @ ad_http_path adr @ HTTP_REQUEST_2 @
                                ad_http_host adr @ HTTP_REQUEST_3 @ b64 @ HTTP_REQUEST_4
                  in if length (cn_send_buffer c) < length request then (Err UNDEFINED_BEHAVIOUR, c, w)
                     else (OK, c\<lparr>cn_send_buffer := overwrite (cn_send_buffer c) 0 request,
                            cn_send_message_len := send_len, cn_send_buffer_pos := 0\<rparr>, w)))"

definition tcp_connect_service ::
  "'w os \<Rightarrow> timespec \<Rightarrow> client_connect \<Rightarrow> 'w machine \<Rightarrow> (status \<times> client_connect \<times> 'w machine) option" where
  "tcp_connect_service os now cc s = do {
     c \<leftarrow> connection_find_idle (snd s) (cc_connections_head cc);
     if c = 0 then Some (Err CONNECTION_ERROR, cc, s)
     else do {
       let adr = cc_service_address cc;
       case tcp_socket_connect os (ad_socket_addr adr) zero_socket (fst s) of
         (Err e, sock, w) \<Rightarrow> Some (Err e, cc, w, snd s)
       | (OK, sock, w) \<Rightarrow> do {
           k \<leftarrow> connection_at (snd s) c;
           case impl_connect2 k now TCP_TRANSPORT (connect_addr.truncate adr) sock of
             (Err e, k) \<Rightarrow> Some (Err e, cc, w, (snd s)(c \<mapsto> Conn k))
           | (OK, k) \<Rightarrow>
               (let k = k\<lparr>co_ops := TCP_CONNECTION_OPS, cn_client := cc_self cc\<rparr>;
                    cc = cc\<lparr>cc_client_connection := c\<rparr>
                in if string_cmp_c_str (ad_scheme adr) (ascii ''rr+ws://'') = 0 then
                     (case send_websocket_http_header os adr
                             (set_state STATUS_FLAGS_BLOCK_SEND
                                (transport_set (STATE_IS_WEBSOCKET OR STATE_IN_HTTP_HEADER) k)) w of
                        (st, k, w) \<Rightarrow> Some (st, cc, w, (snd s)(c \<mapsto> Conn k)))
                   else if string_cmp_c_str (ad_scheme adr) (ascii ''rr+tcp://'') \<noteq> 0 \<or>
                           \<not> FLAGS_CHECK (ad_flags adr) ADDR_FLAGS_SOCKADDR_VALID
                   then Some (Err INVALID_ARGUMENT, cc, w, (snd s)(c \<mapsto> Conn k))
                   else Some (OK, cc, w, (snd s)(c \<mapsto> Conn k))) } } }"


section \<open>The tables of functions\<close>

text \<open>
  A function of a table casts its object; an object of another kind is an internal error. A function
  that fails to access memory is undefined behaviour.
\<close>

definition connection_op :: "(connection \<Rightarrow> 'w \<Rightarrow> 'w outcome) \<Rightarrow> addr \<Rightarrow> 'w machine \<Rightarrow> status \<times> 'w machine" where
  "connection_op f a s =
     (case connection_cast (snd s) a of
        None \<Rightarrow> (Err UNDEFINED_BEHAVIOUR, s)
      | Some c \<Rightarrow>
          if c = 0 then (Err INTERNAL_ERROR, s)
          else case with_connection f c s of None \<Rightarrow> (Err UNDEFINED_BEHAVIOUR, s) | Some r \<Rightarrow> r)"

definition acceptor_op ::
  "(addr \<Rightarrow> 'w machine \<Rightarrow> (status \<times> 'w machine) option) \<Rightarrow> addr \<Rightarrow> 'w machine \<Rightarrow> status \<times> 'w machine" where
  "acceptor_op f a s =
     (case connection_acceptor_cast (snd s) a of
        None \<Rightarrow> (Err UNDEFINED_BEHAVIOUR, s)
      | Some c \<Rightarrow>
          if c = 0 then (Err INTERNAL_ERROR, s)
          else case f c s of None \<Rightarrow> (Err UNDEFINED_BEHAVIOUR, s) | Some r \<Rightarrow> r)"

definition tcp_connection_object_ops :: "'w os \<Rightarrow> 'w object_ops" where
  "tcp_connection_object_ops os =
     \<lparr>op_communicate_recv = Some (\<lambda>a head now. connection_op (tcp_communicate_recv os now) a),
      op_communicate_send = Some (\<lambda>a head now. connection_op (tcp_communicate_send os now) a),
      op_communicate_process_control = Some (\<lambda>a head now. connection_op (tcp_process_control os now) a),
      op_prepare_wait = Some (\<lambda>a head now.
        connection_op (\<lambda>c w. case tcp_connection_prepare_wait c of (st, c) \<Rightarrow> (st, c, w)) a),
      op_connection_close = Some (\<lambda>a head now.
        connection_op (\<lambda>c w. case tcp_connection_close os c w of (c, w) \<Rightarrow> (OK, c, w)) a)\<rparr>"

definition tcp_acceptor_object_ops :: "'w os \<Rightarrow> 'w object_ops" where
  "tcp_acceptor_object_ops os =
     \<lparr>op_communicate_recv = None,
      op_communicate_send = None,
      op_communicate_process_control = Some (\<lambda>a head now. acceptor_op (\<lambda>c. tcp_acceptor_communicate os now c head) a),
      op_prepare_wait = Some (\<lambda>a head now.
        acceptor_op (\<lambda>c s. map_option (\<lambda>(st, h). (st, fst s, h)) (acceptor_impl_prepare_wait (snd s) c head)) a),
      op_connection_close = Some (\<lambda>a head now. acceptor_op (tcp_acceptor_close os) a)\<rparr>"

text \<open>The tables at their addresses; any other table does nothing.\<close>

definition tcp_ops :: "'w os \<Rightarrow> 'w ops_table" where
  "tcp_ops os p =
     (if p = TCP_CONNECTION_OPS then tcp_connection_object_ops os
      else if p = TCP_ACCEPTOR_OPS then tcp_acceptor_object_ops os
      else \<lparr>op_communicate_recv = None, op_communicate_send = None, op_communicate_process_control = None,
            op_prepare_wait = None, op_connection_close = None\<rparr>)"

end
