(* ===== verification/RRL_TcpSpec.thy ===== *)
theory RRL_TcpSpec
  imports RRL_TcpList RRL_ConnSpec
begin

text \<open>
  The transport keeps the contract of the connection: what it does when it receives, through a
  plain socket or through websocket frames, are steps of the connection's runs.
\<close>


section \<open>What a socket call leaves behind\<close>

text \<open>A change of the transport's own part of a connection.\<close>

definition retransport :: "connection_socket \<Rightarrow> tcp_transport_storage \<Rightarrow> connection \<Rightarrow> connection" where
  "retransport sk ts c = c\<lparr>co_sock := sk, cn_transport_storage := ts\<rparr>"

lemma retransport_simps [simp]:
  "has_state (retransport sk ts c) m = has_state c m" "cn_recv_buffer_pos (retransport sk ts c) = cn_recv_buffer_pos c"
  "cn_recv_buffer (retransport sk ts c) = cn_recv_buffer c" "cn_recv_message_len (retransport sk ts c) = cn_recv_message_len c"
  "cn_recv_buffer_len (retransport sk ts c) = cn_recv_buffer_len c" "taken (retransport sk ts c) = taken c"
  "retransport sk ts (retransport sk' ts' c) = retransport sk ts c"
  by (simp_all add: retransport_def has_state_def taken_def)

lemma retransport_self: "retransport (co_sock c) (cn_transport_storage c) c = c"
  by (simp add: retransport_def)

lemma retransport_commutes:
  "retransport sk ts (set_state m c) = set_state m (retransport sk ts c)"
  "retransport sk ts (clear_state m c) = clear_state m (retransport sk ts c)"
  "retransport sk ts (put_received d c) = put_received d (retransport sk ts c)"
  "retransport sk ts (c\<lparr>cn_recv_message_len := n\<rparr>) = (retransport sk ts c)\<lparr>cn_recv_message_len := n\<rparr>"
  "retransport sk ts (c\<lparr>cn_recv_buffer := b, cn_recv_buffer_pos := p\<rparr>) =
     (retransport sk ts c)\<lparr>cn_recv_buffer := b, cn_recv_buffer_pos := p\<rparr>"
  by (simp_all add: retransport_def set_state_def clear_state_def put_received_def)

lemma drop_consumed_retransport:
  "drop_consumed (retransport sk ts c) = (case drop_consumed c of (st, c1) \<Rightarrow> (st, retransport sk ts c1))"
proof -
  let ?b = "if cn_recv_buffer_pos c > unat (cn_recv_message_len c)
    then move_to_start (cn_recv_buffer c) (unat (cn_recv_message_len c)) (sz_sub (cn_recv_buffer_pos c) (unat (cn_recv_message_len c)))
    else Some (cn_recv_buffer c)"
  show ?thesis
    unfolding drop_consumed_def Let_def retransport_simps
    by (cases ?b) (simp_all only: option.simps prod.simps retransport_commutes)
qed

lemma recv1_retransport:
  "communicate_recv1 c now l = (st, c1, n) \<Longrightarrow>
     communicate_recv1 (retransport sk ts c) now l = (st, retransport sk ts c1, n)"
  by (cases "drop_consumed c"; cases "fst (drop_consumed c)")
     (auto simp: communicate_recv1_def drop_consumed_retransport split: if_splits)

text \<open>The loop of the socket layer: the bytes it appends to the buffer.\<close>

lemma recv_loop_bytes:
  "os_bounded os \<Longrightarrow> recv_loop os sk buf pos got len w = (st, sk', buf', pos', w') \<Longrightarrow> st \<noteq> Err UNDEFINED_BEHAVIOUR \<Longrightarrow>
    pos + got \<le> length buf \<Longrightarrow> got \<le> len \<Longrightarrow>
    \<exists>d. buf' = overwrite buf (pos + got) d \<and> pos' = pos + got + length d \<and> pos' \<le> length buf \<and> got + length d \<le> len"
proof (induction os sk buf pos got len w rule: recv_loop.induct)
  case (1 os sk buf pos got len w)
  note r = 1(3)
  show ?case
  proof (cases "got < len")
    case False
    then show ?thesis using 1 by (subst (asm) recv_loop.simps) (auto simp: overwrite_def intro!: exI [of _ "[]"])
  next
    case True
    obtain x w1 where x: "os_recv os (sk_sock sk) (len - got) w = (x, w1)" by fastforce
    show ?thesis
    proof (cases x)
      case (Received d)
      have ld: "length d \<le> len - got" using 1(2) x Received unfolding os_bounded_def by blast
      show ?thesis
      proof (cases "d = [] \<or> length buf < pos + got + length d")
        case stop: True
        then show ?thesis using r 1(4,5,6) True x Received
          by (subst (asm) recv_loop.simps) (auto simp: overwrite_def split: if_splits intro!: exI [of _ "[]"])
      next
        case False
        then have "recv_loop os sk (overwrite buf (pos + got) d) pos (got + length d) len w1 = (st, sk', buf', pos', w')"
          using r True x Received by (subst (asm) recv_loop.simps) auto
        then obtain d' where d': "buf' = overwrite (overwrite buf (pos + got) d) (pos + (got + length d)) d'"
          "pos' = pos + (got + length d) + length d'" "pos' \<le> length buf" "got + length d + length d' \<le> len"
          using 1(1) [OF True x [symmetric] Received] False ld True 1(2,4) by fastforce
        have "buf' = overwrite buf (pos + got) (d @ d')"
          using d' False by (simp add: overwrite_def ac_simps)
        then show ?thesis using d' by (intro exI [of _ "d @ d'"]) auto
      qed
    qed (use r 1(4,5,6) True x in \<open>(subst (asm) recv_loop.simps, auto simp: overwrite_def intro!: exI [of _ "[]"])\<close>)+
  qed
qed

lemma recv_into_buffer_form:
  assumes "os_bounded os" and "recv_into_buffer os n c w = (st, c', w')" and "st \<noteq> Err UNDEFINED_BEHAVIOUR"
    and "cn_recv_buffer_pos c \<le> length (cn_recv_buffer c)"
  shows "\<exists>d sk. length d \<le> n \<and> cn_recv_buffer_pos c + length d \<le> length (cn_recv_buffer c) \<and>
    c' = (put_received d c)\<lparr>co_sock := sk\<rparr>"
proof -
  obtain sk buf pos where r: "recv_loop os (sock_unflag SOCKET_FLAGS_RECEIVE_WOULD_BLOCK (co_sock c)) (cn_recv_buffer c)
      (cn_recv_buffer_pos c) 0 n w = (st, sk, buf, pos, w')"
    and c': "c' = c\<lparr>co_sock := sk, cn_recv_buffer := buf, cn_recv_buffer_pos := pos\<rparr>"
    using assms(2) by (auto simp: recv_into_buffer_def tcp_socket_recv_nonblocking_def split: prod.splits)
  obtain d where d: "buf = overwrite (cn_recv_buffer c) (cn_recv_buffer_pos c) d" "pos = cn_recv_buffer_pos c + length d"
    "pos \<le> length (cn_recv_buffer c)" "length d \<le> n"
    using recv_loop_bytes [OF assms(1) r assms(3)] assms(4) by auto
  then show ?thesis by (intro exI [of _ d] exI [of _ sk]) (simp add: c' put_received_def)
qed

text \<open>Unmasking the bytes that were just received.\<close>

lemma length_mask_bytes [simp]: "length (mask_bytes key i bs) = length bs"
  by (induction bs arbitrary: i) auto

text \<open>What the transport adds to the connection when it receives.\<close>

definition receives :: "size_t \<Rightarrow> status \<Rightarrow> connection \<Rightarrow> connection \<Rightarrow> bool" where
  "receives n st c c' \<longleftrightarrow> (\<exists>d sk ts. length d \<le> n \<and> cn_recv_buffer_pos c + length d \<le> length (cn_recv_buffer c) \<and>
     (c' = retransport sk ts (put_received d c) \<or> st \<noteq> OK \<and> c' = set_state STATUS_FLAGS_ERROR (retransport sk ts (put_received d c))))"

lemma put_nothing [simp]: "put_received [] c = c"
  by (simp add: put_received_def overwrite_def)

lemma receives_nothing: "cn_recv_buffer_pos c \<le> length (cn_recv_buffer c) \<Longrightarrow> receives n st c (retransport sk ts c)"
  unfolding receives_def by (intro exI [of _ "[]"] exI [of _ sk] exI [of _ ts]) simp

lemma receives_error:
  "cn_recv_buffer_pos c \<le> length (cn_recv_buffer c) \<Longrightarrow> receives n (Err e) c (set_state STATUS_FLAGS_ERROR (retransport sk ts c))"
  unfolding receives_def by (intro exI [of _ "[]"] exI [of _ sk] exI [of _ ts]) simp

lemma receives_retransport: "receives n st (retransport sk ts c) c' \<Longrightarrow> receives n st c c'"
  by (fastforce simp: receives_def retransport_commutes [symmetric])

lemma in_storage_retransport:
  "in_storage f c = retransport (co_sock c) (f (cn_transport_storage c)) c"
  "c\<lparr>co_sock := sk\<rparr> = retransport sk (cn_transport_storage c) c"
  by (simp_all add: in_storage_def retransport_def)

lemma retransport_storage [simp]:
  "cn_transport_storage (retransport sk ts c) = ts" "co_sock (retransport sk ts c) = sk"
  by (simp_all add: retransport_def)

lemmas storage_simps = transport_set_def transport_clear_def in_storage_retransport

lemma recv_payload_form:
  assumes "os_bounded os" and "recv_payload os n c w = (st, c', w')" and "st \<noteq> Err UNDEFINED_BEHAVIOUR"
    and "cn_recv_buffer_pos c \<le> length (cn_recv_buffer c)"
  shows "receives n st c c'"
proof -
  let ?s = "cn_transport_storage c"
  define m where "m = (let l = sz_add (ts_recv_websocket_frame_len ?s) (sz_sub (cn_recv_buffer_pos c) (ts_recv_websocket_frame_pos ?s))
    in if l > n then n else l)"
  obtain st1 c1 w1 where r: "recv_into_buffer os m c w = (st1, c1, w1)" by (metis surj_pair)
  have st1: "st1 = st" using assms(2) r by (auto simp: recv_payload_def m_def Let_def split: status.splits)
  obtain d sk where d: "length d \<le> m" "cn_recv_buffer_pos c + length d \<le> length (cn_recv_buffer c)"
    "c1 = (put_received d c)\<lparr>co_sock := sk\<rparr>"
    using recv_into_buffer_form [OF assms(1) r _ assms(4)] assms(3) st1 by blast
  have mn: "m \<le> n" by (simp add: m_def Let_def)
  show ?thesis
  proof (cases st)
    case OK
    let ?d = "mask_bytes (ts_recv_websocket_mask ?s) (ts_recv_websocket_frame_pos ?s) d"
    have "c1\<lparr>cn_recv_buffer := overwrite (cn_recv_buffer c1) (cn_recv_buffer_pos c)
        (mask_bytes (ts_recv_websocket_mask ?s) (ts_recv_websocket_frame_pos ?s)
           (chunk (cn_recv_buffer c1) (cn_recv_buffer_pos c) (cn_recv_buffer_pos c1 - cn_recv_buffer_pos c)))\<rparr> =
      (put_received ?d c)\<lparr>co_sock := sk\<rparr>"
      using d(2) by (simp add: d(3) put_received_def overwrite_def chunk_def)
    then have "\<exists>f. c' = in_storage f ((put_received ?d c)\<lparr>co_sock := sk\<rparr>)"
      using assms(2) r OK st1 by (auto simp: recv_payload_def m_def Let_def split: status.splits)
    then obtain f where "c' = in_storage f ((put_received ?d c)\<lparr>co_sock := sk\<rparr>)" by blast
    then show ?thesis
      unfolding receives_def in_storage_retransport using d(1,2) mn
      by (intro exI [of _ ?d] exI) (auto simp: in_storage_retransport)
  next
    case (Err e)
    then have "c' = set_state STATUS_FLAGS_ERROR c1"
      using assms(2) r st1 by (auto simp: recv_payload_def m_def Let_def split: status.splits)
    then show ?thesis
      unfolding receives_def using d mn Err by (intro exI [of _ d] exI) (auto simp: in_storage_retransport)
  qed
qed

lemma recv_frame_header_form:
  assumes "recv_frame_header os n c w = (st, c', w')"
  shows "\<exists>sk ts. c' = retransport sk ts c \<or> st \<noteq> OK \<and> c' = set_state STATUS_FLAGS_ERROR (retransport sk ts c)"
  using assms
  by (auto simp: recv_frame_header_def error_if_failed_def in_storage_retransport Let_def split: if_splits prod.splits)
     (metis retransport_self)+

lemma storage_form:
  "\<exists>sk ts. next_frame c = retransport sk ts c" "\<exists>sk ts. begin_frame n c = retransport sk ts c"
  by (auto simp: next_frame_def begin_frame_def Let_def storage_simps) (metis retransport_self)+

lemma buffer_recv_websocket_form:
  assumes "os_bounded os" and "buffer_recv_websocket os n c w = (st, c', w')" and "st \<noteq> Err UNDEFINED_BEHAVIOUR"
    and "cn_recv_buffer_pos c \<le> length (cn_recv_buffer c)"
  shows "receives n st c c'"
proof -
  obtain sk1 ts1 where c1: "next_frame c = retransport sk1 ts1 c" using storage_form(1) by blast
  let ?c1 = "retransport sk1 ts1 c"
  have fit: "cn_recv_buffer_pos (retransport sk ts c) \<le> length (cn_recv_buffer (retransport sk ts c))" for sk ts
    using assms(4) by simp
  show ?thesis
  proof (cases "transport_has ?c1 STATE_RECV_WEBSOCKET_IN_FRAME")
    case True
    then have "recv_payload os n ?c1 w = (st, c', w')" using assms(2) by (simp add: buffer_recv_websocket_def c1)
    from receives_retransport [OF recv_payload_form [OF assms(1) this assms(3) fit]] show ?thesis .
  next
    case False
    obtain st2 c2 w2 where h: "recv_frame_header os 2 ?c1 w = (st2, c2, w2)" by (metis surj_pair)
    obtain sk2 ts2 where c2: "c2 = retransport sk2 ts2 c \<or> st2 \<noteq> OK \<and> c2 = set_state STATUS_FLAGS_ERROR (retransport sk2 ts2 c)"
      using recv_frame_header_form [OF h] by auto
    show ?thesis
    proof (cases st2)
      case (Err e)
      then have "c' = c2" "st = Err e" using assms(2) False h by (simp_all add: buffer_recv_websocket_def c1)
      then show ?thesis using c2 receives_nothing [OF assms(4)] receives_error [OF assms(4)] by auto
    next
      case OK
      then have c2: "c2 = retransport sk2 ts2 c" using c2 by simp
      let ?c2 = "retransport sk2 ts2 c"
      let ?m = "recv_websocket_header_size (ts_recv_websocket_header_buffer (cn_transport_storage ?c2) ! 1)"
      show ?thesis
      proof (cases "ts_recv_websocket_header_pos (cn_transport_storage ?c2) < 2")
        case True
        then have "c' = c2" using assms(2) False h OK c2 by (simp add: buffer_recv_websocket_def c1)
        then show ?thesis using c2 receives_nothing [OF assms(4)] by auto
      next
        case long: False
        obtain st3 c3 w3 where h3: "recv_frame_header os ?m ?c2 w2 = (st3, c3, w3)" by (metis surj_pair)
        obtain sk3 ts3 where c3: "c3 = retransport sk3 ts3 c \<or> st3 \<noteq> OK \<and> c3 = set_state STATUS_FLAGS_ERROR (retransport sk3 ts3 c)"
          using recv_frame_header_form [OF h3] by auto
        show ?thesis
        proof (cases st3)
          case (Err e)
          then have "c' = c3" "st = Err e"
            using assms(2) False h OK c2 long h3 by (simp_all add: buffer_recv_websocket_def c1 Let_def)
          then show ?thesis using c3 receives_nothing [OF assms(4)] receives_error [OF assms(4)] by auto
        next
          case OK3: OK
          then have c3: "c3 = retransport sk3 ts3 c" using c3 by simp
          obtain sk4 ts4 where c4: "begin_frame ?m (retransport sk3 ts3 c) = retransport sk4 ts4 c"
            using storage_form(2) [of ?m "retransport sk3 ts3 c"] by auto
          have "c' = c3 \<or> recv_payload os n (retransport sk4 ts4 c) w3 = (st, c', w')"
            using assms(2) False h OK c2 long h3 OK3 c3 c4
            by (auto simp: buffer_recv_websocket_def c1 Let_def split: if_splits)
          then show ?thesis
            using c3 receives_nothing [OF assms(4)] receives_retransport recv_payload_form [OF assms(1) _ assms(3) fit] by blast
        qed
      qed
    qed
  qed
qed

lemma tcp_buffer_recv_form:
  assumes "os_bounded os" and "tcp_buffer_recv os n c w = (st, c', w')" and "st \<noteq> Err UNDEFINED_BEHAVIOUR"
    and "cn_recv_buffer_pos c \<le> length (cn_recv_buffer c)"
  shows "receives n st c c'"
proof (cases "transport_has c STATE_IS_WEBSOCKET")
  case True
  then show ?thesis using buffer_recv_websocket_form [OF assms(1) _ assms(3,4)] assms(2) by (simp add: tcp_buffer_recv_def)
next
  case False
  then have "recv_into_buffer os n c w = (st, c', w')" using assms(2) by (simp add: tcp_buffer_recv_def)
  from recv_into_buffer_form [OF assms(1) this assms(3,4)] show ?thesis
    unfolding receives_def by (auto simp: in_storage_retransport)
qed

lemma error_twice: "preamble_error (set_state STATUS_FLAGS_ERROR c) = preamble_error c"
  by (simp add: preamble_error_def set_state_def FLAGS_SET_def)

text \<open>
  C23. Receiving over TCP keeps to the steps of a connection: whatever the operating system delivers, and
  whether the connection is a plain socket or a websocket, one call of the transport's receive operation is
  a run of the connection in the sense above, unless it writes behind a buffer. So its messages are cut
  from the delivered stream as the framing theorem says.
\<close>

theorem tcp_receive_refines:
  assumes "os_bounded os" and "ready c" and "run_step\<^sup>*\<^sup>* (run_start c) s"
    and "tcp_communicate_recv os now (rn_conn s) w = (st, c', w')" and "st \<noteq> Err UNDEFINED_BEHAVIOUR"
  shows "\<exists>s'. run_step\<^sup>*\<^sup>* s s' \<and> rn_conn s' = c' \<and> frames (rn_stream s') (rn_delivered s') (pending c')"
proof -
  let ?c = "rn_conn s"
  have inv: "run_inv s" by (rule run_inv_reachable [OF assms(3,2)])
  obtain st1 c1 n where r1: "communicate_recv1 ?c now 0 = (st1, c1, n)" by (metis surj_pair)
  have "\<exists>s'. run_step\<^sup>*\<^sup>* s s' \<and> rn_conn s' = c'"
  proof (cases st1)
    case (Err e)
    then have "c' = c1" using assms(4) r1 by (simp add: tcp_communicate_recv_def)
    moreover have "c1 = ?c"
    proof (cases "has_state ?c STATUS_FLAGS_ERROR")
      case True
      then show ?thesis using r1 by (simp add: communicate_recv1_def)
    next
      case False
      have i: "recv_inv ?c" using inv by (simp add: run_inv_def)
      have False
        using r1 Err False drop_consumed_inv [OF i] by (auto simp: communicate_recv1_def split: if_splits)
      then show ?thesis ..
    qed
    ultimately show ?thesis by blast
  next
    case OK
    show ?thesis
    proof (cases "n = 0")
      case True
      then have "c' = c1" using assms(4) r1 by (simp add: tcp_communicate_recv_def)
      moreover have "run_step s (s\<lparr>rn_conn := c1, rn_delivered := rn_delivered s @ taken (rn_conn s)\<rparr>)"
        by (rule run_step.receive_nothing [of s now 0]) (use r1 OK True in simp)
      ultimately show ?thesis
        by (intro exI [of _ "s\<lparr>rn_conn := c1, rn_delivered := rn_delivered s @ taken (rn_conn s)\<rparr>"])
           (simp add: r_into_rtranclp)
    next
      case False
      obtain st2 c2 w2 where b: "tcp_buffer_recv os n c1 w = (st2, c2, w2)" by (metis surj_pair)
      have r2: "communicate_recv2 c2 now st2 = (st, c')"
        using assms(4) r1 OK False b by (simp add: tcp_communicate_recv_def split: prod.splits)
      have st2: "st2 \<noteq> Err UNDEFINED_BEHAVIOUR" using r2 assms(5) by (auto simp: communicate_recv2_def)
      have i: "recv_inv ?c" "frames (rn_stream s) (rn_delivered s) (pending ?c)" using inv by (simp_all add: run_inv_def)
      have i1: "recv_inv c1" by (rule recv1_inv(1) [OF i(1) r1 [unfolded OK] i(2)])
      then have pos: "cn_recv_buffer_pos c1 \<le> length (cn_recv_buffer c1)" "length (cn_recv_buffer c1) = cn_recv_buffer_len c1"
        by (auto simp: recv_inv_def)
      obtain d sk ts where d: "length d \<le> n" "cn_recv_buffer_pos c1 + length d \<le> cn_recv_buffer_len c1"
        "c2 = retransport sk ts (put_received d c1) \<or> st2 \<noteq> OK \<and> c2 = set_state STATUS_FLAGS_ERROR (retransport sk ts (put_received d c1))"
        using tcp_buffer_recv_form [OF assms(1) b st2 pos(1)] pos(2) by (auto simp: receives_def)
      let ?s1 = "s\<lparr>rn_conn := retransport sk ts ?c\<rparr>"
      have s1: "run_step s ?s1" unfolding retransport_def by (rule run_step.transport)
      have r1': "communicate_recv1 (rn_conn ?s1) now 0 = (OK, retransport sk ts c1, n)"
        using recv1_retransport [OF r1] OK by simp
      have fit: "cn_recv_buffer_pos (retransport sk ts c1) + length d \<le> cn_recv_buffer_len (retransport sk ts c1)" using d(2) by simp
      have "\<exists>s2. run_step ?s1 s2 \<and> rn_conn s2 = c'"
      proof (cases st2)
        case OK
        then have "communicate_recv2 (put_received d (retransport sk ts c1)) now OK = (st, c')"
          using d(3) r2 by (simp add: retransport_commutes)
        from run_step.receive [OF r1' _ d(1) fit this] False show ?thesis by fastforce
      next
        case (Err e)
        then have "communicate_recv2 (put_received d (retransport sk ts c1)) now (Err e) = (st, c')"
          using d(3) r2 by (auto simp: retransport_commutes communicate_recv2_def error_twice)
        from run_step.receive_fails [OF r1' _ fit this] False show ?thesis by fastforce
      qed
      then obtain s2 where "run_step ?s1 s2" "rn_conn s2 = c'" by blast
      with s1 show ?thesis
        by (intro exI [of _ s2] conjI) (auto intro: converse_rtranclp_into_rtranclp)
    qed
  qed
  then obtain s' where s': "run_step\<^sup>*\<^sup>* s s'" "rn_conn s' = c'" by blast
  have "run_inv s'" by (rule run_inv_reachable [OF rtranclp_trans [OF assms(3) s'(1)] assms(2)])
  then show ?thesis using s' by (auto simp: run_inv_def)
qed

text \<open>
  A concrete operating system: the world is the bytes that wait in the socket and the bytes that have been
  sent on it.
\<close>

definition pipe_os :: "(byte list \<times> byte list) os" where
  "pipe_os =
     \<lparr>os_recv = (\<lambda>s n (i, out). if i = [] then (RecvWouldBlock, (i, out)) else (Received (take n i), (drop n i, out))),
      os_send = (\<lambda>s d (i, out). (Sent (length d), (i, out @ d))),
      os_close = (\<lambda>s w. w), os_accept = (\<lambda>s w. (AcceptWouldBlock, w)), os_socket = (\<lambda>w. (3, w)),
      os_get_flags = (\<lambda>s w. (0, w)), os_set_flags = (\<lambda>s f w. (0, w)), os_set_nodelay = (\<lambda>s w. (0, w)),
      os_nonblock = 0x800, os_bind = (\<lambda>s a w. (0, w)), os_listen = (\<lambda>s n w. (0, w)),
      os_connect = (\<lambda>s a w. (Connected, w)), os_poll_connected = (\<lambda>s w. (PollNothing, w)),
      os_rand = (\<lambda>w. (0x01020304, w)), os_sha1 = (\<lambda>d. Some (replicate 20 0)), os_base64 = (\<lambda>d. Some (replicate 28 0x41))\<rparr>"

lemma pipe_os_bounded: "os_bounded pipe_os"
  by (auto simp: os_bounded_def pipe_os_def split: if_splits)

lemma pipe_recv:
  assumes "pos + length i \<le> length buf" and "length i < n" and "i \<noteq> []"
  shows "tcp_socket_recv_nonblocking pipe_os sk buf pos n (i, out) =
    (OK, sock_flag SOCKET_FLAGS_RECEIVE_WOULD_BLOCK (sock_unflag SOCKET_FLAGS_RECEIVE_WOULD_BLOCK sk),
     overwrite buf pos i, pos + length i, ([], out))"
  using assms by (simp add: tcp_socket_recv_nonblocking_def recv_loop.simps pipe_os_def)

lemma recv2_status:
  "communicate_recv2 c now OK = (st, c') \<Longrightarrow>
    st \<noteq> Err UNDEFINED_BEHAVIOUR \<and> cn_recv_buffer_pos c' = cn_recv_buffer_pos c"
  by (auto simp: communicate_recv2_def connection_verify_preamble_def preamble_error_def set_state_def clear_state_def
      Let_def split: status.splits if_splits prod.splits option.splits)

lemma tcp_receive_refines_witness:
  "\<exists>st c' w' s'. tcp_communicate_recv pipe_os 5 sample_connection (sample_bytes, []) = (st, c', w') \<and>
     cn_recv_buffer_pos c' = 14 \<and> run_step\<^sup>*\<^sup>* (run_start sample_connection) s' \<and> rn_conn s' = c' \<and>
     frames (rn_stream s') (rn_delivered s') (pending c')"
proof -
  let ?r = "tcp_communicate_recv pipe_os 5 sample_connection (sample_bytes, [])"
  have f: "cn_recv_buffer_pos sample_connection = 0" "length (cn_recv_buffer sample_connection) = 64" "length sample_bytes = 14"
    by (simp_all add: sample_bytes_def sample_connection_def)
  have plain: "\<not> transport_has sample_connection STATE_IS_WEBSOCKET"
    by (simp add: sample_connection_def transport_has_def zero_transport_storage_def FLAGS_CHECK_def transport_state_defs)
  obtain sk buf w where p: "tcp_socket_recv_nonblocking pipe_os (co_sock sample_connection) (cn_recv_buffer sample_connection)
      0 64 (sample_bytes, []) = (OK, sk, buf, 14, w)"
    using pipe_recv [of 0 sample_bytes "cn_recv_buffer sample_connection" 64] f by fastforce
  let ?c = "sample_connection\<lparr>co_sock := sk, cn_recv_buffer := buf, cn_recv_buffer_pos := 14\<rparr>"
  obtain st1 c1 where r2: "communicate_recv2 ?c 5 OK = (st1, c1)" by (metis surj_pair)
  have ok: "fst ?r \<noteq> Err UNDEFINED_BEHAVIOUR" "cn_recv_buffer_pos (fst (snd ?r)) = 14"
    using recv2_status [OF r2]
    by (simp_all add: tcp_communicate_recv_def sample_recv1 tcp_buffer_recv_def plain recv_into_buffer_def f p r2)
  obtain st c' w' where r: "?r = (st, c', w')" by (metis surj_pair)
  have "\<exists>s'. run_step\<^sup>*\<^sup>* (run_start sample_connection) s' \<and> rn_conn s' = c' \<and>
      frames (rn_stream s') (rn_delivered s') (pending c')"
    by (rule tcp_receive_refines [OF pipe_os_bounded sample_ready rtranclp.rtrancl_refl])
       (use r ok in \<open>simp_all add: run_start_def\<close>)
  then show ?thesis using r ok by auto
qed

end
