(* ===== verification/RRL_WebFrame.thy ===== *)
theory RRL_WebFrame
  imports RRL_TcpSpec
begin

text \<open>
  The bytes of a websocket frame, and what an operating system promises of a socket: the contract of a
  pipe, by which the two ends of the transport are proved once.
\<close>


section \<open>Frames\<close>

text \<open>
  A frame: a final binary frame with a length of one byte or of two, the masking key of a client, and the
  payload, masked when there is a key.
\<close>

definition frame_header :: "byte list option \<Rightarrow> nat \<Rightarrow> byte list" where
  "frame_header key n =
     0x82 # ((if key = None then 0 else 0x80) OR (if n > 125 then 126 else word_of_nat n)) #
       (if n > 125 then u16_bytes (htons (word_of_nat n)) else []) @ (case key of None \<Rightarrow> [] | Some k \<Rightarrow> k)"

definition frame_payload :: "byte list option \<Rightarrow> byte list \<Rightarrow> byte list" where
  "frame_payload key m = (case key of None \<Rightarrow> m | Some k \<Rightarrow> mask_bytes k 0 m)"

definition frame :: "byte list option \<Rightarrow> byte list \<Rightarrow> byte list" where
  "frame key m = frame_header key (length m) @ frame_payload key m"

definition key_ok :: "byte list option \<Rightarrow> bool" where
  "key_ok key = (case key of None \<Rightarrow> True | Some k \<Rightarrow> length k = 4)"

text \<open>The mask that undoes the masking.\<close>

definition key_mask :: "byte list option \<Rightarrow> byte list" where
  "key_mask key = (case key of None \<Rightarrow> replicate 4 0 | Some k \<Rightarrow> k)"

lemma mask_append: "mask_bytes k i (xs @ ys) = mask_bytes k i xs @ mask_bytes k (i + length xs) ys"
  by (induction xs arbitrary: i) auto

lemma mask_twice: "mask_bytes k i (mask_bytes k i xs) = xs"
  by (induction xs arbitrary: i) (auto simp: xor.assoc)

lemma mask_zero: "mask_bytes (replicate 4 0) i xs = xs"
  by (induction xs arbitrary: i) auto

lemma mask_drop: "mask_bytes k i (drop j xs) = drop j (mask_bytes k (i - j) xs)" if "j \<le> i"
  using that
proof (induction j arbitrary: i xs)
  case 0
  then show ?case by simp
next
  case (Suc j)
  show ?case
  proof (cases xs)
    case (Cons x ys)
    have "Suc (i - Suc j) = i - j" using Suc.prems by simp
    then show ?thesis using Suc.IH [of i ys] Suc.prems Cons by simp
  qed simp
qed

lemma mask_take: "mask_bytes k i (take j xs) = take j (mask_bytes k i xs)"
  by (induction xs arbitrary: i j) (auto simp: take_Cons' )

lemma length_frame_payload [simp]: "length (frame_payload key m) = length m"
  by (simp add: frame_payload_def split: option.split)

text \<open>Bytes of the payload from place \<open>p\<close> on, unmasked.\<close>

lemma unmask_payload:
  "mask_bytes (key_mask key) p (take j (drop p (frame_payload key m))) = take j (drop p m)"
proof (cases key)
  case None
  then show ?thesis by (simp add: key_mask_def frame_payload_def mask_zero)
next
  case (Some k)
  have "mask_bytes k p (drop p (mask_bytes k 0 m)) = drop p m"
    using mask_drop [of p p k "mask_bytes k 0 m"] by (simp add: mask_twice)
  then show ?thesis by (simp add: Some key_mask_def frame_payload_def mask_take)
qed


section \<open>The length in a header\<close>

lemma length_frame_header:
  "key_ok key \<Longrightarrow> length (frame_header key n) = 2 + (if n > 125 then 2 else 0) + (case key of None \<Rightarrow> 0 | Some k \<Rightarrow> 4)"
  by (auto simp: frame_header_def key_ok_def split: option.splits)

lemma length_bits:
  fixes x :: u8 assumes "unat x < 128"
  shows "(0x80 OR x) AND 0x7F = x" "(0x80 OR x) AND 0x80 = 0x80" "x AND 0x7F = x" "x AND 0x80 = 0"
proof -
  have "take_bit 7 x = x"
    using assms by (simp add: word_unat_eq_iff unsigned_take_bit_eq take_bit_nat_eq_self)
  then have b: "bit x i \<Longrightarrow> i < 7" for i by (metis bit_take_bit_iff)
  have "(0x80 :: int) = push_bit 7 1" by simp
  then have h: "bit (0x80 :: int) i \<longleftrightarrow> i = 7" for i by (simp only: bit_push_bit_iff bit_1_iff) auto
  have m: "(0x7F :: u8) = mask 7" by (simp add: mask_eq_exp_minus_1)
  show "(0x80 OR x) AND 0x7F = x" "(0x80 OR x) AND 0x80 = 0x80" "x AND 0x7F = x" "x AND 0x80 = 0"
    unfolding m by (auto intro!: bit_eqI dest: b simp: bit_and_iff bit_or_iff bit_mask_iff h)
qed

definition length_code :: "nat \<Rightarrow> u8" where
  "length_code n = (if n > 125 then 126 else word_of_nat n)"

lemma unat_length_code: "unat (length_code n) = (if n > 125 then 126 else n)"
  by (simp add: length_code_def unat_of_nat take_bit_nat_eq_self)

lemma length_code_cases: "length_code n \<noteq> 127" "length_code n = 126 \<longleftrightarrow> n > 125"
  by (simp_all add: word_unat_eq_iff unat_length_code)

lemma header_byte_two:
  "(frame_header key n ! Suc 0) AND 0x7F = length_code n" "((frame_header key n ! Suc 0) AND 0x80 = 0) = (key = None)"
proof -
  have lt: "unat (length_code n) < 128" by (simp add: unat_length_code)
  have b: "frame_header key n ! Suc 0 = (if key = None then length_code n else 0x80 OR length_code n)"
    by (simp add: length_code_def frame_header_def)
  show "(frame_header key n ! Suc 0) AND 0x7F = length_code n" "((frame_header key n ! Suc 0) AND 0x80 = 0) = (key = None)"
    using length_bits [OF lt] by (simp_all add: b)
qed

lemma header_size:
  assumes "key_ok key"
  shows "recv_websocket_header_size (frame_header key n ! Suc 0) = length (frame_header key n)"
  using assms by (cases key)
    (simp_all add: recv_websocket_header_size_def length_frame_header header_byte_two length_code_cases Let_def)


section \<open>A pipe\<close>

text \<open>
  What the manual pages promise of a connected socket, with what has been sent so far and what is still to
  arrive as functions of the world: a send takes a first part of the bytes, a receive yields the next
  bytes, and nothing else touches the two.
\<close>

locale byte_pipe =
  fixes os :: "'w os" and sent :: "'w \<Rightarrow> byte list" and waiting :: "'w \<Rightarrow> byte list"
  assumes send_part: "os_send os s d w = (Sent k, w') \<Longrightarrow> k \<le> length d \<and> sent w' = sent w @ take k d \<and> waiting w' = waiting w"
    and send_none: "os_send os s d w = (SendWouldBlock, w') \<Longrightarrow> sent w' = sent w \<and> waiting w' = waiting w"
    and recv_part: "os_recv os s n w = (Received d, w') \<Longrightarrow> length d \<le> n \<and> waiting w = d @ waiting w' \<and> sent w' = sent w"
    and recv_none: "os_recv os s n w = (RecvWouldBlock, w') \<Longrightarrow> waiting w' = waiting w \<and> sent w' = sent w"
    and recv_failed: "os_recv os s n w = (RecvFailed, w') \<Longrightarrow> waiting w' = waiting w \<and> sent w' = sent w"
    and rand_apart: "os_rand os w = (v, w') \<Longrightarrow> sent w' = sent w \<and> waiting w' = waiting w"
begin

lemma recv_loop_pipe:
  "recv_loop os sk buf pos got len w = (st, sk', buf', pos', w') \<Longrightarrow> pos + got + length (waiting w) \<le> length buf \<or> pos + len \<le> length buf \<Longrightarrow>
    got \<le> len \<Longrightarrow>
    \<exists>d. waiting w = d @ waiting w' \<and> buf' = overwrite buf (pos + got) d \<and> pos' = pos + got + length d \<and> got + length d \<le> len \<and>
      st \<noteq> Err UNDEFINED_BEHAVIOUR"
proof (induction "len - got" arbitrary: sk buf got w rule: less_induct)
  case less
  note r = less.prems(1)
  show ?case
  proof (cases "got < len")
    case False
    then show ?thesis using r less.prems(3) by (subst (asm) recv_loop.simps) auto
  next
    case True
    obtain x w1 where x: "os_recv os (sk_sock sk) (len - got) w = (x, w1)" by fastforce
    show ?thesis
    proof (cases x)
      case (Received d)
      have d: "length d \<le> len - got" "waiting w = d @ waiting w1" using recv_part x Received by auto
      have fit: "pos + got + length d \<le> length buf" using less.prems(2) d True by auto
      show ?thesis
      proof (cases "d = []")
        case stop: True
        then show ?thesis using r less.prems(3) True x Received d
          by (subst (asm) recv_loop.simps) (auto split: if_splits)
      next
        case False
        then have "0 < length d" by simp
        then have lt: "len - (got + length d) < len - got" using True by linarith
        have l: "recv_loop os sk (overwrite buf (pos + got) d) pos (got + length d) len w1 = (st, sk', buf', pos', w')"
          using r True x Received False fit by (subst (asm) recv_loop.simps) auto
        have "\<exists>d'. waiting w1 = d' @ waiting w' \<and> buf' = overwrite (overwrite buf (pos + got) d) (pos + (got + length d)) d' \<and>
            pos' = pos + (got + length d) + length d' \<and> got + length d + length d' \<le> len \<and> st \<noteq> Err UNDEFINED_BEHAVIOUR"
          by (rule less.hyps [OF lt l]) (use True d fit less.prems(2) in auto)
        then obtain d' where d': "waiting w1 = d' @ waiting w'" "pos' = pos + (got + length d) + length d'"
          "buf' = overwrite (overwrite buf (pos + got) d) (pos + (got + length d)) d'"
          "got + length d + length d' \<le> len" "st \<noteq> Err UNDEFINED_BEHAVIOUR" by blast
        have "pos + got + length d + length d' \<le> length buf" using less.prems(2) d d' by auto
        then have "buf' = overwrite buf (pos + got) (d @ d')"
          using d' overwrite_overwrite_adjacent [of "pos + got" d d' buf] by (simp add: add.assoc)
        then show ?thesis using d d' by (intro exI [of _ "d @ d'"]) auto
      qed
    next
      case RecvWouldBlock
      then show ?thesis using r less.prems(3) True x recv_none by (subst (asm) recv_loop.simps) (auto split: if_splits)
    next
      case RecvFailed
      then show ?thesis using r less.prems(3) True x recv_failed by (subst (asm) recv_loop.simps) (auto split: if_splits)
    qed
  qed
qed

lemma recv_pipe:
  assumes "tcp_socket_recv_nonblocking os sk buf pos len w = (st, sk', buf', pos', w')"
    and "pos + length (waiting w) \<le> length buf \<or> pos + len \<le> length buf"
  shows "\<exists>d. waiting w = d @ waiting w' \<and> buf' = overwrite buf pos d \<and> pos' = pos + length d \<and> length d \<le> len \<and> st \<noteq> Err UNDEFINED_BEHAVIOUR"
  using recv_loop_pipe [OF assms(1) [unfolded tcp_socket_recv_nonblocking_def]] assms(2) by simp

lemma send_loop_pipe:
  "send_loop os sk buf pos got len w = (st, sk', pos', w') \<Longrightarrow> pos + len \<le> length buf \<Longrightarrow> got \<le> len \<Longrightarrow> st = OK \<Longrightarrow>
    pos + got \<le> pos' \<and> pos' \<le> pos + len \<and> sent w' = sent w @ chunk buf (pos + got) (pos' - (pos + got))"
proof (induction "len - got" arbitrary: sk got w rule: less_induct)
  case less
  note r = less.prems(1)
  show ?case
  proof (cases "got < len")
    case False
    then show ?thesis using r less.prems(3) by (subst (asm) send_loop.simps) auto
  next
    case True
    let ?d = "chunk buf (pos + got) (len - got)"
    obtain x w1 where x: "os_send os (sk_sock sk) ?d w = (x, w1)" by fastforce
    show ?thesis
    proof (cases x)
      case (Sent k)
      have ld: "length ?d = len - got" using less.prems(2) True by (intro length_chunk) simp
      have k: "k \<le> len - got" "sent w1 = sent w @ take k ?d" using send_part [of "sk_sock sk" ?d w k w1] x Sent by (simp_all add: ld)
      show ?thesis
      proof (cases "k = 0")
        case stop: True
        then show ?thesis using r less.prems True x Sent k
          by (subst (asm) send_loop.simps) (auto split: if_splits)
      next
        case False
        have l: "send_loop os sk buf pos (got + k) len w1 = (st, sk', pos', w')"
          using r True x Sent False less.prems(2) by (subst (asm) send_loop.simps) auto
        have "pos + (got + k) \<le> pos' \<and> pos' \<le> pos + len \<and> sent w' = sent w1 @ chunk buf (pos + (got + k)) (pos' - (pos + (got + k)))"
          by (rule less.hyps [OF _ l]) (use True False k less.prems in auto)
        moreover from this have e: "pos' - (pos + got) = k + (pos' - (pos + (got + k)))" by arith
        have "take k ?d = chunk buf (pos + got) k" using k(1) by (simp add: chunk_def min_def)
        then have "chunk buf (pos + got) (pos' - (pos + got)) = take k ?d @ chunk buf (pos + (got + k)) (pos' - (pos + (got + k)))"
          unfolding e chunk_add by (simp add: add.assoc)
        ultimately show ?thesis using k by auto
      qed
    next
      case SendWouldBlock
      then show ?thesis using r less.prems True x send_none by (subst (asm) send_loop.simps) (auto split: if_splits)
    next
      case SendFailed
      then show ?thesis using r less.prems True x by (subst (asm) send_loop.simps) (auto split: if_splits)
    qed
  qed
qed

lemma send_pipe:
  assumes "tcp_socket_send_nonblocking os sk buf pos len w = (OK, sk', pos', w')" and "pos + len \<le> length buf"
  shows "pos \<le> pos' \<and> pos' \<le> pos + len \<and> sent w' = sent w @ chunk buf pos (pos' - pos)"
  using send_loop_pipe [OF assms(1) [unfolded tcp_socket_send_nonblocking_def]] assms(2) by simp

end

text \<open>The sample operating system is a pipe.\<close>

interpretation pipe: byte_pipe pipe_os snd fst
  by unfold_locales (auto simp: pipe_os_def split: if_splits)

end
