(* ===== verification/RRL_WebRecv.thy ===== *)
theory RRL_WebRecv
  imports RRL_WebFrame
begin

text \<open>
  Receiving a websocket frame over a pipe: whatever pieces the bytes come in, what stands in the receive
  buffer is a first part of the payload.
\<close>


section \<open>Flags of the transport\<close>

lemma transport_has_set:
  "transport_has (transport_set STATE_RECV_WEBSOCKET_IN_FRAME c) STATE_RECV_WEBSOCKET_IN_FRAME"
  "transport_has (transport_set STATE_RECV_WEBSOCKET_IN_FRAME c) STATE_IS_WEBSOCKET = transport_has c STATE_IS_WEBSOCKET"
  "transport_has (transport_set STATE_RECV_WEBSOCKET_ENABLE_MASK c) STATE_IS_WEBSOCKET = transport_has c STATE_IS_WEBSOCKET"
  "\<not> transport_has (transport_clear STATE_RECV_WEBSOCKET_IN_FRAME c) STATE_RECV_WEBSOCKET_IN_FRAME"
  "transport_has (transport_clear STATE_RECV_WEBSOCKET_IN_FRAME c) STATE_IS_WEBSOCKET = transport_has c STATE_IS_WEBSOCKET"
  "transport_has (transport_clear STATE_RECV_WEBSOCKET_ENABLE_MASK c) STATE_IS_WEBSOCKET = transport_has c STATE_IS_WEBSOCKET"
  by (simp_all add: transport_has_def transport_set_def transport_clear_def in_storage_def FLAGS_CHECK_def FLAGS_SET_def FLAGS_CLEAR_def
      transport_state_defs bit.conj_disj_distrib2 and.assoc)

lemma transport_has_upd [simp]:
  "transport_has (c\<lparr>co_sock := sk\<rparr>) f = transport_has c f"
  "transport_has (c\<lparr>cn_recv_buffer := b\<rparr>) f = transport_has c f"
  "transport_has (c\<lparr>co_sock := sk, cn_recv_buffer := b, cn_recv_buffer_pos := p\<rparr>) f = transport_has c f"
  "transport_has (c\<lparr>co_sock := sk, cn_send_buffer_pos := p\<rparr>) f = transport_has c f"
  by (simp_all add: transport_has_def)

lemma transport_has_storage:
  "(\<And>s. ts_tcp_transport_state (g s) = ts_tcp_transport_state s) \<Longrightarrow> transport_has (in_storage g c) f = transport_has c f"
  by (simp add: transport_has_def in_storage_def)


section \<open>Where a receiver is in a frame\<close>

abbreviation storage :: "connection \<Rightarrow> tcp_transport_storage" where "storage c \<equiv> cn_transport_storage c"

text \<open>
  In the header, in the payload, or behind the frame. \<open>r\<close> is what is still to come.
\<close>

definition in_header :: "byte list option \<Rightarrow> byte list \<Rightarrow> connection \<Rightarrow> byte list \<Rightarrow> bool" where
  "in_header key m c r \<longleftrightarrow>
     (let j = ts_recv_websocket_header_pos (storage c); hdr = frame_header key (length m); hb = ts_recv_websocket_header_buffer (storage c)
      in \<not> transport_has c STATE_RECV_WEBSOCKET_IN_FRAME \<and> j \<le> length hdr \<and> length hb = 16 \<and> take j hb = take j hdr \<and>
         ts_recv_websocket_frame_pos (storage c) = 0 \<and> cn_recv_buffer_pos c = 0 \<and> r = drop j (frame key m) \<and>
         (key = None \<longrightarrow> ts_recv_websocket_mask (storage c) = replicate 4 0))"

definition in_payload :: "byte list option \<Rightarrow> byte list \<Rightarrow> connection \<Rightarrow> byte list \<Rightarrow> bool" where
  "in_payload key m c r \<longleftrightarrow>
     (let p = cn_recv_buffer_pos c in
      transport_has c STATE_RECV_WEBSOCKET_IN_FRAME \<and> ts_recv_websocket_frame_len (storage c) = length m \<and>
      ts_recv_websocket_frame_pos (storage c) = p \<and> p \<le> length m \<and> ts_recv_websocket_mask (storage c) = key_mask key \<and>
      length (ts_recv_websocket_header_buffer (storage c)) = 16 \<and>
      r = drop p (frame_payload key m) \<and> take p (cn_recv_buffer c) = take p m)"

definition behind_frame :: "byte list \<Rightarrow> connection \<Rightarrow> byte list \<Rightarrow> bool" where
  "behind_frame m c r \<longleftrightarrow>
     \<not> transport_has c STATE_RECV_WEBSOCKET_IN_FRAME \<and> ts_recv_websocket_header_pos (storage c) = 0 \<and>
     length (ts_recv_websocket_header_buffer (storage c)) = 16 \<and>
     cn_recv_buffer_pos c = length m \<and> take (length m) (cn_recv_buffer c) = m \<and> r = []"

definition receiving :: "byte list option \<Rightarrow> byte list \<Rightarrow> connection \<Rightarrow> byte list \<Rightarrow> bool" where
  "receiving key m c r \<longleftrightarrow> transport_has c STATE_IS_WEBSOCKET \<and> length m \<le> length (cn_recv_buffer c) \<and>
     (in_header key m c r \<or> in_payload key m c r \<or> behind_frame m c r)"

lemma length_header_le: "key_ok key \<Longrightarrow> length (frame_header key n) \<le> 8"
  by (simp add: length_frame_header split: option.split)

lemma nth_take_eq: "take j xs = take j ys \<Longrightarrow> i < j \<Longrightarrow> xs ! i = ys ! i"
  by (metis nth_take)

lemma chunk_take_eq: "take j xs = take j ys \<Longrightarrow> i + n \<le> j \<Longrightarrow> chunk xs i n = chunk ys i n"
  unfolding chunk_def by (metis add.commute take_drop take_take min.absorb1)

lemma ntohs_htons: "ntohs (htons x) = x"
proof -
  have "u16_bytes (bytes_u16 bs) = bs" if "length bs = 2" for bs
    using that le_val_lt [of bs] by (simp add: u16_bytes_def bytes_u16_def unat_of_nat take_bit_nat_eq_self le_bytes_le_val)
  then show ?thesis by (simp add: ntohs_def htons_def)
qed

text \<open>The header, once it is complete, starts the frame.\<close>

lemma begin_frame_payload:
  assumes h: "in_header key m c r" and "ts_recv_websocket_header_pos (storage c) = length (frame_header key (length m))"
    and "key_ok key" and "length m \<le> 65535"
  shows "in_payload key m (begin_frame (length (frame_header key (length m))) c) r"
proof -
  let ?h = "frame_header key (length m)" and ?hb = "ts_recv_websocket_header_buffer (storage c)"
  let ?l = "length ?h"
  have hb: "take ?l ?hb = take ?l ?h" using h assms(2) by (simp add: in_header_def Let_def)
  have two: "?hb ! Suc 0 = ?h ! Suc 0"
    by (rule nth_take_eq [OF hb]) (simp add: length_frame_header [OF assms(3)])
  have len: "unat (ntohs (bytes_u16 (chunk ?hb 2 2))) = length m" if "length m > 125"
  proof -
    have "chunk ?hb 2 2 = chunk ?h 2 2" by (rule chunk_take_eq [OF hb]) (simp add: length_frame_header [OF assms(3)] that)
    also have "\<dots> = u16_bytes (htons (word_of_nat (length m)))" using that by (simp add: chunk_def frame_header_def)
    finally show ?thesis using assms(4) by (simp add: ntohs_htons unat_of_nat take_bit_nat_eq_self)
  qed
  have key: "chunk ?hb (?l - 4) 4 = k" if "key = Some k" for k
  proof -
    have l: "length k = 4" using assms(3) that by (simp add: key_ok_def)
    have "chunk ?hb (?l - 4) 4 = chunk ?h (?l - 4) 4"
      by (rule chunk_take_eq [OF hb]) (use length_frame_header [OF assms(3), of "length m"] that in auto)
    also have "\<dots> = k" using l by (simp add: chunk_def frame_header_def that)
    finally show ?thesis .
  qed
  show ?thesis
    using h assms(2) key
    by (cases key) (simp_all add: in_payload_def in_header_def begin_frame_def Let_def two header_byte_two transport_has_set
      frame_def key_mask_def, simp_all add: transport_set_def transport_clear_def in_storage_def length_code_cases unat_length_code len)
qed



section \<open>Receiving\<close>

context byte_pipe begin

lemma recv_payload_step:
  assumes p: "in_payload key m c (waiting w)" and "recv_payload os len c w = (st, c', w')"
    and "length m \<le> length (cn_recv_buffer c)" and "length m \<le> 65535"
  shows "st \<noteq> Err UNDEFINED_BEHAVIOUR" and "st = OK \<Longrightarrow> in_payload key m c' (waiting w') \<and>
    length (cn_recv_buffer c') = length (cn_recv_buffer c) \<and> transport_has c' STATE_IS_WEBSOCKET = transport_has c STATE_IS_WEBSOCKET"
proof -
  let ?s = "storage c" and ?p = "cn_recv_buffer_pos c" and ?b = "cn_recv_buffer c"
  have f: "ts_recv_websocket_frame_len ?s = length m" "ts_recv_websocket_frame_pos ?s = ?p" "?p \<le> length m"
    "ts_recv_websocket_mask ?s = key_mask key" "waiting w = drop ?p (frame_payload key m)" "take ?p ?b = take ?p m"
    "transport_has c STATE_RECV_WEBSOCKET_IN_FRAME" "length (ts_recv_websocket_header_buffer ?s) = 16"
    using p by (simp_all add: in_payload_def Let_def)
  have sz: "sz_add (length m) (sz_sub ?p ?p) = length m"
    using assms(4) f(3) by (simp add: sz_sub_nowrap sz_add_nowrap)
  let ?n = "if length m > len then len else length m"
  obtain st1 sk b q w1 where r: "tcp_socket_recv_nonblocking os (co_sock c) ?b ?p ?n w = (st1, sk, b, q, w1)" by (metis surj_pair)
  have "?p + length (waiting w) \<le> length ?b" using f(3,5) assms(3) by simp
  then obtain d where d: "waiting w = d @ waiting w1" "b = overwrite ?b ?p d" "q = ?p + length d" "st1 \<noteq> Err UNDEFINED_BEHAVIOUR"
    using recv_pipe [OF r] by blast
  have i: "recv_into_buffer os ?n c w = (st1, c\<lparr>co_sock := sk, cn_recv_buffer := b, cn_recv_buffer_pos := q\<rparr>, w1)"
    by (simp add: recv_into_buffer_def r)
  show "st \<noteq> Err UNDEFINED_BEHAVIOUR"
    using assms(2) i d(4) by (auto simp: recv_payload_def f(1,2) sz Let_def cong: if_cong split: status.splits)
  assume ok: "st = OK"
  let ?m = "mask_bytes (key_mask key) ?p d"
  have ld: "?p + length d \<le> length m" using arg_cong [OF d(1), of length] f(3,5) by simp
  have dt: "d = take (length d) (drop ?p (frame_payload key m))" using d(1) f(5) by (metis append_eq_conv_conj)
  then have md: "?m = take (length d) (drop ?p m)" by (metis unmask_payload)
  have fit: "?p + length d \<le> length ?b" using ld assms(3) by simp
  have ch: "chunk b ?p (length d) = d" using fit by (simp add: d(2) chunk_overwrite_same)
  have bb: "overwrite b ?p ?m = overwrite ?b ?p ?m" using fit by (simp add: d(2) overwrite_def)
  have st1: "st1 = OK" using assms(2) i ok by (auto simp: recv_payload_def f(1,2) sz Let_def cong: if_cong split: status.splits)
  have c': "c' = in_storage (\<lambda>s. s\<lparr>ts_recv_websocket_frame_pos := q\<rparr>)
      (c\<lparr>co_sock := sk, cn_recv_buffer := overwrite ?b ?p ?m, cn_recv_buffer_pos := q\<rparr>)" "w' = w1"
    using assms(2) i by (auto simp: recv_payload_def f(1,2,4) sz Let_def st1 ch bb d(3) in_storage_def cong: if_cong)
  have tk: "take q (overwrite ?b ?p ?m) = take q m"
    using f(6) fit ld by (simp add: overwrite_def d(3) md take_add)
  have wt: "waiting w1 = drop q (frame_payload key m)" using d(1,3) f(5) by (metis append_eq_conv_conj drop_drop add.commute)
  have "transport_has c' x = transport_has c x" for x by (simp add: c' transport_has_def in_storage_def)
  then show "in_payload key m c' (waiting w') \<and> length (cn_recv_buffer c') = length ?b \<and>
      transport_has c' STATE_IS_WEBSOCKET = transport_has c STATE_IS_WEBSOCKET"
    using f ld fit tk wt by (simp add: in_payload_def) (simp add: c' in_storage_def d(3))
qed

lemma recv_header_step:
  assumes h: "in_header key m c (waiting w)" and r: "recv_frame_header os n c w = (st, c', w')" and n: "n \<le> length (frame_header key (length m))"
    and "key_ok key"
  shows "st \<noteq> Err UNDEFINED_BEHAVIOUR" and "st = OK \<Longrightarrow> in_header key m c' (waiting w') \<and> cn_recv_buffer c' = cn_recv_buffer c \<and>
    ts_recv_websocket_header_pos (storage c') \<le> max n (ts_recv_websocket_header_pos (storage c)) \<and>
    transport_has c' STATE_IS_WEBSOCKET = transport_has c STATE_IS_WEBSOCKET"
proof -
  let ?j = "ts_recv_websocket_header_pos (storage c)" and ?hb = "ts_recv_websocket_header_buffer (storage c)"
    and ?h = "frame_header key (length m)"
  have f: "?j \<le> length ?h" "length ?hb = 16" "take ?j ?hb = take ?j ?h" "waiting w = drop ?j (frame key m)"
    using h by (simp_all add: in_header_def Let_def)
  have "st \<noteq> Err UNDEFINED_BEHAVIOUR \<and> (st = OK \<longrightarrow> in_header key m c' (waiting w') \<and> cn_recv_buffer c' = cn_recv_buffer c \<and>
    ts_recv_websocket_header_pos (storage c') \<le> max n ?j \<and>
    transport_has c' STATE_IS_WEBSOCKET = transport_has c STATE_IS_WEBSOCKET)"
  proof (cases "?j < n")
    case False
    then show ?thesis using r h by (simp add: recv_frame_header_def Let_def)
  next
    case True
    obtain st1 sk b q w1 where s: "tcp_socket_recv_nonblocking os (co_sock c) ?hb ?j (n - ?j) w = (st1, sk, b, q, w1)" by (metis surj_pair)
    have "?j + (n - ?j) \<le> length ?hb" using True n f(2) length_header_le [OF assms(4), of "length m"] by simp
    then obtain d where d: "waiting w = d @ waiting w1" "b = overwrite ?hb ?j d" "q = ?j + length d" "length d \<le> n - ?j"
      "st1 \<noteq> Err UNDEFINED_BEHAVIOUR"
      using recv_pipe [OF s] by blast
    have st: "st = st1" "w' = w1" using r s True by (simp_all add: recv_frame_header_def error_if_failed_def Let_def)
    have q: "q \<le> n" "q \<le> length ?h" "q \<le> 16"
      using d(3,4) True n f(2) length_header_le [OF assms(4), of "length m"] by simp_all
    have dt: "d = take (length d) (drop ?j (frame key m))" using d(1) f(4) by (metis append_eq_conv_conj)
    also have "\<dots> = take (length d) (drop ?j ?h)" using q(2) by (simp add: frame_def d(3))
    finally have dh: "take ?j ?h @ d = take q ?h" by (metis d(3) take_add)
    have "take q (overwrite ?hb ?j d) = take ?j ?hb @ d" using f(2) q(3) by (simp add: overwrite_def d(3))
    then have "take q (overwrite ?hb ?j d) = take q ?h" using f(3) dh by simp
    moreover have "waiting w1 = drop q (frame key m)" using d(1,3) f(4) by (metis append_eq_conv_conj drop_drop add.commute)
    ultimately have "in_header key m c' (waiting w') \<and> cn_recv_buffer c' = cn_recv_buffer c \<and>
      ts_recv_websocket_header_pos (storage c') \<le> max n ?j \<and>
      transport_has c' STATE_IS_WEBSOCKET = transport_has c STATE_IS_WEBSOCKET" if "st1 = OK"
      using r s True that h q f(2) d(2,3)
      by (simp add: recv_frame_header_def error_if_failed_def Let_def in_header_def in_storage_def transport_has_def)
         (auto simp: transport_has_def)
    then show ?thesis using d(5) st by simp
  qed
  then show "st \<noteq> Err UNDEFINED_BEHAVIOUR" and "st = OK \<Longrightarrow> in_header key m c' (waiting w') \<and> cn_recv_buffer c' = cn_recv_buffer c \<and>
    ts_recv_websocket_header_pos (storage c') \<le> max n ?j \<and>
    transport_has c' STATE_IS_WEBSOCKET = transport_has c STATE_IS_WEBSOCKET" by blast+
qed

text \<open>A call that finds the connection in the header of a frame, and one behind it.\<close>

lemma recv_in_header:
  assumes h: "in_header key m c (waiting w)" and r: "buffer_recv_websocket os len c w = (st, c', w')"
    and k: "key_ok key" and l: "length m \<le> 65535" "length m \<le> length (cn_recv_buffer c)" and web: "transport_has c STATE_IS_WEBSOCKET"
  shows "st \<noteq> Err UNDEFINED_BEHAVIOUR \<and> (st = OK \<longrightarrow> receiving key m c' (waiting w'))"
proof -
  let ?h = "frame_header key (length m)" and ?pos = "\<lambda>c. ts_recv_websocket_header_pos (storage c)"
  have out: "\<not> transport_has c STATE_RECV_WEBSOCKET_IN_FRAME" using h by (simp add: in_header_def Let_def)
  then have n: "next_frame c = c" by (simp add: next_frame_def Let_def)
  obtain st1 c1 w1 where r1: "recv_frame_header os 2 c w = (st1, c1, w1)" by (metis surj_pair)
  have "2 \<le> length ?h" by (simp add: length_frame_header [OF k])
  note s1 = recv_header_step [OF h r1 this k]
  show ?thesis
  proof (cases st1)
    case (Err e)
    then show ?thesis using r r1 s1(1) n out by (auto simp: buffer_recv_websocket_def)
  next
    case OK
    note s1 = s1(2) [OF OK]
    show ?thesis
    proof (cases "?pos c1 < 2")
      case True
      then show ?thesis using r r1 s1 n out OK l web by (simp add: buffer_recv_websocket_def receiving_def)
    next
      case False
      have "ts_recv_websocket_header_buffer (storage c1) ! Suc 0 = ?h ! Suc 0"
        using s1 False by (intro nth_take_eq [of "?pos c1"]) (auto simp: in_header_def Let_def)
      then have size: "recv_websocket_header_size (ts_recv_websocket_header_buffer (storage c1) ! 1) = length ?h"
        using header_size [OF k] by simp
      obtain st2 c2 w2 where r2: "recv_frame_header os (length ?h) c1 w1 = (st2, c2, w2)" by (metis surj_pair)
      note s2 = recv_header_step [OF conjunct1 [OF s1] r2 le_refl k]
      show ?thesis
      proof (cases st2)
        case (Err e)
        then show ?thesis using r r1 r2 s2(1) n out OK False size by (auto simp: buffer_recv_websocket_def Let_def)
      next
        case OK2: OK
        note s2 = s2(2) [OF OK2]
        show ?thesis
        proof (cases "?pos c2 < length ?h")
          case True
          then show ?thesis
            using r r1 r2 s1 s2 n out OK OK2 False size l web by (simp add: buffer_recv_websocket_def Let_def receiving_def)
        next
          case full: False
          then have full: "?pos c2 = length ?h" using s2 by (auto simp: in_header_def Let_def)
          let ?c = "begin_frame (length ?h) c2"
          have p: "in_payload key m ?c (waiting w2)"
            by (rule begin_frame_payload [OF conjunct1 [OF s2] full k l(1)])
          have b: "cn_recv_buffer ?c = cn_recv_buffer c2" "transport_has ?c STATE_IS_WEBSOCKET = transport_has c2 STATE_IS_WEBSOCKET"
            by (simp_all add: begin_frame_def Let_def transport_has_set transport_has_storage)
               (simp_all add: transport_set_def transport_clear_def in_storage_def)
          have "recv_payload os len ?c w2 = (st, c', w')"
            using r r1 r2 n out OK OK2 False size full by (simp add: buffer_recv_websocket_def Let_def)
          then show ?thesis using recv_payload_step [OF p _ _ l(1)] b s1 s2 l web by (auto simp: receiving_def)
        qed
      qed
    qed
  qed
qed

lemma recv_behind:
  assumes h: "behind_frame m c (waiting w)" and r: "buffer_recv_websocket os len c w = (st, c', w')"
  shows "st \<noteq> Err UNDEFINED_BEHAVIOUR \<and> (st = OK \<longrightarrow> behind_frame m c' (waiting w') \<and> cn_recv_buffer c' = cn_recv_buffer c \<and>
    transport_has c' STATE_IS_WEBSOCKET = transport_has c STATE_IS_WEBSOCKET)"
proof -
  have out: "\<not> transport_has c STATE_RECV_WEBSOCKET_IN_FRAME" "ts_recv_websocket_header_pos (storage c) = 0" "waiting w = []"
    "length (ts_recv_websocket_header_buffer (storage c)) = 16"
    using h by (simp_all add: behind_frame_def)
  then have n: "next_frame c = c" by (simp add: next_frame_def Let_def)
  obtain st1 sk b q w1 where s: "tcp_socket_recv_nonblocking os (co_sock c) (ts_recv_websocket_header_buffer (storage c)) 0 2 w =
      (st1, sk, b, q, w1)" by (metis surj_pair)
  have d: "waiting w1 = []" "b = ts_recv_websocket_header_buffer (storage c)" "q = 0" "st1 \<noteq> Err UNDEFINED_BEHAVIOUR"
    using recv_pipe [OF s] out(3,4) by auto
  let ?c = "in_storage (\<lambda>s. s\<lparr>ts_recv_websocket_header_buffer := b, ts_recv_websocket_header_pos := q\<rparr>) (c\<lparr>co_sock := sk\<rparr>)"
  have "st = st1" "st = OK \<Longrightarrow> c' = ?c \<and> w' = w1"
    using r s out n d by (cases st1; simp add: buffer_recv_websocket_def recv_frame_header_def error_if_failed_def Let_def in_storage_def)+
  moreover have "transport_has ?c x = transport_has c x" for x by (simp add: transport_has_storage)
  ultimately show ?thesis using h d by (auto simp: behind_frame_def) (auto simp: in_storage_def)
qed

text \<open>One call of the transport's receive operation.\<close>

lemma recv_step:
  assumes p: "receiving key m c (waiting w)" and r: "buffer_recv_websocket os len c w = (st, c', w')"
    and k: "key_ok key" and l: "length m \<le> 65535"
  shows "st \<noteq> Err UNDEFINED_BEHAVIOUR" and "st = OK \<Longrightarrow> receiving key m c' (waiting w')"
proof -
  let ?h = "frame_header key (length m)"
  have f: "transport_has c STATE_IS_WEBSOCKET" "length m \<le> length (cn_recv_buffer c)" using p by (simp_all add: receiving_def)
  have "st \<noteq> Err UNDEFINED_BEHAVIOUR \<and> (st = OK \<longrightarrow> receiving key m c' (waiting w'))"
  proof (cases "transport_has (next_frame c) STATE_RECV_WEBSOCKET_IN_FRAME")
    case True
    then have n: "next_frame c = c" by (auto simp: next_frame_def Let_def transport_has_set(4) split: if_splits)
    then have "in_payload key m c (waiting w)"
      using p True by (auto simp: receiving_def in_header_def behind_frame_def Let_def)
    moreover have "recv_payload os len c w = (st, c', w')" using r True n by (simp add: buffer_recv_websocket_def)
    ultimately show ?thesis using recv_payload_step [OF _ _ f(2) l] f by (auto simp: receiving_def)
  next
    case False
    consider (header) "in_header key m c (waiting w)" | (end_of_frame) "behind_frame m (next_frame c) (waiting w)"
      using p False by (auto simp: receiving_def in_payload_def in_header_def behind_frame_def next_frame_def Let_def transport_has_set
        transport_has_storage in_storage_def transport_clear_def split: if_splits)
    then show ?thesis
    proof cases
      case header
      then show ?thesis by (rule recv_in_header [OF _ r k l f(2,1)])
    next
      case end_of_frame
      have n: "next_frame (next_frame c) = next_frame c" using False by (simp add: next_frame_def [of "next_frame c"] Let_def)
      have b: "cn_recv_buffer (next_frame c) = cn_recv_buffer c" "transport_has (next_frame c) STATE_IS_WEBSOCKET"
        using f(1) by (auto simp: next_frame_def Let_def transport_has_set transport_has_storage)
                      (auto simp: transport_clear_def in_storage_def)
      have "buffer_recv_websocket os len (next_frame c) w = (st, c', w')" using r by (simp add: buffer_recv_websocket_def n)
      from recv_behind [OF end_of_frame this] show ?thesis using b f(2) by (auto simp: receiving_def)
    qed
  qed
  then show "st \<noteq> Err UNDEFINED_BEHAVIOUR" and "st = OK \<Longrightarrow> receiving key m c' (waiting w')" by blast+
qed

end

end
