(* ===== verification/RRL_WebSend.thy ===== *)
theory RRL_WebSend
  imports RRL_WebRecv
begin

text \<open>
  Sending a message in a websocket frame over a pipe: whatever the socket takes at a time, the bytes that
  leave are a first part of the frame, and all of it when the connection reports the message as sent.
\<close>


section \<open>Where a sender is in a frame\<close>

definition fresh_sender :: "byte list \<Rightarrow> connection \<Rightarrow> bool" where
  "fresh_sender m c \<longleftrightarrow>
     (let s = storage c in
      ts_send_websocket_frame_len s = 0 \<and> ts_send_websocket_header_pos s = 0 \<and> length (ts_send_websocket_header_buffer s) = 8 \<and>
      \<not> transport_has c STATE_SEND_WEBSOCKET_ENABLE_MASK \<and> cn_send_buffer_pos c = 0 \<and>
      length m \<le> length (cn_send_buffer c) \<and> take (length m) (cn_send_buffer c) = m)"

text \<open>\<open>d\<close> is what has left of the frame.\<close>

definition in_frame :: "byte list option \<Rightarrow> byte list \<Rightarrow> connection \<Rightarrow> byte list \<Rightarrow> bool" where
  "in_frame key m c d \<longleftrightarrow>
     (let s = storage c; hdr = frame_header key (length m); i = ts_send_websocket_header_pos s; p = ts_send_websocket_frame_buffer_pos s
      in ts_send_websocket_frame_len s = length m \<and> ts_send_websocket_header_len s = length hdr \<and>
         length hdr \<le> length (ts_send_websocket_header_buffer s) \<and>
         take (length hdr) (ts_send_websocket_header_buffer s) = hdr \<and> i \<le> length hdr \<and>
         ts_send_websocket_frame_buffer_end s = length m \<and> p \<le> length m \<and> (i < length hdr \<longrightarrow> p = 0) \<and>
         cn_send_buffer_pos c = 0 \<and> length m \<le> length (cn_send_buffer c) \<and>
         take (length m) (cn_send_buffer c) = frame_payload key m \<and> d = take (i + p) (frame key m))"

lemma take_overwrite_front: "length ys = n \<Longrightarrow> take n (overwrite xs 0 ys) = ys"
  by (simp add: overwrite_def)

lemma in_storage_simps [simp]:
  "cn_send_buffer (in_storage f c) = cn_send_buffer c" "cn_send_buffer_pos (in_storage f c) = cn_send_buffer_pos c"
  "cn_config_flags (in_storage f c) = cn_config_flags c" "storage (in_storage f c) = f (storage c)"
  "cn_connection_state (in_storage f c) = cn_connection_state c" "cn_send_message_len (in_storage f c) = cn_send_message_len c"
  by (simp_all add: in_storage_def)

lemma transport_set_simps [simp]:
  "cn_send_buffer (transport_set x c) = cn_send_buffer c" "cn_send_buffer_pos (transport_set x c) = cn_send_buffer_pos c"
  "cn_connection_state (transport_set x c) = cn_connection_state c" "cn_send_message_len (transport_set x c) = cn_send_message_len c"
  "storage (transport_set x c) = (storage c)\<lparr>ts_tcp_transport_state := FLAGS_SET (ts_tcp_transport_state (storage c)) x\<rparr>"
  by (simp_all add: transport_set_def)

text \<open>The header that is prepared is the header of the frame.\<close>

lemma prepare_header_bytes:
  assumes "length b = 8" and "n \<le> 65535" and "ts_send_websocket_header_buffer (storage c) = b"
  shows "ts_send_websocket_header_len (storage (prepare_header n c)) = (if n > 125 then 4 else 2)"
    and "ts_send_websocket_header_buffer (storage (prepare_header n c)) =
      0x82 # length_code n # (if n > 125 then u16_bytes (htons (word_of_nat n)) @ drop 4 b else drop 2 b)"
proof -
  obtain b0 b1 b2 b3 r where b: "b = b0 # b1 # b2 # b3 # r"
  proof -
    have "b = b ! 0 # b ! 1 # b ! 2 # b ! 3 # drop 4 b"
      using assms(1) by (simp add: Cons_nth_drop_Suc eval_nat_numeral)
    then show thesis by (rule that)
  qed
  obtain x y where xy: "u16_bytes (htons (word_of_nat n)) = [x, y]"
  proof -
    have "length (u16_bytes (htons (word_of_nat n))) = Suc (Suc 0)" by simp
    then show thesis using that by (auto simp only: length_Suc_conv length_0_conv)
  qed
  have f: "(0x80 OR WEBSOCKET_FLAGS_BINARY) = 0x82" by (simp add: WEBSOCKET_FLAGS_BINARY_def)
  show "ts_send_websocket_header_len (storage (prepare_header n c)) = (if n > 125 then 4 else 2)"
    by (simp add: prepare_header_def in_storage_def Let_def)
  show "ts_send_websocket_header_buffer (storage (prepare_header n c)) =
      0x82 # length_code n # (if n > 125 then u16_bytes (htons (word_of_nat n)) @ drop 4 b else drop 2 b)"
    using assms(3) by (simp add: prepare_header_def in_storage_def Let_def b f xy length_code_def overwrite_def numeral_2_eq_2)
qed


text \<open>The key of a frame that this side starts: a client masks, a server does not.\<close>

definition side_key :: "connection \<Rightarrow> byte list option \<Rightarrow> bool" where
  "side_key c key \<longleftrightarrow> key_ok key \<and> (key = None \<longleftrightarrow> is_server_side c)"

text \<open>What does not change while a frame is sent.\<close>

definition same_sender :: "connection \<Rightarrow> connection \<Rightarrow> bool" where
  "same_sender c c' \<longleftrightarrow> cn_connection_state c' = cn_connection_state c \<and> cn_send_message_len c' = cn_send_message_len c \<and>
     transport_has c' STATE_IS_WEBSOCKET = transport_has c STATE_IS_WEBSOCKET \<and> is_server_side c' = is_server_side c"

context byte_pipe begin

lemma prepare_frame_step:
  assumes f: "fresh_sender m c" and r: "prepare_frame os (length m) c w = (st, c', w')" and m: "m \<noteq> []" "length m \<le> 65535"
  shows "\<exists>key. side_key c key \<and> st = OK \<and> in_frame key m c' [] \<and> sent w' = sent w \<and> cn_connection_state c' = cn_connection_state c \<and>
    cn_send_message_len c' = cn_send_message_len c \<and> transport_has c' STATE_IS_WEBSOCKET = transport_has c STATE_IS_WEBSOCKET \<and>
    is_server_side c' = is_server_side c"
proof -
  let ?n = "length m" and ?b = "ts_send_websocket_header_buffer (storage c)"
  let ?c1 = "prepare_header ?n c"
  have s: "ts_send_websocket_frame_len (storage c) = 0" "ts_send_websocket_header_pos (storage c) = 0" "length ?b = 8"
    "\<not> transport_has c STATE_SEND_WEBSOCKET_ENABLE_MASK" "cn_send_buffer_pos c = 0" "?n \<le> length (cn_send_buffer c)"
    "take ?n (cn_send_buffer c) = m"
    using f by (simp_all add: fresh_sender_def Let_def)
  note h = prepare_header_bytes [OF s(3) m(2) refl]
  have sl: "frame_send_len ?n = ?n" "sz_add ?n 0 = ?n" using m(2) by (simp_all add: frame_send_len_def UINT16_MAX_def)
  have c1: "cn_config_flags ?c1 = cn_config_flags c" "cn_send_buffer ?c1 = cn_send_buffer c" "cn_send_buffer_pos ?c1 = 0"
    "cn_connection_state ?c1 = cn_connection_state c" "cn_send_message_len ?c1 = cn_send_message_len c"
    "ts_send_websocket_header_pos (storage ?c1) = 0" "ts_tcp_transport_state (storage ?c1) = ts_tcp_transport_state (storage c)"
    using s(2,5) by (simp_all add: prepare_header_def in_storage_def Let_def)
  have p0: "ts_send_websocket_frame_len (storage c) = 0 \<and> length m > 0" using s(1) m(1) by simp
  show ?thesis
  proof (cases "is_server_side c")
    case True
    then have "is_server_side ?c1" by (simp add: is_server_side_def c1)
    let ?c2 = "in_storage (\<lambda>s. s\<lparr>ts_send_websocket_frame_len := ?n, ts_send_websocket_frame_buffer_end := ?n,
       ts_send_websocket_frame_buffer_pos := 0\<rparr>) ?c1"
    have has: "transport_has ?c2 x = transport_has c x" for x by (simp add: transport_has_def c1)
    have "prepare_frame os ?n c w = (OK, ?c2, w)"
      using p0 has s(4) \<open>is_server_side ?c1\<close> by (simp add: prepare_frame_def sl prepare_mask_def c1 mask_send_buffer_def Let_def)
    moreover have "in_frame None m ?c2 []"
      using s(6,7) by (simp add: in_frame_def Let_def h c1 frame_header_def length_code_def frame_payload_def)
    ultimately show ?thesis
      using r has True by (intro exI [of _ None]) (simp add: c1 side_key_def key_ok_def is_server_side_def)
  next
    case False
    obtain k w1 where k: "random_mask os w = (k, w1)" by fastforce
    have lk: "length k = 4" "sent w1 = sent w" using k rand_apart by (auto simp: random_mask_def split: prod.splits)
    define L :: nat where "L = (if ?n > 125 then 4 else 2)"
    define hb where
      "hb = overwrite ((ts_send_websocket_header_buffer (storage ?c1))[1 := (ts_send_websocket_header_buffer (storage ?c1) ! 1) OR 0x80]) L k"
    let ?c2 = "transport_set STATE_SEND_WEBSOCKET_ENABLE_MASK (in_storage (\<lambda>s. s\<lparr>ts_send_websocket_header_len := L + 4,
       ts_send_websocket_mask := k, ts_send_websocket_header_buffer := hb\<rparr>) ?c1)"
    let ?c3 = "in_storage (\<lambda>s. s\<lparr>ts_send_websocket_frame_len := ?n, ts_send_websocket_frame_buffer_end := ?n,
       ts_send_websocket_frame_buffer_pos := 0\<rparr>) ?c2"
    let ?c4 = "?c3\<lparr>cn_send_buffer := overwrite (cn_send_buffer c) 0 (mask_bytes k 0 m)\<rparr>"
    have pm: "prepare_mask os ?c1 w = (?c2, w1)"
      using False k by (simp add: prepare_mask_def is_server_side_def c1 h Let_def transport_set_def in_storage_def hb_def L_def)
    have on: "transport_has ?c3 STATE_SEND_WEBSOCKET_ENABLE_MASK"
      by (simp add: transport_has_def c1 FLAGS_CHECK_def FLAGS_SET_def transport_state_defs bit.conj_disj_distrib2)
    have "prepare_frame os ?n c w = (OK, ?c4, w1)"
      using p0 on s(6,7) pm by (simp add: prepare_frame_def sl mask_send_buffer_def Let_def chunk_def c1)
    moreover have "in_frame (Some k) m ?c4 []"
    proof -
      have "take (L + 4) hb = frame_header (Some k) ?n" "L + 4 \<le> length hb"
        using s(3) lk by (cases "?n > 125"; simp add: hb_def L_def h frame_header_def length_code_def overwrite_def or.commute)+
      moreover have "L + 4 = length (frame_header (Some k) ?n)" using lk by (simp add: L_def length_frame_header key_ok_def)
      ultimately have "take (length (frame_header (Some k) ?n)) hb = frame_header (Some k) ?n" "length (frame_header (Some k) ?n) \<le> length hb"
        "L + 4 = length (frame_header (Some k) ?n)" by simp_all
      then show ?thesis
        using s(6) lk by (simp add: in_frame_def Let_def c1 frame_payload_def take_overwrite_front)
    qed
    moreover have "transport_has ?c4 STATE_IS_WEBSOCKET = transport_has c STATE_IS_WEBSOCKET"
      by (simp add: transport_has_def c1 FLAGS_CHECK_def FLAGS_SET_def transport_state_defs bit.conj_disj_distrib2)
    ultimately show ?thesis
      using r False lk by (intro exI [of _ "Some k"]) (simp add: c1 side_key_def key_ok_def is_server_side_def transport_set_def)
  qed
qed

lemma frame_take:
  assumes "key_ok key" and "i \<le> length (frame_header key (length m))"
  shows "take i (frame key m) = take i (frame_header key (length m))"
  using assms by (simp add: frame_def)

text \<open>A call within a frame.\<close>

lemma send_header_step:
  assumes f: "in_frame key m c d" and r: "send_frame_header os c w = (OK, c1, w1)" and k: "key_ok key"
  shows "\<exists>d1. in_frame key m c1 d1 \<and> same_sender c c1 \<and> (\<forall>out. sent w = out @ d \<longrightarrow> sent w1 = out @ d1)"
proof -
  let ?s = "storage c" and ?h = "frame_header key (length m)"
  let ?i = "ts_send_websocket_header_pos ?s" and ?hb = "ts_send_websocket_header_buffer ?s" and ?hl = "ts_send_websocket_header_len ?s"
  have s: "?hl = length ?h" "take (length ?h) ?hb = ?h" "?i \<le> length ?h" "length ?h \<le> length ?hb"
    "?i < length ?h \<longrightarrow> ts_send_websocket_frame_buffer_pos ?s = 0" "d = take (?i + ts_send_websocket_frame_buffer_pos ?s) (frame key m)"
    using f by (simp_all add: in_frame_def Let_def)
  show ?thesis
  proof (cases "?hl > 0 \<and> ?i < ?hl")
    case False
    then have "c1 = c \<and> w1 = w" using r by (auto simp: send_frame_header_def Let_def)
    then show ?thesis using f by (auto simp: same_sender_def)
  next
    case True
    obtain sk j w2 where p: "tcp_socket_send_nonblocking os (co_sock c) ?hb ?i (?hl - ?i) w = (OK, sk, j, w2)"
      "c1 = in_storage (\<lambda>s. s\<lparr>ts_send_websocket_header_pos := j\<rparr>) (c\<lparr>co_sock := sk\<rparr>)" "w1 = w2"
      using r True by (auto simp: send_frame_header_def Let_def split: prod.splits)
    have j: "?i \<le> j" "j \<le> length ?h" "sent w2 = sent w @ chunk ?hb ?i (j - ?i)"
      using send_pipe [OF p(1)] s True by auto
    have c: "chunk ?hb ?i (j - ?i) = chunk ?h ?i (j - ?i)"
      by (rule chunk_take_eq [of "length ?h"]) (use s(2) j in auto)
    have "take j ?h = take ?i ?h @ chunk ?h ?i (j - ?i)" using j(1) by (simp add: chunk_def flip: take_add)
    then have t: "take j (frame key m) = take ?i (frame key m) @ chunk ?hb ?i (j - ?i)"
      using frame_take [OF k] j s(3) c by simp
    have p0: "ts_send_websocket_frame_buffer_pos ?s = 0" using s True by simp
    have "in_frame key m c1 (take j (frame key m))"
      using f j p0 by (simp add: in_frame_def Let_def p(2))
    moreover have "same_sender c c1" by (simp add: same_sender_def p(2) transport_has_storage is_server_side_def)
    ultimately show ?thesis using s(6) p0 t j(3) p(3) by auto
  qed
qed

lemma send_in_frame:
  assumes f: "in_frame key m c d" and r: "buffer_send_websocket os (length m) c w = (OK, c', w')" and k: "key_ok key"
    and m: "m \<noteq> []" "length m \<le> 65535" and o: "sent w = out @ d"
  shows "same_sender c c' \<and> ((\<exists>d'. in_frame key m c' d' \<and> sent w' = out @ d') \<or>
    cn_send_buffer_pos c' = length m \<and> sent w' = out @ frame key m)"
proof -
  let ?h = "frame_header key (length m)"
  have pf: "prepare_frame os (length m) c w = (OK, c, w)" using f m by (simp add: prepare_frame_def in_frame_def Let_def)
  obtain c1 w1 where r1: "send_frame_header os c w = (OK, c1, w1)"
    using r pf by (cases "send_frame_header os c w"; cases "fst (send_frame_header os c w)") (auto simp: buffer_send_websocket_def)
  obtain d1 where d1: "in_frame key m c1 d1" "same_sender c c1" "sent w1 = out @ d1" using send_header_step [OF f r1 k] o by blast
  let ?s = "storage c1"
  let ?i = "ts_send_websocket_header_pos ?s" and ?p = "ts_send_websocket_frame_buffer_pos ?s"
  have s: "ts_send_websocket_header_len ?s = length ?h" "?i \<le> length ?h" "ts_send_websocket_frame_len ?s = length m"
    "ts_send_websocket_frame_buffer_end ?s = length m" "?p \<le> length m" "d1 = take (?i + ?p) (frame key m)"
    "length m \<le> length (cn_send_buffer c1)" "take (length m) (cn_send_buffer c1) = frame_payload key m" "cn_send_buffer_pos c1 = 0"
    using d1(1) by (simp_all add: in_frame_def Let_def)
  show ?thesis
  proof (cases "?i < length ?h")
    case True
    then have "c' = c1 \<and> w' = w1" using r pf r1 s(1) by (simp add: buffer_send_websocket_def Let_def split: if_splits)
    then show ?thesis using d1 by auto
  next
    case False
    then have i: "?i = length ?h" using s(2) by simp
    have sz: "sz_sub (length m) ?p = length m - ?p" using s(5) m by (simp add: sz_sub_nowrap)
    obtain sk q w2 where p: "tcp_socket_send_nonblocking os (co_sock c1) (cn_send_buffer c1) ?p (length m - ?p) w1 = (OK, sk, q, w2)"
      and c': "c' = (let c2 = in_storage (\<lambda>s. s\<lparr>ts_send_websocket_frame_buffer_pos := q\<rparr>) (c1\<lparr>co_sock := sk\<rparr>) in
          if q < length m then c2 else finish_frame c2)" "w' = w2"
      using r pf r1 s i
      by (auto simp: buffer_send_websocket_def send_frame_data_def Let_def sz split: prod.splits status.splits if_splits)
    have q: "?p \<le> q" "q \<le> length m" "sent w2 = sent w1 @ chunk (cn_send_buffer c1) ?p (q - ?p)"
      using send_pipe [OF p] s(5,7) by auto
    have "chunk (cn_send_buffer c1) ?p (q - ?p) = chunk (frame_payload key m) ?p (q - ?p)"
      by (rule chunk_take_eq [of "length m"]) (use s(8) q in auto)
    also have "\<dots> = chunk (frame key m) (length ?h + ?p) (q - ?p)" by (simp add: chunk_def frame_def)
    finally have t: "take (length ?h + q) (frame key m) = d1 @ chunk (cn_send_buffer c1) ?p (q - ?p)"
      using q(1) s(6) i by (simp add: chunk_def flip: take_add)
    let ?c2 = "in_storage (\<lambda>s. s\<lparr>ts_send_websocket_frame_buffer_pos := q\<rparr>) (c1\<lparr>co_sock := sk\<rparr>)"
    have same: "same_sender c1 ?c2" by (simp add: same_sender_def transport_has_storage is_server_side_def)
    have out: "sent w2 = out @ take (length ?h + q) (frame key m)" using q(3) d1(3) t by simp
    show ?thesis
    proof (cases "q < length m")
      case True
      have "in_frame key m ?c2 (take (length ?h + q) (frame key m))"
        using d1(1) True i by (simp add: in_frame_def Let_def)
      then show ?thesis using c' True out same d1(2) by (auto simp: same_sender_def)
    next
      case False
      then have "take (length ?h + q) (frame key m) = frame key m" using q(2) by (simp add: frame_def)
      moreover have "c' = finish_frame ?c2" using c' False by simp
      moreover have "same_sender ?c2 (finish_frame ?c2)"
        by (simp add: same_sender_def finish_frame_def is_server_side_def transport_has_def transport_clear_def in_storage_def
            FLAGS_CHECK_def FLAGS_CLEAR_def transport_state_defs and.assoc)
      moreover have "cn_send_buffer_pos (finish_frame ?c2) = length m"
        by (simp add: finish_frame_def transport_clear_def in_storage_def s(4))
      ultimately show ?thesis using c'(2) out same d1(2) by (auto simp: same_sender_def)
    qed
  qed
qed

end

end
