(* ===== verification/RRL_WebSpec.thy ===== *)
theory RRL_WebSpec
  imports RRL_WebSend
begin

text \<open>
  Properties of the websocket framing: a message that one side sends is what the other side receives, and
  where the framing fails.
\<close>


section \<open>Runs\<close>

text \<open>Calls that do not fail, at any time and, for the receiver, with any number of bytes asked for.\<close>

definition send_call :: "'w os \<Rightarrow> connection \<times> 'w \<Rightarrow> connection \<times> 'w \<Rightarrow> bool" where
  "send_call os x y \<longleftrightarrow> (\<exists>now. tcp_communicate_send os now (fst x) (snd x) = (OK, y))"

definition recv_call :: "'w os \<Rightarrow> connection \<times> 'w \<Rightarrow> connection \<times> 'w \<Rightarrow> bool" where
  "recv_call os x y \<longleftrightarrow> (\<exists>len. tcp_buffer_recv os len (fst x) (snd x) = (OK, y))"

definition ready_to_send :: "byte list \<Rightarrow> connection \<Rightarrow> bool" where
  "ready_to_send m c \<longleftrightarrow> fresh_sender m c \<and> unat (cn_send_message_len c) = length m \<and> transport_has c STATE_IS_WEBSOCKET \<and>
     has_state c STATUS_FLAGS_SEND_REQUESTED \<and> \<not> has_state c STATUS_FLAGS_ERROR \<and> \<not> has_state c STATUS_FLAGS_SENDING \<and>
     \<not> has_state c STATUS_FLAGS_MESSAGE_SENT \<and> \<not> has_state c STATUS_FLAGS_MESSAGE_SENT_CONSUMED"

definition ready_to_receive :: "connection \<Rightarrow> bool" where
  "ready_to_receive c \<longleftrightarrow> transport_has c STATE_IS_WEBSOCKET \<and> \<not> transport_has c STATE_RECV_WEBSOCKET_IN_FRAME \<and>
     ts_recv_websocket_header_pos (storage c) = 0 \<and> ts_recv_websocket_frame_pos (storage c) = 0 \<and>
     length (ts_recv_websocket_header_buffer (storage c)) = 16 \<and> ts_recv_websocket_mask (storage c) = replicate 4 0 \<and>
     cn_recv_buffer_pos c = 0"

definition sending_inv :: "byte list \<Rightarrow> bool \<Rightarrow> connection \<Rightarrow> byte list \<Rightarrow> bool" where
  "sending_inv m server c d \<longleftrightarrow>
     unat (cn_send_message_len c) = length m \<and> transport_has c STATE_IS_WEBSOCKET \<and>
     \<not> has_state c STATUS_FLAGS_ERROR \<and> \<not> has_state c STATUS_FLAGS_MESSAGE_SENT_CONSUMED \<and>
     (has_state c STATUS_FLAGS_SEND_REQUESTED \<and> \<not> has_state c STATUS_FLAGS_SENDING \<and> \<not> has_state c STATUS_FLAGS_MESSAGE_SENT \<and>
        fresh_sender m c \<and> is_server_side c = server \<and> d = [] \<or>
      \<not> has_state c STATUS_FLAGS_SEND_REQUESTED \<and> has_state c STATUS_FLAGS_SENDING \<and> \<not> has_state c STATUS_FLAGS_MESSAGE_SENT \<and>
        (\<exists>key. key_ok key \<and> (key = None) = server \<and> in_frame key m c d) \<or>
      \<not> has_state c STATUS_FLAGS_SEND_REQUESTED \<and> \<not> has_state c STATUS_FLAGS_SENDING \<and>
        (\<exists>key. key_ok key \<and> (key = None) = server \<and> d = frame key m))"

lemma sender_state [simp]:
  "fresh_sender m (set_state x c) = fresh_sender m c" "fresh_sender m (clear_state x c) = fresh_sender m c"
  "in_frame key m (set_state x c) = in_frame key m c" "in_frame key m (clear_state x c) = in_frame key m c"
  "transport_has (set_state x c) f = transport_has c f" "transport_has (clear_state x c) f = transport_has c f"
  "is_server_side (set_state x c) = is_server_side c" "is_server_side (clear_state x c) = is_server_side c"
  "transport_has (c\<lparr>cn_last_send_message_time := t\<rparr>) f = transport_has c f"
  by (simp_all add: set_state_def clear_state_def transport_has_def fresh_sender_def in_frame_def is_server_side_def fun_eq_iff Let_def)

lemma has_state_same: "cn_connection_state c' = cn_connection_state c \<Longrightarrow> has_state c' m = has_state c m"
  by (simp add: has_state_def)

text \<open>What a call of the connection does after the transport has sent.\<close>

lemma after_send:
  assumes "communicate_send2 c now st = (OK, c')" and "unat (cn_send_message_len c) = n" and "0 < n"
  shows "st = OK \<and> (if cn_send_buffer_pos c < n then c' = set_state STATUS_FLAGS_SENDING c
     else c' = (set_state STATUS_FLAGS_MESSAGE_SENT (clear_state STATUS_FLAGS_SENDING c))\<lparr>cn_last_send_message_time := now\<rparr>)"
  using assms by (cases st) (auto simp: communicate_send2_def word_gt_0 split: if_splits)

context byte_pipe begin

lemma sending_finish:
  assumes f: "in_frame key m c d" and k: "key_ok key" "(key = None) = server" and m: "m \<noteq> []" "length m \<le> 65535"
    and c: "unat (cn_send_message_len c) = length m" "transport_has c STATE_IS_WEBSOCKET" "\<not> has_state c STATUS_FLAGS_SEND_REQUESTED"
      "\<not> has_state c STATUS_FLAGS_MESSAGE_SENT" "\<not> has_state c STATUS_FLAGS_ERROR" "\<not> has_state c STATUS_FLAGS_MESSAGE_SENT_CONSUMED"
    and b: "buffer_send_websocket os (length m) c w = (st2, c2, w')" and s: "communicate_send2 c2 now st2 = (OK, c')"
    and o: "sent w = out @ d"
  shows "\<exists>d'. sending_inv m server c' d' \<and> sent w' = out @ d'"
proof -
  have st2: "st2 = OK" using s by (cases st2) (auto simp: communicate_send2_def)
  have r: "same_sender c c2" "(\<exists>d'. in_frame key m c2 d' \<and> sent w' = out @ d') \<or> cn_send_buffer_pos c2 = length m \<and> sent w' = out @ frame key m"
    using send_in_frame [OF f b [unfolded st2] k(1) m o] by blast+
  have h: "has_state c2 x = has_state c x" for x by (rule has_state_same) (use r(1) in \<open>simp add: same_sender_def\<close>)
  have e: "unat (cn_send_message_len c2) = length m" "transport_has c2 STATE_IS_WEBSOCKET" using r(1) c by (simp_all add: same_sender_def)
  note a = after_send [OF s e(1)]
  have n0: "0 < length m" using m(1) by simp
  from r(2) show ?thesis
  proof
    assume "\<exists>d'. in_frame key m c2 d' \<and> sent w' = out @ d'"
    then obtain d' where d': "in_frame key m c2 d'" "sent w' = out @ d'" by blast
    then have "cn_send_buffer_pos c2 < length m" using n0 by (simp add: in_frame_def Let_def)
    then have "c' = set_state STATUS_FLAGS_SENDING c2" using a n0 by simp
    then have "sending_inv m server c' d'"
      using d' e k c(3-6) by (auto simp: sending_inv_def h conn_flag_simps)
    then show ?thesis using d' by blast
  next
    assume d': "cn_send_buffer_pos c2 = length m \<and> sent w' = out @ frame key m"
    then have "c' = (set_state STATUS_FLAGS_MESSAGE_SENT (clear_state STATUS_FLAGS_SENDING c2))\<lparr>cn_last_send_message_time := now\<rparr>"
      using a n0 by simp
    then have "sending_inv m server c' (frame key m)"
      using e k c(3-6) by (auto simp: sending_inv_def h conn_flag_simps)
    then show ?thesis using d' by blast
  qed
qed

lemma sending_step:
  assumes i: "sending_inv m server c d" and r: "tcp_communicate_send os now c w = (OK, c', w')" and o: "sent w = out @ d"
    and m: "m \<noteq> []" "length m \<le> 65535"
  shows "\<exists>d'. sending_inv m server c' d' \<and> sent w' = out @ d'"
proof -
  have n: "unat (cn_send_message_len c) = length m" "transport_has c STATE_IS_WEBSOCKET" "\<not> has_state c STATUS_FLAGS_ERROR"
    "\<not> has_state c STATUS_FLAGS_MESSAGE_SENT_CONSUMED"
    using i by (simp_all add: sending_inv_def)
  have n0: "length m \<noteq> 0" using m(1) by simp
  consider (request) "has_state c STATUS_FLAGS_SEND_REQUESTED" "\<not> has_state c STATUS_FLAGS_SENDING" "\<not> has_state c STATUS_FLAGS_MESSAGE_SENT"
      "fresh_sender m c" "is_server_side c = server" "d = []"
    | (in_progress) key where "\<not> has_state c STATUS_FLAGS_SEND_REQUESTED" "has_state c STATUS_FLAGS_SENDING" "\<not> has_state c STATUS_FLAGS_MESSAGE_SENT"
      "key_ok key" "(key = None) = server" "in_frame key m c d"
    | (all_sent) "\<not> has_state c STATUS_FLAGS_SEND_REQUESTED" "\<not> has_state c STATUS_FLAGS_SENDING"
    using i by (auto simp: sending_inv_def)
  then show ?thesis
  proof cases
    case request
    let ?c = "clear_state STATUS_FLAGS_SEND_REQUESTED c"
    obtain st2 c2 where b: "buffer_send_websocket os (length m) ?c w = (st2, c2, w')" "communicate_send2 c2 now st2 = (OK, c')"
      using r n request n0
      by (auto simp: tcp_communicate_send_def communicate_send1_def tcp_buffer_send_def split: prod.splits)
    obtain st0 c0 w0 where p: "prepare_frame os (length m) ?c w = (st0, c0, w0)" by (metis surj_pair)
    have "fresh_sender m ?c" using request by simp
    from prepare_frame_step [OF this p m] obtain key where key: "side_key ?c key" "st0 = OK" "in_frame key m c0 []" "sent w0 = sent w"
      "same_sender ?c c0" by (auto simp: same_sender_def)
    have again: "prepare_frame os (length m) c0 w0 = (OK, c0, w0)" using key(3) n0 by (simp add: prepare_frame_def in_frame_def Let_def)
    then have b0: "buffer_send_websocket os (length m) c0 w0 = (st2, c2, w')" using b(1) p key(2) by (simp add: buffer_send_websocket_def)
    have h: "has_state c0 x = has_state ?c x" for x by (rule has_state_same) (use key(5) in \<open>simp add: same_sender_def\<close>)
    show ?thesis
      by (rule sending_finish [OF key(3) _ _ m _ _ _ _ _ _ b0 b(2)])
         (use key n request o in \<open>auto simp: side_key_def same_sender_def h conn_flag_simps\<close>)
  next
    case in_progress
    have p0: "cn_send_buffer_pos c = 0" using in_progress(6) by (simp add: in_frame_def Let_def)
    obtain st2 c2 where b: "buffer_send_websocket os (length m) c w = (st2, c2, w')" "communicate_send2 c2 now st2 = (OK, c')"
      using r n in_progress n0 m(2)
      by (auto simp: tcp_communicate_send_def communicate_send1_def tcp_buffer_send_def p0 sz_sub_nowrap split: prod.splits)
    show ?thesis
      by (rule sending_finish [OF in_progress(6,4,5) m n(1,2) in_progress(1,3) n(3,4) b o])
  next
    case all_sent
    then have "c' = c \<and> w' = w" using r n by (simp add: tcp_communicate_send_def communicate_send1_def)
    then show ?thesis using i o by blast
  qed
qed

lemma sending_run:
  assumes "(send_call os)\<^sup>*\<^sup>* x y" and "ready_to_send m (fst x)" and m: "m \<noteq> []" "length m \<le> 65535"
  shows "\<exists>d. sending_inv m (is_server_side (fst x)) (fst y) d \<and> sent (snd y) = sent (snd x) @ d"
  using assms(1)
proof induction
  case base
  then show ?case using assms(2) by (auto simp: sending_inv_def ready_to_send_def)
next
  case (step y z)
  then show ?case using sending_step [OF _ _ _ m] by (fastforce simp: send_call_def prod_eq_iff)
qed

lemma receiving_run:
  assumes "(recv_call os)\<^sup>*\<^sup>* x y" and "receiving key m (fst x) (waiting (snd x))" and "key_ok key" and "length m \<le> 65535"
  shows "receiving key m (fst y) (waiting (snd y))"
  using assms(1)
proof induction
  case (step y z)
  then obtain len where r: "tcp_buffer_recv os len (fst y) (snd y) = (OK, fst z, snd z)" by (auto simp: recv_call_def)
  have "transport_has (fst y) STATE_IS_WEBSOCKET" using step.IH by (simp add: receiving_def)
  then have "buffer_recv_websocket os len (fst y) (snd y) = (OK, fst z, snd z)" using r by (simp add: tcp_buffer_recv_def)
  from recv_step(2) [OF step.IH this assms(3,4) refl] show ?case .
qed (rule assms(2))

end

lemma ready_receiving:
  "ready_to_receive c \<Longrightarrow> length m \<le> length (cn_recv_buffer c) \<Longrightarrow> receiving key m c (frame key m)"
  by (simp add: ready_to_receive_def receiving_def in_header_def Let_def)

lemma receiving_result:
  assumes "receiving key m c r"
  shows "cn_recv_buffer_pos c \<le> length m" and "take (cn_recv_buffer_pos c) (cn_recv_buffer c) = take (cn_recv_buffer_pos c) m"
    and "r = [] \<Longrightarrow> cn_recv_buffer_pos c = length m"
  using assms by (auto simp: receiving_def in_header_def in_payload_def behind_frame_def Let_def frame_def)

text \<open>
  C24. A message of at most 65535 bytes that is sent over a websocket arrives. When one side reports it as
  sent, the other side, which gets the bytes that left, in whatever pieces the two sockets take and deliver
  them, has a first part of the message in its buffer, the whole message once all bytes have come, and
  nothing of it behind its buffer; with masking by a client as without.
\<close>

theorem websocket_transfer:
  assumes "byte_pipe os sent waiting" and "byte_pipe os' sent' waiting'"
    and "ready_to_send m c" and "m \<noteq> []" and "length m \<le> 65535"
    and "(send_call os)\<^sup>*\<^sup>* (c, w) (c1, w1)" and "has_state c1 STATUS_FLAGS_MESSAGE_SENT"
    and "sent w1 = sent w @ waiting' v"
    and "ready_to_receive c2" and "length m \<le> length (cn_recv_buffer c2)"
    and "(recv_call os')\<^sup>*\<^sup>* (c2, v) (c3, v1)"
  shows "take (cn_recv_buffer_pos c3) (cn_recv_buffer c3) = take (cn_recv_buffer_pos c3) m \<and>
    (waiting' v1 = [] \<longrightarrow> take (cn_recv_buffer_pos c3) (cn_recv_buffer c3) = m) \<and>
    (\<forall>len. fst (tcp_buffer_recv os' len c3 v1) \<noteq> Err UNDEFINED_BEHAVIOUR)"
proof -
  obtain d where d: "sending_inv m (is_server_side c) c1 d" "sent w1 = sent w @ d"
    using byte_pipe.sending_run [OF assms(1,6) _ assms(4,5)] assms(3) by auto
  then obtain key where k: "key_ok key" "waiting' v = frame key m"
    using assms(7,8) by (auto simp: sending_inv_def)
  have "receiving key m c2 (waiting' v)" using ready_receiving [OF assms(9,10)] k(2) by simp
  then have r: "receiving key m c3 (waiting' v1)"
    using byte_pipe.receiving_run [OF assms(2,11) _ k(1) assms(5)] by simp
  have web: "transport_has c3 STATE_IS_WEBSOCKET" using r by (simp add: receiving_def)
  have "fst (tcp_buffer_recv os' len c3 v1) \<noteq> Err UNDEFINED_BEHAVIOUR" for len
    using byte_pipe.recv_step(1) [OF assms(2) r _ k(1) assms(5)] web
    by (metis prod.collapse tcp_buffer_recv_def)
  then show ?thesis using receiving_result [OF r] by auto
qed


section \<open>Witnesses\<close>

definition web_storage :: tcp_transport_storage where
  "web_storage = zero_transport_storage\<lparr>ts_tcp_transport_state := STATE_IS_WEBSOCKET\<rparr>"

definition web_sender :: connection where
  "web_sender = sample_connection\<lparr>cn_transport_storage := web_storage, cn_send_buffer := [1, 2, 3, 7, 7],
     cn_send_message_len := 3, cn_connection_state := STATUS_FLAGS_CONNECTED OR STATUS_FLAGS_SEND_REQUESTED\<rparr>"

definition web_receiver :: connection where
  "web_receiver = sample_connection\<lparr>cn_transport_storage := web_storage, cn_recv_buffer := replicate 8 0\<rparr>"

lemma pipe_send:
  assumes "pos + len \<le> length buf" and "0 < len"
  shows "tcp_socket_send_nonblocking pipe_os sk buf pos len (i, out) =
    (OK, sock_unflag SOCKET_FLAGS_SEND_WOULD_BLOCK sk, pos + len, (i, out @ chunk buf pos len))"
  using assms by (simp add: tcp_socket_send_nonblocking_def send_loop.simps pipe_os_def)

text \<open>A socket that takes all it is offered sends a message in one call.\<close>

lemma pipe_sends:
  assumes r: "ready_to_send m c" and m: "m \<noteq> []" "length m \<le> 65535"
  shows "\<exists>c1 w1. tcp_communicate_send pipe_os now c w = (OK, c1, w1) \<and> has_state c1 STATUS_FLAGS_MESSAGE_SENT"
proof -
  let ?c = "clear_state STATUS_FLAGS_SEND_REQUESTED c" and ?n = "length m"
  have n: "unat (cn_send_message_len c) = ?n" "transport_has c STATE_IS_WEBSOCKET" "fresh_sender m ?c" "?n \<noteq> 0"
    "has_state c STATUS_FLAGS_SEND_REQUESTED" "\<not> has_state c STATUS_FLAGS_ERROR" "\<not> has_state c STATUS_FLAGS_MESSAGE_SENT_CONSUMED"
    using r m(1) by (simp_all add: ready_to_send_def)
  obtain st0 c0 w0 where p: "prepare_frame pipe_os ?n ?c w = (st0, c0, w0)" by (metis surj_pair)
  from pipe.prepare_frame_step [OF n(3) p m] obtain key where key: "side_key ?c key" "st0 = OK" "in_frame key m c0 []" "same_sender ?c c0"
    by (auto simp: same_sender_def)
  have k: "key_ok key" using key(1) by (simp add: side_key_def)
  let ?h = "frame_header key ?n" and ?s = "storage c0"
  have s: "ts_send_websocket_header_len ?s = length ?h" "length ?h \<le> length (ts_send_websocket_header_buffer ?s)"
    "ts_send_websocket_frame_len ?s = ?n" "ts_send_websocket_frame_buffer_end ?s = ?n" "?n \<le> length (cn_send_buffer c0)"
    "ts_send_websocket_header_pos ?s + ts_send_websocket_frame_buffer_pos ?s = 0 \<or> frame key m = []"
    using key(3) by (simp_all add: in_frame_def Let_def)
  have h: "0 < length ?h" "frame key m \<noteq> []" using m(1) by (simp_all add: length_frame_header [OF k] frame_def flip: length_greater_0_conv)
  then have z: "ts_send_websocket_header_pos ?s = 0" "ts_send_websocket_frame_buffer_pos ?s = 0" using s(6) by auto
  have sz: "sz_sub ?n 0 = ?n" using m(2) by (simp add: sz_sub_nowrap)
  obtain i out where w0: "w0 = (i, out)" by fastforce
  let ?b = "ts_send_websocket_header_buffer ?s"
  let ?sk = "sock_unflag SOCKET_FLAGS_SEND_WOULD_BLOCK (co_sock c0)"
  have s1: "tcp_socket_send_nonblocking pipe_os (co_sock c0) ?b 0 (length ?h) w0 = (OK, ?sk, length ?h, (i, out @ chunk ?b 0 (length ?h)))"
    using pipe_send [of 0 "length ?h" ?b] s(2) h(1) by (simp add: w0)
  let ?c1 = "in_storage (\<lambda>s. s\<lparr>ts_send_websocket_header_pos := length ?h\<rparr>) (c0\<lparr>co_sock := ?sk\<rparr>)"
  let ?w1 = "(i, out @ chunk ?b 0 (length ?h))"
  have "\<exists>sk w2. tcp_socket_send_nonblocking pipe_os (co_sock ?c1) (cn_send_buffer c0) 0 ?n ?w1 = (OK, sk, ?n, w2)"
    using pipe_send [of 0 ?n "cn_send_buffer c0"] s(5) n(4) by simp
  then obtain sk w2 where s2: "tcp_socket_send_nonblocking pipe_os (co_sock ?c1) (cn_send_buffer c0) 0 ?n ?w1 = (OK, sk, ?n, w2)" by blast
  let ?c2 = "finish_frame (in_storage (\<lambda>s. s\<lparr>ts_send_websocket_frame_buffer_pos := ?n\<rparr>) (?c1\<lparr>co_sock := sk\<rparr>))"
  have b: "buffer_send_websocket pipe_os ?n ?c w = (OK, ?c2, w2)"
    using h(1) s1 s2 by (simp add: buffer_send_websocket_def p key(2) send_frame_header_def send_frame_data_def s z sz Let_def)
  have pos: "cn_send_buffer_pos ?c2 = ?n" by (simp add: finish_frame_def transport_clear_def s(4))
  have "cn_send_message_len ?c2 = cn_send_message_len c"
    using key(4) by (simp add: finish_frame_def transport_clear_def same_sender_def clear_state_def)
  then have "unat (cn_send_message_len ?c2) = ?n" using n(1) by simp
  then have "communicate_send2 ?c2 now OK =
      (OK, (set_state STATUS_FLAGS_MESSAGE_SENT (clear_state STATUS_FLAGS_SENDING ?c2))\<lparr>cn_last_send_message_time := now\<rparr>)"
    unfolding communicate_send2_def pos by simp
  then have "tcp_communicate_send pipe_os now c w =
      (OK, (set_state STATUS_FLAGS_MESSAGE_SENT (clear_state STATUS_FLAGS_SENDING ?c2))\<lparr>cn_last_send_message_time := now\<rparr>, w2)"
    using n b by (simp add: tcp_communicate_send_def communicate_send1_def tcp_buffer_send_def)
  then show ?thesis by (auto simp: conn_flag_simps)
qed

lemma pipe_recv_exact:
  assumes "pos + n \<le> length buf" and "n \<le> length i" and "0 < n"
  shows "tcp_socket_recv_nonblocking pipe_os sk buf pos n (i, out) =
    (OK, sock_unflag SOCKET_FLAGS_RECEIVE_WOULD_BLOCK sk, overwrite buf pos (take n i), pos + n, (drop n i, out))"
  using assms by (auto simp: tcp_socket_recv_nonblocking_def recv_loop.simps pipe_os_def min_def)

lemma pipe_header:
  assumes h: "in_header key m c i" and "j = ts_recv_websocket_header_pos (storage c)" and "j < n" and "n \<le> length (frame_header key (length m))"
    and k: "key_ok key"
  shows "\<exists>c'. recv_frame_header pipe_os n c (i, out) = (OK, c', (drop (n - j) i, out)) \<and> in_header key m c' (drop (n - j) i) \<and>
    ts_recv_websocket_header_pos (storage c') = n \<and> cn_recv_buffer c' = cn_recv_buffer c"
proof -
  let ?b = "ts_recv_websocket_header_buffer (storage c)"
  have f: "length ?b = 16" "i = drop j (frame key m)" using h by (simp_all add: in_header_def Let_def assms(2))
  have l: "n \<le> 8" using assms(4) length_header_le [OF k, of "length m"] by simp
  have "n \<le> length (frame key m)" using assms(4) by (simp add: frame_def)
  then have r: "tcp_socket_recv_nonblocking pipe_os (co_sock c) ?b j (n - j) (i, out) = (OK, sock_unflag SOCKET_FLAGS_RECEIVE_WOULD_BLOCK (co_sock c),
      overwrite ?b j (take (n - j) i), n, (drop (n - j) i, out))"
    using pipe_recv_exact [of j "n - j" ?b i] assms(3) f l by simp
  obtain c' where c': "recv_frame_header pipe_os n c (i, out) = (OK, c', (drop (n - j) i, out))" "ts_recv_websocket_header_pos (storage c') = n"
    using r assms(2,3) by (simp add: recv_frame_header_def error_if_failed_def Let_def)
  then show ?thesis using pipe.recv_header_step(2) [OF _ c'(1) assms(4) k refl] h by auto
qed

text \<open>A socket that has all bytes of a frame delivers it in one call.\<close>

lemma pipe_receives:
  assumes r: "ready_to_receive c" and k: "key_ok key" and m: "m \<noteq> []" "length m \<le> 65535" "length m \<le> length (cn_recv_buffer c)" "length m \<le> len"
  shows "\<exists>c3. tcp_buffer_recv pipe_os len c (frame key m, out) = (OK, c3, ([], out))"
proof -
  let ?h = "frame_header key (length m)"
  have i: "in_header key m c (frame key m)" "transport_has c STATE_IS_WEBSOCKET" "\<not> transport_has c STATE_RECV_WEBSOCKET_IN_FRAME"
    "ts_recv_websocket_header_pos (storage c) = 0"
    using r by (simp_all add: ready_to_receive_def in_header_def Let_def)
  have l2: "2 \<le> length ?h" by (simp add: length_frame_header [OF k])
  have n: "next_frame c = c" using i(3) by (simp add: next_frame_def Let_def)
  obtain c1 where c1: "recv_frame_header pipe_os 2 c (frame key m, out) = (OK, c1, (drop 2 (frame key m), out))"
    "in_header key m c1 (drop 2 (frame key m))" "ts_recv_websocket_header_pos (storage c1) = 2" "cn_recv_buffer c1 = cn_recv_buffer c"
    using pipe_header [OF i(1) i(4) [symmetric] _ l2 k, of out] by auto
  have "ts_recv_websocket_header_buffer (storage c1) ! Suc 0 = ?h ! Suc 0"
    using c1(2,3) by (intro nth_take_eq [of 2]) (auto simp: in_header_def Let_def)
  then have size: "recv_websocket_header_size (ts_recv_websocket_header_buffer (storage c1) ! 1) = length ?h"
    using header_size [OF k] by simp
  obtain c2 where c2: "recv_frame_header pipe_os (length ?h) c1 (drop 2 (frame key m), out) = (OK, c2, (frame_payload key m, out))"
    "in_header key m c2 (frame_payload key m)" "ts_recv_websocket_header_pos (storage c2) = length ?h" "cn_recv_buffer c2 = cn_recv_buffer c"
  proof (cases "length ?h = 2")
    case True
    then have "drop 2 (frame key m) = frame_payload key m" by (simp add: frame_def)
    then show ?thesis using c1 True by (intro that [of c1]) (simp_all add: recv_frame_header_def)
  next
    case False
    then have "2 < length ?h" using l2 by simp
    moreover have "drop (length ?h - 2) (drop 2 (frame key m)) = frame_payload key m" using l2 by (simp add: frame_def)
    ultimately obtain c2 where "recv_frame_header pipe_os (length ?h) c1 (drop 2 (frame key m), out) = (OK, c2, (frame_payload key m, out))"
      "in_header key m c2 (frame_payload key m)" "ts_recv_websocket_header_pos (storage c2) = length ?h" "cn_recv_buffer c2 = cn_recv_buffer c1"
      using pipe_header [OF c1(2) c1(3) [symmetric] _ le_refl k, of out] by auto
    then show ?thesis using c1(4) by (intro that [of c2]) simp_all
  qed
  let ?c = "begin_frame (length ?h) c2"
  have p: "in_payload key m ?c (frame_payload key m)" by (rule begin_frame_payload [OF c2(2,3) k m(2)])
  have p0: "cn_recv_buffer_pos ?c = 0"
  proof -
    have "cn_recv_buffer_pos c2 = 0" using c2(2) by (simp add: in_header_def Let_def)
    then show ?thesis by (simp add: begin_frame_def Let_def transport_set_def transport_clear_def in_storage_def)
  qed
  have b: "cn_recv_buffer ?c = cn_recv_buffer c"
    using c2(4) by (simp add: begin_frame_def Let_def transport_set_def transport_clear_def in_storage_def)
  have s: "ts_recv_websocket_frame_len (storage ?c) = length m" "ts_recv_websocket_frame_pos (storage ?c) = 0"
    using p p0 by (simp_all add: in_payload_def Let_def)
  have sz: "sz_add (length m) (sz_sub 0 0) = length m" using m(2) by (simp add: sz_sub_nowrap)
  have "tcp_socket_recv_nonblocking pipe_os (co_sock ?c) (cn_recv_buffer ?c) 0 (length m) (frame_payload key m, out) =
      (OK, sock_unflag SOCKET_FLAGS_RECEIVE_WOULD_BLOCK (co_sock ?c), overwrite (cn_recv_buffer ?c) 0 (frame_payload key m), length m, ([], out))"
    using pipe_recv_exact [of 0 "length m" "cn_recv_buffer ?c" "frame_payload key m"] m(1,3) b by simp
  then have "\<exists>c3. recv_payload pipe_os len ?c (frame_payload key m, out) = (OK, c3, ([], out))"
    using m(4) by (simp add: recv_payload_def recv_into_buffer_def s sz p0 Let_def cong: if_cong)
  then show ?thesis
    using i n c1 c2 size by (simp add: tcp_buffer_recv_def buffer_recv_websocket_def Let_def)
qed

lemma web_ready: "ready_to_send [1, 2, 3] web_sender" "ready_to_receive web_receiver"
  by (simp_all add: ready_to_send_def ready_to_receive_def web_sender_def web_receiver_def web_storage_def zero_transport_storage_def
      sample_connection_def fresh_sender_def transport_has_def has_state_def status_flags_defs FLAGS_CHECK_def transport_state_defs)

text \<open>The sample client sends three bytes to the sample receiver.\<close>

lemma websocket_transfer_witness:
  "\<exists>c1 w1 c3. tcp_communicate_send pipe_os 5 web_sender ([], []) = (OK, c1, w1) \<and>
     tcp_buffer_recv pipe_os 64 web_receiver (snd w1, []) = (OK, c3, ([], [])) \<and>
     take (cn_recv_buffer_pos c3) (cn_recv_buffer c3) = [1, 2, 3]"
proof -
  obtain c1 w1 where s: "tcp_communicate_send pipe_os 5 web_sender ([], []) = (OK, c1, w1)" "has_state c1 STATUS_FLAGS_MESSAGE_SENT"
    using pipe_sends [OF web_ready(1), of 5 "([], [])"] by auto
  have run: "(send_call pipe_os)\<^sup>*\<^sup>* (web_sender, ([], [])) (c1, w1)"
    by (rule r_into_rtranclp) (use s(1) in \<open>auto simp: send_call_def\<close>)
  obtain key where key: "key_ok key" "snd w1 = frame key [1, 2, 3]"
    using pipe.sending_run [OF run _ ] web_ready(1) s(2) by (force simp: sending_inv_def)
  then obtain c3 where r: "tcp_buffer_recv pipe_os 64 web_receiver (snd w1, []) = (OK, c3, ([], []))"
    using pipe_receives [OF web_ready(2) key(1), of "[1, 2, 3]" 64 "[]"] by (auto simp: web_receiver_def)
  have rr: "(recv_call pipe_os)\<^sup>*\<^sup>* (web_receiver, (snd w1, [])) (c3, ([], []))"
    by (rule r_into_rtranclp) (use r in \<open>auto simp: recv_call_def\<close>)
  have "take (cn_recv_buffer_pos c3) (cn_recv_buffer c3) = take (cn_recv_buffer_pos c3) [1, 2, 3] \<and>
      (fst ([] :: byte list, [] :: byte list) = [] \<longrightarrow> take (cn_recv_buffer_pos c3) (cn_recv_buffer c3) = [1, 2, 3]) \<and>
      (\<forall>len. fst (tcp_buffer_recv pipe_os len c3 ([], [])) \<noteq> Err UNDEFINED_BEHAVIOUR)"
    by (rule websocket_transfer [OF pipe.byte_pipe_axioms pipe.byte_pipe_axioms web_ready(1) _ _ run s(2) _ web_ready(2) _ rr])
       (simp_all add: web_receiver_def)
  then show ?thesis using s r by (metis fst_conv)
qed



section \<open>Where the framing fails\<close>

text \<open>What the receiver knows of the frame it is in.\<close>

definition recv_frame :: "connection \<Rightarrow> bool \<times> bool \<times> nat \<times> nat" where
  "recv_frame c = (transport_has c STATE_IS_WEBSOCKET, transport_has c STATE_RECV_WEBSOCKET_IN_FRAME,
     ts_recv_websocket_frame_pos (storage c), ts_recv_websocket_frame_len (storage c))"

text \<open>A receiver whose place in its frame is behind the frame's end.\<close>

definition past_frame :: "connection \<Rightarrow> bool" where
  "past_frame c \<longleftrightarrow> transport_has c STATE_IS_WEBSOCKET \<and> transport_has c STATE_RECV_WEBSOCKET_IN_FRAME \<and>
     ts_recv_websocket_frame_pos (storage c) > ts_recv_websocket_frame_len (storage c)"

text \<open>
  What may happen to a connection between two looks at its frame: a call that receives or sends, whatever
  it returns, or any other change that leaves the frame alone.
\<close>

definition later_call :: "'w os \<Rightarrow> connection \<times> 'w \<Rightarrow> connection \<times> 'w \<Rightarrow> bool" where
  "later_call os x y \<longleftrightarrow> (\<exists>len. snd (tcp_buffer_recv os len (fst x) (snd x)) = y) \<or>
     (\<exists>now. snd (tcp_communicate_recv os now (fst x) (snd x)) = y) \<or>
     (\<exists>now. snd (tcp_communicate_send os now (fst x) (snd x)) = y) \<or> recv_frame (fst y) = recv_frame (fst x)"

lemma recv_frame_storage: "storage c' = storage c \<Longrightarrow> recv_frame c' = recv_frame c"
  by (simp add: recv_frame_def transport_has_def)

lemma lost_frame: "recv_frame c' = recv_frame c \<Longrightarrow> past_frame c' = past_frame c"
  by (simp add: recv_frame_def past_frame_def)

lemma lost_payload: "past_frame c \<Longrightarrow> recv_payload os len c w = (st, c', w') \<Longrightarrow> past_frame c'"
  by (auto simp: recv_payload_def recv_into_buffer_def Let_def past_frame_def transport_has_def in_storage_def set_state_def
      split: prod.splits status.splits)

lemma lost_buffer_recv: "past_frame c \<Longrightarrow> tcp_buffer_recv os len c w = (st, c', w') \<Longrightarrow> past_frame c'"
  using lost_payload [of c os len w st c' w']
  by (auto simp: tcp_buffer_recv_def buffer_recv_websocket_def next_frame_def Let_def past_frame_def split: if_splits)

lemma recv1_storage: "communicate_recv1 c now n = (st, c', n') \<Longrightarrow> storage c' = storage c"
  by (auto simp: communicate_recv1_def drop_consumed_def Let_def set_state_def clear_state_def
      split: if_splits status.splits prod.splits option.splits)

lemma recv2_storage: "communicate_recv2 c now r = (st, c') \<Longrightarrow> storage c' = storage c"
  by (auto simp: communicate_recv2_def connection_verify_preamble_def preamble_error_def Let_def set_state_def clear_state_def
      split: if_splits status.splits prod.splits option.splits)

lemma lost_communicate_recv:
  assumes "past_frame c" and "tcp_communicate_recv os now c w = (st, c', w')"
  shows "past_frame c'"
proof -
  obtain st1 c1 n where r1: "communicate_recv1 c now 0 = (st1, c1, n)" by (metis surj_pair)
  have l1: "past_frame c1" using lost_frame [OF recv_frame_storage [OF recv1_storage [OF r1]]] assms(1) by blast
  obtain st2 c2 w2 where r2: "tcp_buffer_recv os n c1 w = (st2, c2, w2)" by (metis surj_pair)
  obtain st3 c3 where r3: "communicate_recv2 c2 now st2 = (st3, c3)" by (metis surj_pair)
  have "past_frame c3" using lost_frame [OF recv_frame_storage [OF recv2_storage [OF r3]]] lost_buffer_recv [OF l1 r2] by blast
  moreover have "c' = c1 \<or> c' = c3" using assms(2) r1 r2 r3 by (simp add: tcp_communicate_recv_def split: if_splits)
  ultimately show ?thesis using l1 by blast
qed

text \<open>Sending leaves the received frame alone.\<close>

lemma recv_frame_in_storage:
  assumes "ts_tcp_transport_state (f (storage c)) = ts_tcp_transport_state (storage c)"
    and "ts_recv_websocket_frame_pos (f (storage c)) = ts_recv_websocket_frame_pos (storage c)"
    and "ts_recv_websocket_frame_len (f (storage c)) = ts_recv_websocket_frame_len (storage c)"
  shows "recv_frame (in_storage f c) = recv_frame c"
  using assms by (simp add: recv_frame_def in_storage_def transport_has_def)

lemma recv_frame_mask:
  "recv_frame (transport_set STATE_SEND_WEBSOCKET_ENABLE_MASK c) = recv_frame c"
  "recv_frame (transport_clear STATE_SEND_WEBSOCKET_ENABLE_MASK c) = recv_frame c"
  by (simp_all add: transport_set_def transport_clear_def recv_frame_def transport_has_def in_storage_def FLAGS_SET_def FLAGS_CHECK_CLEAR)
     (simp_all add: FLAGS_CHECK_def bit.conj_disj_distrib2 transport_state_defs)

lemma recv_frame_upd:
  "recv_frame (c\<lparr>co_sock := sk\<rparr>) = recv_frame c" "recv_frame (c\<lparr>cn_send_buffer_pos := p\<rparr>) = recv_frame c"
  "recv_frame (c\<lparr>cn_send_buffer := b\<rparr>) = recv_frame c"
  by (rule recv_frame_storage, simp)+

lemmas recv_frame_simps = recv_frame_in_storage recv_frame_mask recv_frame_upd

lemma prepare_mask_frame: "prepare_mask os c w = (c', w') \<Longrightarrow> recv_frame c' = recv_frame c"
  by (auto simp: prepare_mask_def recv_frame_simps Let_def split: if_splits prod.splits)

lemma prepare_header_frame: "recv_frame (prepare_header len c) = recv_frame c"
  by (simp add: prepare_header_def recv_frame_simps Let_def)

lemma mask_send_frame: "mask_send_buffer n c = (st, c') \<Longrightarrow> recv_frame c' = recv_frame c"
  by (auto simp: mask_send_buffer_def recv_frame_simps split: if_splits)

lemma prepare_frame_keeps: "prepare_frame os len c w = (st, c', w') \<Longrightarrow> recv_frame c' = recv_frame c"
  by (auto simp: prepare_frame_def Let_def recv_frame_simps prepare_header_frame
      dest!: prepare_mask_frame mask_send_frame split: if_splits prod.splits)

lemma send_frame_keeps:
  "send_frame_header os c w = (st, c', w') \<Longrightarrow> recv_frame c' = recv_frame c"
  "send_frame_data os c w = (st, c', w') \<Longrightarrow> recv_frame c' = recv_frame c"
  "recv_frame (finish_frame c) = recv_frame c"
  by (auto simp: send_frame_header_def send_frame_data_def finish_frame_def recv_frame_simps Let_def split: if_splits prod.splits)

lemma buffer_send_keeps:
  assumes "tcp_buffer_send os len c w = (st, c', w')"
  shows "recv_frame c' = recv_frame c"
proof -
  obtain st1 c1 w1 where r1: "prepare_frame os len c w = (st1, c1, w1)" by (metis surj_pair)
  obtain st2 c2 w2 where r2: "send_frame_header os c1 w1 = (st2, c2, w2)" by (metis surj_pair)
  obtain st3 c3 w3 where r3: "send_frame_data os c2 w2 = (st3, c3, w3)" by (metis surj_pair)
  note k = prepare_frame_keeps [OF r1] send_frame_keeps(1) [OF r2] send_frame_keeps(2) [OF r3]
  show ?thesis
  proof (cases "transport_has c STATE_IS_WEBSOCKET")
    case True
    then have "c' \<in> {c1, c2, c3, finish_frame c3}"
      using assms r1 r2 r3 by (simp add: tcp_buffer_send_def buffer_send_websocket_def Let_def split: if_splits status.splits)
    then show ?thesis using k send_frame_keeps(3) [of c3] by auto
  next
    case False
    then show ?thesis
      using assms by (auto simp: tcp_buffer_send_def send_from_buffer_def intro: recv_frame_storage split: prod.splits)
  qed
qed

lemma send1_storage: "communicate_send1 c now n = (st, c', n') \<Longrightarrow> storage c' = storage c"
  by (auto simp: communicate_send1_def clear_state_def split: if_splits)

lemma send2_storage: "communicate_send2 c now r = (st, c') \<Longrightarrow> storage c' = storage c"
  by (auto simp: communicate_send2_def set_state_def clear_state_def split: if_splits)

lemma send_keeps_frame: "tcp_communicate_send os now c w = (st, c', w') \<Longrightarrow> recv_frame c' = recv_frame c"
proof -
  assume s: "tcp_communicate_send os now c w = (st, c', w')"
  obtain st1 c1 n where r1: "communicate_send1 c now 0 = (st1, c1, n)" by (metis surj_pair)
  obtain st2 c2 w2 where r2: "tcp_buffer_send os n c1 w = (st2, c2, w2)" by (metis surj_pair)
  obtain st3 c3 where r3: "communicate_send2 c2 now st2 = (st3, c3)" by (metis surj_pair)
  have "c' = c1 \<or> c' = c3" using s r1 r2 r3 by (simp add: tcp_communicate_send_def split: if_splits)
  then show ?thesis
    using recv_frame_storage [OF send1_storage [OF r1]] buffer_send_keeps [OF r2] recv_frame_storage [OF send2_storage [OF r3]]
    by auto
qed

lemma lost_later_call:
  assumes "later_call os y z" and "past_frame (fst y)"
  shows "past_frame (fst z)"
  using assms(1) unfolding later_call_def
proof (elim disjE exE)
  fix len assume "snd (tcp_buffer_recv os len (fst y) (snd y)) = z"
  then obtain st where "tcp_buffer_recv os len (fst y) (snd y) = (st, fst z, snd z)" by (metis prod.collapse)
  then show ?thesis by (rule lost_buffer_recv [OF assms(2)])
next
  fix now assume "snd (tcp_communicate_recv os now (fst y) (snd y)) = z"
  then obtain st where "tcp_communicate_recv os now (fst y) (snd y) = (st, fst z, snd z)" by (metis prod.collapse)
  then show ?thesis by (rule lost_communicate_recv [OF assms(2)])
next
  fix now assume "snd (tcp_communicate_send os now (fst y) (snd y)) = z"
  then obtain st where "tcp_communicate_send os now (fst y) (snd y) = (st, fst z, snd z)" by (metis prod.collapse)
  from lost_frame [OF send_keeps_frame [OF this]] show ?thesis using assms(2) by simp
next
  assume "recv_frame (fst z) = recv_frame (fst y)"
  from lost_frame [OF this] show ?thesis using assms(2) by simp
qed

lemma lost_for_good: "(later_call os)\<^sup>*\<^sup>* x y \<Longrightarrow> past_frame (fst x) \<Longrightarrow> past_frame (fst y)"
proof (induction rule: rtranclp_induct)
  case (step y z)
  have "past_frame (fst y)" by (rule step.IH [OF step.prems])
  with step.hyps(2) show ?case by (rule lost_later_call)
qed simp

text \<open>
  C25. In the middle of a frame the receiver asks for the wrong number of bytes: the length of the whole
  frame and what the buffer holds, less its place in the frame. When the buffer is not empty, and holds at
  least the part of the frame that has come, the call may receive that many bytes, and the operating
  system, whichever it is, delivers all that is asked for, the receiver's place in the frame
  passes the frame's end, by as many bytes as the buffer held. From then on, whatever calls receive or
  send and whatever else leaves the frame alone, it takes itself to be inside that frame and does not
  start another one.
\<close>

theorem websocket_reads_past_frame:
  assumes "transport_has c STATE_IS_WEBSOCKET" and "transport_has c STATE_RECV_WEBSOCKET_IN_FRAME"
    and "ts_recv_websocket_frame_pos (storage c) = p" and "ts_recv_websocket_frame_len (storage c) = n"
    and "cn_recv_buffer_pos c = q" and "p < n" and "p \<le> q" and "0 < q" and "n + q < 2 ^ 64" and "n + q - p \<le> len"
    and "tcp_socket_recv_nonblocking os (co_sock c) (cn_recv_buffer c) q (n + q - p) w = (OK, sk, buf, q + (n + q - p), w1)"
  shows "\<exists>c1. tcp_buffer_recv os len c w = (OK, c1, w1) \<and>
    ts_recv_websocket_frame_pos (storage c1) = n + q \<and> ts_recv_websocket_frame_len (storage c1) = n \<and>
    (\<forall>c2 w2. (later_call os)\<^sup>*\<^sup>* (c1, w1) (c2, w2) \<longrightarrow>
       transport_has c2 STATE_RECV_WEBSOCKET_IN_FRAME \<and> next_frame c2 = c2 \<and>
       ts_recv_websocket_frame_pos (storage c2) > ts_recv_websocket_frame_len (storage c2))"
proof -
  have sz: "sz_add n (sz_sub q p) = n + q - p" using assms(6,7,9) by (simp add: sz_sub_nowrap sz_add_def)
  have nf: "next_frame c = c" using assms(3,4,6) by (simp add: next_frame_def Let_def)
  obtain c1 where c1: "recv_payload os len c w = (OK, c1, w1)" "recv_frame c1 = (True, True, n + q, n)"
    using assms by (simp add: recv_payload_def recv_into_buffer_def sz Let_def recv_frame_def transport_has_def in_storage_def)
  have "past_frame c1" using c1(2) assms(8) by (simp add: past_frame_def recv_frame_def)
  then have "past_frame c2" if "(later_call os)\<^sup>*\<^sup>* (c1, w1) (c2, w2)" for c2 w2 using lost_for_good [OF that] by simp
  then have "transport_has c2 STATE_RECV_WEBSOCKET_IN_FRAME \<and> next_frame c2 = c2 \<and>
       ts_recv_websocket_frame_pos (storage c2) > ts_recv_websocket_frame_len (storage c2)"
    if "(later_call os)\<^sup>*\<^sup>* (c1, w1) (c2, w2)" for c2 w2 using that by (fastforce simp: past_frame_def next_frame_def Let_def)
  moreover have "tcp_buffer_recv os len c w = (OK, c1, w1)"
    using c1(1) assms(1,2) nf by (simp add: tcp_buffer_recv_def buffer_recv_websocket_def Let_def)
  ultimately show ?thesis using c1(2) by (auto simp: recv_frame_def)
qed

text \<open>A receiver with one of the two bytes of an unmasked frame, and the next frame already there.\<close>

definition web_midframe :: connection where
  "web_midframe = web_receiver\<lparr>cn_recv_buffer := [5, 0, 0, 0], cn_recv_buffer_pos := 1,
     cn_transport_storage := web_storage\<lparr>ts_tcp_transport_state := STATE_IS_WEBSOCKET OR STATE_RECV_WEBSOCKET_IN_FRAME,
       ts_recv_websocket_frame_len := 2, ts_recv_websocket_frame_pos := 1\<rparr>\<rparr>"

lemma web_midframe_in:
  "transport_has web_midframe STATE_IS_WEBSOCKET" "transport_has web_midframe STATE_RECV_WEBSOCKET_IN_FRAME"
  "ts_recv_websocket_frame_pos (storage web_midframe) = 1" "ts_recv_websocket_frame_len (storage web_midframe) = 2"
  "cn_recv_buffer_pos web_midframe = 1" "cn_recv_buffer web_midframe = [5, 0, 0, 0]"
  by (simp_all add: web_midframe_def transport_has_def FLAGS_CHECK_def transport_state_defs)

lemma websocket_reads_past_frame_witness:
  "\<exists>c1 w1. tcp_buffer_recv pipe_os 8 web_midframe ([6, 0x82, 1, 9], []) = (OK, c1, w1) \<and> w1 = ([1, 9], []) \<and>
     ts_recv_websocket_frame_pos (storage c1) = 3 \<and> next_frame c1 = c1"
proof -
  have r: "tcp_socket_recv_nonblocking pipe_os (co_sock web_midframe) (cn_recv_buffer web_midframe) 1 (2 + 1 - 1) ([6, 0x82, 1, 9], []) =
      (OK, sock_unflag SOCKET_FLAGS_RECEIVE_WOULD_BLOCK (co_sock web_midframe),
       overwrite (cn_recv_buffer web_midframe) 1 (take 2 [6, 0x82, 1, 9]), 1 + (2 + 1 - 1), ([1, 9], []))"
    using pipe_recv_exact [of 1 2 "cn_recv_buffer web_midframe" "[6, 0x82, 1, 9]"] by (simp add: web_midframe_in)
  show ?thesis
    using websocket_reads_past_frame [OF web_midframe_in(1-5) _ _ _ _ _ r, of 8] by fastforce
qed

text \<open>
  The length in a frame's header is cut to 16 bits: for a message of more than 65535 bytes the header
  announces the length modulo 65536, while 65535 bytes follow.
\<close>

theorem frame_length_wraps:
  assumes "65535 < length m" and "length m < 2 ^ 63" and "fresh_sender m c" and "is_server_side c"
  shows "\<exists>c'. prepare_frame os (length m) c w = (OK, c', w) \<and>
    unat (ntohs (bytes_u16 (chunk (ts_send_websocket_header_buffer (storage c')) 2 2))) = length m mod 65536 \<and>
    ts_send_websocket_header_buffer (storage c') ! 1 = 126 \<and>
    ts_send_websocket_frame_buffer_end (storage c') - ts_send_websocket_frame_buffer_pos (storage c') = 65535"
proof -
  let ?c1 = "prepare_header (length m) c"
  let ?c2 = "in_storage (\<lambda>s. s\<lparr>ts_send_websocket_frame_len := 65535, ts_send_websocket_frame_buffer_end := 65535,
       ts_send_websocket_frame_buffer_pos := 0\<rparr>) ?c1"
  have s: "ts_send_websocket_frame_len (storage c) = 0" "length (ts_send_websocket_header_buffer (storage c)) = 8"
    "\<not> transport_has c STATE_SEND_WEBSOCKET_ENABLE_MASK" "cn_send_buffer_pos c = 0"
    using assms(3) by (simp_all add: fresh_sender_def Let_def)
  have c1: "is_server_side ?c1" "cn_send_buffer_pos ?c1 = 0" "ts_tcp_transport_state (storage ?c1) = ts_tcp_transport_state (storage c)"
    using assms(4) s(4) by (simp_all add: prepare_header_def in_storage_def Let_def is_server_side_def)
  have "\<not> transport_has ?c2 STATE_SEND_WEBSOCKET_ENABLE_MASK" using s(3) c1(3) by (simp add: transport_has_def)
  then have p: "prepare_frame os (length m) c w = (OK, ?c2, w)"
    using s(1) assms(1) c1 by (auto simp: prepare_frame_def frame_send_len_def UINT16_MAX_def prepare_mask_def mask_send_buffer_def Let_def)
  let ?l = "u16_bytes (htons (word_of_nat (length m)))"
  have b: "ts_send_websocket_header_buffer (storage ?c1) =
      (overwrite ((ts_send_websocket_header_buffer (storage c))[0 := 0x80 OR WEBSOCKET_FLAGS_BINARY]) 2 ?l)[1 := 126]"
    using assms(1) by (simp add: prepare_header_def Let_def)
  have ch: "chunk (ts_send_websocket_header_buffer (storage ?c1)) 2 2 = ?l"
  proof -
    have "chunk (xs[1 := v]) 2 2 = chunk xs 2 2" for xs :: "byte list" and v by (simp add: chunk_def)
    moreover have "chunk (overwrite xs 2 ?l) 2 2 = ?l" if "length xs = 8" for xs
      using chunk_overwrite_same [of 2 ?l xs] that by simp
    ultimately show ?thesis using s(2) by (simp add: b)
  qed
  have "ts_send_websocket_header_buffer (storage ?c1) ! 1 = 126" using s(2) by (simp add: b)
  then show ?thesis using p ch by (simp add: ntohs_htons unat_of_nat take_bit_eq_mod)
qed

text \<open>A server with 65636 bytes to send announces 100 of them.\<close>

definition web_big_sender :: "byte list \<Rightarrow> connection" where
  "web_big_sender m = web_sender\<lparr>cn_send_buffer := m, cn_config_flags := CONFIG_FLAGS_ISSERVER\<rparr>"

lemma web_big_sender_ready: "fresh_sender m (web_big_sender m)" "is_server_side (web_big_sender m)"
  by (simp_all add: web_big_sender_def web_sender_def web_storage_def zero_transport_storage_def sample_connection_def fresh_sender_def
      transport_has_def is_server_side_def CONFIG_FLAGS_ISSERVER_def FLAGS_CHECK_def transport_state_defs)

lemma frame_length_wraps_witness:
  "\<exists>c'. prepare_frame pipe_os 65636 (web_big_sender (replicate 65636 0)) ([], []) = (OK, c', ([], [])) \<and>
    unat (ntohs (bytes_u16 (chunk (ts_send_websocket_header_buffer (storage c')) 2 2))) = 100"
  using frame_length_wraps [OF _ _ web_big_sender_ready, of "replicate 65636 0" pipe_os "([], [])"] by auto

end
