(* ===== verification/RRL_UrlSpec.thy ===== *)
theory RRL_UrlSpec
  imports RRL_Url
begin

text \<open>
  Properties of the URL parser: a URL that is composed of its parts is parsed into them, and what the
  parser does with other texts.
\<close>


section \<open>Searching\<close>

lemma chunk_mid [simp]: "chunk (p @ s @ t) (length p) (length s) = s"
  by (simp add: chunk_def)

lemma find_delim_found:
  "\<forall>c\<in>set s. \<not> stop c \<and> ok c \<Longrightarrow> t \<noteq> [] \<Longrightarrow> stop (hd t) \<Longrightarrow>
    find_delim stop ok (p @ s @ t) (length p) = Inr (Some (length p + length s))"
proof (induction s arbitrary: p)
  case Nil
  then show ?case by (subst find_delim.simps) (auto simp: nth_append hd_conv_nth)
next
  case (Cons c s)
  have "find_delim stop ok (p @ (c # s) @ t) (length p) = find_delim stop ok (p @ (c # s) @ t) (Suc (length p))"
    using Cons.prems by (subst find_delim.simps) (simp add: nth_append)
  then show ?case using Cons.IH [of "p @ [c]"] Cons.prems by simp
qed

lemma find_delim_none:
  "\<forall>c\<in>set s. \<not> stop c \<and> ok c \<Longrightarrow> find_delim stop ok (p @ s) (length p) = Inr None"
proof (induction s arbitrary: p)
  case Nil
  then show ?case by (subst find_delim.simps) simp
next
  case (Cons c s)
  have "find_delim stop ok (p @ c # s) (length p) = find_delim stop ok (p @ c # s) (Suc (length p))"
    using Cons.prems by (subst find_delim.simps) (simp add: nth_append)
  then show ?case using Cons.IH [of "p @ [c]"] Cons.prems by simp
qed

text \<open>Any result is an end of characters that are allowed.\<close>

lemma find_delim_result:
  "find_delim stop ok u i = Inr (Some j) \<Longrightarrow> i \<le> j \<and> j < length u \<and> stop (u ! j) \<and> (\<forall>k. i \<le> k \<and> k < j \<longrightarrow> \<not> stop (u ! k) \<and> ok (u ! k))"
proof (induction stop ok u i rule: find_delim.induct)
  case (1 stop ok u i)
  show ?case
  proof (cases "i < length u \<and> \<not> stop (u ! i) \<and> ok (u ! i)")
    case True
    then have "find_delim stop ok u (Suc i) = Inr (Some j)" using "1.prems" by (subst (asm) find_delim.simps) simp
    then have "Suc i \<le> j \<and> j < length u \<and> stop (u ! j) \<and> (\<forall>k. Suc i \<le> k \<and> k < j \<longrightarrow> \<not> stop (u ! k) \<and> ok (u ! k))"
      using "1.IH" True by simp
    then show ?thesis using True by (metis Suc_leD Suc_leI le_neq_implies_less)
  next
    case False
    then show ?thesis using "1.prems" by (subst (asm) find_delim.simps) (auto split: if_splits)
  qed
qed

lemma find_delim_error: "find_delim stop ok u i = Inl e \<Longrightarrow> e = INVALID_ARGUMENT"
proof (induction stop ok u i rule: find_delim.induct)
  case (1 stop ok u i)
  then show ?case by (subst (asm) (2) find_delim.simps) (auto split: if_splits)
qed

lemma find_scheme_found:
  assumes "\<forall>c\<in>set s. is_scheme_char c" and "s \<noteq> []"
  shows "find_scheme (s @ [58, 47, 47] @ t) = Inr (length s + 3)"
proof -
  have "\<not> is_scheme_char 58" by (simp add: is_scheme_char_def is_alpha_numeric_def ascii_def)
  then have "find_delim (\<lambda>c. c = 58) is_scheme_char ([] @ s @ ([58, 47, 47] @ t)) (length ([] :: byte list)) =
      Inr (Some (length ([] :: byte list) + length s))"
    using assms by (intro find_delim_found) auto
  then show ?thesis using assms(2) by (simp add: find_scheme_def nth_append)
qed


section \<open>The port\<close>

lemma numeric_not_special: "is_numeric_char c \<Longrightarrow> \<not> is_space c \<and> c \<noteq> 45 \<and> c \<noteq> 43 \<and> \<not> is_path_start c"
  by (auto simp: is_numeric_char_def is_space_def is_path_start_def word_le_nat_alt)

lemma digits_val_nonneg: "0 \<le> digits_val ds"
proof -
  have "0 \<le> v \<Longrightarrow> 0 \<le> foldl (\<lambda>v d. 10 * v + int (unat (d - 48))) v ds" for v :: int
    by (induction ds arbitrary: v) simp_all
  then show ?thesis by (simp add: digits_val_def)
qed

lemma strtol10_digits:
  assumes "\<forall>c\<in>set ds. is_numeric_char c" and "ds \<noteq> []" and "digits_val ds < 2 ^ 63"
  shows "strtol10 ds = (digits_val ds, length ds, False)"
proof -
  obtain d r where d: "ds = d # r" using assms(2) by (cases ds) auto
  have "dropWhile is_space ds = ds" "hd ds \<noteq> 45" "hd ds \<noteq> 43"
    using assms(1) numeric_not_special [of d] by (simp_all add: d)
  moreover have tw: "takeWhile is_numeric_char ds = ds" using assms(1) by (simp add: takeWhile_eq_all_conv)
  ultimately show ?thesis using assms(2,3) digits_val_nonneg [of ds]
    by (simp add: strtol10_def Let_def tw del: takeWhile_eq_all_conv)
qed

text \<open>The text of an optional port.\<close>

fun port_text :: "byte list option \<Rightarrow> byte list" where
  "port_text None = []"
| "port_text (Some ds) = 58 # ds"

fun port_value :: "byte list option \<Rightarrow> int" where
  "port_value None = 0"
| "port_value (Some ds) = digits_val ds"

fun port_ok :: "byte list option \<Rightarrow> bool" where
  "port_ok None = True"
| "port_ok (Some ds) = (ds \<noteq> [] \<and> length ds < 80 \<and> (\<forall>c\<in>set ds. is_numeric_char c) \<and> digits_val ds \<le> 0xFFFFF)"

lemma parse_port_found:
  assumes "port_ok port" and "t \<noteq> []" and "is_path_start (hd t)"
  shows "parse_port (p @ port_text port @ t) (length p) =
    Inr (word_of_int (port_value port), length p + length (port_text port))"
proof (cases port)
  case None
  then show ?thesis using assms(2,3) by (simp add: parse_port_def hd_conv_nth nth_append)
next
  case (Some ds)
  have f: "find_delim is_path_start is_numeric_char ((p @ [58]) @ ds @ t) (length (p @ [58])) =
      Inr (Some (length (p @ [58]) + length ds))"
    using assms numeric_not_special by (intro find_delim_found) (auto simp: Some)
  have c: "chunk (p @ 58 # ds @ t) (Suc (length p)) (length ds) = ds" by (simp add: chunk_def)
  have n: "\<not> is_path_start 58" by (simp add: is_path_start_def)
  have s: "strtol10 ds = (digits_val ds, length ds, False)"
    using assms(1) by (intro strtol10_digits) (auto simp: Some)
  show ?thesis using f assms(1) by (simp add: parse_port_def Some n c s)
qed


section \<open>The query\<close>

fun query_text :: "(byte list \<times> byte list) list \<Rightarrow> byte list" where
  "query_text [] = []"
| "query_text [(k, v)] = k @ [61] @ v"
| "query_text ((k, v) # q) = k @ [61] @ v @ [38] @ query_text q"

fun apply_query :: "(byte list \<times> byte list) list \<Rightarrow> service_addr \<Rightarrow> error + service_addr" where
  "apply_query [] a = Inr a"
| "apply_query ((k, v) # q) a = (case query_param k v a of Inl e \<Rightarrow> Inl e | Inr a \<Rightarrow> apply_query q a)"

definition plain :: "byte list \<Rightarrow> bool" where
  "plain s \<longleftrightarrow> (\<forall>c\<in>set s. is_path_char c \<and> c \<noteq> 38 \<and> c \<noteq> 61)"

lemma query_loop_skip:
  "\<forall>c\<in>set s. c \<noteq> 38 \<and> c \<noteq> 61 \<Longrightarrow>
    query_loop (p @ s @ t) (length p) b e a = query_loop (p @ s @ t) (length p + length s) b e a"
proof (induction s arbitrary: p)
  case Nil
  then show ?case by simp
next
  case (Cons c s)
  have "query_loop (p @ (c # s) @ t) (length p) b e a = query_loop (p @ (c # s) @ t) (Suc (length p)) b e a"
    using Cons.prems by (subst query_loop.simps) (simp add: nth_append)
  then show ?case using Cons.IH [of "p @ [c]"] Cons.prems by simp
qed

lemma query_loop_param:
  assumes "plain k" and "plain v" and "p \<noteq> []" and "t = [] \<or> hd t = 38"
  shows "query_loop (p @ k @ [61] @ v @ t) (length p) (length p) 0 a =
    (case query_param k v a of
       Inl e \<Rightarrow> Inl e
     | Inr a \<Rightarrow> let i = length p + length k + length v + 2 in query_loop (p @ k @ [61] @ v @ t) i i 0 a)"
proof -
  let ?u = "p @ k @ [61] @ v @ t" and ?e = "length p + length k"
  have "query_loop ?u (length p) (length p) 0 a = query_loop ?u ?e (length p) 0 a"
    using assms(1) by (intro query_loop_skip) (auto simp: plain_def)
  also have "\<dots> = query_loop ?u (Suc ?e) (length p) ?e a"
    by (subst query_loop.simps) (simp add: nth_append)
  also have "\<dots> = query_loop ?u (Suc ?e + length v) (length p) ?e a"
    using query_loop_skip [of v "p @ k @ [61]" t "length p" ?e a] assms(2) by (auto simp: plain_def)
  also have "\<dots> = (case query_param k v a of
       Inl e \<Rightarrow> Inl e
     | Inr a \<Rightarrow> let i = length p + length k + length v + 2 in query_loop ?u i i 0 a)"
  proof -
    have "length ?u \<le> Suc ?e + length v \<or> ?u ! (Suc ?e + length v) = 38"
      using assms(4) by (cases t) (auto simp: nth_append)
    moreover have "chunk ?u (length p) (?e - length p) = k" "chunk ?u (?e + 1) (Suc ?e + length v - ?e - 1) = v"
      by (simp_all add: chunk_def)
    ultimately show ?thesis
      using assms(3) by (subst query_loop.simps) (simp add: Let_def ac_simps split: sum.split)
  qed
  finally show ?thesis .
qed

lemma query_loop_text:
  "q \<noteq> [] \<Longrightarrow> \<forall>(k, v)\<in>set q. plain k \<and> plain v \<Longrightarrow> p \<noteq> [] \<Longrightarrow>
    query_loop (p @ query_text q) (length p) (length p) 0 a = apply_query q a"
proof (induction q arbitrary: p a rule: query_text.induct)
  case 1
  then show ?case by simp
next
  case (2 k v)
  have e: "query_loop u (Suc (length u)) b 0 a = Inr a" for u b a by (subst query_loop.simps) simp
  show ?case
    using query_loop_param [of k v p "[]" a] 2 e [of "p @ k @ [61] @ v"] by (simp add: ac_simps Let_def split: sum.splits)
next
  case (3 k v kv q)
  let ?p = "p @ k @ [61] @ v @ [38]"
  have "query_loop (?p @ query_text (kv # q)) (length ?p) (length ?p) 0 b = apply_query (kv # q) b" for b
    by (rule "3.IH") (use "3.prems" in auto)
  then show ?case
    using query_loop_param [of k v p "[38] @ query_text (kv # q)" a] "3.prems"
    by (simp add: ac_simps Let_def del: query_text.simps(1) split: sum.splits)
qed

lemma query_from_found:
  "63 \<notin> set s \<Longrightarrow> t \<noteq> [] \<Longrightarrow> query_from (p @ s @ [63] @ t) (length p) = length p + length s + 1"
proof (induction s arbitrary: p)
  case Nil
  then show ?case by (subst query_from.simps) (simp add: nth_append)
next
  case (Cons c s)
  have "query_from (p @ (c # s) @ [63] @ t) (length p) = query_from (p @ (c # s) @ [63] @ t) (Suc (length p))"
    using Cons.prems by (subst query_from.simps) (auto simp: nth_append)
  then show ?case using Cons.IH [of "p @ [c]"] Cons.prems by simp
qed

lemma path_separators: "is_path_char 38" "is_path_char 61" "is_path_char 63"
  by (simp_all add: is_path_char_def ascii_def)

lemma plain_path: "plain s \<Longrightarrow> c \<in> set s \<Longrightarrow> is_path_char c"
  by (simp add: plain_def)

lemma query_text_path: "\<forall>(k, v)\<in>set q. plain k \<and> plain v \<Longrightarrow> \<forall>c\<in>set (query_text q). is_path_char c"
proof (induction q rule: query_text.induct)
  case (2 k v)
  then show ?case by (auto simp: path_separators intro: plain_path)
next
  case (3 k v kv q)
  have "\<forall>c\<in>set (query_text (kv # q)). is_path_char c" by (rule "3.IH") (use "3.prems" in simp)
  moreover have "plain k" "plain v" using "3.prems" by simp_all
  ultimately show ?case by (auto simp: path_separators intro: plain_path)
qed simp

lemma query_text_nonempty: "q \<noteq> [] \<Longrightarrow> query_text q \<noteq> []"
  by (induction q rule: query_text.induct) auto


section \<open>The whole URL\<close>

lemma parse_ipv4_found:
  assumes "\<forall>c\<in>set host. is_hostname_char c" and "length host < 120" and "port_ok port"
    and "t \<noteq> []" and "is_path_start (hd t)" and "ad_flags a = 0"
  shows "parse_ipv4 net (p @ host @ port_text port @ t) (length p) a =
    Inr (a\<lparr>ad_flags := (if net_pton net host = None then 0 else ADDR_FLAGS_SOCKADDR_VALID),
           ad_socket_addr := net_sockaddr net (case net_pton net host of None \<Rightarrow> replicate 4 0 | Some ip \<Rightarrow> ip)
             (htons (word_of_int (port_value port))),
           ad_http_host := host @ port_text port\<rparr>, length p + length host + length (port_text port))"
proof -
  let ?u = "p @ host @ port_text port @ t" and ?stop = "\<lambda>c. c = 58 \<or> is_path_start c"
  have h: "\<not> ?stop c" if "is_hostname_char c" for c
    using that by (auto simp: is_hostname_char_def is_path_start_def is_alpha_numeric_def ascii_def)
  have s: "port_text port @ t \<noteq> []" "?stop (hd (port_text port @ t))"
    using assms(3,4,5) by (cases port; simp)+
  have d: "find_delim ?stop is_hostname_char ?u (length p) = Inr (Some (length p + length host))"
    by (rule find_delim_found) (use assms(1) h s in auto)
  have c: "chunk ?u (length p) (length host) = host" "chunk ?u (length p) (length host + length (port_text port)) = host @ port_text port"
    by (simp_all add: chunk_def)
  have q: "parse_port ?u (length p + length host) =
      Inr (word_of_int (port_value port), length p + length host + length (port_text port))"
    using parse_port_found [OF assms(3,4,5), of "p @ host"] by simp
  show ?thesis
    using assms(2,6) by (cases "net_pton net host")
      (simp_all add: parse_ipv4_def d q c url_fill_sockaddr_def FLAGS_SET_def ADDR_FLAGS_SOCKADDR_VALID_def Let_def)
qed

lemma url_parse_stages:
  assumes "find_scheme u = Inr k" and "parse_host net u k (zero_addr\<lparr>ad_scheme := take k u\<rparr>) = Inr (a, k')"
    and "find_delim (\<lambda>c. False) is_path_char u k' = Inr None" and "query_from u k' = s" and "0 < s"
  shows "url_parse net u = map_sum id (\<lambda>a. a\<lparr>ad_source_url := u\<rparr>) (query_loop u s s 0 (a\<lparr>ad_http_path := drop k' u\<rparr>))"
  using assms by (simp add: url_parse_def split: sum.split)

text \<open>
  C29. A URL that is put together from a scheme, a host, an optional port, a path and a query of names and
  values is parsed into exactly these parts: the address of the host and the port, and the service, the
  node and its identifier that the query names.
\<close>

theorem url_parse_parts:
  assumes "scheme \<noteq> []" and "\<forall>c\<in>set scheme. is_scheme_char c"
    and "\<forall>c\<in>set host. is_hostname_char c" and "length host < 120" and "port_ok port"
    and "path = [] \<or> hd path = 47" and "\<forall>c\<in>set path. is_path_char c \<and> c \<noteq> 63"
    and "q \<noteq> []" and "\<forall>(k, v)\<in>set q. plain k \<and> plain v"
    and "u = scheme @ [58, 47, 47] @ host @ port_text port @ path @ [63] @ query_text q"
  shows "url_parse net u =
    map_sum id (\<lambda>a. a\<lparr>ad_source_url := u\<rparr>)
      (apply_query q (zero_addr\<lparr>ad_scheme := scheme @ [58, 47, 47],
         ad_flags := (if net_pton net host = None then 0 else ADDR_FLAGS_SOCKADDR_VALID),
         ad_socket_addr := net_sockaddr net (case net_pton net host of None \<Rightarrow> replicate 4 0 | Some ip \<Rightarrow> ip)
           (htons (word_of_int (port_value port))),
         ad_http_host := host @ port_text port, ad_http_path := path @ [63] @ query_text q\<rparr>))"
proof -
  let ?p = "scheme @ [58, 47, 47]" and ?t = "path @ [63] @ query_text q"
  let ?r = "?p @ host @ port_text port"
  have u: "u = ?p @ host @ port_text port @ ?t" using assms(10) by simp
  have k: "find_scheme u = Inr (length ?p)"
    using find_scheme_found [OF assms(2,1), of "host @ port_text port @ ?t"] assms(10) by simp
  have t: "?t \<noteq> []" "is_path_start (hd ?t)" using assms(6) by (cases path; simp add: is_path_start_def)+
  have "hd (host @ port_text port @ ?t) \<noteq> 91"
    using assms(3) t by (cases host; cases port) (auto simp: is_hostname_char_def is_alpha_numeric_def is_path_start_def ascii_def)
  then have n: "length ?p < length u" "u ! length ?p \<noteq> 91" by (simp_all add: u hd_conv_nth nth_append)
  let ?a = "zero_addr\<lparr>ad_scheme := ?p\<rparr>"
  have "ad_flags ?a = 0" by (simp add: zero_addr_def)
  note v = parse_ipv4_found [OF assms(3,4,5) t this, of net ?p, folded u]
  have ur: "u = ?r @ ?t" by (simp add: u)
  have "drop (length x) (x @ y) = y" for x y :: "byte list" by simp
  from this [of ?r ?t] have d: "drop (length ?r) u = ?t" "take (length ?p) u = ?p" unfolding ur by simp_all
  have lr: "length ?p + length host + length (port_text port) = length ?r" by simp
  have path: "find_delim (\<lambda>c. False) is_path_char u (length ?r) = Inr None"
    using find_delim_none [of ?t "\<lambda>c. False" is_path_char ?r] assms(7) query_text_path [OF assms(9)] by (auto simp: u path_separators)
  have q: "query_from u (length ?r) = length (?r @ path @ [63])"
    using query_from_found [of path "query_text q" ?r] assms(7) query_text_nonempty [OF assms(8)] by (auto simp: u)
  have l: "query_loop u (length (?r @ path @ [63])) (length (?r @ path @ [63])) 0 a = apply_query q a" for a
    using query_loop_text [OF assms(8,9), of "?r @ path @ [63]"] by (simp add: u)
  have "parse_host net u (length ?p) (zero_addr\<lparr>ad_scheme := take (length ?p) u\<rparr>) = parse_ipv4 net u (length ?p) ?a"
    unfolding d(2) using n by (simp add: parse_host_def)
  note h = this [unfolded v lr]
  show ?thesis
    using l url_parse_stages [OF k h path q] unfolding d by simp
qed


section \<open>Where the parser goes wrong\<close>

text \<open>
  A port of up to 1048575 is accepted and cut to 16 bits: the URL with the port \<open>p + 65536\<close> leads to
  the same socket address as the one with the port \<open>p\<close>.
\<close>

theorem url_port_wraps:
  assumes "\<forall>c\<in>set host. is_hostname_char c" and "length host < 120" and "port_ok (Some ds)" and "port_ok (Some ds')"
    and "digits_val ds' = digits_val ds + 65536"
  shows "\<exists>a a'. url_parse net (ascii ''tcp://'' @ host @ 58 # ds @ ascii ''/?service=s'') = Inr a \<and>
    url_parse net (ascii ''tcp://'' @ host @ 58 # ds' @ ascii ''/?service=s'') = Inr a' \<and>
    ad_socket_addr a' = ad_socket_addr a"
proof -
  have p: "\<exists>a. url_parse net (ascii ''tcp://'' @ host @ 58 # es @ ascii ''/?service=s'') = Inr a \<and>
      ad_socket_addr a = net_sockaddr net (case net_pton net host of None \<Rightarrow> replicate 4 0 | Some ip \<Rightarrow> ip)
        (htons (word_of_int (digits_val es)))" if "port_ok (Some es)" for es
  proof -
    let ?q = "[(SERVICE, ascii ''s'')]" and ?u = "ascii ''tcp://'' @ host @ 58 # es @ ascii ''/?service=s''"
    have c: "ascii ''tcp'' \<noteq> []" "\<forall>c\<in>set (ascii ''tcp''). is_scheme_char c" "\<forall>(k, v)\<in>set ?q. plain k \<and> plain v"
      "\<forall>c\<in>set [47]. is_path_char c \<and> c \<noteq> 63"
      by (simp_all add: ascii_def SERVICE_def plain_def is_scheme_char_def is_path_char_def is_alpha_numeric_def)
    have u: "?u = ascii ''tcp'' @ [58, 47, 47] @ host @ port_text (Some es) @ [47] @ [63] @ query_text ?q"
      by (simp add: ascii_def SERVICE_def)
    show ?thesis
      using url_parse_parts [OF c(1,2) assms(1,2) that _ c(4) _ c(3) u, of net]
      by (simp add: query_param_def ascii_def)
  qed
  have "word_of_int (digits_val ds') = (word_of_int (digits_val ds) :: u16)"
    unfolding assms(5) by (simp add: word_of_int_eq_iff take_bit_eq_mod)
  then show ?thesis using p [OF assms(3)] p [OF assms(4)] by metis
qed


lemma parse_port_error: "parse_port u i = Inl e \<Longrightarrow> i < length u \<Longrightarrow> e = INVALID_ARGUMENT"
  by (auto simp: parse_port_def Let_def dest: find_delim_error split: if_splits sum.splits option.splits prod.splits)

lemma find_bracket_error: "find_bracket u i s = Inl e \<Longrightarrow> e = INVALID_ARGUMENT"
proof (induction u i s rule: find_bracket.induct)
  case (1 u i s)
  then show ?case by (subst (asm) (2) find_bracket.simps) (auto simp: Let_def split: if_splits)
qed

lemma query_param_error: "query_param k v a = Inl e \<Longrightarrow> e = INVALID_ARGUMENT"
  by (auto simp: query_param_def split: if_splits prod.splits status.splits)

lemma query_loop_error: "query_loop u i b q a = Inl e \<Longrightarrow> e = INVALID_ARGUMENT"
proof (induction u i b q a rule: query_loop.induct)
  case (1 u i b q a)
  show ?case
    using 1 by (subst (asm) (3) query_loop.simps) (auto dest: query_param_error split: if_splits sum.splits)
qed

lemma find_bracket_end: "find_bracket u i s = Inr (Some j, t) \<Longrightarrow> i \<le> j \<and> j < length u \<and> (t = s \<or> t < j)"
proof (induction u i s rule: find_bracket.induct)
  case (1 u i s)
  then show ?case by (subst (asm) (2) find_bracket.simps) (fastforce simp: Let_def split: if_splits)
qed

lemma parse_ipv6_error:
  "parse_ipv6 net u k a = Inl e \<Longrightarrow> e = INVALID_ARGUMENT \<or> e = UNDEFINED_BEHAVIOUR \<and> k + 80 < length u"
  by (auto simp: parse_ipv6_def Let_def dest: find_bracket_error parse_port_error find_bracket_end
      split: if_splits sum.splits option.splits prod.splits)

lemma parse_ipv4_error:
  "parse_ipv4 net u k a = Inl e \<Longrightarrow> e = INVALID_ARGUMENT \<or> e = UNDEFINED_BEHAVIOUR \<and> k + 80 < length u"
  by (auto simp: parse_ipv4_def Let_def dest: find_delim_error parse_port_error find_delim_result
      split: if_splits sum.splits option.splits prod.splits)

lemma find_scheme_le: "find_scheme u = Inr k \<Longrightarrow> k \<le> length u"
  by (auto simp: find_scheme_def split: if_splits sum.splits option.splits)

lemma find_scheme_error: "find_scheme u = Inl e \<Longrightarrow> e = INVALID_ARGUMENT"
  by (auto simp: find_scheme_def dest: find_delim_error split: if_splits sum.splits option.splits)

text \<open>
  C30. A URL that is refused is an invalid argument, for any text of at most 80 characters but one: a text
  that ends behind the two slashes of its scheme makes the parser read behind its end.
\<close>

theorem url_parse_failures:
  assumes "length u \<le> 80"
  shows "url_parse net u \<in> range Inr \<union> {Inl INVALID_ARGUMENT, Inl UNDEFINED_BEHAVIOUR} \<and>
    (url_parse net u = Inl UNDEFINED_BEHAVIOUR \<longleftrightarrow> find_scheme u = Inr (length u))"
proof -
  have host: "e = INVALID_ARGUMENT \<or> e = UNDEFINED_BEHAVIOUR \<and> k = length u"
    if "parse_host net u k a = Inl e" "find_scheme u = Inr k" for e k a
    using that assms find_scheme_le [OF that(2)]
    by (auto simp: parse_host_def dest!: parse_ipv4_error parse_ipv6_error split: if_splits)
  have all: "e = INVALID_ARGUMENT \<or> e = UNDEFINED_BEHAVIOUR \<and> find_scheme u = Inr (length u)" if "url_parse net u = Inl e" for e
    using that by (auto simp: url_parse_def Let_def dest: find_scheme_error host query_loop_error split: if_splits sum.splits)
  have "url_parse net u \<in> range Inr \<union> {Inl INVALID_ARGUMENT, Inl UNDEFINED_BEHAVIOUR}"
    using all by (cases "url_parse net u") auto
  moreover have "url_parse net u = Inl UNDEFINED_BEHAVIOUR" if "find_scheme u = Inr (length u)"
    using that by (simp add: url_parse_def parse_host_def)
  ultimately show ?thesis using all by blast
qed


section \<open>Witnesses\<close>

definition sample_net :: net where
  "sample_net = \<lparr>net_pton = (\<lambda>s. if s = ascii ''127.0.0.1'' then Some [127, 0, 0, 1] else None), net_pton6 = (\<lambda>s. None),
     net_ifindex = (\<lambda>s. 0), net_sockaddr = (\<lambda>ip port. 2 # 0 # u16_bytes port @ ip),
     net_sockaddr6 = (\<lambda>ip port scope. ip)\<rparr>"

lemma sample_port: "u16_bytes (htons 2355) = [9, 51]"
proof -
  have "le_bytes (Suc (Suc 0)) 2355 = [51, 9]" "le_bytes (Suc (Suc 0)) 13065 = [9, 51]" by simp_all
  moreover have "unat (2355 :: u16) = 2355" "unat (13065 :: u16) = 13065" by simp_all
  ultimately have "u16_bytes 2355 = [51, 9]" "u16_bytes 13065 = [9, 51]"
    by (simp_all only: u16_bytes_def numeral_2_eq_2)
  then show ?thesis by (simp add: htons_def bytes_u16_def)
qed

lemma url_parse_parts_witness:
  "\<exists>a. url_parse sample_net (ascii ''rr+tcp://127.0.0.1:2355/?service=arm&nodename=lab'') = Inr a \<and>
    ad_service_name a = ascii ''arm'' \<and> ad_nodename a = ascii ''lab'' \<and>
    ad_socket_addr a = [2, 0, 9, 51, 127, 0, 0, 1] \<and> ad_flags a = ADDR_FLAGS_SOCKADDR_VALID"
proof -
  let ?q = "[(SERVICE, ascii ''arm''), (NODENAME, ascii ''lab'')]"
  note c = is_alpha_numeric_def is_path_char_def plain_def SERVICE_def NODENAME_def ascii_def
  have a: "ascii ''rr+tcp'' \<noteq> []" "\<forall>c\<in>set (ascii ''rr+tcp''). is_scheme_char c"
    "\<forall>c\<in>set (ascii ''127.0.0.1''). is_hostname_char c" "length (ascii ''127.0.0.1'') < 120"
    "port_ok (Some (ascii ''2355''))" "\<forall>c\<in>set [47]. is_path_char c \<and> c \<noteq> 63" "\<forall>(k, v)\<in>set ?q. plain k \<and> plain v"
    by (simp_all add: c is_scheme_char_def is_hostname_char_def is_numeric_char_def digits_val_def)
  have u: "ascii ''rr+tcp://127.0.0.1:2355/?service=arm&nodename=lab'' =
      ascii ''rr+tcp'' @ [58, 47, 47] @ ascii ''127.0.0.1'' @ port_text (Some (ascii ''2355'')) @ [47] @ [63] @ query_text ?q"
    by (simp add: c)
  show ?thesis
    using url_parse_parts [OF a(1-5) _ a(6) _ a(7) u, of sample_net]
    by (simp add: query_param_def c digits_val_def sample_net_def sample_port)
qed

lemma url_port_wraps_witness:
  "\<exists>a a'. url_parse sample_net (ascii ''tcp://127.0.0.1:80/?service=s'') = Inr a \<and>
    url_parse sample_net (ascii ''tcp://127.0.0.1:65616/?service=s'') = Inr a' \<and> ad_socket_addr a' = ad_socket_addr a"
proof -
  have a: "\<forall>c\<in>set (ascii ''127.0.0.1''). is_hostname_char c" "length (ascii ''127.0.0.1'') < 120"
    "port_ok (Some (ascii ''80''))" "port_ok (Some (ascii ''65616''))"
    "digits_val (ascii ''65616'') = digits_val (ascii ''80'') + 65536"
    by (simp_all add: ascii_def is_alpha_numeric_def is_hostname_char_def is_numeric_char_def digits_val_def)
  from url_port_wraps [OF this, of sample_net] show ?thesis by (simp add: ascii_def)
qed

lemma url_parse_failures_witness:
  "url_parse sample_net (ascii ''tcp://'') = Inl UNDEFINED_BEHAVIOUR"
proof -
  have "find_scheme (ascii ''tcp'' @ [58, 47, 47] @ []) = Inr (length (ascii ''tcp'') + 3)"
    by (rule find_scheme_found) (simp_all add: ascii_def is_scheme_char_def is_alpha_numeric_def)
  then have "find_scheme (ascii ''tcp://'') = Inr (length (ascii ''tcp://''))" "length (ascii ''tcp://'') \<le> 80"
    by (simp_all add: ascii_def)
  then show ?thesis using url_parse_failures by blast
qed

end
