(* ===== verification/RRL_Typed.thy ===== *)
theory RRL_Typed
  imports RRL_Build RRL_String
begin

text \<open>
  The typed readers and writers of src/message_data.c and the variants of the searches of
  src/message.c whose names are C strings. A value or an array is the bytes of its memory and,
  for an array, the number of its elements.
\<close>


section \<open>C strings\<close>

text \<open>The memory from the pointer on, which ends with a terminator or where the terminator is; \<open>None\<close> is \<open>NULL\<close>.\<close>

definition string_from_c_str :: "byte list option \<Rightarrow> const_string" where
  "string_from_c_str source = (case source of None \<Rightarrow> [] | Some s \<Rightarrow> takeWhile (\<lambda>b. b \<noteq> 0) s)"

definition messageentry_reader_find_element_c_str where
  "messageentry_reader_find_element_c_str bv r name element_reader =
     messageentry_reader_find_element bv r (string_from_c_str name) element_reader"

definition messageentry_reader_find_element_verify_scalar_c_str where
  "messageentry_reader_find_element_verify_scalar_c_str bv r name element_reader expected_data_type =
     messageentry_reader_find_element_verify_scalar bv r (string_from_c_str name) element_reader expected_data_type"

definition messageentry_reader_find_element_verify_array_c_str where
  "messageentry_reader_find_element_verify_array_c_str bv r name element_reader expected_data_type expected_len var_length =
     messageentry_reader_find_element_verify_array bv r (string_from_c_str name) element_reader expected_data_type expected_len var_length"

definition messageentry_reader_find_element_verify_string_c_str where
  "messageentry_reader_find_element_verify_string_c_str bv r name element_reader expected_max_len =
     messageentry_reader_find_element_verify_string bv r (string_from_c_str name) element_reader expected_max_len"

definition messageelement_reader_find_nested_element_c_str where
  "messageelement_reader_find_nested_element_c_str bv r name element_reader =
     messageelement_reader_find_nested_element bv r (string_from_c_str name) element_reader"

definition messageelement_reader_find_nested_element_verify_scalar_c_str where
  "messageelement_reader_find_nested_element_verify_scalar_c_str bv r name element_reader expected_data_type =
     messageelement_reader_find_nested_element_verify_scalar bv r (string_from_c_str name) element_reader expected_data_type"

definition messageelement_reader_find_nested_element_verify_array_c_str where
  "messageelement_reader_find_nested_element_verify_array_c_str bv r name element_reader expected_data_type expected_len var_length =
     messageelement_reader_find_nested_element_verify_array bv r (string_from_c_str name) element_reader expected_data_type expected_len var_length"

definition messageelement_reader_find_nested_element_verify_string_c_str where
  "messageelement_reader_find_nested_element_verify_string_c_str bv r name element_reader expected_max_len =
     messageelement_reader_find_nested_element_verify_string bv r (string_from_c_str name) element_reader expected_max_len"


section \<open>Numbers of the types\<close>

definition DATATYPE_DOUBLE :: u16 where "DATATYPE_DOUBLE = 1"
definition DATATYPE_SINGLE :: u16 where "DATATYPE_SINGLE = 2"
definition DATATYPE_INT8 :: u16 where "DATATYPE_INT8 = 3"
definition DATATYPE_UINT8 :: u16 where "DATATYPE_UINT8 = 4"
definition DATATYPE_INT16 :: u16 where "DATATYPE_INT16 = 5"
definition DATATYPE_UINT16 :: u16 where "DATATYPE_UINT16 = 6"
definition DATATYPE_INT32 :: u16 where "DATATYPE_INT32 = 7"
definition DATATYPE_UINT32 :: u16 where "DATATYPE_UINT32 = 8"
definition DATATYPE_INT64 :: u16 where "DATATYPE_INT64 = 9"
definition DATATYPE_UINT64 :: u16 where "DATATYPE_UINT64 = 10"
definition DATATYPE_CDOUBLE :: u16 where "DATATYPE_CDOUBLE = 12"
definition DATATYPE_CSINGLE :: u16 where "DATATYPE_CSINGLE = 13"
definition DATATYPE_BOOL :: u16 where "DATATYPE_BOOL = 14"

lemmas datatype_defs = DATATYPE_DOUBLE_def DATATYPE_SINGLE_def DATATYPE_INT8_def DATATYPE_UINT8_def DATATYPE_INT16_def DATATYPE_UINT16_def DATATYPE_INT32_def DATATYPE_UINT32_def DATATYPE_INT64_def DATATYPE_UINT64_def DATATYPE_CDOUBLE_def DATATYPE_CSINGLE_def DATATYPE_BOOL_def


section \<open>Readers\<close>

definition messageelement_reader_read_data_double_array ::
  "buffer_vec \<Rightarrow> messageelement_reader \<Rightarrow> byte list \<Rightarrow> size_t \<Rightarrow> status \<times> byte list \<times> size_t" where
  "messageelement_reader_read_data_double_array bv r dest dest_len =
     messageelement_reader_read_data_ex bv r dest dest_len DATATYPE_DOUBLE 8"

definition messageelement_reader_read_data_double :: "buffer_vec \<Rightarrow> messageelement_reader \<Rightarrow> byte list \<Rightarrow> status \<times> byte list" where
  "messageelement_reader_read_data_double bv r value_out =
     messageelement_reader_read_data_scalar_ex bv r value_out DATATYPE_DOUBLE 8"

definition messageelement_reader_read_data_single_array ::
  "buffer_vec \<Rightarrow> messageelement_reader \<Rightarrow> byte list \<Rightarrow> size_t \<Rightarrow> status \<times> byte list \<times> size_t" where
  "messageelement_reader_read_data_single_array bv r dest dest_len =
     messageelement_reader_read_data_ex bv r dest dest_len DATATYPE_SINGLE 4"

definition messageelement_reader_read_data_single :: "buffer_vec \<Rightarrow> messageelement_reader \<Rightarrow> byte list \<Rightarrow> status \<times> byte list" where
  "messageelement_reader_read_data_single bv r value_out =
     messageelement_reader_read_data_scalar_ex bv r value_out DATATYPE_SINGLE 4"

definition messageelement_reader_read_data_int8_array ::
  "buffer_vec \<Rightarrow> messageelement_reader \<Rightarrow> byte list \<Rightarrow> size_t \<Rightarrow> status \<times> byte list \<times> size_t" where
  "messageelement_reader_read_data_int8_array bv r dest dest_len =
     messageelement_reader_read_data_ex bv r dest dest_len DATATYPE_INT8 1"

definition messageelement_reader_read_data_int8 :: "buffer_vec \<Rightarrow> messageelement_reader \<Rightarrow> byte list \<Rightarrow> status \<times> byte list" where
  "messageelement_reader_read_data_int8 bv r value_out =
     messageelement_reader_read_data_scalar_ex bv r value_out DATATYPE_INT8 1"

definition messageelement_reader_read_data_uint8_array ::
  "buffer_vec \<Rightarrow> messageelement_reader \<Rightarrow> byte list \<Rightarrow> size_t \<Rightarrow> status \<times> byte list \<times> size_t" where
  "messageelement_reader_read_data_uint8_array bv r dest dest_len =
     messageelement_reader_read_data_ex bv r dest dest_len DATATYPE_UINT8 1"

definition messageelement_reader_read_data_uint8 :: "buffer_vec \<Rightarrow> messageelement_reader \<Rightarrow> byte list \<Rightarrow> status \<times> byte list" where
  "messageelement_reader_read_data_uint8 bv r value_out =
     messageelement_reader_read_data_scalar_ex bv r value_out DATATYPE_UINT8 1"

definition messageelement_reader_read_data_int16_array ::
  "buffer_vec \<Rightarrow> messageelement_reader \<Rightarrow> byte list \<Rightarrow> size_t \<Rightarrow> status \<times> byte list \<times> size_t" where
  "messageelement_reader_read_data_int16_array bv r dest dest_len =
     messageelement_reader_read_data_ex bv r dest dest_len DATATYPE_INT16 2"

definition messageelement_reader_read_data_int16 :: "buffer_vec \<Rightarrow> messageelement_reader \<Rightarrow> byte list \<Rightarrow> status \<times> byte list" where
  "messageelement_reader_read_data_int16 bv r value_out =
     messageelement_reader_read_data_scalar_ex bv r value_out DATATYPE_INT16 2"

definition messageelement_reader_read_data_uint16_array ::
  "buffer_vec \<Rightarrow> messageelement_reader \<Rightarrow> byte list \<Rightarrow> size_t \<Rightarrow> status \<times> byte list \<times> size_t" where
  "messageelement_reader_read_data_uint16_array bv r dest dest_len =
     messageelement_reader_read_data_ex bv r dest dest_len DATATYPE_UINT16 2"

definition messageelement_reader_read_data_uint16 :: "buffer_vec \<Rightarrow> messageelement_reader \<Rightarrow> byte list \<Rightarrow> status \<times> byte list" where
  "messageelement_reader_read_data_uint16 bv r value_out =
     messageelement_reader_read_data_scalar_ex bv r value_out DATATYPE_UINT16 2"

definition messageelement_reader_read_data_int32_array ::
  "buffer_vec \<Rightarrow> messageelement_reader \<Rightarrow> byte list \<Rightarrow> size_t \<Rightarrow> status \<times> byte list \<times> size_t" where
  "messageelement_reader_read_data_int32_array bv r dest dest_len =
     messageelement_reader_read_data_ex bv r dest dest_len DATATYPE_INT32 4"

definition messageelement_reader_read_data_int32 :: "buffer_vec \<Rightarrow> messageelement_reader \<Rightarrow> byte list \<Rightarrow> status \<times> byte list" where
  "messageelement_reader_read_data_int32 bv r value_out =
     messageelement_reader_read_data_scalar_ex bv r value_out DATATYPE_INT32 4"

definition messageelement_reader_read_data_uint32_array ::
  "buffer_vec \<Rightarrow> messageelement_reader \<Rightarrow> byte list \<Rightarrow> size_t \<Rightarrow> status \<times> byte list \<times> size_t" where
  "messageelement_reader_read_data_uint32_array bv r dest dest_len =
     messageelement_reader_read_data_ex bv r dest dest_len DATATYPE_UINT32 4"

definition messageelement_reader_read_data_uint32 :: "buffer_vec \<Rightarrow> messageelement_reader \<Rightarrow> byte list \<Rightarrow> status \<times> byte list" where
  "messageelement_reader_read_data_uint32 bv r value_out =
     messageelement_reader_read_data_scalar_ex bv r value_out DATATYPE_UINT32 4"

definition messageelement_reader_read_data_int64_array ::
  "buffer_vec \<Rightarrow> messageelement_reader \<Rightarrow> byte list \<Rightarrow> size_t \<Rightarrow> status \<times> byte list \<times> size_t" where
  "messageelement_reader_read_data_int64_array bv r dest dest_len =
     messageelement_reader_read_data_ex bv r dest dest_len DATATYPE_INT64 8"

definition messageelement_reader_read_data_int64 :: "buffer_vec \<Rightarrow> messageelement_reader \<Rightarrow> byte list \<Rightarrow> status \<times> byte list" where
  "messageelement_reader_read_data_int64 bv r value_out =
     messageelement_reader_read_data_scalar_ex bv r value_out DATATYPE_INT64 8"

definition messageelement_reader_read_data_uint64_array ::
  "buffer_vec \<Rightarrow> messageelement_reader \<Rightarrow> byte list \<Rightarrow> size_t \<Rightarrow> status \<times> byte list \<times> size_t" where
  "messageelement_reader_read_data_uint64_array bv r dest dest_len =
     messageelement_reader_read_data_ex bv r dest dest_len DATATYPE_UINT64 8"

definition messageelement_reader_read_data_uint64 :: "buffer_vec \<Rightarrow> messageelement_reader \<Rightarrow> byte list \<Rightarrow> status \<times> byte list" where
  "messageelement_reader_read_data_uint64 bv r value_out =
     messageelement_reader_read_data_scalar_ex bv r value_out DATATYPE_UINT64 8"

definition messageelement_reader_read_data_cdouble_array ::
  "buffer_vec \<Rightarrow> messageelement_reader \<Rightarrow> byte list \<Rightarrow> size_t \<Rightarrow> status \<times> byte list \<times> size_t" where
  "messageelement_reader_read_data_cdouble_array bv r dest dest_len =
     messageelement_reader_read_data_ex bv r dest dest_len DATATYPE_CDOUBLE 16"

definition messageelement_reader_read_data_cdouble :: "buffer_vec \<Rightarrow> messageelement_reader \<Rightarrow> byte list \<Rightarrow> status \<times> byte list" where
  "messageelement_reader_read_data_cdouble bv r value_out =
     messageelement_reader_read_data_scalar_ex bv r value_out DATATYPE_CDOUBLE 16"

definition messageelement_reader_read_data_csingle_array ::
  "buffer_vec \<Rightarrow> messageelement_reader \<Rightarrow> byte list \<Rightarrow> size_t \<Rightarrow> status \<times> byte list \<times> size_t" where
  "messageelement_reader_read_data_csingle_array bv r dest dest_len =
     messageelement_reader_read_data_ex bv r dest dest_len DATATYPE_CSINGLE 8"

definition messageelement_reader_read_data_csingle :: "buffer_vec \<Rightarrow> messageelement_reader \<Rightarrow> byte list \<Rightarrow> status \<times> byte list" where
  "messageelement_reader_read_data_csingle bv r value_out =
     messageelement_reader_read_data_scalar_ex bv r value_out DATATYPE_CSINGLE 8"

definition messageelement_reader_read_data_bool_array ::
  "buffer_vec \<Rightarrow> messageelement_reader \<Rightarrow> byte list \<Rightarrow> size_t \<Rightarrow> status \<times> byte list \<times> size_t" where
  "messageelement_reader_read_data_bool_array bv r dest dest_len =
     messageelement_reader_read_data_ex bv r dest dest_len DATATYPE_BOOL 1"

definition messageelement_reader_read_data_bool :: "buffer_vec \<Rightarrow> messageelement_reader \<Rightarrow> byte list \<Rightarrow> status \<times> byte list" where
  "messageelement_reader_read_data_bool bv r value_out =
     messageelement_reader_read_data_scalar_ex bv r value_out DATATYPE_BOOL 1"

text \<open>\<open>dest_str\<close> is the memory of the string and its length; the length is also the third result.\<close>

definition messageelement_reader_read_data_string :: "buffer_vec \<Rightarrow> messageelement_reader \<Rightarrow> rstring \<Rightarrow> status \<times> rstring" where
  "messageelement_reader_read_data_string bv r dest_str =
     (case messageelement_reader_read_data_ex bv r (string_memory dest_str) (str_len dest_str) DATATYPE_STRING 1 of
        (st, dest, len) \<Rightarrow> (st, \<lparr>str_data = map_option (\<lambda>_. dest) (str_data dest_str), str_len = len\<rparr>))"


section \<open>Writers\<close>

definition messageelement_writer_write_double ::
  "buffer_vec \<Rightarrow> messageelement_writer \<Rightarrow> const_string \<Rightarrow> byte list \<Rightarrow> status \<times> buffer_vec \<times> messageelement_writer" where
  "messageelement_writer_write_double bv w element_name val = messageelement_writer_write_raw bv w element_name val 1 DATATYPE_DOUBLE 8"

definition messageelement_writer_write_double_array ::
  "buffer_vec \<Rightarrow> messageelement_writer \<Rightarrow> const_string \<Rightarrow> byte list \<Rightarrow> size_t \<Rightarrow> status \<times> buffer_vec \<times> messageelement_writer" where
  "messageelement_writer_write_double_array bv w element_name val len =
     messageelement_writer_write_raw bv w element_name val len DATATYPE_DOUBLE 8"

definition messageelement_writer_write_double_c_str ::
  "buffer_vec \<Rightarrow> messageelement_writer \<Rightarrow> byte list option \<Rightarrow> byte list \<Rightarrow> status \<times> buffer_vec \<times> messageelement_writer" where
  "messageelement_writer_write_double_c_str bv w element_name val = messageelement_writer_write_double bv w (string_from_c_str element_name) val"

definition messageelement_writer_write_double_array_c_str ::
  "buffer_vec \<Rightarrow> messageelement_writer \<Rightarrow> byte list option \<Rightarrow> byte list \<Rightarrow> size_t \<Rightarrow> status \<times> buffer_vec \<times> messageelement_writer" where
  "messageelement_writer_write_double_array_c_str bv w element_name val len = messageelement_writer_write_double_array bv w (string_from_c_str element_name) val len"

definition messageelement_writer_write_single ::
  "buffer_vec \<Rightarrow> messageelement_writer \<Rightarrow> const_string \<Rightarrow> byte list \<Rightarrow> status \<times> buffer_vec \<times> messageelement_writer" where
  "messageelement_writer_write_single bv w element_name val = messageelement_writer_write_raw bv w element_name val 1 DATATYPE_SINGLE 4"

definition messageelement_writer_write_single_array ::
  "buffer_vec \<Rightarrow> messageelement_writer \<Rightarrow> const_string \<Rightarrow> byte list \<Rightarrow> size_t \<Rightarrow> status \<times> buffer_vec \<times> messageelement_writer" where
  "messageelement_writer_write_single_array bv w element_name val len =
     messageelement_writer_write_raw bv w element_name val len DATATYPE_SINGLE 4"

definition messageelement_writer_write_single_c_str ::
  "buffer_vec \<Rightarrow> messageelement_writer \<Rightarrow> byte list option \<Rightarrow> byte list \<Rightarrow> status \<times> buffer_vec \<times> messageelement_writer" where
  "messageelement_writer_write_single_c_str bv w element_name val = messageelement_writer_write_single bv w (string_from_c_str element_name) val"

definition messageelement_writer_write_single_array_c_str ::
  "buffer_vec \<Rightarrow> messageelement_writer \<Rightarrow> byte list option \<Rightarrow> byte list \<Rightarrow> size_t \<Rightarrow> status \<times> buffer_vec \<times> messageelement_writer" where
  "messageelement_writer_write_single_array_c_str bv w element_name val len = messageelement_writer_write_single_array bv w (string_from_c_str element_name) val len"

definition messageelement_writer_write_int8 ::
  "buffer_vec \<Rightarrow> messageelement_writer \<Rightarrow> const_string \<Rightarrow> byte list \<Rightarrow> status \<times> buffer_vec \<times> messageelement_writer" where
  "messageelement_writer_write_int8 bv w element_name val = messageelement_writer_write_raw bv w element_name val 1 DATATYPE_INT8 1"

definition messageelement_writer_write_int8_array ::
  "buffer_vec \<Rightarrow> messageelement_writer \<Rightarrow> const_string \<Rightarrow> byte list \<Rightarrow> size_t \<Rightarrow> status \<times> buffer_vec \<times> messageelement_writer" where
  "messageelement_writer_write_int8_array bv w element_name val len =
     messageelement_writer_write_raw bv w element_name val len DATATYPE_INT8 1"

definition messageelement_writer_write_int8_c_str ::
  "buffer_vec \<Rightarrow> messageelement_writer \<Rightarrow> byte list option \<Rightarrow> byte list \<Rightarrow> status \<times> buffer_vec \<times> messageelement_writer" where
  "messageelement_writer_write_int8_c_str bv w element_name val = messageelement_writer_write_int8 bv w (string_from_c_str element_name) val"

definition messageelement_writer_write_int8_array_c_str ::
  "buffer_vec \<Rightarrow> messageelement_writer \<Rightarrow> byte list option \<Rightarrow> byte list \<Rightarrow> size_t \<Rightarrow> status \<times> buffer_vec \<times> messageelement_writer" where
  "messageelement_writer_write_int8_array_c_str bv w element_name val len = messageelement_writer_write_int8_array bv w (string_from_c_str element_name) val len"

definition messageelement_writer_write_uint8 ::
  "buffer_vec \<Rightarrow> messageelement_writer \<Rightarrow> const_string \<Rightarrow> byte list \<Rightarrow> status \<times> buffer_vec \<times> messageelement_writer" where
  "messageelement_writer_write_uint8 bv w element_name val = messageelement_writer_write_raw bv w element_name val 1 DATATYPE_UINT8 1"

definition messageelement_writer_write_uint8_array ::
  "buffer_vec \<Rightarrow> messageelement_writer \<Rightarrow> const_string \<Rightarrow> byte list \<Rightarrow> size_t \<Rightarrow> status \<times> buffer_vec \<times> messageelement_writer" where
  "messageelement_writer_write_uint8_array bv w element_name val len =
     messageelement_writer_write_raw bv w element_name val len DATATYPE_UINT8 1"

definition messageelement_writer_write_uint8_c_str ::
  "buffer_vec \<Rightarrow> messageelement_writer \<Rightarrow> byte list option \<Rightarrow> byte list \<Rightarrow> status \<times> buffer_vec \<times> messageelement_writer" where
  "messageelement_writer_write_uint8_c_str bv w element_name val = messageelement_writer_write_uint8 bv w (string_from_c_str element_name) val"

definition messageelement_writer_write_uint8_array_c_str ::
  "buffer_vec \<Rightarrow> messageelement_writer \<Rightarrow> byte list option \<Rightarrow> byte list \<Rightarrow> size_t \<Rightarrow> status \<times> buffer_vec \<times> messageelement_writer" where
  "messageelement_writer_write_uint8_array_c_str bv w element_name val len = messageelement_writer_write_uint8_array bv w (string_from_c_str element_name) val len"

definition messageelement_writer_write_int16 ::
  "buffer_vec \<Rightarrow> messageelement_writer \<Rightarrow> const_string \<Rightarrow> byte list \<Rightarrow> status \<times> buffer_vec \<times> messageelement_writer" where
  "messageelement_writer_write_int16 bv w element_name val = messageelement_writer_write_raw bv w element_name val 1 DATATYPE_INT16 2"

definition messageelement_writer_write_int16_array ::
  "buffer_vec \<Rightarrow> messageelement_writer \<Rightarrow> const_string \<Rightarrow> byte list \<Rightarrow> size_t \<Rightarrow> status \<times> buffer_vec \<times> messageelement_writer" where
  "messageelement_writer_write_int16_array bv w element_name val len =
     messageelement_writer_write_raw bv w element_name val len DATATYPE_INT16 2"

definition messageelement_writer_write_int16_c_str ::
  "buffer_vec \<Rightarrow> messageelement_writer \<Rightarrow> byte list option \<Rightarrow> byte list \<Rightarrow> status \<times> buffer_vec \<times> messageelement_writer" where
  "messageelement_writer_write_int16_c_str bv w element_name val = messageelement_writer_write_int16 bv w (string_from_c_str element_name) val"

definition messageelement_writer_write_int16_array_c_str ::
  "buffer_vec \<Rightarrow> messageelement_writer \<Rightarrow> byte list option \<Rightarrow> byte list \<Rightarrow> size_t \<Rightarrow> status \<times> buffer_vec \<times> messageelement_writer" where
  "messageelement_writer_write_int16_array_c_str bv w element_name val len = messageelement_writer_write_int16_array bv w (string_from_c_str element_name) val len"

definition messageelement_writer_write_uint16 ::
  "buffer_vec \<Rightarrow> messageelement_writer \<Rightarrow> const_string \<Rightarrow> byte list \<Rightarrow> status \<times> buffer_vec \<times> messageelement_writer" where
  "messageelement_writer_write_uint16 bv w element_name val = messageelement_writer_write_raw bv w element_name val 1 DATATYPE_UINT16 2"

definition messageelement_writer_write_uint16_array ::
  "buffer_vec \<Rightarrow> messageelement_writer \<Rightarrow> const_string \<Rightarrow> byte list \<Rightarrow> size_t \<Rightarrow> status \<times> buffer_vec \<times> messageelement_writer" where
  "messageelement_writer_write_uint16_array bv w element_name val len =
     messageelement_writer_write_raw bv w element_name val len DATATYPE_UINT16 2"

definition messageelement_writer_write_uint16_c_str ::
  "buffer_vec \<Rightarrow> messageelement_writer \<Rightarrow> byte list option \<Rightarrow> byte list \<Rightarrow> status \<times> buffer_vec \<times> messageelement_writer" where
  "messageelement_writer_write_uint16_c_str bv w element_name val = messageelement_writer_write_uint16 bv w (string_from_c_str element_name) val"

definition messageelement_writer_write_uint16_array_c_str ::
  "buffer_vec \<Rightarrow> messageelement_writer \<Rightarrow> byte list option \<Rightarrow> byte list \<Rightarrow> size_t \<Rightarrow> status \<times> buffer_vec \<times> messageelement_writer" where
  "messageelement_writer_write_uint16_array_c_str bv w element_name val len = messageelement_writer_write_uint16_array bv w (string_from_c_str element_name) val len"

definition messageelement_writer_write_int32 ::
  "buffer_vec \<Rightarrow> messageelement_writer \<Rightarrow> const_string \<Rightarrow> byte list \<Rightarrow> status \<times> buffer_vec \<times> messageelement_writer" where
  "messageelement_writer_write_int32 bv w element_name val = messageelement_writer_write_raw bv w element_name val 1 DATATYPE_INT32 4"

definition messageelement_writer_write_int32_array ::
  "buffer_vec \<Rightarrow> messageelement_writer \<Rightarrow> const_string \<Rightarrow> byte list \<Rightarrow> size_t \<Rightarrow> status \<times> buffer_vec \<times> messageelement_writer" where
  "messageelement_writer_write_int32_array bv w element_name val len =
     messageelement_writer_write_raw bv w element_name val len DATATYPE_INT32 4"

definition messageelement_writer_write_int32_c_str ::
  "buffer_vec \<Rightarrow> messageelement_writer \<Rightarrow> byte list option \<Rightarrow> byte list \<Rightarrow> status \<times> buffer_vec \<times> messageelement_writer" where
  "messageelement_writer_write_int32_c_str bv w element_name val = messageelement_writer_write_int32 bv w (string_from_c_str element_name) val"

definition messageelement_writer_write_int32_array_c_str ::
  "buffer_vec \<Rightarrow> messageelement_writer \<Rightarrow> byte list option \<Rightarrow> byte list \<Rightarrow> size_t \<Rightarrow> status \<times> buffer_vec \<times> messageelement_writer" where
  "messageelement_writer_write_int32_array_c_str bv w element_name val len = messageelement_writer_write_int32_array bv w (string_from_c_str element_name) val len"

definition messageelement_writer_write_uint32 ::
  "buffer_vec \<Rightarrow> messageelement_writer \<Rightarrow> const_string \<Rightarrow> byte list \<Rightarrow> status \<times> buffer_vec \<times> messageelement_writer" where
  "messageelement_writer_write_uint32 bv w element_name val = messageelement_writer_write_raw bv w element_name val 1 DATATYPE_UINT32 4"

definition messageelement_writer_write_uint32_array ::
  "buffer_vec \<Rightarrow> messageelement_writer \<Rightarrow> const_string \<Rightarrow> byte list \<Rightarrow> size_t \<Rightarrow> status \<times> buffer_vec \<times> messageelement_writer" where
  "messageelement_writer_write_uint32_array bv w element_name val len =
     messageelement_writer_write_raw bv w element_name val len DATATYPE_UINT32 4"

definition messageelement_writer_write_uint32_c_str ::
  "buffer_vec \<Rightarrow> messageelement_writer \<Rightarrow> byte list option \<Rightarrow> byte list \<Rightarrow> status \<times> buffer_vec \<times> messageelement_writer" where
  "messageelement_writer_write_uint32_c_str bv w element_name val = messageelement_writer_write_uint32 bv w (string_from_c_str element_name) val"

definition messageelement_writer_write_uint32_array_c_str ::
  "buffer_vec \<Rightarrow> messageelement_writer \<Rightarrow> byte list option \<Rightarrow> byte list \<Rightarrow> size_t \<Rightarrow> status \<times> buffer_vec \<times> messageelement_writer" where
  "messageelement_writer_write_uint32_array_c_str bv w element_name val len = messageelement_writer_write_uint32_array bv w (string_from_c_str element_name) val len"

definition messageelement_writer_write_int64 ::
  "buffer_vec \<Rightarrow> messageelement_writer \<Rightarrow> const_string \<Rightarrow> byte list \<Rightarrow> status \<times> buffer_vec \<times> messageelement_writer" where
  "messageelement_writer_write_int64 bv w element_name val = messageelement_writer_write_raw bv w element_name val 1 DATATYPE_INT64 8"

definition messageelement_writer_write_int64_array ::
  "buffer_vec \<Rightarrow> messageelement_writer \<Rightarrow> const_string \<Rightarrow> byte list \<Rightarrow> size_t \<Rightarrow> status \<times> buffer_vec \<times> messageelement_writer" where
  "messageelement_writer_write_int64_array bv w element_name val len =
     messageelement_writer_write_raw bv w element_name val len DATATYPE_INT64 8"

definition messageelement_writer_write_int64_c_str ::
  "buffer_vec \<Rightarrow> messageelement_writer \<Rightarrow> byte list option \<Rightarrow> byte list \<Rightarrow> status \<times> buffer_vec \<times> messageelement_writer" where
  "messageelement_writer_write_int64_c_str bv w element_name val = messageelement_writer_write_int64 bv w (string_from_c_str element_name) val"

definition messageelement_writer_write_int64_array_c_str ::
  "buffer_vec \<Rightarrow> messageelement_writer \<Rightarrow> byte list option \<Rightarrow> byte list \<Rightarrow> size_t \<Rightarrow> status \<times> buffer_vec \<times> messageelement_writer" where
  "messageelement_writer_write_int64_array_c_str bv w element_name val len = messageelement_writer_write_int64_array bv w (string_from_c_str element_name) val len"

definition messageelement_writer_write_uint64 ::
  "buffer_vec \<Rightarrow> messageelement_writer \<Rightarrow> const_string \<Rightarrow> byte list \<Rightarrow> status \<times> buffer_vec \<times> messageelement_writer" where
  "messageelement_writer_write_uint64 bv w element_name val = messageelement_writer_write_raw bv w element_name val 1 DATATYPE_UINT64 8"

definition messageelement_writer_write_uint64_array ::
  "buffer_vec \<Rightarrow> messageelement_writer \<Rightarrow> const_string \<Rightarrow> byte list \<Rightarrow> size_t \<Rightarrow> status \<times> buffer_vec \<times> messageelement_writer" where
  "messageelement_writer_write_uint64_array bv w element_name val len =
     messageelement_writer_write_raw bv w element_name val len DATATYPE_UINT64 8"

definition messageelement_writer_write_uint64_c_str ::
  "buffer_vec \<Rightarrow> messageelement_writer \<Rightarrow> byte list option \<Rightarrow> byte list \<Rightarrow> status \<times> buffer_vec \<times> messageelement_writer" where
  "messageelement_writer_write_uint64_c_str bv w element_name val = messageelement_writer_write_uint64 bv w (string_from_c_str element_name) val"

definition messageelement_writer_write_uint64_array_c_str ::
  "buffer_vec \<Rightarrow> messageelement_writer \<Rightarrow> byte list option \<Rightarrow> byte list \<Rightarrow> size_t \<Rightarrow> status \<times> buffer_vec \<times> messageelement_writer" where
  "messageelement_writer_write_uint64_array_c_str bv w element_name val len = messageelement_writer_write_uint64_array bv w (string_from_c_str element_name) val len"

definition messageelement_writer_write_cdouble ::
  "buffer_vec \<Rightarrow> messageelement_writer \<Rightarrow> const_string \<Rightarrow> byte list \<Rightarrow> status \<times> buffer_vec \<times> messageelement_writer" where
  "messageelement_writer_write_cdouble bv w element_name val = messageelement_writer_write_raw bv w element_name val 1 DATATYPE_CDOUBLE 16"

definition messageelement_writer_write_cdouble_array ::
  "buffer_vec \<Rightarrow> messageelement_writer \<Rightarrow> const_string \<Rightarrow> byte list \<Rightarrow> size_t \<Rightarrow> status \<times> buffer_vec \<times> messageelement_writer" where
  "messageelement_writer_write_cdouble_array bv w element_name val len =
     messageelement_writer_write_raw bv w element_name val len DATATYPE_CDOUBLE 16"

definition messageelement_writer_write_cdouble_c_str ::
  "buffer_vec \<Rightarrow> messageelement_writer \<Rightarrow> byte list option \<Rightarrow> byte list \<Rightarrow> status \<times> buffer_vec \<times> messageelement_writer" where
  "messageelement_writer_write_cdouble_c_str bv w element_name val = messageelement_writer_write_cdouble bv w (string_from_c_str element_name) val"

definition messageelement_writer_write_cdouble_array_c_str ::
  "buffer_vec \<Rightarrow> messageelement_writer \<Rightarrow> byte list option \<Rightarrow> byte list \<Rightarrow> size_t \<Rightarrow> status \<times> buffer_vec \<times> messageelement_writer" where
  "messageelement_writer_write_cdouble_array_c_str bv w element_name val len = messageelement_writer_write_cdouble_array bv w (string_from_c_str element_name) val len"

definition messageelement_writer_write_csingle ::
  "buffer_vec \<Rightarrow> messageelement_writer \<Rightarrow> const_string \<Rightarrow> byte list \<Rightarrow> status \<times> buffer_vec \<times> messageelement_writer" where
  "messageelement_writer_write_csingle bv w element_name val = messageelement_writer_write_raw bv w element_name val 1 DATATYPE_CSINGLE 8"

definition messageelement_writer_write_csingle_array ::
  "buffer_vec \<Rightarrow> messageelement_writer \<Rightarrow> const_string \<Rightarrow> byte list \<Rightarrow> size_t \<Rightarrow> status \<times> buffer_vec \<times> messageelement_writer" where
  "messageelement_writer_write_csingle_array bv w element_name val len =
     messageelement_writer_write_raw bv w element_name val len DATATYPE_CSINGLE 8"

definition messageelement_writer_write_csingle_c_str ::
  "buffer_vec \<Rightarrow> messageelement_writer \<Rightarrow> byte list option \<Rightarrow> byte list \<Rightarrow> status \<times> buffer_vec \<times> messageelement_writer" where
  "messageelement_writer_write_csingle_c_str bv w element_name val = messageelement_writer_write_csingle bv w (string_from_c_str element_name) val"

definition messageelement_writer_write_csingle_array_c_str ::
  "buffer_vec \<Rightarrow> messageelement_writer \<Rightarrow> byte list option \<Rightarrow> byte list \<Rightarrow> size_t \<Rightarrow> status \<times> buffer_vec \<times> messageelement_writer" where
  "messageelement_writer_write_csingle_array_c_str bv w element_name val len = messageelement_writer_write_csingle_array bv w (string_from_c_str element_name) val len"

definition messageelement_writer_write_bool ::
  "buffer_vec \<Rightarrow> messageelement_writer \<Rightarrow> const_string \<Rightarrow> byte list \<Rightarrow> status \<times> buffer_vec \<times> messageelement_writer" where
  "messageelement_writer_write_bool bv w element_name val = messageelement_writer_write_raw bv w element_name val 1 DATATYPE_BOOL 1"

definition messageelement_writer_write_bool_array ::
  "buffer_vec \<Rightarrow> messageelement_writer \<Rightarrow> const_string \<Rightarrow> byte list \<Rightarrow> size_t \<Rightarrow> status \<times> buffer_vec \<times> messageelement_writer" where
  "messageelement_writer_write_bool_array bv w element_name val len =
     messageelement_writer_write_raw bv w element_name val len DATATYPE_BOOL 1"

definition messageelement_writer_write_bool_c_str ::
  "buffer_vec \<Rightarrow> messageelement_writer \<Rightarrow> byte list option \<Rightarrow> byte list \<Rightarrow> status \<times> buffer_vec \<times> messageelement_writer" where
  "messageelement_writer_write_bool_c_str bv w element_name val = messageelement_writer_write_bool bv w (string_from_c_str element_name) val"

definition messageelement_writer_write_bool_array_c_str ::
  "buffer_vec \<Rightarrow> messageelement_writer \<Rightarrow> byte list option \<Rightarrow> byte list \<Rightarrow> size_t \<Rightarrow> status \<times> buffer_vec \<times> messageelement_writer" where
  "messageelement_writer_write_bool_array_c_str bv w element_name val len = messageelement_writer_write_bool_array bv w (string_from_c_str element_name) val len"

definition messageelement_writer_write_data_string ::
  "buffer_vec \<Rightarrow> messageelement_writer \<Rightarrow> const_string \<Rightarrow> const_string \<Rightarrow> status \<times> buffer_vec \<times> messageelement_writer" where
  "messageelement_writer_write_data_string bv w element_name val =
     messageelement_writer_write_raw bv w element_name val (length val) DATATYPE_STRING 1"

definition messageelement_writer_write_data_string_c_str2 ::
  "buffer_vec \<Rightarrow> messageelement_writer \<Rightarrow> byte list option \<Rightarrow> byte list option \<Rightarrow> status \<times> buffer_vec \<times> messageelement_writer" where
  "messageelement_writer_write_data_string_c_str2 bv w element_name val =
     messageelement_writer_write_data_string bv w (string_from_c_str element_name) (string_from_c_str val)"

definition messageelement_writer_write_data_string_c_str ::
  "buffer_vec \<Rightarrow> messageelement_writer \<Rightarrow> byte list option \<Rightarrow> const_string \<Rightarrow> status \<times> buffer_vec \<times> messageelement_writer" where
  "messageelement_writer_write_data_string_c_str bv w element_name val =
     messageelement_writer_write_data_string bv w (string_from_c_str element_name) val"

end
