(* ===== verification/RRL_ArrayTypes.thy ===== *)
theory RRL_ArrayTypes
  imports RRL_Codec
begin

text \<open>
  The rest of the typed accessors of src/array_types.c. An array of a type is the bytes of its memory
  with the number of its elements; a number of 8 bytes, a floating point or complex number or a
  truth value is the bytes of its memory. Both directions are copies with the type's size.
\<close>

definition buffer_vec_copy_to_double_array ::
  "buffer_vec \<Rightarrow> size_t \<Rightarrow> byte list \<Rightarrow> size_t \<Rightarrow> size_t \<Rightarrow> size_t \<Rightarrow> status \<times> byte list" where
  "buffer_vec_copy_to_double_array bv p dest dest_len dest_pos dest_count =
     buffer_vec_copy_to_mem bv p dest dest_len dest_pos 8 dest_count"

definition buffer_vec_copy_from_double_array ::
  "buffer_vec \<Rightarrow> size_t \<Rightarrow> byte list \<Rightarrow> size_t \<Rightarrow> size_t \<Rightarrow> size_t \<Rightarrow> status \<times> buffer_vec" where
  "buffer_vec_copy_from_double_array bv p source source_len source_pos source_count =
     buffer_vec_copy_from_mem bv p source source_len source_pos 8 source_count"

definition buffer_vec_copy_to_double :: "buffer_vec \<Rightarrow> size_t \<Rightarrow> byte list \<Rightarrow> status \<times> byte list" where
  "buffer_vec_copy_to_double bv p dest = buffer_vec_copy_to_mem bv p dest 1 0 8 1"

definition buffer_vec_copy_from_double :: "buffer_vec \<Rightarrow> size_t \<Rightarrow> byte list \<Rightarrow> status \<times> buffer_vec" where
  "buffer_vec_copy_from_double bv p source = buffer_vec_copy_from_mem bv p source 1 0 8 1"

definition buffer_vec_copy_to_single_array ::
  "buffer_vec \<Rightarrow> size_t \<Rightarrow> byte list \<Rightarrow> size_t \<Rightarrow> size_t \<Rightarrow> size_t \<Rightarrow> status \<times> byte list" where
  "buffer_vec_copy_to_single_array bv p dest dest_len dest_pos dest_count =
     buffer_vec_copy_to_mem bv p dest dest_len dest_pos 4 dest_count"

definition buffer_vec_copy_from_single_array ::
  "buffer_vec \<Rightarrow> size_t \<Rightarrow> byte list \<Rightarrow> size_t \<Rightarrow> size_t \<Rightarrow> size_t \<Rightarrow> status \<times> buffer_vec" where
  "buffer_vec_copy_from_single_array bv p source source_len source_pos source_count =
     buffer_vec_copy_from_mem bv p source source_len source_pos 4 source_count"

definition buffer_vec_copy_to_single :: "buffer_vec \<Rightarrow> size_t \<Rightarrow> byte list \<Rightarrow> status \<times> byte list" where
  "buffer_vec_copy_to_single bv p dest = buffer_vec_copy_to_mem bv p dest 1 0 4 1"

definition buffer_vec_copy_from_single :: "buffer_vec \<Rightarrow> size_t \<Rightarrow> byte list \<Rightarrow> status \<times> buffer_vec" where
  "buffer_vec_copy_from_single bv p source = buffer_vec_copy_from_mem bv p source 1 0 4 1"

definition buffer_vec_copy_to_int8_array ::
  "buffer_vec \<Rightarrow> size_t \<Rightarrow> byte list \<Rightarrow> size_t \<Rightarrow> size_t \<Rightarrow> size_t \<Rightarrow> status \<times> byte list" where
  "buffer_vec_copy_to_int8_array bv p dest dest_len dest_pos dest_count =
     buffer_vec_copy_to_mem bv p dest dest_len dest_pos 1 dest_count"

definition buffer_vec_copy_from_int8_array ::
  "buffer_vec \<Rightarrow> size_t \<Rightarrow> byte list \<Rightarrow> size_t \<Rightarrow> size_t \<Rightarrow> size_t \<Rightarrow> status \<times> buffer_vec" where
  "buffer_vec_copy_from_int8_array bv p source source_len source_pos source_count =
     buffer_vec_copy_from_mem bv p source source_len source_pos 1 source_count"

definition buffer_vec_copy_to_int16_array ::
  "buffer_vec \<Rightarrow> size_t \<Rightarrow> byte list \<Rightarrow> size_t \<Rightarrow> size_t \<Rightarrow> size_t \<Rightarrow> status \<times> byte list" where
  "buffer_vec_copy_to_int16_array bv p dest dest_len dest_pos dest_count =
     buffer_vec_copy_to_mem bv p dest dest_len dest_pos 2 dest_count"

definition buffer_vec_copy_from_int16_array ::
  "buffer_vec \<Rightarrow> size_t \<Rightarrow> byte list \<Rightarrow> size_t \<Rightarrow> size_t \<Rightarrow> size_t \<Rightarrow> status \<times> buffer_vec" where
  "buffer_vec_copy_from_int16_array bv p source source_len source_pos source_count =
     buffer_vec_copy_from_mem bv p source source_len source_pos 2 source_count"

definition buffer_vec_copy_to_uint16_array ::
  "buffer_vec \<Rightarrow> size_t \<Rightarrow> byte list \<Rightarrow> size_t \<Rightarrow> size_t \<Rightarrow> size_t \<Rightarrow> status \<times> byte list" where
  "buffer_vec_copy_to_uint16_array bv p dest dest_len dest_pos dest_count =
     buffer_vec_copy_to_mem bv p dest dest_len dest_pos 2 dest_count"

definition buffer_vec_copy_from_uint16_array ::
  "buffer_vec \<Rightarrow> size_t \<Rightarrow> byte list \<Rightarrow> size_t \<Rightarrow> size_t \<Rightarrow> size_t \<Rightarrow> status \<times> buffer_vec" where
  "buffer_vec_copy_from_uint16_array bv p source source_len source_pos source_count =
     buffer_vec_copy_from_mem bv p source source_len source_pos 2 source_count"

definition buffer_vec_copy_to_int32_array ::
  "buffer_vec \<Rightarrow> size_t \<Rightarrow> byte list \<Rightarrow> size_t \<Rightarrow> size_t \<Rightarrow> size_t \<Rightarrow> status \<times> byte list" where
  "buffer_vec_copy_to_int32_array bv p dest dest_len dest_pos dest_count =
     buffer_vec_copy_to_mem bv p dest dest_len dest_pos 4 dest_count"

definition buffer_vec_copy_from_int32_array ::
  "buffer_vec \<Rightarrow> size_t \<Rightarrow> byte list \<Rightarrow> size_t \<Rightarrow> size_t \<Rightarrow> size_t \<Rightarrow> status \<times> buffer_vec" where
  "buffer_vec_copy_from_int32_array bv p source source_len source_pos source_count =
     buffer_vec_copy_from_mem bv p source source_len source_pos 4 source_count"

definition buffer_vec_copy_to_uint32_array ::
  "buffer_vec \<Rightarrow> size_t \<Rightarrow> byte list \<Rightarrow> size_t \<Rightarrow> size_t \<Rightarrow> size_t \<Rightarrow> status \<times> byte list" where
  "buffer_vec_copy_to_uint32_array bv p dest dest_len dest_pos dest_count =
     buffer_vec_copy_to_mem bv p dest dest_len dest_pos 4 dest_count"

definition buffer_vec_copy_from_uint32_array ::
  "buffer_vec \<Rightarrow> size_t \<Rightarrow> byte list \<Rightarrow> size_t \<Rightarrow> size_t \<Rightarrow> size_t \<Rightarrow> status \<times> buffer_vec" where
  "buffer_vec_copy_from_uint32_array bv p source source_len source_pos source_count =
     buffer_vec_copy_from_mem bv p source source_len source_pos 4 source_count"

definition buffer_vec_copy_to_int64_array ::
  "buffer_vec \<Rightarrow> size_t \<Rightarrow> byte list \<Rightarrow> size_t \<Rightarrow> size_t \<Rightarrow> size_t \<Rightarrow> status \<times> byte list" where
  "buffer_vec_copy_to_int64_array bv p dest dest_len dest_pos dest_count =
     buffer_vec_copy_to_mem bv p dest dest_len dest_pos 8 dest_count"

definition buffer_vec_copy_from_int64_array ::
  "buffer_vec \<Rightarrow> size_t \<Rightarrow> byte list \<Rightarrow> size_t \<Rightarrow> size_t \<Rightarrow> size_t \<Rightarrow> status \<times> buffer_vec" where
  "buffer_vec_copy_from_int64_array bv p source source_len source_pos source_count =
     buffer_vec_copy_from_mem bv p source source_len source_pos 8 source_count"

definition buffer_vec_copy_to_int64 :: "buffer_vec \<Rightarrow> size_t \<Rightarrow> byte list \<Rightarrow> status \<times> byte list" where
  "buffer_vec_copy_to_int64 bv p dest = buffer_vec_copy_to_mem bv p dest 1 0 8 1"

definition buffer_vec_copy_from_int64 :: "buffer_vec \<Rightarrow> size_t \<Rightarrow> byte list \<Rightarrow> status \<times> buffer_vec" where
  "buffer_vec_copy_from_int64 bv p source = buffer_vec_copy_from_mem bv p source 1 0 8 1"

definition buffer_vec_copy_to_uint64_array ::
  "buffer_vec \<Rightarrow> size_t \<Rightarrow> byte list \<Rightarrow> size_t \<Rightarrow> size_t \<Rightarrow> size_t \<Rightarrow> status \<times> byte list" where
  "buffer_vec_copy_to_uint64_array bv p dest dest_len dest_pos dest_count =
     buffer_vec_copy_to_mem bv p dest dest_len dest_pos 8 dest_count"

definition buffer_vec_copy_from_uint64_array ::
  "buffer_vec \<Rightarrow> size_t \<Rightarrow> byte list \<Rightarrow> size_t \<Rightarrow> size_t \<Rightarrow> size_t \<Rightarrow> status \<times> buffer_vec" where
  "buffer_vec_copy_from_uint64_array bv p source source_len source_pos source_count =
     buffer_vec_copy_from_mem bv p source source_len source_pos 8 source_count"

definition buffer_vec_copy_to_uint64 :: "buffer_vec \<Rightarrow> size_t \<Rightarrow> byte list \<Rightarrow> status \<times> byte list" where
  "buffer_vec_copy_to_uint64 bv p dest = buffer_vec_copy_to_mem bv p dest 1 0 8 1"

definition buffer_vec_copy_from_uint64 :: "buffer_vec \<Rightarrow> size_t \<Rightarrow> byte list \<Rightarrow> status \<times> buffer_vec" where
  "buffer_vec_copy_from_uint64 bv p source = buffer_vec_copy_from_mem bv p source 1 0 8 1"

definition buffer_vec_copy_to_cdouble_array ::
  "buffer_vec \<Rightarrow> size_t \<Rightarrow> byte list \<Rightarrow> size_t \<Rightarrow> size_t \<Rightarrow> size_t \<Rightarrow> status \<times> byte list" where
  "buffer_vec_copy_to_cdouble_array bv p dest dest_len dest_pos dest_count =
     buffer_vec_copy_to_mem bv p dest dest_len dest_pos 16 dest_count"

definition buffer_vec_copy_from_cdouble_array ::
  "buffer_vec \<Rightarrow> size_t \<Rightarrow> byte list \<Rightarrow> size_t \<Rightarrow> size_t \<Rightarrow> size_t \<Rightarrow> status \<times> buffer_vec" where
  "buffer_vec_copy_from_cdouble_array bv p source source_len source_pos source_count =
     buffer_vec_copy_from_mem bv p source source_len source_pos 16 source_count"

definition buffer_vec_copy_to_cdouble :: "buffer_vec \<Rightarrow> size_t \<Rightarrow> byte list \<Rightarrow> status \<times> byte list" where
  "buffer_vec_copy_to_cdouble bv p dest = buffer_vec_copy_to_mem bv p dest 1 0 16 1"

definition buffer_vec_copy_from_cdouble :: "buffer_vec \<Rightarrow> size_t \<Rightarrow> byte list \<Rightarrow> status \<times> buffer_vec" where
  "buffer_vec_copy_from_cdouble bv p source = buffer_vec_copy_from_mem bv p source 1 0 16 1"

definition buffer_vec_copy_to_csingle_array ::
  "buffer_vec \<Rightarrow> size_t \<Rightarrow> byte list \<Rightarrow> size_t \<Rightarrow> size_t \<Rightarrow> size_t \<Rightarrow> status \<times> byte list" where
  "buffer_vec_copy_to_csingle_array bv p dest dest_len dest_pos dest_count =
     buffer_vec_copy_to_mem bv p dest dest_len dest_pos 8 dest_count"

definition buffer_vec_copy_from_csingle_array ::
  "buffer_vec \<Rightarrow> size_t \<Rightarrow> byte list \<Rightarrow> size_t \<Rightarrow> size_t \<Rightarrow> size_t \<Rightarrow> status \<times> buffer_vec" where
  "buffer_vec_copy_from_csingle_array bv p source source_len source_pos source_count =
     buffer_vec_copy_from_mem bv p source source_len source_pos 8 source_count"

definition buffer_vec_copy_to_csingle :: "buffer_vec \<Rightarrow> size_t \<Rightarrow> byte list \<Rightarrow> status \<times> byte list" where
  "buffer_vec_copy_to_csingle bv p dest = buffer_vec_copy_to_mem bv p dest 1 0 8 1"

definition buffer_vec_copy_from_csingle :: "buffer_vec \<Rightarrow> size_t \<Rightarrow> byte list \<Rightarrow> status \<times> buffer_vec" where
  "buffer_vec_copy_from_csingle bv p source = buffer_vec_copy_from_mem bv p source 1 0 8 1"

definition buffer_vec_copy_to_bool_array ::
  "buffer_vec \<Rightarrow> size_t \<Rightarrow> byte list \<Rightarrow> size_t \<Rightarrow> size_t \<Rightarrow> size_t \<Rightarrow> status \<times> byte list" where
  "buffer_vec_copy_to_bool_array bv p dest dest_len dest_pos dest_count =
     buffer_vec_copy_to_mem bv p dest dest_len dest_pos 1 dest_count"

definition buffer_vec_copy_from_bool_array ::
  "buffer_vec \<Rightarrow> size_t \<Rightarrow> byte list \<Rightarrow> size_t \<Rightarrow> size_t \<Rightarrow> size_t \<Rightarrow> status \<times> buffer_vec" where
  "buffer_vec_copy_from_bool_array bv p source source_len source_pos source_count =
     buffer_vec_copy_from_mem bv p source source_len source_pos 1 source_count"

definition buffer_vec_copy_to_bool :: "buffer_vec \<Rightarrow> size_t \<Rightarrow> byte list \<Rightarrow> status \<times> byte list" where
  "buffer_vec_copy_to_bool bv p dest = buffer_vec_copy_to_mem bv p dest 1 0 1 1"

definition buffer_vec_copy_from_bool :: "buffer_vec \<Rightarrow> size_t \<Rightarrow> byte list \<Rightarrow> status \<times> buffer_vec" where
  "buffer_vec_copy_from_bool bv p source = buffer_vec_copy_from_mem bv p source 1 0 1 1"


section \<open>What is written is read back\<close>

lemma mem_roundtrip:
  assumes wf: "wf_vec 1 bv" and es: "0 < es" and n: "0 < n" and d: "length d = n * es"
    and room: "p + n * es \<le> length (flat bv)" and b: "length buf = m * es" "length buf < 2 ^ 63" "n \<le> m"
  shows "\<exists>bv'. buffer_vec_copy_from_mem bv p d n 0 es n = (OK, bv') \<and> buffer_vec_copy_to_mem bv' p buf m 0 es n = (OK, overwrite buf 0 d)"
proof -
  have "n * es \<le> m * es" using b(3) by simp
  then have s: "n * es < 2 ^ 63" using b(1,2) by linarith
  let ?b = "put_flat bv p d"
  have w: "buffer_vec_copy_from_mem bv p d n 0 es n = (OK, ?b)"
    using copy_from_mem_flat [OF wf es n d, of p] room s d by simp
  have "at ?b p d" by (rule at_put_flat) (use room d in simp)
  then have "chunk (flat ?b) p (n * es) = d" "p + n * es \<le> length (flat ?b)" using d by (auto simp: at_def)
  then have "buffer_vec_copy_to_mem ?b p buf m 0 es n = (OK, overwrite buf 0 d)"
    using copy_to_mem_flat [of ?b es n buf m p] wf_vec_put_flat [of p d bv 1] wf es n s b room d by simp
  then show ?thesis using w by blast
qed

locale array_accessors =
  fixes copy_from :: "buffer_vec \<Rightarrow> size_t \<Rightarrow> byte list \<Rightarrow> size_t \<Rightarrow> size_t \<Rightarrow> size_t \<Rightarrow> status \<times> buffer_vec"
    and copy_to :: "buffer_vec \<Rightarrow> size_t \<Rightarrow> byte list \<Rightarrow> size_t \<Rightarrow> size_t \<Rightarrow> size_t \<Rightarrow> status \<times> byte list"
    and es :: nat
  assumes elem_size: "0 < es"
    and copy_from_mem: "copy_from bv p d n i k = buffer_vec_copy_from_mem bv p d n i es k"
    and copy_to_mem: "copy_to bv p b m i k = buffer_vec_copy_to_mem bv p b m i es k"
begin

lemma array_roundtrip:
  assumes "wf_vec 1 bv" and "0 < n" and "length d = n * es" and "p + n * es \<le> length (flat bv)"
    and "length buf = m * es" and "length buf < 2 ^ 63" and "n \<le> m"
  shows "\<exists>bv'. copy_from bv p d n 0 n = (OK, bv') \<and> copy_to bv' p buf m 0 n = (OK, overwrite buf 0 d)"
  using mem_roundtrip [OF assms(1) elem_size assms(2-7)] by (simp add: copy_from_mem copy_to_mem)

end

interpretation double_array: array_accessors buffer_vec_copy_from_double_array buffer_vec_copy_to_double_array 8
  by unfold_locales (simp_all add: buffer_vec_copy_from_double_array_def buffer_vec_copy_to_double_array_def)

interpretation single_array: array_accessors buffer_vec_copy_from_single_array buffer_vec_copy_to_single_array 4
  by unfold_locales (simp_all add: buffer_vec_copy_from_single_array_def buffer_vec_copy_to_single_array_def)

interpretation int8_array: array_accessors buffer_vec_copy_from_int8_array buffer_vec_copy_to_int8_array 1
  by unfold_locales (simp_all add: buffer_vec_copy_from_int8_array_def buffer_vec_copy_to_int8_array_def)

interpretation uint8_array: array_accessors buffer_vec_copy_from_uint8_array buffer_vec_copy_to_uint8_array 1
  by unfold_locales (simp_all add: buffer_vec_copy_from_uint8_array_def buffer_vec_copy_to_uint8_array_def)

interpretation int16_array: array_accessors buffer_vec_copy_from_int16_array buffer_vec_copy_to_int16_array 2
  by unfold_locales (simp_all add: buffer_vec_copy_from_int16_array_def buffer_vec_copy_to_int16_array_def)

interpretation uint16_array: array_accessors buffer_vec_copy_from_uint16_array buffer_vec_copy_to_uint16_array 2
  by unfold_locales (simp_all add: buffer_vec_copy_from_uint16_array_def buffer_vec_copy_to_uint16_array_def)

interpretation int32_array: array_accessors buffer_vec_copy_from_int32_array buffer_vec_copy_to_int32_array 4
  by unfold_locales (simp_all add: buffer_vec_copy_from_int32_array_def buffer_vec_copy_to_int32_array_def)

interpretation uint32_array: array_accessors buffer_vec_copy_from_uint32_array buffer_vec_copy_to_uint32_array 4
  by unfold_locales (simp_all add: buffer_vec_copy_from_uint32_array_def buffer_vec_copy_to_uint32_array_def)

interpretation int64_array: array_accessors buffer_vec_copy_from_int64_array buffer_vec_copy_to_int64_array 8
  by unfold_locales (simp_all add: buffer_vec_copy_from_int64_array_def buffer_vec_copy_to_int64_array_def)

interpretation uint64_array: array_accessors buffer_vec_copy_from_uint64_array buffer_vec_copy_to_uint64_array 8
  by unfold_locales (simp_all add: buffer_vec_copy_from_uint64_array_def buffer_vec_copy_to_uint64_array_def)

interpretation cdouble_array: array_accessors buffer_vec_copy_from_cdouble_array buffer_vec_copy_to_cdouble_array 16
  by unfold_locales (simp_all add: buffer_vec_copy_from_cdouble_array_def buffer_vec_copy_to_cdouble_array_def)

interpretation csingle_array: array_accessors buffer_vec_copy_from_csingle_array buffer_vec_copy_to_csingle_array 8
  by unfold_locales (simp_all add: buffer_vec_copy_from_csingle_array_def buffer_vec_copy_to_csingle_array_def)

interpretation bool_array: array_accessors buffer_vec_copy_from_bool_array buffer_vec_copy_to_bool_array 1
  by unfold_locales (simp_all add: buffer_vec_copy_from_bool_array_def buffer_vec_copy_to_bool_array_def)

end
