(* ===== verification/RRL_TypedSpec.thy ===== *)
theory RRL_TypedSpec
  imports RRL_Typed RRL_ArrayTypes RRL_MessageSpec
begin

text \<open>
  What the typed writers of message_data.c write, the typed readers read back, and no reader of another
  type does. A locale states what one type's routines share; each type of the format is an instance.
\<close>

lemma data_info_other:
  assumes "messageelement_reader_get_data_info bv r t s = Inr x" and "t' \<noteq> t"
  shows "messageelement_reader_get_data_info bv r t' s' = Inl MESSAGEELEMENT_TYPE_MISMATCH"
  using assms by (auto simp: messageelement_reader_get_data_info_def Let_def split: status.splits prod.splits if_splits)

definition typed :: "u16 \<Rightarrow> nat \<Rightarrow> const_string \<Rightarrow> byte list \<Rightarrow> nat \<Rightarrow> raw_element" where
  "typed code es nm vs n = \<lparr>re_name = nm, re_type = code, re_count = n, re_elem_size = es, re_data = vs\<rparr>"

text \<open>Room for an element behind what has been written.\<close>

definition writer_has_room :: "buffer_vec \<Rightarrow> messageelement_writer \<Rightarrow> raw_element \<Rightarrow> bool" where
  "writer_has_room bv w d \<longleftrightarrow> raw_ok (lw_message_version w) d \<and> lw_elements_written_count w < UINT32_MAX \<and>
     lw_buffer_offset w + length (enc_raw (lw_message_version w) d) \<le> length (flat bv)"

text \<open>A cursor at the place where the writer is to write.\<close>

definition reads_from :: "messageelement_reader \<Rightarrow> messageelement_writer \<Rightarrow> bool" where
  "reads_from r w \<longleftrightarrow> lr_message_version r = lw_message_version w \<and> lr_buffer_offset r = lw_buffer_offset w"

lemma raw_written:
  assumes wf: "wf_vec 1 bv" and room: "writer_has_room bv w (typed code es nm vs n)" and r: "reads_from r w"
  shows "\<exists>bv' w'. messageelement_writer_write_raw bv w nm vs n code es = (OK, bv', w') \<and> wf_vec 1 bv' \<and>
     at bv' (lr_buffer_offset r) (enc_raw (lr_message_version r) (typed code es nm vs n)) \<and>
     raw_ok (lr_message_version r) (typed code es nm vs n)"
  using write_raw_at [OF wf, of w "typed code es nm vs n"] room r at_put_flat wf
  by (auto simp: writer_has_room_def reads_from_def write_raw_element_def typed_def)

lemma raw_read:
  assumes wf: "wf_vec 1 bv" and ok: "raw_ok (lr_message_version r) (typed code es nm vs n)"
    and a: "at bv (lr_buffer_offset r) (enc_raw (lr_message_version r) (typed code es nm vs n))"
    and b: "length buf = m * es" "length buf < 2 ^ 63"
  shows "messageelement_reader_read_data_ex bv r buf m code es =
      (if n \<le> m then (OK, overwrite buf 0 vs, n) else (Err OUT_OF_RANGE, buf, m))"
    and "code' \<noteq> code \<Longrightarrow> messageelement_reader_read_data_ex bv r buf m code' es' = (Err MESSAGEELEMENT_TYPE_MISMATCH, buf, m)"
    and "m = 1 \<Longrightarrow> messageelement_reader_read_data_scalar_ex bv r buf code es =
      (if n = 1 then (OK, vs) else (Err PROTOCOL, buf))"
    and "code' \<noteq> code \<Longrightarrow> messageelement_reader_read_data_scalar_ex bv r buf code' es' = (Err MESSAGEELEMENT_TYPE_MISMATCH, buf)"
proof -
  note i = data_info_at [OF wf ok refl a]
  show x: "messageelement_reader_read_data_ex bv r buf m code es =
      (if n \<le> m then (OK, overwrite buf 0 vs, n) else (Err OUT_OF_RANGE, buf, m))"
    using read_data_at [OF wf ok refl a, of buf m] b by (simp add: typed_def)
  show "code' \<noteq> code \<Longrightarrow> messageelement_reader_read_data_ex bv r buf m code' es' = (Err MESSAGEELEMENT_TYPE_MISMATCH, buf, m)"
    "code' \<noteq> code \<Longrightarrow> messageelement_reader_read_data_scalar_ex bv r buf code' es' = (Err MESSAGEELEMENT_TYPE_MISMATCH, buf)"
    using data_info_other [OF i, of code' es']
    by (simp_all add: messageelement_reader_read_data_ex_def messageelement_reader_read_data_scalar_ex_def typed_def)
  have c: "unat (word_of_nat n :: u32) = n" "n \<le> UINT32_MAX"
    using raw_count_le [OF ok] raw_data_small [OF ok] by (simp_all add: typed_def unat_word_of_nat_u32)
  have one: "word_of_nat n = (1 :: u32) \<longleftrightarrow> n = 1" using c(1) by (metis unat_1 of_nat_1)
  have es: "0 < es" "length vs = n * es" using ok by (simp_all add: raw_ok_def typed_def)
  show "messageelement_reader_read_data_scalar_ex bv r buf code es = (if n = 1 then (OK, vs) else (Err PROTOCOL, buf))" if "m = 1"
  proof (cases "n = 1")
    case True
    have "sz_mul 1 es = es" using b that by (simp add: sz_mul_nowrap)
    then show ?thesis
      using x i True that b es(2)
      by (auto simp: messageelement_reader_read_data_ex_def messageelement_reader_read_data_scalar_ex_def typed_def
          buffer_vec_copy_to_mem_def overwrite_def split: prod.splits status.splits)
  next
    case False
    then show ?thesis using i one by (simp add: messageelement_reader_read_data_scalar_ex_def typed_def)
  qed
qed

locale typed_data =
  fixes write_scalar :: "buffer_vec \<Rightarrow> messageelement_writer \<Rightarrow> const_string \<Rightarrow> byte list \<Rightarrow> status \<times> buffer_vec \<times> messageelement_writer"
    and write_array :: "buffer_vec \<Rightarrow> messageelement_writer \<Rightarrow> const_string \<Rightarrow> byte list \<Rightarrow> size_t \<Rightarrow> status \<times> buffer_vec \<times> messageelement_writer"
    and read_scalar :: "buffer_vec \<Rightarrow> messageelement_reader \<Rightarrow> byte list \<Rightarrow> status \<times> byte list"
    and read_array :: "buffer_vec \<Rightarrow> messageelement_reader \<Rightarrow> byte list \<Rightarrow> size_t \<Rightarrow> status \<times> byte list \<times> size_t"
    and code :: u16 and es :: nat
  assumes writes: "write_scalar bv w nm v = messageelement_writer_write_raw bv w nm v 1 code es"
      "write_array bv w nm vs n = messageelement_writer_write_raw bv w nm vs n code es"
    and reads: "read_scalar bv r buf = messageelement_reader_read_data_scalar_ex bv r buf code es"
      "read_array bv r vbuf m = messageelement_reader_read_data_ex bv r vbuf m code es"
begin

lemma array_roundtrip:
  assumes "wf_vec 1 bv" and "writer_has_room bv w (typed code es nm vs n)" and "reads_from r w"
    and "length buf = m * es" and "length buf < 2 ^ 63"
  shows "\<exists>bv' w'. write_array bv w nm vs n = (OK, bv', w') \<and>
    read_array bv' r buf m = (if n \<le> m then (OK, overwrite buf 0 vs, n) else (Err OUT_OF_RANGE, buf, m)) \<and>
    (\<forall>code' es'. code' \<noteq> code \<longrightarrow>
       messageelement_reader_read_data_ex bv' r buf m code' es' = (Err MESSAGEELEMENT_TYPE_MISMATCH, buf, m))"
  using raw_written [OF assms(1-3)] raw_read(1,2) [OF _ _ _ assms(4,5)] unfolding writes reads by metis

lemma scalar_roundtrip:
  assumes "wf_vec 1 bv" and "writer_has_room bv w (typed code es nm v 1)" and "reads_from r w"
    and "length buf = es" and "length buf < 2 ^ 63"
  shows "\<exists>bv' w'. write_scalar bv w nm v = (OK, bv', w') \<and> read_scalar bv' r buf = (OK, v) \<and>
    (\<forall>code' es'. code' \<noteq> code \<longrightarrow>
       messageelement_reader_read_data_scalar_ex bv' r buf code' es' = (Err MESSAGEELEMENT_TYPE_MISMATCH, buf))"
  using raw_written [OF assms(1-3)] raw_read(3,4) [of _ r code es nm v 1 buf 1] assms(4,5) unfolding writes reads by fastforce

end

interpretation double_data: typed_data messageelement_writer_write_double messageelement_writer_write_double_array messageelement_reader_read_data_double messageelement_reader_read_data_double_array DATATYPE_DOUBLE 8
  by unfold_locales (simp_all add: messageelement_writer_write_double_def messageelement_writer_write_double_array_def messageelement_reader_read_data_double_def messageelement_reader_read_data_double_array_def)

interpretation single_data: typed_data messageelement_writer_write_single messageelement_writer_write_single_array messageelement_reader_read_data_single messageelement_reader_read_data_single_array DATATYPE_SINGLE 4
  by unfold_locales (simp_all add: messageelement_writer_write_single_def messageelement_writer_write_single_array_def messageelement_reader_read_data_single_def messageelement_reader_read_data_single_array_def)

interpretation int8_data: typed_data messageelement_writer_write_int8 messageelement_writer_write_int8_array messageelement_reader_read_data_int8 messageelement_reader_read_data_int8_array DATATYPE_INT8 1
  by unfold_locales (simp_all add: messageelement_writer_write_int8_def messageelement_writer_write_int8_array_def messageelement_reader_read_data_int8_def messageelement_reader_read_data_int8_array_def)

interpretation uint8_data: typed_data messageelement_writer_write_uint8 messageelement_writer_write_uint8_array messageelement_reader_read_data_uint8 messageelement_reader_read_data_uint8_array DATATYPE_UINT8 1
  by unfold_locales (simp_all add: messageelement_writer_write_uint8_def messageelement_writer_write_uint8_array_def messageelement_reader_read_data_uint8_def messageelement_reader_read_data_uint8_array_def)

interpretation int16_data: typed_data messageelement_writer_write_int16 messageelement_writer_write_int16_array messageelement_reader_read_data_int16 messageelement_reader_read_data_int16_array DATATYPE_INT16 2
  by unfold_locales (simp_all add: messageelement_writer_write_int16_def messageelement_writer_write_int16_array_def messageelement_reader_read_data_int16_def messageelement_reader_read_data_int16_array_def)

interpretation uint16_data: typed_data messageelement_writer_write_uint16 messageelement_writer_write_uint16_array messageelement_reader_read_data_uint16 messageelement_reader_read_data_uint16_array DATATYPE_UINT16 2
  by unfold_locales (simp_all add: messageelement_writer_write_uint16_def messageelement_writer_write_uint16_array_def messageelement_reader_read_data_uint16_def messageelement_reader_read_data_uint16_array_def)

interpretation int32_data: typed_data messageelement_writer_write_int32 messageelement_writer_write_int32_array messageelement_reader_read_data_int32 messageelement_reader_read_data_int32_array DATATYPE_INT32 4
  by unfold_locales (simp_all add: messageelement_writer_write_int32_def messageelement_writer_write_int32_array_def messageelement_reader_read_data_int32_def messageelement_reader_read_data_int32_array_def)

interpretation uint32_data: typed_data messageelement_writer_write_uint32 messageelement_writer_write_uint32_array messageelement_reader_read_data_uint32 messageelement_reader_read_data_uint32_array DATATYPE_UINT32 4
  by unfold_locales (simp_all add: messageelement_writer_write_uint32_def messageelement_writer_write_uint32_array_def messageelement_reader_read_data_uint32_def messageelement_reader_read_data_uint32_array_def)

interpretation int64_data: typed_data messageelement_writer_write_int64 messageelement_writer_write_int64_array messageelement_reader_read_data_int64 messageelement_reader_read_data_int64_array DATATYPE_INT64 8
  by unfold_locales (simp_all add: messageelement_writer_write_int64_def messageelement_writer_write_int64_array_def messageelement_reader_read_data_int64_def messageelement_reader_read_data_int64_array_def)

interpretation uint64_data: typed_data messageelement_writer_write_uint64 messageelement_writer_write_uint64_array messageelement_reader_read_data_uint64 messageelement_reader_read_data_uint64_array DATATYPE_UINT64 8
  by unfold_locales (simp_all add: messageelement_writer_write_uint64_def messageelement_writer_write_uint64_array_def messageelement_reader_read_data_uint64_def messageelement_reader_read_data_uint64_array_def)

interpretation cdouble_data: typed_data messageelement_writer_write_cdouble messageelement_writer_write_cdouble_array messageelement_reader_read_data_cdouble messageelement_reader_read_data_cdouble_array DATATYPE_CDOUBLE 16
  by unfold_locales (simp_all add: messageelement_writer_write_cdouble_def messageelement_writer_write_cdouble_array_def messageelement_reader_read_data_cdouble_def messageelement_reader_read_data_cdouble_array_def)

interpretation csingle_data: typed_data messageelement_writer_write_csingle messageelement_writer_write_csingle_array messageelement_reader_read_data_csingle messageelement_reader_read_data_csingle_array DATATYPE_CSINGLE 8
  by unfold_locales (simp_all add: messageelement_writer_write_csingle_def messageelement_writer_write_csingle_array_def messageelement_reader_read_data_csingle_def messageelement_reader_read_data_csingle_array_def)

interpretation bool_data: typed_data messageelement_writer_write_bool messageelement_writer_write_bool_array messageelement_reader_read_data_bool messageelement_reader_read_data_bool_array DATATYPE_BOOL 1
  by unfold_locales (simp_all add: messageelement_writer_write_bool_def messageelement_writer_write_bool_array_def messageelement_reader_read_data_bool_def messageelement_reader_read_data_bool_array_def)


section \<open>All types at once\<close>

datatype data_type = T_DOUBLE | T_SINGLE | T_INT8 | T_UINT8 | T_INT16 | T_UINT16 | T_INT32 | T_UINT32 | T_INT64 | T_UINT64 | T_CDOUBLE | T_CSINGLE | T_BOOL

fun data_code :: "data_type \<Rightarrow> u16" where
  "data_code T_DOUBLE = DATATYPE_DOUBLE"
| "data_code T_SINGLE = DATATYPE_SINGLE"
| "data_code T_INT8 = DATATYPE_INT8"
| "data_code T_UINT8 = DATATYPE_UINT8"
| "data_code T_INT16 = DATATYPE_INT16"
| "data_code T_UINT16 = DATATYPE_UINT16"
| "data_code T_INT32 = DATATYPE_INT32"
| "data_code T_UINT32 = DATATYPE_UINT32"
| "data_code T_INT64 = DATATYPE_INT64"
| "data_code T_UINT64 = DATATYPE_UINT64"
| "data_code T_CDOUBLE = DATATYPE_CDOUBLE"
| "data_code T_CSINGLE = DATATYPE_CSINGLE"
| "data_code T_BOOL = DATATYPE_BOOL"

fun data_size :: "data_type \<Rightarrow> nat" where
  "data_size T_DOUBLE = 8"
| "data_size T_SINGLE = 4"
| "data_size T_INT8 = 1"
| "data_size T_UINT8 = 1"
| "data_size T_INT16 = 2"
| "data_size T_UINT16 = 2"
| "data_size T_INT32 = 4"
| "data_size T_UINT32 = 4"
| "data_size T_INT64 = 8"
| "data_size T_UINT64 = 8"
| "data_size T_CDOUBLE = 16"
| "data_size T_CSINGLE = 8"
| "data_size T_BOOL = 1"

fun write_array_of :: "data_type \<Rightarrow> buffer_vec \<Rightarrow> messageelement_writer \<Rightarrow> const_string \<Rightarrow> byte list \<Rightarrow> size_t \<Rightarrow> status \<times> buffer_vec \<times> messageelement_writer" where
  "write_array_of T_DOUBLE = messageelement_writer_write_double_array"
| "write_array_of T_SINGLE = messageelement_writer_write_single_array"
| "write_array_of T_INT8 = messageelement_writer_write_int8_array"
| "write_array_of T_UINT8 = messageelement_writer_write_uint8_array"
| "write_array_of T_INT16 = messageelement_writer_write_int16_array"
| "write_array_of T_UINT16 = messageelement_writer_write_uint16_array"
| "write_array_of T_INT32 = messageelement_writer_write_int32_array"
| "write_array_of T_UINT32 = messageelement_writer_write_uint32_array"
| "write_array_of T_INT64 = messageelement_writer_write_int64_array"
| "write_array_of T_UINT64 = messageelement_writer_write_uint64_array"
| "write_array_of T_CDOUBLE = messageelement_writer_write_cdouble_array"
| "write_array_of T_CSINGLE = messageelement_writer_write_csingle_array"
| "write_array_of T_BOOL = messageelement_writer_write_bool_array"

fun write_scalar_of :: "data_type \<Rightarrow> buffer_vec \<Rightarrow> messageelement_writer \<Rightarrow> const_string \<Rightarrow> byte list \<Rightarrow> status \<times> buffer_vec \<times> messageelement_writer" where
  "write_scalar_of T_DOUBLE = messageelement_writer_write_double"
| "write_scalar_of T_SINGLE = messageelement_writer_write_single"
| "write_scalar_of T_INT8 = messageelement_writer_write_int8"
| "write_scalar_of T_UINT8 = messageelement_writer_write_uint8"
| "write_scalar_of T_INT16 = messageelement_writer_write_int16"
| "write_scalar_of T_UINT16 = messageelement_writer_write_uint16"
| "write_scalar_of T_INT32 = messageelement_writer_write_int32"
| "write_scalar_of T_UINT32 = messageelement_writer_write_uint32"
| "write_scalar_of T_INT64 = messageelement_writer_write_int64"
| "write_scalar_of T_UINT64 = messageelement_writer_write_uint64"
| "write_scalar_of T_CDOUBLE = messageelement_writer_write_cdouble"
| "write_scalar_of T_CSINGLE = messageelement_writer_write_csingle"
| "write_scalar_of T_BOOL = messageelement_writer_write_bool"

fun read_array_of :: "data_type \<Rightarrow> buffer_vec \<Rightarrow> messageelement_reader \<Rightarrow> byte list \<Rightarrow> size_t \<Rightarrow> status \<times> byte list \<times> size_t" where
  "read_array_of T_DOUBLE = messageelement_reader_read_data_double_array"
| "read_array_of T_SINGLE = messageelement_reader_read_data_single_array"
| "read_array_of T_INT8 = messageelement_reader_read_data_int8_array"
| "read_array_of T_UINT8 = messageelement_reader_read_data_uint8_array"
| "read_array_of T_INT16 = messageelement_reader_read_data_int16_array"
| "read_array_of T_UINT16 = messageelement_reader_read_data_uint16_array"
| "read_array_of T_INT32 = messageelement_reader_read_data_int32_array"
| "read_array_of T_UINT32 = messageelement_reader_read_data_uint32_array"
| "read_array_of T_INT64 = messageelement_reader_read_data_int64_array"
| "read_array_of T_UINT64 = messageelement_reader_read_data_uint64_array"
| "read_array_of T_CDOUBLE = messageelement_reader_read_data_cdouble_array"
| "read_array_of T_CSINGLE = messageelement_reader_read_data_csingle_array"
| "read_array_of T_BOOL = messageelement_reader_read_data_bool_array"

fun read_scalar_of :: "data_type \<Rightarrow> buffer_vec \<Rightarrow> messageelement_reader \<Rightarrow> byte list \<Rightarrow> status \<times> byte list" where
  "read_scalar_of T_DOUBLE = messageelement_reader_read_data_double"
| "read_scalar_of T_SINGLE = messageelement_reader_read_data_single"
| "read_scalar_of T_INT8 = messageelement_reader_read_data_int8"
| "read_scalar_of T_UINT8 = messageelement_reader_read_data_uint8"
| "read_scalar_of T_INT16 = messageelement_reader_read_data_int16"
| "read_scalar_of T_UINT16 = messageelement_reader_read_data_uint16"
| "read_scalar_of T_INT32 = messageelement_reader_read_data_int32"
| "read_scalar_of T_UINT32 = messageelement_reader_read_data_uint32"
| "read_scalar_of T_INT64 = messageelement_reader_read_data_int64"
| "read_scalar_of T_UINT64 = messageelement_reader_read_data_uint64"
| "read_scalar_of T_CDOUBLE = messageelement_reader_read_data_cdouble"
| "read_scalar_of T_CSINGLE = messageelement_reader_read_data_csingle"
| "read_scalar_of T_BOOL = messageelement_reader_read_data_bool"

lemma data_code_inj: "data_code t = data_code t' \<longleftrightarrow> t = t'"
  by (cases t; cases t'; simp add: datatype_defs)

lemma writes_of:
  "write_array_of t bv w nm vs n = messageelement_writer_write_raw bv w nm vs n (data_code t) (data_size t)"
  "write_scalar_of t bv w nm vs = messageelement_writer_write_raw bv w nm vs 1 (data_code t) (data_size t)"
  by (cases t; simp add: double_data.writes single_data.writes int8_data.writes uint8_data.writes int16_data.writes uint16_data.writes int32_data.writes uint32_data.writes int64_data.writes uint64_data.writes cdouble_data.writes csingle_data.writes bool_data.writes)+

lemma reads_of:
  "read_array_of t bv r buf m = messageelement_reader_read_data_ex bv r buf m (data_code t) (data_size t)"
  "read_scalar_of t bv r v = messageelement_reader_read_data_scalar_ex bv r v (data_code t) (data_size t)"
  by (cases t; simp add: double_data.reads single_data.reads int8_data.reads uint8_data.reads int16_data.reads uint16_data.reads int32_data.reads uint32_data.reads int64_data.reads uint64_data.reads cdouble_data.reads csingle_data.reads bool_data.reads)+

text \<open>
  C19. Data of every type are read back: after the writer of a type has put an array into a message, the
  reader of that type delivers the same bytes and the number of elements, or refuses a destination that
  is too small for them, and the reader of any other type reports a mismatch. A single value is
  written like an array of one and read back by the reader of single values.
\<close>

theorem typed_data_roundtrip:
  assumes "wf_vec 1 bv" and "reads_from r w" and "writer_has_room bv w (typed (data_code t) (data_size t) nm vs n)"
    and "length buf = m * data_size t" and "length buf < 2 ^ 63"
  shows "\<exists>bv' w'. write_array_of t bv w nm vs n = (OK, bv', w') \<and>
    read_array_of t bv' r buf m = (if n \<le> m then (OK, overwrite buf 0 vs, n) else (Err OUT_OF_RANGE, buf, m)) \<and>
    (\<forall>t'. t' \<noteq> t \<longrightarrow> read_array_of t' bv' r buf m = (Err MESSAGEELEMENT_TYPE_MISMATCH, buf, m)) \<and>
    (n = 1 \<longrightarrow> write_scalar_of t bv w nm vs = (OK, bv', w') \<and>
       (\<forall>v. length v = data_size t \<longrightarrow> read_scalar_of t bv' r v = (OK, vs)))"
proof -
  let ?d = "typed (data_code t) (data_size t) nm vs n"
  obtain bv' w' where w: "messageelement_writer_write_raw bv w nm vs n (data_code t) (data_size t) = (OK, bv', w')"
    "wf_vec 1 bv'" "at bv' (lr_buffer_offset r) (enc_raw (lr_message_version r) ?d)" "raw_ok (lr_message_version r) ?d"
    using raw_written [OF assms(1,3,2)] by blast
  have s: "data_size t < 2 ^ 63" by (cases t) simp_all
  note rd = raw_read(1,2) [OF w(2,4,3) assms(4,5)]
  have "read_scalar_of t bv' r v = (OK, vs)" if "n = 1" "length v = data_size t" for v
    using raw_read(3) [OF w(2,4,3), of v 1] that s by (simp add: reads_of)
  then show ?thesis
    using w(1) rd by (auto simp: writes_of reads_of data_code_inj)
qed

definition typed_writer :: messageelement_writer where
  "typed_writer = \<lparr>lw_buffer_offset = 0, lw_buffer_count = 64, lw_elements_written_count = 0, lw_elements_written_size = 0,
     lw_element_size_offset = 0, lw_data_count_offset = 0, lw_element_header_size = 0, lw_message_version = 4\<rparr>"

definition typed_reader :: messageelement_reader where
  "typed_reader = blank_element_reader\<lparr>lr_message_version := 4\<rparr>"

lemma typed_data_roundtrip_witness:
  "\<exists>bv' w'. write_array_of T_UINT16 (blank_vec2 40 24) typed_writer [97] [1, 0, 2, 0] 2 = (OK, bv', w') \<and>
     read_array_of T_UINT16 bv' typed_reader [0, 0, 0, 0, 0, 0] 3 = (OK, [1, 0, 2, 0, 0, 0], 2) \<and>
     read_array_of T_INT16 bv' typed_reader [0, 0, 0, 0, 0, 0] 3 = (Err MESSAGEELEMENT_TYPE_MISMATCH, [0, 0, 0, 0, 0, 0], 3)"
proof -
  have wf: "wf_vec 1 (blank_vec2 40 24)" by (rule wf_blank2) simp
  have r: "reads_from typed_reader typed_writer"
    by (simp add: reads_from_def typed_reader_def typed_writer_def blank_element_reader_def)
  have ok: "raw_ok 4 (typed (data_code T_UINT16) (data_size T_UINT16) [97] [1, 0, 2, 0] 2)"
    by (simp add: raw_ok_def typed_def raw_body4_def UINT32_MAX_def message_uint_x_size_def)
  have "writer_has_room (blank_vec2 40 24) typed_writer (typed (data_code T_UINT16) (data_size T_UINT16) [97] [1, 0, 2, 0] 2)"
    using ok by (simp add: writer_has_room_def typed_writer_def UINT32_MAX_def length_enc_raw)
       (simp add: typed_def raw_size_def raw_body4_def message_len_plus_uint_x_def message_uint_x_size_def)
  from typed_data_roundtrip [OF wf r this, of "[0, 0, 0, 0, 0, 0]" 3] show ?thesis
    by (fastforce simp: overwrite_def)
qed

end
