(* ===== verification/RRL_Node.thy ===== *)
theory RRL_Node
  imports RRL_ConnList RRL_Socket RRL_Typed
begin

text \<open>
  The node of src/node.c: its state, its list of connections, and how it sends and receives the messages
  of one entry over a connection. The buffers that a message is written into and read from are the
  connection's own, so the operations work on the connection and the send or receive data do not hold
  a copy of them. A string that is copied shallowly is its characters.
\<close>

definition MESSAGE_STR_MAX_SIZE :: size_t where "MESSAGE_STR_MAX_SIZE = 128"

record node =
  nd_connections_head :: addr
  nd_connections_tail :: addr
  nd_connections_next :: addr
  nd_nodeid :: nodeid
  nd_nodename_char :: "byte list"
  nd_nodename :: const_string
  nd_events_serviced :: size_t
  nd_services_head :: addr
  nd_service_defs_head :: addr
  nd_requests_head :: addr
  nd_node_ops :: addr

definition zero_node :: node where
  "zero_node =
     \<lparr>nd_connections_head = 0, nd_connections_tail = 0, nd_connections_next = 0, nd_nodeid = nodeid_any,
      nd_nodename_char = replicate MESSAGE_STR_MAX_SIZE 0, nd_nodename = [], nd_events_serviced = 0,
      nd_services_head = 0, nd_service_defs_head = 0, nd_requests_head = 0, nd_node_ops = 0\<rparr>"


section \<open>The list of connections\<close>

text \<open>An \<open>assert\<close> that fails ends the program; like an access without an object it is \<open>None\<close>.\<close>

definition node_init :: "store \<Rightarrow> nodeid \<Rightarrow> const_string \<Rightarrow> addr \<Rightarrow> (status \<times> node) option" where
  "node_init h nodeid nodename connections_head =
     (let nd = zero_node in
      case nodeid_copy_to nodeid (nd_nodeid nd) of
        (Err e, i) \<Rightarrow> Some (Err INTERNAL_ERROR, nd\<lparr>nd_nodeid := i\<rparr>)
      | (OK, i) \<Rightarrow>
          (let nd = nd\<lparr>nd_nodeid := i\<rparr> in
           if \<not> length nodename < length (nd_nodename_char nd) then None
           else case string_copy_to_buffer_storage nodename (nd_nodename nd) (nd_nodename_char nd)
                       (length (nd_nodename_char nd)) of
             (Err e, name, chars) \<Rightarrow> Some (Err INTERNAL_ERROR, nd\<lparr>nd_nodename := name, nd_nodename_char := chars\<rparr>)
           | (OK, name, chars) \<Rightarrow> do {
               let nd = nd\<lparr>nd_nodename := name, nd_nodename_char := chars\<rparr>;
               nd \<leftarrow> (if connections_head \<noteq> 0
                     then do { c \<leftarrow> last_object h connections_head;
                               Some (nd\<lparr>nd_connections_head := connections_head, nd_connections_tail := c\<rparr>) }
                     else Some nd);
               c \<leftarrow> connection_first h connections_head;
               Some (OK, nd\<lparr>nd_connections_next := c\<rparr>) }))"

partial_function (option) shutdown_from :: "store \<Rightarrow> addr \<Rightarrow> store option" where
  "shutdown_from h c =
     (if c = 0 then Some h
      else do {
        k \<leftarrow> connection_at h c;
        let h = h(c \<mapsto> Conn (snd (connection_close k)));
        n \<leftarrow> connection_next h c;
        shutdown_from h n })"

definition node_shutdown :: "store \<Rightarrow> node \<Rightarrow> (status \<times> store) option" where
  "node_shutdown h nd = do {
     c \<leftarrow> connection_first h (nd_connections_head nd);
     h \<leftarrow> shutdown_from h c;
     Some (OK, h) }"

definition node_add_connection :: "store \<Rightarrow> node \<Rightarrow> addr \<Rightarrow> (status \<times> store \<times> node) option" where
  "node_add_connection h nd connection =
     (if nd_connections_head nd \<noteq> 0 then do {
        h \<leftarrow> set_next (nd_connections_tail nd) connection h;
        h \<leftarrow> set_prev connection (nd_connections_tail nd) h;
        Some (OK, h, nd\<lparr>nd_connections_tail := connection\<rparr>) }
      else Some (OK, h, nd\<lparr>nd_connections_head := connection, nd_connections_tail := connection,
                          nd_connections_next := connection\<rparr>))"

definition node_remove_connection :: "store \<Rightarrow> node \<Rightarrow> addr \<Rightarrow> (status \<times> store \<times> node) option" where
  "node_remove_connection h nd connection = do {
     ob \<leftarrow> look h connection;
     (h, nd) \<leftarrow> (if object_prev ob \<noteq> 0
                then do { h \<leftarrow> set_next (object_prev ob) (object_next ob) h; Some (h, nd) }
                else Some (h, nd\<lparr>nd_connections_head := object_next ob\<rparr>));
     ob \<leftarrow> look h connection;
     (h, nd) \<leftarrow> (if object_next ob \<noteq> 0
                then do { h \<leftarrow> set_prev (object_next ob) (object_prev ob) h; Some (h, nd) }
                else Some (h, nd\<lparr>nd_connections_tail := object_prev ob\<rparr>));
     Some (OK, h, nd) }"

definition node_set_services :: "node \<Rightarrow> addr \<Rightarrow> addr \<Rightarrow> status \<times> node" where
  "node_set_services nd services_head service_defs_head =
     (OK, nd\<lparr>nd_services_head := services_head, nd_service_defs_head := service_defs_head\<rparr>)"

definition node_set_ops :: "node \<Rightarrow> addr \<Rightarrow> status \<times> node" where
  "node_set_ops nd ops = (OK, nd\<lparr>nd_node_ops := ops\<rparr>)"

definition node_set_requests_head :: "node \<Rightarrow> addr \<Rightarrow> status \<times> node" where
  "node_set_requests_head nd requests_head = (OK, nd\<lparr>nd_requests_head := requests_head\<rparr>)"


section \<open>Sending the message of one entry\<close>

record send_data =
  sd_entry_header :: "const_string messageentry_header"
  sd_element_writer :: messageelement_writer
  sd_request_id :: u32
  sd_message_header :: "const_string message_header"
  sd_message_writer :: message_writer
  sd_entry_writer :: messageentry_writer

definition empty_message_header :: "const_string message_header" where
  "empty_message_header =
     \<lparr>mh_message_size = 0, mh_message_version = 0, mh_header_size = 0, mh_message_flags = 0,
      mh_sender_nodeid = nodeid_any, mh_receiver_nodeid = nodeid_any, mh_sender_endpoint = 0,
      mh_receiver_endpoint = 0, mh_priority = 0, mh_sender_nodename = [], mh_receiver_nodename = [],
      mh_metadata = [], mh_entry_count = 0, mh_message_id = 0, mh_message_res_id = 0\<rparr>"

definition empty_entry_header :: "const_string messageentry_header" where
  "empty_entry_header =
     \<lparr>eh_entry_size = 0, eh_entry_flags = 0, eh_entry_type = 0, eh_service_path = [],
      eh_service_path_code = 0, eh_member_name = [], eh_member_name_code = 0,
      eh_request_id = 0, eh_error = 0, eh_metadata = [], eh_element_count = 0\<rparr>"

definition zero_send_data :: send_data where
  "zero_send_data =
     \<lparr>sd_entry_header = empty_entry_header,
      sd_element_writer = \<lparr>lw_buffer_offset = 0, lw_buffer_count = 0, lw_elements_written_count = 0,
        lw_elements_written_size = 0, lw_element_size_offset = 0, lw_data_count_offset = 0,
        lw_element_header_size = 0, lw_message_version = 0\<rparr>,
      sd_request_id = 0, sd_message_header = empty_message_header,
      sd_message_writer = \<lparr>mw_buffer_offset = 0, mw_buffer_count = 0, mw_message_size_offset = 0,
        mw_entry_count_offset = 0, mw_message_version = 0\<rparr>,
      sd_entry_writer = \<lparr>ew_buffer_offset = 0, ew_buffer_count = 0, ew_entries_written_count = 0,
        ew_entries_written_size = 0, ew_entry_size_offset = 0, ew_element_count_offset = 0,
        ew_entry_header_size = 0, ew_message_version = 0\<rparr>\<rparr>"

text \<open>The send buffer as the vector of one segment that the writers get.\<close>

definition send_buffer_vec :: "connection \<Rightarrow> buffer_vec" where
  "send_buffer_vec c = [buffer_init_scalar (cn_send_buffer c) (cn_send_buffer_len c)]"

definition put_send_buffer :: "buffer_vec \<Rightarrow> connection \<Rightarrow> connection" where
  "put_send_buffer bv c = c\<lparr>cn_send_buffer := buf_data (hd bv)\<rparr>"

text \<open>The header of a message of the node on a connection.\<close>

definition node_message_header :: "node \<Rightarrow> connection \<Rightarrow> status \<times> const_string message_header" where
  "node_message_header nd c =
     (let h = empty_message_header\<lparr>mh_message_version := 2\<rparr> in
      case nodeid_copy_to (nd_nodeid nd) (mh_sender_nodeid h) of
        (Err e, i) \<Rightarrow> (Err INTERNAL_ERROR, h\<lparr>mh_sender_nodeid := i\<rparr>)
      | (OK, i) \<Rightarrow>
          (let h = h\<lparr>mh_sender_nodeid := i\<rparr> in
           case nodeid_copy_to (cn_remote_nodeid c) (mh_receiver_nodeid h) of
             (Err e, i) \<Rightarrow> (Err INTERNAL_ERROR, h\<lparr>mh_receiver_nodeid := i\<rparr>)
           | (OK, i) \<Rightarrow>
               (let h = h\<lparr>mh_receiver_nodeid := i, mh_sender_endpoint := cn_local_endpoint c,
                          mh_receiver_endpoint := cn_remote_endpoint c\<rparr>
                in case string_shallow_copy_to (nd_nodename nd) (mh_sender_nodename h) of
                     (Err e, s) \<Rightarrow> (Err INTERNAL_ERROR, h\<lparr>mh_sender_nodename := s\<rparr>)
                   | (OK, s) \<Rightarrow>
                       (let h = h\<lparr>mh_sender_nodename := s\<rparr> in
                        case string_shallow_copy_to (cn_remote_nodename c) (mh_receiver_nodename h) of
                          (Err e, s) \<Rightarrow> (Err INTERNAL_ERROR, h\<lparr>mh_receiver_nodename := s\<rparr>)
                        | (OK, s) \<Rightarrow> (OK, h\<lparr>mh_receiver_nodename := s\<rparr>)))))"

definition node_begin_send_messageentry :: "node \<Rightarrow> connection \<Rightarrow> send_data \<Rightarrow> status \<times> connection \<times> send_data" where
  "node_begin_send_messageentry nd c sd =
     (case connection_begin_send_message c (sd_message_writer sd) [\<lparr>buf_data = [], buf_len = 0\<rparr>] of
        (Err e, mw, _) \<Rightarrow> (Err e, c, sd\<lparr>sd_message_writer := mw\<rparr>)
      | (OK, mw, bv) \<Rightarrow>
          (let sd = sd\<lparr>sd_message_writer := mw\<rparr> in
           case node_message_header nd c of
             (Err e, h) \<Rightarrow> (Err e, c, sd\<lparr>sd_message_header := h\<rparr>)
           | (OK, h) \<Rightarrow>
               (case message_writer_begin_message_ex bv mw h (sd_entry_writer sd) (NOT (cn_message_flags_inv_mask c)) of
                  (Err e, bv, mw, h, ew) \<Rightarrow>
                    (Err e, put_send_buffer bv c, sd\<lparr>sd_message_writer := mw, sd_message_header := h, sd_entry_writer := ew\<rparr>)
                | (OK, bv, mw, h, ew) \<Rightarrow>
                    (case messageentry_writer_begin_entry bv ew (sd_entry_header sd) (sd_element_writer sd) of
                       (st, bv, ew, lw) \<Rightarrow>
                         (st, put_send_buffer bv c, sd\<lparr>sd_message_writer := mw, sd_message_header := h,
                                                       sd_entry_writer := ew, sd_element_writer := lw\<rparr>)))))"

text \<open>A call of an element writer with \<open>&send_data->element_writer\<close>.\<close>

definition write_elements ::
  "(buffer_vec \<Rightarrow> messageelement_writer \<Rightarrow> status \<times> buffer_vec \<times> messageelement_writer)
     \<Rightarrow> connection \<Rightarrow> send_data \<Rightarrow> status \<times> connection \<times> send_data" where
  "write_elements f c sd =
     (case f (send_buffer_vec c) (sd_element_writer sd) of
        (st, bv, lw) \<Rightarrow> (st, put_send_buffer bv c, sd\<lparr>sd_element_writer := lw\<rparr>))"

definition node_end_send_messageentry :: "connection \<Rightarrow> send_data \<Rightarrow> status \<times> connection \<times> send_data" where
  "node_end_send_messageentry c sd =
     (case messageentry_writer_end_entry (send_buffer_vec c) (sd_entry_writer sd) (sd_element_writer sd) of
        (Err e, bv, ew) \<Rightarrow> (Err e, put_send_buffer bv c, sd\<lparr>sd_entry_writer := ew\<rparr>)
      | (OK, bv, ew) \<Rightarrow>
          (let sd = sd\<lparr>sd_entry_writer := ew\<rparr> in
           case message_writer_end_message bv (sd_message_writer sd) (sd_message_header sd) ew of
             (Err e, bv, h) \<Rightarrow> (Err e, put_send_buffer bv c, sd\<lparr>sd_message_header := h\<rparr>)
           | (OK, bv, h) \<Rightarrow>
               (case connection_end_send_message (put_send_buffer bv c) (unat (mh_message_size h)) of
                  (st, c) \<Rightarrow> (st, c, sd\<lparr>sd_message_header := h\<rparr>))))"

definition node_abort_send_messageentry :: "connection \<Rightarrow> status" where
  "node_abort_send_messageentry c = connection_abort_send_message c"

definition response_header :: "const_string messageentry_header \<Rightarrow> const_string messageentry_header" where
  "response_header request = request\<lparr>eh_entry_type := eh_entry_type request + 1\<rparr>"

definition node_send_messageentry_empty_response ::
  "node \<Rightarrow> connection \<Rightarrow> const_string messageentry_header \<Rightarrow> status \<times> connection" where
  "node_send_messageentry_empty_response nd c request_header =
     (case node_begin_send_messageentry nd c (zero_send_data\<lparr>sd_entry_header := response_header request_header\<rparr>) of
        (Err e, c, _) \<Rightarrow> (Err e, c)
      | (OK, c, sd) \<Rightarrow> (case node_end_send_messageentry c sd of (st, c, _) \<Rightarrow> (st, c)))"

definition node_begin_send_messageentry_response ::
  "node \<Rightarrow> connection \<Rightarrow> send_data \<Rightarrow> const_string messageentry_header \<Rightarrow> status \<times> connection \<times> send_data" where
  "node_begin_send_messageentry_response nd c sd request_header =
     node_begin_send_messageentry nd c (sd\<lparr>sd_entry_header := response_header request_header\<rparr>)"

definition ERRORNAME :: "byte list" where "ERRORNAME = ascii ''errorname''"
definition ERRORSTRING :: "byte list" where "ERRORSTRING = ascii ''errorstring''"

definition connection_send_messageentry_error_response ::
  "node \<Rightarrow> connection \<Rightarrow> const_string messageentry_header \<Rightarrow> u16 \<Rightarrow> byte list option \<Rightarrow> byte list option
     \<Rightarrow> status \<times> connection" where
  "connection_send_messageentry_error_response nd c request_header err error_name error_message =
     (if eh_entry_type request_header AND 1 = 0 then (OK, c)
      else case node_begin_send_messageentry nd c
                  (zero_send_data\<lparr>sd_entry_header := (response_header request_header)\<lparr>eh_error := err\<rparr>\<rparr>) of
        (Err e, c, _) \<Rightarrow> (Err e, c)
      | (OK, c, sd) \<Rightarrow>
          (case write_elements (\<lambda>bv w. messageelement_writer_write_data_string_c_str2 bv w (Some ERRORNAME) error_name) c sd of
             (Err e, c, _) \<Rightarrow> (Err e, c)
           | (OK, c, sd) \<Rightarrow>
               (case write_elements (\<lambda>bv w. messageelement_writer_write_data_string_c_str2 bv w (Some ERRORSTRING) error_message) c sd of
                  (Err e, c, _) \<Rightarrow> (Err e, c)
                | (OK, c, sd) \<Rightarrow> (case node_end_send_messageentry c sd of (st, c, _) \<Rightarrow> (st, c)))))"


section \<open>Receiving the message of one entry\<close>

record receive_data =
  rd_message_header :: "const_string message_header"
  rd_entry_header :: "const_string messageentry_header"
  rd_entry_reader :: messageentry_reader

definition zero_receive_data :: receive_data where
  "zero_receive_data =
     \<lparr>rd_message_header = empty_message_header, rd_entry_header = empty_entry_header,
      rd_entry_reader = \<lparr>er_buffer_offset = 0, er_buffer_count = 0, er_buffer_remaining = 0,
        er_entry_count_offset = 0, er_current_entry = 0, er_message_version = 0\<rparr>\<rparr>"

text \<open>The vector of one segment that the readers get.\<close>

definition recv_buffer_vec :: "connection \<Rightarrow> buffer_vec" where
  "recv_buffer_vec c = [buffer_init_scalar (cn_recv_buffer c) (cn_recv_buffer_pos c)]"

text \<open>The receive data's memory for a string; the readers overwrite what is in it.\<close>

definition string_storage :: rstring where
  "string_storage = \<lparr>str_data = Some (replicate MESSAGE_STR_MAX_SIZE 0), str_len = MESSAGE_STR_MAX_SIZE\<rparr>"

definition received_header_storage :: "rstring message_header" where
  "received_header_storage =
     \<lparr>mh_message_size = 0, mh_message_version = 0, mh_header_size = 0, mh_message_flags = 0,
      mh_sender_nodeid = nodeid_any, mh_receiver_nodeid = nodeid_any, mh_sender_endpoint = 0,
      mh_receiver_endpoint = 0, mh_priority = 0, mh_sender_nodename = string_storage,
      mh_receiver_nodename = string_storage, mh_metadata = null_string, mh_entry_count = 0,
      mh_message_id = 0, mh_message_res_id = 0\<rparr>"

definition received_entry_storage :: "rstring messageentry_header" where
  "received_entry_storage =
     zero_entry_header\<lparr>eh_member_name := string_storage, eh_service_path := string_storage, eh_metadata := string_storage\<rparr>"

definition node_verify_incoming_message :: "node \<Rightarrow> connection \<Rightarrow> const_string message_header \<Rightarrow> status" where
  "node_verify_incoming_message nd c header = OK"

definition node_receive_messageentry :: "node \<Rightarrow> connection \<Rightarrow> receive_data \<Rightarrow> status \<times> receive_data" where
  "node_receive_messageentry nd c rd =
     (case connection_message_receive c \<lparr>mr_buffer_offset = 0, mr_buffer_count = 0, mr_message_version = 0\<rparr>
             [\<lparr>buf_data = [], buf_len = 0\<rparr>] of
        (Err e, _) \<Rightarrow> (Err e, rd)
      | (OK, mr, bv) \<Rightarrow>
          (case message_reader_read_header bv mr received_header_storage of
             (Err e, _) \<Rightarrow> (Err e, rd)
           | (OK, mr, h) \<Rightarrow>
               (let rd = rd\<lparr>rd_message_header := message_header_shallow_copy_from_mutable h\<rparr> in
                case node_verify_incoming_message nd c (rd_message_header rd) of
                  Err e \<Rightarrow> (Err e, rd)
                | OK \<Rightarrow>
                    (case message_reader_begin_read_entries bv mr (rd_entry_reader rd) of
                       (Err e, er) \<Rightarrow> (Err e, rd\<lparr>rd_entry_reader := er\<rparr>)
                     | (OK, er) \<Rightarrow>
                         (let rd = rd\<lparr>rd_entry_reader := er\<rparr> in
                          case messageentry_reader_read_header bv er received_entry_storage of
                            (Err e, _) \<Rightarrow> (Err e, rd)
                          | (OK, eh) \<Rightarrow>
                              (OK, rd\<lparr>rd_entry_header := messageentry_header_shallow_copy_from_mutable eh\<rparr>))))))"

definition node_receive_messageentry_consume :: "connection \<Rightarrow> status \<times> connection" where
  "node_receive_messageentry_consume c = connection_message_receive_consume c"

end
