(* ===== verification/RRL_Trim.thy ===== *)
theory RRL_Trim
  imports RRL_Walk
begin

text \<open>
  A buffer whose memory is larger than the length it claims, as the receive buffer of a connection that
  has received a part of what it has room for: every reader sees just the memory that is claimed. The
  lemmas go through the readers of message.c from the copies upwards.
\<close>

definition trim :: "buffer \<Rightarrow> buffer" where
  "trim b = b\<lparr>buf_data := take (buf_len b) (buf_data b)\<rparr>"

definition claims_less :: "buffer \<Rightarrow> bool" where
  "claims_less b \<longleftrightarrow> buf_len b \<le> length (buf_data b) \<and> length (buf_data b) < 2 ^ 63"

named_theorems trims

lemmas read_congs = sum.case_cong status.case_cong prod.case_cong option.case_cong if_cong

lemma wf_trim: "claims_less b \<Longrightarrow> wf_vec 1 [trim b]"
  by (simp add: claims_less_def trim_def wf_vec_def)

lemma flat_trim: "flat [trim b] = take (buf_len b) (buf_data b)"
  by (simp add: trim_def)

lemma len_trim [trims]: "buffer_vec_len [trim b] = buffer_vec_len [b]"
  by (simp add: buffer_vec_len_def trim_def)

text \<open>The range check of a copy from it, without elements larger than a byte.\<close>

lemma copy_in_claim:
  assumes "claims_less b" and "\<not> out_of_bounds p n (buf_len b) q k m"
  shows "sz_mul p 1 + sz_mul n 1 \<le> buf_len b \<or> length (buf_data b) < sz_mul p 1 + sz_mul n 1"
proof -
  have p: "p < buf_len b" "sz_add p n \<le> buf_len b" using assms(2) by (simp_all add: out_of_bounds_def)
  have s: "buf_len b < 2 ^ 63" "length (buf_data b) < 2 ^ 63" using assms(1) by (simp_all add: claims_less_def)
  have pm: "sz_mul p 1 = p" using p(1) s(1) by (simp add: sz_mul_def)
  have "sz_add p n = (p + sz_mul n 1) mod 2 ^ 64" by (simp add: sz_add_def sz_mul_def mod_simps)
  then show ?thesis
    using p s by (cases "p + sz_mul n 1 < 2 ^ 64") (simp_all add: pm [unfolded One_nat_def])
qed

lemma copy_ex_trim:
  assumes "claims_less b"
  shows "buffer_copy_ex (trim b) p 1 n d q es k = buffer_copy_ex b p 1 n d q es k"
proof (cases "out_of_bounds p n (buf_len b) q k (buf_len d)")
  case True
  then show ?thesis by (simp add: buffer_copy_ex_def trim_def)
next
  case False
  have "mem_copy (buf_data d) x (take (buf_len b) (buf_data b)) (sz_mul p 1) (sz_mul n 1) =
      mem_copy (buf_data d) x (buf_data b) (sz_mul p 1) (sz_mul n 1)" for x
    using copy_in_claim [OF assms False] assms
    by (auto simp: mem_copy_def claims_less_def chunk_def drop_take min_def)
  note m = this [unfolded One_nat_def]
  show ?thesis using m [of "sz_mul q es"] by (auto simp: buffer_copy_ex_def trim_def)
qed

lemma copy_vec_trim [trims]:
  "claims_less b \<Longrightarrow> buffer_vec_copy_vec_ex [trim b] p 1 n [d] q es k = buffer_vec_copy_vec_ex [b] p 1 n [d] q es k"
  by (simp add: buffer_vec_copy_vec_ex_def copy_ex_trim [unfolded One_nat_def])

lemmas copy_vec_trim_Suc [trims] = copy_vec_trim [unfolded One_nat_def]

lemma copy_to_mem_trim [trims]: "claims_less b \<Longrightarrow> buffer_vec_copy_to_mem [trim b] = buffer_vec_copy_to_mem [b]"
  by (simp add: fun_eq_iff buffer_vec_copy_to_mem_def copy_vec_trim [unfolded One_nat_def])


section \<open>Accessors\<close>

lemma copy_to_scalar_trim [trims]: "claims_less b \<Longrightarrow> copy_to_scalar [trim b] = copy_to_scalar [b]"
  by (simp add: fun_eq_iff copy_to_scalar_def trims cong: read_congs)

lemma buffer_vec_copy_to_uint8_trim [trims]: "claims_less b \<Longrightarrow> buffer_vec_copy_to_uint8 [trim b] = buffer_vec_copy_to_uint8 [b]"
  by (simp add: fun_eq_iff buffer_vec_copy_to_uint8_def trims cong: read_congs)

lemma buffer_vec_copy_to_uint16_trim [trims]: "claims_less b \<Longrightarrow> buffer_vec_copy_to_uint16 [trim b] = buffer_vec_copy_to_uint16 [b]"
  by (simp add: fun_eq_iff buffer_vec_copy_to_uint16_def trims cong: read_congs)

lemma buffer_vec_copy_to_uint32_trim [trims]: "claims_less b \<Longrightarrow> buffer_vec_copy_to_uint32 [trim b] = buffer_vec_copy_to_uint32 [b]"
  by (simp add: fun_eq_iff buffer_vec_copy_to_uint32_def trims cong: read_congs)

lemma buffer_vec_copy_to_int8_trim [trims]: "claims_less b \<Longrightarrow> buffer_vec_copy_to_int8 [trim b] = buffer_vec_copy_to_int8 [b]"
  by (simp add: fun_eq_iff buffer_vec_copy_to_int8_def trims cong: read_congs)

lemma buffer_vec_copy_to_int16_trim [trims]: "claims_less b \<Longrightarrow> buffer_vec_copy_to_int16 [trim b] = buffer_vec_copy_to_int16 [b]"
  by (simp add: fun_eq_iff buffer_vec_copy_to_int16_def trims cong: read_congs)

lemma buffer_vec_copy_to_int32_trim [trims]: "claims_less b \<Longrightarrow> buffer_vec_copy_to_int32 [trim b] = buffer_vec_copy_to_int32 [b]"
  by (simp add: fun_eq_iff buffer_vec_copy_to_int32_def trims cong: read_congs)

lemma buffer_vec_copy_to_uint8_array_trim [trims]: "claims_less b \<Longrightarrow> buffer_vec_copy_to_uint8_array [trim b] = buffer_vec_copy_to_uint8_array [b]"
  by (simp add: fun_eq_iff buffer_vec_copy_to_uint8_array_def trims cong: read_congs)

lemma buffer_vec_copy_to_string_trim [trims]: "claims_less b \<Longrightarrow> buffer_vec_copy_to_string [trim b] = buffer_vec_copy_to_string [b]"
  by (simp add: fun_eq_iff buffer_vec_copy_to_string_def trims cong: read_congs)


section \<open>Fields\<close>

lemma message_read_uint32_trim [trims]: "claims_less b \<Longrightarrow> message_read_uint32 [trim b] = message_read_uint32 [b]"
  by (simp add: fun_eq_iff message_read_uint32_def trims cong: read_congs)

lemma message_read_uint16_trim [trims]: "claims_less b \<Longrightarrow> message_read_uint16 [trim b] = message_read_uint16 [b]"
  by (simp add: fun_eq_iff message_read_uint16_def trims cong: read_congs)

lemma message_read_uint8_trim [trims]: "claims_less b \<Longrightarrow> message_read_uint8 [trim b] = message_read_uint8 [b]"
  by (simp add: fun_eq_iff message_read_uint8_def trims cong: read_congs)

lemma message_read_uint_x_trim [trims]: "claims_less b \<Longrightarrow> message_read_uint_x [trim b] = message_read_uint_x [b]"
  by (simp add: fun_eq_iff message_read_uint_x_def trims cong: read_congs)

lemma message_read_int_x_trim [trims]: "claims_less b \<Longrightarrow> message_read_int_x [trim b] = message_read_int_x [b]"
  by (simp add: fun_eq_iff message_read_int_x_def trims cong: read_congs)

lemma message_read_count_trim [trims]: "claims_less b \<Longrightarrow> message_read_count v [trim b] = message_read_count v [b]"
  by (simp add: fun_eq_iff message_read_count_def trims cong: read_congs)

lemma message_read_count2_trim [trims]: "claims_less b \<Longrightarrow> message_read_count2 v [trim b] = message_read_count2 v [b]"
  by (simp add: fun_eq_iff message_read_count2_def trims cong: read_congs)

lemma message_read_nodeid_trim [trims]: "claims_less b \<Longrightarrow> message_read_nodeid [trim b] = message_read_nodeid [b]"
  by (simp add: fun_eq_iff message_read_nodeid_def trims cong: read_congs)

lemma read_header_string_prefix2_1_trim [trims]: "claims_less b \<Longrightarrow> read_header_string_prefix2_1 [trim b] = read_header_string_prefix2_1 [b]"
  by (simp add: fun_eq_iff read_header_string_prefix2_1_def trims cong: read_congs)

lemma read_header_string_prefix4_1_trim [trims]: "claims_less b \<Longrightarrow> read_header_string_prefix4_1 [trim b] = read_header_string_prefix4_1 [b]"
  by (simp add: fun_eq_iff read_header_string_prefix4_1_def trims cong: read_congs)

lemma message_read_header_string_trim [trims]: "claims_less b \<Longrightarrow> message_read_header_string [trim b] = message_read_header_string [b]"
  by (simp add: fun_eq_iff message_read_header_string_def trims cong: read_congs)

lemma read_header_string_2_trim [trims]: "claims_less b \<Longrightarrow> read_header_string_2 [trim b] = read_header_string_2 [b]"
  by (simp add: fun_eq_iff read_header_string_2_def trims cong: read_congs)


section \<open>Message headers\<close>

lemma rd_field_trim [trims]: "(\<And>p. rd [trim b] p = rd [b] p) \<Longrightarrow> rd_field [trim b] rd = rd_field [b] rd"
  by (simp add: fun_eq_iff rd_field_def)

lemma rd_skip_trim [trims]: "claims_less b \<Longrightarrow> rd_skip [trim b] = rd_skip [b]"
  by (simp add: fun_eq_iff rd_skip_def trims cong: read_congs)

lemma get_string_trim [trims]: "claims_less b \<Longrightarrow> get_string [trim b] = get_string [b]"
  by (simp add: fun_eq_iff get_string_def trims cong: read_congs)

lemma message_reader_init_trim [trims]: "claims_less b \<Longrightarrow> message_reader_init r [trim b] = message_reader_init r [b]"
  by (simp add: fun_eq_iff message_reader_init_def trims cong: read_congs)

lemma read4_start_trim [trims]: "claims_less b \<Longrightarrow> read4_start [trim b] = read4_start [b]"
  by (simp add: fun_eq_iff read4_start_def trims cong: read_congs)

lemma read4_routing_trim [trims]: "claims_less b \<Longrightarrow> read4_routing [trim b] = read4_routing [b]"
  by (simp add: fun_eq_iff read4_routing_def trims cong: read_congs)

lemma read4_endpoint_trim [trims]: "claims_less b \<Longrightarrow> read4_endpoint [trim b] = read4_endpoint [b]"
  by (simp add: fun_eq_iff read4_endpoint_def trims cong: read_congs)

lemma read4_priority_trim [trims]: "claims_less b \<Longrightarrow> read4_priority [trim b] = read4_priority [b]"
  by (simp add: fun_eq_iff read4_priority_def trims cong: read_congs)

lemma read4_meta_trim [trims]: "claims_less b \<Longrightarrow> read4_meta [trim b] = read4_meta [b]"
  by (simp add: fun_eq_iff read4_meta_def trims cong: read_congs)

lemma read4_string_table_trim [trims]: "claims_less b \<Longrightarrow> read4_string_table [trim b] = read4_string_table [b]"
  by (simp add: fun_eq_iff read4_string_table_def trims cong: read_congs)

lemma read4_entry_count_trim [trims]: "claims_less b \<Longrightarrow> read4_entry_count [trim b] = read4_entry_count [b]"
  by (simp add: fun_eq_iff read4_entry_count_def trims cong: read_congs)

lemma read4_extended_trim [trims]: "claims_less b \<Longrightarrow> read4_extended [trim b] = read4_extended [b]"
  by (simp add: fun_eq_iff read4_extended_def trims cong: read_congs)

lemma get_sender_nodename_trim [trims]: "claims_less b \<Longrightarrow> get_sender_nodename [trim b] = get_sender_nodename [b]"
  by (simp add: fun_eq_iff get_sender_nodename_def trims cong: read_congs)

lemma get_receiver_nodename_trim [trims]: "claims_less b \<Longrightarrow> get_receiver_nodename [trim b] = get_receiver_nodename [b]"
  by (simp add: fun_eq_iff get_receiver_nodename_def trims cong: read_congs)

lemma get_message_metadata_trim [trims]: "claims_less b \<Longrightarrow> get_message_metadata [trim b] = get_message_metadata [b]"
  by (simp add: fun_eq_iff get_message_metadata_def trims cong: read_congs)

lemma read4_strings_trim [trims]: "claims_less b \<Longrightarrow> read4_strings [trim b] = read4_strings [b]"
  by (simp add: fun_eq_iff read4_strings_def trims cong: read_congs)

lemma read_header4_steps_trim [trims]: "claims_less b \<Longrightarrow> read_header4_steps [trim b] = read_header4_steps [b]"
  by (simp add: fun_eq_iff read_header4_steps_def trims cong: read_congs)

lemma message_reader_read_header4_ex_trim [trims]: "claims_less b \<Longrightarrow> message_reader_read_header4_ex [trim b] = message_reader_read_header4_ex [b]"
  by (simp add: fun_eq_iff message_reader_read_header4_ex_def trims cong: read_congs)

lemma read2_fields_trim [trims]: "claims_less b \<Longrightarrow> read2_fields [trim b] = read2_fields [b]"
  by (simp add: fun_eq_iff read2_fields_def trims cong: read_congs)

lemma read_header2_steps_trim [trims]: "claims_less b \<Longrightarrow> read_header2_steps [trim b] = read_header2_steps [b]"
  by (simp add: fun_eq_iff read_header2_steps_def trims cong: read_congs)

lemma message_reader_read_header2_ex_trim [trims]: "claims_less b \<Longrightarrow> message_reader_read_header2_ex [trim b] = message_reader_read_header2_ex [b]"
  by (simp add: fun_eq_iff message_reader_read_header2_ex_def trims cong: read_congs)

lemma message_reader_read_header_ex_trim [trims]: "claims_less b \<Longrightarrow> message_reader_read_header_ex [trim b] = message_reader_read_header_ex [b]"
  by (simp add: fun_eq_iff message_reader_read_header_ex_def trims cong: read_congs)

lemma message_reader_read_header_trim [trims]: "claims_less b \<Longrightarrow> message_reader_read_header [trim b] = message_reader_read_header [b]"
  by (simp add: fun_eq_iff message_reader_read_header_def trims cong: read_congs)


section \<open>Entry headers\<close>

lemma get_service_path_trim [trims]: "claims_less b \<Longrightarrow> get_service_path [trim b] = get_service_path [b]"
  by (simp add: fun_eq_iff get_service_path_def trims cong: read_congs)

lemma get_member_name_trim [trims]: "claims_less b \<Longrightarrow> get_member_name [trim b] = get_member_name [b]"
  by (simp add: fun_eq_iff get_member_name_def trims cong: read_congs)

lemma get_entry_metadata_trim [trims]: "claims_less b \<Longrightarrow> get_entry_metadata [trim b] = get_entry_metadata [b]"
  by (simp add: fun_eq_iff get_entry_metadata_def trims cong: read_congs)

lemma entry_read2_fields_trim [trims]: "claims_less b \<Longrightarrow> entry_read2_fields [trim b] = entry_read2_fields [b]"
  by (simp add: fun_eq_iff entry_read2_fields_def trims cong: read_congs)

lemma messageentry_reader_read_header2_ex_trim [trims]: "claims_less b \<Longrightarrow> messageentry_reader_read_header2_ex [trim b] = messageentry_reader_read_header2_ex [b]"
  by (simp add: fun_eq_iff messageentry_reader_read_header2_ex_def trims cong: read_congs)

lemma entry_read4_start_trim [trims]: "claims_less b \<Longrightarrow> entry_read4_start [trim b] = entry_read4_start [b]"
  by (simp add: fun_eq_iff entry_read4_start_def trims cong: read_congs)

lemma entry_read4_sections_trim [trims]: "claims_less b \<Longrightarrow> entry_read4_sections [trim b] = entry_read4_sections [b]"
  by (simp add: fun_eq_iff entry_read4_sections_def trims cong: read_congs)

lemma entry_read4_strings_trim [trims]: "claims_less b \<Longrightarrow> entry_read4_strings [trim b] = entry_read4_strings [b]"
  by (simp add: fun_eq_iff entry_read4_strings_def trims cong: read_congs)

lemma messageentry_reader_read_header4_ex_trim [trims]: "claims_less b \<Longrightarrow> messageentry_reader_read_header4_ex [trim b] = messageentry_reader_read_header4_ex [b]"
  by (simp add: fun_eq_iff messageentry_reader_read_header4_ex_def trims cong: read_congs)

lemma messageentry_reader_read_header_ex_trim [trims]: "claims_less b \<Longrightarrow> messageentry_reader_read_header_ex [trim b] = messageentry_reader_read_header_ex [b]"
  by (simp add: fun_eq_iff messageentry_reader_read_header_ex_def trims cong: read_congs)

lemma messageentry_reader_read_header_trim [trims]: "claims_less b \<Longrightarrow> messageentry_reader_read_header [trim b] = messageentry_reader_read_header [b]"
  by (simp add: fun_eq_iff messageentry_reader_read_header_def trims cong: read_congs)


section \<open>Element headers\<close>

lemma get_element_name_trim [trims]: "claims_less b \<Longrightarrow> get_element_name [trim b] = get_element_name [b]"
  by (simp add: fun_eq_iff get_element_name_def trims cong: read_congs)

lemma get_element_type_name_trim [trims]: "claims_less b \<Longrightarrow> get_element_type_name [trim b] = get_element_type_name [b]"
  by (simp add: fun_eq_iff get_element_type_name_def trims cong: read_congs)

lemma get_element_metadata_trim [trims]: "claims_less b \<Longrightarrow> get_element_metadata [trim b] = get_element_metadata [b]"
  by (simp add: fun_eq_iff get_element_metadata_def trims cong: read_congs)

lemma element_read2_fields_trim [trims]: "claims_less b \<Longrightarrow> element_read2_fields [trim b] = element_read2_fields [b]"
  by (simp add: fun_eq_iff element_read2_fields_def trims cong: read_congs)

lemma element_read2_strings_trim [trims]: "claims_less b \<Longrightarrow> element_read2_strings [trim b] = element_read2_strings [b]"
  by (simp add: fun_eq_iff element_read2_strings_def trims cong: read_congs)

lemma messageelement_reader_read_header2_ex_trim [trims]: "claims_less b \<Longrightarrow> messageelement_reader_read_header2_ex [trim b] = messageelement_reader_read_header2_ex [b]"
  by (simp add: fun_eq_iff messageelement_reader_read_header2_ex_def trims cong: read_congs)

lemma element_read4_start_trim [trims]: "claims_less b \<Longrightarrow> element_read4_start [trim b] = element_read4_start [b]"
  by (simp add: fun_eq_iff element_read4_start_def trims cong: read_congs)

lemma element_read4_sections_trim [trims]: "claims_less b \<Longrightarrow> element_read4_sections [trim b] = element_read4_sections [b]"
  by (simp add: fun_eq_iff element_read4_sections_def trims cong: read_congs)

lemma element_read4_strings_trim [trims]: "claims_less b \<Longrightarrow> element_read4_strings [trim b] = element_read4_strings [b]"
  by (simp add: fun_eq_iff element_read4_strings_def trims cong: read_congs)

lemma messageelement_reader_read_header4_ex_trim [trims]: "claims_less b \<Longrightarrow> messageelement_reader_read_header4_ex [trim b] = messageelement_reader_read_header4_ex [b]"
  by (simp add: fun_eq_iff messageelement_reader_read_header4_ex_def trims cong: read_congs)

lemma messageelement_reader_read_header_ex_trim [trims]: "claims_less b \<Longrightarrow> messageelement_reader_read_header_ex [trim b] = messageelement_reader_read_header_ex [b]"
  by (simp add: fun_eq_iff messageelement_reader_read_header_ex_def trims cong: read_congs)

lemma messageelement_reader_read_header_trim [trims]: "claims_less b \<Longrightarrow> messageelement_reader_read_header [trim b] = messageelement_reader_read_header [b]"
  by (simp add: fun_eq_iff messageelement_reader_read_header_def trims cong: read_congs)


section \<open>Cursors\<close>

lemma message_reader_begin_read_entries_trim [trims]: "claims_less b \<Longrightarrow> message_reader_begin_read_entries [trim b] = message_reader_begin_read_entries [b]"
  by (simp add: fun_eq_iff message_reader_begin_read_entries_def trims cong: read_congs)

lemma messageentry_reader_move_next_trim [trims]: "claims_less b \<Longrightarrow> messageentry_reader_move_next [trim b] = messageentry_reader_move_next [b]"
  by (simp add: fun_eq_iff messageentry_reader_move_next_def trims cong: read_congs)

lemma messageentry_reader_begin_read_elements_trim [trims]: "claims_less b \<Longrightarrow> messageentry_reader_begin_read_elements [trim b] = messageentry_reader_begin_read_elements [b]"
  by (simp add: fun_eq_iff messageentry_reader_begin_read_elements_def trims cong: read_congs)

lemma messageelement_reader_move_next_trim [trims]: "claims_less b \<Longrightarrow> messageelement_reader_move_next [trim b] = messageelement_reader_move_next [b]"
  by (simp add: fun_eq_iff messageelement_reader_move_next_def trims cong: read_congs)

lemma messageelement_reader_begin_read_nested_elements_trim [trims]: "claims_less b \<Longrightarrow> messageelement_reader_begin_read_nested_elements [trim b] = messageelement_reader_begin_read_nested_elements [b]"
  by (simp add: fun_eq_iff messageelement_reader_begin_read_nested_elements_def trims cong: read_congs)

lemma name_compare_trim [trims]: "claims_less b \<Longrightarrow> name_compare [trim b] = name_compare [b]"
proof (intro ext)
  fix place name temp len off
  assume c: "claims_less b"
  show "name_compare [trim b] place name temp len off = name_compare [b] place name temp len off"
  proof (induction len arbitrary: temp off rule: less_induct)
    case (less len)
    show ?case
      by (subst (1 2) name_compare.simps)
         (use less.IH in \<open>auto simp: Let_def trims c split: status.splits prod.splits\<close>)
  qed
qed

lemma element_has_name_trim [trims]: "claims_less b \<Longrightarrow> element_has_name [trim b] = element_has_name [b]"
  by (simp add: fun_eq_iff element_has_name_def trims cong: read_congs del: name_compare.simps)

lemma find_loop_le:
  assumes "find_loop bv nm r = Some x"
  shows "\<forall>b. bv = [trim b] \<longrightarrow> claims_less b \<longrightarrow> find_loop [b] nm r = Some x"
proof (rule find_loop.raw_induct [where P = "\<lambda>bv nm r x. \<forall>b. bv = [trim b] \<longrightarrow> claims_less b \<longrightarrow> find_loop [b] nm r = Some x", OF _ assms])
  fix f bv nm r x
  assume IH: "\<And>nm r b y. f nm r b = Some y \<Longrightarrow> \<forall>c. nm = [trim c] \<longrightarrow> claims_less c \<longrightarrow> find_loop [c] r b = Some y"
    and eq: "(case element_has_name bv nm r of Inl e \<Rightarrow> Some (Err e, r)
      | Inr found \<Rightarrow> if found then Some (OK, r) else case messageelement_reader_move_next bv r of
           (OK, r) \<Rightarrow> f bv nm r | (Err e, r) \<Rightarrow> Some (Err (not_found e), r)) = Some x"
  show "\<forall>b. bv = [trim b] \<longrightarrow> claims_less b \<longrightarrow> find_loop [b] nm r = Some x"
    using eq IH by (subst find_loop.simps) (auto simp: trims split: sum.splits if_splits prod.splits status.splits, (metis surj_pair)?)
qed

lemma find_loop_ge:
  assumes "find_loop bv nm r = Some x"
  shows "\<forall>b. bv = [b] \<longrightarrow> claims_less b \<longrightarrow> find_loop [trim b] nm r = Some x"
proof (rule find_loop.raw_induct [where P = "\<lambda>bv nm r x. \<forall>b. bv = [b] \<longrightarrow> claims_less b \<longrightarrow> find_loop [trim b] nm r = Some x", OF _ assms])
  fix f bv nm r x
  assume IH: "\<And>nm r b y. f nm r b = Some y \<Longrightarrow> \<forall>c. nm = [c] \<longrightarrow> claims_less c \<longrightarrow> find_loop [trim c] r b = Some y"
    and eq: "(case element_has_name bv nm r of Inl e \<Rightarrow> Some (Err e, r)
      | Inr found \<Rightarrow> if found then Some (OK, r) else case messageelement_reader_move_next bv r of
           (OK, r) \<Rightarrow> f bv nm r | (Err e, r) \<Rightarrow> Some (Err (not_found e), r)) = Some x"
  show "\<forall>b. bv = [b] \<longrightarrow> claims_less b \<longrightarrow> find_loop [trim b] nm r = Some x"
    using eq IH by (subst find_loop.simps) (auto simp: trims split: sum.splits if_splits prod.splits status.splits, (metis surj_pair)?)
qed

lemma find_loop_trim [trims]: assumes "claims_less b" shows "find_loop [trim b] = find_loop [b]"
proof (intro ext)
  fix nm r
  have le: "find_loop [b] nm r = Some x" if "find_loop [trim b] nm r = Some x" for x
    using find_loop_le [OF that] assms by blast
  have ge: "find_loop [trim b] nm r = Some x" if "find_loop [b] nm r = Some x" for x
    using find_loop_ge [OF that] assms by blast
  show "find_loop [trim b] nm r = find_loop [b] nm r"
    using le ge by (metis not_None_eq)
qed

lemma messageentry_reader_find_element_trim [trims]: "claims_less b \<Longrightarrow> messageentry_reader_find_element [trim b] = messageentry_reader_find_element [b]"
  by (simp add: fun_eq_iff messageentry_reader_find_element_def trims cong: read_congs)

lemma messageelement_reader_find_nested_element_trim [trims]: "claims_less b \<Longrightarrow> messageelement_reader_find_nested_element [trim b] = messageelement_reader_find_nested_element [b]"
  by (simp add: fun_eq_iff messageelement_reader_find_nested_element_def trims cong: read_congs)

lemma after_find_trim [trims]: "claims_less b \<Longrightarrow> after_find [trim b] = after_find [b]"
  by (simp add: fun_eq_iff after_find_def trims cong: read_congs)

lemma messageentry_reader_find_element_verify_scalar_trim [trims]: "claims_less b \<Longrightarrow> messageentry_reader_find_element_verify_scalar [trim b] = messageentry_reader_find_element_verify_scalar [b]"
  by (simp add: fun_eq_iff messageentry_reader_find_element_verify_scalar_def trims cong: read_congs)

lemma messageentry_reader_find_element_verify_array_trim [trims]: "claims_less b \<Longrightarrow> messageentry_reader_find_element_verify_array [trim b] = messageentry_reader_find_element_verify_array [b]"
  by (simp add: fun_eq_iff messageentry_reader_find_element_verify_array_def trims cong: read_congs)

lemma messageentry_reader_find_element_verify_string_trim [trims]: "claims_less b \<Longrightarrow> messageentry_reader_find_element_verify_string [trim b] = messageentry_reader_find_element_verify_string [b]"
  by (simp add: fun_eq_iff messageentry_reader_find_element_verify_string_def trims cong: read_congs)

lemma messageelement_reader_find_nested_element_verify_scalar_trim [trims]: "claims_less b \<Longrightarrow> messageelement_reader_find_nested_element_verify_scalar [trim b] = messageelement_reader_find_nested_element_verify_scalar [b]"
  by (simp add: fun_eq_iff messageelement_reader_find_nested_element_verify_scalar_def trims cong: read_congs)

lemma messageelement_reader_find_nested_element_verify_array_trim [trims]: "claims_less b \<Longrightarrow> messageelement_reader_find_nested_element_verify_array [trim b] = messageelement_reader_find_nested_element_verify_array [b]"
  by (simp add: fun_eq_iff messageelement_reader_find_nested_element_verify_array_def trims cong: read_congs)

lemma messageelement_reader_find_nested_element_verify_string_trim [trims]: "claims_less b \<Longrightarrow> messageelement_reader_find_nested_element_verify_string [trim b] = messageelement_reader_find_nested_element_verify_string [b]"
  by (simp add: fun_eq_iff messageelement_reader_find_nested_element_verify_string_def trims cong: read_congs)

lemma messageelement_reader_get_data_info_trim [trims]: "claims_less b \<Longrightarrow> messageelement_reader_get_data_info [trim b] = messageelement_reader_get_data_info [b]"
  by (simp add: fun_eq_iff messageelement_reader_get_data_info_def trims cong: read_congs)

lemma messageelement_reader_read_data_ex_trim [trims]: "claims_less b \<Longrightarrow> messageelement_reader_read_data_ex [trim b] = messageelement_reader_read_data_ex [b]"
  by (simp add: fun_eq_iff messageelement_reader_read_data_ex_def trims cong: read_congs)

lemma messageelement_reader_read_data_scalar_ex_trim [trims]: "claims_less b \<Longrightarrow> messageelement_reader_read_data_scalar_ex [trim b] = messageelement_reader_read_data_scalar_ex [b]"
  by (simp add: fun_eq_iff messageelement_reader_read_data_scalar_ex_def trims cong: read_congs)

end
