(* ===== verification/RRL_NodeMessage.thy ===== *)
theory RRL_NodeMessage
  imports RRL_Node RRL_Trim RRL_MessageSpec RRL_ConnSpec
begin

text \<open>
  The message of one entry, from the node that sends it to the node that receives it: what the sending
  node puts into the send buffer of its connection, and what the receiving node makes of a connection
  whose receive buffer starts with those bytes.
\<close>


section \<open>Sending\<close>

text \<open>The sequence of calls that sends an entry with plain data.\<close>

definition node_send_entry :: "node \<Rightarrow> connection \<Rightarrow> send_data \<Rightarrow> message_entry \<Rightarrow> status \<times> connection \<times> send_data" where
  "node_send_entry nd c sd e =
     (case node_begin_send_messageentry nd c (sd\<lparr>sd_entry_header := fst e\<rparr>) of
        (Err x, c, sd) \<Rightarrow> (Err x, c, sd)
      | (OK, c, sd) \<Rightarrow>
          (case write_elements (\<lambda>bv w. write_raw_elements bv w (snd e)) c sd of
             (Err x, c, sd) \<Rightarrow> (Err x, c, sd)
           | (OK, c, sd) \<Rightarrow> node_end_send_messageentry c sd))"

text \<open>The header of the messages of a node on a connection.\<close>

definition header_from :: "node \<Rightarrow> connection \<Rightarrow> const_string message_header" where
  "header_from nd c = empty_message_header\<lparr>mh_message_version := 2, mh_sender_nodeid := nd_nodeid nd,
     mh_receiver_nodeid := cn_remote_nodeid c, mh_sender_endpoint := cn_local_endpoint c,
     mh_receiver_endpoint := cn_remote_endpoint c, mh_sender_nodename := nd_nodename nd,
     mh_receiver_nodename := cn_remote_nodename c\<rparr>"

lemma node_message_header_from: "node_message_header nd c = (OK, header_from nd c)"
  by (simp add: node_message_header_def header_from_def nodeid_copy_to_def string_shallow_copy_to_def
      empty_message_header_def)

definition send_version :: "connection \<Rightarrow> u16" where
  "send_version c = (if has_state c STATUS_FLAGS_SEND_MESSAGE4 then 4 else 2)"

text \<open>A connection that takes a message now, and whose negotiation did not switch off parts of the header.\<close>

definition takes_message :: "connection \<Rightarrow> bool" where
  "takes_message c \<longleftrightarrow> has_state c STATUS_FLAGS_CONNECTED \<and>
     \<not> has_state c (STATUS_FLAGS_ERROR OR STATUS_FLAGS_CLOSED OR STATUS_FLAGS_CLOSE_REQUESTED OR STATUS_FLAGS_IDLE) \<and>
     \<not> has_state c send_blocked \<and> cn_message_flags_inv_mask c = 0 \<and>
     length (cn_send_buffer c) = cn_send_buffer_len c \<and> cn_send_buffer_len c < 2 ^ 63 \<and>
     cn_send_buffer_pos c \<le> cn_send_buffer_len c"

lemma begin_send_takes:
  assumes "takes_message c"
  shows "connection_begin_send_message c mw [\<lparr>buf_data = [], buf_len = 0\<rparr>] =
     (OK, mw\<lparr>mw_buffer_offset := 0, mw_buffer_count := cn_send_buffer_pos c, mw_message_version := send_version c\<rparr>,
      send_buffer_vec c)"
  using assms
  by (simp add: takes_message_def connection_begin_send_message_def message_writer_init_def send_version_def
      send_buffer_vec_def buffer_vec_len_def buffer_init_scalar_def sz_add_def)

lemma send_vec_wf: "takes_message c \<Longrightarrow> wf_vec 1 (send_buffer_vec c)"
  by (simp add: takes_message_def send_buffer_vec_def wf_vec_def buffer_init_scalar_def)

lemma send_vec_flat [simp]: "flat (send_buffer_vec c) = cn_send_buffer c"
  by (simp add: send_buffer_vec_def buffer_init_scalar_def)

text \<open>Writing into the send buffer keeps it a buffer of one segment.\<close>

lemma put_send_buffer_flat:
  assumes "takes_message c" and "p + length xs \<le> cn_send_buffer_len c"
  shows "put_send_buffer (put_flat (send_buffer_vec c) p xs) c = c\<lparr>cn_send_buffer := overwrite (cn_send_buffer c) p xs\<rparr>"
    and "send_buffer_vec (c\<lparr>cn_send_buffer := overwrite (cn_send_buffer c) p xs\<rparr>) = put_flat (send_buffer_vec c) p xs"
  using assms
  by (simp_all add: takes_message_def put_send_buffer_def put_flat_def send_buffer_vec_def buffer_init_scalar_def)

definition sent_connection :: "connection \<Rightarrow> byte list \<Rightarrow> connection" where
  "sent_connection c xs = set_state STATUS_FLAGS_SEND_REQUESTED
     (c\<lparr>cn_send_buffer := overwrite (cn_send_buffer c) 0 xs, cn_send_message_len := word_of_nat (length xs)\<rparr>)"

text \<open>The data of a send that has been begun at the start of the buffer with an entry that has no elements yet.\<close>

definition begun :: "u16 \<Rightarrow> const_string message_header \<Rightarrow> const_string messageentry_header \<Rightarrow> send_data \<Rightarrow> bool" where
  "begun ver h eh sd \<longleftrightarrow>
     mw_message_version (sd_message_writer sd) = ver \<and> mw_message_size_offset (sd_message_writer sd) = 4 \<and>
     mw_entry_count_offset (sd_message_writer sd) =
       (if count_has_place ver h then open_message_count_at ver h else SIZE_T_MAX) \<and>
     sd_message_header sd = h\<lparr>mh_header_size := word_of_nat (length (enc_open_message ver h))\<rparr> \<and>
     ew_message_version (sd_entry_writer sd) = ver \<and>
     ew_entries_written_count (sd_entry_writer sd) = 0 \<and> ew_entries_written_size (sd_entry_writer sd) = 0 \<and>
     ew_entry_size_offset (sd_entry_writer sd) = length (enc_open_message ver h) + open_entry_size_at ver \<and>
     ew_element_count_offset (sd_entry_writer sd) = length (enc_open_message ver h) + open_entry_count_at ver eh \<and>
     ew_entry_header_size (sd_entry_writer sd) = length (enc_open_entry ver eh)"

definition writes_at :: "u16 \<Rightarrow> size_t \<Rightarrow> messageelement_writer \<Rightarrow> bool" where
  "writes_at ver p lw \<longleftrightarrow> lw_message_version lw = ver \<and> lw_buffer_offset lw = p \<and>
     lw_elements_written_count lw = 0 \<and> lw_elements_written_size lw = 0"

lemma node_begin_send_at:
  assumes t: "takes_message c" and v: "send_version c = ver" and h: "header_from nd c = h"
    and m: "message_fits ver h" and e: "entry_ok ver (sd_entry_header sd)"
    and fit: "length (enc_open_message ver h @ enc_open_entry ver (sd_entry_header sd)) \<le> length (cn_send_buffer c)"
  shows "\<exists>sd'. node_begin_send_messageentry nd c sd =
      (OK, c\<lparr>cn_send_buffer := overwrite (cn_send_buffer c) 0 (enc_open_message ver h @ enc_open_entry ver (sd_entry_header sd))\<rparr>, sd') \<and>
      begun ver h (sd_entry_header sd) sd' \<and>
      writes_at ver (length (enc_open_message ver h @ enc_open_entry ver (sd_entry_header sd))) (sd_element_writer sd')"
proof -
  let ?bv = "send_buffer_vec c" and ?eh = "sd_entry_header sd"
  let ?om = "enc_open_message ver h" and ?oe = "enc_open_entry ver ?eh"
  have wf: "wf_vec 1 ?bv" using t by (rule send_vec_wf)
  have len: "length (cn_send_buffer c) = cn_send_buffer_len c" using t by (simp add: takes_message_def)
  define mw where "mw = (sd_message_writer sd)\<lparr>mw_buffer_offset := 0, mw_buffer_count := cn_send_buffer_pos c,
     mw_message_version := ver\<rparr>"
  define mw1 where "mw1 = mw\<lparr>mw_message_size_offset := 0 + 4,
        mw_entry_count_offset := (if count_has_place ver h then 0 + open_message_count_at ver h else SIZE_T_MAX)\<rparr>"
  define h1 where "h1 = h\<lparr>mh_header_size := word_of_nat (length ?om)\<rparr>"
  define ew1 where "ew1 = (sd_entry_writer sd)\<lparr>ew_buffer_offset := 0 + length ?om,
        ew_buffer_count := sz_sub (mw_buffer_count mw) (length ?om),
        ew_entries_written_count := 0, ew_entries_written_size := 0, ew_message_version := ver\<rparr>"
  have mwv: "ver = mw_message_version mw" "mw_buffer_offset mw = 0" by (simp_all add: mw_def)
  have BM: "message_writer_begin_message_ex ?bv mw h (sd_entry_writer sd) 0xFF = (OK, put_flat ?bv 0 ?om, mw1, h1, ew1)"
    using begin_message_at [OF wf mwv(1) m, of "sd_entry_writer sd"] fit
    by (simp add: message_writer_begin_message_def mwv(2) mw1_def h1_def ew1_def)
  have wf1: "wf_vec 1 (put_flat ?bv 0 ?om)" using wf fit by simp
  define ew2 where "ew2 = ew1\<lparr>ew_entry_size_offset := length ?om + open_entry_size_at ver,
        ew_element_count_offset := length ?om + open_entry_count_at ver ?eh, ew_entry_header_size := length ?oe\<rparr>"
  define lw1 where "lw1 = (sd_element_writer sd)\<lparr>lw_buffer_offset := length ?om + length ?oe,
        lw_buffer_count := sz_sub (ew_buffer_count ew1) (length ?oe),
        lw_elements_written_count := 0, lw_elements_written_size := 0, lw_message_version := ver\<rparr>"
  have BE: "messageentry_writer_begin_entry (put_flat ?bv 0 ?om) ew1 ?eh (sd_element_writer sd) =
      (OK, put_flat ?bv 0 (?om @ ?oe), ew2, lw1)"
    using begin_entry_at [OF wf1 _ e, of ew1 "sd_element_writer sd"] fit put_flat_append [of 0 ?om ?oe ?bv]
    by (simp add: ew1_def ew2_def lw1_def UINT16_MAX_def)
  have inv: "NOT (cn_message_flags_inv_mask c) = 0xFF" using t by (simp add: takes_message_def)
  show ?thesis
    using put_send_buffer_flat(1) [OF t, of 0 "?om @ ?oe"] fit len BE BM
    by (simp add: node_begin_send_messageentry_def begin_send_takes [OF t] v mw_def [symmetric] node_message_header_from h inv)
       (simp add: begun_def writes_at_def mw1_def mw_def h1_def ew2_def ew1_def lw1_def)
qed

lemma node_end_send_at:
  assumes t: "takes_message c" and ok: "message_ok ver h [e]" and b: "begun ver h (fst e) sd"
    and room: "message_size ver h [e] \<le> length (cn_send_buffer c)"
    and w: "lw_elements_written_count (sd_element_writer sd) = length (snd e)"
       "lw_elements_written_size (sd_element_writer sd) = length (enc_raws ver (snd e))"
  shows "\<exists>sd'. node_end_send_messageentry
      (c\<lparr>cn_send_buffer := overwrite (cn_send_buffer c) 0 (enc_open_message ver h @ enc_open_entry ver (fst e) @ enc_raws ver (snd e))\<rparr>) sd =
      (OK, sent_connection c (enc_message ver h [e]), sd')"
proof -
  let ?bv = "send_buffer_vec c" and ?om = "enc_open_message ver h" and ?oe = "enc_open_entry ver (fst e)"
    and ?b = "enc_raws ver (snd e)"
  have wf: "wf_vec 1 ?bv" using t by (rule send_vec_wf)
  have len: "length (cn_send_buffer c) = cn_send_buffer_len c" using t by (simp add: takes_message_def)
  have m: "message_fits ver h" and eok: "message_entry_ok ver e" using ok by (simp_all add: message_ok_def)
  have o: "entry_ok ver (fst e)" "length (snd e) \<le> UINT16_MAX" "entry_size ver e \<le> UINT32_MAX"
      "entry_size ver e = length (?oe @ ?b)"
    using eok by (simp_all add: message_entry_ok_def entry_size_def)
  have size: "message_size ver h [e] = length (?om @ ?oe @ ?b)"
    by (simp add: message_size_def length_enc_entry o(4))
  have big: "message_size ver h [e] \<le> UINT32_MAX" "count_has_place ver h \<or> (1::nat) = 1"
    using ok by (simp_all add: message_ok_def)
  have fit: "length (?om @ ?oe @ ?b) \<le> length (flat ?bv)" using room size by simp
  have joined: "put_flat (put_flat ?bv 0 ?om) (length ?om) ys = put_flat ?bv 0 (?om @ ys)"
    if "length ?om + length ys \<le> length (cn_send_buffer c)" for ys
    using put_flat_append [of 0 ?om ys ?bv] that by simp
  have le: "length (enc_entry ver e) = length (?oe @ ?b)" by (simp add: length_enc_entry o(4))
  obtain ew where E: "messageentry_writer_end_entry (put_flat ?bv 0 (?om @ ?oe @ ?b)) (sd_entry_writer sd) (sd_element_writer sd) =
      (OK, put_flat ?bv 0 (?om @ enc_entry ver e), ew)"
      "ew_entries_written_count ew = 1" "ew_entries_written_size ew = length (enc_entry ver e)"
  proof -
    have wf1: "wf_vec 1 (put_flat ?bv 0 ?om)" using wf fit by simp
    have r1: "length ?om + length (?oe @ ?b) \<le> length (flat (put_flat ?bv 0 ?om))" using fit by simp
    note end_entry_at [OF wf1 _ o(1) _ _ _ w(2,1) r1 o(3) [unfolded o(4)] o(4), of "sd_entry_writer sd"]
    then show ?thesis
      using that b fit joined [of "?oe @ ?b"] joined [of "enc_entry ver e"] le o(3,4)
      by (simp add: begun_def enc_entry_def UINT32_MAX_def sz_add_nowrap)
  qed
  have M: "message_writer_end_message (put_flat ?bv 0 (?om @ enc_entry ver e)) (sd_message_writer sd) (sd_message_header sd) ew =
     (OK, put_flat ?bv 0 (enc_message ver h [e]),
      (sd_message_header sd)\<lparr>mh_message_size := word_of_nat (message_size ver h [e]), mh_entry_count := word_of_nat 1\<rparr>)"
    using end_message_at [OF wf _ m, of "sd_message_writer sd" 0 "sd_message_header sd" ew "enc_entry ver e" 1 "message_size ver h [e]"]
      b E(2,3) fit size big le
    by (simp add: begun_def enc_message_def unat_word_of_nat_u32)
  show ?thesis
    using put_send_buffer_flat(2) [OF t, of 0 "?om @ ?oe @ ?b"] put_send_buffer_flat(1) [OF t, of 0 "enc_message ver h [e]"]
      fit len E(1) M big(1) length_enc_message [OF ok] size
    by (simp add: node_end_send_messageentry_def connection_end_send_message_def sent_connection_def unat_word_of_nat_u32
        put_send_buffer_def)
qed

lemma node_send_entry_at:
  assumes t: "takes_message c" and ok: "message_ok (send_version c) (header_from nd c) [e]"
    and room: "message_size (send_version c) (header_from nd c) [e] \<le> length (cn_send_buffer c)"
  shows "\<exists>sd'. node_send_entry nd c sd e = (OK, sent_connection c (enc_message (send_version c) (header_from nd c) [e]), sd')"
proof -
  let ?ver = "send_version c" and ?h = "header_from nd c" and ?bv = "send_buffer_vec c"
  let ?om = "enc_open_message ?ver ?h" and ?oe = "enc_open_entry ?ver (fst e)" and ?b = "enc_raws ?ver (snd e)"
  have len: "length (cn_send_buffer c) = cn_send_buffer_len c" using t by (simp add: takes_message_def)
  have m: "message_fits ?ver ?h" and eok: "message_entry_ok ?ver e" using ok by (simp_all add: message_ok_def)
  have o: "entry_ok ?ver (fst e)" "\<forall>d \<in> set (snd e). raw_ok ?ver d" "length (snd e) \<le> UINT16_MAX" "length ?b \<le> UINT32_MAX"
    using eok by (simp_all add: message_entry_ok_def entry_size_def)
  have fit: "length ?om + (length ?oe + length ?b) \<le> length (cn_send_buffer c)"
    using room by (simp add: message_size_def length_enc_entry entry_size_def)
  let ?sd = "sd\<lparr>sd_entry_header := fst e\<rparr>"
  have "length (?om @ enc_open_entry ?ver (sd_entry_header ?sd)) \<le> length (cn_send_buffer c)" using fit by simp
  from node_begin_send_at [OF t refl refl m, of ?sd, OF _ this] o(1)
  obtain sd1 where B: "node_begin_send_messageentry nd c ?sd = (OK, c\<lparr>cn_send_buffer := overwrite (cn_send_buffer c) 0 (?om @ ?oe)\<rparr>, sd1)"
      "begun ?ver ?h (fst e) sd1" "writes_at ?ver (length (?om @ ?oe)) (sd_element_writer sd1)"
    by auto
  let ?bv1 = "put_flat ?bv 0 (?om @ ?oe)"
  have v1: "send_buffer_vec (c\<lparr>cn_send_buffer := overwrite (cn_send_buffer c) 0 (?om @ ?oe)\<rparr>) = ?bv1"
    by (rule put_send_buffer_flat(2) [OF t]) (use fit len in simp)
  have wf1: "wf_vec 1 ?bv1" using send_vec_wf [OF t] fit by simp
  have j: "put_flat ?bv1 (length (?om @ ?oe)) ?b = put_flat ?bv 0 (?om @ ?oe @ ?b)"
    using put_flat_append [of 0 "?om @ ?oe" ?b ?bv] fit by simp
  obtain lw where W: "write_raw_elements ?bv1 (sd_element_writer sd1) (snd e) = (OK, put_flat ?bv 0 (?om @ ?oe @ ?b), lw)"
      "lw_elements_written_count lw = length (snd e)" "lw_elements_written_size lw = length ?b"
    using write_raws_at [OF wf1, of "snd e" "sd_element_writer sd1"] B(3) o fit j
    by (auto simp: writes_at_def UINT16_MAX_def UINT32_MAX_def)
  let ?sd1 = "sd1\<lparr>sd_element_writer := lw\<rparr>"
  have b1: "begun ?ver ?h (fst e) ?sd1" using B(2) by (simp add: begun_def)
  obtain sd2 where E: "node_end_send_messageentry
      (c\<lparr>cn_send_buffer := overwrite (cn_send_buffer c) 0 (?om @ ?oe @ ?b)\<rparr>) ?sd1 =
      (OK, sent_connection c (enc_message ?ver ?h [e]), sd2)"
    using node_end_send_at [OF t ok b1 room] W(2,3) by auto
  have p: "put_send_buffer (put_flat ?bv 0 (?om @ ?oe @ ?b)) (c\<lparr>cn_send_buffer := overwrite (cn_send_buffer c) 0 (?om @ ?oe)\<rparr>) =
      c\<lparr>cn_send_buffer := overwrite (cn_send_buffer c) 0 (?om @ ?oe @ ?b)\<rparr>"
    using put_send_buffer_flat(1) [OF t, of 0 "?om @ ?oe @ ?b"] fit len by (simp add: put_send_buffer_def)
  show ?thesis
    using E by (simp add: node_send_entry_def write_elements_def B(1) v1 W(1) p)
qed


section \<open>Receiving\<close>

text \<open>A connection that has received a message which its receive buffer starts with.\<close>

definition delivers :: "connection \<Rightarrow> byte list \<Rightarrow> bool" where
  "delivers c xs \<longleftrightarrow> has_state c STATUS_FLAGS_MESSAGE_RECEIVED \<and> \<not> has_state c STATUS_FLAGS_MESSAGE_CONSUMED \<and>
     length xs \<le> cn_recv_buffer_pos c \<and> cn_recv_buffer_pos c \<le> length (cn_recv_buffer c) \<and>
     length (cn_recv_buffer c) < 2 ^ 63 \<and> take (length xs) (cn_recv_buffer c) = xs"

definition names_fit :: "const_string message_header \<Rightarrow> const_string messageentry_header \<Rightarrow> bool" where
  "names_fit h eh \<longleftrightarrow> length (mh_sender_nodename h) \<le> 128 \<and> length (mh_receiver_nodename h) \<le> 128 \<and>
     length (eh_service_path eh) \<le> 128 \<and> length (eh_member_name eh) \<le> 128 \<and> length (eh_metadata eh) \<le> 128"

definition recv_segment :: "connection \<Rightarrow> buffer" where
  "recv_segment c = buffer_init_scalar (cn_recv_buffer c) (cn_recv_buffer_pos c)"

lemma recv_buffer_vec: "recv_buffer_vec c = [recv_segment c]"
  by (simp add: recv_buffer_vec_def recv_segment_def)

lemma delivered:
  assumes "delivers c xs"
  shows "claims_less (recv_segment c)" and "wf_vec 1 [trim (recv_segment c)]" and "at [trim (recv_segment c)] 0 xs"
    and "length (flat [trim (recv_segment c)]) = cn_recv_buffer_pos c" and "buf_len (recv_segment c) = cn_recv_buffer_pos c"
proof -
  show c: "claims_less (recv_segment c)"
    using assms by (simp add: delivers_def claims_less_def recv_segment_def buffer_init_scalar_def)
  then show "wf_vec 1 [trim (recv_segment c)]" by (rule wf_trim)
  have f: "flat [trim (recv_segment c)] = take (cn_recv_buffer_pos c) (cn_recv_buffer c)"
    by (simp add: trim_def recv_segment_def buffer_init_scalar_def)
  then show "at [trim (recv_segment c)] 0 xs" and "length (flat [trim (recv_segment c)]) = cn_recv_buffer_pos c"
    using assms by (simp_all add: delivers_def at_def chunk_def min_absorb1 min_absorb2)
  show "buf_len (recv_segment c) = cn_recv_buffer_pos c" by (simp add: recv_segment_def buffer_init_scalar_def)
qed

lemma received_rooms:
  assumes "names_fit h eh" and "mh_metadata h = []"
  shows "header_room received_header_storage h" and "entry_room received_entry_storage eh"
  using assms
  by (simp_all add: names_fit_def header_room_def entry_room_def received_header_storage_def received_entry_storage_def
      zero_entry_header_def string_storage_def string_ok_def string_room_def string_memory_def null_string_def MESSAGE_STR_MAX_SIZE_def)

definition message_received ::
  "u16 \<Rightarrow> const_string message_header \<Rightarrow> message_entry \<Rightarrow> connection \<Rightarrow> receive_data \<Rightarrow> bool" where
  "message_received ver h e c rd \<longleftrightarrow>
     rd_message_header rd = message_header_shallow_copy_from_mutable
       (seen_message ver h (message_size ver h [e]) 1 (received_header_storage\<lparr>mh_message_version := ver\<rparr>)) \<and>
     rd_entry_header rd = messageentry_header_shallow_copy_from_mutable (seen_message_entry ver e received_entry_storage) \<and>
     er_message_version (rd_entry_reader rd) = ver \<and> er_buffer_count (rd_entry_reader rd) = entry_size ver e \<and>
     at [trim (recv_segment c)] (er_buffer_offset (rd_entry_reader rd)) (enc_entry ver e)"

lemma node_receive_at:
  assumes d: "delivers c (enc_message ver h [e])" and ok: "message_ok ver h [e]"
    and names: "names_fit h (fst e)" "mh_metadata h = []"
  shows "\<exists>rd'. node_receive_messageentry nd c rd = (OK, rd') \<and> message_received ver h e c rd'"
proof -
  let ?b = "recv_segment c" and ?n = "cn_recv_buffer_pos c" and ?s = "message_size ver h [e]"
  have eok: "message_entry_ok ver e" and fits: "message_fits ver h" using ok by (simp_all add: message_ok_def)
  note cl = delivered(1) [OF d] and wf = delivered(2) [OF d] and a = delivered(3) [OF d]
  have le: "?s \<le> ?n" using d by (simp add: delivers_def length_enc_message [OF ok])
  have sum: "?s + (?n - ?s) = ?n" and small: "?n < 2 ^ 63" using le d by (simp_all add: delivers_def)
  let ?mr = "\<lparr>mr_buffer_offset = 0, mr_buffer_count = ?n, mr_message_version = ver\<rparr>"
  let ?seen = "seen_message ver h ?s 1 (received_header_storage\<lparr>mh_message_version := ver\<rparr>)"
  have O: "open_message [?b] ?n received_header_storage = (OK, ?mr, ?seen)"
    using open_message_at [OF wf ok a _ received_rooms(1) [OF names], of "?n - ?s"] delivered(4) [OF d]
    by (simp add: sum open_message_def trims cl cong: read_congs)
  let ?er = "entry_cursor ver (length (enc_open_message ver h))
      (if count_has_place ver h then count_place ver h else SIZE_T_MAX) (?n - ?s) [] e []"
  have B: "message_reader_begin_read_entries [?b] ?mr er0 = (OK, ?er)" for er0
    using begin_entries_at [OF wf ok a, of ?mr "?n - ?s" er0] sum small by (simp add: trims cl)
  have "at [trim ?b] (length (enc_open_message ver h)) (enc_entries ver [e])"
    using a length_enc_closed_message [OF fits] by (simp add: enc_message_def at_append)
  then have ae: "at [trim ?b] (er_buffer_offset ?er) (enc_entry ver e)" by (simp add: entry_cursor_def)
  obtain info where "messageentry_reader_read_header_ex [trim ?b] ?er received_entry_storage no_entry_info =
      (OK, seen_message_entry ver e received_entry_storage, info)"
    using read_message_entry_at [OF wf eok _ ae received_rooms(2) [OF names], of no_entry_info] by (auto simp: entry_cursor_def)
  then have E: "messageentry_reader_read_header [?b] ?er received_entry_storage =
      (OK, seen_message_entry ver e received_entry_storage)"
    by (simp add: messageentry_reader_read_header_def trims cl)
  obtain mr where O': "message_reader_init blank_reader [?b] 0 ?n = (OK, mr)"
      "message_reader_read_header [?b] mr received_header_storage = (OK, ?mr, ?seen)"
    using O by (auto simp: open_message_def split: prod.splits status.splits)
  have "node_receive_messageentry nd c rd = (OK, rd\<lparr>rd_message_header := message_header_shallow_copy_from_mutable ?seen,
      rd_entry_reader := ?er, rd_entry_header :=
        messageentry_header_shallow_copy_from_mutable (seen_message_entry ver e received_entry_storage)\<rparr>)"
    using d O' B E
    by (simp add: node_receive_messageentry_def connection_message_receive_def delivers_def blank_reader_def
        recv_segment_def [symmetric] node_verify_incoming_message_def)
  then show ?thesis
    using ae by (simp add: message_received_def entry_cursor_def)
qed


section \<open>Properties\<close>

lemma header_copied:
  assumes "header_got g got h" and "str_data (mh_sender_nodename g) \<noteq> None" and "str_data (mh_receiver_nodename g) \<noteq> None"
  shows "mh_sender_nodeid (message_header_shallow_copy_from_mutable got) = mh_sender_nodeid h"
    and "mh_receiver_nodeid (message_header_shallow_copy_from_mutable got) = mh_receiver_nodeid h"
    and "mh_sender_endpoint (message_header_shallow_copy_from_mutable got) = mh_sender_endpoint h"
    and "mh_receiver_endpoint (message_header_shallow_copy_from_mutable got) = mh_receiver_endpoint h"
    and "mh_sender_nodename (message_header_shallow_copy_from_mutable got) = mh_sender_nodename h"
    and "mh_receiver_nodename (message_header_shallow_copy_from_mutable got) = mh_receiver_nodename h"
  using assms by (simp_all add: header_got_def message_header_shallow_copy_from_mutable_def string_got_def)

lemma seen_message_got:
  assumes "message_fits ver h" and "count_has_place ver h \<or> c = 1"
  shows "header_got hdr (seen_message ver h n c hdr) (h\<lparr>mh_entry_count := word_of_nat c\<rparr>)"
  using message_fits_version [OF assms(1)]
proof
  assume "ver = 2"
  then show ?thesis
    by (simp add: seen_message_def header_got_def seen_header2_def closed_message2_def sized2_def)
next
  assume "ver = 4"
  then show ?thesis
    using assms(2)
    by (auto simp: seen_message_def header_got_def seen_header4_def Let_def header4_flags_check header4_has_routing_def
        header4_has_endpoint_def header4_has_meta_def header4_has_entries_def
        closed_message4_def sized4_def nodeid_isany_eq count_has_place_def)
qed

lemma entry_copied:
  assumes "entry_got g got h" and "str_data (eh_service_path g) \<noteq> None" and "str_data (eh_member_name g) \<noteq> None"
    and "str_data (eh_metadata g) \<noteq> None" and "messageentry_header_shallow_copy_from_mutable got = h'"
  shows "eh_entry_type h' = eh_entry_type h \<and> eh_request_id h' = eh_request_id h \<and> eh_error h' = eh_error h \<and>
    eh_service_path h' = eh_service_path h \<and> eh_member_name h' = eh_member_name h \<and> eh_metadata h' = eh_metadata h \<and>
    eh_element_count h' = eh_element_count got"
  using assms by (auto simp: entry_got_def messageentry_header_shallow_copy_from_mutable_def string_got_def)

text \<open>The header and the entry that a node got are those that the other node sent.\<close>

definition same_sender :: "const_string message_header \<Rightarrow> node \<Rightarrow> connection \<Rightarrow> bool" where
  "same_sender h nd c \<longleftrightarrow> mh_sender_nodeid h = nd_nodeid nd \<and> mh_receiver_nodeid h = cn_remote_nodeid c \<and>
     mh_sender_endpoint h = cn_local_endpoint c \<and> mh_receiver_endpoint h = cn_remote_endpoint c \<and>
     mh_sender_nodename h = nd_nodename nd \<and> mh_receiver_nodename h = cn_remote_nodename c"

definition same_entry :: "const_string messageentry_header \<Rightarrow> const_string messageentry_header \<Rightarrow> bool" where
  "same_entry got h \<longleftrightarrow> eh_entry_type got = eh_entry_type h \<and> eh_request_id got = eh_request_id h \<and>
     eh_error got = eh_error h \<and> eh_service_path got = eh_service_path h \<and>
     eh_member_name got = eh_member_name h \<and> eh_metadata got = eh_metadata h"

text \<open>The data of the first element of a name, as a client gets them from what the node received.\<close>

definition received_data ::
  "connection \<Rightarrow> receive_data \<Rightarrow> const_string \<Rightarrow> byte list \<Rightarrow> size_t \<Rightarrow> u16 \<Rightarrow> size_t \<Rightarrow> (status \<times> byte list \<times> size_t) option" where
  "received_data c rd nm buf len ty es =
     (case messageentry_reader_find_element (recv_buffer_vec c) (rd_entry_reader rd) nm blank_element_reader of
        None \<Rightarrow> None
      | Some (Err x, _) \<Rightarrow> Some (Err x, buf, len)
      | Some (OK, lr) \<Rightarrow> Some (messageelement_reader_read_data_ex (recv_buffer_vec c) lr buf len ty es))"

lemma message_received_headers:
  assumes r: "message_received ver (header_from nd c) e c' rd" and ok: "message_ok ver (header_from nd c) [e]"
  shows "same_sender (rd_message_header rd) nd c" and "same_entry (rd_entry_header rd) (fst e)"
    and "unat (eh_element_count (rd_entry_header rd)) = length (snd e)"
proof -
  have fits: "message_fits ver (header_from nd c)" and eok: "message_entry_ok ver e" using ok by (simp_all add: message_ok_def)
  have g: "header_got (received_header_storage\<lparr>mh_message_version := ver\<rparr>)
      (seen_message ver (header_from nd c) n 1 (received_header_storage\<lparr>mh_message_version := ver\<rparr>))
      ((header_from nd c)\<lparr>mh_entry_count := word_of_nat 1\<rparr>)" for n
    by (rule seen_message_got [OF fits]) simp
  have st: "str_data string_storage \<noteq> None" by (simp add: string_storage_def)
  show "same_sender (rd_message_header rd) nd c"
    using r header_copied [OF g] st
    by (simp add: message_received_def same_sender_def received_header_storage_def header_from_def)
  note E = entry_copied [OF seen_entry_got(1) [OF eok, of received_entry_storage] _ _ _ refl]
  show "same_entry (rd_entry_header rd) (fst e)"
    using r E st by (simp add: message_received_def same_entry_def received_entry_storage_def)
  show "unat (eh_element_count (rd_entry_header rd)) = length (snd e)"
    using r E st entry_header_ok(4) [OF eok]
    by (simp add: message_received_def received_entry_storage_def seen_message_entry_count)
qed

lemma received_data_at:
  assumes r: "message_received ver h e c rd" and d: "delivers c xs" and eok: "message_entry_ok ver e"
    and nm: "nm \<noteq> []" and b: "length buf = len * es" "length buf < 2 ^ 63"
  shows "case find (\<lambda>d. re_name d = nm) (snd e) of
      None \<Rightarrow> received_data c rd nm buf len ty es = Some (Err MESSAGEELEMENT_NOT_FOUND, buf, len)
    | Some d \<Rightarrow> ty = re_type d \<longrightarrow> es = re_elem_size d \<longrightarrow> received_data c rd nm buf len ty es =
        Some (if re_count d \<le> len then (OK, overwrite buf 0 (re_data d), re_count d) else (Err OUT_OF_RANGE, buf, len))"
proof -
  note cl = delivered(1) [OF d] and wf = delivered(2) [OF d]
  have rv: "er_message_version (rd_entry_reader rd) = ver" "er_buffer_count (rd_entry_reader rd) = entry_size ver e"
      "at [trim (recv_segment c)] (er_buffer_offset (rd_entry_reader rd)) (enc_entry ver e)"
    using r by (simp_all add: message_received_def)
  note F = find_element_at [OF wf eok rv(1,3,2) nm, of blank_element_reader]
  show ?thesis
  proof (cases "find (\<lambda>d. re_name d = nm) (snd e)")
    case None
    then show ?thesis using F by (auto simp: received_data_def recv_buffer_vec trims cl)
  next
    case (Some d)
    have "d \<in> set (snd e)" using Some by (auto simp: find_Some_iff)
    then have ok: "raw_ok ver d" using eok by (simp add: message_entry_ok_def)
    obtain lr where L: "messageentry_reader_find_element [trim (recv_segment c)] (rd_entry_reader rd) nm blank_element_reader =
        Some (OK, lr)" "at_element [trim (recv_segment c)] ver lr d" using F Some by auto
    show ?thesis
      using L(2) read_data_at [OF wf ok, of lr buf len] b L(1)
      by (simp add: received_data_def recv_buffer_vec trims cl at_element_def Some)
  qed
qed

text \<open>
  The node has received on \<open>c'\<close> the entry \<open>e\<close> that the node \<open>nd\<close> sent on \<open>c\<close>, and finds its elements.
\<close>

definition node_gets :: "node \<Rightarrow> connection \<Rightarrow> message_entry \<Rightarrow> connection \<Rightarrow> receive_data \<Rightarrow> bool" where
  "node_gets nd c e c' rd \<longleftrightarrow>
     same_sender (rd_message_header rd) nd c \<and> same_entry (rd_entry_header rd) (fst e) \<and>
     unat (eh_element_count (rd_entry_header rd)) = length (snd e) \<and>
     (\<forall>nm buf len ty es. nm \<noteq> [] \<longrightarrow> length buf = len * es \<longrightarrow> length buf < 2 ^ 63 \<longrightarrow>
        (case find (\<lambda>d. re_name d = nm) (snd e) of
           None \<Rightarrow> received_data c' rd nm buf len ty es = Some (Err MESSAGEELEMENT_NOT_FOUND, buf, len)
         | Some d \<Rightarrow> ty = re_type d \<longrightarrow> es = re_elem_size d \<longrightarrow> received_data c' rd nm buf len ty es =
             Some (if re_count d \<le> len then (OK, overwrite buf 0 (re_data d), re_count d)
                   else (Err OUT_OF_RANGE, buf, len))))"

lemma node_gets_entry: "node_gets nd c e c' rd \<Longrightarrow> same_entry (rd_entry_header rd) (fst e)"
  by (simp add: node_gets_def)

lemma node_gets_data:
  assumes "node_gets nd c e c' rd" and "nm \<noteq> []" and "length buf = len * es" and "length buf < 2 ^ 63"
  shows "case find (\<lambda>d. re_name d = nm) (snd e) of
      None \<Rightarrow> received_data c' rd nm buf len ty es = Some (Err MESSAGEELEMENT_NOT_FOUND, buf, len)
    | Some d \<Rightarrow> ty = re_type d \<longrightarrow> es = re_elem_size d \<longrightarrow> received_data c' rd nm buf len ty es =
        Some (if re_count d \<le> len then (OK, overwrite buf 0 (re_data d), re_count d) else (Err OUT_OF_RANGE, buf, len))"
  using assms unfolding node_gets_def by blast

text \<open>
  C1. A message of one entry that a node sends is what the other node receives: the connection that took
  it has all its bytes to be sent; and when a connection of the other node has received these bytes, in a
  buffer of any size, the other node gets the header of the entry, the identifiers, names and endpoints
  of the sender and the receiver, and finds the data of each element under its name, or is told that there is none.
\<close>

theorem node_message_roundtrip:
  assumes "takes_message c" and "message_ok (send_version c) (header_from nd c) [e]"
    and "message_size (send_version c) (header_from nd c) [e] \<le> length (cn_send_buffer c)"
    and "names_fit (header_from nd c) (fst e)"
  shows "\<exists>c1 sd1. node_send_entry nd c sd e = (OK, c1, sd1) \<and> has_state c1 STATUS_FLAGS_SEND_REQUESTED \<and>
    (\<forall>nd' c' rd. delivers c' (take (unat (cn_send_message_len c1)) (cn_send_buffer c1)) \<longrightarrow>
      (\<exists>rd1. node_receive_messageentry nd' c' rd = (OK, rd1) \<and> node_gets nd c e c' rd1))"
proof -
  let ?ver = "send_version c" and ?h = "header_from nd c"
  let ?xs = "enc_message ?ver ?h [e]" and ?c1 = "sent_connection c (enc_message (send_version c) (header_from nd c) [e])"
  obtain sd1 where S: "node_send_entry nd c sd e = (OK, ?c1, sd1)" using node_send_entry_at [OF assms(1-3)] by blast
  have eok: "message_entry_ok ?ver e" using assms(2) by (simp add: message_ok_def)
  have l: "length ?xs = message_size ?ver ?h [e]" by (rule length_enc_message [OF assms(2)])
  have bytes: "take (unat (cn_send_message_len ?c1)) (cn_send_buffer ?c1) = ?xs"
    using assms(2,3) l by (simp add: sent_connection_def set_state_def message_ok_def unat_word_of_nat_u32 overwrite_def)
  have requested: "has_state ?c1 STATUS_FLAGS_SEND_REQUESTED" by (simp add: sent_connection_def conn_flag_simps)
  have meta: "mh_metadata ?h = []" by (simp add: header_from_def empty_message_header_def)
  show ?thesis
  proof (intro exI [of _ ?c1] exI [of _ sd1] conjI allI impI S requested)
    fix nd' c' rd
    assume d: "delivers c' (take (unat (cn_send_message_len ?c1)) (cn_send_buffer ?c1))"
    have d': "delivers c' ?xs" using d by (simp only: bytes)
    obtain rd1 where R: "node_receive_messageentry nd' c' rd = (OK, rd1)" "message_received ?ver ?h e c' rd1"
      using node_receive_at [OF d' assms(2,4) meta] by blast
    show "\<exists>rd1. node_receive_messageentry nd' c' rd = (OK, rd1) \<and> node_gets nd c e c' rd1"
      unfolding node_gets_def
      by (intro exI [of _ rd1] conjI allI impI R(1) message_received_headers [OF R(2) assms(2)]
          received_data_at [OF R(2) d' eok])
  qed
qed

text \<open>A connection to send on, and one that has received what it sends.\<close>

definition open_connection :: connection where
  "open_connection = set_state STATUS_FLAGS_CONNECTED
     (zero_connection\<lparr>cn_send_buffer := replicate 300 0, cn_send_buffer_len := 300\<rparr>)"

definition peer_of :: "connection \<Rightarrow> connection" where
  "peer_of c = (let xs = take (unat (cn_send_message_len c)) (cn_send_buffer c)
     in set_state STATUS_FLAGS_MESSAGE_RECEIVED (zero_connection\<lparr>cn_recv_buffer := xs @ [9, 9], cn_recv_buffer_pos := length xs\<rparr>))"

lemma open_connection_takes: "takes_message open_connection" and open_connection_version: "send_version open_connection = 2"
  by (simp_all add: takes_message_def open_connection_def zero_connection_def send_blocked_def send_version_def has_state_def
      set_state_def FLAGS_SET_def conn_flag_simps)

lemma peer_delivers: "delivers (peer_of c) (take (unat (cn_send_message_len c)) (cn_send_buffer c))"
proof -
  have "min (length (cn_send_buffer c)) (unat (cn_send_message_len c)) + 2 < 2 ^ 63"
    using unat_u32_lt [of "cn_send_message_len c"] by (simp add: min_def)
  then show ?thesis
    by (simp add: delivers_def peer_of_def Let_def zero_connection_def has_state_def set_state_def FLAGS_SET_def conn_flag_simps min_def)
qed

abbreviation sample_sent :: message_entry where
  "sample_sent \<equiv> (sample_entry, [sample_element [6, 7, 8]])"

lemma sample_sent_ok:
  "message_ok 2 (header_from zero_node open_connection) [sample_sent]"
  "message_size 2 (header_from zero_node open_connection) [sample_sent] \<le> 300"
proof -
  let ?h = "header_from zero_node open_connection"
  have f: "header2_fits ?h"
    by (simp add: header2_fits_def header_from_def zero_node_def open_connection_def zero_connection_def empty_message_header_def
        nodeid_ok_def nodeid_any_def UINT16_MAX_def set_state_def)
  have e: "entry_size 2 sample_sent \<le> 100"
    using sample_elements_ok(1) [of 2]
    by (auto simp: entry_size_def length_enc_raw enc_open_entry_def open_entry_def sample_entry_def raw_size_def sample_element_def)
  have l: "length (enc_open_message 2 ?h) \<le> 100"
    using header2_ok_sized [OF f]
    by (simp add: enc_open_message_def header_from_def zero_node_def open_connection_def zero_connection_def empty_message_header_def
        set_state_def sized2_def)
  have "message_entry_ok 2 sample_sent"
    using sample_elements_ok(1) [of 2] sample_entries_ok [of 2] e by (simp add: message_entry_ok_def UINT16_MAX_def UINT32_MAX_def)
  then show "message_ok 2 ?h [sample_sent]" "message_size 2 ?h [sample_sent] \<le> 300"
    using f e l by (simp_all add: message_ok_def message_size_def message_fits_def length_enc_entry count_has_place_def UINT16_MAX_def UINT32_MAX_def)
qed

lemma node_message_roundtrip_witness:
  "\<exists>c1 sd1 rd1. node_send_entry zero_node open_connection zero_send_data sample_sent = (OK, c1, sd1) \<and>
     node_receive_messageentry zero_node (peer_of c1) zero_receive_data = (OK, rd1) \<and>
     eh_member_name (rd_entry_header rd1) = [109] \<and> eh_request_id (rd_entry_header rd1) = 77 \<and>
     received_data (peer_of c1) rd1 [118, 49] (replicate 5 0) 5 4 1 = Some (OK, [6, 7, 8, 0, 0], 3)"
proof -
  have n: "names_fit (header_from zero_node open_connection) (fst sample_sent)"
    by (simp add: names_fit_def header_from_def zero_node_def open_connection_def zero_connection_def sample_entry_def set_state_def)
  have len: "length (cn_send_buffer open_connection) = 300" by (simp add: open_connection_def set_state_def)
  obtain c1 sd1 where S: "node_send_entry zero_node open_connection zero_send_data sample_sent = (OK, c1, sd1)"
    and R: "\<forall>nd' c' rd. delivers c' (take (unat (cn_send_message_len c1)) (cn_send_buffer c1)) \<longrightarrow>
      (\<exists>rd1. node_receive_messageentry nd' c' rd = (OK, rd1) \<and> node_gets zero_node open_connection sample_sent c' rd1)"
    using node_message_roundtrip [OF open_connection_takes, unfolded open_connection_version,
      OF sample_sent_ok(1) _ n, unfolded len, OF sample_sent_ok(2), of zero_send_data] by blast
  obtain rd1 where D: "node_receive_messageentry zero_node (peer_of c1) zero_receive_data = (OK, rd1)"
      "node_gets zero_node open_connection sample_sent (peer_of c1) rd1"
    using R [rule_format, OF peer_delivers] by blast
  have f: "find (\<lambda>d. re_name d = [118, 49]) (snd sample_sent) = Some (sample_element [6, 7, 8])"
    by (simp add: sample_element_def)
  have "received_data (peer_of c1) rd1 [118, 49] (replicate 5 0) 5 4 1 = Some (OK, overwrite (replicate 5 0) 0 [6, 7, 8], 3)"
    using node_gets_data [OF D(2), of "[118, 49]" "replicate 5 0" 5 1 4] unfolding f by (simp add: sample_element_def)
  then show ?thesis
    by (intro exI [of _ c1] exI [of _ sd1] exI [of _ rd1])
       (use S D(1) node_gets_entry [OF D(2)] in \<open>simp add: same_entry_def sample_entry_def overwrite_def, simp add: eval_nat_numeral\<close>)
qed

end
