(* ===== verification/RRL_NodeEvent.thy ===== *)
theory RRL_NodeEvent
  imports RRL_Node
begin

text \<open>
  The events of a node, src/node.c: the node polls its connections in turn, reports the first thing a
  connection has to report, and is told when the event has been dealt with. The event of a node belongs
  to that node, so it does not hold a pointer to it. A loop that does not end is \<open>None\<close>.
\<close>

datatype event_type =
    EVENT_NOOP
  | EVENT_CONNECTION_CONNECTED
  | EVENT_CONNECTION_CLOSED
  | EVENT_CONNECTION_ERROR
  | EVENT_MESSAGE_RECEIVED
  | EVENT_MESSAGE_SEND_COMPLETE
  | EVENT_NEXT_CYCLE
  | EVENT_CONNECTION_HEARTBEAT_TIMEOUT
  | EVENT_CONNECTION_TIMEOUT
  | EVENT_CONNECTION_CLIENT_SOCKET_CONNECTED

record event =
  ev_type :: event_type
  ev_connection :: addr
  ev_event_time :: timespec
  ev_received_message :: receive_data
  ev_event_error_code :: status
  ev_events_serviced :: size_t

definition zero_event :: event where
  "zero_event = \<lparr>ev_type = EVENT_NOOP, ev_connection = 0, ev_event_time = 0, ev_received_message = zero_receive_data,
     ev_event_error_code = OK, ev_events_serviced = 0\<rparr>"


section \<open>Polling\<close>

text \<open>The event of a type for a connection, after the old one has been cleared.\<close>

definition event_of :: "event_type \<Rightarrow> addr \<Rightarrow> timespec \<Rightarrow> event" where
  "event_of t a now = zero_event\<lparr>ev_type := t, ev_connection := a, ev_event_time := now\<rparr>"

text \<open>
  The body of the loop for the connection \<open>c\<close> at address \<open>a\<close>: the event it reports, and the
  connection, which changes only when its heartbeat is due for a check. The next check wraps; in C an
  overflow is undefined.
\<close>

definition poll_connection :: "node \<Rightarrow> timespec \<Rightarrow> addr \<Rightarrow> connection \<Rightarrow> event option \<times> connection" where
  "poll_connection nd now a c =
     (if connection_is_idle c then (None, c)
      else if connection_is_closed_event c then (Some (event_of EVENT_CONNECTION_CLOSED a now), c)
      else if connection_is_error c then (Some (event_of EVENT_CONNECTION_ERROR a now), c)
      else if connection_is_connected_event c then (Some (event_of EVENT_CONNECTION_CONNECTED a now), c)
      else if connection_is_message_sent_event c then (Some (event_of EVENT_MESSAGE_SEND_COMPLETE a now), c)
      else if connection_is_message_received_event c then
        (let (rv, rd) = node_receive_messageentry nd c zero_receive_data
         in (Some ((event_of EVENT_MESSAGE_RECEIVED a now)\<lparr>ev_received_message := rd, ev_event_error_code := rv\<rparr>), c))
      else if connection_is_client_socket_connected_event c then
        (Some (event_of EVENT_CONNECTION_CLIENT_SOCKET_CONNECTED a now), c)
      else if sint (cn_heartbeat_next_check_us c) < sint now then
        (let c = c\<lparr>cn_heartbeat_next_check_us := now + scast (cn_heartbeat_period_ms c) * 1000\<rparr>;
             heartbeat_ret = connection_is_heartbeat_timeout c now
         in if heartbeat_ret \<noteq> 0
            then (Some (event_of (if heartbeat_ret = 1 then EVENT_CONNECTION_HEARTBEAT_TIMEOUT
                                  else EVENT_CONNECTION_TIMEOUT) a now), c)
            else (None, c))
      else (None, c))"

definition next_cycle_event :: "timespec \<Rightarrow> event" where
  "next_cycle_event now = zero_event\<lparr>ev_type := EVENT_NEXT_CYCLE, ev_event_time := now\<rparr>"

partial_function (option) next_event_loop :: "timespec \<Rightarrow> store \<Rightarrow> node \<Rightarrow> (event \<times> store \<times> node) option" where
  "next_event_loop now h nd = do {
     let a = nd_connections_next nd;
     c \<leftarrow> connection_at h a;
     n \<leftarrow> connection_next h a;
     let nd = nd\<lparr>nd_connections_next := n\<rparr>;
     (case poll_connection nd now a c of
        (Some ev, c) \<Rightarrow>
          Some (ev, h(a \<mapsto> Conn c), nd\<lparr>nd_events_serviced := sz_add (nd_events_serviced nd) 1\<rparr>)
      | (None, c) \<Rightarrow>
          (if nd_connections_next nd \<noteq> 0 then next_event_loop now (h(a \<mapsto> Conn c)) nd
           else Some (next_cycle_event now, h(a \<mapsto> Conn c), nd))) }"

definition node_next_event :: "timespec \<Rightarrow> store \<Rightarrow> node \<Rightarrow> (event \<times> store \<times> node) option" where
  "node_next_event now h nd =
     (if nd_connections_next nd = 0
      then Some ((next_cycle_event now)\<lparr>ev_events_serviced := nd_events_serviced nd\<rparr>, h, nd)
      else next_event_loop now h nd)"


section \<open>Dealing with an event\<close>

definition on_connection :: "addr \<Rightarrow> (connection \<Rightarrow> connection) \<Rightarrow> store \<Rightarrow> store option" where
  "on_connection a f h = do { c \<leftarrow> connection_at h a; Some (h(a \<mapsto> Conn (f c))) }"

definition node_consume_event :: "store \<Rightarrow> node \<Rightarrow> event \<Rightarrow> (status \<times> store \<times> node) option" where
  "node_consume_event h nd ev =
     (let consume = (\<lambda>f. do { h \<leftarrow> on_connection (ev_connection ev) f h; Some (OK, h, nd) })
      in case ev_type ev of
           EVENT_NEXT_CYCLE \<Rightarrow> do {
             c \<leftarrow> connection_next h (nd_connections_head nd);
             Some (OK, h, nd\<lparr>nd_connections_next := c, nd_events_serviced := 0\<rparr>) }
         | EVENT_CONNECTION_CLOSED \<Rightarrow> consume connection_consume_closed
         | EVENT_CONNECTION_ERROR \<Rightarrow> Some (OK, h, nd)
         | EVENT_CONNECTION_CONNECTED \<Rightarrow> consume connection_consume_connected
         | EVENT_MESSAGE_RECEIVED \<Rightarrow> consume connection_consume_message_received
         | EVENT_MESSAGE_SEND_COMPLETE \<Rightarrow> consume connection_consume_message_sent
         | EVENT_CONNECTION_HEARTBEAT_TIMEOUT \<Rightarrow> Some (OK, h, nd)
         | EVENT_CONNECTION_TIMEOUT \<Rightarrow> Some (OK, h, nd)
         | EVENT_CONNECTION_CLIENT_SOCKET_CONNECTED \<Rightarrow> consume connection_consume_client_socket_connected_event
         | EVENT_NOOP \<Rightarrow> Some (Err INVALID_OPERATION, h, nd))"


section \<open>Waiting\<close>

definition NODE_DEFAULT_SLEEP_TIME :: timespec where "NODE_DEFAULT_SLEEP_TIME = 5000"

partial_function (option) wake_from :: "store \<Rightarrow> timespec \<Rightarrow> addr \<Rightarrow> timespec \<Rightarrow> (status \<times> timespec) option" where
  "wake_from h now c wake_time =
     (if c = 0 then Some (OK, wake_time)
      else do {
        k \<leftarrow> connection_at h c;
        (case connection_next_wake k now wake_time of
           (Err e, wake_time) \<Rightarrow> Some (Err e, wake_time)
         | (OK, wake_time) \<Rightarrow> do { n \<leftarrow> connection_next h c; wake_from h now n wake_time }) })"

partial_function (option) pending_from :: "store \<Rightarrow> addr \<Rightarrow> size_t \<Rightarrow> size_t option" where
  "pending_from h c o' =
     (if c = 0 then Some o'
      else do {
        k \<leftarrow> connection_at h c;
        n \<leftarrow> connection_next h c;
        if connection_is_idle k then pending_from h n o'
        else (let o' = (if connection_is_closed_event k then sz_add o' 1 else o');
                  o' = (if connection_is_error k then sz_add o' 1 else o');
                  o' = (if connection_is_connected_event k then sz_add o' 1 else o');
                  o' = (if connection_is_message_sent_event k then sz_add o' 1 else o');
                  o' = (if connection_is_message_received_event k then sz_add o' 1 else o');
                  o' = (if connection_is_client_socket_connected_event k then sz_add o' 1 else o')
              in pending_from h n o') })"

definition node_events_pending :: "store \<Rightarrow> node \<Rightarrow> size_t option" where
  "node_events_pending h nd = do { c \<leftarrow> connection_first h (nd_connections_head nd); pending_from h c 0 }"

definition node_events_drain_pending ::
  "'w ops_table \<Rightarrow> node \<Rightarrow> timespec \<Rightarrow> 'w \<times> store \<Rightarrow> (size_t \<times> 'w \<times> store) option" where
  "node_events_drain_pending ops nd now s = do {
     o1 \<leftarrow> node_events_pending (snd s) nd;
     (o2, s) \<leftarrow> connections_communicate_drain_pending ops (nd_connections_head nd) now s;
     Some (sz_add o1 o2, s) }"

definition node_events_available ::
  "'w ops_table \<Rightarrow> node \<Rightarrow> timespec \<Rightarrow> 'w \<times> store \<Rightarrow> (size_t \<times> 'w \<times> store) option" where
  "node_events_available ops nd now s = do {
     o1 \<leftarrow> node_events_pending (snd s) nd;
     (o2, s) \<leftarrow> connections_communicate_available ops (nd_connections_head nd) now s;
     Some (sz_add o1 o2, s) }"

end
