(* ===== verification/RRL_NodeSpec.thy ===== *)
theory RRL_NodeSpec
  imports RRL_NodeEvent RRL_ListSpec
begin

text \<open>
  The events of a node over the list of its connections: which connection an event is for, and that a
  cycle over the connections reports every connection that has something to report exactly once.
\<close>


section \<open>One connection\<close>

lemma receive_any_node: "node_receive_messageentry nd = node_receive_messageentry nd'"
proof -
  have v: "node_verify_incoming_message nd = node_verify_incoming_message nd'"
    by (intro ext) (simp add: node_verify_incoming_message_def)
  show ?thesis by (intro ext) (simp only: node_receive_messageentry_def v)
qed

lemma poll_any_node: "poll_connection nd = poll_connection zero_node"
  by (intro ext) (simp only: poll_connection_def receive_any_node [of nd zero_node])

text \<open>What a connection has to report, and the connection after the node has looked at it.\<close>

definition report :: "timespec \<Rightarrow> store \<Rightarrow> addr \<Rightarrow> event option" where
  "report now h a = (case h a of Some (Conn c) \<Rightarrow> fst (poll_connection zero_node now a c) | _ \<Rightarrow> None)"

definition looked_at :: "timespec \<Rightarrow> store \<Rightarrow> addr \<Rightarrow> object option" where
  "looked_at now h a = (case h a of Some (Conn c) \<Rightarrow> Some (Conn (snd (poll_connection zero_node now a c))) | x \<Rightarrow> x)"

text \<open>The connection after its event has been dealt with.\<close>

definition consumed :: "event_type \<Rightarrow> connection \<Rightarrow> connection" where
  "consumed t = (case t of
       EVENT_CONNECTION_CLOSED \<Rightarrow> connection_consume_closed
     | EVENT_CONNECTION_CONNECTED \<Rightarrow> connection_consume_connected
     | EVENT_MESSAGE_RECEIVED \<Rightarrow> connection_consume_message_received
     | EVENT_MESSAGE_SEND_COMPLETE \<Rightarrow> connection_consume_message_sent
     | EVENT_CONNECTION_CLIENT_SOCKET_CONNECTED \<Rightarrow> connection_consume_client_socket_connected_event
     | _ \<Rightarrow> (\<lambda>c. c))"

definition settled :: "timespec \<Rightarrow> store \<Rightarrow> addr \<Rightarrow> object option" where
  "settled now h a = (case h a of
       Some (Conn c) \<Rightarrow> (case poll_connection zero_node now a c of
           (Some ev, c) \<Rightarrow> Some (Conn (consumed (ev_type ev) c))
         | (None, c) \<Rightarrow> Some (Conn c))
     | x \<Rightarrow> x)"

lemma poll_keeps:
  "co_type (snd (poll_connection nd now a c)) = co_type c" "co_next (snd (poll_connection nd now a c)) = co_next c"
  "co_prev (snd (poll_connection nd now a c)) = co_prev c"
  by (simp_all add: poll_connection_def Let_def split: prod.splits)

lemma consumed_keeps:
  "co_type (consumed t c) = co_type c" "co_next (consumed t c) = co_next c" "co_prev (consumed t c) = co_prev c"
  by (cases t; simp add: consumed_def connection_consume_closed_def connection_consume_connected_def set_state_def
      connection_consume_message_received_def connection_consume_message_sent_def
      connection_consume_client_socket_connected_event_def)+

lemma poll_event:
  assumes "fst (poll_connection nd now a c) = Some ev"
  shows "ev_connection ev = a" and "ev_type ev \<noteq> EVENT_NEXT_CYCLE" and "ev_type ev \<noteq> EVENT_NOOP"
  using assms by (auto simp: poll_connection_def event_of_def zero_event_def Let_def split: if_splits prod.splits)


section \<open>Stores with changed connections\<close>

text \<open>A connection that is replaced by one with the same links and type.\<close>

definition same_place :: "connection \<Rightarrow> connection \<Rightarrow> bool" where
  "same_place c c' \<longleftrightarrow> co_type c' = co_type c \<and> co_next c' = co_next c \<and> co_prev c' = co_prev c"

lemma replace_conn:
  assumes "h x = Some (Conn c)" and "same_place c c'"
  shows "seg (h(x \<mapsto> Conn c')) p ys n = seg h p ys n" and "kinds_ok (h(x \<mapsto> Conn c')) = kinds_ok h"
    and "is_conn (h(x \<mapsto> Conn c')) a = is_conn h a"
proof -
  show "seg (h(x \<mapsto> Conn c')) p ys n = seg h p ys n"
    using assms by (induction ys arbitrary: p) (auto simp: same_place_def)
  show "kinds_ok (h(x \<mapsto> Conn c')) = kinds_ok h"
    using assms by (auto simp: kinds_ok_def same_place_def) (metis kind_ok.simps(1))+
  show "is_conn (h(x \<mapsto> Conn c')) a = is_conn h a"
    using assms(1) by (auto simp: is_conn_def)
qed

lemma same_place_simps [simp]:
  "same_place c (snd (poll_connection nd now a c))" "same_place c (consumed t (snd (poll_connection nd now a c)))"
  by (simp_all add: same_place_def poll_keeps consumed_keeps)

definition look_all :: "timespec \<Rightarrow> addr set \<Rightarrow> store \<Rightarrow> store" where
  "look_all now A h = (\<lambda>a. if a \<in> A then looked_at now h a else h a)"

lemma look_all_insert:
  assumes "h x = Some (Conn c)" and "x \<notin> A"
  shows "look_all now A (h(x \<mapsto> Conn (snd (poll_connection nd now x c)))) = look_all now (insert x A) h"
  using assms by (auto simp: look_all_def looked_at_def poll_any_node [of nd] fun_eq_iff)

lemma look_all_empty [simp]: "look_all now {} h = h"
  by (simp add: look_all_def)

lemma report_other [simp]: "a \<noteq> x \<Longrightarrow> report now (h(x := ob)) a = report now h a"
  by (simp add: report_def)

lemma report_conn: "h x = Some (Conn c) \<Longrightarrow> fst (poll_connection nd now x c) = report now h x"
  by (simp add: report_def poll_any_node [of nd])


section \<open>The next event\<close>

abbreviation quiet_conn :: "timespec \<Rightarrow> store \<Rightarrow> addr \<Rightarrow> bool" where
  "quiet_conn now h a \<equiv> report now h a = None"

text \<open>What the loop returns for the connections \<open>cs\<close> that are left in this cycle.\<close>

definition next_of :: "timespec \<Rightarrow> store \<Rightarrow> node \<Rightarrow> addr list \<Rightarrow> event \<times> store \<times> node" where
  "next_of now h nd cs =
     (case dropWhile (quiet_conn now h) cs of
        [] \<Rightarrow> (next_cycle_event now, look_all now (set cs) h, nd\<lparr>nd_connections_next := 0\<rparr>)
      | a # as \<Rightarrow> (the (report now h a), look_all now (insert a (set (takeWhile (quiet_conn now h) cs))) h,
                  nd\<lparr>nd_connections_next := front as, nd_events_serviced := sz_add (nd_events_serviced nd) 1\<rparr>))"

lemma next_of_quiet:
  assumes "h x = Some (Conn c)" and "x \<notin> set cs" and "quiet_conn now h x"
  shows "next_of now (h(x \<mapsto> Conn (snd (poll_connection nd now x c)))) (nd\<lparr>nd_connections_next := m\<rparr>) cs = next_of now h nd (x # cs)"
proof -
  let ?h = "h(x \<mapsto> Conn (snd (poll_connection nd now x c)))"
  have r: "report now ?h a = report now h a" if "a \<in> set cs" for a
    using that assms(2) by (metis report_other)
  have d: "dropWhile (quiet_conn now ?h) cs = dropWhile (quiet_conn now h) cs"
      "takeWhile (quiet_conn now ?h) cs = takeWhile (quiet_conn now h) cs"
    using r by (auto intro!: dropWhile_cong takeWhile_cong)
  have t: "x \<notin> set (takeWhile (quiet_conn now h) cs)" using assms(2) by (meson set_takeWhileD)
  show ?thesis
  proof (cases "dropWhile (quiet_conn now h) cs")
    case Nil
    then show ?thesis using assms(3) by (simp add: next_of_def d Nil look_all_insert [of h x c, OF assms(1,2)])
  next
    case (Cons a as)
    have a: "a \<in> set cs" using Cons set_dropWhileD [of a "quiet_conn now h" cs] by simp
    have "insert x (insert a A) = insert a (insert x A)" for A by blast
    then show ?thesis
      using d Cons assms t a r [OF a] look_all_insert [of h x c "insert a (set (takeWhile (quiet_conn now h) cs))" now nd, OF assms(1)]
      by (auto simp: next_of_def)
  qed
qed

lemma next_event_loop_seg:
  assumes "seg h p ys 0" and "kinds_ok h" and "distinct ys"
    and "nd_connections_next nd = front (filter (is_conn h) ys)" and "filter (is_conn h) ys \<noteq> []"
  shows "next_event_loop now h nd = Some (next_of now h nd (filter (is_conn h) ys))"
  using assms
proof (induction ys arbitrary: p h nd)
  case Nil
  then show ?case by simp
next
  case (Cons x xs)
  have g: "seg h x xs 0" using Cons.prems(1) by simp
  show ?case
  proof (cases "is_conn h x")
    case False
    then show ?thesis using Cons.IH [OF g Cons.prems(2)] Cons.prems by simp
  next
    case conn: True
    then obtain c where c: "h x = Some (Conn c)" by (auto simp: is_conn_def)
    let ?c' = "snd (poll_connection nd now x c)" and ?n = "front (filter (is_conn h) xs)"
    let ?h = "h(x \<mapsto> Conn ?c')" and ?cs = "filter (is_conn h) xs"
    have x: "x \<noteq> 0" "connection_at h x = Some c" "nd_connections_next nd = x"
      using Cons.prems(1,4) c conn by (auto simp: connection_at_def look_def)
    note n = connection_next_seg [OF Cons.prems(1,2)]
    have xs: "x \<notin> set ?cs" using Cons.prems(3) by simp
    note R = replace_conn [of h x c ?c', OF c same_place_simps(1)]
    have same: "is_conn ?h = is_conn h" by (intro ext R(3))
    have fr: "?cs = [] \<longleftrightarrow> ?n = 0" using seg_nonzero [OF g] by (cases ?cs) (auto dest: filter_eq_ConsD)
    have poll: "poll_connection nd' now x c = (report now h x, ?c')" for nd'
      by (simp add: prod_eq_iff report_conn [of h x c, OF c] poll_any_node [of nd] poll_any_node [of nd'])
    have U: "next_event_loop now h nd = (case report now h x of
        Some ev \<Rightarrow> Some (ev, ?h, nd\<lparr>nd_connections_next := ?n, nd_events_serviced := sz_add (nd_events_serviced nd) 1\<rparr>)
      | None \<Rightarrow> (if ?n \<noteq> 0 then next_event_loop now ?h (nd\<lparr>nd_connections_next := ?n\<rparr>)
                else Some (next_cycle_event now, ?h, nd\<lparr>nd_connections_next := ?n\<rparr>)))"
    proof -
      define c' where "c' = ?c'"
      show ?thesis
        using x n poll [folded c'_def]
        by (subst next_event_loop.simps) (simp add: c'_def [symmetric] Let_def split: option.splits)
    qed
    have one: "look_all now {x} h = ?h" using look_all_insert [of h x c "{}" now nd, OF c] by simp
    show ?thesis
    proof (cases "report now h x")
      case None
      show ?thesis
      proof (cases "?n = 0")
        case True
        then show ?thesis
          using fr U None conn by (simp add: next_of_def one)
      next
        case False
        have "next_event_loop now ?h (nd\<lparr>nd_connections_next := ?n\<rparr>) = Some (next_of now ?h (nd\<lparr>nd_connections_next := ?n\<rparr>) ?cs)"
          using Cons.IH [of ?h x "nd\<lparr>nd_connections_next := ?n\<rparr>", unfolded R(1,2) same] g Cons.prems(2,3) fr False
          by (simp del: fun_upd_apply)
        then show ?thesis
          using U None False conn next_of_quiet [of h x c ?cs now nd ?n, OF c xs None] by simp
      qed
    next
      case (Some ev)
      then show ?thesis
        using U conn by (simp add: next_of_def one)
    qed
  qed
qed


section \<open>A cycle\<close>

text \<open>The store when the events of the connections \<open>A\<close> have been dealt with.\<close>

definition settle_all :: "timespec \<Rightarrow> addr set \<Rightarrow> store \<Rightarrow> store" where
  "settle_all now A h = (\<lambda>a. if a \<in> A then settled now h a else h a)"

lemma settled_conn:
  assumes "h a = Some (Conn c)"
  shows "\<exists>c'. settled now h a = Some (Conn c') \<and> same_place c c'"
proof -
  obtain r c1 where p: "poll_connection zero_node now a c = (r, c1)" by fastforce
  then have "same_place c c1" "same_place c (consumed t c1)" for t
    using same_place_simps(1) [of c zero_node now a] same_place_simps(2) [of c t zero_node now a] by simp_all
  then show ?thesis using assms p by (auto simp: settled_def split: option.splits)
qed

lemma settled_other: "\<not> is_conn h a \<Longrightarrow> settled now h a = h a"
  by (auto simp: settled_def is_conn_def split: option.splits object.splits)

lemma settle_all_alike:
  "seg (settle_all now A h) p ys n = seg h p ys n" "kinds_ok (settle_all now A h) = kinds_ok h"
  "is_conn (settle_all now A h) = is_conn h"
proof -
  have at: "(\<exists>c c'. h a = Some (Conn c) \<and> settle_all now A h a = Some (Conn c') \<and> same_place c c') \<or>
      (\<not> is_conn h a \<and> settle_all now A h a = h a)" for a
    using settled_conn [of h a] settled_other [of h a now]
    by (cases "is_conn h a") (auto simp: settle_all_def is_conn_def same_place_def)
  show "seg (settle_all now A h) p ys n = seg h p ys n"
  proof (induction ys arbitrary: p)
    case (Cons y ys)
    have "(\<exists>ob. settle_all now A h y = Some ob \<and> object_prev ob = p \<and> object_next ob = m) =
        (\<exists>ob. h y = Some ob \<and> object_prev ob = p \<and> object_next ob = m)" for m
      using at [of y] by (elim disjE exE conjE) (simp_all add: same_place_def)
    then show ?case using Cons.IH by simp
  qed simp
  have k: "(\<forall>ob. settle_all now A h a = Some ob \<longrightarrow> kind_ok ob) = (\<forall>ob. h a = Some ob \<longrightarrow> kind_ok ob)" for a
    using at [of a] by (auto simp: same_place_def)
  show "kinds_ok (settle_all now A h) = kinds_ok h" by (simp add: kinds_ok_def k)
  show "is_conn (settle_all now A h) = is_conn h"
  proof
    fix a show "is_conn (settle_all now A h) a = is_conn h a" using at [of a] by (elim disjE exE conjE) (simp_all add: is_conn_def)
  qed
qed

lemma settle_all_other:
  assumes "b \<notin> A"
  shows "report now (settle_all now A h) b = report now h b" and "settled now (settle_all now A h) b = settled now h b"
  using assms by (simp_all add: report_def settled_def settle_all_def)

lemma settle_all_twice: "A \<inter> B = {} \<Longrightarrow> settle_all now B (settle_all now A h) = settle_all now (A \<union> B) h"
  using settle_all_other(2) by (fastforce simp: settle_all_def settled_def fun_eq_iff)

lemma settled_quiet: "quiet_conn now h a \<Longrightarrow> settled now h a = looked_at now h a"
  by (auto simp: settled_def looked_at_def report_def split: option.splits object.splits prod.splits)

lemma look_all_quiet: "(\<And>a. a \<in> A \<Longrightarrow> quiet_conn now h a) \<Longrightarrow> look_all now A h = settle_all now A h"
  using settled_quiet by (auto simp: look_all_def settle_all_def fun_eq_iff)


text \<open>A client that takes the events of a node and deals with each, until the cycle ends.\<close>

partial_function (option) node_cycle :: "timespec \<Rightarrow> store \<Rightarrow> node \<Rightarrow> (event list \<times> store \<times> node) option" where
  "node_cycle now h nd = do {
     (ev, h, nd) \<leftarrow> node_next_event now h nd;
     (rv, h, nd) \<leftarrow> node_consume_event h nd ev;
     if ev_type ev = EVENT_NEXT_CYCLE then Some ([ev], h, nd)
     else do { (evs, h, nd) \<leftarrow> node_cycle now h nd; Some (ev # evs, h, nd) } }"

lemma consume_settles:
  assumes "connection_at h (ev_connection ev) = Some c" and "h (ev_connection ev) = Some (Conn c)"
    and "ev_type ev \<noteq> EVENT_NEXT_CYCLE" and "ev_type ev \<noteq> EVENT_NOOP"
  shows "node_consume_event h nd ev = Some (OK, h(ev_connection ev \<mapsto> Conn (consumed (ev_type ev) c)), nd)"
  using assms
  by (cases "ev_type ev") (simp_all add: node_consume_event_def on_connection_def consumed_def fun_upd_idem)

text \<open>The lists of a store and the connections on them.\<close>

lemma conn_split:
  assumes "filter P ys = pre @ a # as"
  shows "\<exists>ys1 ys2. ys = ys1 @ a # ys2 \<and> filter P ys2 = as \<and> P a"
  using assms
proof (induction pre arbitrary: ys)
  case Nil
  then show ?case by (auto simp: filter_eq_Cons_iff)
next
  case (Cons b pre)
  then obtain us vs where "ys = us @ b # vs" "filter P vs = pre @ a # as" by (auto simp: filter_eq_Cons_iff)
  then show ?case using Cons.IH [of vs] by (metis append.assoc append_Cons)
qed

lemma next_event_settles:
  assumes g: "seg h p ys 0" "kinds_ok h" "distinct ys" and n: "nd_connections_next nd = front (filter (is_conn h) ys)"
    and d: "dropWhile (quiet_conn now h) (filter (is_conn h) ys) = a # as"
  shows "\<exists>ev h1 nd1. node_next_event now h nd = Some (ev, h1, nd1) \<and> report now h a = Some ev \<and>
    ev_type ev \<noteq> EVENT_NEXT_CYCLE \<and> nd_connections_next nd1 = front as \<and> nd_connections_head nd1 = nd_connections_head nd \<and>
    node_consume_event h1 nd1 ev =
      Some (OK, settle_all now (insert a (set (takeWhile (quiet_conn now h) (filter (is_conn h) ys)))) h, nd1)"
proof -
  let ?cs = "filter (is_conn h) ys"
  let ?t = "set (takeWhile (quiet_conn now h) ?cs)"
  let ?A = "insert a ?t"
  have a: "a \<in> set ys" "is_conn h a" using set_dropWhileD [of a "quiet_conn now h" ?cs] d by auto
  then obtain c where c: "h a = Some (Conn c)" "a \<noteq> 0" using seg_nonzero [OF g(1)] by (auto simp: is_conn_def)
  have "\<not> quiet_conn now h a" using hd_dropWhile [of "quiet_conn now h" ?cs] d by simp
  then obtain ev where ev: "report now h a = Some ev" by blast
  obtain c1 where p: "poll_connection zero_node now a c = (Some ev, c1)" using ev c by (cases "poll_connection zero_node now a c") (auto simp: report_def)
  have e: "ev_connection ev = a" "ev_type ev \<noteq> EVENT_NEXT_CYCLE" "ev_type ev \<noteq> EVENT_NOOP"
    using poll_event [of zero_node now a c ev] p by auto
  have ne: "?cs \<noteq> []" using d by auto
  have nz: "nd_connections_next nd \<noteq> 0" using n ne seg_nonzero [OF g(1)] by (cases ?cs) (auto dest: filter_eq_ConsD)
  let ?h1 = "look_all now ?A h"
  let ?nd1 = "nd\<lparr>nd_connections_next := front as, nd_events_serviced := sz_add (nd_events_serviced nd) 1\<rparr>"
  have N: "node_next_event now h nd = Some (ev, ?h1, ?nd1)"
    using next_event_loop_seg [OF g n ne] nz d ev by (simp add: node_next_event_def next_of_def)
  have h1a: "?h1 a = Some (Conn c1)" using c p by (simp add: look_all_def looked_at_def)
  have q: "quiet_conn now h b" if "b \<in> ?t" for b using that by (meson set_takeWhileD)
  have at: "a \<notin> ?t" using q ev by auto
  have "?h1(a \<mapsto> Conn (consumed (ev_type ev) c1)) = settle_all now ?A h"
    using q settled_quiet [of now h] c p at by (auto simp: fun_eq_iff look_all_def settle_all_def settled_def)
  then have "node_consume_event ?h1 ?nd1 ev = Some (OK, settle_all now ?A h, ?nd1)"
    using consume_settles [of ?h1 ev c1 ?nd1] e h1a c(2) by (simp add: connection_at_def look_def)
  then show ?thesis using N ev e(2) by auto
qed


lemma next_event_ends:
  assumes g: "seg h p ys 0" "kinds_ok h" "distinct ys" and n: "nd_connections_next nd = front (filter (is_conn h) ys)"
    and d: "dropWhile (quiet_conn now h) (filter (is_conn h) ys) = []"
  shows "\<exists>ev nd1. node_next_event now h nd = Some (ev, settle_all now (set (filter (is_conn h) ys)) h, nd1) \<and>
    ev_type ev = EVENT_NEXT_CYCLE \<and> ev_connection ev = 0 \<and> nd_connections_head nd1 = nd_connections_head nd"
proof (cases "filter (is_conn h) ys = []")
  case True
  then show ?thesis using n by (simp add: node_next_event_def next_cycle_event_def zero_event_def settle_all_def)
next
  case False
  have nz: "nd_connections_next nd \<noteq> 0"
    using n False seg_nonzero [OF g(1)] by (cases "filter (is_conn h) ys") (auto dest: filter_eq_ConsD)
  have "look_all now (set (filter (is_conn h) ys)) h = settle_all now (set (filter (is_conn h) ys)) h"
    using d by (intro look_all_quiet) simp
  then show ?thesis
    using next_event_loop_seg [OF g n False, of now] nz d
    by (simp add: node_next_event_def next_of_def next_cycle_event_def zero_event_def del: dropWhile_eq_Nil_conv)
qed

lemma map_filter_quiet:
  "dropWhile (\<lambda>x. f x = None) cs = a # as \<Longrightarrow> List.map_filter f cs = the (f a) # List.map_filter f as"
  by (induction cs) (auto split: if_splits simp: map_filter_simps)

lemma node_cycle_seg:
  assumes "seg h p ys 0" and "kinds_ok h" and "distinct ys" and "nd_connections_next nd = front (filter (is_conn h) ys)"
    and "is_list h head xs" and "nd_connections_head nd = head" and "set ys \<subseteq> set xs"
  shows "\<exists>e nd'. node_cycle now h nd =
      Some (List.map_filter (report now h) (filter (is_conn h) ys) @ [e], settle_all now (set (filter (is_conn h) ys)) h, nd') \<and>
    ev_type e = EVENT_NEXT_CYCLE \<and> ev_connection e = 0 \<and> nd_events_serviced nd' = 0 \<and>
    nd_connections_head nd' = head \<and> nd_connections_next nd' = front (filter (is_conn h) xs)"
  using assms
proof (induction "length ys" arbitrary: h p ys nd rule: less_induct)
  case less
  let ?cs = "filter (is_conn h) ys"
  show ?case
  proof (cases "dropWhile (quiet_conn now h) ?cs")
    case Nil
    let ?h = "settle_all now (set ?cs) h"
    obtain ev nd1 where E: "node_next_event now h nd = Some (ev, ?h, nd1)" "ev_type ev = EVENT_NEXT_CYCLE"
        "ev_connection ev = 0" "nd_connections_head nd1 = head"
      using next_event_ends [OF less.prems(1-4) Nil] less.prems(6) by auto
    have l: "seg ?h 0 (head # xs) 0" "kinds_ok ?h" using less.prems(2,5) by (simp_all only: is_list_def settle_all_alike)
    have n: "connection_next ?h head = Some (front (filter (is_conn h) xs))"
      using connection_next_seg [OF l] by (simp only: settle_all_alike)
    have m: "List.map_filter (report now h) ?cs = []" using Nil by (auto simp: map_filter_def)
    show ?thesis
      using n E(2-4) by (subst node_cycle.simps) (simp add: E(1) node_consume_event_def m)
  next
    case (Cons a as)
    let ?t = "takeWhile (quiet_conn now h) ?cs"
    let ?h = "settle_all now (insert a (set ?t)) h"
    obtain ev h1 nd1 where E: "node_next_event now h nd = Some (ev, h1, nd1)" "report now h a = Some ev"
        "ev_type ev \<noteq> EVENT_NEXT_CYCLE" "nd_connections_next nd1 = front as" "nd_connections_head nd1 = head"
        "node_consume_event h1 nd1 ev = Some (OK, ?h, nd1)"
      using next_event_settles [OF less.prems(1-4) Cons] less.prems(6) by auto
    have cs: "?cs = ?t @ a # as" using takeWhile_dropWhile_id [of "quiet_conn now h" ?cs] Cons by simp
    obtain ys1 ys2 where ys: "ys = ys1 @ a # ys2" "filter (is_conn h) ys2 = as"
      using conn_split [of "is_conn h" ys ?t a as, OF cs] by blast
    have "distinct (?t @ a # as)" using less.prems(3) cs by (metis distinct_filter)
    then have dis: "set as \<inter> insert a (set ?t) = {}" by auto
    have g2: "seg ?h a ys2 0" using less.prems(1) by (simp add: ys(1) seg_append settle_all_alike)
    have is2: "is_list ?h head xs" "kinds_ok ?h" using less.prems(2,5) by (simp_all only: is_list_def settle_all_alike)
    obtain e nd' where R: "node_cycle now ?h nd1 =
        Some (List.map_filter (report now ?h) as @ [e], settle_all now (set as) ?h, nd')"
      "ev_type e = EVENT_NEXT_CYCLE" "ev_connection e = 0" "nd_events_serviced nd' = 0" "nd_connections_head nd' = head"
      "nd_connections_next nd' = front (filter (is_conn h) xs)"
      using less.hyps [of ys2 ?h a nd1] g2 is2 E(4,5) less.prems(3,7) ys by (auto simp: settle_all_alike)
    have "report now ?h b = report now h b" if "b \<in> set as" for b
      using that dis by (intro settle_all_other) auto
    then have m: "List.map_filter (report now ?h) as = List.map_filter (report now h) as" by (induction as) (auto simp: map_filter_simps split: option.splits)
    have s: "settle_all now (set as) ?h = settle_all now (set ?cs) h"
    proof -
      have "set ?cs = insert a (set ?t) \<union> set as" by (subst cs) auto
      then show ?thesis using settle_all_twice [of "insert a (set ?t)" "set as" now h] dis by (simp add: Int_commute)
    qed
    show ?thesis
      using R(2-6) E(2) map_filter_quiet [of "report now h" ?cs, OF Cons]
      by (subst node_cycle.simps) (simp add: E(1,3,6) R(1) m s)
  qed
qed



section \<open>The number of pending events\<close>

definition timeout_event :: "event_type \<Rightarrow> bool" where
  "timeout_event t \<longleftrightarrow> t = EVENT_CONNECTION_HEARTBEAT_TIMEOUT \<or> t = EVENT_CONNECTION_TIMEOUT"

definition has_event :: "connection \<Rightarrow> bool" where
  "has_event c \<longleftrightarrow> \<not> connection_is_idle c \<and>
     (connection_is_closed_event c \<or> connection_is_error c \<or> connection_is_connected_event c \<or>
      connection_is_message_sent_event c \<or> connection_is_message_received_event c \<or>
      connection_is_client_socket_connected_event c)"

definition event_count :: "connection \<Rightarrow> nat" where
  "event_count c = (if connection_is_idle c then 0 else
     of_bool (connection_is_closed_event c) + of_bool (connection_is_error c) + of_bool (connection_is_connected_event c) +
     of_bool (connection_is_message_sent_event c) + of_bool (connection_is_message_received_event c) +
     of_bool (connection_is_client_socket_connected_event c))"

lemma event_count_props: "event_count c \<le> 6" "0 < event_count c \<longleftrightarrow> has_event c"
  by (auto simp: event_count_def has_event_def)

lemma has_event_report:
  "has_event c \<longleftrightarrow> (\<exists>ev. fst (poll_connection nd now a c) = Some ev \<and> \<not> timeout_event (ev_type ev))"
  by (auto simp: has_event_def poll_connection_def event_of_def zero_event_def timeout_event_def Let_def split: prod.splits)

definition events_at :: "store \<Rightarrow> addr \<Rightarrow> nat" where
  "events_at h a = (case h a of Some (Conn c) \<Rightarrow> event_count c | _ \<Rightarrow> 0)"

lemma pending_from_seg:
  "seg h p ys 0 \<Longrightarrow> kinds_ok h \<Longrightarrow> k + 6 * length ys < 2 ^ 64 \<Longrightarrow>
     pending_from h (front (filter (is_conn h) ys)) k = Some (k + sum_list (map (events_at h) ys))"
proof (induction ys arbitrary: p k)
  case Nil
  show ?case by (subst pending_from.simps) simp
next
  case (Cons x xs)
  have g: "seg h x xs 0" using Cons.prems(1) by simp
  show ?case
  proof (cases "is_conn h x")
    case False
    then have "events_at h x = 0" by (auto simp: events_at_def is_conn_def split: option.splits object.splits)
    then show ?thesis using Cons.IH [OF g Cons.prems(2)] Cons.prems(3) False by simp
  next
    case True
    then obtain c where c: "h x = Some (Conn c)" by (auto simp: is_conn_def)
    have x: "x \<noteq> 0" "connection_at h x = Some c"
      using Cons.prems(1) c by (auto simp: connection_at_def look_def)
    note n = connection_next_seg [OF Cons.prems(1,2)]
    have le: "event_count c \<le> 6" by (rule event_count_props)
    have IH: "pending_from h (front (filter (is_conn h) xs)) (k + event_count c) =
        Some (k + event_count c + sum_list (map (events_at h) xs))"
      using Cons.IH [OF g Cons.prems(2), of "k + event_count c"] Cons.prems(3) le by simp
    have "pending_from h x k = pending_from h (front (filter (is_conn h) xs)) (k + event_count c)"
      using x n Cons.prems(3)
      by (subst pending_from.simps) (simp add: event_count_def sz_add_nowrap Let_def)
    moreover have "events_at h x = event_count c" using c by (simp add: events_at_def)
    ultimately show ?thesis using IH True by simp
  qed
qed



text \<open>What an event says of its connection, and that it is no longer so when it has been dealt with.\<close>

definition pending_kind :: "event_type \<Rightarrow> connection \<Rightarrow> bool" where
  "pending_kind t c = (case t of
       EVENT_CONNECTION_CLOSED \<Rightarrow> connection_is_closed_event c
     | EVENT_CONNECTION_CONNECTED \<Rightarrow> connection_is_connected_event c
     | EVENT_MESSAGE_RECEIVED \<Rightarrow> connection_is_message_received_event c
     | EVENT_MESSAGE_SEND_COMPLETE \<Rightarrow> connection_is_message_sent_event c
     | EVENT_CONNECTION_CLIENT_SOCKET_CONNECTED \<Rightarrow> connection_is_client_socket_connected_event c
     | _ \<Rightarrow> True)"

lemma poll_pending_kind: "fst (poll_connection nd now a c) = Some ev \<Longrightarrow> pending_kind (ev_type ev) c"
  by (auto simp: poll_connection_def pending_kind_def event_of_def zero_event_def Let_def split: if_splits prod.splits)

definition once :: "event_type \<Rightarrow> bool" where
  "once t \<longleftrightarrow> t \<in> {EVENT_CONNECTION_CLOSED, EVENT_CONNECTION_CONNECTED, EVENT_MESSAGE_RECEIVED,
     EVENT_MESSAGE_SEND_COMPLETE, EVENT_CONNECTION_CLIENT_SOCKET_CONNECTED}"

lemma consumed_not_pending: "once t \<Longrightarrow> \<not> pending_kind t (consumed t c)"
  by (auto simp: once_def pending_kind_def consumed_def connection_is_closed_event_def connection_is_connected_event_def
      connection_is_message_received_event_def connection_is_message_sent_event_def
      connection_is_client_socket_connected_event_def connection_consume_closed_def connection_consume_connected_def
      connection_consume_message_received_def connection_consume_message_sent_def
      connection_consume_client_socket_connected_event_def conn_flag_simps)


section \<open>Properties\<close>

text \<open>
  C13. One cycle over the connections of a node reports, in the order of the list, every connection that has
  something to report, each exactly once, and no other; it ends, and the node is then ready for the next
  cycle over the same list. Every connection is left as its own event leaves it, whatever the others do.
\<close>

theorem node_cycle_reports_all:
  assumes "is_list h head xs" and "kinds_ok h"
    and "nd_connections_head nd = head" and "nd_connections_next nd = front (filter (is_conn h) xs)"
  shows "\<exists>e h' nd'. node_cycle now h nd = Some (List.map_filter (report now h) (filter (is_conn h) xs) @ [e], h', nd') \<and>
    ev_type e = EVENT_NEXT_CYCLE \<and> ev_connection e = 0 \<and>
    (\<forall>a. h' a = (if a \<in> set xs then settled now h a else h a)) \<and> is_list h' head xs \<and> kinds_ok h' \<and>
    nd_connections_head nd' = head \<and> nd_connections_next nd' = front (filter (is_conn h') xs) \<and> nd_events_serviced nd' = 0"
proof -
  let ?h = "settle_all now (set (filter (is_conn h) xs)) h"
  have g: "seg h head xs 0" "distinct xs" using assms(1) by (simp_all add: is_list_def)
  obtain e nd' where N: "node_cycle now h nd = Some (List.map_filter (report now h) (filter (is_conn h) xs) @ [e], ?h, nd')"
      "ev_type e = EVENT_NEXT_CYCLE" "ev_connection e = 0" "nd_events_serviced nd' = 0"
      "nd_connections_head nd' = head" "nd_connections_next nd' = front (filter (is_conn h) xs)"
    using node_cycle_seg [OF g(1) assms(2) g(2) assms(4,1,3) subset_refl, of now] by blast
  have "?h a = (if a \<in> set xs then settled now h a else h a)" for a
    by (simp add: settle_all_def settled_other)
  moreover have "is_list ?h head xs" "kinds_ok ?h" "is_conn ?h = is_conn h"
    using assms(1,2) by (simp_all only: is_list_def settle_all_alike)
  ultimately show ?thesis
    using N by (intro exI [of _ e] exI [of _ ?h] exI [of _ nd']) simp
qed

text \<open>
  An event that is dealt with is gone: a connection whose closing, connecting, message, sent message
  or connected socket was reported does not report the same again, at any later time, until something
  else happens to it.
\<close>

theorem event_reported_once:
  assumes "report now h a = Some ev" and "once (ev_type ev)" and "h' a = settled now h a" and "report later h' a = Some ev'"
  shows "ev_type ev' \<noteq> ev_type ev"
proof -
  obtain c where c: "h a = Some (Conn c)" "fst (poll_connection zero_node now a c) = Some ev"
    using assms(1) by (auto simp: report_def split: option.splits object.splits)
  then obtain c1 where c1: "poll_connection zero_node now a c = (Some ev, c1)" by (metis prod.collapse)
  have "fst (poll_connection zero_node later a (consumed (ev_type ev) c1)) = Some ev'"
    using assms(3,4) c c1 by (simp add: settled_def report_def)
  then have "pending_kind (ev_type ev') (consumed (ev_type ev) c1)" by (rule poll_pending_kind)
  then show ?thesis using consumed_not_pending [OF assms(2), of c1] by metis
qed

text \<open>
  C14. The number of pending events that the node computes is not zero exactly when some connection of its
  list has something to report besides a timeout: the timeouts of connections and heartbeats are events of
  the node as well, but they are not counted.
\<close>

theorem events_pending_exact:
  assumes "is_list h head xs" and "kinds_ok h" and "nd_connections_head nd = head" and "length xs < 2 ^ 60"
  shows "\<exists>n. node_events_pending h nd = Some n \<and>
    (n \<noteq> 0 \<longleftrightarrow> (\<exists>a \<in> set (head # xs). \<exists>ev. report now h a = Some ev \<and> \<not> timeout_event (ev_type ev)))"
proof -
  have g: "seg h 0 (head # xs) 0" using assms(1) by (simp add: is_list_def)
  have "node_events_pending h nd = Some (sum_list (map (events_at h) (head # xs)))"
    using connection_first_seg [OF g assms(2)] pending_from_seg [OF g assms(2), of 0] assms(3,4)
    by (simp add: node_events_pending_def)
  moreover have "events_at h a \<noteq> 0 \<longleftrightarrow> (\<exists>ev. report now h a = Some ev \<and> \<not> timeout_event (ev_type ev))" for a
    by (simp add: events_at_def report_def event_count_props(2) has_event_report [of _ zero_node now a]
        split: option.splits object.splits)
  then have "sum_list (map (events_at h) (head # xs)) \<noteq> 0 \<longleftrightarrow>
      (\<exists>a \<in> set (head # xs). \<exists>ev. report now h a = Some ev \<and> \<not> timeout_event (ev_type ev))"
    unfolding sum_list_eq_0_iff by (simp only: list.set_map) blast
  ultimately show ?thesis by blast
qed


text \<open>A node on the sample list, and a connection with two events.\<close>

abbreviation sample_node :: node where
  "sample_node \<equiv> zero_node\<lparr>nd_connections_head := 1, nd_connections_next := 2\<rparr>"

lemma sample_flags:
  "connection_is_idle c = has_state c STATUS_FLAGS_IDLE"
  "connection_is_closed_event c \<longleftrightarrow> has_state c STATUS_FLAGS_CLOSED \<and> \<not> has_state c STATUS_FLAGS_CLOSED_CONSUMED"
  "connection_is_error c \<longleftrightarrow> has_state c STATUS_FLAGS_ERROR \<and> \<not> has_state c (STATUS_FLAGS_CLOSED OR STATUS_FLAGS_CLOSE_REQUESTED)"
  "connection_is_connected_event c \<longleftrightarrow> has_state c STATUS_FLAGS_CONNECTED \<and> \<not> has_state c STATUS_FLAGS_CONNECTED_CONSUMED"
  "connection_is_message_sent_event c \<longleftrightarrow> has_state c STATUS_FLAGS_MESSAGE_SENT \<and> \<not> has_state c STATUS_FLAGS_MESSAGE_SENT_CONSUMED"
  by (simp_all add: connection_is_idle_def connection_is_closed_event_def connection_is_error_def
      connection_is_connected_event_def connection_is_message_sent_event_def)

lemma poll_connected:
  assumes "cn_connection_state c = 0x42 \<or> cn_connection_state c = 0x2002"
  shows "poll_connection nd now a c = (Some (event_of EVENT_CONNECTION_CONNECTED a now), c)"
proof -
  have "\<not> connection_is_idle c" "\<not> connection_is_closed_event c" "\<not> connection_is_error c" "connection_is_connected_event c"
    using assms by (auto simp: sample_flags has_state_def conn_flag_simps)
  then show ?thesis by (simp only: poll_connection_def if_True if_False)
qed

lemma poll_sent:
  assumes "cn_connection_state c = FLAGS_SET 0x2002 STATUS_FLAGS_CONNECTED_CONSUMED"
  shows "poll_connection nd now a c = (Some (event_of EVENT_MESSAGE_SEND_COMPLETE a now), c)"
proof -
  have "\<not> connection_is_idle c" "\<not> connection_is_closed_event c" "\<not> connection_is_error c"
    "\<not> connection_is_connected_event c" "connection_is_message_sent_event c"
    using assms by (auto simp: sample_flags has_state_def FLAGS_SET_def conn_flag_simps)
  then show ?thesis by (simp only: poll_connection_def if_True if_False)
qed

lemma poll_idle: "connection_is_idle c \<Longrightarrow> poll_connection nd now a c = (None, c)"
  by (simp add: poll_connection_def)

lemma sample_reports:
  "report now sample_store 2 = Some (event_of EVENT_CONNECTION_CONNECTED 2 now)" "report now sample_store 3 = None"
proof -
  have i: "connection_is_idle (sample_connection\<lparr>co_next := 4, co_prev := 2, cn_connection_state := STATUS_FLAGS_IDLE\<rparr>)"
    by (simp add: sample_flags has_state_def conn_flag_simps)
  show "report now sample_store 3 = None" by (simp add: report_def sample_store_def poll_idle [OF i])
  have "cn_connection_state (sample_connection\<lparr>co_next := 3, co_prev := 1\<rparr>) = 0x42" by (simp add: sample_connection_def)
  then show "report now sample_store 2 = Some (event_of EVENT_CONNECTION_CONNECTED 2 now)"
    by (simp add: report_def sample_store_def poll_connected)
qed

lemma sample_conns: "filter (is_conn sample_store) [2, 3, 4] = [2, 3]"
proof -
  have "is_conn sample_store 3" by (simp add: is_conn_def sample_store_def)
  then show ?thesis using sample_idle(3,5) by simp
qed

lemma node_cycle_reports_all_witness:
  "\<exists>ev e h' nd'. node_cycle 7 sample_store sample_node = Some ([ev, e], h', nd') \<and>
     ev_type ev = EVENT_CONNECTION_CONNECTED \<and> ev_connection ev = 2 \<and> ev_type e = EVENT_NEXT_CYCLE \<and> is_list h' 1 [2, 3, 4]"
proof -
  have "nd_connections_head sample_node = 1" "nd_connections_next sample_node = front (filter (is_conn sample_store) [2, 3, 4])"
    by (simp_all only: sample_conns) simp_all
  from node_cycle_reports_all [OF sample_list sample_kinds this, of 7] show ?thesis
    unfolding sample_conns by (auto simp: sample_reports map_filter_simps event_of_def)
qed

definition busy_store :: store where
  "busy_store = [2 \<mapsto> Conn (sample_connection\<lparr>cn_connection_state := 0x2002\<rparr>)]"

lemma event_reported_once_witness:
  "\<exists>ev ev'. report 7 busy_store 2 = Some ev \<and> report 8 (busy_store(2 := settled 7 busy_store 2)) 2 = Some ev' \<and>
     ev_type ev = EVENT_CONNECTION_CONNECTED \<and> ev_type ev' \<noteq> ev_type ev"
proof -
  let ?c = "sample_connection\<lparr>cn_connection_state := 0x2002\<rparr>"
  let ?h = "busy_store(2 := settled 7 busy_store 2)"
  have p: "poll_connection nd now a ?c = (Some (event_of EVENT_CONNECTION_CONNECTED a now), ?c)" for nd now a
    by (rule poll_connected) simp
  have r: "report 7 busy_store 2 = Some (event_of EVENT_CONNECTION_CONNECTED 2 7)"
    by (simp add: report_def busy_store_def p)
  have "settled 7 busy_store 2 = Some (Conn (connection_consume_connected ?c))"
    by (simp add: settled_def busy_store_def p event_of_def consumed_def)
  moreover have "cn_connection_state (connection_consume_connected ?c) = FLAGS_SET 0x2002 STATUS_FLAGS_CONNECTED_CONSUMED"
    by (simp add: connection_consume_connected_def set_state_def)
  ultimately have r': "report 8 ?h 2 = Some (event_of EVENT_MESSAGE_SEND_COMPLETE 2 8)"
    by (simp add: report_def poll_sent)
  have "ev_type (event_of EVENT_MESSAGE_SEND_COMPLETE 2 8) \<noteq> ev_type (event_of EVENT_CONNECTION_CONNECTED 2 7)"
    by (rule event_reported_once [OF r _ _ r']) (simp_all add: once_def event_of_def)
  then show ?thesis using r r' by (auto simp: event_of_def)
qed

lemma events_pending_exact_witness: "\<exists>n. node_events_pending sample_store sample_node = Some n \<and> n \<noteq> 0"
  using events_pending_exact [OF sample_list sample_kinds, of sample_node 7] sample_reports(1) [of 7]
  by (fastforce simp: timeout_event_def event_of_def)

end
