(* ===== verification/RRL_Linked.thy ===== *)
theory RRL_Linked
  imports RRL_Connection "HOL-Library.Monad_Syntax"
begin

text \<open>
  The lists of src/node.c (requests, services, their objects and definitions): structures with links to
  the next and the previous one behind a head, each list in its own store. The operations are written
  once, with the links as parameters, and proved in a locale that the structures interpret. Access
  through \<open>NULL\<close> or to an address without a structure is \<open>None\<close>, and so is a walk that does not end.
\<close>

type_synonym 'n nodes = "addr \<Rightarrow> 'n option"

definition fetch :: "'n nodes \<Rightarrow> addr \<Rightarrow> 'n option" where
  "fetch h a = (if a = 0 then None else h a)"

definition change :: "addr \<Rightarrow> ('n \<Rightarrow> 'n) \<Rightarrow> 'n nodes \<Rightarrow> 'n nodes option" where
  "change a f h = do { n \<leftarrow> fetch h a; Some (h(a \<mapsto> f n)) }"

text \<open>\<open>while (c->next != NULL) c = c->next;\<close>\<close>

partial_function (option) last_of :: "('n \<Rightarrow> addr) \<Rightarrow> 'n nodes \<Rightarrow> addr \<Rightarrow> addr option" where
  "last_of nxt h c = do { n \<leftarrow> fetch h c; if nxt n \<noteq> 0 then last_of nxt h (nxt n) else Some c }"

text \<open>\<open>c->next = value; value->prev = c;\<close> behind the last one.\<close>

definition append_node ::
  "('n \<Rightarrow> addr) \<Rightarrow> (addr \<Rightarrow> 'n \<Rightarrow> 'n) \<Rightarrow> (addr \<Rightarrow> 'n \<Rightarrow> 'n) \<Rightarrow> 'n nodes \<Rightarrow> addr \<Rightarrow> addr \<Rightarrow> 'n nodes option" where
  "append_node nxt put_nxt put_prv h head v = do {
     c \<leftarrow> last_of nxt h head;
     h \<leftarrow> change c (put_nxt v) h;
     change v (put_prv c) h }"

text \<open>The neighbours of a structure are linked to each other; its own links stay.\<close>

definition unlink_node ::
  "('n \<Rightarrow> addr) \<Rightarrow> ('n \<Rightarrow> addr) \<Rightarrow> (addr \<Rightarrow> 'n \<Rightarrow> 'n) \<Rightarrow> (addr \<Rightarrow> 'n \<Rightarrow> 'n) \<Rightarrow> 'n nodes \<Rightarrow> addr \<Rightarrow> 'n nodes option" where
  "unlink_node nxt prv put_nxt put_prv h v = do {
     n \<leftarrow> fetch h v;
     h \<leftarrow> (if prv n \<noteq> 0 then change (prv n) (put_nxt (nxt n)) h else Some h);
     n \<leftarrow> fetch h v;
     if nxt n \<noteq> 0 then change (nxt n) (put_prv (prv n)) h else Some h }"

text \<open>The first structure from \<open>c\<close> on that satisfies a condition, or \<open>NULL\<close>.\<close>

partial_function (option) find_node :: "('n \<Rightarrow> addr) \<Rightarrow> ('n \<Rightarrow> bool) \<Rightarrow> 'n nodes \<Rightarrow> addr \<Rightarrow> addr option" where
  "find_node nxt P h c =
     (if c = 0 then Some 0
      else do { n \<leftarrow> fetch h c; if P n then Some c else find_node nxt P h (nxt n) })"


section \<open>The list that a store represents\<close>

fun chain :: "('n \<Rightarrow> addr) \<Rightarrow> ('n \<Rightarrow> addr) \<Rightarrow> 'n nodes \<Rightarrow> addr \<Rightarrow> addr list \<Rightarrow> addr \<Rightarrow> bool" where
  "chain nxt prv h p [] e \<longleftrightarrow> True"
| "chain nxt prv h p (x # xs) e \<longleftrightarrow> x \<noteq> 0 \<and>
     (\<exists>n. h x = Some n \<and> prv n = p \<and> nxt n = hd (xs @ [e])) \<and> chain nxt prv h x xs e"

definition linked :: "('n \<Rightarrow> addr) \<Rightarrow> ('n \<Rightarrow> addr) \<Rightarrow> 'n nodes \<Rightarrow> addr \<Rightarrow> addr list \<Rightarrow> bool" where
  "linked nxt prv h head xs \<longleftrightarrow> distinct (head # xs) \<and> chain nxt prv h 0 (head # xs) 0"

lemma chain_frame: "(\<And>a. a \<in> set xs \<Longrightarrow> h' a = h a) \<Longrightarrow> chain nxt prv h' p xs e = chain nxt prv h p xs e"
  by (induction xs arbitrary: p) auto

lemma chain_upd [simp]: "a \<notin> set xs \<Longrightarrow> chain nxt prv (h(a := n)) p xs e = chain nxt prv h p xs e"
  by (rule chain_frame) auto

lemma chain_append:
  "chain nxt prv h p (xs @ ys) e \<longleftrightarrow> chain nxt prv h p xs (hd (ys @ [e])) \<and> chain nxt prv h (last (p # xs)) ys e"
  by (induction xs arbitrary: p) (auto simp: hd_append)

lemma chain_nonzero: "chain nxt prv h p xs e \<Longrightarrow> 0 \<notin> set xs"
  by (induction xs arbitrary: p) auto

lemma chain_in_store: "chain nxt prv h p xs e \<Longrightarrow> a \<in> set xs \<Longrightarrow> \<exists>n. h a = Some n"
  by (induction xs arbitrary: p) auto

lemma last_of_chain: "chain nxt prv h p (x # xs) 0 \<Longrightarrow> last_of nxt h x = Some (last (x # xs))"
proof (induction xs arbitrary: p x)
  case Nil
  then show ?case by (subst last_of.simps) (auto simp: fetch_def)
next
  case (Cons y ys)
  then show ?case by (subst last_of.simps) (auto simp: fetch_def)
qed

lemma find_node_chain:
  "chain nxt prv h p xs 0 \<Longrightarrow> find_node nxt P h (hd (xs @ [0])) = Some (hd (filter (\<lambda>a. \<exists>n. h a = Some n \<and> P n) xs @ [0]))"
proof (induction xs arbitrary: p)
  case Nil
  show ?case by (subst find_node.simps) simp
next
  case (Cons x xs)
  then show ?case by (subst find_node.simps) (auto simp: fetch_def)
qed

lemma find_nodes: "linked nxt prv h head xs \<Longrightarrow> h head = Some n \<Longrightarrow>
    find_node nxt P h (nxt n) = Some (hd (filter (\<lambda>a. \<exists>n. h a = Some n \<and> P n) xs @ [0]))"
  using find_node_chain [of nxt prv h head xs P] by (auto simp: linked_def)


section \<open>The operations as operations on a list\<close>

text \<open>A structure whose two links can be set independently of each other.\<close>

locale links =
  fixes nxt prv :: "'n \<Rightarrow> addr" and put_nxt put_prv :: "addr \<Rightarrow> 'n \<Rightarrow> 'n"
  assumes nxt_put [simp]: "nxt (put_nxt a n) = a" "nxt (put_prv a n) = nxt n"
    and prv_put [simp]: "prv (put_prv a n) = a" "prv (put_nxt a n) = prv n"
    and put_put: "put_nxt a (put_nxt b n) = put_nxt a n" "put_prv a (put_prv b n) = put_prv a n"
      "put_prv a (put_nxt b n) = put_nxt b (put_prv a n)"
begin

definition payload :: "'n \<Rightarrow> 'n" where
  "payload n = put_prv 0 (put_nxt 0 n)"

definition same_payload :: "'n nodes \<Rightarrow> 'n nodes \<Rightarrow> bool" where
  "same_payload h h' \<longleftrightarrow> (\<forall>a. map_option payload (h' a) = map_option payload (h a))"

lemma payload_put [simp]: "payload (put_nxt a n) = payload n" "payload (put_prv a n) = payload n"
  using put_put by (simp_all add: payload_def)

lemma set_end:
  "chain nxt prv h p (ys @ [l]) e \<Longrightarrow> l \<notin> set ys \<Longrightarrow> h l = Some n \<Longrightarrow> chain nxt prv (h(l \<mapsto> put_nxt m n)) p (ys @ [l]) m"
  by (auto simp: chain_append)

lemma set_start:
  "chain nxt prv h p (b # bs) e \<Longrightarrow> b \<notin> set bs \<Longrightarrow> h b = Some n \<Longrightarrow> chain nxt prv (h(b \<mapsto> put_prv q n)) q (b # bs) e"
  by auto

lemma append_refines:
  assumes "linked nxt prv h head xs" and "h v = Some n" and "v \<noteq> 0" and "v \<notin> set (head # xs)" and "nxt n = 0"
  shows "\<exists>h'. append_node nxt put_nxt put_prv h head v = Some h' \<and> linked nxt prv h' head (xs @ [v]) \<and> same_payload h h'"
proof -
  let ?all = "head # xs"
  obtain ys l where s: "?all = ys @ [l]" by (metis append_butlast_last_id list.distinct(1))
  have d: "distinct (ys @ [l])" "v \<notin> set (ys @ [l])"
    using assms(1,4) by (simp_all only: linked_def s not_False_eq_True)
  then have l: "last ?all = l" "l \<noteq> v" "l \<notin> set ys" "v \<notin> set ys" "distinct (?all @ [v])"
    unfolding s by auto
  have g: "chain nxt prv h 0 (ys @ [l]) 0" using assms(1) s by (simp add: linked_def)
  then obtain ln where ln: "h l = Some ln" "l \<noteq> 0" using chain_in_store [OF g, of l] chain_nonzero [OF g] by auto
  let ?h1 = "h(l \<mapsto> put_nxt v ln)" and ?h2 = "(h(l \<mapsto> put_nxt v ln))(v \<mapsto> put_prv l n)"
  have a: "append_node nxt put_nxt put_prv h head v = Some ?h2"
    using last_of_chain [of nxt prv h 0 head xs] assms(1,2,3) l(1,2) ln
    by (simp add: append_node_def change_def fetch_def linked_def)
  have "chain nxt prv ?h1 0 (ys @ [l]) v" by (rule set_end [OF g l(3) ln(1)])
  then have "chain nxt prv ?h2 0 (?all @ [v]) 0"
    using s l assms(3,5) by (subst s) (subst chain_append, auto)
  moreover have "same_payload h ?h2"
    using ln assms(2) l(2) by (auto simp: same_payload_def)
  ultimately show ?thesis using a l(5) by (auto simp: linked_def)
qed

text \<open>Unlinking: what is left is the list without it; its own links are those it had.\<close>

lemma unlink_refines:
  assumes "linked nxt prv h head xs" and "v \<in> set xs"
  shows "\<exists>h' n. unlink_node nxt prv put_nxt put_prv h v = Some h' \<and> linked nxt prv h' head (remove1 v xs) \<and>
    same_payload h h' \<and> h v = Some n \<and> h' v = Some n \<and> v \<notin> set (head # remove1 v xs)"
proof -
  obtain as bs where xs: "xs = as @ v # bs" "v \<notin> set as" using assms(2) by (metis split_list_first)
  have d: "distinct ((head # as) @ v # bs)" and g: "chain nxt prv h 0 ((head # as) @ v # bs) 0"
    using assms(1) by (simp_all add: linked_def xs)
  obtain ys p where p: "head # as = ys @ [p]" by (metis append_butlast_last_id list.distinct(1))
  have pd: "distinct (ys @ p # v # bs)" using d p by simp
  have g1: "chain nxt prv h 0 (ys @ [p]) v" and g2: "chain nxt prv h p (v # bs) 0"
    using g chain_append [of nxt prv h 0 "ys @ [p]" "v # bs" 0] by (simp_all only: p) simp_all
  obtain pn vn where pn: "h p = Some pn" "p \<noteq> 0" and vn: "h v = Some vn" "v \<noteq> 0" "prv vn = p" "nxt vn = hd (bs @ [0])"
    using g2 chain_in_store [OF g1, of p] chain_nonzero [OF g1] by auto
  let ?h1 = "h(p \<mapsto> put_nxt (hd (bs @ [0])) pn)"
  have c1: "chain nxt prv ?h1 0 (ys @ [p]) (hd (bs @ [0]))" by (rule set_end [OF g1 _ pn(1)]) (use pd in auto)
  have rm: "remove1 v xs = as @ bs" "v \<notin> set (head # as @ bs)" using xs d by (auto simp: remove1_append)
  show ?thesis
  proof (cases bs)
    case Nil
    have r: "unlink_node nxt prv put_nxt put_prv h v = Some ?h1"
      using pn vn pd Nil by (simp add: unlink_node_def change_def fetch_def)
    have "chain nxt prv ?h1 0 (head # as) 0" using c1 Nil by (simp only: p) simp
    moreover have "same_payload h ?h1" using pn by (auto simp: same_payload_def)
    moreover have "?h1 v = Some vn" using vn pd by auto
    ultimately show ?thesis using r d rm vn Nil by (auto simp: linked_def)
  next
    case (Cons b bs')
    then obtain bn where bn: "h b = Some bn" "b \<noteq> 0" using g2 by auto
    let ?h2 = "?h1(b \<mapsto> put_prv p bn)"
    have ne: "b \<noteq> p" "b \<noteq> v" "p \<noteq> v" using pd Cons by auto
    have r: "unlink_node nxt prv put_nxt put_prv h v = Some ?h2"
      using pn vn bn ne Cons by (simp add: unlink_node_def change_def fetch_def)
    have "chain nxt prv ?h1 v bs 0" using g2 pd by auto
    then have c2: "chain nxt prv ?h2 p bs 0" using set_start [of ?h1 v b bs' 0 bn p] pd bn ne Cons by auto
    have c1': "chain nxt prv ?h2 0 (ys @ [p]) (hd (bs @ [0]))" using c1 pd Cons by (subst chain_upd) auto
    have "chain nxt prv ?h2 0 ((head # as) @ bs) 0"
      using c1' c2 pd by (simp only: p chain_append) auto
    moreover have "same_payload h ?h2" using pn bn ne by (auto simp: same_payload_def)
    moreover have "?h2 v = Some vn" using vn ne by auto
    ultimately show ?thesis using r d rm vn by (auto simp: linked_def)
  qed
qed

end

end
