(* ===== verification/RRL_NodeService.thy ===== *)
theory RRL_NodeService
  imports RRL_Linked RRL_Typed
begin

text \<open>
  The services of a node, src/node.c: definitions of services, services with their objects, and the
  searches by name and by path. Definitions, services and objects are in lists behind a head, each kind
  in a store of its own; the head of the objects of a service is a member of the service and is found
  in the store of objects under the address of the service. A failed \<open>assert\<close> is \<open>None\<close>.
\<close>

record service_definition =
  sd_qualified_name :: const_string
  sd_qualified_name_hash :: u32
  sd_service_definition :: const_string
  sd_imported_qualified_names :: const_string
  sd_prev :: addr
  sd_next :: addr

record service_object =
  so_service_path :: const_string
  so_service_path_hash :: u32
  so_qualified_type :: const_string
  so_implemented_qualified_types :: const_string
  so_prev :: addr
  so_next :: addr
  so_user_storage :: addr
  so_ops :: addr

record service =
  sv_service_name :: const_string
  sv_service_name_hash :: u32
  sv_root_service_object :: addr
  sv_prev :: addr
  sv_next :: addr
  sv_user_storage :: addr
  sv_ops :: addr

record services =
  ss_defs :: "service_definition nodes"
  ss_objects :: "service_object nodes"
  ss_services :: "service nodes"

definition zero_definition :: service_definition where
  "zero_definition = \<lparr>sd_qualified_name = [], sd_qualified_name_hash = 0, sd_service_definition = [],
     sd_imported_qualified_names = [], sd_prev = 0, sd_next = 0\<rparr>"

definition zero_object :: service_object where
  "zero_object = \<lparr>so_service_path = [], so_service_path_hash = 0, so_qualified_type = [],
     so_implemented_qualified_types = [], so_prev = 0, so_next = 0, so_user_storage = 0, so_ops = 0\<rparr>"

definition zero_service :: service where
  "zero_service = \<lparr>sv_service_name = [], sv_service_name_hash = 0, sv_root_service_object = 0, sv_prev = 0,
     sv_next = 0, sv_user_storage = 0, sv_ops = 0\<rparr>"

abbreviation append_definition where
  "append_definition \<equiv> append_node sd_next (\<lambda>a n. n\<lparr>sd_next := a\<rparr>) (\<lambda>a n. n\<lparr>sd_prev := a\<rparr>)"

abbreviation append_object where
  "append_object \<equiv> append_node so_next (\<lambda>a n. n\<lparr>so_next := a\<rparr>) (\<lambda>a n. n\<lparr>so_prev := a\<rparr>)"

abbreviation append_service where
  "append_service \<equiv> append_node sv_next (\<lambda>a n. n\<lparr>sv_next := a\<rparr>) (\<lambda>a n. n\<lparr>sv_prev := a\<rparr>)"

interpretation definition_links: links sd_next sd_prev "\<lambda>a n. n\<lparr>sd_next := a\<rparr>" "\<lambda>a n. n\<lparr>sd_prev := a\<rparr>"
  by unfold_locales simp_all

interpretation object_links: links so_next so_prev "\<lambda>a n. n\<lparr>so_next := a\<rparr>" "\<lambda>a n. n\<lparr>so_prev := a\<rparr>"
  by unfold_locales simp_all

interpretation service_links: links sv_next sv_prev "\<lambda>a n. n\<lparr>sv_next := a\<rparr>" "\<lambda>a n. n\<lparr>sv_prev := a\<rparr>"
  by unfold_locales simp_all


section \<open>Names and paths\<close>

text \<open>
  Splitting at the last dot, looked for from the end. An argument that may be \<open>NULL\<close> is an option; a
  write through \<open>NULL\<close> is \<open>None\<close>. The results are the status and what the two arguments then point to.
\<close>

fun split_loop :: "const_string \<Rightarrow> const_string option \<Rightarrow> const_string option \<Rightarrow> nat
    \<Rightarrow> (status \<times> const_string option \<times> const_string option) option" where
  "split_loop qt service_type service_entry_type 0 = Some (Err INVALID_ARGUMENT, service_type, service_entry_type)"
| "split_loop qt service_type service_entry_type (Suc i) =
     (if qt ! i = 46 then
        (let service_type = map_option (\<lambda>_. take i qt) service_type in
         if service_entry_type \<noteq> None
         then map_option (\<lambda>_. (OK, Some (drop (i + 1) qt), service_entry_type)) service_type
         else Some (OK, service_type, service_entry_type))
      else if i > 1 then split_loop qt service_type service_entry_type i
      else Some (Err INVALID_ARGUMENT, service_type, service_entry_type))"

definition node_split_qualified_type ::
  "const_string \<Rightarrow> const_string option \<Rightarrow> const_string option
     \<Rightarrow> (status \<times> const_string option \<times> const_string option) option" where
  "node_split_qualified_type qualified_type service_type service_entry_type =
     (if length qualified_type < 3 then Some (Err INVALID_ARGUMENT, service_type, service_entry_type)
      else split_loop qualified_type service_type service_entry_type (length qualified_type - 1))"

definition node_is_service_path_prefix :: "const_string \<Rightarrow> const_string \<Rightarrow> bool option" where
  "node_is_service_path_prefix path_prefix service_path =
     (if \<not> length path_prefix > 0 \<or> \<not> length service_path > 0 then None
      else if length service_path < length path_prefix then Some False
      else if length service_path = length path_prefix then Some (mem_cmp service_path path_prefix = 0)
      else Some (mem_cmp (take (length path_prefix) service_path) path_prefix = 0 \<and>
                 service_path ! length path_prefix = 46))"

text \<open>\<open>while (l < len) { if (data[l] == '.') break; l++; }\<close>\<close>

function dot_from :: "const_string \<Rightarrow> nat \<Rightarrow> nat" where
  "dot_from path l = (if l < length path then (if path ! l = 46 then l else dot_from path (l + 1)) else l)"
  by pat_completeness auto
termination by (relation "measure (\<lambda>(path, l). length path - l)") auto

declare dot_from.simps [simp del]


section \<open>Definitions\<close>

definition node_service_definition_list_head_construct :: "services \<Rightarrow> addr \<Rightarrow> services" where
  "node_service_definition_list_head_construct S head = S\<lparr>ss_defs := (ss_defs S)(head \<mapsto> zero_definition)\<rparr>"

definition node_service_definition_construct ::
  "services \<Rightarrow> addr \<Rightarrow> const_string \<Rightarrow> const_string \<Rightarrow> const_string option \<Rightarrow> addr \<Rightarrow> (status \<times> services) option" where
  "node_service_definition_construct S service_def qualified_name_str service_definition_str imported_qualified_names_str
       service_defs_head =
     (let d = zero_definition in
      case string_shallow_copy_to qualified_name_str (sd_qualified_name d) of
        (Err e, s) \<Rightarrow> Some (Err e, S\<lparr>ss_defs := (ss_defs S)(service_def \<mapsto> d\<lparr>sd_qualified_name := s\<rparr>)\<rparr>)
      | (OK, s) \<Rightarrow>
          (let d = d\<lparr>sd_qualified_name := s, sd_qualified_name_hash := string_hash qualified_name_str\<rparr> in
           case string_shallow_copy_to service_definition_str (sd_service_definition d) of
             (Err e, s) \<Rightarrow> Some (Err e, S\<lparr>ss_defs := (ss_defs S)(service_def \<mapsto> d\<lparr>sd_service_definition := s\<rparr>)\<rparr>)
           | (OK, s) \<Rightarrow>
               (let d = d\<lparr>sd_service_definition := s\<rparr> in
                case (case imported_qualified_names_str of
                        None \<Rightarrow> (OK, sd_imported_qualified_names d)
                      | Some i \<Rightarrow> string_shallow_copy_to i (sd_imported_qualified_names d)) of
                  (Err e, s) \<Rightarrow> Some (Err e, S\<lparr>ss_defs := (ss_defs S)(service_def \<mapsto> d\<lparr>sd_imported_qualified_names := s\<rparr>)\<rparr>)
                | (OK, s) \<Rightarrow> do {
                    let h = (ss_defs S)(service_def \<mapsto> d\<lparr>sd_imported_qualified_names := s\<rparr>);
                    h \<leftarrow> (if service_defs_head \<noteq> 0 then append_definition h service_defs_head service_def else Some h);
                    Some (OK, S\<lparr>ss_defs := h\<rparr>) })))"

definition node_service_definition_construct_c_str ::
  "services \<Rightarrow> addr \<Rightarrow> byte list option \<Rightarrow> byte list option \<Rightarrow> byte list option \<Rightarrow> addr \<Rightarrow> (status \<times> services) option" where
  "node_service_definition_construct_c_str S service_def qualified_name_str service_definition_str
       imported_qualified_names_str service_defs_head =
     node_service_definition_construct S service_def (string_from_c_str qualified_name_str)
       (string_from_c_str service_definition_str) (Some (string_from_c_str imported_qualified_names_str)) service_defs_head"

definition node_find_service_definition :: "services \<Rightarrow> addr \<Rightarrow> const_string \<Rightarrow> addr option" where
  "node_find_service_definition S service_defs_head qualified_name_str =
     (if length qualified_name_str = 0 then Some 0
      else do {
        let hash = string_hash qualified_name_str;
        d \<leftarrow> fetch (ss_defs S) service_defs_head;
        find_node sd_next (\<lambda>c. sd_qualified_name_hash c = hash \<and> string_cmp (sd_qualified_name c) qualified_name_str = 0)
          (ss_defs S) (sd_next d) })"

definition node_find_service_definition_for_entry :: "services \<Rightarrow> addr \<Rightarrow> const_string \<Rightarrow> addr option" where
  "node_find_service_definition_for_entry S service_defs_head qualified_entry_name_str = do {
     (rv, name, _) \<leftarrow> node_split_qualified_type qualified_entry_name_str (Some []) None;
     if FAILED rv then Some 0
     else node_find_service_definition S service_defs_head (the name) }"


section \<open>Services and objects\<close>

definition node_service_object_list_head_construct :: "services \<Rightarrow> addr \<Rightarrow> services" where
  "node_service_object_list_head_construct S head = S\<lparr>ss_objects := (ss_objects S)(head \<mapsto> zero_object)\<rparr>"

definition node_service_list_head_construct :: "services \<Rightarrow> addr \<Rightarrow> services" where
  "node_service_list_head_construct S head =
     S\<lparr>ss_services := (ss_services S)(head \<mapsto> zero_service), ss_objects := (ss_objects S)(head \<mapsto> zero_object)\<rparr>"

definition node_service_object_construct ::
  "services \<Rightarrow> addr \<Rightarrow> const_string \<Rightarrow> const_string \<Rightarrow> const_string option \<Rightarrow> addr \<Rightarrow> (status \<times> services) option" where
  "node_service_object_construct S service_object service_path qualified_type implemented_qualified_types service =
     (let b = zero_object in
      case string_shallow_copy_to service_path (so_service_path b) of
        (Err e, s) \<Rightarrow> Some (Err e, S\<lparr>ss_objects := (ss_objects S)(service_object \<mapsto> b\<lparr>so_service_path := s\<rparr>)\<rparr>)
      | (OK, s) \<Rightarrow>
          (let b = b\<lparr>so_service_path := s, so_service_path_hash := string_hash service_path\<rparr> in
           case string_shallow_copy_to qualified_type (so_qualified_type b) of
             (Err e, s) \<Rightarrow> Some (Err e, S\<lparr>ss_objects := (ss_objects S)(service_object \<mapsto> b\<lparr>so_qualified_type := s\<rparr>)\<rparr>)
           | (OK, s) \<Rightarrow>
               (let b = b\<lparr>so_qualified_type := s\<rparr> in
                case (case implemented_qualified_types of
                        None \<Rightarrow> (OK, so_implemented_qualified_types b)
                      | Some i \<Rightarrow> string_shallow_copy_to i (so_implemented_qualified_types b)) of
                  (Err e, s) \<Rightarrow>
                    Some (Err e, S\<lparr>ss_objects := (ss_objects S)(service_object \<mapsto> b\<lparr>so_implemented_qualified_types := s\<rparr>)\<rparr>)
                | (OK, s) \<Rightarrow> do {
                    let h = (ss_objects S)(service_object \<mapsto> b\<lparr>so_implemented_qualified_types := s\<rparr>);
                    h \<leftarrow> (if service \<noteq> 0 then append_object h service service_object else Some h);
                    Some (OK, S\<lparr>ss_objects := h\<rparr>) })))"

definition node_service_object_construct_c_str ::
  "services \<Rightarrow> addr \<Rightarrow> byte list option \<Rightarrow> byte list option \<Rightarrow> byte list option \<Rightarrow> addr \<Rightarrow> (status \<times> services) option" where
  "node_service_object_construct_c_str S service_object service_path qualified_type implemented_qualified_types service =
     node_service_object_construct S service_object (string_from_c_str service_path) (string_from_c_str qualified_type)
       (Some (string_from_c_str implemented_qualified_types)) service"

definition node_service_construct :: "services \<Rightarrow> addr \<Rightarrow> const_string \<Rightarrow> addr \<Rightarrow> (status \<times> services) option" where
  "node_service_construct S service service_name services_head =
     (let S = S\<lparr>ss_objects := (ss_objects S)(service \<mapsto> zero_object)\<rparr>;
          s = zero_service
      in case string_shallow_copy_to service_name (sv_service_name s) of
           (Err e, n) \<Rightarrow> Some (Err e, S\<lparr>ss_services := (ss_services S)(service \<mapsto> s\<lparr>sv_service_name := n\<rparr>)\<rparr>)
         | (OK, n) \<Rightarrow> do {
             let h = (ss_services S)(service \<mapsto> s\<lparr>sv_service_name := n, sv_service_name_hash := string_hash service_name\<rparr>);
             h \<leftarrow> (if services_head \<noteq> 0 then append_service h services_head service else Some h);
             Some (OK, S\<lparr>ss_services := h\<rparr>) })"

definition node_service_construct_c_str :: "services \<Rightarrow> addr \<Rightarrow> byte list option \<Rightarrow> addr \<Rightarrow> (status \<times> services) option" where
  "node_service_construct_c_str S service service_name services_head =
     node_service_construct S service (string_from_c_str service_name) services_head"

definition node_service_set_root_object :: "services \<Rightarrow> addr \<Rightarrow> addr \<Rightarrow> (status \<times> services) option" where
  "node_service_set_root_object S service service_object = do {
     s \<leftarrow> fetch (ss_services S) service;
     hd \<leftarrow> fetch (ss_objects S) service;
     if so_next hd \<noteq> 0 \<or> sv_root_service_object s \<noteq> 0 then Some (Err INVALID_OPERATION, S)
     else do {
       b \<leftarrow> fetch (ss_objects S) service_object;
       if string_cmp (sv_service_name s) (so_service_path b) \<noteq> 0 then Some (Err INVALID_ARGUMENT, S)
       else do {
         h \<leftarrow> change service (\<lambda>n. n\<lparr>so_next := service_object\<rparr>) (ss_objects S);
         h \<leftarrow> change service_object (\<lambda>n. n\<lparr>so_prev := service\<rparr>) h;
         Some (OK, S\<lparr>ss_objects := h,
                     ss_services := (ss_services S)(service \<mapsto> s\<lparr>sv_root_service_object := service_object\<rparr>)\<rparr>) } } }"

text \<open>The loop looks for an object of the same path, and ends at the last object.\<close>

partial_function (option) duplicate_from :: "const_string \<Rightarrow> service_object nodes \<Rightarrow> addr \<Rightarrow> addr \<Rightarrow> (error + addr) option" where
  "duplicate_from path h c c_last =
     (if c = 0 then Some (Inr c_last)
      else do {
        n \<leftarrow> fetch h c;
        if string_cmp path (so_service_path n) = 0 then Some (Inl INVALID_ARGUMENT)
        else duplicate_from path h (so_next n) c })"

definition node_service_add_service_object :: "services \<Rightarrow> addr \<Rightarrow> addr \<Rightarrow> (status \<times> services) option" where
  "node_service_add_service_object S service service_object = do {
     s \<leftarrow> fetch (ss_services S) service;
     hd \<leftarrow> fetch (ss_objects S) service;
     if so_next hd = 0 \<or> sv_root_service_object s = 0 then Some (Err INVALID_OPERATION, S)
     else do {
       b \<leftarrow> fetch (ss_objects S) service_object;
       prefix \<leftarrow> node_is_service_path_prefix (sv_service_name s) (so_service_path b);
       if \<not> prefix then Some (Err INVALID_ARGUMENT, S)
       else do {
         r \<leftarrow> duplicate_from (so_service_path b) (ss_objects S) (so_next hd) (so_next hd);
         (case r of
            Inl e \<Rightarrow> Some (Err e, S)
          | Inr c_last \<Rightarrow> do {
              h \<leftarrow> change c_last (\<lambda>n. n\<lparr>so_next := service_object\<rparr>) (ss_objects S);
              h \<leftarrow> change service_object (\<lambda>n. n\<lparr>so_prev := c_last\<rparr>) h;
              Some (OK, S\<lparr>ss_objects := h\<rparr>) }) } } }"

text \<open>The \<open>do\<close> loop that looks for the object before \<open>service_object\<close>.\<close>

partial_function (option) in_objects_from :: "addr \<Rightarrow> service_object nodes \<Rightarrow> addr \<Rightarrow> bool option" where
  "in_objects_from service_object h c = do {
     n \<leftarrow> fetch h c;
     if so_next n = service_object then Some True
     else if so_next n = 0 then Some False
     else in_objects_from service_object h (so_next n) }"

definition node_service_remove_service_object :: "services \<Rightarrow> addr \<Rightarrow> addr \<Rightarrow> (status \<times> services) option" where
  "node_service_remove_service_object S service service_object = do {
     s \<leftarrow> fetch (ss_services S) service;
     b \<leftarrow> fetch (ss_objects S) service_object;
     hd \<leftarrow> fetch (ss_objects S) service;
     if so_prev b = 0 then None
     else if so_next hd = service_object \<or> sv_root_service_object s = service_object then Some (Err INVALID_OPERATION, S)
     else do {
       found \<leftarrow> in_objects_from service_object (ss_objects S) service;
       if \<not> found then Some (Err INVALID_OPERATION, S)
       else do {
         h \<leftarrow> change (so_prev b) (\<lambda>n. n\<lparr>so_next := so_next b\<rparr>) (ss_objects S);
         h \<leftarrow> (if so_next b \<noteq> 0 then change (so_next b) (\<lambda>n. n\<lparr>so_prev := so_prev b\<rparr>) h else Some h);
         Some (OK, S\<lparr>ss_objects := h\<rparr>) } } }"

definition node_find_service_for_path :: "services \<Rightarrow> addr \<Rightarrow> const_string \<Rightarrow> addr option" where
  "node_find_service_for_path S services_head service_path =
     (if length service_path = 0 then Some 0
      else do {
        let l = dot_from service_path 1;
        let service_path_prefix = (if l < length service_path then take l service_path else service_path);
        let hash = string_hash service_path_prefix;
        s \<leftarrow> fetch (ss_services S) services_head;
        find_node sv_next (\<lambda>c. sv_service_name_hash c = hash \<and> string_cmp (sv_service_name c) service_path_prefix = 0)
          (ss_services S) (sv_next s) })"

definition node_find_service_object_for_path :: "services \<Rightarrow> addr \<Rightarrow> const_string \<Rightarrow> addr option" where
  "node_find_service_object_for_path S service_objects_head service_path =
     (if length service_path = 0 then Some 0
      else do {
        let hash = string_hash service_path;
        b \<leftarrow> fetch (ss_objects S) service_objects_head;
        find_node so_next (\<lambda>c. so_service_path_hash c = hash \<and> string_cmp (so_service_path c) service_path = 0)
          (ss_objects S) (so_next b) })"

definition node_service_set_ops :: "services \<Rightarrow> addr \<Rightarrow> addr \<Rightarrow> (status \<times> services) option" where
  "node_service_set_ops S service ops = do {
     h \<leftarrow> change service (\<lambda>s. s\<lparr>sv_ops := ops\<rparr>) (ss_services S);
     Some (OK, S\<lparr>ss_services := h\<rparr>) }"

definition node_service_object_set_ops :: "services \<Rightarrow> addr \<Rightarrow> addr \<Rightarrow> (status \<times> services) option" where
  "node_service_object_set_ops S service_object ops = do {
     h \<leftarrow> change service_object (\<lambda>s. s\<lparr>so_ops := ops\<rparr>) (ss_objects S);
     Some (OK, S\<lparr>ss_objects := h\<rparr>) }"

end
