(* ===== verification/RRL_ServiceSpec.thy ===== *)
theory RRL_ServiceSpec
  imports RRL_NodeService
begin

text \<open>
  The services of a node as maps: the objects of a service by their paths, the services by the first
  part of a path, what adding and removing an object do to them, and what becomes of an object that is
  removed and added again.
\<close>


section \<open>Names and paths\<close>

text \<open>A path that is the name itself or goes on behind it with a dot.\<close>

definition path_below :: "const_string \<Rightarrow> const_string \<Rightarrow> bool" where
  "path_below name path \<longleftrightarrow> path = name \<or> (\<exists>rest. path = name @ 46 # rest)"

lemma is_prefix_below:
  assumes "name \<noteq> []" and "path \<noteq> []"
  shows "node_is_service_path_prefix name path = Some (path_below name path)"
proof -
  consider (short) "length path < length name" | (same) "length path = length name" | (long) "length name < length path"
    by linarith
  then show ?thesis
  proof cases
    case short
    then show ?thesis using assms by (auto simp: node_is_service_path_prefix_def path_below_def)
  next
    case same
    then show ?thesis using assms by (auto simp: node_is_service_path_prefix_def path_below_def mem_cmp_eq)
  next
    case long
    have "take (length name) path = name \<and> path ! length name = 46 \<longleftrightarrow> path_below name path"
    proof
      assume a: "take (length name) path = name \<and> path ! length name = 46"
      then have "path = name @ 46 # drop (Suc (length name)) path"
        using long by (metis Cons_nth_drop_Suc append_take_drop_id)
      then show "path_below name path" unfolding path_below_def by blast
    qed (use long in \<open>auto simp: path_below_def\<close>)
    then show ?thesis using long assms by (simp add: node_is_service_path_prefix_def mem_cmp_eq)
  qed
qed

text \<open>The part of a path before its first dot, which is looked for from the second character on.\<close>

definition first_part :: "const_string \<Rightarrow> const_string" where
  "first_part path = take 1 path @ takeWhile (\<lambda>c. c \<noteq> 46) (drop 1 path)"

lemma dot_from_spec: "l \<le> length path \<Longrightarrow> dot_from path l = l + length (takeWhile (\<lambda>c. c \<noteq> 46) (drop l path))"
proof (induction path l rule: dot_from.induct)
  case (1 path l)
  show ?case
  proof (cases "l < length path")
    case True
    then have d: "drop l path = path ! l # drop (Suc l) path" by (simp add: Cons_nth_drop_Suc)
    then show ?thesis using 1 True by (subst dot_from.simps) simp
  next
    case False
    then show ?thesis using 1(2) by (subst dot_from.simps) simp
  qed
qed

lemma first_part_taken:
  assumes "path \<noteq> []"
  shows "(if dot_from path 1 < length path then take (dot_from path 1) path else path) = first_part path"
proof -
  obtain c cs where path: "path = c # cs" using assms by (cases path) auto
  have d: "dot_from path 1 = Suc (length (takeWhile (\<lambda>c. c \<noteq> 46) cs))"
    using dot_from_spec [of 1 path] path by simp
  have "take (length (takeWhile (\<lambda>c. c \<noteq> 46) cs)) cs = takeWhile (\<lambda>c. c \<noteq> 46) cs"
    by (rule takeWhile_eq_take [symmetric])
  moreover have "cs = takeWhile (\<lambda>c. c \<noteq> 46) cs" if "\<not> length (takeWhile (\<lambda>c. c \<noteq> 46) cs) < length cs"
    using that by (metis append_eq_conv_conj calculation linorder_not_less take_all_iff)
  moreover have "dot_from (c # cs) (Suc 0) = Suc (length (takeWhile (\<lambda>c. c \<noteq> 46) cs))" using d path by simp
  ultimately show ?thesis unfolding path first_part_def
    by (cases "length (takeWhile (\<lambda>c. c \<noteq> 46) cs) < length cs") (simp_all del: takeWhile_eq_all_conv)
qed

text \<open>A qualified name is split at its last dot.\<close>

lemma split_loop_at:
  assumes "46 \<notin> set (take (n - 1 - length pre) (drop (Suc (length pre)) qt))" and "qt ! length pre = 46"
    and "pre = take (length pre) qt" and "pre \<noteq> []" and "length pre < n" and "n \<le> length qt"
  shows "split_loop qt st se n =
    (if se \<noteq> None then map_option (\<lambda>_. (OK, Some (drop (length pre + 1) qt), se)) st
     else Some (OK, map_option (\<lambda>_. pre) st, se))"
  using assms
proof (induction n)
  case (Suc n)
  show ?case
  proof (cases "n = length pre")
    case True
    then show ?thesis using Suc.prems(2,3) by (cases st) auto
  next
    case False
    then have lt: "length pre < n" and n1: "1 < n" using Suc.prems(4,5) by (cases pre; auto)+
    have nth: "qt ! n = take (Suc n - 1 - length pre) (drop (Suc (length pre)) qt) ! (n - 1 - length pre)"
      using lt Suc.prems(6) by simp
    have "qt ! n \<in> set (take (Suc n - 1 - length pre) (drop (Suc (length pre)) qt))"
      unfolding nth using lt Suc.prems(6) by (intro nth_mem) simp
    then have "qt ! n \<noteq> 46" using Suc.prems(1) by metis
    moreover have "46 \<notin> set (take (n - 1 - length pre) (drop (Suc (length pre)) qt))"
      using Suc.prems(1) set_take_subset_set_take [of "n - 1 - length pre" "Suc n - 1 - length pre"] by fastforce
    ultimately show ?thesis using Suc.IH [OF _ Suc.prems(2,3,4) lt] Suc.prems(6) n1 by simp
  qed
qed simp

lemma split_qualified:
  assumes "pre \<noteq> []" and "post \<noteq> []" and "46 \<notin> set post"
  shows "node_split_qualified_type (pre @ 46 # post) st se =
    (if se \<noteq> None then map_option (\<lambda>_. (OK, Some post, se)) st else Some (OK, map_option (\<lambda>_. pre) st, None))"
proof -
  have l: "\<not> length (pre @ 46 # post) < 3" using assms(1,2) by (cases pre; cases post) auto
  have "46 \<notin> set (take m post)" for m using assms(3) by (meson in_set_takeD)
  then show ?thesis unfolding node_split_qualified_type_def
    using l by (simp add: split_loop_at [of _ pre] assms)
qed


section \<open>The objects of a service as a map\<close>

definition path_of :: "service_object nodes \<Rightarrow> addr \<Rightarrow> const_string" where
  "path_of h a = (case h a of Some b \<Rightarrow> so_service_path b | None \<Rightarrow> [])"

text \<open>The objects \<open>objs\<close> behind the head \<open>svc\<close>: each with a path, the path's hash, no path twice.\<close>

definition objects_ok :: "service_object nodes \<Rightarrow> addr \<Rightarrow> addr list \<Rightarrow> bool" where
  "objects_ok h svc objs \<longleftrightarrow> linked so_next so_prev h svc objs \<and>
     (\<forall>a\<in>set objs. \<exists>b. h a = Some b \<and> so_service_path_hash b = string_hash (so_service_path b) \<and> so_service_path b \<noteq> []) \<and>
     distinct (map (path_of h) objs)"

definition object_map :: "service_object nodes \<Rightarrow> addr list \<Rightarrow> const_string \<Rightarrow> addr option" where
  "object_map h objs = map_of (map (\<lambda>a. (path_of h a, a)) objs)"

text \<open>What C returns for a lookup: the address, or \<open>NULL\<close>.\<close>

definition pointer :: "addr option \<Rightarrow> addr" where
  "pointer r = (case r of None \<Rightarrow> 0 | Some a \<Rightarrow> a)"

lemma first_of_key:
  "(\<And>a. a \<in> set xs \<Longrightarrow> Q a \<longleftrightarrow> key a = k) \<Longrightarrow>
     hd (filter Q xs @ [0]) = pointer (map_of (map (\<lambda>a. (key a, a)) xs) k)"
  by (induction xs) (auto simp: pointer_def)

lemma chain_next_nodes:
  assumes "linked nxt prv h head xs"
  obtains n where "fetch h head = Some n" "head \<noteq> 0" "nxt n = hd (xs @ [0])"
  using assms by (cases xs) (auto simp: linked_def fetch_def)

lemma find_object:
  assumes "objects_ok (ss_objects S) svc objs"
  shows "node_find_service_object_for_path S svc path = Some (pointer (object_map (ss_objects S) objs path))"
proof -
  let ?h = "ss_objects S"
  have l: "linked so_next so_prev ?h svc objs" using assms by (simp add: objects_ok_def)
  then obtain n where n: "fetch ?h svc = Some n" "?h svc = Some n" by (auto simp: linked_def fetch_def)
  have k: "(\<exists>n. ?h a = Some n \<and> so_service_path_hash n = string_hash path \<and> string_cmp (so_service_path n) path = 0)
      \<longleftrightarrow> path_of ?h a = path" if "a \<in> set objs" for a
    using assms that by (fastforce simp: objects_ok_def path_of_def string_cmp_eq)
  show ?thesis
  proof (cases "path = []")
    case True
    have "path \<notin> path_of ?h ` set objs" using assms True by (force simp: objects_ok_def path_of_def)
    then have "object_map ?h objs path = None"
      unfolding object_map_def by (auto simp: map_of_eq_None_iff)
    then show ?thesis using True by (simp add: node_find_service_object_for_path_def pointer_def)
  next
    case False
    then show ?thesis using n find_nodes [OF l n(2)] first_of_key [of objs _ "path_of ?h" path, OF k]
      by (simp add: node_find_service_object_for_path_def object_map_def)
  qed
qed


section \<open>Adding and removing objects\<close>

definition service_ok :: "services \<Rightarrow> addr \<Rightarrow> addr list \<Rightarrow> bool" where
  "service_ok S svc objs \<longleftrightarrow> objects_ok (ss_objects S) svc objs \<and> objs \<noteq> [] \<and>
     (\<exists>s. ss_services S svc = Some s \<and> sv_root_service_object s = hd objs \<and> sv_service_name s \<noteq> [] \<and>
          path_of (ss_objects S) (hd objs) = sv_service_name s \<and>
          (\<forall>a\<in>set objs. path_below (sv_service_name s) (path_of (ss_objects S) a)))"

definition service_name :: "services \<Rightarrow> addr \<Rightarrow> const_string" where
  "service_name S svc = (case ss_services S svc of Some s \<Rightarrow> sv_service_name s | None \<Rightarrow> [])"

lemma same_payload_object:
  assumes "object_links.same_payload h h'"
  shows "path_of h' = path_of h"
    and "h a = Some b \<Longrightarrow> \<exists>b'. h' a = Some b' \<and> so_service_path b' = so_service_path b \<and>
           so_service_path_hash b' = so_service_path_hash b"
proof -
  have e: "map_option object_links.payload (h' a) = map_option object_links.payload (h a)" for a
    using assms by (simp add: object_links.same_payload_def)
  have p: "\<And>b. so_service_path (object_links.payload b) = so_service_path b"
      "\<And>b. so_service_path_hash (object_links.payload b) = so_service_path_hash b"
    by (simp_all add: object_links.payload_def)
  have both: "\<exists>b'. h' a = Some b' \<and> so_service_path b' = so_service_path b \<and>
           so_service_path_hash b' = so_service_path_hash b" if b: "h a = Some b" for a b
  proof -
    obtain b' where b': "h' a = Some b'" "object_links.payload b' = object_links.payload b"
      using e [of a] b by (cases "h' a") auto
    have "so_service_path b' = so_service_path b" using p(1) [of b'] p(1) [of b] b'(2) by simp
    moreover have "so_service_path_hash b' = so_service_path_hash b" using p(2) [of b'] p(2) [of b] b'(2) by simp
    ultimately show ?thesis using b'(1) by blast
  qed
  then show "h a = Some b \<Longrightarrow> \<exists>b'. h' a = Some b' \<and> so_service_path b' = so_service_path b \<and>
           so_service_path_hash b' = so_service_path_hash b" .
  show "path_of h' = path_of h"
  proof
    show "path_of h' a = path_of h a" for a
    proof (cases "h a")
      case None
      then show ?thesis using e [of a] by (simp add: path_of_def)
    next
      case (Some b)
      then show ?thesis using both [OF Some] by (auto simp: path_of_def)
    qed
  qed
qed

lemma duplicate_chain:
  "chain so_next so_prev h p xs 0 \<Longrightarrow> duplicate_from path h (hd (xs @ [0])) l =
     Some (if path \<in> path_of h ` set xs then Inl INVALID_ARGUMENT else Inr (last (l # xs)))"
proof (induction xs arbitrary: p l)
  case Nil
  show ?case by (subst duplicate_from.simps) simp
next
  case (Cons x xs)
  then show ?case by (subst duplicate_from.simps) (auto simp: fetch_def string_cmp_eq path_of_def)
qed

lemma object_map_same: "path_of h' = path_of h \<Longrightarrow> object_map h' xs = object_map h xs"
  by (simp add: object_map_def)

lemma object_map_none: "object_map h xs p = None \<longleftrightarrow> p \<notin> path_of h ` set xs"
  by (induction xs) (auto simp: object_map_def)

lemma object_map_append:
  "path_of h v \<notin> path_of h ` set xs \<Longrightarrow> object_map h (xs @ [v]) = (object_map h xs)(path_of h v \<mapsto> v)"
  by (induction xs) (auto simp: object_map_def fun_eq_iff)

lemma object_map_remove:
  "distinct (map (path_of h) xs) \<Longrightarrow> v \<in> set xs \<Longrightarrow>
     object_map h (remove1 v xs) = (object_map h xs)(path_of h v := None)"
proof (induction xs)
  case (Cons x xs)
  show ?case
  proof (cases "x = v")
    case True
    then have "object_map h xs (path_of h v) = None" using Cons.prems by (simp add: object_map_none)
    then show ?thesis using True by (auto simp: object_map_def fun_eq_iff)
  next
    case False
    then have "path_of h x \<noteq> path_of h v" using Cons.prems by (metis distinct.simps(2) image_eqI list.set_map list.simps(9) set_ConsD)
    then show ?thesis using False Cons by (auto simp: object_map_def fun_eq_iff)
  qed
qed simp

lemma objects_ok_same:
  assumes "objects_ok h svc objs" and "object_links.same_payload h h'" and "linked so_next so_prev h' svc objs'"
    and "set objs' \<subseteq> insert v (set objs)" and "distinct (map (path_of h) objs')"
    and "v \<in> set objs' - set objs \<Longrightarrow> \<exists>b. h v = Some b \<and> so_service_path_hash b = string_hash (so_service_path b) \<and> so_service_path b \<noteq> []"
  shows "objects_ok h' svc objs'"
proof -
  have "\<exists>b. h' a = Some b \<and> so_service_path_hash b = string_hash (so_service_path b) \<and> so_service_path b \<noteq> []"
    if "a \<in> set objs'" for a
  proof -
    have "\<exists>b. h a = Some b \<and> so_service_path_hash b = string_hash (so_service_path b) \<and> so_service_path b \<noteq> []"
      using that assms(1,4,6) unfolding objects_ok_def by blast
    then show ?thesis using same_payload_object(2) [OF assms(2), of a] by metis
  qed
  then show ?thesis using assms(3,5) same_payload_object(1) [OF assms(2)] by (simp add: objects_ok_def)
qed

text \<open>Adding: refused with the state as it was, or the object is behind the others and found by its path.\<close>

definition accepts :: "services \<Rightarrow> addr \<Rightarrow> addr list \<Rightarrow> const_string \<Rightarrow> bool" where
  "accepts S svc objs path \<longleftrightarrow> path_below (service_name S svc) path \<and> object_map (ss_objects S) objs path = None"

definition free_object :: "service_object nodes \<Rightarrow> addr \<Rightarrow> const_string \<Rightarrow> bool" where
  "free_object h v path \<longleftrightarrow> v \<noteq> 0 \<and> (\<exists>b. h v = Some b \<and> so_service_path b = path \<and> so_next b = 0 \<and>
     so_service_path_hash b = string_hash path \<and> path \<noteq> [])"

lemma add_service_object_eq:
  assumes "service_ok S svc objs" and "ss_objects S v = Some b" and "v \<noteq> 0" and "so_service_path b \<noteq> []"
  shows "node_service_add_service_object S svc v =
    (if accepts S svc objs (so_service_path b)
     then do { h \<leftarrow> append_object (ss_objects S) svc v; Some (OK, S\<lparr>ss_objects := h\<rparr>) }
     else Some (Err INVALID_ARGUMENT, S))"
proof -
  let ?h = "ss_objects S"
  obtain s where s: "ss_services S svc = Some s" "sv_root_service_object s = hd objs" "sv_service_name s \<noteq> []"
    and l: "linked so_next so_prev ?h svc objs" and ne: "objs \<noteq> []"
    using assms(1) unfolding service_ok_def objects_ok_def by blast
  obtain n where n: "fetch ?h svc = Some n" "svc \<noteq> 0" "so_next n = hd (objs @ [0])" by (rule chain_next_nodes [OF l])
  have c: "chain so_next so_prev ?h svc objs 0" using l n by (simp add: linked_def)
  have nz: "hd objs \<noteq> 0" using chain_nonzero [OF c] ne by (cases objs) auto
  have last: "last_of so_next ?h svc = Some (last objs)"
    using l ne last_of_chain [of so_next so_prev ?h 0 svc objs] by (simp add: linked_def)
  have dup: "duplicate_from path ?h (hd objs) (hd objs) =
      Some (if path \<in> path_of ?h ` set objs then Inl INVALID_ARGUMENT else Inr (last objs))" for path
    using duplicate_chain [OF c, of path "hd objs"] ne by (cases objs) auto
  show ?thesis
    using s n nz ne assms(2,3) is_prefix_below [OF s(3) assms(4)] last
    by (simp add: node_service_add_service_object_def fetch_def dup append_node_def accepts_def service_name_def object_map_none)
qed

lemma add_object:
  assumes "service_ok S svc objs" and "free_object (ss_objects S) v path" and "v \<notin> set (svc # objs)"
  shows "\<exists>S'. node_service_add_service_object S svc v =
             Some (if accepts S svc objs path then OK else Err INVALID_ARGUMENT, S') \<and>
           (if accepts S svc objs path
            then service_ok S' svc (objs @ [v]) \<and>
                 object_map (ss_objects S') (objs @ [v]) = (object_map (ss_objects S) objs)(path \<mapsto> v)
            else S' = S)"
proof -
  let ?h = "ss_objects S"
  obtain b where b: "?h v = Some b" "v \<noteq> 0" "so_service_path b = path" "so_next b = 0"
      "so_service_path_hash b = string_hash path" "path \<noteq> []"
    using assms(2) unfolding free_object_def by blast
  obtain s where s: "ss_services S svc = Some s" "sv_root_service_object s = hd objs" "sv_service_name s \<noteq> []"
      "path_of ?h (hd objs) = sv_service_name s" "\<forall>a\<in>set objs. path_below (sv_service_name s) (path_of ?h a)"
    and ob: "objects_ok ?h svc objs" and ne: "objs \<noteq> []"
    using assms(1) unfolding service_ok_def by blast
  have l: "linked so_next so_prev ?h svc objs" using ob by (simp add: objects_ok_def)
  have add: "node_service_add_service_object S svc v =
    (if accepts S svc objs path then do { h \<leftarrow> append_object ?h svc v; Some (OK, S\<lparr>ss_objects := h\<rparr>) }
     else Some (Err INVALID_ARGUMENT, S))"
    using add_service_object_eq [OF assms(1) b(1,2)] b(3,6) by simp
  show ?thesis
  proof (cases "accepts S svc objs path")
    case False
    then show ?thesis by (simp add: add)
  next
    case True
    then have t: "path_below (sv_service_name s) path" "path \<notin> path_of ?h ` set objs"
      using s(1) by (simp_all add: accepts_def service_name_def object_map_none)
    obtain h' where h': "append_object ?h svc v = Some h'" "linked so_next so_prev h' svc (objs @ [v])"
        "object_links.same_payload ?h h'"
      using object_links.append_refines [OF l b(1,2) assms(3) b(4)] by blast
    have p: "path_of h' = path_of ?h" by (rule same_payload_object(1) [OF h'(3)])
    have pv: "path_of ?h v = path" using b by (simp add: path_of_def)
    have "objects_ok h' svc (objs @ [v])"
      by (rule objects_ok_same [OF ob h'(3,2), of v]) (use ob t(2) pv b in \<open>auto simp: objects_ok_def\<close>)
    then have "service_ok (S\<lparr>ss_objects := h'\<rparr>) svc (objs @ [v])"
      using s ne t(1) pv p by (auto simp: service_ok_def)
    moreover have "object_map h' (objs @ [v]) = (object_map ?h objs)(path \<mapsto> v)"
      using object_map_append [of ?h v objs] t(2) pv object_map_same [OF p] by simp
    ultimately show ?thesis using True h'(1) by (simp add: add)
  qed
qed

text \<open>Removing: every object but the root; an object that is not in the list is refused.\<close>

lemma in_objects_chain:
  "chain so_next so_prev h p (x # xs) 0 \<Longrightarrow> v \<noteq> 0 \<Longrightarrow> in_objects_from v h x = Some (v \<in> set xs)"
proof (induction xs arbitrary: p x)
  case Nil
  then show ?case by (subst in_objects_from.simps) (auto simp: fetch_def)
next
  case (Cons y ys)
  then show ?case by (subst in_objects_from.simps) (auto simp: fetch_def)
qed

lemma chain_prev_other:
  assumes "linked nxt prv h head xs" and "v \<in> set xs" and "h v = Some n"
  shows "prv n \<noteq> 0" and "prv n \<noteq> v"
proof -
  obtain as bs where xs: "xs = as @ v # bs" "v \<notin> set as" using assms(2) by (metis split_list_first)
  have g: "chain nxt prv h 0 ((head # as) @ v # bs) 0" and d: "distinct ((head # as) @ v # bs)"
    using assms(1) by (simp_all add: linked_def xs)
  have "prv n = last (head # as)" using g assms(3) by (simp only: chain_append) auto
  moreover have "last (head # as) \<in> set (head # as)" by (rule last_in_set) simp
  moreover have "0 \<notin> set (head # as)" using chain_nonzero [OF g] by simp
  moreover have "v \<notin> set (head # as)" using d by auto
  ultimately show "prv n \<noteq> 0" "prv n \<noteq> v" by metis+
qed

definition removes :: "addr list \<Rightarrow> addr \<Rightarrow> bool" where
  "removes objs v \<longleftrightarrow> v \<in> set objs \<and> v \<noteq> hd objs"

lemma remove_object:
  assumes "service_ok S svc objs" and "ss_objects S v = Some b" and "v \<noteq> 0" and "v \<notin> set objs \<Longrightarrow> so_prev b \<noteq> 0"
  shows "\<exists>S'. node_service_remove_service_object S svc v =
             Some (if removes objs v then OK else Err INVALID_OPERATION, S') \<and>
           (if removes objs v
            then service_ok S' svc (remove1 v objs) \<and> ss_services S' = ss_services S \<and> ss_objects S' v = Some b \<and>
                 path_of (ss_objects S') = path_of (ss_objects S) \<and>
                 object_map (ss_objects S') (remove1 v objs) = (object_map (ss_objects S) objs)(so_service_path b := None)
            else S' = S)"
proof -
  let ?h = "ss_objects S"
  obtain s where s: "ss_services S svc = Some s" "sv_root_service_object s = hd objs" "sv_service_name s \<noteq> []"
      "path_of ?h (hd objs) = sv_service_name s" "\<forall>a\<in>set objs. path_below (sv_service_name s) (path_of ?h a)"
    and ob: "objects_ok ?h svc objs" and ne: "objs \<noteq> []"
    using assms(1) unfolding service_ok_def by blast
  have l: "linked so_next so_prev ?h svc objs" using ob by (simp add: objects_ok_def)
  obtain n where n: "fetch ?h svc = Some n" "svc \<noteq> 0" "so_next n = hd (objs @ [0])" by (rule chain_next_nodes [OF l])
  have found: "in_objects_from v ?h svc = Some (v \<in> set objs)"
    using in_objects_chain [of ?h 0 svc objs v] l assms(3) by (simp add: linked_def)
  have pb: "so_prev b \<noteq> 0" using assms(2,4) chain_prev_other(1) [OF l _ assms(2)] by blast
  show ?thesis
  proof (cases "removes objs v")
    case False
    have "node_service_remove_service_object S svc v = Some (Err INVALID_OPERATION, S)"
      using False s n ne assms(2,3) pb found
      by (auto simp: node_service_remove_service_object_def fetch_def removes_def)
    then show ?thesis using False by simp
  next
    case True
    then have v: "v \<in> set objs" "v \<noteq> hd objs" by (simp_all add: removes_def)
    have pv: "so_prev b \<noteq> v" by (rule chain_prev_other(2) [OF l v(1) assms(2)])
    have eq: "node_service_remove_service_object S svc v =
        do { h \<leftarrow> unlink_node so_next so_prev (\<lambda>a n. n\<lparr>so_next := a\<rparr>) (\<lambda>a n. n\<lparr>so_prev := a\<rparr>) ?h v;
             Some (OK, S\<lparr>ss_objects := h\<rparr>) }"
      using v s n ne assms(2,3) pb pv found
      by (auto simp: node_service_remove_service_object_def unlink_node_def fetch_def change_def split: Option.bind_splits)
    obtain h' where h': "unlink_node so_next so_prev (\<lambda>a n. n\<lparr>so_next := a\<rparr>) (\<lambda>a n. n\<lparr>so_prev := a\<rparr>) ?h v = Some h'"
        "linked so_next so_prev h' svc (remove1 v objs)" "object_links.same_payload ?h h'" "h' v = Some b"
      using object_links.unlink_refines [OF l v(1)] assms(2) by (metis option.inject)
    have p: "path_of h' = path_of ?h" by (rule same_payload_object(1) [OF h'(3)])
    have d: "distinct (map (path_of ?h) objs)" using ob by (simp add: objects_ok_def)
    have sub: "set (remove1 v objs) \<subseteq> set objs" by (rule set_remove1_subset)
    have hd: "hd (remove1 v objs) = hd objs" "remove1 v objs \<noteq> []" using v by (cases objs; auto)+
    have "objects_ok h' svc (remove1 v objs)"
    proof (rule objects_ok_same [OF ob h'(3,2), of v])
      show "distinct (map (path_of ?h) (remove1 v objs))"
        using d sub by (auto simp: distinct_map intro: inj_on_subset)
    qed (use sub in auto)
    then have "service_ok (S\<lparr>ss_objects := h'\<rparr>) svc (remove1 v objs)"
      using s hd sub p by (auto simp: service_ok_def)
    moreover have "object_map h' (remove1 v objs) = (object_map ?h objs)(so_service_path b := None)"
      using object_map_remove [OF d v(1)] object_map_same [OF p] assms(2) by (simp add: path_of_def)
    ultimately show ?thesis using True h'(1,4) p by (simp add: eq)
  qed
qed


section \<open>An object that is removed and added again\<close>

text \<open>
  Removing an object does not reset its link to the next one, and adding an object does not either. When
  an object that had one behind it is added again the list is a cycle, and looking for a path that no object
  has does not end.
\<close>

lemma find_in_cycle:
  assumes "find_node nxt P h c = Some r" and "c \<in> A"
    and "\<And>a. a \<in> A \<Longrightarrow> a \<noteq> 0 \<and> (\<exists>n. h a = Some n \<and> \<not> P n \<and> nxt n \<in> A)"
  shows False
proof -
  have "c \<notin> A"
  proof (rule find_node.raw_induct [where Pa = "\<lambda>(((nxt', P'), h'), c) r. nxt' = nxt \<and> P' = P \<and> h' = h \<longrightarrow> c \<notin> A", OF _ assms(1), simplified])
    fix f nxt' P' h' and c r :: nat
    assume IH: "\<And>nxt'' P'' h'' b y. f nxt'' P'' h'' b = Some y \<Longrightarrow> nxt'' = nxt \<and> P'' = P \<and> h'' = h \<longrightarrow> b \<notin> A"
      and e: "(if c = 0 then Some 0 else fetch h' c \<bind> (\<lambda>n. if P' n then Some c else f nxt' P' h' (nxt' n))) = Some r"
    show "nxt' = nxt \<and> P' = P \<and> h' = h \<longrightarrow> c \<notin> A"
      using assms(3) [of c] IH [of nxt' P' h'] e by (auto simp: fetch_def split: if_splits)
  qed
  then show False using assms(2) by simp
qed

lemma chain_next_in:
  "chain nxt prv h p xs e \<Longrightarrow> a \<in> set xs \<Longrightarrow> h a = Some n \<Longrightarrow> a \<noteq> last xs \<Longrightarrow> nxt n \<in> set xs"
  by (induction xs arbitrary: p) (auto split: if_splits)

text \<open>The address \<open>n\<close> links behind \<open>a\<close>, when every structure on the way is there.\<close>

primrec follow_next :: "service_object nodes \<Rightarrow> nat \<Rightarrow> addr \<Rightarrow> addr option" where
  "follow_next h 0 a = Some a"
| "follow_next h (Suc n) a = do { b \<leftarrow> fetch h a; follow_next h n (so_next b) }"

lemma follow_chain: "chain so_next so_prev h p (x # xs) e \<Longrightarrow> follow_next h (length (x # xs)) x = Some e"
proof (induction xs arbitrary: p x)
  case (Cons y ys)
  then obtain n where "x \<noteq> 0" "h x = Some n" "so_next n = y" "chain so_next so_prev h x (y # ys) e"
    by (auto split: option.splits)
  then show ?case using Cons.IH [of x y] by (simp add: fetch_def)
qed (auto simp: fetch_def)

lemma follow_closed:
  assumes "\<And>a. a \<in> A \<Longrightarrow> a \<noteq> 0 \<and> (\<exists>n. h a = Some n \<and> so_next n \<in> A)"
  shows "a \<in> A \<Longrightarrow> \<exists>a'\<in>A. follow_next h n a = Some a'"
proof (induction n arbitrary: a)
  case (Suc n)
  then obtain m where "a \<noteq> 0" "h a = Some m" "so_next m \<in> A" using assms [of a] by blast
  then show ?case using Suc.IH [of "so_next m"] by (simp add: fetch_def)
qed simp

text \<open>The store after both operations: the last object gets a link to the one added again, which keeps its own.\<close>

lemma readd:
  assumes ok: "service_ok S svc objs" and v: "v \<in> set objs" "v \<noteq> hd objs"
  shows "\<exists>S' h b e. node_service_remove_service_object S svc v = Some (OK, S') \<and>
    node_service_add_service_object S' svc v = Some (OK, S'\<lparr>ss_objects := h\<rparr>) \<and>
    service_ok S' svc (remove1 v objs) \<and> path_of (ss_objects S') = path_of (ss_objects S) \<and>
    accepts S' svc (remove1 v objs) (so_service_path b) \<and> so_service_path b \<noteq> [] \<and>
    so_service_path_hash b = string_hash (so_service_path b) \<and>
    ss_objects S v = Some b \<and> ss_objects S' v = Some b \<and> ss_objects S' (last (remove1 v objs)) = Some e \<and>
    h = (ss_objects S')(last (remove1 v objs) \<mapsto> e\<lparr>so_next := v\<rparr>, v \<mapsto> b\<lparr>so_prev := last (remove1 v objs)\<rparr>)"
proof -
  let ?h = "ss_objects S" and ?os = "remove1 v objs"
  have l: "linked so_next so_prev ?h svc objs" and ob: "objects_ok ?h svc objs"
    using ok by (simp_all add: service_ok_def objects_ok_def)
  have ch: "chain so_next so_prev ?h svc objs 0" and di: "distinct (svc # objs)" using l by (auto simp: linked_def)
  obtain b where b: "?h v = Some b" using chain_in_store [OF ch v(1)] by blast
  have nz: "v \<noteq> 0" using chain_nonzero [OF ch] v(1) by metis
  obtain S' where S': "node_service_remove_service_object S svc v = Some (OK, S')" "service_ok S' svc ?os"
      "ss_objects S' v = Some b" "ss_services S' = ss_services S" "path_of (ss_objects S') = path_of ?h"
      "object_map (ss_objects S') ?os = (object_map ?h objs)(so_service_path b := None)"
    using remove_object [OF ok b nz] v by (auto simp: removes_def)
  let ?g = "ss_objects S'"
  obtain s where s: "ss_services S svc = Some s" "\<forall>a\<in>set objs. path_below (sv_service_name s) (path_of ?h a)"
    using ok unfolding service_ok_def by blast
  have bp: "so_service_path b \<noteq> []" "so_service_path_hash b = string_hash (so_service_path b)"
    using ob v(1) b by (fastforce simp: objects_ok_def)+
  have acc: "accepts S' svc ?os (so_service_path b)"
    using s v(1) b S'(4,6) by (auto simp: accepts_def service_name_def path_of_def)
  then have add: "node_service_add_service_object S' svc v =
      do { h \<leftarrow> append_object ?g svc v; Some (OK, S'\<lparr>ss_objects := h\<rparr>) }"
    using add_service_object_eq [OF S'(2,3) nz bp(1)] by simp
  have l': "linked so_next so_prev ?g svc ?os" and ne: "?os \<noteq> []" using S'(2) by (simp_all add: service_ok_def objects_ok_def)
  have ch': "chain so_next so_prev ?g svc ?os 0" using l' by (simp add: linked_def)
  have lst: "last_of so_next ?g svc = Some (last ?os)"
    using l' ne last_of_chain [of so_next so_prev ?g 0 svc ?os] by (simp add: linked_def)
  have os: "set ?os = set objs - {v}" using di by simp
  have lm: "last ?os \<in> set ?os" by (rule last_in_set [OF ne])
  then have lv: "last ?os \<noteq> v" "last ?os \<noteq> 0" using os chain_nonzero [OF ch'] by (metis DiffD2 insertI1, metis)
  obtain e where e: "?g (last ?os) = Some e" using chain_in_store [OF ch' lm] by blast
  have "append_object ?g svc v = Some (?g(last ?os \<mapsto> e\<lparr>so_next := v\<rparr>, v \<mapsto> b\<lparr>so_prev := last ?os\<rparr>))"
    using lst e S'(3) lv nz by (simp add: append_node_def change_def fetch_def)
  then show ?thesis using S'(1,2,3,5) b e bp acc add by simp
qed

text \<open>An object that was the last has no link to another one; it goes back to where it was.\<close>

lemma readd_last:
  assumes ok: "service_ok S svc objs" and v: "v \<in> set objs" "v \<noteq> hd objs" "v = last objs"
  shows "\<exists>S' S''. node_service_remove_service_object S svc v = Some (OK, S') \<and>
    node_service_add_service_object S' svc v = Some (OK, S'') \<and> service_ok S'' svc objs"
proof -
  obtain S' h b where r: "node_service_remove_service_object S svc v = Some (OK, S')"
      "node_service_add_service_object S' svc v = Some (OK, S'\<lparr>ss_objects := h\<rparr>)" "service_ok S' svc (remove1 v objs)"
      "accepts S' svc (remove1 v objs) (so_service_path b)" "so_service_path b \<noteq> []"
      "so_service_path_hash b = string_hash (so_service_path b)" "ss_objects S v = Some b" "ss_objects S' v = Some b"
    using readd [OF ok v(1,2)] by metis
  have l: "linked so_next so_prev (ss_objects S) svc objs" using ok by (simp add: service_ok_def objects_ok_def)
  have di: "distinct (svc # objs)" and ch: "chain so_next so_prev (ss_objects S) svc objs 0" using l by (auto simp: linked_def)
  obtain ys where ys: "objs = ys @ [v]" using v(1,3) by (metis append_butlast_last_id empty_iff empty_set)
  have rm: "remove1 v objs = ys" "v \<notin> set (svc # ys)" using ys di by (auto simp: remove1_append)
  have "so_next b = 0" "v \<noteq> 0" using ch r(7) ys by (auto simp: chain_append)
  then have "free_object (ss_objects S') v (so_service_path b)" using r(5,6,8) by (simp add: free_object_def)
  from add_object [OF r(3) this] rm r(2,4) have "service_ok (S'\<lparr>ss_objects := h\<rparr>) svc objs" using ys by simp
  then show ?thesis using r(1,2) by blast
qed

text \<open>Any other object leads on to those that were behind it, and so back to itself.\<close>

lemma readd_cycle:
  assumes ok: "service_ok S svc objs" and v: "v \<in> set objs" "v \<noteq> hd objs" "v \<noteq> last objs"
    and path: "path \<noteq> []" "path \<notin> path_of (ss_objects S) ` set objs"
  shows "\<exists>S' S''. node_service_remove_service_object S svc v = Some (OK, S') \<and>
           node_service_add_service_object S' svc v = Some (OK, S'') \<and>
           (\<exists>k>0. follow_next (ss_objects S'') k v = Some v) \<and>
           (\<forall>n. \<exists>a m. follow_next (ss_objects S'') n svc = Some a \<and> fetch (ss_objects S'') a = Some m) \<and>
           node_find_service_object_for_path S'' svc path = None"
proof -
  let ?h = "ss_objects S" and ?os = "remove1 v objs"
  obtain S' h2 b e where r: "node_service_remove_service_object S svc v = Some (OK, S')"
      "node_service_add_service_object S' svc v = Some (OK, S'\<lparr>ss_objects := h2\<rparr>)" "service_ok S' svc ?os"
      "path_of (ss_objects S') = path_of ?h" "?h v = Some b" "ss_objects S' v = Some b"
      "ss_objects S' (last ?os) = Some e"
    and h2: "h2 = (ss_objects S')(last ?os \<mapsto> e\<lparr>so_next := v\<rparr>, v \<mapsto> b\<lparr>so_prev := last ?os\<rparr>)"
    using readd [OF ok v(1,2)] by metis
  let ?g = "ss_objects S'"
  have l: "linked so_next so_prev ?h svc objs" using ok by (simp add: service_ok_def objects_ok_def)
  have ch: "chain so_next so_prev ?h svc objs 0" and di: "distinct (svc # objs)" using l by (auto simp: linked_def)
  have l': "linked so_next so_prev ?g svc ?os" and ne: "?os \<noteq> []" using r(3) by (simp_all add: service_ok_def objects_ok_def)
  have ch': "chain so_next so_prev ?g svc ?os 0" using l' by (simp add: linked_def)
  have os: "set ?os = set objs - {v}" using di by simp
  have lm: "last ?os \<in> set ?os" by (rule last_in_set [OF ne])
  then have lv: "last ?os \<noteq> v" "last ?os \<noteq> svc" "last ?os \<noteq> 0" "v \<noteq> svc" and nz: "v \<noteq> 0"
    using os di v(1) chain_nonzero [OF ch'] chain_nonzero [OF ch]
    by (metis DiffD2 insertI1, metis DiffD1 distinct.simps(2), metis, metis distinct.simps(2), metis)
  obtain n where n: "fetch ?g svc = Some n" "svc \<noteq> 0" "so_next n = hd (?os @ [0])" by (rule chain_next_nodes [OF l'])
  have start: "fetch h2 svc = Some n" "so_next n \<in> set objs"
    using n lv ne os by (auto simp: fetch_def h2 dest!: list.set_sel(1))
  have closed: "a \<noteq> 0 \<and> (\<exists>n. h2 a = Some n \<and> so_service_path n \<noteq> path \<and> so_next n \<in> set objs)" if a: "a \<in> set objs" for a
  proof -
    have pa: "path_of ?g a \<noteq> path" using path(2) a r(4) by auto
    have "a \<noteq> 0" using chain_nonzero [OF ch] a by metis
    moreover have "\<exists>n. h2 a = Some n \<and> so_service_path n \<noteq> path \<and> so_next n \<in> set objs"
    proof (cases "a = v")
      case True
      then show ?thesis using pa r(6) chain_next_in [OF ch v(1) r(5) v(3)] by (simp add: h2 path_of_def)
    next
      case False
      then have ao: "a \<in> set ?os" using a os by blast
      obtain m where m: "?g a = Some m" using chain_in_store [OF ch' ao] by blast
      show ?thesis
      proof (cases "a = last ?os")
        case True
        then show ?thesis using pa r(7) v(1) lv by (simp add: h2 path_of_def)
      next
        case False
        then show ?thesis using pa m \<open>a \<noteq> v\<close> chain_next_in [OF ch' ao m False] os by (simp add: h2 path_of_def)
      qed
    qed
    ultimately show ?thesis by simp
  qed
  have walk: "\<exists>a m. follow_next h2 k svc = Some a \<and> fetch h2 a = Some m" for k
  proof (cases k)
    case (Suc i)
    have "\<exists>a'\<in>set objs. follow_next h2 i (so_next n) = Some a'"
      by (rule follow_closed [where A = "set objs", OF _ start(2)]) (use closed in blast)
    then show ?thesis using Suc start(1) closed by (fastforce simp: fetch_def)
  qed (use start(1) in simp)
  have cycle: "\<exists>k>0. follow_next h2 k v = Some v"
  proof -
    obtain as bs where s: "objs = as @ v # bs" "v \<notin> set as" using v(1) by (metis split_list_first)
    have bs: "bs \<noteq> []" using s v(3) by auto
    then obtain ys z where z: "bs = ys @ [z]" by (metis append_butlast_last_id)
    have rm: "?os = as @ bs" "last ?os = z" using s z by (simp_all add: remove1_append)
    have "z \<notin> set ys" "v \<notin> set bs" using di s z by auto
    have "chain so_next so_prev ?g (last (svc # as)) bs 0" using ch' by (simp add: rm(1) chain_append)
    then have c0: "chain so_next so_prev ?g (last (svc # as)) (ys @ [z]) 0" by (simp only: z)
    have ez: "?g z = Some e" using r(7) by (simp only: rm(2))
    have "chain so_next so_prev (?g(z \<mapsto> e\<lparr>so_next := v\<rparr>)) (last (svc # as)) bs v"
      unfolding z by (rule object_links.set_end [OF c0 \<open>z \<notin> set ys\<close> ez])
    then have "chain so_next so_prev h2 (last (svc # as)) bs v" using \<open>v \<notin> set bs\<close> by (simp add: h2 rm(2))
    then have "follow_next h2 (length bs) (hd bs) = Some v" using bs follow_chain by (cases bs) auto
    moreover have "so_next b = hd bs" using ch r(5) bs by (auto simp: s chain_append)
    ultimately have "follow_next h2 (Suc (length bs)) v = Some v" using nz by (simp add: h2 fetch_def)
    then show ?thesis by blast
  qed
  have "node_find_service_object_for_path (S'\<lparr>ss_objects := h2\<rparr>) svc path = None"
  proof (rule ccontr)
    let ?P = "\<lambda>c. so_service_path_hash c = string_hash path \<and> string_cmp (so_service_path c) path = 0"
    assume "node_find_service_object_for_path (S'\<lparr>ss_objects := h2\<rparr>) svc path \<noteq> None"
    then obtain r where "find_node so_next ?P h2 (so_next n) = Some r"
      using start(1) path(1) by (auto simp: node_find_service_object_for_path_def)
    then show False
      by (rule find_in_cycle [where A = "set objs"]) (use start(2) closed in \<open>fastforce simp: string_cmp_eq\<close>)+
  qed
  then show ?thesis using r(1,2) walk cycle by (intro exI [of _ S'] exI [of _ "S'\<lparr>ss_objects := h2\<rparr>"]) simp
qed


section \<open>The services of a node as a map\<close>

definition services_ok :: "services \<Rightarrow> addr \<Rightarrow> addr list \<Rightarrow> bool" where
  "services_ok S head svcs \<longleftrightarrow> linked sv_next sv_prev (ss_services S) head svcs \<and>
     (\<forall>a\<in>set svcs. \<exists>s. ss_services S a = Some s \<and> sv_service_name_hash s = string_hash (sv_service_name s)) \<and>
     distinct (map (service_name S) svcs)"

lemma find_service:
  assumes "services_ok S head svcs" and "path \<noteq> []"
  shows "node_find_service_for_path S head path =
    Some (pointer (map_of (map (\<lambda>a. (service_name S a, a)) svcs) (first_part path)))"
proof -
  let ?h = "ss_services S" and ?k = "first_part path"
  have l: "linked sv_next sv_prev ?h head svcs" using assms(1) by (simp add: services_ok_def)
  then obtain n where n: "fetch ?h head = Some n" "?h head = Some n" by (auto simp: linked_def fetch_def)
  have k: "(\<exists>n. ?h a = Some n \<and> sv_service_name_hash n = string_hash ?k \<and> string_cmp (sv_service_name n) ?k = 0)
      \<longleftrightarrow> service_name S a = ?k" if "a \<in> set svcs" for a
    using assms(1) that by (fastforce simp: services_ok_def service_name_def string_cmp_eq)
  show ?thesis
    unfolding node_find_service_for_path_def Let_def first_part_taken [OF assms(2)]
    using n find_nodes [OF l n(2)] first_of_key [of svcs _ "service_name S" ?k, OF k] assms(2) by simp
qed

lemma first_part_below: "path_below name path \<Longrightarrow> name \<noteq> [] \<Longrightarrow> 46 \<notin> set (drop 1 name) \<Longrightarrow> first_part path = name"
  by (cases name) (auto simp: path_below_def first_part_def takeWhile_append)

lemma map_of_keyed: "distinct (map key xs) \<Longrightarrow> a \<in> set xs \<Longrightarrow> map_of (map (\<lambda>a. (key a, a)) xs) (key a) = Some a"
  by (induction xs) (auto simp: image_iff)

lemma find_definition:
  assumes "linked sd_next sd_prev (ss_defs S) head defs" and "name \<noteq> []" and "a \<in> set defs"
    and "\<forall>a\<in>set defs. \<exists>d. ss_defs S a = Some d \<and> sd_qualified_name_hash d = string_hash (sd_qualified_name d)"
    and "distinct (map (\<lambda>a. map_option sd_qualified_name (ss_defs S a)) defs)"
    and "map_option sd_qualified_name (ss_defs S a) = Some name"
  shows "node_find_service_definition S head name = Some a"
proof -
  let ?h = "ss_defs S" and ?key = "\<lambda>a. map_option sd_qualified_name (ss_defs S a)"
  obtain n where n: "fetch ?h head = Some n" "?h head = Some n" using assms(1) by (auto simp: linked_def fetch_def)
  have k: "(\<exists>n. ?h a = Some n \<and> sd_qualified_name_hash n = string_hash name \<and> string_cmp (sd_qualified_name n) name = 0)
      \<longleftrightarrow> ?key a = Some name" if "a \<in> set defs" for a
    using assms(4) that by (fastforce simp: string_cmp_eq)
  show ?thesis
    using n find_nodes [OF assms(1) n(2)] first_of_key [of defs _ ?key "Some name", OF k] assms(2)
      map_of_keyed [OF assms(5,3)] assms(6)
    by (simp add: node_find_service_definition_def pointer_def)
qed


section \<open>Properties\<close>

text \<open>A service with three objects and one more object that is not in its list.\<close>

definition demo_object :: "const_string \<Rightarrow> addr \<Rightarrow> addr \<Rightarrow> service_object" where
  "demo_object path p n = zero_object\<lparr>so_service_path := path, so_service_path_hash := string_hash path,
     so_prev := p, so_next := n\<rparr>"

definition demo :: services where
  "demo = \<lparr>ss_defs = (\<lambda>_. None),
     ss_objects = [1 \<mapsto> zero_object\<lparr>so_next := 2\<rparr>, 2 \<mapsto> demo_object [97] 1 3, 3 \<mapsto> demo_object [97, 46, 98] 2 4,
                   4 \<mapsto> demo_object [97, 46, 99] 3 0, 5 \<mapsto> demo_object [97, 46, 100] 0 0],
     ss_services = [1 \<mapsto> zero_service\<lparr>sv_service_name := [97], sv_service_name_hash := string_hash [97],
                            sv_root_service_object := 2, sv_prev := 7\<rparr>,
                    7 \<mapsto> zero_service\<lparr>sv_next := 1\<rparr>]\<rparr>"

lemmas demo_simps = demo_def demo_object_def zero_object_def zero_service_def

lemma demo_ok: "service_ok demo 1 [2, 3, 4]"
  by (simp add: service_ok_def objects_ok_def linked_def demo_simps path_of_def path_below_def)

lemma demo_services: "services_ok demo 7 [1]"
  by (simp add: services_ok_def linked_def demo_simps service_name_def)

text \<open>
  C15. Resolving a path: an object in the list of a service in the list of services is what the two
  searches that a request goes through find for its path, when the name of the service has no dot
  behind its first character.
\<close>

theorem path_resolves:
  assumes "services_ok S head svcs" and "svc \<in> set svcs" and "service_ok S svc objs" and "a \<in> set objs"
    and "46 \<notin> set (drop 1 (service_name S svc))"
  shows "node_find_service_for_path S head (path_of (ss_objects S) a) = Some svc \<and>
    node_find_service_object_for_path S svc (path_of (ss_objects S) a) = Some a"
proof -
  let ?p = "path_of (ss_objects S) a"
  have ob: "objects_ok (ss_objects S) svc objs" using assms(3) by (simp add: service_ok_def)
  have p: "path_below (service_name S svc) ?p" "service_name S svc \<noteq> []"
    using assms(3,4) by (auto simp: service_ok_def service_name_def)
  have "?p \<noteq> []" using ob assms(4) by (fastforce simp: objects_ok_def path_of_def)
  moreover have "first_part ?p = service_name S svc" by (rule first_part_below [OF p assms(5)])
  moreover have "distinct (map (service_name S) svcs)" using assms(1) by (simp add: services_ok_def)
  moreover have "distinct (map (path_of (ss_objects S)) objs)" using ob by (simp add: objects_ok_def)
  ultimately show ?thesis
    using find_service [OF assms(1), of ?p] find_object [OF ob, of ?p] assms(2,4) map_of_keyed [of "service_name S" svcs svc]
      map_of_keyed [of "path_of (ss_objects S)" objs a]
    by (simp add: pointer_def object_map_def)
qed

theorem path_resolves_witness:
  "node_find_service_for_path demo 7 [97, 46, 98] = Some 1 \<and> node_find_service_object_for_path demo 1 [97, 46, 98] = Some 3"
proof -
  have "46 \<notin> set (drop 1 (service_name demo 1))" by (simp add: service_name_def demo_simps)
  moreover have "path_of (ss_objects demo) 3 = [97, 46, 98]" by (simp add: path_of_def demo_simps)
  ultimately show ?thesis using path_resolves [OF demo_services _ demo_ok, of 3] by simp
qed

text \<open>
  C16. Adding an object refines an update of the map from paths to objects: a path that is not below the
  name of the service or is taken is refused and nothing changes; otherwise the list has the object
  behind the others, every path resolves as before, and the new path resolves to the new object.
\<close>

theorem object_added:
  assumes "service_ok S svc objs" and "free_object (ss_objects S) v path" and "v \<notin> set (svc # objs)"
  shows "\<exists>S'. node_service_add_service_object S svc v =
             Some (if accepts S svc objs path then OK else Err INVALID_ARGUMENT, S') \<and>
           (if accepts S svc objs path
            then service_ok S' svc (objs @ [v]) \<and>
                 (\<forall>p. node_find_service_object_for_path S' svc p =
                      (if p = path then Some v else node_find_service_object_for_path S svc p))
            else S' = S)"
proof -
  obtain S' where S': "node_service_add_service_object S svc v =
             Some (if accepts S svc objs path then OK else Err INVALID_ARGUMENT, S')"
      "if accepts S svc objs path
            then service_ok S' svc (objs @ [v]) \<and>
                 object_map (ss_objects S') (objs @ [v]) = (object_map (ss_objects S) objs)(path \<mapsto> v)
            else S' = S"
    using add_object [OF assms] by blast
  show ?thesis
  proof (cases "accepts S svc objs path")
    case True
    then have ok: "service_ok S' svc (objs @ [v])"
      and m: "object_map (ss_objects S') (objs @ [v]) = (object_map (ss_objects S) objs)(path \<mapsto> v)"
      using S'(2) by simp_all
    have "node_find_service_object_for_path S' svc p =
        (if p = path then Some v else node_find_service_object_for_path S svc p)" for p
      using find_object [of S' svc "objs @ [v]" p] find_object [of S svc objs p] ok assms(1) m
      by (simp add: service_ok_def pointer_def)
    then show ?thesis using S'(1) True ok by (intro exI [of _ S']) simp
  qed (use S' in auto)
qed

theorem object_added_witness:
  "\<exists>S'. node_service_add_service_object demo 1 5 = Some (OK, S') \<and>
        node_find_service_object_for_path S' 1 [97, 46, 100] = Some 5"
proof -
  have "free_object (ss_objects demo) 5 [97, 46, 100]" by (simp add: free_object_def demo_simps)
  moreover have "accepts demo 1 [2, 3, 4] [97, 46, 100]"
    by (simp add: accepts_def service_name_def object_map_def path_of_def path_below_def demo_simps)
  ultimately show ?thesis using object_added [OF demo_ok, of 5 "[97, 46, 100]"] by auto
qed

text \<open>
  C17. Removing an object refines a deletion from the map: the root and an object that is not in the list
  are refused and nothing changes; otherwise the list is what it was without the object, its path no
  longer resolves, and every other path resolves as before.
\<close>

theorem object_removed:
  assumes "service_ok S svc objs" and "ss_objects S v = Some b" and "v \<noteq> 0" and "v \<notin> set objs \<Longrightarrow> so_prev b \<noteq> 0"
  shows "\<exists>S'. node_service_remove_service_object S svc v =
             Some (if removes objs v then OK else Err INVALID_OPERATION, S') \<and>
           (if removes objs v
            then service_ok S' svc (remove1 v objs) \<and>
                 (\<forall>p. node_find_service_object_for_path S' svc p =
                      (if p = so_service_path b then Some 0 else node_find_service_object_for_path S svc p))
            else S' = S)"
proof -
  obtain S' where S': "node_service_remove_service_object S svc v =
             Some (if removes objs v then OK else Err INVALID_OPERATION, S')"
      "if removes objs v
            then service_ok S' svc (remove1 v objs) \<and>
                 object_map (ss_objects S') (remove1 v objs) = (object_map (ss_objects S) objs)(so_service_path b := None)
            else S' = S"
    using remove_object [OF assms] by metis
  show ?thesis
  proof (cases "removes objs v")
    case True
    then have ok: "service_ok S' svc (remove1 v objs)"
      and m: "object_map (ss_objects S') (remove1 v objs) = (object_map (ss_objects S) objs)(so_service_path b := None)"
      using S'(2) by simp_all
    have "node_find_service_object_for_path S' svc p =
        (if p = so_service_path b then Some 0 else node_find_service_object_for_path S svc p)" for p
      using find_object [of S' svc "remove1 v objs" p] find_object [of S svc objs p] ok assms(1) m
      by (simp add: service_ok_def pointer_def)
    then show ?thesis using S'(1) True ok by (intro exI [of _ S']) simp
  qed (use S' in auto)
qed

theorem object_removed_witness:
  "\<exists>S'. node_service_remove_service_object demo 1 3 = Some (OK, S') \<and>
        node_find_service_object_for_path S' 1 [97, 46, 98] = Some 0"
proof -
  have "ss_objects demo 3 = Some (demo_object [97, 46, 98] 2 4)" "so_service_path (demo_object [97, 46, 98] 2 4) = [97, 46, 98]"
    by (simp_all add: demo_simps)
  then show ?thesis using object_removed [OF demo_ok, of 3 "demo_object [97, 46, 98] 2 4"]
    by (auto simp: removes_def)
qed

text \<open>
  C18. An object that is removed and added again: neither operation resets its link to the next object. An
  object that was the last of the list goes back to its place. Any other one, but the root, which cannot be
  removed, makes the list a cycle: links lead from it back to itself, and from the head of the list to an
  object that is there however many of them are followed, so that the search for a path that no object has
  never comes to an end. (The list of requests resets the links of what it removes.)
\<close>

theorem readded_object_hangs:
  assumes "service_ok S svc objs" and "v \<in> set objs" and "v \<noteq> hd objs"
    and "path \<noteq> []" and "path \<notin> path_of (ss_objects S) ` set objs"
  shows "\<exists>S' S''. node_service_remove_service_object S svc v = Some (OK, S') \<and>
    node_service_add_service_object S' svc v = Some (OK, S'') \<and>
    (if v = last objs then service_ok S'' svc objs
     else (\<exists>k>0. follow_next (ss_objects S'') k v = Some v) \<and>
          (\<forall>n. \<exists>a m. follow_next (ss_objects S'') n svc = Some a \<and> fetch (ss_objects S'') a = Some m) \<and>
          node_find_service_object_for_path S'' svc path = None)"
  using readd_last [OF assms(1-3)] readd_cycle [OF assms(1-3) _ assms(4,5)] by (cases "v = last objs") auto

theorem readded_object_hangs_witness:
  "\<exists>S' S''. node_service_remove_service_object demo 1 3 = Some (OK, S') \<and>
     node_service_add_service_object S' 1 3 = Some (OK, S'') \<and> node_find_service_object_for_path S'' 1 [98] = None \<and>
     (\<exists>k>0. follow_next (ss_objects S'') k 3 = Some 3)"
proof -
  have "([98] :: const_string) \<notin> path_of (ss_objects demo) ` set [2, 3, 4]" by (simp add: path_of_def demo_simps)
  from readded_object_hangs [OF demo_ok _ _ _ this, of 3] show ?thesis by auto
qed

text \<open>
  A qualified name of a type is split at its last dot; but when both parts are asked for, the first
  argument gets the second part, the second argument is never written, and without the first the
  function writes through \<open>NULL\<close>.
\<close>

theorem split_both_parts:
  assumes "pre \<noteq> []" and "post \<noteq> []" and "46 \<notin> set post"
  shows "node_split_qualified_type (pre @ 46 # post) (Some t) None = Some (OK, Some pre, None) \<and>
    node_split_qualified_type (pre @ 46 # post) (Some t) (Some e) = Some (OK, Some post, Some e) \<and>
    node_split_qualified_type (pre @ 46 # post) None (Some e) = None"
  by (simp add: split_qualified [OF assms])

theorem split_both_parts_witness:
  "node_split_qualified_type [97, 46, 98] (Some []) (Some []) = Some (OK, Some [98], Some [])"
  using split_both_parts [of "[97]" "[98]" "[]" "[]"] by simp

end
