(* ===== verification/RRL_System.thy ===== *)
theory RRL_System
  imports RRL_NodeEvent RRL_NodeService
begin

text \<open>
  The whole state that a node works on: its connections, its services, the requests it waits for, the
  clients, and the world of the user, which the library's callbacks act on. The tables of callbacks of
  src/include/robotraconteurlite/node.h are functions from addresses, as the tables of connections are;
  they are what the user of the library provides, so they are a parameter. Callbacks read the event they
  are given and do not write to it. A step that reads through \<open>NULL\<close>, fails an \<open>assert\<close> or does not
  end is \<open>None\<close>.
\<close>

record request =
  rq_prev :: addr
  rq_next :: addr
  rq_connection :: addr
  rq_local_endpoint :: u32
  rq_request_id :: u32
  rq_timeout_timespec :: timespec
  rq_request_status :: status
  rq_user_storage :: addr
  rq_request_ops :: addr

record client =
  cl_prev :: addr
  cl_next :: addr
  cl_service_address :: addr
  cl_now :: timespec
  cl_client_connection :: addr
  cl_handshake_state :: u32
  cl_handshake_request_id :: u32
  cl_expected_root_object_type :: const_string
  cl_user_storage :: addr
  cl_client_ops :: addr

record 'w system =
  sy_world :: 'w
  sy_conns :: store
  sy_node :: node
  sy_requests :: "request nodes"
  sy_services :: services
  sy_clients :: "client nodes"

definition zero_request :: request where
  "zero_request = \<lparr>rq_prev = 0, rq_next = 0, rq_connection = 0, rq_local_endpoint = 0, rq_request_id = 0,
     rq_timeout_timespec = 0, rq_request_status = OK, rq_user_storage = 0, rq_request_ops = 0\<rparr>"

datatype service_event_type =
    SERVICE_EVENT_NOOP
  | SERVICE_EVENT_MESSAGE
  | SERVICE_EVENT_CLIENT_CONNECTED
  | SERVICE_EVENT_CLIENT_DISCONNECTED


section \<open>Tables of callbacks\<close>

text \<open>A callback is absent when its pointer is \<open>NULL\<close>.\<close>

record 'w node_ops =
  no_connection_event :: "(event \<Rightarrow> 'w system \<Rightarrow> status \<times> 'w system) option"
  no_send_complete :: "(event \<Rightarrow> 'w system \<Rightarrow> status \<times> 'w system) option"
  no_event_error_returned :: "(event \<Rightarrow> 'w system \<Rightarrow> status \<times> 'w system) option"

record service_event =
  se_event :: event
  se_service :: addr
  se_service_object :: addr

record 'w service_ops =
  vo_client_event :: "(service_event \<Rightarrow> service_event_type \<Rightarrow> 'w system \<Rightarrow> 'w system) option"

record 'w service_object_ops =
  oo_message_received :: "(service_event \<Rightarrow> 'w system \<Rightarrow> status \<times> 'w system) option"

record client_event =
  ce_event :: event
  ce_client :: addr

record 'w client_ops =
  lo_connected :: "(client_event \<Rightarrow> 'w system \<Rightarrow> 'w system) option"
  lo_disconnected :: "(client_event \<Rightarrow> 'w system \<Rightarrow> 'w system) option"
  lo_request_completed :: "(client_event \<Rightarrow> addr \<Rightarrow> 'w system \<Rightarrow> status \<times> 'w system) option"
  lo_request_error :: "(client_event \<Rightarrow> addr \<Rightarrow> 'w system \<Rightarrow> status \<times> 'w system) option"
  lo_message_received :: "(client_event \<Rightarrow> 'w system \<Rightarrow> status \<times> 'w system) option"

record 'w request_ops =
  qo_request_completed :: "(event \<Rightarrow> addr \<Rightarrow> 'w system \<Rightarrow> status \<times> 'w system) option"
  qo_request_error :: "(addr \<Rightarrow> status \<Rightarrow> 'w system \<Rightarrow> status \<times> 'w system) option"

text \<open>All tables by their addresses, those of the connections' objects, and \<open>rand()\<close>.\<close>

record 'w environment =
  en_node_ops :: "addr \<Rightarrow> 'w node_ops"
  en_service_ops :: "addr \<Rightarrow> 'w service_ops"
  en_service_object_ops :: "addr \<Rightarrow> 'w service_object_ops"
  en_client_ops :: "addr \<Rightarrow> 'w client_ops"
  en_request_ops :: "addr \<Rightarrow> 'w request_ops"
  en_object_ops :: "'w ops_table"
  en_rand :: "'w \<Rightarrow> u32 \<times> 'w"

text \<open>The guarded call: \<open>ops != NULL && ops->f != NULL\<close>.\<close>

definition callback :: "(addr \<Rightarrow> 't) \<Rightarrow> ('t \<Rightarrow> 'f option) \<Rightarrow> addr \<Rightarrow> 'f option" where
  "callback tables sel p = (if p = 0 then None else sel (tables p))"


section \<open>Steps on the state\<close>

type_synonym 'w step = "'w system \<Rightarrow> (status \<times> 'w system) option"

text \<open>A call on the connection at \<open>a\<close>.\<close>

definition with_connection :: "addr \<Rightarrow> (connection \<Rightarrow> 'r \<times> connection) \<Rightarrow> 'w system \<Rightarrow> ('r \<times> 'w system) option" where
  "with_connection a f sy = do {
     c \<leftarrow> connection_at (sy_conns sy) a;
     (case f c of (r, c) \<Rightarrow> Some (r, sy\<lparr>sy_conns := (sy_conns sy)(a \<mapsto> Conn c)\<rparr>)) }"

definition update_connection :: "addr \<Rightarrow> (connection \<Rightarrow> connection) \<Rightarrow> 'w system \<Rightarrow> 'w system option" where
  "update_connection a f sy = map_option snd (with_connection a (\<lambda>c. ((), f c)) sy)"

definition with_client :: "addr \<Rightarrow> (client \<Rightarrow> client) \<Rightarrow> 'w system \<Rightarrow> 'w system option" where
  "with_client a f sy = do { h \<leftarrow> change a f (sy_clients sy); Some (sy\<lparr>sy_clients := h\<rparr>) }"

definition consume_event :: "event \<Rightarrow> 'w step" where
  "consume_event ev sy = do {
     (rv, h, nd) \<leftarrow> node_consume_event (sy_conns sy) (sy_node sy) ev;
     Some (rv, sy\<lparr>sy_conns := h, sy_node := nd\<rparr>) }"

text \<open>\<open>(void)consume_event(event); return rv;\<close>\<close>

definition consume_and_return :: "event \<Rightarrow> status \<Rightarrow> 'w step" where
  "consume_and_return ev rv sy = do { (_, sy) \<leftarrow> consume_event ev sy; Some (rv, sy) }"

text \<open>\<open>if (FAILED(rv)) return ...;\<close> with what is done in that case.\<close>

definition if_failed :: "(status \<times> 'w system) option \<Rightarrow> (error \<Rightarrow> 'w step) \<Rightarrow> 'w step \<Rightarrow> (status \<times> 'w system) option" where
  "if_failed r bad good = do {
     (rv, sy) \<leftarrow> r;
     (case rv of Err e \<Rightarrow> bad e sy | OK \<Rightarrow> good sy) }"

lemma if_failed_simps [simp]:
  "if_failed (Some (OK, sy)) bad good = good sy"
  "if_failed (Some (Err e, sy)) bad good = bad e sy"
  "if_failed None bad good = None"
  by (simp_all add: if_failed_def)

lemma with_connection_at [simp]:
  "connection_at (sy_conns sy) a = Some c \<Longrightarrow>
     with_connection a f sy = Some (fst (f c), sy\<lparr>sy_conns := (sy_conns sy)(a \<mapsto> Conn (snd (f c)))\<rparr>)"
  by (simp add: with_connection_def split: prod.split)

lemma update_connection_at [simp]:
  "connection_at (sy_conns sy) a = Some c \<Longrightarrow>
     update_connection a f sy = Some (sy\<lparr>sy_conns := (sy_conns sy)(a \<mapsto> Conn (f c))\<rparr>)"
  by (simp add: update_connection_def)

lemma connection_at_upd [simp]: "a \<noteq> 0 \<Longrightarrow> connection_at (h(a \<mapsto> Conn c)) a = Some c"
  by (simp add: connection_at_def look_def)

lemma connection_at_nonzero: "connection_at h a = Some c \<Longrightarrow> a \<noteq> 0"
  by (auto simp: connection_at_def look_def split: if_splits)

end
