(* ===== verification/RRL_NodeRequest.thy ===== *)
theory RRL_NodeRequest
  imports RRL_System
begin

text \<open>
  The requests of a node, src/node.c: the list of requests that wait for a response, sending a request,
  recognising its response, handing a response to the request it belongs to, timeouts, and when the node
  wants to wake up.
\<close>

abbreviation set_rq_next :: "addr \<Rightarrow> request \<Rightarrow> request" where "set_rq_next a r \<equiv> r\<lparr>rq_next := a\<rparr>"
abbreviation set_rq_prev :: "addr \<Rightarrow> request \<Rightarrow> request" where "set_rq_prev a r \<equiv> r\<lparr>rq_prev := a\<rparr>"

interpretation request_links: links rq_next rq_prev set_rq_next set_rq_prev
  by unfold_locales simp_all


section \<open>The list of requests\<close>

definition node_request_list_append :: "request nodes \<Rightarrow> addr \<Rightarrow> addr \<Rightarrow> request nodes option" where
  "node_request_list_append h requests_head v = append_node rq_next set_rq_next set_rq_prev h requests_head v"

text \<open>Unlike the other lists, removing resets the links of what it removes.\<close>

definition node_request_list_remove :: "request nodes \<Rightarrow> addr \<Rightarrow> addr \<Rightarrow> request nodes option" where
  "node_request_list_remove h requests_head v = do {
     h \<leftarrow> unlink_node rq_next rq_prev set_rq_next set_rq_prev h v;
     h \<leftarrow> change v (set_rq_next 0) h;
     change v (set_rq_prev 0) h }"

definition node_request_list_head_construct :: "request nodes \<Rightarrow> addr \<Rightarrow> request nodes" where
  "node_request_list_head_construct h requests_head = h(requests_head \<mapsto> zero_request)"

definition node_request_set_ops :: "request nodes \<Rightarrow> addr \<Rightarrow> addr \<Rightarrow> (status \<times> request nodes) option" where
  "node_request_set_ops h request request_ops = do {
     h \<leftarrow> change request (\<lambda>r. r\<lparr>rq_request_ops := request_ops\<rparr>) h;
     Some (OK, h) }"

definition node_client_set_ops :: "client nodes \<Rightarrow> addr \<Rightarrow> addr \<Rightarrow> (status \<times> client nodes) option" where
  "node_client_set_ops h client client_ops = do {
     h \<leftarrow> change client (\<lambda>c. c\<lparr>cl_client_ops := client_ops\<rparr>) h;
     Some (OK, h) }"

text \<open>
  The timeout is multiplied in 32 bits, where it wraps in the model and is undefined in C; the clock is
  the platform's.
\<close>

definition clock_timeout_from_now :: "(status \<times> timespec) \<Rightarrow> i32 \<Rightarrow> timespec \<Rightarrow> status \<times> timespec" where
  "clock_timeout_from_now gettime timeout_us timeout_out =
     (case gettime of (Err e, now) \<Rightarrow> (Err e, timeout_out) | (OK, now) \<Rightarrow> (OK, now + scast timeout_us))"

definition node_request_set_timeout :: "(status \<times> timespec) \<Rightarrow> request \<Rightarrow> i32 \<Rightarrow> status \<times> request" where
  "node_request_set_timeout gettime request timeout_ms =
     (case clock_timeout_from_now gettime (timeout_ms * 1000) (rq_timeout_timespec request) of
        (rv, t) \<Rightarrow> (rv, request\<lparr>rq_timeout_timespec := t\<rparr>))"


section \<open>Sending a request\<close>

text \<open>
  The header of a request. With a client the send data are cleared first; the node and the connection,
  which send data only point to, are the client's, at \<open>a\<close>, or those the send data come with.
\<close>

definition begin_request_header :: "connection \<Rightarrow> u16 \<Rightarrow> const_string option \<Rightarrow> const_string option
    \<Rightarrow> status \<times> const_string messageentry_header" where
  "begin_request_header c entry_type membername servicepath =
     (let h = empty_entry_header\<lparr>eh_entry_type := entry_type, eh_request_id := cn_last_request_id c\<rparr> in
      case string_shallow_copy_to (case servicepath of Some s \<Rightarrow> s | None \<Rightarrow> cn_remote_service_name c) (eh_service_path h) of
        (Err e, s) \<Rightarrow> (Err e, h\<lparr>eh_service_path := s\<rparr>)
      | (OK, s) \<Rightarrow>
          (let h = h\<lparr>eh_service_path := s\<rparr> in
           case membername of
             None \<Rightarrow> (OK, h\<lparr>eh_member_name := []\<rparr>)
           | Some m \<Rightarrow> (case string_shallow_copy_to m (eh_member_name h) of (st, s) \<Rightarrow> (st, h\<lparr>eh_member_name := s\<rparr>))))"

definition fill_request :: "addr \<Rightarrow> connection \<Rightarrow> u32 \<Rightarrow> request \<Rightarrow> request" where
  "fill_request a c request_id r =
     r\<lparr>rq_prev := 0, rq_next := 0, rq_timeout_timespec := 0, rq_request_ops := 0, rq_connection := a,
       rq_request_id := request_id, rq_local_endpoint := cn_local_endpoint c, rq_request_status := Err IN_PROGRESS\<rparr>"

definition client_begin_request ::
  "bool \<Rightarrow> addr \<Rightarrow> send_data \<Rightarrow> u16 \<Rightarrow> const_string option \<Rightarrow> const_string option \<Rightarrow> addr
     \<Rightarrow> 'w system \<Rightarrow> (status \<times> send_data \<times> 'w system) option" where
  "client_begin_request client a send_data entry_type membername servicepath request sy = do {
     let sd = (if client then zero_send_data else send_data);
     c \<leftarrow> connection_at (sy_conns sy) a;
     let c = c\<lparr>cn_last_request_id := cn_last_request_id c + 1\<rparr>;
     (case begin_request_header c entry_type membername servicepath of
        (Err e, h) \<Rightarrow> Some (Err e, sd\<lparr>sd_entry_header := h\<rparr>, sy\<lparr>sy_conns := (sy_conns sy)(a \<mapsto> Conn c)\<rparr>)
      | (OK, h) \<Rightarrow> do {
          let sd = sd\<lparr>sd_entry_header := h\<rparr>;
          q \<leftarrow> (if request \<noteq> 0 then change request (fill_request a c (eh_request_id h)) (sy_requests sy)
               else Some (sy_requests sy));
          (case node_begin_send_messageentry (sy_node sy) c sd of
             (rv, c, sd) \<Rightarrow>
               Some (rv, sd, sy\<lparr>sy_conns := (sy_conns sy)(a \<mapsto> Conn c), sy_requests := q\<rparr>)) }) }"

definition end_send :: "addr \<Rightarrow> send_data \<Rightarrow> 'w system \<Rightarrow> (status \<times> send_data \<times> 'w system) option" where
  "end_send a sd sy = do {
     ((rv, sd), sy) \<leftarrow> with_connection a (\<lambda>c. case node_end_send_messageentry c sd of (rv, c, sd) \<Rightarrow> ((rv, sd), c)) sy;
     Some (rv, sd, sy) }"

definition client_send_request :: "addr \<Rightarrow> send_data \<Rightarrow> addr \<Rightarrow> 'w system \<Rightarrow> (status \<times> send_data \<times> 'w system) option" where
  "client_send_request a send_data request sy = do {
     (rv, sd, sy) \<leftarrow> end_send a send_data sy;
     if rv = OK \<and> request \<noteq> 0 \<and> nd_requests_head (sy_node sy) \<noteq> 0
     then do { h \<leftarrow> node_request_list_append (sy_requests sy) (nd_requests_head (sy_node sy)) request;
               Some (rv, sd, sy\<lparr>sy_requests := h\<rparr>) }
     else Some (rv, sd, sy) }"

definition client_send_empty_request ::
  "bool \<Rightarrow> addr \<Rightarrow> send_data \<Rightarrow> u16 \<Rightarrow> const_string option \<Rightarrow> const_string option \<Rightarrow> addr
     \<Rightarrow> 'w system \<Rightarrow> (status \<times> send_data \<times> 'w system) option" where
  "client_send_empty_request client a send_data entry_type membername servicepath request sy = do {
     (rv, sd, sy) \<leftarrow> client_begin_request client a send_data entry_type membername servicepath request sy;
     if FAILED rv then Some (rv, sd, sy) else client_send_request a sd request sy }"

definition client_begin_request_c_str ::
  "bool \<Rightarrow> addr \<Rightarrow> send_data \<Rightarrow> u16 \<Rightarrow> byte list option \<Rightarrow> byte list option \<Rightarrow> addr
     \<Rightarrow> 'w system \<Rightarrow> (status \<times> send_data \<times> 'w system) option" where
  "client_begin_request_c_str client a send_data entry_type membername servicepath request sy =
     client_begin_request client a send_data entry_type (map_option (\<lambda>s. string_from_c_str (Some s)) membername)
       (map_option (\<lambda>s. string_from_c_str (Some s)) servicepath) request sy"

definition client_send_empty_request_c_str ::
  "bool \<Rightarrow> addr \<Rightarrow> send_data \<Rightarrow> u16 \<Rightarrow> byte list option \<Rightarrow> byte list option \<Rightarrow> addr
     \<Rightarrow> 'w system \<Rightarrow> (status \<times> send_data \<times> 'w system) option" where
  "client_send_empty_request_c_str client a send_data entry_type membername servicepath request sy =
     client_send_empty_request client a send_data entry_type (map_option (\<lambda>s. string_from_c_str (Some s)) membername)
       (map_option (\<lambda>s. string_from_c_str (Some s)) servicepath) request sy"

definition MESSAGEENTRYTYPE_CONNECTIONTEST :: u16 where "MESSAGEENTRYTYPE_CONNECTIONTEST = 111"

text \<open>
  The header has been written when the heartbeat sets its request id to 0. The send data are a local
  variable that is not cleared; what the begin functions do not set is arbitrary.
\<close>

definition client_send_heartbeat :: "send_data \<Rightarrow> addr \<Rightarrow> 'w step" where
  "client_send_heartbeat uninitialised connection sy = do {
     (rv, sd, sy) \<leftarrow> client_begin_request False connection uninitialised MESSAGEENTRYTYPE_CONNECTIONTEST None None 0 sy;
     if FAILED rv then Some (rv, sy)
     else do {
       (rv, sd, sy) \<leftarrow> end_send connection (sd\<lparr>sd_entry_header := (sd_entry_header sd)\<lparr>eh_request_id := 0\<rparr>\<rparr>) sy;
       Some (rv, sy) } }"


section \<open>Responses\<close>

definition response_status :: "const_string messageentry_header \<Rightarrow> status" where
  "response_status header = (if eh_error header \<noteq> 0 then Err REQUEST_REMOTE_ERROR else OK)"

definition client_end_request :: "send_data \<Rightarrow> event \<Rightarrow> status" where
  "client_end_request send_data ev =
     (if ev_type ev \<noteq> EVENT_MESSAGE_RECEIVED then Err UNHANDLED_EVENT
      else if eh_request_id (rd_entry_header (ev_received_message ev)) = eh_request_id (sd_entry_header send_data)
      then response_status (rd_entry_header (ev_received_message ev))
      else Err UNHANDLED_EVENT)"

definition client_end_request2 :: "request \<Rightarrow> event \<Rightarrow> status" where
  "client_end_request2 request ev =
     (if ev_type ev \<noteq> EVENT_MESSAGE_RECEIVED then Err UNHANDLED_EVENT
      else if eh_request_id (rd_entry_header (ev_received_message ev)) = rq_request_id request
      then response_status (rd_entry_header (ev_received_message ev))
      else Err PROTOCOL)"

text \<open>The request that an event answers.\<close>

definition answers :: "event \<Rightarrow> connection \<Rightarrow> request \<Rightarrow> bool" where
  "answers ev c r \<longleftrightarrow> rq_request_id r = eh_request_id (rd_entry_header (ev_received_message ev)) \<and>
     rq_local_endpoint r = cn_local_endpoint c \<and> rq_connection r = ev_connection ev"

definition remove_request :: "addr \<Rightarrow> 'w system \<Rightarrow> 'w system option" where
  "remove_request r sy = do {
     h \<leftarrow> node_request_list_remove (sy_requests sy) (nd_requests_head (sy_node sy)) r;
     Some (sy\<lparr>sy_requests := h\<rparr>) }"

definition node_client_event_construct :: "event \<Rightarrow> 'w system \<Rightarrow> client_event option" where
  "node_client_event_construct ev sy = do {
     c \<leftarrow> connection_at (sy_conns sy) (ev_connection ev);
     if cn_client c = 0 then None else Some \<lparr>ce_event = ev, ce_client = cn_client c\<rparr> }"

text \<open>The pointer \<open>event->connection->client->client_ops\<close>, \<open>NULL\<close> when there is no client.\<close>

definition client_ops_of :: "addr \<Rightarrow> 'w system \<Rightarrow> addr option" where
  "client_ops_of a sy = do {
     c \<leftarrow> connection_at (sy_conns sy) a;
     if cn_client c = 0 then Some 0 else map_option cl_client_ops (fetch (sy_clients sy) (cn_client c)) }"

definition node_dispatch_response_message :: "'w environment \<Rightarrow> event \<Rightarrow> 'w step" where
  "node_dispatch_response_message env ev sy =
     (let head = nd_requests_head (sy_node sy) in
      if ev_type ev \<noteq> EVENT_MESSAGE_RECEIVED then Some (Err INTERNAL_ERROR, sy)
      else if head = 0 then Some (OK, sy)
      else do {
        c \<leftarrow> connection_at (sy_conns sy) (ev_connection ev);
        r \<leftarrow> find_node rq_next (answers ev c) (sy_requests sy) head;
        if r = 0 then Some (OK, sy)
        else do {
          h \<leftarrow> change r (\<lambda>q. q\<lparr>rq_request_status := OK\<rparr>) (sy_requests sy);
          let sy = sy\<lparr>sy_requests := h\<rparr>;
          q \<leftarrow> fetch h r;
          (case callback (en_request_ops env) qo_request_completed (rq_request_ops q) of
             Some f \<Rightarrow> do {
               sy \<leftarrow> remove_request r sy;
               if_failed (Some (f ev r sy))
                 (\<lambda>e sy. if e = RETRY then Some (Err RETRY, sy) else consume_and_return ev (Err CONSUMED) sy)
                 (consume_and_return ev (Err CONSUMED)) }
           | None \<Rightarrow> do {
               cops \<leftarrow> client_ops_of (ev_connection ev) sy;
               (case callback (en_client_ops env) lo_request_completed cops of
                  Some f \<Rightarrow> do {
                    c_evt \<leftarrow> node_client_event_construct ev sy;
                    let finish = (\<lambda>sy. do {
                      (_, sy) \<leftarrow> consume_event ev sy;
                      sy \<leftarrow> remove_request r sy;
                      Some (Err CONSUMED, sy) });
                    if_failed (Some (f c_evt r sy))
                      (\<lambda>e sy. if e = RETRY then Some (Err RETRY, sy) else finish sy) finish }
                | None \<Rightarrow> do { sy \<leftarrow> remove_request r sy; Some (OK, sy) }) }) } })"


section \<open>Timeouts and waking\<close>

definition timed_out :: "timespec \<Rightarrow> request \<Rightarrow> bool" where
  "timed_out now r \<longleftrightarrow> rq_timeout_timespec r \<noteq> 0 \<and> sint (rq_timeout_timespec r) < sint now"

definition fail_request :: "'w environment \<Rightarrow> addr \<Rightarrow> 'w system \<Rightarrow> 'w system option" where
  "fail_request env r sy = do {
     sy \<leftarrow> remove_request r sy;
     h \<leftarrow> change r (\<lambda>q. q\<lparr>rq_request_status := Err TIMEOUT\<rparr>) (sy_requests sy);
     let sy = sy\<lparr>sy_requests := h\<rparr>;
     q \<leftarrow> fetch h r;
     Some (case callback (en_request_ops env) qo_request_error (rq_request_ops q) of
             Some f \<Rightarrow> snd (f r (Err TIMEOUT) sy)
           | None \<Rightarrow> sy) }"

partial_function (option) process_requests :: "'w environment \<Rightarrow> timespec \<Rightarrow> addr \<Rightarrow> 'w system \<Rightarrow> 'w system option" where
  "process_requests env now r sy =
     (if r = 0 then Some sy
      else do {
        q \<leftarrow> fetch (sy_requests sy) r;
        sy \<leftarrow> (if timed_out now q then fail_request env r sy else Some sy);
        q \<leftarrow> fetch (sy_requests sy) r;
        process_requests env now (rq_next q) sy })"

definition node_requests_process_control :: "'w environment \<Rightarrow> timespec \<Rightarrow> 'w step" where
  "node_requests_process_control env now sy =
     (if nd_requests_head (sy_node sy) = 0 then Some (OK, sy)
      else do { sy \<leftarrow> process_requests env now (nd_requests_head (sy_node sy)) sy; Some (OK, sy) })"

partial_function (option) request_wake_from :: "request nodes \<Rightarrow> addr \<Rightarrow> timespec \<Rightarrow> timespec option" where
  "request_wake_from h r wake_time =
     (if r = 0 then Some wake_time
      else do {
        q \<leftarrow> fetch h r;
        request_wake_from h (rq_next q)
          (if rq_timeout_timespec q \<noteq> 0 \<and> sint (rq_timeout_timespec q) < sint wake_time then rq_timeout_timespec q
           else wake_time) })"

definition node_next_wake :: "timespec \<Rightarrow> timespec \<Rightarrow> 'w system \<Rightarrow> (status \<times> timespec) option" where
  "node_next_wake now wake_time sy = do {
     c \<leftarrow> connection_first (sy_conns sy) (nd_connections_head (sy_node sy));
     let wake_time = (if wake_time = 0 then now + NODE_DEFAULT_SLEEP_TIME else wake_time);
     (rv, wake_time) \<leftarrow> wake_from (sy_conns sy) now c wake_time;
     if FAILED rv then Some (rv, wake_time)
     else if nd_requests_head (sy_node sy) = 0 then Some (OK, wake_time)
     else do {
       q \<leftarrow> fetch (sy_requests sy) (nd_requests_head (sy_node sy));
       wake_time \<leftarrow> request_wake_from (sy_requests sy) (rq_next q) wake_time;
       Some (OK, wake_time) } }"


section \<open>Answering\<close>

definition node_event_is_member :: "event \<Rightarrow> byte list \<Rightarrow> bool option" where
  "node_event_is_member ev member_name =
     (if ev_type ev \<noteq> EVENT_MESSAGE_RECEIVED then None
      else Some (string_cmp_c_str (eh_member_name (rd_entry_header (ev_received_message ev))) member_name = 0))"

definition node_event_is_member2 :: "event \<Rightarrow> byte list \<Rightarrow> byte list \<Rightarrow> bool option" where
  "node_event_is_member2 ev service_path member_name =
     (if ev_type ev \<noteq> EVENT_MESSAGE_RECEIVED then None
      else Some (string_cmp_c_str (eh_service_path (rd_entry_header (ev_received_message ev))) service_path = 0 \<and>
                 string_cmp_c_str (eh_member_name (rd_entry_header (ev_received_message ev))) member_name = 0))"

definition MESSAGEERRORTYPE_PROTOCOLERROR :: u16 where "MESSAGEERRORTYPE_PROTOCOLERROR = 2"
definition MESSAGEERRORTYPE_SERVICENOTFOUND :: u16 where "MESSAGEERRORTYPE_SERVICENOTFOUND = 3"
definition MESSAGEERRORTYPE_OBJECTNOTFOUND :: u16 where "MESSAGEERRORTYPE_OBJECTNOTFOUND = 4"
definition MESSAGEERRORTYPE_MEMBERNOTFOUND :: u16 where "MESSAGEERRORTYPE_MEMBERNOTFOUND = 9"
definition MESSAGEERRORTYPE_DATATYPEMISMATCH :: u16 where "MESSAGEERRORTYPE_DATATYPEMISMATCH = 11"
definition MESSAGEERRORTYPE_MESSAGEELEMENTNOTFOUND :: u16 where "MESSAGEERRORTYPE_MESSAGEELEMENTNOTFOUND = 15"
definition MESSAGEERRORTYPE_INVALIDOPERATION :: u16 where "MESSAGEERRORTYPE_INVALIDOPERATION = 17"

definition respond_error :: "event \<Rightarrow> u16 \<Rightarrow> string \<Rightarrow> string \<Rightarrow> 'w step" where
  "respond_error ev err error_name error_message sy =
     with_connection (ev_connection ev)
       (\<lambda>c. connection_send_messageentry_error_response (sy_node sy) c (rd_entry_header (ev_received_message ev)) err
              (Some (ascii error_name)) (Some (ascii error_message))) sy"

definition node_event_respond_member_not_found :: "event \<Rightarrow> 'w step" where
  "node_event_respond_member_not_found ev =
     respond_error ev MESSAGEERRORTYPE_MEMBERNOTFOUND ''RobotRaconteur.MemberNotFound'' ''Member not found''"

definition node_event_respond_invalid_operation :: "event \<Rightarrow> 'w step" where
  "node_event_respond_invalid_operation ev =
     respond_error ev MESSAGEERRORTYPE_INVALIDOPERATION ''RobotRaconteur.InvalidOperation'' ''Invalid operation''"

definition node_event_respond_element_read_error :: "event \<Rightarrow> status \<Rightarrow> 'w step" where
  "node_event_respond_element_read_error ev read_rv sy =
     (if read_rv = Err MESSAGEELEMENT_NOT_FOUND
      then respond_error ev MESSAGEERRORTYPE_MESSAGEELEMENTNOTFOUND ''RobotRaconteur.MessageElementNotFound''
             ''Message element not found'' sy
      else if read_rv = Err MESSAGEELEMENT_TYPE_MISMATCH
      then respond_error ev MESSAGEERRORTYPE_DATATYPEMISMATCH ''RobotRaconteur.DataTypeMismatch''
             ''Element type mismatch'' sy
      else Some (read_rv, sy))"

definition client_is_connected :: "connection \<Rightarrow> status" where
  "client_is_connected c =
     (if has_state c STATUS_FLAGS_ERROR then Err CONNECTION_ERROR
      else if \<not> has_state c STATUS_FLAGS_CONNECTED then Err RETRY else OK)"

end
