(* ===== verification/RRL_RequestSpec.thy ===== *)
theory RRL_RequestSpec
  imports RRL_NodeRequest RRL_NodeSpec RRL_ServiceSpec
begin

text \<open>
  The requests of a node: a response reaches the request it belongs to and no other, timeouts, and when
  the node wakes up.
\<close>

text \<open>The requests \<open>reqs\<close> behind the head of the node, which is not a request of a connection.\<close>

definition requests_ok :: "'w system \<Rightarrow> addr list \<Rightarrow> bool" where
  "requests_ok sy reqs \<longleftrightarrow> linked rq_next rq_prev (sy_requests sy) (nd_requests_head (sy_node sy)) reqs \<and>
     (\<exists>q. sy_requests sy (nd_requests_head (sy_node sy)) = Some q \<and> rq_connection q = 0 \<and> rq_timeout_timespec q = 0)"

definition request_at :: "'w system \<Rightarrow> addr \<Rightarrow> request" where
  "request_at sy r = the (sy_requests sy r)"

lemma same_payload_request:
  assumes "request_links.same_payload h h'" and "h a = Some q"
  obtains q' where "h' a = Some q'" and "request_links.payload q' = request_links.payload q"
proof -
  have "map_option request_links.payload (h' a) = Some (request_links.payload q)"
    using assms by (simp add: request_links.same_payload_def)
  then show thesis using that by blast
qed

lemma linked_nonzero: "linked nxt prv h head xs \<Longrightarrow> a \<in> set (head # xs) \<Longrightarrow> a \<noteq> 0"
  unfolding linked_def by (metis chain_nonzero)

lemma payload_fields:
  assumes "request_links.payload q' = request_links.payload q"
  shows "rq_connection q' = rq_connection q" "rq_local_endpoint q' = rq_local_endpoint q"
    "rq_request_id q' = rq_request_id q" "rq_timeout_timespec q' = rq_timeout_timespec q"
    "rq_request_status q' = rq_request_status q" "rq_request_ops q' = rq_request_ops q"
  using assms by (cases q; cases q'; simp add: request_links.payload_def)+

text \<open>Removing a request: the list without it, and the request with its links reset.\<close>

lemma remove_request_at:
  assumes "requests_ok sy reqs" and "r \<in> set reqs"
  shows "\<exists>sy'. remove_request r sy = Some sy' \<and> requests_ok sy' (remove1 r reqs) \<and>
    sy' = sy\<lparr>sy_requests := sy_requests sy'\<rparr> \<and>
    sy_requests sy' r = Some ((request_at sy r)\<lparr>rq_next := 0, rq_prev := 0\<rparr>) \<and>
    request_links.same_payload (sy_requests sy) (sy_requests sy')"
proof -
  let ?h = "sy_requests sy" and ?head = "nd_requests_head (sy_node sy)"
  have l: "linked rq_next rq_prev ?h ?head reqs" using assms(1) by (simp add: requests_ok_def)
  obtain h n where h: "unlink_node rq_next rq_prev set_rq_next set_rq_prev ?h r = Some h"
      "linked rq_next rq_prev h ?head (remove1 r reqs)" "request_links.same_payload ?h h" "?h r = Some n" "h r = Some n"
      "r \<notin> set (?head # remove1 r reqs)"
    using request_links.unlink_refines [OF l assms(2)] by blast
  have nz: "r \<noteq> 0" using linked_nonzero [OF l] assms(2) by simp
  let ?n = "n\<lparr>rq_next := 0, rq_prev := 0\<rparr>"
  let ?h' = "h(r \<mapsto> ?n)"
  have rm: "remove_request r sy = Some (sy\<lparr>sy_requests := ?h'\<rparr>)"
    using h nz by (simp add: remove_request_def node_request_list_remove_def change_def fetch_def)
  have l': "linked rq_next rq_prev ?h' ?head (remove1 r reqs)"
    using h(2,6) by (simp add: linked_def)
  have p: "request_links.same_payload ?h ?h'"
    using h(3,4,5) by (auto simp: request_links.same_payload_def request_links.payload_def)
  obtain q where q: "?h ?head = Some q" "rq_connection q = 0" "rq_timeout_timespec q = 0"
    using assms(1) by (auto simp: requests_ok_def)
  obtain q' where "?h' ?head = Some q'" "request_links.payload q' = request_links.payload q"
    by (rule same_payload_request [OF p q(1)])
  then have "requests_ok (sy\<lparr>sy_requests := ?h'\<rparr>) (remove1 r reqs)"
    using l' q payload_fields [of q' q] by (simp add: requests_ok_def)
  then show ?thesis using rm p h(4) by (simp add: request_at_def)
qed

text \<open>Changing something other than the links of one request.\<close>

lemma chain_change:
  assumes "h r = Some q" and "nxt (f q) = nxt q" and "prv (f q) = prv q"
  shows "chain nxt prv (h(r \<mapsto> f q)) p xs e = chain nxt prv h p xs e"
  using assms by (induction xs arbitrary: p) auto

lemma requests_ok_change:
  assumes "requests_ok sy reqs" and "r \<in> set reqs" and "sy_requests sy r = Some q"
    and "rq_next (f q) = rq_next q" and "rq_prev (f q) = rq_prev q"
  shows "requests_ok (sy\<lparr>sy_requests := (sy_requests sy)(r \<mapsto> f q)\<rparr>) reqs"
proof -
  have "r \<noteq> nd_requests_head (sy_node sy)" using assms(1,2) by (auto simp: requests_ok_def linked_def)
  then show ?thesis using assms(1) chain_change [of "sy_requests sy" r q rq_next f rq_prev, OF assms(3,4,5)]
    by (auto simp: requests_ok_def linked_def simp del: chain.simps)
qed

lemma find_request:
  assumes "requests_ok sy reqs" and "ev_connection ev \<noteq> 0"
  shows "find_node rq_next (answers ev c) (sy_requests sy) (nd_requests_head (sy_node sy)) =
    Some (hd (filter (\<lambda>r. answers ev c (request_at sy r)) reqs @ [0]))"
proof -
  let ?h = "sy_requests sy" and ?head = "nd_requests_head (sy_node sy)"
  have l: "linked rq_next rq_prev ?h ?head reqs" using assms(1) by (simp add: requests_ok_def)
  obtain q where q: "?h ?head = Some q" "rq_connection q = 0" using assms(1) by (auto simp: requests_ok_def)
  have "filter (\<lambda>a. \<exists>n. ?h a = Some n \<and> answers ev c n) reqs = filter (\<lambda>r. answers ev c (request_at sy r)) reqs"
  proof (rule filter_cong [OF refl])
    fix a
    assume "a \<in> set reqs"
    then obtain n where "?h a = Some n" using l chain_in_store by (fastforce simp: linked_def)
    then show "(\<exists>n. ?h a = Some n \<and> answers ev c n) = answers ev c (request_at sy a)" by (simp add: request_at_def)
  qed
  moreover have "find_node rq_next (answers ev c) ?h ?head = find_node rq_next (answers ev c) ?h (rq_next q)"
    using l q assms(2) by (subst find_node.simps) (auto simp: linked_def fetch_def answers_def)
  ultimately show ?thesis using find_nodes [OF l q(1), of "answers ev c"] by simp
qed


section \<open>Handing a response to its request\<close>

text \<open>The state in which the handler of the request is called.\<close>

lemma dispatch_at:
  assumes "requests_ok sy reqs" and "ev_type ev = EVENT_MESSAGE_RECEIVED"
    and "connection_at (sy_conns sy) (ev_connection ev) = Some c"
    and "filter (\<lambda>r. answers ev c (request_at sy r)) reqs = r # rest"
    and "callback (en_request_ops env) qo_request_completed (rq_request_ops (request_at sy r)) = Some f"
  shows "\<exists>sy1. requests_ok sy1 (remove1 r reqs) \<and> sy1 = sy\<lparr>sy_requests := sy_requests sy1\<rparr> \<and>
    request_at sy1 r = (request_at sy r)\<lparr>rq_next := 0, rq_prev := 0, rq_request_status := OK\<rparr> \<and>
    node_dispatch_response_message env ev sy =
      if_failed (Some (f ev r sy1))
        (\<lambda>e sy. if e = RETRY then Some (Err RETRY, sy) else consume_and_return ev (Err CONSUMED) sy)
        (consume_and_return ev (Err CONSUMED))"
proof -
  have "r \<in> set (filter (\<lambda>r. answers ev c (request_at sy r)) reqs)" using assms(4) by simp
  then have r: "r \<in> set reqs" by simp
  have l: "linked rq_next rq_prev (sy_requests sy) (nd_requests_head (sy_node sy)) reqs"
    using assms(1) by (simp add: requests_ok_def)
  have nz: "nd_requests_head (sy_node sy) \<noteq> 0" "r \<noteq> 0" using linked_nonzero [OF l] r by simp_all
  obtain q where q: "sy_requests sy r = Some q" using l r chain_in_store by (fastforce simp: linked_def)
  let ?f = "\<lambda>q. q\<lparr>rq_request_status := OK\<rparr>"
  let ?sy0 = "sy\<lparr>sy_requests := (sy_requests sy)(r \<mapsto> ?f q)\<rparr>"
  have ok0: "requests_ok ?sy0 reqs" by (rule requests_ok_change [OF assms(1) r q]) simp_all
  obtain sy1 where sy1: "remove_request r ?sy0 = Some sy1" "requests_ok sy1 (remove1 r reqs)"
      "sy1 = ?sy0\<lparr>sy_requests := sy_requests sy1\<rparr>"
      "sy_requests sy1 r = Some ((request_at ?sy0 r)\<lparr>rq_next := 0, rq_prev := 0\<rparr>)"
    using remove_request_at [OF ok0 r] by blast
  have e: "ev_connection ev \<noteq> 0" by (rule connection_at_nonzero [OF assms(3)])
  have d: "node_dispatch_response_message env ev sy =
      if_failed (Some (f ev r sy1))
        (\<lambda>e sy. if e = RETRY then Some (Err RETRY, sy) else consume_and_return ev (Err CONSUMED) sy)
        (consume_and_return ev (Err CONSUMED))"
    using assms(2,3,4,5) nz q find_request [OF assms(1) e, of c] sy1(1)
    by (simp add: node_dispatch_response_message_def Let_def change_def fetch_def request_at_def)
  have "sy1 = sy\<lparr>sy_requests := sy_requests sy1\<rparr>" using sy1(3) by simp
  moreover have "request_at sy1 r = (request_at sy r)\<lparr>rq_next := 0, rq_prev := 0, rq_request_status := OK\<rparr>"
    using sy1(4) q by (simp add: request_at_def)
  ultimately show ?thesis using sy1(2) d by blast
qed

lemma dispatch_none:
  assumes "requests_ok sy reqs" and "ev_type ev = EVENT_MESSAGE_RECEIVED"
    and "connection_at (sy_conns sy) (ev_connection ev) = Some c"
    and "filter (\<lambda>r. answers ev c (request_at sy r)) reqs = []"
  shows "node_dispatch_response_message env ev sy = Some (OK, sy)"
proof -
  have "nd_requests_head (sy_node sy) \<noteq> 0"
    using assms(1) linked_nonzero by (fastforce simp: requests_ok_def)
  then show ?thesis
    using assms(2,3,4) find_request [OF assms(1) connection_at_nonzero [OF assms(3)], of c]
    by (simp add: node_dispatch_response_message_def)
qed


section \<open>Timeouts\<close>

lemma process_skip:
  "chain rq_next rq_prev (sy_requests sy) p (xs @ ys) 0 \<Longrightarrow> (\<And>r. r \<in> set xs \<Longrightarrow> \<not> timed_out now (request_at sy r)) \<Longrightarrow>
     process_requests env now (hd (xs @ ys @ [0])) sy = process_requests env now (hd (ys @ [0])) sy"
proof (induction xs arbitrary: p)
  case (Cons x xs)
  obtain n where n: "sy_requests sy x = Some n" "x \<noteq> 0" "rq_next n = hd (xs @ ys @ [0])" using Cons.prems(1) by auto
  moreover have "\<not> timed_out now n" using Cons.prems(2) [of x] n(1) by (simp add: request_at_def)
  ultimately have "process_requests env now x sy = process_requests env now (hd (xs @ ys @ [0])) sy"
    by (subst process_requests.simps) (simp add: fetch_def)
  then show ?case using Cons.IH [of x] Cons.prems by simp
qed simp

lemma process_from_head:
  assumes "requests_ok sy reqs"
  shows "node_requests_process_control env now sy =
    do { sy \<leftarrow> process_requests env now (hd (reqs @ [0])) sy; Some (OK, sy) }"
proof -
  let ?head = "nd_requests_head (sy_node sy)"
  have l: "linked rq_next rq_prev (sy_requests sy) ?head reqs" using assms by (simp add: requests_ok_def)
  have c: "chain rq_next rq_prev (sy_requests sy) 0 ([?head] @ reqs) 0" using l by (simp add: linked_def)
  have "\<not> timed_out now (request_at sy r)" if "r \<in> set [?head]" for r
    using assms that by (auto simp: requests_ok_def request_at_def timed_out_def)
  then show ?thesis using process_skip [OF c, of now env] linked_nonzero [OF l, of ?head]
    by (simp add: node_requests_process_control_def)
qed

text \<open>The first request that has timed out is failed, and the loop ends behind it.\<close>

lemma process_first:
  assumes "requests_ok sy reqs" and "reqs = as @ r # bs" and "\<And>a. a \<in> set as \<Longrightarrow> \<not> timed_out now (request_at sy a)"
    and "timed_out now (request_at sy r)"
    and "callback (en_request_ops env) qo_request_error (rq_request_ops (request_at sy r)) = None"
  shows "\<exists>sy'. node_requests_process_control env now sy = Some (OK, sy') \<and> requests_ok sy' (as @ bs) \<and>
    request_at sy' r = (request_at sy r)\<lparr>rq_next := 0, rq_prev := 0, rq_request_status := Err TIMEOUT\<rparr> \<and>
    (\<forall>b\<in>set (as @ bs). rq_request_status (request_at sy' b) = rq_request_status (request_at sy b))"
proof -
  let ?h = "sy_requests sy"
  have l: "linked rq_next rq_prev ?h (nd_requests_head (sy_node sy)) reqs" using assms(1) by (simp add: requests_ok_def)
  have c: "chain rq_next rq_prev ?h (nd_requests_head (sy_node sy)) (as @ r # bs) 0"
    using l assms(2) by (simp add: linked_def)
  have r: "r \<in> set reqs" "r \<noteq> 0" "r \<notin> set as" "r \<notin> set bs" "r \<noteq> nd_requests_head (sy_node sy)"
    using l assms(2) linked_nonzero [OF l, of r] by (auto simp: linked_def)
  obtain sy1 where sy1: "remove_request r sy = Some sy1" "requests_ok sy1 (remove1 r reqs)"
      "sy1 = sy\<lparr>sy_requests := sy_requests sy1\<rparr>"
      "sy_requests sy1 r = Some ((request_at sy r)\<lparr>rq_next := 0, rq_prev := 0\<rparr>)"
      "request_links.same_payload ?h (sy_requests sy1)"
    using remove_request_at [OF assms(1) r(1)] by blast
  have rm: "remove1 r reqs = as @ bs" using assms(2) r by (simp add: remove1_append)
  let ?q = "(request_at sy r)\<lparr>rq_next := 0, rq_prev := 0, rq_request_status := Err TIMEOUT\<rparr>"
  let ?sy2 = "sy1\<lparr>sy_requests := (sy_requests sy1)(r \<mapsto> ?q)\<rparr>"
  obtain q where q: "?h r = Some q" using c by (auto simp: chain_append)
  have f: "fail_request env r sy = Some ?sy2"
    using sy1(1,4) r(2) assms(5) by (simp add: fail_request_def change_def fetch_def)
  have "process_requests env now r sy = Some ?sy2"
    using q r(2) assms(4) f
    by (subst process_requests.simps) (simp add: fetch_def request_at_def, subst process_requests.simps, simp)
  then have run: "node_requests_process_control env now sy = Some (OK, ?sy2)"
    using process_from_head [OF assms(1), of env now] process_skip [OF c assms(3), of env] assms(2) by simp
  have nh: "nd_requests_head (sy_node sy1) = nd_requests_head (sy_node sy)" using sy1(3) by (metis system.select_convs(3) system.update_convs(4) system.surjective)
  have "requests_ok ?sy2 (as @ bs)"
    using sy1(2) rm r nh by (auto simp: requests_ok_def linked_def)
  moreover have "rq_request_status (request_at ?sy2 b) = rq_request_status (request_at sy b)" if b: "b \<in> set (as @ bs)" for b
  proof -
    have "b \<in> set reqs" "b \<noteq> r" using b assms(2) r by auto
    then obtain n where n: "?h b = Some n" using l chain_in_store by (fastforce simp: linked_def)
    obtain n' where "sy_requests sy1 b = Some n'" "request_links.payload n' = request_links.payload n"
      by (rule same_payload_request [OF sy1(5) n])
    then show ?thesis using n payload_fields(5) [of n' n] \<open>b \<noteq> r\<close> by (simp add: request_at_def)
  qed
  ultimately show ?thesis using run by (intro exI [of _ ?sy2]) (simp add: request_at_def)
qed

lemma process_none:
  assumes "requests_ok sy reqs" and "\<And>r. r \<in> set reqs \<Longrightarrow> \<not> timed_out now (request_at sy r)"
  shows "node_requests_process_control env now sy = Some (OK, sy)"
proof -
  have c: "chain rq_next rq_prev (sy_requests sy) (nd_requests_head (sy_node sy)) (reqs @ []) 0"
    using assms(1) by (simp add: requests_ok_def linked_def)
  have "process_requests env now 0 sy = Some sy" by (subst process_requests.simps) simp
  then show ?thesis using process_from_head [OF assms(1)] process_skip [OF c assms(2), of env] by simp
qed


section \<open>Waking up\<close>

lemma request_wake:
  "chain rq_next rq_prev h p xs 0 \<Longrightarrow> \<exists>t. request_wake_from h (hd (xs @ [0])) w = Some t \<and> sint t \<le> sint w \<and>
     (\<forall>a\<in>set xs. rq_timeout_timespec (the (h a)) = 0 \<or> sint t \<le> sint (rq_timeout_timespec (the (h a))))"
proof (induction xs arbitrary: p w)
  case Nil
  show ?case by (subst request_wake_from.simps) simp
next
  case (Cons x xs)
  obtain n where n: "h x = Some n" "x \<noteq> 0" "rq_next n = hd (xs @ [0])" using Cons.prems by auto
  let ?w = "if rq_timeout_timespec n \<noteq> 0 \<and> sint (rq_timeout_timespec n) < sint w then rq_timeout_timespec n else w"
  obtain t where t: "request_wake_from h (hd (xs @ [0])) ?w = Some t" "sint t \<le> sint ?w"
      "\<forall>a\<in>set xs. rq_timeout_timespec (the (h a)) = 0 \<or> sint t \<le> sint (rq_timeout_timespec (the (h a)))"
    using Cons.IH [of x ?w] Cons.prems by auto
  have "request_wake_from h x w = Some t"
    using n t(1) by (subst request_wake_from.simps) (simp add: fetch_def)
  then show ?case using t n by (intro exI [of _ t]) (auto split: if_splits)
qed

text \<open>What a wake time has to do for a connection: be now, or not pass work, the heartbeat or the transport.\<close>

definition wakes_for :: "timespec \<Rightarrow> timespec \<Rightarrow> connection \<Rightarrow> bool" where
  "wakes_for now t c \<longleftrightarrow> has_state c STATUS_FLAGS_IDLE \<or> sint t \<le> sint now \<or>
     \<not> has_state c (STATUS_FLAGS_CLOSE_REQUESTED OR STATUS_FLAGS_ERROR) \<and>
     \<not> has_state c STATUS_FLAGS_MESSAGE_SENT \<and> \<not> has_state c STATUS_FLAGS_MESSAGE_RECEIVED \<and>
     (sint (cn_heartbeat_next_check_us c) \<le> 0 \<or> sint t \<le> sint (cn_heartbeat_next_check_us c)) \<and>
     (sint (cn_transport_next_wake c) \<le> 0 \<or> sint t \<le> sint (cn_transport_next_wake c))"

lemma wakes_for_earlier: "wakes_for now w c \<Longrightarrow> sint t \<le> max (sint w) (sint now) \<Longrightarrow> wakes_for now t c"
  by (auto simp: wakes_for_def max_def split: if_splits)

lemma connection_wake:
  "\<exists>t. connection_next_wake c now w = (OK, t) \<and> wakes_for now t c \<and> sint t \<le> max (sint w) (sint now)"
  by (auto simp: connection_next_wake_def wakes_for_def Let_def max_def)

lemma wake_from_seg:
  "seg h p ys 0 \<Longrightarrow> kinds_ok h \<Longrightarrow> \<exists>t. wake_from h now (front (filter (is_conn h) ys)) w = Some (OK, t) \<and>
     sint t \<le> max (sint w) (sint now) \<and> (\<forall>a c. a \<in> set ys \<and> h a = Some (Conn c) \<longrightarrow> wakes_for now t c)"
proof (induction ys arbitrary: p w)
  case Nil
  show ?case by (subst wake_from.simps) simp
next
  case (Cons x xs)
  have g: "seg h x xs 0" using Cons.prems(1) by simp
  show ?case
  proof (cases "is_conn h x")
    case False
    then have "\<not> (\<exists>c. h x = Some (Conn c))" by (simp add: is_conn_def)
    then show ?thesis using Cons.IH [OF g Cons.prems(2), of w] False by auto
  next
    case True
    then obtain c where c: "h x = Some (Conn c)" by (auto simp: is_conn_def)
    have x: "x \<noteq> 0" "connection_at h x = Some c" using Cons.prems(1) c by (auto simp: connection_at_def look_def)
    obtain u where u: "connection_next_wake c now w = (OK, u)" "wakes_for now u c" "sint u \<le> max (sint w) (sint now)"
      using connection_wake by blast
    obtain t where t: "wake_from h now (front (filter (is_conn h) xs)) u = Some (OK, t)" "sint t \<le> max (sint u) (sint now)"
        "\<forall>a c. a \<in> set xs \<and> h a = Some (Conn c) \<longrightarrow> wakes_for now t c"
      using Cons.IH [OF g Cons.prems(2), of u] by blast
    have "wake_from h now x w = Some (OK, t)"
      using x u(1) t(1) connection_next_seg [OF Cons.prems(1,2)] by (subst wake_from.simps) simp
    then show ?thesis using True t c u(3) wakes_for_earlier [OF u(2) t(2)] by (intro exI [of _ t]) auto
  qed
qed


section \<open>Properties\<close>

text \<open>A system with three requests on the connection at 2, of which two have timed out at 100.\<close>

definition sample_request :: "addr \<Rightarrow> addr \<Rightarrow> u32 \<Rightarrow> timespec \<Rightarrow> request" where
  "sample_request p n i t = zero_request\<lparr>rq_prev := p, rq_next := n, rq_connection := 2, rq_request_id := i,
     rq_timeout_timespec := t, rq_request_status := Err IN_PROGRESS, rq_request_ops := 30\<rparr>"

definition sample_system :: "nat system" where
  "sample_system = \<lparr>sy_world = 0, sy_conns = sample_store, sy_node = sample_node\<lparr>nd_requests_head := 20\<rparr>,
     sy_requests = [20 \<mapsto> zero_request\<lparr>rq_next := 21\<rparr>, 21 \<mapsto> sample_request 20 22 5 0,
                    22 \<mapsto> sample_request 21 23 6 50, 23 \<mapsto> sample_request 22 0 7 60],
     sy_services = demo, sy_clients = (\<lambda>_. None)\<rparr>"

text \<open>No callbacks but the handlers of requests, which succeed; and none at all.\<close>

definition quiet_environment :: "'w environment" where
  "quiet_environment = \<lparr>en_node_ops = (\<lambda>_. \<lparr>no_connection_event = None, no_send_complete = None, no_event_error_returned = None\<rparr>),
     en_service_ops = (\<lambda>_. \<lparr>vo_client_event = None\<rparr>), en_service_object_ops = (\<lambda>_. \<lparr>oo_message_received = None\<rparr>),
     en_client_ops = (\<lambda>_. \<lparr>lo_connected = None, lo_disconnected = None, lo_request_completed = None,
                           lo_request_error = None, lo_message_received = None\<rparr>),
     en_request_ops = (\<lambda>_. \<lparr>qo_request_completed = None, qo_request_error = None\<rparr>),
     en_object_ops = (\<lambda>_. \<lparr>op_communicate_recv = None, op_communicate_send = None, op_communicate_process_control = None,
                           op_prepare_wait = None, op_connection_close = None\<rparr>), en_rand = (\<lambda>w. (7, w))\<rparr>"

definition request_environment :: "'w environment" where
  "request_environment = quiet_environment\<lparr>en_request_ops :=
     (\<lambda>_. \<lparr>qo_request_completed = Some (\<lambda>ev r sy. (OK, sy)), qo_request_error = None\<rparr>)\<rparr>"

definition sample_response :: event where
  "sample_response = (event_of EVENT_MESSAGE_RECEIVED 2 7)\<lparr>ev_received_message :=
     zero_receive_data\<lparr>rd_entry_header := empty_entry_header\<lparr>eh_entry_type := 1122, eh_request_id := 6\<rparr>\<rparr>\<rparr>"

lemmas sample_system_simps = sample_system_def sample_request_def zero_request_def request_at_def

lemma sample_requests: "requests_ok sample_system [21, 22, 23]"
  by (simp add: requests_ok_def linked_def sample_system_simps)

lemma sample_connection_at: "connection_at (sy_conns sample_system) 2 = Some (sample_connection\<lparr>co_next := 3, co_prev := 1\<rparr>)"
  by (simp add: connection_at_def look_def sample_system_def sample_store_def)

text \<open>
  C3. Handing over a response: the first pending request of the event's connection with the id of the
  response is taken off the list with the status of a success, and its handler is called once with it; the
  other requests stay pending in their order. The event is consumed unless the handler asks to be called
  again.
\<close>

theorem response_dispatched:
  assumes "requests_ok sy reqs" and "ev_type ev = EVENT_MESSAGE_RECEIVED"
    and "connection_at (sy_conns sy) (ev_connection ev) = Some c"
    and "filter (\<lambda>r. answers ev c (request_at sy r)) reqs = r # rest"
    and "callback (en_request_ops env) qo_request_completed (rq_request_ops (request_at sy r)) = Some f"
  shows "\<exists>sy1. requests_ok sy1 (remove1 r reqs) \<and> sy1 = sy\<lparr>sy_requests := sy_requests sy1\<rparr> \<and>
    request_at sy1 r = (request_at sy r)\<lparr>rq_next := 0, rq_prev := 0, rq_request_status := OK\<rparr> \<and>
    node_dispatch_response_message env ev sy =
      (case f ev r sy1 of
         (Err RETRY, sy2) \<Rightarrow> Some (Err RETRY, sy2)
       | (_, sy2) \<Rightarrow> consume_and_return ev (Err CONSUMED) sy2)"
proof -
  obtain sy1 where "requests_ok sy1 (remove1 r reqs)" "sy1 = sy\<lparr>sy_requests := sy_requests sy1\<rparr>"
      "request_at sy1 r = (request_at sy r)\<lparr>rq_next := 0, rq_prev := 0, rq_request_status := OK\<rparr>"
      "node_dispatch_response_message env ev sy = if_failed (Some (f ev r sy1))
        (\<lambda>e sy. if e = RETRY then Some (Err RETRY, sy) else consume_and_return ev (Err CONSUMED) sy)
        (consume_and_return ev (Err CONSUMED))"
    using dispatch_at [OF assms] by blast
  then show ?thesis
    by (intro exI [of _ sy1]) (cases "f ev r sy1"; cases "fst (f ev r sy1)"; auto split: error.split)
qed

theorem response_dispatched_witness:
  "\<exists>sy1. requests_ok sy1 [21, 23] \<and> rq_request_status (request_at sy1 22) = OK \<and>
     node_dispatch_response_message request_environment sample_response sample_system =
       consume_and_return sample_response (Err CONSUMED) sy1"
proof -
  let ?c = "sample_connection\<lparr>co_next := 3, co_prev := 1\<rparr>"
  have a: "filter (\<lambda>r. answers sample_response ?c (request_at sample_system r)) [21, 22, 23] = 22 # []"
    by (simp add: answers_def sample_response_def event_of_def zero_event_def sample_system_simps zero_receive_data_def
        sample_connection_def)
  have f: "callback (en_request_ops request_environment) qo_request_completed (rq_request_ops (request_at sample_system 22))
      = Some (\<lambda>ev r sy. (OK, sy :: nat system))"
    by (simp add: callback_def request_environment_def sample_system_simps)
  show ?thesis
    using response_dispatched [OF sample_requests _ _ a f] sample_connection_at
    by (auto simp: sample_response_def event_of_def)
qed

text \<open>
  C8. Only the first request that has timed out is failed: removing it resets the link that the loop goes
  on with, so all requests behind it stay pending however late they are.
\<close>

theorem timeout_stops_at_first:
  assumes "requests_ok sy (as @ r # bs)" and "\<forall>a\<in>set as. \<not> timed_out now (request_at sy a)"
    and "timed_out now (request_at sy r)"
    and "callback (en_request_ops env) qo_request_error (rq_request_ops (request_at sy r)) = None"
  shows "\<exists>sy'. node_requests_process_control env now sy = Some (OK, sy') \<and> requests_ok sy' (as @ bs) \<and>
    rq_request_status (request_at sy' r) = Err TIMEOUT \<and>
    (\<forall>b\<in>set bs. rq_request_status (request_at sy' b) = rq_request_status (request_at sy b))"
proof -
  have "\<not> timed_out now (request_at sy a)" if "a \<in> set as" for a using assms(2) that by blast
  then show ?thesis using process_first [OF assms(1) refl _ assms(3,4)] by fastforce
qed

theorem timeout_stops_at_first_witness:
  "timed_out 100 (request_at sample_system 23) \<and>
   (\<exists>sy'. node_requests_process_control quiet_environment 100 sample_system = Some (OK, sy') \<and>
      rq_request_status (request_at sy' 22) = Err TIMEOUT \<and> rq_request_status (request_at sy' 23) = Err IN_PROGRESS)"
proof -
  have "callback (en_request_ops quiet_environment) qo_request_error (rq_request_ops (request_at sample_system 22)) = None"
    by (simp add: callback_def quiet_environment_def)
  moreover have "requests_ok sample_system ([21] @ 22 # [23])" using sample_requests by simp
  moreover have "\<forall>a\<in>set [21]. \<not> timed_out 100 (request_at sample_system a)" "timed_out 100 (request_at sample_system 22)"
      "timed_out 100 (request_at sample_system 23)" "rq_request_status (request_at sample_system 23) = Err IN_PROGRESS"
    by (simp_all add: timed_out_def sample_system_simps)
  ultimately show ?thesis
    using timeout_stops_at_first [of sample_system "[21]" 22 "[23]" 100 quiet_environment] by auto
qed

text \<open>
  C9. The node wakes up in time: the wake time it computes is never after the timeout of a pending
  request, and for each of its connections it is now, or the connection has no work and the wake time is
  not after its next heartbeat or the wake time of its transport.
\<close>

theorem node_wakes_in_time:
  assumes "requests_ok sy reqs" and "is_list (sy_conns sy) (nd_connections_head (sy_node sy)) conns" and "kinds_ok (sy_conns sy)"
  shows "\<exists>t. node_next_wake now w sy = Some (OK, t) \<and>
    (\<forall>r\<in>set reqs. rq_timeout_timespec (request_at sy r) = 0 \<or> sint t \<le> sint (rq_timeout_timespec (request_at sy r))) \<and>
    (\<forall>a c. a \<in> set conns \<and> sy_conns sy a = Some (Conn c) \<longrightarrow> wakes_for now t c)"
proof -
  let ?h = "sy_conns sy" and ?q = "sy_requests sy" and ?nd = "sy_node sy"
  let ?w = "if w = 0 then now + NODE_DEFAULT_SLEEP_TIME else w"
  have g: "seg ?h 0 (nd_connections_head ?nd # conns) 0" using assms(2) by (simp add: is_list_def)
  obtain u where u: "wake_from ?h now (front (filter (is_conn ?h) (nd_connections_head ?nd # conns))) ?w = Some (OK, u)"
      "\<forall>a c. a \<in> set (nd_connections_head ?nd # conns) \<and> ?h a = Some (Conn c) \<longrightarrow> wakes_for now u c"
    using wake_from_seg [OF g assms(3), of now ?w] by blast
  have l: "linked rq_next rq_prev ?q (nd_requests_head ?nd) reqs" using assms(1) by (simp add: requests_ok_def)
  obtain n where n: "fetch ?q (nd_requests_head ?nd) = Some n" "nd_requests_head ?nd \<noteq> 0" "rq_next n = hd (reqs @ [0])"
    by (rule chain_next_nodes [OF l])
  have c: "chain rq_next rq_prev ?q (nd_requests_head ?nd) reqs 0" using l n by (simp add: linked_def)
  obtain t where t: "request_wake_from ?q (hd (reqs @ [0])) u = Some t" "sint t \<le> sint u"
      "\<forall>a\<in>set reqs. rq_timeout_timespec (the (?q a)) = 0 \<or> sint t \<le> sint (rq_timeout_timespec (the (?q a)))"
    using request_wake [OF c, of u] by blast
  have "node_next_wake now w sy = Some (OK, t)"
    using connection_first_seg [OF g assms(3)] u(1) n t(1) by (simp add: node_next_wake_def)
  moreover have "wakes_for now t k" if "a \<in> set conns" "?h a = Some (Conn k)" for a k
    by (rule wakes_for_earlier [of now u]) (use u(2) that t(2) in auto)
  ultimately show ?thesis using t(3) unfolding request_at_def by blast
qed

theorem node_wakes_in_time_witness: "\<exists>t. node_next_wake 10 0 sample_system = Some (OK, t) \<and> sint t \<le> 50"
proof -
  have "is_list (sy_conns sample_system) (nd_connections_head (sy_node sample_system)) [2, 3, 4]" "kinds_ok (sy_conns sample_system)"
    using sample_list sample_kinds by (simp_all add: sample_system_def)
  from node_wakes_in_time [OF sample_requests this, of 10 0] show ?thesis by (auto simp: sample_system_simps)
qed

end
