(* ===== verification/RRL_NodeSpecial.thy ===== *)
theory RRL_NodeSpecial
  imports RRL_NodeRequest
begin

text \<open>
  The requests that the node answers itself, src/node.c: opening and closing a connection, connecting a
  client to a service, tests of the connection, and the questions for a service definition and for the
  type of an object; with the capabilities that two transports agree on.
\<close>

definition MESSAGEENTRYTYPE_STREAMOP :: u16 where "MESSAGEENTRYTYPE_STREAMOP = 1"
definition MESSAGEENTRYTYPE_STREAMOPRET :: u16 where "MESSAGEENTRYTYPE_STREAMOPRET = 2"
definition MESSAGEENTRYTYPE_GETSERVICEDESC :: u16 where "MESSAGEENTRYTYPE_GETSERVICEDESC = 101"
definition MESSAGEENTRYTYPE_OBJECTTYPENAME :: u16 where "MESSAGEENTRYTYPE_OBJECTTYPENAME = 103"
definition MESSAGEENTRYTYPE_OBJECTTYPENAMERET :: u16 where "MESSAGEENTRYTYPE_OBJECTTYPENAMERET = 104"
definition MESSAGEENTRYTYPE_CONNECTCLIENT :: u16 where "MESSAGEENTRYTYPE_CONNECTCLIENT = 107"
definition MESSAGEENTRYTYPE_CONNECTCLIENTRET :: u16 where "MESSAGEENTRYTYPE_CONNECTCLIENTRET = 108"
definition MESSAGEENTRYTYPE_DISCONNECTCLIENT :: u16 where "MESSAGEENTRYTYPE_DISCONNECTCLIENT = 109"
definition MESSAGEENTRYTYPE_CONNECTIONTESTRET :: u16 where "MESSAGEENTRYTYPE_CONNECTIONTESTRET = 112"
definition MESSAGEENTRYTYPE_GETNODEINFO :: u16 where "MESSAGEENTRYTYPE_GETNODEINFO = 113"

lemmas entry_type_defs = MESSAGEENTRYTYPE_STREAMOP_def MESSAGEENTRYTYPE_STREAMOPRET_def
  MESSAGEENTRYTYPE_GETSERVICEDESC_def MESSAGEENTRYTYPE_OBJECTTYPENAME_def MESSAGEENTRYTYPE_OBJECTTYPENAMERET_def
  MESSAGEENTRYTYPE_CONNECTCLIENT_def MESSAGEENTRYTYPE_CONNECTCLIENTRET_def MESSAGEENTRYTYPE_DISCONNECTCLIENT_def
  MESSAGEENTRYTYPE_CONNECTIONTEST_def MESSAGEENTRYTYPE_CONNECTIONTESTRET_def MESSAGEENTRYTYPE_GETNODEINFO_def


section \<open>Capabilities\<close>

definition PARSE_CAPABILITY_MESSAGE2 :: u32 where "PARSE_CAPABILITY_MESSAGE2 = 0x1"
definition PARSE_CAPABILITY_MESSAGE4 :: u32 where "PARSE_CAPABILITY_MESSAGE4 = 0x2"
definition CAPABILITY_CODE_PAGE_MASK :: u32 where "CAPABILITY_CODE_PAGE_MASK = 0xFFF00000"
definition CAPABILITY_CODE_MESSAGE2_BASIC_PAGE :: u32 where "CAPABILITY_CODE_MESSAGE2_BASIC_PAGE = 0x02000000"
definition CAPABILITY_CODE_MESSAGE2_BASIC_ENABLE :: u32 where "CAPABILITY_CODE_MESSAGE2_BASIC_ENABLE = 0x1"
definition CAPABILITY_CODE_MESSAGE4_BASIC_PAGE :: u32 where "CAPABILITY_CODE_MESSAGE4_BASIC_PAGE = 0x04000000"
definition CAPABILITY_CODE_MESSAGE4_BASIC_ENABLE :: u32 where "CAPABILITY_CODE_MESSAGE4_BASIC_ENABLE = 0x1"

lemmas capability_defs = PARSE_CAPABILITY_MESSAGE2_def PARSE_CAPABILITY_MESSAGE4_def CAPABILITY_CODE_PAGE_MASK_def
  CAPABILITY_CODE_MESSAGE2_BASIC_PAGE_def CAPABILITY_CODE_MESSAGE2_BASIC_ENABLE_def
  CAPABILITY_CODE_MESSAGE4_BASIC_PAGE_def CAPABILITY_CODE_MESSAGE4_BASIC_ENABLE_def

definition CAPABILITIES :: const_string where "CAPABILITIES = ascii ''capabilities''"

text \<open>The flags that one code sets.\<close>

definition parse_code :: "u32 \<Rightarrow> u32 \<Rightarrow> u32" where
  "parse_code c flags =
     (let flags = (if c AND CAPABILITY_CODE_PAGE_MASK = CAPABILITY_CODE_MESSAGE2_BASIC_PAGE \<and>
                      FLAGS_CHECK c CAPABILITY_CODE_MESSAGE2_BASIC_ENABLE
                   then FLAGS_SET flags PARSE_CAPABILITY_MESSAGE2 else flags)
      in if c AND CAPABILITY_CODE_PAGE_MASK = CAPABILITY_CODE_MESSAGE4_BASIC_PAGE \<and>
            FLAGS_CHECK c CAPABILITY_CODE_MESSAGE4_BASIC_ENABLE
         then FLAGS_SET flags PARSE_CAPABILITY_MESSAGE4 else flags)"

text \<open>The loop over the codes from the \<open>i\<close>th on, \<open>n\<close> of them.\<close>

fun parse_codes :: "buffer_vec \<Rightarrow> size_t \<Rightarrow> size_t \<Rightarrow> nat \<Rightarrow> u32 \<Rightarrow> status \<times> u32" where
  "parse_codes bv start i 0 flags = (OK, flags)"
| "parse_codes bv start i (Suc n) flags =
     (case buffer_vec_copy_to_uint32 bv (sz_add start (sz_mul i 4)) of
        Inl e \<Rightarrow> (Err INTERNAL_ERROR, flags)
      | Inr c \<Rightarrow> parse_codes bv start (Suc i) n (parse_code c flags))"

definition fresh_element_reader :: messageelement_reader where
  "fresh_element_reader = \<lparr>lr_buffer_offset = 0, lr_buffer_count = 0, lr_buffer_remaining = 0,
     lr_current_element = 0, lr_total_elements = 0, lr_message_version = 0\<rparr>"

definition node_transport_parse_capabilities :: "buffer_vec \<Rightarrow> messageentry_reader \<Rightarrow> (status \<times> u32) option" where
  "node_transport_parse_capabilities bv entry_reader = do {
     (rv, r) \<leftarrow> messageentry_reader_find_element_verify_array bv entry_reader CAPABILITIES fresh_element_reader
                 DATATYPE_UINT32 1024 True;
     if rv \<noteq> OK then Some (OK, 0)
     else (case messageelement_reader_read_header_ex bv r zero_element_header no_element_info of
             (Err e, _) \<Rightarrow> Some (OK, 0)
           | (OK, h, info) \<Rightarrow>
               Some (parse_codes bv (li_data_start_offset info) 0 (unat (lh_data_count h)) 0)) }"

definition capability_codes :: "u32 \<Rightarrow> u32 list" where
  "capability_codes flags =
     (if FLAGS_CHECK flags PARSE_CAPABILITY_MESSAGE2
      then [CAPABILITY_CODE_MESSAGE2_BASIC_PAGE OR CAPABILITY_CODE_MESSAGE2_BASIC_ENABLE] else []) @
     (if FLAGS_CHECK flags PARSE_CAPABILITY_MESSAGE4
      then [CAPABILITY_CODE_MESSAGE4_BASIC_PAGE OR CAPABILITY_CODE_MESSAGE4_BASIC_ENABLE] else [])"

definition node_transport_populate_capabilities ::
  "buffer_vec \<Rightarrow> messageelement_writer \<Rightarrow> u32 \<Rightarrow> status \<times> buffer_vec \<times> messageelement_writer" where
  "node_transport_populate_capabilities bv w capability_flags =
     (let caps = capability_codes capability_flags in
      if length caps > 0
      then messageelement_writer_write_uint32_array bv w CAPABILITIES (concat (map u32_bytes caps)) (length caps)
      else (OK, bv, w))"


section \<open>Requests about connections\<close>

text \<open>\<open>rv = ...; if (FAILED(rv)) return handle_error(event, rv);\<close>\<close>

definition special_request_handle_error :: "event \<Rightarrow> error \<Rightarrow> 'w step" where
  "special_request_handle_error ev err sy =
     (if err = RETRY then Some (Err RETRY, sy)
      else do {
        sy \<leftarrow> update_connection (ev_connection ev) connection_error sy;
        consume_and_return ev (Err CONSUMED) sy })"

definition reply_service_not_found :: "event \<Rightarrow> 'w step" where
  "reply_service_not_found ev =
     respond_error ev MESSAGEERRORTYPE_SERVICENOTFOUND ''RobotRaconteur.ServiceNotFound'' ''Service not found''"

definition send_empty_response :: "event \<Rightarrow> 'w step" where
  "send_empty_response ev sy =
     with_connection (ev_connection ev)
       (\<lambda>c. node_send_messageentry_empty_response (sy_node sy) c (rd_entry_header (ev_received_message ev))) sy"

definition received_capabilities :: "event \<Rightarrow> 'w system \<Rightarrow> u32 option" where
  "received_capabilities ev sy = do {
     c \<leftarrow> connection_at (sy_conns sy) (ev_connection ev);
     (_, flags) \<leftarrow> node_transport_parse_capabilities (recv_buffer_vec c) (rd_entry_reader (ev_received_message ev));
     Some flags }"

text \<open>Beginning a response, writing elements, and ending it; \<open>uninitialised\<close> is the local send data.\<close>

definition begin_response :: "event \<Rightarrow> send_data \<Rightarrow> 'w system \<Rightarrow> (status \<times> send_data \<times> 'w system) option" where
  "begin_response ev uninitialised sy = do {
     ((rv, sd), sy) \<leftarrow> with_connection (ev_connection ev)
        (\<lambda>c. case node_begin_send_messageentry_response (sy_node sy) c uninitialised
                    (rd_entry_header (ev_received_message ev)) of (rv, c, sd) \<Rightarrow> ((rv, sd), c)) sy;
     Some (rv, sd, sy) }"

definition write_response ::
  "addr \<Rightarrow> (buffer_vec \<Rightarrow> messageelement_writer \<Rightarrow> status \<times> buffer_vec \<times> messageelement_writer) \<Rightarrow> send_data
     \<Rightarrow> 'w system \<Rightarrow> (status \<times> send_data \<times> 'w system) option" where
  "write_response a f sd sy = do {
     ((rv, sd), sy) \<leftarrow> with_connection a (\<lambda>c. case write_elements f c sd of (rv, c, sd) \<Rightarrow> ((rv, sd), c)) sy;
     Some (rv, sd, sy) }"

definition send_capabilities :: "event \<Rightarrow> send_data \<Rightarrow> u32 \<Rightarrow> 'w step \<Rightarrow> 'w step" where
  "send_capabilities ev uninitialised caps_flags good sy = do {
     (rv, sd, sy) \<leftarrow> begin_response ev uninitialised sy;
     (case rv of
        Err e \<Rightarrow> special_request_handle_error ev e sy
      | OK \<Rightarrow> do {
          (rv, sd, sy) \<leftarrow> write_response (ev_connection ev) (\<lambda>bv w. node_transport_populate_capabilities bv w caps_flags) sd sy;
          (case rv of
             Err e \<Rightarrow> special_request_handle_error ev INTERNAL_ERROR sy
           | OK \<Rightarrow> do {
               (rv, sd, sy) \<leftarrow> end_send (ev_connection ev) sd sy;
               (case rv of Err e \<Rightarrow> special_request_handle_error ev e sy | OK \<Rightarrow> good sy) }) }) }"

definition CREATE_CONNECTION :: "byte list" where "CREATE_CONNECTION = ascii ''CreateConnection''"

definition creates_connection :: "event \<Rightarrow> connection \<Rightarrow> bool \<Rightarrow> bool" where
  "creates_connection ev c server \<longleftrightarrow>
     string_cmp_c_str (eh_member_name (rd_entry_header (ev_received_message ev))) CREATE_CONNECTION = 0 \<and>
     connection_is_server c = server \<and> \<not> has_state c STATUS_FLAGS_ESTABLISHED"

definition copy_sender_nodeid :: "event \<Rightarrow> connection \<Rightarrow> status \<times> connection" where
  "copy_sender_nodeid ev c =
     (case nodeid_copy_to (mh_sender_nodeid (rd_message_header (ev_received_message ev))) (cn_remote_nodeid c) of
        (st, i) \<Rightarrow> (st, c\<lparr>cn_remote_nodeid := i\<rparr>))"

text \<open>A server is asked for a connection.\<close>

definition server_create_connection :: "event \<Rightarrow> send_data \<Rightarrow> 'w step" where
  "server_create_connection ev uninitialised sy = do {
     (rv, sy) \<leftarrow> with_connection (ev_connection ev) (copy_sender_nodeid ev) sy;
     if rv \<noteq> OK then Some (Err INTERNAL_ERROR, sy)
     else do {
       caps_flags \<leftarrow> (if unat (eh_element_count (rd_entry_header (ev_received_message ev))) > 0
                     then received_capabilities ev sy else Some 0);
       sy \<leftarrow> (if FLAGS_CHECK caps_flags PARSE_CAPABILITY_MESSAGE4
             then update_connection (ev_connection ev) (set_state STATUS_FLAGS_SEND_MESSAGE4) sy else Some sy);
       let established = (\<lambda>sy. do {
         sy \<leftarrow> update_connection (ev_connection ev) (set_state STATUS_FLAGS_ESTABLISHED) sy;
         consume_and_return ev (Err CONSUMED) sy });
       if caps_flags = 0
       then if_failed (send_empty_response ev sy) (special_request_handle_error ev) established
       else send_capabilities ev uninitialised caps_flags established sy } }"

text \<open>The search for a service compares names only.\<close>

definition requested_service :: "event \<Rightarrow> 'w system \<Rightarrow> addr option" where
  "requested_service ev sy = do {
     s \<leftarrow> fetch (ss_services (sy_services sy)) (nd_services_head (sy_node sy));
     find_node sv_next
       (\<lambda>s. string_cmp (eh_service_path (rd_entry_header (ev_received_message ev))) (sv_service_name s) = 0)
       (ss_services (sy_services sy)) (sv_next s) }"

text \<open>A local endpoint of 0 is drawn at random.\<close>

definition draw_endpoint :: "'w environment \<Rightarrow> addr \<Rightarrow> 'w system \<Rightarrow> 'w system option" where
  "draw_endpoint env a sy = do {
     c \<leftarrow> connection_at (sy_conns sy) a;
     if cn_local_endpoint c = 0
     then (case en_rand env (sy_world sy) of
             (r, w) \<Rightarrow> update_connection a (\<lambda>c. c\<lparr>cn_local_endpoint := r\<rparr>) (sy\<lparr>sy_world := w\<rparr>))
     else Some sy }"

definition reduce_headers :: "connection \<Rightarrow> connection" where
  "reduce_headers c =
     (if FLAGS_CHECK (cn_config_flags c) CONFIG_FLAGS_ENABLE_REDUCED_HEADER4
      then c\<lparr>cn_message_flags_inv_mask := MESSAGE_FLAGS_ROUTING_INFO OR MESSAGE_FLAGS_ENDPOINT_INFO\<rparr> else c)"

definition connect_client :: "'w environment \<Rightarrow> event \<Rightarrow> 'w step" where
  "connect_client env ev sy = do {
     connected_service \<leftarrow> (if nd_services_head (sy_node sy) \<noteq> 0 then requested_service ev sy else Some 0);
     if nd_services_head (sy_node sy) \<noteq> 0 \<and> connected_service = 0
     then if_failed (reply_service_not_found ev sy) (special_request_handle_error ev) (consume_and_return ev (Err CONSUMED))
     else do {
       sy \<leftarrow> draw_endpoint env (ev_connection ev) sy;
       sy \<leftarrow> update_connection (ev_connection ev)
              (\<lambda>c. c\<lparr>cn_remote_endpoint := mh_sender_endpoint (rd_message_header (ev_received_message ev))\<rparr>) sy;
       if_failed (send_empty_response ev sy) (special_request_handle_error ev) (\<lambda>sy. do {
         sy \<leftarrow> update_connection (ev_connection ev)
                (\<lambda>c. reduce_headers ((set_state STATUS_FLAGS_CLIENT_ESTABLISHED c)\<lparr>cn_service := connected_service\<rparr>)) sy;
         consume_and_return ev (Err CONSUMED) sy }) } }"

text \<open>What is left over: a request is answered with an error, a response is for the user.\<close>

definition special_request_default :: "event \<Rightarrow> 'w step" where
  "special_request_default ev sy =
     (if eh_entry_type (rd_entry_header (ev_received_message ev)) mod 2 = 1
      then do {
        (rv, sy) \<leftarrow> node_event_respond_invalid_operation ev sy;
        if rv = Err RETRY then Some (Err RETRY, sy) else consume_and_return ev (Err CONSUMED) sy }
      else Some (OK, sy))"

text \<open>A client consumes the event and still answers the request as an invalid one.\<close>

definition answer_empty :: "event \<Rightarrow> 'w step" where
  "answer_empty ev sy = do {
     c \<leftarrow> connection_at (sy_conns sy) (ev_connection ev);
     if \<not> connection_is_server c
     then do { (_, sy) \<leftarrow> consume_event ev sy; special_request_default ev sy }
     else if_failed (send_empty_response ev sy) (special_request_handle_error ev) (consume_and_return ev (Err CONSUMED)) }"

definition disconnect_client :: "event \<Rightarrow> 'w step" where
  "disconnect_client ev sy = do {
     sy \<leftarrow> update_connection (ev_connection ev)
            (\<lambda>c. (clear_state STATUS_FLAGS_CLIENT_ESTABLISHED c)\<lparr>cn_service := 0\<rparr>) sy;
     answer_empty ev sy }"

text \<open>The responses that a client gets.\<close>

definition client_connection_created :: "event \<Rightarrow> 'w step" where
  "client_connection_created ev sy = do {
     (rv, sy) \<leftarrow> with_connection (ev_connection ev) (copy_sender_nodeid ev) sy;
     if rv \<noteq> OK then Some (Err INTERNAL_ERROR, sy)
     else do {
       sy \<leftarrow> update_connection (ev_connection ev) (set_state STATUS_FLAGS_ESTABLISHED) sy;
       caps_flags \<leftarrow> received_capabilities ev sy;
       sy \<leftarrow> (if FLAGS_CHECK caps_flags PARSE_CAPABILITY_MESSAGE4
             then update_connection (ev_connection ev) (\<lambda>c. reduce_headers (set_state STATUS_FLAGS_SEND_MESSAGE4 c)) sy
             else Some sy);
       Some (OK, sy) } }"

definition client_connected :: "event \<Rightarrow> connection \<Rightarrow> connection" where
  "client_connected ev c = set_state STATUS_FLAGS_CLIENT_ESTABLISHED
     (c\<lparr>cn_remote_endpoint := mh_sender_endpoint (rd_message_header (ev_received_message ev))\<rparr>)"

definition node_event_special_request :: "'w environment \<Rightarrow> send_data \<Rightarrow> event \<Rightarrow> 'w step" where
  "node_event_special_request env uninitialised ev sy =
     (let t = eh_entry_type (rd_entry_header (ev_received_message ev)); a = ev_connection ev in
      if t > 500 then Some (OK, sy)
      else if ev_event_error_code ev \<noteq> OK then do {
        sy \<leftarrow> update_connection a connection_error sy;
        consume_and_return ev (Err CONSUMED) sy }
      else do {
        c \<leftarrow> connection_at (sy_conns sy) a;
        if t = MESSAGEENTRYTYPE_STREAMOP \<and> creates_connection ev c True then server_create_connection ev uninitialised sy
        else if t = MESSAGEENTRYTYPE_GETSERVICEDESC \<or> t = MESSAGEENTRYTYPE_OBJECTTYPENAME then Some (OK, sy)
        else if t = MESSAGEENTRYTYPE_CONNECTCLIENT then connect_client env ev sy
        else if t = MESSAGEENTRYTYPE_DISCONNECTCLIENT then disconnect_client ev sy
        else if t = MESSAGEENTRYTYPE_CONNECTIONTEST \<or> t = MESSAGEENTRYTYPE_GETNODEINFO then answer_empty ev sy
        else if t = MESSAGEENTRYTYPE_STREAMOPRET \<and> creates_connection ev c False then client_connection_created ev sy
        else if t = MESSAGEENTRYTYPE_CONNECTCLIENTRET \<and> \<not> connection_is_server c \<and>
                \<not> has_state c STATUS_FLAGS_CLIENT_ESTABLISHED
        then do { sy \<leftarrow> update_connection a (client_connected ev) sy; Some (OK, sy) }
        else if t = MESSAGEENTRYTYPE_CONNECTIONTESTRET then consume_and_return ev (Err CONSUMED) sy
        else special_request_default ev sy })"

end
