(* ===== verification/RRL_ClientHandshake.thy ===== *)
theory RRL_ClientHandshake
  imports RRL_NodeSpecial
begin

text \<open>
  The handshake of a client, src/node.c: a state machine that is driven by the events of the client's
  connection. It opens the connection, asks for the type of the root object, compares it with the types
  the client expects, and connects to the service.
\<close>

definition CLIENT_HANDSHAKE_INIT :: u32 where "CLIENT_HANDSHAKE_INIT = 0"
definition CLIENT_HANDSHAKE_CREATECONNECTION_SENT :: u32 where "CLIENT_HANDSHAKE_CREATECONNECTION_SENT = 2"
definition CLIENT_HANDSHAKE_CREATECONNECTION_COMPLETED :: u32 where "CLIENT_HANDSHAKE_CREATECONNECTION_COMPLETED = 3"
definition CLIENT_HANDSHAKE_OBJECTTYPE_SENT :: u32 where "CLIENT_HANDSHAKE_OBJECTTYPE_SENT = 4"
definition CLIENT_HANDSHAKE_OBJECTTYPE_COMPLETED :: u32 where "CLIENT_HANDSHAKE_OBJECTTYPE_COMPLETED = 5"
definition CLIENT_HANDSHAKE_CONNECTCLIENT_SENT :: u32 where "CLIENT_HANDSHAKE_CONNECTCLIENT_SENT = 6"
definition CLIENT_HANDSHAKE_CONNECTCLIENT_COMPLETED :: u32 where "CLIENT_HANDSHAKE_CONNECTCLIENT_COMPLETED = 7"
definition CLIENT_HANDSHAKE_COMPLETED :: u32 where "CLIENT_HANDSHAKE_COMPLETED = 8"
definition CLIENT_HANDSHAKE_ERROR :: u32 where "CLIENT_HANDSHAKE_ERROR = 9"
definition CLIENT_HANDSHAKE_INVALID_OBJECT_TYPE :: u32 where "CLIENT_HANDSHAKE_INVALID_OBJECT_TYPE = 10"

lemmas handshake_state_defs = CLIENT_HANDSHAKE_INIT_def CLIENT_HANDSHAKE_CREATECONNECTION_SENT_def
  CLIENT_HANDSHAKE_CREATECONNECTION_COMPLETED_def CLIENT_HANDSHAKE_OBJECTTYPE_SENT_def
  CLIENT_HANDSHAKE_OBJECTTYPE_COMPLETED_def CLIENT_HANDSHAKE_CONNECTCLIENT_SENT_def
  CLIENT_HANDSHAKE_CONNECTCLIENT_COMPLETED_def CLIENT_HANDSHAKE_COMPLETED_def CLIENT_HANDSHAKE_ERROR_def
  CLIENT_HANDSHAKE_INVALID_OBJECT_TYPE_def


section \<open>The type of the root object\<close>

text \<open>
  The loop over the nested elements; the result is an error or whether a type matched. A loop that does
  not end is \<open>None\<close>.
\<close>

partial_function (option) implements_loop ::
  "buffer_vec \<Rightarrow> const_string \<Rightarrow> messageelement_reader \<Rightarrow> (error + bool) option" where
  "implements_loop bv expected_type r =
     (case messageelement_reader_read_data_string bv r string_storage of
        (Err e, _) \<Rightarrow> Some (Inl e)
      | (OK, s) \<Rightarrow>
          (if util_match_string_in_list expected_type (snd (string_shallow_copy_from_mutable s [])) = 1
           then Some (Inr True)
           else (case messageelement_reader_move_next bv r of
                   (Err e, _) \<Rightarrow> Some (if e = NO_MORE then Inr False else Inl e)
                 | (OK, r) \<Rightarrow> implements_loop bv expected_type r)))"

definition client_verify_objecttype_response ::
  "buffer_vec \<Rightarrow> messageentry_reader \<Rightarrow> const_string \<Rightarrow> (error + bool) option" where
  "client_verify_objecttype_response bv entry_reader expected_type = do {
     (rv, r) \<leftarrow> messageentry_reader_find_element_verify_string_c_str bv entry_reader (Some (ascii ''objecttype''))
                 fresh_element_reader (of_nat MESSAGE_STR_MAX_SIZE);
     (case rv of
        Err e \<Rightarrow> Some (Inl e)
      | OK \<Rightarrow>
          (case messageelement_reader_read_data_string bv r string_storage of
             (Err e, _) \<Rightarrow> Some (Inl e)
           | (OK, s) \<Rightarrow>
               (if util_match_string_in_list expected_type (snd (string_shallow_copy_from_mutable s [])) = 1
                then Some (Inr True)
                else do {
                  (rv, r) \<leftarrow> messageentry_reader_find_element_c_str bv entry_reader (Some (ascii ''objectimplements'')) r;
                  (case rv of
                     Err e \<Rightarrow> Some (if e = MESSAGEELEMENT_NOT_FOUND then Inr False else Inl e)
                   | OK \<Rightarrow>
                       (case messageelement_reader_begin_read_nested_elements bv r fresh_element_reader of
                          (Err e, _) \<Rightarrow> Some (Inr False)
                        | (OK, nested) \<Rightarrow> implements_loop bv expected_type nested)) }))) }"


section \<open>Errors and requests\<close>

definition set_handshake :: "addr \<Rightarrow> u32 \<Rightarrow> 'w system \<Rightarrow> 'w system option" where
  "set_handshake client st sy = with_client client (\<lambda>k. k\<lparr>cl_handshake_state := st\<rparr>) sy"

definition client_handshake_error :: "addr \<Rightarrow> 'w step" where
  "client_handshake_error client sy = do {
     k \<leftarrow> fetch (sy_clients sy) client;
     (rv, sy) \<leftarrow> with_connection (cl_client_connection k) connection_close sy;
     if rv \<noteq> OK then Some (Err INTERNAL_ERROR, sy)
     else do { sy \<leftarrow> set_handshake client CLIENT_HANDSHAKE_ERROR sy; Some (Err RETRY, sy) } }"

definition client_handshake_handle_error :: "addr \<Rightarrow> error \<Rightarrow> 'w step" where
  "client_handshake_handle_error client rv sy =
     (if rv = RETRY then Some (Err RETRY, sy) else client_handshake_error client sy)"

definition client_handshake_begin_request ::
  "addr \<Rightarrow> u16 \<Rightarrow> byte list option \<Rightarrow> 'w system \<Rightarrow> (status \<times> send_data \<times> 'w system) option" where
  "client_handshake_begin_request client entry_type membername sy = do {
     k \<leftarrow> fetch (sy_clients sy) client;
     (rv, sd, sy) \<leftarrow> client_begin_request_c_str False (cl_client_connection k) zero_send_data entry_type membername None 0 sy;
     sy \<leftarrow> with_client client (\<lambda>k. k\<lparr>cl_handshake_request_id := eh_request_id (sd_entry_header sd)\<rparr>) sy;
     Some (rv, sd, sy) }"

text \<open>The end of a request, and the next state.\<close>

definition end_handshake_request :: "addr \<Rightarrow> send_data \<Rightarrow> u32 \<Rightarrow> 'w step" where
  "end_handshake_request client sd st sy = do {
     k \<leftarrow> fetch (sy_clients sy) client;
     (rv, sd, sy) \<leftarrow> end_send (cl_client_connection k) sd sy;
     (case rv of
        Err e \<Rightarrow> client_handshake_handle_error client e sy
      | OK \<Rightarrow> do { sy \<leftarrow> set_handshake client st sy; Some (Err RETRY, sy) }) }"

definition send_handshake_request :: "addr \<Rightarrow> u16 \<Rightarrow> u32 \<Rightarrow> 'w step" where
  "send_handshake_request client entry_type st sy = do {
     (rv, sd, sy) \<leftarrow> client_handshake_begin_request client entry_type None sy;
     (case rv of
        Err e \<Rightarrow> client_handshake_handle_error client e sy
      | OK \<Rightarrow> end_handshake_request client sd st sy) }"

text \<open>
  The first request. The connection is made to look connected while the request is begun, and its state
  is put back to what it was.
\<close>

definition handshake_init :: "'w environment \<Rightarrow> addr \<Rightarrow> 'w step" where
  "handshake_init env client sy = do {
     k \<leftarrow> fetch (sy_clients sy) client;
     let a = cl_client_connection k;
     sy \<leftarrow> draw_endpoint env a sy;
     let (r, w) = en_rand env (sy_world sy);
     let sy = sy\<lparr>sy_world := w\<rparr>;
     c \<leftarrow> connection_at (sy_conns sy) a;
     let old_connection_state = cn_connection_state c;
     sy \<leftarrow> update_connection a (\<lambda>c. set_state STATUS_FLAGS_CONNECTED (clear_state STATUS_FLAGS_CONNECTING
             (c\<lparr>cn_last_request_id := 100 + r mod 100000\<rparr>))) sy;
     (rv, sd, sy) \<leftarrow> client_handshake_begin_request client MESSAGEENTRYTYPE_STREAMOP (Some CREATE_CONNECTION) sy;
     sy \<leftarrow> update_connection a (\<lambda>c. c\<lparr>cn_connection_state := old_connection_state\<rparr>) sy;
     (case rv of
        Err e \<Rightarrow> client_handshake_handle_error client e sy
      | OK \<Rightarrow> do {
          (rv, sd, sy) \<leftarrow> write_response a (\<lambda>bv w. node_transport_populate_capabilities bv w
                              (PARSE_CAPABILITY_MESSAGE2 OR PARSE_CAPABILITY_MESSAGE4)) sd sy;
          (case rv of
             Err e \<Rightarrow> client_handshake_handle_error client e sy
           | OK \<Rightarrow> end_handshake_request client sd CLIENT_HANDSHAKE_CREATECONNECTION_SENT sy) }) }"


section \<open>The state machine\<close>

text \<open>The second \<open>switch\<close>: what the client does next.\<close>

definition handshake_advance :: "'w environment \<Rightarrow> addr \<Rightarrow> 'w step" where
  "handshake_advance env client sy = do {
     k \<leftarrow> fetch (sy_clients sy) client;
     let st = cl_handshake_state k;
     if st = CLIENT_HANDSHAKE_INIT then handshake_init env client sy
     else if st = CLIENT_HANDSHAKE_CREATECONNECTION_SENT then Some (Err RETRY, sy)
     else if st = CLIENT_HANDSHAKE_CREATECONNECTION_COMPLETED
     then send_handshake_request client MESSAGEENTRYTYPE_OBJECTTYPENAME CLIENT_HANDSHAKE_OBJECTTYPE_SENT sy
     else if st = CLIENT_HANDSHAKE_OBJECTTYPE_SENT then Some (Err RETRY, sy)
     else if st = CLIENT_HANDSHAKE_OBJECTTYPE_COMPLETED
     then send_handshake_request client MESSAGEENTRYTYPE_CONNECTCLIENT CLIENT_HANDSHAKE_CONNECTCLIENT_SENT sy
     else if st = CLIENT_HANDSHAKE_CONNECTCLIENT_SENT then Some (Err RETRY, sy)
     else if st = CLIENT_HANDSHAKE_CONNECTCLIENT_COMPLETED
     then do { sy \<leftarrow> set_handshake client CLIENT_HANDSHAKE_COMPLETED sy; Some (OK, sy) }
     else client_handshake_error client sy }"

definition consume_and_advance :: "'w environment \<Rightarrow> addr \<Rightarrow> event \<Rightarrow> 'w step" where
  "consume_and_advance env client ev sy = do { (_, sy) \<leftarrow> consume_event ev sy; handshake_advance env client sy }"

text \<open>A message that arrives during the handshake.\<close>

definition handshake_message :: "'w environment \<Rightarrow> addr \<Rightarrow> event \<Rightarrow> 'w step" where
  "handshake_message env client ev sy = do {
     k \<leftarrow> fetch (sy_clients sy) client;
     let st = cl_handshake_state k;
     let h = rd_entry_header (ev_received_message ev);
     if st = CLIENT_HANDSHAKE_CREATECONNECTION_SENT then
       (if eh_entry_type h \<noteq> MESSAGEENTRYTYPE_STREAMOPRET then client_handshake_error client sy
        else do {
          sy \<leftarrow> update_connection (cl_client_connection k)
                 (\<lambda>c. if has_state c STATUS_FLAGS_CONNECTING
                      then set_state STATUS_FLAGS_CONNECTED (clear_state STATUS_FLAGS_CONNECTING c) else c) sy;
          sy \<leftarrow> set_handshake client CLIENT_HANDSHAKE_CREATECONNECTION_COMPLETED sy;
          consume_and_advance env client ev sy })
     else if st = CLIENT_HANDSHAKE_OBJECTTYPE_SENT then
       (if eh_entry_type h \<noteq> MESSAGEENTRYTYPE_OBJECTTYPENAMERET then client_handshake_error client sy
        else do {
          c \<leftarrow> connection_at (sy_conns sy) (ev_connection ev);
          ok \<leftarrow> (if length (cl_expected_root_object_type k) > 0
                then client_verify_objecttype_response (recv_buffer_vec c) (rd_entry_reader (ev_received_message ev))
                       (cl_expected_root_object_type k)
                else Some (Inr True));
          (_, sy) \<leftarrow> consume_event ev sy;
          sy \<leftarrow> set_handshake client (if ok = Inr True then CLIENT_HANDSHAKE_OBJECTTYPE_COMPLETED
                                     else CLIENT_HANDSHAKE_INVALID_OBJECT_TYPE) sy;
          handshake_advance env client sy })
     else if st = CLIENT_HANDSHAKE_CONNECTCLIENT_SENT then
       (if eh_request_id h \<noteq> cl_handshake_request_id k \<or> eh_entry_type h \<noteq> MESSAGEENTRYTYPE_CONNECTCLIENTRET
        then client_handshake_error client sy
        else do {
          sy \<leftarrow> set_handshake client CLIENT_HANDSHAKE_CONNECTCLIENT_COMPLETED sy;
          consume_and_advance env client ev sy })
     else Some (Err UNHANDLED_EVENT, sy) }"

text \<open>The first \<open>switch\<close>: the event of the client's connection.\<close>

definition handshake_event :: "'w environment \<Rightarrow> addr \<Rightarrow> event \<Rightarrow> 'w step" where
  "handshake_event env client ev sy =
     (case ev_type ev of
        EVENT_CONNECTION_CLOSED \<Rightarrow> do {
          sy \<leftarrow> update_connection (ev_connection ev) connection_consume_closed sy;
          sy \<leftarrow> set_handshake client CLIENT_HANDSHAKE_ERROR sy;
          Some (Err CONNECTION_ERROR, sy) }
      | EVENT_CONNECTION_ERROR \<Rightarrow> do {
          (_, sy) \<leftarrow> with_connection (ev_connection ev) connection_close sy;
          sy \<leftarrow> set_handshake client CLIENT_HANDSHAKE_ERROR sy;
          Some (Err RETRY, sy) }
      | EVENT_CONNECTION_TIMEOUT \<Rightarrow> do {
          (_, sy) \<leftarrow> with_connection (ev_connection ev) connection_close sy;
          sy \<leftarrow> set_handshake client CLIENT_HANDSHAKE_ERROR sy;
          Some (Err RETRY, sy) }
      | EVENT_CONNECTION_CONNECTED \<Rightarrow> consume_and_advance env client ev sy
      | EVENT_MESSAGE_SEND_COMPLETE \<Rightarrow> do {
          k \<leftarrow> fetch (sy_clients sy) client;
          if cl_handshake_state k \<in> {CLIENT_HANDSHAKE_CREATECONNECTION_SENT, CLIENT_HANDSHAKE_OBJECTTYPE_SENT,
                                     CLIENT_HANDSHAKE_CONNECTCLIENT_SENT}
          then consume_and_advance env client ev sy
          else Some (Err UNHANDLED_EVENT, sy) }
      | EVENT_MESSAGE_RECEIVED \<Rightarrow> handshake_message env client ev sy
      | EVENT_CONNECTION_HEARTBEAT_TIMEOUT \<Rightarrow> Some (Err RETRY, sy)
      | EVENT_CONNECTION_CLIENT_SOCKET_CONNECTED \<Rightarrow> do {
          (_, sy) \<leftarrow> consume_event ev sy;
          sy \<leftarrow> set_handshake client CLIENT_HANDSHAKE_INIT sy;
          handshake_advance env client sy }
      | _ \<Rightarrow> Some (Err UNHANDLED_EVENT, sy))"

definition client_handshake :: "'w environment \<Rightarrow> send_data \<Rightarrow> addr \<Rightarrow> event \<Rightarrow> 'w step" where
  "client_handshake env uninitialised client ev sy = do {
     k \<leftarrow> fetch (sy_clients sy) client;
     if ev_type ev = EVENT_NEXT_CYCLE then consume_and_advance env client ev sy
     else if ev_connection ev \<noteq> cl_client_connection k then Some (Err UNHANDLED_EVENT, sy)
     else if_failed (node_event_special_request env uninitialised ev sy)
            (\<lambda>e sy. if e = CONSUMED then consume_and_return ev (Err CONSUMED) sy
                    else client_handshake_handle_error client e sy)
            (handshake_event env client ev) }"

end
