(* ===== verification/RRL_HandshakeSpec.thy ===== *)
theory RRL_HandshakeSpec
  imports RRL_ClientHandshake RRL_RequestSpec "HOL-Library.Sublist"
begin

text \<open>
  What the requests about connections and the handshake of a client keep and do: the state they leave
  alone, their results, the order of the answers that a completed handshake has seen, and the answer that
  it accepts although it is a refusal.
\<close>

section \<open>What calls on connections leave alone\<close>

definition frame :: "'w system \<Rightarrow> 'w system \<Rightarrow> bool" where
  "frame sy sy' \<longleftrightarrow> sy_clients sy' = sy_clients sy \<and> sy_requests sy' = sy_requests sy \<and> sy_services sy' = sy_services sy \<and>
     nd_services_head (sy_node sy') = nd_services_head (sy_node sy) \<and> nd_requests_head (sy_node sy') = nd_requests_head (sy_node sy)"

lemma frame_refl [simp]: "frame sy sy"
  by (simp add: frame_def)

lemma frame_trans [trans]: "frame a b \<Longrightarrow> frame b c \<Longrightarrow> frame a c"
  by (simp add: frame_def)

lemma frame_world [simp]: "frame sy (sy\<lparr>sy_world := w\<rparr>)"
  by (simp add: frame_def)

lemma frame_conns [simp]: "frame sy (sy\<lparr>sy_conns := h\<rparr>)"
  by (simp add: frame_def)

lemma with_connection_frame: "with_connection a f sy = Some (r, sy') \<Longrightarrow> frame sy sy'"
  by (cases "connection_at (sy_conns sy) a") (auto simp: with_connection_def split: prod.splits)

lemma update_connection_frame: "update_connection a f sy = Some sy' \<Longrightarrow> frame sy sy'"
  using with_connection_frame by (fastforce simp: update_connection_def)

lemma consume_event_frame: "consume_event ev sy = Some (r, sy') \<Longrightarrow> frame sy sy'"
  by (auto simp: consume_event_def node_consume_event_def Let_def frame_def bind_eq_Some_conv split: event_type.splits)

lemma consume_and_return_frame: "consume_and_return ev r sy = Some (rv, sy') \<Longrightarrow> frame sy sy' \<and> rv = r"
  using consume_event_frame by (fastforce simp: consume_and_return_def bind_eq_Some_conv)

lemma end_send_frame: "end_send a sd sy = Some (rv, sd', sy') \<Longrightarrow> frame sy sy'"
  using with_connection_frame by (fastforce simp: end_send_def bind_eq_Some_conv)

lemma write_response_frame: "write_response a f sd sy = Some (rv, sd', sy') \<Longrightarrow> frame sy sy'"
  using with_connection_frame by (fastforce simp: write_response_def bind_eq_Some_conv)

lemma begin_response_frame: "begin_response ev sd sy = Some (rv, sd', sy') \<Longrightarrow> frame sy sy'"
  using with_connection_frame by (fastforce simp: begin_response_def bind_eq_Some_conv)

lemma draw_endpoint_frame:
  assumes "draw_endpoint env a sy = Some sy'"
  shows "frame sy sy'"
proof -
  obtain c where "connection_at (sy_conns sy) a = Some c" using assms by (auto simp: draw_endpoint_def bind_eq_Some_conv)
  then show ?thesis using assms
    by (cases "en_rand env (sy_world sy)")
      (auto simp: draw_endpoint_def frame_def split: if_splits dest!: update_connection_frame)
qed

lemma if_failed_cases:
  assumes "if_failed r bad good = Some (rv, sy')"
  obtains (bad) e sy1 where "r = Some (Err e, sy1)" and "bad e sy1 = Some (rv, sy')"
    | (good) sy1 where "r = Some (OK, sy1)" and "good sy1 = Some (rv, sy')"
proof -
  obtain st sy1 where r: "r = Some (st, sy1)" using assms by (cases r) auto
  then show thesis using assms that by (cases st) auto
qed


section \<open>Requests about connections\<close>

text \<open>
  A step that is to be repeated, has consumed the event or, where \<open>pass\<close> allows it, leaves the event to
  others, and changes nothing but connections.
\<close>

definition special :: "bool \<Rightarrow> 'w system \<Rightarrow> (status \<times> 'w system) option \<Rightarrow> bool" where
  "special pass sy r \<longleftrightarrow>
     (\<forall>rv sy'. r = Some (rv, sy') \<longrightarrow> (rv = Err RETRY \<or> rv = Err CONSUMED \<or> rv = OK \<and> pass) \<and> frame sy sy')"

lemma special_frame: "special p sy1 r \<Longrightarrow> frame sy sy1 \<Longrightarrow> special p sy r"
  unfolding special_def using frame_trans by blast

lemma special_None [simp]: "special p sy None"
  by (simp add: special_def)

lemma special_retry [simp]: "special p sy (Some (Err RETRY, sy))"
  by (simp add: special_def)

lemma special_pass [simp]: "special True sy (Some (OK, sy))"
  by (simp add: special_def)

lemma special_consume [intro!, simp]: "special p sy (consume_and_return ev (Err CONSUMED) sy)"
  unfolding special_def using consume_and_return_frame by blast

text \<open>Sequences: what follows a call on a connection is a step from the state it leaves.\<close>

lemma special_call:
  assumes "\<And>r s. m = Some (r, s) \<Longrightarrow> frame sy s" and "\<And>r s. special p s (f r s)"
  shows "special p sy (do { (r, s) \<leftarrow> m; f r s })"
proof (cases m)
  case (Some x)
  then show ?thesis using special_frame [OF assms(2) assms(1)] by (cases x) simp
qed simp

lemma special_step:
  assumes "\<And>s. m = Some s \<Longrightarrow> frame sy s" and "\<And>s. special p s (f s)"
  shows "special p sy (Option.bind m f)"
proof (cases m)
  case (Some s)
  then show ?thesis using special_frame [OF assms(2) assms(1)] by simp
qed simp

lemma special_read: "(\<And>x. special p s (f x)) \<Longrightarrow> special p s (Option.bind m f)"
  by (cases m) simp_all

lemma special_call3:
  assumes "\<And>r d s. m = Some (r, d, s) \<Longrightarrow> frame sy s" and "\<And>r d s. special p s (f r d s)"
  shows "special p sy (do { (r, d, s) \<leftarrow> m; f r d s })"
proof (cases m)
  case (Some x)
  then show ?thesis using special_frame [OF assms(2) assms(1)] by (cases x) simp
qed simp

lemma special_calls:
  "(\<And>s. special p s (f1 s)) \<Longrightarrow> special p sy (Option.bind (update_connection a g sy) f1)"
  "(\<And>s. special p s (f1 s)) \<Longrightarrow> special p sy (Option.bind (draw_endpoint env a sy) f1)"
  "(\<And>r s. special p s (f2 r s)) \<Longrightarrow> special p sy (do { (r, s) \<leftarrow> with_connection a f sy; f2 r s })"
  "(\<And>r s. special p s (f2 r s)) \<Longrightarrow> special p sy (do { (r, s) \<leftarrow> consume_event ev sy; f2 r s })"
  "(\<And>r d s. special p s (f3 r d s)) \<Longrightarrow> special p sy (do { (r, d, s) \<leftarrow> write_response a g' sd sy; f3 r d s })"
  "(\<And>r d s. special p s (f3 r d s)) \<Longrightarrow> special p sy (do { (r, d, s) \<leftarrow> end_send a sd sy; f3 r d s })"
  "(\<And>r d s. special p s (f3 r d s)) \<Longrightarrow> special p sy (do { (r, d, s) \<leftarrow> begin_response ev sd sy; f3 r d s })"
  by (erule special_step [rotated] special_call [rotated] special_call3 [rotated],
      erule update_connection_frame draw_endpoint_frame with_connection_frame consume_event_frame
        write_response_frame end_send_frame begin_response_frame)+

lemma special_if_failed:
  assumes "\<And>rv s. r = Some (rv, s) \<Longrightarrow> frame sy s" and "\<And>e s. special p s (bad e s)" and "\<And>s. special p s (good s)"
  shows "special p sy (if_failed r bad good)"
  unfolding if_failed_def by (rule special_call) (use assms in \<open>auto split: status.split\<close>)

lemma special_if: "(b \<Longrightarrow> special p sy r) \<Longrightarrow> (\<not> b \<Longrightarrow> special p sy q) \<Longrightarrow> special p sy (if b then r else q)"
  by simp

lemma special_handle_error [intro!]: "special p sy (special_request_handle_error ev e sy)"
  unfolding special_request_handle_error_def by (simp add: special_calls)

lemma send_empty_response_frame: "send_empty_response ev sy = Some (rv, sy') \<Longrightarrow> frame sy sy'"
  unfolding send_empty_response_def by (rule with_connection_frame)

lemma respond_error_frame: "respond_error ev t n s sy = Some (rv, sy') \<Longrightarrow> frame sy sy'"
  unfolding respond_error_def by (rule with_connection_frame)

lemma special_status:
  "special p s r \<Longrightarrow> (\<And>e. special p s (q e)) \<Longrightarrow> special p s (case rv of OK \<Rightarrow> r | Err e \<Rightarrow> q e)"
  by (cases rv) simp_all

lemma special_send_capabilities:
  assumes "\<And>s. special p s (good s)"
  shows "special p sy (send_capabilities ev un flags good sy)"
  unfolding send_capabilities_def by (intro special_calls special_status special_handle_error assms)

lemma special_default:
  "special (eh_entry_type (rd_entry_header (ev_received_message ev)) mod 2 = 0) sy (special_request_default ev sy)"
proof -
  let ?t = "eh_entry_type (rd_entry_header (ev_received_message ev))"
  have e: "special p sy (do { (rv, s) \<leftarrow> node_event_respond_invalid_operation ev sy;
      if rv = Err RETRY then Some (Err RETRY, s) else consume_and_return ev (Err CONSUMED) s })" for p
    by (rule special_call) (auto simp: node_event_respond_invalid_operation_def intro: respond_error_frame)
  have "?t mod 2 = 0 \<or> ?t mod 2 = 1"
    by (metis bit_numeral_rec(1) odd_iff_mod_2_eq_one even_iff_mod_2_eq_zero)
  then show ?thesis using e by (auto simp: special_request_default_def)
qed

lemma special_connect_client:
  fixes sy :: "'w system"
  shows "special p sy (connect_client env ev sy)"
proof -
  have "special p s (if_failed (reply_service_not_found ev s) (special_request_handle_error ev) (consume_and_return ev (Err CONSUMED)))" for s :: "'w system"
    by (intro special_if_failed special_handle_error special_consume) (simp add: reply_service_not_found_def respond_error_frame)
  moreover have "special p s (do {
       s \<leftarrow> draw_endpoint env (ev_connection ev) s;
       s \<leftarrow> update_connection (ev_connection ev) g s;
       if_failed (send_empty_response ev s) (special_request_handle_error ev) (\<lambda>s. do {
         s \<leftarrow> update_connection (ev_connection ev) g' s;
         consume_and_return ev (Err CONSUMED) s }) })" for s g g'
    by (intro special_calls special_if_failed special_handle_error special_consume send_empty_response_frame)
  ultimately show ?thesis unfolding connect_client_def by (cases "nd_services_head (sy_node sy) = 0"; cases "requested_service ev sy") simp_all
qed

lemma copy_sender [simp]: "fst (copy_sender_nodeid ev c) = OK"
  by (simp add: copy_sender_nodeid_def nodeid_copy_to_def)

lemma special_create:
  fixes sy :: "'w system"
  shows "special p sy (server_create_connection ev un sy)"
proof (cases "connection_at (sy_conns sy) (ev_connection ev)")
  case (Some c)
  let ?est = "\<lambda>s. do { s \<leftarrow> update_connection (ev_connection ev) (set_state STATUS_FLAGS_ESTABLISHED) s;
                    consume_and_return ev (Err CONSUMED) s }"
  have est: "special p s (?est s)" for s :: "'w system"
    by (intro special_calls special_consume)
  have after: "special p s (if n = 0 then if_failed (send_empty_response ev s) (special_request_handle_error ev) ?est
      else send_capabilities ev un n ?est s)" for s :: "'w system" and n
    by (intro special_if special_if_failed special_handle_error est special_send_capabilities send_empty_response_frame)
  have flags: "special p s (do {
      s \<leftarrow> (if FLAGS_CHECK n PARSE_CAPABILITY_MESSAGE4
           then update_connection (ev_connection ev) (set_state STATUS_FLAGS_SEND_MESSAGE4) s else Some s);
      if n = 0 then if_failed (send_empty_response ev s) (special_request_handle_error ev) ?est
      else send_capabilities ev un n ?est s })" for s :: "'w system" and n
    using after [of s n] by (cases "FLAGS_CHECK n PARSE_CAPABILITY_MESSAGE4") (simp_all only: if_True if_False bind.simps special_calls after)
  let ?s = "sy\<lparr>sy_conns := (sy_conns sy)(ev_connection ev \<mapsto> Conn (snd (copy_sender_nodeid ev c)))\<rparr>"
  have "special p ?s (server_create_connection ev un sy)"
    unfolding server_create_connection_def Let_def with_connection_at [OF Some] bind.simps prod.case copy_sender
    by (simp only: simp_thms if_False) (intro special_read flags)
  then show ?thesis using special_frame frame_conns by blast
qed (simp add: server_create_connection_def with_connection_def)

lemma special_answer_empty:
  fixes sy :: "'w system"
  shows "special (eh_entry_type (rd_entry_header (ev_received_message ev)) mod 2 = 0) sy (answer_empty ev sy)"
  (is "special ?p sy _")
proof -
  have "special ?p sy (do { (_, s) \<leftarrow> consume_event ev sy; special_request_default ev s })"
    by (intro special_calls special_default)
  moreover have "special ?p sy (if_failed (send_empty_response ev sy) (special_request_handle_error ev)
      (consume_and_return ev (Err CONSUMED)))"
    by (intro special_if_failed special_handle_error special_consume send_empty_response_frame)
  ultimately show ?thesis by (cases "connection_at (sy_conns sy) (ev_connection ev)") (simp_all add: answer_empty_def)
qed

lemma special_created:
  fixes sy :: "'w system"
  shows "special True sy (client_connection_created ev sy)"
proof (cases "connection_at (sy_conns sy) (ev_connection ev)")
  case (Some c)
  have caps: "special True s (do {
      s \<leftarrow> (if FLAGS_CHECK n PARSE_CAPABILITY_MESSAGE4
           then update_connection (ev_connection ev) g s else Some s); Some (OK, s) })" for s :: "'w system" and n g
    by (cases "FLAGS_CHECK n PARSE_CAPABILITY_MESSAGE4") (simp_all only: if_True if_False bind.simps special_calls special_pass)
  have "special True s (do {
      s \<leftarrow> update_connection (ev_connection ev) (set_state STATUS_FLAGS_ESTABLISHED) s;
      n \<leftarrow> received_capabilities ev s;
      s \<leftarrow> (if FLAGS_CHECK n PARSE_CAPABILITY_MESSAGE4
           then update_connection (ev_connection ev) g s else Some s); Some (OK, s) })" for s :: "'w system" and g
    by (intro special_calls special_read caps)
  then have "special True s (client_connection_created ev sy)"
    if "s = sy\<lparr>sy_conns := (sy_conns sy)(ev_connection ev \<mapsto> Conn (snd (copy_sender_nodeid ev c)))\<rparr>" for s
    unfolding client_connection_created_def with_connection_at [OF Some] using that by simp
  then show ?thesis using special_frame frame_conns by blast
qed (simp add: client_connection_created_def with_connection_def)

text \<open>The types of messages that are left to others: responses, requests about services, and the rest of the protocol.\<close>

definition left_to_others :: "u16 \<Rightarrow> bool" where
  "left_to_others t \<longleftrightarrow> 500 < t \<or> t mod 2 = 0 \<or> t = MESSAGEENTRYTYPE_GETSERVICEDESC \<or> t = MESSAGEENTRYTYPE_OBJECTTYPENAME"

lemma special_mono: "special p sy r \<Longrightarrow> (p \<Longrightarrow> q) \<Longrightarrow> special q sy r"
  by (auto simp: special_def)

lemma special_outcome:
  fixes sy :: "'w system"
  shows "special (left_to_others (eh_entry_type (rd_entry_header (ev_received_message ev)))) sy
    (node_event_special_request env un ev sy)"
proof -
  let ?t = "eh_entry_type (rd_entry_header (ev_received_message ev))"
  let ?p = "left_to_others ?t"
  have d: "special ?p s (special_request_default ev s)" for s :: "'w system"
    by (rule special_mono [OF special_default]) (simp add: left_to_others_def)
  have a: "special ?p s (answer_empty ev s)" for s :: "'w system"
    by (rule special_mono [OF special_answer_empty]) (simp add: left_to_others_def)
  have dc: "special ?p sy (disconnect_client ev sy)"
    unfolding disconnect_client_def by (intro special_calls a)
  have err: "special ?p sy (do { s \<leftarrow> update_connection (ev_connection ev) connection_error sy; consume_and_return ev (Err CONSUMED) s })"
    by (intro special_calls special_consume)
  have cr: "?p \<Longrightarrow> special ?p sy (client_connection_created ev sy)"
    using special_created by simp
  have cc: "?p \<Longrightarrow> special ?p sy (do { s \<leftarrow> update_connection (ev_connection ev) (client_connected ev) sy; Some (OK, s) })"
    by (intro special_calls) simp
  have ok: "?p \<Longrightarrow> special ?p sy (Some (OK, sy))" by simp
  have even: "?t = MESSAGEENTRYTYPE_STREAMOPRET \<or> ?t = MESSAGEENTRYTYPE_CONNECTCLIENTRET \<Longrightarrow> ?p"
    by (auto simp: left_to_others_def entry_type_defs)
  have own: "500 < ?t \<or> ?t = MESSAGEENTRYTYPE_GETSERVICEDESC \<or> ?t = MESSAGEENTRYTYPE_OBJECTTYPENAME \<Longrightarrow> ?p"
    by (auto simp: left_to_others_def)
  show ?thesis
    unfolding node_event_special_request_def Let_def
    by (intro special_if;
        (rule err | (rule ok, rule own, blast)
        | (rule special_read, intro special_if;
           (rule dc | rule a | rule d | rule special_create | rule special_connect_client | rule special_consume
           | (rule ok, rule own, blast) | (rule cr, rule even, blast) | (rule cc, rule even, blast)))))
qed

section \<open>The order of the answers\<close>

text \<open>
  The answers that a handshake in a state has seen, and the answer that an event carries.
\<close>

definition earned :: "u32 \<Rightarrow> u16 list" where
  "earned st =
     (if st = CLIENT_HANDSHAKE_CREATECONNECTION_COMPLETED \<or> st = CLIENT_HANDSHAKE_OBJECTTYPE_SENT
      then [MESSAGEENTRYTYPE_STREAMOPRET]
      else if st = CLIENT_HANDSHAKE_OBJECTTYPE_COMPLETED \<or> st = CLIENT_HANDSHAKE_CONNECTCLIENT_SENT
      then [MESSAGEENTRYTYPE_STREAMOPRET, MESSAGEENTRYTYPE_OBJECTTYPENAMERET]
      else if st = CLIENT_HANDSHAKE_CONNECTCLIENT_COMPLETED \<or> st = CLIENT_HANDSHAKE_COMPLETED
      then [MESSAGEENTRYTYPE_STREAMOPRET, MESSAGEENTRYTYPE_OBJECTTYPENAMERET, MESSAGEENTRYTYPE_CONNECTCLIENTRET]
      else [])"

definition answer :: "event \<Rightarrow> u16 list" where
  "answer ev = (if ev_type ev = EVENT_MESSAGE_RECEIVED then [eh_entry_type (rd_entry_header (ev_received_message ev))] else [])"

definition state_at :: "'w system \<Rightarrow> addr \<Rightarrow> u32 \<Rightarrow> bool" where
  "state_at sy k st \<longleftrightarrow> k \<noteq> 0 \<and> (\<exists>c. sy_clients sy k = Some c \<and> cl_handshake_state c = st)"

lemma earned_simps [simp]:
  "earned CLIENT_HANDSHAKE_INIT = []" "earned CLIENT_HANDSHAKE_CREATECONNECTION_SENT = []"
  "earned CLIENT_HANDSHAKE_CREATECONNECTION_COMPLETED = [MESSAGEENTRYTYPE_STREAMOPRET]"
  "earned CLIENT_HANDSHAKE_OBJECTTYPE_SENT = [MESSAGEENTRYTYPE_STREAMOPRET]"
  "earned CLIENT_HANDSHAKE_OBJECTTYPE_COMPLETED = [MESSAGEENTRYTYPE_STREAMOPRET, MESSAGEENTRYTYPE_OBJECTTYPENAMERET]"
  "earned CLIENT_HANDSHAKE_CONNECTCLIENT_SENT = [MESSAGEENTRYTYPE_STREAMOPRET, MESSAGEENTRYTYPE_OBJECTTYPENAMERET]"
  "earned CLIENT_HANDSHAKE_CONNECTCLIENT_COMPLETED =
     [MESSAGEENTRYTYPE_STREAMOPRET, MESSAGEENTRYTYPE_OBJECTTYPENAMERET, MESSAGEENTRYTYPE_CONNECTCLIENTRET]"
  "earned CLIENT_HANDSHAKE_COMPLETED =
     [MESSAGEENTRYTYPE_STREAMOPRET, MESSAGEENTRYTYPE_OBJECTTYPENAMERET, MESSAGEENTRYTYPE_CONNECTCLIENTRET]"
  "earned CLIENT_HANDSHAKE_ERROR = []" "earned CLIENT_HANDSHAKE_INVALID_OBJECT_TYPE = []"
  by (simp_all add: earned_def handshake_state_defs)

text \<open>A step that leaves the client in a state whose answers are among \<open>l\<close>, and succeeds only when completed.\<close>

definition hs :: "u16 list \<Rightarrow> addr \<Rightarrow> (status \<times> 'w system) option \<Rightarrow> bool" where
  "hs l k r \<longleftrightarrow> (\<forall>rv sy'. r = Some (rv, sy') \<longrightarrow>
     (\<exists>st. state_at sy' k st \<and> prefix (earned st) l \<and> (rv = OK \<longrightarrow> st = CLIENT_HANDSHAKE_COMPLETED)))"

lemma hs_None [simp]: "hs l k None"
  by (simp add: hs_def)

lemma hs_stay: "state_at sy k st \<Longrightarrow> prefix (earned st) l \<Longrightarrow> rv \<noteq> OK \<Longrightarrow> hs l k (Some (rv, sy))"
  by (auto simp: hs_def)

lemma hs_complete: "state_at sy k CLIENT_HANDSHAKE_COMPLETED \<Longrightarrow> prefix (earned CLIENT_HANDSHAKE_COMPLETED) l \<Longrightarrow> hs l k (Some (OK, sy))"
  unfolding hs_def by blast

lemma hs_mono: "hs l k r \<Longrightarrow> prefix l l' \<Longrightarrow> hs l' k r"
  unfolding hs_def using prefix_order.trans by blast

lemma state_at_frame: "state_at sy k st \<Longrightarrow> frame sy sy' \<Longrightarrow> state_at sy' k st"
  by (simp add: state_at_def frame_def)

lemma hs_read: "(\<And>x. hs l k (f x)) \<Longrightarrow> hs l k (Option.bind m f)"
  by (cases m) simp_all

lemma hs_if: "(b \<Longrightarrow> hs l k r) \<Longrightarrow> (\<not> b \<Longrightarrow> hs l k q) \<Longrightarrow> hs l k (if b then r else q)"
  by simp

lemma hs_call:
  assumes "\<And>r s. m = Some (r, s) \<Longrightarrow> frame sy s" and "state_at sy k st" and "\<And>r s. state_at s k st \<Longrightarrow> hs l k (f r s)"
  shows "hs l k (do { (r, s) \<leftarrow> m; f r s })"
proof (cases m)
  case (Some x)
  then show ?thesis using assms(3) [OF state_at_frame [OF assms(2) assms(1)]] by (cases x) simp
qed simp

lemma hs_update:
  assumes "state_at sy k st" and "\<And>s. state_at s k st \<Longrightarrow> hs l k (f s)"
  shows "hs l k (Option.bind (update_connection a g sy) f)"
proof (cases "update_connection a g sy")
  case (Some s)
  then show ?thesis using assms(2) [OF state_at_frame [OF assms(1) update_connection_frame]] by simp
qed simp

lemma set_handshake_at: "state_at sy k st \<Longrightarrow> \<exists>sy'. set_handshake k st' sy = Some sy' \<and> state_at sy' k st'"
  by (auto simp: state_at_def set_handshake_def with_client_def change_def fetch_def)

lemma hs_set:
  assumes "state_at sy k st" and "\<And>s. state_at s k st' \<Longrightarrow> hs l k (f s)"
  shows "hs l k (Option.bind (set_handshake k st' sy) f)"
  using set_handshake_at [OF assms(1), of st'] assms(2) by auto

lemma fetch_client: "state_at sy k st \<Longrightarrow> \<exists>c. fetch (sy_clients sy) k = Some c \<and> cl_handshake_state c = st"
  by (auto simp: state_at_def fetch_def)

lemma hs_error:
  assumes "state_at sy k st" and "prefix (earned st) l"
  shows "hs l k (client_handshake_error k sy)"
proof -
  obtain c where c: "fetch (sy_clients sy) k = Some c" using fetch_client [OF assms(1)] by blast
  have "hs l k (do { s \<leftarrow> set_handshake k CLIENT_HANDSHAKE_ERROR s; Some (Err RETRY, s) })" if "state_at s k st" for s :: "'a system"
    by (rule hs_set [OF that], erule hs_stay) simp_all
  moreover have "hs l k (Some (Err INTERNAL_ERROR, s))" if "state_at s k st" for s :: "'a system"
    by (rule hs_stay [OF that assms(2)]) simp
  ultimately have "hs l k (do { (rv, s) \<leftarrow> with_connection (cl_client_connection c) connection_close sy;
      if rv \<noteq> OK then Some (Err INTERNAL_ERROR, s)
      else do { s \<leftarrow> set_handshake k CLIENT_HANDSHAKE_ERROR s; Some (Err RETRY, s) } })"
    by (intro hs_call [OF with_connection_frame assms(1)]) simp_all
  then show ?thesis using c by (simp add: client_handshake_error_def)
qed

lemma hs_handle_error:
  assumes "state_at sy k st" and "prefix (earned st) l"
  shows "hs l k (client_handshake_handle_error k e sy)"
  using hs_error [OF assms] hs_stay [OF assms] by (simp add: client_handshake_handle_error_def)

lemma hs_end_request:
  assumes "state_at sy k st" and "prefix (earned st) l" and "prefix (earned st') l"
  shows "hs l k (end_handshake_request k sd st' sy)"
proof -
  obtain c where c: "fetch (sy_clients sy) k = Some c" using fetch_client [OF assms(1)] by blast
  show ?thesis
  proof (cases "end_send (cl_client_connection c) sd sy")
    case None
    then show ?thesis using c by (simp add: end_handshake_request_def)
  next
    case (Some x)
    obtain rv sd' s where x: "x = (rv, sd', s)" by (cases x)
    have at: "state_at s k st" using state_at_frame [OF assms(1) end_send_frame] Some x by blast
    have "hs l k (do { s \<leftarrow> set_handshake k st' s; Some (Err RETRY, s) })"
      by (rule hs_set [OF at], erule hs_stay) (simp_all add: assms(3))
    then show ?thesis using c Some x hs_handle_error [OF at assms(2)] by (cases rv) (simp_all add: end_handshake_request_def)
  qed
qed

lemma begin_request_frame:
  "client_begin_request_c_str False a sd t n p 0 sy = Some (rv, sd', sy') \<Longrightarrow> frame sy sy'"
proof -
  assume r: "client_begin_request_c_str False a sd t n p 0 sy = Some (rv, sd', sy')"
  then obtain c where c: "connection_at (sy_conns sy) a = Some c"
    by (auto simp: client_begin_request_c_str_def client_begin_request_def Let_def bind_eq_Some_conv)
  let ?c = "c\<lparr>cn_last_request_id := cn_last_request_id c + 1\<rparr>"
  obtain st h where h: "begin_request_header ?c t (map_option (\<lambda>s. string_from_c_str (Some s)) n)
      (map_option (\<lambda>s. string_from_c_str (Some s)) p) = (st, h)" by (rule prod.exhaust)
  obtain v c' d where n: "node_begin_send_messageentry (sy_node sy) ?c (sd\<lparr>sd_entry_header := h\<rparr>) = (v, c', d)"
    by (rule prod_cases3)
  show "frame sy sy'"
    using r c h n by (cases st) (auto simp: client_begin_request_c_str_def client_begin_request_def Let_def)
qed

lemma begin_request_state:
  assumes "client_handshake_begin_request k t n sy = Some (rv, sd, sy')" and "state_at sy k st"
  shows "state_at sy' k st"
proof -
  obtain c where c: "fetch (sy_clients sy) k = Some c" using fetch_client [OF assms(2)] by blast
  obtain rv1 sd1 s where s: "client_begin_request_c_str False (cl_client_connection c) zero_send_data t n None 0 sy = Some (rv1, sd1, s)"
      "with_client k (\<lambda>k. k\<lparr>cl_handshake_request_id := eh_request_id (sd_entry_header sd1)\<rparr>) s = Some sy'"
    using assms(1) c by (auto simp: client_handshake_begin_request_def bind_eq_Some_conv)
  have "state_at s k st" using state_at_frame [OF assms(2) begin_request_frame [OF s(1)]] .
  then show ?thesis using s(2) by (auto simp: state_at_def with_client_def change_def fetch_def)
qed

lemma hs_send:
  assumes "state_at sy k st" and "prefix (earned st) l" and "prefix (earned st') l"
  shows "hs l k (send_handshake_request k t st' sy)"
proof (cases "client_handshake_begin_request k t None sy")
  case (Some x)
  obtain rv sd s where x: "x = (rv, sd, s)" by (cases x)
  have at: "state_at s k st" using begin_request_state assms(1) Some x by blast
  then show ?thesis using Some x hs_handle_error [OF at assms(2)] hs_end_request [OF at assms(2,3)]
    by (cases rv) (simp_all add: send_handshake_request_def)
qed (simp add: send_handshake_request_def)

lemma hs_init:
  assumes "state_at sy k CLIENT_HANDSHAKE_INIT"
  shows "hs l k (handshake_init env k sy)"
proof -
  let ?I = "CLIENT_HANDSHAKE_INIT"
  obtain c where c: "fetch (sy_clients sy) k = Some c" using fetch_client [OF assms] by blast
  let ?a = "cl_client_connection c"
  have err: "hs l k (client_handshake_handle_error k e s)" if "state_at s k ?I" for e and s :: "'a system"
    by (rule hs_handle_error [OF that]) simp
  have fin: "hs l k (end_handshake_request k sd CLIENT_HANDSHAKE_CREATECONNECTION_SENT s)" if "state_at s k ?I" for sd and s :: "'a system"
    by (rule hs_end_request [OF that]) simp_all
  have wr: "hs l k (do { (rv, sd, s) \<leftarrow> write_response ?a g sd s;
      case rv of OK \<Rightarrow> end_handshake_request k sd CLIENT_HANDSHAKE_CREATECONNECTION_SENT s
      | Err e \<Rightarrow> client_handshake_handle_error k e s })" if "state_at s k ?I" for g sd and s :: "'a system"
  proof (cases "write_response ?a g sd s")
    case (Some x)
    obtain rv sd' s' where x: "x = (rv, sd', s')" by (cases x)
    have at: "state_at s' k ?I" using state_at_frame [OF that write_response_frame] Some x by blast
    show ?thesis using Some x err [OF at] fin [OF at] by (cases rv) simp_all
  qed simp
  have rest: "hs l k (do { s \<leftarrow> update_connection ?a g' s;
      case rv of OK \<Rightarrow> do { (rv, sd, s) \<leftarrow> write_response ?a g sd s;
          case rv of OK \<Rightarrow> end_handshake_request k sd CLIENT_HANDSHAKE_CREATECONNECTION_SENT s
          | Err e \<Rightarrow> client_handshake_handle_error k e s }
      | Err e \<Rightarrow> client_handshake_handle_error k e s })" if "state_at s k ?I" for g g' rv sd and s :: "'a system"
    by (rule hs_update [OF that]) (cases rv; simp add: wr err)
  have begun: "hs l k (do { (rv, sd, s) \<leftarrow> client_handshake_begin_request k t n s; s \<leftarrow> update_connection ?a g' s;
      case rv of OK \<Rightarrow> do { (rv, sd, s) \<leftarrow> write_response ?a g sd s;
          case rv of OK \<Rightarrow> end_handshake_request k sd CLIENT_HANDSHAKE_CREATECONNECTION_SENT s
          | Err e \<Rightarrow> client_handshake_handle_error k e s }
      | Err e \<Rightarrow> client_handshake_handle_error k e s })" if "state_at s k ?I" for g g' t n and s :: "'a system"
  proof (cases "client_handshake_begin_request k t n s")
    case (Some x)
    obtain rv sd s' where x: "x = (rv, sd, s')" by (cases x)
    show ?thesis using rest [OF begin_request_state [OF _ that]] Some x by (simp del: bind_split)
  qed simp
  show ?thesis
  proof (cases "draw_endpoint env ?a sy")
    case (Some s)
    let ?s = "s\<lparr>sy_world := snd (en_rand env (sy_world s))\<rparr>"
    have at: "state_at ?s k ?I" using state_at_frame [OF assms draw_endpoint_frame [OF Some]] by (simp add: state_at_def)
    show ?thesis
    proof (cases "connection_at (sy_conns s) ?a")
      case (Some d)
      then show ?thesis using \<open>draw_endpoint env ?a sy = Some s\<close> c hs_update [OF at begun]
        by (simp add: handshake_init_def Let_def split_beta del: update_connection_at)
    qed (use \<open>draw_endpoint env ?a sy = Some s\<close> c in \<open>simp add: handshake_init_def Let_def split_beta\<close>)
  qed (use c in \<open>simp add: handshake_init_def\<close>)
qed

lemma hs_advance:
  assumes "state_at sy k st"
  shows "hs (earned st) k (handshake_advance env k sy)"
proof -
  have fin: "hs (earned CLIENT_HANDSHAKE_CONNECTCLIENT_COMPLETED) k
      (do { s \<leftarrow> set_handshake k CLIENT_HANDSHAKE_COMPLETED sy; Some (OK, s) })"
    by (rule hs_set [OF assms]) (simp add: hs_complete)
  have init: "st = CLIENT_HANDSHAKE_INIT \<Longrightarrow> hs (earned st) k (handshake_init env k sy)"
    using hs_init assms by blast
  show ?thesis
    using fetch_client [OF assms] hs_error [OF assms, of "earned st"] fin init
      hs_stay [OF assms, of "earned st" "Err RETRY"]
      hs_send [OF assms, of "earned st" CLIENT_HANDSHAKE_OBJECTTYPE_SENT MESSAGEENTRYTYPE_OBJECTTYPENAME]
      hs_send [OF assms, of "earned st" CLIENT_HANDSHAKE_CONNECTCLIENT_SENT MESSAGEENTRYTYPE_CONNECTCLIENT]
    by (auto simp: handshake_advance_def Let_def)
qed

lemma hs_consume_advance:
  assumes "state_at sy k st"
  shows "hs (earned st) k (consume_and_advance env k ev sy)"
  unfolding consume_and_advance_def by (rule hs_call [OF consume_event_frame assms]) (simp_all add: hs_advance)

lemma hs_next:
  assumes "state_at sy k st" and "prefix (earned st') l"
  shows "hs l k (do { s \<leftarrow> set_handshake k st' sy; consume_and_advance env k ev s })"
  by (rule hs_set [OF assms(1)]) (rule hs_mono [OF hs_consume_advance assms(2)])

lemma hs_message:
  assumes "state_at sy k st" and "ev_type ev = EVENT_MESSAGE_RECEIVED"
  shows "hs (earned st @ answer ev) k (handshake_message env k ev sy)"
proof -
  let ?h = "rd_entry_header (ev_received_message ev)"
  let ?l = "earned st @ answer ev"
  obtain c where c: "fetch (sy_clients sy) k = Some c" "cl_handshake_state c = st" using fetch_client [OF assms(1)] by blast
  have err: "hs ?l k (client_handshake_error k sy)" by (rule hs_error [OF assms(1)]) simp
  have created: "hs ?l k (do { s \<leftarrow> update_connection a g sy;
      s \<leftarrow> set_handshake k CLIENT_HANDSHAKE_CREATECONNECTION_COMPLETED s; consume_and_advance env k ev s })"
    if "st = CLIENT_HANDSHAKE_CREATECONNECTION_SENT" "eh_entry_type ?h = MESSAGEENTRYTYPE_STREAMOPRET" for a g
    by (rule hs_update [OF assms(1)], erule hs_next) (use that assms(2) in \<open>simp add: answer_def\<close>)
  have typed: "hs ?l k (do { (_, s) \<leftarrow> consume_event ev sy;
      s \<leftarrow> set_handshake k (if b then CLIENT_HANDSHAKE_OBJECTTYPE_COMPLETED else CLIENT_HANDSHAKE_INVALID_OBJECT_TYPE) s;
      handshake_advance env k s })"
    if "st = CLIENT_HANDSHAKE_OBJECTTYPE_SENT" "eh_entry_type ?h = MESSAGEENTRYTYPE_OBJECTTYPENAMERET" for b
  proof (rule hs_call [OF consume_event_frame assms(1)])
    fix s :: "'a system"
    assume at: "state_at s k st"
    have "prefix (earned (if b then CLIENT_HANDSHAKE_OBJECTTYPE_COMPLETED else CLIENT_HANDSHAKE_INVALID_OBJECT_TYPE)) ?l"
      using that assms(2) by (simp add: answer_def)
    then show "hs ?l k (do { s \<leftarrow> set_handshake k (if b then CLIENT_HANDSHAKE_OBJECTTYPE_COMPLETED else CLIENT_HANDSHAKE_INVALID_OBJECT_TYPE) s;
        handshake_advance env k s })"
      by (intro hs_set [OF at] hs_mono [OF hs_advance])
  qed
  have connected: "hs ?l k (do { s \<leftarrow> set_handshake k CLIENT_HANDSHAKE_CONNECTCLIENT_COMPLETED sy; consume_and_advance env k ev s })"
    if "st = CLIENT_HANDSHAKE_CONNECTCLIENT_SENT" "eh_entry_type ?h = MESSAGEENTRYTYPE_CONNECTCLIENTRET"
    by (rule hs_next [OF assms(1)]) (use that assms(2) in \<open>simp add: answer_def\<close>)
  have other: "hs ?l k (Some (Err UNHANDLED_EVENT, sy))" by (rule hs_stay [OF assms(1)]) simp_all
  show ?thesis
  proof (cases "st = CLIENT_HANDSHAKE_OBJECTTYPE_SENT")
    case True
    then have ne: "st \<noteq> CLIENT_HANDSHAKE_CREATECONNECTION_SENT" by (simp add: handshake_state_defs)
    show ?thesis
    proof (cases "eh_entry_type ?h = MESSAGEENTRYTYPE_OBJECTTYPENAMERET")
      case True
      have "hs ?l k (do {
          d \<leftarrow> connection_at (sy_conns sy) (ev_connection ev);
          ok \<leftarrow> (if length (cl_expected_root_object_type c) > 0
                then client_verify_objecttype_response (recv_buffer_vec d) (rd_entry_reader (ev_received_message ev))
                       (cl_expected_root_object_type c)
                else Some (Inr True));
          (_, s) \<leftarrow> consume_event ev sy;
          s \<leftarrow> set_handshake k (if ok = Inr True then CLIENT_HANDSHAKE_OBJECTTYPE_COMPLETED
                               else CLIENT_HANDSHAKE_INVALID_OBJECT_TYPE) s;
          handshake_advance env k s })"
        by (intro hs_read typed True \<open>st = CLIENT_HANDSHAKE_OBJECTTYPE_SENT\<close>)
      then show ?thesis using c ne True \<open>st = CLIENT_HANDSHAKE_OBJECTTYPE_SENT\<close>
        by (simp only: handshake_message_def Let_def bind.simps if_True if_False simp_thms)
    qed (use c ne True err in \<open>simp add: handshake_message_def Let_def\<close>)
  next
    case False
    show ?thesis
      unfolding handshake_message_def c(1) bind.simps Let_def c(2)
      by (intro hs_if; (rule err | rule other | (rule created; blast) | (rule connected; blast) | (use False in blast)))
  qed
qed

lemma hs_event:
  assumes "state_at sy k st"
  shows "hs (earned st @ answer ev) k (handshake_event env k ev sy)"
proof -
  let ?l = "earned st @ answer ev"
  obtain c where c: "fetch (sy_clients sy) k = Some c" "cl_handshake_state c = st" using fetch_client [OF assms] by blast
  have fail: "hs ?l k (do { s \<leftarrow> set_handshake k CLIENT_HANDSHAKE_ERROR s; Some (Err e, s) })" if "state_at s k st" for e and s :: "'a system"
    by (rule hs_set [OF that], erule hs_stay) simp_all
  have closed: "hs ?l k (do { s \<leftarrow> update_connection a g sy; s \<leftarrow> set_handshake k CLIENT_HANDSHAKE_ERROR s; Some (Err e, s) })" for a g e
    by (rule hs_update [OF assms fail])
  have broken: "hs ?l k (do { (_, s) \<leftarrow> with_connection a g sy; s \<leftarrow> set_handshake k CLIENT_HANDSHAKE_ERROR s; Some (Err e, s) })"
    for a e and g :: "connection \<Rightarrow> status \<times> connection"
    by (rule hs_call [OF with_connection_frame assms fail])
  have go: "hs ?l k (consume_and_advance env k ev sy)" by (rule hs_mono [OF hs_consume_advance [OF assms]]) simp
  have stay: "hs ?l k (Some (Err e, sy))" for e by (rule hs_stay [OF assms]) simp_all
  have restart: "hs ?l k (do { (_, s) \<leftarrow> consume_event ev sy; s \<leftarrow> set_handshake k CLIENT_HANDSHAKE_INIT s; handshake_advance env k s })"
    by (rule hs_call [OF _ assms], erule consume_event_frame, erule hs_set, rule hs_mono, erule hs_advance) simp
  show ?thesis
    using c closed broken go stay restart hs_message [OF assms]
    by (cases "ev_type ev") (simp_all add: handshake_event_def)
qed

text \<open>One call of the handshake.\<close>

lemma hs_handshake:
  assumes "state_at sy k st"
  shows "hs (earned st @ answer ev) k (client_handshake env un k ev sy)"
proof -
  let ?l = "earned st @ answer ev"
  obtain c where c: "fetch (sy_clients sy) k = Some c" using fetch_client [OF assms] by blast
  have go: "hs ?l k (consume_and_advance env k ev sy)" by (rule hs_mono [OF hs_consume_advance [OF assms]]) simp
  have stay: "hs ?l k (Some (Err e, s))" if "state_at s k st" for e and s :: "'a system" by (rule hs_stay [OF that]) simp_all
  have "hs ?l k (if_failed (node_event_special_request env un ev sy)
            (\<lambda>e sy. if e = CONSUMED then consume_and_return ev (Err CONSUMED) sy
                    else client_handshake_handle_error k e sy)
            (handshake_event env k ev))"
    unfolding if_failed_def
  proof (rule hs_call [OF _ assms])
    fix rv s
    assume "node_event_special_request env un ev sy = Some (rv, s)"
    then show "frame sy s" using special_outcome [of ev sy env un] by (simp add: special_def)
  next
    fix rv and s :: "'a system"
    assume at: "state_at s k st"
    have "hs ?l k (consume_and_return ev (Err CONSUMED) s)"
      unfolding consume_and_return_def by (rule hs_call [OF _ at], erule consume_event_frame, erule stay)
    then show "hs ?l k (case rv of OK \<Rightarrow> handshake_event env k ev s
        | Err e \<Rightarrow> if e = CONSUMED then consume_and_return ev (Err CONSUMED) s else client_handshake_handle_error k e s)"
      using hs_event [OF at] hs_handle_error [OF at, of ?l] by (cases rv) simp_all
  qed
  then show ?thesis using c go stay [OF assms] by (simp add: client_handshake_def)
qed

section \<open>Properties\<close>

lemma set_handshake_fetch:
  "fetch (sy_clients sy) k = Some c \<Longrightarrow>
     set_handshake k st sy = Some (sy\<lparr>sy_clients := (sy_clients sy)(k \<mapsto> c\<lparr>cl_handshake_state := st\<rparr>)\<rparr>)"
  by (simp add: set_handshake_def with_client_def change_def)

lemma fetch_upd [simp]: "k \<noteq> 0 \<Longrightarrow> fetch (h(k \<mapsto> x)) k = Some x"
  by (simp add: fetch_def)

lemma fetch_nonzero: "fetch h a = Some n \<Longrightarrow> a \<noteq> 0"
  by (auto simp: fetch_def split: if_splits)

text \<open>A client at the end of its handshake, and the answer it waits for: a refusal.\<close>

definition sample_client :: client where
  "sample_client = \<lparr>cl_prev = 0, cl_next = 0, cl_service_address = 0, cl_now = 0, cl_client_connection = 2,
     cl_handshake_state = CLIENT_HANDSHAKE_CONNECTCLIENT_SENT, cl_handshake_request_id = 103,
     cl_expected_root_object_type = [], cl_user_storage = 0, cl_client_ops = 0\<rparr>"

definition client_system :: "nat system" where
  "client_system = sample_system\<lparr>sy_clients := [40 \<mapsto> sample_client]\<rparr>"

definition refusal :: event where
  "refusal = (event_of EVENT_MESSAGE_RECEIVED 2 7)\<lparr>ev_received_message :=
     zero_receive_data\<lparr>rd_entry_header := empty_entry_header\<lparr>eh_entry_type := MESSAGEENTRYTYPE_CONNECTCLIENTRET,
       eh_request_id := 103, eh_error := MESSAGEERRORTYPE_SERVICENOTFOUND\<rparr>\<rparr>\<rparr>"

lemma client_system_at:
  "connection_at (sy_conns client_system) 2 = Some (sample_connection\<lparr>co_next := 3, co_prev := 1\<rparr>)"
  "fetch (sy_clients client_system) 40 = Some sample_client"
  using sample_connection_at by (simp_all add: client_system_def fetch_def)

lemma refusal_fields:
  "ev_type refusal = EVENT_MESSAGE_RECEIVED" "ev_connection refusal = 2" "ev_event_error_code refusal = OK"
  "eh_entry_type (rd_entry_header (ev_received_message refusal)) = MESSAGEENTRYTYPE_CONNECTCLIENTRET"
  "eh_request_id (rd_entry_header (ev_received_message refusal)) = 103"
  "eh_error (rd_entry_header (ev_received_message refusal)) \<noteq> 0"
  by (simp_all add: refusal_def event_of_def zero_event_def MESSAGEERRORTYPE_SERVICENOTFOUND_def)

text \<open>The answer that the last request waits for.\<close>

lemma connect_answer:
  assumes "fetch (sy_clients sy) k = Some cl" and "cl_handshake_state cl = CLIENT_HANDSHAKE_CONNECTCLIENT_SENT"
    and "cl_client_connection cl = ev_connection ev"
    and "connection_at (sy_conns sy) (ev_connection ev) = Some c" and "\<not> connection_is_server c"
    and "\<not> has_state c STATUS_FLAGS_CLIENT_ESTABLISHED"
    and "ev_type ev = EVENT_MESSAGE_RECEIVED" and "ev_event_error_code ev = OK"
    and "eh_entry_type (rd_entry_header (ev_received_message ev)) = MESSAGEENTRYTYPE_CONNECTCLIENTRET"
    and "eh_request_id (rd_entry_header (ev_received_message ev)) = cl_handshake_request_id cl"
  shows "\<exists>sy' c'. client_handshake env uninitialised k ev sy = Some (OK, sy') \<and> state_at sy' k CLIENT_HANDSHAKE_COMPLETED \<and>
    connection_at (sy_conns sy') (ev_connection ev) = Some c' \<and> has_state c' STATUS_FLAGS_CLIENT_ESTABLISHED"
proof -
  let ?a = "ev_connection ev"
  have nz: "k \<noteq> 0" "?a \<noteq> 0" using fetch_nonzero [OF assms(1)] connection_at_nonzero [OF assms(4)] by simp_all
  have d: "MESSAGEENTRYTYPE_CONNECTCLIENTRET \<noteq> MESSAGEENTRYTYPE_STREAMOP" "\<not> 500 < MESSAGEENTRYTYPE_CONNECTCLIENTRET"
    "MESSAGEENTRYTYPE_CONNECTCLIENTRET \<noteq> MESSAGEENTRYTYPE_GETSERVICEDESC" "MESSAGEENTRYTYPE_CONNECTCLIENTRET \<noteq> MESSAGEENTRYTYPE_OBJECTTYPENAME"
    "MESSAGEENTRYTYPE_CONNECTCLIENTRET \<noteq> MESSAGEENTRYTYPE_CONNECTCLIENT" "MESSAGEENTRYTYPE_CONNECTCLIENTRET \<noteq> MESSAGEENTRYTYPE_DISCONNECTCLIENT"
    "MESSAGEENTRYTYPE_CONNECTCLIENTRET \<noteq> MESSAGEENTRYTYPE_CONNECTIONTEST" "MESSAGEENTRYTYPE_CONNECTCLIENTRET \<noteq> MESSAGEENTRYTYPE_GETNODEINFO"
    "MESSAGEENTRYTYPE_CONNECTCLIENTRET \<noteq> MESSAGEENTRYTYPE_STREAMOPRET"
    by (simp_all add: entry_type_defs)
  let ?sy1 = "sy\<lparr>sy_conns := (sy_conns sy)(?a \<mapsto> Conn (client_connected ev c))\<rparr>"
  have s: "node_event_special_request env uninitialised ev sy = Some (OK, ?sy1)"
    using assms(4,5,6,8,9) d by (simp add: node_event_special_request_def Let_def)
  let ?cl = "cl\<lparr>cl_handshake_state := CLIENT_HANDSHAKE_CONNECTCLIENT_COMPLETED\<rparr>"
  let ?sy2 = "?sy1\<lparr>sy_clients := (sy_clients sy)(k \<mapsto> ?cl)\<rparr>"
  let ?c = "connection_consume_message_received (client_connected ev c)"
  let ?sy3 = "?sy2\<lparr>sy_conns := (sy_conns sy)(?a \<mapsto> Conn ?c)\<rparr>"
  have k3: "consume_event ev ?sy2 = Some (OK, ?sy3)"
    using nz assms(7) by (simp add: consume_event_def node_consume_event_def on_connection_def)
  let ?sy4 = "?sy3\<lparr>sy_clients := (sy_clients sy)(k \<mapsto> ?cl\<lparr>cl_handshake_state := CLIENT_HANDSHAKE_COMPLETED\<rparr>)\<rparr>"
  have a: "handshake_advance env k ?sy3 = Some (OK, ?sy4)"
    using nz by (simp add: handshake_advance_def Let_def handshake_state_defs set_handshake_fetch [of _ k ?cl])
  have "handshake_event env k ev ?sy1 = Some (OK, ?sy4)"
    using assms(1,2,7,9,10) k3 a
    by (simp add: handshake_event_def handshake_message_def Let_def set_handshake_fetch [of _ k cl] consume_and_advance_def handshake_state_defs)
  then have "client_handshake env uninitialised k ev sy = Some (OK, ?sy4)"
    using assms(1,3,7) s by (simp add: client_handshake_def)
  moreover have "has_state ?c STATUS_FLAGS_CLIENT_ESTABLISHED"
    by (simp add: connection_consume_message_received_def client_connected_def has_state_def set_state_def FLAGS_SET_def conn_flag_simps
        word_ao_dist or_eq_0_iff)
  ultimately show ?thesis using nz by (intro exI [of _ ?sy4] exI [of _ ?c]) (simp add: state_at_def)
qed

lemma refusal_accepted:
  "\<exists>sy' c'. client_handshake quiet_environment zero_send_data 40 refusal client_system = Some (OK, sy') \<and>
     state_at sy' 40 CLIENT_HANDSHAKE_COMPLETED \<and>
     connection_at (sy_conns sy') (ev_connection refusal) = Some c' \<and> has_state c' STATUS_FLAGS_CLIENT_ESTABLISHED"
  by (rule connect_answer [of client_system 40 sample_client refusal "sample_connection\<lparr>co_next := 3, co_prev := 1\<rparr>"])
    (use client_system_at in \<open>simp_all add: refusal_fields sample_client_def sample_connection_def connection_is_server_def
       has_state_def FLAGS_CHECK_def STATUS_FLAGS_CLIENT_ESTABLISHED_def\<close>)

text \<open>
  C5. The requests about connections: they are to be repeated, have consumed the event, or leave it to
  others, and the last only for responses, requests about services, and types above 500. Nothing but
  connections and the random numbers change: clients, pending requests and services stay as they are.
\<close>

theorem special_request_outcome:
  assumes "node_event_special_request env uninitialised ev sy = Some (rv, sy')"
  shows "(rv = Err RETRY \<or> rv = Err CONSUMED \<or>
      rv = OK \<and> left_to_others (eh_entry_type (rd_entry_header (ev_received_message ev)))) \<and>
    sy_clients sy' = sy_clients sy \<and> sy_requests sy' = sy_requests sy \<and> sy_services sy' = sy_services sy"
  using special_outcome [of ev sy env uninitialised] assms by (auto simp: special_def frame_def)

theorem special_request_outcome_witness:
  "\<exists>sy'. node_event_special_request quiet_environment zero_send_data refusal client_system = Some (OK, sy') \<and>
     left_to_others MESSAGEENTRYTYPE_CONNECTCLIENTRET \<and> sy_clients sy' = sy_clients client_system"
proof -
  let ?sy = "client_system\<lparr>sy_conns := (sy_conns client_system)(2 \<mapsto>
    Conn (client_connected refusal (sample_connection\<lparr>co_next := 3, co_prev := 1\<rparr>)))\<rparr>"
  have "node_event_special_request quiet_environment zero_send_data refusal client_system = Some (OK, ?sy)"
    using client_system_at
    by (simp add: node_event_special_request_def Let_def refusal_fields entry_type_defs sample_connection_def
        connection_is_server_def has_state_def FLAGS_CHECK_def STATUS_FLAGS_CLIENT_ESTABLISHED_def)
  from special_request_outcome [OF this] this show ?thesis by (auto simp: refusal_fields)
qed

text \<open>
  C2. The order of a handshake: if the answers received so far contain those that the state of the client
  stands for, in the order of the protocol, they still do after any call of the handshake with any event;
  the call succeeds only when the state becomes completed, which stands for all three answers.
\<close>

theorem handshake_in_order:
  assumes "client_handshake env uninitialised k ev sy = Some (rv, sy')" and "state_at sy k st" and "subseq (earned st) seen"
  shows "\<exists>st'. state_at sy' k st' \<and> subseq (earned st') (seen @ answer ev) \<and>
    (rv = OK \<longrightarrow> st' = CLIENT_HANDSHAKE_COMPLETED \<and>
      subseq [MESSAGEENTRYTYPE_STREAMOPRET, MESSAGEENTRYTYPE_OBJECTTYPENAMERET, MESSAGEENTRYTYPE_CONNECTCLIENTRET]
        (seen @ answer ev))"
proof -
  obtain st' where st': "state_at sy' k st'" "prefix (earned st') (earned st @ answer ev)"
      "rv = OK \<longrightarrow> st' = CLIENT_HANDSHAKE_COMPLETED"
    using hs_handshake [OF assms(2), of ev env uninitialised] assms(1) by (auto simp: hs_def)
  have "subseq (earned st @ answer ev) (seen @ answer ev)"
    using assms(3) by (simp add: list_emb_append_mono)
  then have sub: "subseq (earned st') (seen @ answer ev)"
    using st'(2) prefix_imp_subseq subseq_order.order_trans by blast
  then show ?thesis using st' by (intro exI [of _ st']) auto
qed

theorem handshake_in_order_witness:
  "\<exists>sy'. client_handshake quiet_environment zero_send_data 40 refusal client_system = Some (OK, sy') \<and>
     state_at sy' 40 CLIENT_HANDSHAKE_COMPLETED \<and> subseq [2, 104, 108] ([2, 112, 104] @ answer refusal)"
proof -
  obtain sy' where h: "client_handshake quiet_environment zero_send_data 40 refusal client_system = Some (OK, sy')"
      "state_at sy' 40 CLIENT_HANDSHAKE_COMPLETED"
    using refusal_accepted by blast
  have st: "state_at client_system 40 CLIENT_HANDSHAKE_CONNECTCLIENT_SENT"
    by (simp add: state_at_def client_system_def sample_client_def)
  have "subseq (earned CLIENT_HANDSHAKE_CONNECTCLIENT_SENT) [2, 112, 104]"
    by (simp add: entry_type_defs)
  from handshake_in_order [OF h(1) st this] h show ?thesis by (simp add: entry_type_defs)
qed

text \<open>
  C10. A refusal connects: the handshake does not look at the error of an answer, so a client whose request
  to connect is refused reports success, counts as established, and is completed.
\<close>

theorem refused_client_connects:
  assumes "fetch (sy_clients sy) k = Some cl" and "cl_handshake_state cl = CLIENT_HANDSHAKE_CONNECTCLIENT_SENT"
    and "cl_client_connection cl = ev_connection ev"
    and "connection_at (sy_conns sy) (ev_connection ev) = Some c" and "\<not> connection_is_server c"
    and "\<not> has_state c STATUS_FLAGS_CLIENT_ESTABLISHED"
    and "ev_type ev = EVENT_MESSAGE_RECEIVED" and "ev_event_error_code ev = OK"
    and "eh_entry_type (rd_entry_header (ev_received_message ev)) = MESSAGEENTRYTYPE_CONNECTCLIENTRET"
    and "eh_request_id (rd_entry_header (ev_received_message ev)) = cl_handshake_request_id cl"
    and "eh_error (rd_entry_header (ev_received_message ev)) \<noteq> 0"
  shows "\<exists>sy' c'. client_handshake env uninitialised k ev sy = Some (OK, sy') \<and> state_at sy' k CLIENT_HANDSHAKE_COMPLETED \<and>
    connection_at (sy_conns sy') (ev_connection ev) = Some c' \<and> has_state c' STATUS_FLAGS_CLIENT_ESTABLISHED"
  by (rule connect_answer [OF assms(1-10)])

theorem refused_client_connects_witness:
  "\<exists>sy' c'. client_handshake quiet_environment zero_send_data 40 refusal client_system = Some (OK, sy') \<and>
     state_at sy' 40 CLIENT_HANDSHAKE_COMPLETED \<and>
     connection_at (sy_conns sy') 2 = Some c' \<and> has_state c' STATUS_FLAGS_CLIENT_ESTABLISHED"
  using refused_client_connects [of client_system 40 sample_client refusal "sample_connection\<lparr>co_next := 3, co_prev := 1\<rparr>"
      quiet_environment zero_send_data] client_system_at
  by (simp add: refusal_fields sample_client_def sample_connection_def connection_is_server_def has_state_def FLAGS_CHECK_def
      STATUS_FLAGS_CLIENT_ESTABLISHED_def)
end
