(* ===== verification/RRL_NodeAnswer.thy ===== *)
theory RRL_NodeAnswer
  imports RRL_NodeSpecial
begin

text \<open>
  Answers about services, src/node.c: the definition of a service, found by its name or by a path, and the
  type of an object with the types it implements.
\<close>

text \<open>The response goes to the endpoint that sent the request.\<close>

definition begin_response_to_sender :: "event \<Rightarrow> send_data \<Rightarrow> 'w system \<Rightarrow> (status \<times> send_data \<times> 'w system) option" where
  "begin_response_to_sender ev uninitialised sy = do {
     c \<leftarrow> connection_at (sy_conns sy) (ev_connection ev);
     let old_remote_endpoint = cn_remote_endpoint c;
     sy \<leftarrow> update_connection (ev_connection ev)
            (\<lambda>c. c\<lparr>cn_remote_endpoint := mh_sender_endpoint (rd_message_header (ev_received_message ev))\<rparr>) sy;
     (rv, sd, sy) \<leftarrow> begin_response ev uninitialised sy;
     sy \<leftarrow> update_connection (ev_connection ev) (\<lambda>c. c\<lparr>cn_remote_endpoint := old_remote_endpoint\<rparr>) sy;
     Some (rv, sd, sy) }"

text \<open>Writing the elements of a response and ending it.\<close>

definition finish_response ::
  "addr \<Rightarrow> (buffer_vec \<Rightarrow> messageelement_writer \<Rightarrow> status \<times> buffer_vec \<times> messageelement_writer)
     \<Rightarrow> status \<times> send_data \<times> 'w system \<Rightarrow> (status \<times> 'w system) option" where
  "finish_response a f begun =
     (case begun of
        (Err e, sd, sy) \<Rightarrow> Some (Err e, sy)
      | (OK, sd, sy) \<Rightarrow> do {
          (rv, sd, sy) \<leftarrow> write_response a f sd sy;
          if FAILED rv then Some (rv, sy)
          else do { (rv, sd, sy) \<leftarrow> end_send a sd sy; Some (rv, sy) } })"

type_synonym element_step = "buffer_vec \<Rightarrow> messageelement_writer \<Rightarrow> status \<times> buffer_vec \<times> messageelement_writer"

definition then_write :: "element_step \<Rightarrow> element_step \<Rightarrow> element_step" where
  "then_write f g bv w = (case f bv w of (Err e, bv, w) \<Rightarrow> (Err e, bv, w) | (OK, bv, w) \<Rightarrow> g bv w)"

text \<open>A nested element of a type and a name, with its contents.\<close>

definition fresh_element_writer :: messageelement_writer where
  "fresh_element_writer = sd_element_writer zero_send_data"

definition write_nested :: "u16 \<Rightarrow> byte list \<Rightarrow> element_step \<Rightarrow> element_step" where
  "write_nested element_type name f bv w =
     (case messageelement_writer_begin_nested_element bv w
             (\<lparr>lh_element_size = 0, lh_element_flags = 0, lh_element_name = name, lh_element_name_code = 0,
               lh_element_number = 0, lh_element_type = element_type, lh_element_type_name = [],
               lh_element_type_name_code = 0, lh_metadata = [], lh_data_count = 0\<rparr>)
             fresh_element_writer of
        (Err e, bv, w, _) \<Rightarrow> (Err e, bv, w)
      | (OK, bv, w, nested) \<Rightarrow>
          (case f bv nested of
             (Err e, bv, _) \<Rightarrow> (Err e, bv, w)
           | (OK, bv, nested) \<Rightarrow> messageelement_writer_end_nested_element bv w nested))"


section \<open>Service definitions\<close>

definition SERVICEDEF :: "byte list" where "SERVICEDEF = ascii ''servicedef''"
definition ATTRIBUTES :: "byte list" where "ATTRIBUTES = ascii ''attributes''"
definition DATATYPE_MAP_STRING :: u16 where "DATATYPE_MAP_STRING = 103"
definition DATATYPE_LIST :: u16 where "DATATYPE_LIST = 108"

definition reply_service_def :: "event \<Rightarrow> send_data \<Rightarrow> const_string \<Rightarrow> 'w step" where
  "reply_service_def ev uninitialised service_def_str sy =
     (if \<not> length service_def_str > 0 then None
      else do {
        begun \<leftarrow> begin_response_to_sender ev uninitialised sy;
        finish_response (ev_connection ev)
          (then_write (\<lambda>bv w. messageelement_writer_write_data_string bv w SERVICEDEF service_def_str)
             (write_nested DATATYPE_MAP_STRING ATTRIBUTES (\<lambda>bv w. (OK, bv, w)))) begun })"

text \<open>
  Both names of the element are searched, and the second search decides: its status and its reader
  replace those of the first.
\<close>

definition find_service_type :: "buffer_vec \<Rightarrow> messageentry_reader \<Rightarrow> (status \<times> messageelement_reader) option" where
  "find_service_type bv entry_reader = do {
     (rv, r) \<leftarrow> messageentry_reader_find_element bv entry_reader (ascii ''servicetype'') fresh_element_reader;
     if FAILED rv \<and> rv \<noteq> Err MESSAGEELEMENT_NOT_FOUND then Some (rv, r)
     else messageentry_reader_find_element bv entry_reader (ascii ''ServiceType'') r }"

definition service_def_for_path :: "event \<Rightarrow> send_data \<Rightarrow> addr \<Rightarrow> addr \<Rightarrow> 'w step" where
  "service_def_for_path ev uninitialised services_head service_defs_head sy = do {
     let S = sy_services sy;
     srv \<leftarrow> node_find_service_for_path S services_head (eh_service_path (rd_entry_header (ev_received_message ev)));
     if srv = 0 then reply_service_not_found ev sy
     else do {
       s \<leftarrow> fetch (ss_services S) srv;
       root \<leftarrow> fetch (ss_objects S) (sv_root_service_object s);
       def \<leftarrow> node_find_service_definition_for_entry S service_defs_head (so_qualified_type root);
       if def = 0 then reply_service_not_found ev sy
       else do {
         d \<leftarrow> fetch (ss_defs S) def;
         reply_service_def ev uninitialised (sd_service_definition d) sy } } }"

definition node_event_special_request_service_definition :: "event \<Rightarrow> send_data \<Rightarrow> addr \<Rightarrow> addr \<Rightarrow> 'w step" where
  "node_event_special_request_service_definition ev uninitialised services_head service_defs_head sy =
     (if eh_entry_type (rd_entry_header (ev_received_message ev)) \<noteq> MESSAGEENTRYTYPE_GETSERVICEDESC \<or>
         services_head = 0 \<or> service_defs_head = 0 then None
      else do {
        c \<leftarrow> connection_at (sy_conns sy) (ev_connection ev);
        let bv = recv_buffer_vec c;
        (rv, r) \<leftarrow> find_service_type bv (rd_entry_reader (ev_received_message ev));
        if rv = Err MESSAGEELEMENT_NOT_FOUND then service_def_for_path ev uninitialised services_head service_defs_head sy
        else if FAILED rv then reply_service_not_found ev sy
        else
          (case messageelement_reader_read_data_string bv r string_storage of
             (Err e, _) \<Rightarrow> reply_service_not_found ev sy
           | (OK, str) \<Rightarrow> do {
               def \<leftarrow> node_find_service_definition (sy_services sy) service_defs_head
                       (snd (string_shallow_copy_from_mutable str []));
               if def = 0 then reply_service_not_found ev sy
               else do {
                 d \<leftarrow> fetch (ss_defs (sy_services sy)) def;
                 reply_service_def ev uninitialised (sd_service_definition d) sy } }) })"


section \<open>The type of an object\<close>

definition OBJECTTYPE :: "byte list" where "OBJECTTYPE = ascii ''objecttype''"
definition OBJECTIMPLEMENTS :: "byte list" where "OBJECTIMPLEMENTS = ascii ''objectimplements''"

text \<open>\<open>sprintf\<close> of an unsigned number with \<open>%u\<close>.\<close>

fun decimal :: "nat \<Rightarrow> byte list" where
  "decimal n = (if n < 10 then [of_nat (48 + n)] else decimal (n div 10) @ [of_nat (48 + n mod 10)])"

declare decimal.simps [simp del]

text \<open>
  One element for each name between the semicolons; \<open>k\<close> is where the current name starts and
  \<open>list_i\<close> its number.
\<close>

definition write_list_item :: "const_string \<Rightarrow> nat \<Rightarrow> nat \<Rightarrow> u32 \<Rightarrow> element_step" where
  "write_list_item types k len list_i bv w =
     messageelement_writer_write_data_string bv w (decimal (unat list_i)) (chunk types k len)"

function write_implements :: "const_string \<Rightarrow> nat \<Rightarrow> nat \<Rightarrow> u32 \<Rightarrow> element_step" where
  "write_implements types i k list_i bv w =
     (if i < length types then
        (if types ! i = 59 then
           (if i - k > 0
            then (case write_list_item types k (i - k) list_i bv w of
                    (Err e, bv, w) \<Rightarrow> (Err e, bv, w)
                  | (OK, bv, w) \<Rightarrow> write_implements types (i + 1) (i + 1) (list_i + 1) bv w)
            else write_implements types (i + 1) (i + 1) list_i bv w)
         else write_implements types (i + 1) k list_i bv w)
      else if k < length types then write_list_item types k (length types - k) list_i bv w
      else (OK, bv, w))"
  by pat_completeness auto
termination by (relation "measure (\<lambda>(types, i, k, list_i, bv, w). length types - i)") auto

declare write_implements.simps [simp del]

definition write_object_type :: "service_object \<Rightarrow> element_step" where
  "write_object_type b =
     then_write (\<lambda>bv w. messageelement_writer_write_data_string bv w OBJECTTYPE (so_qualified_type b))
       (if length (so_implemented_qualified_types b) > 0
        then write_nested DATATYPE_LIST OBJECTIMPLEMENTS (write_implements (so_implemented_qualified_types b) 0 0 0)
        else (\<lambda>bv w. (OK, bv, w)))"

definition reply_object_not_found :: "event \<Rightarrow> 'w step" where
  "reply_object_not_found ev =
     respond_error ev MESSAGEERRORTYPE_OBJECTNOTFOUND ''RobotRaconteur.ObjectNotFound'' ''Object not found''"

definition node_event_special_request_object_type_name :: "event \<Rightarrow> send_data \<Rightarrow> addr \<Rightarrow> 'w step" where
  "node_event_special_request_object_type_name ev uninitialised service_objects_head sy =
     (if eh_entry_type (rd_entry_header (ev_received_message ev)) \<noteq> MESSAGEENTRYTYPE_OBJECTTYPENAME then None
      else do {
        b \<leftarrow> node_find_service_object_for_path (sy_services sy) service_objects_head
              (eh_service_path (rd_entry_header (ev_received_message ev)));
        if b \<noteq> 0 then do {
          b \<leftarrow> fetch (ss_objects (sy_services sy)) b;
          begun \<leftarrow> begin_response_to_sender ev uninitialised sy;
          finish_response (ev_connection ev) (write_object_type b) begun }
        else reply_object_not_found ev sy })"

definition node_event_special_request_object_type_name2 :: "event \<Rightarrow> send_data \<Rightarrow> addr \<Rightarrow> 'w step" where
  "node_event_special_request_object_type_name2 ev uninitialised services_head sy = do {
     obj \<leftarrow> node_find_service_for_path (sy_services sy) services_head
             (eh_service_path (rd_entry_header (ev_received_message ev)));
     if obj \<noteq> 0 then node_event_special_request_object_type_name ev uninitialised obj sy
     else reply_object_not_found ev sy }"

end
