(* ===== verification/RRL_NodeRun.thy ===== *)
theory RRL_NodeRun
  imports RRL_NodeAnswer RRL_ClientHandshake
begin

text \<open>
  Running a node, src/node.c: the next event is taken, handled by the client or the service side of the
  library and by the user's callbacks, and consumed; cycles of events, and the loops that run until
  nothing is left to do. Local variables that the C code does not initialise are parameters.
\<close>

definition MESSAGEENTRYTYPE_CLIENTKEEPALIVEREQ :: u16 where "MESSAGEENTRYTYPE_CLIENTKEEPALIVEREQ = 1105"
definition MESSAGEENTRYTYPE_SERVICEPATHRELEASEDREQ :: u16 where "MESSAGEENTRYTYPE_SERVICEPATHRELEASEDREQ = 1109"

definition run_consume_event :: "event \<Rightarrow> status \<Rightarrow> 'w step" where
  "run_consume_event ev returned_rv sy =
     (if FAILED returned_rv
      then (if returned_rv = Err RETRY then Some (OK, sy) else consume_and_return ev returned_rv sy)
      else consume_event ev sy)"


section \<open>The client side\<close>

definition run_client_handshake :: "'w environment \<Rightarrow> send_data \<Rightarrow> event \<Rightarrow> 'w step" where
  "run_client_handshake env uninitialised ev sy = do {
     c \<leftarrow> connection_at (sy_conns sy) (ev_connection ev);
     if has_state c STATUS_FLAGS_CLIENT_ESTABLISHED then Some (OK, sy)
     else do {
       (rv, sy) \<leftarrow> client_handshake env uninitialised (cn_client c) ev sy;
       if rv = OK then do {
         c \<leftarrow> connection_at (sy_conns sy) (ev_connection ev);
         cops \<leftarrow> client_ops_of (ev_connection ev) sy;
         Some (Err CONSUMED,
               case callback (en_client_ops env) lo_connected cops of
                 Some f \<Rightarrow> f \<lparr>ce_event = ev, ce_client = cn_client c\<rparr> sy
               | None \<Rightarrow> sy) }
       else if rv = Err RETRY then Some (Err CONSUMED, sy)
       else Some (rv, sy) } }"

definition run_client_message :: "'w environment \<Rightarrow> client_event \<Rightarrow> event \<Rightarrow> 'w step" where
  "run_client_message env c_evt ev sy = do {
     cops \<leftarrow> client_ops_of (ev_connection ev) sy;
     (case callback (en_client_ops env) lo_message_received cops of
        Some f \<Rightarrow>
          if_failed (Some (f c_evt sy))
            (\<lambda>e sy. if e = RETRY then Some (Err RETRY, sy) else consume_and_return ev (Err CONSUMED) sy)
            (consume_and_return ev (Err CONSUMED))
      | None \<Rightarrow> Some (OK, sy)) }"

definition run_client :: "'w environment \<Rightarrow> send_data \<Rightarrow> event \<Rightarrow> 'w step" where
  "run_client env uninitialised ev sy = do {
     c_evt \<leftarrow> node_client_event_construct ev sy;
     if_failed (run_client_handshake env uninitialised ev sy) (\<lambda>e sy. Some (Err e, sy)) (\<lambda>sy. do {
       c \<leftarrow> connection_at (sy_conns sy) (ev_connection ev);
       if cn_client c = 0 then Some (OK, sy)
       else if_failed (node_dispatch_response_message env ev sy)
              (\<lambda>e sy. if e = CONSUMED then Some (OK, sy) else Some (Err e, sy))
              (run_client_message env c_evt ev) }) }"

definition run_client_connection_event :: "'w environment \<Rightarrow> send_data \<Rightarrow> event \<Rightarrow> 'w step" where
  "run_client_connection_event env uninitialised ev sy =
     (case ev_type ev of
        EVENT_CONNECTION_CLIENT_SOCKET_CONNECTED \<Rightarrow> do {
          c_evt \<leftarrow> node_client_event_construct ev sy;
          run_client_handshake env uninitialised ev sy }
      | EVENT_CONNECTION_CLOSED \<Rightarrow> do {
          c \<leftarrow> connection_at (sy_conns sy) (ev_connection ev);
          if has_state c STATUS_FLAGS_CLOSE_NOTIFIED then Some (OK, sy)
          else do {
            sy \<leftarrow> update_connection (ev_connection ev) (set_state STATUS_FLAGS_CLOSE_NOTIFIED) sy;
            cops \<leftarrow> client_ops_of (ev_connection ev) sy;
            (case callback (en_client_ops env) lo_disconnected cops of
               Some f \<Rightarrow> do { c_evt \<leftarrow> node_client_event_construct ev sy; Some (OK, f c_evt sy) }
             | None \<Rightarrow> Some (OK, sy)) } }
      | _ \<Rightarrow> Some (OK, sy))"


section \<open>The service side\<close>

definition service_ops_of :: "addr \<Rightarrow> 'w system \<Rightarrow> addr option" where
  "service_ops_of s sy = (if s = 0 then Some 0 else map_option sv_ops (fetch (ss_services (sy_services sy)) s))"

definition notify_service :: "'w environment \<Rightarrow> event \<Rightarrow> addr \<Rightarrow> service_event_type \<Rightarrow> 'w system \<Rightarrow> 'w system option" where
  "notify_service env ev s t sy = do {
     sops \<leftarrow> service_ops_of s sy;
     Some (case callback (en_service_ops env) vo_client_event sops of
             Some f \<Rightarrow> f \<lparr>se_event = ev, se_service = s, se_service_object = 0\<rparr> t sy
           | None \<Rightarrow> sy) }"

text \<open>What follows a request that the node answered; \<open>s\<close> is the service before it.\<close>

definition after_special_request :: "'w environment \<Rightarrow> event \<Rightarrow> addr \<Rightarrow> error \<Rightarrow> 'w step" where
  "after_special_request env ev s e sy =
     (let t = eh_entry_type (rd_entry_header (ev_received_message ev)) in
      if e = RETRY then Some (OK, sy)
      else if e = CONSUMED then
        (if t = MESSAGEENTRYTYPE_CONNECTCLIENT then do {
           c \<leftarrow> connection_at (sy_conns sy) (ev_connection ev);
           sy \<leftarrow> notify_service env ev (cn_service c) SERVICE_EVENT_CLIENT_CONNECTED sy;
           Some (OK, sy) }
         else if t = MESSAGEENTRYTYPE_DISCONNECTCLIENT then do {
           sy \<leftarrow> notify_service env ev s SERVICE_EVENT_CLIENT_DISCONNECTED sy;
           Some (OK, sy) }
         else Some (OK, sy))
      else Some (Err e, sy))"

text \<open>\<open>(void)consume_event(event); return respond...;\<close>\<close>

definition consume_then :: "event \<Rightarrow> 'w step \<Rightarrow> 'w step" where
  "consume_then ev f sy = do { (_, sy) \<leftarrow> consume_event ev sy; f sy }"

text \<open>A message for an object of the connected service \<open>s\<close>.\<close>

definition run_object_message :: "'w environment \<Rightarrow> event \<Rightarrow> addr \<Rightarrow> 'w step" where
  "run_object_message env ev s sy = do {
     s_obj \<leftarrow> node_find_service_object_for_path (sy_services sy) s
               (eh_service_path (rd_entry_header (ev_received_message ev)));
     if s_obj = 0 then consume_then ev (reply_object_not_found ev) sy
     else if_failed (node_dispatch_response_message env ev sy)
            (\<lambda>e sy. if e = CONSUMED then Some (OK, sy) else Some (Err e, sy))
            (\<lambda>sy. do {
               b \<leftarrow> fetch (ss_objects (sy_services sy)) s_obj;
               (case callback (en_service_object_ops env) oo_message_received (so_ops b) of
                  Some f \<Rightarrow> (case f \<lparr>se_event = ev, se_service = s, se_service_object = s_obj\<rparr> sy of
                               (rv, sy) \<Rightarrow> run_consume_event ev rv sy)
                | None \<Rightarrow> consume_and_return ev (Err NOT_IMPLEMENTED) sy) }) }"

definition run_service_request :: "'w environment \<Rightarrow> send_data \<Rightarrow> event \<Rightarrow> addr \<Rightarrow> 'w step" where
  "run_service_request env uninitialised ev s sy =
     (let t = eh_entry_type (rd_entry_header (ev_received_message ev)); nd = sy_node sy in
      if t = MESSAGEENTRYTYPE_GETSERVICEDESC
      then consume_then ev (node_event_special_request_service_definition ev uninitialised (nd_services_head nd)
                              (nd_service_defs_head nd)) sy
      else if t = MESSAGEENTRYTYPE_OBJECTTYPENAME
      then consume_then ev (node_event_special_request_object_type_name2 ev uninitialised (nd_services_head nd)) sy
      else if t = MESSAGEENTRYTYPE_CLIENTKEEPALIVEREQ then do {
        (rv, sy) \<leftarrow> send_empty_response ev sy;
        if rv = Err RETRY then Some (Err RETRY, sy) else consume_and_return ev rv sy }
      else if t = MESSAGEENTRYTYPE_SERVICEPATHRELEASEDREQ then consume_and_return ev OK sy
      else do {
        c \<leftarrow> connection_at (sy_conns sy) (ev_connection ev);
        if \<not> has_state c STATUS_FLAGS_CLIENT_ESTABLISHED \<or> cn_service c = 0
        then consume_then ev (respond_error ev MESSAGEERRORTYPE_PROTOCOLERROR ''RobotRaconteur.ProtocolError''
                                ''Service connection not established'') sy
        else run_object_message env ev s sy })"

definition run_service :: "'w environment \<Rightarrow> send_data \<Rightarrow> event \<Rightarrow> 'w step" where
  "run_service env uninitialised ev sy = do {
     c \<leftarrow> connection_at (sy_conns sy) (ev_connection ev);
     let s = cn_service c;
     if_failed (node_event_special_request env uninitialised ev sy)
       (after_special_request env ev s) (run_service_request env uninitialised ev s) }"

text \<open>
  The requests that are failed when a connection breaks are those whose id is that of the message of the
  event; the event of an error has no message, and its id is 0.
\<close>

partial_function (option) fail_requests :: "event \<Rightarrow> connection \<Rightarrow> timespec \<Rightarrow> addr \<Rightarrow> request nodes \<Rightarrow> request nodes option" where
  "fail_requests ev c now r h =
     (if r = 0 then Some h
      else do {
        q \<leftarrow> fetch h r;
        h \<leftarrow> (if answers ev c q then change r (\<lambda>q. q\<lparr>rq_timeout_timespec := now - 1\<rparr>) h else Some h);
        fail_requests ev c now (rq_next q) h })"

definition run_service_connection_error :: "'w environment \<Rightarrow> event \<Rightarrow> timespec \<Rightarrow> 'w step" where
  "run_service_connection_error env ev now sy = do {
     c \<leftarrow> connection_at (sy_conns sy) (ev_connection ev);
     if \<not> has_state c STATUS_FLAGS_CLIENT_ESTABLISHED then Some (OK, sy)
     else do {
       let s = cn_service c;
       sy \<leftarrow> update_connection (ev_connection ev)
              (\<lambda>c. (clear_state STATUS_FLAGS_CLIENT_ESTABLISHED c)\<lparr>cn_service := 0\<rparr>) sy;
       h \<leftarrow> fail_requests ev c now (nd_requests_head (sy_node sy)) (sy_requests sy);
       sy \<leftarrow> notify_service env ev s SERVICE_EVENT_CLIENT_DISCONNECTED (sy\<lparr>sy_requests := h\<rparr>);
       Some (OK, sy) } }"


section \<open>One event\<close>

definition next_event :: "timespec \<Rightarrow> 'w system \<Rightarrow> (event \<times> 'w system) option" where
  "next_event now sy = do {
     (ev, h, nd) \<leftarrow> node_next_event now (sy_conns sy) (sy_node sy);
     Some (ev, sy\<lparr>sy_conns := h, sy_node := nd\<rparr>) }"

text \<open>The callback of the node for an event, and consuming the event.\<close>

definition node_callback :: "'w environment \<Rightarrow> ('w node_ops \<Rightarrow> (event \<Rightarrow> 'w system \<Rightarrow> status \<times> 'w system) option) \<Rightarrow> event \<Rightarrow> 'w step" where
  "node_callback env sel ev sy =
     (case callback (en_node_ops env) sel (nd_node_ops (sy_node sy)) of
        Some f \<Rightarrow> (case f ev sy of (rv, sy) \<Rightarrow> run_consume_event ev rv sy)
      | None \<Rightarrow> consume_event ev sy)"

definition run_connection_error :: "'w environment \<Rightarrow> send_data \<Rightarrow> timespec \<Rightarrow> event \<Rightarrow> 'w step" where
  "run_connection_error env uninitialised now ev sy = do {
     (_, sy) \<leftarrow> with_connection (ev_connection ev) connection_close sy;
     c \<leftarrow> connection_at (sy_conns sy) (ev_connection ev);
     (_, sy) \<leftarrow> (if connection_is_server c then run_service_connection_error env ev now sy
                else run_client_connection_event env uninitialised ev sy);
     node_callback env no_connection_event ev sy }"

definition run_connection_event :: "'w environment \<Rightarrow> send_data \<Rightarrow> event \<Rightarrow> 'w step" where
  "run_connection_event env uninitialised ev sy = do {
     c \<leftarrow> connection_at (sy_conns sy) (ev_connection ev);
     (_, sy) \<leftarrow> (if \<not> connection_is_server c then run_client_connection_event env uninitialised ev sy else Some (OK, sy));
     node_callback env no_connection_event ev sy }"

definition run_message_received :: "'w environment \<Rightarrow> send_data \<Rightarrow> event \<Rightarrow> 'w step" where
  "run_message_received env uninitialised ev sy = do {
     c \<leftarrow> connection_at (sy_conns sy) (ev_connection ev);
     if_failed (if connection_is_server c then run_service env uninitialised ev sy else run_client env uninitialised ev sy)
       (\<lambda>e sy. if e = RETRY then Some (Err RETRY, sy)
               else if e = CONSUMED then Some (OK, sy)
               else do {
                 (_, sy) \<leftarrow> with_connection (ev_connection ev) connection_close sy;
                 Some (Err e, sy) })
       (consume_event ev) }"

definition run_event :: "'w environment \<Rightarrow> send_data \<Rightarrow> timespec \<Rightarrow> event \<Rightarrow> 'w step" where
  "run_event env uninitialised now ev sy =
     (case ev_type ev of
        EVENT_NOOP \<Rightarrow> if_failed (node_requests_process_control env now sy) (\<lambda>e. consume_and_return ev (Err e)) (consume_event ev)
      | EVENT_NEXT_CYCLE \<Rightarrow> if_failed (node_requests_process_control env now sy) (\<lambda>e. consume_and_return ev (Err e)) (consume_event ev)
      | EVENT_CONNECTION_ERROR \<Rightarrow> run_connection_error env uninitialised now ev sy
      | EVENT_CONNECTION_TIMEOUT \<Rightarrow> run_connection_error env uninitialised now ev sy
      | EVENT_CONNECTION_CONNECTED \<Rightarrow> run_connection_event env uninitialised ev sy
      | EVENT_CONNECTION_CLIENT_SOCKET_CONNECTED \<Rightarrow> run_connection_event env uninitialised ev sy
      | EVENT_CONNECTION_CLOSED \<Rightarrow> run_connection_event env uninitialised ev sy
      | EVENT_CONNECTION_HEARTBEAT_TIMEOUT \<Rightarrow> do {
          (_, sy) \<leftarrow> client_send_heartbeat uninitialised (ev_connection ev) sy;
          consume_event ev sy }
      | EVENT_MESSAGE_SEND_COMPLETE \<Rightarrow> node_callback env no_send_complete ev sy
      | EVENT_MESSAGE_RECEIVED \<Rightarrow> run_message_received env uninitialised ev sy)"

definition node_run_next_event2 :: "'w environment \<Rightarrow> send_data \<Rightarrow> timespec \<Rightarrow> 'w system \<Rightarrow> (status \<times> event \<times> 'w system) option" where
  "node_run_next_event2 env uninitialised now sy = do {
     (ev, sy) \<leftarrow> next_event now sy;
     (rv, sy) \<leftarrow> run_event env uninitialised now ev sy;
     Some (rv, ev, sy) }"

definition node_run_next_event :: "'w environment \<Rightarrow> send_data \<Rightarrow> timespec \<Rightarrow> 'w system \<Rightarrow> (status \<times> event_type \<times> 'w system) option" where
  "node_run_next_event env uninitialised now sy = do {
     (rv, ev, sy) \<leftarrow> node_run_next_event2 env uninitialised now sy;
     Some (rv, ev_type ev, sy) }"


section \<open>Cycles\<close>

partial_function (option) cycle_loop ::
  "'w environment \<Rightarrow> send_data \<Rightarrow> timespec \<Rightarrow> size_t \<Rightarrow> size_t \<Rightarrow> 'w system \<Rightarrow> (status \<times> 'w system) option" where
  "cycle_loop env uninitialised now max_events node_events sy = do {
     (rv, ev, sy) \<leftarrow> node_run_next_event2 env uninitialised now sy;
     let sy = (if FAILED rv
               then (case callback (en_node_ops env) no_event_error_returned (nd_node_ops (sy_node sy)) of
                       Some f \<Rightarrow> snd (f (ev\<lparr>ev_event_error_code := rv\<rparr>) sy)
                     | None \<Rightarrow> sy)
               else sy);
     if ev_type ev = EVENT_NEXT_CYCLE then Some (OK, sy)
     else if node_events + 1 < max_events then cycle_loop env uninitialised now max_events (node_events + 1) sy
     else Some (OK, sy) }"

definition node_run_next_event_cycle :: "'w environment \<Rightarrow> send_data \<Rightarrow> timespec \<Rightarrow> size_t \<Rightarrow> 'w step" where
  "node_run_next_event_cycle env uninitialised now max_events = cycle_loop env uninitialised now max_events 0"

text \<open>A call on all connections.\<close>

definition on_connections :: "('w \<times> store \<Rightarrow> ('r \<times> 'w \<times> store) option) \<Rightarrow> 'w system \<Rightarrow> ('r \<times> 'w system) option" where
  "on_connections f sy = do {
     (r, w, h) \<leftarrow> f (sy_world sy, sy_conns sy);
     Some (r, sy\<lparr>sy_world := w, sy_conns := h\<rparr>) }"

text \<open>One round of draining: sending, a cycle of events, and what is still pending.\<close>

definition drain_round :: "'w environment \<Rightarrow> send_data \<Rightarrow> timespec \<Rightarrow> size_t \<Rightarrow> 'w system \<Rightarrow> ((error + size_t) \<times> 'w system) option" where
  "drain_round env uninitialised now max_events sy = do {
     (rv, sy) \<leftarrow> on_connections (connections_communicate_drain (en_object_ops env) (nd_connections_head (sy_node sy)) now) sy;
     (case rv of
        Err e \<Rightarrow> Some (Inl e, sy)
      | OK \<Rightarrow> do {
          (rv, sy) \<leftarrow> node_run_next_event_cycle env uninitialised now max_events sy;
          (case rv of
             Err e \<Rightarrow> Some (Inl e, sy)
           | OK \<Rightarrow> do {
               (n, sy) \<leftarrow> on_connections (node_events_drain_pending (en_object_ops env) (sy_node sy) now) sy;
               Some (Inr n, sy) }) }) }"

text \<open>The \<open>do\<close> loop; the result has the number of cycles.\<close>

partial_function (option) drain_loop ::
  "'w environment \<Rightarrow> send_data \<Rightarrow> timespec \<Rightarrow> size_t \<Rightarrow> size_t \<Rightarrow> size_t \<Rightarrow> 'w system \<Rightarrow> (status \<times> size_t \<times> 'w system) option" where
  "drain_loop env uninitialised now max_events max_cycles cycles sy = do {
     (r, sy) \<leftarrow> drain_round env uninitialised now max_events sy;
     (case r of
        Inl e \<Rightarrow> Some (Err e, cycles, sy)
      | Inr drain_pending \<Rightarrow>
          (let cycles = cycles + 1 in
           if drain_pending > 0 \<and> cycles < max_cycles
           then drain_loop env uninitialised now max_events max_cycles cycles sy
           else Some (OK, cycles, sy))) }"

definition node_run_events_drain :: "'w environment \<Rightarrow> send_data \<Rightarrow> timespec \<Rightarrow> size_t \<Rightarrow> size_t \<Rightarrow> 'w step" where
  "node_run_events_drain env uninitialised now max_events_per_cycle max_cycles sy = do {
     (rv, cycles, sy) \<leftarrow> drain_loop env uninitialised now max_events_per_cycle max_cycles 0 sy;
     Some (rv, sy) }"

partial_function (option) available_loop ::
  "'w environment \<Rightarrow> send_data \<Rightarrow> timespec \<Rightarrow> size_t \<Rightarrow> size_t \<Rightarrow> size_t \<Rightarrow> 'w system \<Rightarrow> (status \<times> 'w system) option" where
  "available_loop env uninitialised now max_events max_cycles cycles sy = do {
     (rv, sy) \<leftarrow> on_connections (connections_communicate (en_object_ops env) (nd_connections_head (sy_node sy)) now) sy;
     if FAILED rv then Some (rv, sy)
     else do {
       (rv, cycles, sy) \<leftarrow> drain_loop env uninitialised now max_events max_cycles cycles sy;
       if FAILED rv then Some (rv, sy)
       else do {
         let cycles = cycles + 1;
         (node_available, sy) \<leftarrow> on_connections (node_events_available (en_object_ops env) (sy_node sy) now) sy;
         if node_available > 0 \<and> cycles < max_cycles
         then available_loop env uninitialised now max_events max_cycles cycles sy
         else Some (OK, sy) } } }"

definition node_run_events_available :: "'w environment \<Rightarrow> send_data \<Rightarrow> timespec \<Rightarrow> size_t \<Rightarrow> size_t \<Rightarrow> 'w step" where
  "node_run_events_available env uninitialised now max_events_per_cycle max_cycles =
     available_loop env uninitialised now max_events_per_cycle max_cycles 0"

end
