(* ===== verification/RRL_RunSpec.thy ===== *)
theory RRL_RunSpec
  imports RRL_NodeRun RRL_HandshakeSpec
begin

text \<open>
  Running a node: a message for an object reaches its handler, what becomes of messages whose handling is
  to be repeated, and of the requests of a connection that breaks.
\<close>

section \<open>Consuming a message\<close>

lemma consume_received_twice [simp]:
  "connection_consume_message_received (connection_consume_message_received c) = connection_consume_message_received c"
  by (simp add: connection_consume_message_received_def set_state_def FLAGS_SET_def or.assoc)

lemma consume_received:
  assumes "ev_type ev = EVENT_MESSAGE_RECEIVED" and "connection_at (sy_conns sy) (ev_connection ev) = Some c"
  shows "consume_event ev sy =
    Some (OK, sy\<lparr>sy_conns := (sy_conns sy)(ev_connection ev \<mapsto> Conn (connection_consume_message_received c))\<rparr>)"
  using assms by (simp add: consume_event_def node_consume_event_def on_connection_def)

text \<open>The system in which the message of an event has been consumed.\<close>

definition consumed :: "event \<Rightarrow> connection \<Rightarrow> 'w system \<Rightarrow> 'w system" where
  "consumed ev c sy = sy\<lparr>sy_conns := (sy_conns sy)(ev_connection ev \<mapsto> Conn (connection_consume_message_received c))\<rparr>"

lemma consume_received_again:
  assumes "ev_type ev = EVENT_MESSAGE_RECEIVED" and "connection_at (sy_conns sy) (ev_connection ev) = Some c"
  shows "consume_event ev (consumed ev c sy) = Some (OK, consumed ev c sy)"
  using assms connection_at_nonzero [OF assms(2)]
  by (simp add: consumed_def consume_received [of ev _ "connection_consume_message_received c"])


section \<open>Messages for objects\<close>

lemma not_special:
  "500 < eh_entry_type (rd_entry_header (ev_received_message ev)) \<Longrightarrow> node_event_special_request env un ev sy = Some (OK, sy)"
  by (simp add: node_event_special_request_def Let_def)

lemma object_of_path:
  assumes "service_ok S s objs" and "a \<in> set objs"
  shows "node_find_service_object_for_path S s (path_of (ss_objects S) a) = Some a"
proof -
  have ob: "objects_ok (ss_objects S) s objs" using assms(1) by (simp add: service_ok_def)
  then have "distinct (map (path_of (ss_objects S)) objs)" by (simp add: objects_ok_def)
  then show ?thesis using find_object [OF ob] map_of_keyed [of "path_of (ss_objects S)" objs a] assms(2)
    by (simp add: object_map_def pointer_def)
qed

lemma object_message:
  assumes "service_ok (sy_services sy) s objs" and "a \<in> set objs"
    and "eh_service_path (rd_entry_header (ev_received_message ev)) = path_of (ss_objects (sy_services sy)) a"
    and "requests_ok sy reqs" and "ev_type ev = EVENT_MESSAGE_RECEIVED"
    and "connection_at (sy_conns sy) (ev_connection ev) = Some c"
    and "filter (\<lambda>r. answers ev c (request_at sy r)) reqs = []"
    and "callback (en_service_object_ops env) oo_message_received (so_ops (the (ss_objects (sy_services sy) a))) = Some f"
  shows "run_object_message env ev s sy =
    (case f \<lparr>se_event = ev, se_service = s, se_service_object = a\<rparr> sy of (rv, sy) \<Rightarrow> run_consume_event ev rv sy)"
proof -
  have ob: "objects_ok (ss_objects (sy_services sy)) s objs" using assms(1) by (simp add: service_ok_def)
  then have l: "linked so_next so_prev (ss_objects (sy_services sy)) s objs" by (simp add: objects_ok_def)
  have nz: "a \<noteq> 0" using linked_nonzero [OF l] assms(2) by simp
  obtain b where "ss_objects (sy_services sy) a = Some b" using ob assms(2) by (fastforce simp: objects_ok_def)
  then have b: "fetch (ss_objects (sy_services sy)) a = Some b" "the (ss_objects (sy_services sy) a) = b"
    using nz by (simp_all add: fetch_def)
  show ?thesis
    using object_of_path [OF assms(1,2)] assms(3) nz dispatch_none [OF assms(4-7), of env] b assms(8)
    by (simp add: run_object_message_def)
qed

lemma run_object:
  assumes "connection_at (sy_conns sy) (ev_connection ev) = Some c" and "connection_is_server c"
    and "has_state c STATUS_FLAGS_CLIENT_ESTABLISHED" and "cn_service c \<noteq> 0"
    and "500 < eh_entry_type (rd_entry_header (ev_received_message ev))"
    and "eh_entry_type (rd_entry_header (ev_received_message ev)) \<notin>
      {MESSAGEENTRYTYPE_CLIENTKEEPALIVEREQ, MESSAGEENTRYTYPE_SERVICEPATHRELEASEDREQ}"
  shows "run_service env un ev sy = run_object_message env ev (cn_service c) sy"
proof -
  have "eh_entry_type (rd_entry_header (ev_received_message ev)) \<noteq> MESSAGEENTRYTYPE_GETSERVICEDESC"
    "eh_entry_type (rd_entry_header (ev_received_message ev)) \<noteq> MESSAGEENTRYTYPE_OBJECTTYPENAME"
    using assms(5) by (auto simp: entry_type_defs)
  then show ?thesis using assms by (simp add: run_service_def run_service_request_def Let_def not_special)
qed

text \<open>
  What the node makes of the handler's result: the message is consumed, and an error other than the two that
  mean to be repeated and already consumed is passed on.
\<close>

lemma handled:
  assumes "ev_type ev = EVENT_MESSAGE_RECEIVED" and "connection_at (sy_conns sy) (ev_connection ev) = Some c"
  shows "if_failed (run_consume_event ev rv sy) bad (consume_event ev) =
    (case rv of OK \<Rightarrow> Some (OK, consumed ev c sy)
     | Err e \<Rightarrow> if e = RETRY then Some (OK, consumed ev c sy) else bad e (consumed ev c sy))"
  using consume_received [OF assms] consume_received_again [OF assms]
  by (cases rv) (auto simp: run_consume_event_def consume_and_return_def consumed_def)

text \<open>The system in which the message of an event has been consumed and its connection is to be closed.\<close>

definition consumed_and_closed :: "event \<Rightarrow> connection \<Rightarrow> 'w system \<Rightarrow> 'w system" where
  "consumed_and_closed ev c sy = sy\<lparr>sy_conns := (sy_conns sy)(ev_connection ev \<mapsto>
     Conn (snd (connection_close (connection_consume_message_received c))))\<rparr>"

lemma close_consumed:
  assumes "connection_at (sy_conns sy) (ev_connection ev) = Some c"
  shows "\<exists>st. with_connection (ev_connection ev) connection_close (consumed ev c sy) = Some (st, consumed_and_closed ev c sy)"
  using connection_at_nonzero [OF assms]
  by (auto simp: with_connection_def consumed_def consumed_and_closed_def connection_at_def look_def split: prod.split)


section \<open>Requests of a connection that breaks\<close>

lemma fail_none:
  "chain rq_next rq_prev h p xs 0 \<Longrightarrow> (\<And>x q. x \<in> set xs \<Longrightarrow> h x = Some q \<Longrightarrow> \<not> answers ev c q) \<Longrightarrow>
     fail_requests ev c now (hd (xs @ [0])) h = Some h"
proof (induction xs arbitrary: p)
  case Nil
  show ?case by (subst fail_requests.simps) simp
next
  case (Cons x xs)
  obtain n where n: "h x = Some n" "x \<noteq> 0" "rq_next n = hd (xs @ [0])" using Cons.prems(1) by auto
  have "\<not> answers ev c n" using Cons.prems(2) [of x] n(1) by simp
  then have "fail_requests ev c now x h = fail_requests ev c now (hd (xs @ [0])) h"
    using n by (subst fail_requests.simps) (simp add: fetch_def)
  moreover have "fail_requests ev c now (hd (xs @ [0])) h = Some h"
    by (rule Cons.IH [of x]) (use Cons.prems in \<open>auto\<close>)
  ultimately show ?case by simp
qed


lemma connection_error_keeps:
  assumes "requests_ok sy reqs" and "connection_at (sy_conns sy) (ev_connection ev) = Some c"
    and "has_state c STATUS_FLAGS_CLIENT_ESTABLISHED" and "\<forall>r\<in>set reqs. \<not> answers ev c (request_at sy r)"
    and "service_ops_of (cn_service c) sy = Some p" and "callback (en_service_ops env) vo_client_event p = None"
  shows "run_service_connection_error env ev now sy = Some (OK, sy\<lparr>sy_conns := (sy_conns sy)(ev_connection ev \<mapsto>
    Conn ((clear_state STATUS_FLAGS_CLIENT_ESTABLISHED c)\<lparr>cn_service := 0\<rparr>))\<rparr>)"
proof -
  let ?h = "sy_requests sy" and ?head = "nd_requests_head (sy_node sy)"
  have l: "linked rq_next rq_prev ?h ?head reqs" using assms(1) by (simp add: requests_ok_def)
  have "chain rq_next rq_prev ?h 0 (?head # reqs) 0" using l by (simp add: linked_def)
  moreover have "\<not> answers ev c q" if "x \<in> set (?head # reqs)" "?h x = Some q" for x q
  proof (cases "x = ?head")
    case True
    then show ?thesis using assms(1) that connection_at_nonzero [OF assms(2)] by (auto simp: requests_ok_def answers_def)
  next
    case False
    then show ?thesis using assms(4) that by (auto simp: request_at_def)
  qed
  ultimately have "fail_requests ev c now (hd ((?head # reqs) @ [0])) ?h = Some ?h" by (rule fail_none)
  moreover have "service_ops_of (cn_service c) s = Some p" if "sy_services s = sy_services sy" for s :: "'a system"
    using assms(5) that by (cases "cn_service c = 0") (simp_all add: service_ops_of_def)
  moreover have "sy\<lparr>sy_conns := g, sy_requests := ?h\<rparr> = sy\<lparr>sy_conns := g\<rparr>" for g by (cases sy) simp
  ultimately show ?thesis using assms(2,3,6)
    by (simp add: run_service_connection_error_def Let_def notify_service_def)
qed


section \<open>Properties\<close>

text \<open>A server, with a client connected to the service \<open>demo\<close>.\<close>

definition server_connection :: connection where
  "server_connection = sample_connection\<lparr>co_next := 3, co_prev := 1, cn_config_flags := CONFIG_FLAGS_ISSERVER,
     cn_connection_state := STATUS_FLAGS_CONNECTED OR STATUS_FLAGS_CLIENT_ESTABLISHED OR STATUS_FLAGS_SENDING, cn_service := 1\<rparr>"

definition handled_demo :: services where
  "handled_demo = demo\<lparr>ss_objects := (ss_objects demo)(3 \<mapsto> (the (ss_objects demo 3))\<lparr>so_ops := 9\<rparr>)\<rparr>"

definition server_system :: "nat system" where
  "server_system = sample_system\<lparr>sy_conns := sample_store(2 \<mapsto> Conn server_connection), sy_services := handled_demo\<rparr>"

definition object_environment :: "nat environment" where
  "object_environment = quiet_environment\<lparr>en_service_object_ops :=
     (\<lambda>_. \<lparr>oo_message_received = Some (\<lambda>ev sy. (Err RETRY, sy\<lparr>sy_world := sy_world sy + 1\<rparr>))\<rparr>)\<rparr>"

definition arrived :: "u16 \<Rightarrow> const_string \<Rightarrow> event" where
  "arrived t path = (event_of EVENT_MESSAGE_RECEIVED 2 7)\<lparr>ev_received_message :=
     zero_receive_data\<lparr>rd_entry_header := empty_entry_header\<lparr>eh_entry_type := t, eh_request_id := 9, eh_service_path := path\<rparr>\<rparr>\<rparr>"

lemma arrived_fields [simp]:
  "ev_type (arrived t p) = EVENT_MESSAGE_RECEIVED" "ev_connection (arrived t p) = 2" "ev_event_error_code (arrived t p) = OK"
  "eh_entry_type (rd_entry_header (ev_received_message (arrived t p))) = t"
  "eh_request_id (rd_entry_header (ev_received_message (arrived t p))) = 9"
  "eh_service_path (rd_entry_header (ev_received_message (arrived t p))) = p"
  by (simp_all add: arrived_def event_of_def zero_event_def)

lemma server_at: "connection_at (sy_conns server_system) 2 = Some server_connection"
  by (simp add: server_system_def)

lemma server_flags:
  "connection_is_server server_connection" "has_state server_connection STATUS_FLAGS_CLIENT_ESTABLISHED"
  "has_state server_connection STATUS_FLAGS_CONNECTED" "has_state server_connection send_blocked"
  "\<not> has_state server_connection (STATUS_FLAGS_ERROR OR STATUS_FLAGS_CLOSED OR STATUS_FLAGS_CLOSE_REQUESTED OR STATUS_FLAGS_IDLE)"
  "cn_service server_connection = 1"
  by (simp_all add: server_connection_def connection_is_server_def has_state_def FLAGS_CHECK_def CONFIG_FLAGS_ISSERVER_def
      send_blocked_def status_flags_defs)

lemma handled_demo_ok: "service_ok handled_demo 1 [2, 3, 4]"
  by (simp add: service_ok_def objects_ok_def linked_def handled_demo_def demo_simps path_of_def path_below_def)

lemma server_services: "sy_services server_system = handled_demo" "path_of (ss_objects handled_demo) 3 = [97, 46, 98]"
  by (simp_all add: server_system_def path_of_def handled_demo_def demo_simps)

lemma server_requests: "requests_ok server_system [21, 22, 23]"
  by (simp add: requests_ok_def linked_def server_system_def sample_system_simps)

text \<open>
  C4. A message for an object of the service that a client is connected to, when it answers no pending
  request: the object's handler is called once, in the state as it is, with the object registered under the
  path. Whatever it returns, the message is consumed afterwards, also when the handler asks to be called
  again, which it never is. Any error but that request and the code for consumed is returned, and the
  connection is to be closed.
\<close>

theorem object_message_handled:
  assumes "service_ok (sy_services sy) (cn_service c) objs" and "a \<in> set objs"
    and "eh_service_path (rd_entry_header (ev_received_message ev)) = path_of (ss_objects (sy_services sy)) a"
    and "requests_ok sy reqs" and "ev_type ev = EVENT_MESSAGE_RECEIVED"
    and "connection_at (sy_conns sy) (ev_connection ev) = Some c" and "connection_is_server c"
    and "has_state c STATUS_FLAGS_CLIENT_ESTABLISHED" and "cn_service c \<noteq> 0"
    and "filter (\<lambda>r. answers ev c (request_at sy r)) reqs = []"
    and "500 < eh_entry_type (rd_entry_header (ev_received_message ev))"
    and "eh_entry_type (rd_entry_header (ev_received_message ev)) \<notin>
      {MESSAGEENTRYTYPE_CLIENTKEEPALIVEREQ, MESSAGEENTRYTYPE_SERVICEPATHRELEASEDREQ}"
    and "callback (en_service_object_ops env) oo_message_received (so_ops (the (ss_objects (sy_services sy) a))) = Some f"
    and "f \<lparr>se_event = ev, se_service = cn_service c, se_service_object = a\<rparr> sy = (rv, sy1)"
    and "connection_at (sy_conns sy1) (ev_connection ev) = Some c1"
  shows "run_event env uninitialised now ev sy =
    (if rv \<in> {OK, Err RETRY, Err CONSUMED} then Some (OK, consumed ev c1 sy1) else Some (rv, consumed_and_closed ev c1 sy1))"
proof -
  have "run_service env uninitialised ev sy = run_consume_event ev rv sy1"
    using object_message [OF assms(1-6,10,13)] run_object [OF assms(6,7,8,9,11,12), of env uninitialised] assms(14) by simp
  then show ?thesis using assms(5,6,7) handled [OF assms(5,15), of rv] close_consumed [OF assms(15)]
    by (cases rv) (auto simp: run_event_def run_message_received_def)
qed

theorem object_message_handled_witness:
  "run_event object_environment zero_send_data 50 (arrived 1121 [97, 46, 98]) server_system =
     Some (OK, consumed (arrived 1121 [97, 46, 98]) server_connection (server_system\<lparr>sy_world := 1\<rparr>))"
proof -
  let ?ev = "arrived 1121 [97, 46, 98]"
  have q: "filter (\<lambda>r. answers ?ev server_connection (request_at server_system r)) [21, 22, 23] = []"
    by (simp add: answers_def server_system_def sample_system_simps)
  let ?f = "\<lambda>(ev :: service_event) (sy :: nat system). (Err RETRY :: status, sy\<lparr>sy_world := sy_world sy + 1\<rparr>)"
  have o: "callback (en_service_object_ops object_environment) oo_message_received (so_ops (the (ss_objects handled_demo 3)))
      = Some ?f" and w: "sy_world server_system = 0"
    by (simp_all add: server_system_def sample_system_def callback_def object_environment_def handled_demo_def)
  have "run_event object_environment zero_send_data 50 ?ev server_system =
    (if (Err RETRY :: status) \<in> {OK, Err RETRY, Err CONSUMED}
     then Some (OK, consumed ?ev server_connection (server_system\<lparr>sy_world := 1\<rparr>))
     else Some (Err RETRY, consumed_and_closed ?ev server_connection (server_system\<lparr>sy_world := 1\<rparr>)))"
    by (rule object_message_handled [of server_system server_connection "[2, 3, 4]" 3 ?ev "[21, 22, 23]" object_environment ?f,
          OF _ _ _ server_requests _ _ _ _ _ q])
      (use handled_demo_ok server_at server_flags server_services o w in \<open>simp_all add: MESSAGEENTRYTYPE_CLIENTKEEPALIVEREQ_def
         MESSAGEENTRYTYPE_SERVICEPATHRELEASEDREQ_def\<close>)
  then show ?thesis by simp
qed

text \<open>
  C11. A connection test or a request for node information that arrives while the server is still sending is
  lost: nothing is sent, and although the answer is to be repeated, the message is consumed.
\<close>

theorem request_lost_when_sending:
  assumes "ev_type ev = EVENT_MESSAGE_RECEIVED" and "ev_event_error_code ev = OK"
    and "eh_entry_type (rd_entry_header (ev_received_message ev)) \<in> {MESSAGEENTRYTYPE_CONNECTIONTEST, MESSAGEENTRYTYPE_GETNODEINFO}"
    and "connection_at (sy_conns sy) (ev_connection ev) = Some c" and "connection_is_server c"
    and "has_state c STATUS_FLAGS_CONNECTED" and "has_state c send_blocked"
    and "\<not> has_state c (STATUS_FLAGS_ERROR OR STATUS_FLAGS_CLOSED OR STATUS_FLAGS_CLOSE_REQUESTED OR STATUS_FLAGS_IDLE)"
  shows "run_event env uninitialised now ev sy = Some (OK, consumed ev c sy)"
proof -
  have "node_begin_send_messageentry nd c sd = (Err RETRY, c, sd)" for nd sd
    using assms(6,7,8) by (simp add: node_begin_send_messageentry_def connection_begin_send_message_def)
  then have "node_send_messageentry_empty_response nd c h = (Err RETRY, c)" for nd h
    by (simp add: node_send_messageentry_empty_response_def)
  moreover have same: "sy\<lparr>sy_conns := (sy_conns sy)(ev_connection ev \<mapsto> Conn c)\<rparr> = sy"
    using assms(4) by (cases sy) (auto simp: connection_at_def look_def fun_upd_idem split: if_splits option.splits object.splits)
  ultimately have "send_empty_response ev sy = Some (Err RETRY, sy)"
    using assms(4) by (simp add: send_empty_response_def)
  then have "answer_empty ev sy = Some (Err RETRY, sy)"
    using assms(4,5) by (simp add: answer_empty_def special_request_handle_error_def)
  then have "node_event_special_request env uninitialised ev sy = Some (Err RETRY, sy)"
    using assms(2,3,4) by (auto simp: node_event_special_request_def Let_def entry_type_defs)
  then have "run_service env uninitialised ev sy = Some (OK, sy)"
    using assms(4) by (simp add: run_service_def after_special_request_def Let_def)
  then show ?thesis using assms(1,4,5) consume_received [OF assms(1,4)]
    by (simp add: run_event_def run_message_received_def consumed_def)
qed

theorem request_lost_when_sending_witness:
  "run_event quiet_environment zero_send_data 50 (arrived MESSAGEENTRYTYPE_CONNECTIONTEST []) server_system =
     Some (OK, consumed (arrived MESSAGEENTRYTYPE_CONNECTIONTEST []) server_connection server_system)"
  using request_lost_when_sending [of "arrived MESSAGEENTRYTYPE_CONNECTIONTEST []" server_system server_connection] server_at server_flags
  by simp

text \<open>
  C12. When the connection of a client breaks, the node means to fail the requests that wait for the client;
  it compares their ids with that of the message of the event, which has none, so the requests with an id
  other than 0 keep waiting.
\<close>

theorem broken_connection_keeps_requests:
  assumes "requests_ok sy reqs" and "\<forall>r\<in>set reqs. rq_request_id (request_at sy r) \<noteq> 0"
    and "eh_request_id (rd_entry_header (ev_received_message ev)) = 0"
    and "connection_at (sy_conns sy) (ev_connection ev) = Some c" and "has_state c STATUS_FLAGS_CLIENT_ESTABLISHED"
    and "service_ops_of (cn_service c) sy = Some p" and "callback (en_service_ops env) vo_client_event p = None"
  shows "\<exists>sy'. run_service_connection_error env ev now sy = Some (OK, sy') \<and> sy_requests sy' = sy_requests sy \<and>
    connection_at (sy_conns sy') (ev_connection ev) = Some ((clear_state STATUS_FLAGS_CLIENT_ESTABLISHED c)\<lparr>cn_service := 0\<rparr>)"
proof -
  have "\<forall>r\<in>set reqs. \<not> answers ev c (request_at sy r)" using assms(2,3) by (simp add: answers_def)
  from connection_error_keeps [OF assms(1,4,5) this assms(6,7), of now] show ?thesis
    using connection_at_nonzero [OF assms(4)] by simp
qed

theorem broken_connection_keeps_requests_witness:
  "\<exists>sy'. run_service_connection_error quiet_environment (event_of EVENT_CONNECTION_ERROR 2 7) 50 server_system = Some (OK, sy') \<and>
     sy_requests sy' = sy_requests server_system"
proof -
  let ?ev = "event_of EVENT_CONNECTION_ERROR 2 7"
  have "\<forall>r\<in>set [21, 22, 23]. rq_request_id (request_at server_system r) \<noteq> 0"
    by (simp add: server_system_def sample_system_simps)
  moreover have "eh_request_id (rd_entry_header (ev_received_message ?ev)) = 0" "ev_connection ?ev = 2"
    by (simp_all add: event_of_def zero_event_def zero_receive_data_def empty_entry_header_def)
  moreover have "service_ops_of 1 server_system = Some (sv_ops (the (ss_services handled_demo 1)))"
    by (simp add: service_ops_of_def server_system_def sample_system_simps handled_demo_def demo_simps fetch_def)
  moreover have "callback (en_service_ops (quiet_environment :: nat environment)) vo_client_event p = None" for p
    by (simp add: callback_def quiet_environment_def)
  ultimately show ?thesis
    using broken_connection_keeps_requests [OF server_requests, of ?ev server_connection "sv_ops (the (ss_services handled_demo 1))"
        quiet_environment 50] server_at server_flags
    by auto
qed

end
