(* ===== verification/RRL_Poll.thy ===== *)
theory RRL_Poll
  imports RRL_NodeRun
begin

text \<open>
  Waiting for the sockets of the connections: src/poll.c, clock_util.c, and the POSIX clock and poll,
  src/platform/posix. The calls of the operating system are a parameter: the two clocks, which give
  seconds and nanoseconds or fail, and \<open>poll\<close>, which gets the descriptors with their events and a timeout
  in milliseconds and gives its result and the descriptors, or is interrupted. The caller's array of
  descriptors is the list of those added so far, with its size as the limit.
\<close>

record pollfd =
  pf_fd :: int
  pf_events :: u16
  pf_revents :: u16

datatype poll_return = PollReturned int | PollInterrupted

record 'w poll_os =
  po_monotonic :: "'w \<Rightarrow> (timespec \<times> timespec) option \<times> 'w"
  po_realtime :: "'w \<Rightarrow> (timespec \<times> timespec) option \<times> 'w"
  po_poll :: "pollfd list \<Rightarrow> int \<Rightarrow> int \<Rightarrow> 'w \<Rightarrow> poll_return \<times> pollfd list \<times> 'w"

definition SOCKET_FLAGS_FAKE_SOCKET :: u16 where "SOCKET_FLAGS_FAKE_SOCKET = 0x8000"
definition POLLIN :: u16 where "POLLIN = 0x1"
definition POLLOUT :: u16 where "POLLOUT = 0x4"
definition INT_MAX :: int where "INT_MAX = 2147483647"


section \<open>The clock\<close>

text \<open>Microseconds; the products and sums wrap here, in C an overflow is undefined.\<close>

definition micros :: "timespec \<times> timespec \<Rightarrow> timespec" where
  "micros t = (case t of (s, ns) \<Rightarrow> s * 1000000 + word_of_int (sint ns sdiv 1000))"

definition clock_init :: "'w poll_os \<Rightarrow> 'w \<Rightarrow> (error + timespec) \<times> 'w" where
  "clock_init os w =
     (case po_monotonic os w of
        (None, w) \<Rightarrow> (Inl INTERNAL_ERROR, w)
      | (Some m, w) \<Rightarrow>
          (case po_realtime os w of
             (None, w) \<Rightarrow> (Inl INTERNAL_ERROR, w)
           | (Some r, w) \<Rightarrow> (Inr (micros r - micros m), w)))"

definition clock_gettime :: "'w poll_os \<Rightarrow> timespec \<Rightarrow> 'w \<Rightarrow> (error + timespec) \<times> 'w" where
  "clock_gettime os clock_epoch_offset w =
     (case po_monotonic os w of
        (None, w) \<Rightarrow> (Inl INTERNAL_ERROR, w)
      | (Some m, w) \<Rightarrow> (Inr (micros m + clock_epoch_offset), w))"


section \<open>Descriptors\<close>

text \<open>The conversion of a size to \<open>int\<close>, modulo 2^32 as compilers do it.\<close>

definition c_int :: "size_t \<Rightarrow> int" where
  "c_int n = sint (word_of_nat n :: 32 word)"

definition poll_add_fd :: "int \<Rightarrow> u16 \<Rightarrow> pollfd list \<Rightarrow> size_t \<Rightarrow> error + pollfd list" where
  "poll_add_fd sock extra_events pollfds max_pollfds =
     (if c_int (length pollfds) \<ge> c_int max_pollfds then Inl INVALID_PARAMETER
      else Inr (pollfds @ [\<lparr>pf_fd = sock, pf_events = extra_events, pf_revents = 0\<rparr>]))"

definition poll_impl_add_fd :: "int \<Rightarrow> u16 \<Rightarrow> pollfd list \<Rightarrow> size_t \<Rightarrow> error + pollfd list" where
  "poll_impl_add_fd sock_handle sock_flags pollfds max_pollfds =
     (if \<not> FLAGS_CHECK sock_flags SOCKET_FLAGS_ACTIVE \<or> sock_handle = 0 then Inr pollfds
      else poll_add_fd sock_handle
             ((if FLAGS_CHECK sock_flags SOCKET_FLAGS_WANT_SEND then POLLOUT else 0) OR
              (if FLAGS_CHECK sock_flags SOCKET_FLAGS_WANT_RECEIVE then POLLIN else 0)) pollfds max_pollfds)"

definition poll_pollfds_add_socket :: "connection_socket \<Rightarrow> pollfd list \<Rightarrow> size_t \<Rightarrow> error + pollfd list" where
  "poll_pollfds_add_socket sock pollfds max_pollfds =
     (if \<not> FLAGS_CHECK (sk_flags sock) SOCKET_FLAGS_ACTIVE \<or> FLAGS_CHECK (sk_flags sock) SOCKET_FLAGS_FAKE_SOCKET
      then Inr pollfds
      else if sk_sock sock = 0 then Inr pollfds
      else poll_impl_add_fd (sk_sock sock) (sk_flags sock) pollfds max_pollfds)"

text \<open>The sockets of an object: the one in the object, and those linked behind it, in a store of their own.\<close>

partial_function (option) poll_pollfds_add_sockets ::
  "connection_socket nodes \<Rightarrow> connection_socket \<Rightarrow> size_t \<Rightarrow> pollfd list \<Rightarrow> (error + pollfd list) option" where
  "poll_pollfds_add_sockets h sock max_pollfds pollfds =
     (case poll_pollfds_add_socket sock pollfds max_pollfds of
        Inl e \<Rightarrow> Some (Inl e)
      | Inr pollfds \<Rightarrow>
          (if sk_next sock = 0 then Some (Inr pollfds)
           else do { s \<leftarrow> fetch h (sk_next sock); poll_pollfds_add_sockets h s max_pollfds pollfds }))"

partial_function (option) add_objects ::
  "connection_socket nodes \<Rightarrow> store \<Rightarrow> addr \<Rightarrow> size_t \<Rightarrow> pollfd list \<Rightarrow> (error + pollfd list) option" where
  "add_objects socks h c max_pollfds pollfds =
     (if c = 0 then Some (Inr pollfds)
      else do {
        ob \<leftarrow> look h c;
        r \<leftarrow> poll_pollfds_add_sockets socks (object_sock ob) max_pollfds pollfds;
        (case r of
           Inl e \<Rightarrow> Some (Inl e)
         | Inr pollfds \<Rightarrow> add_objects socks h (object_next ob) max_pollfds pollfds) })"


section \<open>Waiting\<close>

definition poll_impl :: "'w poll_os \<Rightarrow> pollfd list \<Rightarrow> int \<Rightarrow> int \<Rightarrow> 'w \<Rightarrow> int \<times> pollfd list \<times> 'w" where
  "poll_impl os fds nfds timeout w =
     (case po_poll os fds nfds timeout w of
        (PollInterrupted, fds, w) \<Rightarrow> (0, fds, w)
      | (PollReturned n, fds, w) \<Rightarrow> (n, fds, w))"

definition wait_millis :: "timespec \<Rightarrow> timespec \<Rightarrow> int" where
  "wait_millis wake_time now =
     (let timeout_i64 = sint (wake_time - now) sdiv 1000 in if timeout_i64 > INT_MAX then INT_MAX else timeout_i64)"

definition poll_pollfds_next_wake :: "'w poll_os \<Rightarrow> timespec \<Rightarrow> pollfd list \<Rightarrow> timespec \<Rightarrow> 'w \<Rightarrow> status \<times> 'w" where
  "poll_pollfds_next_wake os clock pollfds wake_time w =
     (case clock_gettime os clock w of
        (Inl e, w) \<Rightarrow> (Err e, w)
      | (Inr now, w) \<Rightarrow>
          (if sint wake_time < sint now then (OK, w)
           else (case poll_impl os pollfds (c_int (length pollfds)) (wait_millis wake_time now) w of
                   (rv, fds, w) \<Rightarrow> if rv < 0 then (Err SYSTEM_ERROR, w) else (OK, w))))"

definition poll_connections_next_wake ::
  "'w poll_os \<Rightarrow> timespec \<Rightarrow> connection_socket nodes \<Rightarrow> addr \<Rightarrow> size_t \<Rightarrow> timespec \<Rightarrow> 'w step" where
  "poll_connections_next_wake os clock socks connections_head pollfds_storage_count wake_time sy = do {
     r \<leftarrow> add_objects socks (sy_conns sy) connections_head pollfds_storage_count [];
     (case r of
        Inl e \<Rightarrow> Some (Err e, sy)
      | Inr pollfds \<Rightarrow>
          (case poll_pollfds_next_wake os clock pollfds wake_time (sy_world sy) of
             (rv, w) \<Rightarrow> Some (rv, sy\<lparr>sy_world := w\<rparr>))) }"

definition get_time :: "'w poll_os \<Rightarrow> timespec \<Rightarrow> 'w system \<Rightarrow> (error + timespec) \<times> 'w system" where
  "get_time os clock sy = (case clock_gettime os clock (sy_world sy) of (r, w) \<Rightarrow> (r, sy\<lparr>sy_world := w\<rparr>))"

text \<open>Waiting for the sockets, and serving them when the wait is over.\<close>

definition wait_and_communicate ::
  "'w environment \<Rightarrow> 'w poll_os \<Rightarrow> timespec \<Rightarrow> connection_socket nodes \<Rightarrow> size_t \<Rightarrow> timespec \<Rightarrow> timespec \<Rightarrow> 'w step" where
  "wait_and_communicate env os clock socks pollfds_storage_count now next_wake sy = do {
     let head = nd_connections_head (sy_node sy);
     (rv, sy) \<leftarrow> on_connections (connections_prepare_wait (en_object_ops env) head now) sy;
     if FAILED rv then Some (rv, sy)
     else do {
       (rv, sy) \<leftarrow> poll_connections_next_wake os clock socks head pollfds_storage_count next_wake sy;
       if FAILED rv then Some (rv, sy)
       else (case get_time os clock sy of
               (Inl e, sy) \<Rightarrow> Some (Err e, sy)
             | (Inr now, sy) \<Rightarrow> on_connections (connections_communicate (en_object_ops env) head now) sy) } }"

definition poll_connections_run ::
  "'w environment \<Rightarrow> 'w poll_os \<Rightarrow> timespec \<Rightarrow> connection_socket nodes \<Rightarrow> size_t \<Rightarrow> timespec \<Rightarrow> 'w step" where
  "poll_connections_run env os clock socks pollfds_storage_count wake_time sy =
     (case get_time os clock sy of
        (Inl e, sy) \<Rightarrow> Some (Err e, sy)
      | (Inr now, sy) \<Rightarrow> do {
          (rv, sy) \<leftarrow> on_connections (connections_communicate (en_object_ops env) (nd_connections_head (sy_node sy)) now) sy;
          if FAILED rv then Some (rv, sy)
          else do {
            pending \<leftarrow> node_events_pending (sy_conns sy) (sy_node sy);
            if pending > 0 then Some (OK, sy)
            else do {
              (rv, next_wake) \<leftarrow> node_next_wake now 0 sy;
              if FAILED rv then Some (rv, sy)
              else do {
                let next_wake = (if sint wake_time < sint next_wake then wake_time else next_wake);
                if sint now < sint next_wake
                then wait_and_communicate env os clock socks pollfds_storage_count now next_wake sy
                else Some (OK, sy) } } } })"

end
