(* ===== verification/RRL_PollSpec.thy ===== *)
theory RRL_PollSpec
  imports RRL_Poll RRL_RunSpec
begin

text \<open>
  Waiting: the descriptors handed to the operating system are those of the active sockets of all
  connections, in order, and the wait ends in time.
\<close>

section \<open>Descriptors\<close>

text \<open>The sockets linked behind the one in an object.\<close>

fun socket_chain :: "connection_socket nodes \<Rightarrow> addr \<Rightarrow> connection_socket list \<Rightarrow> bool" where
  "socket_chain h a [] \<longleftrightarrow> a = 0"
| "socket_chain h a (s # ss) \<longleftrightarrow> a \<noteq> 0 \<and> h a = Some s \<and> socket_chain h (sk_next s) ss"

text \<open>What is to be polled, and for what.\<close>

definition pollable :: "connection_socket \<Rightarrow> bool" where
  "pollable s \<longleftrightarrow> FLAGS_CHECK (sk_flags s) SOCKET_FLAGS_ACTIVE \<and> \<not> FLAGS_CHECK (sk_flags s) SOCKET_FLAGS_FAKE_SOCKET \<and>
     sk_sock s \<noteq> 0"

definition descriptor :: "connection_socket \<Rightarrow> pollfd" where
  "descriptor s = \<lparr>pf_fd = sk_sock s,
     pf_events = (if FLAGS_CHECK (sk_flags s) SOCKET_FLAGS_WANT_SEND then POLLOUT else 0) OR
                 (if FLAGS_CHECK (sk_flags s) SOCKET_FLAGS_WANT_RECEIVE then POLLIN else 0), pf_revents = 0\<rparr>"

abbreviation descriptors :: "connection_socket list \<Rightarrow> pollfd list" where
  "descriptors ss \<equiv> map descriptor (filter pollable ss)"

text \<open>Adding descriptors to an array of a size.\<close>

definition fit :: "size_t \<Rightarrow> pollfd list \<Rightarrow> pollfd list \<Rightarrow> error + pollfd list" where
  "fit n fds ds = (if length fds + length ds \<le> n then Inr (fds @ ds) else Inl INVALID_PARAMETER)"

lemma c_int_small: "n < 2 ^ 31 \<Longrightarrow> c_int n = int n"
  by (simp add: c_int_def signed_of_nat signed_take_bit_int_eq_self)

lemma add_socket:
  assumes "n < 2 ^ 31" and "length fds \<le> n"
  shows "poll_pollfds_add_socket s fds n = fit n fds (descriptors [s])"
  using assms
  by (auto simp: poll_pollfds_add_socket_def poll_impl_add_fd_def poll_add_fd_def fit_def pollable_def descriptor_def c_int_small)

lemma fit_then: "fit n fds ds = Inr fds' \<Longrightarrow> fit n fds' es = fit n fds (ds @ es)"
  by (auto simp: fit_def split: if_splits)

lemma fit_full: "fit n fds ds = Inl e \<Longrightarrow> fit n fds (ds @ es) = Inl e"
  by (auto simp: fit_def split: if_splits)

lemma fit_Inr: "fit n fds ds = Inr fds' \<Longrightarrow> length fds' \<le> n"
  by (auto simp: fit_def split: if_splits)

lemma add_sockets:
  assumes "n < 2 ^ 31"
  shows "socket_chain h (sk_next s) ss \<Longrightarrow> length fds \<le> n \<Longrightarrow>
    poll_pollfds_add_sockets h s n fds = Some (fit n fds (descriptors (s # ss)))"
proof (induction ss arbitrary: s fds)
  case Nil
  show ?case using Nil add_socket [OF assms Nil(2), of s]
    by (subst poll_pollfds_add_sockets.simps) (simp split: sum.split)
next
  case (Cons t ss)
  define ds where "ds = descriptors [s]"
  define es where "es = descriptors (t # ss)"
  have all: "descriptors (s # t # ss) = ds @ es" by (simp add: ds_def es_def)
  have s: "poll_pollfds_add_socket s fds n = fit n fds ds"
    using add_socket [OF assms Cons.prems(2)] by (simp add: ds_def)
  have t: "sk_next s \<noteq> 0" "fetch h (sk_next s) = Some t" using Cons.prems(1) by (simp_all add: fetch_def)
  show ?case
    unfolding all
  proof (cases "fit n fds ds")
    case (Inl e)
    then show "poll_pollfds_add_sockets h s n fds = Some (fit n fds (ds @ es))"
      using s fit_full [OF Inl] by (subst poll_pollfds_add_sockets.simps) simp
  next
    case (Inr fds')
    have "poll_pollfds_add_sockets h t n fds' = Some (fit n fds' es)"
      unfolding es_def by (rule Cons.IH) (use Cons.prems fit_Inr [OF Inr] in simp_all)
    then show "poll_pollfds_add_sockets h s n fds = Some (fit n fds (ds @ es))"
      using s t Inr fit_then [OF Inr] by (subst poll_pollfds_add_sockets.simps) simp
  qed
qed

text \<open>The sockets of the object at an address; \<open>tails\<close> are those linked behind the one in the object.\<close>

definition sockets_of :: "store \<Rightarrow> (addr \<Rightarrow> connection_socket list) \<Rightarrow> addr \<Rightarrow> connection_socket list" where
  "sockets_of h tails a = (case h a of Some ob \<Rightarrow> object_sock ob # tails a | None \<Rightarrow> [])"

definition tails_ok :: "connection_socket nodes \<Rightarrow> store \<Rightarrow> (addr \<Rightarrow> connection_socket list) \<Rightarrow> bool" where
  "tails_ok socks h tails \<longleftrightarrow> (\<forall>a ob. h a = Some ob \<longrightarrow> socket_chain socks (sk_next (object_sock ob)) (tails a))"

lemma add_objects_seg:
  assumes "n < 2 ^ 31" and "tails_ok socks h tails"
  shows "seg h p xs 0 \<Longrightarrow> length fds \<le> n \<Longrightarrow>
    add_objects socks h (hd (xs @ [0])) n fds = Some (fit n fds (descriptors (concat (map (sockets_of h tails) xs))))"
proof (induction xs arbitrary: p fds)
  case Nil
  then show ?case by (subst add_objects.simps) (simp add: fit_def)
next
  case (Cons x xs)
  obtain ob where ob: "h x = Some ob" "x \<noteq> 0" "object_next ob = hd (xs @ [0])" using Cons.prems(1) by auto
  define ds where "ds = descriptors (object_sock ob # tails x)"
  define es where "es = descriptors (concat (map (sockets_of h tails) xs))"
  have all: "descriptors (concat (map (sockets_of h tails) (x # xs))) = ds @ es"
    using ob by (simp add: ds_def es_def sockets_of_def)
  have s: "poll_pollfds_add_sockets socks (object_sock ob) n fds = Some (fit n fds ds)"
    unfolding ds_def by (rule add_sockets [OF assms(1) _ Cons.prems(2)]) (use assms(2) ob(1) in \<open>simp add: tails_ok_def\<close>)
  have x: "look h x = Some ob" using ob by (simp add: look_def)
  show ?case
    unfolding all
  proof (cases "fit n fds ds")
    case (Inl e)
    then show "add_objects socks h (hd ((x # xs) @ [0])) n fds = Some (fit n fds (ds @ es))"
      using s x ob(2) fit_full [OF Inl] by (subst add_objects.simps) simp
  next
    case (Inr fds')
    have "add_objects socks h (hd (xs @ [0])) n fds' = Some (fit n fds' es)"
      unfolding es_def by (rule Cons.IH [of x]) (use Cons.prems(1) fit_Inr [OF Inr] in simp_all)
    then show "add_objects socks h (hd ((x # xs) @ [0])) n fds = Some (fit n fds (ds @ es))"
      using Inr s x ob fit_then [OF Inr] by (subst add_objects.simps) simp
  qed
qed


section \<open>The wait\<close>

lemma wait_bounds:
  assumes "sint now \<le> sint wake" and "sint wake - sint now < 2 ^ 63"
  shows "0 \<le> wait_millis wake now" and "wait_millis wake now \<le> INT_MAX"
    and "1000 * wait_millis wake now \<le> sint wake - sint now"
    and "wait_millis wake now = INT_MAX \<or> sint wake - sint now < 1000 * (wait_millis wake now + 1)"
proof -
  have d: "sint (wake - now) = sint wake - sint now"
    using assms by (simp add: sint_word_ariths signed_take_bit_int_eq_self)
  have q: "sint (wake - now) sdiv 1000 = (sint wake - sint now) div 1000"
    using d assms(1) by (cases "sint wake = sint now") (simp_all add: signed_divide_int_def)
  show "0 \<le> wait_millis wake now" "wait_millis wake now \<le> INT_MAX"
    "1000 * wait_millis wake now \<le> sint wake - sint now"
    "wait_millis wake now = INT_MAX \<or> sint wake - sint now < 1000 * (wait_millis wake now + 1)"
    unfolding wait_millis_def Let_def q INT_MAX_def using assms(1) by auto
qed


section \<open>Properties\<close>

text \<open>One active socket that wants to receive, and a system whose clock stands still and whose poll finds one event.\<close>

definition poll_system :: "nat system" where
  "poll_system = sample_system\<lparr>sy_conns := sample_store(2 \<mapsto> Conn (sample_connection\<lparr>co_next := 3, co_prev := 1,
     co_sock := \<lparr>sk_sock = 5, sk_flags = SOCKET_FLAGS_ACTIVE OR SOCKET_FLAGS_WANT_RECEIVE, sk_next = 0\<rparr>\<rparr>))\<rparr>"

definition still_os :: "nat poll_os" where
  "still_os = \<lparr>po_monotonic = (\<lambda>w. (Some (0, 1000), w)), po_realtime = (\<lambda>w. (Some (0, 1000), w)),
     po_poll = (\<lambda>fds n t w. (PollReturned 1, fds, w + 1))\<rparr>"

text \<open>
  C6. Waiting for the connections: the descriptors are those of the sockets that are active, real and open,
  object by object in the order of the list, each with the events its connection wants. When they do not
  fit, the call is refused before the operating system is asked. Otherwise poll gets exactly them, with a
  wait that ends at the wake time or, rounded down, less than a millisecond before it, up to the
  largest wait.
\<close>

theorem poll_covers_sockets:
  fixes sy :: "'w system"
  assumes "is_list (sy_conns sy) head objs" and "tails_ok socks (sy_conns sy) tails" and "n < 2 ^ 31"
    and "ds = descriptors (concat (map (sockets_of (sy_conns sy) tails) (head # objs)))"
    and "clock_gettime os clock (sy_world sy) = (Inr now, w)"
    and "sint now \<le> sint wake" and "sint wake - sint now < 2 ^ 63"
    and "po_poll os ds (int (length ds)) (wait_millis wake now) w = (r, fds, w')"
  shows "poll_connections_next_wake os clock socks head n wake sy =
      (if length ds \<le> n
       then Some (case r of PollReturned k \<Rightarrow> if k < 0 then Err SYSTEM_ERROR else OK | PollInterrupted \<Rightarrow> OK,
                  sy\<lparr>sy_world := w'\<rparr>)
       else Some (Err INVALID_PARAMETER, sy)) \<and>
    0 \<le> wait_millis wake now \<and> 1000 * wait_millis wake now \<le> sint wake - sint now \<and>
    (wait_millis wake now = INT_MAX \<or> sint wake - sint now < 1000 * (wait_millis wake now + 1))"
proof -
  have g: "seg (sy_conns sy) 0 (head # objs) 0" using assms(1) by (simp add: is_list_def)
  have add: "add_objects socks (sy_conns sy) head n [] = Some (fit n [] ds)"
    using add_objects_seg [OF assms(3,2) g, of "[]"] assms(4) by simp
  have len: "length ds \<le> n \<Longrightarrow> c_int (length ds) = int (length ds)" using c_int_small [of "length ds"] assms(3) by simp
  have "poll_connections_next_wake os clock socks head n wake sy =
      (if length ds \<le> n
       then Some (case r of PollReturned k \<Rightarrow> if k < 0 then Err SYSTEM_ERROR else OK | PollInterrupted \<Rightarrow> OK,
                  sy\<lparr>sy_world := w'\<rparr>)
       else Some (Err INVALID_PARAMETER, sy))"
    using add len assms(5,6,8)
    by (simp add: poll_connections_next_wake_def fit_def poll_pollfds_next_wake_def poll_impl_def split: poll_return.split)
  then show ?thesis using wait_bounds [OF assms(6,7)] by blast
qed

theorem poll_covers_sockets_witness:
  "poll_connections_next_wake still_os 100 (\<lambda>_. None) 1 4 5000 poll_system = Some (OK, poll_system\<lparr>sy_world := 1\<rparr>) \<and>
   descriptors (concat (map (sockets_of (sy_conns poll_system) (\<lambda>_. [])) [1, 2, 3, 4])) = [\<lparr>pf_fd = 5, pf_events = POLLIN, pf_revents = 0\<rparr>] \<and>
   wait_millis 5000 101 = 4"
proof -
  have l: "is_list (sy_conns poll_system) 1 [2, 3, 4]"
    using sample_list by (simp add: is_list_def poll_system_def sample_store_def)
  have t: "tails_ok (\<lambda>_. None) (sy_conns poll_system) (\<lambda>_. [])"
    by (auto simp: tails_ok_def poll_system_def sample_store_def sample_connection_def zero_socket_def split: if_splits)
  have d: "descriptors (concat (map (sockets_of (sy_conns poll_system) (\<lambda>_. [])) [1, 2, 3, 4])) =
      [\<lparr>pf_fd = 5, pf_events = POLLIN, pf_revents = 0\<rparr>]"
    by (simp add: sockets_of_def poll_system_def sample_store_def sample_connection_def zero_socket_def pollable_def descriptor_def
        FLAGS_CHECK_def SOCKET_FLAGS_ACTIVE_def SOCKET_FLAGS_FAKE_SOCKET_def SOCKET_FLAGS_WANT_SEND_def SOCKET_FLAGS_WANT_RECEIVE_def)
  have c: "clock_gettime still_os 100 (sy_world poll_system) = (Inr 101, 0)"
    by (simp add: clock_gettime_def still_os_def micros_def poll_system_def sample_system_def signed_divide_int_def)
  have w: "wait_millis 5000 101 = 4" by (simp add: wait_millis_def Let_def INT_MAX_def signed_divide_int_def)
  show ?thesis
    using poll_covers_sockets [OF l t _ d [symmetric] c, of 4 5000 "PollReturned 1"] d w
    by (simp add: still_os_def)
qed

end
