(* ===== verification/RRL_CapabilitySpec.thy ===== *)
theory RRL_CapabilitySpec
  imports RRL_NodeSpecial RRL_NodeMessage RRL_TypedSpec RRL_WalkSpec
begin

text \<open>
  The negotiation of capabilities: what one node announces in a message, the other node finds in it.
\<close>

section \<open>The codes\<close>

lemma length_code [simp]: "length (u32_bytes c) = 4"
  by (simp add: u32_bytes_def)

lemma read_code:
  assumes "wf_vec 1 bv" and "at bv p (u32_bytes v)"
  shows "buffer_vec_copy_to_uint32 bv p = Inr v"
proof -
  have "message_read_uint32 bv p = Inr (v, p + length (u32_bytes v))"
    using uint32.rd_at [OF assms(1) TrueI assms(2)] by simp
  then show ?thesis by (simp add: message_read_uint32_def split: sum.splits)
qed

lemma parse_codes_at:
  assumes "wf_vec 1 bv"
  shows "at bv (start + i * 4) (concat (map u32_bytes cs)) \<Longrightarrow>
    parse_codes bv start i (length cs) flags = (OK, fold parse_code cs flags)"
proof (induction cs arbitrary: i flags)
  case (Cons c cs)
  have a: "at bv (start + i * 4) (u32_bytes c)" "at bv (start + Suc i * 4) (concat (map u32_bytes cs))"
    using Cons.prems by (simp_all add: at_append add_ac)
  have "start + i * 4 < 2 ^ 63" using at_le [OF a(1)] wf_vec_flat_lt [OF assms] by simp
  then have "sz_add start (sz_mul i 4) = start + i * 4" by (simp add: sz_add_nowrap sz_mul_nowrap)
  then show ?case using read_code [OF assms a(1)] Cons.IH [OF a(2)] by simp
qed simp

text \<open>Each of the two codes is announced for its flag, and gives back its flag.\<close>

lemma flag_cases: "flags AND 1 = 0 \<or> flags AND 1 = (1 :: u32)" "flags AND 2 = 0 \<or> flags AND 2 = (2 :: u32)"
proof -
  show "flags AND 1 = 0 \<or> flags AND 1 = (1 :: u32)" by (simp add: and_one_eq mod2_eq_if)
  have "flags AND 2 = (if bit flags 1 then 2 else 0)"
    by (rule bit_word_eqI) (auto simp: bit_simps le_Suc_eq)
  then show "flags AND 2 = 0 \<or> flags AND 2 = (2 :: u32)" by (simp split: if_splits)
qed

lemma parse_announced: "fold parse_code (capability_codes flags) 0 = flags AND 3"
proof -
  have "flags AND 3 = (flags AND 1) OR (flags AND 2)" by (simp flip: word_ao_dist2)
  then show ?thesis using flag_cases [of flags]
    by (auto simp: capability_codes_def parse_code_def capability_defs FLAGS_CHECK_def FLAGS_SET_def)
qed


section \<open>From the one node to the other\<close>

text \<open>What the header of an element of plain data says, and where its data are.\<close>

lemma header_at:
  assumes wf: "wf_vec 1 bv" and ok: "raw_ok ver d" and el: "at_element bv ver lr d"
  shows "\<exists>h info. messageelement_reader_read_header_ex bv lr zero_element_header no_element_info = (OK, h, info) \<and>
    unat (lh_data_count h) = re_count d \<and> at bv (li_data_start_offset info) (re_data d)"
proof -
  have v: "lr_message_version lr = ver" and a: "at bv (lr_buffer_offset lr) (enc_raw ver d)"
    using el by (simp_all add: at_element_def)
  have c: "re_count d \<le> UINT32_MAX" using raw_count_le [OF ok] raw_data_small [OF ok] by simp
  obtain h info where H: "messageelement_reader_read_header_ex bv lr zero_element_header no_element_info = (OK, h, info)"
      "li_data_start_offset info = lr_buffer_offset lr + (raw_size ver d - length (re_data d))"
      "lh_data_count h = word_of_nat (re_count d)"
    using data_info_at [OF wf ok v a]
    by (auto simp: messageelement_reader_get_data_info_def Let_def split: prod.splits status.splits if_splits)
  have l: "length (enc_raw ver d) = raw_size ver d" by (rule length_enc_raw [OF ok])
  let ?e = "enc_data_header ver (re_name d) (re_type d) (re_count d) (raw_size ver d)"
  have "raw_size ver d - length (re_data d) = length ?e" using l by (simp add: enc_raw_def)
  then have "at bv (lr_buffer_offset lr + (raw_size ver d - length (re_data d))) (re_data d)"
    using a by (simp add: enc_raw_def at_append)
  then show ?thesis using H c by (simp add: unat_word_of_nat_u32)
qed

text \<open>The element that announces the capabilities, when there are any.\<close>

definition announcement :: "u32 \<Rightarrow> raw_element list" where
  "announcement flags = (let cs = capability_codes flags in
     if cs = [] then []
     else [\<lparr>re_name = CAPABILITIES, re_type = DATATYPE_UINT32, re_count = length cs, re_elem_size = 4,
            re_data = concat (map u32_bytes cs)\<rparr>])"

lemma populate_writes:
  "node_transport_populate_capabilities bv w flags = write_raw_elements bv w (announcement flags)"
  by (simp add: node_transport_populate_capabilities_def announcement_def Let_def write_raw_element_def
      uint32_data.writes split: prod.splits status.splits)

text \<open>A node sends an entry with its capabilities, as in the answer to a request for a connection.\<close>

definition node_announces :: "node \<Rightarrow> connection \<Rightarrow> send_data \<Rightarrow> const_string messageentry_header \<Rightarrow> u32 \<Rightarrow>
    status \<times> connection \<times> send_data" where
  "node_announces nd c sd h flags =
     (case node_begin_send_messageentry nd c (sd\<lparr>sd_entry_header := h\<rparr>) of
        (Err x, c, sd) \<Rightarrow> (Err x, c, sd)
      | (OK, c, sd) \<Rightarrow>
          (case write_elements (\<lambda>bv w. node_transport_populate_capabilities bv w flags) c sd of
             (Err x, c, sd) \<Rightarrow> (Err x, c, sd)
           | (OK, c, sd) \<Rightarrow> node_end_send_messageentry c sd))"

lemma node_announces_entry: "node_announces nd c sd h flags = node_send_entry nd c sd (h, announcement flags)"
  unfolding node_announces_def node_send_entry_def populate_writes fst_conv snd_conv ..

lemma parse_codes_trim [trims]:
  assumes "claims_less b"
  shows "parse_codes [trim b] = parse_codes [b]"
proof (intro ext)
  show "parse_codes [trim b] start i n flags = parse_codes [b] start i n flags" for start i n flags
    by (induction n arbitrary: i flags) (simp_all add: trims assms split: sum.splits)
qed

lemma parse_capabilities_trim [trims]:
  "claims_less b \<Longrightarrow> node_transport_parse_capabilities [trim b] = node_transport_parse_capabilities [b]"
  by (intro ext) (simp add: node_transport_parse_capabilities_def trims cong: read_congs)

lemma parse_received:
  assumes r: "message_received ver h (eh, announcement flags) c rd" and d: "delivers c xs"
    and eok: "message_entry_ok ver (eh, announcement flags)"
  shows "node_transport_parse_capabilities (recv_buffer_vec c) (rd_entry_reader rd) = Some (OK, flags AND 3)"
proof -
  let ?bv = "[trim (recv_segment c)]" and ?cs = "capability_codes flags"
  note cl = delivered(1) [OF d] and wf = delivered(2) [OF d]
  have rv: "er_message_version (rd_entry_reader rd) = ver"
      "er_buffer_count (rd_entry_reader rd) = entry_size ver (eh, announcement flags)"
      "at ?bv (er_buffer_offset (rd_entry_reader rd)) (enc_entry ver (eh, announcement flags))"
    using r by (simp_all add: message_received_def)
  have nm: "CAPABILITIES \<noteq> []" by (simp add: CAPABILITIES_def ascii_def)
  have bv: "recv_buffer_vec c = [recv_segment c]" by (rule recv_buffer_vec)
  have "node_transport_parse_capabilities ?bv (rd_entry_reader rd) = Some (OK, flags AND 3)"
  proof (rule verified_find_at [OF wf eok rv(1,3,2) nm, of fresh_element_reader])
    fix lr
    assume n: "find (\<lambda>d. re_name d = CAPABILITIES) (snd (eh, announcement flags)) = None"
      "\<forall>chk. after_find ?bv chk (messageentry_reader_find_element ?bv (rd_entry_reader rd) CAPABILITIES fresh_element_reader) =
        Some (Err MESSAGEELEMENT_NOT_FOUND, lr)"
    then have "?cs = []" by (simp add: announcement_def Let_def split: if_splits)
    then have "flags AND 3 = 0" using parse_announced [of flags] by simp
    then show ?thesis
      using n(2) by (simp add: node_transport_parse_capabilities_def messageentry_reader_find_element_verify_array_def)
  next
    fix d lr hdr
    assume f: "find (\<lambda>d. re_name d = CAPABILITIES) (snd (eh, announcement flags)) = Some d" "at_element ?bv ver lr d"
      "\<forall>chk. after_find ?bv chk (messageentry_reader_find_element ?bv (rd_entry_reader rd) CAPABILITIES fresh_element_reader) =
        Some (chk hdr, lr)"
      "lh_element_type hdr = re_type d" "unat (lh_data_count hdr) = re_count d"
    have s: "d \<in> set (announcement flags)" using f(1) by (auto simp: find_Some_iff)
    then have dd: "re_type d = DATATYPE_UINT32" "re_count d = length ?cs" "re_data d = concat (map u32_bytes ?cs)"
      by (auto simp: announcement_def Let_def split: if_splits)
    have ok: "raw_ok ver d" using s eok by (simp add: message_entry_ok_def)
    have "length ?cs \<le> 2" by (simp add: capability_codes_def)
    then have "check_array DATATYPE_UINT32 1024 True hdr = OK"
      using f(4,5) dd by (simp add: check_array_def word_less_nat_alt)
    then have V: "messageentry_reader_find_element_verify_array ?bv (rd_entry_reader rd) CAPABILITIES fresh_element_reader
        DATATYPE_UINT32 1024 True = Some (OK, lr)"
      using f(3) by (simp add: messageentry_reader_find_element_verify_array_def)
    obtain h info where H: "messageelement_reader_read_header_ex ?bv lr zero_element_header no_element_info = (OK, h, info)"
        "unat (lh_data_count h) = length ?cs" "at ?bv (li_data_start_offset info) (concat (map u32_bytes ?cs))"
      using header_at [OF wf ok f(2)] unfolding dd by blast
    have "parse_codes ?bv (li_data_start_offset info) 0 (length ?cs) 0 = (OK, flags AND 3)"
      using parse_codes_at [OF wf, of "li_data_start_offset info" 0] H(3) parse_announced by simp
    then show ?thesis using V H(1,2) by (simp add: node_transport_parse_capabilities_def)
  qed
  then show ?thesis by (simp add: bv trims cl)
qed


text \<open>
  C7. Capabilities reach the other node: when a node sends an entry with its capability flags, a node that
  receives its bytes and parses the capabilities of the entry gets exactly the flags that were announced,
  for the two versions of the message format there are; also when there is nothing to announce.
\<close>

theorem capabilities_negotiated:
  assumes "takes_message c" and "message_ok (send_version c) (header_from nd c) [(h, announcement flags)]"
    and "message_size (send_version c) (header_from nd c) [(h, announcement flags)] \<le> length (cn_send_buffer c)"
    and "names_fit (header_from nd c) h"
  shows "\<exists>c1 sd1. node_announces nd c sd h flags = (OK, c1, sd1) \<and>
    (\<forall>nd' c' rd. delivers c' (take (unat (cn_send_message_len c1)) (cn_send_buffer c1)) \<longrightarrow>
      (\<exists>rd1. node_receive_messageentry nd' c' rd = (OK, rd1) \<and>
         node_transport_parse_capabilities (recv_buffer_vec c') (rd_entry_reader rd1) = Some (OK, flags AND 3)))"
proof -
  let ?e = "(h, announcement flags)" and ?ver = "send_version c" and ?h = "header_from nd c"
  let ?xs = "enc_message ?ver ?h [?e]"
  let ?c1 = "sent_connection c ?xs"
  obtain sd1 where S: "node_announces nd c sd h flags = (OK, ?c1, sd1)"
    using node_send_entry_at [OF assms(1-3), of sd] by (auto simp: node_announces_entry)
  have eok: "message_entry_ok ?ver ?e" using assms(2) by (simp add: message_ok_def)
  have l: "length ?xs = message_size ?ver ?h [?e]" by (rule length_enc_message [OF assms(2)])
  have bytes: "take (unat (cn_send_message_len ?c1)) (cn_send_buffer ?c1) = ?xs"
    using assms(2,3) l by (simp add: sent_connection_def set_state_def message_ok_def unat_word_of_nat_u32 overwrite_def)
  have n: "names_fit ?h (fst ?e)" using assms(4) by simp
  have meta: "mh_metadata ?h = []" by (simp add: header_from_def empty_message_header_def)
  show ?thesis
  proof (intro exI [of _ ?c1] exI [of _ sd1] conjI allI impI S)
    fix nd' c' rd
    assume "delivers c' (take (unat (cn_send_message_len ?c1)) (cn_send_buffer ?c1))"
    then have d: "delivers c' ?xs" by (simp only: bytes)
    obtain rd1 where "node_receive_messageentry nd' c' rd = (OK, rd1)" "message_received ?ver ?h ?e c' rd1"
      using node_receive_at [OF d assms(2) n meta] by blast
    then show "\<exists>rd1. node_receive_messageentry nd' c' rd = (OK, rd1) \<and>
        node_transport_parse_capabilities (recv_buffer_vec c') (rd_entry_reader rd1) = Some (OK, flags AND 3)"
      using parse_received [OF _ d eok] by blast
  qed
qed


text \<open>A node that announces both versions, on a connection that sends version 2.\<close>

abbreviation announced :: message_entry where
  "announced \<equiv> (sample_entry, announcement 3)"

lemma announcement_3:
  "announcement 3 = [\<lparr>re_name = CAPABILITIES, re_type = DATATYPE_UINT32, re_count = 2, re_elem_size = 4,
     re_data = u32_bytes 0x2000001 @ u32_bytes 0x4000001\<rparr>]"
  by (simp add: announcement_def Let_def capability_codes_def capability_defs FLAGS_CHECK_def)

lemma length_CAPABILITIES: "length CAPABILITIES = 12"
  by (simp add: CAPABILITIES_def ascii_def)

lemma announced_ok:
  "message_ok 2 (header_from zero_node open_connection) [announced]"
  "message_size 2 (header_from zero_node open_connection) [announced] \<le> 300"
proof -
  let ?h = "header_from zero_node open_connection"
  have f: "header2_fits ?h"
    by (simp add: header2_fits_def header_from_def zero_node_def open_connection_def zero_connection_def empty_message_header_def
        nodeid_ok_def nodeid_any_def UINT16_MAX_def set_state_def)
  have d: "\<forall>d\<in>set (announcement 3). raw_ok 2 d"
    by (simp add: announcement_3 raw_ok_def length_CAPABILITIES UINT16_MAX_def UINT32_MAX_def)
  have e: "entry_size 2 announced \<le> 130"
    using d by (simp add: entry_size_def announcement_3 length_enc_raw enc_open_entry_def open_entry_def sample_entry_def raw_size_def
        length_CAPABILITIES)
  have l: "length (enc_open_message 2 ?h) \<le> 100"
    using header2_ok_sized [OF f]
    by (simp add: enc_open_message_def header_from_def zero_node_def open_connection_def zero_connection_def empty_message_header_def
        set_state_def sized2_def)
  have "message_entry_ok 2 announced"
    using d sample_entries_ok [of 2] e by (simp add: message_entry_ok_def announcement_3 UINT16_MAX_def UINT32_MAX_def)
  then show "message_ok 2 ?h [announced]" "message_size 2 ?h [announced] \<le> 300"
    using f e l by (simp_all add: message_ok_def message_size_def message_fits_def length_enc_entry count_has_place_def UINT16_MAX_def UINT32_MAX_def)
qed

theorem capabilities_negotiated_witness:
  "\<exists>c1 sd1 rd1. node_announces zero_node open_connection zero_send_data sample_entry 3 = (OK, c1, sd1) \<and>
     node_receive_messageentry zero_node (peer_of c1) zero_receive_data = (OK, rd1) \<and>
     node_transport_parse_capabilities (recv_buffer_vec (peer_of c1)) (rd_entry_reader rd1) = Some (OK, 3)"
proof -
  have n: "names_fit (header_from zero_node open_connection) sample_entry"
    by (simp add: names_fit_def header_from_def zero_node_def open_connection_def zero_connection_def sample_entry_def set_state_def)
  have len: "length (cn_send_buffer open_connection) = 300" by (simp add: open_connection_def set_state_def)
  obtain c1 sd1 where S: "node_announces zero_node open_connection zero_send_data sample_entry 3 = (OK, c1, sd1)"
    and R: "\<forall>nd' c' rd. delivers c' (take (unat (cn_send_message_len c1)) (cn_send_buffer c1)) \<longrightarrow>
      (\<exists>rd1. node_receive_messageentry nd' c' rd = (OK, rd1) \<and>
         node_transport_parse_capabilities (recv_buffer_vec c') (rd_entry_reader rd1) = Some (OK, 3 AND 3))"
    using capabilities_negotiated [OF open_connection_takes, unfolded open_connection_version,
      OF announced_ok(1) _ n, unfolded len, OF announced_ok(2), of zero_send_data] by blast
  show ?thesis using S R [rule_format, OF peer_delivers] by fastforce
qed

end
