(* ===== verification/RRL_Win32.thy ===== *)
theory RRL_Win32
  imports RRL_Poll
begin

text \<open>
  The Win32 platform, src/platform/win32/src: sockets, poll, clock, hashing and random identifiers over the
  calls of Windows, which are a parameter on a world of their own. Results of calls are those the code tells
  apart. Sizes that the code passes as DWORD or ULONG are cut to 32 bits, as they are there.
\<close>


section \<open>Windows\<close>

definition INVALID_SOCKET :: int where "INVALID_SOCKET = 2 ^ 64 - 1"
definition SOCKET_ERROR :: int where "SOCKET_ERROR = -1"

record 'w windows =
  ws_recv :: "int \<Rightarrow> u32 \<Rightarrow> 'w \<Rightarrow> recv_result \<times> 'w"
  ws_send :: "int \<Rightarrow> byte list \<Rightarrow> 'w \<Rightarrow> send_result \<times> 'w"
  ws_closesocket :: "int \<Rightarrow> 'w \<Rightarrow> 'w"
  ws_accept :: "int \<Rightarrow> 'w \<Rightarrow> accept_result \<times> 'w"
  ws_wsasocket :: "'w \<Rightarrow> int \<times> 'w"
  ws_socket :: "'w \<Rightarrow> int \<times> 'w"
  ws_ioctl_nonblocking :: "int \<Rightarrow> 'w \<Rightarrow> int \<times> 'w"
  ws_set_nodelay :: "int \<Rightarrow> 'w \<Rightarrow> int \<times> 'w"
  ws_bind :: "int \<Rightarrow> byte list \<Rightarrow> 'w \<Rightarrow> int \<times> 'w"
  ws_listen :: "int \<Rightarrow> int \<Rightarrow> 'w \<Rightarrow> int \<times> 'w"
  ws_connect :: "int \<Rightarrow> byte list \<Rightarrow> 'w \<Rightarrow> connect_result \<times> 'w"
  ws_poll_connected :: "int \<Rightarrow> 'w \<Rightarrow> poll_result \<times> 'w"
  ws_poll :: "pollfd list \<Rightarrow> int \<Rightarrow> int \<Rightarrow> 'w \<Rightarrow> poll_return \<times> pollfd list \<times> 'w"
  ws_sleep :: "int \<Rightarrow> 'w \<Rightarrow> 'w"
  ws_frequency :: timespec
  ws_counter :: "'w \<Rightarrow> timespec \<times> 'w"
  ws_filetime :: "'w \<Rightarrow> 64 word \<times> 'w"
  ws_acquire :: "'w \<Rightarrow> int option \<times> 'w"
  ws_create_hash :: "int \<Rightarrow> 'w \<Rightarrow> int option \<times> 'w"
  ws_hash_data :: "int \<Rightarrow> byte list \<Rightarrow> 'w \<Rightarrow> bool \<times> 'w"
  ws_hash_value :: "int \<Rightarrow> 'w \<Rightarrow> byte list option \<times> 'w"
  ws_destroy_hash :: "int \<Rightarrow> 'w \<Rightarrow> 'w"
  ws_release :: "int \<Rightarrow> 'w \<Rightarrow> 'w"
  ws_base64_size :: "byte list \<Rightarrow> u32"
  ws_base64 :: "byte list \<Rightarrow> byte list option"
  ws_uuid :: "'w \<Rightarrow> byte list option \<times> 'w"

text \<open>A DWORD.\<close>

definition dword :: "size_t \<Rightarrow> u32" where
  "dword n = word_of_nat n"


section \<open>Receiving and sending\<close>

text \<open>The loops, as on the other platform; the count passed on is a ULONG.\<close>

function win32_recv_loop ::
  "'w windows \<Rightarrow> connection_socket \<Rightarrow> byte list \<Rightarrow> size_t \<Rightarrow> size_t \<Rightarrow> size_t \<Rightarrow> 'w \<Rightarrow>
     status \<times> connection_socket \<times> byte list \<times> size_t \<times> 'w" where
  "win32_recv_loop ws sk buffer pos got len w =
     (if got < len then
        (case ws_recv ws (sk_sock sk) (dword (len - got)) w of
           (RecvFailed, w) \<Rightarrow> (Err CONNECTION_ERROR, sk, buffer, pos + got, w)
         | (RecvWouldBlock, w) \<Rightarrow> (OK, sock_flag SOCKET_FLAGS_RECEIVE_WOULD_BLOCK sk, buffer, pos + got, w)
         | (Received d, w) \<Rightarrow>
             (if d = [] then (if got = 0 then Err CONNECTION_ERROR else OK, sk, buffer, pos + got, w)
              else if length buffer < pos + got + length d
              then (Err UNDEFINED_BEHAVIOUR, sk, buffer, pos + got, w)
              else win32_recv_loop ws sk (overwrite buffer (pos + got) d) pos (got + length d) len w))
      else (OK, sk, buffer, pos + got, w))"
  by pat_completeness auto
termination
  by (relation "measure (\<lambda>(ws, sk, buffer, pos, got, len, w). len - got)")
     (auto simp flip: length_greater_0_conv)

declare win32_recv_loop.simps [simp del]

text \<open>The test \<open>sock == 0\<close> is one of the pointer, which has been used already.\<close>

definition win32_socket_recv_nonblocking ::
  "'w windows \<Rightarrow> connection_socket \<Rightarrow> byte list \<Rightarrow> size_t \<Rightarrow> size_t \<Rightarrow> 'w \<Rightarrow>
     status \<times> connection_socket \<times> byte list \<times> size_t \<times> 'w" where
  "win32_socket_recv_nonblocking ws sock buffer pos len w =
     win32_recv_loop ws (sock_unflag SOCKET_FLAGS_RECEIVE_WOULD_BLOCK sock) buffer pos 0 len w"

function win32_send_loop ::
  "'w windows \<Rightarrow> connection_socket \<Rightarrow> byte list \<Rightarrow> size_t \<Rightarrow> size_t \<Rightarrow> size_t \<Rightarrow> 'w \<Rightarrow>
     status \<times> connection_socket \<times> size_t \<times> 'w" where
  "win32_send_loop ws sk buffer pos got len w =
     (if got < len then
        (if length buffer < pos + got + unat (dword (len - got)) then (Err UNDEFINED_BEHAVIOUR, sk, pos + got, w)
         else case ws_send ws (sk_sock sk) (chunk buffer (pos + got) (unat (dword (len - got)))) w of
           (SendFailed, w) \<Rightarrow> (Err CONNECTION_ERROR, sk, pos + got, w)
         | (SendWouldBlock, w) \<Rightarrow> (OK, sock_flag SOCKET_FLAGS_SEND_WOULD_BLOCK sk, pos + got, w)
         | (Sent k, w) \<Rightarrow>
             (if k = 0 then (if got = 0 then Err CONNECTION_ERROR else OK, sk, pos + got, w)
              else win32_send_loop ws sk buffer pos (got + k) len w))
      else (OK, sk, pos + got, w))"
  by pat_completeness auto
termination
  by (relation "measure (\<lambda>(ws, sk, buffer, pos, got, len, w). len - got)") auto

declare win32_send_loop.simps [simp del]

definition win32_socket_send_nonblocking ::
  "'w windows \<Rightarrow> connection_socket \<Rightarrow> byte list \<Rightarrow> size_t \<Rightarrow> size_t \<Rightarrow> 'w \<Rightarrow>
     status \<times> connection_socket \<times> size_t \<times> 'w" where
  "win32_socket_send_nonblocking ws sock buffer pos len w =
     win32_send_loop ws (sock_unflag SOCKET_FLAGS_SEND_WOULD_BLOCK sock) buffer pos 0 len w"


section \<open>Opening and closing\<close>

definition win32_socket_begin_server ::
  "'w windows \<Rightarrow> byte list \<Rightarrow> size_t \<Rightarrow> connection_socket \<Rightarrow> 'w \<Rightarrow> status \<times> connection_socket \<times> 'w" where
  "win32_socket_begin_server ws serv_addr backlog sock_out w =
     (case ws_wsasocket ws w of (sock, w) \<Rightarrow>
        if sock = INVALID_SOCKET then (Err CONNECTION_ERROR, sock_out, w)
        else case ws_ioctl_nonblocking ws sock w of (r, w) \<Rightarrow>
          if r \<noteq> 0 then (Err CONNECTION_ERROR, sock_out, ws_closesocket ws sock w)
          else case ws_bind ws sock serv_addr w of (r, w) \<Rightarrow>
            if r = SOCKET_ERROR then (Err CONNECTION_ERROR, sock_out, ws_closesocket ws sock w)
            else case ws_listen ws sock (sint (dword backlog)) w of (r, w) \<Rightarrow>
              if r = SOCKET_ERROR then (Err CONNECTION_ERROR, sock_out, ws_closesocket ws sock w)
              else (OK, sock_out\<lparr>sk_sock := sock, sk_flags := SOCKET_FLAGS_ACTIVE\<rparr>, w))"

definition win32_configure_socket :: "'w windows \<Rightarrow> int \<Rightarrow> 'w \<Rightarrow> status \<times> 'w" where
  "win32_configure_socket ws sock w =
     (if sock = 0 then (Err CONNECTION_ERROR, w)
      else case ws_ioctl_nonblocking ws sock w of (r, w) \<Rightarrow>
        if r \<noteq> 0 then (Err CONNECTION_ERROR, ws_closesocket ws sock w)
        else case ws_set_nodelay ws sock w of (r, w) \<Rightarrow>
          if r = SOCKET_ERROR then (Err CONNECTION_ERROR, ws_closesocket ws sock w) else (OK, w))"

definition win32_socket_accept ::
  "'w windows \<Rightarrow> connection_socket \<Rightarrow> connection_socket \<Rightarrow> 'w \<Rightarrow>
     status \<times> connection_socket \<times> connection_socket \<times> 'w" where
  "win32_socket_accept ws acceptor_sock client_sock w =
     (let acceptor_sock = sock_unflag SOCKET_FLAGS_RECEIVE_WOULD_BLOCK acceptor_sock in
      case ws_accept ws (sk_sock acceptor_sock) w of
        (AcceptWouldBlock, w) \<Rightarrow>
          (Err RETRY, sock_flag SOCKET_FLAGS_RECEIVE_WOULD_BLOCK acceptor_sock, client_sock, w)
      | (AcceptFailed, w) \<Rightarrow> (Err CONNECTION_ERROR, acceptor_sock, client_sock, w)
      | (Accepted fd, w) \<Rightarrow>
          (case win32_configure_socket ws fd w of (st, w) \<Rightarrow>
             (st, acceptor_sock, client_sock\<lparr>sk_sock := fd, sk_flags := SOCKET_FLAGS_ACTIVE\<rparr>, w)))"

definition win32_socket_close :: "'w windows \<Rightarrow> connection_socket \<Rightarrow> 'w \<Rightarrow> status \<times> connection_socket \<times> 'w" where
  "win32_socket_close ws sock w =
     (if sk_sock sock = 0 then (OK, sock, w)
      else (OK, sock_unflag SOCKET_FLAGS_ACTIVE sock, ws_closesocket ws (sk_sock sock) w))"

definition win32_server_socket_close :: "'w windows \<Rightarrow> connection_socket \<Rightarrow> 'w \<Rightarrow> status \<times> connection_socket \<times> 'w" where
  "win32_server_socket_close ws sock w =
     (if sk_sock sock = 0 then (OK, sock, w)
      else (OK, sock_unflag SOCKET_FLAGS_ACTIVE sock, ws_closesocket ws (sk_sock sock) w))"

definition win32_socket_connect ::
  "'w windows \<Rightarrow> byte list \<Rightarrow> connection_socket \<Rightarrow> 'w \<Rightarrow> status \<times> connection_socket \<times> 'w" where
  "win32_socket_connect ws addr sock_out w =
     (case ws_socket ws w of (sock, w) \<Rightarrow>
        case win32_configure_socket ws sock w of
          (Err e, w) \<Rightarrow> (Err e, sock_out, w)
        | (OK, w) \<Rightarrow>
            (case ws_connect ws sock addr w of
               (ConnectFailed, w) \<Rightarrow> (Err CONNECTION_ERROR, sock_out, ws_closesocket ws sock w)
             | (_, w) \<Rightarrow> (OK, sock_out\<lparr>sk_sock := sock, sk_flags := SOCKET_FLAGS_ACTIVE\<rparr>, w)))"

definition win32_socket_is_connection_complete :: "'w windows \<Rightarrow> int \<Rightarrow> 'w \<Rightarrow> status \<times> 'w" where
  "win32_socket_is_connection_complete ws sock w =
     (case ws_poll_connected ws sock w of
        (PollFailed, w) \<Rightarrow> (Err SYSTEM_ERROR, if sock \<noteq> 0 then ws_closesocket ws sock w else w)
      | (PollNothing, w) \<Rightarrow> (Err RETRY, w)
      | (PollEvents out err, w) \<Rightarrow>
          (if out then (OK, w)
           else if err then (Err CONNECTION_ERROR, if sock \<noteq> 0 then ws_closesocket ws sock w else w)
           else (Err INTERNAL_ERROR, w)))"

definition win32_be64toh :: "64 word \<Rightarrow> 64 word" where
  "win32_be64toh big_endian_64bits =
     (let b = le_bytes 8 (unat big_endian_64bits)
      in word_of_nat (le_val [b ! 7, b ! 6, b ! 5, b ! 4, b ! 3, b ! 2, b ! 1, b ! 0]))"


section \<open>Hashing\<close>

text \<open>The result is the 20 bytes of the storage.\<close>

definition win32_sha1 :: "'w windows \<Rightarrow> byte list \<Rightarrow> 'w \<Rightarrow> (error + byte list) \<times> 'w" where
  "win32_sha1 ws data w =
     (case ws_acquire ws w of
        (None, w) \<Rightarrow> (Inl INTERNAL_ERROR, w)
      | (Some prov, w) \<Rightarrow>
          (case ws_create_hash ws prov w of
             (None, w) \<Rightarrow> (Inl INTERNAL_ERROR, ws_release ws prov w)
           | (Some hash, w) \<Rightarrow>
               (case ws_hash_data ws hash (take (unat (dword (length data))) data) w of (ok, w) \<Rightarrow>
                  if \<not> ok then (Inl INTERNAL_ERROR, ws_release ws prov (ws_destroy_hash ws hash w))
                  else case ws_hash_value ws hash w of
                      (None, w) \<Rightarrow> (Inl INTERNAL_ERROR, ws_release ws prov (ws_destroy_hash ws hash w))
                    | (Some v, w) \<Rightarrow> (Inr v, ws_release ws prov (ws_destroy_hash ws hash w)))))"

text \<open>
  The conversion is asked for the size first, which counts the terminating zero; then for the text,
  whose bytes, as many as it reports, are the second result.
\<close>

definition win32_base64_encode :: "'w windows \<Rightarrow> byte list \<Rightarrow> size_t \<Rightarrow> error + byte list" where
  "win32_base64_encode ws binary_data base64_len =
     (let data = take (unat (dword (length binary_data))) binary_data in
      if unat (ws_base64_size ws data) > 29 then Inl INVALID_PARAMETER
      else case ws_base64 ws data of
          None \<Rightarrow> Inl INTERNAL_ERROR
        | Some s \<Rightarrow>
            (if s = [] then Inl UNDEFINED_BEHAVIOUR
             else let s = (if last s = 0 then butlast s else s)
                  in if length s > base64_len then Inl INVALID_PARAMETER else Inr s))"


section \<open>Clock, poll and identifiers\<close>

text \<open>The product wraps here; in C it is an overflow of a signed integer.\<close>

definition win32_monotonic :: "timespec \<Rightarrow> timespec \<Rightarrow> timespec" where
  "win32_monotonic freq counter = word_of_int (sint (counter * 1000000) sdiv sint freq)"

definition win32_clock_init :: "'w windows \<Rightarrow> 'w \<Rightarrow> timespec \<times> 'w" where
  "win32_clock_init ws w =
     (case ws_filetime ws w of (t, w) \<Rightarrow>
        case ws_counter ws w of (counter, w) \<Rightarrow>
          (t div 10 - win32_monotonic (ws_frequency ws) counter, w))"

definition win32_clock_gettime :: "'w windows \<Rightarrow> timespec \<Rightarrow> 'w \<Rightarrow> timespec \<times> 'w" where
  "win32_clock_gettime ws clock_epoch_offset w =
     (case ws_counter ws w of (counter, w) \<Rightarrow>
        (win32_monotonic (ws_frequency ws) counter + clock_epoch_offset, w))"

definition win32_poll_impl :: "'w windows \<Rightarrow> pollfd list \<Rightarrow> int \<Rightarrow> int \<Rightarrow> 'w \<Rightarrow> int \<times> pollfd list \<times> 'w" where
  "win32_poll_impl ws fds nfds timeout w =
     (if nfds = 0 then (0, fds, if timeout > 0 then ws_sleep ws timeout w else w)
      else case ws_poll ws fds nfds timeout w of
          (PollInterrupted, fds, w) \<Rightarrow> (0, fds, w)
        | (PollReturned n, fds, w) \<Rightarrow> (n, fds, w))"

definition win32_poll_add_fd :: "int \<Rightarrow> u16 \<Rightarrow> pollfd list \<Rightarrow> size_t \<Rightarrow> error + pollfd list" where
  "win32_poll_add_fd sock extra_events pollfds max_pollfds =
     (if c_int (length pollfds) \<ge> c_int max_pollfds then Inl INVALID_PARAMETER
      else Inr (pollfds @ [\<lparr>pf_fd = sock, pf_events = extra_events, pf_revents = 0\<rparr>]))"

text \<open>The values of POLLIN and POLLOUT in winsock2.h.\<close>

definition WIN32_POLLIN :: u16 where "WIN32_POLLIN = 0x300"
definition WIN32_POLLOUT :: u16 where "WIN32_POLLOUT = 0x10"

definition win32_poll_impl_add_fd :: "int \<Rightarrow> u16 \<Rightarrow> pollfd list \<Rightarrow> size_t \<Rightarrow> error + pollfd list" where
  "win32_poll_impl_add_fd sock_handle sock_flags pollfds max_pollfds =
     (if \<not> FLAGS_CHECK sock_flags SOCKET_FLAGS_ACTIVE \<or> sock_handle = 0 then Inr pollfds
      else win32_poll_add_fd sock_handle
             ((if FLAGS_CHECK sock_flags SOCKET_FLAGS_WANT_SEND then WIN32_POLLOUT else 0) OR
              (if FLAGS_CHECK sock_flags SOCKET_FLAGS_WANT_RECEIVE then WIN32_POLLIN else 0)) pollfds max_pollfds)"

definition win32_nodeid_newrandom :: "'w windows \<Rightarrow> nodeid \<Rightarrow> 'w \<Rightarrow> status \<times> nodeid \<times> 'w" where
  "win32_nodeid_newrandom ws a w =
     (case ws_uuid ws w of
        (None, w) \<Rightarrow> (Err INTERNAL_ERROR, a, w)
      | (Some uuid, w) \<Rightarrow> (OK, a\<lparr>nodeid_data := uuid\<rparr>, w))"

definition win32_if_nametoindex :: "byte list \<Rightarrow> u32" where
  "win32_if_nametoindex ifname = 0"

end
