(* ===== verification/RRL_Win32Spec.thy ===== *)
theory RRL_Win32Spec
  imports RRL_Win32
begin

text \<open>
  The Win32 platform against the POSIX platform: an adapter makes Windows an operating system of the other
  platform, and each socket operation of Win32 is compared with that of POSIX over the adapter; where the two
  differ, the difference is stated. And the Win32 clock, which is right until a product overflows.
\<close>


section \<open>Windows as an operating system\<close>

text \<open>Failures are -1 there; a socket that could not be created is 0, and nothing can be done with it.\<close>

definition failed_if :: "bool \<times> 'w \<Rightarrow> int \<times> 'w" where
  "failed_if r = (if fst r then -1 else 0, snd r)"

definition posix_of :: "('w \<Rightarrow> int \<times> 'w) \<Rightarrow> 'w windows \<Rightarrow> 'w os" where
  "posix_of create ws =
     \<lparr>os_recv = \<lambda>s n. ws_recv ws s (dword n),
      os_send = \<lambda>s d. ws_send ws s (take (unat (dword (length d))) d),
      os_close = \<lambda>s w. if s = 0 then w else ws_closesocket ws s w,
      os_accept = ws_accept ws,
      os_socket = \<lambda>w. case create w of (s, w) \<Rightarrow> (if s = INVALID_SOCKET then 0 else s, w),
      os_get_flags = \<lambda>s w. (if s = 0 then -1 else 0, w),
      os_set_flags = \<lambda>s fl w. failed_if (map_prod (\<lambda>r. r \<noteq> 0) id (ws_ioctl_nonblocking ws s w)),
      os_set_nodelay = \<lambda>s w. failed_if (map_prod (\<lambda>r. r = SOCKET_ERROR) id (ws_set_nodelay ws s w)),
      os_nonblock = 0,
      os_bind = \<lambda>s a w. failed_if (map_prod (\<lambda>r. r = SOCKET_ERROR) id (ws_bind ws s a w)),
      os_listen = \<lambda>s n w. failed_if (map_prod (\<lambda>r. r = SOCKET_ERROR) id (ws_listen ws s (sint (dword n)) w)),
      os_connect = ws_connect ws,
      os_poll_connected = ws_poll_connected ws,
      os_rand = \<lambda>w. (0, w),
      os_sha1 = \<lambda>d. None,
      os_base64 = \<lambda>d. case win32_base64_encode ws d 28 of Inl e \<Rightarrow> None | Inr s \<Rightarrow> Some s\<rparr>"

lemmas posix_of_simps = posix_of_def failed_if_def

text \<open>What Windows documents of an invalid socket: calls on it fail and change nothing.\<close>

definition invalid_socket_inert :: "'w windows \<Rightarrow> bool" where
  "invalid_socket_inert ws \<longleftrightarrow> (\<forall>w. ws_ioctl_nonblocking ws INVALID_SOCKET w = (SOCKET_ERROR, w) \<and>
     ws_closesocket ws INVALID_SOCKET w = w)"

text \<open>WSARecv and WSASend never report more bytes than the ULONG they were given.\<close>

definition windows_bounded :: "'w windows \<Rightarrow> bool" where
  "windows_bounded ws \<longleftrightarrow> (\<forall>s n w d w'. ws_recv ws s n w = (Received d, w') \<longrightarrow> length d \<le> unat n) \<and>
     (\<forall>s d w k w'. ws_send ws s d w = (Sent k, w') \<longrightarrow> k \<le> length d)"

lemma unat_dword_le: "unat (dword n) \<le> n"
  by (simp add: dword_def unat_of_nat)

lemma posix_of_bounded:
  assumes "windows_bounded ws"
  shows "os_bounded (posix_of create ws)"
proof -
  have "length d \<le> n" if "ws_recv ws s (dword n) w = (Received d, w')" for s n w d w'
    using assms that unat_dword_le [of n] le_trans unfolding windows_bounded_def by blast
  moreover have "k \<le> length d" if "ws_send ws s (take (unat (dword (length d))) d) w = (Sent k, w')" for s d w k w'
    using assms that unfolding windows_bounded_def by (metis le_trans length_take min.cobounded1)
  ultimately show ?thesis by (simp add: os_bounded_def posix_of_def)
qed


section \<open>The same operations\<close>

lemma recv_loop_same: "win32_recv_loop ws sk buffer pos got len w = recv_loop (posix_of create ws) sk buffer pos got len w"
proof (induction ws sk buffer pos got len w rule: win32_recv_loop.induct)
  case (1 ws sk buffer pos got len w)
  show ?case
    using 1 by (subst win32_recv_loop.simps, subst recv_loop.simps)
      (auto simp: posix_of_def split: prod.split recv_result.split)
qed

lemma send_loop_same:
  "pos + len \<le> length buffer \<Longrightarrow>
     win32_send_loop ws sk buffer pos got len w = send_loop (posix_of create ws) sk buffer pos got len w"
proof (induction ws sk buffer pos got len w rule: win32_send_loop.induct)
  case (1 ws sk buffer pos got len w)
  let ?n = "len - got"
  show ?case
  proof (cases "got < len")
    case True
    have n: "unat (dword ?n) \<le> ?n" by (rule unat_dword_le)
    then have b: "\<not> length buffer < pos + got + unat (dword ?n)" "\<not> length buffer < pos + len" using 1(2) True by simp_all
    have l: "length (chunk buffer (pos + got) ?n) = ?n" using 1(2) True by (simp add: chunk_def)
    have c: "take (unat (dword ?n)) (chunk buffer (pos + got) ?n) = chunk buffer (pos + got) (unat (dword ?n))"
      using n by (simp add: chunk_def min_absorb1)
    show ?thesis
      using True b 1 by (subst win32_send_loop.simps, subst send_loop.simps)
        (auto simp: posix_of_def l c split: prod.split send_result.split)
  next
    case False
    then show ?thesis by (subst win32_send_loop.simps, subst send_loop.simps) simp
  qed
qed

lemma recv_same:
  "win32_socket_recv_nonblocking ws sk buffer pos len w = tcp_socket_recv_nonblocking (posix_of create ws) sk buffer pos len w"
  by (simp add: win32_socket_recv_nonblocking_def tcp_socket_recv_nonblocking_def recv_loop_same [of ws _ _ _ _ _ _ create])

lemma send_same:
  assumes "pos + len \<le> length buffer"
  shows "win32_socket_send_nonblocking ws sk buffer pos len w = tcp_socket_send_nonblocking (posix_of create ws) sk buffer pos len w"
  by (simp add: win32_socket_send_nonblocking_def tcp_socket_send_nonblocking_def send_loop_same [OF assms, of ws _ _ _ create])

lemma configure_same: "win32_configure_socket ws s w = tcp_configure_socket (posix_of create ws) s w"
  by (auto simp: win32_configure_socket_def tcp_configure_socket_def posix_of_simps split: prod.split)


lemma accept_same: "win32_socket_accept ws a k w = tcp_socket_accept (posix_of create ws) a k w"
  unfolding win32_socket_accept_def tcp_socket_accept_def configure_same [of ws _ _ create]
  by (simp add: posix_of_def)

lemma complete_same: "win32_socket_is_connection_complete ws s w = tcp_socket_is_connection_complete (posix_of create ws) s w"
  by (auto simp: win32_socket_is_connection_complete_def tcp_socket_is_connection_complete_def posix_of_def
      split: prod.split poll_result.split)

lemma close_same:
  "win32_socket_close ws sk w = (if sk_sock sk = 0 then (OK, sk, w) else tcp_socket_close (posix_of create ws) sk w)"
  "win32_server_socket_close ws sk w = (if sk_sock sk = 0 then (OK, sk, w) else tcp_server_socket_close (posix_of create ws) sk w)"
  by (simp_all add: win32_socket_close_def win32_server_socket_close_def tcp_socket_close_def tcp_server_socket_close_def posix_of_def)

text \<open>A failed connect has another code.\<close>

definition win32_code :: "status \<Rightarrow> status" where
  "win32_code st = (if st = Err GENERIC_ERROR then Err CONNECTION_ERROR else st)"

lemma configure_code: "tcp_configure_socket os s w = (Err e, w') \<Longrightarrow> e = CONNECTION_ERROR"
  by (auto simp: tcp_configure_socket_def split: prod.splits if_splits)

lemma connect_same:
  assumes "invalid_socket_inert ws"
  shows "win32_socket_connect ws a sk w = map_prod win32_code id (tcp_socket_connect (posix_of (ws_socket ws) ws) a sk w)"
proof -
  let ?os = "posix_of (ws_socket ws) ws"
  obtain s w1 where s: "ws_socket ws w = (s, w1)" by (metis surj_pair)
  show ?thesis
  proof (cases "s = INVALID_SOCKET")
    case True
    have "win32_configure_socket ws INVALID_SOCKET w1 = (Err CONNECTION_ERROR, w1)"
      using assms by (simp add: invalid_socket_inert_def win32_configure_socket_def INVALID_SOCKET_def SOCKET_ERROR_def)
    moreover have "tcp_configure_socket ?os 0 w1 = (Err CONNECTION_ERROR, w1)"
      by (simp add: tcp_configure_socket_def posix_of_def)
    ultimately show ?thesis
      using s True by (simp add: win32_socket_connect_def tcp_socket_connect_def posix_of_def win32_code_def)
  next
    case False
    then have o: "os_socket ?os w = (s, w1)" using s by (simp add: posix_of_def)
    obtain st w2 where c: "tcp_configure_socket ?os s w1 = (st, w2)" by (metis surj_pair)
    show ?thesis
    proof (cases st)
      case (Err e)
      then show ?thesis
        using o s c configure_code [of ?os s w1 e w2]
        by (simp add: win32_socket_connect_def tcp_socket_connect_def configure_same [of ws _ _ "ws_socket ws"] win32_code_def)
    next
      case OK
      then have "s \<noteq> 0" using c by (auto simp: tcp_configure_socket_def posix_of_def)
      then show ?thesis
        using o s c OK
        by (auto simp: win32_socket_connect_def tcp_socket_connect_def configure_same [of ws _ _ "ws_socket ws"] win32_code_def
            posix_of_def split: prod.split connect_result.split)
    qed
  qed
qed

lemma begin_server_same:
  assumes "fst (ws_wsasocket ws w) \<noteq> 0"
  shows "win32_socket_begin_server ws a n sk w = tcp_socket_begin_server (posix_of (ws_wsasocket ws) ws) a n sk w"
  using assms
  by (auto simp: win32_socket_begin_server_def tcp_socket_begin_server_def posix_of_simps split: prod.split)

text \<open>
  C31. The socket operations of Win32 against those of POSIX over the adapter of Windows, for a Windows that
  keeps to the bounds it documents for receiving and sending and whose calls on an invalid socket fail.
  Receiving, accepting and waiting for a connection are the same, and so is sending from within the buffer.
  Three operations differ: closing leaves a socket 0 alone, which the other platform closes; a failure
  to connect that is a generic error there is a connection error here; and a server is started on a socket of WSASocket, here one that is not 0,
  so it is the same over the adapter with that call in place of socket. The adapter keeps to the bounds that
  the refinement of the transport's receiving asks of an operating system.
\<close>

theorem win32_sockets_as_posix:
  assumes "windows_bounded ws" and "invalid_socket_inert ws"
    and "os = posix_of (ws_socket ws) ws" and "pos + len \<le> length buffer" and "fst (ws_wsasocket ws w) \<noteq> 0"
  shows "os_bounded os \<and>
    win32_socket_recv_nonblocking ws sk buffer pos len w = tcp_socket_recv_nonblocking os sk buffer pos len w \<and>
    win32_socket_send_nonblocking ws sk buffer pos len w = tcp_socket_send_nonblocking os sk buffer pos len w \<and>
    win32_socket_accept ws sk sk' w = tcp_socket_accept os sk sk' w \<and>
    win32_socket_is_connection_complete ws s w = tcp_socket_is_connection_complete os s w \<and>
    win32_socket_close ws sk w = (if sk_sock sk = 0 then (OK, sk, w) else tcp_socket_close os sk w) \<and>
    win32_socket_connect ws a sk w = map_prod win32_code id (tcp_socket_connect os a sk w) \<and>
    win32_socket_begin_server ws a n sk w = tcp_socket_begin_server (posix_of (ws_wsasocket ws) ws) a n sk w"
  unfolding assms(3)
  by (intro conjI posix_of_bounded [OF assms(1)] recv_same send_same [OF assms(4)] accept_same complete_same close_same(1)
      connect_same [OF assms(2)] begin_server_same [OF assms(5)])


section \<open>The clock\<close>

lemma monotonic_exact:
  assumes "0 < sint f" and "0 \<le> sint c" and "sint c < 9223372036855"
  shows "win32_monotonic f c = word_of_int (sint c * 1000000 div sint f)"
proof -
  have "sint (c * 1000000) = sint c * 1000000"
    using assms(2,3) by (simp add: sint_word_ariths signed_take_bit_int_eq_self)
  moreover have "sint c * 1000000 sdiv sint f = sint c * 1000000 div sint f"
    using assms(1,2) by (cases "sint c = 0") (simp_all add: signed_divide_int_def)
  ultimately show ?thesis by (simp only: win32_monotonic_def)
qed

lemma monotonic_wrapped:
  assumes "0 < sint f"
  shows "win32_monotonic f 9223372036855 = word_of_int (- (9223372036854551616 div sint f))"
  using assms by (simp add: win32_monotonic_def signed_divide_int_def)

text \<open>
  C32. The Win32 clock measures the time between two readings of the counter, in microseconds, as long as the
  counter stays below 9223372036855; at this value, with a usual frequency of ten million after less than
  eleven days, the product of the counter overflows and the time jumps back.
\<close>

theorem win32_clock_jumps_back:
  assumes "3 \<le> sint (ws_frequency ws)" and "sint (ws_frequency ws) < 2 ^ 62"
    and "0 \<le> sint (fst (ws_counter ws w1))" and "sint (fst (ws_counter ws w1)) \<le> sint (fst (ws_counter ws w2))"
    and "sint (fst (ws_counter ws w2)) < 9223372036855"
    and "fst (ws_counter ws w3) = 9223372036854" and "fst (ws_counter ws w4) = 9223372036855"
  shows "fst (win32_clock_gettime ws e w2) - fst (win32_clock_gettime ws e w1) =
      word_of_int (sint (fst (ws_counter ws w2)) * 1000000 div sint (ws_frequency ws) -
        sint (fst (ws_counter ws w1)) * 1000000 div sint (ws_frequency ws)) \<and>
    sint (fst (win32_clock_gettime ws e w4) - fst (win32_clock_gettime ws e w3)) < 0"
proof -
  let ?f = "sint (ws_frequency ws)" and ?g = "\<lambda>w. fst (win32_clock_gettime ws e w)"
  have f: "0 < ?f" using assms(1) by simp
  have g: "?g w = win32_monotonic (ws_frequency ws) (fst (ws_counter ws w)) + e" for w
    by (simp add: win32_clock_gettime_def split: prod.split)
  have "?g w2 - ?g w1 = word_of_int (sint (fst (ws_counter ws w2)) * 1000000 div ?f - sint (fst (ws_counter ws w1)) * 1000000 div ?f)"
    using assms(3,4,5) by (simp add: g monotonic_exact [OF f])
  moreover have "sint (?g w4 - ?g w3) < 0"
  proof -
    let ?a = "9223372036854551616 div ?f" and ?b = "9223372036854000000 div ?f"
    have "?g w4 - ?g w3 = word_of_int (- ?a - ?b)" (is "_ = word_of_int ?d")
      using monotonic_wrapped [OF f] monotonic_exact [OF f, of 9223372036854] by (simp add: g assms(6,7))
    moreover have "?a \<le> 9223372036854551616 div 3" "?b \<le> 9223372036854000000 div 3"
      using assms(1) by (simp_all only: zdiv_mono2)
    moreover have "1 \<le> ?a" using assms(2) f by (simp add: pos_imp_zdiv_pos_iff int_one_le_iff_zero_less)
    moreover have "0 \<le> ?b" using f by (simp add: pos_imp_zdiv_nonneg_iff)
    moreover have "sint (word_of_int ?d :: 64 word) = ?d" if "- (2 ^ 63) \<le> ?d" "?d < 2 ^ 63"
      using that by (simp only: signed_of_int) (simp add: signed_take_bit_int_eq_self)
    ultimately show ?thesis by simp
  qed
  ultimately show ?thesis by simp
qed


text \<open>Windows with a counter that the world is, and sockets that take and give two bytes at a time.\<close>

definition sample_windows :: "nat windows" where
  "sample_windows =
     \<lparr>ws_recv = \<lambda>s n w. (Received (replicate (min 2 (unat n)) 7), w), ws_send = \<lambda>s d w. (Sent (min 2 (length d)), w),
      ws_closesocket = \<lambda>s w. w, ws_accept = \<lambda>s w. (AcceptWouldBlock, w),
      ws_wsasocket = \<lambda>w. (8, w), ws_socket = \<lambda>w. (9, w),
      ws_ioctl_nonblocking = \<lambda>s w. (if s = INVALID_SOCKET then SOCKET_ERROR else 0, w),
      ws_set_nodelay = \<lambda>s w. (0, w), ws_bind = \<lambda>s a w. (0, w), ws_listen = \<lambda>s n w. (0, w),
      ws_connect = \<lambda>s a w. (ConnectFailed, w), ws_poll_connected = \<lambda>s w. (PollNothing, w),
      ws_poll = \<lambda>fds n t w. (PollReturned 0, fds, w), ws_sleep = \<lambda>t w. w,
      ws_frequency = 10000000, ws_counter = \<lambda>w. (word_of_nat w, w), ws_filetime = \<lambda>w. (0, w),
      ws_acquire = \<lambda>w. (None, w), ws_create_hash = \<lambda>p w. (None, w), ws_hash_data = \<lambda>h d w. (False, w),
      ws_hash_value = \<lambda>h w. (None, w), ws_destroy_hash = \<lambda>h w. w, ws_release = \<lambda>p w. w,
      ws_base64_size = \<lambda>d. 0, ws_base64 = \<lambda>d. None, ws_uuid = \<lambda>w. (None, w)\<rparr>"

lemma sample_windows_ok: "windows_bounded sample_windows" "invalid_socket_inert sample_windows"
  by (auto simp: windows_bounded_def invalid_socket_inert_def sample_windows_def)

theorem win32_sockets_as_posix_witness:
  "win32_socket_recv_nonblocking sample_windows zero_socket (replicate 3 0) 0 3 0 =
     tcp_socket_recv_nonblocking (posix_of (ws_socket sample_windows) sample_windows) zero_socket (replicate 3 0) 0 3 0 \<and>
   win32_socket_connect sample_windows [] zero_socket 0 = (Err CONNECTION_ERROR, zero_socket, 0)"
proof -
  let ?os = "posix_of (ws_socket sample_windows) sample_windows"
  have b: "0 + 3 \<le> length (replicate 3 (0 :: byte))" and s: "fst (ws_wsasocket sample_windows (0 :: nat)) \<noteq> 0"
    by (simp_all add: sample_windows_def)
  have "tcp_socket_connect ?os [] zero_socket 0 = (Err GENERIC_ERROR, zero_socket, 0)"
    by (simp add: tcp_socket_connect_def tcp_configure_socket_def posix_of_simps sample_windows_def INVALID_SOCKET_def SOCKET_ERROR_def)
  then show ?thesis
    using win32_sockets_as_posix [OF sample_windows_ok refl b s, of zero_socket zero_socket 5 "[]" 1]
    by (simp add: win32_code_def)
qed

theorem win32_clock_jumps_back_witness:
  "fst (win32_clock_gettime sample_windows 5 20000000) - fst (win32_clock_gettime sample_windows 5 10000000) = 1000000 \<and>
   sint (fst (win32_clock_gettime sample_windows 5 9223372036855) - fst (win32_clock_gettime sample_windows 5 9223372036854)) < 0"
proof -
  have f: "ws_frequency sample_windows = 10000000" and c: "fst (ws_counter sample_windows w) = word_of_nat w" for w
    by (simp_all add: sample_windows_def)
  show ?thesis
    using win32_clock_jumps_back [of sample_windows 10000000 20000000 9223372036854 9223372036855 5]
    by (simp add: f c)
qed

end
