(* ===== verification/Spec2Isabelle.thy ===== *)
theory Spec2Isabelle
  imports RRL_HeaderSpec RRL_FieldSpec RRL_MessageSpec RRL_WalkSpec RRL_ConnLife RRL_ConnSend RRL_ListSpec RRL_TcpSpec RRL_WebSpec RRL_UrlSpec RRL_TypedSpec RRL_NodeMessage RRL_NodeSpec RRL_ServiceSpec
    RRL_RequestSpec RRL_HandshakeSpec RRL_RunSpec RRL_PollSpec RRL_CapabilitySpec RRL_Win32Spec
begin

text \<open>
  A verification development for Robot Raconteur Lite (C, src/src and src/include).

  The program. The library exchanges messages of the Robot Raconteur protocol. A message is a header,
  entries behind it, and in each entry elements, which carry data or nested elements; it is encoded in
  version 2 or version 4 of the format. Messages are written into and read from buffer vectors, lists
  of memory segments (array.c); message.c writes and reads headers, walks the parts of a message in
  place and builds messages part by part, patching sizes and counts when a part ends; message_data.c
  reads and writes the data of elements by their type. A connection (connection.c) cuts what it receives
  into messages and sends messages out, over a transport (tcp_transport.c, plain or websocket, on the
  sockets of a platform). A node (node.c) has a list of connections, and lists of services with their
  objects, of service definitions and of pending requests: it reports what its connections have to say as
  events, answers requests about connections, services and types, hands requests to the handlers of
  objects and responses to those of pending requests, and takes a client through its handshake. A program
  calls poll.c, which waits for the sockets and moves the bytes, and the run operations of the node in turns.

  Data. A segment is a list of bytes with its length, a buffer vector a list of segments; sizes and
  offsets (size_t) are natural numbers whose arithmetic wraps at 2^64 where the code's does
  (sz_add, sz_sub, sz_mul); the integers of the format are words of their width. A status is OK or an
  error constructor for each code of err.h; UNDEFINED_BEHAVIOUR stands for an access outside a
  buffer, so that the safety theorems exclude it. A string that a reader fills is the memory it is
  given, or NULL, and its length; a string that is only read is a list of bytes. Cursor records leave
  out the pointer to the buffer vector, which is an argument of the operations.

  Theories, and what each models.
    RRL_Prelude: size_t arithmetic, status codes, sequences of statements with early return
      (run_steps) and their safety rule, little-endian bytes.
    RRL_Buffer: buffers and buffer vectors of array.c, and the refinement of the segment-wise copy.
    RRL_Wire: the scalar accessors of array_types.c and the static read and write helpers of
      message.c; RRL_Codec: their correctness, as instances of the locales of field readers and codecs.
    RRL_NodeId: nodeid.c, with strtoul of base 16 written out.
    RRL_Frame: the local variables of a header reader or writer, and the steps both are made of.
    RRL_Header, RRL_HeaderRead, RRL_HeaderWrite: message headers of both versions.
    RRL_Entry, RRL_EntryCodec: entry headers. RRL_Element, RRL_ElementCodec: element headers.
    RRL_Walk: the cursors of message.c and the searches by name; RRL_Layout: a locale of elements in
      sequence, interpreted for both versions, with the searches proved once inside it.
    RRL_Build: the routines that begin and end the parts of a message and write raw data;
      RRL_Assemble, RRL_AssembleMessage, RRL_Compose: what they put into the buffer.
    RRL_MessageWalk: a reader over the bytes of a whole message.
    RRL_HeaderSpec, RRL_FieldSpec, RRL_MessageSpec, RRL_WalkSpec: the properties of messages.
    RRL_String: the string routines of array.c and util.c.
    RRL_Connection: the state of a connection and the operations on one connection, connection.c and
      connection.h; RRL_ConnSpec, RRL_ConnLife (receiving), RRL_ConnSend (sending, closing, waking): their
      properties, over step relations in which receiving, sending, waiting and closing interleave.
    RRL_ConnList: the list of connections of connection.c, a linked list in a store of objects, with the
      operations that serve all of them through their tables of functions; RRL_ListSpec: its properties,
      stated by the list of addresses that a store represents.
    RRL_Socket: the socket operations of tcp_transport_posix.c over the calls of an operating system, a
      parameter that acts on a world the library does not see. RRL_Tcp, RRL_Handshake, RRL_TcpList:
      tcp_transport.c, a single connection, its handshake, and acceptors and clients on the list;
      RRL_TcpSpec: that receiving over TCP keeps to the steps of a connection.
    RRL_WebFrame: what a websocket frame is, and a locale for operating systems whose sockets keep the
      bytes they are given in order; RRL_WebRecv, RRL_WebSend: both ends of a frame inside that locale;
      RRL_WebSpec: a message from one end to the other, and where the framing fails.
    RRL_Url: the URL parser of url.c; RRL_UrlSpec: its properties.

    RRL_ArrayTypes: the arrays of array_types.c; RRL_Typed: the typed readers and writers of
      message_data.c, one operation over a record that describes a type where the code has one copy per
      type; RRL_TypedSpec: their properties, with the types as interpretations of one locale.
    RRL_Trim: a reader of a receive buffer that is longer than the message in it.
    RRL_Node: the state of a node, its connections, and sending and receiving the message of one entry;
      RRL_NodeMessage: a message from one node to the other.
    RRL_NodeEvent: the events of a node and its waking; RRL_NodeSpec: a cycle over the connections.
    RRL_Linked: lists with links both ways over a store; RRL_NodeService: the services, objects and
      service definitions of a node and the searches among them; RRL_ServiceSpec: their properties.
    RRL_System: everything a node reaches through pointers (connections, clients, services, pending
      requests, the program's own world) as one record, and the handlers of the program as an environment.
    RRL_NodeRequest: pending requests, the responses to them and their timeouts; RRL_RequestSpec.
    RRL_NodeSpecial: the requests about connections; RRL_NodeAnswer: the answers about services and
      object types; RRL_ClientHandshake: the handshake of a client; RRL_HandshakeSpec: their properties;
      RRL_CapabilitySpec: the capabilities that nodes announce to each other.
    RRL_NodeRun: the loops that run events through the handlers; RRL_RunSpec: their properties.
    RRL_Poll: waiting for the sockets, poll.c, with the platform's poll and clock; RRL_PollSpec.
    RRL_Win32: the Win32 platform over the calls of Windows; RRL_Win32Spec: its socket operations
      against those of the POSIX platform over an adapter of Windows, and how long its clock is right.

  What the lemmas show. Every field that is written is read back, with the exact bytes and the exact
  failures (RRL_Codec). A header that is written is read back, in both versions, at any offset and in
  any segmentation of the buffer, and readers of arbitrary bytes stay inside the buffer
  (RRL_HeaderSpec). A message that is assembled from entries and raw data elements is the encoding of
  its parts, and a client that walks to an entry and searches an element by name gets the data that were
  written (RRL_MessageSpec). Searches return on any bytes and cursors stay in their window
  (RRL_WalkSpec). A connection cuts the bytes it receives into messages whatever pieces they come in,
  reports each complete message, and sends messages in full and in order; its closing runs its course and
  leaves it idle;
  and it may ask for more bytes than its buffer holds (RRL_ConnSpec, RRL_ConnLife, RRL_ConnSend). The
  list operations act as operations on a list, and a set up node has its connections idle and in order,
  of which an acceptor looks at every second one (RRL_ListSpec). What the TCP transport does when it receives is a run of the connection, so the
  cutting into messages carries over to bytes from the operating system (RRL_TcpSpec). A message sent in
  a websocket frame arrives whole and unmasked, when its bytes are all that come; with more behind them
  the receiver runs past the end of a frame and never finds it again (RRL_WebSpec). A URL that is put together from its parts
  is parsed into them (RRL_UrlSpec). Data of every type are read back by the reader of the type and
  refused by all others (RRL_TypedSpec). The message a node sends is what the other node receives
  (RRL_NodeMessage). One cycle reports every connection that has something to report (RRL_NodeSpec). The
  objects of a service act as a map from paths to objects; an object that was removed with another one
  behind it and is added again makes their list a cycle (RRL_ServiceSpec). A response reaches the one request that waits for it, and the node wakes for
  timeouts and heartbeats (RRL_RequestSpec). The handshake never runs ahead of the answers received, and
  the requests about connections leave clients, requests and services alone (RRL_HandshakeSpec). The
  capabilities a node announces are those the other node finds (RRL_CapabilitySpec). A message for an
  object reaches the handler of that object once and is consumed whatever that returns (RRL_RunSpec). The operating system waits for exactly
  the sockets that are open, and not much longer than asked (RRL_PollSpec). The socket operations of Win32
  are compared one by one with those of the POSIX platform over an adapter of Windows (RRL_Win32Spec).

  Loops. The copy loop and the comparison of names are functions with a termination measure. The
  search loop of find_element is while (1) in the code, and loops over linked lists end only when the
  links do: they are partial functions into option, None for a loop that does not end, and that they
  return is part of the theorems, by induction on the list that the store represents. The event loops of
  the node call handlers of the program and are partial functions as well. No definition has fuel.

  Bounds. A buffer vector is well formed when it has less than 2^63 bytes, as every object in memory
  has. Contents have to fit the fields that hold their sizes; the conditions (message_ok, entry_ok,
  raw_ok) are those the writers check or, where they check nothing, the widths of the fields.

  Parameters. The calls of the operating systems (sockets, poll, clock, random numbers), SHA-1 and base64 of
  OpenSSL, and the conversion of addresses are parameters over a world that the library does not see. So
  are the handlers of the program that uses the library; a handler may change everything it reaches. What
  the code reads from structures on its stack before it has set them is a parameter too (uninitialised).

  Not modelled. The variant of the build in which handlers are reached without pointers to functions,
  which differs in how they are called; what only calls the operating system (addresses, the byte order
  on Windows, random identifiers of libuuid); the examples and the tests.
\<close>

end
